(* ===== verification/Gw_Prelude.thy ===== *)
theory Gw_Prelude
  imports Main "HOL-Library.Monad_Syntax"
begin

text \<open>
  Shared vocabulary of the development.

  A computation of the C program that may end in undefined behaviour (a NULL
  dereference, an array access outside the allocated block, an unlock of a mutex
  through a NULL pointer) has an option type: \<open>None\<close> is "the process has crashed
  or memory is corrupted", \<open>Some\<close> the normal result.  \<open>rd\<close> and \<open>wr\<close> are
  C array accesses with an \<open>int\<close> index.

  The collections: \<open>gw_frame\<close> holds the equations that say which part of the
  daemon's state an operation leaves alone, \<open>gw_inv\<close> the preservation lemmas of
  the structural invariant.
\<close>

named_theorems gw_frame \<open>state components an operation leaves unchanged\<close>
named_theorems gw_inv \<open>preservation of the structural invariant\<close>

section \<open>C arrays\<close>

definition rd :: "'a list \<Rightarrow> int \<Rightarrow> 'a option" where
  "rd xs i = (if 0 \<le> i \<and> i < int (length xs) then Some (xs ! nat i) else None)"

definition wr :: "'a list \<Rightarrow> int \<Rightarrow> 'a \<Rightarrow> 'a list option" where
  "wr xs i x = (if 0 \<le> i \<and> i < int (length xs) then Some (xs[nat i := x]) else None)"

lemma rd_None [simp]: "rd xs i = None \<longleftrightarrow> i < 0 \<or> int (length xs) \<le> i"
  by (auto simp: rd_def)

lemma wr_None [simp]: "wr xs i x = None \<longleftrightarrow> i < 0 \<or> int (length xs) \<le> i"
  by (auto simp: wr_def)

lemma rd_Some: "rd xs i = Some x \<longleftrightarrow> 0 \<le> i \<and> i < int (length xs) \<and> xs ! nat i = x"
  by (auto simp: rd_def)

lemma wr_Some: "wr xs i x = Some ys \<longleftrightarrow> 0 \<le> i \<and> i < int (length xs) \<and> ys = xs[nat i := x]"
  by (auto simp: wr_def)

lemma wr_length: "wr xs i x = Some ys \<Longrightarrow> length ys = length xs"
  by (auto simp: wr_Some)

lemma rd_wr: "wr xs i x = Some ys \<Longrightarrow> rd ys j = (if j = i then Some x else rd xs j)"
  by (auto simp: wr_Some rd_def nth_list_update)

lemma rd_update:
  "0 \<le> i \<Longrightarrow> rd (xs[nat i := x]) j =
     (if j = i \<and> i < int (length xs) then Some x else rd xs j)"
  by (auto simp: rd_def nth_list_update)

lemma rd_of_nat [simp]: "n < length xs \<Longrightarrow> rd xs (int n) = Some (xs ! n)"
  by (simp add: rd_def)

lemma wr_of_nat [simp]: "n < length xs \<Longrightarrow> wr xs (int n) x = Some (xs[n := x])"
  by (simp add: wr_def)

section \<open>Arrays of pointers\<close>

text \<open>
  \<open>slot xs i\<close> is the guarded lookup the pool getters do: a pointer, NULL outside
  the range.  \<open>occupied\<close> counts the pointers that are not NULL.
\<close>

definition slot :: "'a option list \<Rightarrow> int \<Rightarrow> 'a option" where
  "slot xs i = (if 0 \<le> i \<and> i < int (length xs) then xs ! nat i else None)"

definition occupied :: "'a option list \<Rightarrow> nat" where
  "occupied xs = length (filter (\<lambda>s. s \<noteq> None) xs)"

lemma slot_SomeD: "slot xs i = Some x \<Longrightarrow> 0 \<le> i \<and> i < int (length xs) \<and> xs ! nat i = Some x"
  by (auto simp: slot_def split: if_splits)

lemma slot_rd: "slot xs i = Some x \<longleftrightarrow> rd xs i = Some (Some x)"
  by (auto simp: slot_def rd_def)

lemma slot_update:
  "0 \<le> i \<Longrightarrow> slot (xs[nat i := x]) j = (if j = i \<and> i < int (length xs) then x else slot xs j)"
  by (auto simp: slot_def nth_list_update)

lemma slot_replicate [simp]: "slot (replicate n None) i = None"
  by (auto simp: slot_def)

lemma occupied_replicate [simp]: "occupied (replicate n None) = 0"
  by (simp add: occupied_def)

lemma occupied_append [simp]: "occupied (xs @ ys) = occupied xs + occupied ys"
  by (simp add: occupied_def)

lemma occupied_Cons [simp]: "occupied (x # xs) = (if x = None then 0 else 1) + occupied xs"
  by (simp add: occupied_def)

lemma occupied_Nil [simp]: "occupied [] = 0"
  by (simp add: occupied_def)

lemma occupied_le: "occupied xs \<le> length xs"
  by (simp add: occupied_def)

lemma occupied_fill:
  "i < length xs \<Longrightarrow> xs ! i = None \<Longrightarrow> occupied (xs[i := Some x]) = Suc (occupied xs)"
  by (induction xs arbitrary: i) (auto simp: nth_Cons' split: nat.splits)

lemma occupied_clear:
  "i < length xs \<Longrightarrow> xs ! i \<noteq> None \<Longrightarrow> Suc (occupied (xs[i := None])) = occupied xs"
proof (induction xs arbitrary: i)
  case (Cons a xs)
  then show ?case by (cases i) auto
qed simp

lemma occupied_replace:
  "i < length xs \<Longrightarrow> xs ! i \<noteq> None \<Longrightarrow> occupied (xs[i := Some x]) = occupied xs"
proof (induction xs arbitrary: i)
  case (Cons a xs)
  then show ?case by (cases i) auto
qed simp

section \<open>Option computations\<close>

lemma bind_Some_iff: "Option.bind m f = Some y \<longleftrightarrow> (\<exists>x. m = Some x \<and> f x = Some y)"
  by (cases m) auto

lemma bind_None_iff: "Option.bind m f = None \<longleftrightarrow> m = None \<or> (\<exists>x. m = Some x \<and> f x = None)"
  by (cases m) auto

text \<open>\<open>keeps P m\<close>: if the computation does not crash, its result satisfies \<open>P\<close>.\<close>

definition keeps :: "('a \<Rightarrow> bool) \<Rightarrow> 'a option \<Rightarrow> bool" where
  "keeps P m \<longleftrightarrow> (case m of None \<Rightarrow> True | Some x \<Rightarrow> P x)"

lemma keeps_Some [simp]: "keeps P (Some x) = P x"
  by (simp add: keeps_def)

lemma keeps_None [simp]: "keeps P None"
  by (simp add: keeps_def)

lemma keepsD: "keeps P m \<Longrightarrow> m = Some x \<Longrightarrow> P x"
  by (simp add: keeps_def)

lemma keepsI: "(\<And>x. m = Some x \<Longrightarrow> P x) \<Longrightarrow> keeps P m"
  by (cases m) auto

lemma keeps_bind: "keeps Q m \<Longrightarrow> (\<And>x. Q x \<Longrightarrow> keeps P (f x)) \<Longrightarrow> keeps P (Option.bind m f)"
  by (cases m) auto

lemma keeps_bind_any: "(\<And>x. keeps P (f x)) \<Longrightarrow> keeps P (Option.bind m f)"
  by (cases m) auto

end
