(* ===== verification/Gw_Types.thy ===== *)
theory Gw_Types
  imports Gw_Prelude
begin

text \<open>
  The data model: the enumerations and structs of \<open>include/gw_job.h\<close>,
  \<open>include/gw_history.h\<close>, \<open>include/gw_job_template.h\<close>, \<open>include/gw_host.h\<close>,
  \<open>include/gw_user.h\<close>, \<open>include/gw_xfr_files.h\<close> and \<open>include/gw_conf.h\<close>, and the
  tables of \<open>src/job/gw_job.c\<close> that print, parse and translate job states.

  A \<open>char *\<close> that may be NULL is a \<open>string option\<close>, an array with its length a
  list, the \<open>gw_history_t\<close> chain a list whose head is the current record, an
  \<open>int\<close> or a \<open>time_t\<close> an \<open>int\<close>.  A pointer to a host of the host pool is the
  host's identifier, a pointer to a driver (MAD) of a user its name.  Mutexes,
  file descriptors and process identifiers are left out.
\<close>

section \<open>Enumerations\<close>

datatype gw_job_state =
    GW_JOB_STATE_INIT
  | GW_JOB_STATE_PENDING
  | GW_JOB_STATE_HOLD
  | GW_JOB_STATE_PROLOG
  | GW_JOB_STATE_PRE_WRAPPER
  | GW_JOB_STATE_WRAPPER
  | GW_JOB_STATE_EPILOG
  | GW_JOB_STATE_EPILOG_STD
  | GW_JOB_STATE_EPILOG_RESTART
  | GW_JOB_STATE_EPILOG_FAIL
  | GW_JOB_STATE_STOP_CANCEL
  | GW_JOB_STATE_STOP_EPILOG
  | GW_JOB_STATE_STOPPED
  | GW_JOB_STATE_KILL_CANCEL
  | GW_JOB_STATE_KILL_EPILOG
  | GW_JOB_STATE_MIGR_CANCEL
  | GW_JOB_STATE_MIGR_PROLOG
  | GW_JOB_STATE_MIGR_EPILOG
  | GW_JOB_STATE_ZOMBIE
  | GW_JOB_STATE_FAILED
  | GW_JOB_STATE_LIMIT

datatype gw_em_state =
    GW_EM_STATE_INIT
  | GW_EM_STATE_PENDING
  | GW_EM_STATE_SUSPENDED
  | GW_EM_STATE_ACTIVE
  | GW_EM_STATE_FAILED
  | GW_EM_STATE_DONE
  | GW_EM_STATE_HARD_KILL
  | GW_EM_STATE_LIMIT

datatype gw_tm_state =
    GW_TM_STATE_INIT
  | GW_TM_STATE_PROLOG
  | GW_TM_STATE_PROLOG_FAILED
  | GW_TM_STATE_EPILOG
  | GW_TM_STATE_EPILOG_FAILED
  | GW_TM_STATE_CHECKPOINT
  | GW_TM_STATE_CHECKPOINT_CANCEL
  | GW_TM_STATE_HARD_KILL
  | GW_TM_STATE_LIMIT

datatype gw_migration_reason =
    GW_REASON_NONE
  | GW_REASON_USER_REQUESTED
  | GW_REASON_SUSPENSION_TIME
  | GW_REASON_RESCHEDULING_TIMEOUT
  | GW_REASON_SELF_MIGRATION
  | GW_REASON_PERFORMANCE
  | GW_REASON_STOP_RESUME
  | GW_REASON_EXECUTION_ERROR
  | GW_REASON_KILL
  | GW_REASON_LIMIT

datatype gw_host_state =
    GW_HOST_STATE_INIT
  | GW_HOST_STATE_UNKNOWN
  | GW_HOST_STATE_DISCOVERED
  | GW_HOST_STATE_MONITORING
  | GW_HOST_STATE_MONITORED
  | GW_HOST_STATE_LIMIT

text \<open>The indices of the \<open>stats\<close> array of a history record.\<close>

datatype gw_stat =
    START_TIME | EXIT_TIME | SUSPENSION_TIME | LAST_SUSPENSION_TIME
  | ACTIVE_TIME | LAST_ACTIVE_TIME
  | PROLOG_START_TIME | PROLOG_EXIT_TIME
  | WRAPPER_START_TIME | WRAPPER_EXIT_TIME
  | PRE_WRAPPER_START_TIME | PRE_WRAPPER_EXIT_TIME
  | EPILOG_START_TIME | EPILOG_EXIT_TIME
  | MIGRATION_START_TIME | MIGRATION_EXIT_TIME

section \<open>The enumeration order of the job states\<close>

text \<open>C compares job states as integers; the order is that of the declaration.\<close>

fun job_state_code :: "gw_job_state \<Rightarrow> nat" where
  "job_state_code GW_JOB_STATE_INIT = 0"
| "job_state_code GW_JOB_STATE_PENDING = 1"
| "job_state_code GW_JOB_STATE_HOLD = 2"
| "job_state_code GW_JOB_STATE_PROLOG = 3"
| "job_state_code GW_JOB_STATE_PRE_WRAPPER = 4"
| "job_state_code GW_JOB_STATE_WRAPPER = 5"
| "job_state_code GW_JOB_STATE_EPILOG = 6"
| "job_state_code GW_JOB_STATE_EPILOG_STD = 7"
| "job_state_code GW_JOB_STATE_EPILOG_RESTART = 8"
| "job_state_code GW_JOB_STATE_EPILOG_FAIL = 9"
| "job_state_code GW_JOB_STATE_STOP_CANCEL = 10"
| "job_state_code GW_JOB_STATE_STOP_EPILOG = 11"
| "job_state_code GW_JOB_STATE_STOPPED = 12"
| "job_state_code GW_JOB_STATE_KILL_CANCEL = 13"
| "job_state_code GW_JOB_STATE_KILL_EPILOG = 14"
| "job_state_code GW_JOB_STATE_MIGR_CANCEL = 15"
| "job_state_code GW_JOB_STATE_MIGR_PROLOG = 16"
| "job_state_code GW_JOB_STATE_MIGR_EPILOG = 17"
| "job_state_code GW_JOB_STATE_ZOMBIE = 18"
| "job_state_code GW_JOB_STATE_FAILED = 19"
| "job_state_code GW_JOB_STATE_LIMIT = 20"

lemma job_state_code_inj: "job_state_code s = job_state_code t \<Longrightarrow> s = t"
  by (cases s; cases t) simp_all

instantiation gw_job_state :: linorder
begin

definition less_eq_gw_job_state :: "gw_job_state \<Rightarrow> gw_job_state \<Rightarrow> bool" where
  "less_eq_gw_job_state s t \<longleftrightarrow> job_state_code s \<le> job_state_code t"

definition less_gw_job_state :: "gw_job_state \<Rightarrow> gw_job_state \<Rightarrow> bool" where
  "less_gw_job_state s t \<longleftrightarrow> job_state_code s < job_state_code t"

instance
  by standard
    (auto simp: less_eq_gw_job_state_def less_gw_job_state_def dest: job_state_code_inj)

end

section \<open>State names and GRAM states\<close>

definition gw_job_state_names :: "string list" where
  "gw_job_state_names =
    [''INIT'', ''PENDING'', ''HOLD'', ''PROLOG'', ''PRE_WRAPPER'', ''WRAPPER'', ''EPILOG'',
     ''EPILOG_STD'', ''EPILOG_RESTART'', ''EPILOG_FAIL'', ''STOP_CANCEL'', ''STOP_EPILOG'',
     ''STOPPED'', ''KILL_CANCEL'', ''KILL_EPILOG'', ''MIGR_CANCEL'', ''MIGR_PROLOG'',
     ''MIGR_EPILOG'', ''DONE'', ''FAILED'', ''----'']"

definition gw_job_get_state_name :: "gw_job_state \<Rightarrow> string" where
  "gw_job_get_state_name s =
    (if s < GW_JOB_STATE_LIMIT
     then gw_job_state_names ! job_state_code s
     else gw_job_state_names ! job_state_code GW_JOB_STATE_LIMIT)"

datatype gram_state = GRAM_PENDING | GRAM_ACTIVE | GRAM_FAILED | GRAM_DONE | GRAM_SUSPENDED

fun gram_state_code :: "gram_state \<Rightarrow> int" where
  "gram_state_code GRAM_PENDING = 1"
| "gram_state_code GRAM_ACTIVE = 2"
| "gram_state_code GRAM_FAILED = 4"
| "gram_state_code GRAM_DONE = 8"
| "gram_state_code GRAM_SUSPENDED = 16"

definition gw_job_state_mapping :: "gram_state list" where
  "gw_job_state_mapping =
    [GRAM_PENDING, GRAM_PENDING, GRAM_SUSPENDED,
     GRAM_ACTIVE, GRAM_ACTIVE, GRAM_ACTIVE, GRAM_ACTIVE, GRAM_ACTIVE,
     GRAM_ACTIVE, GRAM_ACTIVE, GRAM_ACTIVE, GRAM_ACTIVE, GRAM_SUSPENDED,
     GRAM_ACTIVE, GRAM_ACTIVE, GRAM_ACTIVE, GRAM_ACTIVE, GRAM_ACTIVE,
     GRAM_DONE, GRAM_FAILED, GRAM_PENDING]"

definition gw_job_get_gram_state :: "gw_job_state \<Rightarrow> gram_state" where
  "gw_job_get_gram_state s =
    (if s < GW_JOB_STATE_LIMIT
     then gw_job_state_mapping ! job_state_code s
     else gw_job_state_mapping ! job_state_code GW_JOB_STATE_LIMIT)"

text \<open>The parser: a switch on the first character, then string comparisons.\<close>

definition gw_job_get_state_code :: "string \<Rightarrow> gw_job_state" where
  "gw_job_get_state_code str =
    (case str of
       [] \<Rightarrow> GW_JOB_STATE_LIMIT
     | c # _ \<Rightarrow>
        if c = CHR ''D'' then
          (if str = ''DONE'' then GW_JOB_STATE_ZOMBIE else GW_JOB_STATE_LIMIT)
        else if c = CHR ''E'' then
          (if str = ''EPILOG'' then GW_JOB_STATE_EPILOG
           else if str = ''EPILOG_STD'' then GW_JOB_STATE_EPILOG_STD
           else if str = ''EPILOG_RESTART'' then GW_JOB_STATE_EPILOG_RESTART
           else if str = ''EPILOG_FAIL'' then GW_JOB_STATE_EPILOG_FAIL
           else GW_JOB_STATE_LIMIT)
        else if c = CHR ''F'' then
          (if str = ''FAILED'' then GW_JOB_STATE_FAILED else GW_JOB_STATE_LIMIT)
        else if c = CHR ''H'' then
          (if str = ''HOLD'' then GW_JOB_STATE_HOLD else GW_JOB_STATE_LIMIT)
        else if c = CHR ''K'' then
          (if str = ''KILL_CANCEL'' then GW_JOB_STATE_KILL_CANCEL
           else if str = ''KILL_EPILOG'' then GW_JOB_STATE_KILL_EPILOG
           else GW_JOB_STATE_LIMIT)
        else if c = CHR ''M'' then
          (if str = ''MIGR_CANCEL'' then GW_JOB_STATE_MIGR_CANCEL
           else if str = ''MIGR_PROLOG'' then GW_JOB_STATE_MIGR_PROLOG
           else if str = ''MIGR_EPILOG'' then GW_JOB_STATE_MIGR_EPILOG
           else GW_JOB_STATE_LIMIT)
        else if c = CHR ''P'' then
          (if str = ''PENDING'' then GW_JOB_STATE_PENDING
           else if str = ''PROLOG'' then GW_JOB_STATE_PROLOG
           else if str = ''PRE_WRAPPER'' then GW_JOB_STATE_PRE_WRAPPER
           else GW_JOB_STATE_LIMIT)
        else if c = CHR ''S'' then
          (if str = ''STOP_CANCEL'' then GW_JOB_STATE_STOP_CANCEL
           else if str = ''STOP_EPILOG'' then GW_JOB_STATE_STOP_EPILOG
           else if str = ''STOPPED'' then GW_JOB_STATE_STOPPED
           else GW_JOB_STATE_LIMIT)
        else if c = CHR ''W'' then
          (if str = ''WRAPPER'' then GW_JOB_STATE_WRAPPER else GW_JOB_STATE_LIMIT)
        else GW_JOB_STATE_LIMIT)"

lemma gw_job_get_state_name_simps [simp]:
  "gw_job_get_state_name GW_JOB_STATE_INIT = ''INIT''"
  "gw_job_get_state_name GW_JOB_STATE_PENDING = ''PENDING''"
  "gw_job_get_state_name GW_JOB_STATE_HOLD = ''HOLD''"
  "gw_job_get_state_name GW_JOB_STATE_PROLOG = ''PROLOG''"
  "gw_job_get_state_name GW_JOB_STATE_PRE_WRAPPER = ''PRE_WRAPPER''"
  "gw_job_get_state_name GW_JOB_STATE_WRAPPER = ''WRAPPER''"
  "gw_job_get_state_name GW_JOB_STATE_EPILOG = ''EPILOG''"
  "gw_job_get_state_name GW_JOB_STATE_EPILOG_STD = ''EPILOG_STD''"
  "gw_job_get_state_name GW_JOB_STATE_EPILOG_RESTART = ''EPILOG_RESTART''"
  "gw_job_get_state_name GW_JOB_STATE_EPILOG_FAIL = ''EPILOG_FAIL''"
  "gw_job_get_state_name GW_JOB_STATE_STOP_CANCEL = ''STOP_CANCEL''"
  "gw_job_get_state_name GW_JOB_STATE_STOP_EPILOG = ''STOP_EPILOG''"
  "gw_job_get_state_name GW_JOB_STATE_STOPPED = ''STOPPED''"
  "gw_job_get_state_name GW_JOB_STATE_KILL_CANCEL = ''KILL_CANCEL''"
  "gw_job_get_state_name GW_JOB_STATE_KILL_EPILOG = ''KILL_EPILOG''"
  "gw_job_get_state_name GW_JOB_STATE_MIGR_CANCEL = ''MIGR_CANCEL''"
  "gw_job_get_state_name GW_JOB_STATE_MIGR_PROLOG = ''MIGR_PROLOG''"
  "gw_job_get_state_name GW_JOB_STATE_MIGR_EPILOG = ''MIGR_EPILOG''"
  "gw_job_get_state_name GW_JOB_STATE_ZOMBIE = ''DONE''"
  "gw_job_get_state_name GW_JOB_STATE_FAILED = ''FAILED''"
  "gw_job_get_state_name GW_JOB_STATE_LIMIT = ''----''"
  by (simp_all add: gw_job_get_state_name_def gw_job_state_names_def less_gw_job_state_def)

text \<open>
  Property Parsing the name the daemon prints for a job state gives that state
  back, except for the initial state, which is printed as INIT but has no case in the
  parser and reads back as the invalid state.
\<close>

theorem state_name_roundtrip:
  "gw_job_get_state_code (gw_job_get_state_name s) =
    (if s = GW_JOB_STATE_INIT then GW_JOB_STATE_LIMIT else s)"
  by (cases s) (simp_all add: gw_job_get_state_code_def)

text \<open>
  Property The parser accepts exactly the printed names: a string that reads as a
  valid state is the name of that state.
\<close>

theorem state_code_sound:
  assumes "gw_job_get_state_code str = s" and "s \<noteq> GW_JOB_STATE_LIMIT"
  shows "gw_job_get_state_name s = str"
proof -
  have "gw_job_get_state_code str \<in> {GW_JOB_STATE_LIMIT} \<union> {s. gw_job_get_state_name s = str}"
    unfolding gw_job_get_state_code_def by (simp split: list.split)
  with assms show ?thesis by simp
qed

lemma state_code_sound_witness:
  "gw_job_get_state_name GW_JOB_STATE_MIGR_PROLOG = ''MIGR_PROLOG''"
  by (rule state_code_sound) (simp_all add: gw_job_get_state_code_def)

end
