(* ===== verification/Gw_Structs.thy ===== *)
theory Gw_Structs
  imports Gw_Types
begin

text \<open>
  The structs of the daemon as records.  Field names carry the prefix of their
  struct (\<open>hist_\<close>, \<open>jt_\<close>, \<open>job_\<close>, \<open>host_\<close>, \<open>user_\<close>, \<open>xfr_\<close>), since HOL has
  one name space for selectors.
\<close>

section \<open>File transfers (gw_xfr_files.h)\<close>

record gw_xfr =
  xfr_tries :: int
  xfr_src_url :: "string option"
  xfr_dst_url :: "string option"
  xfr_alt_src_url :: "string option"
  xfr_mode :: char
  xfr_done :: bool
  xfr_success :: bool
  xfr_counter :: int

text \<open>
  \<open>xfrs_xfrs\<close> is the allocated block (NULL is \<open>None\<close>); its length is the
  allocation, \<open>xfrs_number\<close> the field \<open>number_of_xfrs\<close>.
\<close>

record gw_xfrs =
  xfrs_number :: int
  xfrs_failure_limit :: int
  xfrs_xfrs :: "gw_xfr list option"

section \<open>History records (gw_history.h)\<close>

record gw_history =
  hist_host :: int
  hist_rank :: int
  hist_stats :: "gw_stat \<Rightarrow> int"
  hist_tm_mad :: string
  hist_rdir :: string
  hist_em_mad :: string
  hist_em_rc :: string
  hist_em_fork_rc :: string
  hist_queue :: "string option"
  hist_tries :: int
  hist_failed_polls :: int
  hist_cancel_tries :: int
  hist_counter :: int
  hist_reason :: gw_migration_reason

section \<open>Job templates (gw_job_template.h)\<close>

datatype gw_jobtype = GW_JOB_TYPE_SINGLE | GW_JOB_TYPE_MPI

record gw_job_template =
  jt_job_home :: "string option"
  jt_user_home :: "string option"
  jt_executable :: "string option"
  jt_pre_wrapper :: "string option"
  jt_input_files :: "(string option \<times> string option) list"
  jt_output_files :: "(string option \<times> string option) list"
  jt_restart_files :: "string option list"
  jt_stdin_file :: "string option"
  jt_stdout_file :: "string option"
  jt_stderr_file :: "string option"
  jt_requirements :: "string option"
  jt_rank :: "string option"
  jt_rescheduling_interval :: int
  jt_rescheduling_threshold :: int
  jt_checkpoint_interval :: int
  jt_checkpoint_url :: "string option"
  jt_suspension_timeout :: int
  jt_reschedule_on_failure :: bool
  jt_number_of_retries :: int
  jt_wrapper :: "string option"
  jt_monitor :: "string option"
  jt_type :: gw_jobtype
  jt_np :: int
  jt_deadline :: int

abbreviation num_input_files :: "gw_job_template \<Rightarrow> int" where
  "num_input_files t \<equiv> int (length (jt_input_files t))"

abbreviation num_output_files :: "gw_job_template \<Rightarrow> int" where
  "num_output_files t \<equiv> int (length (jt_output_files t))"

abbreviation num_restart_files :: "gw_job_template \<Rightarrow> int" where
  "num_restart_files t \<equiv> int (length (jt_restart_files t))"

section \<open>Jobs (gw_job.h)\<close>

text \<open>\<open>GW_JOB_MIN_PRIORITY\<close> and the empty template \<open>memset\<close> leaves behind.\<close>

definition GW_JOB_MIN_PRIORITY :: int where
  "GW_JOB_MIN_PRIORITY = 0"

definition gw_job_template_zero :: gw_job_template where
  "gw_job_template_zero =
    \<lparr> jt_job_home = None, jt_user_home = None, jt_executable = None, jt_pre_wrapper = None,
      jt_input_files = [], jt_output_files = [], jt_restart_files = [],
      jt_stdin_file = None, jt_stdout_file = None, jt_stderr_file = None,
      jt_requirements = None, jt_rank = None, jt_rescheduling_interval = 0,
      jt_rescheduling_threshold = 0, jt_checkpoint_interval = 0, jt_checkpoint_url = None,
      jt_suspension_timeout = 0, jt_reschedule_on_failure = False, jt_number_of_retries = 0,
      jt_wrapper = None, jt_monitor = None, jt_type = GW_JOB_TYPE_SINGLE, jt_np = 0,
      jt_deadline = 0 \<rparr>"

record gw_job =
  job_owner :: "string option"
  job_directory :: string
  job_user_id :: int
  job_template :: gw_job_template
  job_id :: int
  job_array_id :: int
  job_task_id :: int
  job_total_tasks :: int
  job_pstart :: int
  job_pinc :: int
  job_fixed_priority :: int
  job_type_dep :: int
  job_em_state :: gw_em_state
  job_tm_state :: gw_tm_state
  job_job_state :: gw_job_state
  job_start_time :: int
  job_exit_time :: int
  job_next_poll_time :: int
  job_last_rescheduling_time :: int
  job_last_checkpoint_time :: int
  job_exit_code :: int
  job_restarted :: int
  job_client_waiting :: int
  job_xfrs :: gw_xfrs
  job_chk_xfrs :: gw_xfrs
  job_history :: "gw_history list"
  job_reschedule :: bool

section \<open>Hosts (gw_host.h)\<close>

definition GW_HOST_MAX_QUEUES :: nat where
  "GW_HOST_MAX_QUEUES = 67"

definition GW_HOST_MAX_GENVARS :: nat where
  "GW_HOST_MAX_GENVARS = 134"

text \<open>
  The queue arrays are lists of \<open>GW_HOST_MAX_QUEUES\<close> entries, the generic variables
  lists of \<open>GW_HOST_MAX_GENVARS\<close> (name, value) pairs.
\<close>

record gw_host =
  host_em_mad :: string
  host_tm_mad :: string
  host_im_mad :: string
  host_used_slots :: int
  host_running_jobs :: int
  host_host_id :: int
  host_fixed_priority :: int
  host_hostname :: string
  host_arch :: "string option"
  host_os_name :: "string option"
  host_os_version :: "string option"
  host_cpu_model :: "string option"
  host_cpu_mhz :: int
  host_cpu_free :: int
  host_cpu_smp :: int
  host_nodecount :: int
  host_size_mem_mb :: int
  host_free_mem_mb :: int
  host_size_disk_mb :: int
  host_free_disk_mb :: int
  host_fork_name :: "string option"
  host_lrms_name :: "string option"
  host_lrms_type :: "string option"
  host_queue_name :: "string option list"
  host_queue_nodecount :: "int list"
  host_queue_running_jobs :: "int list"
  host_queue_active_jobs :: "int list"
  host_queue_freenodecount :: "int list"
  host_queue_maxtime :: "int list"
  host_queue_maxcputime :: "int list"
  host_queue_maxcount :: "int list"
  host_queue_maxrunningjobs :: "int list"
  host_queue_maxjobsinqueue :: "int list"
  host_queue_status :: "string option list"
  host_queue_dispatchtype :: "string option list"
  host_queue_priority :: "string option list"
  host_genvar_int :: "(string option \<times> int) list"
  host_genvar_str :: "(string option \<times> string option) list"
  host_state :: gw_host_state
  host_last_monitoring_time :: int

section \<open>Users (gw_user.h) and the configuration (gw_conf.h)\<close>

record gw_user =
  user_name :: string
  user_proxy_path :: string
  user_active_jobs :: int
  user_running_jobs :: int
  user_idle :: int
  user_em_mad :: "string list"
  user_tm_mad :: "string list"

definition GW_MAX_MADS :: nat where
  "GW_MAX_MADS = 5"

text \<open>The drivers of the configuration are the names loaded for every user.\<close>

record gw_conf =
  conf_dispose :: bool
  conf_gw_location :: string
  conf_number_of_arrays :: int
  conf_number_of_jobs :: int
  conf_number_of_hosts :: int
  conf_number_of_users :: int
  conf_scheduling_interval :: int
  conf_poll_interval :: int
  conf_monitoring_interval :: int
  conf_max_active_im_queries :: int
  conf_em_mads :: "string list"
  conf_tm_mads :: "string list"

text \<open>A small configuration, on which the witnesses of the development run.\<close>

definition example_conf :: gw_conf where
  "example_conf =
    \<lparr> conf_dispose = False, conf_gw_location = ''/opt/gw'', conf_number_of_arrays = 2,
      conf_number_of_jobs = 4, conf_number_of_hosts = 3, conf_number_of_users = 2,
      conf_scheduling_interval = 30, conf_poll_interval = 60,
      conf_monitoring_interval = 120, conf_max_active_im_queries = 4,
      conf_em_mads = [''gram''], conf_tm_mads = [''ftp''] \<rparr>"

end
