(* ===== verification/Gw_Pools.thy ===== *)
theory Gw_Pools
  imports Gw_Structs
begin

text \<open>
  What the four pools of the daemon have in common: an array of pointers that is
  allocated once with its configured size, a counter of objects, the identifier
  given out last, and a scan for a NULL entry that starts after it.  \<open>slot_pool\<close> is
  the interface (lookup after store) the components rely on.
\<close>

record 'a gw_pool =
  pool_number :: int
  pool_last_id :: int
  pool_slots :: "'a option list"

definition pool_init :: "int \<Rightarrow> 'a gw_pool" where
  "pool_init n = \<lparr> pool_number = 0, pool_last_id = - 1, pool_slots = replicate (nat n) None \<rparr>"

definition pool_get :: "'a gw_pool \<Rightarrow> int \<Rightarrow> 'a option" where
  "pool_get p i = slot (pool_slots p) i"

text \<open>The assignment \<open>pool[i] = x\<close> for an index known to be inside the array.\<close>

definition pool_store :: "'a gw_pool \<Rightarrow> int \<Rightarrow> 'a option \<Rightarrow> 'a gw_pool" where
  "pool_store p i x = p\<lparr>pool_slots := (pool_slots p)[nat i := x]\<rparr>"

definition pool_size :: "'a gw_pool \<Rightarrow> int" where
  "pool_size p = int (length (pool_slots p))"

definition pool_valid :: "'a gw_pool \<Rightarrow> int \<Rightarrow> bool" where
  "pool_valid p i \<longleftrightarrow> 0 \<le> i \<and> i < pool_size p"

section \<open>The interface\<close>

locale slot_pool =
  fixes valid :: "'p \<Rightarrow> int \<Rightarrow> bool"
    and get :: "'p \<Rightarrow> int \<Rightarrow> 'a option"
    and store :: "'p \<Rightarrow> int \<Rightarrow> 'a option \<Rightarrow> 'p"
  assumes get_store: "valid p i \<Longrightarrow> get (store p i x) j = (if j = i then x else get p j)"
    and valid_store: "valid (store p i x) j = valid p j"
    and get_valid: "get p i \<noteq> None \<Longrightarrow> valid p i"
begin

definition objects :: "'p \<Rightarrow> int set" where
  "objects p = {i. get p i \<noteq> None}"

lemma get_store_same: "valid p i \<Longrightarrow> get (store p i x) i = x"
  by (simp add: get_store)

lemma get_store_other: "valid p i \<Longrightarrow> j \<noteq> i \<Longrightarrow> get (store p i x) j = get p j"
  by (simp add: get_store)

lemma objects_alloc: "valid p i \<Longrightarrow> objects (store p i (Some x)) = insert i (objects p)"
  by (auto simp: objects_def get_store)

lemma objects_free: "valid p i \<Longrightarrow> objects (store p i None) = objects p - {i}"
  by (auto simp: objects_def get_store)

lemma free_after_alloc:
  "valid p i \<Longrightarrow> get p i = None \<Longrightarrow> get (store (store p i (Some x)) i None) j = get p j"
  by (simp add: get_store valid_store)

end

interpretation pool: slot_pool "pool_valid :: 'a gw_pool \<Rightarrow> _" pool_get pool_store
  by unfold_locales
    (auto simp: pool_valid_def pool_get_def pool_store_def pool_size_def slot_update
      dest: slot_SomeD)

lemma pool_size_store [simp]: "pool_size (pool_store p i x) = pool_size p"
  by (simp add: pool_size_def pool_store_def)

lemma pool_number_store [simp]: "pool_number (pool_store p i x) = pool_number p"
  by (simp add: pool_store_def)

lemma pool_last_store [simp]: "pool_last_id (pool_store p i x) = pool_last_id p"
  by (simp add: pool_store_def)

lemma pool_get_more [simp]:
  "pool_get (p\<lparr>pool_number := n\<rparr>) = pool_get p"
  "pool_get (p\<lparr>pool_last_id := n\<rparr>) = pool_get p"
  by (simp_all add: pool_get_def fun_eq_iff)

lemma pool_size_more [simp]:
  "pool_size (p\<lparr>pool_number := n\<rparr>) = pool_size p"
  "pool_size (p\<lparr>pool_last_id := n\<rparr>) = pool_size p"
  by (simp_all add: pool_size_def)

lemma pool_get_init [simp]: "pool_get (pool_init n) i = None"
  by (simp add: pool_get_def pool_init_def)

lemma pool_size_init [simp]: "0 \<le> n \<Longrightarrow> pool_size (pool_init n) = n"
  by (simp add: pool_size_def pool_init_def)

lemma pool_get_Some_range: "pool_get p i = Some x \<Longrightarrow> 0 \<le> i \<and> i < pool_size p"
  by (auto simp: pool_get_def pool_size_def dest: slot_SomeD)

lemma pool_get_store_eq:
  "0 \<le> i \<Longrightarrow> i < pool_size p \<Longrightarrow> pool_get (pool_store p i x) j = (if j = i then x else pool_get p j)"
  by (simp add: pool.get_store pool_valid_def)

lemma pool_get_update_Some [simp]:
  "pool_get p i = Some y \<Longrightarrow>
     pool_get (pool_store p i x) j = (if j = i then x else pool_get p j)"
  by (rule pool.get_store) (simp add: pool.get_valid)

section \<open>The scan for a free slot\<close>

text \<open>
  \<open>while (!found && tries < n) { found = pool[id] == NULL; if (!found) { tries++;
  id = nxt id; } }\<close> as a function of the tries left.  \<open>None\<close>: the scan read past the
  array; \<open>Some None\<close>: no slot was found.
\<close>

fun scan_free :: "(int \<Rightarrow> int) \<Rightarrow> 'a option list \<Rightarrow> int \<Rightarrow> nat \<Rightarrow> int option option" where
  "scan_free nxt pool i 0 = Some None"
| "scan_free nxt pool i (Suc k) = do {
     s \<leftarrow> rd pool i;
     if s = None then Some (Some i) else scan_free nxt pool (nxt i) k
   }"

lemma scan_free_found:
  "scan_free nxt pool i k = Some (Some j) \<Longrightarrow> rd pool j = Some None"
proof (induction k arbitrary: i)
  case (Suc k)
  then obtain s where s: "rd pool i = Some s" by (auto simp: bind_Some_iff)
  with Suc show ?case by (cases "s = None") simp_all
qed simp

lemma scan_free_range:
  "scan_free nxt pool i k = Some (Some j) \<Longrightarrow> 0 \<le> j \<and> j < int (length pool) \<and> pool ! nat j = None"
  using scan_free_found [of nxt pool i k j] by (simp add: rd_Some)

lemma scan_free_linear_bounds:
  "scan_free (\<lambda>n. n + 1) pool i k = Some (Some j) \<Longrightarrow> i \<le> j \<and> j < i + int k"
  by (induction k arbitrary: i) (auto simp: bind_Some_iff split: if_splits, fastforce+)

lemma scan_free_here:
  "0 < k \<Longrightarrow> rd pool i = Some None \<Longrightarrow> scan_free nxt pool i k = Some (Some i)"
  by (cases k) simp_all

lemma scan_free_past_end:
  "0 < k \<Longrightarrow> int (length pool) \<le> i \<Longrightarrow> scan_free nxt pool i k = None"
  by (cases k) (simp_all add: rd_def)

text \<open>A linear scan reads past the array when every slot from its start on is taken.\<close>

definition taken_from :: "'a option list \<Rightarrow> int \<Rightarrow> bool" where
  "taken_from pool i \<longleftrightarrow> (\<forall>j \<in> {nat i ..< length pool}. pool ! j \<noteq> None)"

lemma taken_from_step:
  "taken_from pool i \<Longrightarrow> 0 \<le> i \<Longrightarrow> i < int (length pool) \<Longrightarrow>
     rd pool i \<noteq> Some None \<and> taken_from pool (i + 1)"
  by (auto simp: taken_from_def rd_def)

lemma scan_free_linear_crash:
  "taken_from pool i \<Longrightarrow> 0 \<le> i \<Longrightarrow> i \<le> int (length pool) \<Longrightarrow>
   int (length pool) < i + int k \<Longrightarrow> scan_free (\<lambda>n. n + 1) pool i k = None"
proof (induction k arbitrary: i)
  case (Suc k)
  show ?case
  proof (cases "i < int (length pool)")
    case True
    with Suc.prems taken_from_step have "rd pool i \<noteq> Some None" "taken_from pool (i + 1)"
      by blast+
    moreover from this(2) True Suc.prems have "scan_free (\<lambda>n. n + 1) pool (i + 1) k = None"
      by (intro Suc.IH) simp_all
    ultimately show ?thesis by (cases "rd pool i") (auto simp del: rd_None)
  next
    case False
    then show ?thesis by (simp add: rd_def)
  qed
qed simp

end
