(* ===== verification/Gw_Dm_Mad.thy ===== *)
theory Gw_Dm_Mad
  imports Gw_Structs
begin

text \<open>
  The channel from the daemon to the scheduler: the message writers of
  \<open>src/dm/gw_dm_mad.c\<close> (a line of six blank separated fields, by \<open>sprintf\<close>), and the
  reader of \<open>src/scheduler/gw_scheduler_common.c\<close> (\<open>sscanf\<close> into six fields of 80
  bytes, then the switch of \<open>gw_scheduler_loop\<close> over the first one with \<open>atoi\<close> on
  the others).  \<open>%f\<close> of a time is printed exactly, as for any time below \<open>2 ^ 24\<close>
  seconds.  The pipe and its threads are left out.
\<close>

section \<open>Numbers\<close>

definition digit_char :: "nat \<Rightarrow> char" where
  "digit_char d = char_of (48 + d)"

function show_nat :: "nat \<Rightarrow> string" where
  "show_nat n = (if n < 10 then [digit_char n] else show_nat (n div 10) @ [digit_char (n mod 10)])"
  by pat_completeness auto
termination by (relation "measure id") auto

declare show_nat.simps [simp del]

definition show_int :: "int \<Rightarrow> string" where
  "show_int i = (if i < 0 then CHR ''-'' # show_nat (nat (- i)) else show_nat (nat i))"

definition is_digit :: "char \<Rightarrow> bool" where
  "is_digit c \<longleftrightarrow> 48 \<le> (of_char c :: nat) \<and> (of_char c :: nat) \<le> 57"

definition is_blank :: "char \<Rightarrow> bool" where
  "is_blank c \<longleftrightarrow> (of_char c :: nat) \<in> {9, 10, 11, 12, 13, 32}"

fun dec_digits :: "string \<Rightarrow> nat \<Rightarrow> nat" where
  "dec_digits [] acc = acc"
| "dec_digits (c # cs) acc =
     (if is_digit c then dec_digits cs (acc * 10 + (of_char c - 48)) else acc)"

text \<open>
  \<open>atoi\<close>, for results that fit an \<open>int\<close>: the identifiers the managers read have at most four
  characters, and what the core and the scheduler print fits.  The scanner of expressions and
  attributes reads numbers of any length, with \<open>int_atoi\<close> of \<open>Gw_Host_Lex\<close>.
\<close>

definition atoi :: "string \<Rightarrow> int" where
  "atoi s = (case dropWhile is_blank s of
     [] \<Rightarrow> 0
   | c # cs \<Rightarrow> if c = CHR ''-'' then - int (dec_digits cs 0)
       else if c = CHR ''+'' then int (dec_digits cs 0) else int (dec_digits (c # cs) 0))"

lemma of_digit_char [simp]: "d < 10 \<Longrightarrow> (of_char (digit_char d) :: nat) = 48 + d"
  by (simp add: digit_char_def)

lemma is_digit_char [simp]: "d < 10 \<Longrightarrow> is_digit (digit_char d)"
  by (simp add: is_digit_def)

lemma not_blank_digit: "is_digit c \<Longrightarrow> \<not> is_blank c"
  by (auto simp: is_digit_def is_blank_def)

lemma show_nat_digits: "list_all is_digit (show_nat n)"
  by (induction n rule: show_nat.induct) (subst show_nat.simps, simp)

lemma show_nat_nonempty [simp]: "show_nat n \<noteq> []"
  by (subst show_nat.simps) simp

lemma dec_show_nat: "dec_digits (show_nat n @ s) 0 = dec_digits s n"
proof (induction n arbitrary: s rule: show_nat.induct)
  case (1 n)
  show ?case
  proof (cases "n < 10")
    case True
    then show ?thesis by (subst show_nat.simps) simp
  next
    case False
    with "1" [OF False, of "digit_char (n mod 10) # s"] show ?thesis
      by (subst show_nat.simps) simp
  qed
qed

lemma length_show_nat: "n < 10 ^ k \<Longrightarrow> 0 < k \<Longrightarrow> length (show_nat n) \<le> k"
proof (induction k arbitrary: n)
  case (Suc k)
  show ?case
  proof (cases "n < 10")
    case True
    then show ?thesis by (subst show_nat.simps) simp
  next
    case False
    with Suc.prems have "n div 10 < 10 ^ k" and "0 < k" by (cases k; simp)+
    with Suc.IH [of "n div 10"] False show ?thesis by (subst show_nat.simps) simp
  qed
qed simp

lemma is_digit_minus [simp]: "\<not> is_digit (CHR ''-'')" "\<not> is_digit (CHR ''+'')"
  by (simp_all add: is_digit_def)

lemma not_blank_minus [simp]: "\<not> is_blank (CHR ''-'')"
  by (simp add: is_blank_def)

lemma atoi_show_int [simp]: "atoi (show_int i) = i"
proof (cases "i < 0")
  case True
  then show ?thesis
    using dec_show_nat [of "nat (- i)" "[]"] by (simp add: show_int_def atoi_def)
next
  case False
  obtain c cs where s: "show_nat (nat i) = c # cs" by (cases "show_nat (nat i)") auto
  with show_nat_digits [of "nat i"] have "is_digit c" by simp
  with s False show ?thesis
    using dec_show_nat [of "nat i" "[]"] not_blank_digit [of c]
    by (auto simp: show_int_def atoi_def)
qed

section \<open>Messages\<close>

fun reason_code :: "gw_migration_reason \<Rightarrow> int" where
  "reason_code GW_REASON_NONE = 0"
| "reason_code GW_REASON_USER_REQUESTED = 1"
| "reason_code GW_REASON_SUSPENSION_TIME = 2"
| "reason_code GW_REASON_RESCHEDULING_TIMEOUT = 3"
| "reason_code GW_REASON_SELF_MIGRATION = 4"
| "reason_code GW_REASON_PERFORMANCE = 5"
| "reason_code GW_REASON_STOP_RESUME = 6"
| "reason_code GW_REASON_EXECUTION_ERROR = 7"
| "reason_code GW_REASON_KILL = 8"
| "reason_code GW_REASON_LIMIT = 9"

definition reason_of_code :: "int \<Rightarrow> gw_migration_reason" where
  "reason_of_code i =
     (if i = 0 then GW_REASON_NONE else if i = 1 then GW_REASON_USER_REQUESTED
      else if i = 2 then GW_REASON_SUSPENSION_TIME
      else if i = 3 then GW_REASON_RESCHEDULING_TIMEOUT
      else if i = 4 then GW_REASON_SELF_MIGRATION else if i = 5 then GW_REASON_PERFORMANCE
      else if i = 6 then GW_REASON_STOP_RESUME else if i = 7 then GW_REASON_EXECUTION_ERROR
      else if i = 8 then GW_REASON_KILL else GW_REASON_LIMIT)"

lemma reason_of_code_code [simp]: "reason_of_code (reason_code r) = r"
  by (cases r) (simp_all add: reason_of_code_def)

text \<open>One constructor per writer, with the writer's arguments.\<close>

datatype sch_msg =
    SCHEDULE
  | HOST_MONITOR int int int string
  | USER_ADD int int int string
  | USER_DEL int
  | JOB_DEL int
  | JOB_FAILED int int gw_migration_reason
  | JOB_SUCCESS int int int int int
  | JOB_SCHEDULE int int int gw_migration_reason

definition gw_dm_mad_schedule :: sch_msg where
  "gw_dm_mad_schedule = SCHEDULE"

definition gw_dm_mad_host_monitor :: "gw_host \<Rightarrow> sch_msg" where
  "gw_dm_mad_host_monitor h =
     HOST_MONITOR (host_host_id h) (host_used_slots h) (host_running_jobs h) (host_hostname h)"

definition gw_dm_mad_user_add :: "int \<Rightarrow> gw_user \<Rightarrow> sch_msg" where
  "gw_dm_mad_user_add uid u = USER_ADD uid (user_active_jobs u) (user_running_jobs u) (user_name u)"

text \<open>The line each of the writers sends, as the list of its fields.\<close>

fun sch_fields :: "sch_msg \<Rightarrow> string list" where
  "sch_fields SCHEDULE = [''SCHEDULE'', ''-'', ''-'', ''-'', ''-'', ''-'']"
| "sch_fields (HOST_MONITOR hid uslots rjobs name) =
     [''HOST_MONITOR'', show_int hid, show_int uslots, show_int rjobs, name, ''-'']"
| "sch_fields (USER_ADD uid aslots rslots name) =
     [''USER_ADD'', show_int uid, show_int aslots, show_int rslots, name, ''-'']"
| "sch_fields (USER_DEL uid) = [''USER_DEL'', show_int uid, ''-'', ''-'', ''-'', ''-'']"
| "sch_fields (JOB_DEL jid) = [''JOB_DEL'', show_int jid, ''-'', ''-'', ''-'', ''-'']"
| "sch_fields (JOB_FAILED hid uid reason) =
     [''JOB_FAILED'', show_int hid, show_int uid, show_int (reason_code reason), ''-'', ''-'']"
| "sch_fields (JOB_SUCCESS hid uid xfr sus exe) =
     [''JOB_SUCCESS'', show_int hid, show_int uid, show_int xfr @ ''.000000'',
      show_int sus @ ''.000000'', show_int exe @ ''.000000'']"
| "sch_fields (JOB_SCHEDULE jid aid uid reason) =
     [''JOB_SCHEDULE'', show_int jid, show_int aid, show_int uid, show_int (reason_code reason), ''-'']"

fun join_fields :: "string list \<Rightarrow> string" where
  "join_fields [] = [CHR 0x0A]"
| "join_fields [f] = f @ [CHR 0x0A]"
| "join_fields (f # fs) = f @ CHR '' '' # join_fields fs"

definition sch_write :: "sch_msg \<Rightarrow> string" where
  "sch_write m = join_fields (sch_fields m)"

section \<open>The reader\<close>

definition GW_SCHED_FIELD_WIDTH :: nat where
  "GW_SCHED_FIELD_WIDTH = 80"

text \<open>
  \<open>%s\<close> of \<open>sscanf\<close>: blanks are skipped, then all that is not a blank is stored into the
  field.  \<open>None\<close> when there is nothing to store (the field keeps the garbage of
  \<open>malloc\<close>) or when it does not fit with its final zero (a heap overflow).
\<close>

definition scan_word :: "string \<Rightarrow> (string \<times> string) option" where
  "scan_word s =
     (let t = dropWhile is_blank s; w = takeWhile (\<lambda>c. \<not> is_blank c) t in
      if w = [] \<or> length w \<ge> GW_SCHED_FIELD_WIDTH then None
      else Some (w, dropWhile (\<lambda>c. \<not> is_blank c) t))"

text \<open>The last conversion, \<open>%[^\n]\<close> after a blank, takes the rest of the line.\<close>

definition scan_line :: "string \<Rightarrow> string option" where
  "scan_line s =
     (let w = takeWhile (\<lambda>c. c \<noteq> CHR 0x0A) (dropWhile is_blank s) in
      if w = [] \<or> length w \<ge> GW_SCHED_FIELD_WIDTH then None else Some w)"

definition gw_scheduler_dispacher_scan :: "string \<Rightarrow> string list option" where
  "gw_scheduler_dispacher_scan s = do {
     (act, s) \<leftarrow> scan_word s;
     (id1, s) \<leftarrow> scan_word s;
     (id2, s) \<leftarrow> scan_word s;
     (at1, s) \<leftarrow> scan_word s;
     (at2, s) \<leftarrow> scan_word s;
     at3 \<leftarrow> scan_line s;
     Some [act, id1, id2, at1, at2, at3]
   }"

text \<open>
  The switch of \<open>gw_scheduler_loop\<close>: which action the scheduler takes, with the
  arguments it reads; \<open>None\<close> for an action that is not a message of the core
  (\<open>INIT\<close>, \<open>FINALIZE\<close> and unknown ones).
\<close>

definition gw_scheduler_loop_read :: "string list \<Rightarrow> sch_msg option" where
  "gw_scheduler_loop_read q =
     (case q of [act, id1, id2, at1, at2, at3] \<Rightarrow>
        if act = ''HOST_MONITOR'' then Some (HOST_MONITOR (atoi id1) (atoi id2) (atoi at1) at2)
        else if act = ''USER_ADD'' then Some (USER_ADD (atoi id1) (atoi id2) (atoi at1) at2)
        else if act = ''USER_DEL'' then Some (USER_DEL (atoi id1))
        else if act = ''JOB_DEL'' then Some (JOB_DEL (atoi id1))
        else if act = ''JOB_FAILED''
          then Some (JOB_FAILED (atoi id1) (atoi id2) (reason_of_code (atoi at1)))
        else if act = ''JOB_SUCCESS''
          then Some (JOB_SUCCESS (atoi id1) (atoi id2) (atoi at1) (atoi at2) (atoi at3))
        else if act = ''JOB_SCHEDULE''
          then Some (JOB_SCHEDULE (atoi id1) (atoi id2) (atoi at1) (reason_of_code (atoi at2)))
        else if act = ''SCHEDULE'' then Some SCHEDULE
        else None
      | _ \<Rightarrow> None)"

definition sch_read :: "string \<Rightarrow> sch_msg option" where
  "sch_read s = Option.bind (gw_scheduler_dispacher_scan s) gw_scheduler_loop_read"

section \<open>What is written is what is read\<close>

definition field_ok :: "string \<Rightarrow> bool" where
  "field_ok f \<longleftrightarrow> f \<noteq> [] \<and> length f < GW_SCHED_FIELD_WIDTH \<and> list_all (\<lambda>c. \<not> is_blank c) f"

lemma drop_blanks_field: "field_ok f \<Longrightarrow> dropWhile is_blank (f @ s) = f @ s"
  by (cases f) (auto simp: field_ok_def)

lemma scan_word_field:
  assumes "field_ok f" and "is_blank b"
  shows "scan_word (f @ b # s) = Some (f, b # s)"
proof -
  have "takeWhile (\<lambda>c. \<not> is_blank c) (f @ b # s) = f"
    using assms by (subst takeWhile_append2) (auto simp: field_ok_def list_all_iff)
  moreover have "dropWhile (\<lambda>c. \<not> is_blank c) (f @ b # s) = b # s"
    using assms by (subst dropWhile_append2) (auto simp: field_ok_def list_all_iff)
  ultimately show ?thesis
    using assms drop_blanks_field [OF assms(1), of "b # s"]
    by (simp add: scan_word_def field_ok_def Let_def)
qed

lemma scan_word_blank: "is_blank b \<Longrightarrow> scan_word (b # s) = scan_word s"
  by (simp add: scan_word_def)

lemma blank_space [simp]: "is_blank (CHR '' '')" "is_blank (CHR 0x0A)"
  by (simp_all add: is_blank_def)

lemma scan_line_field: "field_ok f \<Longrightarrow> scan_line (CHR '' '' # f @ [CHR 0x0A]) = Some f"
proof -
  assume f: "field_ok f"
  then have "takeWhile (\<lambda>c. c \<noteq> CHR 0x0A) (f @ [CHR 0x0A]) = f"
    by (subst takeWhile_append2) (auto simp: field_ok_def list_all_iff)
  with f drop_blanks_field [OF f, of "[CHR 0x0A]"] show ?thesis
    by (simp add: scan_line_def field_ok_def Let_def)
qed

lemma scan_six_fields:
  assumes "list_all field_ok [a, b, c, d, e, f]"
  shows "gw_scheduler_dispacher_scan (join_fields [a, b, c, d, e, f]) = Some [a, b, c, d, e, f]"
  using assms
  by (simp add: gw_scheduler_dispacher_scan_def scan_word_field scan_word_blank scan_line_field)

lemma scan_fifth_overflow:
  "list_all field_ok [a, b, c, d] \<Longrightarrow> (\<And>s. scan_word (e @ CHR '' '' # s) = None) \<Longrightarrow>
   gw_scheduler_dispacher_scan (join_fields [a, b, c, d, e, f]) = None"
  by (simp add: gw_scheduler_dispacher_scan_def scan_word_field scan_word_blank)

text \<open>A C \<open>int\<close> prints in at most eleven characters.\<close>

definition int32 :: "int \<Rightarrow> bool" where
  "int32 i \<longleftrightarrow> - (2 ^ 31) \<le> i \<and> i < 2 ^ 31"

lemma show_nat_field: "n < 10 ^ 10 \<Longrightarrow> length (show_nat n) \<le> 10"
  by (rule length_show_nat) simp_all

lemma show_int_chars: "list_all (\<lambda>c. \<not> is_blank c) (show_int i)"
  using show_nat_digits [of "nat (- i)"] show_nat_digits [of "nat i"]
  by (auto simp: show_int_def list_all_iff not_blank_digit)

lemma show_int_nonempty [simp]: "show_int i \<noteq> []"
  by (simp add: show_int_def)

lemma show_int_length: "int32 i \<Longrightarrow> length (show_int i) \<le> 11"
proof -
  assume i: "int32 i"
  then have "nat (- i) < 10 ^ 10" and "nat i < 10 ^ 10" by (auto simp: int32_def)
  then show ?thesis
    using show_nat_field [of "nat (- i)"] show_nat_field [of "nat i"] by (simp add: show_int_def)
qed

lemma show_int_field [simp]: "int32 i \<Longrightarrow> field_ok (show_int i)"
  using show_int_length [of i] show_int_chars [of i]
  by (simp add: field_ok_def GW_SCHED_FIELD_WIDTH_def)

lemma show_float_field [simp]: "int32 i \<Longrightarrow> field_ok (show_int i @ ''.000000'')"
  using show_int_length [of i] show_int_chars [of i]
  by (simp add: field_ok_def GW_SCHED_FIELD_WIDTH_def is_blank_def)

lemma reason_int32 [simp]: "int32 (reason_code r)"
  by (cases r) (simp_all add: int32_def)

lemma dec_show_nat_dot: "dec_digits (show_nat n @ ''.000000'') 0 = n"
  by (simp add: dec_show_nat is_digit_def)

lemma atoi_show_float [simp]: "atoi (show_int i @ ''.000000'') = i"
proof (cases "i < 0")
  case True
  then show ?thesis
    using dec_show_nat_dot [of "nat (- i)"] by (simp add: show_int_def atoi_def)
next
  case False
  obtain c cs where s: "show_nat (nat i) = c # cs" by (cases "show_nat (nat i)") auto
  with show_nat_digits [of "nat i"] have "is_digit c" by simp
  with s False show ?thesis
    using dec_show_nat_dot [of "nat i"] not_blank_digit [of c]
    by (auto simp: show_int_def atoi_def)
qed

fun sch_msg_ok :: "sch_msg \<Rightarrow> bool" where
  "sch_msg_ok SCHEDULE = True"
| "sch_msg_ok (HOST_MONITOR hid uslots rjobs name) =
     (int32 hid \<and> int32 uslots \<and> int32 rjobs \<and> field_ok name)"
| "sch_msg_ok (USER_ADD uid aslots rslots name) =
     (int32 uid \<and> int32 aslots \<and> int32 rslots \<and> field_ok name)"
| "sch_msg_ok (USER_DEL uid) = int32 uid"
| "sch_msg_ok (JOB_DEL jid) = int32 jid"
| "sch_msg_ok (JOB_FAILED hid uid reason) = (int32 hid \<and> int32 uid)"
| "sch_msg_ok (JOB_SUCCESS hid uid xfr sus exe) =
     (int32 hid \<and> int32 uid \<and> int32 xfr \<and> int32 sus \<and> int32 exe)"
| "sch_msg_ok (JOB_SCHEDULE jid aid uid reason) = (int32 jid \<and> int32 aid \<and> int32 uid)"

lemma field_ok_const [simp]:
  "field_ok ''-''" "field_ok ''SCHEDULE''" "field_ok ''HOST_MONITOR''" "field_ok ''USER_ADD''"
  "field_ok ''USER_DEL''" "field_ok ''JOB_DEL''" "field_ok ''JOB_FAILED''"
  "field_ok ''JOB_SUCCESS''" "field_ok ''JOB_SCHEDULE''"
  by (simp_all add: field_ok_def is_blank_def GW_SCHED_FIELD_WIDTH_def)

lemma sch_fields_six: "\<exists>a b c d e f. sch_fields m = [a, b, c, d, e, f]"
  by (cases m) simp_all

lemma sch_fields_ok: "sch_msg_ok m \<Longrightarrow> list_all field_ok (sch_fields m)"
  by (cases m) simp_all

lemma sch_read_fields: "gw_scheduler_loop_read (sch_fields m) = Some m"
  by (cases m) (simp_all add: gw_scheduler_loop_read_def)

text \<open>Every message the daemon writes to the scheduler, with C integers and
  with a host or user name that is a word shorter than 80 characters, is read back by
  the scheduler as the same message with the same arguments.\<close>

theorem sch_write_read:
  assumes "sch_msg_ok m"
  shows "sch_read (sch_write m) = Some m"
proof -
  obtain a b c d e f where m: "sch_fields m = [a, b, c, d, e, f]"
    using sch_fields_six by blast
  with sch_fields_ok [OF assms] have "list_all field_ok [a, b, c, d, e, f]" by simp
  from scan_six_fields [OF this] sch_read_fields [of m] m show ?thesis
    by (simp add: sch_read_def sch_write_def)
qed

theorem sch_write_read_witness:
  "sch_read (sch_write (HOST_MONITOR 2 (- 1) 7 ''orca.dacya'')) =
     Some (HOST_MONITOR 2 (- 1) 7 ''orca.dacya'')"
  by (rule sch_write_read)
    (simp add: field_ok_def is_blank_def GW_SCHED_FIELD_WIDTH_def int32_def)

text \<open>The reader has no bound on a field: a host name of 80 characters or more
  overflows the queue entry.\<close>

theorem sch_read_overflow:
  assumes "int32 hid" "int32 us" "int32 rj"
    and "name \<noteq> []" "list_all (\<lambda>c. \<not> is_blank c) name" "GW_SCHED_FIELD_WIDTH \<le> length name"
  shows "sch_read (sch_write (HOST_MONITOR hid us rj name)) = None"
proof -
  have "takeWhile (\<lambda>c. \<not> is_blank c) (name @ CHR '' '' # s) = name" for s
    using assms by (subst takeWhile_append2) (auto simp: list_all_iff)
  moreover have "dropWhile is_blank (name @ CHR '' '' # s) = name @ CHR '' '' # s" for s
    using assms by (cases name) auto
  ultimately have "scan_word (name @ CHR '' '' # s) = None" for s
    using assms(6) by (simp add: scan_word_def Let_def)
  from scan_fifth_overflow [OF _ this, of "''HOST_MONITOR''" "show_int hid" "show_int us" "show_int rj" "''-''"]
  show ?thesis using assms(1-3) by (simp add: sch_read_def sch_write_def)
qed

theorem sch_read_overflow_witness:
  "sch_read (sch_write (HOST_MONITOR 0 0 0 (replicate 80 (CHR ''a'')))) = None"
  by (rule sch_read_overflow)
    (simp_all add: int32_def GW_SCHED_FIELD_WIDTH_def is_blank_def list_all_iff)

end
