(* ===== verification/Gw_User_Pool.thy ===== *)
theory Gw_User_Pool
  imports Gw_Pools Gw_Dm_Mad
begin

text \<open>
  Users and their drivers: \<open>src/um/gw_user.c\<close> and \<open>src/um/gw_user_pool.c\<close>.  A driver
  is its name; whether the process of a driver starts is the parameter \<open>starts\<close>.  The
  proxy commands, the pipes of the drivers and the one byte notifications to the
  listeners are left out.  An operation that notifies the scheduler returns the
  messages it writes.
\<close>

section \<open>Drivers of a user (gw_user.c)\<close>

fun gw_em_get_mad :: "gw_user option \<Rightarrow> string \<Rightarrow> string option" where
  "gw_em_get_mad None name = None"
| "gw_em_get_mad (Some user) name = List.find (\<lambda>m. name = m) (user_em_mad user)"

fun gw_tm_get_mad :: "gw_user option \<Rightarrow> string \<Rightarrow> string option" where
  "gw_tm_get_mad None name = None"
| "gw_tm_get_mad (Some user) name = List.find (\<lambda>m. name = m) (user_tm_mad user)"

definition gw_em_register_mad :: "(string \<Rightarrow> bool) \<Rightarrow> gw_user \<Rightarrow> string \<Rightarrow> int \<times> gw_user" where
  "gw_em_register_mad starts user name =
     (if length (user_em_mad user) = GW_MAX_MADS then (- 1, user)
      else if List.find (\<lambda>m. m = name) (user_em_mad user) \<noteq> None then (0, user)
      else if starts name then (0, user\<lparr>user_em_mad := user_em_mad user @ [name]\<rparr>)
      else (- 1, user))"

definition gw_tm_register_mad :: "(string \<Rightarrow> bool) \<Rightarrow> gw_user \<Rightarrow> string \<Rightarrow> int \<times> gw_user" where
  "gw_tm_register_mad starts user name =
     (if length (user_tm_mad user) = GW_MAX_MADS then (- 1, user)
      else if List.find (\<lambda>m. m = name) (user_tm_mad user) \<noteq> None then (0, user)
      else if starts name then (0, user\<lparr>user_tm_mad := user_tm_mad user @ [name]\<rparr>)
      else (- 1, user))"

text \<open>The two loading loops of \<open>gw_user_init\<close>: they stop at the first driver that fails.\<close>

fun load_mads :: "('u \<Rightarrow> string \<Rightarrow> int \<times> 'u) \<Rightarrow> string list \<Rightarrow> 'u \<Rightarrow> int \<times> 'u" where
  "load_mads reg [] user = (0, user)"
| "load_mads reg (m # ms) user =
     (let (rc, user') = reg user m in if rc \<noteq> 0 then (- 1, user') else load_mads reg ms user')"

definition gw_user_init ::
    "gw_conf \<Rightarrow> (string \<Rightarrow> bool) \<Rightarrow> string \<Rightarrow> string \<Rightarrow> int \<times> gw_user" where
  "gw_user_init conf starts name proxy_path =
     (let user = \<lparr> user_name = name, user_proxy_path = proxy_path, user_active_jobs = 0,
                   user_running_jobs = 0, user_idle = 0, user_em_mad = [], user_tm_mad = [] \<rparr>;
          (rc, user) = load_mads (gw_em_register_mad starts) (take GW_MAX_MADS (conf_em_mads conf)) user
      in if rc \<noteq> 0 then (- 1, user)
         else load_mads (gw_tm_register_mad starts) (take GW_MAX_MADS (conf_tm_mads conf)) user)"

section \<open>The pool (gw_user_pool.c)\<close>

definition GW_MAX_IDLE_TIME :: int where
  "GW_MAX_IDLE_TIME = 360"

definition gw_user_pool_init :: "gw_conf \<Rightarrow> gw_user gw_pool" where
  "gw_user_pool_init conf = pool_init (conf_number_of_users conf)"

text \<open>The search loop of \<open>gw_user_pool_user_allocate\<close>: the first NULL entry, or the size.\<close>

fun first_null :: "'a option list \<Rightarrow> int" where
  "first_null [] = 0"
| "first_null (u # us) = (if u = None then 0 else first_null us + 1)"

definition gw_user_pool_user_allocate ::
    "gw_conf \<Rightarrow> (string \<Rightarrow> bool) \<Rightarrow> string \<Rightarrow> string \<Rightarrow> gw_user gw_pool
       \<Rightarrow> (int \<times> int option \<times> gw_user gw_pool \<times> sch_msg list) option" where
  "gw_user_pool_user_allocate conf starts name proxy_path p =
     (if pool_number p = conf_number_of_users conf then Some (- 1, None, p, [])
      else do {
        let i = first_null (pool_slots p);
        let (rc, user) = gw_user_init conf starts name proxy_path;
        let user = user\<lparr>user_active_jobs := 1\<rparr>;
        us \<leftarrow> wr (pool_slots p) i (if rc = 0 then Some user else None);
        Some (rc, if rc = 0 then Some i else None, p\<lparr>pool_slots := us\<rparr>,
              if rc = 0 then [gw_dm_mad_user_add i user] else [])
      })"

definition gw_user_pool_user_free :: "gw_user gw_pool \<Rightarrow> int \<Rightarrow> gw_user gw_pool" where
  "gw_user_pool_user_free p user_id =
     (case pool_get p user_id of
        None \<Rightarrow> p
      | Some _ \<Rightarrow> (pool_store p user_id None)\<lparr>pool_number := pool_number p - 1\<rparr>)"

definition gw_user_pool_get_em_mad :: "gw_user gw_pool \<Rightarrow> int \<Rightarrow> string \<Rightarrow> string option" where
  "gw_user_pool_get_em_mad p user_id name =
     (if 0 \<le> user_id \<and> user_id < pool_size p then gw_em_get_mad (pool_get p user_id) name else None)"

definition gw_user_pool_get_tm_mad :: "gw_user gw_pool \<Rightarrow> int \<Rightarrow> string \<Rightarrow> string option" where
  "gw_user_pool_get_tm_mad p user_id name =
     (if 0 \<le> user_id \<and> user_id < pool_size p then gw_tm_get_mad (pool_get p user_id) name else None)"

text \<open>\<open>gw_user_pool_exists\<close>: the first entry with this name and proxy, from entry \<open>i\<close>.\<close>

fun user_search :: "gw_user option list \<Rightarrow> string \<Rightarrow> string \<Rightarrow> int \<Rightarrow> int option" where
  "user_search [] name proxy_path i = None"
| "user_search (u # us) name proxy_path i =
     (case u of
        Some user \<Rightarrow> if user_name user = name \<and> user_proxy_path user = proxy_path then Some i
          else user_search us name proxy_path (i + 1)
      | None \<Rightarrow> user_search us name proxy_path (i + 1))"

definition gw_user_pool_exists :: "gw_user gw_pool \<Rightarrow> string \<Rightarrow> string \<Rightarrow> bool \<times> int" where
  "gw_user_pool_exists p name proxy_path =
     (case user_search (pool_slots p) name proxy_path 0 of
        Some i \<Rightarrow> (True, i) | None \<Rightarrow> (False, - 1))"

text \<open>The common shape of the four counter updates: guard, update, notification.\<close>

definition user_update ::
    "(gw_user \<Rightarrow> gw_user) \<Rightarrow> gw_user gw_pool \<Rightarrow> int \<Rightarrow> gw_user gw_pool \<times> sch_msg list" where
  "user_update f p uid =
     (case pool_get p uid of
        None \<Rightarrow> (p, [])
      | Some u \<Rightarrow> (pool_store p uid (Some (f u)), [gw_dm_mad_user_add uid (f u)]))"

definition gw_user_pool_inc_jobs :: "gw_user gw_pool \<Rightarrow> int \<Rightarrow> int \<Rightarrow> gw_user gw_pool \<times> sch_msg list" where
  "gw_user_pool_inc_jobs p uid jobs =
     user_update (\<lambda>u. u\<lparr>user_idle := 0, user_active_jobs := user_active_jobs u + jobs\<rparr>) p uid"

definition gw_user_pool_dec_jobs :: "gw_user gw_pool \<Rightarrow> int \<Rightarrow> gw_user gw_pool \<times> sch_msg list" where
  "gw_user_pool_dec_jobs p uid =
     user_update (\<lambda>u. u\<lparr>user_idle := 0, user_active_jobs := user_active_jobs u - 1\<rparr>) p uid"

definition gw_user_pool_inc_running_jobs ::
    "gw_user gw_pool \<Rightarrow> int \<Rightarrow> int \<Rightarrow> gw_user gw_pool \<times> sch_msg list" where
  "gw_user_pool_inc_running_jobs p uid jobs =
     user_update (\<lambda>u. u\<lparr>user_running_jobs := user_running_jobs u + jobs\<rparr>) p uid"

definition gw_user_pool_dec_running_jobs ::
    "gw_user gw_pool \<Rightarrow> int \<Rightarrow> gw_user gw_pool \<times> sch_msg list" where
  "gw_user_pool_dec_running_jobs p uid =
     user_update (\<lambda>u. u\<lparr>user_running_jobs := user_running_jobs u - 1\<rparr>) p uid"

text \<open>
  \<open>gw_user_pool_check_users\<close>, slot by slot: the slots, how many users went, and the
  messages.
\<close>

fun check_users_from ::
    "int \<Rightarrow> gw_user option list \<Rightarrow> int \<Rightarrow> gw_user option list \<times> int \<times> sch_msg list" where
  "check_users_from period [] i = ([], 0, [])"
| "check_users_from period (s # ss) i =
     (let (ss', k, msgs) = check_users_from period ss (i + 1) in
      case s of
        None \<Rightarrow> (None # ss', k, msgs)
      | Some u \<Rightarrow>
          if user_active_jobs u = 0 then
            (let u' = u\<lparr>user_idle := user_idle u + period\<rparr> in
             if user_idle u' \<ge> GW_MAX_IDLE_TIME then (None # ss', k + 1, USER_DEL i # msgs)
             else (Some u' # ss', k, msgs))
          else (Some u # ss', k, msgs))"

definition gw_user_pool_check_users ::
    "gw_user gw_pool \<Rightarrow> int \<Rightarrow> gw_user gw_pool \<times> sch_msg list" where
  "gw_user_pool_check_users p period =
     (let (ss, k, msgs) = check_users_from period (pool_slots p) 0
      in (p\<lparr>pool_slots := ss, pool_number := pool_number p - k\<rparr>, msgs))"

text \<open>The message about one user; the identifier is not checked against the pool.\<close>

definition gw_user_pool_get_info :: "gw_user gw_pool \<Rightarrow> int \<Rightarrow> gw_user option option" where
  "gw_user_pool_get_info p uid = rd (pool_slots p) uid"

fun users_from :: "gw_user option list \<Rightarrow> int \<Rightarrow> sch_msg list" where
  "users_from [] i = []"
| "users_from (u # us) i =
     (case u of None \<Rightarrow> [] | Some user \<Rightarrow> [gw_dm_mad_user_add i user]) @ users_from us (i + 1)"

definition gw_user_pool_dm_recover :: "gw_user gw_pool \<Rightarrow> sch_msg list" where
  "gw_user_pool_dm_recover p = users_from (pool_slots p) 0"

section \<open>Frame of the counter updates\<close>

lemma user_update_frame [simp]:
  "pool_size (fst (user_update f p uid)) = pool_size p"
  "pool_number (fst (user_update f p uid)) = pool_number p"
  by (simp_all add: user_update_def split: option.split)

lemma pool_get_user_update:
  "pool_get (fst (user_update f p uid)) i =
     (if i = uid then map_option f (pool_get p uid) else pool_get p i)"
  by (auto simp: user_update_def split: option.split)

section \<open>Allocation\<close>

lemma first_null_range: "0 \<le> first_null us \<and> first_null us \<le> int (length us)"
  by (induction us) auto

lemma first_null_full: "list_all (\<lambda>u. u \<noteq> None) us \<Longrightarrow> first_null us = int (length us)"
  by (induction us) auto

lemma first_null_free: "\<not> list_all (\<lambda>u. u \<noteq> None) us \<Longrightarrow> rd us (first_null us) = Some None"
proof (induction us)
  case (Cons u us)
  show ?case
  proof (cases u)
    case (Some x)
    with Cons have "rd us (first_null us) = Some None" by simp
    then have "0 \<le> first_null us" "first_null us < int (length us)" "us ! nat (first_null us) = None"
      by (simp_all add: rd_Some)
    with Some show ?thesis by (simp add: rd_def nat_add_distrib)
  qed (simp add: rd_def)
qed simp

lemma user_search_Some:
  "user_search us name px i = Some k \<Longrightarrow>
     \<exists>n u. k = i + int n \<and> n < length us \<and> us ! n = Some u
       \<and> user_name u = name \<and> user_proxy_path u = px"
proof (induction us arbitrary: i)
  case (Cons s ss)
  show ?case
  proof (cases "\<exists>u. s = Some u \<and> user_name u = name \<and> user_proxy_path u = px")
    case True
    with Cons.prems show ?thesis by (intro exI [of _ 0]) auto
  next
    case False
    with Cons.prems have "user_search ss name px (i + 1) = Some k"
      by (auto split: option.splits if_splits)
    with Cons.IH obtain n u where "k = i + 1 + int n" "n < length ss" "ss ! n = Some u"
      "user_name u = name" "user_proxy_path u = px" by blast
    then show ?thesis by (intro exI [of _ "Suc n"]) auto
  qed
qed simp

lemma user_search_None:
  "user_search us name px i = None \<Longrightarrow> Some u \<in> set us \<Longrightarrow>
     \<not> (user_name u = name \<and> user_proxy_path u = px)"
  by (induction us arbitrary: i) (auto split: option.splits if_splits)

lemma load_mads_keeps:
  assumes "\<And>u m rc u'. reg u m = (rc, u') \<Longrightarrow> g u' = g u"
  shows "load_mads reg ms u = (rc, u') \<Longrightarrow> g u' = g u"
proof (induction ms arbitrary: u)
  case (Cons m ms)
  obtain rc1 u1 where r: "reg u m = (rc1, u1)" by fastforce
  with assms have "g u1 = g u" .
  with r Cons show ?case by (cases "rc1 = 0") auto
qed simp

lemma register_keeps:
  "gw_em_register_mad starts u m = (rc, u') \<Longrightarrow>
     (user_name u', user_proxy_path u', user_active_jobs u', user_running_jobs u')
       = (user_name u, user_proxy_path u, user_active_jobs u, user_running_jobs u)"
  "gw_tm_register_mad starts u m = (rc, u') \<Longrightarrow>
     (user_name u', user_proxy_path u', user_active_jobs u', user_running_jobs u')
       = (user_name u, user_proxy_path u, user_active_jobs u, user_running_jobs u)"
  by (auto simp: gw_em_register_mad_def gw_tm_register_mad_def split: if_splits)

lemma gw_user_init_fields:
  assumes "gw_user_init conf starts name px = (rc, u)"
  shows "user_name u = name" "user_proxy_path u = px" "user_active_jobs u = 0"
    "user_running_jobs u = 0"
proof -
  define g where
    "g u = (user_name u, user_proxy_path u, user_active_jobs u, user_running_jobs u)" for u :: gw_user
  define u0 where "u0 = \<lparr> user_name = name, user_proxy_path = px, user_active_jobs = 0,
    user_running_jobs = 0, user_idle = 0, user_em_mad = [], user_tm_mad = [] \<rparr>"
  obtain rc1 u1 where l: "load_mads (gw_em_register_mad starts)
      (take GW_MAX_MADS (conf_em_mads conf)) u0 = (rc1, u1)" by fastforce
  have "g u1 = g u0"
    by (rule load_mads_keeps [OF _ l, of g]) (simp add: g_def register_keeps(1))
  moreover have "g u = g u1"
  proof (cases "rc1 = 0")
    case True
    with assms l have "load_mads (gw_tm_register_mad starts)
      (take GW_MAX_MADS (conf_tm_mads conf)) u1 = (rc, u)"
      by (simp add: gw_user_init_def u0_def)
    then show ?thesis
      by (rule load_mads_keeps [rotated]) (simp add: g_def register_keeps(2))
  next
    case False
    with assms l show ?thesis by (simp add: gw_user_init_def u0_def)
  qed
  ultimately have "g u = g u0" by simp
  then show "user_name u = name" "user_proxy_path u = px" "user_active_jobs u = 0"
    "user_running_jobs u = 0"
    by (simp_all add: g_def u0_def)
qed

text \<open>A user that could be allocated stands in the first free slot, with its
  name, its proxy and one active job, no other slot has changed, the scheduler is told
  of it, and the user can then be found by name and proxy.\<close>

theorem gw_user_pool_allocate_finds:
  assumes "gw_user_pool_user_allocate conf starts name px p = Some (0, Some i, p', msgs)"
  shows "i = first_null (pool_slots p)
    \<and> (\<exists>u. pool_get p' i = Some u \<and> user_name u = name \<and> user_proxy_path u = px
       \<and> user_active_jobs u = 1 \<and> msgs = [USER_ADD i 1 (user_running_jobs u) name])
    \<and> (\<forall>j. j \<noteq> i \<longrightarrow> pool_get p' j = pool_get p j)
    \<and> fst (gw_user_pool_exists p' name px)"
proof -
  obtain rc u where init: "gw_user_init conf starts name px = (rc, u)" by fastforce
  note u = gw_user_init_fields [OF init]
  let ?u = "u\<lparr>user_active_jobs := 1\<rparr>"
  from assms init have i: "i = first_null (pool_slots p)" and rc: "rc = 0"
    and wr: "wr (pool_slots p) i (Some ?u) = Some (pool_slots p')"
    and msgs: "msgs = [gw_dm_mad_user_add i ?u]"
    by (auto simp: gw_user_pool_user_allocate_def Let_def bind_Some_iff split: if_splits)
  have get: "pool_get p' j = (if j = i then Some ?u else pool_get p j)" for j
    using rd_wr [OF wr, of j] wr wr_length [OF wr]
    by (auto simp: pool_get_def slot_def wr_Some rd_def nth_list_update)
  then have "\<exists>u. pool_get p' i = Some u \<and> user_name u = name \<and> user_proxy_path u = px
       \<and> user_active_jobs u = 1 \<and> msgs = [USER_ADD i 1 (user_running_jobs u) name]"
    using u msgs by (simp add: gw_dm_mad_user_add_def)
  moreover have "\<forall>j. j \<noteq> i \<longrightarrow> pool_get p' j = pool_get p j" by (simp add: get)
  moreover have "Some ?u \<in> set (pool_slots p')"
    using get [of i] by (auto simp: pool_get_def slot_def split: if_splits dest!: nth_mem)
      (metis nat_less_iff nth_mem)
  then have "user_search (pool_slots p') name px 0 \<noteq> None"
    using user_search_None [of "pool_slots p'" name px 0 ?u] u by auto
  then have "fst (gw_user_pool_exists p' name px)"
    by (auto simp: gw_user_pool_exists_def split: option.split)
  ultimately show ?thesis using i by blast
qed

lemma example_allocate:
  "0 < n \<Longrightarrow> \<exists>p u m. gw_user_pool_user_allocate (example_conf\<lparr>conf_number_of_users := n\<rparr>)
       (\<lambda>m. True) name px (gw_user_pool_init (example_conf\<lparr>conf_number_of_users := n\<rparr>))
     = Some (0, Some 0, p, m) \<and> pool_slots p = Some u # replicate (nat n - 1) None"
  by (cases "nat n")
    (simp_all add: gw_user_pool_user_allocate_def gw_user_pool_init_def pool_init_def
        example_conf_def gw_user_init_def gw_em_register_mad_def gw_tm_register_mad_def
        GW_MAX_MADS_def wr_def Let_def)

theorem gw_user_pool_allocate_finds_witness:
  "\<exists>p' msgs. gw_user_pool_user_allocate (example_conf\<lparr>conf_number_of_users := 2\<rparr>) (\<lambda>m. True)
       ''tigre'' '''' (gw_user_pool_init (example_conf\<lparr>conf_number_of_users := 2\<rparr>))
         = Some (0, Some 0, p', msgs)
     \<and> fst (gw_user_pool_exists p' ''tigre'' '''')"
proof -
  obtain p' msgs where r: "gw_user_pool_user_allocate (example_conf\<lparr>conf_number_of_users := 2\<rparr>)
       (\<lambda>m. True) ''tigre'' '''' (gw_user_pool_init (example_conf\<lparr>conf_number_of_users := 2\<rparr>))
         = Some (0, Some 0, p', msgs)"
    using example_allocate [of 2] by fastforce
  from gw_user_pool_allocate_finds [OF r] r show ?thesis by blast
qed

section \<open>The counter of the pool\<close>

text \<open>The operations that change the pool as a whole, from its initialisation on.\<close>

inductive user_pool_reach :: "gw_conf \<Rightarrow> gw_user gw_pool \<Rightarrow> bool" for conf where
  reach_init: "user_pool_reach conf (gw_user_pool_init conf)"
| reach_allocate: "user_pool_reach conf p \<Longrightarrow>
    gw_user_pool_user_allocate conf starts name px p = Some (rc, uid, p', msgs) \<Longrightarrow>
    user_pool_reach conf p'"
| reach_free: "user_pool_reach conf p \<Longrightarrow> user_pool_reach conf (gw_user_pool_user_free p uid)"
| reach_inc_jobs: "user_pool_reach conf p \<Longrightarrow>
    user_pool_reach conf (fst (gw_user_pool_inc_jobs p uid jobs))"
| reach_dec_jobs: "user_pool_reach conf p \<Longrightarrow>
    user_pool_reach conf (fst (gw_user_pool_dec_jobs p uid))"
| reach_inc_running: "user_pool_reach conf p \<Longrightarrow>
    user_pool_reach conf (fst (gw_user_pool_inc_running_jobs p uid jobs))"
| reach_dec_running: "user_pool_reach conf p \<Longrightarrow>
    user_pool_reach conf (fst (gw_user_pool_dec_running_jobs p uid))"
| reach_check: "user_pool_reach conf p \<Longrightarrow>
    user_pool_reach conf (fst (gw_user_pool_check_users p period))"

lemma user_allocate_frame:
  "gw_user_pool_user_allocate conf starts name px p = Some (rc, uid, p', msgs) \<Longrightarrow>
     pool_number p' = pool_number p \<and> pool_size p' = pool_size p"
  by (auto simp: gw_user_pool_user_allocate_def Let_def bind_Some_iff pool_size_def wr_Some
      split: if_splits prod.splits)

lemma check_users_from_counts:
  "check_users_from period ss i = (ss', k, msgs) \<Longrightarrow>
     length ss' = length ss \<and> k = int (length msgs) \<and> int (occupied ss') + k = int (occupied ss)"
proof (induction ss arbitrary: i ss' k msgs)
  case (Cons s ss)
  obtain ss1 k1 m1 where r: "check_users_from period ss (i + 1) = (ss1, k1, m1)"
    by (metis prod_cases3)
  from Cons.IH [OF r] Cons.prems r show ?case
    by (auto simp: Let_def split: option.splits if_splits)
qed simp

lemma check_users_frame:
  "pool_number (fst (gw_user_pool_check_users p period)) \<le> pool_number p"
  "pool_size (fst (gw_user_pool_check_users p period)) = pool_size p"
  using check_users_from_counts [of period "pool_slots p" 0]
  by (auto simp: gw_user_pool_check_users_def pool_size_def Let_def split: prod.splits)

lemma user_pool_reach_counter:
  "user_pool_reach conf p \<Longrightarrow> 0 \<le> conf_number_of_users conf \<Longrightarrow>
     pool_number p \<le> 0 \<and> pool_size p = conf_number_of_users conf"
proof (induction rule: user_pool_reach.induct)
  case reach_init
  then show ?case by (simp add: gw_user_pool_init_def) (simp add: pool_init_def)
next
  case (reach_allocate p starts name px rc uid p' msgs)
  then show ?case using user_allocate_frame by fastforce
next
  case (reach_check p period)
  then show ?case using check_users_frame [of p period] by linarith
qed (simp_all add: gw_user_pool_user_free_def gw_user_pool_inc_jobs_def
    gw_user_pool_dec_jobs_def gw_user_pool_inc_running_jobs_def
    gw_user_pool_dec_running_jobs_def split: option.split)

text \<open>\<open>number_of_users\<close> is decremented and never incremented, so the test for a
  full pool never holds: in every reachable pool the counter is at most zero, and once
  every slot is taken the next allocation writes past the end of the array.\<close>

theorem gw_user_pool_full_overflow:
  assumes "user_pool_reach conf p" and "0 < conf_number_of_users conf"
    and "list_all (\<lambda>u. u \<noteq> None) (pool_slots p)"
  shows "pool_number p \<le> 0 \<and> gw_user_pool_user_allocate conf starts name px p = None"
proof -
  have "pool_number p \<le> 0" "int (length (pool_slots p)) = conf_number_of_users conf"
    using user_pool_reach_counter [OF assms(1)] assms(2) by (simp_all add: pool_size_def)
  with assms(2) first_null_full [OF assms(3)] show ?thesis
    by (auto simp: gw_user_pool_user_allocate_def bind_None_iff Let_def split: prod.split)
qed

theorem gw_user_pool_full_overflow_witness:
  "\<exists>p. user_pool_reach (example_conf\<lparr>conf_number_of_users := 1\<rparr>) p \<and>
     gw_user_pool_user_allocate (example_conf\<lparr>conf_number_of_users := 1\<rparr>) (\<lambda>m. True) ''b'' '''' p
       = None"
proof -
  let ?c = "example_conf\<lparr>conf_number_of_users := 1\<rparr>"
  obtain p u m where r: "gw_user_pool_user_allocate ?c (\<lambda>m. True) ''a'' ''''
       (gw_user_pool_init ?c) = Some (0, Some 0, p, m)" "pool_slots p = [Some u]"
    using example_allocate [of 1 "''a''" "''''"] by auto
  have reach: "user_pool_reach ?c p"
    by (rule reach_allocate [OF reach_init r(1)])
  with gw_user_pool_full_overflow [OF reach, of "\<lambda>m. True" "''b''" "''''"] r(2) show ?thesis
    by auto
qed

section \<open>Idle users\<close>

text \<open>What the period does to one entry.\<close>

definition idle_step :: "int \<Rightarrow> gw_user \<Rightarrow> gw_user option" where
  "idle_step period u =
     (if user_active_jobs u \<noteq> 0 then Some u
      else if user_idle u + period \<ge> GW_MAX_IDLE_TIME then None
      else Some (u\<lparr>user_idle := user_idle u + period\<rparr>))"

lemma check_users_from_slots:
  "fst (check_users_from period ss i) = map (\<lambda>s. Option.bind s (idle_step period)) ss"
proof (induction ss arbitrary: i)
  case (Cons s ss)
  obtain ss1 k1 m1 where r: "check_users_from period ss (i + 1) = (ss1, k1, m1)"
    by (metis prod_cases3)
  with Cons.IH [of "i + 1"] show ?case
    by (auto simp: Let_def idle_step_def split: option.split)
qed simp

lemma check_users_from_msgs:
  "set (snd (snd (check_users_from period ss i))) =
     {USER_DEL (i + int n) |n. n < length ss \<and> ss ! n \<noteq> None
        \<and> Option.bind (ss ! n) (idle_step period) = None}"
proof (induction ss arbitrary: i)
  case (Cons s ss)
  let ?gone = "\<lambda>x. x \<noteq> None \<and> Option.bind x (idle_step period) = None"
  have "{USER_DEL (i + int n) |n. n < length (s # ss) \<and> ?gone ((s # ss) ! n)} =
      (if ?gone s then {USER_DEL i} else {}) \<union>
      {USER_DEL (i + 1 + int n) |n. n < length ss \<and> ?gone (ss ! n)}" (is "?L = ?H \<union> ?T")
  proof (rule set_eqI)
    fix m
    show "m \<in> ?L \<longleftrightarrow> m \<in> ?H \<union> ?T"
    proof
      assume "m \<in> ?L"
      then obtain n where n: "m = USER_DEL (i + int n)" "n < length (s # ss)"
        "?gone ((s # ss) ! n)" by blast
      then show "m \<in> ?H \<union> ?T" by (cases n) auto
    next
      assume "m \<in> ?H \<union> ?T"
      then show "m \<in> ?L"
      proof
        assume "m \<in> ?H"
        then show ?thesis by (auto split: if_splits intro!: exI [of _ 0])
      next
        assume "m \<in> ?T"
        then obtain n where "m = USER_DEL (i + 1 + int n)" "n < length ss" "?gone (ss ! n)"
          by blast
        then show ?thesis by (auto intro!: exI [of _ "Suc n"])
      qed
    qed
  qed
  moreover have "set (snd (snd (check_users_from period (s # ss) i))) =
      (if ?gone s then {USER_DEL i} else {}) \<union> set (snd (snd (check_users_from period ss (i + 1))))"
    by (auto simp: Let_def idle_step_def split: prod.splits option.splits if_splits)
  ultimately show ?case using Cons.IH [of "i + 1"] by simp
qed simp

text \<open>The periodic check removes exactly the users without active jobs whose
  idle time reaches the limit with this period, tells the scheduler of these and of no
  other user, and leaves every user with active jobs as it was.\<close>

theorem gw_user_pool_check_users_removes:
  assumes "gw_user_pool_check_users p period = (p', msgs)"
  shows "(\<forall>i. pool_get p' i = Option.bind (pool_get p i) (idle_step period))
   \<and> set msgs = {USER_DEL i |i. pool_get p i \<noteq> None \<and> pool_get p' i = None}
   \<and> (\<forall>i u. pool_get p i = Some u \<and> user_active_jobs u \<noteq> 0 \<longrightarrow> pool_get p' i = Some u)"
proof -
  from assms have slots: "pool_slots p' = map (\<lambda>s. Option.bind s (idle_step period)) (pool_slots p)"
    and m: "msgs = snd (snd (check_users_from period (pool_slots p) 0))"
    using check_users_from_slots [of period "pool_slots p" 0]
    by (auto simp: gw_user_pool_check_users_def Let_def split: prod.splits)
  have get: "pool_get p' i = Option.bind (pool_get p i) (idle_step period)" for i
    by (auto simp: pool_get_def slot_def slots)
  have "set msgs = {USER_DEL i |i. pool_get p i \<noteq> None \<and> pool_get p' i = None}"
  proof -
    have "(\<exists>n. m' = USER_DEL (int n) \<and> n < length (pool_slots p) \<and> pool_slots p ! n \<noteq> None
        \<and> Option.bind (pool_slots p ! n) (idle_step period) = None) \<longleftrightarrow>
      (\<exists>i. m' = USER_DEL i \<and> pool_get p i \<noteq> None
        \<and> Option.bind (pool_get p i) (idle_step period) = None)" for m'
    proof
      assume "\<exists>i. m' = USER_DEL i \<and> pool_get p i \<noteq> None
        \<and> Option.bind (pool_get p i) (idle_step period) = None"
      then obtain i where i: "m' = USER_DEL i" "pool_get p i \<noteq> None"
        "Option.bind (pool_get p i) (idle_step period) = None" by blast
      then have "0 \<le> i" "i < int (length (pool_slots p))" "pool_get p i = pool_slots p ! nat i"
        by (auto simp: pool_get_def slot_def split: if_splits)
      with i show "\<exists>n. m' = USER_DEL (int n) \<and> n < length (pool_slots p)
        \<and> pool_slots p ! n \<noteq> None \<and> Option.bind (pool_slots p ! n) (idle_step period) = None"
        by (intro exI [of _ "nat i"]) auto
    qed (auto simp: pool_get_def slot_def)
    then show ?thesis unfolding m check_users_from_msgs get by auto
  qed
  moreover have "idle_step period u = Some u" if "user_active_jobs u \<noteq> 0" for u
    using that by (simp add: idle_step_def)
  ultimately show ?thesis by (simp add: get)
qed

definition example_users :: "gw_user gw_pool" where
  "example_users = \<lparr> pool_number = 0, pool_last_id = - 1, pool_slots =
     [Some \<lparr> user_name = ''ana'', user_proxy_path = [], user_active_jobs = 0,
             user_running_jobs = 0, user_idle = 340, user_em_mad = [], user_tm_mad = [] \<rparr>,
      Some \<lparr> user_name = ''eva'', user_proxy_path = [], user_active_jobs = 2,
             user_running_jobs = 1, user_idle = 0, user_em_mad = [], user_tm_mad = [] \<rparr>] \<rparr>"

theorem gw_user_pool_check_users_removes_witness:
  "\<exists>p' msgs. gw_user_pool_check_users example_users 30 = (p', msgs)
     \<and> pool_get p' 0 = None \<and> pool_get p' 1 = pool_get example_users 1 \<and> USER_DEL 0 \<in> set msgs"
proof -
  obtain p' msgs where r: "gw_user_pool_check_users example_users 30 = (p', msgs)"
    by fastforce
  note c = gw_user_pool_check_users_removes [OF r]
  have "pool_get example_users 0 \<noteq> None"
    "Option.bind (pool_get example_users 0) (idle_step 30) = None"
    "Option.bind (pool_get example_users 1) (idle_step 30) = pool_get example_users 1"
    by (simp_all add: pool_get_def slot_def example_users_def idle_step_def GW_MAX_IDLE_TIME_def)
  with c have "pool_get p' 0 = None" "pool_get p' 1 = pool_get example_users 1"
    "USER_DEL 0 \<in> set msgs" by auto
  with r show ?thesis by blast
qed

end
