(* ===== verification/Gw_Host.thy ===== *)
theory Gw_Host
  imports Gw_Pools Gw_Dm_Mad
begin

text \<open>
  A host and its counters, \<open>src/host/gw_host.c\<close>.  Each of the counter operations
  returns the host and the message it writes to the scheduler.  \<open>gw_host_update\<close>, which
  reads attributes, is in \<open>Gw_Host_Update\<close>; printing is not modelled.
\<close>

text \<open>The tables of a host have the sizes the struct declares.\<close>

definition host_tables :: "gw_host \<Rightarrow> bool" where
  "host_tables h \<longleftrightarrow>
     list_all (\<lambda>n. n = GW_HOST_MAX_QUEUES)
       [length (host_queue_name h), length (host_queue_nodecount h),
        length (host_queue_running_jobs h), length (host_queue_active_jobs h),
        length (host_queue_freenodecount h), length (host_queue_maxtime h),
        length (host_queue_maxcputime h), length (host_queue_maxcount h),
        length (host_queue_maxrunningjobs h), length (host_queue_maxjobsinqueue h),
        length (host_queue_status h), length (host_queue_dispatchtype h),
        length (host_queue_priority h)]
   \<and> length (host_genvar_int h) = GW_HOST_MAX_GENVARS
   \<and> length (host_genvar_str h) = GW_HOST_MAX_GENVARS"

definition gw_host_init :: "string \<Rightarrow> int \<Rightarrow> int \<Rightarrow> string \<Rightarrow> string \<Rightarrow> string \<Rightarrow> gw_host" where
  "gw_host_init hostname host_id fixed_priority em_mad tm_mad im_mad =
     (let qs = replicate GW_HOST_MAX_QUEUES None; qi = replicate GW_HOST_MAX_QUEUES 0 in
      \<lparr> host_em_mad = em_mad, host_tm_mad = tm_mad, host_im_mad = im_mad,
        host_used_slots = 0, host_running_jobs = 0, host_host_id = host_id,
        host_fixed_priority = fixed_priority, host_hostname = hostname,
        host_arch = None, host_os_name = None, host_os_version = None, host_cpu_model = None,
        host_cpu_mhz = 0, host_cpu_free = 0, host_cpu_smp = 0, host_nodecount = 0,
        host_size_mem_mb = 0, host_free_mem_mb = 0, host_size_disk_mb = 0, host_free_disk_mb = 0,
        host_fork_name = None, host_lrms_name = None, host_lrms_type = None,
        host_queue_name = qs, host_queue_nodecount = qi, host_queue_running_jobs = qi,
        host_queue_active_jobs = qi, host_queue_freenodecount = qi, host_queue_maxtime = qi,
        host_queue_maxcputime = qi, host_queue_maxcount = qi, host_queue_maxrunningjobs = qi,
        host_queue_maxjobsinqueue = qi, host_queue_status = qs, host_queue_dispatchtype = qs,
        host_queue_priority = qs,
        host_genvar_int = replicate GW_HOST_MAX_GENVARS (None, 0),
        host_genvar_str = replicate GW_HOST_MAX_GENVARS (None, None),
        host_state = GW_HOST_STATE_DISCOVERED, host_last_monitoring_time = 0 \<rparr>)"

lemma host_tables_init [simp]: "host_tables (gw_host_init hn i fp em tm im)"
  by (simp add: host_tables_def gw_host_init_def Let_def)

definition gw_host_clear_dynamic_info :: "gw_host \<Rightarrow> gw_host \<times> sch_msg list" where
  "gw_host_clear_dynamic_info h =
     (let h = h\<lparr>host_fixed_priority := 0, host_cpu_free := 0, host_nodecount := 0,
                host_free_mem_mb := 0, host_size_mem_mb := 0, host_free_disk_mb := 0,
                host_size_disk_mb := 0, host_fork_name := None, host_lrms_name := None,
                host_lrms_type := None,
                host_queue_status := replicate GW_HOST_MAX_QUEUES None,
                host_queue_freenodecount := replicate GW_HOST_MAX_QUEUES 0,
                host_queue_maxrunningjobs := replicate GW_HOST_MAX_QUEUES 0,
                host_queue_maxjobsinqueue := replicate GW_HOST_MAX_QUEUES 0,
                host_state := GW_HOST_STATE_UNKNOWN, host_last_monitoring_time := 0\<rparr>
      in (h, [gw_dm_mad_host_monitor h]))"

section \<open>Counters\<close>

text \<open>
  The loop over the queues: the counter of the first queue with the job's queue name
  changes, and no counter when the job has no queue or there is no such queue.
\<close>

fun bump_queue :: "(int \<Rightarrow> int) \<Rightarrow> string option \<Rightarrow> string option list \<Rightarrow> int list \<Rightarrow> int list" where
  "bump_queue f queue (n # ns) (c # cs) =
     (if n \<noteq> None \<and> queue \<noteq> None \<and> n = queue then f c # cs else c # bump_queue f queue ns cs)"
| "bump_queue f queue ns cs = cs"

definition gw_host_dec_rjobs :: "gw_host \<Rightarrow> string option \<Rightarrow> gw_host \<times> sch_msg list" where
  "gw_host_dec_rjobs h queue =
     (let h = h\<lparr>host_running_jobs := host_running_jobs h - 1,
                host_queue_running_jobs := bump_queue (\<lambda>c. c - 1) queue (host_queue_name h)
                  (host_queue_running_jobs h)\<rparr>
      in (h, [gw_dm_mad_host_monitor h]))"

definition gw_host_dec_uslots :: "gw_host \<Rightarrow> int \<Rightarrow> string option \<Rightarrow> gw_host \<times> sch_msg list" where
  "gw_host_dec_uslots h slots queue =
     (let h = h\<lparr>host_used_slots := host_used_slots h - slots\<rparr> in (h, [gw_dm_mad_host_monitor h]))"

definition gw_host_dec_slots :: "gw_host \<Rightarrow> int \<Rightarrow> string option \<Rightarrow> gw_host \<times> sch_msg list" where
  "gw_host_dec_slots h slots queue =
     (let h = h\<lparr>host_used_slots := host_used_slots h - slots,
                host_running_jobs := host_running_jobs h - 1,
                host_queue_running_jobs := bump_queue (\<lambda>c. c - 1) queue (host_queue_name h)
                  (host_queue_running_jobs h)\<rparr>
      in (h, [gw_dm_mad_host_monitor h]))"

definition gw_host_inc_rjobs :: "gw_host \<Rightarrow> gw_host \<times> sch_msg list" where
  "gw_host_inc_rjobs h =
     (let h = h\<lparr>host_running_jobs := host_running_jobs h + 1\<rparr> in (h, [gw_dm_mad_host_monitor h]))"

definition gw_host_inc_uslots :: "gw_host \<Rightarrow> int \<Rightarrow> gw_host \<times> sch_msg list" where
  "gw_host_inc_uslots h slots =
     (let h = h\<lparr>host_used_slots := host_used_slots h + slots\<rparr> in (h, [gw_dm_mad_host_monitor h]))"

definition gw_host_inc_slots :: "gw_host \<Rightarrow> int \<Rightarrow> gw_host \<times> sch_msg list" where
  "gw_host_inc_slots h slots =
     (let h = h\<lparr>host_used_slots := host_used_slots h + slots,
                host_running_jobs := host_running_jobs h + 1\<rparr>
      in (h, [gw_dm_mad_host_monitor h]))"

definition gw_host_inc_slots_nb :: "gw_host \<Rightarrow> int \<Rightarrow> string option \<Rightarrow> gw_host \<times> sch_msg list" where
  "gw_host_inc_slots_nb h slots queue =
     (let h = h\<lparr>host_used_slots := host_used_slots h + slots,
                host_running_jobs := host_running_jobs h + 1,
                host_queue_running_jobs := bump_queue (\<lambda>c. c + 1) queue (host_queue_name h)
                  (host_queue_running_jobs h)\<rparr>
      in (h, [gw_dm_mad_host_monitor h]))"

definition gw_host_inc_rjobs_nb :: "gw_host \<Rightarrow> string option \<Rightarrow> gw_host \<times> sch_msg list" where
  "gw_host_inc_rjobs_nb h queue =
     (let h = h\<lparr>host_running_jobs := host_running_jobs h + 1,
                host_queue_running_jobs := bump_queue (\<lambda>c. c + 1) queue (host_queue_name h)
                  (host_queue_running_jobs h)\<rparr>
      in (h, [gw_dm_mad_host_monitor h]))"

definition gw_host_dec_ajobs_nb :: "gw_host \<Rightarrow> string option \<Rightarrow> gw_host" where
  "gw_host_dec_ajobs_nb h queue =
     h\<lparr>host_queue_active_jobs := bump_queue (\<lambda>c. c - 1) queue (host_queue_name h)
         (host_queue_active_jobs h)\<rparr>"

definition gw_host_inc_ajobs_nb :: "gw_host \<Rightarrow> string option \<Rightarrow> gw_host" where
  "gw_host_inc_ajobs_nb h queue =
     h\<lparr>host_queue_active_jobs := bump_queue (\<lambda>c. c + 1) queue (host_queue_name h)
         (host_queue_active_jobs h)\<rparr>"

section \<open>What is taken is given back\<close>

lemma length_bump_queue [simp]: "length (bump_queue f q ns cs) = length cs"
  by (induction f q ns cs rule: bump_queue.induct) auto

lemma bump_queue_bump: "bump_queue g q ns (bump_queue f q ns cs) = bump_queue (g \<circ> f) q ns cs"
  by (induction f q ns cs rule: bump_queue.induct) auto

lemma bump_queue_id: "bump_queue id q ns cs = cs"
  by (induction "id :: int \<Rightarrow> int" q ns cs rule: bump_queue.induct) auto

lemma bump_queue_back [simp]:
  "bump_queue (\<lambda>c. c - 1) q ns (bump_queue (\<lambda>c. c + 1) q ns cs) = cs"
  using bump_queue_bump [of "\<lambda>c. c - 1" q ns "\<lambda>c. c + 1" cs] bump_queue_id [of q ns cs]
  by (simp add: comp_def id_def)

lemma bump_queue_None [simp]: "bump_queue f None ns cs = cs"
  by (induction f "None :: string option" ns cs rule: bump_queue.induct) auto

text \<open>Slots taken at a dispatch and given back for the same job leave the host
  as it was, whether they are given back at once or as used slots first and the running
  job later, which is how the daemon does it.\<close>

theorem gw_host_slots_roundtrip:
  "fst (gw_host_dec_slots (fst (gw_host_inc_slots_nb h n q)) n q) = h
 \<and> fst (gw_host_dec_rjobs (fst (gw_host_dec_uslots (fst (gw_host_inc_slots_nb h n q)) n q)) q) = h
 \<and> gw_host_dec_ajobs_nb (gw_host_inc_ajobs_nb h q) q = h"
  by (simp add: gw_host_dec_slots_def gw_host_inc_slots_nb_def gw_host_dec_rjobs_def
      gw_host_dec_uslots_def gw_host_dec_ajobs_nb_def gw_host_inc_ajobs_nb_def Let_def)

end
