(* ===== verification/Gw_Host_Pool.thy ===== *)
theory Gw_Host_Pool
  imports Gw_Host
begin

text \<open>
  The host pool, \<open>src/host/gw_host_pool.c\<close>.  The priority of a new host comes from the
  scheduler's configuration (the parameter \<open>priority\<close>).  The round that asks for the
  hosts' information is in \<open>Im_Actions\<close>.
\<close>

definition gw_host_pool_init :: "gw_conf \<Rightarrow> gw_host gw_pool" where
  "gw_host_pool_init conf = pool_init (conf_number_of_hosts conf)"

text \<open>The scan goes round; with no host configured the remainder is a division by zero.\<close>

definition gw_host_pool_host_allocate ::
    "gw_conf \<Rightarrow> string \<Rightarrow> int \<Rightarrow> string \<Rightarrow> string \<Rightarrow> string \<Rightarrow> gw_host gw_pool
       \<Rightarrow> (int \<times> gw_host gw_pool) option" where
  "gw_host_pool_host_allocate conf hostname fixed_priority em_mad tm_mad im_mad p =
     (let n = conf_number_of_hosts conf in
      if n = 0 then None
      else do {
        found \<leftarrow> scan_free (\<lambda>i. (i + 1) mod n) (pool_slots p) ((pool_last_id p + 1) mod n) (nat n);
        (case found of
           None \<Rightarrow> Some (- 1, p)
         | Some host_id \<Rightarrow> do {
             hs \<leftarrow> wr (pool_slots p) host_id
               (Some (gw_host_init hostname host_id fixed_priority em_mad tm_mad im_mad));
             Some (host_id, p\<lparr>pool_slots := hs, pool_last_id := host_id,
                              pool_number := pool_number p + 1\<rparr>)
           })
      })"

definition gw_host_pool_host_free :: "gw_host gw_pool \<Rightarrow> int \<Rightarrow> gw_host gw_pool" where
  "gw_host_pool_host_free p host_id =
     (case pool_get p host_id of
        None \<Rightarrow> p
      | Some _ \<Rightarrow> (pool_store p host_id None)\<lparr>pool_number := pool_number p - 1\<rparr>)"

definition gw_host_pool_get_host :: "gw_host gw_pool \<Rightarrow> int \<Rightarrow> gw_host option" where
  "gw_host_pool_get_host p host_id = pool_get p host_id"

text \<open>The search loop, from entry \<open>i\<close>: the first host with the name.\<close>

fun host_search :: "gw_host option list \<Rightarrow> string \<Rightarrow> int \<Rightarrow> int option" where
  "host_search [] hostname i = None"
| "host_search (h # hs) hostname i =
     (if map_option host_hostname h = Some hostname then Some i
      else host_search hs hostname (i + 1))"

definition gw_host_pool_search :: "gw_host gw_pool \<Rightarrow> string \<Rightarrow> int option" where
  "gw_host_pool_search p hostname = host_search (pool_slots p) hostname 0"

text \<open>
  \<open>gw_host_pool_update\<close> on the list of names that \<open>strtok_r\<close> cuts out of its argument: an
  unknown host is allocated, a known one that was lost is discovered again.
\<close>

fun gw_host_pool_update ::
    "gw_conf \<Rightarrow> (string \<Rightarrow> string \<Rightarrow> int) \<Rightarrow> string list \<Rightarrow> string \<Rightarrow> string \<Rightarrow> string
       \<Rightarrow> gw_host gw_pool \<Rightarrow> gw_host gw_pool option" where
  "gw_host_pool_update conf priority [] em_mad tm_mad im_mad p = Some p"
| "gw_host_pool_update conf priority (hostname # hostnames) em_mad tm_mad im_mad p = do {
     p' \<leftarrow> (case gw_host_pool_search p hostname of
         None \<Rightarrow> do {
           (host_id, p') \<leftarrow> gw_host_pool_host_allocate conf hostname (priority hostname im_mad)
               em_mad tm_mad im_mad p;
           Some (case pool_get p' host_id of
               None \<Rightarrow> p'
             | Some h \<Rightarrow> pool_store p' host_id (Some (h\<lparr>host_last_monitoring_time := 0\<rparr>)))
         }
       | Some host_id \<Rightarrow> Some (case pool_get p host_id of
             None \<Rightarrow> p
           | Some h \<Rightarrow>
               if host_state h = GW_HOST_STATE_UNKNOWN
               then pool_store p host_id (Some (h\<lparr>host_state := GW_HOST_STATE_DISCOVERED\<rparr>))
               else p));
     gw_host_pool_update conf priority hostnames em_mad tm_mad im_mad p'
   }"

definition gw_host_pool_dm_recover :: "gw_host gw_pool \<Rightarrow> sch_msg list" where
  "gw_host_pool_dm_recover p =
     concat (map (\<lambda>s. case s of None \<Rightarrow> [] | Some h \<Rightarrow> [gw_dm_mad_host_monitor h]) (pool_slots p))"

section \<open>The cyclic scan\<close>

text \<open>From \<open>i\<close>, the scan visits \<open>i\<close>, \<open>i + 1\<close>, ... modulo the size of the array.\<close>

lemma scan_free_cyclic:
  assumes "n = int (length pool)" and "0 < n" and "0 \<le> i" and "i < n"
  shows "\<exists>r. scan_free (\<lambda>i. (i + 1) mod n) pool i k = Some r
    \<and> (r = None \<longleftrightarrow> (\<forall>m < k. pool ! nat ((i + int m) mod n) \<noteq> None))"
  using assms(3,4)
proof (induction k arbitrary: i)
  case (Suc k)
  have rd: "rd pool i = Some (pool ! nat i)" using Suc.prems assms(1) by (simp add: rd_def)
  show ?case
  proof (cases "pool ! nat i")
    case None
    with rd Suc.prems show ?thesis by (auto intro!: exI [of _ 0])
  next
    case (Some h)
    have "0 \<le> (i + 1) mod n" "(i + 1) mod n < n" using assms(2) by simp_all
    then obtain r where r: "scan_free (\<lambda>i. (i + 1) mod n) pool ((i + 1) mod n) k = Some r"
      and none: "r = None \<longleftrightarrow> (\<forall>m < k. pool ! nat (((i + 1) mod n + int m) mod n) \<noteq> None)"
      using Suc.IH by blast
    have shift: "((i + 1) mod n + int m) mod n = (i + int (Suc m)) mod n" for m
      using mod_add_left_eq [of "i + 1" n "int m"] by (simp add: algebra_simps)
    have "(\<forall>m < Suc k. pool ! nat ((i + int m) mod n) \<noteq> None) \<longleftrightarrow>
        (\<forall>m < k. pool ! nat ((i + int (Suc m)) mod n) \<noteq> None)"
      using Some Suc.prems by (auto simp: All_less_Suc2)
    with none r rd Some shift show ?thesis by simp
  qed
qed simp

lemma cyclic_covers:
  assumes "0 < (n :: int)" and "0 \<le> i" and "i < n" and "0 \<le> j" and "j < n"
  shows "\<exists>m < nat n. (i + int m) mod n = j"
proof -
  have "(i + int (nat ((j - i) mod n))) mod n = j"
    using assms by (simp add: mod_add_right_eq)
  moreover have "nat ((j - i) mod n) < nat n" using assms by simp
  ultimately show ?thesis by blast
qed

text \<open>The allocation of a host never leaves the array, and it fails exactly
  when the pool is full; when it succeeds the new host stands in a slot that was free,
  under its own identifier, and the other hosts are untouched.\<close>

theorem gw_host_pool_allocate_total:
  assumes "pool_size p = conf_number_of_hosts conf" and "0 < conf_number_of_hosts conf"
  shows "\<exists>hid p'. gw_host_pool_host_allocate conf hn fp em tm im p = Some (hid, p')
    \<and> (hid = - 1 \<longleftrightarrow> (\<forall>i. 0 \<le> i \<and> i < pool_size p \<longrightarrow> pool_get p i \<noteq> None))
    \<and> (hid = - 1 \<longrightarrow> p' = p)
    \<and> (hid \<noteq> - 1 \<longrightarrow> pool_get p hid = None
         \<and> pool_get p' hid = Some (gw_host_init hn hid fp em tm im)
         \<and> (\<forall>j. j \<noteq> hid \<longrightarrow> pool_get p' j = pool_get p j)
         \<and> pool_number p' = pool_number p + 1)"
proof -
  let ?n = "conf_number_of_hosts conf" and ?i = "(pool_last_id p + 1) mod conf_number_of_hosts conf"
  have n: "?n = int (length (pool_slots p))" using assms(1) by (simp add: pool_size_def)
  have i: "0 \<le> ?i" "?i < ?n" using assms(2) by simp_all
  obtain r where r: "scan_free (\<lambda>i. (i + 1) mod ?n) (pool_slots p) ?i (nat ?n) = Some r"
    and none: "r = None \<longleftrightarrow> (\<forall>m < nat ?n. pool_slots p ! nat ((?i + int m) mod ?n) \<noteq> None)"
    using scan_free_cyclic [OF n assms(2) i] by blast
  have full: "(\<forall>m < nat ?n. pool_slots p ! nat ((?i + int m) mod ?n) \<noteq> None) \<longleftrightarrow>
      (\<forall>j. 0 \<le> j \<and> j < pool_size p \<longrightarrow> pool_get p j \<noteq> None)" (is "?A \<longleftrightarrow> ?B")
  proof
    assume A: ?A
    show ?B
    proof (intro allI impI)
      fix j assume j: "0 \<le> j \<and> j < pool_size p"
      then obtain m where "m < nat ?n" "(?i + int m) mod ?n = j"
        using cyclic_covers [OF assms(2) i, of j] assms(1) by auto
      with A j show "pool_get p j \<noteq> None"
        by (auto simp: pool_get_def slot_def pool_size_def)
    qed
  next
    assume B: ?B
    show ?A
    proof (intro allI impI)
      fix m assume "m < nat ?n"
      have "0 \<le> (?i + int m) mod ?n" "(?i + int m) mod ?n < pool_size p"
        using assms by simp_all
      with B show "pool_slots p ! nat ((?i + int m) mod ?n) \<noteq> None"
        by (auto simp: pool_get_def slot_def pool_size_def)
    qed
  qed
  show ?thesis
  proof (cases r)
    case None
    with r none full assms(2) show ?thesis by (simp add: gw_host_pool_host_allocate_def Let_def)
  next
    case (Some hid)
    with r have hid: "0 \<le> hid" "hid < pool_size p" "pool_slots p ! nat hid = None"
      using scan_free_range [of _ "pool_slots p"] by (auto simp: pool_size_def)
    let ?h = "gw_host_init hn hid fp em tm im"
    let ?p = "(pool_store p hid (Some ?h))\<lparr>pool_last_id := hid, pool_number := pool_number p + 1\<rparr>"
    have "gw_host_pool_host_allocate conf hn fp em tm im p = Some (hid, ?p)"
      using r Some hid assms(2)
      by (simp add: gw_host_pool_host_allocate_def Let_def wr_def pool_size_def pool_store_def)
    moreover have "pool_get p hid = None" using hid by (simp add: pool_get_def slot_def)
    moreover from this hid have "\<not> (\<forall>i. 0 \<le> i \<and> i < pool_size p \<longrightarrow> pool_get p i \<noteq> None)"
      by blast
    moreover have "hid \<noteq> - 1" using hid(1) by simp
    moreover have "pool_get ?p j = (if j = hid then Some ?h else pool_get p j)" for j
      using hid by (simp add: pool_get_store_eq)
    ultimately show ?thesis by simp
  qed
qed

theorem gw_host_pool_allocate_total_witness:
  "\<exists>hid p'. gw_host_pool_host_allocate example_conf ''orca'' 0 ''gram'' ''ftp'' ''im''
       (gw_host_pool_init example_conf) = Some (hid, p') \<and> hid \<noteq> - 1"
proof -
  have "pool_size (gw_host_pool_init example_conf) = 3"
    by (simp add: gw_host_pool_init_def example_conf_def)
  moreover have "pool_get (gw_host_pool_init example_conf) 0 = None"
    by (simp add: gw_host_pool_init_def)
  ultimately show ?thesis
    using gw_host_pool_allocate_total [of "gw_host_pool_init example_conf" example_conf
        "''orca''" 0 "''gram''" "''ftp''" "''im''"]
    by (fastforce simp: example_conf_def)
qed

end
