(* ===== verification/Gw_Host_Var.thy ===== *)
theory Gw_Host_Var
  imports Gw_Host
begin

text \<open>
  The attributes of a host, \<open>src/host/gw_host_var.c\<close>: the fixed variables
  (\<open>gw_host_var_t\<close>), read and written by name and queue index, and the tables of
  generic variables.  The guards of the code bound the index from above only; an
  access with a negative index, or past a table, is \<open>None\<close>.
\<close>

definition GW_MSG_STRING_LONG :: nat where
  "GW_MSG_STRING_LONG = 1024"

datatype gw_host_var =
    HOSTNAME
  | ARCH
  | OS_NAME
  | OS_VERSION
  | CPU_MODEL
  | CPU_MHZ
  | CPU_FREE
  | CPU_SMP
  | NODECOUNT
  | SIZE_MEM_MB
  | FREE_MEM_MB
  | SIZE_DISK_MB
  | FREE_DISK_MB
  | FORK_NAME
  | LRMS_NAME
  | LRMS_TYPE
  | QUEUE_NAME
  | QUEUE_NODECOUNT
  | QUEUE_FREENODECOUNT
  | QUEUE_MAXTIME
  | QUEUE_MAXCPUTIME
  | QUEUE_MAXCOUNT
  | QUEUE_MAXRUNNINGJOBS
  | QUEUE_MAXJOBSINQUEUE
  | QUEUE_STATUS
  | QUEUE_DISPATCHTYPE
  | QUEUE_PRIORITY
  | GENERIC

fun gw_host_get_varname :: "gw_host_var \<Rightarrow> string" where
  "gw_host_get_varname HOSTNAME = ''HOSTNAME''"
| "gw_host_get_varname ARCH = ''ARCH''"
| "gw_host_get_varname OS_NAME = ''OS_NAME''"
| "gw_host_get_varname OS_VERSION = ''OS_VERSION''"
| "gw_host_get_varname CPU_MODEL = ''CPU_MODEL''"
| "gw_host_get_varname CPU_MHZ = ''CPU_MHZ''"
| "gw_host_get_varname CPU_FREE = ''CPU_FREE''"
| "gw_host_get_varname CPU_SMP = ''CPU_SMP''"
| "gw_host_get_varname NODECOUNT = ''NODECOUNT''"
| "gw_host_get_varname SIZE_MEM_MB = ''SIZE_MEM_MB''"
| "gw_host_get_varname FREE_MEM_MB = ''FREE_MEM_MB''"
| "gw_host_get_varname SIZE_DISK_MB = ''SIZE_DISK_MB''"
| "gw_host_get_varname FREE_DISK_MB = ''FREE_DISK_MB''"
| "gw_host_get_varname FORK_NAME = ''FORK_NAME''"
| "gw_host_get_varname LRMS_NAME = ''LRMS_NAME''"
| "gw_host_get_varname LRMS_TYPE = ''LRMS_TYPE''"
| "gw_host_get_varname QUEUE_NAME = ''QUEUE_NAME''"
| "gw_host_get_varname QUEUE_NODECOUNT = ''QUEUE_NODECOUNT''"
| "gw_host_get_varname QUEUE_FREENODECOUNT = ''QUEUE_FREENODECOUNT''"
| "gw_host_get_varname QUEUE_MAXTIME = ''QUEUE_MAXTIME''"
| "gw_host_get_varname QUEUE_MAXCPUTIME = ''QUEUE_MAXCPUTIME''"
| "gw_host_get_varname QUEUE_MAXCOUNT = ''QUEUE_MAXCOUNT''"
| "gw_host_get_varname QUEUE_MAXRUNNINGJOBS = ''QUEUE_MAXRUNNINGJOBS''"
| "gw_host_get_varname QUEUE_MAXJOBSINQUEUE = ''QUEUE_MAXJOBSINQUEUE''"
| "gw_host_get_varname QUEUE_STATUS = ''QUEUE_STATUS''"
| "gw_host_get_varname QUEUE_DISPATCHTYPE = ''QUEUE_DISPATCHTYPE''"
| "gw_host_get_varname QUEUE_PRIORITY = ''QUEUE_PRIORITY''"
| "gw_host_get_varname GENERIC = ''GENERIC''"

fun gw_host_is_var_int :: "gw_host_var \<Rightarrow> int" where
  "gw_host_is_var_int HOSTNAME = 0"
| "gw_host_is_var_int ARCH = 0"
| "gw_host_is_var_int OS_NAME = 0"
| "gw_host_is_var_int OS_VERSION = 0"
| "gw_host_is_var_int CPU_MODEL = 0"
| "gw_host_is_var_int CPU_MHZ = 1"
| "gw_host_is_var_int CPU_FREE = 1"
| "gw_host_is_var_int CPU_SMP = 1"
| "gw_host_is_var_int NODECOUNT = 1"
| "gw_host_is_var_int SIZE_MEM_MB = 1"
| "gw_host_is_var_int FREE_MEM_MB = 1"
| "gw_host_is_var_int SIZE_DISK_MB = 1"
| "gw_host_is_var_int FREE_DISK_MB = 1"
| "gw_host_is_var_int FORK_NAME = 0"
| "gw_host_is_var_int LRMS_NAME = 0"
| "gw_host_is_var_int LRMS_TYPE = 0"
| "gw_host_is_var_int QUEUE_NAME = 0"
| "gw_host_is_var_int QUEUE_NODECOUNT = 1"
| "gw_host_is_var_int QUEUE_FREENODECOUNT = 1"
| "gw_host_is_var_int QUEUE_MAXTIME = 1"
| "gw_host_is_var_int QUEUE_MAXCPUTIME = 1"
| "gw_host_is_var_int QUEUE_MAXCOUNT = 1"
| "gw_host_is_var_int QUEUE_MAXRUNNINGJOBS = 1"
| "gw_host_is_var_int QUEUE_MAXJOBSINQUEUE = 1"
| "gw_host_is_var_int QUEUE_STATUS = 0"
| "gw_host_is_var_int QUEUE_DISPATCHTYPE = 0"
| "gw_host_is_var_int QUEUE_PRIORITY = 0"
| "gw_host_is_var_int GENERIC = - 1"

section \<open>The fixed variables\<close>

text \<open>
  The switches of the four accessors.  A variable of the wrong kind is logged and
  left alone (\<open>0\<close> or NULL when it is read).
\<close>

fun host_put_int :: "gw_host_var \<Rightarrow> int \<Rightarrow> int \<Rightarrow> gw_host \<Rightarrow> gw_host option" where
  "host_put_int CPU_MHZ index v h = Some (h\<lparr>host_cpu_mhz := v\<rparr>)"
| "host_put_int CPU_FREE index v h = Some (h\<lparr>host_cpu_free := v\<rparr>)"
| "host_put_int CPU_SMP index v h = Some (h\<lparr>host_cpu_smp := v\<rparr>)"
| "host_put_int NODECOUNT index v h = Some (h\<lparr>host_nodecount := v\<rparr>)"
| "host_put_int SIZE_MEM_MB index v h = Some (h\<lparr>host_size_mem_mb := v\<rparr>)"
| "host_put_int FREE_MEM_MB index v h = Some (h\<lparr>host_free_mem_mb := v\<rparr>)"
| "host_put_int SIZE_DISK_MB index v h = Some (h\<lparr>host_size_disk_mb := v\<rparr>)"
| "host_put_int FREE_DISK_MB index v h = Some (h\<lparr>host_free_disk_mb := v\<rparr>)"
| "host_put_int QUEUE_NODECOUNT index v h =
     map_option (\<lambda>xs. h\<lparr>host_queue_nodecount := xs\<rparr>) (wr (host_queue_nodecount h) index v)"
| "host_put_int QUEUE_FREENODECOUNT index v h =
     map_option (\<lambda>xs. h\<lparr>host_queue_freenodecount := xs\<rparr>) (wr (host_queue_freenodecount h) index v)"
| "host_put_int QUEUE_MAXTIME index v h =
     map_option (\<lambda>xs. h\<lparr>host_queue_maxtime := xs\<rparr>) (wr (host_queue_maxtime h) index v)"
| "host_put_int QUEUE_MAXCPUTIME index v h =
     map_option (\<lambda>xs. h\<lparr>host_queue_maxcputime := xs\<rparr>) (wr (host_queue_maxcputime h) index v)"
| "host_put_int QUEUE_MAXCOUNT index v h =
     map_option (\<lambda>xs. h\<lparr>host_queue_maxcount := xs\<rparr>) (wr (host_queue_maxcount h) index v)"
| "host_put_int QUEUE_MAXRUNNINGJOBS index v h =
     map_option (\<lambda>xs. h\<lparr>host_queue_maxrunningjobs := xs\<rparr>) (wr (host_queue_maxrunningjobs h) index v)"
| "host_put_int QUEUE_MAXJOBSINQUEUE index v h =
     map_option (\<lambda>xs. h\<lparr>host_queue_maxjobsinqueue := xs\<rparr>) (wr (host_queue_maxjobsinqueue h) index v)"
| "host_put_int _ index v h = Some h"

fun host_put_str :: "gw_host_var \<Rightarrow> int \<Rightarrow> string option \<Rightarrow> gw_host \<Rightarrow> gw_host option" where
  "host_put_str ARCH index v h = Some (h\<lparr>host_arch := v\<rparr>)"
| "host_put_str OS_NAME index v h = Some (h\<lparr>host_os_name := v\<rparr>)"
| "host_put_str OS_VERSION index v h = Some (h\<lparr>host_os_version := v\<rparr>)"
| "host_put_str CPU_MODEL index v h = Some (h\<lparr>host_cpu_model := v\<rparr>)"
| "host_put_str FORK_NAME index v h = Some (h\<lparr>host_fork_name := v\<rparr>)"
| "host_put_str LRMS_NAME index v h = Some (h\<lparr>host_lrms_name := v\<rparr>)"
| "host_put_str LRMS_TYPE index v h = Some (h\<lparr>host_lrms_type := v\<rparr>)"
| "host_put_str QUEUE_NAME index v h =
     map_option (\<lambda>xs. h\<lparr>host_queue_name := xs\<rparr>) (wr (host_queue_name h) index v)"
| "host_put_str QUEUE_DISPATCHTYPE index v h =
     map_option (\<lambda>xs. h\<lparr>host_queue_dispatchtype := xs\<rparr>) (wr (host_queue_dispatchtype h) index v)"
| "host_put_str QUEUE_PRIORITY index v h =
     map_option (\<lambda>xs. h\<lparr>host_queue_priority := xs\<rparr>) (wr (host_queue_priority h) index v)"
| "host_put_str QUEUE_STATUS index v h =
     map_option (\<lambda>xs. h\<lparr>host_queue_status := xs\<rparr>) (wr (host_queue_status h) index v)"
| "host_put_str _ index v h = Some h"

fun host_fetch_int :: "gw_host_var \<Rightarrow> int \<Rightarrow> gw_host \<Rightarrow> int option" where
  "host_fetch_int CPU_MHZ index h = Some (host_cpu_mhz h)"
| "host_fetch_int CPU_FREE index h = Some (host_cpu_free h)"
| "host_fetch_int CPU_SMP index h = Some (host_cpu_smp h)"
| "host_fetch_int NODECOUNT index h = Some (host_nodecount h)"
| "host_fetch_int SIZE_MEM_MB index h = Some (host_size_mem_mb h)"
| "host_fetch_int FREE_MEM_MB index h = Some (host_free_mem_mb h)"
| "host_fetch_int SIZE_DISK_MB index h = Some (host_size_disk_mb h)"
| "host_fetch_int FREE_DISK_MB index h = Some (host_free_disk_mb h)"
| "host_fetch_int QUEUE_NODECOUNT index h = rd (host_queue_nodecount h) index"
| "host_fetch_int QUEUE_FREENODECOUNT index h = rd (host_queue_freenodecount h) index"
| "host_fetch_int QUEUE_MAXTIME index h = rd (host_queue_maxtime h) index"
| "host_fetch_int QUEUE_MAXCPUTIME index h = rd (host_queue_maxcputime h) index"
| "host_fetch_int QUEUE_MAXCOUNT index h = rd (host_queue_maxcount h) index"
| "host_fetch_int QUEUE_MAXRUNNINGJOBS index h = rd (host_queue_maxrunningjobs h) index"
| "host_fetch_int QUEUE_MAXJOBSINQUEUE index h = rd (host_queue_maxjobsinqueue h) index"
| "host_fetch_int _ index h = Some 0"

fun host_fetch_str :: "gw_host_var \<Rightarrow> int \<Rightarrow> gw_host \<Rightarrow> string option option" where
  "host_fetch_str HOSTNAME index h = Some (Some (host_hostname h))"
| "host_fetch_str ARCH index h = Some (host_arch h)"
| "host_fetch_str OS_NAME index h = Some (host_os_name h)"
| "host_fetch_str OS_VERSION index h = Some (host_os_version h)"
| "host_fetch_str CPU_MODEL index h = Some (host_cpu_model h)"
| "host_fetch_str FORK_NAME index h = Some (host_fork_name h)"
| "host_fetch_str LRMS_NAME index h = Some (host_lrms_name h)"
| "host_fetch_str LRMS_TYPE index h = Some (host_lrms_type h)"
| "host_fetch_str QUEUE_NAME index h = rd (host_queue_name h) index"
| "host_fetch_str QUEUE_DISPATCHTYPE index h = rd (host_queue_dispatchtype h) index"
| "host_fetch_str QUEUE_PRIORITY index h = rd (host_queue_priority h) index"
| "host_fetch_str QUEUE_STATUS index h = rd (host_queue_status h) index"
| "host_fetch_str _ index h = Some None"

definition gw_host_set_var_int :: "gw_host_var \<Rightarrow> int \<Rightarrow> int \<Rightarrow> gw_host \<Rightarrow> gw_host option" where
  "gw_host_set_var_int var index v h =
     (if index \<ge> int GW_HOST_MAX_QUEUES then Some h else host_put_int var index v h)"

definition gw_host_set_var_str ::
    "gw_host_var \<Rightarrow> int \<Rightarrow> string option \<Rightarrow> gw_host \<Rightarrow> gw_host option" where
  "gw_host_set_var_str var index v h =
     (if index \<ge> int GW_HOST_MAX_QUEUES then Some h else host_put_str var index v h)"

definition gw_host_set_var_null :: "gw_host_var \<Rightarrow> int \<Rightarrow> gw_host \<Rightarrow> gw_host option" where
  "gw_host_set_var_null var index h =
     (if gw_host_is_var_int var = 1 then gw_host_set_var_int var index 0 h
      else if gw_host_is_var_int var = 0 then gw_host_set_var_str var index None h
      else Some h)"

definition gw_host_get_var_int :: "gw_host_var \<Rightarrow> int \<Rightarrow> gw_host \<Rightarrow> int option" where
  "gw_host_get_var_int var index h =
     (if index \<ge> int GW_HOST_MAX_QUEUES then Some 0 else host_fetch_int var index h)"

definition gw_host_get_var_str :: "gw_host_var \<Rightarrow> int \<Rightarrow> gw_host \<Rightarrow> string option option" where
  "gw_host_get_var_str var index h =
     (if index \<ge> int GW_HOST_MAX_QUEUES then Some None else host_fetch_str var index h)"

section \<open>The generic variables\<close>

text \<open>The search loop: the first entry that is free or has the name, or the table's size.\<close>

fun search_genvar :: "string \<Rightarrow> (string option \<times> 'v) list \<Rightarrow> nat" where
  "search_genvar name [] = 0"
| "search_genvar name (e # es) =
     (if fst e = None \<or> fst e = Some name then 0 else Suc (search_genvar name es))"

definition gw_host_search_genvar_int :: "string \<Rightarrow> gw_host \<Rightarrow> nat" where
  "gw_host_search_genvar_int name h = search_genvar name (host_genvar_int h)"

definition gw_host_search_genvar_str :: "string \<Rightarrow> gw_host \<Rightarrow> nat" where
  "gw_host_search_genvar_str name h = search_genvar name (host_genvar_str h)"

text \<open>The buffers: \<open>strncpy\<close> of the name, \<open>snprintf\<close> of the name and its index.\<close>

definition scalar_name :: "string \<Rightarrow> string" where
  "scalar_name var = take (GW_MSG_STRING_LONG - 1) var"

definition array_name :: "string \<Rightarrow> int \<Rightarrow> string" where
  "array_name var index = take (GW_MSG_STRING_LONG - 2) (var @ ''['' @ show_int index @ '']'')"

definition genvar_name :: "string \<Rightarrow> int \<Rightarrow> string" where
  "genvar_name var index = (if index = - 1 then scalar_name var else array_name var index)"

text \<open>
  Both branches of the setters (found, not found) store the name and the value at the
  index of the search.
\<close>

definition genvar_store :: "string \<Rightarrow> 'v \<Rightarrow> (string option \<times> 'v) list \<Rightarrow> (string option \<times> 'v) list option" where
  "genvar_store name v table =
     (let p = search_genvar name table in
      if p < GW_HOST_MAX_GENVARS \<and> p < length table \<and> fst (table ! p) \<noteq> None
      then Some (table[p := (fst (table ! p), v)])
      else wr table (int p) (Some name, v))"

definition gw_host_set_genvar_int :: "string \<Rightarrow> int \<Rightarrow> int \<Rightarrow> gw_host \<Rightarrow> gw_host option" where
  "gw_host_set_genvar_int var index v h =
     (if index \<noteq> - 1 \<and> index \<ge> int GW_HOST_MAX_QUEUES then Some h
      else map_option (\<lambda>t. h\<lparr>host_genvar_int := t\<rparr>)
        (genvar_store (genvar_name var index) v (host_genvar_int h)))"

definition gw_host_set_genvar_str :: "string \<Rightarrow> int \<Rightarrow> string option \<Rightarrow> gw_host \<Rightarrow> gw_host option" where
  "gw_host_set_genvar_str var index v h =
     (if index \<noteq> - 1 \<and> index \<ge> int GW_HOST_MAX_QUEUES then Some h
      else map_option (\<lambda>t. h\<lparr>host_genvar_str := t\<rparr>)
        (genvar_store (genvar_name var index) v (host_genvar_str h)))"

text \<open>
  \<open>gw_host_set_genvar_null\<close> walks over both tables at once and clears the first entry
  with the name, the integer one when both have it at the same place.
\<close>

fun genvar_clear ::
    "string \<Rightarrow> (string option \<times> int) list \<Rightarrow> (string option \<times> string option) list
       \<Rightarrow> (string option \<times> int) list \<times> (string option \<times> string option) list" where
  "genvar_clear name (a # as) (b # bs) =
     (if fst a = Some name then ((fst a, 0) # as, b # bs)
      else if fst b = Some name then (a # as, (fst b, None) # bs)
      else (let (as', bs') = genvar_clear name as bs in (a # as', b # bs')))"
| "genvar_clear name as bs = (as, bs)"

definition gw_host_set_genvar_null :: "string \<Rightarrow> int \<Rightarrow> gw_host \<Rightarrow> gw_host" where
  "gw_host_set_genvar_null var index h =
     (if index \<noteq> - 1 \<and> index \<ge> int GW_HOST_MAX_QUEUES then h
      else (let (as, bs) = genvar_clear (genvar_name var index) (host_genvar_int h) (host_genvar_str h)
            in h\<lparr>host_genvar_int := as, host_genvar_str := bs\<rparr>))"

definition genvar_lookup :: "string \<Rightarrow> (string option \<times> 'v) list \<Rightarrow> 'v option" where
  "genvar_lookup name table =
     (let p = search_genvar name table in
      if p < GW_HOST_MAX_GENVARS \<and> p < length table \<and> fst (table ! p) \<noteq> None
      then Some (snd (table ! p)) else None)"

text \<open>The getters try the name as a scalar first, then as an array element.\<close>

definition genvar_get :: "string \<Rightarrow> int \<Rightarrow> 'v \<Rightarrow> (string option \<times> 'v) list \<Rightarrow> 'v" where
  "genvar_get var index dflt table =
     (if index \<ge> int GW_HOST_MAX_QUEUES then dflt
      else case genvar_lookup (scalar_name var) table of
        Some v \<Rightarrow> v
      | None \<Rightarrow> (case genvar_lookup (array_name var index) table of
          Some v \<Rightarrow> v | None \<Rightarrow> dflt))"

definition gw_host_get_genvar_int :: "string \<Rightarrow> int \<Rightarrow> gw_host \<Rightarrow> int" where
  "gw_host_get_genvar_int var index h = genvar_get var index 0 (host_genvar_int h)"

definition gw_host_get_genvar_str :: "string \<Rightarrow> int \<Rightarrow> gw_host \<Rightarrow> string option" where
  "gw_host_get_genvar_str var index h = genvar_get var index None (host_genvar_str h)"

section \<open>Reading what was written\<close>

lemma host_put_int_ok:
  "host_tables h \<Longrightarrow> n < GW_HOST_MAX_QUEUES \<Longrightarrow> gw_host_is_var_int var = 1 \<Longrightarrow>
     \<exists>h'. host_put_int var (int n) v h = Some h' \<and> host_tables h'
        \<and> host_fetch_int var (int n) h' = Some v"
  by (cases var) (simp_all add: host_tables_def)

lemma host_put_str_ok:
  "host_tables h \<Longrightarrow> n < GW_HOST_MAX_QUEUES \<Longrightarrow> gw_host_is_var_int var = 0 \<Longrightarrow>
     var \<noteq> HOSTNAME \<Longrightarrow>
     \<exists>h'. host_put_str var (int n) v h = Some h' \<and> host_tables h'
        \<and> host_fetch_str var (int n) h' = Some v"
  by (cases var) (simp_all add: host_tables_def)

text \<open>What no setter touches: who the host is, its state, its drivers and its counters.\<close>

definition same_host :: "gw_host \<Rightarrow> gw_host \<Rightarrow> bool" where
  "same_host h h' \<longleftrightarrow> host_host_id h' = host_host_id h \<and> host_hostname h' = host_hostname h
     \<and> host_state h' = host_state h \<and> host_used_slots h' = host_used_slots h
     \<and> host_running_jobs h' = host_running_jobs h
     \<and> host_queue_running_jobs h' = host_queue_running_jobs h
     \<and> host_queue_active_jobs h' = host_queue_active_jobs h
     \<and> host_fixed_priority h' = host_fixed_priority h
     \<and> host_em_mad h' = host_em_mad h \<and> host_tm_mad h' = host_tm_mad h \<and> host_im_mad h' = host_im_mad h
     \<and> host_last_monitoring_time h' = host_last_monitoring_time h
     \<and> (host_tables h \<longrightarrow> host_tables h')"

lemma same_host_trans: "same_host h h' \<Longrightarrow> same_host h' h'' \<Longrightarrow> same_host h h''"
  by (simp add: same_host_def)

lemma same_host_refl [simp]: "same_host h h"
  by (simp add: same_host_def)

lemma put_same:
  "host_put_int v index i h = Some h' \<Longrightarrow> same_host h h'"
  "host_put_str v index s h = Some h' \<Longrightarrow> same_host h h'"
  by (cases v; auto simp: same_host_def host_tables_def dest: wr_length)+

definition queue_vars :: "gw_host_var set" where
  "queue_vars = {QUEUE_NAME, QUEUE_NODECOUNT, QUEUE_FREENODECOUNT, QUEUE_MAXTIME, QUEUE_MAXCPUTIME,
     QUEUE_MAXCOUNT, QUEUE_MAXRUNNINGJOBS, QUEUE_MAXJOBSINQUEUE, QUEUE_STATUS, QUEUE_DISPATCHTYPE,
     QUEUE_PRIORITY}"

text \<open>The hosts differ in one variable only, in one entry of its table if it has one.\<close>

definition only_var :: "gw_host_var \<Rightarrow> int \<Rightarrow> gw_host \<Rightarrow> gw_host \<Rightarrow> bool" where
  "only_var var index h h' \<longleftrightarrow> same_host h h'
     \<and> host_genvar_int h' = host_genvar_int h \<and> host_genvar_str h' = host_genvar_str h
     \<and> (\<forall>w j. w \<noteq> var \<or> var \<in> queue_vars \<and> j \<noteq> index \<longrightarrow>
          gw_host_get_var_int w j h' = gw_host_get_var_int w j h
        \<and> gw_host_get_var_str w j h' = gw_host_get_var_str w j h)"

lemma rd_wr_other: "wr xs i x = Some ys \<Longrightarrow> j \<noteq> i \<Longrightarrow> rd ys j = rd xs j"
  by (auto simp: wr_Some rd_def)

lemma fetch_put_int_other:
  "w \<noteq> var \<Longrightarrow> case host_put_int var i v h of None \<Rightarrow> True
     | Some h' \<Rightarrow> host_fetch_int w j h' = host_fetch_int w j h \<and> host_fetch_str w j h' = host_fetch_str w j h"
  by (cases var; simp split: option.split; cases w; simp)

lemma fetch_put_int:
  assumes "host_put_int var i v h = Some h'" and "w \<noteq> var \<or> var \<in> queue_vars \<and> j \<noteq> i"
  shows "host_fetch_int w j h' = host_fetch_int w j h \<and> host_fetch_str w j h' = host_fetch_str w j h"
proof (cases "w = var")
  case True
  with assms show ?thesis by (cases var) (auto simp: queue_vars_def dest: rd_wr_other)
next
  case False
  with assms(1) fetch_put_int_other [of w var j h i v] show ?thesis by simp
qed

lemma fetch_put_str_other:
  "w \<noteq> var \<Longrightarrow> case host_put_str var i v h of None \<Rightarrow> True
     | Some h' \<Rightarrow> host_fetch_int w j h' = host_fetch_int w j h \<and> host_fetch_str w j h' = host_fetch_str w j h"
  by (cases var; simp split: option.split; cases w; simp)

lemma fetch_put_str:
  assumes "host_put_str var i v h = Some h'" and "w \<noteq> var \<or> var \<in> queue_vars \<and> j \<noteq> i"
  shows "host_fetch_int w j h' = host_fetch_int w j h \<and> host_fetch_str w j h' = host_fetch_str w j h"
proof (cases "w = var")
  case True
  with assms show ?thesis by (cases var) (auto simp: queue_vars_def dest: rd_wr_other)
next
  case False
  with assms(1) fetch_put_str_other [of w var j h i v] show ?thesis by simp
qed

lemma put_genvars:
  "host_put_int var i v h = Some h' \<Longrightarrow> host_genvar_int h' = host_genvar_int h \<and> host_genvar_str h' = host_genvar_str h"
  "host_put_str var i s h = Some h' \<Longrightarrow> host_genvar_int h' = host_genvar_int h \<and> host_genvar_str h' = host_genvar_str h"
  by (cases var; auto)+

lemma put_int_only_var: "host_put_int var i v h = Some h' \<Longrightarrow> only_var var i h h'"
  using fetch_put_int [of var i v h h']
  by (auto simp: only_var_def gw_host_get_var_int_def gw_host_get_var_str_def put_same put_genvars)

lemma put_str_only_var: "host_put_str var i s h = Some h' \<Longrightarrow> only_var var i h h'"
  using fetch_put_str [of var i s h h']
  by (auto simp: only_var_def gw_host_get_var_int_def gw_host_get_var_str_def put_same put_genvars)

text \<open>C39 (roundtrip).  For every variable, with a queue index inside the tables: the setter of
  its kind succeeds and the getter of that kind then returns what was set (the host
  name alone cannot be changed), and resetting it makes it read zero or NULL; every other
  variable, every other entry of its table and everything else of the host is as it was.\<close>

theorem gw_host_var_roundtrip:
  assumes "host_tables h" and "0 \<le> index" and "index < int GW_HOST_MAX_QUEUES"
  shows "(gw_host_is_var_int var = 1 \<longrightarrow>
       (\<exists>h'. gw_host_set_var_int var index v h = Some h' \<and> host_tables h'
           \<and> gw_host_get_var_int var index h' = Some v \<and> only_var var index h h')
     \<and> (\<exists>h'. gw_host_set_var_null var index h = Some h' \<and> gw_host_get_var_int var index h' = Some 0
           \<and> only_var var index h h'))
    \<and> (gw_host_is_var_int var = 0 \<longrightarrow> var \<noteq> HOSTNAME \<longrightarrow>
       (\<exists>h'. gw_host_set_var_str var index s h = Some h' \<and> host_tables h'
           \<and> gw_host_get_var_str var index h' = Some s \<and> only_var var index h h')
     \<and> (\<exists>h'. gw_host_set_var_null var index h = Some h' \<and> gw_host_get_var_str var index h' = Some None
           \<and> only_var var index h h'))"
proof -
  obtain n where n: "index = int n" "n < GW_HOST_MAX_QUEUES"
    using assms(2,3) by (metis nonneg_int_cases of_nat_less_iff)
  then show ?thesis
    using host_put_int_ok [OF assms(1) n(2), of var v] host_put_int_ok [OF assms(1) n(2), of var 0]
      host_put_str_ok [OF assms(1) n(2), of var s] host_put_str_ok [OF assms(1) n(2), of var None]
    by (auto simp: gw_host_set_var_null_def gw_host_set_var_int_def gw_host_set_var_str_def
        gw_host_get_var_int_def gw_host_get_var_str_def put_int_only_var put_str_only_var)
qed

theorem gw_host_var_roundtrip_witness:
  "\<exists>h'. gw_host_set_var_int QUEUE_MAXTIME 66 480 (gw_host_init ''orca'' 0 0 ''gram'' ''ftp'' ''im'')
       = Some h' \<and> gw_host_get_var_int QUEUE_MAXTIME 66 h' = Some 480
       \<and> gw_host_get_var_int QUEUE_MAXTIME 65 h' = Some 0"
proof -
  obtain h' where h': "gw_host_set_var_int QUEUE_MAXTIME 66 480 (gw_host_init ''orca'' 0 0 ''gram'' ''ftp'' ''im'') = Some h'"
    "gw_host_get_var_int QUEUE_MAXTIME 66 h' = Some 480"
    "only_var QUEUE_MAXTIME 66 (gw_host_init ''orca'' 0 0 ''gram'' ''ftp'' ''im'') h'"
    using gw_host_var_roundtrip [of "gw_host_init ''orca'' 0 0 ''gram'' ''ftp'' ''im''" 66 QUEUE_MAXTIME 480 None]
    by (auto simp: GW_HOST_MAX_QUEUES_def)
  then have "gw_host_get_var_int QUEUE_MAXTIME 65 h' =
      gw_host_get_var_int QUEUE_MAXTIME 65 (gw_host_init ''orca'' 0 0 ''gram'' ''ftp'' ''im'')"
    by (simp add: only_var_def queue_vars_def)
  also have "\<dots> = Some 0"
    by (simp add: gw_host_get_var_int_def gw_host_init_def Let_def GW_HOST_MAX_QUEUES_def rd_def)
  finally show ?thesis using h'(1,2) by blast
qed

text \<open>The index of a queue variable is bounded from above only: the setter
  leaves its table exactly for a negative index, such as the -1 the parser passes for a
  variable without one.\<close>

theorem gw_host_var_negative_index:
  assumes "var \<in> {QUEUE_NODECOUNT, QUEUE_FREENODECOUNT, QUEUE_MAXTIME, QUEUE_MAXCPUTIME,
      QUEUE_MAXCOUNT, QUEUE_MAXRUNNINGJOBS, QUEUE_MAXJOBSINQUEUE}" and "host_tables h"
  shows "gw_host_set_var_int var i v h = None \<longleftrightarrow> i < 0"
  using assms
  by (auto simp: gw_host_set_var_int_def host_tables_def wr_def GW_HOST_MAX_QUEUES_def
      split: if_splits)

theorem gw_host_var_negative_index_witness:
  "gw_host_set_var_int QUEUE_MAXTIME (- 1) 60 (gw_host_init ''orca'' 0 0 ''gram'' ''ftp'' ''im'') = None"
  by (simp add: gw_host_var_negative_index)

section \<open>Generic variables: set, then get\<close>

lemma search_genvar_le: "search_genvar name t \<le> length t"
  by (induction t) auto

lemma search_genvar_stop:
  "search_genvar name t < length t \<Longrightarrow>
     fst (t ! search_genvar name t) = None \<or> fst (t ! search_genvar name t) = Some name"
  by (induction t) auto

lemma search_genvar_update:
  "p = search_genvar name t \<Longrightarrow> p < length t \<Longrightarrow> search_genvar name (t[p := (Some name, v)]) = p"
  by (induction t arbitrary: p) auto

text \<open>The tables are filled from the front: the free entries are at the end.\<close>

definition compact :: "(string option \<times> 'v) list \<Rightarrow> bool" where
  "compact t \<longleftrightarrow> (\<forall>i j. i < j \<longrightarrow> j < length t \<longrightarrow> fst (t ! j) \<noteq> None \<longrightarrow> fst (t ! i) \<noteq> None)"

lemma compact_Cons: "compact (e # es) \<longleftrightarrow> compact es \<and> (fst e = None \<longrightarrow> (\<forall>x \<in> set es. fst x = None))"
  (is "?L \<longleftrightarrow> ?R")
proof
  assume L: ?L
  have "compact es"
    unfolding compact_def
  proof (intro allI impI)
    fix i j assume "i < j" "j < length es" "fst (es ! j) \<noteq> None"
    with L [unfolded compact_def, rule_format, of "Suc i" "Suc j"] show "fst (es ! i) \<noteq> None"
      by simp
  qed
  moreover have "fst x = None" if "fst e = None" "x \<in> set es" for x
  proof -
    from that(2) obtain j where "j < length es" "es ! j = x" by (auto simp: in_set_conv_nth)
    with L [unfolded compact_def, rule_format, of 0 "Suc j"] that(1) show ?thesis
      by (cases "fst (es ! j)") auto
  qed
  ultimately show ?R by blast
next
  assume R: ?R
  show ?L
    unfolding compact_def
  proof (intro allI impI)
    fix i j assume ij: "i < j" "j < length (e # es)" "fst ((e # es) ! j) \<noteq> None"
    then obtain j' where j: "j = Suc j'" by (cases j) auto
    show "fst ((e # es) ! i) \<noteq> None"
    proof (cases i)
      case 0
      with R ij j show ?thesis by (auto dest: nth_mem)
    next
      case (Suc i')
      with R ij j show ?thesis by (auto simp: compact_def)
    qed
  qed
qed

lemma genvar_store_Some:
  assumes "genvar_store name v t = Some t'"
  shows "search_genvar name t < length t \<and> t' = t[search_genvar name t := (Some name, v)]"
proof -
  have "search_genvar name t < length t"
    using assms by (auto simp: genvar_store_def Let_def wr_Some split: if_splits)
  with assms search_genvar_stop [of name t] show ?thesis
    by (auto simp: genvar_store_def Let_def split: if_splits)
qed

lemma genvar_lookup_store:
  assumes "genvar_store name v t = Some t'" and "length t = GW_HOST_MAX_GENVARS"
  shows "genvar_lookup name t' = Some v"
  using genvar_store_Some [OF assms(1)] search_genvar_update [OF refl, of name t v] assms(2)
  by (simp add: genvar_lookup_def Let_def)

text \<open>The lookup of another name does not see the store, in a compact table.\<close>

fun lookup_from :: "string \<Rightarrow> (string option \<times> 'v) list \<Rightarrow> 'v option" where
  "lookup_from n [] = None"
| "lookup_from n (e # es) =
     (if fst e = None then None else if fst e = Some n then Some (snd e) else lookup_from n es)"

lemma genvar_lookup_from:
  "length t \<le> GW_HOST_MAX_GENVARS \<Longrightarrow> genvar_lookup n t = lookup_from n t"
proof -
  have "(if search_genvar n t < length t \<and> fst (t ! search_genvar n t) \<noteq> None
      then Some (snd (t ! search_genvar n t)) else None) = lookup_from n t"
    by (induction t) auto
  moreover assume "length t \<le> GW_HOST_MAX_GENVARS"
  moreover from calculation(2) have
    "search_genvar n t < length t \<Longrightarrow> search_genvar n t < GW_HOST_MAX_GENVARS" by simp
  ultimately show ?thesis by (auto simp: genvar_lookup_def Let_def split: if_splits)
qed

lemma lookup_from_free: "\<forall>x \<in> set es. fst x = None \<Longrightarrow> lookup_from n es = None"
  by (induction es) auto

lemma compact_store:
  "compact t \<Longrightarrow> search_genvar name t < length t \<Longrightarrow>
     compact (t[search_genvar name t := (Some name, v)])
   \<and> (n \<noteq> name \<longrightarrow>
       lookup_from n (t[search_genvar name t := (Some name, v)]) = lookup_from n t)"
proof (induction t)
  case (Cons e es)
  show ?case
  proof (cases "fst e = None \<or> fst e = Some name")
    case True
    with Cons.prems show ?thesis by (auto simp: compact_Cons lookup_from_free)
  next
    case False
    with Cons show ?thesis by (auto simp: compact_Cons)
  qed
qed simp

text \<open>A generic integer variable that could be set as a scalar reads back with
  its value whatever the queue index asked for, the table keeps its form, and every
  other name keeps its value.\<close>

theorem gw_host_genvar_roundtrip:
  assumes "gw_host_set_genvar_int var (- 1) v h = Some h'" and "host_tables h"
    and "compact (host_genvar_int h)" and "index < int GW_HOST_MAX_QUEUES"
  shows "gw_host_get_genvar_int var index h' = v \<and> compact (host_genvar_int h')
    \<and> (\<forall>n. n \<noteq> scalar_name var \<longrightarrow>
         genvar_lookup n (host_genvar_int h') = genvar_lookup n (host_genvar_int h))"
proof -
  from assms(1) obtain t where t: "genvar_store (scalar_name var) v (host_genvar_int h) = Some t"
      "h' = h\<lparr>host_genvar_int := t\<rparr>"
    by (auto simp: gw_host_set_genvar_int_def genvar_name_def)
  have len: "length (host_genvar_int h) = GW_HOST_MAX_GENVARS"
    using assms(2) by (simp add: host_tables_def)
  note st = genvar_store_Some [OF t(1)]
  note c = compact_store [OF assms(3) conjunct1 [OF st], of v, folded conjunct2 [OF st]]
  have "length t = GW_HOST_MAX_GENVARS" using st len by simp
  with c len have "\<forall>n. n \<noteq> scalar_name var \<longrightarrow>
      genvar_lookup n t = genvar_lookup n (host_genvar_int h)"
    by (simp add: genvar_lookup_from)
  moreover have "genvar_get var index 0 t = v"
    using genvar_lookup_store [OF t(1) len] assms(4) by (simp add: genvar_get_def)
  ultimately show ?thesis using t(2) c by (simp add: gw_host_get_genvar_int_def)
qed

definition example_host :: gw_host where
  "example_host = gw_host_init ''orca'' 0 0 ''gram'' ''ftp'' ''im''"

theorem gw_host_genvar_roundtrip_witness:
  "\<exists>h'. gw_host_set_genvar_int ''GLUE'' (- 1) 7 example_host = Some h'
     \<and> gw_host_get_genvar_int ''GLUE'' 3 h' = 7"
proof -
  have "search_genvar n (replicate (Suc k) (None, 0)) = 0" for n k by simp
  then have free: "search_genvar n (host_genvar_int example_host) = 0" for n
    by (simp add: example_host_def gw_host_init_def Let_def GW_HOST_MAX_GENVARS_def
        numeral_eq_Suc del: replicate_Suc)
  obtain h' where h': "gw_host_set_genvar_int ''GLUE'' (- 1) 7 example_host = Some h'"
    using free by (simp add: gw_host_set_genvar_int_def genvar_store_def example_host_def
        gw_host_init_def Let_def wr_def GW_HOST_MAX_GENVARS_def)
  have "compact (host_genvar_int example_host)"
    by (simp add: compact_def example_host_def gw_host_init_def Let_def)
  moreover have "host_tables example_host" by (simp add: example_host_def)
  ultimately show ?thesis
    using gw_host_genvar_roundtrip [OF h', of 3] h' by (simp add: GW_HOST_MAX_QUEUES_def)
qed

text \<open>A new generic variable that finds its table full is stored one entry past
  the end of the table: the setters test the index of the search only to tell found from
  not found.\<close>

theorem gw_host_genvar_overflow:
  assumes "host_tables h" and "index < int GW_HOST_MAX_QUEUES"
    and "\<forall>e \<in> set (host_genvar_int h). fst e \<noteq> None \<and> fst e \<noteq> Some (genvar_name var index)"
  shows "gw_host_set_genvar_int var index v h = None"
proof -
  have "search_genvar n t = length t" if "\<forall>e \<in> set t. fst e \<noteq> None \<and> fst e \<noteq> Some n"
    for n and t :: "(string option \<times> int) list"
    using that by (induction t) auto
  from this [OF assms(3)] assms(1,2) show ?thesis
    by (simp add: gw_host_set_genvar_int_def genvar_store_def Let_def host_tables_def)
qed

theorem gw_host_genvar_overflow_witness:
  "gw_host_set_genvar_int ''NEW'' (- 1) 1
     (example_host\<lparr>host_genvar_int := replicate GW_HOST_MAX_GENVARS (Some ''OLD'', 0)\<rparr>) = None"
  by (rule gw_host_genvar_overflow)
    (auto simp: host_tables_def example_host_def gw_host_init_def Let_def GW_HOST_MAX_QUEUES_def
      genvar_name_def scalar_name_def GW_MSG_STRING_LONG_def)

end
