(* ===== verification/Gw_History.thy ===== *)
theory Gw_History
  imports Gw_User_Pool Gw_Host_Pool Gw_Host_Var
begin

text \<open>
  The history of a job, \<open>src/job/gw_history.c\<close>.  The chain of records is a list, the
  newest first; \<open>*job_history = NULL\<close> is the empty list.  A record keeps the host's
  identifier for the pointer to it, and the names of the two drivers for the pointers
  to them.  \<open>malloc\<close> succeeds; its garbage is the parameter \<open>fresh\<close>, of which the
  field \<open>cancel_tries\<close>, that no code initialises, survives.
\<close>

text \<open>\<open>%s\<close> of a NULL pointer, as the C library prints it.\<close>

definition cstr :: "string option \<Rightarrow> string" where
  "cstr s = (case s of None \<Rightarrow> ''(null)'' | Some t \<Rightarrow> t)"

definition gw_job_history_init :: "gw_history list" where
  "gw_job_history_init = []"

text \<open>\<open>sprintf\<close> into the buffer \<open>tmp\<close> of 256 bytes.\<close>

definition sprintf_256 :: "string \<Rightarrow> string option" where
  "sprintf_256 s = (if length s < 256 then Some s else None)"

definition remote_dir :: "string \<Rightarrow> string option \<Rightarrow> int \<Rightarrow> string" where
  "remote_dir server owner jid =
     ''remote://'' @ server @ ''/~/.gw_'' @ cstr owner @ ''_'' @ show_int jid @ ''/''"

definition resource_contact :: "gw_host \<Rightarrow> string option \<Rightarrow> string option" where
  "resource_contact host manager =
     (case manager of None \<Rightarrow> Some (host_hostname host)
      | Some m \<Rightarrow> sprintf_256 (host_hostname host @ ''/'' @ m))"

text \<open>The fields of the line appended to the job's history file.\<close>

definition history_line ::
    "gw_host \<Rightarrow> int \<Rightarrow> string option \<Rightarrow> string option \<Rightarrow> string option \<Rightarrow> string option \<Rightarrow> string list" where
  "history_line host rank queue fork lrms lrms_type =
     [host_hostname host, show_int rank, cstr queue, cstr fork, cstr lrms, cstr lrms_type,
      host_em_mad host, host_tm_mad host, host_im_mad host]"

text \<open>
  \<open>gw_job_history_add\<close>: the result code, the chain and the line written, if any.
  \<open>hid\<close> identifies \<open>host\<close>, \<open>opens\<close> says whether the history file can be opened.
  When it cannot the code is -1 although the record has been added.
\<close>

definition gw_job_history_add ::
    "gw_history list \<Rightarrow> int \<Rightarrow> gw_host \<Rightarrow> int \<Rightarrow> string option \<Rightarrow> string option \<Rightarrow> string option
       \<Rightarrow> string option \<Rightarrow> string option \<Rightarrow> int \<Rightarrow> int \<Rightarrow> bool \<Rightarrow> gw_user gw_pool \<Rightarrow> gw_history \<Rightarrow> bool
       \<Rightarrow> (int \<times> gw_history list \<times> string list option) option" where
  "gw_job_history_add history hid host rank queue fork lrms lrms_type owner jid uid recover
       users fresh opens =
     (case gw_user_pool_get_tm_mad users uid (host_tm_mad host) of
        None \<Rightarrow> Some (- 1, history, None)
      | Some tm_mad \<Rightarrow>
     (case gw_user_pool_get_em_mad users uid (host_em_mad host) of
        None \<Rightarrow> Some (- 1, history, None)
      | Some em_mad \<Rightarrow> do {
          let se = gw_host_get_genvar_str ''SE_HOSTNAME'' 0 host;
          rdir \<leftarrow> sprintf_256 (remote_dir
            (case se of None \<Rightarrow> host_hostname host
             | Some s \<Rightarrow> if s = [] then host_hostname host else s) owner jid);
          em_rc \<leftarrow> resource_contact host lrms;
          em_fork_rc \<leftarrow> resource_contact host fork;
          let record = \<lparr> hist_host = hid, hist_rank = rank, hist_stats = (\<lambda>s. 0),
                hist_tm_mad = tm_mad, hist_rdir = rdir, hist_em_mad = em_mad,
                hist_em_rc = em_rc, hist_em_fork_rc = em_fork_rc, hist_queue = queue,
                hist_tries = 0, hist_failed_polls = 0,
                hist_cancel_tries = hist_cancel_tries fresh,
                hist_counter = - 1, hist_reason = GW_REASON_NONE \<rparr>;
          if recover then Some (0, record # history, None)
          else if \<not> opens then Some (- 1, record # history, None)
          else Some (0, record # history,
                 Some (history_line host rank queue fork lrms lrms_type))
        }))"

fun gw_job_history_number_of_records :: "gw_history list \<Rightarrow> int" where
  "gw_job_history_number_of_records [] = 0"
| "gw_job_history_number_of_records (r # rs) = 1 + gw_job_history_number_of_records rs"

text \<open>A record whose host has been freed holds a dangling pointer.\<close>

fun gw_job_history_is_in_records ::
    "gw_host gw_pool \<Rightarrow> gw_history list \<Rightarrow> string \<Rightarrow> bool option" where
  "gw_job_history_is_in_records hosts [] hostname = Some False"
| "gw_job_history_is_in_records hosts (r # rs) hostname =
     (case pool_get hosts (hist_host r) of
        None \<Rightarrow> None
      | Some h \<Rightarrow> if hostname = host_hostname h then Some True
          else gw_job_history_is_in_records hosts rs hostname)"

section \<open>Times\<close>

text \<open>The shape the five time functions share: -1 without a record, else start to exit.\<close>

definition stat_time :: "gw_stat \<Rightarrow> gw_stat \<Rightarrow> int \<Rightarrow> gw_history option \<Rightarrow> int" where
  "stat_time start exit now history =
     (case history of
        None \<Rightarrow> - 1
      | Some r \<Rightarrow>
          if hist_stats r start \<noteq> 0 \<and> hist_stats r exit = 0 then now - hist_stats r start
          else hist_stats r exit - hist_stats r start)"

definition gw_job_history_get_prolog_time :: "int \<Rightarrow> gw_history option \<Rightarrow> int" where
  "gw_job_history_get_prolog_time = stat_time PROLOG_START_TIME PROLOG_EXIT_TIME"

definition gw_job_history_get_wrapper_time :: "int \<Rightarrow> gw_history option \<Rightarrow> int" where
  "gw_job_history_get_wrapper_time = stat_time WRAPPER_START_TIME WRAPPER_EXIT_TIME"

definition gw_job_history_get_pre_wrapper_time :: "int \<Rightarrow> gw_history option \<Rightarrow> int" where
  "gw_job_history_get_pre_wrapper_time = stat_time PRE_WRAPPER_START_TIME PRE_WRAPPER_EXIT_TIME"

definition gw_job_history_get_epilog_time :: "int \<Rightarrow> gw_history option \<Rightarrow> int" where
  "gw_job_history_get_epilog_time = stat_time EPILOG_START_TIME EPILOG_EXIT_TIME"

definition gw_job_history_get_migration_time :: "int \<Rightarrow> gw_history option \<Rightarrow> int" where
  "gw_job_history_get_migration_time = stat_time MIGRATION_START_TIME MIGRATION_EXIT_TIME"

section \<open>Adding a record\<close>

lemma number_of_records_length [simp]: "gw_job_history_number_of_records rs = int (length rs)"
  by (induction rs) auto

lemma get_mad_name:
  "gw_em_get_mad u name = Some m \<Longrightarrow> m = name" "gw_tm_get_mad u name = Some m \<Longrightarrow> m = name"
  by (cases u; auto simp: find_Some_iff)+

lemma pool_get_mad_name:
  "gw_user_pool_get_em_mad p uid name = Some m \<Longrightarrow> m = name"
  "gw_user_pool_get_tm_mad p uid name = Some m \<Longrightarrow> m = name"
  by (auto simp: gw_user_pool_get_em_mad_def gw_user_pool_get_tm_mad_def get_mad_name
      split: if_splits)

text \<open>Adding a record is decided by the user's drivers alone: the chain gets
  exactly one new record at its head, for this host with its drivers, its contacts and
  cleared counters, precisely when the user has both drivers of the host loaded;
  otherwise the code is -1 and the chain is unchanged.\<close>

theorem gw_job_history_add_record:
  assumes "gw_job_history_add hs hid host rank queue fork lrms lrms_type owner jid uid recover
       users fresh opens = Some (rc, hs', line)"
  shows "(hs' = hs \<and> rc = - 1 \<and>
            (gw_user_pool_get_tm_mad users uid (host_tm_mad host) = None
             \<or> gw_user_pool_get_em_mad users uid (host_em_mad host) = None))
    \<or> (\<exists>r. hs' = r # hs \<and> hist_host r = hid \<and> hist_rank r = rank \<and> hist_queue r = queue
         \<and> hist_tm_mad r = host_tm_mad host \<and> hist_em_mad r = host_em_mad host
         \<and> hist_tries r = 0 \<and> hist_reason r = GW_REASON_NONE \<and> hist_stats r = (\<lambda>s. 0)
         \<and> (rc = 0 \<longleftrightarrow> recover \<or> opens)
         \<and> gw_job_history_number_of_records hs' = gw_job_history_number_of_records hs + 1)"
proof (cases "gw_user_pool_get_tm_mad users uid (host_tm_mad host)")
  case None
  with assms show ?thesis by (simp add: gw_job_history_add_def)
next
  case tm: (Some tm)
  show ?thesis
  proof (cases "gw_user_pool_get_em_mad users uid (host_em_mad host)")
    case None
    with assms tm show ?thesis by (simp add: gw_job_history_add_def)
  next
    case (Some em)
    with tm pool_get_mad_name have "tm = host_tm_mad host" "em = host_em_mad host" by blast+
    with assms tm Some show ?thesis
      by (auto simp: gw_job_history_add_def bind_Some_iff Let_def split: if_splits)
  qed
qed

definition example_user :: gw_user where
  "example_user = \<lparr> user_name = ''tigre'', user_proxy_path = [], user_active_jobs = 1,
     user_running_jobs = 0, user_idle = 0, user_em_mad = [''gram''], user_tm_mad = [''ftp''] \<rparr>"

definition example_user_pool :: "gw_user gw_pool" where
  "example_user_pool = \<lparr> pool_number = 0, pool_last_id = - 1, pool_slots = [Some example_user, None] \<rparr>"

definition example_record :: gw_history where
  "example_record =
    \<lparr> hist_host = 0, hist_rank = 5, hist_stats = (\<lambda>s. 0), hist_tm_mad = ''ftp'',
      hist_rdir = ''remote://orca/~/.gw_tigre_0/'', hist_em_mad = ''gram'',
      hist_em_rc = ''orca/jobmanager-pbs'', hist_em_fork_rc = ''orca/jobmanager-fork'',
      hist_queue = None, hist_tries = 0, hist_failed_polls = 0, hist_cancel_tries = 77,
      hist_counter = - 1, hist_reason = GW_REASON_NONE \<rparr>"

lemma example_host_fields [simp]:
  "host_em_mad example_host = ''gram''" "host_tm_mad example_host = ''ftp''"
  "host_hostname example_host = ''orca''" "host_host_id example_host = 0"
  by (simp_all add: example_host_def gw_host_init_def Let_def)

lemma example_host_genvar [simp]: "gw_host_get_genvar_str var i example_host = None"
proof -
  have "fst (replicate k (None, None) ! p) = None" if "p < k" for k p
    using that by simp
  then show ?thesis
    by (auto simp: gw_host_get_genvar_str_def genvar_get_def genvar_lookup_def example_host_def
        gw_host_init_def Let_def)
qed

lemma example_history_add:
  "gw_job_history_add [] 0 example_host 5 None (Some ''jobmanager-fork'') (Some ''jobmanager-pbs'')
     (Some ''pbs'') (Some ''tigre'') 0 0 False example_user_pool example_record True
   = Some (0, [example_record], Some (history_line example_host 5 None (Some ''jobmanager-fork'')
       (Some ''jobmanager-pbs'') (Some ''pbs'')))"
  by (simp add: gw_job_history_add_def gw_user_pool_get_tm_mad_def gw_user_pool_get_em_mad_def
      example_user_pool_def example_user_def pool_size_def pool_get_def slot_def sprintf_256_def
      remote_dir_def cstr_def resource_contact_def show_int_def show_nat.simps digit_char_def char_of_def bit_Suc_0_iff
      example_record_def)

theorem gw_job_history_add_record_witness:
  "\<exists>hs' line. gw_job_history_add [] 0 example_host 5 None (Some ''jobmanager-fork'')
     (Some ''jobmanager-pbs'') (Some ''pbs'') (Some ''tigre'') 0 0 False example_user_pool
     example_record True = Some (0, hs', line) \<and> gw_job_history_number_of_records hs' = 1"
  using gw_job_history_add_record [OF example_history_add] example_history_add by auto

end
