(* ===== verification/Gw_Job.thy ===== *)
theory Gw_Job
  imports Gw_History
begin

text \<open>
  A job: \<open>gw_job_init\<close>, \<open>gw_job_fill\<close> and \<open>gw_job_is_wrapper_based\<close> of
  \<open>src/job/gw_job.c\<close>, and the copy of a client's template into the job,
  \<open>gw_job_template_init\<close> of \<open>src/job/gw_job_template.c\<close>.  The fields of a template that
  no modelled code reads (name, arguments, environment, load threshold) are left out.
  State names and \<open>gw_job_set_state\<close> are in \<open>Gw_Types\<close> and \<open>Gw_World\<close>.
\<close>

section \<open>Templates\<close>

text \<open>The client's template (gw_template.h): fixed size strings, empty for absent.\<close>

record gw_template =
  ct_job_home :: string
  ct_user_home :: string
  ct_executable :: string
  ct_pre_wrapper :: string
  ct_input_files :: "(string \<times> string) list"
  ct_output_files :: "(string \<times> string) list"
  ct_restart_files :: "string list"
  ct_stdin_file :: string
  ct_stdout_file :: string
  ct_stderr_file :: string
  ct_requirements :: string
  ct_rank :: string
  ct_rescheduling_interval :: int
  ct_rescheduling_threshold :: int
  ct_checkpoint_interval :: int
  ct_checkpoint_url :: string
  ct_suspension_timeout :: int
  ct_reschedule_on_failure :: bool
  ct_number_of_retries :: int
  ct_wrapper :: string
  ct_monitor :: string
  ct_job_deps :: "int list"
  ct_type :: gw_jobtype
  ct_np :: int
  ct_deadline :: int

definition gw_job_template_set_str :: "string \<Rightarrow> string option" where
  "gw_job_template_set_str src = (if src = [] then None else Some src)"

abbreviation set_pair :: "string \<times> string \<Rightarrow> string option \<times> string option" where
  "set_pair f \<equiv> (gw_job_template_set_str (fst f), gw_job_template_set_str (snd f))"

definition gw_job_template_init :: "gw_template \<Rightarrow> gw_job_template" where
  "gw_job_template_init ct =
    \<lparr> jt_job_home = gw_job_template_set_str (ct_job_home ct),
      jt_user_home = gw_job_template_set_str (ct_user_home ct),
      jt_executable = gw_job_template_set_str (ct_executable ct),
      jt_pre_wrapper = gw_job_template_set_str (ct_pre_wrapper ct),
      jt_input_files = map set_pair (ct_input_files ct),
      jt_output_files = map set_pair (ct_output_files ct),
      jt_restart_files = map gw_job_template_set_str (ct_restart_files ct),
      jt_stdin_file = gw_job_template_set_str (ct_stdin_file ct),
      jt_stdout_file = gw_job_template_set_str (ct_stdout_file ct),
      jt_stderr_file = gw_job_template_set_str (ct_stderr_file ct),
      jt_requirements = gw_job_template_set_str (ct_requirements ct),
      jt_rank = gw_job_template_set_str (ct_rank ct),
      jt_rescheduling_interval = ct_rescheduling_interval ct,
      jt_rescheduling_threshold = ct_rescheduling_threshold ct,
      jt_checkpoint_interval = ct_checkpoint_interval ct,
      jt_checkpoint_url = gw_job_template_set_str (ct_checkpoint_url ct),
      jt_suspension_timeout = ct_suspension_timeout ct,
      jt_reschedule_on_failure = ct_reschedule_on_failure ct,
      jt_number_of_retries = ct_number_of_retries ct,
      jt_wrapper = gw_job_template_set_str (ct_wrapper ct),
      jt_monitor = gw_job_template_set_str (ct_monitor ct),
      jt_type = ct_type ct, jt_np = ct_np ct, jt_deadline = ct_deadline ct \<rparr>"

section \<open>Initialisation\<close>

definition PATH_MAX :: nat where
  "PATH_MAX = 4096"

text \<open>\<open>snprintf\<close> with the size \<open>PATH_MAX - 1\<close>.  C division truncates; job ids are not negative.\<close>

definition job_path :: "gw_conf \<Rightarrow> int \<Rightarrow> string" where
  "job_path conf jid =
     conf_gw_location conf @ ''/var/'' @ show_int (jid div 100) @ ''00-'' @ show_int (jid div 100)
       @ ''99/'' @ show_int jid"

definition gw_job_init :: "gw_conf \<Rightarrow> int \<Rightarrow> gw_job \<Rightarrow> int \<Rightarrow> gw_job" where
  "gw_job_init conf now fresh jid =
     fresh\<lparr>job_directory := take (PATH_MAX - 2) (job_path conf jid),
           job_owner := None, job_user_id := - 1,
           job_fixed_priority := GW_JOB_MIN_PRIORITY,
           job_id := jid, job_array_id := - 1, job_task_id := 0, job_total_tasks := 0,
           job_pinc := 0, job_pstart := 0, job_history := gw_job_history_init,
           job_em_state := GW_EM_STATE_INIT, job_tm_state := GW_TM_STATE_INIT,
           job_job_state := GW_JOB_STATE_INIT,
           job_start_time := now, job_exit_time := 0,
           job_next_poll_time := 0, job_last_rescheduling_time := 0,
           job_last_checkpoint_time := 0,
           job_exit_code := 0, job_restarted := 0, job_client_waiting := 0,
           job_reschedule := False,
           job_xfrs := \<lparr>xfrs_number = 0, xfrs_failure_limit = 0, xfrs_xfrs = None\<rparr>,
           job_chk_xfrs := \<lparr>xfrs_number = 0, xfrs_failure_limit = 0, xfrs_xfrs = None\<rparr>,
           job_template := gw_job_template_zero\<rparr>"

section \<open>Submission\<close>

text \<open>The message of a submission (gw_rm_msg.h): the fields the daemon reads.\<close>

datatype gw_return_code =
    GW_RC_SUCCESS | GW_RC_FAILED | GW_RC_FAILED_FILE_ACCESS | GW_RC_FAILED_BAD_JOB_ID
  | GW_RC_FAILED_BAD_ARRAY_ID | GW_RC_FAILED_BAD_HOST_ID | GW_RC_FAILED_BAD_JOB_STATE
  | GW_RC_FAILED_NO_MEMORY | GW_RC_FAILED_THREAD | GW_RC_FAILED_INIT
  | GW_RC_FAILED_CONNECTION | GW_RC_FAILED_JOB_KILLED | GW_RC_FAILED_USER
  | GW_RC_FAILED_PERM | GW_RC_FAILED_JT | GW_RC_FAILED_JOB_FAIL | GW_RC_FAILED_TIMEOUT
  | GW_RC_LIMIT

record gw_msg_submit =
  msg_rc :: gw_return_code
  msg_job_id :: int
  msg_array_id :: int
  msg_owner :: string
  msg_proxy_path :: string
  msg_init_state :: gw_job_state
  msg_fixed_priority :: int
  msg_pstart :: int
  msg_pinc :: int
  msg_number_of_tasks :: int
  msg_jt :: gw_template

text \<open>
  \<open>while (job_deps[i] > -1) i++; type_dep = job_deps[i]\<close>: the first negative entry, past
  the array if there is none.
\<close>

fun deps_type :: "int list \<Rightarrow> int option" where
  "deps_type [] = None"
| "deps_type (d # ds) = (if d > - 1 then deps_type ds else Some d)"

text \<open>
  \<open>gw_job_fill\<close>: \<open>cleared\<close> says whether the two shell commands that recreate the job's
  directory succeed, \<open>conf_opens\<close> whether its configuration file can be opened.
\<close>

definition gw_job_fill ::
    "gw_conf \<Rightarrow> bool \<Rightarrow> bool \<Rightarrow> gw_job \<Rightarrow> gw_msg_submit \<Rightarrow> (int \<times> gw_job) option" where
  "gw_job_fill conf cleared conf_opens job msg =
     (if \<not> cleared then Some (- 1, job)
      else do {
        let t = gw_job_template_init (msg_jt msg);
        let job = job\<lparr>job_owner := Some (msg_owner msg),
            job_template := (if jt_checkpoint_url t = None
              then t\<lparr>jt_checkpoint_url :=
                Some (take (PATH_MAX - 2) (''file://'' @ job_path conf (job_id job)))\<rparr>
              else t)\<rparr>;
        if \<not> conf_opens then Some (- 1, job)
        else do {
          d \<leftarrow> deps_type (ct_job_deps (msg_jt msg));
          Some (0, job\<lparr>job_type_dep := d\<rparr>)
        }
      })"

section \<open>Wrapper based execution\<close>

definition lower_char :: "char \<Rightarrow> char" where
  "lower_char c = (let n = (of_char c :: nat) in if 65 \<le> n \<and> n \<le> 90 then char_of (n + 32) else c)"

definition strcasecmp_eq :: "string \<Rightarrow> string \<Rightarrow> bool" where
  "strcasecmp_eq s t \<longleftrightarrow> map lower_char s = map lower_char t"

text \<open>The parameter is the host of the newest record, when there is a record.\<close>

definition wrapper_based :: "gw_host option \<Rightarrow> gw_job_template \<Rightarrow> bool" where
  "wrapper_based host t =
     (let (isprews, isgw) = (case host of
            None \<Rightarrow> (False, False)
          | Some h \<Rightarrow> (case (host_lrms_name h, host_lrms_type h) of
              (Some name, Some type) \<Rightarrow>
                (take 11 name = ''jobmanager-'', strcasecmp_eq type ''gw'')
            | _ \<Rightarrow> (False, False)));
          ismpi = (jt_type t = GW_JOB_TYPE_MPI);
          iswrapper = (jt_wrapper t \<noteq> None)
      in isprews \<or> (\<not> ismpi \<and> \<not> isgw \<and> iswrapper))"

text \<open>A record of a host that is no longer in the pool is a dangling pointer.\<close>

definition gw_job_is_wrapper_based :: "gw_host gw_pool \<Rightarrow> gw_job \<Rightarrow> bool option" where
  "gw_job_is_wrapper_based hosts job =
     (case job_history job of
        [] \<Rightarrow> Some (wrapper_based None (job_template job))
      | r # _ \<Rightarrow> (case pool_get hosts (hist_host r) of
            None \<Rightarrow> None
          | Some h \<Rightarrow> Some (wrapper_based (Some h) (job_template job))))"

lemma job_init_simps [simp]:
  "job_id (gw_job_init conf now fresh jid) = jid"
  "job_job_state (gw_job_init conf now fresh jid) = GW_JOB_STATE_INIT"
  "job_history (gw_job_init conf now fresh jid) = []"
  "job_array_id (gw_job_init conf now fresh jid) = - 1"
  "job_user_id (gw_job_init conf now fresh jid) = - 1"
  "job_task_id (gw_job_init conf now fresh jid) = 0"
  "job_total_tasks (gw_job_init conf now fresh jid) = 0"
  by (simp_all add: gw_job_init_def gw_job_history_init_def)

lemma gw_job_fill_frame:
  "gw_job_fill conf c d job msg = Some (rc, job') \<Longrightarrow>
     job_id job' = job_id job \<and> job_job_state job' = job_job_state job
   \<and> job_history job' = job_history job \<and> job_user_id job' = job_user_id job"
  by (auto simp: gw_job_fill_def Let_def bind_Some_iff split: if_splits)

end
