(* ===== verification/Gw_Xfr.thy ===== *)
theory Gw_Xfr
  imports Gw_Job
begin

text \<open>
  File transfers: \<open>src/job/gw_xfr_files.c\<close>, the list of files of the prolog
  (\<open>gw_dm_prolog_set_files\<close> of \<open>src/dm/gw_dm_state_prologs.c\<close>) and of the epilogs
  (the static functions of \<open>src/dm/gw_dm_state_epilogs.c\<close>).  The code counts the
  transfers, allocates that many and then writes them one after the other; a write
  past the allocation is \<open>None\<close>.  The entries a function writes are listed in the
  order of its statements.
\<close>

section \<open>The transfer array\<close>

text \<open>\<open>malloc\<close> leaves the field \<open>mode\<close> as it is: the parameter \<open>junk\<close>.\<close>

definition gw_xfr_init :: "char \<Rightarrow> int \<Rightarrow> int \<Rightarrow> gw_xfrs" where
  "gw_xfr_init junk number_of_xfrs tries =
     \<lparr> xfrs_number = number_of_xfrs, xfrs_failure_limit = 0,
       xfrs_xfrs = Some (replicate (nat number_of_xfrs)
         \<lparr> xfr_tries = tries, xfr_src_url = None, xfr_dst_url = None, xfr_alt_src_url = None,
           xfr_mode = junk, xfr_done = False, xfr_success = False, xfr_counter = - 1 \<rparr>) \<rparr>"

text \<open>The strings are freed in a loop over \<open>number_of_xfrs\<close> entries.\<close>

definition gw_xfr_destroy :: "gw_xfrs \<Rightarrow> gw_xfrs option" where
  "gw_xfr_destroy x =
     (case xfrs_xfrs x of
        Some xs \<Rightarrow> if xfrs_number x \<le> int (length xs)
          then Some \<lparr> xfrs_number = 0, xfrs_failure_limit = 0, xfrs_xfrs = None \<rparr> else None
      | None \<Rightarrow> Some \<lparr> xfrs_number = 0, xfrs_failure_limit = 0, xfrs_xfrs = None \<rparr>)"

definition gw_xfr_pending :: "gw_xfrs \<Rightarrow> int option" where
  "gw_xfr_pending x =
     (case xfrs_xfrs x of
        None \<Rightarrow> Some 0
      | Some xs \<Rightarrow> if xfrs_number x \<le> int (length xs)
          then Some (int (length (filter (\<lambda>f. xfr_src_url f \<noteq> None \<and> \<not> xfr_done f)
                 (take (nat (xfrs_number x)) xs))))
          else None)"

text \<open>The array of a job is as long as its counter says.\<close>

definition xfrs_ok :: "gw_xfrs \<Rightarrow> bool" where
  "xfrs_ok x \<longleftrightarrow> 0 \<le> xfrs_number x
     \<and> (\<forall>xs. xfrs_xfrs x = Some xs \<longrightarrow> xfrs_number x = int (length xs))"

lemma xfrs_ok_init [simp]: "0 \<le> n \<Longrightarrow> xfrs_ok (gw_xfr_init junk n tries)"
  by (simp add: xfrs_ok_def gw_xfr_init_def)

lemma gw_xfr_destroy_ok:
  "xfrs_ok x \<Longrightarrow>
     gw_xfr_destroy x = Some \<lparr> xfrs_number = 0, xfrs_failure_limit = 0, xfrs_xfrs = None \<rparr>"
  by (auto simp: xfrs_ok_def gw_xfr_destroy_def split: option.split)

section \<open>Writing entries\<close>

text \<open>An entry: source, destination, alternative source, mode (\<open>None\<close>: not written).\<close>

type_synonym xfr_entry = "string option \<times> string option \<times> string option \<times> char option"

definition put_entry :: "xfr_entry \<Rightarrow> gw_xfr \<Rightarrow> gw_xfr" where
  "put_entry e f =
     (let (src, dst, alt, mode) = e in
      f\<lparr>xfr_src_url := src, xfr_dst_url := dst, xfr_alt_src_url := alt,
        xfr_mode := (case mode of None \<Rightarrow> xfr_mode f | Some m \<Rightarrow> m)\<rparr>)"

fun put_entries :: "xfr_entry list \<Rightarrow> int \<Rightarrow> gw_xfr list \<Rightarrow> gw_xfr list option" where
  "put_entries [] i xs = Some xs"
| "put_entries (e # es) i xs = do {
     f \<leftarrow> rd xs i;
     xs' \<leftarrow> wr xs i (put_entry e f);
     put_entries es (i + 1) xs'
   }"

text \<open>\<open>snprintf\<close> into the buffers of 512 bytes.\<close>

abbreviation url512 :: "string \<Rightarrow> string" where
  "url512 s \<equiv> take 511 s"

text \<open>\<open>strdup\<close> of a NULL pointer crashes.\<close>

fun list_files :: "(string option \<times> string option) list \<Rightarrow> char option \<Rightarrow> xfr_entry list option" where
  "list_files [] mode = Some []"
| "list_files ((src, dst) # fs) mode =
     (case src of None \<Rightarrow> None
      | Some s \<Rightarrow> map_option ((#) (Some s, dst, None, mode)) (list_files fs mode))"

abbreviation opt_entry :: "'a option \<Rightarrow> ('a \<Rightarrow> xfr_entry) \<Rightarrow> xfr_entry list" where
  "opt_entry s f \<equiv> (case s of None \<Rightarrow> [] | Some x \<Rightarrow> [f x])"

section \<open>The prolog\<close>

definition prolog_num_xfrs :: "bool \<Rightarrow> gw_job \<Rightarrow> int" where
  "prolog_num_xfrs wbe job =
     (let t = job_template job;
          n = (if wbe
               then num_input_files t + 1
                 + of_bool (jt_executable t \<noteq> None) + of_bool (jt_stdin_file t \<noteq> None)
                 + of_bool (jt_pre_wrapper t \<noteq> None) + of_bool (jt_wrapper t \<noteq> None)
                 + of_bool (jt_monitor t \<noteq> None)
               else num_input_files t
                 + of_bool (jt_executable t \<noteq> None) + of_bool (jt_stdin_file t \<noteq> None)
                 + of_bool (jt_pre_wrapper t \<noteq> None))
      in if job_restarted job \<noteq> 0 \<and> num_restart_files t > 0 then n + num_restart_files t else n)"

text \<open>Sections 2 to 7 of the function: input files, environment, the programs.\<close>

definition prolog_entries :: "bool \<Rightarrow> gw_job \<Rightarrow> xfr_entry list option" where
  "prolog_entries wbe job = do {
     let t = job_template job;
     inputs \<leftarrow> list_files (jt_input_files t) (Some (CHR ''-''));
     Some (inputs
       @ (if wbe then [(Some (url512 (''file://'' @ job_directory job @ ''/job.env'')), None, None,
                        Some (CHR ''-''))] else [])
       @ opt_entry (jt_executable t) (\<lambda>s. (Some s, None, None, Some (CHR ''X'')))
       @ opt_entry (jt_stdin_file t)
           (\<lambda>s. (Some s, Some ''stdin.execution'', None, Some (CHR ''-'')))
       @ opt_entry (jt_pre_wrapper t) (\<lambda>s. (Some s, None, None, Some (CHR ''X'')))
       @ (if wbe then [(Some (url512 (''file://'' @ cstr (jt_wrapper t))), Some ''.wrapper'', None,
                        Some (CHR ''X''))] else [])
       @ (if wbe then opt_entry (jt_monitor t)
            (\<lambda>s. (Some (url512 (''file://'' @ s)), Some ''.monitor'', None, Some (CHR ''X'')))
          else []))
   }"

text \<open>
  Section 8: the restart files of a restarted job, from the previous host, that is
  the second record of the history, or from the checkpoint server.
\<close>

definition prolog_restart_entries :: "gw_job \<Rightarrow> xfr_entry list option" where
  "prolog_restart_entries job =
     (let t = job_template job in
      if job_restarted job \<noteq> 0 \<and> num_restart_files t > 0 then
        (case job_history job of
           _ # prev # _ \<Rightarrow>
             Some (map (\<lambda>f.
               let url = url512 (hist_rdir prev @ cstr f);
                   alt_url = url512 (cstr (jt_checkpoint_url t) @ cstr f)
               in if job_job_state job = GW_JOB_STATE_MIGR_PROLOG
                  then (Some url, None, Some alt_url, Some (CHR ''-''))
                  else (Some alt_url, None, None, Some (CHR ''-''))) (jt_restart_files t))
         | _ \<Rightarrow> None)
      else Some [])"

definition gw_dm_prolog_set_files :: "char \<Rightarrow> bool \<Rightarrow> gw_job \<Rightarrow> gw_job option" where
  "gw_dm_prolog_set_files junk wbe job = do {
     _ \<leftarrow> gw_xfr_destroy (job_xfrs job);
     let num_xfrs = prolog_num_xfrs wbe job;
     let x = gw_xfr_init junk num_xfrs (jt_number_of_retries (job_template job));
     block \<leftarrow> xfrs_xfrs x;
     es \<leftarrow> prolog_entries wbe job;
     block \<leftarrow> put_entries es 0 block;
     rs \<leftarrow> prolog_restart_entries job;
     block \<leftarrow> put_entries rs (int (length es)) block;
     Some (job\<lparr>job_xfrs := x\<lparr>xfrs_xfrs := Some block, xfrs_failure_limit := int (length es)\<rparr>\<rparr>)
   }"

section \<open>The epilogs\<close>

text \<open>The local file name and the two copies an epilog makes of it.\<close>

abbreviation job_file :: "gw_job \<Rightarrow> string \<Rightarrow> string option" where
  "job_file job f \<equiv>
     Some (url512 (''file://'' @ job_directory job @ ''/'' @ f @ ''.'' @ show_int (job_restarted job)))"

definition gw_dm_epilog_std_wrapper_files :: "gw_job \<Rightarrow> xfr_entry list" where
  "gw_dm_epilog_std_wrapper_files job =
     [(Some ''stdout.wrapper'', job_file job ''stdout.wrapper'', None, None),
      (Some ''stderr.wrapper'', job_file job ''stderr.wrapper'', None, None)]"

definition gw_dm_epilog_std_files :: "gw_job \<Rightarrow> xfr_entry list" where
  "gw_dm_epilog_std_files job =
     (let t = job_template job in
      opt_entry (jt_stdout_file t) (\<lambda>f. (Some ''stdout.execution'', Some f, None, None))
    @ opt_entry (jt_stderr_file t) (\<lambda>f. (Some ''stderr.execution'', Some f, None, None))
    @ (if jt_pre_wrapper t \<noteq> None
       then [(Some ''stdout.pre_wrapper'', job_file job ''stdout.pre_wrapper'', None, None),
             (Some ''stderr.pre_wrapper'', job_file job ''stderr.pre_wrapper'', None, None)] else [])
    @ (if jt_monitor t \<noteq> None
       then [(Some ''stdout.monitor'', job_file job ''stdout.monitor'', None, None),
             (Some ''stderr.monitor'', job_file job ''stderr.monitor'', None, None)] else []))"

text \<open>The failure limit after \<open>gw_dm_epilog_std_files\<close> entered with index \<open>i\<close>: the last of
  the two execution files, or what it was.\<close>

definition std_files_limit :: "gw_job \<Rightarrow> int \<Rightarrow> int \<Rightarrow> int" where
  "std_files_limit job i limit =
     (let t = job_template job;
          (i, limit) = (if jt_stdout_file t \<noteq> None then (i + 1, i) else (i, limit))
      in if jt_stderr_file t \<noteq> None then i else limit)"

definition gw_dm_epilog_output_files :: "gw_job \<Rightarrow> xfr_entry list option" where
  "gw_dm_epilog_output_files job = list_files (jt_output_files (job_template job)) None"

definition gw_dm_epilog_restart_files :: "gw_job \<Rightarrow> xfr_entry list option" where
  "gw_dm_epilog_restart_files job =
     list_files (map (\<lambda>f. (f, Some (url512 (cstr (jt_checkpoint_url (job_template job)) @ ''/'' @ cstr f))))
       (jt_restart_files (job_template job))) None"

definition std_num_xfrs :: "gw_job_template \<Rightarrow> int" where
  "std_num_xfrs t =
     of_bool (jt_stdout_file t \<noteq> None) + of_bool (jt_stderr_file t \<noteq> None)
     + 2 * of_bool (jt_pre_wrapper t \<noteq> None) + 2 * of_bool (jt_monitor t \<noteq> None)"

text \<open>The common end of the epilogs: destroy, allocate \<open>num\<close>, write the entries.\<close>

definition epilog_xfrs :: "char \<Rightarrow> gw_job \<Rightarrow> int \<Rightarrow> int \<Rightarrow> xfr_entry list \<Rightarrow> gw_job option" where
  "epilog_xfrs junk job num_xfrs limit es = do {
     _ \<leftarrow> gw_xfr_destroy (job_xfrs job);
     let x = gw_xfr_init junk num_xfrs (jt_number_of_retries (job_template job));
     block \<leftarrow> xfrs_xfrs x;
     block \<leftarrow> put_entries es 0 block;
     Some (job\<lparr>job_xfrs := x\<lparr>xfrs_xfrs := Some block, xfrs_failure_limit := limit\<rparr>\<rparr>)
   }"

definition epilog_std_xfrs :: "char \<Rightarrow> gw_job \<Rightarrow> gw_job option" where
  "epilog_std_xfrs junk job = epilog_xfrs junk job 2 0 (gw_dm_epilog_std_wrapper_files job)"

definition migr_epilog_xfrs :: "char \<Rightarrow> gw_job \<Rightarrow> gw_job option" where
  "migr_epilog_xfrs junk job =
     epilog_xfrs junk job (std_num_xfrs (job_template job)) (std_files_limit job 0 (- 1))
       (gw_dm_epilog_std_files job)"

definition stop_epilog_xfrs :: "char \<Rightarrow> gw_job \<Rightarrow> gw_job option" where
  "stop_epilog_xfrs junk job =
     (let t = job_template job; std = gw_dm_epilog_std_files job in
      if job_tm_state job \<noteq> GW_TM_STATE_CHECKPOINT
      then do {
        restart \<leftarrow> gw_dm_epilog_restart_files job;
        epilog_xfrs junk job (std_num_xfrs t + num_restart_files t) (std_files_limit job 0 (- 1))
          (std @ restart)
      }
      else epilog_xfrs junk job (std_num_xfrs t) (std_files_limit job 0 (- 1)) std)"

text \<open>Kill and failure: only the wrapper's output, when the job has a wrapper.\<close>

definition wrapper_epilog_xfrs :: "char \<Rightarrow> bool \<Rightarrow> gw_job \<Rightarrow> gw_job option" where
  "wrapper_epilog_xfrs junk wbe job =
     (if wbe then epilog_xfrs junk job 2 0 (gw_dm_epilog_std_wrapper_files job)
      else do { x \<leftarrow> gw_xfr_destroy (job_xfrs job); Some (job\<lparr>job_xfrs := x\<rparr>) })"

definition final_epilog_xfrs :: "char \<Rightarrow> gw_job \<Rightarrow> gw_job option" where
  "final_epilog_xfrs junk job = do {
     let t = job_template job;
     out \<leftarrow> gw_dm_epilog_output_files job;
     let std = gw_dm_epilog_std_files job;
     epilog_xfrs junk job (std_num_xfrs t + num_output_files t)
       (std_files_limit job (num_output_files t) (num_output_files t - 1)) (out @ std)
   }"

definition restart_epilog_xfrs :: "char \<Rightarrow> gw_job \<Rightarrow> gw_job option" where
  "restart_epilog_xfrs junk job = do {
     let t = job_template job;
     out \<leftarrow> gw_dm_epilog_output_files job;
     let std = gw_dm_epilog_std_files job;
     let limit = std_files_limit job (num_output_files t) (num_output_files t - 1);
     (if job_tm_state job \<noteq> GW_TM_STATE_CHECKPOINT
      then do {
        restart \<leftarrow> gw_dm_epilog_restart_files job;
        epilog_xfrs junk job (std_num_xfrs t + num_output_files t + num_restart_files t) limit
          (out @ std @ restart)
      }
      else epilog_xfrs junk job (std_num_xfrs t + num_output_files t) limit (out @ std))
   }"

section \<open>Counting and writing agree\<close>

lemma put_entries_fill:
  "put_entries es (int (length us)) (us @ vs @ ws) = Some (us @ map2 put_entry es vs @ ws)"
  if "length vs = length es"
  using that
proof (induction es arbitrary: us vs)
  case (Cons e es)
  then obtain v vs' where vs: "vs = v # vs'" "length vs' = length es" by (cases vs) auto
  then have "rd (us @ vs @ ws) (int (length us)) = Some v" by simp
  moreover have "wr (us @ vs @ ws) (int (length us)) (put_entry e v)
      = Some ((us @ [put_entry e v]) @ vs' @ ws)"
    using vs by simp
  ultimately show ?case
    using Cons.IH [of vs' "us @ [put_entry e v]"] vs by (simp add: add.commute)
qed simp

lemma put_entries_short:
  "0 \<le> i \<Longrightarrow> i \<le> int (length xs) \<Longrightarrow> int (length xs) < i + int (length es) \<Longrightarrow>
     put_entries es i xs = None"
proof (induction es arbitrary: i xs)
  case (Cons e es)
  show ?case
  proof (cases "i = int (length xs)")
    case True
    then show ?thesis by (simp add: bind_None_iff)
  next
    case False
    with Cons.prems obtain n where n: "i = int n" "n < length xs"
      by (metis nonneg_int_cases of_nat_less_iff order_le_less)
    with Cons.IH [of "i + 1" "xs[n := put_entry e (xs ! n)]"] Cons.prems show ?thesis by simp
  qed
qed simp

lemma list_files_length: "list_files fs mode = Some es \<Longrightarrow> length es = length fs"
  by (induction fs arbitrary: es) (auto split: option.splits)

lemma list_files_src: "list_files fs mode = Some es \<Longrightarrow> e \<in> set es \<Longrightarrow> fst e \<noteq> None"
  by (induction fs arbitrary: es) (auto split: option.splits)

text \<open>The result of writing \<open>es\<close>: every transfer set, none done yet.\<close>

definition xfrs_hold :: "gw_xfrs \<Rightarrow> xfr_entry list \<Rightarrow> bool" where
  "xfrs_hold x es \<longleftrightarrow>
     xfrs_number x = int (length es)
   \<and> (\<exists>xs. xfrs_xfrs x = Some xs
        \<and> map (\<lambda>f. (xfr_src_url f, xfr_dst_url f, xfr_alt_src_url f)) xs
            = map (\<lambda>(src, dst, alt, mode). (src, dst, alt)) es
        \<and> list_all (\<lambda>f. \<not> xfr_done f \<and> xfr_counter f = - 1) xs)"

lemma put_entries_blank:
  "list_all (\<lambda>f. \<not> xfr_done f \<and> xfr_counter f = - 1) fs \<Longrightarrow> length fs = length es \<Longrightarrow>
     map (\<lambda>f. (xfr_src_url f, xfr_dst_url f, xfr_alt_src_url f)) (map2 put_entry es fs)
       = map (\<lambda>(src, dst, alt, mode). (src, dst, alt)) es
   \<and> list_all (\<lambda>f. \<not> xfr_done f \<and> xfr_counter f = - 1) (map2 put_entry es fs)"
proof (induction es arbitrary: fs)
  case (Cons e es)
  then obtain f fs' where "fs = f # fs'" by (cases fs) auto
  with Cons show ?case by (auto simp: put_entry_def split: prod.split)
qed simp

lemma put_entries_init:
  assumes "n = int (length es)"
  shows "\<exists>xs. put_entries es 0 (the (xfrs_xfrs (gw_xfr_init junk n tries))) = Some xs
    \<and> xfrs_hold ((gw_xfr_init junk n tries)\<lparr>xfrs_xfrs := Some xs, xfrs_failure_limit := l\<rparr>) es"
proof -
  let ?fs = "the (xfrs_xfrs (gw_xfr_init junk n tries))"
  have fs: "length ?fs = length es" "list_all (\<lambda>f. \<not> xfr_done f \<and> xfr_counter f = - 1) ?fs"
    using assms by (simp_all add: gw_xfr_init_def list_all_length)
  from put_entries_fill [OF fs(1), of "[]" "[]"]
  have "put_entries es 0 ?fs = Some (map2 put_entry es ?fs)" by simp
  with put_entries_blank [OF fs(2,1)] assms show ?thesis
    by (simp add: xfrs_hold_def gw_xfr_init_def)
qed

lemma epilog_xfrs_hold:
  assumes "xfrs_ok (job_xfrs job)" and "n = int (length es)"
  shows "\<exists>x. epilog_xfrs junk job n limit es = Some (job\<lparr>job_xfrs := x\<rparr>)
    \<and> xfrs_hold x es \<and> xfrs_ok x \<and> xfrs_failure_limit x = limit"
proof -
  let ?x = "gw_xfr_init junk n (jt_number_of_retries (job_template job))"
  obtain xs where xs: "put_entries es 0 (the (xfrs_xfrs ?x)) = Some xs"
    "xfrs_hold (?x\<lparr>xfrs_xfrs := Some xs, xfrs_failure_limit := limit\<rparr>) es"
    using put_entries_init [OF assms(2)] by blast
  then have "length xs = length es" by (auto simp: xfrs_hold_def dest: map_eq_imp_length_eq)
  then have "xfrs_ok (?x\<lparr>xfrs_xfrs := Some xs, xfrs_failure_limit := limit\<rparr>)"
    using assms(2) by (simp add: xfrs_ok_def gw_xfr_init_def)
  with xs assms show ?thesis
    by (auto simp: epilog_xfrs_def gw_xfr_destroy_ok gw_xfr_init_def)
qed

lemma std_files_length: "int (length (gw_dm_epilog_std_files job)) = std_num_xfrs (job_template job)"
  by (auto simp: gw_dm_epilog_std_files_def std_num_xfrs_def Let_def split: option.split)

lemma list_files_total:
  "list_all (\<lambda>f. fst f \<noteq> None) fs \<Longrightarrow> \<exists>es. list_files fs mode = Some es \<and> length es = length fs"
  by (induction fs) auto

lemma output_files_total:
  "list_all (\<lambda>f. fst f \<noteq> None) (jt_output_files (job_template job)) \<Longrightarrow>
     \<exists>es. gw_dm_epilog_output_files job = Some es \<and> int (length es) = num_output_files (job_template job)"
  using list_files_total unfolding gw_dm_epilog_output_files_def by fastforce

lemma restart_files_total:
  "list_all (\<lambda>f. f \<noteq> None) (jt_restart_files (job_template job)) \<Longrightarrow>
     \<exists>es. gw_dm_epilog_restart_files job = Some es \<and> int (length es) = num_restart_files (job_template job)"
proof -
  let ?fs = "map (\<lambda>f. (f, Some (url512 (cstr (jt_checkpoint_url (job_template job)) @ ''/'' @ cstr f))))
       (jt_restart_files (job_template job))"
  assume "list_all (\<lambda>f. f \<noteq> None) (jt_restart_files (job_template job))"
  then have "list_all (\<lambda>f. fst f \<noteq> None) ?fs" by (simp add: list_all_iff)
  from list_files_total [OF this, of None] show ?thesis
    by (auto simp: gw_dm_epilog_restart_files_def)
qed

text \<open>Every epilog writes exactly as many transfers as it has counted and
  allocated, whatever the template asks for: no write leaves the array and no allocated
  transfer is left without its files.\<close>

theorem epilog_transfers_exact:
  assumes "xfrs_ok (job_xfrs job)"
    and "list_all (\<lambda>f. fst f \<noteq> None) (jt_output_files (job_template job))"
    and "list_all (\<lambda>f. f \<noteq> None) (jt_restart_files (job_template job))"
  shows "\<exists>a b c d e f out restart.
      epilog_std_xfrs junk job = Some (job\<lparr>job_xfrs := a\<rparr>)
    \<and> xfrs_hold a (gw_dm_epilog_std_wrapper_files job)
    \<and> migr_epilog_xfrs junk job = Some (job\<lparr>job_xfrs := b\<rparr>)
    \<and> xfrs_hold b (gw_dm_epilog_std_files job)
    \<and> stop_epilog_xfrs junk job = Some (job\<lparr>job_xfrs := c\<rparr>)
    \<and> xfrs_hold c (gw_dm_epilog_std_files job
        @ (if job_tm_state job = GW_TM_STATE_CHECKPOINT then [] else restart))
    \<and> wrapper_epilog_xfrs junk True job = Some (job\<lparr>job_xfrs := d\<rparr>)
    \<and> xfrs_hold d (gw_dm_epilog_std_wrapper_files job)
    \<and> final_epilog_xfrs junk job = Some (job\<lparr>job_xfrs := e\<rparr>)
    \<and> xfrs_hold e (out @ gw_dm_epilog_std_files job)
    \<and> restart_epilog_xfrs junk job = Some (job\<lparr>job_xfrs := f\<rparr>)
    \<and> xfrs_hold f (out @ gw_dm_epilog_std_files job
        @ (if job_tm_state job = GW_TM_STATE_CHECKPOINT then [] else restart))
    \<and> gw_dm_epilog_output_files job = Some out \<and> gw_dm_epilog_restart_files job = Some restart"
proof -
  let ?t = "job_template job" and ?std = "gw_dm_epilog_std_files job"
  obtain out where out: "gw_dm_epilog_output_files job = Some out"
    "int (length out) = num_output_files ?t" using output_files_total [OF assms(2)] by blast
  obtain rs where rs: "gw_dm_epilog_restart_files job = Some rs"
    "int (length rs) = num_restart_files ?t" using restart_files_total [OF assms(3)] by blast
  note std = std_files_length [of job]
  have two: "2 = int (length (gw_dm_epilog_std_wrapper_files job))"
    by (simp add: gw_dm_epilog_std_wrapper_files_def)
  note hold = epilog_xfrs_hold [OF assms(1), of _ _ junk]
  obtain a where "epilog_std_xfrs junk job = Some (job\<lparr>job_xfrs := a\<rparr>)"
      "wrapper_epilog_xfrs junk True job = Some (job\<lparr>job_xfrs := a\<rparr>)"
      "xfrs_hold a (gw_dm_epilog_std_wrapper_files job)"
    using hold [OF two] by (auto simp: epilog_std_xfrs_def wrapper_epilog_xfrs_def)
  moreover obtain b where "migr_epilog_xfrs junk job = Some (job\<lparr>job_xfrs := b\<rparr>)"
      "xfrs_hold b ?std"
    using hold [OF std [symmetric]] unfolding migr_epilog_xfrs_def by blast
  moreover obtain c where "stop_epilog_xfrs junk job = Some (job\<lparr>job_xfrs := c\<rparr>)"
      "xfrs_hold c (?std @ (if job_tm_state job = GW_TM_STATE_CHECKPOINT then [] else rs))"
    using hold [of "std_num_xfrs ?t + num_restart_files ?t" "?std @ rs" "std_files_limit job 0 (- 1)"]
      hold [OF std [symmetric], of "std_files_limit job 0 (- 1)"] std rs
    by (cases "job_tm_state job = GW_TM_STATE_CHECKPOINT") (auto simp: stop_epilog_xfrs_def Let_def)
  moreover obtain e where "final_epilog_xfrs junk job = Some (job\<lparr>job_xfrs := e\<rparr>)"
      "xfrs_hold e (out @ ?std)"
    using hold [of "std_num_xfrs ?t + num_output_files ?t" "out @ ?std"
        "std_files_limit job (num_output_files ?t) (num_output_files ?t - 1)"] std out
    by (auto simp: final_epilog_xfrs_def)
  moreover obtain f where "restart_epilog_xfrs junk job = Some (job\<lparr>job_xfrs := f\<rparr>)"
      "xfrs_hold f (out @ ?std @ (if job_tm_state job = GW_TM_STATE_CHECKPOINT then [] else rs))"
    using hold [of "std_num_xfrs ?t + num_output_files ?t" "out @ ?std"
        "std_files_limit job (num_output_files ?t) (num_output_files ?t - 1)"]
      hold [of "std_num_xfrs ?t + num_output_files ?t + num_restart_files ?t" "out @ ?std @ rs"
        "std_files_limit job (num_output_files ?t) (num_output_files ?t - 1)"] std out rs
    by (cases "job_tm_state job = GW_TM_STATE_CHECKPOINT") (auto simp: restart_epilog_xfrs_def)
  ultimately show ?thesis using out(1) rs(1) by blast
qed

section \<open>The prolog's transfers\<close>

lemma prolog_entries_length:
  "prolog_entries wbe job = Some es \<Longrightarrow>
     int (length es) = num_input_files (job_template job) + 2 * of_bool wbe
       + of_bool (jt_executable (job_template job) \<noteq> None)
       + of_bool (jt_stdin_file (job_template job) \<noteq> None)
       + of_bool (jt_pre_wrapper (job_template job) \<noteq> None)
       + of_bool (wbe \<and> jt_monitor (job_template job) \<noteq> None)"
  by (auto simp: prolog_entries_def Let_def bind_Some_iff dest!: list_files_length
      split: option.splits)

lemma prolog_restart_length:
  "prolog_restart_entries job = Some rs \<Longrightarrow>
     int (length rs) = (if job_restarted job \<noteq> 0 then num_restart_files (job_template job) else 0)"
  by (auto simp: prolog_restart_entries_def Let_def split: if_splits list.splits)

text \<open>C28 (bounds).  The prolog writes exactly the transfers it has counted, the restart files
  after the failure limit, when a job that runs under a wrapper names one and a job that
  restarts has run on a host before.\<close>

theorem prolog_transfers_exact:
  assumes "xfrs_ok (job_xfrs job)"
    and "list_all (\<lambda>f. fst f \<noteq> None) (jt_input_files (job_template job))"
    and "wbe \<longrightarrow> jt_wrapper (job_template job) \<noteq> None"
    and "job_restarted job \<noteq> 0 \<longrightarrow> 2 \<le> length (job_history job)"
  shows "\<exists>x es rs. gw_dm_prolog_set_files junk wbe job = Some (job\<lparr>job_xfrs := x\<rparr>)
    \<and> prolog_entries wbe job = Some es \<and> prolog_restart_entries job = Some rs
    \<and> xfrs_hold x (es @ rs) \<and> xfrs_failure_limit x = int (length es)"
proof -
  obtain inputs where "list_files (jt_input_files (job_template job)) (Some (CHR ''-'')) = Some inputs"
    using list_files_total [OF assms(2)] by blast
  then obtain es where es: "prolog_entries wbe job = Some es"
    by (simp add: prolog_entries_def Let_def)
  have "\<exists>rs. prolog_restart_entries job = Some rs"
  proof (cases "job_restarted job = 0")
    case False
    with assms(4) obtain r r' hs where "job_history job = r # r' # hs"
      by (metis Suc_le_length_iff numeral_2_eq_2)
    then show ?thesis by (simp add: prolog_restart_entries_def Let_def)
  qed (simp add: prolog_restart_entries_def)
  then obtain rs where rs: "prolog_restart_entries job = Some rs" by blast
  let ?x = "gw_xfr_init junk (prolog_num_xfrs wbe job) (jt_number_of_retries (job_template job))"
  have n: "prolog_num_xfrs wbe job = int (length (es @ rs))"
    using prolog_entries_length [OF es] prolog_restart_length [OF rs] assms(3)
    by (auto simp: prolog_num_xfrs_def Let_def)
  then have len: "length (the (xfrs_xfrs ?x)) = length (es @ rs)" by (simp add: gw_xfr_init_def)
  have split: "put_entries rs (int (length es)) (the (put_entries es 0 (the (xfrs_xfrs ?x))))
      = put_entries (es @ rs) 0 (the (xfrs_xfrs ?x)) \<and> put_entries es 0 (the (xfrs_xfrs ?x)) \<noteq> None"
  proof -
    let ?b = "the (xfrs_xfrs ?x)"
    let ?v = "take (length es) ?b" and ?w = "drop (length es) ?b"
    have "put_entries es 0 ?b = Some (map2 put_entry es ?v @ ?w)"
      using put_entries_fill [of ?v es "[]" ?w] len by simp
    moreover have "put_entries rs (int (length es)) (map2 put_entry es ?v @ ?w)
        = Some (map2 put_entry es ?v @ map2 put_entry rs ?w)"
      using put_entries_fill [of ?w rs "map2 put_entry es ?v" "[]"] len by simp
    moreover have "map2 put_entry (es @ rs) ?b = map2 put_entry es ?v @ map2 put_entry rs ?w"
      by (simp add: zip_append1)
    ultimately show ?thesis
      using put_entries_fill [of ?b "es @ rs" "[]" "[]"] len by simp
  qed
  obtain xs where xs: "put_entries (es @ rs) 0 (the (xfrs_xfrs ?x)) = Some xs"
    "xfrs_hold (?x\<lparr>xfrs_xfrs := Some xs, xfrs_failure_limit := int (length es)\<rparr>) (es @ rs)"
    using put_entries_init [OF n] by blast
  obtain b where b: "xfrs_xfrs ?x = Some b" by (simp add: gw_xfr_init_def)
  with split xs(1) have "gw_dm_prolog_set_files junk wbe job =
      Some (job\<lparr>job_xfrs := ?x\<lparr>xfrs_xfrs := Some xs, xfrs_failure_limit := int (length es)\<rparr>\<rparr>)"
    using es rs by (auto simp: gw_dm_prolog_set_files_def gw_xfr_destroy_ok [OF assms(1)] Let_def)
  with es rs xs(2) show ?thesis by auto
qed

text \<open>The count asks for the wrapper's name, the write for the kind of execution:
  a job without a wrapper on a resource of a pre-web-service job manager writes one
  transfer more than has been allocated.\<close>

theorem prolog_transfers_overflow:
  assumes "list_all (\<lambda>f. fst f \<noteq> None) (jt_input_files (job_template job))"
    and "jt_wrapper (job_template job) = None" and "job_restarted job = 0"
    and "xfrs_ok (job_xfrs job)"
  shows "gw_dm_prolog_set_files junk True job = None"
proof -
  obtain inputs where "list_files (jt_input_files (job_template job)) (Some (CHR ''-'')) = Some inputs"
    using list_files_total [OF assms(1)] by blast
  then obtain es where es: "prolog_entries True job = Some es"
    by (simp add: prolog_entries_def Let_def)
  have "prolog_num_xfrs True job < int (length es)" "0 \<le> prolog_num_xfrs True job"
    using prolog_entries_length [OF es] assms(2,3) by (simp_all add: prolog_num_xfrs_def Let_def)
  then have "put_entries es 0 (the (xfrs_xfrs (gw_xfr_init junk (prolog_num_xfrs True job)
      (jt_number_of_retries (job_template job))))) = None"
    by (intro put_entries_short) (simp_all add: gw_xfr_init_def)
  with es show ?thesis
    by (simp add: gw_dm_prolog_set_files_def gw_xfr_destroy_ok [OF assms(4)] Let_def gw_xfr_init_def)
qed

section \<open>An example\<close>

definition example_template :: gw_template where
  "example_template =
    \<lparr> ct_job_home = ''/home/tigre'', ct_user_home = ''/home/tigre'', ct_executable = ''file:///bin/ls'',
      ct_pre_wrapper = [], ct_input_files = [(''in.1'', [])], ct_output_files = [(''out.1'', ''out'')],
      ct_restart_files = [''ckpt''], ct_stdin_file = [], ct_stdout_file = ''stdout'',
      ct_stderr_file = ''stderr'', ct_requirements = [], ct_rank = [],
      ct_rescheduling_interval = 0, ct_rescheduling_threshold = 300, ct_checkpoint_interval = 0,
      ct_checkpoint_url = [], ct_suspension_timeout = 0, ct_reschedule_on_failure = True,
      ct_number_of_retries = 3, ct_wrapper = ''/opt/gw/libexec/gw_wrapper.sh'', ct_monitor = [],
      ct_job_deps = [- 1], ct_type = GW_JOB_TYPE_SINGLE, ct_np = 2, ct_deadline = 0 \<rparr>"

definition example_fresh_job :: gw_job where
  "example_fresh_job =
    \<lparr> job_owner = None, job_directory = [], job_user_id = 0, job_template = gw_job_template_zero,
      job_id = 0, job_array_id = 0, job_task_id = 0, job_total_tasks = 0, job_pstart = 0,
      job_pinc = 0, job_fixed_priority = 0, job_type_dep = 99, job_em_state = GW_EM_STATE_LIMIT,
      job_tm_state = GW_TM_STATE_LIMIT, job_job_state = GW_JOB_STATE_LIMIT, job_start_time = 0,
      job_exit_time = 0, job_next_poll_time = 0, job_last_rescheduling_time = 0,
      job_last_checkpoint_time = 0, job_exit_code = 0, job_restarted = 0, job_client_waiting = 0,
      job_xfrs = \<lparr>xfrs_number = 7, xfrs_failure_limit = 0, xfrs_xfrs = None\<rparr>,
      job_chk_xfrs = \<lparr>xfrs_number = 7, xfrs_failure_limit = 0, xfrs_xfrs = None\<rparr>,
      job_history = [], job_reschedule = False \<rparr>"

text \<open>A job of this template, on the example host for the second time.\<close>

definition example_job :: gw_job where
  "example_job = (gw_job_init example_conf 1000 example_fresh_job 0)
     \<lparr>job_template := gw_job_template_init example_template, job_owner := Some ''tigre'',
      job_user_id := 0, job_restarted := 1, job_history := [example_record, example_record]\<rparr>"

lemma example_job_ok:
  "xfrs_ok (job_xfrs example_job)"
  "list_all (\<lambda>f. fst f \<noteq> None) (jt_input_files (job_template example_job))"
  "list_all (\<lambda>f. fst f \<noteq> None) (jt_output_files (job_template example_job))"
  "list_all (\<lambda>f. f \<noteq> None) (jt_restart_files (job_template example_job))"
  "jt_wrapper (job_template example_job) \<noteq> None" "length (job_history example_job) = 2"
  "job_restarted example_job = 1"
  by (simp_all add: example_job_def gw_job_init_def xfrs_ok_def gw_job_template_init_def
      example_template_def gw_job_template_set_str_def)

theorem epilog_transfers_exact_witness:
  "\<exists>x out. final_epilog_xfrs (CHR ''?'') example_job = Some (example_job\<lparr>job_xfrs := x\<rparr>)
     \<and> xfrs_hold x (out @ gw_dm_epilog_std_files example_job)"
  using epilog_transfers_exact [OF example_job_ok(1,3,4), of "CHR ''?''"] by blast

theorem prolog_transfers_exact_witness:
  "\<exists>x es rs. gw_dm_prolog_set_files (CHR ''?'') True example_job = Some (example_job\<lparr>job_xfrs := x\<rparr>)
     \<and> xfrs_hold x (es @ rs)"
  using prolog_transfers_exact [OF example_job_ok(1,2), of True "CHR ''?''"] example_job_ok(5,6)
  by auto

theorem prolog_transfers_overflow_witness:
  "gw_dm_prolog_set_files (CHR ''?'') True
     (gw_job_init example_conf 1000 example_fresh_job 0) = None"
  by (rule prolog_transfers_overflow)
    (simp_all add: gw_job_init_def xfrs_ok_def gw_job_template_zero_def)

end
