(* ===== verification/Gw_Array.thy ===== *)
theory Gw_Array
  imports Gw_Pools
begin

text \<open>
  Array jobs: \<open>src/array/gw_array.c\<close> and the part of \<open>src/array/gw_array_pool.c\<close>
  that touches only the array pool (init, free, get, the number of tasks).
  The allocation of an array allocates jobs and is in \<open>Gw_Job_Pool\<close>.
  \<open>malloc\<close> succeeds.
\<close>

record gw_array =
  arr_array_id :: int
  arr_last_task_id :: int
  arr_number_of_tasks :: int
  arr_freed_tasks :: int
  arr_job_ids :: "int list"

definition gw_array_init :: "int \<Rightarrow> int \<Rightarrow> gw_array" where
  "gw_array_init number_of_tasks array_id =
     \<lparr> arr_array_id = array_id, arr_last_task_id = - 1, arr_number_of_tasks = number_of_tasks,
       arr_freed_tasks = 0, arr_job_ids = replicate (nat number_of_tasks) (- 1) \<rparr>"

definition gw_array_add_task :: "gw_array \<Rightarrow> int \<Rightarrow> (int \<times> gw_array) option" where
  "gw_array_add_task array jid =
     (let task_id = arr_last_task_id array in
      if task_id \<ge> arr_number_of_tasks array then Some (- 1, array)
      else do {
        let task_id = task_id + 1;
        ids \<leftarrow> wr (arr_job_ids array) task_id jid;
        Some (task_id, array\<lparr>arr_job_ids := ids, arr_last_task_id := task_id\<rparr>)
      })"

definition gw_array_del_task :: "gw_array \<Rightarrow> int \<Rightarrow> (int \<times> gw_array) option" where
  "gw_array_del_task array task_id = do {
     array' \<leftarrow>
       (if 0 \<le> task_id \<and> task_id < arr_number_of_tasks array then do {
          jid \<leftarrow> rd (arr_job_ids array) task_id;
          (if jid \<noteq> - 1 then do {
             ids \<leftarrow> wr (arr_job_ids array) task_id (- 1);
             Some (array\<lparr>arr_job_ids := ids, arr_freed_tasks := arr_freed_tasks array + 1\<rparr>)
           } else Some array)
        } else Some array);
     Some (arr_number_of_tasks array' - arr_freed_tasks array', array')
   }"

section \<open>The array pool\<close>

definition gw_array_pool_init :: "gw_conf \<Rightarrow> gw_array gw_pool" where
  "gw_array_pool_init conf = pool_init (conf_number_of_arrays conf)"

text \<open>The bound of the getters is the configured size of the pool, its allocation.\<close>

definition gw_array_pool_get_array :: "gw_array gw_pool \<Rightarrow> int \<Rightarrow> gw_array option" where
  "gw_array_pool_get_array p array_id = pool_get p array_id"

definition gw_array_pool_get_number_tasks :: "gw_array gw_pool \<Rightarrow> int \<Rightarrow> int" where
  "gw_array_pool_get_number_tasks p array_id =
     (case pool_get p array_id of None \<Rightarrow> 1 | Some a \<Rightarrow> arr_number_of_tasks a)"

definition gw_array_pool_get_num_arrays :: "gw_array gw_pool \<Rightarrow> int" where
  "gw_array_pool_get_num_arrays p = pool_number p"

definition gw_array_pool_array_free :: "gw_array gw_pool \<Rightarrow> int \<Rightarrow> gw_array gw_pool" where
  "gw_array_pool_array_free p array_id =
     (case pool_get p array_id of
        None \<Rightarrow> p
      | Some _ \<Rightarrow> (pool_store p array_id None)\<lparr>pool_number := pool_number p - 1\<rparr>)"

text \<open>The loop of \<open>gw_array_pool_finalize\<close>, entry by entry; the pool is then freed.\<close>

fun gw_array_pool_finalize_from :: "gw_array gw_pool \<Rightarrow> nat \<Rightarrow> nat \<Rightarrow> gw_array gw_pool" where
  "gw_array_pool_finalize_from p i 0 = p"
| "gw_array_pool_finalize_from p i (Suc k) =
     gw_array_pool_finalize_from
       (case pool_get p (int i) of
          None \<Rightarrow> p
        | Some _ \<Rightarrow> (pool_store p (int i) None)\<lparr>pool_number := pool_number p - 1\<rparr>) (Suc i) k"

definition gw_array_pool_finalize :: "gw_array gw_pool \<Rightarrow> gw_array gw_pool" where
  "gw_array_pool_finalize p = gw_array_pool_finalize_from p 0 (nat (pool_size p))"

section \<open>Filling an array\<close>

fun gw_array_add_tasks :: "gw_array \<Rightarrow> int list \<Rightarrow> (int list \<times> gw_array) option" where
  "gw_array_add_tasks array [] = Some ([], array)"
| "gw_array_add_tasks array (jid # jids) = do {
     (tid, array') \<leftarrow> gw_array_add_task array jid;
     (tids, array'') \<leftarrow> gw_array_add_tasks array' jids;
     Some (tid # tids, array'')
   }"

text \<open>An array of \<open>n\<close> tasks into which the jobs \<open>js\<close> have gone.\<close>

definition array_filled :: "gw_array \<Rightarrow> int list \<Rightarrow> bool" where
  "array_filled a js \<longleftrightarrow>
     length js \<le> nat (arr_number_of_tasks a) \<and> 0 \<le> arr_number_of_tasks a
   \<and> arr_last_task_id a = int (length js) - 1 \<and> arr_freed_tasks a = 0
   \<and> arr_job_ids a = js @ replicate (nat (arr_number_of_tasks a) - length js) (- 1)"

lemma array_filled_init: "0 \<le> n \<Longrightarrow> array_filled (gw_array_init n aid) []"
  by (simp add: array_filled_def gw_array_init_def)

lemma gw_array_add_task_filled:
  assumes "array_filled a js" and "int (length js) < arr_number_of_tasks a"
  shows "\<exists>a'. gw_array_add_task a jid = Some (int (length js), a') \<and> array_filled a' (js @ [jid])
    \<and> arr_number_of_tasks a' = arr_number_of_tasks a \<and> arr_array_id a' = arr_array_id a"
proof -
  have "0 < nat (arr_number_of_tasks a) - length js" using assms(2) by linarith
  then obtain k where k: "nat (arr_number_of_tasks a) - length js = Suc k"
    using gr0_implies_Suc by blast
  have eq: "arr_last_task_id a = int (length js) - 1"
    using assms(1) by (simp only: array_filled_def)
  with assms(2) have last: "arr_last_task_id a + 1 = int (length js)"
    "\<not> arr_last_task_id a \<ge> arr_number_of_tasks a"
    by linarith+
  have ids: "wr (arr_job_ids a) (int (length js)) jid = Some (js @ jid # replicate k (- 1))"
    using assms(1) k by (simp add: array_filled_def wr_def)
  let ?a = "a\<lparr>arr_job_ids := js @ jid # replicate k (- 1), arr_last_task_id := int (length js)\<rparr>"
  have "gw_array_add_task a jid = Some (int (length js), ?a)"
    using last ids by (simp add: gw_array_add_task_def Let_def)
  moreover from k have "k = nat (arr_number_of_tasks a) - Suc (length js)" by simp
  with assms have "array_filled ?a (js @ [jid])" by (simp add: array_filled_def)
  ultimately show ?thesis by auto
qed

lemma gw_array_add_tasks_filled:
  "array_filled a ks \<Longrightarrow> int (length ks + length js) \<le> arr_number_of_tasks a \<Longrightarrow>
   \<exists>a'. gw_array_add_tasks a js = Some (map int [length ks ..< length ks + length js], a')
      \<and> array_filled a' (ks @ js) \<and> arr_number_of_tasks a' = arr_number_of_tasks a"
proof (induction js arbitrary: a ks)
  case (Cons j js)
  then obtain a' where a': "gw_array_add_task a j = Some (int (length ks), a')"
      "array_filled a' (ks @ [j])" "arr_number_of_tasks a' = arr_number_of_tasks a"
    using gw_array_add_task_filled [of a ks j] by auto
  with Cons.IH [of a' "ks @ [j]"] Cons.prems(2) obtain a'' where
    "gw_array_add_tasks a' js = Some (map int [Suc (length ks) ..< Suc (length ks + length js)], a'')"
    "array_filled a'' (ks @ j # js)" "arr_number_of_tasks a'' = arr_number_of_tasks a"
    by (auto simp del: upt_Suc)
  with a' show ?case by (simp add: upt_conv_Cons del: upt_Suc)
qed simp

text \<open>An array initialised for as many tasks as there are jobs takes
  them all, numbers the tasks 0, 1, ... in order and remembers the jobs in that order.\<close>

theorem gw_array_fill:
  "\<exists>a. gw_array_add_tasks (gw_array_init (int (length jids)) aid) jids =
         Some (map int [0 ..< length jids], a)
     \<and> arr_job_ids a = jids \<and> arr_last_task_id a = int (length jids) - 1
     \<and> arr_freed_tasks a = 0"
proof -
  have "array_filled (gw_array_init (int (length jids)) aid) []" by (simp add: array_filled_init)
  from gw_array_add_tasks_filled [OF this, of jids] show ?thesis
    by (auto simp: array_filled_def gw_array_init_def)
qed

text \<open>The guard of \<open>gw_array_add_task\<close> compares the last task, not the next:
  one task more than the array was made for is written past the end of \<open>job_ids\<close>.\<close>

theorem gw_array_add_task_overflow:
  assumes "gw_array_add_tasks (gw_array_init (int (length jids)) aid) jids = Some (tids, a)"
  shows "gw_array_add_task a jid = None"
proof -
  have "array_filled (gw_array_init (int (length jids)) aid) []" by (simp add: array_filled_init)
  from gw_array_add_tasks_filled [OF this, of jids] assms
  have "array_filled a jids" "arr_number_of_tasks a = int (length jids)"
    by (auto simp: gw_array_init_def)
  then show ?thesis
    by (simp add: gw_array_add_task_def array_filled_def Let_def bind_None_iff)
qed

theorem gw_array_add_task_overflow_witness:
  "gw_array_add_task \<lparr> arr_array_id = 3, arr_last_task_id = 1, arr_number_of_tasks = 2,
     arr_freed_tasks = 0, arr_job_ids = [7, 8] \<rparr> 9 = None"
  by (rule gw_array_add_task_overflow [of "[7, 8]" 3 "[0, 1]"])
    (simp add: gw_array_init_def gw_array_add_task_def wr_def Let_def numeral_2_eq_2)

section \<open>Deleting tasks\<close>

fun gw_array_del_tasks :: "gw_array \<Rightarrow> int list \<Rightarrow> (int \<times> gw_array) option" where
  "gw_array_del_tasks array [] =
     Some (arr_number_of_tasks array - arr_freed_tasks array, array)"
| "gw_array_del_tasks array (t # ts) = do {
     (r, array') \<leftarrow> gw_array_del_task array t;
     gw_array_del_tasks array' ts
   }"

text \<open>\<open>array_live a S\<close>: the tasks in \<open>S\<close> have been deleted from a full array.\<close>

definition array_live :: "gw_array \<Rightarrow> int set \<Rightarrow> bool" where
  "array_live a S \<longleftrightarrow>
     arr_number_of_tasks a = int (length (arr_job_ids a))
   \<and> S \<subseteq> {0 ..< arr_number_of_tasks a}
   \<and> arr_freed_tasks a = int (card S)
   \<and> (\<forall>i < length (arr_job_ids a). arr_job_ids a ! i = - 1 \<longleftrightarrow> int i \<in> S)"

lemma array_live_delete:
  assumes "array_live a S" and "t < length (arr_job_ids a)" and "int t \<notin> S"
  shows "array_live (a\<lparr>arr_job_ids := (arr_job_ids a)[t := - 1],
           arr_freed_tasks := arr_freed_tasks a + 1\<rparr>) (insert (int t) S)"
proof -
  have "finite S" using assms(1) unfolding array_live_def by (meson finite_atLeastLessThan_int finite_subset)
  with assms show ?thesis by (auto simp: array_live_def nth_list_update)
qed

lemma gw_array_del_task_live:
  assumes "array_live a S"
  shows "\<exists>a' r. gw_array_del_task a t = Some (r, a')
    \<and> array_live a' (S \<union> ({t} \<inter> {0 ..< arr_number_of_tasks a}))
    \<and> arr_number_of_tasks a' = arr_number_of_tasks a"
proof (cases "0 \<le> t \<and> t < arr_number_of_tasks a")
  case False
  then have "gw_array_del_task a t = Some (arr_number_of_tasks a - arr_freed_tasks a, a)"
    by (auto simp: gw_array_del_task_def)
  moreover from False have "{t} \<inter> {0 ..< arr_number_of_tasks a} = {}" by auto
  ultimately show ?thesis using assms by simp
next
  case True
  then obtain n where n: "t = int n" by (cases t) auto
  have len: "n < length (arr_job_ids a)" using assms True n by (simp add: array_live_def)
  have tS: "{t} \<inter> {0 ..< arr_number_of_tasks a} = {int n}" using True n by auto
  have iff: "arr_job_ids a ! n = - 1 \<longleftrightarrow> int n \<in> S" using assms len by (simp add: array_live_def)
  show ?thesis
  proof (cases "int n \<in> S")
    case gone: True
    then have "gw_array_del_task a t = Some (arr_number_of_tasks a - arr_freed_tasks a, a)"
      using True n len iff by (simp add: gw_array_del_task_def)
    with gone tS assms show ?thesis by (simp add: insert_absorb)
  next
    case False
    let ?a = "a\<lparr>arr_job_ids := (arr_job_ids a)[n := - 1], arr_freed_tasks := arr_freed_tasks a + 1\<rparr>"
    have "gw_array_del_task a t = Some (arr_number_of_tasks a - (arr_freed_tasks a + 1), ?a)"
      using True n len iff False by (simp add: gw_array_del_task_def wr_def)
    moreover have "array_live ?a (S \<union> ({t} \<inter> {0 ..< arr_number_of_tasks a}))"
      using array_live_delete [OF assms len False] tS by simp
    moreover have "arr_number_of_tasks ?a = arr_number_of_tasks a" by simp
    ultimately show ?thesis by blast
  qed
qed

lemma gw_array_del_tasks_live:
  "array_live a S \<Longrightarrow>
   \<exists>a'. gw_array_del_tasks a ts =
       Some (arr_number_of_tasks a - int (card (S \<union> (set ts \<inter> {0 ..< arr_number_of_tasks a}))), a')
     \<and> array_live a' (S \<union> (set ts \<inter> {0 ..< arr_number_of_tasks a}))"
proof (induction ts arbitrary: a S)
  case Nil
  then show ?case by (auto simp: array_live_def)
next
  case (Cons t ts)
  let ?N = "{0 ..< arr_number_of_tasks a}"
  obtain a' r where a': "gw_array_del_task a t = Some (r, a')"
      "array_live a' (S \<union> ({t} \<inter> ?N))" "arr_number_of_tasks a' = arr_number_of_tasks a"
    using gw_array_del_task_live [OF Cons.prems, of t] by blast
  have "S \<union> ({t} \<inter> ?N) \<union> (set ts \<inter> ?N) = S \<union> (set (t # ts) \<inter> ?N)" by auto
  with Cons.IH [OF a'(2)] a'(1,3) show ?case by simp
qed

text \<open>Deleting tasks from a full array, in any order, with repetitions
  and with task numbers out of range, leaves exactly the tasks not named: the count
  that \<open>gw_array_del_task\<close> returns is zero once every task has been deleted.\<close>

theorem gw_array_del_tasks_remaining:
  assumes "- 1 \<notin> set jids"
    and "gw_array_add_tasks (gw_array_init (int (length jids)) aid) jids = Some (tids, a)"
  shows "\<exists>a'. gw_array_del_tasks a ts =
      Some (int (card ({0 ..< int (length jids)} - set ts)), a')"
proof -
  let ?N = "{0 ..< int (length jids)}"
  have "array_filled (gw_array_init (int (length jids)) aid) []" by (simp add: array_filled_init)
  from gw_array_add_tasks_filled [OF this, of jids] assms(2)
  have a: "array_filled a jids" "arr_number_of_tasks a = int (length jids)"
    by (auto simp: gw_array_init_def)
  with assms(1) have live: "array_live a {}"
    by (auto simp: array_filled_def array_live_def) (metis nth_mem)
  have "int (card (?N - set ts)) = int (card ?N) - int (card (set ts \<inter> ?N))"
    using card_Diff_subset_Int [of ?N "set ts"] card_mono [of ?N "set ts \<inter> ?N"]
    by (simp add: Int_commute of_nat_diff)
  with gw_array_del_tasks_live [OF live, of ts] a(2) show ?thesis by auto
qed

theorem gw_array_del_tasks_remaining_witness:
  "\<exists>a'. gw_array_del_tasks \<lparr> arr_array_id = 0, arr_last_task_id = 2, arr_number_of_tasks = 3,
       arr_freed_tasks = 0, arr_job_ids = [5, 6, 7] \<rparr> [1, 1, 9] =
     Some (int (card ({0 ..< int (length [5::int, 6, 7])} - set [1, 1, 9])), a')"
  by (rule gw_array_del_tasks_remaining [of "[5, 6, 7]" 0 "[0, 1, 2]"])
    (simp_all add: gw_array_init_def gw_array_add_task_def wr_def Let_def numeral_3_eq_3
      numeral_2_eq_2)

end
