(* ===== verification/Gw_World.thy ===== *)
theory Gw_World
  imports Gw_Xfr Gw_Array
begin

text \<open>
  The state of the daemon that the dispatch manager's handlers work on, and the
  primitive operations they are made of.  A handler runs with its job locked, so it is
  one function on the state; \<open>time(NULL)\<close> is the field \<open>w_now\<close>, constant within a
  handler.  What comes from outside is a field as well: whether a file opens or a
  command succeeds, what a file parses to, the garbage of \<open>malloc\<close>, the substitution
  of job variables (a generated parser), the text of a job description, the random
  number generator.

  The queues are those of the action managers (\<open>Gw_Table\<close> shows that a manager is
  one): names with their arguments, oldest first, where the
  argument is the job's identifier, or NULL.
\<close>

section \<open>State\<close>

type_synonym action_queue = "(string \<times> int option) list"

text \<open>The lines the execution and transfer managers write to their drivers (MADs).\<close>

datatype em_msg =
    EM_SUBMIT int string string
  | EM_RECOVER int string
  | EM_CANCEL int
  | EM_POLL int

datatype tm_msg =
    TM_START int
  | TM_END int
  | TM_RMDIR int string
  | TM_MKDIR int string
  | TM_CP int int char string string

record gwd =
  w_conf :: gw_conf
  w_now :: int
  w_jobs :: "gw_job gw_pool"
  w_deps :: "int list option list"
  w_hosts :: "gw_host gw_pool"
  w_users :: "gw_user gw_pool"
  w_arrays :: "gw_array gw_pool"
  w_scheduling :: bool
  w_dm :: action_queue
  w_em :: action_queue
  w_tm :: action_queue
  w_rm :: action_queue
  w_submit :: "gw_msg_submit list"
  w_sch :: "sch_msg list"
  w_em_mad :: "(string \<times> em_msg) list"
  w_tm_mad :: "(string \<times> tm_msg) list"
  w_state_file :: "int \<Rightarrow> (int \<times> string) list"
  w_history_file :: "int \<Rightarrow> string list list"
  w_conf_file :: "int \<Rightarrow> bool"
  w_contact_file :: "int \<Rightarrow> string option"
  w_seg :: "(int \<times> int \<times> int \<times> int) list"
  w_opens :: "string \<Rightarrow> bool"
  w_seg_opens :: bool
  w_runs :: "string \<Rightarrow> bool"
  w_parse :: "string \<Rightarrow> string \<Rightarrow> int \<times> string option"
  w_starts :: "string \<Rightarrow> bool"
  w_subst :: "string \<Rightarrow> gw_job \<Rightarrow> string option"
  w_rsl :: "bool \<Rightarrow> gw_job \<Rightarrow> string option"
  w_rand :: "int \<Rightarrow> int"
  w_fresh_job :: gw_job
  w_fresh_record :: gw_history
  w_junk :: char

section \<open>Queues and messages\<close>

definition trigger_dm :: "string \<Rightarrow> int option \<Rightarrow> gwd \<Rightarrow> gwd" where
  "trigger_dm action arg w = w\<lparr>w_dm := w_dm w @ [(action, arg)]\<rparr>"

definition trigger_em :: "string \<Rightarrow> int option \<Rightarrow> gwd \<Rightarrow> gwd" where
  "trigger_em action arg w = w\<lparr>w_em := w_em w @ [(action, arg)]\<rparr>"

definition trigger_tm :: "string \<Rightarrow> int option \<Rightarrow> gwd \<Rightarrow> gwd" where
  "trigger_tm action arg w = w\<lparr>w_tm := w_tm w @ [(action, arg)]\<rparr>"

definition trigger_rm :: "string \<Rightarrow> int option \<Rightarrow> gwd \<Rightarrow> gwd" where
  "trigger_rm action arg w = w\<lparr>w_rm := w_rm w @ [(action, arg)]\<rparr>"

text \<open>\<open>msg.rc = rc; gw_am_trigger(gw_dm.rm_am, "GW_RM_SUBMIT", &msg)\<close>: the queue and the message.\<close>

definition submit_reply :: "gw_return_code \<Rightarrow> gw_msg_submit \<Rightarrow> gwd \<Rightarrow> gwd" where
  "submit_reply rc msg w =
     (trigger_rm ''GW_RM_SUBMIT'' None w)\<lparr>w_submit := w_submit w @ [msg\<lparr>msg_rc := rc\<rparr>]\<rparr>"

definition send_sch :: "sch_msg list \<Rightarrow> gwd \<Rightarrow> gwd" where
  "send_sch ms w = w\<lparr>w_sch := w_sch w @ ms\<rparr>"

section \<open>Jobs\<close>

definition gw_job_pool_get :: "gwd \<Rightarrow> int \<Rightarrow> gw_job option" where
  "gw_job_pool_get w jid = pool_get (w_jobs w) jid"

definition put_job :: "int \<Rightarrow> gw_job \<Rightarrow> gwd \<Rightarrow> gwd" where
  "put_job jid job w = w\<lparr>w_jobs := pool_store (w_jobs w) jid (Some job)\<rparr>"

definition upd_job :: "int \<Rightarrow> (gw_job \<Rightarrow> gw_job) \<Rightarrow> gwd \<Rightarrow> gwd option" where
  "upd_job jid f w = do { job \<leftarrow> gw_job_pool_get w jid; Some (put_job jid (f job) w) }"

text \<open>The job record's \<open>k\<close>-th history record, 0 for \<open>job->history\<close>; NULL when there is none.\<close>

definition hist_at :: "nat \<Rightarrow> gw_job \<Rightarrow> gw_history option" where
  "hist_at k job = (if k < length (job_history job) then Some (job_history job ! k) else None)"

definition upd_hist :: "nat \<Rightarrow> int \<Rightarrow> (gw_history \<Rightarrow> gw_history) \<Rightarrow> gwd \<Rightarrow> gwd option" where
  "upd_hist k jid f w = do {
     job \<leftarrow> gw_job_pool_get w jid;
     r \<leftarrow> hist_at k job;
     Some (put_job jid (job\<lparr>job_history := (job_history job)[k := f r]\<rparr>) w)
   }"

text \<open>\<open>job->history->stats[s] = time(NULL)\<close>, or with \<open>->next\<close>.\<close>

definition stamp :: "nat \<Rightarrow> gw_stat \<Rightarrow> int \<Rightarrow> gwd \<Rightarrow> gwd option" where
  "stamp k s jid w = upd_hist k jid (\<lambda>r. r\<lparr>hist_stats := (hist_stats r)(s := w_now w)\<rparr>) w"

definition set_reason :: "gw_migration_reason \<Rightarrow> int \<Rightarrow> gwd \<Rightarrow> gwd option" where
  "set_reason reason jid w = upd_hist 0 jid (\<lambda>r. r\<lparr>hist_reason := reason\<rparr>) w"

text \<open>
  \<open>gw_job_set_state\<close> with \<open>recover\<close> false: the state changes first; the line of the
  state file and the line for the SEG follow as far as the files open.
\<close>

definition gw_job_set_state :: "gw_job_state \<Rightarrow> int \<Rightarrow> gwd \<Rightarrow> gwd option" where
  "gw_job_set_state state jid w = do {
     job \<leftarrow> gw_job_pool_get w jid;
     let w = put_job jid (job\<lparr>job_job_state := state\<rparr>) w;
     if \<not> w_opens w (job_directory job @ ''/job.state'') then Some w
     else do {
       let w = w\<lparr>w_state_file := (w_state_file w)(job_id job :=
                 w_state_file w (job_id job) @ [(w_now w, gw_job_get_state_name state)])\<rparr>;
       if \<not> w_seg_opens w then Some w
       else Some (w\<lparr>w_seg := w_seg w @ [(w_now w, job_id job,
              gram_state_code (gw_job_get_gram_state state), job_exit_code job)]\<rparr>)
     }
   }"

text \<open>The prefix of most handlers: get the job; what happens to an unknown job differs.\<close>

definition with_job ::
    "int option \<Rightarrow> gwd \<Rightarrow> gwd option \<Rightarrow> (int \<Rightarrow> gwd option) \<Rightarrow> gwd option" where
  "with_job arg w unknown body =
     (case arg of
        None \<Rightarrow> Some w
      | Some jid \<Rightarrow> (case gw_job_pool_get w jid of None \<Rightarrow> unknown | Some _ \<Rightarrow> body jid))"

section \<open>Hosts and users\<close>

text \<open>An operation on the host of the job's \<open>k\<close>-th record, and its message.\<close>

definition on_host :: "int \<Rightarrow> (gw_host \<Rightarrow> gw_host \<times> sch_msg list) \<Rightarrow> gwd \<Rightarrow> gwd option" where
  "on_host hid f w = do {
     h \<leftarrow> pool_get (w_hosts w) hid;
     let (h', ms) = f h;
     Some (send_sch ms (w\<lparr>w_hosts := pool_store (w_hosts w) hid (Some h')\<rparr>))
   }"

definition on_hist_host ::
    "nat \<Rightarrow> int \<Rightarrow> (gw_host \<Rightarrow> gw_job \<Rightarrow> gw_host \<times> sch_msg list) \<Rightarrow> gwd \<Rightarrow> gwd option" where
  "on_hist_host k jid f w = do {
     job \<leftarrow> gw_job_pool_get w jid;
     r \<leftarrow> hist_at k job;
     on_host (hist_host r) (\<lambda>h. f h job) w
   }"

text \<open>The queue of the \<open>q\<close>-th record, which the caller passes with the host's operation.\<close>

definition hist_queue_at :: "nat \<Rightarrow> gw_job \<Rightarrow> string option" where
  "hist_queue_at q job = (case hist_at q job of None \<Rightarrow> None | Some r \<Rightarrow> hist_queue r)"

definition dec_rjobs :: "nat \<Rightarrow> nat \<Rightarrow> int \<Rightarrow> gwd \<Rightarrow> gwd option" where
  "dec_rjobs k q jid w =
     on_hist_host k jid (\<lambda>h job. gw_host_dec_rjobs h (hist_queue_at q job)) w"

definition dec_uslots :: "nat \<Rightarrow> nat \<Rightarrow> int \<Rightarrow> gwd \<Rightarrow> gwd option" where
  "dec_uslots k q jid w =
     on_hist_host k jid (\<lambda>h job. gw_host_dec_uslots h (jt_np (job_template job)) (hist_queue_at q job)) w"

definition dec_slots :: "nat \<Rightarrow> nat \<Rightarrow> int \<Rightarrow> gwd \<Rightarrow> gwd option" where
  "dec_slots k q jid w =
     on_hist_host k jid (\<lambda>h job. gw_host_dec_slots h (jt_np (job_template job)) (hist_queue_at q job)) w"

definition dec_ajobs :: "nat \<Rightarrow> nat \<Rightarrow> int \<Rightarrow> gwd \<Rightarrow> gwd option" where
  "dec_ajobs k q jid w =
     on_hist_host k jid (\<lambda>h job. (gw_host_dec_ajobs_nb h (hist_queue_at q job), [])) w"

definition on_users :: "(gw_user gw_pool \<Rightarrow> gw_user gw_pool \<times> sch_msg list) \<Rightarrow> gwd \<Rightarrow> gwd" where
  "on_users f w = (let (p, ms) = f (w_users w) in send_sch ms (w\<lparr>w_users := p\<rparr>))"

text \<open>\<open>gw_user_pool_dec_running_jobs(job->user_id)\<close>.\<close>

definition user_dec_running :: "int \<Rightarrow> gwd \<Rightarrow> gwd option" where
  "user_dec_running jid w = do {
     job \<leftarrow> gw_job_pool_get w jid;
     Some (on_users (\<lambda>p. gw_user_pool_dec_running_jobs p (job_user_id job)) w)
   }"

text \<open>\<open>gw_dm_mad_job_schedule\<close> and \<open>gw_dm_mad_job_failed\<close> of a job.\<close>

definition sch_schedule :: "gw_migration_reason \<Rightarrow> int \<Rightarrow> gwd \<Rightarrow> gwd option" where
  "sch_schedule reason jid w = do {
     job \<leftarrow> gw_job_pool_get w jid;
     Some (send_sch [JOB_SCHEDULE (job_id job) (job_array_id job) (job_user_id job) reason] w)
   }"

definition sch_failed :: "gw_migration_reason \<Rightarrow> int \<Rightarrow> gwd \<Rightarrow> gwd option" where
  "sch_failed reason jid w = do {
     job \<leftarrow> gw_job_pool_get w jid;
     r \<leftarrow> hist_at 0 job;
     h \<leftarrow> pool_get (w_hosts w) (hist_host r);
     Some (send_sch [JOB_FAILED (host_host_id h) (job_user_id job) reason] w)
   }"

definition sch_del :: "int \<Rightarrow> gwd \<Rightarrow> gwd option" where
  "sch_del jid w = do {
     job \<leftarrow> gw_job_pool_get w jid;
     Some (send_sch [JOB_DEL (job_id job)] w)
   }"

text \<open>
  \<open>gw_job_environment\<close> of \<open>src/job/gw_job_environment.c\<close>, as far as the handlers see
  it: -1 when the environment file does not open; otherwise it reads the newest
  record and its host and returns 0.
\<close>

definition gw_job_environment :: "int \<Rightarrow> gwd \<Rightarrow> int option" where
  "gw_job_environment jid w = do {
     job \<leftarrow> gw_job_pool_get w jid;
     if \<not> w_opens w (job_directory job @ ''/job.env'') then Some (- 1)
     else do {
       r \<leftarrow> hist_at 0 job;
       _ \<leftarrow> pool_get (w_hosts w) (hist_host r);
       Some 0
     }
   }"

text \<open>\<open>if (job->reschedule == GW_TRUE) { job->reschedule = GW_FALSE; gw_dm_mad_job_del(...) }\<close>\<close>

definition unschedule :: "int \<Rightarrow> gwd \<Rightarrow> gwd option" where
  "unschedule jid w = do {
     job \<leftarrow> gw_job_pool_get w jid;
     if job_reschedule job then do {
       w \<leftarrow> upd_job jid (\<lambda>j. j\<lparr>job_reschedule := False\<rparr>) w;
       sch_del jid w
     } else Some w
   }"

text \<open>A function that builds the transfers of a job.\<close>

definition set_xfrs :: "(gw_job \<Rightarrow> gw_job option) \<Rightarrow> int \<Rightarrow> gwd \<Rightarrow> gwd option" where
  "set_xfrs f jid w = do {
     job \<leftarrow> gw_job_pool_get w jid;
     job \<leftarrow> f job;
     Some (put_job jid job w)
   }"

section \<open>Normal forms\<close>

text \<open>What each primitive does to the state, for the proofs about handlers.\<close>

lemma get_put_job [simp]:
  "gw_job_pool_get w jid = Some j \<Longrightarrow>
     gw_job_pool_get (put_job jid job w) k = (if k = jid then Some job else gw_job_pool_get w k)"
  by (simp add: gw_job_pool_get_def put_job_def)

lemma gw_job_set_state_form:
  assumes "gw_job_set_state state jid w = Some w'"
  shows "\<exists>job sf seg. gw_job_pool_get w jid = Some job \<and>
    w' = (put_job jid (job\<lparr>job_job_state := state\<rparr>) w)\<lparr>w_state_file := sf, w_seg := seg\<rparr>"
proof -
  from assms obtain job where job: "gw_job_pool_get w jid = Some job"
    by (auto simp: gw_job_set_state_def bind_Some_iff)
  have "\<exists>sf seg. w' = (put_job jid (job\<lparr>job_job_state := state\<rparr>) w)\<lparr>w_state_file := sf, w_seg := seg\<rparr>"
    using assms job unfolding gw_job_set_state_def
    by (cases w) (auto simp: Let_def put_job_def split: if_splits)
  with job show ?thesis by blast
qed

lemma gw_job_set_state_total:
  "gw_job_pool_get w jid = Some job \<Longrightarrow> \<exists>w'. gw_job_set_state state jid w = Some w'"
  by (simp add: gw_job_set_state_def Let_def)

lemma get_fields [simp]:
  "gw_job_pool_get (w\<lparr>w_state_file := a\<rparr>) = gw_job_pool_get w"
  "gw_job_pool_get (w\<lparr>w_seg := b\<rparr>) = gw_job_pool_get w"
  "gw_job_pool_get (w\<lparr>w_deps := d\<rparr>) = gw_job_pool_get w"
  "gw_job_pool_get (w\<lparr>w_hosts := h\<rparr>) = gw_job_pool_get w"
  "gw_job_pool_get (w\<lparr>w_users := u\<rparr>) = gw_job_pool_get w"
  "gw_job_pool_get (w\<lparr>w_arrays := a'\<rparr>) = gw_job_pool_get w"
  "gw_job_pool_get (w\<lparr>w_dm := q\<rparr>) = gw_job_pool_get w"
  "gw_job_pool_get (w\<lparr>w_em := q\<rparr>) = gw_job_pool_get w"
  "gw_job_pool_get (w\<lparr>w_tm := q\<rparr>) = gw_job_pool_get w"
  "gw_job_pool_get (w\<lparr>w_rm := q\<rparr>) = gw_job_pool_get w"
  "gw_job_pool_get (w\<lparr>w_submit := su\<rparr>) = gw_job_pool_get w"
  "gw_job_pool_get (w\<lparr>w_sch := ms\<rparr>) = gw_job_pool_get w"
  "gw_job_pool_get (w\<lparr>w_em_mad := em\<rparr>) = gw_job_pool_get w"
  "gw_job_pool_get (w\<lparr>w_tm_mad := tm\<rparr>) = gw_job_pool_get w"
  "gw_job_pool_get (w\<lparr>w_history_file := hf\<rparr>) = gw_job_pool_get w"
  "gw_job_pool_get (w\<lparr>w_conf_file := cf\<rparr>) = gw_job_pool_get w"
  "gw_job_pool_get (w\<lparr>w_contact_file := ctf\<rparr>) = gw_job_pool_get w"
  "gw_job_pool_get (w\<lparr>w_scheduling := sc\<rparr>) = gw_job_pool_get w"
  by (simp_all add: gw_job_pool_get_def fun_eq_iff)

lemma trigger_fields [simp]:
  "gw_job_pool_get (trigger_dm a arg w) = gw_job_pool_get w"
  "gw_job_pool_get (trigger_em a arg w) = gw_job_pool_get w"
  "gw_job_pool_get (trigger_tm a arg w) = gw_job_pool_get w"
  "gw_job_pool_get (trigger_rm a arg w) = gw_job_pool_get w"
  "gw_job_pool_get (send_sch ms w) = gw_job_pool_get w"
  "gw_job_pool_get (on_users f w) = gw_job_pool_get w"
  by (simp_all add: trigger_dm_def trigger_em_def trigger_tm_def trigger_rm_def send_sch_def
      on_users_def Let_def split: prod.split)

lemma put_job_fields [simp]:
  "w_deps (put_job jid job w) = w_deps w" "w_conf (put_job jid job w) = w_conf w"
  "w_now (put_job jid job w) = w_now w" "w_hosts (put_job jid job w) = w_hosts w"
  "w_users (put_job jid job w) = w_users w" "w_arrays (put_job jid job w) = w_arrays w"
  "w_dm (put_job jid job w) = w_dm w" "w_em (put_job jid job w) = w_em w"
  "w_tm (put_job jid job w) = w_tm w" "w_rm (put_job jid job w) = w_rm w"
  "w_sch (put_job jid job w) = w_sch w"
  "pool_size (w_jobs (put_job jid job w)) = pool_size (w_jobs w)"
  by (simp_all add: put_job_def)

end
