(* ===== verification/Gw_Job_Pool.thy ===== *)
theory Gw_Job_Pool
  imports Gw_World
begin

text \<open>
  The job pool and the dependencies of jobs, \<open>src/job/gw_job_pool.c\<close>, and the
  allocation of an array of jobs, \<open>gw_array_pool_array_allocate\<close> of
  \<open>src/array/gw_array_pool.c\<close>.  Not modelled: the accounting record and the recovery
  of the execution drivers.
\<close>

section \<open>Dependencies\<close>

text \<open>A list of dependencies is an array ended by a negative number, -1 in the matrix.\<close>

fun dep_prefix :: "int list \<Rightarrow> int list option" where
  "dep_prefix [] = None"
| "dep_prefix (d # ds) = (if d > - 1 then map_option ((#) d) (dep_prefix ds) else Some [])"

definition gw_job_pool_dep_cp :: "int list option \<Rightarrow> int list option option" where
  "gw_job_pool_dep_cp src =
     (case src of
        None \<Rightarrow> Some None
      | Some ds \<Rightarrow> do {
          p \<leftarrow> dep_prefix ds;
          Some (if p = [] then None else Some (p @ [- 1]))
        })"

definition gw_job_pool_dep_set :: "int \<Rightarrow> int list \<Rightarrow> gwd \<Rightarrow> gwd option" where
  "gw_job_pool_dep_set jid deps w =
     (if 0 \<le> jid \<and> jid < conf_number_of_jobs (w_conf w) then do {
        d \<leftarrow> gw_job_pool_dep_cp (Some deps);
        ds \<leftarrow> wr (w_deps w) jid d;
        Some (w\<lparr>w_deps := ds\<rparr>)
      } else Some w)"

text \<open>Which exit code satisfies a dependency: any (-1), success (-2), failure (-3).\<close>

definition dep_satisfied :: "int \<Rightarrow> int \<Rightarrow> bool" where
  "dep_satisfied type_dep exit_code \<longleftrightarrow>
     type_dep = - 1 \<or> (type_dep = - 2 \<and> exit_code = 0) \<or> (type_dep = - 3 \<and> exit_code \<noteq> 0)"

text \<open>The inner loop of \<open>gw_job_pool_dep_check\<close>: the array, \<open>all_done\<close> and \<open>dep\<close>.\<close>

fun dep_scan :: "int \<Rightarrow> bool \<Rightarrow> int list \<Rightarrow> (int list \<times> bool \<times> bool) option" where
  "dep_scan jid ok [] = None"
| "dep_scan jid ok (d # ds) =
     (if d = - 1 then Some (d # ds, True, False)
      else do {
        (ds', all_done, dep) \<leftarrow> dep_scan jid ok ds;
        Some (if d = jid then (if ok then (- 4 # ds', all_done, True) else (d # ds', False, True))
              else if d \<noteq> - 4 then (d # ds', False, dep)
              else (d # ds', all_done, dep))
      })"

text \<open>One round of its outer loop.  The mutex of a NULL job is unlocked: a crash.\<close>

definition dep_check_one :: "int \<Rightarrow> int \<Rightarrow> int \<Rightarrow> gwd \<Rightarrow> gwd option" where
  "dep_check_one jid exit_code i w = do {
     e \<leftarrow> rd (w_deps w) i;
     (case e of
        None \<Rightarrow> Some w
      | Some ds \<Rightarrow> do {
          job \<leftarrow> gw_job_pool_get w i;
          if job_job_state job = GW_JOB_STATE_HOLD then do {
            (ds', all_done, dep) \<leftarrow> dep_scan jid (dep_satisfied (job_type_dep job) exit_code) ds;
            let w = w\<lparr>w_deps := (w_deps w)[nat i := Some ds']\<rparr>;
            if all_done \<and> dep then do {
              w \<leftarrow> gw_job_set_state GW_JOB_STATE_PENDING i w;
              sch_schedule GW_REASON_NONE i w
            } else Some w
          } else Some w
        })
   }"

fun dep_check_from :: "int \<Rightarrow> int \<Rightarrow> int \<Rightarrow> nat \<Rightarrow> gwd \<Rightarrow> gwd option" where
  "dep_check_from jid exit_code i 0 w = Some w"
| "dep_check_from jid exit_code i (Suc k) w = do {
     w' \<leftarrow> dep_check_one jid exit_code i w;
     dep_check_from jid exit_code (i + 1) k w'
   }"

definition gw_job_pool_dep_check :: "int \<Rightarrow> int \<Rightarrow> gwd \<Rightarrow> gwd option" where
  "gw_job_pool_dep_check jid exit_code w =
     dep_check_from jid exit_code 0 (nat (conf_number_of_jobs (w_conf w))) w"

text \<open>
  The recovery of the dependencies: a job that is gone no longer counts.  A job that
  depends on itself would lock its own mutex twice and not return.
\<close>

fun dep_rescan :: "gwd \<Rightarrow> int \<Rightarrow> int \<Rightarrow> int list \<Rightarrow> (int list \<times> bool \<times> bool) option" where
  "dep_rescan w i type_dep [] = None"
| "dep_rescan w i type_dep (d # ds) =
     (if d = - 1 then Some (d # ds, True, False)
      else if d = i then None
      else do {
        (ds', all_done, dep) \<leftarrow> dep_rescan w i type_dep ds;
        Some (case gw_job_pool_get w d of
            None \<Rightarrow> (- 4 # ds', all_done, dep)
          | Some j \<Rightarrow>
              if job_job_state j = GW_JOB_STATE_ZOMBIE \<and> dep_satisfied type_dep (job_exit_code j)
              then (- 4 # ds', all_done, True) else (d # ds', False, True))
      })"

definition dep_consistency_one :: "int \<Rightarrow> gwd \<Rightarrow> gwd option" where
  "dep_consistency_one i w = do {
     e \<leftarrow> rd (w_deps w) i;
     (case (e, gw_job_pool_get w i) of
        (Some ds, Some job) \<Rightarrow>
          if job_job_state job = GW_JOB_STATE_HOLD then do {
            (ds', all_done, dep) \<leftarrow> dep_rescan w i (job_type_dep job) ds;
            let w = w\<lparr>w_deps := (w_deps w)[nat i := Some ds']\<rparr>;
            if all_done \<and> dep then do {
              w \<leftarrow> gw_job_set_state GW_JOB_STATE_PENDING i w;
              sch_schedule GW_REASON_NONE i w
            } else Some w
          } else Some w
      | _ \<Rightarrow> Some w)
   }"

fun dep_consistency_from :: "int \<Rightarrow> nat \<Rightarrow> gwd \<Rightarrow> gwd option" where
  "dep_consistency_from i 0 w = Some w"
| "dep_consistency_from i (Suc k) w = do {
     w' \<leftarrow> dep_consistency_one i w;
     dep_consistency_from (i + 1) k w'
   }"

definition gw_job_pool_dep_consistency :: "gwd \<Rightarrow> gwd option" where
  "gw_job_pool_dep_consistency w =
     dep_consistency_from 0 (nat (conf_number_of_jobs (w_conf w))) w"

section \<open>The pool\<close>

definition gw_job_pool_init :: "gw_conf \<Rightarrow> gw_job gw_pool \<times> int list option list" where
  "gw_job_pool_init conf =
     (pool_init (conf_number_of_jobs conf), replicate (nat (conf_number_of_jobs conf)) None)"

definition gw_job_pool_allocate :: "gwd \<Rightarrow> (int \<times> gwd) option" where
  "gw_job_pool_allocate w =
     (let p = w_jobs w in do {
        found \<leftarrow> scan_free (\<lambda>i. i + 1) (pool_slots p) (pool_last_id p + 1)
                   (nat (conf_number_of_jobs (w_conf w)));
        (case found of
           None \<Rightarrow> Some (- 1, w)
         | Some jid \<Rightarrow>
             (let p = (pool_store p jid (Some (gw_job_init (w_conf w) (w_now w) (w_fresh_job w) jid)))
                        \<lparr>pool_last_id := jid, pool_number := pool_number p + 1\<rparr>
              in Some (jid, w\<lparr>w_jobs := p\<rparr>)))
      })"

definition gw_job_pool_allocate_by_id :: "int \<Rightarrow> gwd \<Rightarrow> int \<times> gwd" where
  "gw_job_pool_allocate_by_id jid w =
     (let p = w_jobs w in
      if jid < 0 \<or> jid \<ge> conf_number_of_jobs (w_conf w) then (- 1, w)
      else if pool_get p jid \<noteq> None then (- 1, w)
      else (jid, w\<lparr>w_jobs :=
              (pool_store p jid (Some (gw_job_init (w_conf w) (w_now w) (w_fresh_job w) jid)))
                \<lparr>pool_number := pool_number p + 1, pool_last_id := pool_last_id p + 1\<rparr>\<rparr>))"

text \<open>The bound of the index is the size of the pool and of the dependency matrix.\<close>

definition gw_job_pool_free :: "int \<Rightarrow> gwd \<Rightarrow> gwd" where
  "gw_job_pool_free jid w =
     (if 0 \<le> jid \<and> jid < conf_number_of_jobs (w_conf w) then
        (let w = (case gw_job_pool_get w jid of
               None \<Rightarrow> w
             | Some job \<Rightarrow>
                 (let w = (if job_job_state job = GW_JOB_STATE_PENDING
                              \<or> job_job_state job = GW_JOB_STATE_WRAPPER \<and> job_reschedule job
                           then send_sch [JOB_DEL (job_id job)] w else w);
                      w = on_users (\<lambda>p. gw_user_pool_dec_jobs p (job_user_id job)) w
                  in w\<lparr>w_jobs := pool_store (w_jobs w) jid None\<rparr>))
         in w\<lparr>w_deps := (w_deps w)[nat jid := None]\<rparr>)
      else w)"

definition gw_job_pool_get_num_jobs :: "gwd \<Rightarrow> int" where
  "gw_job_pool_get_num_jobs w = pool_number (w_jobs w)"

text \<open>The jobs a restarted scheduler is told of.\<close>

definition gw_job_pool_dm_recover :: "gwd \<Rightarrow> gwd" where
  "gw_job_pool_dm_recover w =
     send_sch (concat (map (\<lambda>s. case s of
         None \<Rightarrow> []
       | Some job \<Rightarrow> if job_job_state job = GW_JOB_STATE_PENDING
           then [JOB_SCHEDULE (job_id job) (job_array_id job) (job_user_id job) GW_REASON_NONE]
           else []) (pool_slots (w_jobs w)))) w"

text \<open>The action that starts the transfers of a job's state again.\<close>

fun tm_recover_action :: "gw_job_state \<Rightarrow> string option" where
  "tm_recover_action GW_JOB_STATE_PROLOG = Some ''GW_DM_STATE_PROLOG''"
| "tm_recover_action GW_JOB_STATE_EPILOG = Some ''GW_DM_STATE_EPILOG''"
| "tm_recover_action GW_JOB_STATE_EPILOG_STD = Some ''GW_DM_STATE_EPILOG_STD''"
| "tm_recover_action GW_JOB_STATE_MIGR_EPILOG = Some ''GW_DM_STATE_MIGR_EPILOG''"
| "tm_recover_action GW_JOB_STATE_EPILOG_RESTART = Some ''GW_DM_STATE_EPILOG_RESTART''"
| "tm_recover_action GW_JOB_STATE_EPILOG_FAIL = Some ''GW_DM_STATE_EPILOG_FAIL''"
| "tm_recover_action GW_JOB_STATE_KILL_EPILOG = Some ''GW_DM_STATE_KILL_EPILOG''"
| "tm_recover_action GW_JOB_STATE_STOP_EPILOG = Some ''GW_DM_STATE_STOP_EPILOG''"
| "tm_recover_action _ = None"

definition tm_recover_job :: "int \<Rightarrow> gwd \<Rightarrow> gwd" where
  "tm_recover_job i w =
     (case gw_job_pool_get w i of
        None \<Rightarrow> w
      | Some job \<Rightarrow>
          (let w = put_job i (job\<lparr>job_tm_state := GW_TM_STATE_INIT\<rparr>) w in
           case tm_recover_action (job_job_state job) of
             None \<Rightarrow> w
           | Some action \<Rightarrow> trigger_dm action (Some (job_id job)) w))"

fun tm_recover_from :: "int \<Rightarrow> nat \<Rightarrow> gwd \<Rightarrow> gwd" where
  "tm_recover_from i 0 w = w"
| "tm_recover_from i (Suc k) w = tm_recover_from (i + 1) k (tm_recover_job i w)"

definition gw_job_pool_tm_recover :: "gwd \<Rightarrow> gwd" where
  "gw_job_pool_tm_recover w = tm_recover_from 0 (nat (conf_number_of_jobs (w_conf w))) w"

section \<open>Arrays\<close>

text \<open>The loop that allocates the tasks; the job pointer is not tested.\<close>

fun array_allocate_tasks ::
    "int \<Rightarrow> int \<Rightarrow> nat \<Rightarrow> gw_array \<Rightarrow> gwd \<Rightarrow> (gw_array \<times> gwd) option" where
  "array_allocate_tasks aid ntasks 0 array w = Some (array, w)"
| "array_allocate_tasks aid ntasks (Suc k) array w = do {
     (jid, w) \<leftarrow> gw_job_pool_allocate w;
     (tid, array) \<leftarrow> gw_array_add_task array jid;
     w \<leftarrow> upd_job jid (\<lambda>j. j\<lparr>job_task_id := tid, job_array_id := aid, job_total_tasks := ntasks\<rparr>) w;
     array_allocate_tasks aid ntasks k array w
   }"

definition gw_array_pool_array_allocate :: "int \<Rightarrow> gwd \<Rightarrow> (int \<times> int \<times> gwd) option" where
  "gw_array_pool_array_allocate number_of_tasks w =
     (let p = w_arrays w in
      if number_of_tasks + gw_job_pool_get_num_jobs w > conf_number_of_jobs (w_conf w)
      then Some (- 1, - 1, w)
      else do {
        found \<leftarrow> scan_free (\<lambda>i. i + 1) (pool_slots p) (pool_last_id p + 1)
                   (nat (conf_number_of_arrays (w_conf w)));
        (case found of
           None \<Rightarrow> Some (- 1, - 1, w)
         | Some aid \<Rightarrow> do {
             (array, w) \<leftarrow> array_allocate_tasks aid number_of_tasks (nat number_of_tasks)
                             (gw_array_init number_of_tasks aid) w;
             Some (0, aid, w\<lparr>w_arrays := (pool_store p aid (Some array))
                               \<lparr>pool_last_id := aid, pool_number := pool_number p + 1\<rparr>\<rparr>)
           })
      })"

section \<open>Allocation\<close>

text \<open>The pool as \<open>gw_job_pool_init\<close> makes it and the operations keep it.\<close>

definition job_pool_wf :: "gwd \<Rightarrow> bool" where
  "job_pool_wf w \<longleftrightarrow>
     pool_size (w_jobs w) = conf_number_of_jobs (w_conf w)
   \<and> length (w_deps w) = nat (conf_number_of_jobs (w_conf w))
   \<and> (\<forall>i j. gw_job_pool_get w i = Some j \<longrightarrow> job_id j = i)"

lemma gw_job_pool_allocate_form:
  assumes "gw_job_pool_allocate w = Some (jid, w')"
  shows "(jid = - 1 \<and> w' = w) \<or>
    (0 \<le> jid \<and> jid < pool_size (w_jobs w) \<and> gw_job_pool_get w jid = None
     \<and> pool_last_id (w_jobs w) < jid
     \<and> w' = w\<lparr>w_jobs := (pool_store (w_jobs w) jid
           (Some (gw_job_init (w_conf w) (w_now w) (w_fresh_job w) jid)))
             \<lparr>pool_last_id := jid, pool_number := pool_number (w_jobs w) + 1\<rparr>\<rparr>)"
proof -
  from assms obtain r where r: "scan_free (\<lambda>i. i + 1) (pool_slots (w_jobs w))
      (pool_last_id (w_jobs w) + 1) (nat (conf_number_of_jobs (w_conf w))) = Some r"
    by (auto simp: gw_job_pool_allocate_def Let_def bind_Some_iff)
  show ?thesis
  proof (cases r)
    case None
    with assms r show ?thesis by (simp add: gw_job_pool_allocate_def Let_def)
  next
    case (Some i)
    note range = scan_free_range [OF r [unfolded Some]]
    note bounds = scan_free_linear_bounds [OF r [unfolded Some]]
    from assms r Some range bounds show ?thesis
      by (auto simp: gw_job_pool_allocate_def Let_def gw_job_pool_get_def pool_get_def slot_def
          pool_size_def)
  qed
qed

text \<open>Identifiers are given out in increasing order: an allocation that returns
  an identifier returns one greater than the last, whose slot was free; the new job is
  initialised and no other job has changed.\<close>

theorem gw_job_pool_allocate_fresh:
  assumes "gw_job_pool_allocate w = Some (jid, w')" and "jid \<noteq> - 1"
  shows "pool_last_id (w_jobs w) < jid \<and> jid < pool_size (w_jobs w)
    \<and> gw_job_pool_get w jid = None
    \<and> (\<forall>i. gw_job_pool_get w' i = (if i = jid
          then Some (gw_job_init (w_conf w) (w_now w) (w_fresh_job w) jid) else gw_job_pool_get w i))
    \<and> pool_last_id (w_jobs w') = jid
    \<and> gw_job_pool_get_num_jobs w' = gw_job_pool_get_num_jobs w + 1"
  using gw_job_pool_allocate_form [OF assms(1)] assms(2)
  by (auto simp: gw_job_pool_get_def pool_get_store_eq gw_job_pool_get_num_jobs_def)

text \<open>The scan does not go round: when every slot after the last identifier is taken,
  as it is once the last identifier of the pool has been given out, the allocation reads
  past the end of the pool, although earlier slots may be free.\<close>

theorem gw_job_pool_allocate_overrun:
  assumes "pool_size (w_jobs w) = conf_number_of_jobs (w_conf w)" and "0 < pool_size (w_jobs w)"
    and "0 \<le> pool_last_id (w_jobs w)" and "pool_last_id (w_jobs w) < pool_size (w_jobs w)"
    and "\<forall>i. pool_last_id (w_jobs w) < i \<and> i < pool_size (w_jobs w) \<longrightarrow> gw_job_pool_get w i \<noteq> None"
  shows "gw_job_pool_allocate w = None"
proof -
  let ?p = "w_jobs w"
  have taken: "taken_from (pool_slots ?p) (pool_last_id ?p + 1)"
    unfolding taken_from_def
  proof
    fix j assume j: "j \<in> {nat (pool_last_id ?p + 1) ..< length (pool_slots ?p)}"
    with assms(3) have "pool_last_id ?p < int j" "int j < pool_size ?p"
      by (auto simp: pool_size_def)
    with assms(5) have "gw_job_pool_get w (int j) \<noteq> None" by blast
    with j show "pool_slots ?p ! j \<noteq> None"
      by (simp add: gw_job_pool_get_def pool_get_def slot_def)
  qed
  have "scan_free (\<lambda>i. i + 1) (pool_slots ?p) (pool_last_id ?p + 1)
      (nat (conf_number_of_jobs (w_conf w))) = None"
    by (rule scan_free_linear_crash [OF taken]) (use assms in \<open>auto simp: pool_size_def\<close>)
  then show ?thesis by (simp add: gw_job_pool_allocate_def Let_def)
qed

section \<open>Dependencies: from the matrix to the set of jobs waited for\<close>

text \<open>A row of the matrix and the jobs it still waits for.\<close>

definition dep_row :: "int list \<Rightarrow> bool" where
  "dep_row ds \<longleftrightarrow> (\<exists>p. ds = p @ [- 1] \<and> (\<forall>d \<in> set p. 0 \<le> d \<or> d = - 4))"

definition waits_for :: "int list \<Rightarrow> int set" where
  "waits_for ds = {d \<in> set ds. 0 \<le> d}"

lemma dep_scan_prefix:
  "0 \<le> jid \<Longrightarrow> \<forall>d \<in> set p. 0 \<le> d \<or> d = - 4 \<Longrightarrow>
   dep_scan jid ok (p @ [- 1]) =
     Some (map (\<lambda>d. if d = jid \<and> ok then - 4 else d) p @ [- 1],
           \<forall>d \<in> set p. (d = jid \<and> ok) \<or> d = - 4, jid \<in> set p)"
  by (induction p) auto

lemma dep_scan_row:
  assumes "dep_row ds" and "0 \<le> jid"
  shows "\<exists>ds' all_done dep. dep_scan jid ok ds = Some (ds', all_done, dep) \<and> dep_row ds'
    \<and> waits_for ds' = (if ok then waits_for ds - {jid} else waits_for ds)
    \<and> (all_done \<and> dep \<longleftrightarrow> ok \<and> waits_for ds = {jid})"
proof -
  from assms(1) obtain p where p: "ds = p @ [- 1]" "\<forall>d \<in> set p. 0 \<le> d \<or> d = - 4"
    by (auto simp: dep_row_def)
  let ?q = "map (\<lambda>d. if d = jid \<and> ok then - 4 else d) p"
  have "dep_row (?q @ [- 1])" using p(2) by (auto simp: dep_row_def)
  moreover have "waits_for (?q @ [- 1]) = (if ok then waits_for ds - {jid} else waits_for ds)"
    using p by (auto simp: waits_for_def split: if_splits)
  moreover have "(\<forall>d \<in> set p. (d = jid \<and> ok) \<or> d = - 4) \<and> jid \<in> set p \<longleftrightarrow>
      ok \<and> waits_for ds = {jid}"
    using p assms(2) by (auto simp: waits_for_def)
  ultimately show ?thesis using dep_scan_prefix [OF assms(2) p(2), of ok] p(1) by auto
qed

text \<open>C27 (refinement).  Copying a list of dependencies into the matrix keeps it as a row that waits
  for exactly the jobs named before the end mark.\<close>

theorem gw_job_pool_dep_cp_row:
  assumes "\<forall>d \<in> set p. 0 \<le> d" and "e < 0"
  shows "gw_job_pool_dep_cp (Some (p @ e # rest)) = Some (if p = [] then None else Some (p @ [- 1]))
    \<and> (p \<noteq> [] \<longrightarrow> dep_row (p @ [- 1]) \<and> waits_for (p @ [- 1]) = set p)"
proof -
  have "dep_prefix (p @ e # rest) = Some p" using assms by (induction p) auto
  then show ?thesis using assms(1)
    by (auto simp: gw_job_pool_dep_cp_def dep_row_def waits_for_def)
qed

theorem gw_job_pool_dep_cp_row_witness:
  "gw_job_pool_dep_cp (Some ([3, 5] @ (- 2) # [9])) = Some (Some ([3, 5] @ [- 1]))
     \<and> waits_for ([3, 5] @ [- 1]) = {3, 5}"
  using gw_job_pool_dep_cp_row [of "[3, 5]" "- 2" "[9]"] by simp

text \<open>Which jobs a completion releases.\<close>

definition released_by :: "int \<Rightarrow> int \<Rightarrow> gwd \<Rightarrow> int \<Rightarrow> bool" where
  "released_by jid exit_code w i \<longleftrightarrow>
     (\<exists>ds job. rd (w_deps w) i = Some (Some ds) \<and> gw_job_pool_get w i = Some job
        \<and> job_job_state job = GW_JOB_STATE_HOLD
        \<and> dep_satisfied (job_type_dep job) exit_code \<and> waits_for ds = {jid})"

definition deps_wf :: "gwd \<Rightarrow> bool" where
  "deps_wf w \<longleftrightarrow> length (w_deps w) = nat (conf_number_of_jobs (w_conf w))
     \<and> (\<forall>i ds. rd (w_deps w) i = Some (Some ds) \<longrightarrow> dep_row ds \<and> gw_job_pool_get w i \<noteq> None)"

abbreviation release :: "gw_job \<Rightarrow> gw_job" where
  "release j \<equiv> j\<lparr>job_job_state := GW_JOB_STATE_PENDING\<rparr>"

lemma dep_check_one_effect:
  assumes "deps_wf w" and "0 \<le> jid" and "0 \<le> i" and "i < int (length (w_deps w))"
  shows "\<exists>w'. dep_check_one jid ec i w = Some w' \<and> deps_wf w' \<and> w_conf w' = w_conf w
    \<and> (\<forall>k. k \<noteq> i \<longrightarrow> rd (w_deps w') k = rd (w_deps w) k)
    \<and> (\<forall>k. gw_job_pool_get w' k =
         (if k = i \<and> released_by jid ec w i then map_option release (gw_job_pool_get w k)
          else gw_job_pool_get w k))"
proof -
  obtain e where e: "rd (w_deps w) i = Some e" using assms(3,4) by (simp add: rd_def)
  show ?thesis
  proof (cases e)
    case None
    with e assms(1) show ?thesis by (auto simp: dep_check_one_def released_by_def)
  next
    case (Some ds)
    with e assms(1) obtain job where row: "dep_row ds" and job: "gw_job_pool_get w i = Some job"
      by (auto simp: deps_wf_def)
    show ?thesis
    proof (cases "job_job_state job = GW_JOB_STATE_HOLD")
      case False
      with e Some job assms(1) show ?thesis by (auto simp: dep_check_one_def released_by_def)
    next
      case hold: True
      let ?ok = "dep_satisfied (job_type_dep job) ec"
      obtain ds' all_done dep where scan: "dep_scan jid ?ok ds = Some (ds', all_done, dep)"
        and row': "dep_row ds'" and iff: "all_done \<and> dep \<longleftrightarrow> ?ok \<and> waits_for ds = {jid}"
        using dep_scan_row [OF row assms(2)] by blast
      let ?w = "w\<lparr>w_deps := (w_deps w)[nat i := Some ds']\<rparr>"
      have rel: "released_by jid ec w i \<longleftrightarrow> all_done \<and> dep"
        using e Some job hold iff by (auto simp: released_by_def)
      have rd': "rd (w_deps ?w) k = (if k = i then Some (Some ds') else rd (w_deps w) k)" for k
        using rd_update [OF assms(3), of "w_deps w" "Some ds'" k] assms(4) by simp
      have wf: "deps_wf ?w"
        using assms(1) row' job rd' by (auto simp: deps_wf_def)
      show ?thesis
      proof (cases "all_done \<and> dep")
        case False
        then have "dep_check_one jid ec i w = Some ?w"
          using e Some job hold scan by (auto simp: dep_check_one_def)
        with False rel wf rd' show ?thesis by auto
      next
        case True
        obtain w1 where w1: "gw_job_set_state GW_JOB_STATE_PENDING i ?w = Some w1"
          using gw_job_set_state_total [of ?w i job] job by auto
        then obtain sf seg where form:
          "w1 = (put_job i (release job) ?w)\<lparr>w_state_file := sf, w_seg := seg\<rparr>"
          using gw_job_set_state_form [OF w1] job by auto
        have get1: "gw_job_pool_get w1 k = (if k = i then Some (release job) else gw_job_pool_get w k)" for k
          using job form by simp
        then obtain ms where run: "dep_check_one jid ec i w = Some (send_sch ms w1)"
          using e Some job hold scan True w1 by (auto simp: dep_check_one_def sch_schedule_def)
        have "w_deps (send_sch ms w1) = w_deps ?w" "w_conf (send_sch ms w1) = w_conf w"
          using form by (simp_all add: send_sch_def)
        moreover from this have "deps_wf (send_sch ms w1)"
          using wf get1 by (auto simp: deps_wf_def)
        ultimately show ?thesis using run rel True rd' get1 job by auto
      qed
    qed
  qed
qed

lemma dep_check_from_effect:
  assumes "deps_wf w" and "0 \<le> jid" and "0 \<le> i" and "i + int k \<le> int (length (w_deps w))"
  shows "\<exists>w'. dep_check_from jid ec i k w = Some w' \<and> deps_wf w' \<and> w_conf w' = w_conf w
    \<and> (\<forall>m. gw_job_pool_get w' m =
         (if i \<le> m \<and> m < i + int k \<and> released_by jid ec w m
          then map_option release (gw_job_pool_get w m) else gw_job_pool_get w m))"
  using assms
proof (induction k arbitrary: i w)
  case (Suc k)
  then obtain w1 where w1: "dep_check_one jid ec i w = Some w1" "deps_wf w1" "w_conf w1 = w_conf w"
    and rd: "\<And>m. m \<noteq> i \<Longrightarrow> rd (w_deps w1) m = rd (w_deps w) m"
    and get: "\<And>m. gw_job_pool_get w1 m = (if m = i \<and> released_by jid ec w i
        then map_option release (gw_job_pool_get w m) else gw_job_pool_get w m)"
    using dep_check_one_effect [of w jid i ec] by auto
  have len: "length (w_deps w1) = length (w_deps w)"
    using w1(2,3) Suc.prems(1) by (simp add: deps_wf_def)
  have same: "released_by jid ec w1 m = released_by jid ec w m" if "m \<noteq> i" for m
    using that rd get by (simp add: released_by_def)
  from Suc.IH [OF w1(2) Suc.prems(2), of "i + 1"] Suc.prems(3,4) len obtain w2 where
    w2: "dep_check_from jid ec (i + 1) k w1 = Some w2" "deps_wf w2" "w_conf w2 = w_conf w1"
    and get2: "\<And>m. gw_job_pool_get w2 m =
         (if i + 1 \<le> m \<and> m < i + 1 + int k \<and> released_by jid ec w1 m
          then map_option release (gw_job_pool_get w1 m) else gw_job_pool_get w1 m)"
    by auto
  have "gw_job_pool_get w2 m =
         (if i \<le> m \<and> m < i + int (Suc k) \<and> released_by jid ec w m
          then map_option release (gw_job_pool_get w m) else gw_job_pool_get w m)" for m
    using get2 [of m] get [of m] same [of m] by (cases "m = i") auto
  with w1 w2 show ?case by auto
qed auto

text \<open>C26 (functional).  When a job has completed, the check of the dependencies ends without a
  crash and releases exactly the held jobs whose last dependency it was, and for which
  its exit code counts; every other job keeps its state and all its fields.\<close>

theorem gw_job_pool_dep_check_releases:
  assumes "deps_wf w" and "0 \<le> jid"
  shows "\<exists>w'. gw_job_pool_dep_check jid ec w = Some w' \<and> deps_wf w'
    \<and> (\<forall>m. gw_job_pool_get w' m =
         (if released_by jid ec w m then map_option release (gw_job_pool_get w m)
          else gw_job_pool_get w m))"
proof -
  have len: "length (w_deps w) = nat (conf_number_of_jobs (w_conf w))"
    using assms(1) by (simp add: deps_wf_def)
  have "0 \<le> m \<and> m < int (nat (conf_number_of_jobs (w_conf w)))" if "released_by jid ec w m" for m
    using that len by (auto simp: released_by_def rd_Some)
  with dep_check_from_effect [OF assms, of 0 "nat (conf_number_of_jobs (w_conf w))" ec] len
  show ?thesis unfolding gw_job_pool_dep_check_def by (auto split: if_splits)
qed

text \<open>A row of the matrix whose job is gone crashes the check: it unlocks the mutex of
  a NULL job.\<close>

theorem gw_job_pool_dep_check_orphan:
  assumes "rd (w_deps w) 0 = Some (Some ds)" and "gw_job_pool_get w 0 = None"
    and "0 < conf_number_of_jobs (w_conf w)"
  shows "gw_job_pool_dep_check jid ec w = None"
proof -
  obtain k where "nat (conf_number_of_jobs (w_conf w)) = Suc k"
    using assms(3) by (cases "nat (conf_number_of_jobs (w_conf w))") auto
  with assms(1,2) show ?thesis by (simp add: gw_job_pool_dep_check_def dep_check_one_def)
qed

section \<open>An example\<close>

definition example_world :: gwd where
  "example_world =
    \<lparr> w_conf = example_conf, w_now = 1000,
      w_jobs = \<lparr>pool_number = 1, pool_last_id = 0, pool_slots = [Some example_job, None, None, None]\<rparr>,
      w_deps = [None, None, None, None],
      w_hosts = \<lparr>pool_number = 1, pool_last_id = 0, pool_slots = [Some example_host, None, None]\<rparr>,
      w_users = example_user_pool,
      w_arrays = \<lparr>pool_number = 0, pool_last_id = - 1, pool_slots = [None, None]\<rparr>,
      w_scheduling = False, w_dm = [], w_em = [], w_tm = [], w_rm = [], w_submit = [], w_sch = [],
      w_em_mad = [], w_tm_mad = [], w_state_file = (\<lambda>i. []), w_history_file = (\<lambda>i. []),
      w_conf_file = (\<lambda>i. False), w_contact_file = (\<lambda>i. None), w_seg = [], w_opens = (\<lambda>p. True), w_seg_opens = True,
      w_runs = (\<lambda>c. True), w_parse = (\<lambda>f v. (0, Some ''0'')), w_starts = (\<lambda>m. True),
      w_subst = (\<lambda>s j. Some s), w_rsl = (\<lambda>b j. Some ''rsl''), w_rand = (\<lambda>n. n div 2),
      w_fresh_job = example_fresh_job, w_fresh_record = example_record, w_junk = CHR ''?'' \<rparr>"

lemma example_world_sel [simp]:
  "w_conf example_world = example_conf" "w_now example_world = 1000"
  "w_deps example_world = [None, None, None, None]"
  "gw_job_pool_get example_world i = (if i = 0 then Some example_job else None)"
  "pool_last_id (w_jobs example_world) = 0" "pool_size (w_jobs example_world) = 4"
  by (auto simp: example_world_def gw_job_pool_get_def pool_get_def slot_def pool_size_def
      nth_Cons' numeral_eq_Suc)

lemma example_conf_sel [simp]:
  "conf_number_of_jobs example_conf = 4" "conf_number_of_arrays example_conf = 2"
  "conf_number_of_hosts example_conf = 3"
  by (simp_all add: example_conf_def)

theorem gw_job_pool_allocate_fresh_witness:
  "\<exists>w'. gw_job_pool_allocate example_world = Some (1, w') \<and> pool_last_id (w_jobs w') = 1"
proof -
  obtain w' where r: "gw_job_pool_allocate example_world = Some (1, w')"
    by (simp add: gw_job_pool_allocate_def Let_def rd_def
        example_world_def eval_nat_numeral)
  from gw_job_pool_allocate_fresh [OF r] r show ?thesis by simp
qed

theorem gw_job_pool_allocate_overrun_witness:
  "gw_job_pool_allocate (example_world\<lparr>w_jobs := \<lparr>pool_number = 1, pool_last_id = 3,
     pool_slots = [None, None, None, Some example_job]\<rparr>\<rparr>) = None"
  by (rule gw_job_pool_allocate_overrun) (auto simp: pool_size_def)

text \<open>A second job, held until the first one has ended with success.\<close>

definition example_held :: gwd where
  "example_held = example_world
     \<lparr>w_jobs := \<lparr>pool_number = 2, pool_last_id = 1, pool_slots = [Some example_job,
         Some (example_job\<lparr>job_id := 1, job_job_state := GW_JOB_STATE_HOLD, job_type_dep := - 2\<rparr>),
         None, None]\<rparr>,
      w_deps := [None, Some [0, - 1], None, None]\<rparr>"

lemma example_held_wf: "deps_wf example_held"
proof -
  have "dep_row [0, - 1]" by (auto simp: dep_row_def intro: exI [of _ "[0]"])
  then show ?thesis
    by (auto simp: deps_wf_def example_held_def rd_def gw_job_pool_get_def pool_get_def slot_def
        nth_Cons' numeral_eq_Suc split: if_splits)
qed

theorem gw_job_pool_dep_check_releases_witness:
  "\<exists>w' job. gw_job_pool_dep_check 0 0 example_held = Some w' \<and> gw_job_pool_get w' 1 = Some job
     \<and> job_job_state job = GW_JOB_STATE_PENDING"
proof -
  have "released_by 0 0 example_held 1"
    by (auto simp: released_by_def example_held_def rd_def gw_job_pool_get_def pool_get_def
        slot_def dep_satisfied_def waits_for_def)
  moreover have "\<exists>j. gw_job_pool_get example_held 1 = Some j"
    by (simp add: example_held_def gw_job_pool_get_def pool_get_def slot_def)
  ultimately show ?thesis
    using gw_job_pool_dep_check_releases [OF example_held_wf, of 0 0] by fastforce
qed

theorem gw_job_pool_dep_check_orphan_witness:
  "gw_job_pool_dep_check 2 0 (example_world\<lparr>w_deps := [Some [2, - 1], None, None, None],
     w_jobs := \<lparr>pool_number = 1, pool_last_id = 0, pool_slots = [None, None, None, None]\<rparr>\<rparr>) = None"
  by (rule gw_job_pool_dep_check_orphan [of _ "[2, - 1]"])
    (simp_all add: rd_def gw_job_pool_get_def pool_get_def slot_def)

end
