(* ===== verification/Dm_States.thy ===== *)
theory Dm_States
  imports Gw_Job_Pool
begin

text \<open>
  The state handlers of the dispatch manager: the functions of
  \<open>src/dm/gw_dm_state_*.c\<close>, registered as the actions \<open>GW_DM_STATE_*\<close> and
  \<open>GW_DM_*_DONE\<close>, \<open>GW_DM_*_FAILED\<close>.  \<open>arg\<close> is the job's identifier, \<open>None\<close> for
  NULL.  A handler that dereferences a history record the job does not have is
  \<open>None\<close>.  The daemon's and the jobs' log files are left out.  An identifier is the
  index of the job's slot (\<open>job_pool_wf\<close>), so \<open>job_id\<close> and \<open>job->id\<close> are one.
\<close>

section \<open>Pending, failed, stopped, migration (gw_dm_state_pending.c and others)\<close>

definition failed_reason :: "gw_migration_reason \<Rightarrow> bool" where
  "failed_reason r \<longleftrightarrow> r = GW_REASON_EXECUTION_ERROR \<or> r = GW_REASON_PERFORMANCE"

definition notify_failed :: "int \<Rightarrow> gwd \<Rightarrow> gwd option" where
  "notify_failed jid w = do {
     job \<leftarrow> gw_job_pool_get w jid;
     r \<leftarrow> hist_at 0 job;
     if failed_reason (hist_reason r) then sch_failed (hist_reason r) jid w else Some w
   }"

definition gw_dm_pending :: "int option \<Rightarrow> gwd \<Rightarrow> gwd option" where
  "gw_dm_pending arg w = with_job arg w (Some w) (\<lambda>jid. do {
     w \<leftarrow> gw_job_set_state GW_JOB_STATE_PENDING jid w;
     w \<leftarrow> user_dec_running jid w;
     w \<leftarrow> dec_rjobs 0 0 jid w;
     w \<leftarrow> upd_job jid (\<lambda>j. j\<lparr>job_restarted := job_restarted j + 1\<rparr>) w;
     w \<leftarrow> notify_failed jid w;
     sch_schedule GW_REASON_NONE jid w
   })"

definition gw_dm_failed :: "int option \<Rightarrow> gwd \<Rightarrow> gwd option" where
  "gw_dm_failed arg w = with_job arg w (Some w) (\<lambda>jid. do {
     w \<leftarrow> gw_job_set_state GW_JOB_STATE_FAILED jid w;
     w \<leftarrow> upd_job jid (\<lambda>j. j\<lparr>job_exit_time := w_now w\<rparr>) w;
     job \<leftarrow> gw_job_pool_get w jid;
     let w = (if job_client_waiting job > 0 then trigger_rm ''GW_RM_WAIT_SUCCESS'' arg w else w);
     w \<leftarrow> user_dec_running jid w;
     w \<leftarrow> dec_rjobs 0 0 jid w;
     notify_failed jid w
   })"

definition gw_dm_stopped :: "int option \<Rightarrow> gwd \<Rightarrow> gwd option" where
  "gw_dm_stopped arg w = with_job arg w (Some w) (\<lambda>jid. do {
     w \<leftarrow> gw_job_set_state GW_JOB_STATE_STOPPED jid w;
     w \<leftarrow> user_dec_running jid w;
     w \<leftarrow> dec_rjobs 0 0 jid w;
     Some (trigger_rm ''GW_RM_STOP_SUCCESS'' arg w)
   })"

definition gw_dm_migr_cancel :: "int option \<Rightarrow> gwd \<Rightarrow> gwd option" where
  "gw_dm_migr_cancel arg w = with_job arg w (Some w) (\<lambda>jid. do {
     job \<leftarrow> gw_job_pool_get w jid;
     if job_job_state job = GW_JOB_STATE_WRAPPER \<and> job_em_state job \<noteq> GW_EM_STATE_DONE
     then do {
       w \<leftarrow> stamp 0 MIGRATION_START_TIME jid w;
       w \<leftarrow> gw_job_set_state GW_JOB_STATE_MIGR_CANCEL jid w;
       Some (trigger_em ''GW_EM_CANCEL'' arg w)
     } else Some w
   })"

section \<open>Prolog (gw_dm_state_prologs.c)\<close>

definition prolog_start :: "int option \<Rightarrow> int \<Rightarrow> gwd \<Rightarrow> gwd option" where
  "prolog_start arg jid w = do {
     rc \<leftarrow> gw_job_environment jid w;
     if rc = 0 then do {
       job \<leftarrow> gw_job_pool_get w jid;
       wbe \<leftarrow> gw_job_is_wrapper_based (w_hosts w) job;
       w \<leftarrow> set_xfrs (gw_dm_prolog_set_files (w_junk w) wbe) jid w;
       Some (trigger_tm ''GW_TM_PROLOG'' arg w)
     } else Some (trigger_dm ''GW_DM_PROLOG_FAILED'' arg w)
   }"

definition gw_dm_prolog :: "int option \<Rightarrow> gwd \<Rightarrow> gwd option" where
  "gw_dm_prolog arg w = with_job arg w (Some w) (\<lambda>jid. do {
     job \<leftarrow> gw_job_pool_get w jid;
     w \<leftarrow> (if job_job_state job \<noteq> GW_JOB_STATE_PROLOG then do {
         w \<leftarrow> gw_job_set_state GW_JOB_STATE_PROLOG jid w;
         w \<leftarrow> stamp 0 START_TIME jid w;
         stamp 0 PROLOG_START_TIME jid w
       } else Some w);
     prolog_start arg jid w
   })"

definition gw_dm_migr_prolog :: "int option \<Rightarrow> gwd \<Rightarrow> gwd option" where
  "gw_dm_migr_prolog arg w = with_job arg w (Some w) (\<lambda>jid. do {
     w \<leftarrow> gw_job_set_state GW_JOB_STATE_MIGR_PROLOG jid w;
     w \<leftarrow> stamp 0 START_TIME jid w;
     w \<leftarrow> stamp 0 PROLOG_START_TIME jid w;
     prolog_start arg jid w
   })"

definition gw_dm_prolog_done_cb :: "int option \<Rightarrow> gwd \<Rightarrow> gwd option" where
  "gw_dm_prolog_done_cb arg w = with_job arg w (Some w) (\<lambda>jid. do {
     w \<leftarrow> stamp 0 PROLOG_EXIT_TIME jid w;
     job \<leftarrow> gw_job_pool_get w jid;
     Some (if job_job_state job = GW_JOB_STATE_PROLOG then
             (if jt_pre_wrapper (job_template job) \<noteq> None
              then trigger_dm ''GW_DM_STATE_PRE_WRAPPER'' arg w
              else trigger_dm ''GW_DM_STATE_WRAPPER'' arg w)
           else if job_job_state job = GW_JOB_STATE_MIGR_PROLOG
             then trigger_dm ''GW_DM_STATE_MIGR_EPILOG'' arg w
           else w)
   })"

text \<open>\<open>if (job->template.reschedule_on_failure == GW_TRUE) ... PENDING else ... FAILED\<close>\<close>

definition reschedule_or_fail :: "int option \<Rightarrow> gw_job \<Rightarrow> gwd \<Rightarrow> gwd" where
  "reschedule_or_fail arg job w =
     (if jt_reschedule_on_failure (job_template job)
      then trigger_dm ''GW_DM_STATE_PENDING'' arg w else trigger_dm ''GW_DM_STATE_FAILED'' arg w)"

definition gw_dm_prolog_failed_cb :: "int option \<Rightarrow> gwd \<Rightarrow> gwd option" where
  "gw_dm_prolog_failed_cb arg w = with_job arg w (Some w) (\<lambda>jid. do {
     w \<leftarrow> stamp 0 PROLOG_EXIT_TIME jid w;
     w \<leftarrow> stamp 0 EXIT_TIME jid w;
     job \<leftarrow> gw_job_pool_get w jid;
     w \<leftarrow> (if job_job_state job = GW_JOB_STATE_MIGR_PROLOG then do {
         w \<leftarrow> stamp 0 MIGRATION_EXIT_TIME jid w;
         if hist_at 1 job \<noteq> None then do {
           w \<leftarrow> stamp 1 EXIT_TIME jid w;
           dec_rjobs 1 1 jid w
         } else Some w
       } else Some w);
     w \<leftarrow> set_reason GW_REASON_EXECUTION_ERROR jid w;
     w \<leftarrow> dec_uslots 0 0 jid w;
     Some (reschedule_or_fail arg job w)
   })"

section \<open>Wrapper (gw_dm_state_wrappers.c)\<close>

abbreviation set_em_state :: "gw_em_state \<Rightarrow> int \<Rightarrow> gwd \<Rightarrow> gwd option" where
  "set_em_state s jid w \<equiv> upd_job jid (\<lambda>j. j\<lparr>job_em_state := s\<rparr>) w"

definition gw_dm_pre_wrapper :: "int option \<Rightarrow> gwd \<Rightarrow> gwd option" where
  "gw_dm_pre_wrapper arg w = with_job arg w (Some w) (\<lambda>jid. do {
     w \<leftarrow> stamp 0 PRE_WRAPPER_START_TIME jid w;
     w \<leftarrow> gw_job_set_state GW_JOB_STATE_PRE_WRAPPER jid w;
     w \<leftarrow> set_em_state GW_EM_STATE_INIT jid w;
     Some (trigger_em ''GW_EM_SUBMIT'' arg w)
   })"

definition gw_dm_wrapper :: "int option \<Rightarrow> gwd \<Rightarrow> gwd option" where
  "gw_dm_wrapper arg w = with_job arg w (Some w) (\<lambda>jid. do {
     w \<leftarrow> stamp 0 WRAPPER_START_TIME jid w;
     w \<leftarrow> gw_job_set_state GW_JOB_STATE_WRAPPER jid w;
     w \<leftarrow> set_em_state GW_EM_STATE_INIT jid w;
     Some (trigger_em ''GW_EM_SUBMIT'' arg w)
   })"

definition gw_dm_wrapper_done_cb :: "int option \<Rightarrow> gwd \<Rightarrow> gwd option" where
  "gw_dm_wrapper_done_cb arg w = with_job arg w (Some w) (\<lambda>jid. do {
     w \<leftarrow> set_em_state GW_EM_STATE_INIT jid w;
     job \<leftarrow> gw_job_pool_get w jid;
     (case job_job_state job of
        GW_JOB_STATE_PRE_WRAPPER \<Rightarrow> do {
          w \<leftarrow> stamp 0 PRE_WRAPPER_EXIT_TIME jid w;
          Some (trigger_dm ''GW_DM_STATE_WRAPPER'' arg w)
        }
      | GW_JOB_STATE_WRAPPER \<Rightarrow> do {
          w \<leftarrow> stamp 0 WRAPPER_EXIT_TIME jid w;
          w \<leftarrow> dec_uslots 0 0 jid w;
          w \<leftarrow> unschedule jid w;
          wbe \<leftarrow> gw_job_is_wrapper_based (w_hosts w) job;
          Some (if wbe then trigger_dm ''GW_DM_STATE_EPILOG_STD'' arg w
                else trigger_dm ''GW_DM_STATE_EPILOG'' arg w)
        }
      | GW_JOB_STATE_STOP_CANCEL \<Rightarrow> do {
          w \<leftarrow> stamp 0 WRAPPER_EXIT_TIME jid w;
          w \<leftarrow> dec_uslots 0 0 jid w;
          Some (trigger_dm ''GW_DM_STATE_STOP_EPILOG'' arg w)
        }
      | GW_JOB_STATE_KILL_CANCEL \<Rightarrow> do {
          w \<leftarrow> stamp 0 WRAPPER_EXIT_TIME jid w;
          w \<leftarrow> dec_uslots 0 0 jid w;
          Some (trigger_dm ''GW_DM_STATE_KILL_EPILOG'' arg w)
        }
      | GW_JOB_STATE_MIGR_CANCEL \<Rightarrow> do {
          w \<leftarrow> stamp 1 WRAPPER_EXIT_TIME jid w;
          w \<leftarrow> dec_uslots 1 0 jid w;
          Some (trigger_dm ''GW_DM_STATE_MIGR_PROLOG'' arg w)
        }
      | _ \<Rightarrow> Some w)
   })"

definition gw_dm_wrapper_failed_cb :: "int option \<Rightarrow> gwd \<Rightarrow> gwd option" where
  "gw_dm_wrapper_failed_cb arg w = with_job arg w (Some w) (\<lambda>jid. do {
     w \<leftarrow> set_em_state GW_EM_STATE_INIT jid w;
     job \<leftarrow> gw_job_pool_get w jid;
     w \<leftarrow> (case job_job_state job of
         GW_JOB_STATE_PRE_WRAPPER \<Rightarrow> stamp 0 PRE_WRAPPER_EXIT_TIME jid w
       | GW_JOB_STATE_WRAPPER \<Rightarrow> do {
           w \<leftarrow> stamp 0 WRAPPER_EXIT_TIME jid w;
           unschedule jid w
         }
       | _ \<Rightarrow> Some w);
     w \<leftarrow> (if hist_at 0 job \<noteq> None then do {
         w \<leftarrow> set_reason GW_REASON_EXECUTION_ERROR jid w;
         dec_uslots 0 0 jid w
       } else Some w);
     Some (trigger_dm ''GW_DM_STATE_EPILOG_FAIL'' arg w)
   })"

section \<open>Epilog (gw_dm_state_epilogs.c)\<close>

definition gw_dm_epilog_std :: "int option \<Rightarrow> gwd \<Rightarrow> gwd option" where
  "gw_dm_epilog_std arg w = with_job arg w (Some w) (\<lambda>jid. do {
     job \<leftarrow> gw_job_pool_get w jid;
     w \<leftarrow> (if job_job_state job \<noteq> GW_JOB_STATE_EPILOG_STD then do {
         w \<leftarrow> gw_job_set_state GW_JOB_STATE_EPILOG_STD jid w;
         stamp 0 EPILOG_START_TIME jid w
       } else Some w);
     w \<leftarrow> set_xfrs (epilog_std_xfrs (w_junk w)) jid w;
     Some (trigger_tm ''GW_TM_EPILOG'' arg w)
   })"

definition gw_dm_migr_epilog :: "int option \<Rightarrow> gwd \<Rightarrow> gwd option" where
  "gw_dm_migr_epilog arg w = with_job arg w (Some w) (\<lambda>jid. do {
     job \<leftarrow> gw_job_pool_get w jid;
     w \<leftarrow> (if job_job_state job \<noteq> GW_JOB_STATE_MIGR_EPILOG then do {
         w \<leftarrow> gw_job_set_state GW_JOB_STATE_MIGR_EPILOG jid w;
         stamp 1 EPILOG_START_TIME jid w
       } else Some w);
     w \<leftarrow> set_xfrs (migr_epilog_xfrs (w_junk w)) jid w;
     Some (trigger_tm ''GW_TM_EPILOG'' arg w)
   })"

definition gw_dm_stop_epilog :: "int option \<Rightarrow> gwd \<Rightarrow> gwd option" where
  "gw_dm_stop_epilog arg w = with_job arg w (Some w) (\<lambda>jid. do {
     job \<leftarrow> gw_job_pool_get w jid;
     w \<leftarrow> (if job_job_state job \<noteq> GW_JOB_STATE_STOP_EPILOG then do {
         w \<leftarrow> gw_job_set_state GW_JOB_STATE_STOP_EPILOG jid w;
         stamp 0 EPILOG_START_TIME jid w
       } else Some w);
     w \<leftarrow> set_xfrs (stop_epilog_xfrs (w_junk w)) jid w;
     Some (trigger_tm ''GW_TM_EPILOG'' arg w)
   })"

definition wrapper_epilog :: "int \<Rightarrow> gwd \<Rightarrow> gwd option" where
  "wrapper_epilog jid w = do {
     job \<leftarrow> gw_job_pool_get w jid;
     wbe \<leftarrow> gw_job_is_wrapper_based (w_hosts w) job;
     set_xfrs (wrapper_epilog_xfrs (w_junk w) wbe) jid w
   }"

definition gw_dm_kill_epilog :: "int option \<Rightarrow> gwd \<Rightarrow> gwd option" where
  "gw_dm_kill_epilog arg w = with_job arg w (Some w) (\<lambda>jid. do {
     job \<leftarrow> gw_job_pool_get w jid;
     w \<leftarrow> (if job_job_state job \<noteq> GW_JOB_STATE_KILL_EPILOG then do {
         w \<leftarrow> gw_job_set_state GW_JOB_STATE_KILL_EPILOG jid w;
         stamp 0 EPILOG_START_TIME jid w
       } else Some w);
     w \<leftarrow> wrapper_epilog jid w;
     Some (trigger_tm ''GW_TM_EPILOG'' arg w)
   })"

definition gw_dm_epilog_fail :: "int option \<Rightarrow> gwd \<Rightarrow> gwd option" where
  "gw_dm_epilog_fail arg w = with_job arg w (Some w) (\<lambda>jid. do {
     job \<leftarrow> gw_job_pool_get w jid;
     w \<leftarrow> (if job_job_state job \<noteq> GW_JOB_STATE_EPILOG_FAIL then do {
         w \<leftarrow> gw_job_set_state GW_JOB_STATE_EPILOG_FAIL jid w;
         stamp 0 EPILOG_START_TIME jid w
       } else Some w);
     w \<leftarrow> wrapper_epilog jid w;
     Some (trigger_tm ''GW_TM_EPILOG'' arg w)
   })"

definition gw_dm_epilog :: "int option \<Rightarrow> gwd \<Rightarrow> gwd option" where
  "gw_dm_epilog arg w = with_job arg w (Some w) (\<lambda>jid. do {
     job \<leftarrow> gw_job_pool_get w jid;
     w \<leftarrow> (if job_job_state job \<noteq> GW_JOB_STATE_EPILOG_STD
               \<and> job_job_state job \<noteq> GW_JOB_STATE_EPILOG
            then stamp 0 EPILOG_START_TIME jid w else Some w);
     w \<leftarrow> (if job_job_state job \<noteq> GW_JOB_STATE_EPILOG
            then gw_job_set_state GW_JOB_STATE_EPILOG jid w else Some w);
     w \<leftarrow> set_xfrs (final_epilog_xfrs (w_junk w)) jid w;
     Some (trigger_tm ''GW_TM_EPILOG'' arg w)
   })"

definition gw_dm_epilog_restart :: "int option \<Rightarrow> gwd \<Rightarrow> gwd option" where
  "gw_dm_epilog_restart arg w = with_job arg w (Some w) (\<lambda>jid. do {
     job \<leftarrow> gw_job_pool_get w jid;
     w \<leftarrow> (if job_job_state job \<noteq> GW_JOB_STATE_EPILOG_RESTART
            then gw_job_set_state GW_JOB_STATE_EPILOG_RESTART jid w else Some w);
     w \<leftarrow> set_xfrs (restart_epilog_xfrs (w_junk w)) jid w;
     Some (trigger_tm ''GW_TM_EPILOG'' arg w)
   })"

text \<open>The exit status the wrapper has left in its standard output.\<close>

definition gw_dm_epilog_parse_wrapper_std :: "int \<Rightarrow> gwd \<Rightarrow> (int \<times> gwd) option" where
  "gw_dm_epilog_parse_wrapper_std jid w = do {
     job \<leftarrow> gw_job_pool_get w jid;
     let file = url512 (job_directory job @ ''/stdout.wrapper.'' @ show_int (job_restarted job));
     let parse = w_parse w file;
     (case parse ''EXIT_STATUS'' of (rc, exit_code) \<Rightarrow>
        if rc \<noteq> - 1 \<and> exit_code \<noteq> None then
          (if take 1 (the exit_code) = ''S'' then do {
             w \<leftarrow> (case snd (parse ''NEW_REQS'') of None \<Rightarrow> Some w
                 | Some reqs \<Rightarrow> upd_job jid (\<lambda>j. j\<lparr>job_template :=
                     (job_template j)\<lparr>jt_requirements := Some reqs\<rparr>\<rparr>) w);
             w \<leftarrow> (case snd (parse ''NEW_RANK'') of None \<Rightarrow> Some w
                 | Some rank \<Rightarrow> upd_job jid (\<lambda>j. j\<lparr>job_template :=
                     (job_template j)\<lparr>jt_rank := Some rank\<rparr>\<rparr>) w);
             w \<leftarrow> set_reason GW_REASON_SELF_MIGRATION jid w;
             Some (1, w)
           }
           else if take 1 (the exit_code) = ''P'' then do {
             w \<leftarrow> set_reason GW_REASON_PERFORMANCE jid w;
             Some (1, w)
           }
           else do {
             w \<leftarrow> upd_job jid (\<lambda>j. j\<lparr>job_exit_code := atoi (the exit_code)\<rparr>) w;
             Some (0, w)
           })
        else do {
          w \<leftarrow> set_reason GW_REASON_EXECUTION_ERROR jid w;
          Some (- 1, w)
        })
   }"

text \<open>The first switch of both callbacks: \<open>None\<close> when the job is in a wrong state.\<close>

definition epilog_times :: "int \<Rightarrow> gwd \<Rightarrow> gwd option option" where
  "epilog_times jid w = (case gw_job_pool_get w jid of
     None \<Rightarrow> Some None
   | Some job \<Rightarrow>
       if job_job_state job \<in> {GW_JOB_STATE_EPILOG, GW_JOB_STATE_EPILOG_FAIL,
            GW_JOB_STATE_EPILOG_RESTART, GW_JOB_STATE_STOP_EPILOG, GW_JOB_STATE_KILL_EPILOG}
       then Some (do { w \<leftarrow> stamp 0 EPILOG_EXIT_TIME jid w; stamp 0 EXIT_TIME jid w })
       else if job_job_state job = GW_JOB_STATE_MIGR_EPILOG
       then Some (do {
         w \<leftarrow> stamp 1 EPILOG_EXIT_TIME jid w;
         w \<leftarrow> stamp 1 EXIT_TIME jid w;
         stamp 0 MIGRATION_EXIT_TIME jid w })
       else if job_job_state job = GW_JOB_STATE_EPILOG_STD then Some (Some w)
       else None)"

text \<open>After a restart epilog: a migration asked for by the job itself is always rescheduled.\<close>

definition restart_next :: "int option \<Rightarrow> int \<Rightarrow> gwd \<Rightarrow> gwd option" where
  "restart_next arg jid w = do {
     job \<leftarrow> gw_job_pool_get w jid;
     r \<leftarrow> hist_at 0 job;
     Some (if hist_reason r = GW_REASON_PERFORMANCE \<or> hist_reason r = GW_REASON_SELF_MIGRATION
           then trigger_dm ''GW_DM_STATE_PENDING'' arg w else reschedule_or_fail arg job w)
   }"

definition gw_dm_epilog_done_cb :: "int option \<Rightarrow> gwd \<Rightarrow> gwd option" where
  "gw_dm_epilog_done_cb arg w = with_job arg w (Some w) (\<lambda>jid.
     (case epilog_times jid w of
        None \<Rightarrow> Some w
      | Some m \<Rightarrow> do {
          w \<leftarrow> m;
          job \<leftarrow> gw_job_pool_get w jid;
          (case job_job_state job of
             GW_JOB_STATE_EPILOG \<Rightarrow> Some (trigger_dm ''GW_DM_STATE_ZOMBIE'' arg w)
           | GW_JOB_STATE_KILL_EPILOG \<Rightarrow> Some (trigger_dm ''GW_DM_STATE_ZOMBIE'' arg w)
           | GW_JOB_STATE_MIGR_EPILOG \<Rightarrow>
               dec_rjobs 1 1 jid (trigger_dm ''GW_DM_STATE_WRAPPER'' arg w)
           | GW_JOB_STATE_STOP_EPILOG \<Rightarrow> Some (trigger_dm ''GW_DM_STATE_STOPPED'' arg w)
           | GW_JOB_STATE_EPILOG_FAIL \<Rightarrow> Some (reschedule_or_fail arg job w)
           | GW_JOB_STATE_EPILOG_RESTART \<Rightarrow> restart_next arg jid w
           | GW_JOB_STATE_EPILOG_STD \<Rightarrow> do {
               (rt, w) \<leftarrow> gw_dm_epilog_parse_wrapper_std jid w;
               Some (if rt = 0 then trigger_dm ''GW_DM_STATE_EPILOG'' arg w
                     else trigger_dm ''GW_DM_STATE_EPILOG_RESTART'' arg w)
             }
           | _ \<Rightarrow> Some w)
        }))"

definition gw_dm_epilog_failed_cb :: "int option \<Rightarrow> gwd \<Rightarrow> gwd option" where
  "gw_dm_epilog_failed_cb arg w = with_job arg w (Some w) (\<lambda>jid.
     (case epilog_times jid w of
        None \<Rightarrow> Some w
      | Some m \<Rightarrow> do {
          w \<leftarrow> m;
          job \<leftarrow> gw_job_pool_get w jid;
          (case job_job_state job of
             GW_JOB_STATE_EPILOG \<Rightarrow> do {
               w \<leftarrow> set_reason GW_REASON_EXECUTION_ERROR jid w;
               Some (reschedule_or_fail arg job w)
             }
           | GW_JOB_STATE_EPILOG_FAIL \<Rightarrow> do {
               w \<leftarrow> set_reason GW_REASON_EXECUTION_ERROR jid w;
               Some (reschedule_or_fail arg job w)
             }
           | GW_JOB_STATE_KILL_EPILOG \<Rightarrow> Some (trigger_dm ''GW_DM_STATE_ZOMBIE'' arg w)
           | GW_JOB_STATE_MIGR_EPILOG \<Rightarrow>
               dec_rjobs 1 1 jid (trigger_dm ''GW_DM_STATE_WRAPPER'' arg w)
           | GW_JOB_STATE_STOP_EPILOG \<Rightarrow> Some (trigger_dm ''GW_DM_STATE_STOPPED'' arg w)
           | GW_JOB_STATE_EPILOG_RESTART \<Rightarrow> restart_next arg jid w
           | GW_JOB_STATE_EPILOG_STD \<Rightarrow> do {
               w \<leftarrow> set_reason GW_REASON_EXECUTION_ERROR jid w;
               Some (trigger_dm ''GW_DM_STATE_EPILOG_RESTART'' arg w)
             }
           | _ \<Rightarrow> Some w)
        }))"

section \<open>Zombie (gw_dm_state_zombie.c)\<close>

text \<open>The task of a job that is gone leaves its array, which is freed with its last task.\<close>

definition array_task_done :: "int \<Rightarrow> int \<Rightarrow> gwd \<Rightarrow> gwd option" where
  "array_task_done array_id task_id w =
     (if array_id = - 1 then Some w
      else case gw_array_pool_get_array (w_arrays w) array_id of
        None \<Rightarrow> Some w
      | Some array \<Rightarrow> do {
          (rt, array) \<leftarrow> gw_array_del_task array task_id;
          let p = pool_store (w_arrays w) array_id (Some array);
          Some (w\<lparr>w_arrays := (if rt = 0 then gw_array_pool_array_free p array_id else p)\<rparr>)
        })"

definition gw_dm_zombie :: "int option \<Rightarrow> gwd \<Rightarrow> gwd option" where
  "gw_dm_zombie arg w = with_job arg w (Some w) (\<lambda>jid. do {
     job \<leftarrow> gw_job_pool_get w jid;
     (case job_job_state job of
        GW_JOB_STATE_EPILOG \<Rightarrow> do {
          w \<leftarrow> gw_job_set_state GW_JOB_STATE_ZOMBIE jid w;
          w \<leftarrow> set_reason GW_REASON_NONE jid w;
          w \<leftarrow> upd_job jid (\<lambda>j. j\<lparr>job_exit_time := w_now w\<rparr>) w;
          let w = (if job_client_waiting job > 0 then trigger_rm ''GW_RM_WAIT_SUCCESS'' arg w
                   else if conf_dispose (w_conf w) then trigger_dm ''GW_DM_KILL'' arg w else w);
          w \<leftarrow> user_dec_running jid w;
          w \<leftarrow> dec_rjobs 0 0 jid w;
          r \<leftarrow> hist_at 0 job;
          h \<leftarrow> pool_get (w_hosts w) (hist_host r);
          let prolog = gw_job_history_get_prolog_time (w_now w) (Some r);
          let epilog = gw_job_history_get_epilog_time (w_now w) (Some r);
          let w = send_sch [JOB_SUCCESS (host_host_id h) (job_user_id job) (prolog + epilog)
                     (hist_stats r SUSPENSION_TIME) (hist_stats r ACTIVE_TIME)] w;
          gw_job_pool_dep_check jid (job_exit_code job) w
        }
      | GW_JOB_STATE_KILL_EPILOG \<Rightarrow> do {
          w \<leftarrow> gw_job_set_state GW_JOB_STATE_ZOMBIE jid w;
          w \<leftarrow> upd_job jid (\<lambda>j. j\<lparr>job_exit_time := w_now w\<rparr>) w;
          w \<leftarrow> user_dec_running jid w;
          w \<leftarrow> dec_rjobs 0 0 jid w;
          let w = w\<lparr>w_conf_file := (w_conf_file w)(jid := False)\<rparr>;
          let w = gw_job_pool_free jid w;
          w \<leftarrow> array_task_done (job_array_id job) (job_task_id job) w;
          Some (trigger_rm ''GW_RM_KILL_SUCCESS'' arg w)
        }
      | _ \<Rightarrow> Some w)
   })"

end
