(* ===== verification/Dm_Actions.thy ===== *)
theory Dm_Actions
  imports Dm_States
begin

text \<open>
  The actions clients and the scheduler ask the dispatch manager for: the functions of
  \<open>src/dm/gw_dm_action_*.c\<close> and what \<open>src/dm/gw_dm_listener.c\<close> does with a line of the
  scheduler.  \<open>None\<close> is a crash; the line the \<open>-- MARK --\<close> counter logs is left out.
\<close>

section \<open>Wait, hold, release (gw_dm_action_wait.c, gw_dm_action_hold_release.c)\<close>

definition gw_dm_wait :: "int option \<Rightarrow> gwd \<Rightarrow> gwd option" where
  "gw_dm_wait arg w = with_job arg w (Some (trigger_rm ''GW_RM_WAIT_FAILED'' arg w)) (\<lambda>jid. do {
     w \<leftarrow> upd_job jid (\<lambda>j. j\<lparr>job_client_waiting := job_client_waiting j + 1\<rparr>) w;
     job \<leftarrow> gw_job_pool_get w jid;
     (case job_job_state job of
        GW_JOB_STATE_ZOMBIE \<Rightarrow> Some (trigger_rm ''GW_RM_WAIT_SUCCESS'' arg w)
      | GW_JOB_STATE_FAILED \<Rightarrow> Some (trigger_rm ''GW_RM_WAIT_SUCCESS'' arg w)
      | _ \<Rightarrow> Some w)
   })"

definition gw_dm_hold :: "int option \<Rightarrow> gwd \<Rightarrow> gwd option" where
  "gw_dm_hold arg w = with_job arg w (Some (trigger_rm ''GW_RM_HOLD_FAILED'' arg w)) (\<lambda>jid. do {
     job \<leftarrow> gw_job_pool_get w jid;
     (case job_job_state job of
        GW_JOB_STATE_PENDING \<Rightarrow> do {
          w \<leftarrow> gw_job_set_state GW_JOB_STATE_HOLD jid w;
          sch_del jid (trigger_rm ''GW_RM_HOLD_SUCCESS'' arg w)
        }
      | _ \<Rightarrow> Some (trigger_rm ''GW_RM_HOLD_FAILED'' arg w))
   })"

definition gw_dm_release :: "int option \<Rightarrow> gwd \<Rightarrow> gwd option" where
  "gw_dm_release arg w = with_job arg w (Some (trigger_rm ''GW_RM_RELEASE_FAILED'' arg w)) (\<lambda>jid. do {
     job \<leftarrow> gw_job_pool_get w jid;
     (case job_job_state job of
        GW_JOB_STATE_HOLD \<Rightarrow> do {
          w \<leftarrow> gw_job_set_state GW_JOB_STATE_PENDING jid w;
          sch_schedule GW_REASON_NONE jid (trigger_rm ''GW_RM_RELEASE_SUCCESS'' arg w)
        }
      | _ \<Rightarrow> Some (trigger_rm ''GW_RM_RELEASE_FAILED'' arg w))
   })"

section \<open>Stop, resume, reschedule (gw_dm_action_stop_resume.c, gw_dm_action_reschedule.c)\<close>

text \<open>\<open>if (job->history != NULL) job->history->reason = reason\<close>\<close>

definition set_reason_if :: "gw_migration_reason \<Rightarrow> int \<Rightarrow> gwd \<Rightarrow> gwd option" where
  "set_reason_if reason jid w = do {
     job \<leftarrow> gw_job_pool_get w jid;
     if hist_at 0 job \<noteq> None then set_reason reason jid w else Some w
   }"

definition reset_drivers :: "int \<Rightarrow> gwd \<Rightarrow> gwd option" where
  "reset_drivers jid w =
     upd_job jid (\<lambda>j. j\<lparr>job_tm_state := GW_TM_STATE_INIT, job_em_state := GW_EM_STATE_INIT\<rparr>) w"

definition gw_dm_stop :: "int option \<Rightarrow> gwd \<Rightarrow> gwd option" where
  "gw_dm_stop arg w = with_job arg w (Some (trigger_rm ''GW_RM_STOP_FAILED'' arg w)) (\<lambda>jid. do {
     job \<leftarrow> gw_job_pool_get w jid;
     (case job_job_state job of
        GW_JOB_STATE_WRAPPER \<Rightarrow> do {
          w \<leftarrow> set_reason_if GW_REASON_STOP_RESUME jid w;
          w \<leftarrow> gw_job_set_state GW_JOB_STATE_STOP_CANCEL jid w;
          w \<leftarrow> unschedule jid w;
          Some (trigger_em ''GW_EM_CANCEL'' arg w)
        }
      | _ \<Rightarrow> Some (trigger_rm ''GW_RM_STOP_FAILED'' arg w))
   })"

definition gw_dm_resume :: "int option \<Rightarrow> gwd \<Rightarrow> gwd option" where
  "gw_dm_resume arg w = with_job arg w (Some (trigger_rm ''GW_RM_RESUME_FAILED'' arg w)) (\<lambda>jid. do {
     job \<leftarrow> gw_job_pool_get w jid;
     (case job_job_state job of
        GW_JOB_STATE_STOPPED \<Rightarrow> do {
          w \<leftarrow> upd_job jid (\<lambda>j. j\<lparr>job_restarted := job_restarted j + 1\<rparr>) w;
          w \<leftarrow> gw_job_set_state GW_JOB_STATE_PENDING jid w;
          w \<leftarrow> reset_drivers jid w;
          sch_schedule GW_REASON_NONE jid (trigger_rm ''GW_RM_RESUME_SUCCESS'' arg w)
        }
      | _ \<Rightarrow> Some (trigger_rm ''GW_RM_RESUME_FAILED'' arg w))
   })"

definition gw_dm_reschedule :: "int option \<Rightarrow> gwd \<Rightarrow> gwd option" where
  "gw_dm_reschedule arg w = with_job arg w (Some (trigger_rm ''GW_RM_RESCHEDULE_FAILED'' arg w)) (\<lambda>jid. do {
     job \<leftarrow> gw_job_pool_get w jid;
     (case job_job_state job of
        GW_JOB_STATE_WRAPPER \<Rightarrow> do {
          w \<leftarrow> upd_job jid (\<lambda>j. j\<lparr>job_reschedule := True\<rparr>) w;
          w \<leftarrow> set_reason GW_REASON_USER_REQUESTED jid w;
          sch_schedule GW_REASON_USER_REQUESTED jid (trigger_rm ''GW_RM_RESCHEDULE_SUCCESS'' arg w)
        }
      | GW_JOB_STATE_FAILED \<Rightarrow> do {
          w \<leftarrow> gw_job_set_state GW_JOB_STATE_PENDING jid w;
          w \<leftarrow> reset_drivers jid w;
          w \<leftarrow> set_reason GW_REASON_USER_REQUESTED jid w;
          w \<leftarrow> upd_job jid (\<lambda>j. j\<lparr>job_restarted := job_restarted j + 1\<rparr>) w;
          sch_schedule GW_REASON_NONE jid (trigger_rm ''GW_RM_RESCHEDULE_SUCCESS'' arg w)
        }
      | _ \<Rightarrow> Some (trigger_rm ''GW_RM_RESCHEDULE_FAILED'' arg w))
   })"

section \<open>Kill (gw_dm_action_kill.c)\<close>

definition set_exit_time :: "int \<Rightarrow> gwd \<Rightarrow> gwd option" where
  "set_exit_time jid w = upd_job jid (\<lambda>j. j\<lparr>job_exit_time := w_now w\<rparr>) w"

text \<open>The job's configuration file and the job go, and its task with it.\<close>

definition drop_job :: "int option \<Rightarrow> int \<Rightarrow> gwd \<Rightarrow> gwd option" where
  "drop_job arg jid w = do {
     job \<leftarrow> gw_job_pool_get w jid;
     let w = w\<lparr>w_conf_file := (w_conf_file w)(jid := False)\<rparr>;
     let w = gw_job_pool_free jid w;
     w \<leftarrow> array_task_done (job_array_id job) (job_task_id job) w;
     Some (trigger_rm ''GW_RM_KILL_SUCCESS'' arg w)
   }"

definition gw_dm_kill :: "int option \<Rightarrow> gwd \<Rightarrow> gwd option" where
  "gw_dm_kill arg w = with_job arg w (Some (trigger_rm ''GW_RM_KILL_FAILED'' arg w)) (\<lambda>jid. do {
     job \<leftarrow> gw_job_pool_get w jid;
     if job_job_state job \<in> {GW_JOB_STATE_INIT, GW_JOB_STATE_PENDING, GW_JOB_STATE_HOLD,
          GW_JOB_STATE_STOPPED}
     then do { w \<leftarrow> set_exit_time jid w; drop_job arg jid w }
     else if job_job_state job \<in> {GW_JOB_STATE_FAILED, GW_JOB_STATE_ZOMBIE}
     then drop_job arg jid w
     else if job_job_state job = GW_JOB_STATE_WRAPPER then do {
       w \<leftarrow> set_reason_if GW_REASON_KILL jid w;
       w \<leftarrow> gw_job_set_state GW_JOB_STATE_KILL_CANCEL jid w;
       w \<leftarrow> unschedule jid w;
       Some (trigger_em ''GW_EM_CANCEL'' arg w)
     }
     else Some (trigger_rm ''GW_RM_KILL_FAILED'' arg w)
   })"

text \<open>
  \<open>gw_dm_kill_hard\<close>: the cases fall through one another; each group of labels is a
  function, entered at the place of the job's state.
\<close>

definition hard_transfer :: "int \<Rightarrow> gwd \<Rightarrow> gwd option" where
  "hard_transfer jid w = do {
     w \<leftarrow> dec_rjobs 0 0 jid w;
     w \<leftarrow> set_exit_time jid w;
     w \<leftarrow> stamp 0 EXIT_TIME jid w;
     w \<leftarrow> upd_job jid (\<lambda>j. j\<lparr>job_tm_state := GW_TM_STATE_HARD_KILL\<rparr>) w;
     job \<leftarrow> gw_job_pool_get w jid;
     r \<leftarrow> hist_at 0 job;
     Some (w\<lparr>w_tm_mad := w_tm_mad w @ [(hist_tm_mad r, TM_END (job_id job))]\<rparr>)
   }"

definition hard_epilog :: "int \<Rightarrow> gwd \<Rightarrow> gwd option" where
  "hard_epilog jid w = do { w \<leftarrow> set_reason GW_REASON_KILL jid w; hard_transfer jid w }"

definition hard_prolog :: "int \<Rightarrow> gwd \<Rightarrow> gwd option" where
  "hard_prolog jid w = do { w \<leftarrow> dec_uslots 0 0 jid w; hard_epilog jid w }"

definition hard_migration :: "int \<Rightarrow> gwd \<Rightarrow> gwd option" where
  "hard_migration jid w = do {
     w \<leftarrow> dec_rjobs 1 0 jid w;
     w \<leftarrow> stamp 1 EXIT_TIME jid w;
     hard_prolog jid w
   }"

definition hard_wrapper :: "int \<Rightarrow> gwd \<Rightarrow> gwd option" where
  "hard_wrapper jid w = do {
     w \<leftarrow> set_reason GW_REASON_KILL jid w;
     w \<leftarrow> dec_slots 0 0 jid w;
     job \<leftarrow> gw_job_pool_get w jid;
     w \<leftarrow> (if job_em_state job = GW_EM_STATE_ACTIVE then dec_ajobs 0 0 jid w else Some w);
     w \<leftarrow> set_exit_time jid w;
     w \<leftarrow> stamp 0 EXIT_TIME jid w;
     w \<leftarrow> set_em_state GW_EM_STATE_HARD_KILL jid w;
     r \<leftarrow> hist_at 0 job;
     Some (w\<lparr>w_em_mad := w_em_mad w @ [(hist_em_mad r, EM_CANCEL jid)]\<rparr>)
   }"

definition hard_cancel :: "int \<Rightarrow> gwd \<Rightarrow> gwd option" where
  "hard_cancel jid w = do {
     w \<leftarrow> dec_slots 0 0 jid w;
     w \<leftarrow> set_exit_time jid w;
     w \<leftarrow> stamp 0 EXIT_TIME jid w;
     set_em_state GW_EM_STATE_HARD_KILL jid w
   }"

definition hard_migr_cancel :: "int \<Rightarrow> gwd \<Rightarrow> gwd option" where
  "hard_migr_cancel jid w = do {
     w \<leftarrow> dec_slots 1 0 jid w;
     w \<leftarrow> stamp 1 EXIT_TIME jid w;
     w \<leftarrow> set_reason GW_REASON_KILL jid w;
     hard_cancel jid w
   }"

fun hard_kill_state :: "gw_job_state \<Rightarrow> (int \<Rightarrow> gwd \<Rightarrow> gwd option) option" where
  "hard_kill_state GW_JOB_STATE_MIGR_PROLOG = Some hard_migration"
| "hard_kill_state GW_JOB_STATE_MIGR_EPILOG = Some hard_migration"
| "hard_kill_state GW_JOB_STATE_PROLOG = Some hard_prolog"
| "hard_kill_state GW_JOB_STATE_EPILOG = Some hard_epilog"
| "hard_kill_state GW_JOB_STATE_EPILOG_STD = Some hard_epilog"
| "hard_kill_state GW_JOB_STATE_EPILOG_RESTART = Some hard_epilog"
| "hard_kill_state GW_JOB_STATE_EPILOG_FAIL = Some hard_epilog"
| "hard_kill_state GW_JOB_STATE_STOP_EPILOG = Some hard_transfer"
| "hard_kill_state GW_JOB_STATE_KILL_EPILOG = Some hard_transfer"
| "hard_kill_state GW_JOB_STATE_PRE_WRAPPER = Some hard_wrapper"
| "hard_kill_state GW_JOB_STATE_WRAPPER = Some hard_wrapper"
| "hard_kill_state GW_JOB_STATE_MIGR_CANCEL = Some hard_migr_cancel"
| "hard_kill_state GW_JOB_STATE_STOP_CANCEL = Some hard_cancel"
| "hard_kill_state GW_JOB_STATE_KILL_CANCEL = Some hard_cancel"
| "hard_kill_state GW_JOB_STATE_INIT = Some set_exit_time"
| "hard_kill_state GW_JOB_STATE_PENDING = Some set_exit_time"
| "hard_kill_state GW_JOB_STATE_HOLD = Some set_exit_time"
| "hard_kill_state GW_JOB_STATE_STOPPED = Some set_exit_time"
| "hard_kill_state GW_JOB_STATE_FAILED = Some (\<lambda>jid w. Some w)"
| "hard_kill_state GW_JOB_STATE_ZOMBIE = Some (\<lambda>jid w. Some w)"
| "hard_kill_state GW_JOB_STATE_LIMIT = None"

definition gw_dm_kill_hard :: "int option \<Rightarrow> gwd \<Rightarrow> gwd option" where
  "gw_dm_kill_hard arg w = with_job arg w (Some (trigger_rm ''GW_RM_KILL_FAILED'' arg w)) (\<lambda>jid. do {
     job \<leftarrow> gw_job_pool_get w jid;
     (case hard_kill_state (job_job_state job) of
        None \<Rightarrow> Some (trigger_rm ''GW_RM_KILL_FAILED'' arg w)
      | Some f \<Rightarrow> do { w \<leftarrow> f jid w; drop_job arg jid w })
   })"

section \<open>Dispatch (gw_dm_action_dispatch.c)\<close>

definition history_path :: "gw_conf \<Rightarrow> int \<Rightarrow> string" where
  "history_path conf jid = take (PATH_MAX - 2) (job_path conf jid @ ''/job.history'')"

text \<open>\<open>gw_job_history_add(&(job->history), host, rank, queue_name, ...)\<close>: its result code.\<close>

definition dispatch_record ::
    "int \<Rightarrow> int \<Rightarrow> string option \<Rightarrow> int \<Rightarrow> gwd \<Rightarrow> (int \<times> gwd) option" where
  "dispatch_record jid host_id queue_name rank w = do {
     job \<leftarrow> gw_job_pool_get w jid;
     host \<leftarrow> pool_get (w_hosts w) host_id;
     (rc, history, line) \<leftarrow> gw_job_history_add (job_history job) host_id host rank queue_name
        (host_fork_name host) (host_lrms_name host) (host_lrms_type host) (job_owner job)
        (job_id job) (job_user_id job) False (w_users w) (w_fresh_record w)
        (w_opens w (history_path (w_conf w) (job_id job)));
     let w = put_job jid (job\<lparr>job_history := history\<rparr>) w;
     Some (rc, w\<lparr>w_history_file := (case line of None \<Rightarrow> w_history_file w
            | Some l \<Rightarrow> (w_history_file w)(job_id job := w_history_file w (job_id job) @ [l]))\<rparr>)
   }"

definition inc_slots :: "int \<Rightarrow> int \<Rightarrow> string option \<Rightarrow> gwd \<Rightarrow> gwd option" where
  "inc_slots jid host_id queue_name w = do {
     job \<leftarrow> gw_job_pool_get w jid;
     on_host host_id (\<lambda>h. gw_host_inc_slots_nb h (jt_np (job_template job)) queue_name) w
   }"

definition user_inc_running :: "int \<Rightarrow> int \<Rightarrow> gwd \<Rightarrow> gwd option" where
  "user_inc_running n jid w = do {
     job \<leftarrow> gw_job_pool_get w jid;
     Some (on_users (\<lambda>p. gw_user_pool_inc_running_jobs p (job_user_id job) n) w)
   }"

definition gw_dm_uncheck_job :: "int \<Rightarrow> gwd \<Rightarrow> gwd option" where
  "gw_dm_uncheck_job jid w =
     (case gw_job_pool_get w jid of
        None \<Rightarrow> Some w
      | Some job \<Rightarrow>
          if hist_at 0 job \<noteq> None \<and> job_job_state job \<noteq> GW_JOB_STATE_PENDING then do {
            w \<leftarrow> upd_job jid (\<lambda>j. j\<lparr>job_reschedule := False\<rparr>) w;
            w \<leftarrow> set_reason GW_REASON_NONE jid w;
            sch_del jid w
          } else Some w)"

definition dispatch_pending ::
    "int \<Rightarrow> int \<Rightarrow> string option \<Rightarrow> int \<Rightarrow> gwd \<Rightarrow> (int \<times> gwd) option" where
  "dispatch_pending jid host_id queue_name rank w = do {
     (rc, w) \<leftarrow> dispatch_record jid host_id queue_name rank w;
     if rc = - 1 then Some (- 1, w)
     else do {
       w \<leftarrow> inc_slots jid host_id queue_name w;
       w \<leftarrow> user_inc_running 1 jid w;
       job \<leftarrow> gw_job_pool_get w jid;
       Some (0, trigger_dm ''GW_DM_STATE_PROLOG'' (Some (job_id job)) w)
     }
   }"

text \<open>The job has become active since it was suspended for too long: no migration.\<close>

definition active_again :: "gw_job \<Rightarrow> bool" where
  "active_again job \<longleftrightarrow>
     map_option hist_reason (hist_at 0 job) = Some GW_REASON_SUSPENSION_TIME
   \<and> job_em_state job = GW_EM_STATE_ACTIVE"

definition dispatch_migration ::
    "int \<Rightarrow> int \<Rightarrow> string option \<Rightarrow> int \<Rightarrow> gwd \<Rightarrow> (int \<times> gwd) option" where
  "dispatch_migration jid host_id queue_name rank w = do {
     job \<leftarrow> gw_job_pool_get w jid;
     if active_again job then do { w \<leftarrow> gw_dm_uncheck_job (job_id job) w; Some (- 1, w) }
     else do {
       (rc, w) \<leftarrow> dispatch_record jid host_id queue_name rank w;
       if rc = - 1 then Some (- 1, w)
       else do {
         w \<leftarrow> upd_job jid (\<lambda>j. j\<lparr>job_restarted := job_restarted j + 1, job_reschedule := False\<rparr>) w;
         w \<leftarrow> inc_slots jid host_id queue_name w;
         Some (0, trigger_dm ''GW_DM_STATE_MIGR_CANCEL'' (Some (job_id job)) w)
       }
     }
   }"

definition gw_dm_dispatch_job ::
    "int \<Rightarrow> int \<Rightarrow> string option \<Rightarrow> int \<Rightarrow> gwd \<Rightarrow> (int \<times> gwd) option" where
  "gw_dm_dispatch_job jid host_id queue_name rank w =
     (case gw_job_pool_get w jid of
        None \<Rightarrow> Some (- 1, w)
      | Some job \<Rightarrow> (case pool_get (w_hosts w) host_id of
            None \<Rightarrow> Some (- 1, w)
          | Some host \<Rightarrow>
              if job_job_state job = GW_JOB_STATE_PENDING
              then dispatch_pending jid host_id queue_name rank w
              else if job_job_state job = GW_JOB_STATE_WRAPPER
              then dispatch_migration jid host_id queue_name rank w
              else Some (- 1, w)))"

section \<open>Scheduling (gw_dm_action_schedule.c)\<close>

definition gw_dm_check_job_suspension :: "int \<Rightarrow> gwd \<Rightarrow> gwd option" where
  "gw_dm_check_job_suspension jid w = do {
     job \<leftarrow> gw_job_pool_get w jid;
     let suspension_timeout = jt_suspension_timeout (job_template job);
     if suspension_timeout > 0 \<and> job_em_state job \<in> {GW_EM_STATE_PENDING, GW_EM_STATE_SUSPENDED}
     then do {
       r \<leftarrow> hist_at 0 job;
       let total_suspension_time =
         hist_stats r SUSPENSION_TIME + w_now w - hist_stats r LAST_SUSPENSION_TIME;
       if total_suspension_time > suspension_timeout then do {
         w \<leftarrow> upd_job jid (\<lambda>j. j\<lparr>job_reschedule := True\<rparr>) w;
         w \<leftarrow> set_reason GW_REASON_SUSPENSION_TIME jid w;
         w \<leftarrow> sch_failed GW_REASON_SUSPENSION_TIME jid w;
         sch_schedule GW_REASON_SUSPENSION_TIME jid w
       } else Some w
     } else Some w
   }"

definition gw_dm_check_job_rescheduling :: "int \<Rightarrow> gwd \<Rightarrow> gwd option" where
  "gw_dm_check_job_rescheduling jid w = do {
     job \<leftarrow> gw_job_pool_get w jid;
     let rescheduling_timeout = jt_rescheduling_interval (job_template job);
     let last_rescheduling_time = job_last_rescheduling_time job;
     if rescheduling_timeout > 0 then
       (if last_rescheduling_time = 0 then
          upd_job jid (\<lambda>j. j\<lparr>job_last_rescheduling_time :=
            w_now w - conf_scheduling_interval (w_conf w)\<rparr>) w
        else if w_now w - last_rescheduling_time > rescheduling_timeout then do {
          let exec_time = gw_job_history_get_wrapper_time (w_now w) (hist_at 0 job);
          w \<leftarrow> (if exec_time < jt_rescheduling_threshold (job_template job) then do {
              w \<leftarrow> upd_job jid (\<lambda>j. j\<lparr>job_reschedule := True\<rparr>) w;
              w \<leftarrow> set_reason GW_REASON_RESCHEDULING_TIMEOUT jid w;
              sch_schedule GW_REASON_RESCHEDULING_TIMEOUT jid w
            } else Some w);
          upd_job jid (\<lambda>j. j\<lparr>job_last_rescheduling_time := w_now w\<rparr>) w
        }
        else Some w)
     else Some w
   }"

definition gw_dm_check_job :: "int \<Rightarrow> gwd \<Rightarrow> gwd option" where
  "gw_dm_check_job jid w = do {
     job \<leftarrow> gw_job_pool_get w jid;
     let reason = (case hist_at 0 job of None \<Rightarrow> GW_REASON_NONE | Some r \<Rightarrow> hist_reason r);
     if job_job_state job = GW_JOB_STATE_WRAPPER \<and> reason = GW_REASON_NONE then do {
       w \<leftarrow> gw_dm_check_job_suspension jid w;
       gw_dm_check_job_rescheduling jid w
     } else Some w
   }"

fun check_jobs_from :: "int \<Rightarrow> nat \<Rightarrow> gwd \<Rightarrow> gwd option" where
  "check_jobs_from i 0 w = Some w"
| "check_jobs_from i (Suc k) w = do {
     w \<leftarrow> (if gw_job_pool_get w i = None then Some w else gw_dm_check_job i w);
     check_jobs_from (i + 1) k w
   }"

definition gw_dm_schedule :: "gwd \<Rightarrow> gwd option" where
  "gw_dm_schedule w =
     (if w_scheduling w then Some w
      else do {
        w \<leftarrow> check_jobs_from 0 (nat (conf_number_of_jobs (w_conf w))) (w\<lparr>w_scheduling := True\<rparr>);
        Some (send_sch [gw_dm_mad_schedule] w)
      })"

section \<open>Submission (gw_dm_action_allocate.c)\<close>

text \<open>
  The user of a submission: registered already, or added.  The identifier, whether the
  user was added, and the state; an identifier \<open>None\<close> is a failed registration.
\<close>

definition submit_user :: "gw_msg_submit \<Rightarrow> gwd \<Rightarrow> (int option \<times> bool \<times> gwd) option" where
  "submit_user msg w =
     (let (known, uid) = gw_user_pool_exists (w_users w) (msg_owner msg) (msg_proxy_path msg) in
      if known then Some (Some uid, False, w)
      else do {
        (rc, uid, users, ms) \<leftarrow> gw_user_pool_user_allocate (w_conf w) (w_starts w)
           (msg_owner msg) (msg_proxy_path msg) (w_users w);
        Some (if rc \<noteq> 0 then None else uid, True, send_sch ms (w\<lparr>w_users := users\<rparr>))
      })"

text \<open>\<open>gw_job_fill(job, msg_submit)\<close>: the job's directory is made anew.\<close>

definition fill_job :: "int \<Rightarrow> gw_msg_submit \<Rightarrow> gwd \<Rightarrow> (int \<times> gwd) option" where
  "fill_job jid msg w = do {
     job \<leftarrow> gw_job_pool_get w jid;
     let removed = w_runs w (''rm -rf '' @ job_directory job);
     let cleared = (removed \<and> w_runs w (''mkdir -m 775 -p '' @ job_directory job));
     let conf_opens = w_opens w (job_directory job @ ''/job.conf'');
     (rc, job') \<leftarrow> gw_job_fill (w_conf w) cleared conf_opens job msg;
     let w = (if removed then w\<lparr>w_state_file := (w_state_file w)(job_id job := []),
                w_history_file := (w_history_file w)(job_id job := []),
                w_conf_file := (w_conf_file w)(job_id job := False)\<rparr> else w);
     let w = (if cleared \<and> conf_opens
              then w\<lparr>w_conf_file := (w_conf_file w)(job_id job := True)\<rparr> else w);
     Some (rc, put_job jid job' w)
   }"

definition initial_state :: "gw_msg_submit \<Rightarrow> gw_job_state" where
  "initial_state msg = (if msg_init_state msg = GW_JOB_STATE_PENDING
     then GW_JOB_STATE_PENDING else GW_JOB_STATE_HOLD)"

text \<open>\<open>if (msg_submit->jt.job_deps[0] != -1) gw_job_pool_dep_set(jid, ...)\<close>\<close>

definition submit_deps :: "int \<Rightarrow> gw_msg_submit \<Rightarrow> gwd \<Rightarrow> gwd option" where
  "submit_deps jid msg w = do {
     d \<leftarrow> rd (ct_job_deps (msg_jt msg)) 0;
     if d \<noteq> - 1 then gw_job_pool_dep_set jid (ct_job_deps (msg_jt msg)) w else Some w
   }"

definition user_inc_jobs :: "int \<Rightarrow> int \<Rightarrow> gwd \<Rightarrow> gwd" where
  "user_inc_jobs uid n w = on_users (\<lambda>p. gw_user_pool_inc_jobs p uid n) w"

text \<open>The answer to a submission that has succeeded, and the news for the scheduler.\<close>

definition jalloc_reply :: "gw_msg_submit \<Rightarrow> int \<Rightarrow> bool \<Rightarrow> int \<Rightarrow> gwd \<Rightarrow> gwd" where
  "jalloc_reply msg uid useradd jid w =
     (let w = (if useradd then w else user_inc_jobs uid 1 w);
          w = submit_reply GW_RC_SUCCESS (msg\<lparr>msg_array_id := - 1, msg_job_id := jid\<rparr>) w
      in if msg_init_state msg = GW_JOB_STATE_PENDING
         then send_sch [JOB_SCHEDULE jid (- 1) uid GW_REASON_NONE] w else w)"

definition jalloc_job :: "gw_msg_submit \<Rightarrow> int \<Rightarrow> bool \<Rightarrow> int \<Rightarrow> gwd \<Rightarrow> gwd option" where
  "jalloc_job msg uid useradd jid w = do {
     (rc, w) \<leftarrow> fill_job jid msg w;
     if rc = - 1 then Some (submit_reply GW_RC_FAILED msg (gw_job_pool_free jid w))
     else do {
       w \<leftarrow> gw_job_set_state (initial_state msg) jid w;
       w \<leftarrow> reset_drivers jid w;
       w \<leftarrow> upd_job jid (\<lambda>j. j\<lparr>job_user_id := uid,
              job_fixed_priority := msg_fixed_priority msg\<rparr>) w;
       w \<leftarrow> submit_deps jid msg w;
       Some (jalloc_reply msg uid useradd jid w)
     }
   }"

definition gw_dm_jalloc :: "gw_msg_submit \<Rightarrow> gwd \<Rightarrow> gwd option" where
  "gw_dm_jalloc msg w = do {
     (user, useradd, w) \<leftarrow> submit_user msg w;
     (case user of
        None \<Rightarrow> Some (submit_reply GW_RC_FAILED_USER msg w)
      | Some uid \<Rightarrow> do {
          (jid, w) \<leftarrow> gw_job_pool_allocate w;
          if jid = - 1 then Some (submit_reply GW_RC_FAILED_NO_MEMORY msg w)
          else if gw_job_pool_get w jid = None then Some (submit_reply GW_RC_FAILED_BAD_JOB_ID msg w)
          else jalloc_job msg uid useradd jid w
        })
   }"

text \<open>
  The tasks of an array, one after another; \<open>gw_job_fill\<close> is called before the pointer
  is tested and its result is not read.
\<close>

fun alloc_tasks :: "gw_msg_submit \<Rightarrow> int \<Rightarrow> int \<Rightarrow> int list \<Rightarrow> gwd \<Rightarrow> gwd option" where
  "alloc_tasks msg array_id uid [] w = Some w"
| "alloc_tasks msg array_id uid (jid # jids) w = do {
     (_, w) \<leftarrow> fill_job jid msg w;
     w \<leftarrow> gw_job_set_state (initial_state msg) jid w;
     w \<leftarrow> reset_drivers jid w;
     w \<leftarrow> upd_job jid (\<lambda>j. j\<lparr>job_user_id := uid, job_pstart := msg_pstart msg,
            job_pinc := msg_pinc msg, job_fixed_priority := msg_fixed_priority msg\<rparr>) w;
     let w = (if msg_init_state msg = GW_JOB_STATE_PENDING
              then send_sch [JOB_SCHEDULE jid array_id uid GW_REASON_NONE] w else w);
     w \<leftarrow> submit_deps jid msg w;
     alloc_tasks msg array_id uid jids w
   }"

definition gw_dm_aalloc :: "gw_msg_submit \<Rightarrow> gwd \<Rightarrow> gwd option" where
  "gw_dm_aalloc msg w = do {
     (user, useradd, w) \<leftarrow> submit_user msg w;
     (case user of
        None \<Rightarrow> Some (submit_reply GW_RC_FAILED_USER msg w)
      | Some uid \<Rightarrow> do {
          (rc, array_id, w) \<leftarrow> gw_array_pool_array_allocate (msg_number_of_tasks msg) w;
          if rc \<noteq> 0 then Some (submit_reply GW_RC_FAILED_NO_MEMORY msg w)
          else (case gw_array_pool_get_array (w_arrays w) array_id of
            None \<Rightarrow> Some (submit_reply GW_RC_FAILED_BAD_ARRAY_ID msg w)
          | Some array \<Rightarrow> do {
              w \<leftarrow> alloc_tasks msg array_id uid
                     (take (nat (msg_number_of_tasks msg)) (arr_job_ids array)) w;
              let w = user_inc_jobs uid (msg_number_of_tasks msg - of_bool useradd) w;
              Some (submit_reply GW_RC_SUCCESS (msg\<lparr>msg_array_id := array_id\<rparr>) w)
            })
        })
   }"

section \<open>The scheduler's answers (gw_dm_listener.c)\<close>

text \<open>\<open>strtok_r(s, ":", &lasts)\<close>: the token and the rest.\<close>

definition strtok_colon :: "string \<Rightarrow> (string \<times> string) option" where
  "strtok_colon s =
     (let s = dropWhile (\<lambda>c. c = CHR '':'') s in
      if s = [] then None
      else Some (takeWhile (\<lambda>c. c \<noteq> CHR '':'') s, drop 1 (dropWhile (\<lambda>c. c \<noteq> CHR '':'') s)))"

text \<open>A line of the scheduler, read into its four fields.\<close>

definition dm_listener_message ::
    "string \<Rightarrow> string \<Rightarrow> string \<Rightarrow> string \<Rightarrow> gwd \<Rightarrow> gwd option" where
  "dm_listener_message action s_id result info w =
     (if action = ''SCHEDULE_JOB'' then
        (if result = ''SUCCESS'' then
           (case strtok_colon info of
              None \<Rightarrow> Some w
            | Some (s_host_id, rest) \<Rightarrow>
                (case strtok_colon rest of
                   None \<Rightarrow> Some w
                 | Some (queue_name, s_rank) \<Rightarrow> map_option snd
                     (gw_dm_dispatch_job (atoi s_id) (atoi s_host_id) (Some queue_name)
                        (atoi s_rank) w)))
         else gw_dm_uncheck_job (atoi s_id) w)
      else if action = ''SCHEDULE_END'' then Some (w\<lparr>w_scheduling := False\<rparr>)
      else Some w)"

text \<open>The scheduler is gone: it is started again and told of users, hosts and jobs.\<close>

definition dm_listener_recover :: "(gw_host gw_pool \<Rightarrow> sch_msg list) \<Rightarrow> bool \<Rightarrow> gwd \<Rightarrow> gwd" where
  "dm_listener_recover hosts_recover reloaded w =
     (let w = w\<lparr>w_scheduling := True\<rparr>;
          w = (if reloaded then
                 (let w = send_sch (gw_user_pool_dm_recover (w_users w)) w;
                      w = send_sch (hosts_recover (w_hosts w)) w
                  in gw_job_pool_dm_recover w)
               else w)
      in w\<lparr>w_scheduling := False\<rparr>)"

end
