(* ===== verification/Dm_Frame.thy ===== *)
theory Dm_Frame
  imports Dm_Actions
begin

text \<open>
  What a handler of the dispatch manager may do to the state.  \<open>job_step jid S\<close> is
  the contract of an operation on one job: the other jobs, the dependencies, the
  arrays and the configuration stay; the job stays in its slot under its
  identifier and either keeps its state or enters one of \<open>S\<close>; hosts stay in the
  pool; and every action it posts to the dispatch manager has a registered handler
  and the job's identifier.  Each primitive of \<open>Gw_World\<close> keeps the contract, it
  composes, and every handler is shown to keep it by following its text.
\<close>

section \<open>The registered names (gw_dm_init)\<close>

text \<open>The actions whose argument is a job, then all of them in the order of registration.\<close>

definition dm_names :: "string list" where
  "dm_names =
     [''GW_DM_HOLD'',
      ''GW_DM_RELEASE'', ''GW_DM_STOP'', ''GW_DM_RESUME'', ''GW_DM_KILL'', ''GW_DM_KILL_HARD'',
      ''GW_DM_WAIT'', ''GW_DM_RESCHEDULE'', ''GW_DM_PROLOG_DONE'', ''GW_DM_PROLOG_FAILED'',
      ''GW_DM_EPILOG_DONE'', ''GW_DM_EPILOG_FAILED'', ''GW_DM_WRAPPER_DONE'',
      ''GW_DM_WRAPPER_FAILED'', ''GW_DM_STATE_PROLOG'', ''GW_DM_STATE_MIGR_PROLOG'',
      ''GW_DM_STATE_PRE_WRAPPER'', ''GW_DM_STATE_WRAPPER'', ''GW_DM_STATE_EPILOG'',
      ''GW_DM_STATE_EPILOG_STD'', ''GW_DM_STATE_MIGR_EPILOG'', ''GW_DM_STATE_STOP_EPILOG'',
      ''GW_DM_STATE_KILL_EPILOG'', ''GW_DM_STATE_EPILOG_FAIL'', ''GW_DM_STATE_EPILOG_RESTART'',
      ''GW_DM_STATE_MIGR_CANCEL'', ''GW_DM_STATE_PENDING'', ''GW_DM_STATE_ZOMBIE'',
      ''GW_DM_STATE_FAILED'', ''GW_DM_STATE_STOPPED'']"

definition dm_registered :: "string list" where
  "dm_registered = [''GW_ACTION_FINALIZE'', ''GW_DM_ALLOCATE_JOB'', ''GW_DM_ALLOCATE_ARRAY'']
     @ dm_names @ [''GW_ACTION_TIMER'']"

text \<open>The actions of the other managers (gw_em_init, gw_tm_init, gw_rm_init) that carry a job.\<close>

definition em_names :: "string list" where
  "em_names =
     [''GW_EM_SUBMIT'', ''GW_EM_CANCEL'', ''GW_EM_STATE_PENDING'', ''GW_EM_STATE_ACTIVE'',
      ''GW_EM_STATE_SUSPENDED'', ''GW_EM_STATE_DONE'', ''GW_EM_STATE_FAILED'']"

definition tm_names :: "string list" where
  "tm_names = [''GW_TM_PROLOG'', ''GW_TM_EPILOG'']"

definition rm_names :: "string list" where
  "rm_names =
     [''GW_RM_CONNECTION'', ''GW_RM_CONNECTION_SUBMIT'', ''GW_RM_SUBMIT'', ''GW_RM_HOLD_SUCCESS'',
      ''GW_RM_HOLD_FAILED'', ''GW_RM_RELEASE_SUCCESS'', ''GW_RM_RELEASE_FAILED'',
      ''GW_RM_KILL_SUCCESS'', ''GW_RM_KILL_FAILED'', ''GW_RM_RESCHEDULE_SUCCESS'',
      ''GW_RM_RESCHEDULE_FAILED'', ''GW_RM_STOP_SUCCESS'', ''GW_RM_STOP_FAILED'',
      ''GW_RM_RESUME_SUCCESS'', ''GW_RM_RESUME_FAILED'', ''GW_RM_WAIT_SUCCESS'',
      ''GW_RM_WAIT_FAILED'']"

text \<open>The names the handlers post.\<close>

lemma em_names_posted [simp]:
  "''GW_EM_SUBMIT'' \<in> set em_names" "''GW_EM_CANCEL'' \<in> set em_names"
  by (simp_all add: em_names_def)

lemma tm_names_posted [simp]:
  "''GW_TM_PROLOG'' \<in> set tm_names" "''GW_TM_EPILOG'' \<in> set tm_names"
  by (simp_all add: tm_names_def)

lemma rm_names_posted [simp]:
  "''GW_RM_SUBMIT'' \<in> set rm_names"
  "''GW_RM_HOLD_SUCCESS'' \<in> set rm_names" "''GW_RM_HOLD_FAILED'' \<in> set rm_names"
  "''GW_RM_RELEASE_SUCCESS'' \<in> set rm_names" "''GW_RM_RELEASE_FAILED'' \<in> set rm_names"
  "''GW_RM_KILL_SUCCESS'' \<in> set rm_names" "''GW_RM_KILL_FAILED'' \<in> set rm_names"
  "''GW_RM_RESCHEDULE_SUCCESS'' \<in> set rm_names" "''GW_RM_RESCHEDULE_FAILED'' \<in> set rm_names"
  "''GW_RM_STOP_SUCCESS'' \<in> set rm_names" "''GW_RM_STOP_FAILED'' \<in> set rm_names"
  "''GW_RM_RESUME_SUCCESS'' \<in> set rm_names" "''GW_RM_RESUME_FAILED'' \<in> set rm_names"
  "''GW_RM_WAIT_SUCCESS'' \<in> set rm_names" "''GW_RM_WAIT_FAILED'' \<in> set rm_names"
  by (simp_all add: rm_names_def)

lemma dm_names_posted [simp]:
  "''GW_DM_KILL'' \<in> set dm_names"
  "''GW_DM_PROLOG_FAILED'' \<in> set dm_names"
  "''GW_DM_STATE_PROLOG'' \<in> set dm_names"
  "''GW_DM_STATE_MIGR_PROLOG'' \<in> set dm_names"
  "''GW_DM_STATE_PRE_WRAPPER'' \<in> set dm_names"
  "''GW_DM_STATE_WRAPPER'' \<in> set dm_names"
  "''GW_DM_STATE_EPILOG'' \<in> set dm_names"
  "''GW_DM_STATE_EPILOG_STD'' \<in> set dm_names"
  "''GW_DM_STATE_MIGR_EPILOG'' \<in> set dm_names"
  "''GW_DM_STATE_STOP_EPILOG'' \<in> set dm_names"
  "''GW_DM_STATE_KILL_EPILOG'' \<in> set dm_names"
  "''GW_DM_STATE_EPILOG_FAIL'' \<in> set dm_names"
  "''GW_DM_STATE_EPILOG_RESTART'' \<in> set dm_names"
  "''GW_DM_STATE_MIGR_CANCEL'' \<in> set dm_names"
  "''GW_DM_STATE_PENDING'' \<in> set dm_names"
  "''GW_DM_STATE_ZOMBIE'' \<in> set dm_names"
  "''GW_DM_STATE_FAILED'' \<in> set dm_names"
  "''GW_DM_STATE_STOPPED'' \<in> set dm_names"
  by (simp_all add: dm_names_def)

section \<open>The contract\<close>

text \<open>What was appended to a queue.\<close>

definition appended :: "string list \<Rightarrow> action_queue \<Rightarrow> action_queue \<Rightarrow> bool" where
  "appended names q q' \<longleftrightarrow> (\<exists>r. q' = q @ r \<and> fst ` set r \<subseteq> set names)"

lemma appended_refl [simp]: "appended names q q"
  by (simp add: appended_def)

lemma appended_one [simp]: "appended names q (q @ [(a, arg)]) \<longleftrightarrow> a \<in> set names"
  by (simp add: appended_def)

lemma appended_trans: "appended names q q1 \<Longrightarrow> appended names q1 q2 \<Longrightarrow> appended names q q2"
  unfolding appended_def
proof (elim exE conjE)
  fix r r'
  assume "q1 = q @ r" "fst ` set r \<subseteq> set names" "q2 = q1 @ r'" "fst ` set r' \<subseteq> set names"
  then show "\<exists>r. q2 = q @ r \<and> fst ` set r \<subseteq> set names"
    by (intro exI [of _ "r @ r'"]) (simp add: image_Un)
qed

lemma appended_names: "appended names q q' \<Longrightarrow> fst ` set q \<subseteq> set names \<Longrightarrow> fst ` set q' \<subseteq> set names"
  unfolding appended_def by (elim exE conjE) (simp add: image_Un)

definition posts_known :: "gwd \<Rightarrow> gwd \<Rightarrow> bool" where
  "posts_known w w' \<longleftrightarrow> appended dm_names (w_dm w) (w_dm w') \<and> appended em_names (w_em w) (w_em w')
     \<and> appended tm_names (w_tm w) (w_tm w') \<and> appended rm_names (w_rm w) (w_rm w')"

lemma posts_known_refl:
  "w_dm w' = w_dm w \<Longrightarrow> w_em w' = w_em w \<Longrightarrow> w_tm w' = w_tm w \<Longrightarrow> w_rm w' = w_rm w \<Longrightarrow>
     posts_known w w'"
  by (simp add: posts_known_def)

lemma posts_known_trans: "posts_known w w1 \<Longrightarrow> posts_known w1 w2 \<Longrightarrow> posts_known w w2"
  unfolding posts_known_def by (blast intro: appended_trans)

definition posts_only :: "int \<Rightarrow> gwd \<Rightarrow> gwd \<Rightarrow> bool" where
  "posts_only jid w w' \<longleftrightarrow> posts_known w w'
     \<and> (\<exists>q. w_dm w' = w_dm w @ q \<and> set q \<subseteq> set dm_names \<times> {Some jid})"

definition job_step :: "int \<Rightarrow> gw_job_state set \<Rightarrow> gwd \<Rightarrow> gwd \<Rightarrow> bool" where
  "job_step jid S w w' \<longleftrightarrow>
     (\<forall>k. k \<noteq> jid \<longrightarrow> gw_job_pool_get w' k = gw_job_pool_get w k)
   \<and> rel_option (\<lambda>j j'. job_id j' = job_id j \<and> job_job_state j' \<in> insert (job_job_state j) S)
       (gw_job_pool_get w jid) (gw_job_pool_get w' jid)
   \<and> pool_size (w_jobs w') = pool_size (w_jobs w)
   \<and> w_conf w' = w_conf w \<and> w_deps w' = w_deps w \<and> w_arrays w' = w_arrays w
   \<and> (\<forall>i. pool_get (w_hosts w') i = None \<longleftrightarrow> pool_get (w_hosts w) i = None)
   \<and> posts_only jid w w'"

lemma posts_only_refl:
  "w_dm w' = w_dm w \<Longrightarrow> w_em w' = w_em w \<Longrightarrow> w_tm w' = w_tm w \<Longrightarrow> w_rm w' = w_rm w \<Longrightarrow>
     posts_only jid w w'"
  by (simp add: posts_only_def posts_known_refl)

lemma posts_only_trans: "posts_only jid w w1 \<Longrightarrow> posts_only jid w1 w2 \<Longrightarrow> posts_only jid w w2"
  unfolding posts_only_def
proof (elim exE conjE, intro conjI)
  fix q q'
  assume "w_dm w1 = w_dm w @ q" "set q \<subseteq> set dm_names \<times> {Some jid}"
    "w_dm w2 = w_dm w1 @ q'" "set q' \<subseteq> set dm_names \<times> {Some jid}"
  then show "\<exists>q. w_dm w2 = w_dm w @ q \<and> set q \<subseteq> set dm_names \<times> {Some jid}"
    by (intro exI [of _ "q @ q'"]) simp
qed (rule posts_known_trans)

lemma job_step_refl [simp, intro]: "job_step jid S w w"
  by (auto simp: job_step_def posts_only_refl intro: option.rel_refl)

lemma job_step_trans:
  assumes "job_step jid S w w1" and "job_step jid S w1 w2"
  shows "job_step jid S w w2"
proof -
  let ?R = "\<lambda>j j'. job_id j' = job_id j \<and> job_job_state j' \<in> insert (job_job_state j) S"
  have "?R x z" if "?R x y" "?R y z" for x y z :: gw_job using that by auto
  with assms show ?thesis
    unfolding job_step_def
    by (auto intro: posts_only_trans elim!: option.rel_cases)
qed

lemma job_step_mono: "job_step jid S w w' \<Longrightarrow> S \<subseteq> T \<Longrightarrow> job_step jid T w w'"
  unfolding job_step_def by (auto elim!: option.rel_mono_strong)

text \<open>Sequences of operations.\<close>

lemma steps_bind:
  "keeps (job_step jid S w) m \<Longrightarrow> (\<And>w1. m = Some w1 \<Longrightarrow> keeps (job_step jid S w1) (f w1)) \<Longrightarrow>
     keeps (job_step jid S w) (Option.bind m f)"
  by (cases m) (auto simp: keeps_def split: option.splits intro: job_step_trans)

lemma steps_then:
  "job_step jid S w w1 \<Longrightarrow> keeps (job_step jid S w1) m \<Longrightarrow> keeps (job_step jid S w) m"
  by (auto simp: keeps_def split: option.splits intro: job_step_trans)

lemma steps_read:
  "(\<And>x. m = Some x \<Longrightarrow> keeps (job_step jid S w) (f x)) \<Longrightarrow>
     keeps (job_step jid S w) (Option.bind m f)"
  by (cases m) auto

lemma steps_with_job:
  "keeps (job_step jid S w) unknown \<Longrightarrow> keeps (job_step jid S w) (body jid) \<Longrightarrow>
     keeps (job_step jid S w) (with_job (Some jid) w unknown body)"
  by (simp add: with_job_def split: option.split)


section \<open>The primitives\<close>

named_theorems step_rules \<open>operations that keep the contract of a handler\<close>

lemmas steps_read_types [step_rules] =
  steps_read [where 'a = gw_job] steps_read [where 'a = gw_history] steps_read [where 'a = gw_host]
  steps_read [where 'a = bool] steps_read [where 'a = int] steps_read [where 'a = "gw_user gw_pool"]

lemmas [step_rules] = steps_bind steps_with_job

lemma step_done [step_rules]: "keeps (job_step jid S w) (Some w)"
  by simp

lemma step_put_job:
  "gw_job_pool_get w jid = Some j \<Longrightarrow> job_id j' = job_id j \<Longrightarrow>
     job_job_state j' \<in> insert (job_job_state j) S \<Longrightarrow> job_step jid S w (put_job jid j' w)"
  by (auto simp: job_step_def posts_only_refl)

text \<open>Fields the contract does not mention.\<close>

lemma step_fields:
  "job_step jid S w (w\<lparr>w_state_file := sf\<rparr>)" "job_step jid S w (w\<lparr>w_seg := sg\<rparr>)"
  "job_step jid S w (w\<lparr>w_users := us\<rparr>)" "job_step jid S w (w\<lparr>w_sch := ms\<rparr>)"
  "job_step jid S w (w\<lparr>w_submit := su\<rparr>)"
  "job_step jid S w (w\<lparr>w_em_mad := em\<rparr>)" "job_step jid S w (w\<lparr>w_tm_mad := tm\<rparr>)"
  "job_step jid S w (w\<lparr>w_history_file := hf\<rparr>)" "job_step jid S w (w\<lparr>w_conf_file := cf\<rparr>)"
  "job_step jid S w (w\<lparr>w_scheduling := b\<rparr>)" "job_step jid S w (w\<lparr>w_contact_file := ctf\<rparr>)"
  by (auto simp: job_step_def posts_only_refl intro: option.rel_refl)

lemma step_trigger:
  "a \<in> set em_names \<Longrightarrow> job_step jid S w (trigger_em a arg w)"
  "b \<in> set tm_names \<Longrightarrow> job_step jid S w (trigger_tm b arg w)"
  "c \<in> set rm_names \<Longrightarrow> job_step jid S w (trigger_rm c arg w)"
  "job_step jid S w (send_sch ms w)" "job_step jid S w (on_users f w)"
  by (auto simp: job_step_def posts_only_def posts_known_def trigger_em_def trigger_tm_def
      trigger_rm_def send_sch_def on_users_def gw_job_pool_get_def Let_def
      split: prod.split intro: option.rel_refl)

lemma step_trigger_dm: "a \<in> set dm_names \<Longrightarrow> job_step jid S w (trigger_dm a (Some jid) w)"
  by (auto simp: job_step_def trigger_dm_def posts_only_def posts_known_def intro: option.rel_refl)

lemma steps_end [step_rules]:
  "a \<in> set em_names \<Longrightarrow> keeps (job_step jid S w) (Some (trigger_em a arg w))"
  "a \<in> set tm_names \<Longrightarrow> keeps (job_step jid S w) (Some (trigger_tm a arg w))"
  "a \<in> set rm_names \<Longrightarrow> keeps (job_step jid S w) (Some (trigger_rm a arg w))"
  "keeps (job_step jid S w) (Some (send_sch ms w))"
  "keeps (job_step jid S w) (Some (on_users f w))"
  "a \<in> set dm_names \<Longrightarrow> keeps (job_step jid S w) (Some (trigger_dm a (Some jid) w))"
  by (simp_all add: step_trigger step_trigger_dm)

lemma step_set_state [step_rules]:
  assumes "s \<in> S" shows "keeps (job_step jid S w) (gw_job_set_state s jid w)"
proof (rule keepsI)
  fix w'
  assume "gw_job_set_state s jid w = Some w'"
  then obtain job sf seg where "gw_job_pool_get w jid = Some job"
    "w' = (put_job jid (job\<lparr>job_job_state := s\<rparr>) w)\<lparr>w_state_file := sf, w_seg := seg\<rparr>"
    by (auto dest: gw_job_set_state_form)
  with assms show "job_step jid S w w'"
    by (auto intro!: job_step_trans [OF _ step_fields(2)] job_step_trans [OF _ step_fields(1)]
        step_put_job)
qed

lemma step_upd_job [step_rules]:
  assumes "\<And>j. job_id (f j) = job_id j \<and> job_job_state (f j) = job_job_state j"
  shows "keeps (job_step jid S w) (upd_job jid f w)"
  by (auto simp: upd_job_def assms intro!: steps_read step_put_job)

lemma step_upd_hist [step_rules]: "keeps (job_step jid S w) (upd_hist k jid f w)"
  by (auto simp: upd_hist_def intro!: steps_read step_put_job)

lemma step_stamp [step_rules]: "keeps (job_step jid S w) (stamp k s jid w)"
  by (simp add: stamp_def step_upd_hist)

lemma step_set_reason [step_rules]: "keeps (job_step jid S w) (set_reason r jid w)"
  by (simp add: set_reason_def step_upd_hist)

lemma step_on_host [step_rules]: "keeps (job_step jid S w) (on_host hid f w)"
proof (rule keepsI)
  fix w'
  assume "on_host hid f w = Some w'"
  then obtain h where g: "pool_get (w_hosts w) hid = Some h"
    and w': "(let (h', ms) = f h
      in Some (send_sch ms (w\<lparr>w_hosts := pool_store (w_hosts w) hid (Some h')\<rparr>))) = Some w'"
    by (auto simp only: on_host_def bind_Some_iff)
  obtain h' ms where "f h = (h', ms)" by (cases "f h")
  with g w' have h: "pool_get (w_hosts w) hid = Some h"
    "w' = send_sch ms (w\<lparr>w_hosts := pool_store (w_hosts w) hid (Some h')\<rparr>)" by simp_all
  have "job_step jid S w (w\<lparr>w_hosts := pool_store (w_hosts w) hid (Some h')\<rparr>)"
    using h(1) by (auto simp: job_step_def posts_only_refl intro: option.rel_refl)
  then show "job_step jid S w w'"
    unfolding h(2) by (rule job_step_trans) (rule step_trigger)
qed

lemma step_on_hist_host [step_rules]: "keeps (job_step jid S w) (on_hist_host k jid f w)"
  by (auto simp: on_hist_host_def intro!: steps_read step_on_host)

lemma step_host_counters [step_rules]:
  "keeps (job_step jid S w) (dec_rjobs k q jid w)" "keeps (job_step jid S w) (dec_uslots k q jid w)"
  "keeps (job_step jid S w) (dec_slots k q jid w)" "keeps (job_step jid S w) (dec_ajobs k q jid w)"
  by (simp_all add: dec_rjobs_def dec_uslots_def dec_slots_def dec_ajobs_def step_on_hist_host)

lemma step_messages [step_rules]:
  "keeps (job_step jid S w) (user_dec_running jid w)"
  "keeps (job_step jid S w) (sch_schedule r jid w)" "keeps (job_step jid S w) (sch_failed r jid w)"
  "keeps (job_step jid S w) (sch_del jid w)"
  by (auto simp: user_dec_running_def sch_schedule_def sch_failed_def sch_del_def step_trigger
      intro!: steps_read)

text \<open>The same after a message has been posted.\<close>

lemma step_messages_after [step_rules]:
  assumes "job_step jid S w w1"
  shows "keeps (job_step jid S w) (user_dec_running jid w1)"
    "keeps (job_step jid S w) (sch_schedule r jid w1)" "keeps (job_step jid S w) (sch_del jid w1)"
    "keeps (job_step jid S w) (dec_rjobs k q jid w1)"
  using steps_then [OF assms] by (simp_all add: step_messages step_host_counters)

lemmas [step_rules] = step_trigger step_trigger_dm

lemma step_unschedule [step_rules]: "keeps (job_step jid S w) (unschedule jid w)"
  by (auto simp: unschedule_def intro!: steps_read_types steps_bind step_upd_job step_messages)

text \<open>Functions that build transfers change the transfers only.\<close>

lemma step_set_xfrs:
  assumes "\<And>j j'. f j = Some j' \<Longrightarrow> \<exists>x. j' = j\<lparr>job_xfrs := x\<rparr>"
  shows "keeps (job_step jid S w) (set_xfrs f jid w)"
proof (rule keepsI)
  fix w'
  assume "set_xfrs f jid w = Some w'"
  then obtain job job' where j: "gw_job_pool_get w jid = Some job" "f job = Some job'"
    "w' = put_job jid job' w" by (auto simp: set_xfrs_def bind_Some_iff)
  from assms [OF j(2)] j(1,3) show "job_step jid S w w'" by (auto intro!: step_put_job)
qed

lemma epilog_xfrs_frame: "epilog_xfrs junk j n l es = Some j' \<Longrightarrow> \<exists>x. j' = j\<lparr>job_xfrs := x\<rparr>"
  by (auto simp: epilog_xfrs_def Let_def bind_Some_iff)

lemma xfrs_frame:
  "gw_dm_prolog_set_files junk wbe j = Some j' \<Longrightarrow> \<exists>x. j' = j\<lparr>job_xfrs := x\<rparr>"
  "epilog_std_xfrs junk j = Some j' \<Longrightarrow> \<exists>x. j' = j\<lparr>job_xfrs := x\<rparr>"
  "migr_epilog_xfrs junk j = Some j' \<Longrightarrow> \<exists>x. j' = j\<lparr>job_xfrs := x\<rparr>"
  "stop_epilog_xfrs junk j = Some j' \<Longrightarrow> \<exists>x. j' = j\<lparr>job_xfrs := x\<rparr>"
  "wrapper_epilog_xfrs junk wbe j = Some j' \<Longrightarrow> \<exists>x. j' = j\<lparr>job_xfrs := x\<rparr>"
  "final_epilog_xfrs junk j = Some j' \<Longrightarrow> \<exists>x. j' = j\<lparr>job_xfrs := x\<rparr>"
  "restart_epilog_xfrs junk j = Some j' \<Longrightarrow> \<exists>x. j' = j\<lparr>job_xfrs := x\<rparr>"
  by (auto simp: gw_dm_prolog_set_files_def epilog_std_xfrs_def migr_epilog_xfrs_def
      stop_epilog_xfrs_def wrapper_epilog_xfrs_def final_epilog_xfrs_def restart_epilog_xfrs_def
      Let_def bind_Some_iff split: if_splits dest!: epilog_xfrs_frame)

lemma step_xfrs [step_rules]:
  "keeps (job_step jid S w) (set_xfrs (gw_dm_prolog_set_files junk wbe) jid w)"
  "keeps (job_step jid S w) (set_xfrs (epilog_std_xfrs junk) jid w)"
  "keeps (job_step jid S w) (set_xfrs (migr_epilog_xfrs junk) jid w)"
  "keeps (job_step jid S w) (set_xfrs (stop_epilog_xfrs junk) jid w)"
  "keeps (job_step jid S w) (set_xfrs (wrapper_epilog_xfrs junk wbe) jid w)"
  "keeps (job_step jid S w) (set_xfrs (final_epilog_xfrs junk) jid w)"
  "keeps (job_step jid S w) (set_xfrs (restart_epilog_xfrs junk) jid w)"
  by (rule step_set_xfrs, erule xfrs_frame)+

section \<open>The handlers of states\<close>

lemma step_notify_failed [step_rules]: "keeps (job_step jid S w) (notify_failed jid w)"
  by (auto simp: notify_failed_def intro!: step_rules)

lemma step_prolog_start [step_rules]: "keeps (job_step jid S w) (prolog_start (Some jid) jid w)"
  by (auto simp: prolog_start_def intro!: step_rules)

lemma step_wrapper_epilog [step_rules]: "keeps (job_step jid S w) (wrapper_epilog jid w)"
  by (auto simp: wrapper_epilog_def intro!: step_rules)

lemma step_reschedule_or_fail: "job_step jid S w (reschedule_or_fail (Some jid) job w)"
  by (simp add: reschedule_or_fail_def step_trigger_dm)

lemma steps_reschedule_or_fail [step_rules]:
  "keeps (job_step jid S w) (Some (reschedule_or_fail (Some jid) job w))"
  by (simp add: step_reschedule_or_fail)

lemma step_restart_next [step_rules]: "keeps (job_step jid S w) (restart_next (Some jid) jid w)"
  by (auto simp: restart_next_def step_trigger_dm step_reschedule_or_fail intro!: steps_read_types)

lemma step_pending: "keeps (job_step jid {GW_JOB_STATE_PENDING} w) (gw_dm_pending (Some jid) w)"
  by (auto simp: gw_dm_pending_def intro!: step_rules)

lemma step_failed: "keeps (job_step jid {GW_JOB_STATE_FAILED} w) (gw_dm_failed (Some jid) w)"
  by (auto simp: gw_dm_failed_def Let_def intro!: step_rules)

lemma step_stopped: "keeps (job_step jid {GW_JOB_STATE_STOPPED} w) (gw_dm_stopped (Some jid) w)"
  by (auto simp: gw_dm_stopped_def intro!: step_rules)

lemma step_prolog: "keeps (job_step jid {GW_JOB_STATE_PROLOG} w) (gw_dm_prolog (Some jid) w)"
  by (auto simp: gw_dm_prolog_def intro!: step_rules)

lemma step_migr_prolog:
  "keeps (job_step jid {GW_JOB_STATE_MIGR_PROLOG} w) (gw_dm_migr_prolog (Some jid) w)"
  by (auto simp: gw_dm_migr_prolog_def intro!: step_rules)

lemma step_prolog_done: "keeps (job_step jid {} w) (gw_dm_prolog_done_cb (Some jid) w)"
  by (auto simp: gw_dm_prolog_done_cb_def intro!: step_rules)

lemma step_prolog_failed: "keeps (job_step jid {} w) (gw_dm_prolog_failed_cb (Some jid) w)"
  by (auto simp: gw_dm_prolog_failed_cb_def intro!: step_rules)

lemma step_pre_wrapper:
  "keeps (job_step jid {GW_JOB_STATE_PRE_WRAPPER} w) (gw_dm_pre_wrapper (Some jid) w)"
  by (auto simp: gw_dm_pre_wrapper_def intro!: step_rules)

lemma step_wrapper: "keeps (job_step jid {GW_JOB_STATE_WRAPPER} w) (gw_dm_wrapper (Some jid) w)"
  by (auto simp: gw_dm_wrapper_def intro!: step_rules)


lemma step_wrapper_done: "keeps (job_step jid {} w) (gw_dm_wrapper_done_cb (Some jid) w)"
  by (auto simp: gw_dm_wrapper_done_cb_def intro!: step_rules split: gw_job_state.split)

lemma step_wrapper_failed: "keeps (job_step jid {} w) (gw_dm_wrapper_failed_cb (Some jid) w)"
  by (auto simp: gw_dm_wrapper_failed_cb_def intro!: step_rules split: gw_job_state.split)

lemma step_epilog_std:
  "keeps (job_step jid {GW_JOB_STATE_EPILOG_STD} w) (gw_dm_epilog_std (Some jid) w)"
  by (auto simp: gw_dm_epilog_std_def intro!: step_rules)

lemma step_migr_epilog:
  "keeps (job_step jid {GW_JOB_STATE_MIGR_EPILOG} w) (gw_dm_migr_epilog (Some jid) w)"
  by (auto simp: gw_dm_migr_epilog_def intro!: step_rules)

lemma step_stop_epilog:
  "keeps (job_step jid {GW_JOB_STATE_STOP_EPILOG} w) (gw_dm_stop_epilog (Some jid) w)"
  by (auto simp: gw_dm_stop_epilog_def intro!: step_rules)

lemma step_kill_epilog:
  "keeps (job_step jid {GW_JOB_STATE_KILL_EPILOG} w) (gw_dm_kill_epilog (Some jid) w)"
  by (auto simp: gw_dm_kill_epilog_def intro!: step_rules)

lemma step_epilog_fail:
  "keeps (job_step jid {GW_JOB_STATE_EPILOG_FAIL} w) (gw_dm_epilog_fail (Some jid) w)"
  by (auto simp: gw_dm_epilog_fail_def intro!: step_rules)

lemma step_epilog: "keeps (job_step jid {GW_JOB_STATE_EPILOG} w) (gw_dm_epilog (Some jid) w)"
  by (auto simp: gw_dm_epilog_def intro!: step_rules)

lemma step_epilog_restart:
  "keeps (job_step jid {GW_JOB_STATE_EPILOG_RESTART} w) (gw_dm_epilog_restart (Some jid) w)"
  by (auto simp: gw_dm_epilog_restart_def intro!: step_rules)

lemma steps_value: "keeps (job_step jid S w) m \<Longrightarrow>
    keeps (\<lambda>(x, w'). job_step jid S w w') (do { w \<leftarrow> m; Some (x, w) })"
  by (cases m) auto

lemma steps_bind_value:
  "keeps (\<lambda>(x, w'). job_step jid S w w') m \<Longrightarrow>
   (\<And>x w1. m = Some (x, w1) \<Longrightarrow> keeps (job_step jid S w1) (f x w1)) \<Longrightarrow>
     keeps (job_step jid S w) (do { (x, w1) \<leftarrow> m; f x w1 })"
  by (cases m) (auto simp: keeps_def split: option.splits intro: job_step_trans)

lemma step_parse_wrapper_std:
  "keeps (\<lambda>(x, w'). job_step jid S w w') (gw_dm_epilog_parse_wrapper_std jid w)"
proof -
  have bind: "keeps (\<lambda>(x, w'). job_step jid S w w') (do { w \<leftarrow> m; f w })"
    if "keeps (job_step jid S w) m"
      "\<And>w1. m = Some w1 \<Longrightarrow> keeps (\<lambda>(x, w'). job_step jid S w1 w') (f w1)"
    for m and f :: "gwd \<Rightarrow> (int \<times> gwd) option" and w
    using that by (cases m) (auto simp: keeps_def split: option.splits intro: job_step_trans)
  show ?thesis
    by (cases "gw_job_pool_get w jid")
      (auto simp: gw_dm_epilog_parse_wrapper_std_def Let_def split: prod.split option.split
        intro!: bind steps_value step_set_reason step_upd_job)
qed

lemma step_epilog_times:
  "epilog_times jid w = Some m \<Longrightarrow> keeps (job_step jid S w) m"
  by (auto simp: epilog_times_def split: option.splits if_splits intro!: step_rules)

lemma step_epilog_done: "keeps (job_step jid {} w) (gw_dm_epilog_done_cb (Some jid) w)"
  by (auto simp: gw_dm_epilog_done_cb_def split: option.split gw_job_state.split
      intro!: steps_bind_value step_parse_wrapper_std step_reschedule_or_fail step_rules
      elim!: step_epilog_times)

lemma step_epilog_failed: "keeps (job_step jid {} w) (gw_dm_epilog_failed_cb (Some jid) w)"
  by (auto simp: gw_dm_epilog_failed_cb_def split: option.split gw_job_state.split
      intro!: step_reschedule_or_fail step_rules elim!: step_epilog_times)

section \<open>The requests\<close>

lemma step_set_reason_if [step_rules]: "keeps (job_step jid S w) (set_reason_if r jid w)"
  by (auto simp: set_reason_if_def intro!: step_rules)

lemma step_reset_drivers [step_rules]: "keeps (job_step jid S w) (reset_drivers jid w)"
  by (auto simp: reset_drivers_def intro!: step_rules)

lemma step_wait: "keeps (job_step jid {} w) (gw_dm_wait (Some jid) w)"
  by (auto simp: gw_dm_wait_def intro!: step_rules split: gw_job_state.split)

text \<open>The state a request leads to is fixed by the state it finds.\<close>

definition state_is :: "gwd \<Rightarrow> int \<Rightarrow> gw_job_state \<Rightarrow> bool" where
  "state_is w jid s \<longleftrightarrow> map_option job_job_state (gw_job_pool_get w jid) = Some s"

abbreviation only_from :: "gwd \<Rightarrow> int \<Rightarrow> gw_job_state \<Rightarrow> gw_job_state \<Rightarrow> gw_job_state set" where
  "only_from w jid s t \<equiv> {u. u = t \<and> state_is w jid s}"

lemma step_migr_cancel:
  "keeps (job_step jid (only_from w jid GW_JOB_STATE_WRAPPER GW_JOB_STATE_MIGR_CANCEL) w)
     (gw_dm_migr_cancel (Some jid) w)"
  by (auto simp: gw_dm_migr_cancel_def state_is_def intro!: step_rules)

lemma step_hold:
  "keeps (job_step jid (only_from w jid GW_JOB_STATE_PENDING GW_JOB_STATE_HOLD) w)
     (gw_dm_hold (Some jid) w)"
  by (auto simp: gw_dm_hold_def state_is_def intro!: step_rules split: gw_job_state.split)

lemma step_release:
  "keeps (job_step jid (only_from w jid GW_JOB_STATE_HOLD GW_JOB_STATE_PENDING) w)
     (gw_dm_release (Some jid) w)"
  by (auto simp: gw_dm_release_def state_is_def intro!: step_rules split: gw_job_state.split)

lemma step_stop:
  "keeps (job_step jid (only_from w jid GW_JOB_STATE_WRAPPER GW_JOB_STATE_STOP_CANCEL) w)
     (gw_dm_stop (Some jid) w)"
  by (auto simp: gw_dm_stop_def state_is_def intro!: step_rules split: gw_job_state.split)

lemma step_resume:
  "keeps (job_step jid (only_from w jid GW_JOB_STATE_STOPPED GW_JOB_STATE_PENDING) w)
     (gw_dm_resume (Some jid) w)"
  by (auto simp: gw_dm_resume_def state_is_def intro!: step_rules split: gw_job_state.split)

lemma step_reschedule:
  "keeps (job_step jid (only_from w jid GW_JOB_STATE_FAILED GW_JOB_STATE_PENDING) w)
     (gw_dm_reschedule (Some jid) w)"
  by (auto simp: gw_dm_reschedule_def state_is_def intro!: step_rules split: gw_job_state.split)

end
