(* ===== verification/Dm_Machine.thy ===== *)
theory Dm_Machine
  imports Dm_Frame
begin

text \<open>
  The dispatch manager as a machine: its registered handlers, the states each may
  move a job between, and the runs of its loop together with the requests that
  come from the scheduler and from clients.
\<close>

section \<open>Jobs that go, and jobs that are released\<close>

text \<open>\<open>wide_step T D\<close>: every job keeps its identifier and moves along \<open>T\<close>, or goes if \<open>D\<close> allows.\<close>

fun moved ::
    "(gw_job_state \<Rightarrow> gw_job_state \<Rightarrow> bool) \<Rightarrow> bool \<Rightarrow> gw_job option \<Rightarrow> gw_job option \<Rightarrow> bool" where
  "moved T d None after = (after = None)"
| "moved T d (Some j) None = d"
| "moved T d (Some j) (Some j') \<longleftrightarrow> job_id j' = job_id j \<and>
     (job_job_state j' = job_job_state j \<or> T (job_job_state j) (job_job_state j'))"

lemma moved_refl [simp]: "moved T d x x"
  by (cases x) simp_all

lemma moved_trans:
  "moved T1 d x y \<Longrightarrow> moved T2 d y z \<Longrightarrow> (\<And>s t. T1 s t \<Longrightarrow> T s t) \<Longrightarrow> (\<And>s t. T2 s t \<Longrightarrow> T s t) \<Longrightarrow>
   (\<And>s u t. T1 s u \<Longrightarrow> T2 u t \<Longrightarrow> T s t) \<Longrightarrow> moved T d x z"
  by (cases x; cases y; cases z) auto

definition wide_step ::
    "(int \<Rightarrow> gw_job_state \<Rightarrow> gw_job_state \<Rightarrow> bool) \<Rightarrow> (int \<Rightarrow> bool) \<Rightarrow> gwd \<Rightarrow> gwd \<Rightarrow> bool" where
  "wide_step T D w w' \<longleftrightarrow>
     (\<forall>k. moved (T k) (D k) (gw_job_pool_get w k) (gw_job_pool_get w' k))
   \<and> pool_size (w_jobs w') = pool_size (w_jobs w) \<and> w_conf w' = w_conf w
   \<and> length (w_deps w') = length (w_deps w) \<and> (deps_wf w \<longrightarrow> deps_wf w')
   \<and> posts_known w w'"

lemma wide_step_refl [simp]: "wide_step T D w w"
  by (simp add: wide_step_def posts_known_refl)

lemma job_step_deps_wf:
  assumes "job_step jid S w w'" shows "deps_wf w' = deps_wf w"
proof -
  have "gw_job_pool_get w' k = None \<longleftrightarrow> gw_job_pool_get w k = None" for k
    using assms by (cases "k = jid") (auto simp: job_step_def elim: option.rel_cases)
  with assms show ?thesis by (simp add: job_step_def deps_wf_def)
qed

lemma wide_stepI:
  assumes "job_step jid S w w'" and "\<And>s t. state_is w jid s \<Longrightarrow> t \<in> S \<Longrightarrow> T jid s t"
  shows "wide_step T D w w'"
proof -
  have "moved (T k) (D k) (gw_job_pool_get w k) (gw_job_pool_get w' k)" for k
  proof (cases "k = jid")
    case True
    have "rel_option (\<lambda>j j'. job_id j' = job_id j \<and> job_job_state j' \<in> insert (job_job_state j) S)
        (gw_job_pool_get w jid) (gw_job_pool_get w' jid)"
      using assms(1) by (simp add: job_step_def)
    then show ?thesis
      using True assms(2)
      by (cases "gw_job_pool_get w jid"; cases "gw_job_pool_get w' jid") (auto simp: state_is_def)
  next
    case False
    then have "gw_job_pool_get w' k = gw_job_pool_get w k" using assms(1) by (simp add: job_step_def)
    then show ?thesis by simp
  qed
  moreover have "posts_known w w'" using assms(1) by (simp add: job_step_def posts_only_def)
  moreover have "deps_wf w \<longrightarrow> deps_wf w'" by (simp add: job_step_deps_wf [OF assms(1)])
  moreover have "pool_size (w_jobs w') = pool_size (w_jobs w)" "w_conf w' = w_conf w"
    "length (w_deps w') = length (w_deps w)"
    using assms(1) by (simp_all add: job_step_def)
  ultimately show ?thesis unfolding wide_step_def by blast
qed

text \<open>The release of held jobs when a job ends.\<close>

definition released :: "gw_job \<Rightarrow> gw_job \<Rightarrow> bool" where
  "released j j' \<longleftrightarrow> job_id j' = job_id j \<and> (job_job_state j' = job_job_state j \<or>
     job_job_state j = GW_JOB_STATE_HOLD \<and> job_job_state j' = GW_JOB_STATE_PENDING)"

definition dep_step :: "gwd \<Rightarrow> gwd \<Rightarrow> bool" where
  "dep_step w w' \<longleftrightarrow>
     (\<forall>k. rel_option released (gw_job_pool_get w k) (gw_job_pool_get w' k))
   \<and> pool_size (w_jobs w') = pool_size (w_jobs w) \<and> w_conf w' = w_conf w
   \<and> length (w_deps w') = length (w_deps w) \<and> w_dm w' = w_dm w \<and> w_em w' = w_em w
   \<and> w_tm w' = w_tm w \<and> w_rm w' = w_rm w"

lemma released_refl [simp]: "released j j"
  by (simp add: released_def)

lemma released_trans: "released x y \<Longrightarrow> released y z \<Longrightarrow> released x z"
  by (auto simp: released_def)

lemma rel_released_trans:
  "rel_option released x y \<Longrightarrow> rel_option released y z \<Longrightarrow> rel_option released x z"
  by (cases x; cases y; cases z) (auto intro: released_trans)

lemma rel_released_refl [simp]: "rel_option released x x"
  by (cases x) simp_all

lemma dep_step_refl [simp, intro]: "dep_step w w"
  by (simp add: dep_step_def)

lemma dep_step_trans: "dep_step w w1 \<Longrightarrow> dep_step w1 w2 \<Longrightarrow> dep_step w w2"
  unfolding dep_step_def by (auto intro: rel_released_trans)

lemma dep_step_deps: "length d = length (w_deps w) \<Longrightarrow> dep_step w (w\<lparr>w_deps := d\<rparr>)"
  by (simp add: dep_step_def)

lemma dep_step_release:
  assumes "gw_job_pool_get w i = Some job" and "job_job_state job = GW_JOB_STATE_HOLD"
    and "gw_job_set_state GW_JOB_STATE_PENDING i w = Some w1" and "sch_schedule r i w1 = Some w'"
  shows "dep_step w w'"
proof -
  obtain sf seg where
    w1: "w1 = (put_job i (job\<lparr>job_job_state := GW_JOB_STATE_PENDING\<rparr>) w)\<lparr>w_state_file := sf, w_seg := seg\<rparr>"
    using gw_job_set_state_form [OF assms(3)] assms(1) by auto
  obtain ms where w': "w' = send_sch ms w1"
    using assms(4) by (auto simp: sch_schedule_def bind_Some_iff)
  show ?thesis
    using assms(1,2) unfolding w' w1
    by (simp add: dep_step_def send_sch_def released_def)
qed

lemma dep_step_check_one:
  assumes "dep_check_one jid c i w = Some w'" shows "dep_step w w'"
proof -
  obtain e where e: "rd (w_deps w) i = Some e" using assms
    by (auto simp: dep_check_one_def bind_Some_iff)
  show ?thesis
  proof (cases e)
    case None
    with assms e show ?thesis by (simp add: dep_check_one_def)
  next
    case (Some ds)
    with assms e obtain job where job: "gw_job_pool_get w i = Some job"
      by (auto simp: dep_check_one_def bind_Some_iff)
    show ?thesis
    proof (cases "job_job_state job = GW_JOB_STATE_HOLD")
      case hold: True
      with assms e Some job obtain ds' all dep where
        scan: "dep_scan jid (dep_satisfied (job_type_dep job) c) ds = Some (ds', all, dep)"
        by (auto simp: dep_check_one_def bind_Some_iff)
      let ?w = "w\<lparr>w_deps := (w_deps w)[nat i := Some ds']\<rparr>"
      have step: "dep_step w ?w" by (rule dep_step_deps) simp
      show ?thesis
      proof (cases "all \<and> dep")
        case True
        with assms e Some job hold scan obtain w1 where
          "gw_job_set_state GW_JOB_STATE_PENDING i ?w = Some w1"
          "sch_schedule GW_REASON_NONE i w1 = Some w'"
          by (auto simp: dep_check_one_def bind_Some_iff Let_def)
        with job hold have "dep_step ?w w'" by (intro dep_step_release) simp_all
        with step show ?thesis by (rule dep_step_trans)
      next
        case False
        with assms e Some job hold scan step show ?thesis
          by (auto simp: dep_check_one_def Let_def split: if_splits)
      qed
    qed (use assms e Some job in \<open>simp add: dep_check_one_def\<close>)
  qed
qed

lemma dep_step_check_from: "dep_check_from jid c i n w = Some w' \<Longrightarrow> dep_step w w'"
  by (induction jid c i n w arbitrary: w' rule: dep_check_from.induct)
    (auto simp: bind_Some_iff intro: dep_step_trans dest: dep_step_check_one)

lemma dep_step_check: "gw_job_pool_dep_check jid c w = Some w' \<Longrightarrow> dep_step w w'"
  unfolding gw_job_pool_dep_check_def by (rule dep_step_check_from)

lemma dep_check_deps_wf:
  assumes "gw_job_pool_dep_check jid c w = Some w'" and "0 \<le> jid" and "deps_wf w"
  shows "deps_wf w'"
proof -
  have "length (w_deps w) = nat (conf_number_of_jobs (w_conf w))"
    using assms(3) by (simp add: deps_wf_def)
  then show ?thesis
    using dep_check_from_effect [OF assms(3,2), of 0 "nat (conf_number_of_jobs (w_conf w))" c]
      assms(1) by (auto simp: gw_job_pool_dep_check_def)
qed

lemma wide_step_dep:
  assumes d: "dep_step w w'" and wf: "deps_wf w \<Longrightarrow> deps_wf w'"
  shows "wide_step (\<lambda>k s t. s = GW_JOB_STATE_HOLD \<and> t = GW_JOB_STATE_PENDING) D w w'"
proof -
  have "moved (\<lambda>s t. s = GW_JOB_STATE_HOLD \<and> t = GW_JOB_STATE_PENDING) (D k)
      (gw_job_pool_get w k) (gw_job_pool_get w' k)" for k
  proof -
    have "rel_option released (gw_job_pool_get w k) (gw_job_pool_get w' k)"
      using d by (simp add: dep_step_def)
    then show ?thesis
      by (cases "gw_job_pool_get w k"; cases "gw_job_pool_get w' k") (simp_all add: released_def)
  qed
  with d wf show ?thesis unfolding wide_step_def dep_step_def by (simp add: posts_known_refl)
qed

lemma wide_step_trans:
  assumes "wide_step T1 D w w1" and "wide_step T2 D w1 w2"
    and T: "\<And>k s t. T1 k s t \<Longrightarrow> T k s t" "\<And>k s t. T2 k s t \<Longrightarrow> T k s t"
      "\<And>k s u t. T1 k s u \<Longrightarrow> T2 k u t \<Longrightarrow> T k s t"
  shows "wide_step T D w w2"
proof -
  have "moved (T k) (D k) (gw_job_pool_get w k) (gw_job_pool_get w2 k)" for k
  proof (rule moved_trans)
    show "moved (T1 k) (D k) (gw_job_pool_get w k) (gw_job_pool_get w1 k)"
      "moved (T2 k) (D k) (gw_job_pool_get w1 k) (gw_job_pool_get w2 k)"
      using assms(1,2) by (simp_all add: wide_step_def)
  qed (fact T)+
  moreover have "posts_known w w2"
    using assms(1,2) unfolding wide_step_def by (blast intro: posts_known_trans)
  ultimately show ?thesis using assms(1,2) unfolding wide_step_def by simp
qed

text \<open>Steps that leave every state alone can be put before and after another.\<close>

lemma wide_step_idle_before:
  "wide_step (\<lambda>_ _ _. False) D w w1 \<Longrightarrow> wide_step T D w1 w2 \<Longrightarrow> wide_step T D w w2"
  by (erule wide_step_trans) auto

lemma wide_step_idle_after:
  "wide_step T D w w1 \<Longrightarrow> wide_step (\<lambda>_ _ _. False) D w1 w2 \<Longrightarrow> wide_step T D w w2"
  by (erule wide_step_trans) auto

lemma wide_step_idle: "job_step jid {} w w' \<Longrightarrow> wide_step T D w w'"
  by (erule wide_stepI) simp

lemma gw_job_pool_free_get:
  "gw_job_pool_get (gw_job_pool_free jid w) k =
     (if k = jid \<and> jid < conf_number_of_jobs (w_conf w) then None else gw_job_pool_get w k)"
proof (cases "gw_job_pool_get w jid")
  case None
  then show ?thesis by (simp add: gw_job_pool_free_def)
next
  case (Some j)
  then have "pool_get (w_jobs w) jid = Some j" by (simp add: gw_job_pool_get_def)
  moreover from this have "0 \<le> jid" by (auto dest: pool_get_Some_range)
  moreover have "w_jobs (on_users f (send_sch ms w)) = w_jobs w" "w_jobs (on_users f w) = w_jobs w"
    for f ms by (simp_all add: on_users_def send_sch_def split: prod.split)
  ultimately show ?thesis
    using Some by (auto simp: gw_job_pool_free_def Let_def) (auto simp: gw_job_pool_get_def)
qed

lemma gw_job_pool_free_frame [simp]:
  "w_conf (gw_job_pool_free jid w) = w_conf w" "w_dm (gw_job_pool_free jid w) = w_dm w"
  "w_em (gw_job_pool_free jid w) = w_em w" "w_tm (gw_job_pool_free jid w) = w_tm w"
  "w_rm (gw_job_pool_free jid w) = w_rm w"
  "pool_size (w_jobs (gw_job_pool_free jid w)) = pool_size (w_jobs w)"
  "length (w_deps (gw_job_pool_free jid w)) = length (w_deps w)"
  "w_hosts (gw_job_pool_free jid w) = w_hosts w" "w_arrays (gw_job_pool_free jid w) = w_arrays w"
  by (simp_all add: gw_job_pool_free_def Let_def on_users_def send_sch_def
      split: option.split prod.split)

lemma gw_job_pool_free_deps:
  "w_deps (gw_job_pool_free jid w) =
     (if 0 \<le> jid \<and> jid < conf_number_of_jobs (w_conf w) then (w_deps w)[nat jid := None] else w_deps w)"
  by (simp add: gw_job_pool_free_def Let_def on_users_def send_sch_def
      split: option.split prod.split)

lemma gw_job_pool_free_deps_wf:
  assumes "deps_wf w" shows "deps_wf (gw_job_pool_free jid w)"
proof -
  have "dep_row ds \<and> gw_job_pool_get (gw_job_pool_free jid w) i \<noteq> None"
    if r: "rd (w_deps (gw_job_pool_free jid w)) i = Some (Some ds)" for i ds
  proof (cases "i = jid \<and> jid < conf_number_of_jobs (w_conf w)")
    case True
    with r show ?thesis
      by (auto simp: gw_job_pool_free_deps rd_def nth_list_update split: if_splits)
  next
    case False
    then have "rd (w_deps w) i = Some (Some ds)"
      using r by (auto simp: gw_job_pool_free_deps rd_def nth_list_update split: if_splits)
    with assms False show ?thesis by (auto simp: deps_wf_def gw_job_pool_free_get)
  qed
  with assms show ?thesis unfolding deps_wf_def by simp
qed

lemma wide_step_free: "D jid \<Longrightarrow> wide_step T D w (gw_job_pool_free jid w)"
  by (cases "gw_job_pool_get w jid")
    (auto simp: wide_step_def gw_job_pool_free_get gw_job_pool_free_deps_wf posts_known_refl)

lemma wide_step_fields:
  "wide_step T D w (w\<lparr>w_conf_file := c\<rparr>)" "wide_step T D w (w\<lparr>w_arrays := a\<rparr>)"
  "x \<in> set rm_names \<Longrightarrow> wide_step T D w (trigger_rm x arg w)"
  by (simp_all add: wide_step_def trigger_rm_def deps_wf_def posts_known_def)

lemma array_task_done_form: "array_task_done aid tid w = Some w' \<Longrightarrow> \<exists>a. w' = w\<lparr>w_arrays := a\<rparr>"
  by (auto simp: array_task_done_def Let_def bind_Some_iff split: if_splits option.splits)
    (metis gwd.surjective gwd.update_convs(7))+

lemma drop_job_step:
  assumes "drop_job arg jid w = Some w'" and "D jid" shows "wide_step T D w w'"
proof -
  let ?w = "w\<lparr>w_conf_file := (w_conf_file w)(jid := False)\<rparr>"
  obtain aid tid w1 where d: "array_task_done aid tid (gw_job_pool_free jid ?w) = Some w1"
    and w': "w' = trigger_rm ''GW_RM_KILL_SUCCESS'' arg w1"
    using assms(1) by (auto simp: drop_job_def bind_Some_iff Let_def)
  obtain a where a: "w1 = (gw_job_pool_free jid ?w)\<lparr>w_arrays := a\<rparr>"
    using array_task_done_form [OF d] by blast
  show ?thesis unfolding w' a
    by (rule wide_step_idle_before [OF wide_step_fields(1)],
        rule wide_step_idle_before [OF wide_step_free [where D = D, OF assms(2)]],
        rule wide_step_idle_before [OF wide_step_fields(2)], rule wide_step_fields(3) [OF rm_names_posted(6)])
qed

section \<open>Kill and the end of a job\<close>

lemma step_set_exit_time [step_rules]: "keeps (job_step jid S w) (set_exit_time jid w)"
  by (auto simp: set_exit_time_def intro!: step_rules)

lemma step_hard:
  "keeps (job_step jid S w) (hard_transfer jid w)" "keeps (job_step jid S w) (hard_epilog jid w)"
  "keeps (job_step jid S w) (hard_prolog jid w)" "keeps (job_step jid S w) (hard_migration jid w)"
  "keeps (job_step jid S w) (hard_wrapper jid w)" "keeps (job_step jid S w) (hard_cancel jid w)"
  "keeps (job_step jid S w) (hard_migr_cancel jid w)"
  by (auto simp: hard_transfer_def hard_epilog_def hard_prolog_def hard_migration_def
      hard_wrapper_def hard_cancel_def hard_migr_cancel_def step_fields intro!: step_rules)

lemma step_hard_kill_state: "hard_kill_state s = Some f \<Longrightarrow> keeps (job_step jid S w) (f jid w)"
  by (cases s) (auto simp: step_hard step_set_exit_time)

text \<open>The states in which \<open>gw_dm_kill\<close> frees the job at once.\<close>

definition killed_at_once :: "gw_job_state set" where
  "killed_at_once = {GW_JOB_STATE_INIT, GW_JOB_STATE_PENDING, GW_JOB_STATE_HOLD,
     GW_JOB_STATE_STOPPED, GW_JOB_STATE_FAILED, GW_JOB_STATE_ZOMBIE}"

lemma step_drop_after:
  assumes "keeps (job_step jid {} w) m" and "D jid"
  shows "keeps (wide_step T D w) (do { w \<leftarrow> m; drop_job arg jid w })"
proof (rule keepsI)
  fix w'
  assume "(do { w \<leftarrow> m; drop_job arg jid w }) = Some w'"
  then obtain w1 where w1: "m = Some w1" "drop_job arg jid w1 = Some w'"
    by (auto simp: bind_Some_iff)
  then have "job_step jid {} w w1" using assms(1) by (auto dest: keepsD)
  then show "wide_step T D w w'"
    by (rule wide_step_idle_before [OF wide_step_idle drop_job_step [where D = D, OF w1(2) assms(2)]])
qed

lemma step_kill:
  "keeps (wide_step (\<lambda>k s t. k = jid \<and> s = GW_JOB_STATE_WRAPPER \<and> t = GW_JOB_STATE_KILL_CANCEL)
       (\<lambda>k. k = jid \<and> (\<exists>s \<in> killed_at_once. state_is w jid s)) w)
     (gw_dm_kill (Some jid) w)" (is "keeps (wide_step ?T ?D w) _")
proof (cases "gw_job_pool_get w jid")
  case None
  then show ?thesis by (simp add: gw_dm_kill_def with_job_def wide_step_fields)
next
  case (Some job)
  show ?thesis
  proof (cases "job_job_state job = GW_JOB_STATE_WRAPPER")
    case True
    have "keeps (job_step jid {GW_JOB_STATE_KILL_CANCEL} w) (gw_dm_kill (Some jid) w)"
      using True Some by (auto simp: gw_dm_kill_def with_job_def intro!: step_rules)
    then show ?thesis
      using True Some by (auto simp: keeps_def state_is_def split: option.splits elim!: wide_stepI)
  next
    case False
    have D: "?D jid" if "job_job_state job \<in> killed_at_once"
      using that Some by (auto simp: state_is_def)
    let ?drop = "\<lambda>m. do { w \<leftarrow> m; drop_job (Some jid) jid w }"
    consider "job_job_state job \<in> killed_at_once" "gw_dm_kill (Some jid) w = ?drop (set_exit_time jid w)"
      | "job_job_state job \<in> killed_at_once" "gw_dm_kill (Some jid) w = ?drop (Some w)"
      | "gw_dm_kill (Some jid) w = Some (trigger_rm ''GW_RM_KILL_FAILED'' (Some jid) w)"
      using False Some
      by (cases "job_job_state job") (simp_all add: gw_dm_kill_def with_job_def killed_at_once_def)
    then show ?thesis
    proof cases
      case 1
      show ?thesis unfolding 1(2)
        by (rule step_drop_after [where D = "?D"]) (rule step_set_exit_time, rule D [OF 1(1)])
    next
      case 2
      show ?thesis unfolding 2(2)
        by (rule step_drop_after [where D = "?D"]) (simp, rule D [OF 2(1)])
    qed (simp add: wide_step_fields)
  qed
qed

lemma step_kill_hard:
  "keeps (wide_step T (\<lambda>k. k = jid \<and> (\<exists>s \<in> - {GW_JOB_STATE_LIMIT}. state_is w jid s)) w)
     (gw_dm_kill_hard (Some jid) w)" (is "keeps (wide_step T ?D w) _")
proof (cases "gw_job_pool_get w jid")
  case None
  then show ?thesis by (simp add: gw_dm_kill_hard_def with_job_def wide_step_fields)
next
  case (Some job)
  show ?thesis
  proof (cases "hard_kill_state (job_job_state job)")
    case None
    with Some show ?thesis by (simp add: gw_dm_kill_hard_def with_job_def wide_step_fields)
  next
    case f: (Some f)
    then have "job_job_state job \<noteq> GW_JOB_STATE_LIMIT" by auto
    with Some have "?D jid" by (auto simp: state_is_def)
    from step_drop_after [where D = ?D, OF step_hard_kill_state [OF f] this] Some f
    show ?thesis by (simp add: gw_dm_kill_hard_def with_job_def)
  qed
qed

text \<open>A sequence that starts with steps on the job and ends with something else.\<close>

lemma then_bind:
  "keeps (job_step jid S w0) m \<Longrightarrow> (\<And>w1. job_step jid S w0 w1 \<Longrightarrow> keeps Q (f w1)) \<Longrightarrow>
     keeps Q (Option.bind m f)"
  by (cases m) auto

lemma then_ops:
  assumes "job_step jid S w0 w"
  shows "s \<in> S \<Longrightarrow> keeps (job_step jid S w0) (gw_job_set_state s jid w)"
    "keeps (job_step jid S w0) (set_reason r jid w)"
    "keeps (job_step jid S w0) (upd_job jid (\<lambda>j. j\<lparr>job_exit_time := t\<rparr>) w)"
    "keeps (job_step jid S w0) (user_dec_running jid w)"
    "keeps (job_step jid S w0) (dec_rjobs k q jid w)"
    "a \<in> set rm_names \<Longrightarrow> job_step jid S w0 (trigger_rm a arg w)" "job_step jid S w0 (send_sch ms w)"
    "n \<in> set dm_names \<Longrightarrow> job_step jid S w0 (trigger_dm n (Some jid) w)"
  using steps_then [OF assms] job_step_trans [OF assms]
  by (simp_all add: step_set_state step_set_reason step_upd_job step_messages step_host_counters
      step_trigger step_trigger_dm)

lemma then_read:
  "(\<And>x :: gw_history. keeps Q (f x)) \<Longrightarrow> keeps Q (Option.bind m f)"
  "(\<And>x :: gw_host. keeps Q (g x)) \<Longrightarrow> keeps Q (Option.bind m' g)"
  by (auto intro: keeps_bind_any)

definition zombie_move :: "int \<Rightarrow> int \<Rightarrow> gw_job_state \<Rightarrow> gw_job_state \<Rightarrow> bool" where
  "zombie_move jid k s t \<longleftrightarrow>
     (k = jid \<and> s \<in> {GW_JOB_STATE_EPILOG, GW_JOB_STATE_KILL_EPILOG} \<and> t = GW_JOB_STATE_ZOMBIE)
   \<or> (s = GW_JOB_STATE_HOLD \<and> t = GW_JOB_STATE_PENDING)"

lemma zombie_then_dep_check:
  assumes "job_step jid {GW_JOB_STATE_ZOMBIE} w w1" and "state_is w jid GW_JOB_STATE_EPILOG"
  shows "keeps (wide_step (zombie_move jid) D w) (gw_job_pool_dep_check jid c w1)"
proof (rule keepsI)
  fix w'
  assume check: "gw_job_pool_dep_check jid c w1 = Some w'"
  then have d: "dep_step w1 w'" by (rule dep_step_check)
  have "0 \<le> jid"
    using assms(2) by (auto simp: state_is_def gw_job_pool_get_def dest: pool_get_Some_range)
  then have wf: "deps_wf w1 \<Longrightarrow> deps_wf w'" by (rule dep_check_deps_wf [OF check])
  have "wide_step (\<lambda>k s t. k = jid \<and> s = GW_JOB_STATE_EPILOG \<and> t = GW_JOB_STATE_ZOMBIE) D w w1"
    using assms by (auto elim!: wide_stepI simp: state_is_def)
  from wide_step_trans [OF this wide_step_dep [OF d wf]]
  show "wide_step (zombie_move jid) D w w'" by (simp add: zombie_move_def)
qed

lemma zombie_then_drop:
  assumes "job_step jid {GW_JOB_STATE_ZOMBIE} w w1" and "state_is w jid GW_JOB_STATE_KILL_EPILOG"
    and "D jid" and x: "x \<in> set rm_names"
  shows "keeps (wide_step (zombie_move jid) D w)
    (do { w2 \<leftarrow> array_task_done a t (gw_job_pool_free jid (w1\<lparr>w_conf_file := c\<rparr>));
          Some (trigger_rm x arg w2) })"
proof (rule keepsI)
  fix w'
  assume "(do { w2 \<leftarrow> array_task_done a t (gw_job_pool_free jid (w1\<lparr>w_conf_file := c\<rparr>));
          Some (trigger_rm x arg w2) }) = Some w'"
  then obtain b where b: "w' = trigger_rm x arg ((gw_job_pool_free jid (w1\<lparr>w_conf_file := c\<rparr>))\<lparr>w_arrays := b\<rparr>)"
    by (auto simp: bind_Some_iff dest!: array_task_done_form)
  have "wide_step (zombie_move jid) D w w1"
    using assms(1,2) by (auto elim!: wide_stepI simp: state_is_def zombie_move_def)
  then show "wide_step (zombie_move jid) D w w'"
    unfolding b
    by (rule wide_step_idle_after [OF wide_step_idle_after [OF wide_step_idle_after [OF
          wide_step_idle_after [OF _ wide_step_fields(1)] wide_step_free [where D = D, OF assms(3)]]
          wide_step_fields(2)] wide_step_fields(3) [OF x]])
qed

lemma step_zombie:
  "keeps (wide_step (zombie_move jid) (\<lambda>k. k = jid \<and> state_is w jid GW_JOB_STATE_KILL_EPILOG) w)
     (gw_dm_zombie (Some jid) w)" (is "keeps ?Q _")
proof (cases "gw_job_pool_get w jid")
  case None
  then show ?thesis by (simp add: gw_dm_zombie_def with_job_def)
next
  case (Some job)
  note bind = then_bind [where S = "{GW_JOB_STATE_ZOMBIE}" and jid = jid and ?w0.0 = w and Q = ?Q]
  consider "job_job_state job = GW_JOB_STATE_EPILOG" | "job_job_state job = GW_JOB_STATE_KILL_EPILOG"
    | "gw_dm_zombie (Some jid) w = Some w"
    using Some by (cases "job_job_state job") (simp_all add: gw_dm_zombie_def with_job_def)
  then show ?thesis
  proof cases
    case 1
    then have st: "state_is w jid GW_JOB_STATE_EPILOG" using Some by (simp add: state_is_def)
    show ?thesis
      using 1 Some
      by (auto simp: gw_dm_zombie_def with_job_def Let_def
          intro!: bind then_read zombie_then_dep_check [OF _ st] then_ops)
  next
    case 2
    then have st: "state_is w jid GW_JOB_STATE_KILL_EPILOG" using Some by (simp add: state_is_def)
    show ?thesis
      using 2 Some
      by (auto simp: gw_dm_zombie_def with_job_def Let_def
          intro!: bind zombie_then_drop [OF _ st _ rm_names_posted(6)] then_ops conjI [OF refl st])
  qed simp
qed

section \<open>The registered handlers\<close>

text \<open>
  The table of \<open>gw_dm_init\<close>: the actions whose argument is a job identifier.  The two
  allocations take a message, \<open>GW_ACTION_TIMER\<close> runs \<open>gw_dm_schedule\<close> and
  \<open>GW_ACTION_FINALIZE\<close> ends the loop.
\<close>

definition dm_table :: "(string \<times> (int option \<Rightarrow> gwd \<Rightarrow> gwd option)) list" where
  "dm_table =
     [(''GW_DM_HOLD'', gw_dm_hold), (''GW_DM_RELEASE'', gw_dm_release), (''GW_DM_STOP'', gw_dm_stop),
      (''GW_DM_RESUME'', gw_dm_resume), (''GW_DM_KILL'', gw_dm_kill),
      (''GW_DM_KILL_HARD'', gw_dm_kill_hard), (''GW_DM_WAIT'', gw_dm_wait),
      (''GW_DM_RESCHEDULE'', gw_dm_reschedule), (''GW_DM_PROLOG_DONE'', gw_dm_prolog_done_cb),
      (''GW_DM_PROLOG_FAILED'', gw_dm_prolog_failed_cb),
      (''GW_DM_EPILOG_DONE'', gw_dm_epilog_done_cb),
      (''GW_DM_EPILOG_FAILED'', gw_dm_epilog_failed_cb),
      (''GW_DM_WRAPPER_DONE'', gw_dm_wrapper_done_cb),
      (''GW_DM_WRAPPER_FAILED'', gw_dm_wrapper_failed_cb), (''GW_DM_STATE_PROLOG'', gw_dm_prolog),
      (''GW_DM_STATE_MIGR_PROLOG'', gw_dm_migr_prolog),
      (''GW_DM_STATE_PRE_WRAPPER'', gw_dm_pre_wrapper), (''GW_DM_STATE_WRAPPER'', gw_dm_wrapper),
      (''GW_DM_STATE_EPILOG'', gw_dm_epilog), (''GW_DM_STATE_EPILOG_STD'', gw_dm_epilog_std),
      (''GW_DM_STATE_MIGR_EPILOG'', gw_dm_migr_epilog),
      (''GW_DM_STATE_STOP_EPILOG'', gw_dm_stop_epilog),
      (''GW_DM_STATE_KILL_EPILOG'', gw_dm_kill_epilog),
      (''GW_DM_STATE_EPILOG_FAIL'', gw_dm_epilog_fail),
      (''GW_DM_STATE_EPILOG_RESTART'', gw_dm_epilog_restart),
      (''GW_DM_STATE_MIGR_CANCEL'', gw_dm_migr_cancel), (''GW_DM_STATE_PENDING'', gw_dm_pending),
      (''GW_DM_STATE_ZOMBIE'', gw_dm_zombie), (''GW_DM_STATE_FAILED'', gw_dm_failed),
      (''GW_DM_STATE_STOPPED'', gw_dm_stopped)]"

definition dm_handler :: "string \<Rightarrow> (int option \<Rightarrow> gwd \<Rightarrow> gwd option) option" where
  "dm_handler name = map_of dm_table name"

text \<open>
  The moves of a job: by the action, the state the job is in (\<open>None\<close> for any) and the
  state it enters.
\<close>

definition dm_edges :: "(string \<times> gw_job_state option \<times> gw_job_state) list" where
  "dm_edges =
     [(''GW_DM_HOLD'', Some GW_JOB_STATE_PENDING, GW_JOB_STATE_HOLD),
      (''GW_DM_RELEASE'', Some GW_JOB_STATE_HOLD, GW_JOB_STATE_PENDING),
      (''GW_DM_STOP'', Some GW_JOB_STATE_WRAPPER, GW_JOB_STATE_STOP_CANCEL),
      (''GW_DM_RESUME'', Some GW_JOB_STATE_STOPPED, GW_JOB_STATE_PENDING),
      (''GW_DM_KILL'', Some GW_JOB_STATE_WRAPPER, GW_JOB_STATE_KILL_CANCEL),
      (''GW_DM_RESCHEDULE'', Some GW_JOB_STATE_FAILED, GW_JOB_STATE_PENDING),
      (''GW_DM_STATE_PROLOG'', None, GW_JOB_STATE_PROLOG),
      (''GW_DM_STATE_MIGR_PROLOG'', None, GW_JOB_STATE_MIGR_PROLOG),
      (''GW_DM_STATE_PRE_WRAPPER'', None, GW_JOB_STATE_PRE_WRAPPER),
      (''GW_DM_STATE_WRAPPER'', None, GW_JOB_STATE_WRAPPER),
      (''GW_DM_STATE_EPILOG'', None, GW_JOB_STATE_EPILOG),
      (''GW_DM_STATE_EPILOG_STD'', None, GW_JOB_STATE_EPILOG_STD),
      (''GW_DM_STATE_MIGR_EPILOG'', None, GW_JOB_STATE_MIGR_EPILOG),
      (''GW_DM_STATE_STOP_EPILOG'', None, GW_JOB_STATE_STOP_EPILOG),
      (''GW_DM_STATE_KILL_EPILOG'', None, GW_JOB_STATE_KILL_EPILOG),
      (''GW_DM_STATE_EPILOG_FAIL'', None, GW_JOB_STATE_EPILOG_FAIL),
      (''GW_DM_STATE_EPILOG_RESTART'', None, GW_JOB_STATE_EPILOG_RESTART),
      (''GW_DM_STATE_MIGR_CANCEL'', Some GW_JOB_STATE_WRAPPER, GW_JOB_STATE_MIGR_CANCEL),
      (''GW_DM_STATE_PENDING'', None, GW_JOB_STATE_PENDING),
      (''GW_DM_STATE_ZOMBIE'', Some GW_JOB_STATE_EPILOG, GW_JOB_STATE_ZOMBIE),
      (''GW_DM_STATE_ZOMBIE'', Some GW_JOB_STATE_KILL_EPILOG, GW_JOB_STATE_ZOMBIE),
      (''GW_DM_STATE_FAILED'', None, GW_JOB_STATE_FAILED),
      (''GW_DM_STATE_STOPPED'', None, GW_JOB_STATE_STOPPED)]"

definition dm_edge :: "string \<Rightarrow> gw_job_state \<Rightarrow> gw_job_state \<Rightarrow> bool" where
  "dm_edge name s t \<longleftrightarrow> (name, Some s, t) \<in> set dm_edges \<or> (name, None, t) \<in> set dm_edges"

definition dm_move :: "string \<Rightarrow> int \<Rightarrow> int \<Rightarrow> gw_job_state \<Rightarrow> gw_job_state \<Rightarrow> bool" where
  "dm_move name jid k s t \<longleftrightarrow> (k = jid \<and> dm_edge name s t)
     \<or> (name = ''GW_DM_STATE_ZOMBIE'' \<and> s = GW_JOB_STATE_HOLD \<and> t = GW_JOB_STATE_PENDING)"

text \<open>The actions that free a job, and the states in which they do.\<close>

definition dm_frees :: "string \<Rightarrow> gw_job_state set" where
  "dm_frees name =
     (if name = ''GW_DM_KILL'' then killed_at_once
      else if name = ''GW_DM_KILL_HARD'' then - {GW_JOB_STATE_LIMIT}
      else if name = ''GW_DM_STATE_ZOMBIE'' then {GW_JOB_STATE_KILL_EPILOG} else {})"

definition dm_drop :: "string \<Rightarrow> int \<Rightarrow> gwd \<Rightarrow> int \<Rightarrow> bool" where
  "dm_drop name jid w k \<longleftrightarrow> k = jid \<and> (\<exists>s \<in> dm_frees name. state_is w jid s)"

lemma dm_stepI:
  assumes "keeps (job_step jid S w) m" and "\<And>s t. state_is w jid s \<Longrightarrow> t \<in> S \<Longrightarrow> dm_edge name s t"
  shows "keeps (wide_step (dm_move name jid) D w) m"
  using assms by (auto simp: keeps_def dm_move_def split: option.split elim!: wide_stepI)

text \<open>Every entry of the table keeps to the moves of its action.\<close>

lemma dm_table_steps:
  "keeps (wide_step (dm_move ''GW_DM_HOLD'' jid) D w) (gw_dm_hold (Some jid) w)"
  "keeps (wide_step (dm_move ''GW_DM_RELEASE'' jid) D w) (gw_dm_release (Some jid) w)"
  "keeps (wide_step (dm_move ''GW_DM_STOP'' jid) D w) (gw_dm_stop (Some jid) w)"
  "keeps (wide_step (dm_move ''GW_DM_RESUME'' jid) D w) (gw_dm_resume (Some jid) w)"
  "keeps (wide_step (dm_move ''GW_DM_WAIT'' jid) D w) (gw_dm_wait (Some jid) w)"
  "keeps (wide_step (dm_move ''GW_DM_RESCHEDULE'' jid) D w) (gw_dm_reschedule (Some jid) w)"
  "keeps (wide_step (dm_move ''GW_DM_PROLOG_DONE'' jid) D w) (gw_dm_prolog_done_cb (Some jid) w)"
  "keeps (wide_step (dm_move ''GW_DM_PROLOG_FAILED'' jid) D w) (gw_dm_prolog_failed_cb (Some jid) w)"
  "keeps (wide_step (dm_move ''GW_DM_EPILOG_DONE'' jid) D w) (gw_dm_epilog_done_cb (Some jid) w)"
  "keeps (wide_step (dm_move ''GW_DM_EPILOG_FAILED'' jid) D w) (gw_dm_epilog_failed_cb (Some jid) w)"
  "keeps (wide_step (dm_move ''GW_DM_WRAPPER_DONE'' jid) D w) (gw_dm_wrapper_done_cb (Some jid) w)"
  "keeps (wide_step (dm_move ''GW_DM_WRAPPER_FAILED'' jid) D w) (gw_dm_wrapper_failed_cb (Some jid) w)"
  "keeps (wide_step (dm_move ''GW_DM_STATE_PROLOG'' jid) D w) (gw_dm_prolog (Some jid) w)"
  "keeps (wide_step (dm_move ''GW_DM_STATE_MIGR_PROLOG'' jid) D w) (gw_dm_migr_prolog (Some jid) w)"
  "keeps (wide_step (dm_move ''GW_DM_STATE_PRE_WRAPPER'' jid) D w) (gw_dm_pre_wrapper (Some jid) w)"
  "keeps (wide_step (dm_move ''GW_DM_STATE_WRAPPER'' jid) D w) (gw_dm_wrapper (Some jid) w)"
  "keeps (wide_step (dm_move ''GW_DM_STATE_EPILOG'' jid) D w) (gw_dm_epilog (Some jid) w)"
  "keeps (wide_step (dm_move ''GW_DM_STATE_EPILOG_STD'' jid) D w) (gw_dm_epilog_std (Some jid) w)"
  "keeps (wide_step (dm_move ''GW_DM_STATE_MIGR_EPILOG'' jid) D w) (gw_dm_migr_epilog (Some jid) w)"
  "keeps (wide_step (dm_move ''GW_DM_STATE_STOP_EPILOG'' jid) D w) (gw_dm_stop_epilog (Some jid) w)"
  "keeps (wide_step (dm_move ''GW_DM_STATE_KILL_EPILOG'' jid) D w) (gw_dm_kill_epilog (Some jid) w)"
  "keeps (wide_step (dm_move ''GW_DM_STATE_EPILOG_FAIL'' jid) D w) (gw_dm_epilog_fail (Some jid) w)"
  "keeps (wide_step (dm_move ''GW_DM_STATE_EPILOG_RESTART'' jid) D w) (gw_dm_epilog_restart (Some jid) w)"
  "keeps (wide_step (dm_move ''GW_DM_STATE_MIGR_CANCEL'' jid) D w) (gw_dm_migr_cancel (Some jid) w)"
  "keeps (wide_step (dm_move ''GW_DM_STATE_PENDING'' jid) D w) (gw_dm_pending (Some jid) w)"
  "keeps (wide_step (dm_move ''GW_DM_STATE_FAILED'' jid) D w) (gw_dm_failed (Some jid) w)"
  "keeps (wide_step (dm_move ''GW_DM_STATE_STOPPED'' jid) D w) (gw_dm_stopped (Some jid) w)"
  by (rule dm_stepI [OF step_hold] dm_stepI [OF step_release] dm_stepI [OF step_stop]
      dm_stepI [OF step_resume] dm_stepI [OF step_wait] dm_stepI [OF step_reschedule]
      dm_stepI [OF step_prolog_done] dm_stepI [OF step_prolog_failed]
      dm_stepI [OF step_epilog_done] dm_stepI [OF step_epilog_failed]
      dm_stepI [OF step_wrapper_done] dm_stepI [OF step_wrapper_failed]
      dm_stepI [OF step_prolog] dm_stepI [OF step_migr_prolog] dm_stepI [OF step_pre_wrapper]
      dm_stepI [OF step_wrapper] dm_stepI [OF step_epilog] dm_stepI [OF step_epilog_std]
      dm_stepI [OF step_migr_epilog] dm_stepI [OF step_stop_epilog]
      dm_stepI [OF step_kill_epilog] dm_stepI [OF step_epilog_fail]
      dm_stepI [OF step_epilog_restart] dm_stepI [OF step_migr_cancel]
      dm_stepI [OF step_pending] dm_stepI [OF step_failed] dm_stepI [OF step_stopped],
      auto simp: dm_edge_def dm_edges_def state_is_def)+

lemma dm_table_drops:
  "keeps (wide_step (dm_move ''GW_DM_KILL'' jid) (dm_drop ''GW_DM_KILL'' jid w) w)
     (gw_dm_kill (Some jid) w)"
  "keeps (wide_step (dm_move ''GW_DM_KILL_HARD'' jid) (dm_drop ''GW_DM_KILL_HARD'' jid w) w)
     (gw_dm_kill_hard (Some jid) w)"
  "keeps (wide_step (dm_move ''GW_DM_STATE_ZOMBIE'' jid) (dm_drop ''GW_DM_STATE_ZOMBIE'' jid w) w)
     (gw_dm_zombie (Some jid) w)"
proof -
  have "dm_drop ''GW_DM_KILL'' jid w = (\<lambda>k. k = jid \<and> (\<exists>s \<in> killed_at_once. state_is w jid s))"
    "dm_move ''GW_DM_KILL'' jid =
       (\<lambda>k s t. k = jid \<and> s = GW_JOB_STATE_WRAPPER \<and> t = GW_JOB_STATE_KILL_CANCEL)"
    by (auto simp: fun_eq_iff dm_drop_def dm_frees_def dm_move_def dm_edge_def dm_edges_def)
  then show "keeps (wide_step (dm_move ''GW_DM_KILL'' jid) (dm_drop ''GW_DM_KILL'' jid w) w)
      (gw_dm_kill (Some jid) w)" by (simp only: step_kill)
  have "dm_drop ''GW_DM_KILL_HARD'' jid w =
      (\<lambda>k. k = jid \<and> (\<exists>s \<in> - {GW_JOB_STATE_LIMIT}. state_is w jid s))"
    by (auto simp: fun_eq_iff dm_drop_def dm_frees_def)
  then show "keeps (wide_step (dm_move ''GW_DM_KILL_HARD'' jid) (dm_drop ''GW_DM_KILL_HARD'' jid w) w)
      (gw_dm_kill_hard (Some jid) w)" by (simp only: step_kill_hard)
  have "dm_drop ''GW_DM_STATE_ZOMBIE'' jid w =
      (\<lambda>k. k = jid \<and> state_is w jid GW_JOB_STATE_KILL_EPILOG)"
    "dm_move ''GW_DM_STATE_ZOMBIE'' jid = zombie_move jid"
    by (auto simp: fun_eq_iff dm_drop_def dm_frees_def dm_move_def dm_edge_def dm_edges_def
        zombie_move_def)
  then show "keeps (wide_step (dm_move ''GW_DM_STATE_ZOMBIE'' jid) (dm_drop ''GW_DM_STATE_ZOMBIE'' jid w) w)
      (gw_dm_zombie (Some jid) w)" by (simp only: step_zombie)
qed

lemma dm_handler_step:
  assumes "dm_handler name = Some h"
  shows "keeps (wide_step (dm_move name jid) (dm_drop name jid w) w) (h (Some jid) w)"
proof -
  have "(name, h) \<in> set dm_table" using assms by (simp add: dm_handler_def map_of_SomeD)
  then show ?thesis
    unfolding dm_table_def by (auto simp only: list.set insert_iff empty_iff prod.inject
        dm_table_steps dm_table_drops)
qed

lemma dm_handler_null:
  assumes "dm_handler name = Some h"
  shows "h None w = Some w"
proof -
  have "(name, h) \<in> set dm_table" using assms by (simp add: dm_handler_def map_of_SomeD)
  then show ?thesis
    unfolding dm_table_def
    by (auto simp: with_job_def gw_dm_hold_def gw_dm_release_def gw_dm_stop_def gw_dm_resume_def
        gw_dm_kill_def gw_dm_kill_hard_def gw_dm_wait_def gw_dm_reschedule_def
        gw_dm_prolog_done_cb_def gw_dm_prolog_failed_cb_def gw_dm_epilog_done_cb_def
        gw_dm_epilog_failed_cb_def gw_dm_wrapper_done_cb_def gw_dm_wrapper_failed_cb_def
        gw_dm_prolog_def gw_dm_migr_prolog_def gw_dm_pre_wrapper_def gw_dm_wrapper_def
        gw_dm_epilog_def gw_dm_epilog_std_def gw_dm_migr_epilog_def gw_dm_stop_epilog_def
        gw_dm_kill_epilog_def gw_dm_epilog_fail_def gw_dm_epilog_restart_def
        gw_dm_migr_cancel_def gw_dm_pending_def gw_dm_zombie_def gw_dm_failed_def
        gw_dm_stopped_def)
qed

end
