(* ===== verification/Gw_Action.thy ===== *)
theory Gw_Action
  imports Gw_Types
begin

text \<open>
  The action manager of \<open>src/common/gw_action.c\<close>: a table of registered actions
  (name, handler, threaded or sequential) and a linked list of pending actions with
  a counter, from which the loop takes the first one.  Handlers and arguments are
  type parameters; the mutex and the condition variable are left out, so every
  function here is the critical section of the C function.
\<close>

section \<open>Data\<close>

definition GW_ACTION_NUMBER :: nat where
  "GW_ACTION_NUMBER = 40"

definition GW_ACTION_ID_LENGTH :: nat where
  "GW_ACTION_ID_LENGTH = 40"

definition GW_ACTION_FINALIZE :: string where
  "GW_ACTION_FINALIZE = ''GW_ACTION_FINALIZE''"

definition GW_ACTION_TIMER :: string where
  "GW_ACTION_TIMER = ''GW_ACTION_TIMER''"

record 'h gw_action =
  act_threaded :: bool
  act_action_id :: string
  act_handler :: "'h option"

text \<open>A pending action: the index of its entry in the table, and the argument.\<close>

type_synonym 'a gw_action_list = "(int \<times> 'a) list"

record ('h, 'a) gw_am =
  am_pending_actions :: int
  am_action_list :: "'a gw_action_list"
  am_registered_actions :: int
  am_action_rgs :: "'h gw_action list"

section \<open>The list of pending actions\<close>

text \<open>\<open>gw_action_list_add\<close> recurses to the end of the chain.\<close>

fun gw_action_list_add :: "'a gw_action_list \<Rightarrow> int \<Rightarrow> 'a \<Rightarrow> 'a gw_action_list" where
  "gw_action_list_add [] idx arg = [(idx, arg)]"
| "gw_action_list_add (x # xs) idx arg = x # gw_action_list_add xs idx arg"

fun gw_action_list_del :: "'a gw_action_list \<Rightarrow> 'a gw_action_list" where
  "gw_action_list_del [] = []"
| "gw_action_list_del (x # xs) = xs"

lemma gw_action_list_add_append [simp]: "gw_action_list_add xs idx arg = xs @ [(idx, arg)]"
  by (induction xs) auto

lemma gw_action_list_del_tl [simp]: "gw_action_list_del xs = tl xs"
  by (cases xs) auto

section \<open>Operations\<close>

text \<open>
  The scan of \<open>gw_am_is_registered\<close>: from entry \<open>idx\<close> on, until the name is found or
  \<open>idx\<close> is the last registered entry.  The stop test is an equality, so with no
  registered action (\<open>actions = -1\<close>) the scan runs through the whole table.
\<close>

function am_scan :: "'h gw_action list \<Rightarrow> string \<Rightarrow> int \<Rightarrow> nat \<Rightarrow> int option" where
  "am_scan rgs aid actions idx =
     Option.bind (rd rgs (int idx)) (\<lambda>a.
       if act_action_id a = aid then Some (int idx)
       else if int idx = actions then Some (- 1)
       else am_scan rgs aid actions (Suc idx))"
  by pat_completeness auto
termination
  by (relation "measure (\<lambda>(rgs, aid, actions, idx). length rgs - idx)") (auto simp: rd_Some)

declare am_scan.simps [simp del]

definition gw_am_is_registered :: "('h, 'a) gw_am \<Rightarrow> string \<Rightarrow> int option" where
  "gw_am_is_registered am aid =
     am_scan (am_action_rgs am) aid (am_registered_actions am - 1) 0"

definition gw_am_post_action :: "('h, 'a) gw_am \<Rightarrow> int \<Rightarrow> 'a \<Rightarrow> ('h, 'a) gw_am" where
  "gw_am_post_action am idx arg =
     am\<lparr>am_action_list := gw_action_list_add (am_action_list am) idx arg,
        am_pending_actions := am_pending_actions am + 1\<rparr>"

definition gw_am_pop_action :: "('h, 'a) gw_am \<Rightarrow> ('h, 'a) gw_am" where
  "gw_am_pop_action am =
     am\<lparr>am_action_list := gw_action_list_del (am_action_list am),
        am_pending_actions := am_pending_actions am - 1\<rparr>"

definition gw_am_init :: "('h, 'a) gw_am" where
  "gw_am_init =
     \<lparr> am_pending_actions = 0, am_action_list = [], am_registered_actions = 0,
       am_action_rgs = replicate GW_ACTION_NUMBER
         \<lparr> act_threaded = False, act_action_id = '''', act_handler = None \<rparr> \<rparr>"

text \<open>\<open>strcpy\<close> into the 40 byte name overflows for a longer name.\<close>

definition gw_am_register ::
    "string \<Rightarrow> bool \<Rightarrow> 'h \<Rightarrow> ('h, 'a) gw_am \<Rightarrow> (int \<times> ('h, 'a) gw_am) option" where
  "gw_am_register aid threaded h am =
     (let actions = am_registered_actions am in
      if actions \<ge> int GW_ACTION_NUMBER then Some (- 1, am)
      else if length aid \<ge> GW_ACTION_ID_LENGTH then None
      else do {
        rgs \<leftarrow> wr (am_action_rgs am) actions
          \<lparr> act_threaded = threaded, act_action_id = aid, act_handler = Some h \<rparr>;
        Some (0, am\<lparr>am_action_rgs := rgs, am_registered_actions := actions + 1\<rparr>)
      })"

definition gw_am_trigger ::
    "('h, 'a) gw_am \<Rightarrow> string \<Rightarrow> 'a \<Rightarrow> (int \<times> ('h, 'a) gw_am) option" where
  "gw_am_trigger am aid arg = do {
     action_idx \<leftarrow> gw_am_is_registered am aid;
     if action_idx = - 1 then Some (- 1, am)
     else do {
       finalize_idx \<leftarrow> gw_am_is_registered am GW_ACTION_FINALIZE;
       if finalize_idx \<noteq> - 1 \<and> am_action_list am \<noteq> []
          \<and> fst (hd (am_action_list am)) = finalize_idx
       then Some (0, am)
       else Some (0, gw_am_post_action am action_idx arg)
     }
   }"

text \<open>
  One iteration of \<open>gw_am_loop\<close> after the wait: the first pending action is taken
  off the list; the result is its table entry, its argument, whether the loop ends
  and the manager.  A counter that says there is an action while the list is empty
  is a NULL dereference.
\<close>

definition gw_am_loop_body ::
    "('h, 'a) gw_am \<Rightarrow> ('h gw_action \<times> 'a \<times> bool \<times> ('h, 'a) gw_am) option" where
  "gw_am_loop_body am =
     (case am_action_list am of
        [] \<Rightarrow> None
      | (idx, arg) # _ \<Rightarrow> do {
          a \<leftarrow> rd (am_action_rgs am) idx;
          Some (a, arg, act_action_id a = GW_ACTION_FINALIZE, gw_am_pop_action am)
        })"

text \<open>The wait that timed out: the timer action is posted when it is registered.\<close>

definition gw_am_timeout :: "('h, 'a) gw_am \<Rightarrow> 'a \<Rightarrow> ('h, 'a) gw_am option" where
  "gw_am_timeout am timer_args = do {
     idx \<leftarrow> gw_am_is_registered am GW_ACTION_TIMER;
     if idx \<noteq> - 1 then Some (gw_am_post_action am idx timer_args) else Some am
   }"

section \<open>The scan\<close>

lemma am_scan_step:
  "idx < length rgs \<Longrightarrow> am_scan rgs aid actions idx =
     (if act_action_id (rgs ! idx) = aid then Some (int idx)
      else if int idx = actions then Some (- 1) else am_scan rgs aid actions (Suc idx))"
  by (subst am_scan.simps) simp

lemma am_scan_end: "length rgs \<le> idx \<Longrightarrow> am_scan rgs aid actions idx = None"
  by (subst am_scan.simps) (simp add: rd_def)

lemma am_scan_found:
  "am_scan rgs aid actions idx = Some i \<Longrightarrow> i \<noteq> - 1 \<Longrightarrow>
     int idx \<le> i \<and> i < int (length rgs) \<and> act_action_id (rgs ! nat i) = aid
     \<and> (\<forall>j. idx \<le> j \<and> int j < i \<longrightarrow> act_action_id (rgs ! j) \<noteq> aid)"
proof (induction "length rgs - idx" arbitrary: idx)
  case 0
  then show ?case by (simp add: am_scan_end)
next
  case (Suc n)
  then have len: "idx < length rgs" by simp
  show ?case
  proof (cases "act_action_id (rgs ! idx) = aid \<or> int idx = actions")
    case True
    with Suc.prems am_scan_step [OF len, of aid actions]
    have "i = int idx" and "act_action_id (rgs ! idx) = aid"
      by (simp_all split: if_splits)
    moreover from this(1) have "\<not> (idx \<le> j \<and> int j < i)" for j by linarith
    ultimately show ?thesis using len by (simp del: de_Morgan_conj)
  next
    case False
    with Suc.prems am_scan_step [OF len, of aid actions]
    have "am_scan rgs aid actions (Suc idx) = Some i" by simp
    moreover have "n = length rgs - Suc idx" using Suc.hyps(2) by simp
    ultimately have later: "int (Suc idx) \<le> i \<and> i < int (length rgs)
        \<and> act_action_id (rgs ! nat i) = aid
        \<and> (\<forall>j. Suc idx \<le> j \<and> int j < i \<longrightarrow> act_action_id (rgs ! j) \<noteq> aid)"
      using Suc.hyps(1) Suc.prems(2) by blast
    have "act_action_id (rgs ! j) \<noteq> aid" if "idx \<le> j" "int j < i" for j
      using later False that by (cases "j = idx") auto
    with later show ?thesis by simp
  qed
qed

lemma am_scan_hit:
  "idx \<le> k \<Longrightarrow> k < length rgs \<Longrightarrow> int k \<le> actions \<Longrightarrow> act_action_id (rgs ! k) = aid \<Longrightarrow>
   (\<forall>j. idx \<le> j \<and> j < k \<longrightarrow> act_action_id (rgs ! j) \<noteq> aid) \<Longrightarrow>
   am_scan rgs aid actions idx = Some (int k)"
proof (induction "k - idx" arbitrary: idx)
  case 0
  then show ?case by (simp add: am_scan_step)
next
  case (Suc n)
  then have "idx < length rgs" "idx < k" by simp_all
  with Suc show ?case by (simp add: am_scan_step [of idx rgs])
qed

lemma am_scan_miss:
  "idx \<le> k \<Longrightarrow> k < length rgs \<Longrightarrow> actions = int k \<Longrightarrow>
   (\<forall>j. idx \<le> j \<and> j \<le> k \<longrightarrow> act_action_id (rgs ! j) \<noteq> aid) \<Longrightarrow>
   am_scan rgs aid actions idx = Some (- 1)"
proof (induction "k - idx" arbitrary: idx)
  case 0
  then show ?case by (simp add: am_scan_step)
next
  case (Suc n)
  then have "idx < length rgs" "idx < k" by simp_all
  with Suc show ?case by (simp add: am_scan_step [of idx rgs])
qed

lemma am_scan_overrun:
  "(\<forall>j. idx \<le> j \<and> j < length rgs \<longrightarrow> act_action_id (rgs ! j) \<noteq> aid) \<Longrightarrow> actions < 0 \<Longrightarrow>
   am_scan rgs aid actions idx = None"
proof (induction "length rgs - idx" arbitrary: idx)
  case 0
  then show ?case by (simp add: am_scan_end)
next
  case (Suc n)
  then have "idx < length rgs" by simp
  with Suc show ?case by (simp add: am_scan_step [of idx rgs])
qed

section \<open>Invariant of a manager\<close>

text \<open>
  The counter is the length of the list, the pending indices are registered, and
  the registered names are those of the table's prefix.
\<close>

definition am_inv :: "('h, 'a) gw_am \<Rightarrow> bool" where
  "am_inv am \<longleftrightarrow>
     length (am_action_rgs am) = GW_ACTION_NUMBER
   \<and> 0 \<le> am_registered_actions am \<and> am_registered_actions am \<le> int GW_ACTION_NUMBER
   \<and> am_pending_actions am = int (length (am_action_list am))
   \<and> (\<forall>p \<in> set (am_action_list am). 0 \<le> fst p \<and> fst p < int GW_ACTION_NUMBER)"

lemma am_inv_init: "am_inv gw_am_init"
  by (simp add: am_inv_def gw_am_init_def)

lemma am_inv_post:
  "am_inv am \<Longrightarrow> 0 \<le> idx \<Longrightarrow> idx < int GW_ACTION_NUMBER \<Longrightarrow> am_inv (gw_am_post_action am idx arg)"
  by (auto simp: am_inv_def gw_am_post_action_def)

lemma am_inv_pop: "am_inv am \<Longrightarrow> am_action_list am \<noteq> [] \<Longrightarrow> am_inv (gw_am_pop_action am)"
  by (cases "am_action_list am") (auto simp: am_inv_def gw_am_pop_action_def)

lemma is_registered_range:
  "am_inv am \<Longrightarrow> gw_am_is_registered am aid = Some i \<Longrightarrow> i \<noteq> - 1 \<Longrightarrow>
     0 \<le> i \<and> i < int GW_ACTION_NUMBER"
  unfolding gw_am_is_registered_def am_inv_def by (auto dest!: am_scan_found)

lemma am_inv_register:
  "am_inv am \<Longrightarrow> gw_am_register aid threaded h am = Some (rc, am') \<Longrightarrow> am_inv am'"
  by (auto simp: am_inv_def gw_am_register_def Let_def wr_Some bind_Some_iff split: if_splits)

lemma am_inv_trigger:
  assumes "am_inv am" and "gw_am_trigger am aid arg = Some (rc, am')"
  shows "am_inv am'"
proof -
  have "\<exists>idx. gw_am_is_registered am aid = Some idx \<and>
      (am' = am \<or> idx \<noteq> - 1 \<and> am' = gw_am_post_action am idx arg)"
    using assms(2) by (auto simp: gw_am_trigger_def bind_Some_iff split: if_splits)
  with assms(1) show ?thesis by (auto intro!: am_inv_post dest: is_registered_range)
qed

lemma am_inv_loop_body:
  "am_inv am \<Longrightarrow> gw_am_loop_body am = Some (a, arg, fin, am') \<Longrightarrow> am_inv am'"
  by (auto simp: gw_am_loop_body_def bind_Some_iff am_inv_pop split: list.splits)

lemma am_inv_timeout:
  assumes "am_inv am" and "gw_am_timeout am arg = Some am'"
  shows "am_inv am'"
proof -
  have "am' = am \<or> (\<exists>idx. gw_am_is_registered am GW_ACTION_TIMER = Some idx \<and> idx \<noteq> - 1
      \<and> am' = gw_am_post_action am idx arg)"
    using assms(2) by (auto simp: gw_am_timeout_def bind_Some_iff split: if_splits)
  with assms(1) show ?thesis by (auto intro!: am_inv_post dest: is_registered_range)
qed

section \<open>The queue interface\<close>

text \<open>
  What the managers' clients rely on: posting appends, the loop takes the oldest.
\<close>

locale fifo =
  fixes post :: "'q \<Rightarrow> 'e \<Rightarrow> 'q"
    and pop :: "'q \<Rightarrow> 'q"
    and front :: "'q \<Rightarrow> 'e option"
    and contents :: "'q \<Rightarrow> 'e list"
  assumes contents_post: "contents (post q e) = contents q @ [e]"
    and contents_pop: "contents (pop q) = tl (contents q)"
    and front_contents: "front q = (case contents q of [] \<Rightarrow> None | e # _ \<Rightarrow> Some e)"
begin

lemma contents_posts: "contents (fold (\<lambda>e q. post q e) es q) = contents q @ es"
  by (induction es arbitrary: q) (simp_all add: contents_post)

lemma contents_pops: "contents ((pop ^^ n) q) = drop n (contents q)"
  by (induction n) (simp_all add: contents_pop tl_drop drop_Suc)

lemma front_after:
  "n < length (contents q) + length es \<Longrightarrow>
   front ((pop ^^ n) (fold (\<lambda>e q. post q e) es q)) = Some ((contents q @ es) ! n)"
  by (cases "drop n (contents q @ es)")
    (use hd_drop_conv_nth [of n "contents q @ es"] in
      \<open>simp_all add: front_contents contents_pops contents_posts del: drop_append\<close>)

end

definition am_front :: "('h, 'a) gw_am \<Rightarrow> (int \<times> 'a) option" where
  "am_front am = (case am_action_list am of [] \<Rightarrow> None | p # _ \<Rightarrow> Some p)"

interpretation am: fifo "\<lambda>am p. gw_am_post_action am (fst p) (snd p)" gw_am_pop_action
    am_front am_action_list
  by unfold_locales
    (simp_all add: gw_am_post_action_def gw_am_pop_action_def am_front_def)

end
