(* ===== verification/Dm_System.thy ===== *)
theory Dm_System
  imports Dm_Machine Gw_Action
begin

text \<open>
  The daemon's dispatch manager as a system: \<open>gw_dm_init\<close> registers the handlers with
  an action manager, whose queue is shown to be the queue of the model; the loop takes
  actions from it; clients, the drivers, the scheduler and the clock act in between.
  The invariant of the job table, the dependency matrix and the queue is proved over
  all runs.
\<close>

section \<open>Contracts of dispatching and scheduling\<close>

lemma wide_trigger_dm: "a \<in> set dm_names \<Longrightarrow> wide_step T D w (trigger_dm a arg w)"
  by (simp add: wide_step_def trigger_dm_def deps_wf_def posts_known_def)

lemma steps_wide: "keeps (job_step jid {} w) m \<Longrightarrow> keeps (wide_step T D w) m"
  by (auto simp: keeps_def split: option.splits intro: wide_step_idle)

lemma step_dispatch_record:
  "keeps (\<lambda>(rc, w'). job_step jid {} w w') (dispatch_record jid hid q rank w)"
proof (rule keepsI)
  fix x
  assume "dispatch_record jid hid q rank w = Some x"
  then obtain job h hf where x: "gw_job_pool_get w jid = Some job"
    "snd x = (put_job jid (job\<lparr>job_history := h\<rparr>) w)\<lparr>w_history_file := hf\<rparr>"
    by (auto simp: dispatch_record_def bind_Some_iff Let_def)
  have "job_step jid {} w (snd x)"
    unfolding x(2)
    by (rule job_step_trans [OF step_put_job [OF x(1)] step_fields(8)]) simp_all
  then show "case x of (rc, w') \<Rightarrow> job_step jid {} w w'" by (cases x) simp
qed

lemma step_inc_slots [step_rules]: "keeps (job_step jid S w) (inc_slots j hid q w)"
  by (auto simp: inc_slots_def intro!: step_rules)

lemma step_user_inc_running [step_rules]: "keeps (job_step jid S w) (user_inc_running n j w)"
  by (auto simp: user_inc_running_def intro!: step_rules)

lemma step_uncheck: "keeps (job_step jid {} w) (gw_dm_uncheck_job jid w)"
  by (auto simp: gw_dm_uncheck_job_def split: option.split intro!: step_rules)

text \<open>An operation that returns a code with the state.\<close>

abbreviation wide_code where
  "wide_code T D w \<equiv> \<lambda>(rc :: int, w'). wide_step T D w w'"

lemma wide_code_bind:
  assumes "keeps (job_step jid {} w) m" and f: "\<And>w1. keeps (wide_code T D w1) (f w1)"
  shows "keeps (wide_code T D w) (do { w1 \<leftarrow> m; f w1 })"
proof (cases m)
  case (Some w1)
  with assms(1) have "wide_step (\<lambda>_ _ _. False) D w w1" by (auto intro: wide_step_idle)
  then show ?thesis
    using f [of w1] Some by (auto simp: keeps_def split: option.splits elim: wide_step_idle_before)
qed simp

lemma wide_code_bind_code:
  assumes "keeps (\<lambda>(rc, w'). job_step jid {} w w') m"
    and f: "\<And>rc w1. keeps (wide_code T D w1) (f rc w1)"
  shows "keeps (wide_code T D w) (do { (rc, w1) \<leftarrow> m; f rc w1 })"
proof (cases m)
  case (Some x)
  obtain rc w1 where x: "x = (rc, w1)" by (cases x)
  with assms(1) Some have "wide_step (\<lambda>_ _ _. False) D w w1" by (auto intro: wide_step_idle)
  then show ?thesis
    using f [of w1 rc] Some x
    by (auto simp: keeps_def split: option.splits elim: wide_step_idle_before)
qed simp

lemma wide_code_read:
  "(\<And>job :: gw_job. keeps (wide_code T D w) (f job)) \<Longrightarrow>
     keeps (wide_code T D w) (Option.bind m f)"
  by (cases m) auto

lemma wide_dispatch_pending: "keeps (wide_code T D w) (dispatch_pending jid hid q rank w)"
  unfolding dispatch_pending_def
  by (rule wide_code_bind_code [OF step_dispatch_record])
    (auto simp: wide_trigger_dm intro!: wide_code_bind [OF step_inc_slots [of jid]]
      wide_code_bind [OF step_user_inc_running [of jid]] wide_code_read)

lemma wide_dispatch_migration: "keeps (wide_code T D w) (dispatch_migration jid hid q rank w)"
proof (cases "gw_job_pool_get w jid")
  case None
  then show ?thesis by (simp add: dispatch_migration_def)
next
  case (Some job)
  show ?thesis
    using Some unfolding dispatch_migration_def
    by (auto simp: wide_trigger_dm
        intro!: wide_code_bind [OF step_uncheck] wide_code_bind_code [OF step_dispatch_record]
          wide_code_bind [OF step_upd_job] wide_code_bind [OF step_inc_slots])
qed

lemma wide_dispatch: "keeps (wide_code T D w) (gw_dm_dispatch_job jid hid q rank w)"
  by (simp add: gw_dm_dispatch_job_def wide_dispatch_pending wide_dispatch_migration
      split: option.split)

lemma step_check_suspension [step_rules]:
  "keeps (job_step jid S w) (gw_dm_check_job_suspension jid w)"
  by (auto simp: gw_dm_check_job_suspension_def Let_def intro!: step_rules)

lemma step_check_rescheduling [step_rules]:
  "keeps (job_step jid S w) (gw_dm_check_job_rescheduling jid w)"
  by (auto simp: gw_dm_check_job_rescheduling_def Let_def intro!: step_rules)

lemma step_check_job: "keeps (job_step jid {} w) (gw_dm_check_job jid w)"
  by (auto simp: gw_dm_check_job_def Let_def intro!: step_rules)

lemma wide_check_jobs: "keeps (wide_step T D w) (check_jobs_from i k w)"
proof (induction k arbitrary: i w)
  case (Suc k)
  let ?m = "if gw_job_pool_get w i = None then Some w else gw_dm_check_job i w"
  show ?case
  proof (rule keepsI)
    fix w2
    assume "check_jobs_from i (Suc k) w = Some w2"
    then obtain w1 where w1: "?m = Some w1" "check_jobs_from (i + 1) k w1 = Some w2"
      by (auto simp: bind_Some_iff)
    have "keeps (job_step i {} w) ?m" by (simp add: step_check_job)
    then have "job_step i {} w w1" using w1(1) by (rule keepsD)
    moreover have "wide_step T D w1 w2" using Suc.IH w1(2) by (rule keepsD)
    ultimately show "wide_step T D w w2"
      by (rule wide_step_idle_before [OF wide_step_idle])
  qed
qed simp

lemma wide_schedule: "keeps (wide_step T D w) (gw_dm_schedule w)"
proof (rule keepsI)
  fix w'
  assume s: "gw_dm_schedule w = Some w'"
  let ?w = "w\<lparr>w_scheduling := True\<rparr>"
  show "wide_step T D w w'"
  proof (cases "w_scheduling w")
    case True
    with s show ?thesis by (simp add: gw_dm_schedule_def)
  next
    case False
    then obtain w1 where
      w1: "check_jobs_from 0 (nat (conf_number_of_jobs (w_conf w))) ?w = Some w1"
      "w' = send_sch [gw_dm_mad_schedule] w1"
      using s by (auto simp: gw_dm_schedule_def bind_Some_iff)
    have "wide_step (\<lambda>_ _ _. False) D ?w w1"
      using wide_check_jobs w1(1) by (rule keepsD)
    then show ?thesis
      unfolding w1(2)
      by (rule wide_step_idle_before [OF wide_step_idle [OF step_fields(10)]
            wide_step_idle_after [OF _ wide_step_idle [OF step_trigger(4)]],
            OF wide_step_trans]) (rule wide_step_refl, auto)
  qed
qed


section \<open>Contract of submission\<close>

text \<open>\<open>grow_step N\<close>: jobs outside \<open>N\<close> are untouched; identifiers and dependencies stay consistent.\<close>

definition ids_ok :: "gwd \<Rightarrow> bool" where
  "ids_ok w \<longleftrightarrow> (\<forall>i j. gw_job_pool_get w i = Some j \<longrightarrow> job_id j = i)"

definition grow_step :: "int set \<Rightarrow> gwd \<Rightarrow> gwd \<Rightarrow> bool" where
  "grow_step N w w' \<longleftrightarrow>
     (\<forall>k. k \<notin> N \<longrightarrow> gw_job_pool_get w' k = gw_job_pool_get w k)
   \<and> (ids_ok w \<longrightarrow> ids_ok w') \<and> (deps_wf w \<longrightarrow> deps_wf w')
   \<and> pool_size (w_jobs w') = pool_size (w_jobs w) \<and> w_conf w' = w_conf w
   \<and> posts_known w w'"

lemma grow_step_refl [simp, intro]: "grow_step N w w"
  by (simp add: grow_step_def posts_known_refl)

lemma grow_step_trans: "grow_step N w w1 \<Longrightarrow> grow_step N w1 w2 \<Longrightarrow> grow_step N w w2"
  unfolding grow_step_def by (blast intro: posts_known_trans trans)

lemma grow_bind:
  "keeps (grow_step N w) m \<Longrightarrow> (\<And>w1. m = Some w1 \<Longrightarrow> grow_step N w w1 \<Longrightarrow> keeps (grow_step N w1) (f w1)) \<Longrightarrow>
     keeps (grow_step N w) (Option.bind m f)"
  by (cases m) (auto simp: keeps_def split: option.splits intro: grow_step_trans)

lemma grow_then:
  "grow_step N w w1 \<Longrightarrow> keeps (grow_step N w1) m \<Longrightarrow> keeps (grow_step N w) m"
  by (auto simp: keeps_def split: option.splits intro: grow_step_trans)

lemma grow_job:
  assumes "job_step jid S w w'" and "jid \<in> N" shows "grow_step N w w'"
proof -
  have wide: "wide_step (\<lambda>k s t. t \<in> S) (\<lambda>k. False) w w'" using assms(1) by (rule wide_stepI) simp
  have "ids_ok w'" if "ids_ok w"
    unfolding ids_ok_def
  proof (intro allI impI)
    fix i j assume j: "gw_job_pool_get w' i = Some j"
    have "moved (\<lambda>s t. t \<in> S) False (gw_job_pool_get w i) (gw_job_pool_get w' i)"
      using wide by (simp add: wide_step_def)
    with j that show "job_id j = i" by (cases "gw_job_pool_get w i") (auto simp: ids_ok_def)
  qed
  moreover have "gw_job_pool_get w' k = gw_job_pool_get w k" if "k \<notin> N" for k
    using assms that by (auto simp: job_step_def)
  ultimately show ?thesis using wide by (simp add: grow_step_def wide_step_def)
qed

lemma grow_jobs: "keeps (job_step jid S w) m \<Longrightarrow> jid \<in> N \<Longrightarrow> keeps (grow_step N w) m"
  by (auto simp: keeps_def split: option.splits intro: grow_job)

lemma grow_allocate:
  assumes "gw_job_pool_allocate w = Some (jid, w')" and "{k. gw_job_pool_get w k = None} \<subseteq> N"
  shows "grow_step N w w' \<and> jid \<in> N"
  using gw_job_pool_allocate_form [OF assms(1)]
proof
  assume "jid = - 1 \<and> w' = w"
  moreover have "gw_job_pool_get w (- 1) = None" by (simp add: gw_job_pool_get_def pool_get_def slot_def)
  ultimately show ?thesis using assms(2) by auto
next
  let ?new = "gw_job_init (w_conf w) (w_now w) (w_fresh_job w) jid"
  let ?p = "(pool_store (w_jobs w) jid (Some ?new))
             \<lparr>pool_last_id := jid, pool_number := pool_number (w_jobs w) + 1\<rparr>"
  assume a: "0 \<le> jid \<and> jid < pool_size (w_jobs w) \<and> gw_job_pool_get w jid = None
     \<and> pool_last_id (w_jobs w) < jid \<and> w' = w\<lparr>w_jobs := ?p\<rparr>"
  then have get: "gw_job_pool_get w' k = (if k = jid then Some ?new else gw_job_pool_get w k)" for k
    by (simp add: gw_job_pool_get_def pool_get_store_eq)
  have "ids_ok w \<longrightarrow> ids_ok w'" by (simp add: ids_ok_def get)
  moreover have "w_deps w' = w_deps w" "w_conf w' = w_conf w" using a by simp_all
  then have "deps_wf w \<longrightarrow> deps_wf w'" by (auto simp: deps_wf_def get)
  moreover have "jid \<in> N" using a assms(2) by auto
  moreover from this have "\<forall>k. k \<notin> N \<longrightarrow> gw_job_pool_get w' k = gw_job_pool_get w k"
    by (auto simp: get)
  ultimately show ?thesis using a by (simp add: grow_step_def posts_known_refl)
qed

lemma grow_free: "jid \<in> N \<Longrightarrow> grow_step N w (gw_job_pool_free jid w)"
  by (auto simp: grow_step_def ids_ok_def gw_job_pool_free_get gw_job_pool_free_deps_wf posts_known_refl)

lemma dep_cp_row: "gw_job_pool_dep_cp (Some ds) = Some (Some r) \<Longrightarrow> dep_row r"
proof -
  assume a: "gw_job_pool_dep_cp (Some ds) = Some (Some r)"
  have pos: "\<forall>d \<in> set p. 0 \<le> d" if "dep_prefix ds = Some p" for p
    using that by (induction ds arbitrary: p) (auto split: if_splits)
  from a obtain p where "dep_prefix ds = Some p" "r = p @ [- 1]"
    by (auto simp: gw_job_pool_dep_cp_def bind_Some_iff split: if_splits)
  with pos show "dep_row r" by (auto simp: dep_row_def)
qed

lemma grow_submit_deps:
  assumes "gw_job_pool_get w jid \<noteq> None"
  shows "keeps (grow_step N w) (submit_deps jid msg w)"
proof (rule keepsI)
  fix w'
  assume "submit_deps jid msg w = Some w'"
  then consider "w' = w"
    | r ds where "gw_job_pool_dep_cp (Some (ct_job_deps (msg_jt msg))) = Some r"
        "wr (w_deps w) jid r = Some ds" "w' = w\<lparr>w_deps := ds\<rparr>"
    by (auto simp: submit_deps_def gw_job_pool_dep_set_def bind_Some_iff split: if_splits)
  then show "grow_step N w w'"
  proof cases
    case 2
    from 2(2) have ds: "ds = (w_deps w)[nat jid := r]" "0 \<le> jid" "jid < int (length (w_deps w))"
      by (simp_all add: wr_Some)
    then have "rd ds k = (if k = jid then Some r else rd (w_deps w) k)" for k
      by (simp add: rd_update)
    then have "deps_wf w \<longrightarrow> deps_wf w'"
      using 2(1,3) ds(1) assms dep_cp_row by (auto simp: deps_wf_def)
    then show ?thesis using 2(3) by (simp add: grow_step_def ids_ok_def posts_known_refl)
  qed simp
qed


lemma grow_fields:
  "grow_step N w (w\<lparr>w_users := us\<rparr>)" "grow_step N w (w\<lparr>w_arrays := a\<rparr>)"
  "grow_step N w (send_sch ms w)" "grow_step N w (submit_reply rc msg w)"
  "grow_step N w (user_inc_jobs uid n w)"
  by (auto simp: grow_step_def ids_ok_def deps_wf_def send_sch_def submit_reply_def trigger_rm_def
      user_inc_jobs_def on_users_def gw_job_pool_get_def posts_known_def split: prod.split)

lemma grow_submit_user: "keeps (\<lambda>(u, new, w'). grow_step N w w') (submit_user msg w)"
  by (auto simp: submit_user_def keeps_def bind_Some_iff Let_def split: option.splits prod.splits
      intro!: grow_step_trans [OF grow_fields(1) grow_fields(3)])

lemma fill_job_fields:
  "job_step jid S w (if b then w\<lparr>w_state_file := sf, w_history_file := hf, w_conf_file := cf\<rparr> else w)"
  "job_step jid S w (if b then w\<lparr>w_conf_file := cf\<rparr> else w)"
  using job_step_trans [OF job_step_trans [OF step_fields(1) step_fields(8)] step_fields(9)]
  by (simp_all add: step_fields)

lemma grow_fill_job: "jid \<in> N \<Longrightarrow> keeps (\<lambda>(rc, w'). grow_step N w w') (fill_job jid msg w)"
proof (rule keepsI)
  fix x
  assume jid: "jid \<in> N" and fill: "fill_job jid msg w = Some x"
  then obtain job c d rc job' where job: "gw_job_pool_get w jid = Some job"
      and fr: "gw_job_fill (w_conf w) c d job msg = Some (rc, job')"
      and x: "snd x = put_job jid job' (let w = (if c' then w\<lparr>w_state_file := (w_state_file w)(job_id job := []),
                w_history_file := (w_history_file w)(job_id job := []),
                w_conf_file := (w_conf_file w)(job_id job := False)\<rparr> else w) in
          if c \<and> d then w\<lparr>w_conf_file := (w_conf_file w)(job_id job := True)\<rparr> else w)"
    if "c' = w_runs w (''rm -rf '' @ job_directory job)" for c'
    unfolding fill_job_def bind_Some_iff Let_def by (auto simp only: bind_Some_iff prod.case option.inject snd_conv split_paired_all)
  obtain w1 where w1: "snd x = put_job jid job' w1" "job_step jid {} w w1"
    using x [OF refl] unfolding Let_def
    by (blast intro: job_step_trans fill_job_fields)
  then obtain j1 where "gw_job_pool_get w1 jid = Some j1" "job_id j1 = job_id job"
      "job_job_state j1 = job_job_state job"
    using job by (auto simp: job_step_def elim: option.rel_cases)
  then have "job_step jid {} w1 (snd x)"
    unfolding w1(1) using gw_job_fill_frame [OF fr] by (intro step_put_job [of _ _ j1]) simp_all
  with w1(2) jid have "grow_step N w (snd x)" by (blast intro: job_step_trans grow_job)
  then show "case x of (rc, w') \<Rightarrow> grow_step N w w'" by (cases x) simp
qed

lemma get_exists: "job_step jid S w w' \<Longrightarrow> gw_job_pool_get w jid \<noteq> None \<Longrightarrow> gw_job_pool_get w' jid \<noteq> None"
  by (auto simp: job_step_def elim: option.rel_cases)

lemma upd_job_exists: "upd_job jid f w = Some w' \<Longrightarrow> gw_job_pool_get w' jid \<noteq> None"
  by (auto simp: upd_job_def bind_Some_iff)


text \<open>The steps on a new job, up to its answer.\<close>

lemma grow_new_job:
  assumes "jid \<in> N" and "\<And>j. job_id (f j) = job_id j \<and> job_job_state (f j) = job_job_state j"
    and "\<And>w1. gw_job_pool_get w1 jid \<noteq> None \<Longrightarrow> keeps (grow_step N w1) (g w1)"
  shows "keeps (grow_step N w) (do { w \<leftarrow> gw_job_set_state s jid w; w \<leftarrow> reset_drivers jid w;
     w \<leftarrow> upd_job jid f w; g w })"
  using grow_jobs [OF step_set_state [of s "{s}"] assms(1)] grow_jobs [OF step_reset_drivers assms(1)]
    grow_jobs [OF step_upd_job [OF assms(2)] assms(1)] assms(3)
  by (auto intro!: grow_bind dest: upd_job_exists)

lemma grow_value_bind:
  assumes "keeps (\<lambda>(x, w'). grow_step N w w') m"
    and "\<And>x w1. m = Some (x, w1) \<Longrightarrow> grow_step N w w1 \<Longrightarrow> keeps (grow_step N w1) (f x w1)"
  shows "keeps (grow_step N w) (do { (x, w1) \<leftarrow> m; f x w1 })"
  using assms by (cases m) (auto simp: keeps_def split: option.splits intro: grow_step_trans)

lemma free_outside:
  "grow_step {k. gw_job_pool_get w k = None} w w1 \<Longrightarrow>
     {k. gw_job_pool_get w1 k = None} \<subseteq> {k. gw_job_pool_get w k = None}"
  by (auto simp: grow_step_def)

abbreviation unused :: "gwd \<Rightarrow> int set" where
  "unused w \<equiv> {k. gw_job_pool_get w k = None}"

lemma grow_if: "grow_step N w w1 \<Longrightarrow> grow_step N w (if b then w1 else w)"
  by simp

lemma grow_jalloc_reply: "grow_step N w (jalloc_reply msg uid useradd jid w)"
proof -
  have "grow_step N w (if useradd then w else user_inc_jobs uid 1 w)" (is "grow_step N w ?w")
    by (simp add: grow_fields)
  moreover have "grow_step N ?w (submit_reply GW_RC_SUCCESS (msg\<lparr>msg_array_id := - 1, msg_job_id := jid\<rparr>) ?w)"
    (is "grow_step N ?w ?r")
    by (rule grow_fields)
  moreover have "grow_step N ?r (jalloc_reply msg uid useradd jid w)"
    by (simp add: jalloc_reply_def Let_def grow_fields)
  ultimately show ?thesis by (blast intro: grow_step_trans)
qed

lemma grow_jalloc_job: "jid \<in> N \<Longrightarrow> keeps (grow_step N w) (jalloc_job msg uid useradd jid w)"
  unfolding jalloc_job_def
  by (auto simp: grow_jalloc_reply grow_fields
      intro!: grow_value_bind grow_fill_job grow_new_job grow_bind [OF grow_submit_deps]
      intro: grow_step_trans [OF grow_free grow_fields(4)])

lemma grow_jalloc: "keeps (grow_step (unused w) w) (gw_dm_jalloc msg w)"
proof (rule keepsI)
  fix w'
  assume "gw_dm_jalloc msg w = Some w'"
  then obtain user new w1 where w1: "submit_user msg w = Some (user, new, w1)"
    and rest: "(case user of
        None \<Rightarrow> Some (submit_reply GW_RC_FAILED_USER msg w1)
      | Some uid \<Rightarrow> do {
          (jid, w) \<leftarrow> gw_job_pool_allocate w1;
          if jid = - 1 then Some (submit_reply GW_RC_FAILED_NO_MEMORY msg w)
          else if gw_job_pool_get w jid = None then Some (submit_reply GW_RC_FAILED_BAD_JOB_ID msg w)
          else jalloc_job msg uid new jid w
        }) = Some w'"
    unfolding gw_dm_jalloc_def bind_Some_iff by auto
  have g1: "grow_step (unused w) w w1" using keepsD [OF grow_submit_user w1] by simp
  note sub = free_outside [OF g1]
  have "keeps (\<lambda>(jid, w2). grow_step (unused w) w1 w2) (gw_job_pool_allocate w1)"
    using grow_allocate [OF _ sub] by (auto simp: keeps_def split: option.split)
  moreover have "jid \<in> unused w" if "gw_job_pool_allocate w1 = Some (jid, w2)" for jid w2
    using grow_allocate [OF that sub] by simp
  ultimately have "keeps (grow_step (unused w) w1) (case user of
        None \<Rightarrow> Some (submit_reply GW_RC_FAILED_USER msg w1)
      | Some uid \<Rightarrow> do {
          (jid, w) \<leftarrow> gw_job_pool_allocate w1;
          if jid = - 1 then Some (submit_reply GW_RC_FAILED_NO_MEMORY msg w)
          else if gw_job_pool_get w jid = None then Some (submit_reply GW_RC_FAILED_BAD_JOB_ID msg w)
          else jalloc_job msg uid new jid w
        })"
    by (cases user) (auto simp: grow_fields intro!: grow_value_bind grow_jalloc_job simp del: mem_Collect_eq)
  then show "grow_step (unused w) w w'" using g1 rest by (blast intro: grow_step_trans dest: keepsD)
qed


text \<open>The jobs of an array are new ones.\<close>

lemma add_task_ids:
  "gw_array_add_task a jid = Some (tid, a') \<Longrightarrow> set (arr_job_ids a') \<subseteq> insert jid (set (arr_job_ids a))"
  using set_update_subset_insert
  by (auto simp: gw_array_add_task_def Let_def bind_Some_iff wr_Some split: if_splits) fastforce

lemma minus_one_unused: "- 1 \<in> unused w"
  by (simp add: gw_job_pool_get_def pool_get_def slot_def)

lemma grow_array_tasks:
  assumes "array_allocate_tasks aid n k a w = Some (a', w')" and "unused w \<subseteq> N"
    and "set (arr_job_ids a) \<subseteq> N"
  shows "grow_step N w w' \<and> set (arr_job_ids a') \<subseteq> N"
  using assms
proof (induction k arbitrary: a w)
  case (Suc k)
  then obtain jid w1 tid a1 w2 where s: "gw_job_pool_allocate w = Some (jid, w1)"
      "gw_array_add_task a jid = Some (tid, a1)"
      "upd_job jid (\<lambda>j. j\<lparr>job_task_id := tid, job_array_id := aid, job_total_tasks := n\<rparr>) w1 = Some w2"
      "array_allocate_tasks aid n k a1 w2 = Some (a', w')"
    by (auto simp: bind_Some_iff)
  have g1: "grow_step N w w1" and jid: "jid \<in> N" using grow_allocate [OF s(1) Suc.prems(2)] by auto
  have "keeps (job_step jid {} w1) (upd_job jid
      (\<lambda>j. j\<lparr>job_task_id := tid, job_array_id := aid, job_total_tasks := n\<rparr>) w1)"
    by (rule step_upd_job) simp
  then have g2: "grow_step N w w2" using s(3) jid by (blast intro: grow_step_trans [OF g1] grow_job dest: keepsD)
  then have "unused w2 \<subseteq> N" using Suc.prems(2) by (auto simp: grow_step_def)
  moreover have "set (arr_job_ids a1) \<subseteq> N" using add_task_ids [OF s(2)] jid Suc.prems(3) by auto
  ultimately show ?case using Suc.IH [OF s(4)] g2 by (blast intro: grow_step_trans)
qed auto

lemma grow_array_allocate:
  assumes "gw_array_pool_array_allocate n w = Some (rc, aid, w')" and "unused w \<subseteq> N"
  shows "grow_step N w w' \<and>
    (rc = 0 \<longrightarrow> (\<exists>array. gw_array_pool_get_array (w_arrays w') aid = Some array \<and> set (arr_job_ids array) \<subseteq> N))"
proof -
  let ?n = "nat (conf_number_of_arrays (w_conf w))"
  have none: ?thesis if "rc = - 1" "w' = w" using that by auto
  show ?thesis
  proof (cases "n + gw_job_pool_get_num_jobs w > conf_number_of_jobs (w_conf w)")
    case True
    with assms(1) show ?thesis by (intro none) (simp_all add: gw_array_pool_array_allocate_def)
  next
    case False
    then obtain found where found: "scan_free (\<lambda>i. i + 1) (pool_slots (w_arrays w))
        (pool_last_id (w_arrays w) + 1) ?n = Some found"
      using assms(1) by (auto simp: gw_array_pool_array_allocate_def Let_def bind_Some_iff)
    show ?thesis
    proof (cases found)
      case None
      with assms(1) False found show ?thesis
        by (intro none) (simp_all add: gw_array_pool_array_allocate_def Let_def)
    next
      case (Some i)
      with assms(1) False found obtain array w1 where 2: "aid = i"
          "array_allocate_tasks i n (nat n) (gw_array_init n i) w = Some (array, w1)"
          "w' = w1\<lparr>w_arrays := (pool_store (w_arrays w) i (Some array))
               \<lparr>pool_last_id := i, pool_number := pool_number (w_arrays w) + 1\<rparr>\<rparr>"
        by (simp add: gw_array_pool_array_allocate_def Let_def bind_Some_iff) blast
      have "set (arr_job_ids (gw_array_init n i)) \<subseteq> N"
        using minus_one_unused [of w] assms(2) by (auto simp: gw_array_init_def)
      with grow_array_tasks [OF 2(2) assms(2)] have g: "grow_step N w w1" "set (arr_job_ids array) \<subseteq> N"
        by auto
      have "gw_array_pool_get_array (w_arrays w') aid = Some array"
        using scan_free_range [OF found [unfolded Some]] unfolding 2(1,3)
        by (simp add: gw_array_pool_get_array_def pool_get_store_eq pool_size_def)
      with g show ?thesis unfolding 2(3) by (blast intro: grow_step_trans grow_fields(2))
    qed
  qed
qed

lemma grow_alloc_tasks:
  "set jids \<subseteq> N \<Longrightarrow> keeps (grow_step N w) (alloc_tasks msg aid uid jids w)"
proof (induction jids arbitrary: w)
  case (Cons jid jids)
  have "keeps (grow_step N w3) (do {
      w \<leftarrow> submit_deps jid msg (if b then send_sch ms w3 else w3);
      alloc_tasks msg aid uid jids w })"
    if "gw_job_pool_get w3 jid \<noteq> None" for w3 b ms
  proof (rule grow_then)
    show "grow_step N w3 (if b then send_sch ms w3 else w3)" by (simp add: grow_fields)
    show "keeps (grow_step N (if b then send_sch ms w3 else w3)) (do {
      w \<leftarrow> submit_deps jid msg (if b then send_sch ms w3 else w3); alloc_tasks msg aid uid jids w })"
      using that Cons by (intro grow_bind grow_submit_deps) auto
  qed
  with Cons.prems show ?case
    unfolding alloc_tasks.simps(2) Let_def
    by (intro grow_value_bind [OF grow_fill_job] grow_new_job) auto
qed simp

lemma grow_aalloc: "keeps (grow_step (unused w) w) (gw_dm_aalloc msg w)"
proof (rule keepsI)
  fix w'
  let ?N = "unused w"
  assume "gw_dm_aalloc msg w = Some w'"
  then obtain user new w1 where w1: "submit_user msg w = Some (user, new, w1)"
    and rest: "(case user of
        None \<Rightarrow> Some (submit_reply GW_RC_FAILED_USER msg w1)
      | Some uid \<Rightarrow> do {
          (rc, array_id, w) \<leftarrow> gw_array_pool_array_allocate (msg_number_of_tasks msg) w1;
          if rc \<noteq> 0 then Some (submit_reply GW_RC_FAILED_NO_MEMORY msg w)
          else (case gw_array_pool_get_array (w_arrays w) array_id of
            None \<Rightarrow> Some (submit_reply GW_RC_FAILED_BAD_ARRAY_ID msg w)
          | Some array \<Rightarrow> do {
              w \<leftarrow> alloc_tasks msg array_id uid
                     (take (nat (msg_number_of_tasks msg)) (arr_job_ids array)) w;
              let w = user_inc_jobs uid (msg_number_of_tasks msg - of_bool new) w;
              Some (submit_reply GW_RC_SUCCESS (msg\<lparr>msg_array_id := array_id\<rparr>) w)
            })
        }) = Some w'"
    unfolding gw_dm_aalloc_def bind_Some_iff by auto
  have g1: "grow_step ?N w w1" using keepsD [OF grow_submit_user w1] by simp
  note sub = free_outside [OF g1]
  show "grow_step ?N w w'"
  proof (cases user)
    case None
    with rest show ?thesis by (auto intro: grow_step_trans [OF g1] grow_fields)
  next
    case (Some uid)
    with rest obtain rc aid w2 where
      w2: "gw_array_pool_array_allocate (msg_number_of_tasks msg) w1 = Some (rc, aid, w2)"
      by (auto simp: bind_Some_iff)
    note g2 = grow_array_allocate [OF w2 sub]
    have g: "grow_step ?N w w2" using g1 g2 by (blast intro: grow_step_trans)
    show ?thesis
    proof (cases "rc = 0")
      case True
      with g2 obtain array where arr: "gw_array_pool_get_array (w_arrays w2) aid = Some array"
        "set (arr_job_ids array) \<subseteq> ?N" by blast
      have "keeps (grow_step ?N w2) (alloc_tasks msg aid uid
          (take (nat (msg_number_of_tasks msg)) (arr_job_ids array)) w2)"
        using arr(2) by (intro grow_alloc_tasks) (meson order_trans set_take_subset)
      moreover obtain w3 where "alloc_tasks msg aid uid
          (take (nat (msg_number_of_tasks msg)) (arr_job_ids array)) w2 = Some w3"
        "w' = submit_reply GW_RC_SUCCESS (msg\<lparr>msg_array_id := aid\<rparr>)
           (user_inc_jobs uid (msg_number_of_tasks msg - of_bool new) w3)"
        using rest Some w2 True arr(1) by (auto simp: bind_Some_iff Let_def)
      ultimately show ?thesis
        using g by (auto intro: grow_step_trans [OF _ grow_step_trans [OF grow_fields(5) grow_fields(4)]]
            grow_step_trans)
    next
      case False
      with rest Some w2 g show ?thesis by (auto intro: grow_step_trans grow_fields)
    qed
  qed
qed


section \<open>Runs\<close>

text \<open>The job table, the dependencies and the queue of the dispatch manager.\<close>

definition known_queues :: "gwd \<Rightarrow> bool" where
  "known_queues w \<longleftrightarrow> fst ` set (w_dm w) \<subseteq> set dm_names \<and> fst ` set (w_em w) \<subseteq> set em_names
     \<and> fst ` set (w_tm w) \<subseteq> set tm_names \<and> fst ` set (w_rm w) \<subseteq> set rm_names"

definition dm_wf :: "gwd \<Rightarrow> bool" where
  "dm_wf w \<longleftrightarrow> job_pool_wf w \<and> deps_wf w \<and> known_queues w"

lemma dm_wf_iff:
  "dm_wf w \<longleftrightarrow> pool_size (w_jobs w) = conf_number_of_jobs (w_conf w) \<and> ids_ok w \<and> deps_wf w
     \<and> known_queues w"
  by (auto simp: dm_wf_def job_pool_wf_def ids_ok_def deps_wf_def)

lemma known_queues_post: "posts_known w w' \<Longrightarrow> known_queues w \<Longrightarrow> known_queues w'"
  unfolding posts_known_def known_queues_def
  by (elim conjE, intro conjI) (erule appended_names, assumption)+

lemma dm_wf_wide:
  assumes w: "wide_step T D w w'" and wf: "dm_wf w" shows "dm_wf w'"
proof -
  have "ids_ok w'"
    unfolding ids_ok_def
  proof (intro allI impI)
    fix i j assume j: "gw_job_pool_get w' i = Some j"
    have "moved (T i) (D i) (gw_job_pool_get w i) (gw_job_pool_get w' i)"
      using w by (simp add: wide_step_def)
    with j wf show "job_id j = i"
      by (cases "gw_job_pool_get w i") (auto simp: dm_wf_iff ids_ok_def)
  qed
  moreover have "known_queues w'"
    using w wf by (auto simp: wide_step_def dm_wf_iff intro: known_queues_post)
  ultimately show ?thesis using w wf by (simp add: dm_wf_iff wide_step_def)
qed

lemma dm_wf_grow:
  assumes w: "grow_step N w w'" and wf: "dm_wf w" shows "dm_wf w'"
proof -
  have "known_queues w'"
    using w wf by (auto simp: grow_step_def dm_wf_iff intro: known_queues_post)
  with w wf show ?thesis by (simp add: dm_wf_iff grow_step_def)
qed

text \<open>
  What happens between two iterations of the loop: requests and callbacks are posted,
  jobs are submitted, the scheduler answers, the timer's thread checks jobs (its
  function takes the jobs one by one, so a single check is a step as well), the
  execution and transfer managers work on a job under the contract \<open>job_step\<close> with no
  state to enter (\<open>Gw_Daemon\<close> shows that they do), and everything the dispatch manager
  does not own, the clock included, may change.
\<close>

inductive gwd_step :: "gwd \<Rightarrow> gwd \<Rightarrow> bool" where
  handle: "\<lbrakk>w_dm w = (name, arg) # q; dm_handler name = Some h; h arg (w\<lparr>w_dm := q\<rparr>) = Some w'\<rbrakk>
     \<Longrightarrow> gwd_step w w'"
| post: "name \<in> set dm_names \<Longrightarrow> gwd_step w (trigger_dm name arg w)"
| jalloc: "gw_dm_jalloc msg w = Some w' \<Longrightarrow> gwd_step w w'"
| aalloc: "gw_dm_aalloc msg w = Some w' \<Longrightarrow> gwd_step w w'"
| schedule: "gw_dm_schedule w = Some w' \<Longrightarrow> gwd_step w w'"
| check: "gw_dm_check_job jid w = Some w' \<Longrightarrow> gwd_step w w'"
| answer: "dm_listener_message action s_id result info w = Some w' \<Longrightarrow> gwd_step w w'"
| driver: "job_step jid {} w w' \<Longrightarrow> gwd_step w w'"
| taken: "\<lbrakk>w_em w = es @ em; w_tm w = ts @ tm; w_rm w = rs @ rm\<rbrakk>
     \<Longrightarrow> gwd_step w (w\<lparr>w_em := em, w_tm := tm, w_rm := rm\<rparr>)"
| environment: "\<lbrakk>w_jobs w' = w_jobs w; w_deps w' = w_deps w; w_conf w' = w_conf w; w_dm w' = w_dm w;
     w_em w' = w_em w; w_tm w' = w_tm w; w_rm w' = w_rm w\<rbrakk> \<Longrightarrow> gwd_step w w'"

inductive_cases gwd_stepE: "gwd_step w w'"

lemma wide_listener: "keeps (wide_step T D w) (dm_listener_message action s_id result info w)"
proof -
  have "keeps (wide_step T D w) (map_option snd (gw_dm_dispatch_job i hid q rank w))" for i hid q rank
    using wide_dispatch [of T D w i hid q rank] by (auto simp: keeps_def split: option.splits)
  moreover have "wide_step T D w (w\<lparr>w_scheduling := False\<rparr>)"
    by (rule wide_step_idle [OF step_fields(10)])
  ultimately show ?thesis
    by (auto simp: dm_listener_message_def steps_wide [OF step_uncheck] split: option.split)
qed

lemma dm_wf_keeps: "keeps (wide_step (\<lambda>_ _ _. False) (\<lambda>_. False) w) m \<Longrightarrow> m = Some w' \<Longrightarrow> dm_wf w \<Longrightarrow> dm_wf w'"
  by (rule dm_wf_wide) (rule keepsD)

lemma dm_wf_env:
  "\<lbrakk>w_jobs w' = w_jobs w; w_deps w' = w_deps w; w_conf w' = w_conf w; known_queues w'\<rbrakk>
    \<Longrightarrow> dm_wf w \<Longrightarrow> dm_wf w'"
  by (simp add: dm_wf_def job_pool_wf_def deps_wf_def gw_job_pool_get_def)

lemma dm_wf_handle:
  assumes wf: "dm_wf w" and w: "w_dm w = (name, arg) # q" and h: "dm_handler name = Some h"
    "h arg (w\<lparr>w_dm := q\<rparr>) = Some w'"
  shows "dm_wf w'"
proof -
  have wf': "dm_wf (w\<lparr>w_dm := q\<rparr>)"
    by (rule dm_wf_env [OF _ _ _ _ wf]) (use wf w in \<open>auto simp: dm_wf_def known_queues_def\<close>)
  show "dm_wf w'"
  proof (cases arg)
    case None
    with h wf' show ?thesis by (simp add: dm_handler_null)
  next
    case (Some jid)
    with h(2) keepsD [OF dm_handler_step [OF h(1)]] wf' show ?thesis by (blast intro: dm_wf_wide)
  qed
qed

lemma dm_wf_step: "gwd_step w w' \<Longrightarrow> dm_wf w \<Longrightarrow> dm_wf w'"
proof (induction rule: gwd_step.induct)
  case (handle w name arg q h w')
  then show ?case by (blast intro: dm_wf_handle)
next
  case (post name w arg)
  then show ?case by (blast intro: dm_wf_wide wide_trigger_dm)
next
  case (jalloc msg w w')
  then show ?case by (blast intro: dm_wf_grow keepsD [OF grow_jalloc])
next
  case (aalloc msg w w')
  then show ?case by (blast intro: dm_wf_grow keepsD [OF grow_aalloc])
next
  case (schedule w w')
  then show ?case by (blast intro: dm_wf_keeps wide_schedule)
next
  case (check jid w w')
  then show ?case by (blast intro: dm_wf_keeps steps_wide step_check_job)
next
  case (answer action s_id result info w w')
  then show ?case by (blast intro: dm_wf_keeps wide_listener)
next
  case (driver jid w w')
  then show ?case by (blast intro: dm_wf_wide wide_step_idle)
next
  case (taken w es em ts tm rs rm)
  then show ?case by (intro dm_wf_env [OF _ _ _ _ taken(4)]) (auto simp: dm_wf_def known_queues_def)
next
  case (environment w' w)
  then show ?case by (intro dm_wf_env [of w' w]) (simp_all add: dm_wf_def known_queues_def)
qed

lemma dm_wf_run: "gwd_step\<^sup>*\<^sup>* w w' \<Longrightarrow> dm_wf w \<Longrightarrow> dm_wf w'"
  by (induction rule: rtranclp_induct) (auto intro: dm_wf_step)

lemma dm_wf_init:
  "0 \<le> conf_number_of_jobs (w_conf w) \<Longrightarrow> (w_jobs w, w_deps w) = gw_job_pool_init (w_conf w) \<Longrightarrow>
     w_dm w = [] \<and> w_em w = [] \<and> w_tm w = [] \<and> w_rm w = [] \<Longrightarrow> dm_wf w"
  by (auto simp: dm_wf_iff known_queues_def ids_ok_def deps_wf_def gw_job_pool_init_def gw_job_pool_get_def rd_def)

lemma dm_names_handled: "name \<in> set dm_names \<longleftrightarrow> dm_handler name \<noteq> None"
  unfolding dm_handler_def map_of_eq_None_iff by (simp add: dm_table_def dm_names_def)


section \<open>Properties of runs\<close>

text \<open>C6 (safety).  The transition graph of jobs: an action handled for the job \<open>jid\<close> moves that
  job along an edge of its action, frees it only in a state from which the action frees
  jobs, and leaves every other job where it is, except that the end of a job may
  release held jobs.  Identifiers never change.\<close>

theorem dm_transition_graph:
  assumes "dm_handler name = Some h" and "h (Some jid) w = Some w'"
    and "gw_job_pool_get w k = Some j"
  shows "case gw_job_pool_get w' k of
      None \<Rightarrow> k = jid \<and> job_job_state j \<in> dm_frees name
    | Some j' \<Rightarrow> job_id j' = job_id j
        \<and> (job_job_state j' = job_job_state j \<or> dm_move name jid k (job_job_state j) (job_job_state j'))"
proof -
  have "wide_step (dm_move name jid) (dm_drop name jid w) w w'"
    using dm_handler_step [OF assms(1)] assms(2) by (rule keepsD)
  then have "moved (dm_move name jid k) (dm_drop name jid w k) (gw_job_pool_get w k)
      (gw_job_pool_get w' k)" by (simp add: wide_step_def)
  with assms(3) show ?thesis
    by (cases "gw_job_pool_get w' k") (auto simp: dm_drop_def state_is_def)
qed

text \<open>From an empty pool on, whatever the clients, the drivers, the scheduler and
  the environment do: jobs stand under their identifiers, the dependency matrix has a
  row only for jobs that exist, and every action in the queues is a registered one, for
  which the dispatch manager has a handler.\<close>

theorem dm_run_invariant:
  assumes "0 \<le> conf_number_of_jobs (w_conf w)" and "(w_jobs w, w_deps w) = gw_job_pool_init (w_conf w)"
    and "w_dm w = [] \<and> w_em w = [] \<and> w_tm w = [] \<and> w_rm w = []" and "gwd_step\<^sup>*\<^sup>* w w'"
  shows "job_pool_wf w' \<and> deps_wf w' \<and> known_queues w' \<and> (\<forall>(name, arg) \<in> set (w_dm w'). dm_handler name \<noteq> None)"
proof -
  have wf: "dm_wf w'" using dm_wf_run [OF assms(4) dm_wf_init [OF assms(1-3)]] .
  have "dm_handler name \<noteq> None" if "(name, arg) \<in> set (w_dm w')" for name arg
  proof -
    have "name \<in> fst ` set (w_dm w')" using that by force
    with wf have "name \<in> set dm_names" by (auto simp: dm_wf_def known_queues_def)
    then show ?thesis using dm_names_handled by blast
  qed
  with wf show ?thesis by (auto simp: dm_wf_def)
qed

text \<open>C29 (safety).  A submission, of a job or of an array, leaves the jobs that are there alone, all
  their fields included, even when it fails.\<close>

theorem dm_submission_frame:
  assumes "gw_dm_jalloc msg w = Some w' \<or> gw_dm_aalloc msg w = Some w'"
    and "gw_job_pool_get w k = Some j"
  shows "gw_job_pool_get w' k = Some j"
proof -
  have "grow_step (unused w) w w'"
    using assms(1) keepsD [OF grow_jalloc] keepsD [OF grow_aalloc] by blast
  then show ?thesis using assms(2) by (simp add: grow_step_def)
qed

text \<open>C10 (safety).  In a run the check of the dependencies never meets the row of a job that is
  gone, and so never crashes.\<close>

theorem dm_run_dep_check:
  assumes "0 \<le> conf_number_of_jobs (w_conf w)" and "(w_jobs w, w_deps w) = gw_job_pool_init (w_conf w)"
    and "w_dm w = [] \<and> w_em w = [] \<and> w_tm w = [] \<and> w_rm w = []" and "gwd_step\<^sup>*\<^sup>* w w'" and "0 \<le> jid"
  shows "gw_job_pool_dep_check jid exit_code w' \<noteq> None"
proof -
  have wf: "deps_wf w'" using dm_wf_run [OF assms(4) dm_wf_init [OF assms(1-3)]] by (simp add: dm_wf_def)
  then have "length (w_deps w') = nat (conf_number_of_jobs (w_conf w'))" by (simp add: deps_wf_def)
  then show ?thesis
    using dep_check_from_effect [OF wf assms(5), of 0 "nat (conf_number_of_jobs (w_conf w'))" exit_code]
    by (auto simp: gw_job_pool_dep_check_def)
qed


section \<open>An example run\<close>

definition example_msg :: gw_msg_submit where
  "example_msg =
    \<lparr> msg_rc = GW_RC_SUCCESS, msg_job_id = - 1, msg_array_id = - 1, msg_owner = ''tigre'',
      msg_proxy_path = [], msg_init_state = GW_JOB_STATE_PENDING, msg_fixed_priority = 0,
      msg_pstart = 0, msg_pinc = 1, msg_number_of_tasks = 2, msg_jt = example_template \<rparr>"

text \<open>An empty pool with one host and one user; a job is submitted and asked to be held.\<close>

definition example_start :: gwd where
  "example_start = example_world\<lparr>w_jobs := pool_init 4, w_deps := replicate 4 None, w_dm := []\<rparr>"

lemma example_start_init:
  "0 \<le> conf_number_of_jobs (w_conf example_start)"
  "w_dm example_start = [] \<and> w_em example_start = [] \<and> w_tm example_start = [] \<and> w_rm example_start = []"
  "(w_jobs example_start, w_deps example_start) = gw_job_pool_init (w_conf example_start)"
  by (simp_all add: example_start_def gw_job_pool_init_def example_world_def)

lemma example_submission:
  "map_option (\<lambda>w'. map_option job_job_state (gw_job_pool_get w' 0))
     (gw_dm_jalloc example_msg example_start) = Some (Some GW_JOB_STATE_PENDING)"
  by code_simp

lemma example_run:
  "\<exists>w'. gwd_step\<^sup>*\<^sup>* example_start w' \<and> gw_job_pool_get w' 0 \<noteq> None
     \<and> (''GW_DM_HOLD'', Some 0) \<in> set (w_dm w')"
proof -
  obtain w1 where w1: "gw_dm_jalloc example_msg example_start = Some w1" "gw_job_pool_get w1 0 \<noteq> None"
    using example_submission by auto
  let ?w = "trigger_dm ''GW_DM_HOLD'' (Some 0) w1"
  have "gwd_step w1 ?w" by (rule gwd_step.post) (simp add: dm_names_def)
  with gwd_step.jalloc [OF w1(1)] have "gwd_step\<^sup>*\<^sup>* example_start ?w" by simp
  moreover have "(''GW_DM_HOLD'', Some 0) \<in> set (w_dm ?w)" by (simp add: trigger_dm_def)
  ultimately show ?thesis using w1(2) by auto
qed

theorem dm_run_invariant_witness:
  "\<exists>w' h. gwd_step\<^sup>*\<^sup>* example_start w' \<and> gw_job_pool_get w' 0 \<noteq> None
     \<and> (''GW_DM_HOLD'', Some 0) \<in> set (w_dm w') \<and> dm_handler ''GW_DM_HOLD'' = Some h \<and> deps_wf w'"
proof -
  obtain w' where w': "gwd_step\<^sup>*\<^sup>* example_start w'" "gw_job_pool_get w' 0 \<noteq> None"
    "(''GW_DM_HOLD'', Some 0) \<in> set (w_dm w')" using example_run by blast
  from dm_run_invariant [OF example_start_init(1,3,2) w'(1)] w' show ?thesis by fastforce
qed

theorem dm_run_dep_check_witness:
  "\<exists>w'. gwd_step\<^sup>*\<^sup>* example_start w' \<and> gw_job_pool_get w' 0 \<noteq> None
     \<and> gw_job_pool_dep_check 3 0 w' \<noteq> None"
proof -
  obtain w' where w': "gwd_step\<^sup>*\<^sup>* example_start w'" "gw_job_pool_get w' 0 \<noteq> None"
    using example_run by blast
  from dm_run_dep_check [OF example_start_init(1,3,2) w'(1), of 3 0] w' show ?thesis by auto
qed

theorem dm_submission_frame_witness:
  "\<exists>w'. gw_dm_jalloc example_msg example_world = Some w' \<and> gw_job_pool_get w' 0 = Some example_job"
proof -
  have "gw_dm_jalloc example_msg example_world \<noteq> None" by code_simp
  then obtain w' where "gw_dm_jalloc example_msg example_world = Some w'" by blast
  with dm_submission_frame [of example_msg example_world w' 0 example_job] show ?thesis by simp
qed

theorem dm_transition_graph_witness:
  "\<exists>w' j'. gw_dm_release (Some 1) example_held = Some w' \<and> gw_job_pool_get w' 1 = Some j' \<and> job_id j' = 1"
proof -
  have "map_option (\<lambda>w'. map_option job_job_state (gw_job_pool_get w' 1))
      (gw_dm_release (Some 1) example_held) = Some (Some GW_JOB_STATE_PENDING)" by code_simp
  then obtain w' j' where w': "gw_dm_release (Some 1) example_held = Some w'"
    "gw_job_pool_get w' 1 = Some j'" by auto
  obtain j where j: "gw_job_pool_get example_held 1 = Some j" "job_id j = 1"
    by (simp add: example_held_def gw_job_pool_get_def pool_get_def slot_def)
  have "dm_handler ''GW_DM_RELEASE'' = Some gw_dm_release" by (simp add: dm_handler_def dm_table_def)
  from dm_transition_graph [OF this w'(1) j(1)] w' j(2) show ?thesis by simp
qed

end
