(* ===== verification/Gw_Table.thy ===== *)
theory Gw_Table
  imports Gw_Action
begin

text \<open>
  A manager whose actions have all been registered: the initialisation functions of
  the daemon's managers register a fixed list of actions, and from then on the table
  does not change.  Under the laws of \<open>registered_table\<close> the manager is a queue of
  named actions: the refinement lemmas relate its indices, its counter and its chain
  to the list of (name, argument) pairs the model of the daemon works with.
\<close>

section \<open>Registration\<close>

text \<open>The calls of \<open>gw_am_register\<close> in an initialisation; their results are not read.\<close>

fun register_all ::
    "(string \<times> bool \<times> 'h) list \<Rightarrow> ('h, 'a) gw_am \<Rightarrow> ('h, 'a) gw_am option" where
  "register_all [] am = Some am"
| "register_all ((aid, threaded, h) # es) am = do {
     (_, am) \<leftarrow> gw_am_register aid threaded h am;
     register_all es am
   }"

definition entry :: "string \<times> bool \<times> 'h \<Rightarrow> 'h gw_action" where
  "entry e = (case e of (aid, threaded, h) \<Rightarrow>
     \<lparr> act_threaded = threaded, act_action_id = aid, act_handler = Some h \<rparr>)"

definition empty_entry :: "'h gw_action" where
  "empty_entry = \<lparr> act_threaded = False, act_action_id = '''', act_handler = None \<rparr>"

definition am_table :: "(string \<times> bool \<times> 'h) list \<Rightarrow> 'h gw_action list" where
  "am_table es = map entry es @ replicate (GW_ACTION_NUMBER - length es) empty_entry"

lemma entry_sel [simp]:
  "act_action_id (entry e) = fst e" "act_handler (entry e) = Some (snd (snd e))"
  by (simp_all add: entry_def split: prod.split)

text \<open>The state of a manager after its initialisation, and its queue.\<close>

definition am_ready :: "(string \<times> bool \<times> 'h) list \<Rightarrow> ('h, 'a) gw_am \<Rightarrow> bool" where
  "am_ready es am \<longleftrightarrow>
     am_action_rgs am = am_table es \<and> am_registered_actions am = int (length es)
   \<and> am_pending_actions am = int (length (am_action_list am))
   \<and> (\<forall>p \<in> set (am_action_list am). 0 \<le> fst p \<and> fst p < int (length es))"

definition am_queue :: "(string \<times> bool \<times> 'h) list \<Rightarrow> ('h, 'a) gw_am \<Rightarrow> (string \<times> 'a) list" where
  "am_queue es am = map (\<lambda>p. (fst (es ! nat (fst p)), snd p)) (am_action_list am)"

text \<open>The specification of \<open>gw_am_trigger\<close>: nothing is taken once the end is next.\<close>

definition queue_trigger ::
    "string list \<Rightarrow> string \<Rightarrow> 'a \<Rightarrow> (string \<times> 'a) list \<Rightarrow> int \<times> (string \<times> 'a) list" where
  "queue_trigger names name arg q =
     (if name \<notin> set names then (- 1, q)
      else if q \<noteq> [] \<and> fst (hd q) = GW_ACTION_FINALIZE then (0, q)
      else (0, q @ [(name, arg)]))"

section \<open>The table\<close>

lemma am_table_length: "length es \<le> GW_ACTION_NUMBER \<Longrightarrow> length (am_table es) = GW_ACTION_NUMBER"
  by (simp add: am_table_def)

lemma am_table_nth: "k < length es \<Longrightarrow> am_table es ! k = entry (es ! k)"
  by (simp add: am_table_def nth_append)

lemma am_table_add:
  assumes "length es < GW_ACTION_NUMBER"
  shows "(am_table es)[length es := entry e] = am_table (es @ [e])"
proof -
  have "replicate (GW_ACTION_NUMBER - length es) empty_entry =
      empty_entry # replicate (GW_ACTION_NUMBER - Suc (length es)) (empty_entry :: 'a gw_action)"
    using assms by (simp add: Suc_diff_Suc flip: replicate_Suc)
  then show ?thesis by (simp add: am_table_def list_update_append)
qed

lemma register_one:
  assumes "am_action_rgs am = am_table es" and "am_registered_actions am = int (length es)"
    and "length es < GW_ACTION_NUMBER" and "length aid < GW_ACTION_ID_LENGTH"
  shows "gw_am_register aid t h am = Some (0, am\<lparr>am_action_rgs := am_table (es @ [(aid, t, h)]),
     am_registered_actions := int (length es) + 1\<rparr>)"
proof -
  have "wr (am_table es) (int (length es)) (entry (aid, t, h)) = Some (am_table (es @ [(aid, t, h)]))"
    using assms(3) am_table_length [of es] by (simp add: wr_def am_table_add)
  then show ?thesis
    using assms by (simp add: gw_am_register_def Let_def entry_def)
qed

lemma register_all_ready:
  assumes "am_action_rgs am = am_table es" and "am_registered_actions am = int (length es)"
    and "length (es @ fs) \<le> GW_ACTION_NUMBER" and "\<forall>e \<in> set fs. length (fst e) < GW_ACTION_ID_LENGTH"
  shows "register_all fs am = Some (am\<lparr>am_action_rgs := am_table (es @ fs),
     am_registered_actions := int (length (es @ fs))\<rparr>)"
  using assms
proof (induction fs arbitrary: es am)
  case (Cons f fs)
  obtain aid t h where f: "f = (aid, t, h)" by (cases f)
  let ?am = "am\<lparr>am_action_rgs := am_table (es @ [f]), am_registered_actions := int (length es) + 1\<rparr>"
  have "gw_am_register aid t h am = Some (0, ?am)"
    using Cons.prems f by (simp add: register_one)
  moreover have "register_all fs ?am = Some (?am\<lparr>am_action_rgs := am_table ((es @ [f]) @ fs),
      am_registered_actions := int (length ((es @ [f]) @ fs))\<rparr>)"
    by (rule Cons.IH) (use Cons.prems in simp_all)
  ultimately show ?case by (simp add: f)
qed (simp add: am_ready_def)

section \<open>The interface of the managers\<close>

locale registered_table =
  fixes entries :: "(string \<times> bool \<times> 'h) list"
  assumes names_distinct: "distinct (map fst entries)"
    and names_fit: "length entries \<le> GW_ACTION_NUMBER"
    and names_short: "\<forall>e \<in> set entries. length (fst e) < GW_ACTION_ID_LENGTH"
    and has_finalize: "GW_ACTION_FINALIZE \<in> set (map fst entries)"
begin

lemma init_ready:
  "\<exists>am. register_all entries (gw_am_init :: ('h, 'a) gw_am) = Some am \<and> am_ready entries am
     \<and> am_queue entries am = []"
proof -
  have "am_action_rgs (gw_am_init :: ('h, 'a) gw_am) = am_table []"
    by (simp add: gw_am_init_def am_table_def empty_entry_def)
  then have "register_all entries (gw_am_init :: ('h, 'a) gw_am) =
      Some (gw_am_init\<lparr>am_action_rgs := am_table ([] @ entries),
        am_registered_actions := int (length ([] @ entries))\<rparr>)"
    by (rule register_all_ready) (simp_all add: gw_am_init_def names_fit names_short)
  then show ?thesis by (simp add: am_ready_def am_queue_def gw_am_init_def)
qed

lemma registered_at:
  assumes "am_ready entries (am :: ('h, 'a) gw_am)" and "k < length entries"
  shows "gw_am_is_registered am (fst (entries ! k)) = Some (int k)"
proof -
  have "fst (entries ! j) \<noteq> fst (entries ! k)" if "j < k" for j
    using names_distinct that assms(2) by (simp add: distinct_conv_nth)
  then show ?thesis
    using assms names_fit
    by (auto simp: gw_am_is_registered_def am_ready_def am_table_nth am_table_length
        intro!: am_scan_hit)
qed

lemma entries_nonempty: "entries \<noteq> []"
  using has_finalize by auto

lemma not_registered:
  assumes "am_ready entries (am :: ('h, 'a) gw_am)" and "name \<notin> set (map fst entries)"
  shows "gw_am_is_registered am name = Some (- 1)"
proof -
  have len: "length entries - 1 < length entries" using entries_nonempty by simp
  have other: "fst (entries ! j) \<noteq> name" if "j \<le> length entries - 1" for j
    using assms(2) that len nth_mem [of j entries] by force
  have last: "int (length entries) - 1 = int (length entries - 1)"
    using entries_nonempty by (cases entries) simp_all
  have "am_scan (am_table entries) name (int (length entries) - 1) 0 = Some (- 1)"
  proof (rule am_scan_miss [OF _ _ last])
    show "\<forall>j. 0 \<le> j \<and> j \<le> length entries - 1 \<longrightarrow> act_action_id (am_table entries ! j) \<noteq> name"
    proof (intro allI impI)
      fix j assume "0 \<le> j \<and> j \<le> length entries - 1"
      then have "j < length entries" "fst (entries ! j) \<noteq> name" using len other by auto
      then show "act_action_id (am_table entries ! j) \<noteq> name" by (simp add: am_table_nth)
    qed
  qed (use len names_fit am_table_length [OF names_fit] in simp_all)
  then show ?thesis using assms(1) by (simp add: gw_am_is_registered_def am_ready_def)
qed

lemma index_of:
  assumes "name \<in> set (map fst entries)"
  shows "\<exists>k < length entries. fst (entries ! k) = name"
proof -
  from assms obtain k where "k < length (map fst entries)" "map fst entries ! k = name"
    by (auto simp only: in_set_conv_nth)
  then show ?thesis by auto
qed

lemma same_name: "i < length entries \<Longrightarrow> k < length entries \<Longrightarrow>
    fst (entries ! i) = fst (entries ! k) \<longleftrightarrow> i = k"
  using names_distinct nth_eq_iff_index_eq [of "map fst entries" i k] by simp

lemma post_refines:
  assumes "am_ready entries (am :: ('h, 'a) gw_am)" and "k < length entries"
  shows "am_ready entries (gw_am_post_action am (int k) arg)
     \<and> am_queue entries (gw_am_post_action am (int k) arg) =
         am_queue entries am @ [(fst (entries ! k), arg)]"
  using assms by (auto simp: am_ready_def am_queue_def gw_am_post_action_def)

lemma trigger_refines:
  assumes "am_ready entries (am :: ('h, 'a) gw_am)"
  shows "\<exists>rc am'. gw_am_trigger am name arg = Some (rc, am') \<and> am_ready entries am'
     \<and> (rc, am_queue entries am') = queue_trigger (map fst entries) name arg (am_queue entries am)"
proof (cases "name \<in> set (map fst entries)")
  case False
  with not_registered [OF assms False] assms show ?thesis
    by (simp add: gw_am_trigger_def queue_trigger_def)
next
  case True
  then obtain k where k: "k < length entries" "fst (entries ! k) = name" using index_of by blast
  obtain f where f: "f < length entries" "fst (entries ! f) = GW_ACTION_FINALIZE"
    using index_of [OF has_finalize] by blast
  have reg: "gw_am_is_registered am name = Some (int k)"
      "gw_am_is_registered am GW_ACTION_FINALIZE = Some (int f)"
    using registered_at [OF assms k(1)] registered_at [OF assms f(1)] k f by simp_all
  have front: "fst (hd (am_queue entries am)) = GW_ACTION_FINALIZE \<longleftrightarrow>
      fst (hd (am_action_list am)) = int f" if ne: "am_action_list am \<noteq> []"
  proof -
    obtain p ps where p: "am_action_list am = p # ps" using ne by (cases "am_action_list am") auto
    then have "0 \<le> fst p" "nat (fst p) < length entries" using assms by (auto simp: am_ready_def)
    then show ?thesis
      using p same_name [of "nat (fst p)" f] f by (simp add: am_queue_def nat_eq_iff)
  qed
  have empty: "am_queue entries am = [] \<longleftrightarrow> am_action_list am = []" by (simp add: am_queue_def)
  show ?thesis
  proof (cases "am_action_list am \<noteq> [] \<and> fst (hd (am_action_list am)) = int f")
    case True
    then have "gw_am_trigger am name arg = Some (0, am)" using reg by (simp add: gw_am_trigger_def)
    then show ?thesis
      using True front empty assms k by (auto simp: queue_trigger_def)
  next
    case False
    then have "gw_am_trigger am name arg = Some (0, gw_am_post_action am (int k) arg)"
      using reg by (auto simp: gw_am_trigger_def)
    then show ?thesis
      using False front empty post_refines [OF assms k(1)] k by (auto simp: queue_trigger_def)
  qed
qed

lemma loop_refines:
  assumes "am_ready entries (am :: ('h, 'a) gw_am)" and "am_queue entries am = (name, arg) # q"
  shows "\<exists>a am'. gw_am_loop_body am = Some (a, arg, name = GW_ACTION_FINALIZE, am')
     \<and> act_action_id a = name
     \<and> act_handler a = map_option snd (map_of entries name)
     \<and> am_ready entries am' \<and> am_queue entries am' = q"
proof -
  obtain i ps where p: "am_action_list am = (i, arg) # ps" "name = fst (entries ! nat i)"
      "q = map (\<lambda>p. (fst (entries ! nat (fst p)), snd p)) ps"
    using assms(2) by (cases "am_action_list am") (auto simp: am_queue_def)
  then have i: "0 \<le> i" "nat i < length entries" using assms(1) by (auto simp: am_ready_def)
  have "rd (am_action_rgs am) i = Some (entry (entries ! nat i))"
    using assms(1) i names_fit
    by (simp add: am_ready_def rd_def am_table_length am_table_nth)
  moreover have "map_of entries name = Some (snd (entries ! nat i))"
    using names_distinct i p(2) by (metis map_of_eq_Some_iff nth_mem prod.collapse)
  ultimately show ?thesis
    using p assms(1) by (auto simp: gw_am_loop_body_def gw_am_pop_action_def am_ready_def am_queue_def)
qed

lemma timeout_refines:
  assumes "am_ready entries (am :: ('h, 'a) gw_am)"
  shows "\<exists>am'. gw_am_timeout am arg = Some am' \<and> am_ready entries am'
     \<and> am_queue entries am' = (if GW_ACTION_TIMER \<in> set (map fst entries)
         then am_queue entries am @ [(GW_ACTION_TIMER, arg)] else am_queue entries am)"
proof (cases "GW_ACTION_TIMER \<in> set (map fst entries)")
  case True
  then obtain k where k: "k < length entries" "fst (entries ! k) = GW_ACTION_TIMER"
    using index_of by blast
  then have "gw_am_timeout am arg = Some (gw_am_post_action am (int k) arg)"
    using registered_at [OF assms k(1)] by (simp add: gw_am_timeout_def)
  with True k post_refines [OF assms k(1)] show ?thesis by simp
next
  case False
  then show ?thesis using not_registered [OF assms False] assms by (simp add: gw_am_timeout_def)
qed

end

end
