(* ===== verification/Dm_Manager.thy ===== *)
theory Dm_Manager
  imports Dm_System Gw_Table
begin

text \<open>
  The initialisation of the dispatch manager, \<open>gw_dm_init\<close> of \<open>src/dm/gw_dm.c\<close>: the list
  of its registrations as an instance of \<open>registered_table\<close>, so that the queue
  \<open>w_dm\<close> of the model is what the action manager implements.  The request manager's
  registrations are in \<open>Rm_Manager\<close>.
\<close>

section \<open>The dispatch manager\<close>

text \<open>The functions registered, by the argument they take.\<close>

datatype dm_function =
    DM_FINALIZE
  | DM_SUBMIT "gw_msg_submit \<Rightarrow> gwd \<Rightarrow> gwd option"
  | DM_JOB "int option \<Rightarrow> gwd \<Rightarrow> gwd option"
  | DM_TIMER "gwd \<Rightarrow> gwd option"

definition dm_entries :: "(string \<times> bool \<times> dm_function) list" where
  "dm_entries =
     [(GW_ACTION_FINALIZE, False, DM_FINALIZE),
      (''GW_DM_ALLOCATE_JOB'', False, DM_SUBMIT gw_dm_jalloc),
      (''GW_DM_ALLOCATE_ARRAY'', False, DM_SUBMIT gw_dm_aalloc)]
     @ map (\<lambda>(aid, h). (aid, False, DM_JOB h)) dm_table
     @ [(GW_ACTION_TIMER, True, DM_TIMER gw_dm_schedule)]"

definition gw_dm_init_am :: "(dm_function, 'a) gw_am option" where
  "gw_dm_init_am = register_all dm_entries gw_am_init"

lemma dm_entries_names: "map fst dm_entries = dm_registered"
  by (simp add: dm_entries_def dm_table_def dm_registered_def dm_names_def GW_ACTION_FINALIZE_def
      GW_ACTION_TIMER_def)

interpretation dm: registered_table dm_entries
proof unfold_locales
  show "distinct (map fst dm_entries)"
    unfolding dm_entries_names dm_registered_def dm_names_def by simp
  show "length dm_entries \<le> GW_ACTION_NUMBER"
    by (simp add: dm_entries_def dm_table_def GW_ACTION_NUMBER_def)
  show "\<forall>e \<in> set dm_entries. length (fst e) < GW_ACTION_ID_LENGTH"
    by (simp add: dm_entries_def dm_table_def GW_ACTION_ID_LENGTH_def GW_ACTION_FINALIZE_def
        GW_ACTION_TIMER_def)
  show "GW_ACTION_FINALIZE \<in> set (map fst dm_entries)" by (simp add: dm_entries_def)
qed

lemma dm_entries_job:
  "dm_handler name = Some h \<Longrightarrow> map_of dm_entries name = Some (False, DM_JOB h)"
proof -
  assume h: "dm_handler name = Some h"
  then have "(name, h) \<in> set dm_table" by (simp add: dm_handler_def map_of_SomeD)
  then have "(name, False, DM_JOB h) \<in> set dm_entries" by (force simp: dm_entries_def)
  with dm.names_distinct show ?thesis by simp
qed

text \<open>The initialisation succeeds, and from then on the action manager of the dispatch
  manager is the queue of the model: posting a registered action appends it, unless the
  end of the loop is next; an unknown action is refused and changes nothing.\<close>

theorem dm_manager_trigger:
  assumes "am_ready dm_entries am"
  shows "\<exists>rc am'. gw_am_trigger am name arg = Some (rc, am') \<and> am_ready dm_entries am'
     \<and> (rc, am_queue dm_entries am') = queue_trigger dm_registered name arg (am_queue dm_entries am)"
  using dm.trigger_refines [OF assms] by (simp add: dm_entries_names)

text \<open>The loop takes the oldest action and finds the function the model handles it
  with; only the action that ends the loop ends it.\<close>

theorem dm_manager_loop:
  assumes "am_ready dm_entries am" and "am_queue dm_entries am = (name, arg) # q"
    and "dm_handler name = Some h"
  shows "\<exists>a am'. gw_am_loop_body am = Some (a, arg, False, am') \<and> act_handler a = Some (DM_JOB h)
     \<and> am_ready dm_entries am' \<and> am_queue dm_entries am' = q"
proof -
  have "name \<noteq> GW_ACTION_FINALIZE"
    using assms(3) by (auto simp: dm_handler_def dm_table_def GW_ACTION_FINALIZE_def)
  with dm.loop_refines [OF assms(1,2)] dm_entries_job [OF assms(3)] show ?thesis by auto
qed

text \<open>A manager just initialised, into which three actions are posted.\<close>

lemma dm_init_ready:
  "\<exists>am. gw_dm_init_am = Some (am :: (dm_function, 'a) gw_am) \<and> am_ready dm_entries am
     \<and> am_queue dm_entries am = []"
  unfolding gw_dm_init_am_def by (rule dm.init_ready)

theorem dm_manager_trigger_witness:
  "\<exists>am am' rc. gw_dm_init_am = Some (am :: (dm_function, int option) gw_am)
     \<and> gw_am_trigger am ''GW_DM_KILL'' (Some 3) = Some (rc, am')
     \<and> am_queue dm_entries am' = [(''GW_DM_KILL'', Some 3)]"
proof -
  obtain am where am: "gw_dm_init_am = Some (am :: (dm_function, int option) gw_am)"
    "am_ready dm_entries am" "am_queue dm_entries am = []" using dm_init_ready by blast
  from dm_manager_trigger [OF am(2), of "''GW_DM_KILL''" "Some 3"] am(1,3) show ?thesis
    by (auto simp: queue_trigger_def dm_registered_def)
qed

theorem dm_manager_loop_witness:
  "\<exists>am a am'. gw_am_loop_body am = Some (a, Some (3 :: int), False, am')
     \<and> act_handler a = Some (DM_JOB gw_dm_kill) \<and> am_queue dm_entries am' = []"
proof -
  obtain am where am: "am_ready dm_entries (am :: (dm_function, int option) gw_am)"
    "am_queue dm_entries am = []" using dm_init_ready by blast
  obtain am1 rc where am1: "am_ready dm_entries am1" "am_queue dm_entries am1 = [(''GW_DM_KILL'', Some (3 :: int))]"
    using dm.trigger_refines [OF am(1), of "''GW_DM_KILL''" "Some (3 :: int)"] am(2)
    by (auto simp: queue_trigger_def dm_entries_names dm_registered_def)
  have "dm_handler ''GW_DM_KILL'' = Some gw_dm_kill" by (simp add: dm_handler_def dm_table_def)
  from dm_manager_loop [OF am1 this] show ?thesis by blast
qed

end
