(* ===== verification/Gw_Sweep.thy ===== *)
theory Gw_Sweep
  imports Dm_System
begin

text \<open>
  Steps that leave the states of jobs alone, and the loops of the daemon over the job
  pool, \<open>for (i = 0; i < gw_conf.number_of_jobs; i++)\<close>, of which there is one in every
  timer and in every recovery: the locale \<open>job_sweep\<close> gives what a sweep does from
  what it does to one job.
\<close>

section \<open>Quiet steps\<close>

inductive quiet_step :: "gwd \<Rightarrow> gwd \<Rightarrow> bool" where
  work: "job_step jid {} w w' \<Longrightarrow> quiet_step w w'"
| post: "name \<in> set dm_names \<Longrightarrow> quiet_step w (trigger_dm name arg w)"
| taken_em: "w_em w = p # q \<Longrightarrow> quiet_step w (w\<lparr>w_em := q\<rparr>)"
| taken_tm: "w_tm w = p # q \<Longrightarrow> quiet_step w (w\<lparr>w_tm := q\<rparr>)"

text \<open>What everybody sees of a job, and what belongs to the dispatch manager.\<close>

definition job_view :: "gwd \<Rightarrow> int \<Rightarrow> (int \<times> gw_job_state) option" where
  "job_view w k = map_option (\<lambda>j. (job_id j, job_job_state j)) (gw_job_pool_get w k)"

definition same_jobs :: "gwd \<Rightarrow> gwd \<Rightarrow> bool" where
  "same_jobs w w' \<longleftrightarrow> job_view w' = job_view w \<and> w_deps w' = w_deps w \<and> w_arrays w' = w_arrays w
     \<and> w_conf w' = w_conf w"

lemma job_step_same: "job_step jid {} w w' \<Longrightarrow> same_jobs w w'"
proof -
  assume step: "job_step jid {} w w'"
  have "job_view w' k = job_view w k" for k
    using step by (cases "k = jid") (auto simp: job_step_def job_view_def elim: option.rel_cases)
  with step show ?thesis by (auto simp: same_jobs_def job_step_def)
qed

lemma quiet_same: "quiet_step w w' \<Longrightarrow> same_jobs w w'"
proof (induction rule: quiet_step.induct)
  case (work jid w w')
  then show ?case by (rule job_step_same)
qed (simp_all add: same_jobs_def job_view_def [abs_def] trigger_dm_def)

lemma quiet_gwd: "quiet_step w w' \<Longrightarrow> gwd_step w w'"
proof (induction rule: quiet_step.induct)
  case (taken_em w p q)
  then show ?case using gwd_step.taken [of w "[p]" q "[]" "w_tm w" "[]" "w_rm w"] by simp
next
  case (taken_tm w p q)
  then show ?case using gwd_step.taken [of w "[]" "w_em w" "[p]" q "[]" "w_rm w"] by simp
qed (auto intro: gwd_step.driver gwd_step.post)

lemma quiet_run_same: "quiet_step\<^sup>*\<^sup>* w w' \<Longrightarrow> same_jobs w w'"
  by (induction rule: rtranclp_induct) (auto simp: same_jobs_def dest!: quiet_same)

lemma quiet_run_gwd: "quiet_step\<^sup>*\<^sup>* w w' \<Longrightarrow> gwd_step\<^sup>*\<^sup>* w w'"
  by (induction rule: rtranclp_induct) (auto intro: quiet_gwd rtranclp.rtrancl_into_rtrancl)

lemma quiet_work: "keeps (job_step jid {} w) m \<Longrightarrow> m = Some w' \<Longrightarrow> quiet_step w w'"
  by (blast intro: quiet_step.work dest: keepsD)

section \<open>Sweeps\<close>

locale job_sweep =
  fixes one :: "int \<Rightarrow> gwd \<Rightarrow> gwd option"
    and sweep :: "int \<Rightarrow> nat \<Rightarrow> gwd \<Rightarrow> gwd option"
  assumes sweep_end: "sweep i 0 w = Some w"
    and sweep_next: "sweep i (Suc k) w = do {
      w \<leftarrow> (if gw_job_pool_get w i = None then Some w else one i w);
      sweep (i + 1) k w
    }"
    and one_step: "keeps (job_step i {} w) (one i w)"
begin

lemma sweep_quiet: "sweep i k w = Some w' \<Longrightarrow> quiet_step\<^sup>*\<^sup>* w w'"
proof (induction k arbitrary: i w)
  case (Suc k)
  then obtain w1 where w1: "(if gw_job_pool_get w i = None then Some w else one i w) = Some w1"
    "sweep (i + 1) k w1 = Some w'"
    by (auto simp: sweep_next bind_Some_iff)
  have "w1 = w \<or> quiet_step w w1"
    using w1(1) quiet_work [OF one_step, of i w w1] by (auto split: if_splits)
  with Suc.IH [OF w1(2)] show ?case by (auto intro: converse_rtranclp_into_rtranclp)
qed (simp add: sweep_end)

lemma sweep_same: "sweep i k w = Some w' \<Longrightarrow> same_jobs w w'"
  by (rule quiet_run_same) (rule sweep_quiet)

end

interpretation check: job_sweep gw_dm_check_job check_jobs_from
  by unfold_locales (simp_all add: step_check_job)

end
