(* ===== verification/Tm_Transfer.thy ===== *)
theory Tm_Transfer
  imports Gw_Job_Pool
begin

text \<open>
  The transfer manager, \<open>src/tm\<close>: the transfers of a prolog, an epilog or a checkpoint
  are carried out by a driver (MAD) that is sent one line per command and answers
  each with one line.  A function on a job returns the job, the lines written to the
  drivers and the actions posted to the dispatch manager; \<open>None\<close> is a crash: a NULL
  dereference, an index outside a transfer array, a variable used unassigned.
  \<open>gw_job_substitute\<close>, a generated parser, is the parameter \<open>subst\<close>.
\<close>

section \<open>Results\<close>

record tm_out =
  tm_job :: gw_job
  tm_lines :: "(string \<times> tm_msg) list"
  tm_posts :: "string list"

definition tm_skip :: "gw_job \<Rightarrow> tm_out" where
  "tm_skip job = \<lparr> tm_job = job, tm_lines = [], tm_posts = [] \<rparr>"

definition tm_then :: "tm_out option \<Rightarrow> (gw_job \<Rightarrow> tm_out option) \<Rightarrow> tm_out option" where
  "tm_then m f = do {
     r \<leftarrow> m;
     r' \<leftarrow> f (tm_job r);
     Some \<lparr> tm_job = tm_job r', tm_lines = tm_lines r @ tm_lines r', tm_posts = tm_posts r @ tm_posts r' \<rparr>
   }"

definition tm_state_to :: "gw_tm_state \<Rightarrow> gw_job \<Rightarrow> tm_out" where
  "tm_state_to s job = tm_skip (job\<lparr>job_tm_state := s\<rparr>)"

definition tm_post :: "string \<Rightarrow> gw_job \<Rightarrow> tm_out" where
  "tm_post action job = (tm_skip job)\<lparr>tm_posts := [action]\<rparr>"

text \<open>A line to the driver of the job's newest record, \<open>job->history->tm_mad\<close>.\<close>

definition tm_send :: "tm_msg \<Rightarrow> gw_job \<Rightarrow> tm_out option" where
  "tm_send msg job = do {
     r \<leftarrow> hist_at 0 job;
     Some ((tm_skip job)\<lparr>tm_lines := [(hist_tm_mad r, msg)]\<rparr>)
   }"

section \<open>Transfers of a job\<close>

definition xfr_at :: "gw_xfrs \<Rightarrow> int \<Rightarrow> gw_xfr option" where
  "xfr_at x i = do { xs \<leftarrow> xfrs_xfrs x; rd xs i }"

definition put_xfr :: "int \<Rightarrow> (gw_xfr \<Rightarrow> gw_xfr) \<Rightarrow> gw_xfrs \<Rightarrow> gw_xfrs option" where
  "put_xfr i f x = do {
     xs \<leftarrow> xfrs_xfrs x;
     e \<leftarrow> rd xs i;
     xs \<leftarrow> wr xs i (f e);
     Some (x\<lparr>xfrs_xfrs := Some xs\<rparr>)
   }"

text \<open>\<open>job->xfrs.xfrs[i] = ...\<close> and \<open>job->chk_xfrs.xfrs[i] = ...\<close>.\<close>

definition upd_xfr :: "int \<Rightarrow> (gw_xfr \<Rightarrow> gw_xfr) \<Rightarrow> gw_job \<Rightarrow> gw_job option" where
  "upd_xfr i f job = do { x \<leftarrow> put_xfr i f (job_xfrs job); Some (job\<lparr>job_xfrs := x\<rparr>) }"

definition upd_chk :: "int \<Rightarrow> (gw_xfr \<Rightarrow> gw_xfr) \<Rightarrow> gw_job \<Rightarrow> gw_job option" where
  "upd_chk i f job = do { x \<leftarrow> put_xfr i f (job_chk_xfrs job); Some (job\<lparr>job_chk_xfrs := x\<rparr>) }"

definition xfr_finish :: "bool \<Rightarrow> gw_xfr \<Rightarrow> gw_xfr" where
  "xfr_finish ok e = e\<lparr>xfr_done := True, xfr_success := ok\<rparr>"

definition xfr_settle :: "bool \<Rightarrow> gw_xfr \<Rightarrow> gw_xfr" where
  "xfr_settle ok e = e\<lparr>xfr_done := True, xfr_success := ok, xfr_counter := - 1\<rparr>"

text \<open>
  The loops \<open>for (i = 0; i < n; i++) if (src_url != NULL && success == GW_FALSE) {failed
  = GW_TRUE; break;}\<close>.
\<close>

fun some_failed :: "gw_xfrs \<Rightarrow> int \<Rightarrow> nat \<Rightarrow> bool option" where
  "some_failed x i 0 = Some False"
| "some_failed x i (Suc k) = do {
     e \<leftarrow> xfr_at x i;
     if xfr_src_url e \<noteq> None \<and> \<not> xfr_success e then Some True else some_failed x (i + 1) k
   }"

section \<open>URLs\<close>

fun has_infix :: "string \<Rightarrow> string \<Rightarrow> bool" where
  "has_infix p [] \<longleftrightarrow> p = []"
| "has_infix p (c # cs) \<longleftrightarrow> take (length p) (c # cs) = p \<or> has_infix p cs"

text \<open>\<open>strrchr(s, '/') + 1\<close>, NULL when there is no slash.\<close>

definition after_slash :: "string \<Rightarrow> string option" where
  "after_slash s = (if CHR ''/'' \<in> set s
     then Some (rev (takeWhile (\<lambda>c. c \<noteq> CHR ''/'') (rev s))) else None)"

text \<open>The buffer of 1024 bytes: \<open>snprintf\<close> cuts, \<open>strncpy\<close> leaves a long string unterminated.\<close>

definition buf1024 :: "string \<Rightarrow> string" where
  "buf1024 s = take 1023 s"

definition strncpy1024 :: "string \<Rightarrow> string option" where
  "strncpy1024 s = (if length s < 1024 then Some s else None)"

text \<open>The two URLs, the second NULL in one case, or a code with both unassigned.\<close>

datatype built = URLS string "string option" | NO_URLS int

text \<open>
  In the first branch the result of the second substitution is not tested (the test
  reads \<open>dst_url\<close>, not \<open>*dst_url\<close>).
\<close>

definition gw_tm_prolog_build_urls ::
    "(string \<Rightarrow> gw_job \<Rightarrow> string option) \<Rightarrow> gw_job \<Rightarrow> string \<Rightarrow> string option \<Rightarrow> built option" where
  "gw_tm_prolog_build_urls subst job src dst =
     (if take 1 src = ''/'' then Some (NO_URLS 1)
      else if has_infix ''remote://'' src then
        (case subst src job of
           None \<Rightarrow> Some (NO_URLS (- 1))
         | Some s \<Rightarrow> (case (case dst of None \<Rightarrow> after_slash src | Some d \<Rightarrow> Some d) of
               None \<Rightarrow> Some (NO_URLS (- 1))
             | Some name \<Rightarrow> do {
                 r \<leftarrow> hist_at 0 job;
                 Some (URLS s (subst (buf1024 (hist_rdir r @ name)) job))
               }))
      else
        (let home = cstr (jt_job_home (job_template job));
             local = has_infix ''file://'' src;
             url = (if local then strncpy1024 src else Some (buf1024 (''file://'' @ home @ ''/'' @ src)))
         in case (case dst of None \<Rightarrow> if local then after_slash src else Some src | Some d \<Rightarrow> Some d) of
              None \<Rightarrow> Some (NO_URLS (- 1))
            | Some name \<Rightarrow> do {
                url \<leftarrow> url;
                (case subst url job of
                   None \<Rightarrow> Some (NO_URLS (- 1))
                 | Some s \<Rightarrow> do {
                     r \<leftarrow> hist_at 0 job;
                     (case subst (buf1024 (hist_rdir r @ name)) job of
                        None \<Rightarrow> Some (NO_URLS (- 1))
                      | Some d \<Rightarrow> Some (URLS s (Some d)))
                   })
              }))"

text \<open>The record whose remote directory an epilog reads: the previous one after a migration.\<close>

definition epilog_record :: "gw_job \<Rightarrow> gw_history option" where
  "epilog_record job =
     (if job_job_state job = GW_JOB_STATE_MIGR_EPILOG then hist_at 1 job else hist_at 0 job)"

definition gw_tm_epilog_build_urls ::
    "(string \<Rightarrow> gw_job \<Rightarrow> string option) \<Rightarrow> gw_job \<Rightarrow> string \<Rightarrow> string option \<Rightarrow> built option" where
  "gw_tm_epilog_build_urls subst job src dst = do {
     r \<leftarrow> epilog_record job;
     let home = cstr (jt_job_home (job_template job));
     (case subst (buf1024 (hist_rdir r @ src)) job of
        None \<Rightarrow> Some (NO_URLS (- 1))
      | Some s \<Rightarrow>
          if dst \<noteq> None \<and> has_infix ''remote://'' (the dst) then Some (URLS s (subst (the dst) job))
          else do {
            url \<leftarrow> (case dst of
                None \<Rightarrow> Some (buf1024 (''file://'' @ home @ ''/'' @ src))
              | Some d \<Rightarrow>
                  if has_infix ''file://'' d then strncpy1024 d
                  else if take 1 d = ''/'' then Some (buf1024 (''file://'' @ d))
                  else Some (buf1024 (''file://'' @ home @ ''/'' @ d)));
            (case subst url job of
               None \<Rightarrow> Some (NO_URLS (- 1))
             | Some d \<Rightarrow> Some (URLS s (Some d)))
          })
   }"

text \<open>\<open>gw_tm_mad_cp\<close> of the URLs built; without them two unassigned pointers are read.\<close>

definition send_cp :: "int \<Rightarrow> char \<Rightarrow> built \<Rightarrow> gw_job \<Rightarrow> tm_out option" where
  "send_cp i mode u job =
     (case u of
        URLS s d \<Rightarrow> tm_send (TM_CP (job_id job) i mode s (cstr d)) job
      | NO_URLS rc \<Rightarrow> None)"

section \<open>Stage-in (gw_tm_prolog.c)\<close>

definition send_rmdir :: "gw_job \<Rightarrow> tm_out option" where
  "send_rmdir job = do { r \<leftarrow> hist_at 0 job; tm_send (TM_RMDIR (job_id job) (hist_rdir r)) job }"

definition send_end :: "gw_job \<Rightarrow> tm_out option" where
  "send_end job = tm_send (TM_END (job_id job)) job"

text \<open>The end of the copies of a prolog: the directory goes, or the transfer ends.\<close>

definition prolog_complete :: "gw_job \<Rightarrow> tm_out option" where
  "prolog_complete job = do {
     failed \<leftarrow> some_failed (job_xfrs job) 0 (nat (xfrs_failure_limit (job_xfrs job)));
     if failed
     then tm_then (send_rmdir job) (\<lambda>job. Some (tm_state_to GW_TM_STATE_PROLOG_FAILED job))
     else send_end job
   }"

text \<open>The loop that starts the copies; \<open>pend\<close> counts them.\<close>

fun prolog_copies ::
    "(string \<Rightarrow> gw_job \<Rightarrow> string option) \<Rightarrow> int \<Rightarrow> nat \<Rightarrow> int \<Rightarrow> gw_job \<Rightarrow> (tm_out \<times> int) option" where
  "prolog_copies subst i 0 pend job = Some (tm_skip job, pend)"
| "prolog_copies subst i (Suc k) pend job = do {
     e \<leftarrow> xfr_at (job_xfrs job) i;
     (case xfr_src_url e of
        None \<Rightarrow> prolog_copies subst (i + 1) k pend job
      | Some src \<Rightarrow> do {
          u \<leftarrow> gw_tm_prolog_build_urls subst job src (xfr_dst_url e);
          (case u of
             NO_URLS rc \<Rightarrow> do {
               job \<leftarrow> upd_xfr i (xfr_finish (rc = 1)) job;
               prolog_copies subst (i + 1) k pend job
             }
           | URLS s d \<Rightarrow> do {
               r \<leftarrow> send_cp i (xfr_mode e) u job;
               (r', pend) \<leftarrow> prolog_copies subst (i + 1) k (pend + 1) job;
               Some (r'\<lparr>tm_lines := tm_lines r @ tm_lines r'\<rparr>, pend)
             })
        })
   }"

definition gw_tm_prolog_stage_in ::
    "(string \<Rightarrow> gw_job \<Rightarrow> string option) \<Rightarrow> gw_job \<Rightarrow> tm_out option" where
  "gw_tm_prolog_stage_in subst job =
     (if job_history job = [] then Some (tm_skip job)
      else do {
        (r, pend) \<leftarrow> prolog_copies subst 0 (nat (xfrs_number (job_xfrs job))) 0 job;
        if pend = 0 then tm_then (Some r) prolog_complete else Some r
      })"

text \<open>The next try of a failed copy: from the alternative source, later, or never.\<close>

definition prolog_retry ::
    "(string \<Rightarrow> gw_job \<Rightarrow> string option) \<Rightarrow> int \<Rightarrow> gw_job \<Rightarrow> tm_out option" where
  "prolog_retry subst i job = do {
     let retries = jt_number_of_retries (job_template job);
     job \<leftarrow> upd_xfr i (\<lambda>e. e\<lparr>xfr_tries := xfr_tries e - 1\<rparr>) job;
     e \<leftarrow> xfr_at (job_xfrs job) i;
     if xfr_tries e = 0 then
       (case xfr_alt_src_url e of
          Some alt \<Rightarrow> do {
            job \<leftarrow> upd_xfr i (\<lambda>e. e\<lparr>xfr_tries := retries, xfr_src_url := Some alt,
                       xfr_alt_src_url := None, xfr_counter := - 1\<rparr>) job;
            u \<leftarrow> gw_tm_prolog_build_urls subst job alt (xfr_dst_url e);
            send_cp i (xfr_mode e) u job
          }
        | None \<Rightarrow> do { job \<leftarrow> upd_xfr i (xfr_settle False) job; Some (tm_skip job) })
     else if xfr_tries e > 0 then do {
       job \<leftarrow> upd_xfr i (\<lambda>e. e\<lparr>xfr_counter := retries - xfr_tries e\<rparr>) job;
       Some (tm_skip job)
     }
     else Some (tm_skip job)
   }"

definition gw_tm_prolog_cp_cb ::
    "(string \<Rightarrow> gw_job \<Rightarrow> string option) \<Rightarrow> int \<Rightarrow> bool \<Rightarrow> gw_job \<Rightarrow> tm_out option" where
  "gw_tm_prolog_cp_cb subst i failure job =
     (if job_history job = [] then Some (tm_skip job)
      else tm_then
        (if \<not> failure then do { job \<leftarrow> upd_xfr i (xfr_settle True) job; Some (tm_skip job) }
         else prolog_retry subst i job)
        (\<lambda>job. do {
           pend \<leftarrow> gw_xfr_pending (job_xfrs job);
           if pend = 0 then prolog_complete job else Some (tm_skip job)
         }))"

section \<open>Stage-out (gw_tm_epilog.c)\<close>

definition send_epilog_rmdir :: "gw_job \<Rightarrow> tm_out option" where
  "send_epilog_rmdir job = do {
     r \<leftarrow> epilog_record job;
     tm_send (TM_RMDIR (job_id job) (hist_rdir r)) job
   }"

text \<open>The loop that starts the copies, of an epilog (\<open>xfrs\<close>) or a checkpoint (\<open>chk_xfrs\<close>).\<close>

fun copies_out ::
    "(string \<Rightarrow> gw_job \<Rightarrow> string option) \<Rightarrow> (int \<Rightarrow> (gw_xfr \<Rightarrow> gw_xfr) \<Rightarrow> gw_job \<Rightarrow> gw_job option)
       \<Rightarrow> (gw_job \<Rightarrow> gw_xfrs) \<Rightarrow> int \<Rightarrow> nat \<Rightarrow> gw_job \<Rightarrow> tm_out option" where
  "copies_out subst upd xfrs i 0 job = Some (tm_skip job)"
| "copies_out subst upd xfrs i (Suc k) job = do {
     e \<leftarrow> xfr_at (xfrs job) i;
     (case xfr_src_url e of
        None \<Rightarrow> copies_out subst upd xfrs (i + 1) k job
      | Some src \<Rightarrow> do {
          u \<leftarrow> gw_tm_epilog_build_urls subst job src (xfr_dst_url e);
          tm_then
            (case u of
               NO_URLS rc \<Rightarrow> do { job \<leftarrow> upd i (xfr_finish False) job; Some (tm_skip job) }
             | URLS s d \<Rightarrow> send_cp i (CHR ''-'') u job)
            (copies_out subst upd xfrs (i + 1) k)
        })
   }"

text \<open>Some files were not copied: the directory is kept in the last epilogs of a job.\<close>

definition epilog_failed :: "gw_job \<Rightarrow> tm_out option" where
  "epilog_failed job =
     tm_then (Some (tm_state_to GW_TM_STATE_EPILOG_FAILED job))
       (\<lambda>job. if job_job_state job \<in> {GW_JOB_STATE_EPILOG, GW_JOB_STATE_EPILOG_STD}
          then send_end job else send_epilog_rmdir job)"

text \<open>Nothing is left to copy: the wrapper's output keeps the directory.\<close>

definition epilog_complete :: "gw_job \<Rightarrow> tm_out option" where
  "epilog_complete job =
     (if job_job_state job = GW_JOB_STATE_EPILOG_STD then send_end job else send_epilog_rmdir job)"

definition gw_tm_epilog_stage_out ::
    "(string \<Rightarrow> gw_job \<Rightarrow> string option) \<Rightarrow> gw_job \<Rightarrow> tm_out option" where
  "gw_tm_epilog_stage_out subst job =
     (if job_history job = [] then Some (tm_skip job)
      else do {
        _ \<leftarrow> epilog_record job;
        (if xfrs_number (job_xfrs job) > 0
         then tm_then (copies_out subst upd_xfr job_xfrs 0 (nat (xfrs_number (job_xfrs job))) job)
           (\<lambda>job. do {
              pend \<leftarrow> gw_xfr_pending (job_xfrs job);
              if pend = 0 then epilog_failed job else Some (tm_skip job)
            })
         else epilog_complete job)
      })"

text \<open>A failed copy of an epilog: \<open>True\<close> when it will be tried again.\<close>

definition copy_failed ::
    "(int \<Rightarrow> (gw_xfr \<Rightarrow> gw_xfr) \<Rightarrow> gw_job \<Rightarrow> gw_job option) \<Rightarrow> (gw_job \<Rightarrow> gw_xfrs) \<Rightarrow> int \<Rightarrow> gw_job
       \<Rightarrow> (bool \<times> gw_job) option" where
  "copy_failed upd xfrs i job = do {
     job \<leftarrow> upd i (\<lambda>e. e\<lparr>xfr_tries := xfr_tries e - 1\<rparr>) job;
     e \<leftarrow> xfr_at (xfrs job) i;
     if xfr_tries e = 0 then do { job \<leftarrow> upd i (xfr_settle False) job; Some (False, job) }
     else do {
       job \<leftarrow> upd i (\<lambda>e. e\<lparr>xfr_counter := jt_number_of_retries (job_template job) - xfr_tries e\<rparr>) job;
       Some (True, job)
     }
   }"

definition gw_tm_epilog_cp_cb :: "int \<Rightarrow> bool \<Rightarrow> gw_job \<Rightarrow> tm_out option" where
  "gw_tm_epilog_cp_cb i failure job =
     (if job_history job = [] then Some (tm_skip job)
      else do {
        (again, job) \<leftarrow> (if \<not> failure
            then do { job \<leftarrow> upd_xfr i (xfr_settle True) job; Some (False, job) }
            else copy_failed upd_xfr job_xfrs i job);
        if again then Some (tm_skip job)
        else do {
          pend \<leftarrow> gw_xfr_pending (job_xfrs job);
          if pend = 0 then do {
            failed \<leftarrow> some_failed (job_xfrs job) 0 (nat (xfrs_failure_limit (job_xfrs job) + 1));
            if failed then epilog_failed job else epilog_complete job
          }
          else Some (tm_skip job)
        }
      })"


section \<open>Checkpoints (gw_tm_checkpoint.c)\<close>

text \<open>The copies of a checkpoint are over: an epilog that waited for them starts.\<close>

definition checkpoint_complete ::
    "(string \<Rightarrow> gw_job \<Rightarrow> string option) \<Rightarrow> gw_job \<Rightarrow> tm_out option" where
  "checkpoint_complete subst job =
     (if job_job_state job \<in> {GW_JOB_STATE_STOP_EPILOG, GW_JOB_STATE_EPILOG_RESTART}
      then gw_tm_epilog_stage_out subst (job\<lparr>job_tm_state := GW_TM_STATE_EPILOG\<rparr>)
      else send_end (job\<lparr>job_tm_state := GW_TM_STATE_INIT\<rparr>))"

definition gw_tm_checkpoint_cp ::
    "char \<Rightarrow> (string \<Rightarrow> gw_job \<Rightarrow> string option) \<Rightarrow> gw_job \<Rightarrow> tm_out option" where
  "gw_tm_checkpoint_cp junk subst job =
     (if job_history job = [] then Some (tm_skip job)
      else do {
        let n = num_restart_files (job_template job);
        _ \<leftarrow> gw_xfr_destroy (job_chk_xfrs job);
        let x = gw_xfr_init junk n (jt_number_of_retries (job_template job));
        block \<leftarrow> xfrs_xfrs x;
        es \<leftarrow> gw_dm_epilog_restart_files job;
        block \<leftarrow> put_entries es 0 block;
        tm_then (copies_out subst upd_chk job_chk_xfrs 0 (nat n)
            (job\<lparr>job_chk_xfrs := x\<lparr>xfrs_xfrs := Some block\<rparr>\<rparr>))
          (\<lambda>job. do {
             pend \<leftarrow> gw_xfr_pending (job_chk_xfrs job);
             if pend = 0 then checkpoint_complete subst job else Some (tm_skip job)
           })
      })"

definition gw_tm_checkpoint_cp_cb ::
    "(string \<Rightarrow> gw_job \<Rightarrow> string option) \<Rightarrow> int \<Rightarrow> bool \<Rightarrow> gw_job \<Rightarrow> tm_out option" where
  "gw_tm_checkpoint_cp_cb subst i failure job =
     (if job_history job = [] then Some (tm_skip job)
      else do {
        (again, job) \<leftarrow> (if \<not> failure
            then do { job \<leftarrow> upd_chk i (xfr_settle True) job; Some (False, job) }
            else copy_failed upd_chk job_chk_xfrs i job);
        if again then Some (tm_skip job)
        else do {
          pend \<leftarrow> gw_xfr_pending (job_chk_xfrs job);
          if pend = 0 then checkpoint_complete subst job else Some (tm_skip job)
        }
      })"

section \<open>The answers of a driver (gw_tm_listener.c)\<close>

text \<open>A line to the driver that has answered, and the directory it is about.\<close>

definition tm_reply :: "string \<Rightarrow> tm_msg \<Rightarrow> gw_job \<Rightarrow> tm_out" where
  "tm_reply mad msg job = (tm_skip job)\<lparr>tm_lines := [(mad, msg)]\<rparr>"

definition gw_tm_start_action_cb ::
    "char \<Rightarrow> (string \<Rightarrow> gw_job \<Rightarrow> string option) \<Rightarrow> string \<Rightarrow> bool \<Rightarrow> gw_job \<Rightarrow> tm_out option" where
  "gw_tm_start_action_cb junk subst mad failure job =
     (case job_tm_state job of
        GW_TM_STATE_PROLOG \<Rightarrow>
          if failure
          then Some (tm_post ''GW_DM_PROLOG_FAILED'' (job\<lparr>job_tm_state := GW_TM_STATE_INIT\<rparr>))
          else do {
            r \<leftarrow> hist_at 0 job;
            Some (tm_reply mad (TM_RMDIR (job_id job) (hist_rdir r)) job)
          }
      | GW_TM_STATE_EPILOG \<Rightarrow>
          if failure
          then Some (tm_post ''GW_DM_EPILOG_FAILED'' (job\<lparr>job_tm_state := GW_TM_STATE_INIT\<rparr>))
          else gw_tm_epilog_stage_out subst job
      | GW_TM_STATE_CHECKPOINT \<Rightarrow>
          if failure then Some (tm_state_to GW_TM_STATE_INIT job)
          else gw_tm_checkpoint_cp junk subst job
      | _ \<Rightarrow> Some (tm_skip job))"

definition gw_tm_rmdir_action_cb :: "string \<Rightarrow> gw_job \<Rightarrow> tm_out option" where
  "gw_tm_rmdir_action_cb mad job =
     (if job_tm_state job = GW_TM_STATE_PROLOG then do {
        r \<leftarrow> hist_at 0 job;
        Some (tm_reply mad (TM_MKDIR (job_id job) (hist_rdir r)) job)
      }
      else if job_tm_state job \<in> {GW_TM_STATE_EPILOG, GW_TM_STATE_EPILOG_FAILED,
           GW_TM_STATE_PROLOG_FAILED} then send_end job
      else Some (tm_skip job))"

definition gw_tm_mkdir_action_cb ::
    "(string \<Rightarrow> gw_job \<Rightarrow> string option) \<Rightarrow> string \<Rightarrow> bool \<Rightarrow> gw_job \<Rightarrow> tm_out option" where
  "gw_tm_mkdir_action_cb subst mad failure job =
     (if job_tm_state job = GW_TM_STATE_PROLOG then
        (if failure
         then Some (tm_reply mad (TM_END (job_id job)) (job\<lparr>job_tm_state := GW_TM_STATE_PROLOG_FAILED\<rparr>))
         else gw_tm_prolog_stage_in subst job)
      else Some (tm_skip job))"

definition gw_tm_cp_action_cb ::
    "(string \<Rightarrow> gw_job \<Rightarrow> string option) \<Rightarrow> int \<Rightarrow> bool \<Rightarrow> gw_job \<Rightarrow> tm_out option" where
  "gw_tm_cp_action_cb subst i failure job =
     (case job_tm_state job of
        GW_TM_STATE_PROLOG \<Rightarrow> gw_tm_prolog_cp_cb subst i failure job
      | GW_TM_STATE_EPILOG \<Rightarrow> gw_tm_epilog_cp_cb i failure job
      | GW_TM_STATE_CHECKPOINT \<Rightarrow> gw_tm_checkpoint_cp_cb subst i failure job
      | _ \<Rightarrow> Some (tm_skip job))"

text \<open>The message of a failed END is printed with \<open>%s\<close> and no argument: undefined.\<close>

definition gw_tm_end_action_cb :: "bool \<Rightarrow> gw_job \<Rightarrow> tm_out option" where
  "gw_tm_end_action_cb failure job =
     (let init = job\<lparr>job_tm_state := GW_TM_STATE_INIT\<rparr> in
      if failure then None
      else case job_tm_state job of
        GW_TM_STATE_PROLOG \<Rightarrow> Some (tm_post ''GW_DM_PROLOG_DONE'' init)
      | GW_TM_STATE_PROLOG_FAILED \<Rightarrow> Some (tm_post ''GW_DM_PROLOG_FAILED'' init)
      | GW_TM_STATE_EPILOG \<Rightarrow> Some (tm_post ''GW_DM_EPILOG_DONE'' init)
      | GW_TM_STATE_EPILOG_FAILED \<Rightarrow> Some (tm_post ''GW_DM_EPILOG_FAILED'' init)
      | GW_TM_STATE_CHECKPOINT_CANCEL \<Rightarrow>
          tm_send (TM_START (job_id job)) (job\<lparr>job_tm_state :=
            (if job_job_state job \<in> {GW_JOB_STATE_PROLOG, GW_JOB_STATE_MIGR_PROLOG}
             then GW_TM_STATE_PROLOG else GW_TM_STATE_EPILOG)\<rparr>)
      | _ \<Rightarrow> Some (tm_skip job))"

text \<open>The switch over the action of a line.\<close>

definition tm_answer ::
    "char \<Rightarrow> (string \<Rightarrow> gw_job \<Rightarrow> string option) \<Rightarrow> string \<Rightarrow> string \<Rightarrow> int \<Rightarrow> bool \<Rightarrow> gw_job
       \<Rightarrow> tm_out option" where
  "tm_answer junk subst mad action i failure job =
     (if job_tm_state job = GW_TM_STATE_HARD_KILL then Some (tm_skip job)
      else if action = ''START'' then gw_tm_start_action_cb junk subst mad failure job
      else if action = ''END'' then gw_tm_end_action_cb failure job
      else if action = ''MKDIR'' then gw_tm_mkdir_action_cb subst mad failure job
      else if action = ''RMDIR'' then gw_tm_rmdir_action_cb mad job
      else if action = ''CP'' then gw_tm_cp_action_cb subst i failure job
      else Some (tm_skip job))"


section \<open>A driver that succeeds\<close>

text \<open>The answer to a line: its action and the number of the transfer.\<close>

fun answer_of :: "tm_msg \<Rightarrow> string \<times> int" where
  "answer_of (TM_START _) = (''START'', 0)"
| "answer_of (TM_END _) = (''END'', 0)"
| "answer_of (TM_RMDIR _ _) = (''RMDIR'', 0)"
| "answer_of (TM_MKDIR _ _) = (''MKDIR'', 0)"
| "answer_of (TM_CP _ i _ _ _) = (''CP'', i)"

text \<open>
  The driver answers the lines in their order with success, for at most \<open>fuel\<close> lines;
  the result is the job and what was posted, \<open>None\<close> a crash or fuel that was too little.
\<close>

fun driver_run ::
    "nat \<Rightarrow> char \<Rightarrow> (string \<Rightarrow> gw_job \<Rightarrow> string option) \<Rightarrow> (string \<times> tm_msg) list \<Rightarrow> gw_job
       \<Rightarrow> (gw_job \<times> string list) option" where
  "driver_run fuel junk subst [] job = Some (job, [])"
| "driver_run 0 junk subst (l # ls) job = None"
| "driver_run (Suc fuel) junk subst ((mad, msg) # ls) job = do {
     r \<leftarrow> tm_answer junk subst mad (fst (answer_of msg)) (snd (answer_of msg)) False job;
     (job, posts) \<leftarrow> driver_run fuel junk subst (ls @ tm_lines r) (tm_job r);
     Some (job, tm_posts r @ posts)
   }"

text \<open>The transfers \<open>xs\<close> after the copies of the first \<open>i\<close>.\<close>

definition settled :: "nat \<Rightarrow> gw_xfr list \<Rightarrow> gw_xfr list" where
  "settled i xs = map (xfr_settle True) (take i xs) @ drop i xs"

definition with_settled :: "nat \<Rightarrow> gw_job \<Rightarrow> gw_xfr list \<Rightarrow> gw_job" where
  "with_settled i job xs = job\<lparr>job_xfrs := (job_xfrs job)\<lparr>xfrs_xfrs := Some (settled i xs)\<rparr>\<rparr>"

text \<open>Transfers that are all still to be made.\<close>

definition all_pending :: "gw_job \<Rightarrow> gw_xfr list \<Rightarrow> bool" where
  "all_pending job xs \<longleftrightarrow>
     xfrs_xfrs (job_xfrs job) = Some xs \<and> xfrs_number (job_xfrs job) = int (length xs)
   \<and> (\<forall>e \<in> set xs. xfr_src_url e \<noteq> None \<and> \<not> xfr_done e)"

lemma settled_simps [simp]:
  "length (settled i xs) = length xs" "settled 0 xs = xs"
  "settled (length xs) xs = map (xfr_settle True) xs"
  by (simp_all add: settled_def)

lemma settled_step:
  "i < length xs \<Longrightarrow> (settled i xs)[i := xfr_settle True (xs ! i)] = settled (Suc i) xs"
  by (simp add: settled_def list_update_append take_Suc_conv_app_nth upd_conv_take_nth_drop
      flip: Cons_nth_drop_Suc)

lemma settled_nth: "i < length xs \<Longrightarrow> settled i xs ! i = xs ! i"
  by (simp add: settled_def nth_append)

lemma with_settled_0:
  assumes "all_pending job xs" shows "with_settled 0 job xs = job"
proof -
  have "(job_xfrs job)\<lparr>xfrs_xfrs := Some xs\<rparr> = job_xfrs job"
    using assms by (cases "job_xfrs job") (simp add: all_pending_def)
  then show ?thesis by (simp add: with_settled_def)
qed

lemma settle_one:
  assumes "i < length xs"
  shows "upd_xfr (int i) (xfr_settle True) (with_settled i job xs) = Some (with_settled (Suc i) job xs)"
  using assms
  by (simp add: upd_xfr_def put_xfr_def with_settled_def settled_nth settled_step wr_def rd_def)

lemma pending_settled:
  assumes "all_pending job xs" and "i \<le> length xs"
  shows "gw_xfr_pending (job_xfrs (with_settled i job xs)) = Some (int (length xs - i))"
proof -
  have "filter (\<lambda>f. xfr_src_url f \<noteq> None \<and> \<not> xfr_done f) (map (xfr_settle True) (take i xs)) = []"
    by (simp add: filter_empty_conv xfr_settle_def)
  moreover have "filter (\<lambda>f. xfr_src_url f \<noteq> None \<and> \<not> xfr_done f) (drop i xs) = drop i xs"
    using assms(1) by (auto simp: all_pending_def filter_id_conv dest: in_set_dropD)
  ultimately show ?thesis
    using assms by (simp add: gw_xfr_pending_def with_settled_def all_pending_def settled_def)
qed

lemma some_failed_none:
  assumes "xfrs_xfrs x = Some xs" and "\<forall>e \<in> set xs. xfr_success e" and "i + k \<le> length xs"
  shows "some_failed x (int i) k = Some False"
  using assms
proof (induction k arbitrary: i)
  case (Suc k)
  then have "xfr_at x (int i) = Some (xs ! i)" "xfr_success (xs ! i)"
    by (simp_all add: xfr_at_def)
  with Suc.IH [of "Suc i"] Suc.prems show ?case by (simp add: add.commute)
qed simp

lemma all_copied:
  assumes "all_pending job xs" and "n \<le> length xs"
  shows "some_failed (job_xfrs (with_settled (length xs) job xs)) 0 n = Some False"
  using some_failed_none [of "job_xfrs (with_settled (length xs) job xs)" "map (xfr_settle True) xs" 0 n]
    assms by (simp add: with_settled_def xfr_settle_def)


text \<open>The lines of the copies from \<open>i\<close> on.\<close>

definition cp_lines :: "(string \<times> tm_msg) list \<Rightarrow> nat \<Rightarrow> nat \<Rightarrow> bool" where
  "cp_lines ls i n \<longleftrightarrow> map (answer_of \<circ> snd) ls = map (\<lambda>j. (''CP'', int j)) [i ..< n]"

lemma cp_lines_Cons:
  "cp_lines ls i n \<Longrightarrow> i < n \<Longrightarrow> \<exists>mad msg ls'. ls = (mad, msg) # ls' \<and> answer_of msg = (''CP'', int i)
     \<and> cp_lines ls' (Suc i) n"
  by (cases ls) (auto simp: cp_lines_def upt_conv_Cons)

lemma driver_run_copies:
  assumes "i < length xs" and "cp_lines ls i (length xs)"
    and step: "\<And>mad j. j < length xs \<Longrightarrow>
      tm_answer junk subst mad ''CP'' (int j) False (with_settled j job xs) =
        Some (if Suc j = length xs then r else tm_skip (with_settled (Suc j) job xs))"
    and fin: "driver_run m junk subst (tm_lines r) (tm_job r) = Some (job', posts)" "tm_posts r = []"
  shows "driver_run (length xs - i + m) junk subst ls (with_settled i job xs) = Some (job', posts)"
  using assms(1,2)
proof (induction "length xs - i" arbitrary: i ls)
  case (Suc k)
  obtain mad msg ls' where ls: "ls = (mad, msg) # ls'" "answer_of msg = (''CP'', int i)"
    "cp_lines ls' (Suc i) (length xs)" using cp_lines_Cons [OF Suc.prems(2,1)] by blast
  have fuel: "length xs - i + m = Suc (length xs - Suc i + m)" using Suc.prems(1) by simp
  note answer = step [OF Suc.prems(1), of mad]
  show ?case
  proof (cases "Suc i = length xs")
    case True
    with ls(3) have "ls' = []" by (simp add: cp_lines_def)
    with answer True ls fin show ?thesis unfolding fuel by simp
  next
    case False
    have "driver_run (length xs - Suc i + m) junk subst ls' (with_settled (Suc i) job xs) = Some (job', posts)"
      by (rule Suc.hyps(1)) (use Suc.hyps(2) Suc.prems(1) False ls(3) in auto)
    with answer False ls show ?thesis unfolding fuel by (simp add: tm_skip_def)
  qed
qed simp

text \<open>The lines of the loop that starts the copies.\<close>

lemma tm_send_some: "job_history job \<noteq> [] \<Longrightarrow>
    tm_send msg job = Some ((tm_skip job)\<lparr>tm_lines := [(hist_tm_mad (hd (job_history job)), msg)]\<rparr>)"
  by (cases "job_history job") (simp_all add: tm_send_def hist_at_def)

definition builds ::
    "(gw_job \<Rightarrow> string \<Rightarrow> string option \<Rightarrow> built option) \<Rightarrow> gw_job \<Rightarrow> gw_xfr list \<Rightarrow> bool" where
  "builds build job xs \<longleftrightarrow>
     (\<forall>e \<in> set xs. \<exists>s d. build job (the (xfr_src_url e)) (xfr_dst_url e) = Some (URLS s d))"

lemma builds_nth: "builds build job xs \<Longrightarrow> i < length xs \<Longrightarrow> xfr_src_url (xs ! i) = Some src \<Longrightarrow>
    \<exists>s d. build job src (xfr_dst_url (xs ! i)) = Some (URLS s d)"
  unfolding builds_def by (metis nth_mem option.sel)

lemma with_settled_sel [simp]:
  "job_history (with_settled i job xs) = job_history job"
  "job_tm_state (with_settled i job xs) = job_tm_state job"
  "job_job_state (with_settled i job xs) = job_job_state job"
  "job_id (with_settled i job xs) = job_id job"
  "xfrs_failure_limit (job_xfrs (with_settled i job xs)) = xfrs_failure_limit (job_xfrs job)"
  "xfrs_number (job_xfrs (with_settled i job xs)) = xfrs_number (job_xfrs job)"
  by (simp_all add: with_settled_def)

lemma tm_then_skip: "tm_then (Some (tm_skip job)) f = f job"
  by (cases "f job") (simp_all add: tm_then_def tm_skip_def)

lemma tm_then_send:
  "tm_then (Some ((tm_skip job)\<lparr>tm_lines := [l]\<rparr>)) f =
     do { r \<leftarrow> f job; Some (r\<lparr>tm_lines := l # tm_lines r\<rparr>) }"
  by (cases "f job") (simp_all add: tm_then_def tm_skip_def)

lemma copies_out_all:
  assumes "all_pending job xs" and "job_history job \<noteq> []"
    and "builds (gw_tm_epilog_build_urls subst) job xs" and "i + k = length xs"
  shows "\<exists>ls. copies_out subst upd_xfr job_xfrs (int i) k job = Some ((tm_skip job)\<lparr>tm_lines := ls\<rparr>)
     \<and> cp_lines ls i (length xs)"
  using assms(4)
proof (induction k arbitrary: i)
  case (Suc k)
  then have i: "i < length xs" by simp
  with assms(1) obtain src where e: "xfr_at (job_xfrs job) (int i) = Some (xs ! i)"
      "xfr_src_url (xs ! i) = Some src"
    by (fastforce simp: all_pending_def xfr_at_def)
  obtain s d where u: "gw_tm_epilog_build_urls subst job src (xfr_dst_url (xs ! i)) = Some (URLS s d)"
    using builds_nth [OF assms(3) i e(2)] by blast
  from Suc.IH [of "Suc i"] Suc.prems obtain ls where
    ls: "copies_out subst upd_xfr job_xfrs (int (Suc i)) k job = Some ((tm_skip job)\<lparr>tm_lines := ls\<rparr>)"
      "cp_lines ls (Suc i) (length xs)" by auto
  let ?l = "(hist_tm_mad (hd (job_history job)), TM_CP (job_id job) (int i) (CHR ''-'') s (cstr d))"
  have "copies_out subst upd_xfr job_xfrs (int i) (Suc k) job = Some ((tm_skip job)\<lparr>tm_lines := ?l # ls\<rparr>)"
    using e u ls(1) assms(2) by (simp add: send_cp_def tm_send_some tm_then_send add.commute)
  moreover have "cp_lines (?l # ls) i (length xs)"
    using ls(2) i by (simp add: cp_lines_def upt_conv_Cons)
  ultimately show ?case by blast
qed (simp add: cp_lines_def tm_skip_def)

lemma stage_out_all:
  assumes "all_pending job xs" and "job_history job \<noteq> []" and "epilog_record job = Some rec"
    and "builds (gw_tm_epilog_build_urls subst) job xs" and "xs \<noteq> []"
  shows "\<exists>ls. gw_tm_epilog_stage_out subst job = Some ((tm_skip job)\<lparr>tm_lines := ls\<rparr>)
     \<and> cp_lines ls 0 (length xs)"
proof -
  obtain ls where ls: "copies_out subst upd_xfr job_xfrs 0 (length xs) job = Some ((tm_skip job)\<lparr>tm_lines := ls\<rparr>)"
    "cp_lines ls 0 (length xs)"
    using copies_out_all [OF assms(1,2,4), of 0 "length xs"] by auto
  have "xfrs_number (job_xfrs job) = int (length xs)" using assms(1) by (simp add: all_pending_def)
  moreover have "gw_xfr_pending (job_xfrs job) = Some (int (length xs))"
    using pending_settled [OF assms(1), of 0] with_settled_0 [OF assms(1)] by simp
  ultimately show ?thesis
    using ls assms(2,3,5) by (auto simp: gw_tm_epilog_stage_out_def tm_then_def tm_skip_def)
qed

lemma epilog_record_settled [simp]: "epilog_record (with_settled i job xs) = epilog_record job"
  by (simp add: epilog_record_def hist_at_def)

definition epilog_last :: "gw_job \<Rightarrow> gw_history \<Rightarrow> tm_msg" where
  "epilog_last job rec = (if job_job_state job = GW_JOB_STATE_EPILOG_STD
     then TM_END (job_id job) else TM_RMDIR (job_id job) (hist_rdir rec))"

lemma epilog_complete_ok:
  assumes "job_history job \<noteq> []" and "epilog_record job = Some rec"
  shows "epilog_complete job =
    Some ((tm_skip job)\<lparr>tm_lines := [(hist_tm_mad (hd (job_history job)), epilog_last job rec)]\<rparr>)"
  using assms by (simp add: epilog_complete_def send_end_def send_epilog_rmdir_def tm_send_some epilog_last_def)

lemma epilog_cp_step:
  assumes "all_pending job xs" and "job_history job \<noteq> []" and "job_tm_state job = GW_TM_STATE_EPILOG"
    and "xfrs_failure_limit (job_xfrs job) < int (length xs)" and "epilog_record job = Some rec"
    and "j < length xs"
  shows "tm_answer junk subst mad ''CP'' (int j) False (with_settled j job xs) =
    Some (if Suc j = length xs
      then (tm_skip (with_settled (length xs) job xs))
        \<lparr>tm_lines := [(hist_tm_mad (hd (job_history job)), epilog_last job rec)]\<rparr>
      else tm_skip (with_settled (Suc j) job xs))"
proof -
  let ?done = "with_settled (length xs) job xs"
  have "gw_xfr_pending (job_xfrs (with_settled (Suc j) job xs)) = Some (int (length xs - Suc j))"
    using pending_settled [OF assms(1), of "Suc j"] assms(6) by simp
  moreover have "some_failed (job_xfrs ?done) 0 (nat (xfrs_failure_limit (job_xfrs job) + 1)) = Some False"
    using all_copied [OF assms(1)] assms(4) by simp
  ultimately have "tm_answer junk subst mad ''CP'' (int j) False (with_settled j job xs) =
      (if Suc j = length xs then epilog_complete ?done
       else Some (tm_skip (with_settled (Suc j) job xs)))"
    using assms(2,3,6) settle_one [OF assms(6), of job]
    by (auto simp: tm_answer_def gw_tm_cp_action_cb_def gw_tm_epilog_cp_cb_def)
  then show ?thesis
    using epilog_complete_ok [of ?done rec] assms(2,5) by (simp add: epilog_last_def)
qed

text \<open>C15 (liveness).  An epilog whose driver succeeds: the start, every file copied, the remote directory
  removed unless only the wrapper's output was copied, and the end, at most \<open>n + 3\<close>
  lines; then the dispatch manager is told that the epilog is done, once, and every
  transfer is done with success.\<close>

theorem epilog_succeeds:
  assumes "all_pending job xs" and "xs \<noteq> []" and "job_history job \<noteq> []"
    and "job_tm_state job = GW_TM_STATE_EPILOG" and "epilog_record job = Some rec"
    and "builds (gw_tm_epilog_build_urls subst) job xs"
    and "xfrs_failure_limit (job_xfrs job) < int (length xs)"
  shows "\<exists>job'. driver_run (length xs + 3) junk subst [(mad, TM_START (job_id job))] job =
      Some (job', [''GW_DM_EPILOG_DONE''])
    \<and> job_tm_state job' = GW_TM_STATE_INIT \<and> job_job_state job' = job_job_state job
    \<and> (\<exists>ys. xfrs_xfrs (job_xfrs job') = Some ys \<and> length ys = length xs
        \<and> (\<forall>e \<in> set ys. xfr_done e \<and> xfr_success e))"
proof -
  let ?done = "with_settled (length xs) job xs"
  let ?r = "(tm_skip ?done)\<lparr>tm_lines := [(hist_tm_mad (hd (job_history job)), epilog_last job rec)]\<rparr>"
  let ?job' = "?done\<lparr>job_tm_state := GW_TM_STATE_INIT\<rparr>"
  obtain ls where ls: "gw_tm_epilog_stage_out subst job = Some ((tm_skip job)\<lparr>tm_lines := ls\<rparr>)"
    "cp_lines ls 0 (length xs)" using stage_out_all [OF assms(1,3,5,6,2)] by blast
  have "driver_run 2 junk subst (tm_lines ?r) (tm_job ?r) = Some (?job', [''GW_DM_EPILOG_DONE''])"
    using assms(3,4)
    by (simp add: eval_nat_numeral epilog_last_def tm_skip_def tm_answer_def gw_tm_end_action_cb_def
        gw_tm_rmdir_action_cb_def send_end_def tm_send_some tm_post_def Let_def)
  then have copies: "driver_run (length xs - 0 + 2) junk subst ls (with_settled 0 job xs) =
      Some (?job', [''GW_DM_EPILOG_DONE''])"
    using assms(2) by (intro driver_run_copies [OF _ ls(2) epilog_cp_step [OF assms(1,3,4,7,5)]])
      (simp_all add: tm_skip_def)
  then have "driver_run (length xs + 3) junk subst [(mad, TM_START (job_id job))] job =
      Some (?job', [''GW_DM_EPILOG_DONE''])"
    using assms(4) ls(1) with_settled_0 [OF assms(1)]
    by (simp add: eval_nat_numeral tm_answer_def gw_tm_start_action_cb_def tm_skip_def)
  moreover have "\<forall>e \<in> set (map (xfr_settle True) xs). xfr_done e \<and> xfr_success e"
    by (simp add: xfr_settle_def)
  ultimately show ?thesis
    by (intro exI [of _ ?job']) (simp add: with_settled_def)
qed



section \<open>Copies that fail\<close>

text \<open>
  The number of the transfer in a line is the driver's: nothing tests it against the
  array before the transfer is written.
\<close>

lemma put_xfr_outside:
  assumes "xfrs_xfrs x = Some xs" and "i < 0 \<or> int (length xs) \<le> i"
  shows "put_xfr i f x = None"
  using assms by (auto simp: put_xfr_def rd_def)

lemma upd_xfr_outside:
  assumes "xfrs_xfrs (job_xfrs job) = Some xs" and "i < 0 \<or> int (length xs) \<le> i"
  shows "upd_xfr i f job = None"
  using put_xfr_outside [OF assms] by (simp add: upd_xfr_def)

text \<open>An answer to a copy whose transfer number is outside the array of a job in its
  prolog or epilog writes outside the array.\<close>

theorem copy_answer_outside:
  assumes "job_tm_state job \<in> {GW_TM_STATE_PROLOG, GW_TM_STATE_EPILOG}" and "job_history job \<noteq> []"
    and "xfrs_xfrs (job_xfrs job) = Some xs" and "i < 0 \<or> int (length xs) \<le> i"
  shows "tm_answer junk subst mad ''CP'' i failure job = None"
  using assms(1,2) upd_xfr_outside [OF assms(3,4)]
  by (auto simp: tm_answer_def gw_tm_cp_action_cb_def gw_tm_prolog_cp_cb_def gw_tm_epilog_cp_cb_def
      prolog_retry_def copy_failed_def tm_then_def)

text \<open>
  Without retries the first failure leaves \<open>tries\<close> at -1, which is neither the last try
  nor one that is to be repeated.
\<close>

lemma upd_xfr_at:
  "xfrs_xfrs (job_xfrs job) = Some xs \<Longrightarrow> i < length xs \<Longrightarrow>
     upd_xfr (int i) f job = Some (job\<lparr>job_xfrs := (job_xfrs job)\<lparr>xfrs_xfrs := Some (xs[i := f (xs ! i)])\<rparr>\<rparr>)"
  by (simp add: upd_xfr_def put_xfr_def)

lemma pending_one:
  assumes "xfrs_xfrs x = Some xs" and "xfrs_number x = int (length xs)" and "i < length xs"
    and "xfr_src_url (xs ! i) \<noteq> None" and "\<not> xfr_done (xs ! i)"
  shows "\<exists>n > 0. gw_xfr_pending x = Some n"
proof -
  have "xs ! i \<in> set (filter (\<lambda>f. xfr_src_url f \<noteq> None \<and> \<not> xfr_done f) xs)"
    using assms(3-5) by simp
  then have "0 < length (filter (\<lambda>f. xfr_src_url f \<noteq> None \<and> \<not> xfr_done f) xs)"
    by (rule length_pos_if_in_set)
  with assms(1,2) show ?thesis by (simp add: gw_xfr_pending_def)
qed

definition tried_once :: "gw_xfr \<Rightarrow> gw_xfr" where
  "tried_once e = e\<lparr>xfr_tries := xfr_tries e - 1\<rparr>"

text \<open>With no retries (\<open>NUMBER_OF_RETRIES = 0\<close>) a failed copy of a prolog is neither tried
  again nor given up: no line is sent, nothing is posted, the counter the timer
  looks at is as before and the transfer stays pending, so the prolog never ends.\<close>

theorem prolog_without_retries_hangs:
  assumes "job_tm_state job = GW_TM_STATE_PROLOG" and "job_history job \<noteq> []"
    and "xfrs_xfrs (job_xfrs job) = Some xs" and "xfrs_number (job_xfrs job) = int (length xs)"
    and "i < length xs" and "xfr_src_url (xs ! i) \<noteq> None" and "\<not> xfr_done (xs ! i)"
    and "xfr_tries (xs ! i) \<le> 0"
  shows "\<exists>job'. tm_answer junk subst mad ''CP'' (int i) True job = Some (tm_skip job')
     \<and> job' = job\<lparr>job_xfrs := (job_xfrs job)\<lparr>xfrs_xfrs := Some (xs[i := tried_once (xs ! i)])\<rparr>\<rparr>
     \<and> gw_xfr_pending (job_xfrs job') \<noteq> Some 0"
proof -
  let ?x = "(job_xfrs job)\<lparr>xfrs_xfrs := Some (xs[i := tried_once (xs ! i)])\<rparr>"
  let ?job = "job\<lparr>job_xfrs := ?x\<rparr>"
  obtain n where n: "0 < n" "gw_xfr_pending ?x = Some n"
    using pending_one [of ?x "xs[i := tried_once (xs ! i)]" i] assms(4-7) by (auto simp: tried_once_def)
  have "prolog_retry subst (int i) job = Some (tm_skip ?job)"
    using assms(5,8) upd_xfr_at [OF assms(3,5), of "tried_once"]
    by (simp add: prolog_retry_def xfr_at_def tried_once_def [abs_def])
  with assms(1,2) n have "tm_answer junk subst mad ''CP'' (int i) True job = Some (tm_skip ?job)"
    by (simp add: tm_answer_def gw_tm_cp_action_cb_def gw_tm_prolog_cp_cb_def tm_then_skip)
  with n show ?thesis by auto
qed

section \<open>Examples\<close>

definition example_xfr :: gw_xfr where
  "example_xfr = \<lparr> xfr_tries = 3, xfr_src_url = Some ''env'', xfr_dst_url = None, xfr_alt_src_url = None,
     xfr_mode = CHR ''-'', xfr_done = False, xfr_success = False, xfr_counter = - 1 \<rparr>"

definition example_transfers :: "gw_tm_state \<Rightarrow> int \<Rightarrow> gw_xfr list \<Rightarrow> gw_job" where
  "example_transfers s limit xs = example_job\<lparr>job_tm_state := s, job_xfrs := (job_xfrs example_job)
     \<lparr>xfrs_number := int (length xs), xfrs_failure_limit := limit, xfrs_xfrs := Some xs\<rparr>\<rparr>"

definition no_subst :: "string \<Rightarrow> gw_job \<Rightarrow> string option" where
  "no_subst s job = Some s"

lemma example_transfers_sel [simp]:
  "job_tm_state (example_transfers s limit xs) = s"
  "job_history (example_transfers s limit xs) = [example_record, example_record]"
  "xfrs_xfrs (job_xfrs (example_transfers s limit xs)) = Some xs"
  "xfrs_number (job_xfrs (example_transfers s limit xs)) = int (length xs)"
  "xfrs_failure_limit (job_xfrs (example_transfers s limit xs)) = limit"
  "job_job_state (example_transfers s limit xs) = job_job_state example_job"
  "job_template (example_transfers s limit xs) = job_template example_job"
  by (simp_all add: example_transfers_def example_job_def)

lemma example_transfers_pending:
  "all_pending (example_transfers s limit [example_xfr, example_xfr]) [example_xfr, example_xfr]"
  by (simp add: all_pending_def example_xfr_def)

lemma example_builds:
  "builds (gw_tm_epilog_build_urls no_subst) (example_transfers s limit xs) [example_xfr, example_xfr]"
  by (simp add: builds_def example_xfr_def gw_tm_epilog_build_urls_def
      epilog_record_def no_subst_def hist_at_def Let_def)

theorem epilog_succeeds_witness:
  "\<exists>job'. driver_run 5 (CHR ''?'') no_subst
      [(''ftp'', TM_START (job_id (example_transfers GW_TM_STATE_EPILOG 1 [example_xfr, example_xfr])))]
      (example_transfers GW_TM_STATE_EPILOG 1 [example_xfr, example_xfr]) = Some (job', [''GW_DM_EPILOG_DONE''])"
proof -
  obtain rec where "epilog_record (example_transfers GW_TM_STATE_EPILOG 1 [example_xfr, example_xfr]) = Some rec"
    by (simp add: epilog_record_def hist_at_def)
  from epilog_succeeds [OF example_transfers_pending _ _ _ this example_builds] show ?thesis
    by fastforce
qed

theorem copy_answer_outside_witness:
  "tm_answer (CHR ''?'') no_subst ''ftp'' ''CP'' 2 False
     (example_transfers GW_TM_STATE_PROLOG 2 [example_xfr, example_xfr]) = None"
  using copy_answer_outside [OF _ _ example_transfers_sel(3), of GW_TM_STATE_PROLOG 2
      "[example_xfr, example_xfr]" 2] by simp

theorem prolog_without_retries_hangs_witness:
  "\<exists>job'. tm_answer (CHR ''?'') no_subst ''ftp'' ''CP'' 1 True
     (example_transfers GW_TM_STATE_PROLOG 2 [example_xfr, example_xfr\<lparr>xfr_tries := 0\<rparr>]) = Some (tm_skip job')
   \<and> gw_xfr_pending (job_xfrs job') \<noteq> Some 0"
  using prolog_without_retries_hangs
    [of "example_transfers GW_TM_STATE_PROLOG 2 [example_xfr, example_xfr\<lparr>xfr_tries := 0\<rparr>]"
      "[example_xfr, example_xfr\<lparr>xfr_tries := 0\<rparr>]" 1 "CHR ''?''" no_subst "''ftp''"]
  by (auto simp: example_xfr_def)

end
