(* ===== verification/Gw_Mad_Line.thy ===== *)
theory Gw_Mad_Line
  imports Gw_Dm_Mad
begin

text \<open>
  The lines the execution and transfer drivers (MADs) write back: the loop of
  \<open>gw_em_listener\<close> and \<open>gw_tm_listener\<close> that collects a line of at most 65535
  characters, and the \<open>sscanf\<close> that takes it apart.  The widths of the conversions
  are the sizes of the arrays they write to, so a word as long as its array puts the
  final zero behind it.
\<close>

section \<open>Reading a line\<close>

definition GW_MAD_MAX_STRING :: nat where
  "GW_MAD_MAX_STRING = 65536"

text \<open>
  The characters until a newline or until the buffer is full; \<open>None\<close> when the driver
  closes the pipe in between.
\<close>

fun mad_read :: "nat \<Rightarrow> string \<Rightarrow> (string \<times> string) option" where
  "mad_read 0 s = Some ([], s)"
| "mad_read (Suc n) [] = None"
| "mad_read (Suc n) (c # cs) =
     (if c = CHR 0x0A then Some ([c], cs)
      else do { (l, r) \<leftarrow> mad_read n cs; Some (c # l, r) })"

definition mad_line :: "string \<Rightarrow> (string \<times> string) option" where
  "mad_line = mad_read (GW_MAD_MAX_STRING - 1)"

lemma mad_read_bound: "mad_read n s = Some (l, r) \<Longrightarrow> length l \<le> n \<and> s = l @ r"
  by (induction n s arbitrary: l r rule: mad_read.induct) (auto simp: bind_Some_iff split: if_splits)

lemma mad_read_line:
  "length l < n \<Longrightarrow> CHR 0x0A \<notin> set l \<Longrightarrow> mad_read n (l @ CHR 0x0A # r) = Some (l @ [CHR 0x0A], r)"
proof (induction l arbitrary: n)
  case Nil then show ?case by (cases n) simp_all
next
  case (Cons c l) then show ?case by (cases n) auto
qed

text \<open>A line that is read fits its buffer with the final zero, nothing of the stream is
  lost, and a line that is short enough is read up to its newline.\<close>

theorem mad_line_bound:
  "(\<forall>l r. mad_line s = Some (l, r) \<longrightarrow> length l < GW_MAD_MAX_STRING \<and> s = l @ r)
   \<and> (\<forall>l r. s = l @ CHR 0x0A # r \<and> CHR 0x0A \<notin> set l \<and> length l < GW_MAD_MAX_STRING - 1
        \<longrightarrow> mad_line s = Some (l @ [CHR 0x0A], r))"
proof (intro conjI allI impI)
  fix l r assume "mad_line s = Some (l, r)"
  then have "length l \<le> GW_MAD_MAX_STRING - 1 \<and> s = l @ r"
    unfolding mad_line_def by (rule mad_read_bound)
  then show "length l < GW_MAD_MAX_STRING" "s = l @ r" by (simp_all add: GW_MAD_MAX_STRING_def)
next
  fix l r assume "s = l @ CHR 0x0A # r \<and> CHR 0x0A \<notin> set l \<and> length l < GW_MAD_MAX_STRING - 1"
  then show "mad_line s = Some (l @ [CHR 0x0A], r)"
    unfolding mad_line_def by (blast intro: mad_read_line)
qed

section \<open>Taking a line apart\<close>

text \<open>
  \<open>%Ns\<close> and \<open>%N[^\n]\<close> into an array of \<open>N\<close> bytes, each after a blank that skips all
  the blanks there are.
\<close>

datatype conversion = WORD nat | LINE nat

datatype scanned = NO_MORE | STORED string string | OVERRUN

fun scan_conv :: "conversion \<Rightarrow> string \<Rightarrow> scanned" where
  "scan_conv (WORD n) s =
     (let t = dropWhile is_blank s; w = take n (takeWhile (\<lambda>c. \<not> is_blank c) t) in
      if w = [] then NO_MORE else if length w = n then OVERRUN else STORED w (drop (length w) t))"
| "scan_conv (LINE n) s =
     (let t = dropWhile is_blank s; w = take n (takeWhile (\<lambda>c. c \<noteq> CHR 0x0A) t) in
      if w = [] then NO_MORE else if length w = n then OVERRUN else STORED w (drop (length w) t))"

text \<open>
  \<open>sscanf\<close>: it stops where the line ends, and then the variables left keep the values
  of the line before (the second argument).
\<close>

fun scan_line_into :: "conversion list \<Rightarrow> string list \<Rightarrow> string \<Rightarrow> string list option" where
  "scan_line_into (f # fs) (v # vs) s =
     (case scan_conv f s of
        NO_MORE \<Rightarrow> Some (v # vs)
      | OVERRUN \<Rightarrow> None
      | STORED w s' \<Rightarrow> do { ws \<leftarrow> scan_line_into fs vs s'; Some (w # ws) })"
| "scan_line_into _ vs s = Some vs"

definition tm_format :: "conversion list" where
  "tm_format = [WORD 20, WORD 5, WORD 5, WORD 10, LINE 65536]"

definition em_format :: "conversion list" where
  "em_format = [WORD 20, WORD 5, WORD 10, LINE 65536]"

lemma scan_line_into_length:
  "scan_line_into fs vs s = Some ws \<Longrightarrow> length fs = length vs \<Longrightarrow> length ws = length vs"
  by (induction fs vs s arbitrary: ws rule: scan_line_into.induct)
    (auto simp: bind_Some_iff split: scanned.splits)

text \<open>A word as the drivers write it.\<close>

definition word_ok :: "string \<Rightarrow> bool" where
  "word_ok w \<longleftrightarrow> w \<noteq> [] \<and> list_all (\<lambda>c. \<not> is_blank c) w"

lemma word_split:
  assumes "word_ok w" and "is_blank b"
  shows "dropWhile is_blank (w @ b # s) = w @ b # s"
    "takeWhile (\<lambda>c. \<not> is_blank c) (w @ b # s) = w"
  using assms by (cases w; simp add: word_ok_def list_all_iff takeWhile_append2)+

lemma scan_conv_blank: "is_blank b \<Longrightarrow> scan_conv f (b # s) = scan_conv f s"
  by (cases f) simp_all

lemma scan_conv_word:
  assumes "word_ok w" and "is_blank b"
  shows "scan_conv (WORD n) (w @ b # s) =
    (if n = 0 then NO_MORE else if n \<le> length w then OVERRUN else STORED w (b # s))"
  using assms word_split [OF assms] by (auto simp: Let_def word_ok_def)

lemma scan_conv_line:
  assumes "word_ok w" and "length w < n"
  shows "scan_conv (LINE n) (w @ [CHR 0x0A]) = STORED w [CHR 0x0A]"
proof -
  have nl: "is_blank (CHR 0x0A)" by (simp add: is_blank_def)
  have "takeWhile (\<lambda>c. c \<noteq> CHR 0x0A) (w @ [CHR 0x0A]) = w"
    using assms(1) nl by (subst takeWhile_append2) (auto simp: word_ok_def list_all_iff)
  with assms word_split(1) [OF assms(1) nl] show ?thesis by (auto simp: word_ok_def Let_def)
qed

lemma word_ok_show_int [simp]: "word_ok (show_int i)"
proof -
  have "list_all (\<lambda>c. \<not> is_blank c) (show_nat n)" for n
    using show_nat_digits [of n] by (auto simp: list_all_iff dest: not_blank_digit)
  moreover have "\<not> is_blank (CHR ''-'')" by (simp add: is_blank_def)
  ultimately show ?thesis by (simp add: word_ok_def show_int_def)
qed

lemma is_blank_space [simp]: "is_blank (CHR '' '')"
  by (simp add: is_blank_def)

text \<open>The number of digits of an identifier.\<close>

lemma digits_show_nat: "k > 0 \<Longrightarrow> length (show_nat n) \<le> k \<longleftrightarrow> n < 10 ^ k"
proof (induction n arbitrary: k rule: show_nat.induct)
  case (1 n)
  show ?case
  proof (cases "n < 10")
    case True
    then have "length (show_nat n) = 1" by (subst show_nat.simps) simp
    moreover have "(10 :: nat) ^ 1 \<le> 10 ^ k" using 1(2) by (intro power_increasing) auto
    ultimately show ?thesis using True 1(2) by simp
  next
    case False
    then have len: "length (show_nat n) = length (show_nat (n div 10)) + 1"
      by (subst show_nat.simps) simp
    obtain m where k: "k = Suc m" using 1(2) by (cases k) auto
    show ?thesis
    proof (cases m)
      case 0
      then show ?thesis using len False k by simp
    next
      case (Suc m')
      then have "length (show_nat (n div 10)) \<le> m \<longleftrightarrow> n div 10 < 10 ^ m" using 1(1) False by simp
      moreover have "n div 10 < 10 ^ m \<longleftrightarrow> n < 10 ^ k"
        unfolding k power_Suc by (auto simp: less_mult_imp_div_less div_less_iff_less_mult mult.commute)
      ultimately show ?thesis using len k by simp
    qed
  qed
qed

lemma length_show_int: "0 \<le> i \<Longrightarrow> 5 \<le> length (show_int i) \<longleftrightarrow> \<not> i < 10000"
  using digits_show_nat [of 4 "nat i"] by (auto simp: show_int_def nat_less_iff)

section \<open>The answer of a driver\<close>

text \<open>The line \<open>ACTION JOB_ID [XFR_ID] RESULT INFO\<close>.\<close>

definition tm_answer_line :: "string \<Rightarrow> int \<Rightarrow> int \<Rightarrow> string \<Rightarrow> string \<Rightarrow> string" where
  "tm_answer_line action jid xid result info =
     action @ '' '' @ show_int jid @ '' '' @ show_int xid @ '' '' @ result @ '' '' @ info @ [CHR 0x0A]"

definition em_answer_line :: "string \<Rightarrow> int \<Rightarrow> string \<Rightarrow> string \<Rightarrow> string" where
  "em_answer_line action jid result info =
     action @ '' '' @ show_int jid @ '' '' @ result @ '' '' @ info @ [CHR 0x0A]"

lemma scan_tm_answer:
  assumes "word_ok action" and "length action < 20" and "0 \<le> jid" and "0 \<le> xid"
    and "word_ok result" and "length result < 10" and "word_ok info" and "length info < 65536"
    and "length vs = 5"
  shows "scan_line_into tm_format vs (tm_answer_line action jid xid result info) =
    (if jid < 10000 \<and> xid < 10000 then Some [action, show_int jid, show_int xid, result, info] else None)"
proof -
  obtain v1 v2 v3 v4 v5 where "vs = [v1, v2, v3, v4, v5]"
    using assms(9) by (auto simp: eval_nat_numeral length_Suc_conv)
  then show ?thesis
    using assms length_show_int [OF assms(3)] length_show_int [OF assms(4)]
    by (simp add: tm_format_def tm_answer_line_def scan_conv_word scan_conv_blank scan_conv_line
        del: scan_conv.simps)
qed

lemma scan_em_answer:
  assumes "word_ok action" and "length action < 20" and "0 \<le> jid"
    and "word_ok result" and "length result < 10" and "word_ok info" and "length info < 65536"
    and "length vs = 4"
  shows "scan_line_into em_format vs (em_answer_line action jid result info) =
    (if jid < 10000 then Some [action, show_int jid, result, info] else None)"
proof -
  obtain v1 v2 v3 v4 where "vs = [v1, v2, v3, v4]"
    using assms(8) by (auto simp: eval_nat_numeral length_Suc_conv)
  then show ?thesis
    using assms length_show_int [OF assms(3)]
    by (simp add: em_format_def em_answer_line_def scan_conv_word scan_conv_blank scan_conv_line
        del: scan_conv.simps)
qed

text \<open>The answer of a transfer driver is read back field by field when its identifiers
  have at most four digits; an answer about job 10000 or a later one overruns
  \<open>s_job_id\<close>.\<close>

theorem tm_answer_scanned:
  assumes "word_ok action" and "length action < 20" and "0 \<le> jid" and "0 \<le> xid"
    and "word_ok result" and "length result < 10" and "word_ok info" and "length info < 65536"
    and "length vs = 5"
  shows "scan_line_into tm_format vs (tm_answer_line action jid xid result info) =
    (if jid < 10000 \<and> xid < 10000 then Some [action, show_int jid, show_int xid, result, info] else None)"
  by (rule scan_tm_answer [OF assms])

text \<open>The same for an execution driver.\<close>

theorem em_answer_scanned:
  assumes "word_ok action" and "length action < 20" and "0 \<le> jid"
    and "word_ok result" and "length result < 10" and "word_ok info" and "length info < 65536"
    and "length vs = 4"
  shows "scan_line_into em_format vs (em_answer_line action jid result info) =
    (if jid < 10000 then Some [action, show_int jid, result, info] else None)"
  by (rule scan_em_answer [OF assms])

lemma example_words [simp]: "word_ok ''CP''" "word_ok ''SUBMIT''" "word_ok ''SUCCESS''" "word_ok ''-''"
  by (simp_all add: word_ok_def is_blank_def)

theorem mad_line_bound_witness:
  "mad_line (''CP'' @ CHR 0x0A # ''END'') = Some (''CP'' @ [CHR 0x0A], ''END'')"
  by (rule mad_line_bound [THEN conjunct2, rule_format]) (simp add: GW_MAD_MAX_STRING_def)

theorem tm_answer_scanned_witness:
  "scan_line_into tm_format (replicate 5 ''?'') (tm_answer_line ''CP'' 9999 2 ''SUCCESS'' ''-'') =
     Some [''CP'', show_int 9999, show_int 2, ''SUCCESS'', ''-'']
   \<and> scan_line_into tm_format (replicate 5 ''?'') (tm_answer_line ''CP'' 10000 2 ''SUCCESS'' ''-'') = None"
  by (simp add: tm_answer_scanned del: scan_line_into.simps)

theorem em_answer_scanned_witness:
  "scan_line_into em_format (replicate 4 ''?'') (em_answer_line ''SUBMIT'' 10000 ''SUCCESS'' ''-'') = None"
  by (simp add: em_answer_scanned del: scan_line_into.simps)

end
