(* ===== verification/Tm_Manager.thy ===== *)
theory Tm_Manager
  imports Dm_Manager Gw_Sweep Tm_Transfer Gw_Mad_Line
begin

text \<open>
  The transfer manager as a part of the daemon, \<open>src/tm/gw_tm.c\<close>,
  \<open>gw_tm_actions.c\<close> and \<open>gw_tm_listener.c\<close>: the two actions the dispatch manager
  posts, the timer that repeats failed copies and starts checkpoints, and the
  listener that reads the lines of the drivers.  The callbacks themselves are those
  of \<open>Tm_Transfer\<close>; here they act on the daemon's state.  The last part shows that
  the transfer manager changes nothing of a job but its transfers.
\<close>

section \<open>On the daemon's state\<close>

text \<open>A function of \<open>Tm_Transfer\<close> on the job \<open>jid\<close>: its lines and its actions are sent.\<close>

definition tm_run :: "(gw_job \<Rightarrow> tm_out option) \<Rightarrow> int \<Rightarrow> gwd \<Rightarrow> gwd option" where
  "tm_run f jid w = do {
     job \<leftarrow> gw_job_pool_get w jid;
     r \<leftarrow> f job;
     let w = put_job jid (tm_job r) w;
     let w = w\<lparr>w_tm_mad := w_tm_mad w @ tm_lines r\<rparr>;
     Some (fold (\<lambda>a. trigger_dm a (Some jid)) (tm_posts r) w)
   }"

section \<open>The actions (gw_tm_actions.c)\<close>

text \<open>A transfer that is still running is ended first.\<close>

definition prolog_signal :: "gw_job \<Rightarrow> tm_out option" where
  "prolog_signal job =
     (if job_history job = [] then Some (tm_skip job)
      else if job_tm_state job = GW_TM_STATE_INIT
      then tm_send (TM_START (job_id job)) (job\<lparr>job_tm_state := GW_TM_STATE_PROLOG\<rparr>)
      else tm_send (TM_END (job_id job)) (job\<lparr>job_tm_state := GW_TM_STATE_CHECKPOINT_CANCEL\<rparr>))"

definition epilog_signal :: "gw_job \<Rightarrow> tm_out option" where
  "epilog_signal job =
     (if job_history job = [] then Some (tm_skip job)
      else if job_job_state job \<in> {GW_JOB_STATE_KILL_EPILOG, GW_JOB_STATE_MIGR_EPILOG,
           GW_JOB_STATE_EPILOG_FAIL, GW_JOB_STATE_EPILOG, GW_JOB_STATE_EPILOG_STD} then
        (if job_tm_state job = GW_TM_STATE_INIT
         then tm_send (TM_START (job_id job)) (job\<lparr>job_tm_state := GW_TM_STATE_EPILOG\<rparr>)
         else tm_send (TM_END (job_id job)) (job\<lparr>job_tm_state := GW_TM_STATE_CHECKPOINT_CANCEL\<rparr>))
      else if job_job_state job \<in> {GW_JOB_STATE_STOP_EPILOG, GW_JOB_STATE_EPILOG_RESTART} then
        (if job_tm_state job = GW_TM_STATE_INIT
         then tm_send (TM_START (job_id job)) (job\<lparr>job_tm_state := GW_TM_STATE_EPILOG\<rparr>)
         else Some (tm_skip job))
      else Some (tm_skip job))"

definition gw_tm_prolog :: "int option \<Rightarrow> gwd \<Rightarrow> gwd option" where
  "gw_tm_prolog arg w = with_job arg w (Some w) (\<lambda>jid. tm_run prolog_signal jid w)"

definition gw_tm_epilog :: "int option \<Rightarrow> gwd \<Rightarrow> gwd option" where
  "gw_tm_epilog arg w = with_job arg w (Some w) (\<lambda>jid. tm_run epilog_signal jid w)"

section \<open>The timer\<close>

text \<open>
  The loop over the transfers: a counter other than -1 goes down by one, and a copy
  whose counter gets to 0 is sent again.
\<close>

fun timer_copies ::
    "(gw_job \<Rightarrow> string \<Rightarrow> string option \<Rightarrow> built option)
       \<Rightarrow> (int \<Rightarrow> (gw_xfr \<Rightarrow> gw_xfr) \<Rightarrow> gw_job \<Rightarrow> gw_job option)
       \<Rightarrow> (gw_job \<Rightarrow> gw_xfrs) \<Rightarrow> int \<Rightarrow> nat \<Rightarrow> gw_job \<Rightarrow> tm_out option" where
  "timer_copies build upd xfrs j 0 job = Some (tm_skip job)"
| "timer_copies build upd xfrs j (Suc k) job = tm_then
     (do {
        e \<leftarrow> xfr_at (xfrs job) j;
        if xfr_counter e = - 1 then Some (tm_skip job)
        else if xfr_counter e - 1 = 0 then do {
          job \<leftarrow> upd j (\<lambda>e. e\<lparr>xfr_counter := - 1\<rparr>) job;
          src \<leftarrow> xfr_src_url e;
          u \<leftarrow> build job src (xfr_dst_url e);
          send_cp j (if job_tm_state job = GW_TM_STATE_PROLOG then xfr_mode e else CHR ''-'') u job
        }
        else do {
          job \<leftarrow> upd j (\<lambda>e. e\<lparr>xfr_counter := xfr_counter e - 1\<rparr>) job;
          Some (tm_skip job)
        }
      })
     (timer_copies build upd xfrs (j + 1) k)"

definition checkpoint_due :: "int \<Rightarrow> gw_job \<Rightarrow> bool" where
  "checkpoint_due now job \<longleftrightarrow>
     now - job_last_checkpoint_time job \<ge> jt_checkpoint_interval (job_template job)"

definition timer_job ::
    "(string \<Rightarrow> gw_job \<Rightarrow> string option) \<Rightarrow> int \<Rightarrow> gw_job \<Rightarrow> tm_out option" where
  "timer_job subst now job =
     (if jt_checkpoint_interval (job_template job) > 0
         \<and> job_job_state job = GW_JOB_STATE_WRAPPER \<and> job_tm_state job = GW_TM_STATE_INIT
         \<and> num_restart_files (job_template job) \<noteq> 0 then
        (if checkpoint_due now job \<and> job_history job \<noteq> []
         then tm_send (TM_START (job_id job))
           (job\<lparr>job_last_checkpoint_time := now, job_tm_state := GW_TM_STATE_CHECKPOINT\<rparr>)
         else Some (tm_skip job))
      else (case job_tm_state job of
          GW_TM_STATE_PROLOG \<Rightarrow> timer_copies (gw_tm_prolog_build_urls subst) upd_xfr job_xfrs 0
            (nat (xfrs_number (job_xfrs job))) job
        | GW_TM_STATE_EPILOG \<Rightarrow> timer_copies (gw_tm_epilog_build_urls subst) upd_xfr job_xfrs 0
            (nat (xfrs_number (job_xfrs job))) job
        | GW_TM_STATE_CHECKPOINT \<Rightarrow> timer_copies (gw_tm_epilog_build_urls subst) upd_chk job_chk_xfrs 0
            (nat (xfrs_number (job_chk_xfrs job))) job
        | _ \<Rightarrow> Some (tm_skip job)))"

fun timer_jobs :: "int \<Rightarrow> nat \<Rightarrow> gwd \<Rightarrow> gwd option" where
  "timer_jobs i 0 w = Some w"
| "timer_jobs i (Suc k) w = do {
     w \<leftarrow> (if gw_job_pool_get w i = None then Some w
           else tm_run (timer_job (w_subst w) (w_now w)) i w);
     timer_jobs (i + 1) k w
   }"

definition gw_tm_timer :: "gwd \<Rightarrow> gwd option" where
  "gw_tm_timer w = timer_jobs 0 (nat (conf_number_of_jobs (w_conf w))) w"

section \<open>The listener (gw_tm_listener.c)\<close>

text \<open>The line taken apart: the action, the two identifiers, the result and the text.\<close>

definition tm_message :: "string \<Rightarrow> string list \<Rightarrow> gwd \<Rightarrow> gwd option" where
  "tm_message mad words w =
     (case words of
        [action, s_job_id, s_cp_xfr_id, result, info] \<Rightarrow>
          if take 1 s_job_id = ''-'' then Some w
          else if gw_job_pool_get w (atoi s_job_id) = None then Some w
          else tm_run (tm_answer (w_junk w) (w_subst w) mad action (atoi s_cp_xfr_id)
              (result = ''FAILURE'')) (atoi s_job_id) w
      | _ \<Rightarrow> Some w)"

text \<open>One line of the driver \<open>mad\<close>; the words of the line before stay in the variables.\<close>

definition gw_tm_listener :: "string \<Rightarrow> string \<Rightarrow> string list \<times> gwd \<Rightarrow> (string list \<times> gwd) option" where
  "gw_tm_listener mad str state = do {
     words \<leftarrow> scan_line_into tm_format (fst state) str;
     w \<leftarrow> tm_message mad words (snd state);
     Some (words, w)
   }"

text \<open>
  A driver that has closed its pipe is started again, and then the prologs and epilogs
  of all the jobs are started again (\<open>gw_job_pool_tm_recover\<close>).
\<close>

definition tm_closed :: "string \<Rightarrow> gwd \<Rightarrow> gwd" where
  "tm_closed mad w = (if w_starts w mad then gw_job_pool_tm_recover w else w)"

section \<open>Only the transfers change\<close>

definition no_xfrs :: gw_xfrs where
  "no_xfrs = \<lparr> xfrs_number = 0, xfrs_failure_limit = 0, xfrs_xfrs = None \<rparr>"

definition without_transfers :: "gw_job \<Rightarrow> gw_job" where
  "without_transfers job = job\<lparr>job_tm_state := GW_TM_STATE_INIT, job_xfrs := no_xfrs,
     job_chk_xfrs := no_xfrs, job_last_checkpoint_time := 0\<rparr>"

definition tm_frame :: "gw_job \<Rightarrow> tm_out \<Rightarrow> bool" where
  "tm_frame job r \<longleftrightarrow> without_transfers (tm_job r) = without_transfers job \<and> set (tm_posts r) \<subseteq> set dm_names"

named_theorems tm_rules \<open>functions of the transfer manager that change only transfers\<close>

lemma without_transfers_simps [simp]:
  "without_transfers (job\<lparr>job_tm_state := s\<rparr>) = without_transfers job"
  "without_transfers (job\<lparr>job_xfrs := x\<rparr>) = without_transfers job"
  "without_transfers (job\<lparr>job_chk_xfrs := x\<rparr>) = without_transfers job"
  "without_transfers (job\<lparr>job_last_checkpoint_time := t\<rparr>) = without_transfers job"
  by (simp_all add: without_transfers_def)

lemma tm_frame_skip [simp]: "tm_frame job (tm_skip job') \<longleftrightarrow> without_transfers job' = without_transfers job"
  by (simp add: tm_frame_def tm_skip_def)

lemma tm_frame_parts [simp]:
  "tm_frame job (tm_state_to s job') \<longleftrightarrow> without_transfers job' = without_transfers job"
  "tm_frame job (tm_reply mad msg job') \<longleftrightarrow> without_transfers job' = without_transfers job"
  "tm_frame job (tm_post a job') \<longleftrightarrow> without_transfers job' = without_transfers job \<and> a \<in> set dm_names"
  "tm_frame job (r\<lparr>tm_lines := ls\<rparr>) \<longleftrightarrow> tm_frame job r"
  by (auto simp: tm_frame_def tm_skip_def tm_state_to_def tm_reply_def tm_post_def)

lemma tm_frame_like: "without_transfers job' = without_transfers job \<Longrightarrow> tm_frame job' r = tm_frame job r"
  by (simp add: tm_frame_def)

lemma tm_send_frame [tm_rules]:
  "without_transfers job' = without_transfers job \<Longrightarrow> keeps (tm_frame job) (tm_send msg job')"
  by (cases "hist_at 0 job'") (simp_all add: tm_send_def)

lemma tm_then_frame [tm_rules]:
  assumes "keeps (tm_frame job) m"
    and "\<And>job'. without_transfers job' = without_transfers job \<Longrightarrow> keeps (tm_frame job) (f job')"
  shows "keeps (tm_frame job) (tm_then m f)"
proof (rule keepsI)
  fix r assume "tm_then m f = Some r"
  then obtain r1 r2 where m: "m = Some r1" "f (tm_job r1) = Some r2"
    "r = \<lparr> tm_job = tm_job r2, tm_lines = tm_lines r1 @ tm_lines r2, tm_posts = tm_posts r1 @ tm_posts r2 \<rparr>"
    by (auto simp: tm_then_def bind_Some_iff)
  have "tm_frame job r1" using assms(1) m(1) by (rule keepsD)
  moreover from this have "tm_frame job r2"
    using assms(2) [of "tm_job r1"] m(2) by (auto simp: tm_frame_def dest: keepsD)
  ultimately show "tm_frame job r" using m(3) by (simp add: tm_frame_def)
qed

lemma tm_bind_frame [tm_rules]: "(\<And>x. m = Some x \<Longrightarrow> keeps P (f x)) \<Longrightarrow> keeps P (Option.bind m f)"
  by (cases m) auto

lemma upd_xfr_without:
  "upd_xfr i f job = Some job' \<Longrightarrow> without_transfers job' = without_transfers job"
  "upd_chk i f job = Some job' \<Longrightarrow> without_transfers job' = without_transfers job"
  by (auto simp: upd_xfr_def upd_chk_def bind_Some_iff)


text \<open>The callbacks one by one.\<close>

lemma send_frames [tm_rules]:
  "without_transfers job' = without_transfers job \<Longrightarrow> keeps (tm_frame job) (send_cp i mode u job')"
  "without_transfers job' = without_transfers job \<Longrightarrow> keeps (tm_frame job) (send_rmdir job')"
  "without_transfers job' = without_transfers job \<Longrightarrow> keeps (tm_frame job) (send_end job')"
  "without_transfers job' = without_transfers job \<Longrightarrow> keeps (tm_frame job) (send_epilog_rmdir job')"
  by (auto simp: send_cp_def send_rmdir_def send_end_def send_epilog_rmdir_def
      split: built.split intro!: tm_rules)

lemma complete_frames [tm_rules]:
  "without_transfers job' = without_transfers job \<Longrightarrow> keeps (tm_frame job) (prolog_complete job')"
  "without_transfers job' = without_transfers job \<Longrightarrow> keeps (tm_frame job) (epilog_failed job')"
  "without_transfers job' = without_transfers job \<Longrightarrow> keeps (tm_frame job) (epilog_complete job')"
  by (auto simp: prolog_complete_def epilog_failed_def epilog_complete_def tm_state_to_def intro!: tm_rules)

lemma prolog_copies_frame:
  "keeps (\<lambda>(r, pend'). tm_frame job r) (prolog_copies subst i k pend job)"
proof (induction k arbitrary: i pend job)
  case (Suc k)
  show ?case
  proof (simp, intro tm_bind_frame)
    fix e
    show "keeps (\<lambda>(r, pend'). tm_frame job r) (case xfr_src_url e of
        None \<Rightarrow> prolog_copies subst (i + 1) k pend job
      | Some src \<Rightarrow> do {
          u \<leftarrow> gw_tm_prolog_build_urls subst job src (xfr_dst_url e);
          (case u of
             NO_URLS rc \<Rightarrow> do {
               job \<leftarrow> upd_xfr i (xfr_finish (rc = 1)) job;
               prolog_copies subst (i + 1) k pend job
             }
           | URLS s d \<Rightarrow> do {
               r \<leftarrow> send_cp i (xfr_mode e) u job;
               (r', pend) \<leftarrow> prolog_copies subst (i + 1) k (pend + 1) job;
               Some (r'\<lparr>tm_lines := tm_lines r @ tm_lines r'\<rparr>, pend)
             })
        })"
    proof (cases "xfr_src_url e")
      case (Some src)
      have other: "keeps (\<lambda>(r, pend'). tm_frame job r) (prolog_copies subst (i + 1) k pend job')"
        if "without_transfers job' = without_transfers job" for job'
        using Suc.IH [where i = "i + 1" and pend = pend and job = job'] tm_frame_like [OF that] by simp
      have next_one: "keeps (\<lambda>(r, pend'). tm_frame job r)
          (do { (r', pend) \<leftarrow> prolog_copies subst (i + 1) k (pend + 1) job;
                Some (r'\<lparr>tm_lines := ls @ tm_lines r'\<rparr>, pend) })" for ls
        using Suc.IH [where i = "i + 1" and pend = "pend + 1" and job = job] by (auto simp: keeps_def split: option.splits prod.splits)
      show ?thesis
        by (auto simp: Some split: built.split intro!: tm_bind_frame other next_one dest: upd_xfr_without)
    qed (use Suc.IH in simp)
  qed
qed simp

lemma copies_out_frame:
  assumes upd: "\<And>i f job job'. upd i f job = Some job' \<Longrightarrow> without_transfers job' = without_transfers job"
  shows "without_transfers job' = without_transfers job \<Longrightarrow>
    keeps (tm_frame job) (copies_out subst upd xfrs i k job')"
proof (induction k arbitrary: i job')
  case (Suc k)
  then show ?case
    by (auto split: option.split built.split dest!: upd intro!: tm_rules)
qed simp

lemma timer_copies_frame:
  assumes upd: "\<And>i f job job'. upd i f job = Some job' \<Longrightarrow> without_transfers job' = without_transfers job"
  shows "without_transfers job' = without_transfers job \<Longrightarrow>
    keeps (tm_frame job) (timer_copies build upd xfrs i k job')"
proof (induction k arbitrary: i job')
  case (Suc k)
  then show ?case by (auto dest!: upd intro!: tm_rules)
qed simp

lemma copies_frames [tm_rules]:
  "without_transfers job' = without_transfers job \<Longrightarrow>
     keeps (tm_frame job) (copies_out subst upd_xfr xfrs i k job')"
  "without_transfers job' = without_transfers job \<Longrightarrow>
     keeps (tm_frame job) (copies_out subst upd_chk xfrs i k job')"
  "without_transfers job' = without_transfers job \<Longrightarrow>
     keeps (tm_frame job) (timer_copies build upd_xfr xfrs i k job')"
  "without_transfers job' = without_transfers job \<Longrightarrow>
     keeps (tm_frame job) (timer_copies build upd_chk xfrs i k job')"
  by (blast intro: copies_out_frame timer_copies_frame dest: upd_xfr_without)+

lemma copy_failed_without:
  "copy_failed upd_xfr xfrs i job = Some (b, job') \<Longrightarrow> without_transfers job' = without_transfers job"
  "copy_failed upd_chk xfrs i job = Some (b, job') \<Longrightarrow> without_transfers job' = without_transfers job"
  by (auto simp: copy_failed_def bind_Some_iff split: if_splits dest!: upd_xfr_without)

lemma stage_frames [tm_rules]:
  "without_transfers job' = without_transfers job \<Longrightarrow> keeps (tm_frame job) (gw_tm_prolog_stage_in subst job')"
  "without_transfers job' = without_transfers job \<Longrightarrow> keeps (tm_frame job) (gw_tm_epilog_stage_out subst job')"
proof -
  assume job': "without_transfers job' = without_transfers job"
  have "keeps (tm_frame job) (Some r)"
    if "prolog_copies subst i k pend job' = Some (r, pend')" for i k pend r pend'
    using keepsD [OF prolog_copies_frame that] tm_frame_like [OF job'] by simp
  then show "keeps (tm_frame job) (gw_tm_prolog_stage_in subst job')"
    using job' by (auto simp: gw_tm_prolog_stage_in_def intro!: tm_rules)
  show "keeps (tm_frame job) (gw_tm_epilog_stage_out subst job')"
    using job' by (auto simp: gw_tm_epilog_stage_out_def intro!: tm_rules)
qed

lemma prolog_retry_frame [tm_rules]: "keeps (tm_frame job) (prolog_retry subst i job)"
  by (auto simp: prolog_retry_def Let_def split: option.split intro!: tm_rules dest!: upd_xfr_without)

lemma checkpoint_frames [tm_rules]:
  "without_transfers job' = without_transfers job \<Longrightarrow> keeps (tm_frame job) (checkpoint_complete subst job')"
  "keeps (tm_frame job) (gw_tm_checkpoint_cp junk subst job)"
proof -
  show complete: "keeps (tm_frame job) (checkpoint_complete subst job')"
    if "without_transfers job' = without_transfers job" for job'
    using that by (auto simp: checkpoint_complete_def intro!: tm_rules)
  show "keeps (tm_frame job) (gw_tm_checkpoint_cp junk subst job)"
    by (auto simp: gw_tm_checkpoint_cp_def Let_def intro!: tm_rules complete)
qed

lemma cp_cb_frames [tm_rules]:
  "keeps (tm_frame job) (gw_tm_prolog_cp_cb subst i failure job)"
  "keeps (tm_frame job) (gw_tm_epilog_cp_cb i failure job)"
  "keeps (tm_frame job) (gw_tm_checkpoint_cp_cb subst i failure job)"
proof -
  show "keeps (tm_frame job) (gw_tm_prolog_cp_cb subst i failure job)"
    by (auto simp: gw_tm_prolog_cp_cb_def intro!: tm_rules dest!: upd_xfr_without)
  show "keeps (tm_frame job) (gw_tm_epilog_cp_cb i failure job)"
    by (auto simp: gw_tm_epilog_cp_cb_def bind_Some_iff split: if_splits
        intro!: tm_rules dest!: upd_xfr_without copy_failed_without)
  show "keeps (tm_frame job) (gw_tm_checkpoint_cp_cb subst i failure job)"
    by (auto simp: gw_tm_checkpoint_cp_cb_def bind_Some_iff split: if_splits
        intro!: tm_rules dest!: upd_xfr_without copy_failed_without)
qed

lemma answer_names [simp]:
  "''GW_DM_PROLOG_DONE'' \<in> set dm_names" "''GW_DM_EPILOG_DONE'' \<in> set dm_names"
  "''GW_DM_EPILOG_FAILED'' \<in> set dm_names"
  by (simp_all add: dm_names_def)

lemma action_cb_frames:
  "keeps (tm_frame job) (gw_tm_start_action_cb junk subst mad failure job)"
  "keeps (tm_frame job) (gw_tm_rmdir_action_cb mad job)"
  "keeps (tm_frame job) (gw_tm_mkdir_action_cb subst mad failure job)"
  "keeps (tm_frame job) (gw_tm_cp_action_cb subst i failure job)"
  "keeps (tm_frame job) (gw_tm_end_action_cb failure job)"
proof -
  show "keeps (tm_frame job) (gw_tm_start_action_cb junk subst mad failure job)"
    by (cases "job_tm_state job")
      (auto simp: gw_tm_start_action_cb_def tm_state_to_def intro!: tm_rules)
  show "keeps (tm_frame job) (gw_tm_rmdir_action_cb mad job)"
    by (auto simp: gw_tm_rmdir_action_cb_def intro!: tm_rules)
  show "keeps (tm_frame job) (gw_tm_mkdir_action_cb subst mad failure job)"
    by (auto simp: gw_tm_mkdir_action_cb_def intro!: tm_rules)
  show "keeps (tm_frame job) (gw_tm_cp_action_cb subst i failure job)"
    by (cases "job_tm_state job") (simp_all add: gw_tm_cp_action_cb_def cp_cb_frames)
  show "keeps (tm_frame job) (gw_tm_end_action_cb failure job)"
    by (cases "job_tm_state job")
      (simp_all add: gw_tm_end_action_cb_def Let_def tm_send_frame)
qed

lemma tm_answer_frame: "keeps (tm_frame job) (tm_answer junk subst mad action i failure job)"
  by (simp add: tm_answer_def action_cb_frames)

lemma tm_signal_frames:
  "keeps (tm_frame job) (prolog_signal job)" "keeps (tm_frame job) (epilog_signal job)"
  by (simp_all add: prolog_signal_def epilog_signal_def tm_send_frame)

lemma tm_recover_action_names: "tm_recover_action s = Some a \<Longrightarrow> a \<in> set dm_names"
  by (cases s) auto

lemma timer_job_frame: "keeps (tm_frame job) (timer_job subst now job)"
  by (cases "job_tm_state job") (simp_all add: timer_job_def tm_send_frame copies_frames)

section \<open>The contract on the daemon's state\<close>

lemma trigger_all:
  "fold (\<lambda>a. trigger_dm a arg) ps w = w\<lparr>w_dm := w_dm w @ map (\<lambda>a. (a, arg)) ps\<rparr>"
  by (induction ps arbitrary: w) (simp_all add: trigger_dm_def)

lemma tm_run_form:
  assumes f: "\<And>job. keeps (tm_frame job) (f job)" and w': "tm_run f jid w = Some w'"
  shows "\<exists>job job' ls ps. gw_job_pool_get w jid = Some job
     \<and> without_transfers job' = without_transfers job \<and> set ps \<subseteq> set dm_names
     \<and> w' = (put_job jid job' w)\<lparr>w_tm_mad := w_tm_mad w @ ls, w_dm := w_dm w @ map (\<lambda>a. (a, Some jid)) ps\<rparr>"
proof -
  obtain job r where r: "gw_job_pool_get w jid = Some job" "f job = Some r"
    "w' = (put_job jid (tm_job r) w)\<lparr>w_tm_mad := w_tm_mad w @ tm_lines r,
       w_dm := w_dm w @ map (\<lambda>a. (a, Some jid)) (tm_posts r)\<rparr>"
    using w' by (auto simp: tm_run_def bind_Some_iff Let_def trigger_all put_job_def)
  have "tm_frame job r" using f r(2) by (rule keepsD)
  with r show ?thesis by (auto simp: tm_frame_def)
qed

lemma without_transfers_same:
  assumes "without_transfers job' = without_transfers job"
  shows "job_id job' = job_id job" "job_job_state job' = job_job_state job"
proof -
  from assms have "job_id (without_transfers job') = job_id (without_transfers job)"
    "job_job_state (without_transfers job') = job_job_state (without_transfers job)" by simp_all
  then show "job_id job' = job_id job" "job_job_state job' = job_job_state job"
    by (simp_all add: without_transfers_def)
qed

lemma step_posts:
  "set ps \<subseteq> set dm_names \<Longrightarrow> job_step jid S w (w\<lparr>w_dm := w_dm w @ map (\<lambda>a. (a, Some jid)) ps\<rparr>)"
  by (auto simp: job_step_def posts_only_def posts_known_def appended_def image_subset_iff
      intro: option.rel_refl)

lemma step_tm_run:
  assumes "\<And>job. keeps (tm_frame job) (f job)"
  shows "keeps (job_step jid S w) (tm_run f jid w)"
proof (rule keepsI)
  fix w' assume "tm_run f jid w = Some w'"
  with tm_run_form [OF assms] obtain job job' ls ps where
    w': "gw_job_pool_get w jid = Some job" "without_transfers job' = without_transfers job"
      "set ps \<subseteq> set dm_names"
      "w' = (put_job jid job' w)\<lparr>w_tm_mad := w_tm_mad w @ ls, w_dm := w_dm w @ map (\<lambda>a. (a, Some jid)) ps\<rparr>"
    by blast
  let ?w1 = "put_job jid job' w" and ?w2 = "(put_job jid job' w)\<lparr>w_tm_mad := w_tm_mad w @ ls\<rparr>"
  have "job_step jid S w ?w1"
    using without_transfers_same [OF w'(2)] by (intro step_put_job [OF w'(1)]) simp_all
  moreover have "job_step jid S ?w1 ?w2" by (rule step_fields)
  moreover have "job_step jid S ?w2 w'"
    using step_posts [OF w'(3), of jid S ?w2] w'(4) by simp
  ultimately show "job_step jid S w w'" by (blast intro: job_step_trans)
qed

lemma step_tm_actions:
  "keeps (job_step jid S w) (gw_tm_prolog (Some jid) w)" "keeps (job_step jid S w) (gw_tm_epilog (Some jid) w)"
  by (auto simp: gw_tm_prolog_def gw_tm_epilog_def intro!: step_rules step_tm_run tm_signal_frames)

lemma step_tm_message:
  "\<exists>jid. keeps (job_step jid S w) (tm_message mad words w)"
proof -
  have "keeps (job_step jid S w) (tm_run (tm_answer (w_junk w) (w_subst w) mad action i failure) jid w)"
    for jid action i failure by (rule step_tm_run) (rule tm_answer_frame)
  then show ?thesis
    by (intro exI [of _ "atoi (words ! 1)"]) (auto simp: tm_message_def split: list.split)
qed

text \<open>The timer and the recovery go over all the jobs.\<close>

interpretation tm_timer: job_sweep "\<lambda>i w. tm_run (timer_job (w_subst w) (w_now w)) i w" timer_jobs
  by unfold_locales (simp_all add: step_tm_run timer_job_frame)

lemma quiet_recover_job: "quiet_step\<^sup>*\<^sup>* w (tm_recover_job i w)"
proof (cases "gw_job_pool_get w i")
  case (Some job)
  let ?w = "put_job i (job\<lparr>job_tm_state := GW_TM_STATE_INIT\<rparr>) w"
  have "quiet_step w ?w" 
    by (rule quiet_step.work [of i]) (rule step_put_job [OF Some], simp_all)
  moreover have "quiet_step\<^sup>*\<^sup>* ?w (tm_recover_job i w)"
    using Some by (auto simp: tm_recover_job_def Let_def split: option.split
        intro!: r_into_rtranclp quiet_step.post tm_recover_action_names)
  ultimately show ?thesis by (rule converse_rtranclp_into_rtranclp)
qed (simp add: tm_recover_job_def)

lemma quiet_recover_from: "quiet_step\<^sup>*\<^sup>* w (tm_recover_from i k w)"
proof (induction k arbitrary: i w)
  case (Suc k)
  have "quiet_step\<^sup>*\<^sup>* (tm_recover_job i w) (tm_recover_from (i + 1) k (tm_recover_job i w))" by (rule Suc.IH)
  with quiet_recover_job show ?case by (auto intro: rtranclp_trans)
qed simp

section \<open>Registration (gw_tm_init)\<close>

datatype tm_function = TM_FINALIZE | TM_JOB "int option \<Rightarrow> gwd \<Rightarrow> gwd option" | TM_TIMER "gwd \<Rightarrow> gwd option"

definition tm_entries :: "(string \<times> bool \<times> tm_function) list" where
  "tm_entries =
     [(GW_ACTION_FINALIZE, False, TM_FINALIZE),
      (GW_ACTION_TIMER, False, TM_TIMER gw_tm_timer),
      (''GW_TM_PROLOG'', False, TM_JOB gw_tm_prolog),
      (''GW_TM_EPILOG'', False, TM_JOB gw_tm_epilog)]"

interpretation tm: registered_table tm_entries
  by unfold_locales
    (simp_all add: tm_entries_def GW_ACTION_FINALIZE_def GW_ACTION_TIMER_def GW_ACTION_NUMBER_def
      GW_ACTION_ID_LENGTH_def)

definition tm_handler :: "string \<Rightarrow> (int option \<Rightarrow> gwd \<Rightarrow> gwd option) option" where
  "tm_handler name = (if name = ''GW_TM_PROLOG'' then Some gw_tm_prolog
     else if name = ''GW_TM_EPILOG'' then Some gw_tm_epilog else None)"

lemma tm_entries_job: "tm_handler name = Some h \<Longrightarrow> map_of tm_entries name = Some (False, TM_JOB h)"
  by (auto simp: tm_handler_def tm_entries_def GW_ACTION_FINALIZE_def GW_ACTION_TIMER_def split: if_splits)

lemma tm_names_handled: "name \<in> set tm_names \<longleftrightarrow> tm_handler name \<noteq> None"
  by (auto simp: tm_names_def tm_handler_def)

text \<open>The action manager of the transfer manager: what the dispatch manager posts is
  found by name, in the order of the posts, together with its function.\<close>

theorem tm_manager_runs_posts:
  assumes "am_ready tm_entries am" and "am_queue tm_entries am = []" and "tm_handler name = Some h"
  shows "\<exists>am1 a am2. gw_am_trigger am name arg = Some (0, am1)
     \<and> gw_am_loop_body am1 = Some (a, arg, False, am2) \<and> act_handler a = Some (TM_JOB h)
     \<and> am_queue tm_entries am2 = []"
proof -
  have name: "name \<in> set (map fst tm_entries)" "name \<noteq> GW_ACTION_FINALIZE"
    using assms(3) by (auto simp: tm_handler_def tm_entries_def GW_ACTION_FINALIZE_def split: if_splits)
  obtain am1 where am1: "gw_am_trigger am name arg = Some (0, am1)" "am_ready tm_entries am1"
    "am_queue tm_entries am1 = [(name, arg)]"
    using tm.trigger_refines [OF assms(1), of name arg] name(1) assms(2) by (auto simp: queue_trigger_def)
  from tm.loop_refines [OF am1(2,3)] name(2) tm_entries_job [OF assms(3)] am1(1) show ?thesis by auto
qed

theorem tm_manager_runs_posts_witness:
  "\<exists>am a am'. gw_am_loop_body am = Some (a, Some (3 :: int), False, am')
     \<and> act_handler a = Some (TM_JOB gw_tm_prolog)"
proof -
  obtain am :: "(tm_function, int option) gw_am" where
    am: "am_ready tm_entries am" "am_queue tm_entries am = []" using tm.init_ready by blast
  have "tm_handler ''GW_TM_PROLOG'' = Some gw_tm_prolog" by (simp add: tm_handler_def)
  from tm_manager_runs_posts [OF am this, of "Some 3"] show ?thesis by blast
qed

text \<open>A line of a driver, whatever it says, changes only the transfers and the transfer
  state of one job, if anything: the other jobs, the hosts, the users, the files and
  the queues of the other managers stay, and what is posted to the dispatch manager
  is a registered action for that job.\<close>

theorem tm_line_frame:
  assumes "gw_tm_listener mad str (words, w) = Some (words', w')"
  shows "w' = w \<or> (\<exists>jid job job' ls ps. gw_job_pool_get w jid = Some job
     \<and> without_transfers job' = without_transfers job \<and> set ps \<subseteq> set dm_names
     \<and> w' = (put_job jid job' w)\<lparr>w_tm_mad := w_tm_mad w @ ls, w_dm := w_dm w @ map (\<lambda>a. (a, Some jid)) ps\<rparr>)"
proof -
  have msg: "tm_message mad words' w = Some w'"
    using assms by (auto simp: gw_tm_listener_def bind_Some_iff)
  show ?thesis
  proof (cases "\<exists>jid action i failure.
      tm_run (tm_answer (w_junk w) (w_subst w) mad action i failure) jid w = Some w'")
    case True
    then obtain jid action i failure where
      "tm_run (tm_answer (w_junk w) (w_subst w) mad action i failure) jid w = Some w'" by blast
    from tm_run_form [OF tm_answer_frame this] show ?thesis by blast
  next
    case False
    with msg show ?thesis by (auto simp: tm_message_def split: list.splits if_splits)
  qed
qed

theorem tm_line_frame_witness:
  "\<exists>words' w'. gw_tm_listener ''ftp'' (tm_answer_line ''START'' 0 0 ''SUCCESS'' ''-'')
      (replicate 5 ''?'', example_world) = Some (words', w')
    \<and> (w' = example_world \<or> (\<exists>jid job. gw_job_pool_get example_world jid = Some job))"
proof -
  have "take 1 (show_int 0) \<noteq> ''-''" "atoi (show_int 0) = 0" by code_simp+
  moreover have "scan_line_into tm_format (replicate 5 ''?'') (tm_answer_line ''START'' 0 0 ''SUCCESS'' ''-'') =
      Some [''START'', show_int 0, show_int 0, ''SUCCESS'', ''-'']"
    by (rule trans [OF scan_tm_answer]) (simp_all add: word_ok_def is_blank_def)
  moreover have "job_tm_state example_job = GW_TM_STATE_INIT" by (simp add: example_job_def gw_job_init_def)
  then have "tm_answer (w_junk example_world) (w_subst example_world) ''ftp'' ''START'' 0 False example_job =
      Some (tm_skip example_job)"
    by (simp add: tm_answer_def gw_tm_start_action_cb_def)
  then obtain w' where "tm_run (tm_answer (w_junk example_world) (w_subst example_world) ''ftp'' ''START'' 0 False)
      0 example_world = Some w'"
    by (simp add: tm_run_def Let_def)
  ultimately have w': "gw_tm_listener ''ftp'' (tm_answer_line ''START'' 0 0 ''SUCCESS'' ''-'')
      (replicate 5 ''?'', example_world) = Some ([''START'', show_int 0, show_int 0, ''SUCCESS'', ''-''], w')"
    by (simp add: gw_tm_listener_def tm_message_def)
  from tm_line_frame [OF w'] w' show ?thesis by blast
qed


section \<open>What the timer does\<close>

definition xfr_tick :: "gw_xfr \<Rightarrow> gw_xfr" where
  "xfr_tick e = (if xfr_counter e = - 1 then e
     else if xfr_counter e = 1 then e\<lparr>xfr_counter := - 1\<rparr>
     else e\<lparr>xfr_counter := xfr_counter e - 1\<rparr>)"

definition with_xfrs :: "gw_job \<Rightarrow> gw_xfr list \<Rightarrow> gw_job" where
  "with_xfrs job xs = job\<lparr>job_xfrs := (job_xfrs job)\<lparr>xfrs_xfrs := Some xs\<rparr>\<rparr>"

lemma with_xfrs_simps [simp]:
  "with_xfrs (with_xfrs job xs) ys = with_xfrs job ys"
  "xfrs_xfrs (job_xfrs (with_xfrs job xs)) = Some xs"
  "job_history (with_xfrs job xs) = job_history job"
  "job_tm_state (with_xfrs job xs) = job_tm_state job" "job_id (with_xfrs job xs) = job_id job"
  by (simp_all add: with_xfrs_def)

lemma with_xfrs_same: "xfrs_xfrs (job_xfrs job) = Some xs \<Longrightarrow> with_xfrs job xs = job"
  by (cases "job_xfrs job") (simp add: with_xfrs_def)

text \<open>The URLs of a transfer can be built, whatever the transfers are at that time.\<close>

definition can_build ::
    "(gw_job \<Rightarrow> string \<Rightarrow> string option \<Rightarrow> built option) \<Rightarrow> gw_job \<Rightarrow> gw_xfr \<Rightarrow> bool" where
  "can_build build job e \<longleftrightarrow> (\<exists>src. xfr_src_url e = Some src
     \<and> (\<forall>xs. \<exists>s d. build (with_xfrs job xs) src (xfr_dst_url e) = Some (URLS s d)))"

definition due :: "gw_xfr list \<Rightarrow> nat \<Rightarrow> nat list" where
  "due xs j = filter (\<lambda>i. xfr_counter (xs ! i) = 1) [j ..< length xs]"

lemma due_step: "j < length xs \<Longrightarrow>
    due xs j = (if xfr_counter (xs ! j) = 1 then j # due xs (Suc j) else due xs (Suc j))"
  by (simp add: due_def upt_conv_Cons)

lemma due_update: "due (xs[j := e]) (Suc j) = due xs (Suc j)"
  unfolding due_def by (auto intro: filter_cong)

lemma tick_update:
  assumes "j < length xs"
  shows "take (Suc j) (xs[j := xfr_tick (xs ! j)]) @ map xfr_tick (drop (Suc j) (xs[j := xfr_tick (xs ! j)]))
     = take j xs @ map xfr_tick (drop j xs)"
  using assms by (simp add: take_Suc_conv_app_nth Cons_nth_drop_Suc [symmetric])

lemma timer_one:
  assumes "j < length xs" and "job_history job \<noteq> []"
    and "xfr_counter (xs ! j) = 1 \<Longrightarrow> can_build build job (xs ! j)"
  shows "\<exists>ls. timer_copies build upd_xfr job_xfrs (int j) (Suc k) (with_xfrs job xs) =
      tm_then (Some ((tm_skip (with_xfrs job (xs[j := xfr_tick (xs ! j)])))\<lparr>tm_lines := ls\<rparr>))
        (timer_copies build upd_xfr job_xfrs (int (Suc j)) k)
    \<and> map (answer_of \<circ> snd) ls = (if xfr_counter (xs ! j) = 1 then [(''CP'', int j)] else [])"
proof -
  let ?e = "xs ! j"
  have at: "xfr_at (job_xfrs (with_xfrs job xs)) (int j) = Some ?e"
    using assms(1) by (simp add: xfr_at_def)
  have upd: "upd_xfr (int j) f (with_xfrs job xs) = Some (with_xfrs job (xs[j := f ?e]))" for f
    using assms(1) by (simp add: upd_xfr_at with_xfrs_def)
  consider "xfr_counter ?e = - 1" | "xfr_counter ?e = 1"
    | "xfr_counter ?e \<noteq> - 1" "xfr_counter ?e \<noteq> 1" by blast
  then show ?thesis
  proof cases
    case 1
    then have "with_xfrs job (xs[j := xfr_tick ?e]) = with_xfrs job xs" by (simp add: xfr_tick_def)
    with 1 at show ?thesis
      by (intro exI [of _ "[]"]) (simp add: tm_skip_def add.commute)
  next
    case 2
    let ?job = "with_xfrs job (xs[j := xfr_tick ?e])"
    obtain src s d where b: "xfr_src_url ?e = Some src" "build ?job src (xfr_dst_url ?e) = Some (URLS s d)"
      using assms(3) [OF 2] unfolding can_build_def by blast
    have tick: "?e\<lparr>xfr_counter := - 1\<rparr> = xfr_tick ?e" using 2 by (simp add: xfr_tick_def)
    show ?thesis
      using 2 at upd b assms(2) tick
      by (intro exI [of _ "[(hist_tm_mad (hd (job_history job)), TM_CP (job_id job) (int j)
          (if job_tm_state job = GW_TM_STATE_PROLOG then xfr_mode ?e else CHR ''-'') s (cstr d))]"])
        (simp add: send_cp_def tm_send_some add.commute)
  next
    case 3
    then have "?e\<lparr>xfr_counter := xfr_counter ?e - 1\<rparr> = xfr_tick ?e" by (simp add: xfr_tick_def)
    with 3 at upd show ?thesis
      by (intro exI [of _ "[]"]) (simp add: tm_skip_def add.commute)
  qed
qed

lemma timer_copies_all:
  assumes "job_history job \<noteq> []" and "\<forall>e \<in> set (drop j xs). xfr_counter e = 1 \<longrightarrow> can_build build job e"
    and "j + k = length xs"
  shows "\<exists>ls. timer_copies build upd_xfr job_xfrs (int j) k (with_xfrs job xs) =
      Some ((tm_skip (with_xfrs job (take j xs @ map xfr_tick (drop j xs))))\<lparr>tm_lines := ls\<rparr>)
    \<and> map (answer_of \<circ> snd) ls = map (\<lambda>i. (''CP'', int i)) (due xs j)"
  using assms(2,3)
proof (induction k arbitrary: j xs)
  case 0
  then show ?case by (intro exI [of _ "[]"]) (simp add: due_def tm_skip_def)
next
  case (Suc k)
  let ?xs = "xs[j := xfr_tick (xs ! j)]"
  have j: "j < length xs" using Suc.prems(2) by simp
  then have drop: "drop j xs = xs ! j # drop (Suc j) xs" by (simp add: Cons_nth_drop_Suc)
  obtain ls where one: "timer_copies build upd_xfr job_xfrs (int j) (Suc k) (with_xfrs job xs) =
      tm_then (Some ((tm_skip (with_xfrs job ?xs))\<lparr>tm_lines := ls\<rparr>))
        (timer_copies build upd_xfr job_xfrs (int (Suc j)) k)"
    "map (answer_of \<circ> snd) ls = (if xfr_counter (xs ! j) = 1 then [(''CP'', int j)] else [])"
    using timer_one [OF j assms(1), of build k] Suc.prems(1) drop by auto
  have "\<forall>e \<in> set (drop (Suc j) ?xs). xfr_counter e = 1 \<longrightarrow> can_build build job e"
    "Suc j + k = length ?xs" using Suc.prems drop by simp_all
  from Suc.IH [OF this] obtain ls' where rest:
    "timer_copies build upd_xfr job_xfrs (int (Suc j)) k (with_xfrs job ?xs) =
      Some ((tm_skip (with_xfrs job (take (Suc j) ?xs @ map xfr_tick (drop (Suc j) ?xs))))\<lparr>tm_lines := ls'\<rparr>)"
    "map (answer_of \<circ> snd) ls' = map (\<lambda>i. (''CP'', int i)) (due xs (Suc j))"
    unfolding due_update by blast
  show ?case
    unfolding one(1) tick_update [OF j, symmetric]
    using rest one(2) due_step [OF j]
    by (intro exI [of _ "ls @ ls'"]) (simp add: tm_then_def tm_skip_def o_def)
qed

text \<open>C38 (functional).  One tick of the timer for a job in its prolog or its epilog: every counter that
  runs goes down by one, and exactly the copies whose counter was 1 are sent again, in
  their order, with their counter stopped.\<close>

theorem timer_repeats_copies:
  assumes "job_tm_state job \<in> {GW_TM_STATE_PROLOG, GW_TM_STATE_EPILOG}" and "job_history job \<noteq> []"
    and "xfrs_xfrs (job_xfrs job) = Some xs" and "xfrs_number (job_xfrs job) = int (length xs)"
    and "build = (if job_tm_state job = GW_TM_STATE_PROLOG then gw_tm_prolog_build_urls subst
      else gw_tm_epilog_build_urls subst)"
    and "\<forall>e \<in> set xs. xfr_counter e = 1 \<longrightarrow> can_build build job e"
  shows "\<exists>ls. timer_job subst now job =
      Some ((tm_skip (with_xfrs job (map xfr_tick xs)))\<lparr>tm_lines := ls\<rparr>)
    \<and> map (answer_of \<circ> snd) ls =
        map (\<lambda>i. (''CP'', int i)) (filter (\<lambda>i. xfr_counter (xs ! i) = 1) [0 ..< length xs])"
  using timer_copies_all [OF assms(2), of 0 xs build "length xs"] assms(1,3-6)
  by (auto simp: timer_job_def due_def with_xfrs_same)

lemma example_can_build:
  "can_build (gw_tm_prolog_build_urls no_subst) (example_transfers s limit xs) (example_xfr\<lparr>xfr_counter := c\<rparr>)"
  by (simp add: can_build_def example_xfr_def gw_tm_prolog_build_urls_def no_subst_def hist_at_def Let_def
      with_xfrs_def)

theorem timer_repeats_copies_witness:
  "\<exists>ls. timer_job no_subst 1000 (example_transfers GW_TM_STATE_PROLOG 0
        [example_xfr, example_xfr\<lparr>xfr_counter := 1\<rparr>, example_xfr\<lparr>xfr_counter := 2\<rparr>]) =
      Some ((tm_skip (with_xfrs (example_transfers GW_TM_STATE_PROLOG 0
        [example_xfr, example_xfr\<lparr>xfr_counter := 1\<rparr>, example_xfr\<lparr>xfr_counter := 2\<rparr>])
        [example_xfr, example_xfr, example_xfr\<lparr>xfr_counter := 1\<rparr>]))\<lparr>tm_lines := ls\<rparr>)
    \<and> map (answer_of \<circ> snd) ls = [(''CP'', 1)]"
proof -
  have "xfr_counter example_xfr = - 1" by (simp add: example_xfr_def)
  moreover have stop: "example_xfr\<lparr>xfr_counter := - 1\<rparr> = example_xfr" by (simp add: example_xfr_def)
  ultimately show ?thesis
    using timer_repeats_copies [OF _ _ example_transfers_sel(3) _ refl, of GW_TM_STATE_PROLOG 0
        "[example_xfr, example_xfr\<lparr>xfr_counter := 1\<rparr>, example_xfr\<lparr>xfr_counter := 2\<rparr>]" no_subst 1000]
    by (simp add: xfr_tick_def example_can_build stop)
qed

section \<open>What happens after a driver's end\<close>

text \<open>The action posted for the job in slot \<open>i\<close>.\<close>

definition recovery :: "gwd \<Rightarrow> int \<Rightarrow> action_queue" where
  "recovery w i = (case gw_job_pool_get w i of
     None \<Rightarrow> []
   | Some job \<Rightarrow> (case tm_recover_action (job_job_state job) of None \<Rightarrow> [] | Some a \<Rightarrow> [(a, Some (job_id job))]))"

definition reset_transfer :: "gw_job \<Rightarrow> gw_job" where
  "reset_transfer job = job\<lparr>job_tm_state := GW_TM_STATE_INIT\<rparr>"

lemma tm_recover_job_effect:
  "gw_job_pool_get (tm_recover_job i w) k = (if k = i then map_option reset_transfer (gw_job_pool_get w i)
     else gw_job_pool_get w k)"
  "w_dm (tm_recover_job i w) = w_dm w @ recovery w i" "w_tm_mad (tm_recover_job i w) = w_tm_mad w"
  by (auto simp: tm_recover_job_def recovery_def reset_transfer_def Let_def trigger_dm_def
      split: option.split) (simp_all add: put_job_def)

lemma tm_recover_from_effect:
  "gw_job_pool_get (tm_recover_from i n w) k =
     (if i \<le> k \<and> k < i + int n then map_option reset_transfer (gw_job_pool_get w k) else gw_job_pool_get w k)
   \<and> w_dm (tm_recover_from i n w) = w_dm w @ concat (map (recovery w) [i .. i + int n - 1])
   \<and> w_tm_mad (tm_recover_from i n w) = w_tm_mad w"
proof (induction n arbitrary: i w)
  case (Suc n)
  have "map (recovery (tm_recover_job i w)) [i + 1 .. i + 1 + int n - 1] =
      map (recovery w) [i + 1 .. i + 1 + int n - 1]"
    by (rule map_cong) (simp_all add: recovery_def tm_recover_job_effect(1))
  moreover have "[i .. i + int (Suc n) - 1] = i # [i + 1 .. i + 1 + int n - 1]"
    by (subst upto_rec1) simp_all
  ultimately show ?case
    using Suc.IH [of "i + 1" "tm_recover_job i w"]
    by (auto simp: tm_recover_job_effect simp del: map_eq_conv)
qed auto

text \<open>After a driver has been started again every job's transfer is reset, also those
  of other drivers, and exactly the jobs in a prolog or an epilog are posted to the
  dispatch manager, each to start it again.  A job in a migration's prolog is reset
  and not posted.\<close>

theorem tm_recover_effect:
  assumes "w' = gw_job_pool_tm_recover w" and "n = conf_number_of_jobs (w_conf w)" and "0 \<le> n"
  shows "(\<forall>k. 0 \<le> k \<and> k < n \<longrightarrow> gw_job_pool_get w' k = map_option reset_transfer (gw_job_pool_get w k))
   \<and> w_dm w' = w_dm w @ concat (map (recovery w) [0 .. n - 1])
   \<and> w_tm_mad w' = w_tm_mad w
   \<and> (\<forall>k job. gw_job_pool_get w k = Some job \<and> job_job_state job = GW_JOB_STATE_MIGR_PROLOG
        \<longrightarrow> recovery w k = [])"
  using assms tm_recover_from_effect [of 0 "nat n" w]
  by (auto simp: gw_job_pool_tm_recover_def recovery_def )

theorem tm_recover_effect_witness:
  "w_tm_mad (gw_job_pool_tm_recover example_world) = w_tm_mad example_world
   \<and> gw_job_pool_get (gw_job_pool_tm_recover example_world) 0 = Some (reset_transfer example_job)"
  using tm_recover_effect [OF refl refl, of example_world] by (auto simp: example_conf_def)

end
