(* ===== verification/Em_Actions.thy ===== *)
theory Em_Actions
  imports Gw_World Gw_Mad_Line
begin

text \<open>
  The execution manager, \<open>src/em\<close>: the submission and the cancelling of a job and the
  polling timer (\<open>gw_em_actions.c\<close>), the state of its execution
  (\<open>gw_em_state.c\<close>) and the lines of the drivers (\<open>gw_em_listener.c\<close>).  The text of
  a job description is the field \<open>w_rsl\<close> (the formatters only print the job's
  template), the result of \<open>gw_rand\<close> the field \<open>w_rand\<close>.  \<open>None\<close> is a crash: a NULL
  record or host, a number printed with \<open>%s\<close>, a word longer than its array.
\<close>

section \<open>The submission (gw_em_actions.c)\<close>

definition issubmitted :: "gw_em_state \<Rightarrow> bool" where
  "issubmitted s \<longleftrightarrow> s \<in> {GW_EM_STATE_ACTIVE, GW_EM_STATE_PENDING, GW_EM_STATE_SUSPENDED}"

definition cancel_states :: "gw_job_state set" where
  "cancel_states = {GW_JOB_STATE_MIGR_CANCEL, GW_JOB_STATE_STOP_CANCEL, GW_JOB_STATE_KILL_CANCEL}"

definition execution_states :: "gw_job_state set" where
  "execution_states = {GW_JOB_STATE_PRE_WRAPPER, GW_JOB_STATE_WRAPPER} \<union> cancel_states"

definition em_state_to :: "gw_em_state \<Rightarrow> int \<Rightarrow> gwd \<Rightarrow> gwd option" where
  "em_state_to s jid w = upd_job jid (\<lambda>j. j\<lparr>job_em_state := s\<rparr>) w"

definition em_send :: "string \<Rightarrow> em_msg \<Rightarrow> gwd \<Rightarrow> gwd" where
  "em_send mad msg w = w\<lparr>w_em_mad := w_em_mad w @ [(mad, msg)]\<rparr>"

text \<open>\<open>job->next_poll_time = now + interval/2 + gw_rand(interval)\<close>; intervals are not negative.\<close>

definition next_poll :: "int \<Rightarrow> int \<Rightarrow> int \<Rightarrow> gwd \<Rightarrow> gwd option" where
  "next_poll delay spread jid w =
     upd_job jid (\<lambda>j. j\<lparr>job_next_poll_time := w_now w + delay + w_rand w spread\<rparr>) w"

definition rsl_file :: "gw_job \<Rightarrow> string" where
  "rsl_file job = job_directory job @ ''/job.rsl.'' @ show_int (job_restarted job)"

text \<open>The job could not be described or its description not written.\<close>

definition submit_failed :: "int \<Rightarrow> gwd \<Rightarrow> gwd option" where
  "submit_failed jid w = do {
     w \<leftarrow> em_state_to GW_EM_STATE_FAILED jid w;
     Some (trigger_dm ''GW_DM_WRAPPER_FAILED'' (Some jid) w)
   }"

definition submit_times :: "int \<Rightarrow> gwd \<Rightarrow> gwd option" where
  "submit_times jid w = do {
     w \<leftarrow> next_poll (conf_poll_interval (w_conf w) div 2) (conf_poll_interval (w_conf w)) jid w;
     w \<leftarrow> upd_job jid (\<lambda>j. j\<lparr>job_last_checkpoint_time := 0\<rparr>) w;
     upd_hist 0 jid (\<lambda>r. r\<lparr>hist_stats := (hist_stats r)(LAST_SUSPENSION_TIME := w_now w,
         SUSPENSION_TIME := 0, ACTIVE_TIME := 0), hist_tries := hist_tries r + 1\<rparr>) w
   }"

text \<open>
  Both messages about a missing job or record print the identifier with \<open>%s\<close>.  The
  name of the description is written to an array of 2048 bytes.
\<close>

definition gw_em_submit :: "int option \<Rightarrow> gwd \<Rightarrow> gwd option" where
  "gw_em_submit arg w = with_job arg w None (\<lambda>jid. do {
     job \<leftarrow> gw_job_pool_get w jid;
     r \<leftarrow> hist_at 0 job;
     w \<leftarrow> em_state_to GW_EM_STATE_INIT jid w;
     w \<leftarrow> upd_hist 0 jid (\<lambda>r. r\<lparr>hist_counter := - 1\<rparr>) w;
     job \<leftarrow> gw_job_pool_get w jid;
     let pre = (job_job_state job = GW_JOB_STATE_PRE_WRAPPER);
     (case w_rsl w pre job of
        None \<Rightarrow> submit_failed jid w
      | Some rsl \<Rightarrow>
          if length (rsl_file job) \<ge> 2048 then None
          else if \<not> w_opens w (rsl_file job) then submit_failed jid w
          else do {
            w \<leftarrow> submit_times jid w;
            Some (em_send (hist_em_mad r)
              (EM_SUBMIT jid (if pre then hist_em_fork_rc r else hist_em_rc r) (rsl_file job)) w)
          })
   })"

section \<open>Cancelling\<close>

text \<open>The driver of the execution: the previous record's while a migration is being cancelled.\<close>

definition execution_mad :: "gw_job \<Rightarrow> string option" where
  "execution_mad job =
     (if job_job_state job = GW_JOB_STATE_MIGR_CANCEL
      then map_option hist_em_mad (hist_at 1 job) else map_option hist_em_mad (hist_at 0 job))"

definition gw_em_cancel :: "int option \<Rightarrow> gwd \<Rightarrow> gwd option" where
  "gw_em_cancel arg w = with_job arg w None (\<lambda>jid. do {
     job \<leftarrow> gw_job_pool_get w jid;
     r \<leftarrow> hist_at 0 job;
     if hist_cancel_tries r \<ge> 3 then Some (trigger_em ''GW_EM_STATE_DONE'' (Some jid) w)
     else do {
       w \<leftarrow> upd_hist 0 jid (\<lambda>r. r\<lparr>hist_cancel_tries := hist_cancel_tries r + 1\<rparr>) w;
       if issubmitted (job_em_state job) then
         (case execution_mad job of
            None \<Rightarrow> Some w
          | Some mad \<Rightarrow> Some (em_send mad (EM_CANCEL jid) w))
       else Some w
     }
   })"

section \<open>The timer\<close>

text \<open>One job: a poll when its time has come, or a counter of a failed submission that runs.\<close>

definition em_timer_job :: "int \<Rightarrow> gwd \<Rightarrow> gwd option" where
  "em_timer_job i w = do {
     job \<leftarrow> gw_job_pool_get w i;
     (case job_history job of
        [] \<Rightarrow> Some w
      | r # rs \<Rightarrow>
          if job_job_state job \<notin> execution_states then Some w
          else if issubmitted (job_em_state job) then
            (if w_now w \<ge> job_next_poll_time job then
               (case execution_mad job of
                  None \<Rightarrow> Some w
                | Some mad \<Rightarrow>
                    upd_job i (\<lambda>j. j\<lparr>job_next_poll_time := job_next_poll_time j + conf_poll_interval (w_conf w)\<rparr>)
                      (em_send mad (EM_POLL i) w))
             else Some w)
          else if job_em_state job = GW_EM_STATE_FAILED \<and> hist_counter r \<noteq> - 1 then
            (if hist_counter r - 1 = 0 then do {
               w \<leftarrow> upd_hist 0 i (\<lambda>r. r\<lparr>hist_counter := - 1\<rparr>) w;
               Some (trigger_em ''GW_EM_SUBMIT'' (Some i) w)
             }
             else upd_hist 0 i (\<lambda>r. r\<lparr>hist_counter := hist_counter r - 1\<rparr>) w)
          else Some w)
   }"

fun em_timer_jobs :: "int \<Rightarrow> nat \<Rightarrow> gwd \<Rightarrow> gwd option" where
  "em_timer_jobs i 0 w = Some w"
| "em_timer_jobs i (Suc k) w = do {
     w \<leftarrow> (if gw_job_pool_get w i = None then Some w else em_timer_job i w);
     em_timer_jobs (i + 1) k w
   }"

definition gw_em_timer :: "gwd \<Rightarrow> gwd option" where
  "gw_em_timer w = em_timer_jobs 0 (nat (conf_number_of_jobs (w_conf w))) w"

section \<open>The state of an execution (gw_em_state.c)\<close>

definition inc_ajobs :: "nat \<Rightarrow> int \<Rightarrow> gwd \<Rightarrow> gwd option" where
  "inc_ajobs k jid w =
     on_hist_host k jid (\<lambda>h job. (gw_host_inc_ajobs_nb h (hist_queue_at k job), [])) w"

text \<open>\<open>stats[s] += time(NULL) - stats[since]\<close> of the job's \<open>k\<close>-th record.\<close>

definition add_time :: "nat \<Rightarrow> gw_stat \<Rightarrow> gw_stat \<Rightarrow> int \<Rightarrow> gwd \<Rightarrow> gwd option" where
  "add_time k s since jid w = upd_hist k jid (\<lambda>r. r\<lparr>hist_stats :=
     (hist_stats r)(s := hist_stats r s + (w_now w - hist_stats r since))\<rparr>) w"

text \<open>A report on a job that is being cancelled repeats the cancelling.\<close>

definition recancel :: "int \<Rightarrow> gwd \<Rightarrow> gwd option" where
  "recancel jid w = do {
     job \<leftarrow> gw_job_pool_get w jid;
     Some (if job_job_state job \<in> cancel_states then trigger_em ''GW_EM_CANCEL'' (Some jid) w else w)
   }"

definition leave_active :: "int \<Rightarrow> gwd \<Rightarrow> gwd option" where
  "leave_active jid w = do {
     job \<leftarrow> gw_job_pool_get w jid;
     if job_em_state job = GW_EM_STATE_ACTIVE then dec_ajobs 0 0 jid w else Some w
   }"

definition gw_em_pending :: "int option \<Rightarrow> gwd \<Rightarrow> gwd option" where
  "gw_em_pending arg w = with_job arg w (Some w) (\<lambda>jid. do {
     job \<leftarrow> gw_job_pool_get w jid;
     w \<leftarrow> recancel jid w;
     w \<leftarrow> leave_active jid w;
     if job_em_state job = GW_EM_STATE_PENDING then Some w
     else em_state_to GW_EM_STATE_PENDING jid w
   })"

definition gw_em_active :: "int option \<Rightarrow> gwd \<Rightarrow> gwd option" where
  "gw_em_active arg w = with_job arg w (Some w) (\<lambda>jid. do {
     job \<leftarrow> gw_job_pool_get w jid;
     w \<leftarrow> recancel jid w;
     if job_em_state job = GW_EM_STATE_ACTIVE then Some w
     else do {
       w \<leftarrow> add_time 0 SUSPENSION_TIME LAST_SUSPENSION_TIME jid w;
       w \<leftarrow> stamp 0 LAST_ACTIVE_TIME jid w;
       w \<leftarrow> em_state_to GW_EM_STATE_ACTIVE jid w;
       w \<leftarrow> inc_ajobs 0 jid w;
       if job_last_checkpoint_time job = 0
       then upd_job jid (\<lambda>j. j\<lparr>job_last_checkpoint_time := w_now w\<rparr>) w else Some w
     }
   })"

definition gw_em_suspended :: "int option \<Rightarrow> gwd \<Rightarrow> gwd option" where
  "gw_em_suspended arg w = with_job arg w (Some w) (\<lambda>jid. do {
     job \<leftarrow> gw_job_pool_get w jid;
     w \<leftarrow> recancel jid w;
     w \<leftarrow> leave_active jid w;
     if job_em_state job = GW_EM_STATE_SUSPENDED then Some w
     else do {
       w \<leftarrow> (if job_em_state job = GW_EM_STATE_ACTIVE
             then add_time 0 ACTIVE_TIME LAST_ACTIVE_TIME jid w else Some w);
       w \<leftarrow> (if job_em_state job \<noteq> GW_EM_STATE_PENDING
             then stamp 0 LAST_SUSPENSION_TIME jid w else Some w);
       em_state_to GW_EM_STATE_SUSPENDED jid w
     }
   })"

definition gw_em_done :: "int option \<Rightarrow> gwd \<Rightarrow> gwd option" where
  "gw_em_done arg w = with_job arg w (Some w) (\<lambda>jid. do {
     job \<leftarrow> gw_job_pool_get w jid;
     if job_em_state job = GW_EM_STATE_DONE then Some w
     else do {
       w \<leftarrow> leave_active jid w;
       let k = (if job_job_state job = GW_JOB_STATE_MIGR_CANCEL then 1 else 0);
       w \<leftarrow> (if job_em_state job = GW_EM_STATE_ACTIVE
             then add_time k ACTIVE_TIME LAST_ACTIVE_TIME jid w
             else add_time k SUSPENSION_TIME LAST_SUSPENSION_TIME jid w);
       w \<leftarrow> em_state_to GW_EM_STATE_DONE jid w;
       Some (trigger_dm ''GW_DM_WRAPPER_DONE'' (Some jid) w)
     }
   })"

text \<open>A failed execution is given up, or tried again after as many ticks as it was tried.\<close>

definition gw_em_failed :: "int option \<Rightarrow> gwd \<Rightarrow> gwd option" where
  "gw_em_failed arg w = with_job arg w (Some w) (\<lambda>jid. do {
     job \<leftarrow> gw_job_pool_get w jid;
     w \<leftarrow> leave_active jid w;
     w \<leftarrow> (if job_em_state job \<in> {GW_EM_STATE_SUSPENDED, GW_EM_STATE_PENDING}
           then add_time 0 SUSPENSION_TIME LAST_SUSPENSION_TIME jid w else Some w);
     w \<leftarrow> (if job_em_state job = GW_EM_STATE_ACTIVE
           then add_time 0 ACTIVE_TIME LAST_ACTIVE_TIME jid w else Some w);
     w \<leftarrow> em_state_to GW_EM_STATE_FAILED jid w;
     r \<leftarrow> hist_at 0 job;
     if hist_tries r \<ge> jt_number_of_retries (job_template job) then do {
       w \<leftarrow> upd_hist 0 jid (\<lambda>r. r\<lparr>hist_counter := - 1\<rparr>) w;
       Some (trigger_dm ''GW_DM_WRAPPER_FAILED'' (Some jid) w)
     }
     else upd_hist 0 jid (\<lambda>r. r\<lparr>hist_counter := hist_tries r\<rparr>) w
   })"


section \<open>The listener (gw_em_listener.c)\<close>

text \<open>The suffix that \<open>strstr\<close> points to.\<close>

fun strstr :: "string \<Rightarrow> string \<Rightarrow> string option" where
  "strstr p [] = (if p = [] then Some [] else None)"
| "strstr p (c # cs) = (if take (length p) (c # cs) = p then Some (c # cs) else strstr p cs)"

text \<open>The exit code that follows \<open>DONE:\<close>, when the wrapper is not used.\<close>

definition set_exit_code :: "string \<Rightarrow> int \<Rightarrow> gwd \<Rightarrow> gwd option" where
  "set_exit_code info jid w =
     (case strstr ''DONE:'' info of
        None \<Rightarrow> Some w
      | Some t \<Rightarrow> if length (drop 5 t) > 0
          then upd_job jid (\<lambda>j. j\<lparr>job_exit_code := atoi (drop 5 t)\<rparr>) w else Some w)"

text \<open>A state in the text of a line; the three callers differ in what \<open>FAILED\<close> means.\<close>

definition em_report :: "string \<Rightarrow> (gwd \<Rightarrow> gwd option) \<Rightarrow> int \<Rightarrow> gwd \<Rightarrow> gwd option" where
  "em_report info failed jid w =
     (if info = ''PENDING'' then Some (trigger_em ''GW_EM_STATE_PENDING'' (Some jid) w)
      else if info = ''SUSPENDED'' then Some (trigger_em ''GW_EM_STATE_SUSPENDED'' (Some jid) w)
      else if info = ''ACTIVE'' then Some (trigger_em ''GW_EM_STATE_ACTIVE'' (Some jid) w)
      else if strstr ''DONE'' info \<noteq> None then do {
        w \<leftarrow> set_exit_code info jid w;
        Some (trigger_em ''GW_EM_STATE_DONE'' (Some jid) w)
      }
      else if info = ''FAILED'' then failed w
      else Some w)"

definition contact_path :: "gw_conf \<Rightarrow> int \<Rightarrow> string" where
  "contact_path conf jid = take (PATH_MAX - 2) (job_path conf jid @ ''/job.contact'')"

definition em_submit_answer :: "string \<Rightarrow> string \<Rightarrow> int \<Rightarrow> gwd \<Rightarrow> gwd option" where
  "em_submit_answer result info jid w =
     (if result = ''FAILURE'' then Some (trigger_em ''GW_EM_STATE_FAILED'' (Some jid) w)
      else do {
        job \<leftarrow> gw_job_pool_get w jid;
        let w = (if w_opens w (contact_path (w_conf w) (job_id job))
                 then w\<lparr>w_contact_file := (w_contact_file w)(job_id job := Some info)\<rparr> else w);
        Some (trigger_em ''GW_EM_STATE_PENDING'' (Some jid) w)
      })"

text \<open>The third failed poll in the life of a record is taken for the end of the job.\<close>

definition em_poll_answer :: "string \<Rightarrow> string \<Rightarrow> int \<Rightarrow> gwd \<Rightarrow> gwd option" where
  "em_poll_answer result info jid w =
     (let interval = conf_poll_interval (w_conf w) in
      if result = ''SUCCESS'' then do {
        w \<leftarrow> next_poll (interval div 2) interval jid w;
        em_report info (\<lambda>w. Some (trigger_em ''GW_EM_STATE_FAILED'' (Some jid) w)) jid w
      }
      else do {
        w \<leftarrow> upd_hist 0 jid (\<lambda>r. r\<lparr>hist_failed_polls := hist_failed_polls r + 1\<rparr>) w;
        job \<leftarrow> gw_job_pool_get w jid;
        r \<leftarrow> hist_at 0 job;
        if hist_failed_polls r = 3 then Some (trigger_em ''GW_EM_STATE_DONE'' (Some jid) w)
        else next_poll (interval * hist_failed_polls r) (interval * hist_failed_polls r) jid w
      })"

definition em_recover_answer :: "string \<Rightarrow> string \<Rightarrow> int \<Rightarrow> gwd \<Rightarrow> gwd option" where
  "em_recover_answer result info jid w =
     (if result = ''SUCCESS'' then em_report info (\<lambda>w. do {
          job \<leftarrow> gw_job_pool_get w jid;
          w \<leftarrow> upd_hist 0 jid (\<lambda>r. r\<lparr>hist_tries := jt_number_of_retries (job_template job)\<rparr>) w;
          Some (trigger_em ''GW_EM_STATE_FAILED'' (Some jid) w)
        }) jid w
      else Some (trigger_em ''GW_EM_STATE_DONE'' (Some jid) w))"

definition em_callback_answer :: "string \<Rightarrow> string \<Rightarrow> int \<Rightarrow> gwd \<Rightarrow> gwd option" where
  "em_callback_answer result info jid w = do {
     job \<leftarrow> gw_job_pool_get w jid;
     if result = ''SUCCESS''
     then em_report info (\<lambda>w. Some (trigger_em ''GW_EM_STATE_DONE'' (Some jid) w)) jid w
     else if job_job_state job \<in> cancel_states
     then Some (trigger_em ''GW_EM_STATE_DONE'' (Some jid) w)
     else Some (trigger_em ''GW_EM_STATE_FAILED'' (Some jid) w)
   }"

text \<open>A line taken apart; of an answer to \<open>CANCEL\<close> only the log is written.\<close>

definition em_message :: "string list \<Rightarrow> gwd \<Rightarrow> gwd option" where
  "em_message words w =
     (case words of
        [action, s_job_id, result, info] \<Rightarrow>
          if take 1 s_job_id = ''-'' then Some w
          else (let jid = atoi s_job_id in
            case gw_job_pool_get w jid of
              None \<Rightarrow> Some w
            | Some job \<Rightarrow>
                if job_job_state job \<notin> execution_states then Some w
                else if job_em_state job = GW_EM_STATE_HARD_KILL then Some w
                else if action = ''SUBMIT'' then em_submit_answer result info jid w
                else if action = ''POLL'' then em_poll_answer result info jid w
                else if action = ''RECOVER'' then em_recover_answer result info jid w
                else if action = ''CALLBACK'' then em_callback_answer result info jid w
                else Some w)
      | _ \<Rightarrow> Some w)"

definition gw_em_listener :: "string \<Rightarrow> string list \<times> gwd \<Rightarrow> (string list \<times> gwd) option" where
  "gw_em_listener str state = do {
     words \<leftarrow> scan_line_into em_format (fst state) str;
     w \<leftarrow> em_message words (snd state);
     Some (words, w)
   }"

section \<open>A driver that is started again (gw_job_pool_em_recover)\<close>

text \<open>
  \<open>gw_job_recover_get_contact\<close>: the first word of the contact file, read with \<open>%s\<close>
  into an array of \<open>GW_MSG_STRING_LONG\<close> bytes.  The outer option is the crash.
\<close>

definition gw_job_recover_get_contact :: "int \<Rightarrow> gwd \<Rightarrow> string option option" where
  "gw_job_recover_get_contact jid w =
     (case w_contact_file w jid of
        None \<Rightarrow> Some None
      | Some text \<Rightarrow>
          (let word = takeWhile (\<lambda>c. \<not> is_blank c) (dropWhile is_blank text) in
           if length word \<ge> GW_MSG_STRING_LONG then None
           else Some (if word = [] then None else Some word)))"

definition em_recover_job :: "string \<Rightarrow> int \<Rightarrow> gwd \<Rightarrow> gwd option" where
  "em_recover_job mad i w = do {
     job \<leftarrow> gw_job_pool_get w i;
     (case job_history job of
        [] \<Rightarrow> Some w
      | r # rs \<Rightarrow>
          if hist_em_mad r = mad \<and> job_job_state job = GW_JOB_STATE_WRAPPER then do {
            contact \<leftarrow> gw_job_recover_get_contact (job_id job) w;
            (case contact of
               None \<Rightarrow> Some (trigger_em ''GW_EM_STATE_FAILED'' (Some (job_id job)) w)
             | Some c \<Rightarrow> Some (em_send mad (EM_RECOVER (job_id job) c) w))
          }
          else Some w)
   }"

fun em_recover_jobs :: "string \<Rightarrow> int \<Rightarrow> nat \<Rightarrow> gwd \<Rightarrow> gwd option" where
  "em_recover_jobs mad i 0 w = Some w"
| "em_recover_jobs mad i (Suc k) w = do {
     w \<leftarrow> (if gw_job_pool_get w i = None then Some w else em_recover_job mad i w);
     em_recover_jobs mad (i + 1) k w
   }"

definition gw_job_pool_em_recover :: "string \<Rightarrow> gwd \<Rightarrow> gwd option" where
  "gw_job_pool_em_recover mad w = em_recover_jobs mad 0 (nat (conf_number_of_jobs (w_conf w))) w"

definition em_closed :: "string \<Rightarrow> gwd \<Rightarrow> gwd option" where
  "em_closed mad w = (if w_starts w mad then gw_job_pool_em_recover mad w else Some w)"

end
