(* ===== verification/Em_Manager.thy ===== *)
theory Em_Manager
  imports Dm_Manager Gw_Sweep Em_Actions
begin

text \<open>
  The execution manager as a part of the daemon, \<open>src/em/gw_em.c\<close>: every operation
  of \<open>Em_Actions\<close> keeps the contract of the dispatch manager on its job, so that the
  states of jobs are the dispatch manager's alone; the registrations are an instance
  of \<open>registered_table\<close>.  The properties are about the counters of active jobs on a
  host, about retries and about cancelling.
\<close>

section \<open>The contract\<close>

lemma em_state_names [simp]:
  "''GW_EM_STATE_PENDING'' \<in> set em_names" "''GW_EM_STATE_ACTIVE'' \<in> set em_names"
  "''GW_EM_STATE_SUSPENDED'' \<in> set em_names" "''GW_EM_STATE_DONE'' \<in> set em_names"
  "''GW_EM_STATE_FAILED'' \<in> set em_names"
  "''GW_DM_WRAPPER_FAILED'' \<in> set dm_names" "''GW_DM_WRAPPER_DONE'' \<in> set dm_names"
  by (simp_all add: em_names_def dm_names_def)

lemma step_em_parts [step_rules]:
  "keeps (job_step jid S w) (em_state_to s jid w)"
  "keeps (job_step jid S w) (next_poll d n jid w)"
  "keeps (job_step jid S w) (submit_failed jid w)"
  "keeps (job_step jid S w) (submit_times jid w)"
  "keeps (job_step jid S w) (inc_ajobs k jid w)"
  "keeps (job_step jid S w) (add_time k st since jid w)"
  "keeps (job_step jid S w) (recancel jid w)"
  "keeps (job_step jid S w) (leave_active jid w)"
  "keeps (job_step jid S w) (Some (em_send mad msg w))"
  by (auto simp: em_state_to_def next_poll_def submit_failed_def submit_times_def inc_ajobs_def
      add_time_def recancel_def leave_active_def em_send_def intro!: step_rules step_fields)

lemma step_em_send [step_rules]: "job_step jid S w (em_send mad msg w)"
  unfolding em_send_def by (rule step_fields)

lemma step_em_actions:
  "keeps (job_step jid S w) (gw_em_submit (Some jid) w)"
  "keeps (job_step jid S w) (gw_em_cancel (Some jid) w)"
  "keeps (job_step jid S w) (gw_em_pending (Some jid) w)"
  "keeps (job_step jid S w) (gw_em_active (Some jid) w)"
  "keeps (job_step jid S w) (gw_em_suspended (Some jid) w)"
  "keeps (job_step jid S w) (gw_em_done (Some jid) w)"
  "keeps (job_step jid S w) (gw_em_failed (Some jid) w)"
proof -
  show "keeps (job_step jid S w) (gw_em_submit (Some jid) w)"
    by (auto simp: gw_em_submit_def Let_def split: option.split intro!: step_rules)
  show "keeps (job_step jid S w) (gw_em_cancel (Some jid) w)"
    by (auto simp: gw_em_cancel_def split: option.split intro!: step_rules)
  show "keeps (job_step jid S w) (gw_em_pending (Some jid) w)"
    by (auto simp: gw_em_pending_def intro!: step_rules)
  show "keeps (job_step jid S w) (gw_em_active (Some jid) w)"
    by (auto simp: gw_em_active_def intro!: step_rules)
  show "keeps (job_step jid S w) (gw_em_suspended (Some jid) w)"
    by (auto simp: gw_em_suspended_def intro!: step_rules)
  show "keeps (job_step jid S w) (gw_em_done (Some jid) w)"
    by (auto simp: gw_em_done_def Let_def intro!: step_rules)
  show "keeps (job_step jid S w) (gw_em_failed (Some jid) w)"
    by (auto simp: gw_em_failed_def intro!: step_rules)
qed

lemma step_em_timer_job: "keeps (job_step i S w) (em_timer_job i w)"
proof -
  have "keeps (job_step i S w) (upd_job i f (em_send mad msg w))"
    if "\<And>j. job_id (f j) = job_id j \<and> job_job_state (f j) = job_job_state j" for f mad msg
    by (rule steps_then [OF step_fields(6) [of _ _ w "w_em_mad w @ [(mad, msg)]"]])
      (simp add: em_send_def step_upd_job [OF that])
  then show ?thesis
    by (auto simp: em_timer_job_def split: list.split option.split intro!: step_rules)
qed

text \<open>The lines of the drivers.\<close>

lemma step_set_exit_code [step_rules]: "keeps (job_step jid S w) (set_exit_code info jid w)"
  by (auto simp: set_exit_code_def split: option.split intro!: step_rules)

lemma step_em_report:
  "keeps (job_step jid S w) (failed w) \<Longrightarrow> keeps (job_step jid S w) (em_report info failed jid w)"
proof -
  assume failed: "keeps (job_step jid S w) (failed w)"
  have "keeps (job_step jid S w) (do { w \<leftarrow> set_exit_code info jid w;
      Some (trigger_em ''GW_EM_STATE_DONE'' (Some jid) w) })"
    by (auto intro!: step_rules)
  with failed show ?thesis by (simp add: em_report_def step_trigger)
qed

lemma step_em_answers:
  "keeps (job_step jid S w) (em_submit_answer result info jid w)"
  "keeps (job_step jid S w) (em_poll_answer result info jid w)"
  "keeps (job_step jid S w) (em_recover_answer result info jid w)"
  "keeps (job_step jid S w) (em_callback_answer result info jid w)"
proof -
  have "job_step jid S w (trigger_em a arg (w\<lparr>w_contact_file := cf\<rparr>))" if "a \<in> set em_names" for a arg cf
    by (rule job_step_trans [OF step_fields(11)]) (rule step_trigger(1) [OF that])
  then show "keeps (job_step jid S w) (em_submit_answer result info jid w)"
    by (auto simp: em_submit_answer_def Let_def intro!: step_rules)
  show "keeps (job_step jid S w) (em_poll_answer result info jid w)"
    by (auto simp: em_poll_answer_def Let_def intro!: step_rules step_em_report)
  show "keeps (job_step jid S w) (em_recover_answer result info jid w)"
    by (auto simp: em_recover_answer_def intro!: step_rules step_em_report)
  show "keeps (job_step jid S w) (em_callback_answer result info jid w)"
    by (auto simp: em_callback_answer_def intro!: step_rules step_em_report)
qed

lemma step_em_message: "\<exists>jid. keeps (job_step jid S w) (em_message words w)"
  by (intro exI [of _ "atoi (words ! 1)"])
    (auto simp: em_message_def Let_def step_em_answers split: list.split option.split)

lemma step_em_recover_job: "keeps (job_step i S w) (em_recover_job mad i w)"
  by (auto simp: em_recover_job_def split: list.split option.split
      intro!: step_rules steps_read [where 'a = "string option"])

text \<open>The timer and the recovery go over all the jobs.\<close>

interpretation em_timer: job_sweep em_timer_job em_timer_jobs
  by unfold_locales (simp_all add: step_em_timer_job)

interpretation em_recovery: job_sweep "em_recover_job mad" "em_recover_jobs mad"
  for mad by unfold_locales (simp_all add: step_em_recover_job)

section \<open>Registration (gw_em_init)\<close>

datatype em_function = EM_FINALIZE | EM_JOB "int option \<Rightarrow> gwd \<Rightarrow> gwd option" | EM_TIMER "gwd \<Rightarrow> gwd option"

definition em_table :: "(string \<times> (int option \<Rightarrow> gwd \<Rightarrow> gwd option)) list" where
  "em_table =
     [(''GW_EM_SUBMIT'', gw_em_submit), (''GW_EM_CANCEL'', gw_em_cancel),
      (''GW_EM_STATE_PENDING'', gw_em_pending), (''GW_EM_STATE_ACTIVE'', gw_em_active),
      (''GW_EM_STATE_SUSPENDED'', gw_em_suspended), (''GW_EM_STATE_DONE'', gw_em_done),
      (''GW_EM_STATE_FAILED'', gw_em_failed)]"

definition em_entries :: "(string \<times> bool \<times> em_function) list" where
  "em_entries = [(GW_ACTION_FINALIZE, False, EM_FINALIZE), (GW_ACTION_TIMER, False, EM_TIMER gw_em_timer)]
     @ map (\<lambda>(aid, h). (aid, False, EM_JOB h)) em_table"

interpretation em: registered_table em_entries
  by unfold_locales
    (simp_all add: em_entries_def em_table_def GW_ACTION_FINALIZE_def GW_ACTION_TIMER_def
      GW_ACTION_NUMBER_def GW_ACTION_ID_LENGTH_def)

definition em_handler :: "string \<Rightarrow> (int option \<Rightarrow> gwd \<Rightarrow> gwd option) option" where
  "em_handler name = map_of em_table name"

lemma em_names_handled: "name \<in> set em_names \<longleftrightarrow> em_handler name \<noteq> None"
  unfolding em_handler_def map_of_eq_None_iff by (simp add: em_table_def em_names_def)

lemma em_entries_job:
  assumes "em_handler name = Some h" shows "map_of em_entries name = Some (False, EM_JOB h)"
proof -
  have "(name, h) \<in> set em_table" using assms by (simp add: em_handler_def map_of_SomeD)
  then have "(name, False, EM_JOB h) \<in> set em_entries" by (force simp: em_entries_def)
  with em.names_distinct show ?thesis by simp
qed

lemma em_handler_step: "em_handler name = Some h \<Longrightarrow> keeps (job_step jid S w) (h (Some jid) w)"
  using step_em_actions [of jid S w]
  by (auto simp: em_handler_def em_table_def split: if_splits)

lemma em_handler_null: "em_handler name = Some h \<Longrightarrow> h None w = Some w"
  by (auto simp: em_handler_def em_table_def with_job_def gw_em_submit_def gw_em_cancel_def gw_em_pending_def
      gw_em_active_def gw_em_suspended_def gw_em_done_def gw_em_failed_def split: if_splits)


section \<open>Active jobs of a host\<close>

text \<open>
  The job \<open>jid\<close> is in the execution state \<open>e\<close>, its newest record names the host
  \<open>hid\<close> and the queue \<open>q\<close>, and that host is \<open>h\<close>.
\<close>

definition exec_at :: "int \<Rightarrow> int \<Rightarrow> string option \<Rightarrow> gw_host \<Rightarrow> gw_em_state \<Rightarrow> gwd \<Rightarrow> bool" where
  "exec_at jid hid q h e w \<longleftrightarrow> (\<exists>j r rs. gw_job_pool_get w jid = Some j \<and> job_history j = r # rs
     \<and> hist_host r = hid \<and> hist_queue r = q \<and> job_em_state j = e \<and> pool_get (w_hosts w) hid = Some h)"

text \<open>One job more or less counted as active in its queue.\<close>

definition count_active :: "int \<Rightarrow> string option \<Rightarrow> gw_host \<Rightarrow> gw_host" where
  "count_active d q h = h\<lparr>host_queue_active_jobs := bump_queue (\<lambda>c. c + d) q (host_queue_name h)
     (host_queue_active_jobs h)\<rparr>"

definition active_one :: "gw_em_state \<Rightarrow> int" where
  "active_one e = (if e = GW_EM_STATE_ACTIVE then 1 else 0)"

lemma count_active_0 [simp]: "count_active 0 q h = h"
  using bump_queue_id [of q "host_queue_name h" "host_queue_active_jobs h"]
  by (simp add: count_active_def id_def)

named_theorems exec_rules \<open>operations as seen from the counters of active jobs\<close>

lemma exec_upd_job [exec_rules]:
  assumes "exec_at jid hid q h e w"
    and "\<And>j. job_history (f j) = job_history j \<and> job_em_state (f j) = job_em_state j"
  shows "keeps (exec_at jid hid q h e) (upd_job jid f w)"
  using assms by (auto simp: exec_at_def upd_job_def)

lemma exec_upd_hist [exec_rules]:
  assumes "exec_at jid hid q h e w" and "\<And>r. hist_host (f r) = hist_host r \<and> hist_queue (f r) = hist_queue r"
  shows "keeps (exec_at jid hid q h e) (upd_hist k jid f w)"
proof -
  obtain j r rs where j: "gw_job_pool_get w jid = Some j" "job_history j = r # rs" "hist_host r = hid"
    "hist_queue r = q" "job_em_state j = e" "pool_get (w_hosts w) hid = Some h"
    using assms(1) by (auto simp: exec_at_def)
  then show ?thesis
    using assms(2)
    by (cases k) (auto simp: upd_hist_def hist_at_def exec_at_def)
qed

lemma exec_times [exec_rules]:
  assumes "exec_at jid hid q h e w"
  shows "keeps (exec_at jid hid q h e) (add_time k st since jid w)"
    "keeps (exec_at jid hid q h e) (stamp k st jid w)"
  using assms by (auto simp: add_time_def stamp_def intro!: exec_upd_hist)

lemma exec_set_state [exec_rules]:
  "exec_at jid hid q h e w \<Longrightarrow> keeps (exec_at jid hid q h s) (em_state_to s jid w)"
  by (auto simp: exec_at_def em_state_to_def upd_job_def)

lemma exec_recancel [exec_rules]:
  "exec_at jid hid q h e w \<Longrightarrow> keeps (exec_at jid hid q h e) (recancel jid w)"
  by (auto simp: exec_at_def recancel_def trigger_em_def)

lemma exec_host:
  assumes "exec_at jid hid q h e w" and "f h q = (h', [])"
  shows "keeps (exec_at jid hid q h' e) (on_hist_host 0 jid (\<lambda>h job. f h (hist_queue_at 0 job)) w)"
  using assms
  by (auto simp: exec_at_def on_hist_host_def on_host_def hist_at_def hist_queue_at_def send_sch_def)

lemma exec_leave_active [exec_rules]:
  assumes "exec_at jid hid q h e w"
  shows "keeps (exec_at jid hid q (count_active (- active_one e) q h) e) (leave_active jid w)"
proof -
  obtain j where j: "gw_job_pool_get w jid = Some j" "job_em_state j = e"
    using assms by (auto simp: exec_at_def)
  have "keeps (exec_at jid hid q (count_active (- 1) q h) e) (dec_ajobs 0 0 jid w)"
    unfolding dec_ajobs_def
    by (rule exec_host [OF assms]) (simp add: gw_host_dec_ajobs_nb_def count_active_def)
  with assms j show ?thesis by (auto simp: leave_active_def active_one_def)
qed

lemma exec_inc_active [exec_rules]:
  assumes "exec_at jid hid q h e w"
  shows "keeps (exec_at jid hid q (count_active 1 q h) e) (inc_ajobs 0 jid w)"
  unfolding inc_ajobs_def
  by (rule exec_host [OF assms]) (simp add: gw_host_inc_ajobs_nb_def count_active_def)

lemma exec_done [exec_rules]:
  "exec_at jid hid q h e w \<Longrightarrow> keeps (exec_at jid hid q h e) (Some w)"
  "exec_at jid hid q h e w \<Longrightarrow> keeps (exec_at jid hid q h e) (Some (trigger_dm a arg w))"
  by (simp_all add: exec_at_def trigger_dm_def)

lemma exec_job: "exec_at jid hid q h e w \<Longrightarrow>
    \<exists>j. gw_job_pool_get w jid = Some j \<and> job_em_state j = e"
  by (auto simp: exec_at_def)

lemma exec_read [exec_rules]: "(\<And>r. keeps P (f r)) \<Longrightarrow> keeps P (Option.bind (hist_at k job) f)"
  by (rule keeps_bind_any)

text \<open>The execution state each report leads to.\<close>

definition em_target :: "string \<Rightarrow> gw_em_state option" where
  "em_target name = map_of
     [(''GW_EM_STATE_PENDING'', GW_EM_STATE_PENDING), (''GW_EM_STATE_ACTIVE'', GW_EM_STATE_ACTIVE),
      (''GW_EM_STATE_SUSPENDED'', GW_EM_STATE_SUSPENDED), (''GW_EM_STATE_DONE'', GW_EM_STATE_DONE),
      (''GW_EM_STATE_FAILED'', GW_EM_STATE_FAILED)] name"

lemmas exec_bind = keeps_bind [where Q = "exec_at jid hid q h e" for jid hid q h e]

lemma exec_handlers:
  assumes w: "exec_at jid hid q h e w"
  shows "keeps (exec_at jid hid q (count_active (- active_one e) q h) GW_EM_STATE_PENDING) (gw_em_pending (Some jid) w)"
    "keeps (exec_at jid hid q (count_active (1 - active_one e) q h) GW_EM_STATE_ACTIVE) (gw_em_active (Some jid) w)"
    "keeps (exec_at jid hid q (count_active (- active_one e) q h) GW_EM_STATE_SUSPENDED) (gw_em_suspended (Some jid) w)"
    "keeps (exec_at jid hid q (count_active (- active_one e) q h) GW_EM_STATE_DONE) (gw_em_done (Some jid) w)"
    "keeps (exec_at jid hid q (count_active (- active_one e) q h) GW_EM_STATE_FAILED) (gw_em_failed (Some jid) w)"
proof -
  obtain j where j: "gw_job_pool_get w jid = Some j" "job_em_state j = e" using exec_job [OF w] by blast
  show "keeps (exec_at jid hid q (count_active (- active_one e) q h) GW_EM_STATE_PENDING) (gw_em_pending (Some jid) w)"
    using j w by (auto simp: gw_em_pending_def with_job_def intro!: exec_bind exec_rules)
  show "keeps (exec_at jid hid q (count_active (1 - active_one e) q h) GW_EM_STATE_ACTIVE) (gw_em_active (Some jid) w)"
    using j w by (auto simp: gw_em_active_def with_job_def active_one_def intro!: exec_bind exec_rules)
  show "keeps (exec_at jid hid q (count_active (- active_one e) q h) GW_EM_STATE_SUSPENDED) (gw_em_suspended (Some jid) w)"
    using j w by (auto simp: gw_em_suspended_def with_job_def intro!: exec_bind exec_rules)
  show "keeps (exec_at jid hid q (count_active (- active_one e) q h) GW_EM_STATE_DONE) (gw_em_done (Some jid) w)"
    using j w by (auto simp: gw_em_done_def with_job_def Let_def active_one_def intro!: exec_bind exec_rules)
  show "keeps (exec_at jid hid q (count_active (- active_one e) q h) GW_EM_STATE_FAILED) (gw_em_failed (Some jid) w)"
    using j w by (auto simp: gw_em_failed_def with_job_def intro!: exec_rules exec_bind)
      (rule exec_upd_hist, simp_all)
qed


text \<open>C17 (invariant).  The counter of active jobs: a report on an execution brings the job to the
  reported state and changes the counter of its queue by one exactly when the
  execution becomes active or stops being active; the host is otherwise as it was.\<close>

theorem em_reports_count_active:
  assumes "em_target name = Some e'" and "em_handler name = Some f"
    and "exec_at jid hid q h e w" and "f (Some jid) w = Some w'"
  shows "exec_at jid hid q (count_active (active_one e' - active_one e) q h) e' w'"
proof -
  note handlers = exec_handlers [OF assms(3), THEN keepsD]
  have "(name, e', f) \<in> {(''GW_EM_STATE_PENDING'', GW_EM_STATE_PENDING, gw_em_pending),
      (''GW_EM_STATE_ACTIVE'', GW_EM_STATE_ACTIVE, gw_em_active),
      (''GW_EM_STATE_SUSPENDED'', GW_EM_STATE_SUSPENDED, gw_em_suspended),
      (''GW_EM_STATE_DONE'', GW_EM_STATE_DONE, gw_em_done),
      (''GW_EM_STATE_FAILED'', GW_EM_STATE_FAILED, gw_em_failed)}"
    using assms(1,2) by (auto simp: em_target_def em_handler_def em_table_def split: if_splits)
  then show ?thesis
    using assms(4) handlers by (auto simp: active_one_def)
qed

section \<open>Submissions\<close>

lemma hist_at_0: "hist_at 0 job = Some r \<longleftrightarrow> (\<exists>rs. job_history job = r # rs)"
  by (cases "job_history job") (auto simp: hist_at_def)

text \<open>C18 (functional).  The submission of a job either sends its driver one request with the contact of
  the job's state and counts a try, or sends nothing and tells the dispatch manager,
  once, that the wrapper has failed.\<close>

theorem em_submit_once:
  assumes "gw_em_submit (Some jid) w = Some w'" and "gw_job_pool_get w jid = Some job"
    and "job_history job = r # rs"
  shows "\<exists>job' r'. gw_job_pool_get w' jid = Some job' \<and> job_history job' = r' # rs
     \<and> hist_counter r' = - 1
     \<and> (job_em_state job' = GW_EM_STATE_INIT \<and> hist_tries r' = hist_tries r + 1 \<and> w_dm w' = w_dm w
          \<and> w_em_mad w' = w_em_mad w @ [(hist_em_mad r, EM_SUBMIT jid
              (if job_job_state job = GW_JOB_STATE_PRE_WRAPPER then hist_em_fork_rc r else hist_em_rc r)
              (rsl_file job))]
        \<or> job_em_state job' = GW_EM_STATE_FAILED \<and> hist_tries r' = hist_tries r
          \<and> w_dm w' = w_dm w @ [(''GW_DM_WRAPPER_FAILED'', Some jid)] \<and> w_em_mad w' = w_em_mad w)"
  using assms
  by (auto simp: gw_em_submit_def with_job_def hist_at_def em_state_to_def upd_job_def upd_hist_def
      submit_failed_def submit_times_def next_poll_def em_send_def trigger_dm_def rsl_file_def Let_def
      put_job_def gw_job_pool_get_def split: option.splits if_splits)

text \<open>A submission or a cancelling that is handled after its job has gone crashes: the
  message about it prints the identifier as a string.  The reports of the drivers on a
  job that has gone are ignored.\<close>

theorem em_job_gone:
  assumes "gw_job_pool_get w jid = None"
  shows "em_handler name = Some f \<Longrightarrow>
    f (Some jid) w = (if name \<in> {''GW_EM_SUBMIT'', ''GW_EM_CANCEL''} then None else Some w)"
  using assms
  by (auto simp: em_handler_def em_table_def with_job_def gw_em_submit_def gw_em_cancel_def gw_em_pending_def
      gw_em_active_def gw_em_suspended_def gw_em_done_def gw_em_failed_def split: if_splits)

section \<open>Cancelling\<close>

fun cancels :: "nat \<Rightarrow> int \<Rightarrow> gwd \<Rightarrow> gwd option" where
  "cancels 0 jid w = Some w"
| "cancels (Suc n) jid w = do { w \<leftarrow> gw_em_cancel (Some jid) w; cancels n jid w }"

lemma cancel_once:
  assumes "gw_job_pool_get w jid = Some job" and "job_history job = r # rs"
  shows "\<exists>w' job' r'. gw_em_cancel (Some jid) w = Some w' \<and> gw_job_pool_get w' jid = Some job'
     \<and> job_history job' = r' # rs
     \<and> (if hist_cancel_tries r \<ge> 3
        then r' = r \<and> w_em w' = w_em w @ [(''GW_EM_STATE_DONE'', Some jid)]
        else hist_cancel_tries r' = hist_cancel_tries r + 1 \<and> w_em w' = w_em w)"
  using assms
  by (auto simp: gw_em_cancel_def with_job_def hist_at_def upd_hist_def em_send_def trigger_em_def
      split: option.split)

text \<open>Cancelling ends whatever the driver does: from the fourth request on, every
  request reports the end of the execution, and none before.\<close>

theorem em_cancel_gives_up:
  assumes "gw_job_pool_get w jid = Some job" and "job_history job = r # rs"
    and "hist_cancel_tries r = int c" and "c \<le> 3"
  shows "\<exists>w'. cancels n jid w = Some w'
     \<and> w_em w' = w_em w @ replicate (n - (3 - c)) (''GW_EM_STATE_DONE'', Some jid)"
  using assms
proof (induction n arbitrary: w job r c)
  case (Suc n)
  obtain w1 job1 r1 where w1: "gw_em_cancel (Some jid) w = Some w1" "gw_job_pool_get w1 jid = Some job1"
    "job_history job1 = r1 # rs"
    "if hist_cancel_tries r \<ge> 3
     then r1 = r \<and> w_em w1 = w_em w @ [(''GW_EM_STATE_DONE'', Some jid)]
     else hist_cancel_tries r1 = hist_cancel_tries r + 1 \<and> w_em w1 = w_em w"
    using cancel_once [OF Suc.prems(1,2)] by blast
  show ?case
  proof (cases "c = 3")
    case True
    with w1 Suc.IH [OF w1(2,3), of c] Suc.prems(3) show ?thesis by auto
  next
    case False
    with w1(4) Suc.prems(3,4) have "hist_cancel_tries r1 = int (Suc c)" "Suc c \<le> 3" "w_em w1 = w_em w"
      by auto
    with w1(1) Suc.IH [OF w1(2,3), of "Suc c"] Suc_diff_le [of c 2] show ?thesis
      by (simp add: eval_nat_numeral)
  qed
qed simp


section \<open>Retries\<close>

text \<open>A failed execution whose record counts down from \<open>c\<close>.\<close>

definition waits :: "int \<Rightarrow> int \<Rightarrow> gwd \<Rightarrow> bool" where
  "waits c jid w \<longleftrightarrow> (\<exists>j r rs. gw_job_pool_get w jid = Some j \<and> job_history j = r # rs \<and> hist_counter r = c
     \<and> job_em_state j = GW_EM_STATE_FAILED \<and> job_job_state j \<in> execution_states)"

definition submissions :: "int \<Rightarrow> gwd \<Rightarrow> nat" where
  "submissions jid w = length (filter (\<lambda>p. p = (''GW_EM_SUBMIT'', Some jid)) (w_em w))"

lemma submissions_post [simp]:
  "submissions jid (trigger_em a (Some k) w) =
     submissions jid w + (if a = ''GW_EM_SUBMIT'' \<and> k = jid then 1 else 0)"
  by (simp add: submissions_def trigger_em_def)

lemma submissions_put [simp]: "submissions jid (put_job i j w) = submissions jid w"
  by (simp add: submissions_def)

lemma submissions_send [simp]: "submissions jid (em_send mad msg w) = submissions jid w"
  by (simp add: submissions_def em_send_def)

lemma get_em_send [simp]: "gw_job_pool_get (em_send mad msg w) = gw_job_pool_get w"
  by (simp add: em_send_def)

lemma issubmitted_failed [simp]: "\<not> issubmitted GW_EM_STATE_FAILED"
  by (simp add: issubmitted_def)

lemma timer_job_other:
  assumes "em_timer_job i w = Some w'" and "i \<noteq> jid"
  shows "gw_job_pool_get w' jid = gw_job_pool_get w jid \<and> submissions jid w' = submissions jid w"
proof -
  obtain j where j: "gw_job_pool_get w i = Some j" using assms(1) by (auto simp: em_timer_job_def bind_Some_iff)
  have "keeps (\<lambda>w'. gw_job_pool_get w' jid = gw_job_pool_get w jid \<and> submissions jid w' = submissions jid w)
      (em_timer_job i w)"
    using j assms(2)
    by (cases "job_history j") (auto simp: em_timer_job_def upd_job_def upd_hist_def hist_at_def split: option.split)
  then show ?thesis using assms(1) by (rule keepsD)
qed

definition next_counter :: "int \<Rightarrow> int" where
  "next_counter c = (if c = - 1 \<or> c = 1 then - 1 else c - 1)"

lemma timer_job_waits:
  assumes "em_timer_job jid w = Some w'" and "waits c jid w"
  shows "waits (next_counter c) jid w' \<and> submissions jid w' = submissions jid w + (if c = 1 then 1 else 0)"
  using assms
  by (auto simp: em_timer_job_def waits_def next_counter_def bind_Some_iff upd_hist_def hist_at_0
      split: if_splits)

lemma waits_same: "gw_job_pool_get w' jid = gw_job_pool_get w jid \<Longrightarrow> waits c jid w' = waits c jid w"
  by (simp add: waits_def)

lemma timer_jobs_waits:
  assumes "em_timer_jobs i k w = Some w'" and "waits c jid w"
  shows "if i \<le> jid \<and> jid < i + int k
     then waits (next_counter c) jid w' \<and> submissions jid w' = submissions jid w + (if c = 1 then 1 else 0)
     else waits c jid w' \<and> submissions jid w' = submissions jid w"
  using assms
proof (induction k arbitrary: i w c)
  case (Suc k)
  obtain w1 where w1: "(if gw_job_pool_get w i = None then Some w else em_timer_job i w) = Some w1"
    "em_timer_jobs (i + 1) k w1 = Some w'"
    using Suc.prems(1) by (auto simp: bind_Some_iff)
  show ?case
  proof (cases "i = jid")
    case True
    then have "em_timer_job jid w = Some w1" using w1(1) Suc.prems(2) by (auto simp: waits_def)
    from timer_job_waits [OF this Suc.prems(2)] Suc.IH [OF w1(2), of "next_counter c"] True
    show ?thesis by auto
  next
    case False
    have "gw_job_pool_get w1 jid = gw_job_pool_get w jid \<and> submissions jid w1 = submissions jid w"
      using w1(1) timer_job_other [of i w w1 jid] False by (auto split: if_splits)
    with waits_same [of w1 jid w] Suc.prems(2) Suc.IH [OF w1(2), of c] False
    show ?thesis by (auto split: if_splits)
  qed
qed auto

text \<open>The timer \<open>n\<close> times.\<close>

fun em_ticks :: "nat \<Rightarrow> gwd \<Rightarrow> gwd option" where
  "em_ticks 0 w = Some w"
| "em_ticks (Suc n) w = do { w \<leftarrow> gw_em_timer w; em_ticks n w }"

lemma em_ticks_waits:
  assumes "em_ticks n w = Some w'" and "waits c jid w" and "c = - 1 \<or> 0 \<le> c"
    and "0 \<le> jid" and "jid < conf_number_of_jobs (w_conf w)"
  shows "submissions jid w' = submissions jid w + (if 1 \<le> c \<and> c \<le> int n then 1 else 0)"
  using assms
proof (induction n arbitrary: w c)
  case (Suc n)
  obtain w1 where w1: "gw_em_timer w = Some w1" "em_ticks n w1 = Some w'"
    using Suc.prems(1) by (auto simp: bind_Some_iff)
  have conf: "w_conf w1 = w_conf w" using em_timer.sweep_same w1(1) by (simp add: gw_em_timer_def same_jobs_def)
  have "waits (next_counter c) jid w1 \<and> submissions jid w1 = submissions jid w + (if c = 1 then 1 else 0)"
    using timer_jobs_waits [of 0 "nat (conf_number_of_jobs (w_conf w))" w w1 c jid] w1(1) Suc.prems(2,4,5)
    by (simp add: gw_em_timer_def)
  moreover have "next_counter c = - 1 \<or> 0 \<le> next_counter c" using Suc.prems(3) by (auto simp: next_counter_def)
  ultimately show ?case
    using Suc.IH [OF w1(2), of "next_counter c"] Suc.prems(3-5) conf
    by (auto simp: next_counter_def split: if_splits)
qed simp

lemma em_failed_waits:
  assumes "gw_em_failed (Some jid) w = Some w1"
    and "gw_job_pool_get w jid = Some j" and "job_history j = r # rs" and "job_job_state j \<in> execution_states"
    and "hist_tries r < jt_number_of_retries (job_template j)"
  shows "waits (hist_tries r) jid w1 \<and> w_dm w1 = w_dm w \<and> w_em w1 = w_em w \<and> w_conf w1 = w_conf w"
proof -
  define Q where "Q e w' \<longleftrightarrow> (\<exists>j' r'. gw_job_pool_get w' jid = Some j' \<and> job_history j' = r' # rs
      \<and> hist_tries r' = hist_tries r \<and> job_em_state j' = e \<and> job_job_state j' \<in> execution_states)
      \<and> w_dm w' = w_dm w \<and> w_em w' = w_em w \<and> w_conf w' = w_conf w" for e w'
  define G where "G w1 \<longleftrightarrow> waits (hist_tries r) jid w1 \<and> w_dm w1 = w_dm w \<and> w_em w1 = w_em w
      \<and> w_conf w1 = w_conf w" for w1
  have leave: "keeps (Q e) (leave_active jid w')" if "Q e w'" for e w'
    using that by (auto simp: Q_def leave_active_def dec_ajobs_def on_hist_host_def on_host_def send_sch_def
        intro!: keeps_bind_any)
  have time: "keeps (Q e) (add_time 0 st since jid w')" if "Q e w'" for e st since w'
    using that by (auto simp: Q_def add_time_def upd_hist_def hist_at_def)
  have opt: "keeps P (Option.bind (if b then add_time 0 st since jid w' else Some w') f)"
    if "Q e w'" and "\<And>x. Q e x \<Longrightarrow> keeps P (f x)" for P :: "gwd \<Rightarrow> bool" and b e st since w' f
  proof (cases b)
    case True
    have "keeps P (Option.bind (add_time 0 st since jid w') f)"
      by (rule keeps_bind [OF time [OF that(1)]]) (rule that(2))
    with True show ?thesis by simp
  qed (use that in simp)
  have state: "keeps (Q GW_EM_STATE_FAILED) (em_state_to GW_EM_STATE_FAILED jid w')" if "Q e w'" for e w'
    using that by (auto simp: Q_def em_state_to_def upd_job_def)
  have count: "keeps G (upd_hist 0 jid (\<lambda>r. r\<lparr>hist_counter := hist_tries r\<rparr>) w')"
    if "Q GW_EM_STATE_FAILED w'" for w'
    using that by (auto simp: Q_def G_def waits_def upd_hist_def hist_at_def)
  have "Q (job_em_state j) w" using assms(2-4) by (simp add: Q_def)
  with assms(2-5) have "keeps G (gw_em_failed (Some jid) w)"
    by (auto simp: gw_em_failed_def with_job_def hist_at_def
        intro!: keeps_bind [OF leave] opt keeps_bind [OF state] count)
  then have "G w1" using assms(1) by (rule keepsD)
  then show ?thesis by (simp add: G_def)
qed

text \<open>The timer itself never crashes.\<close>

lemma timer_job_total: "gw_job_pool_get w i = Some j \<Longrightarrow> \<exists>w'. em_timer_job i w = Some w'"
  by (cases "job_history j")
    (auto simp: em_timer_job_def upd_job_def upd_hist_def hist_at_def split: option.split)

lemma timer_jobs_total: "\<exists>w'. em_timer_jobs i k w = Some w'"
proof (induction k arbitrary: i w)
  case (Suc k)
  obtain w1 where "(if gw_job_pool_get w i = None then Some w else em_timer_job i w) = Some w1"
    using timer_job_total [of w i] by (cases "gw_job_pool_get w i") auto
  with Suc.IH [of "i + 1" w1] show ?case by simp
qed simp

lemma em_ticks_total: "\<exists>w'. em_ticks n w = Some w'"
proof (induction n arbitrary: w)
  case (Suc n)
  obtain w1 where "gw_em_timer w = Some w1"
    using timer_jobs_total [of 0 "nat (conf_number_of_jobs (w_conf w))" w] by (auto simp: gw_em_timer_def)
  with Suc.IH [of w1] show ?case by simp
qed simp

text \<open>C16 (liveness).  An execution that has failed after \<open>t\<close> tries, with retries left, is submitted
  again by the \<open>t\<close>-th tick of the timer after that, exactly once; one that has failed
  without a submission (\<open>t = 0\<close>, as after a restart of the daemon) never is, and the
  dispatch manager is not told either.\<close>

theorem em_failed_is_retried:
  assumes "gw_em_failed (Some jid) w = Some w1"
    and "gw_job_pool_get w jid = Some j" and "job_history j = r # rs" and "job_job_state j \<in> execution_states"
    and "hist_tries r < jt_number_of_retries (job_template j)" and "0 \<le> hist_tries r"
    and "0 \<le> jid" and "jid < conf_number_of_jobs (w_conf w)"
  shows "w_dm w1 = w_dm w \<and> (\<exists>w2. em_ticks n w1 = Some w2 \<and> submissions jid w2 =
     submissions jid w + (if 1 \<le> hist_tries r \<and> hist_tries r \<le> int n then 1 else 0))"
proof -
  have w1: "waits (hist_tries r) jid w1" "w_dm w1 = w_dm w" "w_em w1 = w_em w" "w_conf w1 = w_conf w"
    using em_failed_waits [OF assms(1-5)] by simp_all
  moreover obtain w2 where w2: "em_ticks n w1 = Some w2" using em_ticks_total by blast
  ultimately show ?thesis
    using em_ticks_waits [OF w2 w1(1)] assms(6-8) by (simp add: submissions_def)
qed

section \<open>Examples\<close>

text \<open>The example job in its wrapper, its newest record with \<open>n\<close> tries.\<close>

definition example_execution :: "gw_em_state \<Rightarrow> int \<Rightarrow> gw_job" where
  "example_execution e n = example_job\<lparr>job_em_state := e, job_job_state := GW_JOB_STATE_WRAPPER,
     job_history := [example_record\<lparr>hist_tries := n, hist_cancel_tries := 0\<rparr>]\<rparr>"

definition running_world :: "gw_em_state \<Rightarrow> int \<Rightarrow> gwd" where
  "running_world e n = put_job 0 (example_execution e n) example_world"

lemma running_world_sel [simp]:
  "gw_job_pool_get (running_world e n) i = (if i = 0 then Some (example_execution e n) else None)"
  "job_history (example_execution e n) = [example_record\<lparr>hist_tries := n, hist_cancel_tries := 0\<rparr>]"
  "job_job_state (example_execution e n) = GW_JOB_STATE_WRAPPER" "job_em_state (example_execution e n) = e"
  "job_template (example_execution e n) = job_template example_job"
  "w_conf (running_world e n) = example_conf" "w_em (running_world e n) = []"
  by (simp_all add: running_world_def example_execution_def) (simp add: example_world_def)

lemma example_host_pooled: "pool_get (w_hosts (running_world e n)) 0 = Some example_host"
  by (simp add: running_world_def example_world_def pool_get_def slot_def)

lemma example_runs:
  "gw_em_active (Some 0) (running_world GW_EM_STATE_PENDING n) \<noteq> None"
  "gw_em_failed (Some 0) (running_world GW_EM_STATE_PENDING n) \<noteq> None"
proof -
  have "hist_host example_record = 0" by (simp add: example_record_def)
  note ops = this with_job_def recancel_def leave_active_def add_time_def stamp_def upd_hist_def hist_at_def
    em_state_to_def upd_job_def inc_ajobs_def on_hist_host_def on_host_def example_host_pooled cancel_states_def
  show "gw_em_active (Some 0) (running_world GW_EM_STATE_PENDING n) \<noteq> None"
    by (simp add: gw_em_active_def ops Let_def split: prod.split)
  show "gw_em_failed (Some 0) (running_world GW_EM_STATE_PENDING n) \<noteq> None"
    by (simp add: gw_em_failed_def ops)
qed

lemma example_submits: "gw_em_submit (Some 0) (running_world GW_EM_STATE_INIT 0) \<noteq> None"
  by code_simp

theorem em_reports_count_active_witness:
  "\<exists>w'. gw_em_active (Some 0) (running_world GW_EM_STATE_PENDING 1) = Some w'
     \<and> exec_at 0 0 (hist_queue example_record) (count_active 1 (hist_queue example_record) example_host)
         GW_EM_STATE_ACTIVE w'"
proof -
  obtain w' where w': "gw_em_active (Some 0) (running_world GW_EM_STATE_PENDING 1) = Some w'"
    using example_runs(1) by blast
  have "exec_at 0 0 (hist_queue example_record) example_host GW_EM_STATE_PENDING
      (running_world GW_EM_STATE_PENDING 1)"
    by (simp add: exec_at_def example_host_pooled) (simp add: example_record_def)
  note active = this
  have "exec_at 0 0 (hist_queue example_record) (count_active 1 (hist_queue example_record) example_host)
      GW_EM_STATE_ACTIVE w'"
    using em_reports_count_active [where f = gw_em_active, OF _ _ active w', of "''GW_EM_STATE_ACTIVE''" GW_EM_STATE_ACTIVE]
    by (simp add: em_target_def em_handler_def em_table_def active_one_def)
  with w' show ?thesis by blast
qed

theorem em_submit_once_witness:
  "\<exists>w' job'. gw_em_submit (Some 0) (running_world GW_EM_STATE_INIT 0) = Some w'
     \<and> gw_job_pool_get w' 0 = Some job' \<and> job_em_state job' \<in> {GW_EM_STATE_INIT, GW_EM_STATE_FAILED}"
proof -
  obtain w' where w': "gw_em_submit (Some 0) (running_world GW_EM_STATE_INIT 0) = Some w'"
    using example_submits by blast
  from em_submit_once [OF this, of "example_execution GW_EM_STATE_INIT 0"] w' show ?thesis by auto
qed

theorem em_job_gone_witness:
  "gw_em_submit (Some 1) example_world = None"
  using em_job_gone [of example_world 1 "''GW_EM_SUBMIT''" gw_em_submit]
  by (simp add: em_handler_def em_table_def)

theorem em_cancel_gives_up_witness:
  "\<exists>w'. cancels 5 0 (running_world GW_EM_STATE_PENDING 1) = Some w'
     \<and> w_em w' = replicate 2 (''GW_EM_STATE_DONE'', Some 0)"
  using em_cancel_gives_up [of "running_world GW_EM_STATE_PENDING 1" 0 "example_execution GW_EM_STATE_PENDING 1"
      "example_record\<lparr>hist_tries := 1, hist_cancel_tries := 0\<rparr>" "[]" 0 5]
  by (simp add: eval_nat_numeral)

theorem em_failed_is_retried_witness:
  "\<exists>w1 w2. gw_em_failed (Some 0) (running_world GW_EM_STATE_PENDING 2) = Some w1 \<and> em_ticks 3 w1 = Some w2
     \<and> submissions 0 w2 = 1"
proof -
  obtain w1 where w: "gw_em_failed (Some 0) (running_world GW_EM_STATE_PENDING 2) = Some w1"
    using example_runs(2) by blast
  have "jt_number_of_retries (job_template example_job) = 3"
    by (simp add: example_job_def gw_job_template_init_def example_template_def)
  with em_failed_is_retried [OF w, of "example_execution GW_EM_STATE_PENDING 2" _ _ 3] w show ?thesis
    by (simp add: execution_states_def submissions_def)
qed

end
