(* ===== verification/Gw_Daemon.thy ===== *)
theory Gw_Daemon
  imports Tm_Manager Em_Manager
begin

text \<open>
  The daemon as a whole, \<open>src/gwd/gwd.c\<close>: the dispatch, execution and transfer
  managers, each a thread with its queue of actions, its timer and, the last two, a
  listener for the drivers.  Every handler holds the lock of its job, so a run is an
  interleaving of whole operations.  The step relation names the manager that takes
  the step; \<open>OUTSIDE\<close> are clients, the scheduler, the clock and the file system.
  The theorem is that the execution and the transfer manager are what the theory of
  the dispatch manager assumed of them.
\<close>

section \<open>Steps\<close>

datatype manager = DM | EM | TM | OUTSIDE

inductive daemon_step :: "manager \<Rightarrow> gwd \<Rightarrow> gwd \<Rightarrow> bool" where
  dm_action: "\<lbrakk>w_dm w = (name, arg) # q; dm_handler name = Some h; h arg (w\<lparr>w_dm := q\<rparr>) = Some w'\<rbrakk>
     \<Longrightarrow> daemon_step DM w w'"
| dm_submit: "gw_dm_jalloc msg w = Some w' \<Longrightarrow> daemon_step DM w w'"
| dm_submit_array: "gw_dm_aalloc msg w = Some w' \<Longrightarrow> daemon_step DM w w'"
| dm_timer: "gw_dm_schedule w = Some w' \<Longrightarrow> daemon_step DM w w'"
| dm_answer: "dm_listener_message action s_id result info w = Some w' \<Longrightarrow> daemon_step DM w w'"
| em_action: "\<lbrakk>w_em w = (name, arg) # q; em_handler name = Some h; h arg (w\<lparr>w_em := q\<rparr>) = Some w'\<rbrakk>
     \<Longrightarrow> daemon_step EM w w'"
| em_timer: "gw_em_timer w = Some w' \<Longrightarrow> daemon_step EM w w'"
| em_line: "gw_em_listener str (words, w) = Some (words', w') \<Longrightarrow> daemon_step EM w w'"
| em_end: "em_closed mad w = Some w' \<Longrightarrow> daemon_step EM w w'"
| tm_action: "\<lbrakk>w_tm w = (name, arg) # q; tm_handler name = Some h; h arg (w\<lparr>w_tm := q\<rparr>) = Some w'\<rbrakk>
     \<Longrightarrow> daemon_step TM w w'"
| tm_timer: "gw_tm_timer w = Some w' \<Longrightarrow> daemon_step TM w w'"
| tm_line: "gw_tm_listener mad str (words, w) = Some (words', w') \<Longrightarrow> daemon_step TM w w'"
| tm_end: "daemon_step TM w (tm_closed mad w)"
| request: "name \<in> set dm_names \<Longrightarrow> daemon_step OUTSIDE w (trigger_dm name (Some jid) w)"
| reply_sent: "w_rm w = p # q \<Longrightarrow> daemon_step OUTSIDE w (w\<lparr>w_rm := q\<rparr>)"
| environment: "\<lbrakk>w_jobs w' = w_jobs w; w_deps w' = w_deps w; w_conf w' = w_conf w; w_dm w' = w_dm w;
     w_em w' = w_em w; w_tm w' = w_tm w; w_rm w' = w_rm w\<rbrakk> \<Longrightarrow> daemon_step OUTSIDE w w'"

inductive_cases daemon_dmE: "daemon_step DM w w'"
inductive_cases daemon_emE: "daemon_step EM w w'"
inductive_cases daemon_tmE: "daemon_step TM w w'"
inductive_cases daemon_outE: "daemon_step OUTSIDE w w'"

section \<open>The execution and the transfer manager are quiet\<close>

lemma then_quiet: "quiet_step w w1 \<Longrightarrow> w' = w1 \<or> quiet_step w1 w' \<Longrightarrow> quiet_step\<^sup>*\<^sup>* w w'"
  by auto

lemma em_quiet: "daemon_step EM w w' \<Longrightarrow> quiet_step\<^sup>*\<^sup>* w w'"
proof (elim daemon_emE)
  fix name arg q h assume h: "w_em w = (name, arg) # q" "em_handler name = Some h"
    "h arg (w\<lparr>w_em := q\<rparr>) = Some w'"
  have "w' = w\<lparr>w_em := q\<rparr> \<or> quiet_step (w\<lparr>w_em := q\<rparr>) w'"
    using h(2,3) em_handler_null [OF h(2)] quiet_work [OF em_handler_step [OF h(2)]] by (cases arg) auto
  then show ?thesis by (rule then_quiet [OF quiet_step.taken_em [OF h(1)]])
next
  assume "gw_em_timer w = Some w'"
  then show ?thesis unfolding gw_em_timer_def by (rule em_timer.sweep_quiet)
next
  fix str words words' assume "gw_em_listener str (words, w) = Some (words', w')"
  then have "em_message words' w = Some w'" by (auto simp: gw_em_listener_def bind_Some_iff)
  then show ?thesis using step_em_message [of "{}" w words'] by (blast intro: quiet_work)
next
  fix mad assume "em_closed mad w = Some w'"
  then show ?thesis
    by (auto simp: em_closed_def gw_job_pool_em_recover_def split: if_splits intro: em_recovery.sweep_quiet)
qed

lemma tm_handler_step: "tm_handler name = Some h \<Longrightarrow> keeps (job_step jid S w) (h (Some jid) w)"
  by (auto simp: tm_handler_def step_tm_actions split: if_splits)

lemma tm_handler_null: "tm_handler name = Some h \<Longrightarrow> h None w = Some w"
  by (auto simp: tm_handler_def gw_tm_prolog_def gw_tm_epilog_def with_job_def split: if_splits)

lemma tm_quiet: "daemon_step TM w w' \<Longrightarrow> quiet_step\<^sup>*\<^sup>* w w'"
proof (elim daemon_tmE)
  fix name arg q h assume h: "w_tm w = (name, arg) # q" "tm_handler name = Some h"
    "h arg (w\<lparr>w_tm := q\<rparr>) = Some w'"
  have "w' = w\<lparr>w_tm := q\<rparr> \<or> quiet_step (w\<lparr>w_tm := q\<rparr>) w'"
    using h(2,3) tm_handler_null [OF h(2)] quiet_work [OF tm_handler_step [OF h(2)]] by (cases arg) auto
  then show ?thesis by (rule then_quiet [OF quiet_step.taken_tm [OF h(1)]])
next
  assume "gw_tm_timer w = Some w'"
  then show ?thesis unfolding gw_tm_timer_def by (rule tm_timer.sweep_quiet)
next
  fix mad str words words' assume "gw_tm_listener mad str (words, w) = Some (words', w')"
  then have "tm_message mad words' w = Some w'" by (auto simp: gw_tm_listener_def bind_Some_iff)
  then show ?thesis using step_tm_message [of "{}" w mad words'] by (blast intro: quiet_work)
next
  fix mad assume "w' = tm_closed mad w"
  then show ?thesis
    by (simp add: tm_closed_def gw_job_pool_tm_recover_def quiet_recover_from)
qed

section \<open>Refinement\<close>

lemma dm_simulated: "daemon_step DM w w' \<Longrightarrow> gwd_step w w'"
  by (elim daemon_dmE) (auto intro: gwd_step.intros)

lemma outside_simulated: "daemon_step OUTSIDE w w' \<Longrightarrow> gwd_step w w'"
proof (elim daemon_outE)
  fix p q assume "w_rm w = p # q" "w' = w\<lparr>w_rm := q\<rparr>"
  then show ?thesis using gwd_step.taken [of w "[]" "w_em w" "[]" "w_tm w" "[p]" q] by simp
qed (auto intro: gwd_step.post gwd_step.environment)

lemma daemon_simulated: "daemon_step m w w' \<Longrightarrow> gwd_step\<^sup>*\<^sup>* w w'"
  by (cases m) (auto dest: dm_simulated outside_simulated intro: quiet_run_gwd em_quiet tm_quiet)

text \<open>A run of the daemon, whoever takes the steps.\<close>

definition daemon_run :: "gwd \<Rightarrow> gwd \<Rightarrow> bool" where
  "daemon_run = (\<lambda>w w'. \<exists>m. daemon_step m w w')\<^sup>*\<^sup>*"

lemma daemon_run_gwd: "daemon_run w w' \<Longrightarrow> gwd_step\<^sup>*\<^sup>* w w'"
  unfolding daemon_run_def
  by (induction rule: rtranclp_induct) (auto dest: daemon_simulated intro: rtranclp_trans)

text \<open>C7 (refinement).  Every step of the daemon, of whichever manager, is a sequence of steps of the
  abstract system in which the execution and transfer managers are only known by their
  contract; and a step of these two changes neither the state of a job nor its
  identifier, the dependencies, the arrays and the configuration.\<close>

theorem daemon_refines:
  assumes "daemon_step m w w'"
  shows "gwd_step\<^sup>*\<^sup>* w w' \<and> (m \<in> {EM, TM} \<longrightarrow> same_jobs w w')"
  using daemon_simulated [OF assms] assms em_quiet tm_quiet by (auto intro: quiet_run_same)

lemma queue_handled:
  assumes "fst ` set q \<subseteq> set names" and "\<And>name. name \<in> set names \<longleftrightarrow> handler name \<noteq> None"
  shows "\<forall>(name, arg) \<in> set q. handler name \<noteq> None"
  using assms by fastforce

text \<open>C1 (invariant).  In every run of the daemon from its start the jobs stand under their
  identifiers, the dependency matrix has rows only for jobs that exist, and whatever is
  in the queue of a manager is an action that manager has a function for.\<close>

theorem daemon_run_invariant:
  assumes "0 \<le> conf_number_of_jobs (w_conf w)" and "(w_jobs w, w_deps w) = gw_job_pool_init (w_conf w)"
    and "w_dm w = [] \<and> w_em w = [] \<and> w_tm w = [] \<and> w_rm w = []" and "daemon_run w w'"
  shows "job_pool_wf w' \<and> deps_wf w'
   \<and> (\<forall>(name, arg) \<in> set (w_dm w'). dm_handler name \<noteq> None)
   \<and> (\<forall>(name, arg) \<in> set (w_em w'). em_handler name \<noteq> None)
   \<and> (\<forall>(name, arg) \<in> set (w_tm w'). tm_handler name \<noteq> None)"
proof -
  have wf: "dm_wf w'"
    by (rule dm_wf_run [OF daemon_run_gwd [OF assms(4)] dm_wf_init [OF assms(1-3)]])
  then have "fst ` set (w_dm w') \<subseteq> set dm_names" "fst ` set (w_em w') \<subseteq> set em_names"
    "fst ` set (w_tm w') \<subseteq> set tm_names" by (auto simp: dm_wf_def known_queues_def)
  with wf show ?thesis
    unfolding dm_wf_def
    by (intro conjI queue_handled [OF _ dm_names_handled] queue_handled [OF _ em_names_handled]
        queue_handled [OF _ tm_names_handled]) simp_all
qed

section \<open>Examples\<close>

theorem daemon_refines_witness:
  "\<exists>w w'. w_em w = [(''GW_EM_STATE_ACTIVE'', Some 0)] \<and> daemon_step EM w w' \<and> gwd_step\<^sup>*\<^sup>* w w' \<and> same_jobs w w'"
proof -
  let ?r = "running_world GW_EM_STATE_PENDING 1"
  let ?w = "trigger_em ''GW_EM_STATE_ACTIVE'' (Some 0) ?r"
  have em: "w_em ?w = [(''GW_EM_STATE_ACTIVE'', Some 0)]" by (simp add: trigger_em_def)
  have taken: "?w\<lparr>w_em := []\<rparr> = ?r"
    using running_world_sel(7) [of GW_EM_STATE_PENDING 1] by (cases ?r) (simp add: trigger_em_def)
  obtain w' where "gw_em_active (Some 0) ?r = Some w'" using example_runs(1) by blast
  then have "daemon_step EM ?w w'"
    using daemon_step.em_action [OF em, of gw_em_active w'] taken by (simp add: em_handler_def em_table_def)
  with daemon_refines [OF this] em show ?thesis by blast
qed

theorem daemon_run_invariant_witness:
  "\<exists>w'. daemon_run example_start w' \<and> gw_job_pool_get w' 0 \<noteq> None \<and> deps_wf w'
     \<and> (''GW_DM_HOLD'', Some 0) \<in> set (w_dm w') \<and> dm_handler ''GW_DM_HOLD'' \<noteq> None"
proof -
  obtain w1 where w1: "gw_dm_jalloc example_msg example_start = Some w1" "gw_job_pool_get w1 0 \<noteq> None"
    using example_submission by auto
  let ?w = "trigger_dm ''GW_DM_HOLD'' (Some 0) w1"
  have "daemon_step DM example_start w1" using w1(1) by (rule daemon_step.dm_submit)
  moreover have "daemon_step OUTSIDE w1 ?w" by (rule daemon_step.request) (simp add: dm_names_def)
  ultimately have run: "daemon_run example_start ?w"
    unfolding daemon_run_def by (blast intro: rtranclp.rtrancl_into_rtrancl)
  have "(''GW_DM_HOLD'', Some 0) \<in> set (w_dm ?w)" by (simp add: trigger_dm_def)
  with daemon_run_invariant [OF example_start_init(1,3,2) run] run w1(2) show ?thesis by fastforce
qed

end
