(* ===== verification/Gw_Float.thy ===== *)
theory Gw_Float
  imports Gw_Prelude Complex_Main "HOL-Library.Log_Nat"
begin

text \<open>
  The floating point numbers of C, as the scheduler's policies use them: IEEE
  binary32 (\<open>float\<close>) and binary64 (\<open>double\<close>), each operation the exact result
  rounded to the nearest representable number, ties to even, with signed zeros,
  infinities and not-a-number.  A \<open>float\<close> expression is evaluated in \<open>float\<close>
  (\<open>FLT_EVAL_METHOD\<close> 0, as on x86-64).  The lemmas show that rounding is monotone and
  exact on representable numbers, and what that gives for quotients and weighted sums.
\<close>

section \<open>Rounding\<close>

text \<open>Round half to even.\<close>

definition rhe :: "rat \<Rightarrow> int" where
  "rhe x = (let n = \<lfloor>x\<rfloor>; d = x - of_int n in
     if d < 1 / 2 then n else if d > 1 / 2 then n + 1 else if even n then n else n + 1)"

text \<open>The binary exponent of a positive number: \<open>2 powi expo x \<le> x < 2 powi (expo x + 1)\<close>.\<close>

definition expo :: "rat \<Rightarrow> int" where
  "expo x = (let (p, q) = quotient_of x;
       e = int (floorlog 2 (nat p)) - int (floorlog 2 (nat q)) in
     if 2 powi e \<le> x then e else e - 1)"

text \<open>A format: the bits of the significand, the least and the greatest exponent.\<close>

type_synonym fmt = "nat \<times> int \<times> int"

definition binary32 :: fmt where "binary32 = (24, - 126, 127)"
definition binary64 :: fmt where "binary64 = (53, - 1022, 1023)"

definition ulp :: "fmt \<Rightarrow> rat \<Rightarrow> rat" where
  "ulp f x = (case f of (p, emin, emax) \<Rightarrow> 2 powi (max (expo x) emin - (int p - 1)))"

definition rnd :: "fmt \<Rightarrow> rat \<Rightarrow> rat" where
  "rnd f x = of_int (rhe (x / ulp f x)) * ulp f x"

section \<open>Values and operations\<close>

datatype flt = Fin rat | NZero | Inf bool | NaN

definition f_neg :: "flt \<Rightarrow> bool" where
  "f_neg a = (case a of Fin r \<Rightarrow> r < 0 | NZero \<Rightarrow> True | Inf s \<Rightarrow> s | NaN \<Rightarrow> False)"

definition f_val :: "flt \<Rightarrow> rat" where
  "f_val a = (case a of Fin r \<Rightarrow> r | _ \<Rightarrow> 0)"

definition f_is_inf :: "flt \<Rightarrow> bool" where
  "f_is_inf a = (case a of Inf s \<Rightarrow> True | _ \<Rightarrow> False)"

definition f_finite :: "flt \<Rightarrow> bool" where
  "f_finite a = (case a of Fin r \<Rightarrow> True | NZero \<Rightarrow> True | _ \<Rightarrow> False)"

definition f_zero :: "bool \<Rightarrow> flt" where
  "f_zero neg = (if neg then NZero else Fin 0)"

text \<open>The exact result \<open>x\<close> in the format; \<open>neg\<close> is the sign of an exact zero.\<close>

definition fl :: "fmt \<Rightarrow> bool \<Rightarrow> rat \<Rightarrow> flt" where
  "fl f neg x =
     (if x = 0 then f_zero neg
      else let r = rnd f \<bar>x\<bar> in
        if r \<ge> 2 powi (snd (snd f) + 1) then Inf (x < 0)
        else if r = 0 then f_zero (x < 0)
        else Fin (if x < 0 then - r else r))"

definition fadd :: "fmt \<Rightarrow> flt \<Rightarrow> flt \<Rightarrow> flt" where
  "fadd f a b =
     (if a = NaN \<or> b = NaN then NaN
      else if f_is_inf a then if f_is_inf b \<and> a \<noteq> b then NaN else a
      else if f_is_inf b then b
      else fl f (f_neg a \<and> f_neg b) (f_val a + f_val b))"

definition fminus :: "flt \<Rightarrow> flt" where
  "fminus a = (case a of Fin r \<Rightarrow> if r = 0 then NZero else Fin (- r)
     | NZero \<Rightarrow> Fin 0 | Inf s \<Rightarrow> Inf (\<not> s) | NaN \<Rightarrow> NaN)"

definition fsub :: "fmt \<Rightarrow> flt \<Rightarrow> flt \<Rightarrow> flt" where
  "fsub f a b = fadd f a (fminus b)"

definition fmul :: "fmt \<Rightarrow> flt \<Rightarrow> flt \<Rightarrow> flt" where
  "fmul f a b =
     (if a = NaN \<or> b = NaN then NaN
      else if f_is_inf a \<or> f_is_inf b then
        if (f_finite a \<and> f_val a = 0) \<or> (f_finite b \<and> f_val b = 0) then NaN
        else Inf (f_neg a \<noteq> f_neg b)
      else fl f (f_neg a \<noteq> f_neg b) (f_val a * f_val b))"

definition fdiv :: "fmt \<Rightarrow> flt \<Rightarrow> flt \<Rightarrow> flt" where
  "fdiv f a b =
     (if a = NaN \<or> b = NaN \<or> (f_is_inf a \<and> f_is_inf b) then NaN
      else if f_is_inf a then Inf (f_neg a \<noteq> f_neg b)
      else if f_is_inf b then f_zero (f_neg a \<noteq> f_neg b)
      else if f_val b = 0 then if f_val a = 0 then NaN else Inf (f_neg a \<noteq> f_neg b)
      else fl f (f_neg a \<noteq> f_neg b) (f_val a / f_val b))"

definition f_of_int :: "fmt \<Rightarrow> int \<Rightarrow> flt" where
  "f_of_int f i = fl f False (of_int i)"

text \<open>A value read in another format (a \<open>double\<close> result stored into a \<open>float\<close>).\<close>

definition f_conv :: "fmt \<Rightarrow> flt \<Rightarrow> flt" where
  "f_conv f a = (case a of Fin r \<Rightarrow> fl f False r | _ \<Rightarrow> a)"

text \<open>Conversion to an integer type truncates; out of its range it is undefined.\<close>

definition f_trunc :: "nat \<Rightarrow> flt \<Rightarrow> int option" where
  "f_trunc w a = (if f_finite a then
       let i = (if f_val a < 0 then \<lceil>f_val a\<rceil> else \<lfloor>f_val a\<rfloor>) in
       if - (2 ^ (w - 1)) \<le> i \<and> i < 2 ^ (w - 1) then Some i else None
     else None)"

definition f_lt :: "flt \<Rightarrow> flt \<Rightarrow> bool" where
  "f_lt a b =
     (if a = NaN \<or> b = NaN then False
      else if f_is_inf a then f_neg a \<and> a \<noteq> b
      else if f_is_inf b then \<not> f_neg b
      else f_val a < f_val b)"

definition f_le :: "flt \<Rightarrow> flt \<Rightarrow> bool" where
  "f_le a b \<longleftrightarrow> a \<noteq> NaN \<and> b \<noteq> NaN \<and> \<not> f_lt b a"

definition f_eq0 :: "flt \<Rightarrow> bool" where
  "f_eq0 a \<longleftrightarrow> f_finite a \<and> f_val a = 0"

section \<open>Rounding is monotone and exact on representable numbers\<close>

lemma rhe_of_int [simp]: "rhe (of_int i) = i"
  by (simp add: rhe_def)

lemma rhe_near: "\<bar>of_int (rhe x) - x\<bar> \<le> 1 / 2"
proof -
  have "of_int \<lfloor>x\<rfloor> \<le> x" and "x < of_int \<lfloor>x\<rfloor> + 1" by linarith+
  then show ?thesis by (auto simp: rhe_def Let_def)
qed

lemma rhe_mono: "x \<le> y \<Longrightarrow> rhe x \<le> rhe y"
proof -
  assume xy: "x \<le> y"
  then have fl: "\<lfloor>x\<rfloor> \<le> \<lfloor>y\<rfloor>" by (rule floor_mono)
  have up: "rhe x \<le> \<lfloor>x\<rfloor> + 1" and lo: "\<lfloor>y\<rfloor> \<le> rhe y"
    by (auto simp: rhe_def Let_def)
  show ?thesis
  proof (cases "\<lfloor>x\<rfloor> = \<lfloor>y\<rfloor>")
    case True
    with xy show ?thesis by (auto simp: rhe_def Let_def)
  next
    case False
    with fl have "\<lfloor>x\<rfloor> + 1 \<le> \<lfloor>y\<rfloor>" by linarith
    with up lo show ?thesis by linarith
  qed
qed

lemma powi_less: "(2 :: rat) powi a < 2 powi b \<longleftrightarrow> a < b"
  using power_int_strict_increasing [of a b "2 :: rat"] power_int_increasing [of b a "2 :: rat"]
  by (cases "a < b") (auto simp: not_less)

lemma powi_le: "(2 :: rat) powi a \<le> 2 powi b \<longleftrightarrow> a \<le> b"
  using powi_less [of b a] by linarith

lemma floorlog_powi:
  "0 < n \<Longrightarrow> (2 :: rat) powi (int (floorlog 2 n) - 1) \<le> of_nat n \<and>
     of_nat n < (2 :: rat) powi int (floorlog 2 n)"
proof -
  assume n: "0 < n"
  then have "2 ^ (floorlog 2 n - 1) \<le> n" and "n < 2 ^ floorlog 2 n"
    using Log_Nat.floorlog_bounds [of n 2] by auto
  moreover from n have "0 < floorlog 2 n" by (simp add: floorlog_def)
  ultimately have "(2 ^ (floorlog 2 n - 1) :: rat) \<le> of_nat n"
    and "(of_nat n :: rat) < 2 ^ floorlog 2 n"
    by (metis of_nat_le_iff of_nat_numeral of_nat_power)
       (metis \<open>n < 2 ^ floorlog 2 n\<close> of_nat_less_iff of_nat_numeral of_nat_power)
  with \<open>0 < floorlog 2 n\<close> show ?thesis
    by (simp add: power_int_def nat_diff_distrib)
qed

lemma expo_bounds:
  assumes "0 < x"
  shows "2 powi expo x \<le> x \<and> x < 2 powi (expo x + 1)"
proof -
  obtain p q where pq: "quotient_of x = (p, q)" by fastforce
  then have q: "0 < q" and x: "x = of_int p / of_int q"
    by (auto intro: quotient_of_denom_pos quotient_of_div)
  with assms have p: "0 < p" by (auto simp: zero_less_divide_iff)
  let ?a = "int (floorlog 2 (nat p))" and ?b = "int (floorlog 2 (nat q))"
  have P: "2 powi (?a - 1) \<le> (of_int p :: rat)" "(of_int p :: rat) < 2 powi ?a"
    using floorlog_powi [of "nat p"] p by auto
  have Q: "2 powi (?b - 1) \<le> (of_int q :: rat)" "(of_int q :: rat) < 2 powi ?b"
    using floorlog_powi [of "nat q"] q by auto
  have "x < 2 powi ?a / 2 powi (?b - 1)"
    unfolding x using P Q p q by (intro frac_less) auto
  also have "\<dots> = 2 powi (?a - ?b + 1)"
    by (simp add: power_int_diff power_int_add)
  finally have hi: "x < 2 powi (?a - ?b + 1)" .
  have "2 powi (?a - ?b - 1) = 2 powi (?a - 1) / (2 powi ?b :: rat)"
    by (simp add: power_int_diff)
  also have "\<dots> \<le> x"
    unfolding x using P Q p q by (intro frac_le) auto
  finally have lo: "2 powi (?a - ?b - 1) \<le> x" .
  show ?thesis
    using hi lo by (simp add: expo_def pq Let_def)
qed

lemma expo_eq: "0 < x \<Longrightarrow> 2 powi e \<le> x \<Longrightarrow> x < 2 powi (e + 1) \<Longrightarrow> expo x = e"
proof -
  assume "0 < x" "2 powi e \<le> x" "x < 2 powi (e + 1)"
  with expo_bounds [of x] have "(2 :: rat) powi e < 2 powi (expo x + 1)"
    and "(2 :: rat) powi expo x < 2 powi (e + 1)" by linarith+
  then show ?thesis by (simp add: powi_less)
qed

lemma expo_mono: "0 < x \<Longrightarrow> x \<le> y \<Longrightarrow> expo x \<le> expo y"
proof -
  assume "0 < x" "x \<le> y"
  with expo_bounds [of x] expo_bounds [of y] have "(2 :: rat) powi expo x < 2 powi (expo y + 1)"
    by linarith
  then show ?thesis by (simp add: powi_less)
qed

lemma ulp_pos [simp]: "0 < ulp f x"
  by (cases f) (simp add: ulp_def)

lemma ulp_nonneg [simp]: "0 \<le> ulp f x"
  using ulp_pos [of f x] by linarith

text \<open>A number is representable if it is a whole number of units in the last place.\<close>

lemma rnd_exact: "x = of_int m * ulp f x \<Longrightarrow> rnd f x = x"
proof -
  assume x: "x = of_int m * ulp f x"
  have "ulp f x \<noteq> 0" using ulp_pos [of f x] by linarith
  with x have "x / ulp f x = of_int m" by (metis nonzero_mult_div_cancel_right)
  with x show ?thesis by (simp add: rnd_def)
qed

definition fmt_ok :: "fmt \<Rightarrow> bool" where
  "fmt_ok f = (case f of (p, emin, emax) \<Rightarrow> 0 < p \<and> emin \<le> 0 \<and> 0 \<le> emax)"

lemma fmt_ok_formats [simp]: "fmt_ok binary32" "fmt_ok binary64"
  by (simp_all add: fmt_ok_def binary32_def binary64_def)

lemma rnd_nonneg: "0 \<le> x \<Longrightarrow> 0 \<le> rnd f x"
proof -
  assume "0 \<le> x"
  then have "rhe 0 \<le> rhe (x / ulp f x)"
    using ulp_pos [of f x] by (intro rhe_mono) (simp add: divide_nonneg_pos)
  moreover have "rhe 0 = 0" using rhe_of_int [of 0] by simp
  ultimately show ?thesis by (simp add: rnd_def)
qed

lemma rhe_of_nat_powi:
  "0 \<le> k \<Longrightarrow> rhe (2 powi k) = 2 ^ nat k"
  using rhe_of_int [of "2 ^ nat k"] by (simp add: power_int_def)

lemma rnd_mono:
  assumes f: "fmt_ok f" and x: "0 < x" and xy: "x \<le> y"
  shows "rnd f x \<le> rnd f y"
proof -
  obtain p emin emax where F [simp]: "f = (p, emin, emax)" by (cases f)
  from f have p: "0 < p" by (simp add: fmt_ok_def)
  let ?a = "max (expo x) emin" and ?b = "max (expo y) emin"
  let ?d = "int p - 1"
  have ab: "?a \<le> ?b" using expo_mono [OF x xy] by linarith
  have ux: "ulp f x = 2 powi (?a - ?d)" and uy: "ulp f y = 2 powi (?b - ?d)"
    by (simp_all add: ulp_def)
  show ?thesis
  proof (cases "?a = ?b")
    case True
    have "rhe (x / ulp f x) \<le> rhe (y / ulp f x)"
      using xy ulp_pos [of f x] by (intro rhe_mono divide_right_mono) auto
    moreover from True have "ulp f y = ulp f x" unfolding ux uy by simp
    ultimately show ?thesis
      unfolding rnd_def by (simp add: mult_right_mono)
  next
    case False
    with ab have lt: "?a + 1 \<le> ?b" by linarith
    then have "?b = expo y" by linarith
    with expo_bounds [of y] x xy have y: "2 powi ?b \<le> y" by auto
    have "x < 2 powi (expo x + 1)" using expo_bounds [OF x] by simp
    also have "\<dots> \<le> 2 powi (?a + 1)" by (simp add: powi_le)
    finally have "x \<le> 2 powi (?a + 1)" by simp
    then have "rhe (x / ulp f x) \<le> rhe (2 powi (?a + 1) / ulp f x)"
      using ulp_pos [of f x] by (intro rhe_mono divide_right_mono) auto
    also have "2 powi (?a + 1) / ulp f x = 2 powi int p"
      unfolding ux by (simp flip: power_int_diff)
    also have "rhe (2 powi int p) = 2 ^ p" using rhe_of_nat_powi [of "int p"] by simp
    finally have "of_int (rhe (x / ulp f x)) \<le> (2 ^ p :: rat)"
      by (metis of_int_le_iff of_int_numeral of_int_power)
    then have "rnd f x \<le> 2 ^ p * ulp f x"
      using ulp_pos [of f x] unfolding rnd_def by (intro mult_right_mono) auto
    also have "\<dots> = 2 powi (?a + 1)"
      unfolding ux using p by (simp add: power_int_add power_int_diff)
    also have "\<dots> \<le> 2 powi ?b" using lt by (simp only: powi_le)
    also have "\<dots> = 2 powi ?d * ulp f y"
      unfolding uy by (simp flip: power_int_add)
    also have "2 powi ?d = (2 ^ (p - 1) :: rat)"
      using p by (simp add: power_int_def nat_diff_distrib)
    also have "2 ^ (p - 1) * ulp f y \<le> rnd f y"
    proof -
      have "2 ^ (p - 1) = rhe (2 powi ?b / ulp f y)"
        unfolding uy using p rhe_of_nat_powi [of ?d]
        by (simp add: nat_diff_distrib flip: power_int_diff)
      also have "\<dots> \<le> rhe (y / ulp f y)"
        using y ulp_pos [of f y] by (intro rhe_mono divide_right_mono) auto
      finally have "(2 ^ (p - 1) :: rat) \<le> of_int (rhe (y / ulp f y))"
        by (metis of_int_le_iff of_int_numeral of_int_power)
      then show ?thesis
        using ulp_pos [of f y] unfolding rnd_def by (intro mult_right_mono) auto
    qed
    finally show ?thesis .
  qed
qed

lemma rnd_powi:
  assumes "fmt_ok f" and "0 \<le> k"
  shows "rnd f (2 powi k) = 2 powi k"
proof (rule rnd_exact [of _ "2 ^ (fst f - 1)"])
  obtain p emin emax where F [simp]: "f = (p, emin, emax)" by (cases f)
  have "expo (2 powi k) = k" by (rule expo_eq) (simp_all add: powi_less)
  moreover from assms have "(2 :: rat) ^ (p - 1) = 2 powi (int p - 1)"
    by (simp add: fmt_ok_def power_int_def nat_diff_distrib)
  ultimately show "2 powi k = of_int (2 ^ (fst f - 1)) * ulp f (2 powi k)"
    using assms by (simp add: fmt_ok_def ulp_def flip: power_int_add)
qed

lemma rnd_1 [simp]: "fmt_ok f \<Longrightarrow> rnd f 1 = 1"
  using rnd_powi [of f 0] by simp

section \<open>Order\<close>

lemmas f_simps = f_lt_def f_le_def f_neg_def f_val_def f_is_inf_def f_finite_def f_zero_def f_eq0_def

lemma f_le_iff [simp]:
  "f_le (Fin a) (Fin b) \<longleftrightarrow> a \<le> b" "f_le (Fin a) NZero \<longleftrightarrow> a \<le> 0" "f_le NZero (Fin b) \<longleftrightarrow> 0 \<le> b"
  "f_le NZero NZero" "f_le (Inf True) (Fin a)" "f_le (Inf True) NZero" "f_le (Inf s) (Inf s)"
  "f_le (Inf True) (Inf s)" "f_le (Fin a) (Inf s) \<longleftrightarrow> \<not> s" "f_le NZero (Inf s) \<longleftrightarrow> \<not> s"
  "f_le (Inf False) (Fin a) \<longleftrightarrow> False" "f_le (Inf False) NZero \<longleftrightarrow> False"
  "\<not> f_le NaN x" "\<not> f_le x NaN" "f_le (Inf False) (Inf s) \<longleftrightarrow> \<not> s" "f_le (Inf s) (Inf False)"
  by (auto simp: f_simps)

lemma f_lt_le: "f_lt a b \<longleftrightarrow> f_le a b \<and> \<not> f_le b a"
  by (cases a; cases b) (auto simp: f_simps)

lemma f_not_lt: "a \<noteq> NaN \<Longrightarrow> b \<noteq> NaN \<Longrightarrow> \<not> f_lt a b \<longleftrightarrow> f_le b a"
  by (simp add: f_le_def)

lemma f_le_trans: "f_le a b \<Longrightarrow> f_le b c \<Longrightarrow> f_le a c"
proof -
  have inf: "s = True \<or> s = False" for s :: bool by simp
  assume "f_le a b" "f_le b c"
  then show ?thesis
    by (cases a; cases b; cases c) (use inf in \<open>auto simp: f_simps split: if_splits\<close>)
qed

lemma f_le_refl: "a \<noteq> NaN \<Longrightarrow> f_le a a"
  by (cases a) auto

lemma f_le_total: "a \<noteq> NaN \<Longrightarrow> b \<noteq> NaN \<Longrightarrow> f_le a b \<or> f_le b a"
  by (cases a; cases b) (auto simp: f_simps)

lemma fl_not_NaN [simp]: "fl f s x \<noteq> NaN"
  by (simp add: fl_def f_zero_def Let_def)

lemma fl_nonneg: "0 \<le> x \<Longrightarrow> f_le (Fin 0) (fl f s x)"
  using rnd_nonneg [of x f] by (auto simp: fl_def f_zero_def Let_def)

lemma fl_nonpos: "x \<le> 0 \<Longrightarrow> f_le (fl f s x) (Fin 0)"
  using rnd_nonneg [of "- x" f] by (auto simp: fl_def f_zero_def Let_def)

lemma fl_mono:
  assumes "fmt_ok f" and "x \<le> y"
  shows "f_le (fl f s x) (fl f t y)"
proof (cases "x \<le> 0 \<and> 0 \<le> y")
  case True
  then show ?thesis using fl_nonpos fl_nonneg f_le_trans by blast
next
  case False
  with assms consider "0 < x" "0 < y" | "x < 0" "y < 0" by linarith
  then show ?thesis
  proof cases
    case 1
    with assms rnd_mono [of f x y] rnd_nonneg [of x f] show ?thesis
      by (auto simp: fl_def f_zero_def Let_def)
  next
    case 2
    with assms rnd_mono [of f "- y" "- x"] rnd_nonneg [of "- y" f] show ?thesis
      by (auto simp: fl_def f_zero_def Let_def)
  qed
qed

lemma fl_1 [simp]: "fmt_ok f \<Longrightarrow> fl f s 1 = Fin 1"
proof -
  assume f: "fmt_ok f"
  then have "0 < snd (snd f) + 1" by (auto simp: fmt_ok_def split: prod.splits)
  then have "(2 :: rat) powi 0 < 2 powi (snd (snd f) + 1)" by (simp only: powi_less)
  with f show ?thesis by (simp add: fl_def Let_def)
qed

lemma fl_0 [simp]: "fl f s 0 = f_zero s"
  by (simp add: fl_def)

section \<open>Numbers between zero and one\<close>

definition f_unit :: "flt \<Rightarrow> bool" where
  "f_unit a \<longleftrightarrow> f_le (Fin 0) a \<and> f_le a (Fin 1)"

lemma f_unit_alt: "f_unit a \<longleftrightarrow> f_finite a \<and> 0 \<le> f_val a \<and> f_val a \<le> 1"
proof (cases a)
  case (Inf s)
  then show ?thesis by (cases s) (simp_all add: f_unit_def f_finite_def)
qed (auto simp: f_unit_def f_simps)

lemma fl_unit: "fmt_ok f \<Longrightarrow> 0 \<le> x \<Longrightarrow> x \<le> 1 \<Longrightarrow> f_unit (fl f s x)"
  using fl_nonneg [of x f s] fl_mono [of f x 1 s s] by (simp add: f_unit_def)

lemma f_unit_0 [simp]: "f_unit (Fin 0)" "f_unit NZero" "f_unit (Fin 1)"
  by (simp_all add: f_unit_def)

lemma f_unit_not_NaN: "f_unit a \<Longrightarrow> a \<noteq> NaN"
  by (auto simp: f_unit_def)

lemma f_of_int_mono: "fmt_ok f \<Longrightarrow> i \<le> j \<Longrightarrow> f_le (f_of_int f i) (f_of_int f j)"
  by (simp add: f_of_int_def fl_mono)

lemma f_of_int_nonneg: "0 \<le> i \<Longrightarrow> f_le (Fin 0) (f_of_int f i)"
  by (simp add: f_of_int_def fl_nonneg)

lemma f_of_int_0 [simp]: "f_of_int f 0 = Fin 0"
  by (simp add: f_of_int_def f_zero_def)

lemma f_of_int_1 [simp]: "fmt_ok f \<Longrightarrow> f_of_int f 1 = Fin 1"
  by (simp add: f_of_int_def)

text \<open>A C \<open>int\<close> is far below the greatest number of either format.\<close>

lemma f_of_int_finite:
  assumes "f = binary32 \<or> f = binary64" and "\<bar>i\<bar> \<le> 2 ^ 100"
  shows "f_finite (f_of_int f i)"
proof -
  have f: "fmt_ok f" using assms(1) by auto
  have fin: "f_finite (f_of_int f j) \<and> f_le (f_of_int f j) (f_of_int f (2 ^ 100)) \<or> j > 2 ^ 100"
    if "0 \<le> j" for j
  proof (cases "j \<le> 2 ^ 100")
    case True
    have "rnd f (2 powi 100) = 2 powi 100" using f by (rule rnd_powi) simp
    moreover have "(2 :: rat) powi 100 < 2 powi (snd (snd f) + 1)"
      using assms(1) by (intro iffD2 [OF powi_less]) (auto simp: binary32_def binary64_def)
    ultimately have big: "f_of_int f (2 ^ 100) = Fin (2 ^ 100)"
      by (simp add: f_of_int_def fl_def Let_def power_int_def)
    have "f_le (f_of_int f j) (Fin (2 ^ 100))"
      using f_of_int_mono [OF f True] by (simp only: big)
    moreover have "f_le (Fin 0) (f_of_int f j)" using that by (rule f_of_int_nonneg)
    ultimately have "f_finite (f_of_int f j)"
      by (cases "f_of_int f j") (auto simp: f_simps split: if_splits)
    with True f show ?thesis by (simp add: f_of_int_mono)
  qed simp
  show ?thesis
  proof (cases "0 \<le> i")
    case True
    with fin [of i] assms(2) show ?thesis by simp
  next
    case False
    with fin [of "- i"] assms(2) have "f_finite (f_of_int f (- i))" by simp
    with False show ?thesis
      by (auto simp: f_of_int_def fl_def f_finite_def f_zero_def Let_def split: if_splits)
  qed
qed

lemma f_of_int_ge1: "fmt_ok f \<Longrightarrow> 1 \<le> i \<Longrightarrow> f_le (Fin 1) (f_of_int f i)"
  using f_of_int_mono [of f 1 i] by simp

lemma f_le_finite: "f_finite a \<Longrightarrow> f_finite b \<Longrightarrow> f_le a b \<longleftrightarrow> f_val a \<le> f_val b"
  by (cases a; cases b) (simp_all add: f_val_def f_finite_def)

lemma fdiv_finite:
  "f_finite a \<Longrightarrow> f_finite b \<Longrightarrow> f_val b \<noteq> 0 \<Longrightarrow>
   fdiv f a b = fl f (f_neg a \<noteq> f_neg b) (f_val a / f_val b)"
  by (cases a; cases b) (simp_all add: fdiv_def f_val_def f_finite_def f_is_inf_def)

lemma f_finite_Fin [simp]: "f_finite (Fin r)" "f_val (Fin r) = r"
  by (simp_all add: f_finite_def f_val_def)

lemma f_of_int_bounds:
  assumes "0 \<le> i" and "i \<le> m" and "m \<le> 2 ^ 100"
  shows "f_finite (f_of_int binary32 i)" and "0 \<le> f_val (f_of_int binary32 i)"
    and "f_val (f_of_int binary32 i) \<le> f_val (f_of_int binary32 m)"
    and "0 < m \<Longrightarrow> 1 \<le> f_val (f_of_int binary32 m)"
proof -
  have fin: "f_finite (f_of_int binary32 i)" "f_finite (f_of_int binary32 m)"
    using assms by (auto intro: f_of_int_finite)
  show "f_finite (f_of_int binary32 i)" by (rule fin(1))
  show "0 \<le> f_val (f_of_int binary32 i)"
    using f_of_int_nonneg [OF assms(1), of binary32] fin by (simp add: f_le_finite)
  show "f_val (f_of_int binary32 i) \<le> f_val (f_of_int binary32 m)"
    using f_of_int_mono [of binary32 i m] assms fin by (simp add: f_le_finite)
  show "0 < m \<Longrightarrow> 1 \<le> f_val (f_of_int binary32 m)"
    using f_of_int_ge1 [of binary32 m] fin by (simp add: f_le_finite)
qed

text \<open>The normalised policies: a quotient of two counts, the lower one not above the other.\<close>

lemma f_ratio_unit:
  assumes "0 \<le> i" and "i \<le> m" and "0 < m" and "m \<le> 2 ^ 100"
  shows "f_unit (fdiv binary32 (f_of_int binary32 i) (f_of_int binary32 m))"
  using f_of_int_bounds [of i m] f_of_int_bounds [of m m] assms
  by (subst fdiv_finite) (auto intro!: fl_unit)

lemma f_ratio_mono:
  assumes "0 \<le> i" and "i \<le> j" and "j \<le> m" and "0 < m" and "m \<le> 2 ^ 100"
  shows "f_le (fdiv binary32 (f_of_int binary32 i) (f_of_int binary32 m))
              (fdiv binary32 (f_of_int binary32 j) (f_of_int binary32 m))"
  using f_of_int_bounds [of i j] f_of_int_bounds [of j m] f_of_int_bounds [of m m] assms
  by (subst (1 2) fdiv_finite) (auto intro!: fl_mono divide_right_mono)

section \<open>Weighted sums\<close>

text \<open>A sum of weighted policies: the weights are finite and not negative.\<close>

definition f_nonneg :: "flt \<Rightarrow> bool" where
  "f_nonneg a \<longleftrightarrow> f_le (Fin 0) a"

lemma f_nonneg_cases [consumes 1]:
  "f_nonneg a \<Longrightarrow> (\<And>r. a = Fin r \<Longrightarrow> 0 \<le> r \<Longrightarrow> P) \<Longrightarrow> (a = NZero \<Longrightarrow> P) \<Longrightarrow>
   (a = Inf False \<Longrightarrow> P) \<Longrightarrow> P"
  by (cases a) (auto simp: f_nonneg_def)

lemma f_nonneg_not_NaN: "f_nonneg a \<Longrightarrow> a \<noteq> NaN"
  by (auto simp: f_nonneg_def)

lemma f_unit_nonneg: "f_unit a \<Longrightarrow> f_nonneg a"
  by (simp add: f_unit_def f_nonneg_def)

lemma f_unit_cases [consumes 1]:
  "f_unit a \<Longrightarrow> (\<And>r. a = Fin r \<Longrightarrow> 0 \<le> r \<Longrightarrow> r \<le> 1 \<Longrightarrow> P) \<Longrightarrow> (a = NZero \<Longrightarrow> P) \<Longrightarrow> P"
  by (cases a) (auto simp: f_unit_alt f_simps)

lemma fl_f_nonneg: "0 \<le> x \<Longrightarrow> f_nonneg (fl f s x)"
  by (simp add: f_nonneg_def fl_nonneg)

lemma f_nonneg_simps [simp]:
  "f_nonneg (Fin r) \<longleftrightarrow> 0 \<le> r" "f_nonneg NZero" "f_nonneg (Inf False)"
  by (simp_all add: f_nonneg_def)

lemma fadd_finite:
  "f_finite a \<Longrightarrow> f_finite b \<Longrightarrow> fadd f a b = fl f (f_neg a \<and> f_neg b) (f_val a + f_val b)"
  by (cases a; cases b) (simp_all add: fadd_def f_val_def f_finite_def f_is_inf_def)

lemma fmul_finite:
  "f_finite a \<Longrightarrow> f_finite b \<Longrightarrow> fmul f a b = fl f (f_neg a \<noteq> f_neg b) (f_val a * f_val b)"
  by (cases a; cases b) (simp_all add: fmul_def f_val_def f_finite_def f_is_inf_def)

lemma f_nonneg_finite: "f_nonneg a \<Longrightarrow> f_finite a \<or> a = Inf False"
  by (cases a) (auto simp: f_nonneg_def f_finite_def)

lemma f_nonneg_val: "f_nonneg a \<Longrightarrow> 0 \<le> f_val a"
  by (cases a) (auto simp: f_nonneg_def f_val_def)

lemma fadd_inf:
  "f_nonneg a \<Longrightarrow> fadd f a (Inf False) = Inf False"
  "f_nonneg a \<Longrightarrow> fadd f (Inf False) a = Inf False"
  by (erule f_nonneg_cases; simp add: fadd_def f_is_inf_def)+

lemma fadd_nonneg: "f_nonneg a \<Longrightarrow> f_nonneg b \<Longrightarrow> f_nonneg (fadd f a b)"
  using f_nonneg_finite [of a] f_nonneg_finite [of b] f_nonneg_val [of a] f_nonneg_val [of b]
  by (auto simp: fadd_finite fadd_inf fl_f_nonneg)

lemma f_le_Inf: "f_nonneg a \<Longrightarrow> f_le a (Inf False)"
  by (erule f_nonneg_cases) simp_all

lemma Inf_le: "f_le (Inf False) a \<Longrightarrow> a = Inf False"
  by (cases a) auto

lemma fadd_mono:
  assumes "fmt_ok f" "f_nonneg a" "f_nonneg b" "f_le a c" "f_le b d"
  shows "f_le (fadd f a b) (fadd f c d)"
proof -
  have c: "f_nonneg c" and d: "f_nonneg d"
    using assms f_le_trans unfolding f_nonneg_def by blast+
  show ?thesis
  proof (cases "f_finite c \<and> f_finite d")
    case False
    with f_nonneg_finite [OF c] f_nonneg_finite [OF d] have "fadd f c d = Inf False"
      using c d by (auto simp: fadd_inf)
    then show ?thesis
      using assms by (simp add: f_le_Inf fadd_nonneg)
  next
    case True
    with assms have "f_finite a" "f_finite b"
      using f_nonneg_finite Inf_le by blast+
    with True assms show ?thesis
      by (auto simp: fadd_finite f_le_finite intro!: fl_mono add_mono)
  qed
qed

lemma fmul_unit_nonneg: "f_finite w \<Longrightarrow> f_nonneg w \<Longrightarrow> f_unit n \<Longrightarrow> f_nonneg (fmul f w n)"
  using f_nonneg_val [of w] by (auto simp: fmul_finite f_unit_alt intro!: fl_f_nonneg)

lemma fmul_unit_mono:
  "fmt_ok f \<Longrightarrow> f_finite w \<Longrightarrow> f_nonneg w \<Longrightarrow> f_unit m \<Longrightarrow> f_unit n \<Longrightarrow> f_le m n \<Longrightarrow>
   f_le (fmul f w m) (fmul f w n)"
  using f_nonneg_val [of w]
  by (auto simp: fmul_finite f_unit_alt f_le_finite intro!: fl_mono mult_left_mono)

section \<open>Bounded values\<close>

text \<open>Everything below \<open>2 ^ 120\<close> stays finite, in both formats.\<close>

lemma fl_bounded:
  assumes f: "f = binary32 \<or> f = binary64" and k: "0 \<le> k" "k \<le> 120" and x: "\<bar>x\<bar> \<le> 2 powi k"
  shows "f_finite (fl f s x) \<and> \<bar>f_val (fl f s x)\<bar> \<le> 2 powi k"
proof (cases "x = 0")
  case True
  then show ?thesis by (auto simp: f_zero_def f_finite_def f_val_def)
next
  case False
  have fok: "fmt_ok f" using f by auto
  have "rnd f \<bar>x\<bar> \<le> rnd f (2 powi k)" using False x by (intro rnd_mono [OF fok]) auto
  also have "\<dots> = 2 powi k" using fok k(1) by (rule rnd_powi)
  finally have r: "rnd f \<bar>x\<bar> \<le> 2 powi k" .
  have "(2 :: rat) powi k < 2 powi (snd (snd f) + 1)"
    using f k by (intro iffD2 [OF powi_less]) (auto simp: binary32_def binary64_def)
  with r rnd_nonneg [of "\<bar>x\<bar>" f] False show ?thesis
    by (auto simp: fl_def Let_def f_zero_def f_finite_def f_val_def)
qed

lemma fadd_mono_finite:
  "fmt_ok f \<Longrightarrow> f_finite a \<Longrightarrow> f_finite b \<Longrightarrow> f_finite c \<Longrightarrow> f_finite d \<Longrightarrow>
   f_le a c \<Longrightarrow> f_le b d \<Longrightarrow> f_le (fadd f a b) (fadd f c d)"
  by (auto simp: fadd_finite f_le_finite intro!: fl_mono add_mono)

lemma fmul_mono_finite:
  "fmt_ok f \<Longrightarrow> f_finite w \<Longrightarrow> 0 \<le> f_val w \<Longrightarrow> f_finite a \<Longrightarrow> f_finite b \<Longrightarrow> f_le a b \<Longrightarrow>
   f_le (fmul f w a) (fmul f w b)"
  by (auto simp: fmul_finite f_le_finite intro!: fl_mono mult_left_mono)

text \<open>A weight, and a normalised value between minus one and one.\<close>

definition f_weight :: "flt \<Rightarrow> bool" where
  "f_weight w \<longleftrightarrow> f_finite w \<and> 0 \<le> f_val w \<and> f_val w \<le> 2 powi 100"

definition f_norm :: "flt \<Rightarrow> bool" where
  "f_norm a \<longleftrightarrow> f_finite a \<and> \<bar>f_val a\<bar> \<le> 1"

lemma f_unit_norm: "f_unit a \<Longrightarrow> f_norm a"
  by (auto simp: f_unit_alt f_norm_def)

lemma f_norm_zero [simp]: "f_norm (Fin 0)"
  by (simp add: f_norm_def)

lemma fmul_weight:
  assumes "f_weight w" and "f_norm a"
  shows "f_finite (fmul binary32 w a) \<and> \<bar>f_val (fmul binary32 w a)\<bar> \<le> 2 powi 100"
proof -
  have "\<bar>f_val w\<bar> * \<bar>f_val a\<bar> \<le> 2 powi 100 * 1"
    using assms by (intro mult_mono) (auto simp: f_weight_def f_norm_def)
  then have "\<bar>f_val w * f_val a\<bar> \<le> 2 powi 100" by (simp add: abs_mult)
  with assms fl_bounded [of binary32 100 "f_val w * f_val a"] show ?thesis
    by (auto simp: fmul_finite f_weight_def f_norm_def)
qed

lemma fadd_bounded:
  assumes "f_finite a" "f_finite b" and k: "0 \<le> k" "k < 120"
    and "\<bar>f_val a\<bar> \<le> 2 powi k" "\<bar>f_val b\<bar> \<le> 2 powi k"
  shows "f_finite (fadd binary32 a b) \<and> \<bar>f_val (fadd binary32 a b)\<bar> \<le> 2 powi (k + 1)"
proof -
  have "(2 :: rat) powi (k + 1) = 2 powi k + 2 powi k" by (simp add: power_int_add)
  with assms have "\<bar>f_val a + f_val b\<bar> \<le> 2 powi (k + 1)" by linarith
  with assms fl_bounded [of binary32 "k + 1" "f_val a + f_val b"] show ?thesis
    by (auto simp: fadd_finite)
qed

lemma fmul_bounded:
  assumes "f_finite a" "f_norm b" and k: "0 \<le> k" "k \<le> 120" and "\<bar>f_val a\<bar> \<le> 2 powi k"
  shows "f_finite (fmul binary32 a b) \<and> \<bar>f_val (fmul binary32 a b)\<bar> \<le> 2 powi k"
proof -
  have "\<bar>f_val a\<bar> * \<bar>f_val b\<bar> \<le> 2 powi k * 1"
    using assms by (intro mult_mono) (auto simp: f_norm_def)
  then have "\<bar>f_val a * f_val b\<bar> \<le> 2 powi k" by (simp add: abs_mult)
  with assms fl_bounded [of binary32 k "f_val a * f_val b"] show ?thesis
    by (auto simp: fmul_finite f_norm_def)
qed

lemma fl_norm: "\<bar>x\<bar> \<le> 1 \<Longrightarrow> f_norm (fl binary32 s x)"
  using fl_bounded [of binary32 0 x s] by (simp add: f_norm_def)

lemma fminus_finite [simp]: "f_finite (fminus a) = f_finite a" "f_val (fminus a) = - f_val a"
  by (cases a; auto simp: fminus_def f_finite_def f_val_def)+

lemma fl_unit_complement:
  "fmt_ok f \<Longrightarrow> f_unit e \<Longrightarrow> f_unit (fsub f (Fin 1) e)"
  by (erule f_unit_cases)
    (auto simp: fsub_def fminus_def fadd_finite f_finite_def f_val_def intro!: fl_unit)

text \<open>The value of an \<open>int\<close> in a \<open>float\<close>: monotone, and at least one in size unless zero.\<close>

lemma f_of_int_val:
  assumes "\<bar>i\<bar> \<le> 2 ^ 100" and "\<bar>j\<bar> \<le> 2 ^ 100"
  shows "f_finite (f_of_int binary32 i)"
    and "i \<le> j \<Longrightarrow> f_val (f_of_int binary32 i) \<le> f_val (f_of_int binary32 j)"
    and "1 \<le> i \<Longrightarrow> 1 \<le> f_val (f_of_int binary32 i)"
    and "i \<le> - 1 \<Longrightarrow> f_val (f_of_int binary32 i) \<le> - 1"
proof -
  have fin: "f_finite (f_of_int binary32 i)" "f_finite (f_of_int binary32 j)"
    using assms by (auto intro: f_of_int_finite)
  show "f_finite (f_of_int binary32 i)" by (rule fin(1))
  show "i \<le> j \<Longrightarrow> f_val (f_of_int binary32 i) \<le> f_val (f_of_int binary32 j)"
    using f_of_int_mono [of binary32 i j] fin by (simp add: f_le_finite)
  show "1 \<le> i \<Longrightarrow> 1 \<le> f_val (f_of_int binary32 i)"
    using f_of_int_ge1 [of binary32 i] fin by (simp add: f_le_finite)
  have "fl binary32 False (- 1) = Fin (- 1)"
  proof -
    have "(2 :: rat) powi 0 < 2 powi (snd (snd binary32) + 1)"
      by (intro iffD2 [OF powi_less]) (simp add: binary32_def)
    then show ?thesis by (simp add: fl_def Let_def)
  qed
  then show "i \<le> - 1 \<Longrightarrow> f_val (f_of_int binary32 i) \<le> - 1"
    using fl_mono [of binary32 "of_int i" "- 1" False False] fin by (auto simp: f_of_int_def f_le_finite)
qed

end
