(* ===== verification/Sch_Conf.thy ===== *)
theory Sch_Conf
  imports Gw_Float Gw_Structs
begin

text \<open>
  The configuration of the scheduler (\<open>include/gw_sch_conf.h\<close>, \<open>src/gwd/gw_sch_conf.c\<close>):
  the record the parser of \<open>sched.conf\<close> fills, its defaults, and the tables of the fixed
  priorities of users, groups, hosts and information managers and of the shares of
  users, each an array searched by name.  A \<open>float\<close> is a \<open>flt\<close> in \<open>binary32\<close>.
  The locale \<open>conf_table\<close> states the contract the five tables share.
\<close>

section \<open>The record\<close>

record gw_sch_conf =
  sc_disable :: int
  sc_max_dispatch :: int
  sc_max_resource :: int
  sc_max_user :: int
  sc_wfixed :: flt
  sc_ufixed_default :: int
  sc_ufixed :: "(string \<times> int) list"
  sc_gfixed :: "(string \<times> int) list"
  sc_wshare :: flt
  sc_ushare_default :: int
  sc_ushare :: "(string \<times> int) list"
  sc_window_size :: flt
  sc_window_depth :: int
  sc_wwaiting :: flt
  sc_wdeadline :: flt
  sc_dl_half :: int
  sc_wrfixed :: flt
  sc_rfixed_default :: int
  sc_ifixed :: "(string \<times> int) list"
  sc_hfixed :: "(string \<times> int) list"
  sc_wrank :: flt
  sc_fr_max_banned :: int
  sc_fr_banned_c :: flt
  sc_wusage :: flt
  sc_ug_window :: flt
  sc_ug_ratio :: flt

text \<open>\<open>gw_sch_conf_init\<close> sets every field but \<open>dl_half\<close>.\<close>

definition gw_sch_conf_init :: "gw_sch_conf \<Rightarrow> gw_sch_conf" where
  "gw_sch_conf_init c = c\<lparr>
     sc_disable := 0,
     sc_max_dispatch := 15, sc_max_resource := 10, sc_max_user := 30,
     sc_wfixed := Fin 1, sc_ufixed_default := 0, sc_ufixed := [], sc_gfixed := [],
     sc_wshare := Fin 1, sc_ushare_default := 5, sc_ushare := [],
     sc_wwaiting := Fin 0, sc_wdeadline := Fin 1,
     sc_window_size := Fin 1, sc_window_depth := 5,
     sc_wrfixed := Fin 1, sc_rfixed_default := 1, sc_ifixed := [], sc_hfixed := [],
     sc_wrank := Fin 1,
     sc_fr_max_banned := 3600, sc_fr_banned_c := Fin 650,
     sc_wusage := Fin 1, sc_ug_window := Fin 3, sc_ug_ratio := Fin (1 / 4)\<rparr>"

section \<open>The tables\<close>

text \<open>The search loop: the value of the first entry with this name.\<close>

fun conf_find :: "(string \<times> int) list \<Rightarrow> string \<Rightarrow> int option" where
  "conf_find [] name = None"
| "conf_find ((n, v) # es) name = (if name = n then Some v else conf_find es name)"

text \<open>The setter's loop: the first entry with this name, or a new one at the end.\<close>

fun conf_store :: "(string \<times> int) list \<Rightarrow> string \<Rightarrow> int \<Rightarrow> (string \<times> int) list" where
  "conf_store [] name v = [(name, v)]"
| "conf_store ((n, w) # es) name v =
     (if name = n then (n, v) # es else (n, w) # conf_store es name v)"

definition clamp :: "int \<Rightarrow> int \<Rightarrow> int \<Rightarrow> int" where
  "clamp lo hi p = (if p < lo then lo else if p > hi then hi else p)"

definition GW_JOB_MAX_PRIORITY :: int where "GW_JOB_MAX_PRIORITY = 20"
definition GW_HOST_MIN_PRIORITY :: int where "GW_HOST_MIN_PRIORITY = 0"
definition GW_HOST_MAX_PRIORITY :: int where "GW_HOST_MAX_PRIORITY = 99"

definition gw_sch_get_user_priority :: "gw_sch_conf \<Rightarrow> string \<Rightarrow> string \<Rightarrow> int" where
  "gw_sch_get_user_priority c user grp =
     (case conf_find (sc_ufixed c) user of
        Some v \<Rightarrow> v
      | None \<Rightarrow> (case conf_find (sc_gfixed c) grp of
          Some v \<Rightarrow> v
        | None \<Rightarrow> sc_ufixed_default c))"

definition gw_sch_get_host_priority :: "gw_sch_conf \<Rightarrow> string \<Rightarrow> string \<Rightarrow> int" where
  "gw_sch_get_host_priority c host im =
     (case conf_find (sc_hfixed c) host of
        Some v \<Rightarrow> v
      | None \<Rightarrow> (case conf_find (sc_ifixed c) im of
          Some v \<Rightarrow> v
        | None \<Rightarrow> sc_rfixed_default c))"

definition gw_sch_get_user_fixed :: "gw_sch_conf \<Rightarrow> string \<Rightarrow> int" where
  "gw_sch_get_user_fixed c user =
     (case conf_find (sc_ufixed c) user of Some v \<Rightarrow> v | None \<Rightarrow> sc_ufixed_default c)"

definition gw_sch_set_user_fixed :: "gw_sch_conf \<Rightarrow> string \<Rightarrow> int \<Rightarrow> gw_sch_conf" where
  "gw_sch_set_user_fixed c user priority =
     (let p = clamp GW_JOB_MIN_PRIORITY GW_JOB_MAX_PRIORITY priority in
      if user = ''DEFAULT'' then c\<lparr>sc_ufixed_default := p\<rparr>
      else c\<lparr>sc_ufixed := conf_store (sc_ufixed c) user p\<rparr>)"

definition gw_sch_get_group_fixed :: "gw_sch_conf \<Rightarrow> string \<Rightarrow> int" where
  "gw_sch_get_group_fixed c grp =
     (case conf_find (sc_gfixed c) grp of Some v \<Rightarrow> v | None \<Rightarrow> - 1)"

definition gw_sch_set_group_fixed :: "gw_sch_conf \<Rightarrow> string \<Rightarrow> int \<Rightarrow> gw_sch_conf" where
  "gw_sch_set_group_fixed c grp priority =
     (let p = clamp GW_JOB_MIN_PRIORITY GW_JOB_MAX_PRIORITY priority in
      c\<lparr>sc_gfixed := conf_store (sc_gfixed c) grp p\<rparr>)"

definition gw_sch_set_user_share :: "gw_sch_conf \<Rightarrow> string \<Rightarrow> int \<Rightarrow> gw_sch_conf" where
  "gw_sch_set_user_share c user share =
     (if user = ''DEFAULT'' then c\<lparr>sc_ushare_default := share\<rparr>
      else c\<lparr>sc_ushare := conf_store (sc_ushare c) user share\<rparr>)"

definition gw_sch_get_user_share :: "gw_sch_conf \<Rightarrow> string \<Rightarrow> int" where
  "gw_sch_get_user_share c user =
     (case conf_find (sc_ushare c) user of Some v \<Rightarrow> v | None \<Rightarrow> sc_ushare_default c)"

definition gw_sch_set_im_fixed :: "gw_sch_conf \<Rightarrow> string \<Rightarrow> int \<Rightarrow> gw_sch_conf" where
  "gw_sch_set_im_fixed c im priority =
     (let p = clamp GW_HOST_MIN_PRIORITY GW_HOST_MAX_PRIORITY priority in
      if im = ''DEFAULT'' then c\<lparr>sc_rfixed_default := p\<rparr>
      else c\<lparr>sc_ifixed := conf_store (sc_ifixed c) im p\<rparr>)"

definition gw_sch_get_im_fixed :: "gw_sch_conf \<Rightarrow> string \<Rightarrow> int" where
  "gw_sch_get_im_fixed c im =
     (case conf_find (sc_ifixed c) im of Some v \<Rightarrow> v | None \<Rightarrow> sc_rfixed_default c)"

definition gw_sch_set_host_fixed :: "gw_sch_conf \<Rightarrow> string \<Rightarrow> int \<Rightarrow> gw_sch_conf" where
  "gw_sch_set_host_fixed c host priority =
     (let p = clamp GW_HOST_MIN_PRIORITY GW_HOST_MAX_PRIORITY priority in
      c\<lparr>sc_hfixed := conf_store (sc_hfixed c) host p\<rparr>)"

definition gw_sch_get_host_fixed :: "gw_sch_conf \<Rightarrow> string \<Rightarrow> int" where
  "gw_sch_get_host_fixed c host =
     (case conf_find (sc_hfixed c) host of Some v \<Rightarrow> v | None \<Rightarrow> - 1)"

section \<open>Setting a variable\<close>

datatype gw_sch_var =
    DISABLE | DISPATCH_CHUNK | MAX_RUNNING_USER | FP_WEIGHT | FP_USER | FP_GROUP
  | SH_WEIGHT | SH_USER | SH_WINDOW_DEPTH | SH_WINDOW_SIZE | WT_WEIGHT | DL_WEIGHT
  | DL_HALF | MAX_RUNNING_RESOURCE | RP_WEIGHT | RP_HOST | RP_IM | RA_WEIGHT
  | FR_MAX_BANNED | FR_BANNED_C | UG_WEIGHT | UG_HISTORY_WINDOW | UG_HISTORY_RATIO

text \<open>
  An integer variable takes the truncation of the value; outside the range of \<open>int\<close>
  that is undefined (\<open>None\<close>).
\<close>

fun gw_sch_set_var :: "gw_sch_conf \<Rightarrow> gw_sch_var \<Rightarrow> flt \<Rightarrow> gw_sch_conf option" where
  "gw_sch_set_var c DISABLE v = map_option (\<lambda>i. c\<lparr>sc_disable := i\<rparr>) (f_trunc 32 v)"
| "gw_sch_set_var c DISPATCH_CHUNK v = map_option (\<lambda>i. c\<lparr>sc_max_dispatch := i\<rparr>) (f_trunc 32 v)"
| "gw_sch_set_var c MAX_RUNNING_USER v = map_option (\<lambda>i. c\<lparr>sc_max_user := i\<rparr>) (f_trunc 32 v)"
| "gw_sch_set_var c MAX_RUNNING_RESOURCE v =
     map_option (\<lambda>i. c\<lparr>sc_max_resource := i\<rparr>) (f_trunc 32 v)"
| "gw_sch_set_var c FP_WEIGHT v = Some (c\<lparr>sc_wfixed := v\<rparr>)"
| "gw_sch_set_var c WT_WEIGHT v = Some (c\<lparr>sc_wwaiting := v\<rparr>)"
| "gw_sch_set_var c DL_WEIGHT v = Some (c\<lparr>sc_wdeadline := v\<rparr>)"
| "gw_sch_set_var c DL_HALF v = map_option (\<lambda>i. c\<lparr>sc_dl_half := i\<rparr>) (f_trunc 32 v)"
| "gw_sch_set_var c SH_WEIGHT v = Some (c\<lparr>sc_wshare := v\<rparr>)"
| "gw_sch_set_var c SH_WINDOW_SIZE v = Some (c\<lparr>sc_window_size := v\<rparr>)"
| "gw_sch_set_var c SH_WINDOW_DEPTH v =
     (if f_lt (Fin 10) v then Some (c\<lparr>sc_window_depth := 10\<rparr>)
      else map_option (\<lambda>i. c\<lparr>sc_window_depth := i\<rparr>) (f_trunc 32 v))"
| "gw_sch_set_var c RP_WEIGHT v = Some (c\<lparr>sc_wrfixed := v\<rparr>)"
| "gw_sch_set_var c RA_WEIGHT v = Some (c\<lparr>sc_wrank := v\<rparr>)"
| "gw_sch_set_var c FR_MAX_BANNED v = map_option (\<lambda>i. c\<lparr>sc_fr_max_banned := i\<rparr>) (f_trunc 32 v)"
| "gw_sch_set_var c FR_BANNED_C v = Some (c\<lparr>sc_fr_banned_c := v\<rparr>)"
| "gw_sch_set_var c UG_WEIGHT v = Some (c\<lparr>sc_wusage := v\<rparr>)"
| "gw_sch_set_var c UG_HISTORY_WINDOW v = Some (c\<lparr>sc_ug_window := v\<rparr>)"
| "gw_sch_set_var c UG_HISTORY_RATIO v = Some (c\<lparr>sc_ug_ratio := v\<rparr>)"
| "gw_sch_set_var c _ v = Some c"

fun gw_sch_set_svar :: "gw_sch_conf \<Rightarrow> gw_sch_var \<Rightarrow> string \<Rightarrow> int \<Rightarrow> gw_sch_conf" where
  "gw_sch_set_svar c FP_USER s v = gw_sch_set_user_fixed c s v"
| "gw_sch_set_svar c FP_GROUP s v = gw_sch_set_group_fixed c s v"
| "gw_sch_set_svar c SH_USER s v = gw_sch_set_user_share c s v"
| "gw_sch_set_svar c RP_HOST s v = gw_sch_set_host_fixed c s v"
| "gw_sch_set_svar c RP_IM s v = gw_sch_set_im_fixed c s v"
| "gw_sch_set_svar c _ s v = c"

section \<open>The contract of a table\<close>

text \<open>
  \<open>get\<close> reads the value of a name, \<open>set\<close> stores one; the names of \<open>plain\<close> are those
  \<open>set\<close> keeps in the table (not \<open>DEFAULT\<close>, where that stands for the default).
\<close>

locale conf_table =
  fixes get :: "gw_sch_conf \<Rightarrow> string \<Rightarrow> int"
    and set_entry :: "gw_sch_conf \<Rightarrow> string \<Rightarrow> int \<Rightarrow> gw_sch_conf"
    and plain :: "string \<Rightarrow> bool"
    and stored :: "int \<Rightarrow> int"
  assumes get_set: "plain n \<Longrightarrow> get (set_entry c n v) n = stored v"
    and get_other: "plain n \<Longrightarrow> n \<noteq> m \<Longrightarrow> get (set_entry c n v) m = get c m"
begin

text \<open>The lines of the file in order: the last one that names an entry decides.\<close>

lemma get_settings:
  "list_all (\<lambda>(n, v). plain n) es \<Longrightarrow>
   get (foldl (\<lambda>c (n, v). set_entry c n v) c es) m =
     (case conf_find (rev es) m of Some v \<Rightarrow> stored v | None \<Rightarrow> get c m)"
proof (induction es rule: rev_induct)
  case (snoc e es)
  obtain n v where "e = (n, v)" by fastforce
  with snoc show ?case by (cases "m = n") (auto simp: get_set get_other)
qed simp

end

lemma conf_find_store:
  "conf_find (conf_store es n v) m = (if m = n then Some v else conf_find es m)"
  by (induction es) (auto split: prod.splits)

interpretation ufixed: conf_table gw_sch_get_user_fixed gw_sch_set_user_fixed
  "\<lambda>n. n \<noteq> ''DEFAULT''" "clamp GW_JOB_MIN_PRIORITY GW_JOB_MAX_PRIORITY"
  by unfold_locales
    (auto simp: gw_sch_get_user_fixed_def gw_sch_set_user_fixed_def conf_find_store Let_def
       split: option.split)

interpretation gfixed: conf_table gw_sch_get_group_fixed gw_sch_set_group_fixed
  "\<lambda>n. True" "clamp GW_JOB_MIN_PRIORITY GW_JOB_MAX_PRIORITY"
  by unfold_locales
    (auto simp: gw_sch_get_group_fixed_def gw_sch_set_group_fixed_def conf_find_store Let_def
       split: option.split)

interpretation ushare: conf_table gw_sch_get_user_share gw_sch_set_user_share
  "\<lambda>n. n \<noteq> ''DEFAULT''" "\<lambda>v. v"
  by unfold_locales
    (auto simp: gw_sch_get_user_share_def gw_sch_set_user_share_def conf_find_store
       split: option.split)

interpretation ifixed: conf_table gw_sch_get_im_fixed gw_sch_set_im_fixed
  "\<lambda>n. n \<noteq> ''DEFAULT''" "clamp GW_HOST_MIN_PRIORITY GW_HOST_MAX_PRIORITY"
  by unfold_locales
    (auto simp: gw_sch_get_im_fixed_def gw_sch_set_im_fixed_def conf_find_store Let_def
       split: option.split)

interpretation hfixed: conf_table gw_sch_get_host_fixed gw_sch_set_host_fixed
  "\<lambda>n. True" "clamp GW_HOST_MIN_PRIORITY GW_HOST_MAX_PRIORITY"
  by unfold_locales
    (auto simp: gw_sch_get_host_fixed_def gw_sch_set_host_fixed_def conf_find_store Let_def
       split: option.split)

text \<open>
  The lookups the daemon uses fall back from the user to the group, and from the host
  to its information manager; seen through them the tables keep the same contract.
\<close>

interpretation upriority: conf_table "\<lambda>c u. gw_sch_get_user_priority c u grp"
  gw_sch_set_user_fixed "\<lambda>n. n \<noteq> ''DEFAULT''" "clamp GW_JOB_MIN_PRIORITY GW_JOB_MAX_PRIORITY"
  for grp
  by unfold_locales
    (auto simp: gw_sch_get_user_priority_def gw_sch_set_user_fixed_def conf_find_store Let_def
       split: option.split)

interpretation hpriority: conf_table "\<lambda>c h. gw_sch_get_host_priority c h im"
  gw_sch_set_host_fixed "\<lambda>n. True" "clamp GW_HOST_MIN_PRIORITY GW_HOST_MAX_PRIORITY"
  for im
  by unfold_locales
    (auto simp: gw_sch_get_host_priority_def gw_sch_set_host_fixed_def conf_find_store Let_def
       split: option.split)

section \<open>Ranges\<close>

text \<open>Every priority in the configuration is within its limits.\<close>

definition table_in :: "int \<Rightarrow> int \<Rightarrow> (string \<times> int) list \<Rightarrow> bool" where
  "table_in lo hi es \<longleftrightarrow> list_all (\<lambda>(n, v). lo \<le> v \<and> v \<le> hi) es"

definition conf_ok :: "gw_sch_conf \<Rightarrow> bool" where
  "conf_ok c \<longleftrightarrow> table_in 0 20 (sc_ufixed c) \<and> table_in 0 20 (sc_gfixed c)
     \<and> table_in 0 99 (sc_ifixed c) \<and> table_in 0 99 (sc_hfixed c)
     \<and> 0 \<le> sc_ufixed_default c \<and> sc_ufixed_default c \<le> 20
     \<and> 0 \<le> sc_rfixed_default c \<and> sc_rfixed_default c \<le> 99"

lemma clamp_in: "lo \<le> hi \<Longrightarrow> lo \<le> clamp lo hi p \<and> clamp lo hi p \<le> hi"
  by (simp add: clamp_def)

lemma table_in_store: "lo \<le> v \<Longrightarrow> v \<le> hi \<Longrightarrow> table_in lo hi es \<Longrightarrow> table_in lo hi (conf_store es n v)"
  by (induction es) (auto simp: table_in_def)

lemma table_in_find: "table_in lo hi es \<Longrightarrow> conf_find es n = Some v \<Longrightarrow> lo \<le> v \<and> v \<le> hi"
  by (induction es) (auto simp: table_in_def split: if_splits)

lemma conf_ok_init: "conf_ok (gw_sch_conf_init c)"
  by (simp add: conf_ok_def gw_sch_conf_init_def table_in_def)

lemma conf_ok_svar: "conf_ok c \<Longrightarrow> conf_ok (gw_sch_set_svar c x s v)"
  using clamp_in [of 0 20 v] clamp_in [of 0 99 v]
  by (cases x)
    (auto simp: conf_ok_def gw_sch_set_user_fixed_def gw_sch_set_group_fixed_def Let_def
       gw_sch_set_user_share_def gw_sch_set_host_fixed_def gw_sch_set_im_fixed_def table_in_store
       GW_JOB_MIN_PRIORITY_def GW_JOB_MAX_PRIORITY_def
       GW_HOST_MIN_PRIORITY_def GW_HOST_MAX_PRIORITY_def)

lemma conf_ok_settings: "conf_ok c \<Longrightarrow> conf_ok (foldl (\<lambda>c (x, s, v). gw_sch_set_svar c x s v) c es)"
  by (induction es arbitrary: c) (auto simp: conf_ok_svar split: prod.splits)

lemma conf_ok_user_priority:
  "conf_ok c \<Longrightarrow> 0 \<le> gw_sch_get_user_priority c u g \<and> gw_sch_get_user_priority c u g \<le> 20"
  by (auto simp: gw_sch_get_user_priority_def conf_ok_def dest: table_in_find split: option.split)

lemma conf_ok_host_priority:
  "conf_ok c \<Longrightarrow> 0 \<le> gw_sch_get_host_priority c h im \<and> gw_sch_get_host_priority c h im \<le> 99"
  by (auto simp: gw_sch_get_host_priority_def conf_ok_def dest: table_in_find split: option.split)

text \<open>Whatever settings of tables the configuration file holds, in any order and with any
  value, the fixed priority the daemon gives a user is between 0 and 20 and that of a
  host between 0 and 99.\<close>

theorem sch_conf_priorities_in_range:
  "let c' = foldl (\<lambda>c (x, s, v). gw_sch_set_svar c x s v) (gw_sch_conf_init c) es in
     gw_sch_get_user_priority c' u g \<in> {0..20} \<and> gw_sch_get_host_priority c' h im \<in> {0..99}"
  using conf_ok_user_priority [OF conf_ok_settings [OF conf_ok_init]]
    conf_ok_host_priority [OF conf_ok_settings [OF conf_ok_init]]
  by (simp add: Let_def)

text \<open>The settings of users in \<open>sched.conf\<close>: the last one that names a user decides its
  priority, clamped to the limits; a user no line names keeps the priority of its
  group, or the default.\<close>

theorem sch_conf_last_setting:
  assumes "list_all (\<lambda>(n, v). n \<noteq> ''DEFAULT'') es"
  shows "gw_sch_get_user_priority (foldl (\<lambda>c (n, v). gw_sch_set_user_fixed c n v) c es) u g =
     (case conf_find (rev es) u of
        Some v \<Rightarrow> clamp GW_JOB_MIN_PRIORITY GW_JOB_MAX_PRIORITY v
      | None \<Rightarrow> gw_sch_get_user_priority c u g)"
  using assms by (rule upriority.get_settings)

lemma sch_conf_last_setting_witness:
  "gw_sch_get_user_priority (foldl (\<lambda>c (n, v). gw_sch_set_user_fixed c n v)
     (gw_sch_conf_init undefined) [(''ann'', 3), (''bob'', 99), (''ann'', 7)]) ''ann'' ''all'' = 7"
  by (subst sch_conf_last_setting)
    (simp_all add: clamp_def GW_JOB_MIN_PRIORITY_def GW_JOB_MAX_PRIORITY_def)

end
