(* ===== verification/Sch_State.thy ===== *)
theory Sch_State
  imports Sch_Conf Gw_Dm_Mad
begin

text \<open>
  The state of the scheduler (\<open>include/gw_scheduler.h\<close>) and the operations that keep it:
  \<open>src/scheduler/gw_scheduler_hosts.c\<close> and \<open>gw_scheduler_users.c\<close> (hosts, users and the
  table of each user's hosts), and the functions of \<open>gw_scheduler_jobs.c\<close> that add and
  delete jobs and note their failures and successes.

  An array with its counter is a list.  A \<open>NULL\<close> array that the code tells from an
  empty one (\<open>sub_windows\<close>, \<open>mhosts\<close>) is an option.  An access out of an array or
  through \<open>NULL\<close> gives \<open>None\<close>.  \<open>time(NULL)\<close> is the argument \<open>now\<close>: time stands still
  while a message is handled.  The accounting data base is the argument \<open>acct\<close>, the
  answer of \<open>gw_acct_join_search\<close> for a host and a user (number of jobs, execution,
  suspension and transfer times), \<open>None\<close> when there is none or no data base is
  compiled in.  \<open>strncpy\<close> leaves the last byte of a name as it was; it is taken as
  the final zero.
\<close>

section \<open>Data\<close>

record gw_sch_host =
  h_hid :: int
  h_name :: string
  h_used_slots :: int
  h_running_jobs :: int
  h_dispatched :: int

record gw_sch_user_host =
  uh_ha_id :: int
  uh_hid :: int
  uh_banned :: int
  uh_last_banned :: int
  uh_avrg_transfer :: flt
  uh_avrg_execution :: flt
  uh_avrg_suspension :: flt
  uh_last_transfer :: flt
  uh_last_execution :: flt
  uh_last_suspension :: flt

record gw_sch_user =
  u_uid :: int
  u_name :: string
  u_running_jobs :: int
  u_active_jobs :: int
  u_total_jobs :: int
  u_dispatched :: int
  u_share :: int
  u_next_ujid :: int
  u_sub_windows :: "int list option"
  u_hosts :: "gw_sch_user_host list"

record gw_sch_queue =
  q_ha_id :: int
  q_uha_id :: int
  q_qname :: string
  q_slots :: int
  q_fixed :: int
  q_nfixed :: flt
  q_rank :: int
  q_nrank :: flt
  q_usage :: flt
  q_nusage :: flt
  q_priority :: flt

record gw_sch_job =
  j_ua_id :: int
  j_jid :: int
  j_aid :: int
  j_np :: int
  j_reason :: gw_migration_reason
  j_mhosts :: "gw_sch_queue list option"
  j_schedule_time :: int
  j_deadline_time :: int
  j_priority :: flt
  j_fixed :: int
  j_nfixed :: flt
  j_waiting :: int
  j_nwaiting :: flt
  j_deadline :: int
  j_ndeadline :: flt
  j_share :: int
  j_nshare :: flt

record gw_scheduler =
  s_users :: "gw_sch_user list"
  s_hosts :: "gw_sch_host list"
  s_jobs :: "gw_sch_job list"
  s_conf :: gw_sch_conf
  s_next_user_window :: int
  s_next_host_window :: int

type_synonym acct = "string \<Rightarrow> string \<Rightarrow> (int \<times> int \<times> int \<times> int) option"

definition gw_scheduler_init :: "gw_scheduler \<Rightarrow> gw_scheduler" where
  "gw_scheduler_init s = s\<lparr>s_users := [], s_hosts := [], s_jobs := []\<rparr>"

text \<open>The first index with a property, the search loops' \<open>i\<close> at their \<open>break\<close>.\<close>

fun find_index :: "('a \<Rightarrow> bool) \<Rightarrow> 'a list \<Rightarrow> nat option" where
  "find_index P [] = None"
| "find_index P (x # xs) = (if P x then Some 0 else map_option Suc (find_index P xs))"

lemma find_index_SomeD:
  "find_index P xs = Some i \<Longrightarrow> i < length xs \<and> P (xs ! i) \<and> (\<forall>j < i. \<not> P (xs ! j))"
proof (induction xs arbitrary: i)
  case (Cons x xs)
  then show ?case by (auto simp: nth_Cons' less_Suc_eq_0_disj split: if_splits)
qed simp

lemma find_index_None: "find_index P xs = None \<longleftrightarrow> list_all (\<lambda>x. \<not> P x) xs"
  by (induction xs) auto

section \<open>Hosts\<close>

text \<open>The averages of a new user and host pair, from the accounting records.\<close>

definition avrg :: "int \<Rightarrow> int \<Rightarrow> flt" where
  "avrg t n = fdiv binary32 (f_of_int binary32 t) (f_of_int binary32 n)"

definition set_averages ::
    "(int \<times> int \<times> int \<times> int) option \<Rightarrow> gw_sch_user_host \<Rightarrow> gw_sch_user_host" where
  "set_averages r uh = (case r of
       Some (tot, exe, sus, xfr) \<Rightarrow>
         if tot \<ge> 1 then uh\<lparr>uh_avrg_execution := avrg exe tot, uh_avrg_suspension := avrg sus tot,
           uh_avrg_transfer := avrg xfr tot\<rparr>
         else uh
     | None \<Rightarrow> uh)"

definition new_user_host :: "int \<Rightarrow> int \<Rightarrow> (int \<times> int \<times> int \<times> int) option \<Rightarrow> gw_sch_user_host" where
  "new_user_host ha hid r = set_averages r
     \<lparr>uh_ha_id = ha, uh_hid = hid, uh_banned = 0, uh_last_banned = 0,
      uh_avrg_transfer = Fin 0, uh_avrg_execution = Fin 0, uh_avrg_suspension = Fin 0,
      uh_last_transfer = Fin 0, uh_last_execution = Fin 0, uh_last_suspension = Fin 0\<rparr>"

text \<open>
  A known host is updated.  A new one gets an entry at the end of the list and one at
  the same index of every user's list (\<open>realloc\<close> to the new number of hosts: a list
  that was shorter has unset entries in between, \<open>None\<close>; one that was longer is cut).
\<close>

definition gw_scheduler_add_host ::
    "acct \<Rightarrow> gw_scheduler \<Rightarrow> int \<Rightarrow> int \<Rightarrow> int \<Rightarrow> string \<Rightarrow> gw_scheduler option" where
  "gw_scheduler_add_host acct s hid uslots rjobs hostname =
     (case find_index (\<lambda>h. h_hid h = hid) (s_hosts s) of
        Some i \<Rightarrow> Some (s\<lparr>s_hosts := (s_hosts s)[i := (s_hosts s ! i)
          \<lparr>h_used_slots := uslots, h_running_jobs := rjobs\<rparr>]\<rparr>)
      | None \<Rightarrow>
          let i = length (s_hosts s);
              h = \<lparr>h_hid = hid, h_name = take 39 hostname, h_used_slots = uslots,
                   h_running_jobs = rjobs, h_dispatched = 0\<rparr> in
          if list_all (\<lambda>u. i \<le> length (u_hosts u)) (s_users s) then
            Some (s\<lparr>s_hosts := s_hosts s @ [h],
              s_users := map (\<lambda>u. u\<lparr>u_hosts := take i (u_hosts u) @
                [new_user_host (int i) hid (acct hostname (u_name u))]\<rparr>) (s_users s)\<rparr>)
          else None)"

definition gw_scheduler_update_usage_host :: "acct \<Rightarrow> gw_scheduler \<Rightarrow> gw_scheduler option" where
  "gw_scheduler_update_usage_host acct s =
     (if list_all (\<lambda>u. length (s_hosts s) \<le> length (u_hosts u)
          \<and> list_all (\<lambda>uh. 0 \<le> uh_ha_id uh \<and> uh_ha_id uh < int (length (s_hosts s)))
              (take (length (s_hosts s)) (u_hosts u))) (s_users s)
      then Some (s\<lparr>s_users := map (\<lambda>u. u\<lparr>u_hosts :=
             map (\<lambda>uh. set_averages (acct (h_name (s_hosts s ! nat (uh_ha_id uh))) (u_name u)) uh)
               (take (length (s_hosts s)) (u_hosts u)) @ drop (length (s_hosts s)) (u_hosts u)\<rparr>)
             (s_users s)\<rparr>)
      else None)"

definition gw_scheduler_host_estimated_time :: "gw_sch_user_host \<Rightarrow> gw_scheduler \<Rightarrow> flt" where
  "gw_scheduler_host_estimated_time th s =
     (let avrg = fadd binary32 (fadd binary32 (uh_avrg_execution th) (uh_avrg_suspension th))
                   (uh_avrg_transfer th);
          last = fadd binary32 (fadd binary32 (uh_last_execution th) (uh_last_suspension th))
                   (uh_last_transfer th) in
      if f_eq0 avrg then last
      else if f_eq0 last then avrg
      else fadd binary32
        (fmul binary32 (fsub binary32 (Fin 1) (sc_ug_ratio (s_conf s))) avrg)
        (fmul binary32 (sc_ug_ratio (s_conf s)) last))"

section \<open>Users\<close>

definition gw_scheduler_add_user ::
    "acct \<Rightarrow> gw_scheduler \<Rightarrow> int \<Rightarrow> int \<Rightarrow> int \<Rightarrow> string \<Rightarrow> gw_scheduler" where
  "gw_scheduler_add_user acct s uid ajobs rjobs name =
     (case find_index (\<lambda>u. u_uid u = uid) (s_users s) of
        Some i \<Rightarrow> s\<lparr>s_users := (s_users s)[i := (s_users s ! i)
          \<lparr>u_active_jobs := ajobs, u_running_jobs := rjobs\<rparr>]\<rparr>
      | None \<Rightarrow>
          let depth = sc_window_depth (s_conf s); nm = take 24 name in
          s\<lparr>s_users := s_users s @ [
            \<lparr>u_uid = uid, u_name = nm, u_running_jobs = rjobs, u_active_jobs = ajobs,
             u_total_jobs = 0, u_dispatched = 0, u_share = 1, u_next_ujid = 0,
             u_sub_windows = (if depth > 0 then Some (replicate (nat depth) 0) else None),
             u_hosts = map (\<lambda>j. new_user_host (int j) (h_hid (s_hosts s ! j))
                              (acct (h_name (s_hosts s ! j)) nm)) [0..<length (s_hosts s)]\<rparr>]\<rparr>)"

text \<open>
  The only user is removed whatever its number.  Otherwise the entries after the user
  are moved down and the counter is decremented, found or not.
\<close>

definition gw_scheduler_del_user :: "gw_scheduler \<Rightarrow> int \<Rightarrow> gw_scheduler option" where
  "gw_scheduler_del_user s uid =
     (if length (s_users s) = 1 then Some (s\<lparr>s_users := []\<rparr>)
      else if s_users s = [] then None
      else Some (s\<lparr>s_users :=
        (case find_index (\<lambda>u. u_uid u = uid) (s_users s) of
           Some i \<Rightarrow> take i (s_users s) @ drop (Suc i) (s_users s)
         | None \<Rightarrow> butlast (s_users s))\<rparr>))"

text \<open>The windows of a user move one place; the newest is empty.\<close>

fun shift_windows :: "nat \<Rightarrow> int list \<Rightarrow> int list" where
  "shift_windows 0 ws = ws"
| "shift_windows (Suc j) ws = shift_windows j (ws[Suc j := ws ! j])"

definition update_window :: "nat \<Rightarrow> gw_sch_user \<Rightarrow> gw_sch_user option" where
  "update_window depth u = (case u_sub_windows u of
       None \<Rightarrow> None
     | Some ws \<Rightarrow> if depth \<le> length ws \<and> ws \<noteq> []
         then Some (u\<lparr>u_sub_windows := Some ((shift_windows (depth - 1) ws)[0 := 0])\<rparr>) else None)"

fun map_users :: "(gw_sch_user \<Rightarrow> gw_sch_user option) \<Rightarrow> gw_sch_user list \<Rightarrow> gw_sch_user list option" where
  "map_users f [] = Some []"
| "map_users f (u # us) = do { u' \<leftarrow> f u; us' \<leftarrow> map_users f us; Some (u' # us') }"

definition gw_scheduler_user_update_windows :: "gw_scheduler \<Rightarrow> gw_scheduler option" where
  "gw_scheduler_user_update_windows s =
     (if sc_window_depth (s_conf s) = 0 then Some s
      else map_option (\<lambda>us. s\<lparr>s_users := us\<rparr>)
        (map_users (update_window (nat (sc_window_depth (s_conf s)))) (s_users s)))"

section \<open>Jobs\<close>

definition gw_scheduler_job_add ::
    "int \<Rightarrow> gw_scheduler \<Rightarrow> int \<Rightarrow> int \<Rightarrow> int \<Rightarrow> gw_migration_reason \<Rightarrow> int \<Rightarrow> int \<Rightarrow> int \<Rightarrow> gw_scheduler"
where
  "gw_scheduler_job_add now s jid aid np reason fixed_priority uid deadline =
     (case find_index (\<lambda>u. u_uid u = uid) (s_users s) of
        None \<Rightarrow> s
      | Some k \<Rightarrow> s\<lparr>
          s_users := (s_users s)[k := (s_users s ! k)\<lparr>u_total_jobs := u_total_jobs (s_users s ! k) + 1\<rparr>],
          s_jobs := s_jobs s @ [
            \<lparr>j_ua_id = int k, j_jid = jid, j_aid = aid, j_np = np, j_reason = reason,
             j_mhosts = None, j_schedule_time = now, j_deadline_time = deadline,
             j_priority = Fin 0, j_fixed = fixed_priority, j_nfixed = Fin 0,
             j_waiting = 0, j_nwaiting = Fin 0, j_deadline = 0, j_ndeadline = Fin 0,
             j_share = 0, j_nshare = Fin 0\<rparr>]\<rparr>)"

text \<open>
  The first job with the number goes.  Its user has one job less and, when it was
  dispatched, one more in its newest window; \<open>sub_windows\<close> is \<open>NULL\<close> for a window depth
  of zero.
\<close>

definition job_del_user :: "int \<Rightarrow> gw_sch_user \<Rightarrow> gw_sch_user option" where
  "job_del_user dispatched u =
     (let u = u\<lparr>u_total_jobs := u_total_jobs u - 1\<rparr> in
      if dispatched = 1 then do {
        ws \<leftarrow> u_sub_windows u;
        w \<leftarrow> rd ws 0;
        ws' \<leftarrow> wr ws 0 (w + 1);
        Some (u\<lparr>u_sub_windows := Some ws'\<rparr>)
      } else Some u)"

definition gw_scheduler_job_del :: "gw_scheduler \<Rightarrow> int \<Rightarrow> int \<Rightarrow> gw_scheduler option" where
  "gw_scheduler_job_del s jid dispatched =
     (case find_index (\<lambda>j. j_jid j = jid) (s_jobs s) of
        None \<Rightarrow> Some s
      | Some i \<Rightarrow> do {
          u \<leftarrow> rd (s_users s) (j_ua_id (s_jobs s ! i));
          u' \<leftarrow> job_del_user dispatched u;
          us \<leftarrow> wr (s_users s) (j_ua_id (s_jobs s ! i)) u';
          Some (s\<lparr>s_users := us, s_jobs := take i (s_jobs s) @ drop (Suc i) (s_jobs s)\<rparr>)
        })"

section \<open>Failures and successes of jobs on a host\<close>

text \<open>
  The search for the host in a user's list: \<open>None\<close> when it runs past the list's end,
  \<open>Some None\<close> when the host is not there.
\<close>

definition find_user_host :: "nat \<Rightarrow> gw_sch_user_host list \<Rightarrow> int \<Rightarrow> nat option option" where
  "find_user_host n hs hid = (case find_index (\<lambda>h. uh_hid h = hid) (take n hs) of
       Some i \<Rightarrow> Some (Some i)
     | None \<Rightarrow> if length hs < n then None else Some None)"

text \<open>
  The ban.  \<open>expd\<close> is \<open>exp\<close> of the mathematical library; \<open>0.1\<close> and the products are
  \<open>double\<close>, the result truncates to \<open>time_t\<close>.
\<close>

definition ban_time :: "(flt \<Rightarrow> flt) \<Rightarrow> gw_sch_conf \<Rightarrow> int \<Rightarrow> int \<Rightarrow> int option" where
  "ban_time expd c now last_banned =
     (let mx = f_of_int binary64 (sc_fr_max_banned c) in
      if last_banned = 0 then f_trunc 64 (fmul binary64 (fl binary64 False (1 / 10)) mx)
      else
        let t = f_of_int binary64 (now - last_banned) in
        if f_le t (Fin 10) then Some 0
        else
          let t = fdiv binary64 (fminus t) (sc_fr_banned_c c) in
          f_trunc 64 (fmul binary64 mx (fsub binary64 (Fin 1) (expd t))))"

definition ban_host :: "(flt \<Rightarrow> flt) \<Rightarrow> gw_sch_conf \<Rightarrow> int \<Rightarrow> gw_sch_user_host \<Rightarrow> gw_sch_user_host option" where
  "ban_host expd c now th = do {
     delta \<leftarrow> ban_time expd c now (uh_last_banned th);
     let th = (if uh_last_banned th = 0 then th\<lparr>uh_last_banned := now\<rparr> else th);
     Some (if delta \<noteq> 0 then th\<lparr>uh_banned := now + delta\<rparr> else th)
   }"

definition on_user_host ::
    "(gw_sch_user_host \<Rightarrow> gw_sch_user_host option) \<Rightarrow> gw_scheduler \<Rightarrow> int \<Rightarrow> int \<Rightarrow> gw_scheduler option"
where
  "on_user_host f s hid uid =
     (case find_index (\<lambda>u. u_uid u = uid) (s_users s) of
        None \<Rightarrow> Some s
      | Some k \<Rightarrow>
          let u = s_users s ! k in
          if u_hosts u = [] then Some s
          else do {
            r \<leftarrow> find_user_host (length (s_hosts s)) (u_hosts u) hid;
            (case r of
               None \<Rightarrow> Some s
             | Some i \<Rightarrow> do {
                 th \<leftarrow> f (u_hosts u ! i);
                 Some (s\<lparr>s_users := (s_users s)[k := u\<lparr>u_hosts := (u_hosts u)[i := th]\<rparr>]\<rparr>)
               })
          })"

definition gw_scheduler_job_failed ::
    "(flt \<Rightarrow> flt) \<Rightarrow> int \<Rightarrow> gw_scheduler \<Rightarrow> int \<Rightarrow> int \<Rightarrow> gw_migration_reason \<Rightarrow> gw_scheduler option" where
  "gw_scheduler_job_failed expd now s hid uid reason =
     (if reason \<noteq> GW_REASON_SUSPENSION_TIME \<and> reason \<noteq> GW_REASON_PERFORMANCE
         \<and> reason \<noteq> GW_REASON_EXECUTION_ERROR then Some s
      else on_user_host (ban_host expd (s_conf s) now) s hid uid)"

definition gw_scheduler_job_success ::
    "gw_scheduler \<Rightarrow> int \<Rightarrow> int \<Rightarrow> flt \<Rightarrow> flt \<Rightarrow> flt \<Rightarrow> gw_scheduler option" where
  "gw_scheduler_job_success s hid uid txfr tsus texe =
     on_user_host (\<lambda>th. Some (th\<lparr>uh_last_banned := 0, uh_banned := 0,
        uh_last_execution := texe, uh_last_transfer := txfr, uh_last_suspension := tsus\<rparr>)) s hid uid"

end
