(* ===== verification/Sch_Invariant.thy ===== *)
theory Sch_Invariant
  imports Sch_State
begin

text \<open>
  The invariant of the scheduler's state: every user has one entry per host, at the
  host's index, and a window for every step of the depth; every job belongs to a user
  of the list, its candidate queues to hosts of the list; \<open>total_jobs\<close> counts the
  user's jobs.  Every operation keeps it and none of them leaves an array, but for the
  removal of a user, which does neither.
\<close>

definition windows_ok :: "gw_sch_conf \<Rightarrow> gw_sch_user \<Rightarrow> bool" where
  "windows_ok c u \<longleftrightarrow> (case u_sub_windows u of
       Some ws \<Rightarrow> int (length ws) = sc_window_depth c | None \<Rightarrow> False)"

definition user_ok :: "gw_sch_conf \<Rightarrow> gw_sch_host list \<Rightarrow> gw_sch_user \<Rightarrow> bool" where
  "user_ok c hs u \<longleftrightarrow> windows_ok c u \<and> map uh_hid (u_hosts u) = map h_hid hs
     \<and> map uh_ha_id (u_hosts u) = map int [0..<length hs]"

definition queue_ok :: "nat \<Rightarrow> gw_sch_queue \<Rightarrow> bool" where
  "queue_ok n q \<longleftrightarrow> 0 \<le> q_ha_id q \<and> q_ha_id q < int n \<and> 0 \<le> q_uha_id q \<and> q_uha_id q < int n"

definition mhosts_ok :: "nat \<Rightarrow> gw_sch_job \<Rightarrow> bool" where
  "mhosts_ok n j \<longleftrightarrow> (case j_mhosts j of None \<Rightarrow> True | Some qs \<Rightarrow> list_all (queue_ok n) qs)"

definition job_ok :: "nat \<Rightarrow> nat \<Rightarrow> gw_sch_job \<Rightarrow> bool" where
  "job_ok nu nh j \<longleftrightarrow> 0 \<le> j_ua_id j \<and> j_ua_id j < int nu \<and> mhosts_ok nh j"

definition jobs_of :: "nat \<Rightarrow> gw_sch_job list \<Rightarrow> nat" where
  "jobs_of k js = length (filter (\<lambda>j. j_ua_id j = int k) js)"

definition totals_ok :: "gw_sch_user list \<Rightarrow> gw_sch_job list \<Rightarrow> bool" where
  "totals_ok us js \<longleftrightarrow> map u_total_jobs us = map (\<lambda>k. int (jobs_of k js)) [0..<length us]"

definition sch_ok :: "gw_scheduler \<Rightarrow> bool" where
  "sch_ok s \<longleftrightarrow> 0 < sc_window_depth (s_conf s)
     \<and> list_all (user_ok (s_conf s) (s_hosts s)) (s_users s)
     \<and> list_all (job_ok (length (s_users s)) (length (s_hosts s))) (s_jobs s)
     \<and> totals_ok (s_users s) (s_jobs s)
     \<and> distinct (map h_hid (s_hosts s)) \<and> distinct (map u_uid (s_users s))"

lemma sch_okI:
  "\<lbrakk>0 < sc_window_depth (s_conf s); list_all (user_ok (s_conf s) (s_hosts s)) (s_users s);
    list_all (job_ok (length (s_users s)) (length (s_hosts s))) (s_jobs s);
    totals_ok (s_users s) (s_jobs s); distinct (map h_hid (s_hosts s));
    distinct (map u_uid (s_users s))\<rbrakk> \<Longrightarrow> sch_ok s"
  by (simp add: sch_ok_def)

section \<open>Lists and tables\<close>

lemma totals_nth: "totals_ok us js \<Longrightarrow> k < length us \<Longrightarrow> u_total_jobs (us ! k) = int (jobs_of k js)"
  by (auto simp: totals_ok_def dest: arg_cong [where f = "\<lambda>xs. xs ! k"])

lemma totals_okI:
  "(\<And>k. k < length us \<Longrightarrow> u_total_jobs (us ! k) = int (jobs_of k js)) \<Longrightarrow> totals_ok us js"
  by (auto simp: totals_ok_def intro: nth_equalityI)

lemma jobs_of_append [simp]: "jobs_of k (xs @ ys) = jobs_of k xs + jobs_of k ys"
  by (simp add: jobs_of_def)

lemma jobs_of_Cons [simp]:
  "jobs_of k (j # js) = (if j_ua_id j = int k then 1 else 0) + jobs_of k js"
  by (simp add: jobs_of_def)

lemma jobs_of_Nil [simp]: "jobs_of k [] = 0"
  by (simp add: jobs_of_def)

lemma user_ok_lengths: "user_ok c hs u \<Longrightarrow> length (u_hosts u) = length hs"
  by (auto simp: user_ok_def dest: arg_cong [where f = length])

lemma map_eq_nth: "map f xs = map g ys \<Longrightarrow> i < length ys \<Longrightarrow> f (xs ! i) = g (ys ! i)"
  by (metis length_map nth_map)

lemma user_ok_hid: "user_ok c hs u \<Longrightarrow> i < length hs \<Longrightarrow> uh_hid (u_hosts u ! i) = h_hid (hs ! i)"
  unfolding user_ok_def by (blast intro: map_eq_nth)

lemma user_ok_ha: "user_ok c hs u \<Longrightarrow> i < length hs \<Longrightarrow> uh_ha_id (u_hosts u ! i) = int i"
  using map_eq_nth [of uh_ha_id "u_hosts u" int "[0..<length hs]" i] by (simp add: user_ok_def)

lemma sch_ok_user: "sch_ok s \<Longrightarrow> k < length (s_users s) \<Longrightarrow> user_ok (s_conf s) (s_hosts s) (s_users s ! k)"
  by (simp add: sch_ok_def list_all_length)

lemma sch_ok_job:
  "sch_ok s \<Longrightarrow> i < length (s_jobs s) \<Longrightarrow> job_ok (length (s_users s)) (length (s_hosts s)) (s_jobs s ! i)"
  by (simp add: sch_ok_def list_all_length)

lemma list_all_update: "list_all P xs \<Longrightarrow> P x \<Longrightarrow> list_all P (xs[i := x])"
  by (auto simp: list_all_iff dest: set_update_subset_insert [THEN subsetD])

lemma list_all_take [intro]: "list_all P xs \<Longrightarrow> list_all P (take n xs)"
  and list_all_drop [intro]: "list_all P xs \<Longrightarrow> list_all P (drop n xs)"
  by (auto simp: list_all_iff dest: in_set_takeD in_set_dropD)

lemma distinct_map_update: "f x = f (xs ! i) \<Longrightarrow> map f (xs[i := x]) = map f xs"
  by (cases "i < length xs") (simp_all add: map_update list_update_same_conv list_update_beyond)

lemma find_index_nth:
  "find_index P xs = Some i \<Longrightarrow> i < length xs" "find_index P xs = Some i \<Longrightarrow> P (xs ! i)"
  by (simp_all add: find_index_SomeD)

lemma find_index_distinct:
  "i < length xs \<Longrightarrow> distinct (map f xs) \<Longrightarrow> find_index (\<lambda>x. f x = f (xs ! i)) xs = Some i"
proof (induction xs arbitrary: i)
  case (Cons x xs)
  then show ?case by (cases i) auto
qed simp

lemma job_ok_more_hosts: "job_ok nu nh j \<Longrightarrow> nh \<le> nh' \<Longrightarrow> job_ok nu nh' j"
  by (auto simp: job_ok_def mhosts_ok_def queue_ok_def list_all_iff split: option.splits)

lemma job_ok_more_users: "job_ok nu nh j \<Longrightarrow> nu \<le> nu' \<Longrightarrow> job_ok nu' nh j"
  by (auto simp: job_ok_def)

section \<open>Hosts and users\<close>

lemma set_averages_ids [simp]:
  "uh_hid (set_averages r uh) = uh_hid uh" "uh_ha_id (set_averages r uh) = uh_ha_id uh"
  "uh_banned (set_averages r uh) = uh_banned uh"
  by (auto simp: set_averages_def split: option.split prod.split)

lemma new_user_host_ids [simp]:
  "uh_hid (new_user_host ha hid r) = hid" "uh_ha_id (new_user_host ha hid r) = ha"
  "uh_banned (new_user_host ha hid r) = 0"
  by (simp_all add: new_user_host_def)

lemma sch_ok_init: "0 < sc_window_depth (s_conf s) \<Longrightarrow> sch_ok (gw_scheduler_init s)"
  by (simp add: sch_ok_def gw_scheduler_init_def totals_ok_def)

lemma add_host_ok:
  assumes ok: "sch_ok s"
  shows "\<exists>s'. gw_scheduler_add_host acct s hid uslots rjobs name = Some s' \<and> sch_ok s'"
proof (cases "find_index (\<lambda>h. h_hid h = hid) (s_hosts s)")
  case None
  let ?i = "length (s_hosts s)"
  have len: "\<And>u. u \<in> set (s_users s) \<Longrightarrow> length (u_hosts u) = ?i"
    using ok by (auto simp: sch_ok_def list_all_iff user_ok_lengths)
  have new: "hid \<notin> h_hid ` set (s_hosts s)"
    using None by (auto simp: find_index_None list_all_iff)
  have "user_ok (s_conf s) (s_hosts s @ [h]) (u\<lparr>u_hosts := take ?i (u_hosts u) @ [new_user_host (int ?i) hid r]\<rparr>)"
    if "u \<in> set (s_users s)" "h_hid h = hid" for u r h
    using ok that len [OF that(1)]
    by (auto simp: sch_ok_def list_all_iff user_ok_def windows_ok_def)
  with None ok len new show ?thesis
    by (auto simp: gw_scheduler_add_host_def sch_ok_def list_all_iff Let_def totals_ok_def comp_def
         intro: job_ok_more_hosts)
next
  case (Some i)
  then have i: "i < length (s_hosts s)" "h_hid (s_hosts s ! i) = hid" by (auto dest: find_index_nth)
  let ?hs = "(s_hosts s)[i := (s_hosts s ! i)\<lparr>h_used_slots := uslots, h_running_jobs := rjobs\<rparr>]"
  have "map h_hid ?hs = map h_hid (s_hosts s)" by (rule distinct_map_update) simp
  with Some ok show ?thesis
    by (simp add: gw_scheduler_add_host_def sch_ok_def list_all_iff user_ok_def)
qed

lemma add_user_ok:
  assumes ok: "sch_ok s"
  shows "sch_ok (gw_scheduler_add_user acct s uid ajobs rjobs name)"
proof (cases "find_index (\<lambda>u. u_uid u = uid) (s_users s)")
  case None
  then have new: "uid \<notin> u_uid ` set (s_users s)"
    by (auto simp: find_index_None list_all_iff)
  have none: "jobs_of (length (s_users s)) (s_jobs s) = 0"
    using ok by (auto simp: sch_ok_def jobs_of_def filter_empty_conv list_all_iff job_ok_def)
  from ok have t: "totals_ok (s_users s) (s_jobs s)" by (simp add: sch_ok_def)
  from None ok new none t show ?thesis
    by (auto simp: gw_scheduler_add_user_def sch_ok_def list_all_iff Let_def totals_ok_def
         user_ok_def windows_ok_def map_nth comp_def intro: job_ok_more_users
         intro!: nth_equalityI)
next
  case (Some i)
  then have i: "i < length (s_users s)" by (auto dest: find_index_nth)
  let ?u = "(s_users s ! i)\<lparr>u_active_jobs := ajobs, u_running_jobs := rjobs\<rparr>"
  have "map u_uid ((s_users s)[i := ?u]) = map u_uid (s_users s)"
    and "map u_total_jobs ((s_users s)[i := ?u]) = map u_total_jobs (s_users s)"
    by (rule distinct_map_update, simp)+
  moreover have "user_ok (s_conf s) (s_hosts s) ?u"
    using sch_ok_user [OF ok i] by (simp add: user_ok_def windows_ok_def)
  ultimately show ?thesis
    using Some ok
    by (simp add: gw_scheduler_add_user_def sch_ok_def totals_ok_def list_all_update)
qed

section \<open>Jobs\<close>

lemma job_add_ok:
  assumes ok: "sch_ok s"
  shows "sch_ok (gw_scheduler_job_add now s jid aid np reason fp uid dl)"
proof (cases "find_index (\<lambda>u. u_uid u = uid) (s_users s)")
  case (Some k)
  then have k: "k < length (s_users s)" by (auto dest: find_index_nth)
  let ?u = "(s_users s ! k)\<lparr>u_total_jobs := u_total_jobs (s_users s ! k) + 1\<rparr>"
  have ids: "map u_uid ((s_users s)[k := ?u]) = map u_uid (s_users s)"
    by (rule distinct_map_update) simp
  have u: "user_ok (s_conf s) (s_hosts s) ?u"
    using sch_ok_user [OF ok k] by (simp add: user_ok_def windows_ok_def)
  from ok have t: "totals_ok (s_users s) (s_jobs s)" by (simp add: sch_ok_def)
  have "totals_ok ((s_users s)[k := ?u]) (s_jobs s @ [j])" if "j_ua_id j = int k" for j
    using k that totals_nth [OF t] by (intro totals_okI) (auto simp: nth_list_update)
  with Some k ok ids u show ?thesis
    by (simp add: gw_scheduler_job_add_def sch_ok_def list_all_update job_ok_def mhosts_ok_def)
qed (use ok in \<open>simp add: gw_scheduler_job_add_def\<close>)

lemma job_del_user_ok:
  assumes "user_ok c hs u" and "0 < sc_window_depth c"
  shows "\<exists>u'. job_del_user d u = Some u' \<and> user_ok c hs u' \<and> u_uid u' = u_uid u
     \<and> u_total_jobs u' = u_total_jobs u - 1"
proof -
  obtain ws where ws: "u_sub_windows u = Some ws" "int (length ws) = sc_window_depth c"
    using assms by (auto simp: user_ok_def windows_ok_def split: option.splits)
  with assms(2) have "rd ws 0 = Some (ws ! 0)" and "wr ws 0 x = Some (ws[0 := x])" for x
    by (auto simp: rd_def wr_def)
  with assms ws show ?thesis
    by (auto simp: job_del_user_def user_ok_def windows_ok_def Let_def)
qed

lemma jobs_of_remove:
  "i < length js \<Longrightarrow> int (jobs_of k (take i js @ drop (Suc i) js))
     = int (jobs_of k js) - (if j_ua_id (js ! i) = int k then 1 else 0)"
  by (subst (3) id_take_nth_drop [of i js]) auto

lemma job_del_ok:
  assumes ok: "sch_ok s"
  shows "\<exists>s'. gw_scheduler_job_del s jid d = Some s' \<and> sch_ok s'"
proof (cases "find_index (\<lambda>j. j_jid j = jid) (s_jobs s)")
  case (Some i)
  then have i: "i < length (s_jobs s)" by (auto dest: find_index_nth)
  define k where "k = nat (j_ua_id (s_jobs s ! i))"
  from sch_ok_job [OF ok i] have k: "k < length (s_users s)" "j_ua_id (s_jobs s ! i) = int k"
    by (auto simp: job_ok_def k_def)
  obtain u' where u': "job_del_user d (s_users s ! k) = Some u'"
      "user_ok (s_conf s) (s_hosts s) u'" "u_uid u' = u_uid (s_users s ! k)"
      "u_total_jobs u' = u_total_jobs (s_users s ! k) - 1"
    using job_del_user_ok [OF sch_ok_user [OF ok k(1)]] ok by (auto simp: sch_ok_def)
  have ids: "map u_uid ((s_users s)[k := u']) = map u_uid (s_users s)"
    by (rule distinct_map_update) (rule u'(3))
  from ok have t: "totals_ok (s_users s) (s_jobs s)" by (simp add: sch_ok_def)
  have "totals_ok ((s_users s)[k := u']) (take i (s_jobs s) @ drop (Suc i) (s_jobs s))"
    using k u'(4) totals_nth [OF t] jobs_of_remove [OF i]
    by (intro totals_okI) (auto simp: nth_list_update)
  moreover have "list_all (job_ok (length (s_users s)) (length (s_hosts s)))
      (take i (s_jobs s) @ drop (Suc i) (s_jobs s))"
    using ok by (auto simp: sch_ok_def)
  ultimately show ?thesis
    using Some k u' ids ok
    by (simp add: gw_scheduler_job_del_def sch_ok_def list_all_update)
qed (use ok in \<open>simp add: gw_scheduler_job_del_def\<close>)

lemma job_del_length:
  "find_index (\<lambda>j. j_jid j = jid) (s_jobs s) = Some i \<Longrightarrow> gw_scheduler_job_del s jid d = Some s' \<Longrightarrow>
   Suc (length (s_jobs s')) = length (s_jobs s)"
  by (auto simp: gw_scheduler_job_del_def bind_Some_iff dest: find_index_nth)

lemma find_user_host_ok: "length hs = n \<Longrightarrow> \<exists>r. find_user_host n hs hid = Some r \<and>
   (\<forall>i. r = Some i \<longrightarrow> i < n \<and> uh_hid (hs ! i) = hid)"
  by (auto simp: find_user_host_def split: option.split dest: find_index_nth)

lemma on_user_host_ok:
  assumes ok: "sch_ok s"
    and f: "\<And>th. \<exists>th'. f th = Some th' \<and> uh_hid th' = uh_hid th \<and> uh_ha_id th' = uh_ha_id th"
  shows "\<exists>s'. on_user_host f s hid uid = Some s' \<and> sch_ok s'"
proof (cases "find_index (\<lambda>u. u_uid u = uid) (s_users s)")
  case (Some k)
  then have k: "k < length (s_users s)" by (auto dest: find_index_nth)
  let ?u = "s_users s ! k"
  have u: "user_ok (s_conf s) (s_hosts s) ?u" using sch_ok_user [OF ok k] .
  obtain r where r: "find_user_host (length (s_hosts s)) (u_hosts ?u) hid = Some r"
    using find_user_host_ok [OF user_ok_lengths [OF u]] by blast
  show ?thesis
  proof (cases r)
    case (Some i)
    obtain th where th: "f (u_hosts ?u ! i) = Some th" "uh_hid th = uh_hid (u_hosts ?u ! i)"
        "uh_ha_id th = uh_ha_id (u_hosts ?u ! i)"
      using f by blast
    let ?u' = "?u\<lparr>u_hosts := (u_hosts ?u)[i := th]\<rparr>"
    have "map uh_hid ((u_hosts ?u)[i := th]) = map uh_hid (u_hosts ?u)"
      and "map uh_ha_id ((u_hosts ?u)[i := th]) = map uh_ha_id (u_hosts ?u)"
      using th by (auto intro: distinct_map_update)
    with u have "user_ok (s_conf s) (s_hosts s) ?u'" by (simp add: user_ok_def windows_ok_def)
    moreover have "map u_uid ((s_users s)[k := ?u']) = map u_uid (s_users s)"
      and "map u_total_jobs ((s_users s)[k := ?u']) = map u_total_jobs (s_users s)"
      by (rule distinct_map_update, simp)+
    ultimately show ?thesis
      using ok r Some th \<open>find_index (\<lambda>u. u_uid u = uid) (s_users s) = Some k\<close>
      by (auto simp: on_user_host_def Let_def sch_ok_def totals_ok_def list_all_update)
  qed (use ok r Some in \<open>auto simp: on_user_host_def Let_def\<close>)
qed (use ok in \<open>simp add: on_user_host_def\<close>)

lemma job_success_ok:
  "sch_ok s \<Longrightarrow> \<exists>s'. gw_scheduler_job_success s hid uid txfr tsus texe = Some s' \<and> sch_ok s'"
  unfolding gw_scheduler_job_success_def by (rule on_user_host_ok) auto

section \<open>Windows\<close>

lemma length_shift_windows [simp]: "length (shift_windows j ws) = length ws"
  by (induction j arbitrary: ws) auto

lemma shift_windows_nth:
  "j < length ws \<Longrightarrow> i < length ws \<Longrightarrow>
   shift_windows j ws ! i = (if 0 < i \<and> i \<le> j then ws ! (i - 1) else ws ! i)"
  by (induction j arbitrary: ws) (auto simp: nth_list_update le_Suc_eq)

lemma update_window_ok:
  assumes "windows_ok c u" and "0 < sc_window_depth c"
  obtains ws where "u_sub_windows u = Some ws"
    and "update_window (nat (sc_window_depth c)) u = Some (u\<lparr>u_sub_windows := Some (0 # butlast ws)\<rparr>)"
proof -
  obtain ws where ws: "u_sub_windows u = Some ws" "int (length ws) = sc_window_depth c"
    using assms by (auto simp: windows_ok_def split: option.splits)
  let ?d = "nat (sc_window_depth c)"
  have d: "length ws = ?d" "0 < ?d" using ws assms by auto
  have "(shift_windows (?d - 1) ws)[0 := 0] = 0 # butlast ws"
    using d by (intro nth_equalityI) (auto simp: nth_list_update nth_Cons' shift_windows_nth nth_butlast)
  with ws d have "update_window ?d u = Some (u\<lparr>u_sub_windows := Some (0 # butlast ws)\<rparr>)"
    by (auto simp: update_window_def)
  with ws show ?thesis using that by blast
qed

definition age_windows :: "gw_sch_user \<Rightarrow> gw_sch_user" where
  "age_windows u = u\<lparr>u_sub_windows := map_option (\<lambda>ws. 0 # butlast ws) (u_sub_windows u)\<rparr>"

lemma map_users_age:
  "0 < sc_window_depth c \<Longrightarrow> list_all (windows_ok c) us \<Longrightarrow>
   map_users (update_window (nat (sc_window_depth c))) us = Some (map age_windows us)"
proof (induction us)
  case (Cons u us)
  then obtain ws where "u_sub_windows u = Some ws"
    and "update_window (nat (sc_window_depth c)) u = Some (u\<lparr>u_sub_windows := Some (0 # butlast ws)\<rparr>)"
    by (auto elim: update_window_ok)
  with Cons show ?case by (simp add: age_windows_def)
qed simp

lemma sch_ok_windows: "sch_ok s \<Longrightarrow> list_all (windows_ok (s_conf s)) (s_users s)"
  by (auto simp: sch_ok_def user_ok_def list_all_iff)

lemma update_windows_eq:
  "sch_ok s \<Longrightarrow> gw_scheduler_user_update_windows s = Some (s\<lparr>s_users := map age_windows (s_users s)\<rparr>)"
  using map_users_age [of "s_conf s" "s_users s"] sch_ok_windows [of s]
  by (auto simp: gw_scheduler_user_update_windows_def sch_ok_def)

lemma age_windows_ok:
  "user_ok c hs u \<Longrightarrow> 0 < sc_window_depth c \<Longrightarrow> user_ok c hs (age_windows u)"
  by (auto simp: user_ok_def windows_ok_def age_windows_def split: option.splits)

lemma age_windows_fields [simp]:
  "u_uid (age_windows u) = u_uid u" "u_total_jobs (age_windows u) = u_total_jobs u"
  by (simp_all add: age_windows_def)

lemma update_windows_ok:
  "sch_ok s \<Longrightarrow> \<exists>s'. gw_scheduler_user_update_windows s = Some s' \<and> sch_ok s'"
  by (simp add: update_windows_eq)
    (auto simp: sch_ok_def list_all_iff totals_ok_def comp_def intro: age_windows_ok)

lemma update_usage_ok:
  assumes ok: "sch_ok s"
  shows "\<exists>s'. gw_scheduler_update_usage_host acct s = Some s' \<and> sch_ok s'"
proof -
  let ?n = "length (s_hosts s)"
  have len: "length (u_hosts u) = ?n" if "u \<in> set (s_users s)" for u
    using ok that by (auto simp: sch_ok_def list_all_iff user_ok_lengths)
  have ids: "0 \<le> uh_ha_id uh \<and> uh_ha_id uh < int ?n"
    if "u \<in> set (s_users s)" "uh \<in> set (u_hosts u)" for u uh
  proof -
    from ok that have "uh_ha_id uh \<in> set (map int [0..<?n])"
      by (metis (no_types, lifting) list.set_map image_eqI list_all_iff sch_ok_def user_ok_def)
    then show ?thesis by auto
  qed
  have "list_all (\<lambda>u. ?n \<le> length (u_hosts u)
      \<and> list_all (\<lambda>uh. 0 \<le> uh_ha_id uh \<and> uh_ha_id uh < int ?n) (take ?n (u_hosts u))) (s_users s)"
    using len ids by (auto simp: list_all_iff dest: in_set_takeD)
  moreover have "user_ok (s_conf s) (s_hosts s) (u\<lparr>u_hosts := map f (take ?n (u_hosts u)) @ drop ?n (u_hosts u)\<rparr>)"
    if "u \<in> set (s_users s)" "\<And>uh. uh_hid (f uh) = uh_hid uh \<and> uh_ha_id (f uh) = uh_ha_id uh" for u f
    using ok that len [OF that(1)]
    by (auto simp: sch_ok_def list_all_iff user_ok_def windows_ok_def comp_def)
  ultimately show ?thesis
    using ok by (simp add: gw_scheduler_update_usage_host_def sch_ok_def list_all_iff totals_ok_def comp_def)
qed

section \<open>Removing a user\<close>

lemma drop_user_ok:
  assumes ok: "sch_ok s" and last: "list_all (\<lambda>j. j_ua_id j < int i) (s_jobs s)"
    and i: "i \<le> length (s_users s)" "us = take i (s_users s) @ drop (Suc i) (s_users s)"
  shows "sch_ok (s\<lparr>s_users := us\<rparr>)"
proof (rule sch_okI)
  from ok have t: "totals_ok (s_users s) (s_jobs s)" by (simp add: sch_ok_def)
  have none: "jobs_of k (s_jobs s) = 0" if "i \<le> k" for k
    using last that by (auto simp: jobs_of_def filter_empty_conv list_all_iff)
  show "totals_ok (s_users (s\<lparr>s_users := us\<rparr>)) (s_jobs (s\<lparr>s_users := us\<rparr>))"
    using totals_nth [OF t] none i
    by (intro totals_okI) (auto simp: nth_append min_def not_less)
  show "list_all (job_ok (length (s_users (s\<lparr>s_users := us\<rparr>))) (length (s_hosts (s\<lparr>s_users := us\<rparr>))))
      (s_jobs (s\<lparr>s_users := us\<rparr>))"
    using ok last i by (auto simp: sch_ok_def list_all_iff job_ok_def)
  have "distinct us"
    using ok i by (auto simp: sch_ok_def distinct_map set_take_disj_set_drop_if_distinct)
  moreover have "set us \<subseteq> set (s_users s)"
    using i by (auto dest: in_set_takeD in_set_dropD)
  ultimately show "distinct (map u_uid (s_users (s\<lparr>s_users := us\<rparr>)))"
    using ok by (auto simp: sch_ok_def distinct_map inj_on_subset)
  show "list_all (user_ok (s_conf (s\<lparr>s_users := us\<rparr>)) (s_hosts (s\<lparr>s_users := us\<rparr>)))
      (s_users (s\<lparr>s_users := us\<rparr>))"
    using ok \<open>set us \<subseteq> set (s_users s)\<close> by (auto simp: sch_ok_def list_all_iff)
qed (use ok in \<open>simp_all add: sch_ok_def\<close>)

lemma del_user_ok:
  assumes ok: "sch_ok s"
    and i: "find_index (\<lambda>u. u_uid u = uid) (s_users s) = Some i"
    and last: "list_all (\<lambda>j. j_ua_id j < int i) (s_jobs s)"
  shows "\<exists>s'. gw_scheduler_del_user s uid = Some s' \<and> sch_ok s'"
proof -
  have "i < length (s_users s)" using i by (rule find_index_nth)
  then have "(length (s_users s) = 1 \<longrightarrow> i = 0) \<and> s_users s \<noteq> []" by auto
  with drop_user_ok [OF ok last, of "take i (s_users s) @ drop (Suc i) (s_users s)"] i
    \<open>i < length (s_users s)\<close>
  show ?thesis by (auto simp: gw_scheduler_del_user_def)
qed

end
