(* ===== verification/Sch_Match.thy ===== *)
theory Sch_Match
  imports Sch_Ban "HOL-Library.Multiset"
begin

text \<open>
  The choice of hosts for a job: \<open>gw_scheduler_filter_select_queues\<close> and
  \<open>gw_scheduler_matching_arrays\<close> of \<open>src/scheduler/gw_scheduler_jobs.c\<close>, and
  \<open>gw_scheduler_host_policies\<close> of \<open>gw_scheduler_hosts.c\<close>.  The replies of the daemon
  to the requests of the client library (the hosts that match a job, the history of a
  job) are functions of the environment, \<open>None\<close> for a failed request; \<open>qsort\<close> of the
  C library, whose order of equal elements is not specified, is another one.
\<close>

section \<open>Replies of the daemon\<close>

record match_queue =
  mq_name :: string
  mq_match :: bool
  mq_rank :: int
  mq_slots :: int

record gw_msg_match =
  mm_host_id :: int
  mm_fixed_priority :: int
  mm_queues :: "match_queue list"

record gw_msg_history =
  mh_host_id :: int
  mh_rank :: int

record sch_env =
  e_now :: int
  e_exp :: "flt \<Rightarrow> flt"
  e_match :: "int \<Rightarrow> int \<Rightarrow> gw_msg_match list option"
  e_history :: "int \<Rightarrow> gw_msg_history list option"
  e_status :: "int \<Rightarrow> (int \<times> int \<times> int) option"
  e_acct :: acct
  e_qsort_queues :: "(gw_sch_queue \<Rightarrow> gw_sch_queue \<Rightarrow> int) \<Rightarrow> gw_sch_queue list \<Rightarrow> gw_sch_queue list"
  e_qsort_jobs :: "(gw_sch_job \<Rightarrow> gw_sch_job \<Rightarrow> int) \<Rightarrow> gw_sch_job list \<Rightarrow> gw_sch_job list"

section \<open>Filter\<close>

definition isinhistory :: "int \<Rightarrow> gw_msg_history list \<Rightarrow> bool" where
  "isinhistory hid hl = list_ex (\<lambda>h. mh_host_id h = hid) hl"

text \<open>
  Whether the host of a reply may be used for the job.  The history is asked for when
  the first host needs it, and kept.  Its first record is read without a check.
\<close>

definition filter_host ::
    "sch_env \<Rightarrow> gw_sch_user_host list \<Rightarrow> nat \<Rightarrow> gw_sch_job \<Rightarrow> gw_msg_match \<Rightarrow> bool option" where
  "filter_host env uhosts nhosts job m = do {
     r \<leftarrow> find_user_host nhosts uhosts (mm_host_id m);
     (case r of
        None \<Rightarrow> Some False
      | Some j \<Rightarrow>
          if e_now env \<le> uh_banned (uhosts ! j) then Some False
          else if j_reason job = GW_REASON_USER_REQUESTED \<or> j_reason job = GW_REASON_SUSPENSION_TIME then
            (case e_history env (j_jid job) of
               None \<Rightarrow> Some False
             | Some hl \<Rightarrow> Some (\<not> isinhistory (mm_host_id m) hl))
          else if j_reason job = GW_REASON_RESCHEDULING_TIMEOUT then
            (case e_history env (j_jid job) of
               None \<Rightarrow> Some False
             | Some hl \<Rightarrow> if isinhistory (mm_host_id m) hl then Some False
                 else (case hl of
                     [] \<Rightarrow> None
                   | h # _ \<Rightarrow> Some (list_ex (\<lambda>q. mq_rank q > mh_rank h) (mm_queues m))))
          else Some (mm_fixed_priority m \<noteq> 0))
   }"

text \<open>
  The queue of a host: the loop over the others, with the best rank so far, the slots
  \<open>mfnc\<close> it compares with and the queue chosen.
\<close>

fun select_queue_loop :: "nat \<Rightarrow> int \<Rightarrow> int \<Rightarrow> nat \<Rightarrow> match_queue list \<Rightarrow> nat" where
  "select_queue_loop j mrank mfnc qnum [] = qnum"
| "select_queue_loop j mrank mfnc qnum (q # qs) =
     (if mq_rank q > mrank then select_queue_loop (Suc j) (mq_rank q) mfnc j qs
      else if mq_rank q = mrank then
        if mq_slots q > mfnc then select_queue_loop (Suc j) mrank (mq_slots q) j qs
        else select_queue_loop (Suc j) mrank mfnc qnum qs
      else select_queue_loop (Suc j) mrank mfnc qnum qs)"

definition select_queue :: "match_queue list \<Rightarrow> nat option" where
  "select_queue qs = (case qs of
       [] \<Rightarrow> None
     | q # rest \<Rightarrow> Some (select_queue_loop 1 (mq_rank q) (mq_slots q) 0 rest))"

text \<open>The array \<open>hosts\<close>: per reply the queue chosen, \<open>None\<close> for \<open>-1\<close>.\<close>

fun filter_select ::
    "sch_env \<Rightarrow> gw_sch_user_host list \<Rightarrow> nat \<Rightarrow> gw_sch_job \<Rightarrow> gw_msg_match list \<Rightarrow> nat option list option"
where
  "filter_select env uhosts nhosts job [] = Some []"
| "filter_select env uhosts nhosts job (m # ms) = do {
     keep \<leftarrow> filter_host env uhosts nhosts job m;
     r \<leftarrow> (if keep then map_option Some (select_queue (mm_queues m)) else Some None);
     rs \<leftarrow> filter_select env uhosts nhosts job ms;
     Some (r # rs)
   }"

definition gw_scheduler_filter_select_queues ::
    "sch_env \<Rightarrow> gw_scheduler \<Rightarrow> gw_sch_job \<Rightarrow> gw_msg_match list \<Rightarrow> (nat option list \<times> nat) option" where
  "gw_scheduler_filter_select_queues env s job ms = do {
     u \<leftarrow> rd (s_users s) (j_ua_id job);
     hosts \<leftarrow> filter_select env (u_hosts u) (length (s_hosts s)) job ms;
     Some (hosts, length (filter (\<lambda>h. h \<noteq> None) hosts))
   }"

section \<open>Host policies\<close>

definition INT_MIN :: int where "INT_MIN = - (2 ^ 31)"
definition INT_MAX :: int where "INT_MAX = 2 ^ 31 - 1"
definition FLT_MAX :: flt where "FLT_MAX = Fin ((2 ^ 24 - 1) * 2 ^ 104)"

definition queue_cmp :: "gw_sch_queue \<Rightarrow> gw_sch_queue \<Rightarrow> int" where
  "queue_cmp r1 r2 = (if f_lt (q_priority r1) (q_priority r2) then 1
     else if f_lt (q_priority r2) (q_priority r1) then - 1 else 0)"

record host_extrema =
  x_max_fixed :: int
  x_max_rank :: int
  x_min_rank :: int
  x_min_usage :: flt
  x_max_usage :: flt

definition no_extrema :: host_extrema where
  "no_extrema = \<lparr>x_max_fixed = 0, x_max_rank = INT_MIN, x_min_rank = INT_MAX,
     x_min_usage = FLT_MAX, x_max_usage = Fin 0\<rparr>"

definition see_queue :: "gw_sch_queue \<Rightarrow> host_extrema \<Rightarrow> host_extrema" where
  "see_queue q x =
     \<lparr>x_max_fixed = (if q_fixed q > x_max_fixed x then q_fixed q else x_max_fixed x),
      x_max_rank = (if q_rank q > x_max_rank x then q_rank q else x_max_rank x),
      x_min_rank = (if q_rank q < x_min_rank x then q_rank q else x_min_rank x),
      x_min_usage = (if f_lt (q_usage q) (x_min_usage x) \<and> \<not> f_eq0 (q_usage q)
         then q_usage q else x_min_usage x),
      x_max_usage = (if f_lt (x_max_usage x) (q_usage q) then q_usage q else x_max_usage x)\<rparr>"

text \<open>The first loop: the usage of each queue's host, and the extrema.\<close>

definition queue_usage :: "gw_scheduler \<Rightarrow> gw_sch_user_host list \<Rightarrow> gw_sch_queue \<Rightarrow> gw_sch_queue option" where
  "queue_usage s uhosts q =
     (if f_lt (Fin 0) (sc_wusage (s_conf s)) then
        map_option (\<lambda>uh. q\<lparr>q_usage := gw_scheduler_host_estimated_time uh s\<rparr>) (rd uhosts (q_uha_id q))
      else Some q)"

fun usage_loop ::
    "gw_scheduler \<Rightarrow> gw_sch_user_host list \<Rightarrow> gw_sch_queue list \<Rightarrow> host_extrema \<Rightarrow>
     (gw_sch_queue list \<times> host_extrema) option" where
  "usage_loop s uhosts [] x = Some ([], x)"
| "usage_loop s uhosts (q # qs) x = do {
     q' \<leftarrow> queue_usage s uhosts q;
     (qs', x') \<leftarrow> usage_loop s uhosts qs (see_queue q' x);
     Some (q' # qs', x')
   }"

text \<open>The second loop: the normalised policies and the priority of a queue.\<close>

definition int_ratio :: "int \<Rightarrow> int \<Rightarrow> flt" where
  "int_ratio i m = fdiv binary32 (f_of_int binary32 i) (f_of_int binary32 m)"

definition norm_rank :: "host_extrema \<Rightarrow> int \<Rightarrow> flt" where
  "norm_rank x rank =
     (if rank > 0 \<and> x_max_rank x \<noteq> 0 then int_ratio rank (x_max_rank x)
      else if rank < 0 \<and> x_min_rank x \<noteq> 0
        then fdiv binary32 (fminus (f_of_int binary32 rank)) (f_of_int binary32 (x_min_rank x))
      else Fin 0)"

definition norm_usage :: "host_extrema \<Rightarrow> flt \<Rightarrow> flt" where
  "norm_usage x usage =
     (if f_eq0 usage then
        if f_eq0 (x_max_usage x) then Fin 0 else fdiv binary32 (x_min_usage x) (x_max_usage x)
      else fdiv binary32 (x_min_usage x) usage)"

definition weighted :: "flt \<Rightarrow> flt \<Rightarrow> flt \<Rightarrow> flt \<Rightarrow> flt \<Rightarrow> flt \<Rightarrow> flt" where
  "weighted w1 n1 w2 n2 w3 n3 =
     fadd binary32 (fadd binary32 (fmul binary32 w1 n1) (fmul binary32 w2 n2)) (fmul binary32 w3 n3)"

definition queue_policy :: "gw_sch_conf \<Rightarrow> host_extrema \<Rightarrow> gw_sch_queue \<Rightarrow> gw_sch_queue" where
  "queue_policy c x q =
     (let nfixed = int_ratio (q_fixed q) (x_max_fixed x);
          nrank = norm_rank x (q_rank q);
          nusage = norm_usage x (q_usage q) in
      q\<lparr>q_nfixed := nfixed, q_nrank := nrank, q_nusage := nusage,
        q_priority := weighted (sc_wrfixed c) nfixed (sc_wrank c) nrank (sc_wusage c) nusage\<rparr>)"

definition rank_queues ::
    "((gw_sch_queue \<Rightarrow> gw_sch_queue \<Rightarrow> int) \<Rightarrow> gw_sch_queue list \<Rightarrow> gw_sch_queue list) \<Rightarrow>
     gw_scheduler \<Rightarrow> gw_sch_user_host list \<Rightarrow> gw_sch_queue list \<Rightarrow> gw_sch_queue list option" where
  "rank_queues qs s uhosts mhosts = do {
     (mhosts', x) \<leftarrow> usage_loop s uhosts mhosts no_extrema;
     Some (qs queue_cmp (map (queue_policy (s_conf s) x) mhosts'))
   }"

definition gw_scheduler_host_policies :: "sch_env \<Rightarrow> gw_scheduler \<Rightarrow> nat \<Rightarrow> gw_scheduler option" where
  "gw_scheduler_host_policies env s i = do {
     job \<leftarrow> rd (s_jobs s) (int i);
     u \<leftarrow> rd (s_users s) (j_ua_id job);
     (case j_mhosts job of
        None \<Rightarrow> Some s
      | Some mhosts \<Rightarrow> do {
          mhosts' \<leftarrow> rank_queues (e_qsort_queues env) s (u_hosts u) mhosts;
          Some (s\<lparr>s_jobs := (s_jobs s)[i := job\<lparr>j_mhosts := Some mhosts'\<rparr>]\<rparr>)
        })
   }"

section \<open>Matching\<close>

text \<open>
  The candidates of a job, one for each reply with a queue, in the order of the replies.
  The normalised fields are set by the policies only.
\<close>

definition candidate :: "nat \<Rightarrow> gw_sch_user_host \<Rightarrow> gw_msg_match \<Rightarrow> match_queue \<Rightarrow> gw_sch_queue" where
  "candidate l uh m q = \<lparr>q_ha_id = uh_ha_id uh, q_uha_id = int l, q_qname = take 24 (mq_name q),
     q_slots = mq_slots q, q_fixed = mm_fixed_priority m, q_nfixed = Fin 0, q_rank = mq_rank q,
     q_nrank = Fin 0, q_usage = Fin 0, q_nusage = Fin 0, q_priority = Fin 0\<rparr>"

fun build_candidates ::
    "gw_sch_user_host list \<Rightarrow> nat \<Rightarrow> gw_msg_match list \<Rightarrow> nat option list \<Rightarrow> gw_sch_queue list option"
where
  "build_candidates uhosts nhosts (m # ms) (Some idx # hs) = do {
     r \<leftarrow> find_user_host nhosts uhosts (mm_host_id m);
     rest \<leftarrow> build_candidates uhosts nhosts ms hs;
     (case r of
        None \<Rightarrow> Some rest
      | Some l \<Rightarrow> Some (candidate l (uhosts ! l) m (mm_queues m ! idx) # rest))
   }"
| "build_candidates uhosts nhosts (m # ms) (None # hs) = build_candidates uhosts nhosts ms hs"
| "build_candidates uhosts nhosts _ _ = Some []"

text \<open>A job that cannot be placed again is given up with a line to the daemon.\<close>

definition failed_line :: "int \<Rightarrow> string" where
  "failed_line jid = ''SCHEDULE_JOB '' @ show_int jid @ '' FAILED reschedule'' @ [CHR 0x0A]"

text \<open>
  Match-making of the job at index \<open>i\<close> by a request.  \<open>tqs\<close> entries are allocated; an
  entry that is not filled would be read unset (\<open>None\<close>).
\<close>

definition set_mhosts :: "gw_scheduler \<Rightarrow> nat \<Rightarrow> gw_sch_queue list option \<Rightarrow> gw_scheduler" where
  "set_mhosts s i q = s\<lparr>s_jobs := (s_jobs s)[i := (s_jobs s ! i)\<lparr>j_mhosts := q\<rparr>]\<rparr>"

definition match_request ::
    "sch_env \<Rightarrow> gw_scheduler \<Rightarrow> nat \<Rightarrow> gw_msg_match list \<Rightarrow> (gw_scheduler \<times> string list) option" where
  "match_request env s i ms = do {
     let job = s_jobs s ! i;
     (hosts, tqs) \<leftarrow> gw_scheduler_filter_select_queues env s job ms;
     if tqs > 0 then do {
       u \<leftarrow> rd (s_users s) (j_ua_id job);
       qs \<leftarrow> build_candidates (u_hosts u) (length (s_hosts s)) ms hosts;
       if length qs = tqs then do {
         let s' = set_mhosts s i (Some qs);
         s'' \<leftarrow> (if sc_disable (s_conf s) = 0 then gw_scheduler_host_policies env s' i else Some s');
         Some (s'', [])
       } else None
     } else Some (s, if j_reason job \<noteq> GW_REASON_NONE then [failed_line (j_jid job)] else [])
   }"

text \<open>
  One job of the loop, with the array of the last match-making (\<open>last_array\<close>).  A job
  of the same array gets a copy of the list of the job before it.
\<close>

definition match_job ::
    "sch_env \<Rightarrow> nat \<Rightarrow> gw_scheduler \<times> int \<times> string list \<Rightarrow> (gw_scheduler \<times> int \<times> string list) option" where
  "match_job env i st = (case st of (s, last_array, out) \<Rightarrow>
     let s = set_mhosts s i None; job = s_jobs s ! i; aid = j_aid job in
     if aid = - 1 \<or> last_array \<noteq> aid \<or> j_reason job = GW_REASON_SELF_MIGRATION then
       (case e_match env (j_jid job) aid of
          None \<Rightarrow> Some (s, last_array, out)
        | Some ms \<Rightarrow>
            if ms = [] then Some (s, last_array, out)
            else do {
              (s', lines) \<leftarrow> match_request env s i ms;
              Some (s', if j_reason job = GW_REASON_SELF_MIGRATION then - 1 else aid, out @ lines)
            })
     else if i = 0 then None
     else Some (set_mhosts s i (Some (case j_mhosts (s_jobs s ! (i - 1)) of None \<Rightarrow> [] | Some qs \<Rightarrow> qs)),
            last_array, out))"

fun match_loop ::
    "sch_env \<Rightarrow> nat list \<Rightarrow> gw_scheduler \<times> int \<times> string list \<Rightarrow> (gw_scheduler \<times> int \<times> string list) option"
where
  "match_loop env [] st = Some st"
| "match_loop env (i # is) st = Option.bind (match_job env i st) (match_loop env is)"

definition gw_scheduler_matching_arrays ::
    "sch_env \<Rightarrow> gw_scheduler \<Rightarrow> (gw_scheduler \<times> string list) option" where
  "gw_scheduler_matching_arrays env s = map_option (\<lambda>(s', la, out). (s', out))
     (match_loop env [0..<length (s_jobs s)] (s, - 1, []))"

section \<open>The queue chosen has the best rank\<close>

lemma select_queue_loop_best:
  "\<lbrakk>length pre = j; qnum < j; mrank = mq_rank (pre ! qnum); \<forall>q \<in> set pre. mq_rank q \<le> mrank\<rbrakk> \<Longrightarrow>
   select_queue_loop j mrank mfnc qnum qs < length (pre @ qs)
   \<and> (\<forall>q \<in> set (pre @ qs). mq_rank q \<le> mq_rank ((pre @ qs) ! select_queue_loop j mrank mfnc qnum qs))"
proof (induction qs arbitrary: pre j mrank mfnc qnum)
  case (Cons q qs)
  note IH = Cons.IH [of "pre @ [q]" "Suc j"]
  show ?case
  proof (cases "mq_rank q > mrank")
    case True
    with IH [of j "mq_rank q" mfnc] Cons.prems show ?thesis by fastforce
  next
    case False
    with IH [of qnum mrank mfnc] IH [of j mrank "mq_slots q"] Cons.prems show ?thesis
      by (auto simp: nth_append)
  qed
qed auto

lemma select_queue_best:
  "select_queue qs = Some i \<Longrightarrow> i < length qs \<and> (\<forall>q \<in> set qs. mq_rank q \<le> mq_rank (qs ! i))"
proof (cases qs)
  case (Cons q rest)
  assume "select_queue qs = Some i"
  with Cons select_queue_loop_best [of "[q]" 1 0 "mq_rank q" "mq_slots q" rest]
  show ?thesis by (simp add: select_queue_def)
qed (simp add: select_queue_def)

lemma select_queue_total: "qs \<noteq> [] \<Longrightarrow> \<exists>i. select_queue qs = Some i"
  by (cases qs) (simp_all add: select_queue_def)

section \<open>Replies the daemon sends\<close>

definition reply_ok :: "gw_msg_match list \<Rightarrow> bool" where
  "reply_ok ms \<longleftrightarrow> list_all (\<lambda>m. mm_queues m \<noteq> []) ms"

definition qsort_perm :: "(('a \<Rightarrow> 'a \<Rightarrow> int) \<Rightarrow> 'a list \<Rightarrow> 'a list) \<Rightarrow> bool" where
  "qsort_perm qs \<longleftrightarrow> (\<forall>cmp xs. mset (qs cmp xs) = mset xs)"

definition env_ok :: "sch_env \<Rightarrow> bool" where
  "env_ok env \<longleftrightarrow> (\<forall>jid aid ms. e_match env jid aid = Some ms \<longrightarrow> reply_ok ms)
     \<and> (\<forall>jid hl. e_history env jid = Some hl \<longrightarrow> hl \<noteq> [])
     \<and> qsort_perm (e_qsort_queues env) \<and> qsort_perm (e_qsort_jobs env)"

lemma qsort_list_all: "qsort_perm qs \<Longrightarrow> list_all P (qs cmp xs) = list_all P xs"
  unfolding qsort_perm_def list_all_iff by (metis set_mset_mset)

lemma qsort_length: "qsort_perm qs \<Longrightarrow> length (qs cmp xs) = length xs"
  unfolding qsort_perm_def by (metis size_mset)

lemma env_ok_history: "env_ok env \<Longrightarrow> e_history env jid \<noteq> Some []"
  by (auto simp: env_ok_def)

text \<open>What is known of a host that passes the filter, when the arrays are as they should be.\<close>

definition usable ::
    "sch_env \<Rightarrow> gw_sch_user_host \<Rightarrow> gw_sch_job \<Rightarrow> gw_msg_match \<Rightarrow> bool" where
  "usable env uh job m \<longleftrightarrow> \<not> e_now env \<le> uh_banned uh
     \<and> (if j_reason job \<in> {GW_REASON_USER_REQUESTED, GW_REASON_SUSPENSION_TIME} then
          (\<exists>hl. e_history env (j_jid job) = Some hl \<and> \<not> isinhistory (mm_host_id m) hl)
        else if j_reason job = GW_REASON_RESCHEDULING_TIMEOUT then
          (\<exists>hl. e_history env (j_jid job) = Some hl \<and> \<not> isinhistory (mm_host_id m) hl
             \<and> list_ex (\<lambda>q. mq_rank q > mh_rank (hd hl)) (mm_queues m))
        else mm_fixed_priority m \<noteq> 0)"

lemma filter_host_iff:
  assumes u: "user_ok c hs u" and e: "env_ok env"
  shows "filter_host env (u_hosts u) (length hs) job m =
    Some (case find_index (\<lambda>h. h_hid h = mm_host_id m) hs of
       None \<Rightarrow> False | Some j \<Rightarrow> usable env (u_hosts u ! j) job m)"
proof (cases "find_index (\<lambda>h. h_hid h = mm_host_id m) hs")
  case (Some j)
  with env_ok_history [OF e, of "j_jid job"] show ?thesis
    by (cases "e_history env (j_jid job)")
      (auto simp: filter_host_def find_user_host_same [OF u] usable_def neq_Nil_conv)
qed (simp add: filter_host_def find_user_host_same [OF u])

text \<open>The list of a reply: for each host the queue chosen, if the host is usable.\<close>

definition choice :: "sch_env \<Rightarrow> gw_sch_host list \<Rightarrow> gw_sch_user \<Rightarrow> gw_sch_job \<Rightarrow> gw_msg_match \<Rightarrow> nat option" where
  "choice env hs u job m =
     (case find_index (\<lambda>h. h_hid h = mm_host_id m) hs of
        None \<Rightarrow> None
      | Some j \<Rightarrow> if usable env (u_hosts u ! j) job m then select_queue (mm_queues m) else None)"

lemma filter_select_eq:
  assumes u: "user_ok c hs u" and e: "env_ok env"
  shows "reply_ok ms \<Longrightarrow> filter_select env (u_hosts u) (length hs) job ms =
     Some (map (choice env hs u job) ms)"
proof (induction ms)
  case (Cons m ms)
  moreover from Cons.prems obtain i where "select_queue (mm_queues m) = Some i"
    using select_queue_total by (auto simp: reply_ok_def)
  ultimately show ?case
    by (auto simp: filter_host_iff [OF u e] choice_def reply_ok_def split: option.split)
qed simp

definition candidate_of :: "gw_sch_host list \<Rightarrow> gw_sch_user \<Rightarrow> gw_msg_match \<Rightarrow> nat \<Rightarrow> gw_sch_queue" where
  "candidate_of hs u m idx =
     (let l = the (find_index (\<lambda>h. h_hid h = mm_host_id m) hs) in
      candidate l (u_hosts u ! l) m (mm_queues m ! idx))"

lemma build_candidates_eq:
  assumes u: "user_ok c hs u"
  shows "build_candidates (u_hosts u) (length hs) ms (map (choice env hs u job) ms) =
     Some (concat (map (\<lambda>m. case choice env hs u job m of
        None \<Rightarrow> [] | Some idx \<Rightarrow> [candidate_of hs u m idx]) ms))"
proof (induction ms)
  case (Cons m ms)
  show ?case
  proof (cases "choice env hs u job m")
    case None
    with Cons show ?thesis by simp
  next
    case (Some idx)
    then obtain l where "find_index (\<lambda>h. h_hid h = mm_host_id m) hs = Some l"
      by (auto simp: choice_def split: option.splits)
    with Some Cons show ?thesis
      by (simp add: find_user_host_same [OF u] candidate_of_def Let_def)
  qed
qed simp

lemma candidates_length:
  "length (concat (map (\<lambda>m. case f m of None \<Rightarrow> [] | Some idx \<Rightarrow> [g m idx]) ms))
     = length (filter (\<lambda>h. h \<noteq> None) (map f ms))"
  by (induction ms) (auto split: option.split)

section \<open>The policies reorder the candidates\<close>

text \<open>What the policies leave as it is.\<close>

definition q_core :: "gw_sch_queue \<Rightarrow> int \<times> int \<times> string \<times> int \<times> int \<times> int" where
  "q_core q = (q_ha_id q, q_uha_id q, q_qname q, q_slots q, q_fixed q, q_rank q)"

lemma queue_ok_core: "q_core q = q_core q' \<Longrightarrow> queue_ok n q = queue_ok n q'"
  by (simp add: q_core_def queue_ok_def)

lemma queue_policy_core [simp]: "q_core (queue_policy c x q) = q_core q"
  by (simp add: q_core_def queue_policy_def Let_def)

lemma queue_usage_core:
  "queue_ok (length uhosts) q \<Longrightarrow> \<exists>q'. queue_usage s uhosts q = Some q' \<and> q_core q' = q_core q"
  by (auto simp: queue_usage_def queue_ok_def q_core_def rd_def)

lemma usage_loop_core:
  "list_all (queue_ok (length uhosts)) qs \<Longrightarrow>
   \<exists>qs' x'. usage_loop s uhosts qs x = Some (qs', x') \<and> map q_core qs' = map q_core qs"
proof (induction qs arbitrary: x)
  case (Cons q qs)
  then obtain q' where q': "queue_usage s uhosts q = Some q'" "q_core q' = q_core q"
    using queue_usage_core [of uhosts q s] by auto
  from Cons obtain qs' x' where "usage_loop s uhosts qs (see_queue q' x) = Some (qs', x')"
      "map q_core qs' = map q_core qs"
    by fastforce
  with q' show ?case by simp
qed simp

lemma rank_queues_core:
  assumes "list_all (queue_ok (length uhosts)) ms" and "qsort_perm qs"
  shows "\<exists>r. rank_queues qs s uhosts ms = Some r \<and> image_mset q_core (mset r) = image_mset q_core (mset ms)"
proof -
  obtain ms' x where ms': "usage_loop s uhosts ms no_extrema = Some (ms', x)"
      "map q_core ms' = map q_core ms"
    using usage_loop_core [OF assms(1)] by blast
  have "mset (qs queue_cmp (map (queue_policy (s_conf s) x) ms')) = mset (map (queue_policy (s_conf s) x) ms')"
    using assms(2) by (simp add: qsort_perm_def)
  moreover have "image_mset q_core (mset (map (queue_policy (s_conf s) x) ms')) = mset (map q_core ms')"
    by (simp add: comp_def flip: mset_map)
  ultimately show ?thesis
    using ms' by (auto simp: rank_queues_def)
qed

lemma core_queue_ok:
  assumes "image_mset q_core (mset r) = image_mset q_core (mset ms)" and "list_all (queue_ok n) ms"
  shows "list_all (queue_ok n) r"
proof -
  have "q_core ` set r = q_core ` set ms"
    using arg_cong [OF assms(1), of set_mset] by simp
  then have "\<exists>q' \<in> set ms. q_core q = q_core q'" if "q \<in> set r" for q
    using that by (metis (no_types, opaque_lifting) image_iff)
  with assms(2) show ?thesis
    unfolding list_all_iff using queue_ok_core by metis
qed

section \<open>Match-making keeps the invariant\<close>

lemma jobs_of_ids: "map j_ua_id js = map j_ua_id js' \<Longrightarrow> jobs_of k js = jobs_of k js'"
proof -
  have "jobs_of k xs = length (filter (\<lambda>i. i = int k) (map j_ua_id xs))" for xs
    by (induction xs) auto
  then show "map j_ua_id js = map j_ua_id js' \<Longrightarrow> jobs_of k js = jobs_of k js'" by metis
qed

lemma set_mhosts_ok:
  assumes ok: "sch_ok s" and q: "\<And>qs. q = Some qs \<Longrightarrow> list_all (queue_ok (length (s_hosts s))) qs"
  shows "sch_ok (set_mhosts s i q)"
proof (cases "i < length (s_jobs s)")
  case True
  let ?j = "(s_jobs s ! i)\<lparr>j_mhosts := q\<rparr>"
  have "job_ok (length (s_users s)) (length (s_hosts s)) ?j"
    using sch_ok_job [OF ok True] q by (auto simp: job_ok_def mhosts_ok_def split: option.split)
  moreover have "map j_ua_id ((s_jobs s)[i := ?j]) = map j_ua_id (s_jobs s)"
    by (rule distinct_map_update) simp
  then have "jobs_of k ((s_jobs s)[i := ?j]) = jobs_of k (s_jobs s)" for k
    by (rule jobs_of_ids)
  ultimately show ?thesis
    using ok by (simp add: set_mhosts_def sch_ok_def totals_ok_def list_all_update)
qed (use ok in \<open>simp add: set_mhosts_def list_update_beyond\<close>)

lemma set_mhosts_simps [simp]:
  "s_users (set_mhosts s i q) = s_users s" "s_hosts (set_mhosts s i q) = s_hosts s"
  "s_conf (set_mhosts s i q) = s_conf s" "length (s_jobs (set_mhosts s i q)) = length (s_jobs s)"
  by (simp_all add: set_mhosts_def)

definition candidates :: "sch_env \<Rightarrow> gw_sch_host list \<Rightarrow> gw_sch_user \<Rightarrow> gw_sch_job \<Rightarrow> gw_msg_match list \<Rightarrow> gw_sch_queue list" where
  "candidates env hs u job ms = concat (map (\<lambda>m. case choice env hs u job m of
        None \<Rightarrow> [] | Some idx \<Rightarrow> [candidate_of hs u m idx]) ms)"

lemma candidates_ok:
  assumes u: "user_ok c hs u"
  shows "list_all (queue_ok (length hs)) (candidates env hs u job ms)"
proof -
  have "queue_ok (length hs) (candidate_of hs u m idx)" if "choice env hs u job m = Some idx" for m idx
  proof -
    from that obtain l where l: "find_index (\<lambda>h. h_hid h = mm_host_id m) hs = Some l"
      by (auto simp: choice_def split: option.splits)
    then have "l < length hs" by (rule find_index_nth)
    with l user_ok_ha [OF u] show ?thesis
      by (simp add: candidate_of_def candidate_def queue_ok_def)
  qed
  then show ?thesis by (auto simp: candidates_def list_all_iff split: option.splits)
qed

lemma match_request_eq:
  assumes ok: "sch_ok s" and e: "env_ok env" and i: "i < length (s_jobs s)" and r: "reply_ok ms"
    and u: "u = s_users s ! nat (j_ua_id (s_jobs s ! i))"
    and cs: "cs = candidates env (s_hosts s) u (s_jobs s ! i) ms"
  shows "\<exists>s' out. match_request env s i ms = Some (s', out)
    \<and> (cs = [] \<longrightarrow> s' = s
        \<and> out = (if j_reason (s_jobs s ! i) \<noteq> GW_REASON_NONE then [failed_line (j_jid (s_jobs s ! i))] else []))
    \<and> (cs \<noteq> [] \<longrightarrow> out = [] \<and> (\<exists>qs. s' = set_mhosts s i (Some qs)
        \<and> image_mset q_core (mset qs) = image_mset q_core (mset cs)))"
proof -
  let ?job = "s_jobs s ! i"
  from sch_ok_job [OF ok i] have ua: "0 \<le> j_ua_id ?job" "j_ua_id ?job < int (length (s_users s))"
    by (auto simp: job_ok_def)
  then have rdu: "rd (s_users s) (j_ua_id ?job) = Some u" by (simp add: rd_def u)
  have U: "user_ok (s_conf s) (s_hosts s) u" unfolding u using ok ua by (intro sch_ok_user) auto
  have filt: "gw_scheduler_filter_select_queues env s ?job ms =
      Some (map (choice env (s_hosts s) u ?job) ms, length cs)"
    using filter_select_eq [OF U e r] rdu
    by (simp add: gw_scheduler_filter_select_queues_def cs candidates_def candidates_length)
  have build: "build_candidates (u_hosts u) (length (s_hosts s)) ms (map (choice env (s_hosts s) u ?job) ms) = Some cs"
    using build_candidates_eq [OF U] by (simp add: cs candidates_def)
  show ?thesis
  proof (cases "cs = []")
    case True
    then show ?thesis by (simp add: match_request_def filt Let_def)
  next
    case False
    let ?s = "set_mhosts s i (Some cs)"
    have "list_all (queue_ok (length (u_hosts u))) cs"
      using candidates_ok [OF U] user_ok_lengths [OF U] by (simp add: cs)
    with e obtain qs where qs: "rank_queues (e_qsort_queues env) ?s (u_hosts u) cs = Some qs"
        "image_mset q_core (mset qs) = image_mset q_core (mset cs)"
      using rank_queues_core by (metis env_ok_def)
    have "gw_scheduler_host_policies env ?s i = Some (set_mhosts s i (Some qs))"
      using i rdu qs(1) by (simp add: gw_scheduler_host_policies_def set_mhosts_def)
    with False filt build rdu qs(2) show ?thesis
      by (auto simp: match_request_def Let_def)
  qed
qed

lemma match_request_ok:
  assumes ok: "sch_ok s" and e: "env_ok env" and i: "i < length (s_jobs s)" and r: "reply_ok ms"
  shows "\<exists>s' out. match_request env s i ms = Some (s', out) \<and> sch_ok s'
    \<and> length (s_jobs s') = length (s_jobs s)"
proof -
  let ?u = "s_users s ! nat (j_ua_id (s_jobs s ! i))"
  let ?cs = "candidates env (s_hosts s) ?u (s_jobs s ! i) ms"
  from sch_ok_job [OF ok i] have U: "user_ok (s_conf s) (s_hosts s) ?u"
    by (intro sch_ok_user [OF ok]) (auto simp: job_ok_def)
  from match_request_eq [OF ok e i r refl refl] obtain s' out where
    m: "match_request env s i ms = Some (s', out)" "?cs = [] \<longrightarrow> s' = s"
      "?cs \<noteq> [] \<longrightarrow> (\<exists>qs. s' = set_mhosts s i (Some qs) \<and> image_mset q_core (mset qs) = image_mset q_core (mset ?cs))"
    by blast
  show ?thesis
  proof (cases "?cs = []")
    case False
    with m obtain qs where qs: "s' = set_mhosts s i (Some qs)"
      "image_mset q_core (mset qs) = image_mset q_core (mset ?cs)" by blast
    then have "list_all (queue_ok (length (s_hosts s))) qs"
      using core_queue_ok candidates_ok [OF U] by blast
    with m qs show ?thesis by (auto intro: set_mhosts_ok [OF ok])
  qed (use m ok in auto)
qed

lemma match_job_ok:
  assumes ok: "sch_ok s" and e: "env_ok env" and i: "i < length (s_jobs s)"
    and la: "i = 0 \<Longrightarrow> la = - 1"
  shows "\<exists>s' la' out'. match_job env i (s, la, out) = Some (s', la', out') \<and> sch_ok s'
    \<and> length (s_jobs s') = length (s_jobs s)"
proof -
  let ?s = "set_mhosts s i None" and ?job = "s_jobs (set_mhosts s i None) ! i"
  have ok1: "sch_ok ?s" using ok by (rule set_mhosts_ok) simp
  have i1: "i < length (s_jobs ?s)" using i by simp
  show ?thesis
  proof (cases "j_aid ?job = - 1 \<or> la \<noteq> j_aid ?job \<or> j_reason ?job = GW_REASON_SELF_MIGRATION")
    case True
    show ?thesis
    proof (cases "e_match env (j_jid ?job) (j_aid ?job)")
      case (Some ms)
      with e have "reply_ok ms" by (auto simp: env_ok_def)
      from match_request_ok [OF ok1 e i1 this] True Some ok1 show ?thesis
        by (auto simp: match_job_def Let_def)
    qed (use True ok1 in \<open>auto simp: match_job_def Let_def\<close>)
  next
    case False
    with la have "i \<noteq> 0" by (cases "i = 0") auto
    then have "list_all (queue_ok (length (s_hosts s)))
        (case j_mhosts (s_jobs ?s ! (i - 1)) of None \<Rightarrow> [] | Some qs \<Rightarrow> qs)"
      using sch_ok_job [OF ok1, of "i - 1"] i by (auto simp: job_ok_def mhosts_ok_def split: option.splits)
    with False \<open>i \<noteq> 0\<close> set_mhosts_ok [OF ok1, of "Some _" i] show ?thesis
      by (auto simp: match_job_def Let_def)
  qed
qed

lemma match_loop_ok:
  assumes e: "env_ok env"
  shows "sch_ok s \<Longrightarrow> k + n \<le> length (s_jobs s) \<Longrightarrow> (k = 0 \<Longrightarrow> la = - 1) \<Longrightarrow>
    \<exists>s' la' out'. match_loop env [k..<k + n] (s, la, out) = Some (s', la', out') \<and> sch_ok s'
      \<and> length (s_jobs s') = length (s_jobs s)"
proof (induction n arbitrary: k s la out)
  case (Suc n)
  have up: "[k..<k + Suc n] = k # [Suc k..<Suc k + n]" by (simp add: upt_rec)
  obtain s1 la1 out1 where "match_job env k (s, la, out) = Some (s1, la1, out1)" "sch_ok s1"
      "length (s_jobs s1) = length (s_jobs s)"
    using match_job_ok [OF Suc.prems(1) e, of k la out] Suc.prems by auto
  with Suc.IH [of s1 "Suc k" la1 out1] Suc.prems show ?case unfolding up by simp
qed simp

lemma matching_ok:
  assumes "sch_ok s" and "env_ok env"
  shows "\<exists>s' out. gw_scheduler_matching_arrays env s = Some (s', out) \<and> sch_ok s'
    \<and> length (s_jobs s') = length (s_jobs s)"
  using match_loop_ok [OF assms(2,1), of 0 "length (s_jobs s)" "- 1" "[]"]
  by (auto simp: gw_scheduler_matching_arrays_def)

end
