(* ===== verification/Sch_Rank.thy ===== *)
theory Sch_Rank
  imports Sch_Match
begin

text \<open>
  The order of the candidates of a job after \<open>gw_scheduler_host_policies\<close>: the
  normalised policies are between minus one and one, the priorities are numbers, and
  the candidates come in the order of their priorities, of which the fixed priority of
  the host and the rank of the queue are monotone parts.
\<close>

section \<open>Hypotheses on the input\<close>

definition small_int :: "int \<Rightarrow> bool" where
  "small_int i \<longleftrightarrow> - (2 ^ 31) \<le> i \<and> i < 2 ^ 31"

definition small_time :: "flt \<Rightarrow> bool" where
  "small_time a \<longleftrightarrow> f_nonneg a \<and> f_finite a \<and> f_val a \<le> 2 powi 100"

definition user_host_times :: "gw_sch_user_host \<Rightarrow> bool" where
  "user_host_times uh \<longleftrightarrow> small_time (uh_avrg_execution uh) \<and> small_time (uh_avrg_suspension uh)
     \<and> small_time (uh_avrg_transfer uh) \<and> small_time (uh_last_execution uh)
     \<and> small_time (uh_last_suspension uh) \<and> small_time (uh_last_transfer uh)"

definition host_weights :: "gw_sch_conf \<Rightarrow> bool" where
  "host_weights c \<longleftrightarrow> f_weight (sc_wrfixed c) \<and> f_weight (sc_wrank c) \<and> f_weight (sc_wusage c)
     \<and> f_unit (sc_ug_ratio c)"

definition good_usage :: "flt \<Rightarrow> bool" where
  "good_usage a \<longleftrightarrow> f_finite a \<and> f_nonneg a"

definition queue_in :: "gw_sch_queue \<Rightarrow> bool" where
  "queue_in q \<longleftrightarrow> 0 \<le> q_fixed q \<and> small_int (q_fixed q) \<and> small_int (q_rank q) \<and> good_usage (q_usage q)"

section \<open>The estimated time of a host\<close>

lemma sum3_times:
  assumes "small_time a" "small_time b" "small_time c"
  shows "f_nonneg (fadd binary32 (fadd binary32 a b) c)
    \<and> f_finite (fadd binary32 (fadd binary32 a b) c)
    \<and> \<bar>f_val (fadd binary32 (fadd binary32 a b) c)\<bar> \<le> 2 powi 102"
proof -
  have v: "\<bar>f_val x\<bar> \<le> 2 powi 100" if "small_time x" for x
    using that f_nonneg_val [of x] by (auto simp: small_time_def)
  have ab: "f_finite (fadd binary32 a b) \<and> \<bar>f_val (fadd binary32 a b)\<bar> \<le> 2 powi (100 + 1)"
    using assms v by (intro fadd_bounded) (auto simp: small_time_def)
  moreover have "(2 :: rat) powi 100 \<le> 2 powi 101" by (simp only: powi_le)
  ultimately have "f_finite (fadd binary32 (fadd binary32 a b) c)
    \<and> \<bar>f_val (fadd binary32 (fadd binary32 a b) c)\<bar> \<le> 2 powi (101 + 1)"
    using assms v [OF assms(3)] by (intro fadd_bounded) (auto simp: small_time_def)
  with assms show ?thesis by (auto simp: small_time_def fadd_nonneg)
qed

lemma estimated_time_good:
  assumes "user_host_times uh" and "f_unit (sc_ug_ratio (s_conf s))"
  shows "good_usage (gw_scheduler_host_estimated_time uh s)"
proof -
  let ?a = "fadd binary32 (fadd binary32 (uh_avrg_execution uh) (uh_avrg_suspension uh)) (uh_avrg_transfer uh)"
  let ?l = "fadd binary32 (fadd binary32 (uh_last_execution uh) (uh_last_suspension uh)) (uh_last_transfer uh)"
  let ?r = "sc_ug_ratio (s_conf s)"
  have a: "f_nonneg ?a" "f_finite ?a" "\<bar>f_val ?a\<bar> \<le> 2 powi 102"
    and l: "f_nonneg ?l" "f_finite ?l" "\<bar>f_val ?l\<bar> \<le> 2 powi 102"
    using assms(1) sum3_times unfolding user_host_times_def by blast+
  have comm: "fmul binary32 u x = fmul binary32 x u" for u x
    by (cases "f_neg u"; cases "f_neg x"; auto simp: fmul_def mult.commute)
  have prod: "f_finite (fmul binary32 u x) \<and> \<bar>f_val (fmul binary32 u x)\<bar> \<le> 2 powi 102
      \<and> f_nonneg (fmul binary32 u x)"
    if "f_unit u" "f_nonneg x" "f_finite x" "\<bar>f_val x\<bar> \<le> 2 powi 102" for u x
    using that fmul_bounded [of x u 102] fmul_unit_nonneg [of x u binary32] f_unit_norm
    by (simp add: comm [of u])
  have u: "f_unit (fsub binary32 (Fin 1) ?r)"
    using assms(2) by (simp add: fl_unit_complement)
  let ?s = "fadd binary32 (fmul binary32 (fsub binary32 (Fin 1) ?r) ?a) (fmul binary32 ?r ?l)"
  have "f_finite ?s \<and> f_nonneg ?s"
    using prod [OF u a] prod [OF assms(2) l] fadd_bounded [of _ _ 102] fadd_nonneg by auto
  with a l show ?thesis
    by (simp add: gw_scheduler_host_estimated_time_def Let_def good_usage_def)
qed

section \<open>The extrema\<close>

definition x_ok :: "host_extrema \<Rightarrow> bool" where
  "x_ok x \<longleftrightarrow> 0 \<le> x_max_fixed x \<and> small_int (x_max_fixed x)
     \<and> small_int (x_max_rank x) \<and> small_int (x_min_rank x)
     \<and> good_usage (x_min_usage x) \<and> 0 < f_val (x_min_usage x) \<and> good_usage (x_max_usage x)
     \<and> (f_val (x_max_usage x) \<noteq> 0 \<longrightarrow> f_val (x_min_usage x) \<le> f_val (x_max_usage x))"

definition seen :: "gw_sch_queue \<Rightarrow> host_extrema \<Rightarrow> bool" where
  "seen q x \<longleftrightarrow> q_fixed q \<le> x_max_fixed x \<and> q_rank q \<le> x_max_rank x \<and> x_min_rank x \<le> q_rank q
     \<and> (f_val (q_usage q) \<noteq> 0 \<longrightarrow> f_val (x_min_usage x) \<le> f_val (q_usage q))
     \<and> f_val (q_usage q) \<le> f_val (x_max_usage x)"

lemma f_lt_finite: "f_finite a \<Longrightarrow> f_finite b \<Longrightarrow> f_lt a b \<longleftrightarrow> f_val a < f_val b"
  by (cases a; cases b) (simp_all add: f_lt_def f_val_def f_finite_def f_is_inf_def)

lemma good_usage_val: "good_usage a \<Longrightarrow> 0 \<le> f_val a"
  by (simp add: good_usage_def f_nonneg_val)

lemma see_queue_ok:
  assumes q: "queue_in q" and x: "x_ok x"
  shows "x_ok (see_queue q x) \<and> seen q (see_queue q x) \<and> (\<forall>p. seen p x \<longrightarrow> seen p (see_queue q x))"
proof -
  have fin: "f_finite (q_usage q)" "f_finite (x_min_usage x)" "f_finite (x_max_usage x)"
    and u0: "0 \<le> f_val (q_usage q)"
    using q x good_usage_val by (auto simp: queue_in_def x_ok_def good_usage_def)
  show ?thesis
    using q x u0
    by (auto simp: see_queue_def x_ok_def seen_def queue_in_def f_lt_finite [OF fin(1,2)]
         f_lt_finite [OF fin(3,1)] f_eq0_def fin)
qed

lemma no_extrema_ok: "x_ok no_extrema"
  by (simp add: x_ok_def no_extrema_def small_int_def INT_MIN_def INT_MAX_def FLT_MAX_def good_usage_def)

lemma usage_loop_seen:
  assumes w: "f_unit (sc_ug_ratio (s_conf s))" and times: "list_all user_host_times uhosts"
  shows "usage_loop s uhosts qs x = Some (qs', x') \<Longrightarrow> list_all queue_in qs \<Longrightarrow> x_ok x \<Longrightarrow>
    x_ok x' \<and> list_all queue_in qs' \<and> list_all (\<lambda>q. seen q x') qs' \<and> (\<forall>p. seen p x \<longrightarrow> seen p x')"
proof (induction qs arbitrary: x qs' x')
  case (Cons q qs)
  from Cons.prems(1) obtain q1 qs1 where q1: "queue_usage s uhosts q = Some q1"
      and loop: "usage_loop s uhosts qs (see_queue q1 x) = Some (qs1, x')" and qs': "qs' = q1 # qs1"
    by (auto simp: bind_Some_iff)
  have "queue_in q1"
  proof (cases "f_lt (Fin 0) (sc_wusage (s_conf s))")
    case True
    with q1 obtain uh where "rd uhosts (q_uha_id q) = Some uh"
        "q1 = q\<lparr>q_usage := gw_scheduler_host_estimated_time uh s\<rparr>"
      by (auto simp: queue_usage_def)
    moreover from this times have "user_host_times uh"
      by (auto simp: rd_Some list_all_length)
    ultimately show ?thesis
      using Cons.prems(2) estimated_time_good w by (simp add: queue_in_def)
  qed (use q1 Cons.prems(2) in \<open>simp add: queue_usage_def\<close>)
  with Cons.IH [OF loop] Cons.prems(2,3) see_queue_ok [of q1 x] show ?case
    by (simp add: qs')
qed simp

section \<open>The normalised policies\<close>

lemma small_abs: "small_int i \<Longrightarrow> \<bar>i\<bar> \<le> 2 ^ 100"
  by (auto simp: small_int_def abs_le_iff)

lemma int_ratio_unit:
  "0 \<le> i \<Longrightarrow> i \<le> m \<Longrightarrow> 0 < m \<Longrightarrow> small_int m \<Longrightarrow> f_unit (int_ratio i m)"
  unfolding int_ratio_def by (rule f_ratio_unit) (auto simp: small_int_def)

lemma int_ratio_mono:
  "0 \<le> i \<Longrightarrow> i \<le> j \<Longrightarrow> j \<le> m \<Longrightarrow> 0 < m \<Longrightarrow> small_int m \<Longrightarrow> f_le (int_ratio i m) (int_ratio j m)"
  unfolding int_ratio_def by (rule f_ratio_mono) (auto simp: small_int_def)

definition neg_ratio :: "int \<Rightarrow> int \<Rightarrow> flt" where
  "neg_ratio r m = fdiv binary32 (fminus (f_of_int binary32 r)) (f_of_int binary32 m)"

lemma neg_ratio_eq:
  assumes "small_int m" "m < 0" "small_int r"
  shows "\<exists>s. neg_ratio r m = fl binary32 s (- (f_val (f_of_int binary32 r) / f_val (f_of_int binary32 m)))"
proof -
  have "f_finite (f_of_int binary32 r)" "f_finite (f_of_int binary32 m)" "f_val (f_of_int binary32 m) \<le> - 1"
    using f_of_int_val [OF small_abs small_abs] assms by auto
  then show ?thesis by (auto simp: neg_ratio_def fdiv_finite)
qed

lemma neg_ratio_bounds:
  assumes "small_int m" "m \<le> r" "r < 0"
  shows "f_norm (neg_ratio r m)" and "f_le (neg_ratio r m) (Fin 0)"
    and "r \<le> r' \<Longrightarrow> r' < 0 \<Longrightarrow> f_le (neg_ratio r m) (neg_ratio r' m)"
proof -
  have r: "small_int r" using assms by (simp add: small_int_def)
  let ?v = "\<lambda>i. f_val (f_of_int binary32 i)"
  have m1: "?v m \<le> - 1" and r1: "?v r \<le> - 1" and mr: "?v m \<le> ?v r"
    using f_of_int_val [OF small_abs [OF assms(1)] small_abs [OF r]]
      f_of_int_val [OF small_abs [OF r] small_abs [OF r]] assms by auto
  have q: "0 \<le> ?v r / ?v m" "?v r / ?v m \<le> 1"
    using m1 r1 mr by (auto simp: divide_nonpos_nonpos divide_le_eq_1)
  obtain s where s: "neg_ratio r m = fl binary32 s (- (?v r / ?v m))"
    using neg_ratio_eq assms r by (metis less_le_trans not_less)
  show "f_norm (neg_ratio r m)" unfolding s using q by (intro fl_norm) auto
  show "f_le (neg_ratio r m) (Fin 0)" unfolding s using q by (intro fl_nonpos) auto
  assume r': "r \<le> r'" "r' < 0"
  then have r'': "small_int r'" using r by (simp add: small_int_def)
  obtain t where t: "neg_ratio r' m = fl binary32 t (- (?v r' / ?v m))"
    using neg_ratio_eq [OF assms(1) _ r''] assms by fastforce
  have "?v r \<le> ?v r'" using f_of_int_val [OF small_abs [OF r] small_abs [OF r'']] r' by simp
  with m1 have "?v r' / ?v m \<le> ?v r / ?v m" by (intro divide_right_mono_neg) auto
  then show "f_le (neg_ratio r m) (neg_ratio r' m)" unfolding s t by (intro fl_mono) auto
qed

lemma norm_rank_norm:
  assumes "x_ok x" "r \<le> x_max_rank x" "x_min_rank x \<le> r"
  shows "f_norm (norm_rank x r)"
  using assms int_ratio_unit [of r "x_max_rank x"] neg_ratio_bounds(1) [of "x_min_rank x" r]
  by (auto simp: norm_rank_def x_ok_def f_unit_norm neg_ratio_def)

lemma norm_rank_mono:
  assumes x: "x_ok x" and r: "x_min_rank x \<le> r" "r \<le> r'" "r' \<le> x_max_rank x"
  shows "f_le (norm_rank x r) (norm_rank x r')"
proof -
  have pos: "f_le (Fin 0) (norm_rank x i)" if "0 \<le> i" "i \<le> x_max_rank x" for i
    using that x int_ratio_unit [of i "x_max_rank x"] by (auto simp: norm_rank_def x_ok_def f_unit_def)
  have neg: "f_le (norm_rank x i) (Fin 0)" if "i \<le> 0" "x_min_rank x \<le> i" for i
    using that x neg_ratio_bounds(2) [of "x_min_rank x" i]
    by (auto simp: norm_rank_def x_ok_def neg_ratio_def)
  consider "r \<le> 0" "0 \<le> r'" | "0 < r" | "r' < 0" using r by linarith
  then show ?thesis
  proof cases
    case 1
    then show ?thesis using neg [of r] pos [of r'] r f_le_trans by blast
  next
    case 2
    then show ?thesis
      using r x int_ratio_mono [of r r' "x_max_rank x"] by (auto simp: norm_rank_def x_ok_def)
  next
    case 3
    then show ?thesis
      using r x neg_ratio_bounds(3) [of "x_min_rank x" r r']
      by (auto simp: norm_rank_def x_ok_def neg_ratio_def)
  qed
qed

lemma norm_usage_unit:
  assumes x: "x_ok x" and u: "good_usage u"
    and "f_val u \<noteq> 0 \<longrightarrow> f_val (x_min_usage x) \<le> f_val u"
  shows "f_unit (norm_usage x u)"
proof -
  have ratio: "f_unit (fdiv binary32 (x_min_usage x) a)"
    if "good_usage a" "f_val a \<noteq> 0" "f_val (x_min_usage x) \<le> f_val a" for a
    using that x good_usage_val [OF that(1)]
    by (auto simp: fdiv_finite good_usage_def x_ok_def intro!: fl_unit)
  from ratio x u assms(3) show ?thesis
    by (auto simp: norm_usage_def f_eq0_def good_usage_def x_ok_def)
qed

lemma weighted_finite:
  assumes "f_weight w1" "f_norm n1" "f_weight w2" "f_norm n2" "f_weight w3" "f_norm n3"
  shows "f_finite (weighted w1 n1 w2 n2 w3 n3)"
    and "f_finite (fadd binary32 (fmul binary32 w1 n1) (fmul binary32 w2 n2))"
proof -
  have 1: "f_finite (fadd binary32 (fmul binary32 w1 n1) (fmul binary32 w2 n2))
      \<and> \<bar>f_val (fadd binary32 (fmul binary32 w1 n1) (fmul binary32 w2 n2))\<bar> \<le> 2 powi (100 + 1)"
    using fmul_weight assms by (intro fadd_bounded) auto
  have "(2 :: rat) powi 100 \<le> 2 powi 101" by (simp only: powi_le)
  then have "\<bar>f_val (fmul binary32 w3 n3)\<bar> \<le> 2 powi 101"
    using fmul_weight [OF assms(5,6)] by linarith
  with 1 fmul_weight [OF assms(5,6)] have "f_finite (weighted w1 n1 w2 n2 w3 n3)
      \<and> \<bar>f_val (weighted w1 n1 w2 n2 w3 n3)\<bar> \<le> 2 powi (101 + 1)"
    unfolding weighted_def by (intro fadd_bounded) auto
  then show "f_finite (weighted w1 n1 w2 n2 w3 n3)" by simp
  show "f_finite (fadd binary32 (fmul binary32 w1 n1) (fmul binary32 w2 n2))" using 1 by simp
qed

lemma weighted_mono:
  assumes w: "f_weight w1" "f_weight w2" "f_weight w3"
    and n: "f_norm n1" "f_norm n2" "f_norm n3" and m: "f_norm m1" "f_norm m2" "f_norm m3"
    and le: "f_le n1 m1" "f_le n2 m2" "f_le n3 m3"
  shows "f_le (weighted w1 n1 w2 n2 w3 n3) (weighted w1 m1 w2 m2 w3 m3)"
proof -
  have p: "f_le (fmul binary32 w a) (fmul binary32 w b)" if "f_weight w" "f_norm a" "f_norm b" "f_le a b" for w a b
    using that by (intro fmul_mono_finite) (auto simp: f_weight_def f_norm_def)
  have fin: "f_finite (fmul binary32 w a)" if "f_weight w" "f_norm a" for w a
    using fmul_weight that by blast
  show ?thesis
    unfolding weighted_def
    using p fin w n m le weighted_finite(2) by (intro fadd_mono_finite) auto
qed

section \<open>Sorting\<close>

text \<open>
  \<open>qsort\<close> sorts if the comparison is a total preorder; the order of elements that
  compare equal is not specified.
\<close>

definition preorder_cmp :: "('a \<Rightarrow> 'a \<Rightarrow> int) \<Rightarrow> 'a set \<Rightarrow> bool" where
  "preorder_cmp cmp A \<longleftrightarrow> (\<forall>x \<in> A. \<forall>y \<in> A. cmp x y \<le> 0 \<or> cmp y x \<le> 0)
     \<and> (\<forall>x \<in> A. \<forall>y \<in> A. \<forall>z \<in> A. cmp x y \<le> 0 \<longrightarrow> cmp y z \<le> 0 \<longrightarrow> cmp x z \<le> 0)"

lemma preorder_subset: "preorder_cmp cmp A \<Longrightarrow> B \<subseteq> A \<Longrightarrow> preorder_cmp cmp B"
  unfolding preorder_cmp_def by blast

lemma preorder_trans:
  "preorder_cmp cmp A \<Longrightarrow> x \<in> A \<Longrightarrow> y \<in> A \<Longrightarrow> z \<in> A \<Longrightarrow> cmp x y \<le> 0 \<Longrightarrow> cmp y z \<le> 0 \<Longrightarrow> cmp x z \<le> 0"
  unfolding preorder_cmp_def by blast

lemma preorder_total: "preorder_cmp cmp A \<Longrightarrow> x \<in> A \<Longrightarrow> y \<in> A \<Longrightarrow> cmp x y \<le> 0 \<or> cmp y x \<le> 0"
  unfolding preorder_cmp_def by blast

lemma qsort_set: "qsort_perm qs \<Longrightarrow> set (qs cmp xs) = set xs"
  unfolding qsort_perm_def by (metis set_mset_mset)

definition qsort_sorts :: "(('a \<Rightarrow> 'a \<Rightarrow> int) \<Rightarrow> 'a list \<Rightarrow> 'a list) \<Rightarrow> bool" where
  "qsort_sorts qs \<longleftrightarrow> (\<forall>cmp xs. preorder_cmp cmp (set xs) \<longrightarrow> sorted_wrt (\<lambda>x y. cmp x y \<le> 0) (qs cmp xs))"

text \<open>Insertion sort, an instance for the examples.\<close>

fun insert_by :: "('a \<Rightarrow> 'a \<Rightarrow> int) \<Rightarrow> 'a \<Rightarrow> 'a list \<Rightarrow> 'a list" where
  "insert_by cmp x [] = [x]"
| "insert_by cmp x (y # ys) = (if cmp x y \<le> 0 then x # y # ys else y # insert_by cmp x ys)"

definition sort_by :: "('a \<Rightarrow> 'a \<Rightarrow> int) \<Rightarrow> 'a list \<Rightarrow> 'a list" where
  "sort_by cmp xs = foldr (insert_by cmp) xs []"

lemma mset_insert_by [simp]: "mset (insert_by cmp x ys) = add_mset x (mset ys)"
  by (induction ys) auto

lemma mset_sort_by [simp]: "mset (sort_by cmp xs) = mset xs"
  unfolding sort_by_def by (induction xs) auto

lemma set_insert_by [simp]: "set (insert_by cmp x ys) = insert x (set ys)"
  by (induction ys) auto

lemma sorted_insert_by:
  assumes "preorder_cmp cmp (insert x (set ys))" and "sorted_wrt (\<lambda>x y. cmp x y \<le> 0) ys"
  shows "sorted_wrt (\<lambda>x y. cmp x y \<le> 0) (insert_by cmp x ys)"
  using assms
proof (induction ys)
  case (Cons y ys)
  have "preorder_cmp cmp (insert x (set ys))"
    by (rule preorder_subset [OF Cons.prems(1)]) auto
  with Cons have IH: "sorted_wrt (\<lambda>x y. cmp x y \<le> 0) (insert_by cmp x ys)" by simp
  show ?case
  proof (cases "cmp x y \<le> 0")
    case True
    have "cmp x z \<le> 0" if "z \<in> set ys" for z
      using preorder_trans [OF Cons.prems(1), of x y z] True Cons.prems(2) that by simp
    with True Cons.prems(2) show ?thesis by simp
  next
    case False
    with preorder_total [OF Cons.prems(1), of x y] have "cmp y x \<le> 0" by simp
    with False IH Cons.prems(2) show ?thesis by simp
  qed
qed simp

lemma qsort_sort_by: "qsort_perm sort_by" "qsort_sorts sort_by"
proof -
  have "sorted_wrt (\<lambda>x y. cmp x y \<le> 0) (sort_by cmp xs)" if "preorder_cmp cmp (set xs)"
    for cmp :: "'b \<Rightarrow> 'b \<Rightarrow> int" and xs
    using that
  proof (induction xs)
    case (Cons x xs)
    have "set (sort_by cmp xs) = set xs" by (rule mset_eq_setD) simp
    moreover have "preorder_cmp cmp (set xs)" by (rule preorder_subset [OF Cons.prems]) auto
    ultimately show ?case
      using Cons sorted_insert_by [of cmp x "sort_by cmp xs"] by (simp add: sort_by_def)
  qed (simp add: sort_by_def)
  then show "qsort_sorts (sort_by :: ('b \<Rightarrow> 'b \<Rightarrow> int) \<Rightarrow> 'b list \<Rightarrow> 'b list)"
    by (auto simp: qsort_sorts_def)
qed (simp add: qsort_perm_def)

lemma preorder_desc:
  assumes p: "\<And>x. x \<in> A \<Longrightarrow> p x \<noteq> NaN" and cmp: "\<And>x y. cmp x y \<le> 0 \<longleftrightarrow> \<not> f_lt (p x) (p y)"
  shows "preorder_cmp cmp A"
proof -
  have "cmp x y \<le> 0 \<longleftrightarrow> f_le (p y) (p x)" if "x \<in> A" "y \<in> A" for x y
    using that by (simp add: cmp f_not_lt p)
  then show ?thesis
    unfolding preorder_cmp_def using f_le_total p by (auto intro: f_le_trans)
qed

lemma queue_cmp_le: "queue_cmp a b \<le> 0 \<longleftrightarrow> \<not> f_lt (q_priority a) (q_priority b)"
  by (simp add: queue_cmp_def)

section \<open>Properties\<close>

lemma usage_loop_fixed:
  "usage_loop s uhosts qs x = Some (qs', x') \<Longrightarrow> map q_fixed qs' = map q_fixed qs
     \<and> (list_all (\<lambda>q. q_fixed q = 0) qs \<longrightarrow> 0 \<le> x_max_fixed x \<longrightarrow> x_max_fixed x' = x_max_fixed x)"
proof (induction qs arbitrary: x qs' x')
  case (Cons q qs)
  then obtain q1 qs1 where q1: "queue_usage s uhosts q = Some q1"
      and "usage_loop s uhosts qs (see_queue q1 x) = Some (qs1, x')" "qs' = q1 # qs1"
    by (auto simp: bind_Some_iff)
  moreover from q1 have "q_fixed q1 = q_fixed q"
    by (auto simp: queue_usage_def split: if_splits)
  ultimately show ?case using Cons.IH by (auto simp: see_queue_def)
qed simp

text \<open>C20 (functional).
  The candidates of a job come in the order of their priorities.  If the weights are not
  negative and some candidate has a fixed priority, each normalised policy lies
  between -1 and 1, the priorities are numbers, and a candidate that is at least as good
  as another in each policy has at least its priority.\<close>

theorem host_policies_order:
  assumes c: "host_weights (s_conf s)" and qs: "qsort_perm qs" "qsort_sorts qs"
    and times: "list_all user_host_times uhosts"
    and ms: "list_all queue_in ms" "list_all (queue_ok (length uhosts)) ms"
    and fixed: "q0 \<in> set ms" "0 < q_fixed q0"
  shows "\<exists>r. rank_queues qs s uhosts ms = Some r
    \<and> image_mset q_core (mset r) = image_mset q_core (mset ms)
    \<and> sorted_wrt (\<lambda>a b. f_le (q_priority b) (q_priority a)) r
    \<and> list_all (\<lambda>q. f_unit (q_nfixed q) \<and> f_norm (q_nrank q) \<and> f_unit (q_nusage q)) r
    \<and> (\<forall>a \<in> set r. \<forall>b \<in> set r. q_fixed a \<le> q_fixed b \<longrightarrow> q_rank a \<le> q_rank b \<longrightarrow>
         f_le (q_nusage a) (q_nusage b) \<longrightarrow> f_le (q_priority a) (q_priority b))"
proof -
  obtain r where r: "rank_queues qs s uhosts ms = Some r"
      "image_mset q_core (mset r) = image_mset q_core (mset ms)"
    using rank_queues_core [OF ms(2) qs(1)] by blast
  then obtain ms' x where loop: "usage_loop s uhosts ms no_extrema = Some (ms', x)"
      and r_eq: "r = qs queue_cmp (map (queue_policy (s_conf s) x) ms')"
    by (auto simp: rank_queues_def bind_Some_iff)
  have x: "x_ok x" "list_all queue_in ms'" "list_all (\<lambda>q. seen q x) ms'"
    using usage_loop_seen [OF _ times loop ms(1) no_extrema_ok] c by (auto simp: host_weights_def)
  have "q_fixed q0 \<in> set (map q_fixed ms')" using usage_loop_fixed [OF loop] fixed(1) by simp
  with x(3) fixed(2) have mf: "0 < x_max_fixed x" by (auto simp: list_all_iff seen_def)
  have set_r: "set r = queue_policy (s_conf s) x ` set ms'"
    by (simp add: r_eq qsort_set [OF qs(1)])
  have norms: "f_unit (q_nfixed q) \<and> f_norm (q_nrank q) \<and> f_unit (q_nusage q)" if "q \<in> set r" for q
    using that x mf
    by (auto simp: set_r queue_policy_def Let_def list_all_iff seen_def queue_in_def x_ok_def
         intro!: int_ratio_unit norm_rank_norm norm_usage_unit)
  have prio: "q_priority q = weighted (sc_wrfixed (s_conf s)) (q_nfixed q) (sc_wrank (s_conf s))
      (q_nrank q) (sc_wusage (s_conf s)) (q_nusage q)" if "q \<in> set r" for q
    using that by (auto simp: set_r queue_policy_def Let_def)
  have finp: "f_finite (q_priority q)" if "q \<in> set r" for q
    unfolding prio [OF that] using norms [OF that] c
    by (intro weighted_finite(1)) (auto simp: host_weights_def f_unit_norm)
  have fin: "q_priority q \<noteq> NaN" if "q \<in> set r" for q
    using finp [OF that] by (auto simp: f_finite_def)
  have mono: "f_le (q_priority a) (q_priority b)"
    if ab: "a \<in> set r" "b \<in> set r" and le: "q_fixed a \<le> q_fixed b" "q_rank a \<le> q_rank b"
      "f_le (q_nusage a) (q_nusage b)" for a b
  proof -
    have "f_le (q_nfixed a) (q_nfixed b)"
      using ab le x mf by (auto simp: set_r queue_policy_def Let_def list_all_iff seen_def queue_in_def
          x_ok_def intro!: int_ratio_mono)
    moreover have "f_le (q_nrank a) (q_nrank b)"
      using ab le x by (auto simp: set_r queue_policy_def Let_def list_all_iff seen_def
          intro!: norm_rank_mono)
    ultimately show ?thesis
      using le c norms [OF ab(1)] norms [OF ab(2)] prio [OF ab(1)] prio [OF ab(2)]
      by (auto simp: host_weights_def f_unit_norm intro!: weighted_mono)
  qed
  have set_eq: "set (map (queue_policy (s_conf s) x) ms') = set r" by (simp add: set_r)
  have "preorder_cmp queue_cmp (set (map (queue_policy (s_conf s) x) ms'))"
    unfolding set_eq by (rule preorder_desc [of _ q_priority]) (auto simp: fin queue_cmp_le)
  then have "sorted_wrt (\<lambda>a b. queue_cmp a b \<le> 0) r"
    unfolding r_eq using qs(2) by (simp add: qsort_sorts_def)
  then have "sorted_wrt (\<lambda>a b. f_le (q_priority b) (q_priority a)) r"
    by (rule sorted_wrt_mono_rel [rotated]) (use fin f_not_lt in \<open>auto simp: queue_cmp_le\<close>)
  with r norms mono show ?thesis by (auto simp: list_all_iff)
qed

text \<open>When no candidate has a fixed priority the quotient is zero by zero: every priority is
  not a number, all candidates compare equal, and rank and usage decide nothing.\<close>

theorem host_policies_without_fixed:
  assumes "rank_queues qs s uhosts ms = Some r" and "qsort_perm qs"
    and "list_all (\<lambda>q. q_fixed q = 0) ms"
  shows "list_all (\<lambda>q. q_priority q = NaN) r \<and> (\<forall>a \<in> set r. \<forall>b \<in> set r. queue_cmp a b = 0)"
proof -
  obtain ms' x where loop: "usage_loop s uhosts ms no_extrema = Some (ms', x)"
      and r: "r = qs queue_cmp (map (queue_policy (s_conf s) x) ms')"
    using assms(1) by (auto simp: rank_queues_def bind_Some_iff)
  have mf: "x_max_fixed x = 0"
    using usage_loop_fixed [OF loop] assms(3) by (simp add: no_extrema_def)
  have "set (map q_fixed ms') = set (map q_fixed ms)" using usage_loop_fixed [OF loop] by metis
  with assms(3) have "list_all (\<lambda>q. q_fixed q = 0) ms'" by (force simp: list_all_iff)
  then have "list_all (\<lambda>q. q_priority q = NaN) (map (queue_policy (s_conf s) x) ms')"
    by (auto simp: list_all_iff queue_policy_def Let_def mf int_ratio_def fdiv_def f_val_def
         f_is_inf_def f_neg_def weighted_def fmul_def fadd_def)
  then have "list_all (\<lambda>q. q_priority q = NaN) r"
    unfolding r using qsort_list_all [OF assms(2)] by simp
  then show ?thesis by (auto simp: list_all_iff queue_cmp_def f_lt_def)
qed

definition sample_queue :: "int \<Rightarrow> int \<Rightarrow> gw_sch_queue" where
  "sample_queue fixed rank = \<lparr>q_ha_id = 0, q_uha_id = 0, q_qname = ''q'', q_slots = 1, q_fixed = fixed,
     q_nfixed = Fin 0, q_rank = rank, q_nrank = Fin 0, q_usage = Fin 0, q_nusage = Fin 0,
     q_priority = Fin 0\<rparr>"

lemma sample_weights: "host_weights (s_conf sample_sch)" "user_host_times (new_user_host 0 3 None)"
  by (simp_all add: host_weights_def sample_sch_def gw_sch_conf_init_def f_weight_def f_unit_def
       user_host_times_def new_user_host_def set_averages_def small_time_def)

lemma host_policies_order_witness:
  "\<exists>r. rank_queues sort_by sample_sch [new_user_host 0 3 None] [sample_queue 1 2, sample_queue 1 5] = Some r
    \<and> sorted_wrt (\<lambda>a b. f_le (q_priority b) (q_priority a)) r"
  using host_policies_order [OF sample_weights(1) qsort_sort_by, of "[new_user_host 0 3 None]"
      "[sample_queue 1 2, sample_queue 1 5]" "sample_queue 1 2"]
  by (auto simp: sample_weights sample_queue_def queue_in_def small_int_def good_usage_def queue_ok_def)

lemma host_policies_without_fixed_witness:
  "\<exists>r. rank_queues sort_by sample_sch [new_user_host 0 3 None] [sample_queue 0 2, sample_queue 0 5] = Some r
    \<and> list_all (\<lambda>q. q_priority q = NaN) r"
proof -
  obtain r where r: "rank_queues sort_by sample_sch [new_user_host 0 3 None]
      [sample_queue 0 2, sample_queue 0 5] = Some r"
    using rank_queues_core [of "[new_user_host 0 3 None]" "[sample_queue 0 2, sample_queue 0 5]" sort_by]
    by (auto simp: qsort_sort_by sample_queue_def queue_ok_def)
  with host_policies_without_fixed [OF r qsort_sort_by(1)] show ?thesis
    by (simp add: sample_queue_def)
qed

end
