(* ===== verification/Sch_Jobs.thy ===== *)
theory Sch_Jobs
  imports Sch_Rank
begin

text \<open>
  The priorities of the jobs: \<open>gw_scheduler_job_policies\<close> of
  \<open>src/scheduler/gw_scheduler_jobs.c\<close> with \<open>job_cmp\<close> and
  \<open>gw_scheduler_user_past_jobs\<close>.  Jobs are ordered by their fixed priority, waiting time
  and deadline, then, when shares have a weight, once more with the share of their user.
\<close>

section \<open>The code\<close>

text \<open>A \<open>long\<close> stored into an \<open>int\<close>.\<close>

definition to_int32 :: "int \<Rightarrow> int" where
  "to_int32 i = (i + 2 ^ 31) mod 2 ^ 32 - 2 ^ 31"

text \<open>\<open>div\<close> of the C library truncates; a zero divisor is a trap.\<close>

definition c_quot :: "int \<Rightarrow> int \<Rightarrow> int option" where
  "c_quot a b = (if b = 0 then None else Some (sgn a * sgn b * (\<bar>a\<bar> div \<bar>b\<bar>)))"

definition job_cmp :: "gw_sch_job \<Rightarrow> gw_sch_job \<Rightarrow> int" where
  "job_cmp j1 j2 =
     (if j_fixed j1 = 20 \<and> j_fixed j2 \<noteq> 20 then - 1
      else if j_fixed j2 = 20 \<and> j_fixed j1 \<noteq> 20 then 1
      else if j_fixed j2 = 20 \<and> j_fixed j1 = 20 then 0
      else if f_lt (j_priority j1) (j_priority j2) then 1
      else if f_lt (j_priority j2) (j_priority j1) then - 1
      else 0)"

text \<open>The jobs of the past windows, each window weighted by its age.\<close>

definition past_window :: "(flt \<Rightarrow> flt) \<Rightarrow> nat \<Rightarrow> int \<Rightarrow> int option" where
  "past_window expd i w = f_trunc 32 (fmul binary64 (f_of_int binary64 w)
     (expd (fminus (fdiv binary64 (f_of_int binary32 (int i)) (Fin (7 / 2))))))"

fun past_loop :: "(flt \<Rightarrow> flt) \<Rightarrow> int list \<Rightarrow> nat list \<Rightarrow> int \<Rightarrow> int option" where
  "past_loop expd ws [] t = Some t"
| "past_loop expd ws (i # is) t = do {
     w \<leftarrow> rd ws (int i);
     n \<leftarrow> past_window expd i w;
     past_loop expd ws is (t + n)
   }"

definition gw_scheduler_user_past_jobs :: "(flt \<Rightarrow> flt) \<Rightarrow> gw_sch_user \<Rightarrow> int \<Rightarrow> int option" where
  "gw_scheduler_user_past_jobs expd u depth =
     past_loop expd (case u_sub_windows u of None \<Rightarrow> [] | Some ws \<Rightarrow> ws) [0..<nat depth] 0"

text \<open>The first loop: waiting time and deadline of each job, in units of the policies.\<close>

definition half_life :: "gw_sch_conf \<Rightarrow> flt" where
  "half_life c = f_conv binary32
     (fmul binary64 (fmul binary64 (Fin (- 3 / 2)) (f_of_int binary64 (sc_dl_half c))) (Fin 86400))"

definition job_deadline :: "sch_env \<Rightarrow> gw_sch_conf \<Rightarrow> gw_sch_job \<Rightarrow> int option" where
  "job_deadline env c j =
     (if j_deadline_time j \<noteq> 0 then
        let d = j_deadline_time j - e_now env in
        if d \<le> 0 then Some 100
        else f_trunc 32 (fmul binary64 (Fin 100)
               (e_exp env (fdiv binary32 (f_of_int binary32 d) (half_life c))))
      else Some 0)"

definition time_job :: "sch_env \<Rightarrow> gw_sch_conf \<Rightarrow> gw_sch_job \<Rightarrow> gw_sch_job option" where
  "time_job env c j = map_option (\<lambda>d. j\<lparr>j_waiting := to_int32 (e_now env - j_schedule_time j), j_deadline := d\<rparr>)
     (job_deadline env c j)"

fun map_jobs :: "('a \<Rightarrow> 'b option) \<Rightarrow> 'a list \<Rightarrow> 'b list option" where
  "map_jobs f [] = Some []"
| "map_jobs f (j # js) = do { j' \<leftarrow> f j; js' \<leftarrow> map_jobs f js; Some (j' # js') }"

definition max0 :: "int list \<Rightarrow> int" where
  "max0 xs = foldl (\<lambda>m x. if x > m then x else m) 0 xs"

text \<open>The second loop: the normalised policies and the priority.\<close>

definition norm_of :: "int \<Rightarrow> int \<Rightarrow> flt" where
  "norm_of i m = (if m = 0 then Fin 0 else int_ratio i m)"

definition job_policy :: "gw_sch_conf \<Rightarrow> int \<Rightarrow> int \<Rightarrow> int \<Rightarrow> gw_sch_job \<Rightarrow> gw_sch_job" where
  "job_policy c mf mw md j =
     (let nf = norm_of (j_fixed j) mf; nw = norm_of (j_waiting j) mw; nd = norm_of (j_deadline j) md in
      j\<lparr>j_nfixed := nf, j_nwaiting := nw, j_ndeadline := nd,
        j_priority := weighted (sc_wfixed c) nf (sc_wwaiting c) nw (sc_wdeadline c) nd\<rparr>)"

text \<open>The shares: the past jobs of each user, and the greatest quotient.\<close>

definition share_user :: "sch_env \<Rightarrow> gw_sch_conf \<Rightarrow> gw_sch_user \<Rightarrow> (gw_sch_user \<times> int) option" where
  "share_user env c u = do {
     let share = gw_sch_get_user_share c (u_name u);
     past \<leftarrow> gw_scheduler_user_past_jobs (e_exp env) u (sc_window_depth c);
     q \<leftarrow> c_quot (u_total_jobs u + past - 1) share;
     Some (u\<lparr>u_share := share, u_next_ujid := past\<rparr>, q)
   }"

text \<open>One job of the share loop: the next number of its user, over the user's share.\<close>

definition share_job ::
    "gw_sch_conf \<Rightarrow> int \<Rightarrow> gw_sch_user list \<Rightarrow> gw_sch_job \<Rightarrow> (gw_sch_user list \<times> gw_sch_job) option" where
  "share_job c max_share us j = do {
     u \<leftarrow> rd us (j_ua_id j);
     us' \<leftarrow> wr us (j_ua_id j) (u\<lparr>u_next_ujid := u_next_ujid u + 1\<rparr>);
     q \<leftarrow> c_quot (u_next_ujid u) (u_share u);
     let share = max_share - q;
     let nshare = int_ratio share max_share;
     Some (us', j\<lparr>j_share := share, j_nshare := nshare,
       j_priority := fadd binary32 (j_priority j) (fmul binary32 (sc_wshare c) nshare)\<rparr>)
   }"

fun share_loop ::
    "gw_sch_conf \<Rightarrow> int \<Rightarrow> gw_sch_user list \<Rightarrow> gw_sch_job list \<Rightarrow> (gw_sch_user list \<times> gw_sch_job list) option"
where
  "share_loop c m us [] = Some (us, [])"
| "share_loop c m us (j # js) = do {
     (us', j') \<leftarrow> share_job c m us j;
     (us'', js') \<leftarrow> share_loop c m us' js;
     Some (us'', j' # js')
   }"

definition gw_scheduler_job_shares :: "sch_env \<Rightarrow> gw_scheduler \<Rightarrow> gw_scheduler option" where
  "gw_scheduler_job_shares env s = do {
     uq \<leftarrow> map_jobs (share_user env (s_conf s)) (s_users s);
     let max_share = max0 (map snd uq);
     let max_share = (if max_share = 0 then 1 else max_share);
     (us, js) \<leftarrow> share_loop (s_conf s) max_share (map fst uq) (s_jobs s);
     Some (s\<lparr>s_users := us, s_jobs := e_qsort_jobs env job_cmp js\<rparr>)
   }"

definition gw_scheduler_job_policies :: "sch_env \<Rightarrow> gw_scheduler \<Rightarrow> gw_scheduler option" where
  "gw_scheduler_job_policies env s = do {
     js \<leftarrow> map_jobs (time_job env (s_conf s)) (s_jobs s);
     let mf = max0 (map j_fixed js);
     let mw = max0 (map j_waiting js);
     let md = max0 (map j_deadline js);
     let s' = s\<lparr>s_jobs := e_qsort_jobs env job_cmp (map (job_policy (s_conf s) mf mw md) js)\<rparr>;
     if f_lt (Fin 0) (sc_wshare (s_conf s)) then gw_scheduler_job_shares env s' else Some s'
   }"

section \<open>Each policy is a number between zero and one\<close>

lemma max0_Max: "max0 xs = Max (set (0 # xs))"
proof -
  have "(if x > m then x else m) = max x m" for x m :: int by simp
  then have "max0 xs = fold max xs 0" by (simp add: max0_def foldl_conv_fold)
  then show ?thesis by (simp only: Max.set_eq_fold)
qed

lemma max0_ge: "x \<in> set xs \<Longrightarrow> x \<le> max0 xs"
  and max0_nonneg: "0 \<le> max0 xs"
  and max0_le: "0 \<le> b \<Longrightarrow> (\<And>x. x \<in> set xs \<Longrightarrow> x \<le> b) \<Longrightarrow> max0 xs \<le> b"
  unfolding max0_Max by auto

lemma norm_of_unit: "0 \<le> i \<Longrightarrow> i \<le> m \<Longrightarrow> small_int m \<Longrightarrow> f_unit (norm_of i m)"
  using int_ratio_unit [of i m] by (auto simp: norm_of_def)

lemma norm_of_mono: "0 \<le> i \<Longrightarrow> i \<le> j \<Longrightarrow> j \<le> m \<Longrightarrow> small_int m \<Longrightarrow> f_le (norm_of i m) (norm_of j m)"
  using int_ratio_mono [of i j m] by (auto simp: norm_of_def)

lemma to_int32_small: "small_int (to_int32 i)"
  by (simp add: to_int32_def small_int_def)

definition policy_conf :: "gw_sch_conf \<Rightarrow> bool" where
  "policy_conf c \<longleftrightarrow> f_weight (sc_wfixed c) \<and> f_weight (sc_wwaiting c) \<and> f_weight (sc_wdeadline c)
     \<and> f_weight (sc_wshare c) \<and> 0 \<le> sc_dl_half c \<and> small_int (sc_dl_half c)
     \<and> (\<forall>u. 0 < gw_sch_get_user_share c u)"

definition job_in :: "sch_env \<Rightarrow> gw_sch_job \<Rightarrow> bool" where
  "job_in env j \<longleftrightarrow> 0 \<le> j_fixed j \<and> small_int (j_fixed j)
     \<and> 0 \<le> e_now env - j_schedule_time j \<and> e_now env - j_schedule_time j < 2 ^ 31
     \<and> \<bar>j_deadline_time j - e_now env\<bar> < 2 ^ 53"

lemma fl_minus1:
  assumes "f = binary32 \<or> f = binary64"
  shows "fl f s (- 1) = Fin (- 1)"
proof -
  have "(2 :: rat) powi 0 < 2 powi (snd (snd f) + 1)"
    using assms by (intro iffD2 [OF powi_less]) (auto simp: binary32_def binary64_def)
  with assms show ?thesis by (auto simp: fl_def Let_def)
qed

lemma fl_le_minus1:
  assumes f: "f = binary32 \<or> f = binary64" and x: "x \<le> - 1" "\<bar>x\<bar> \<le> 2 powi k" and k: "0 \<le> k" "k \<le> 120"
  shows "f_finite (fl f s x) \<and> f_val (fl f s x) \<le> - 1 \<and> \<bar>f_val (fl f s x)\<bar> \<le> 2 powi k"
proof -
  have b: "f_finite (fl f s x) \<and> \<bar>f_val (fl f s x)\<bar> \<le> 2 powi k"
    by (rule fl_bounded [OF f k x(2)])
  have "f_le (fl f s x) (fl f s (- 1))" using f x by (intro fl_mono) auto
  with b fl_minus1 [OF f] show ?thesis by (simp add: f_le_finite)
qed

lemma half_life_neg:
  assumes "0 \<le> sc_dl_half c" and "small_int (sc_dl_half c)"
  shows "half_life c = NZero \<or> (f_finite (half_life c) \<and> f_val (half_life c) \<le> - 1)"
proof (cases "sc_dl_half c = 0")
  case True
  then show ?thesis
    by (simp add: half_life_def fmul_def f_is_inf_def f_val_def f_neg_def f_zero_def f_conv_def)
next
  case False
  let ?n = "of_int (sc_dl_half c) :: rat"
  have n: "1 \<le> ?n" "?n < 2 ^ 31" using assms False by (auto simp: small_int_def)
  have eq: "f_of_int binary64 (sc_dl_half c) = Fin ?n"
    using assms by (intro f_of_int_double) (auto simp: small_int_def)
  let ?a = "fmul binary64 (Fin (- 3 / 2)) (Fin ?n)"
  have a: "f_finite ?a \<and> f_val ?a \<le> - 1 \<and> \<bar>f_val ?a\<bar> \<le> 2 powi 32"
    unfolding fmul_finite [OF f_finite_Fin(1) f_finite_Fin(1)]
    using n by (intro fl_le_minus1) (auto simp: power_int_def)
  let ?b = "fmul binary64 ?a (Fin 86400)"
  from a have "\<bar>f_val ?a\<bar> \<le> 2 powi 32" by blast
  also have "(2 :: rat) powi 32 = 4294967296" by (simp add: power_int_def)
  finally have "\<bar>f_val ?a\<bar> * 86400 \<le> 562949953421312" by linarith
  then have "\<bar>f_val ?a * 86400\<bar> \<le> 2 powi 49"
    by (simp only: abs_mult) (simp add: power_int_def)
  then have b: "f_finite ?b \<and> f_val ?b \<le> - 1 \<and> \<bar>f_val ?b\<bar> \<le> 2 powi 49"
    unfolding fmul_finite [OF conjunct1 [OF a] f_finite_Fin(1)]
    using a by (intro fl_le_minus1) auto
  then obtain r where r: "?b = Fin r" "r \<le> - 1" "\<bar>r\<bar> \<le> 2 powi 49"
    by (cases ?b) (auto simp: f_val_def f_finite_def)
  have "f_finite (fl binary32 False r) \<and> f_val (fl binary32 False r) \<le> - 1"
    using fl_le_minus1 [of binary32 r 49 False] r by auto
  moreover have "half_life c = fl binary32 False r"
    unfolding half_life_def eq r(1) f_conv_def by simp
  ultimately show ?thesis by simp
qed

lemma job_deadline_range:
  assumes c: "policy_conf c" and e: "exp_ok (e_exp env)" and j: "job_in env j"
  shows "\<exists>d. job_deadline env c j = Some d \<and> 0 \<le> d \<and> d \<le> 100"
proof (cases "j_deadline_time j \<noteq> 0 \<and> 0 < j_deadline_time j - e_now env")
  case True
  let ?d = "j_deadline_time j - e_now env"
  have d: "f_finite (f_of_int binary32 ?d)" "1 \<le> f_val (f_of_int binary32 ?d)"
    using f_of_int_val [of ?d ?d] j True by (auto simp: job_in_def)
  have "f_le (fdiv binary32 (f_of_int binary32 ?d) (half_life c)) (Fin 0)"
    using half_life_neg [of c] c d
    by (cases "half_life c = NZero")
      (auto simp: policy_conf_def fdiv_def f_is_inf_def f_val_def f_neg_def f_finite_def
        split: flt.splits intro!: fl_nonpos divide_nonneg_nonpos)
  with e have "f_unit (e_exp env (fdiv binary32 (f_of_int binary32 ?d) (half_life c)))"
    by (simp add: exp_ok_def)
  with fmul_unit_le [of 100 "e_exp env (fdiv binary32 (f_of_int binary32 ?d) (half_life c))"]
  have "\<exists>i. f_trunc 32 (fmul binary64 (Fin 100) (e_exp env (fdiv binary32 (f_of_int binary32 ?d) (half_life c))))
      = Some i \<and> 0 \<le> i \<and> i \<le> 100"
    using f_of_int_double [of 100] by (auto intro!: f_trunc_between)
  with True show ?thesis by (auto simp: job_deadline_def Let_def)
qed (auto simp: job_deadline_def)

lemma to_int32_id: "small_int i \<Longrightarrow> to_int32 i = i"
  by (simp add: to_int32_def small_int_def)

definition timed :: "gw_sch_job \<Rightarrow> bool" where
  "timed j \<longleftrightarrow> 0 \<le> j_fixed j \<and> small_int (j_fixed j) \<and> 0 \<le> j_waiting j \<and> small_int (j_waiting j)
     \<and> 0 \<le> j_deadline j \<and> j_deadline j \<le> 100"

text \<open>What the policies leave as it is.\<close>

definition j_core :: "gw_sch_job \<Rightarrow> int \<times> int \<times> int \<times> int \<times> gw_migration_reason \<times> gw_sch_queue list option \<times> int
     \<times> int \<times> int" where
  "j_core j = (j_ua_id j, j_jid j, j_aid j, j_np j, j_reason j, j_mhosts j, j_fixed j,
     j_schedule_time j, j_deadline_time j)"

lemma time_job_ok:
  assumes "policy_conf c" and "exp_ok (e_exp env)" and "job_in env j"
  shows "\<exists>j'. time_job env c j = Some j' \<and> timed j' \<and> j_core j' = j_core j"
proof -
  obtain d where "job_deadline env c j = Some d" "0 \<le> d" "d \<le> 100"
    using job_deadline_range [OF assms] by blast
  moreover have "small_int (e_now env - j_schedule_time j)"
    using assms(3) by (simp add: job_in_def small_int_def)
  ultimately show ?thesis
    using assms(3) by (auto simp: time_job_def timed_def job_in_def to_int32_id j_core_def)
qed

lemma map_jobs_total:
  "(\<And>x. x \<in> set xs \<Longrightarrow> \<exists>y. f x = Some y \<and> P x y) \<Longrightarrow>
   \<exists>ys. map_jobs f xs = Some ys \<and> list_all2 P xs ys"
proof (induction xs)
  case (Cons x xs)
  from Cons.prems [of x] obtain y where "f x = Some y" "P x y" by auto
  moreover obtain ys where "map_jobs f xs = Some ys" "list_all2 P xs ys"
    using Cons by (meson list.set_intros(2))
  ultimately show ?case by simp
qed simp

section \<open>The order\<close>

lemma job_cmp_le:
  "job_cmp a b \<le> 0 \<longleftrightarrow> j_fixed a = 20 \<or> (j_fixed b \<noteq> 20 \<and> \<not> f_lt (j_priority a) (j_priority b))"
  by (simp add: job_cmp_def)

lemma preorder_job_cmp:
  assumes p: "\<And>j. j \<in> A \<Longrightarrow> j_priority j \<noteq> NaN"
  shows "preorder_cmp job_cmp A"
proof -
  have le: "job_cmp a b \<le> 0 \<longleftrightarrow> j_fixed a = 20 \<or> (j_fixed b \<noteq> 20 \<and> f_le (j_priority b) (j_priority a))"
    if "a \<in> A" "b \<in> A" for a b
    using that by (simp add: job_cmp_le f_not_lt p)
  show ?thesis
    unfolding preorder_cmp_def using f_le_total p f_le_trans by (simp add: le) blast
qed

text \<open>A job that comes before another: urgent, or of at least its priority.\<close>

definition job_before :: "gw_sch_job \<Rightarrow> gw_sch_job \<Rightarrow> bool" where
  "job_before a b \<longleftrightarrow> j_fixed a = 20 \<or> (j_fixed b \<noteq> 20 \<and> f_le (j_priority b) (j_priority a))"

lemma sort_jobs:
  assumes qs: "qsort_perm qs" "qsort_sorts qs" and fin: "list_all (\<lambda>j. f_finite (j_priority j)) js"
  shows "mset (qs job_cmp js) = mset js \<and> sorted_wrt job_before (qs job_cmp js)"
proof -
  have nan: "j_priority j \<noteq> NaN" if "j \<in> set js" for j
    using fin that by (auto simp: list_all_iff f_finite_def)
  then have "sorted_wrt (\<lambda>a b. job_cmp a b \<le> 0) (qs job_cmp js)"
    using qs(2) preorder_job_cmp [of "set js"] by (simp add: qsort_sorts_def)
  then have "sorted_wrt job_before (qs job_cmp js)"
    by (rule sorted_wrt_mono_rel [rotated])
      (use nan f_not_lt in \<open>auto simp: job_cmp_le job_before_def qsort_set [OF qs(1)]\<close>)
  with qs(1) show ?thesis by (simp add: qsort_perm_def)
qed

lemma jobs_of_mset: "image_mset j_ua_id (mset js) = image_mset j_ua_id (mset js') \<Longrightarrow> jobs_of k js = jobs_of k js'"
proof -
  have "jobs_of k xs = size (filter_mset (\<lambda>i. i = int k) (image_mset j_ua_id (mset xs)))" for xs
    by (induction xs) auto
  then show "image_mset j_ua_id (mset js) = image_mset j_ua_id (mset js') \<Longrightarrow> jobs_of k js = jobs_of k js'"
    by metis
qed

lemma core_ids:
  "image_mset j_core (mset js) = image_mset j_core (mset js') \<Longrightarrow>
   image_mset j_ua_id (mset js) = image_mset j_ua_id (mset js')"
proof -
  have "image_mset j_ua_id M = image_mset fst (image_mset j_core M)" for M
    by (simp add: image_mset.compositionality comp_def j_core_def)
  then show "image_mset j_core (mset js) = image_mset j_core (mset js') \<Longrightarrow>
   image_mset j_ua_id (mset js) = image_mset j_ua_id (mset js')" by metis
qed

lemma core_set:
  "image_mset j_core (mset js) = image_mset j_core (mset js') \<Longrightarrow> j \<in> set js \<Longrightarrow> \<exists>j' \<in> set js'. j_core j' = j_core j"
proof -
  assume m: "image_mset j_core (mset js) = image_mset j_core (mset js')" and j: "j \<in> set js"
  from arg_cong [OF m, of set_mset] have "j_core ` set js = j_core ` set js'" by simp
  with j have "j_core j \<in> j_core ` set js'" by blast
  then show ?thesis by (metis imageE)
qed

lemma job_ok_core: "j_core j = j_core j' \<Longrightarrow> job_ok nu nh j = job_ok nu nh j'"
  by (simp add: j_core_def job_ok_def mhosts_ok_def)

lemma sch_ok_jobs:
  assumes ok: "sch_ok s" and m: "image_mset j_core (mset js) = image_mset j_core (mset (s_jobs s))"
  shows "sch_ok (s\<lparr>s_jobs := js\<rparr>)"
proof -
  have "job_ok (length (s_users s)) (length (s_hosts s)) j" if "j \<in> set js" for j
  proof -
    obtain j' where "j' \<in> set (s_jobs s)" "j_core j' = j_core j" using core_set [OF m \<open>j \<in> set js\<close>] by blast
    moreover from this ok have "job_ok (length (s_users s)) (length (s_hosts s)) j'"
      by (simp add: sch_ok_def list_all_iff)
    ultimately show ?thesis using job_ok_core [of j' j] by simp
  qed
  moreover have "totals_ok (s_users s) js"
    using ok jobs_of_mset [OF core_ids [OF m]] by (simp add: sch_ok_def totals_ok_def)
  ultimately show ?thesis using ok by (simp add: sch_ok_def list_all_iff)
qed

section \<open>The first order\<close>

definition job_norms :: "gw_sch_conf \<Rightarrow> gw_sch_job \<Rightarrow> bool" where
  "job_norms c j \<longleftrightarrow> f_unit (j_nfixed j) \<and> f_unit (j_nwaiting j) \<and> f_unit (j_ndeadline j)"

definition base_priority :: "gw_sch_conf \<Rightarrow> gw_sch_job \<Rightarrow> flt" where
  "base_priority c j = weighted (sc_wfixed c) (j_nfixed j) (sc_wwaiting c) (j_nwaiting j)
     (sc_wdeadline c) (j_ndeadline j)"

lemma base_priority_finite:
  "policy_conf c \<Longrightarrow> job_norms c j \<Longrightarrow> f_finite (base_priority c j)"
  unfolding base_priority_def
  by (rule weighted_finite(1)) (auto simp: policy_conf_def job_norms_def f_unit_norm)

lemma first_order:
  assumes c: "policy_conf c" and e: "exp_ok (e_exp env)"
    and js: "list_all (job_in env) js"
  shows "\<exists>ts. map_jobs (time_job env c) js = Some ts \<and> list_all timed ts
    \<and> map j_core ts = map j_core js"
proof -
  have "\<exists>ts. map_jobs (time_job env c) js = Some ts
      \<and> list_all2 (\<lambda>j j'. timed j' \<and> j_core j' = j_core j) js ts"
    using js time_job_ok [OF c e] by (intro map_jobs_total) (auto simp: list_all_iff)
  then obtain ts where ts: "map_jobs (time_job env c) js = Some ts"
      "list_all2 (\<lambda>j j'. timed j' \<and> j_core j' = j_core j) js ts"
    by blast
  from ts(2) have "list_all timed ts \<and> map j_core ts = map j_core js"
    by (induction rule: list_all2_induct) auto
  with ts(1) show ?thesis by blast
qed

lemma job_policy_norms:
  assumes "list_all timed ts" and "j \<in> set ts"
    and "p = job_policy c (max0 (map j_fixed ts)) (max0 (map j_waiting ts)) (max0 (map j_deadline ts)) j"
  shows "job_norms c p \<and> j_priority p = base_priority c p \<and> j_core p = j_core j"
proof -
  have sm: "small_int (max0 (map f ts))" if "\<And>t. t \<in> set ts \<Longrightarrow> small_int (f t)" for f :: "gw_sch_job \<Rightarrow> int"
  proof -
    have "max0 (map f ts) \<le> 2 ^ 31 - 1"
      by (rule max0_le) (use that in \<open>force simp: small_int_def\<close>)+
    with max0_nonneg [of "map f ts"] show ?thesis by (simp add: small_int_def)
  qed
  have "timed j" using assms(1,2) by (simp add: list_all_iff)
  moreover have "small_int (max0 (map j_fixed ts))" "small_int (max0 (map j_waiting ts))"
      "small_int (max0 (map j_deadline ts))"
    using assms(1) by (intro sm; force simp: list_all_iff timed_def small_int_def)+
  moreover have "j_fixed j \<le> max0 (map j_fixed ts)" "j_waiting j \<le> max0 (map j_waiting ts)"
      "j_deadline j \<le> max0 (map j_deadline ts)"
    using assms(2) by (auto intro: max0_ge)
  ultimately show ?thesis
    by (auto simp: assms(3) job_policy_def Let_def job_norms_def base_priority_def timed_def j_core_def
        intro!: norm_of_unit)
qed

section \<open>Shares\<close>

definition user_in :: "gw_sch_user \<Rightarrow> bool" where
  "user_in u \<longleftrightarrow> (case u_sub_windows u of None \<Rightarrow> True
     | Some ws \<Rightarrow> list_all (\<lambda>w. 0 \<le> w) ws \<and> sum_list ws + u_total_jobs u < 2 ^ 31) \<and> 0 \<le> u_total_jobs u"

lemma past_window_range:
  assumes e: "exp_ok expd" and w: "0 \<le> w" "w < 2 ^ 31" and i: "i < 2 ^ 31"
  shows "\<exists>n. past_window expd i w = Some n \<and> 0 \<le> n \<and> n \<le> w"
proof -
  let ?a = "f_of_int binary32 (int i)"
  have "\<bar>int i\<bar> \<le> 2 ^ 100" using i by simp
  then have a: "f_finite ?a" "f_nonneg ?a"
    using f_of_int_finite [of binary32 "int i"] f_of_int_nonneg [of "int i" binary32]
    by (auto simp: f_nonneg_def)
  then have "f_nonneg (fdiv binary64 ?a (Fin (7 / 2)))"
    using f_nonneg_val [of ?a] by (simp add: fdiv_finite fl_f_nonneg)
  then have "f_le (fminus (fdiv binary64 ?a (Fin (7 / 2)))) (Fin 0)"
    by (cases rule: f_nonneg_cases) (auto simp: fminus_def)
  with e have "f_unit (expd (fminus (fdiv binary64 ?a (Fin (7 / 2)))))" by (simp add: exp_ok_def)
  with fmul_unit_le [of w "expd (fminus (fdiv binary64 ?a (Fin (7 / 2))))"] w show ?thesis
    by (auto simp: past_window_def intro!: f_trunc_between)
qed

lemma past_loop_range:
  assumes e: "exp_ok expd" and ws: "list_all (\<lambda>w. 0 \<le> w \<and> w < 2 ^ 31) ws"
  shows "list_all (\<lambda>i. i < length ws \<and> i < 2 ^ 31) is \<Longrightarrow> 0 \<le> t \<Longrightarrow>
    \<exists>n. past_loop expd ws is t = Some n \<and> t \<le> n \<and> n \<le> t + (\<Sum>i\<leftarrow>is. ws ! i)"
proof (induction "is" arbitrary: t)
  case (Cons i "is")
  then have "0 \<le> ws ! i" "ws ! i < 2 ^ 31" using ws by (auto simp: list_all_length)
  then obtain n where "past_window expd i (ws ! i) = Some n" "0 \<le> n" "n \<le> ws ! i"
    using past_window_range [OF e, of "ws ! i" i] Cons.prems by auto
  with Cons.IH [of "t + n"] Cons.prems show ?case by fastforce
qed simp

lemma past_jobs_range:
  assumes e: "exp_ok expd" and u: "windows_ok c u" "user_in u" and d: "sc_window_depth c < 2 ^ 31"
  shows "\<exists>n. gw_scheduler_user_past_jobs expd u (sc_window_depth c) = Some n \<and> 0 \<le> n
    \<and> n + u_total_jobs u < 2 ^ 31"
proof -
  obtain ws where ws: "u_sub_windows u = Some ws" "int (length ws) = sc_window_depth c"
    using u by (auto simp: windows_ok_def split: option.splits)
  from u ws have nn: "list_all (\<lambda>w. 0 \<le> w) ws" "sum_list ws + u_total_jobs u < 2 ^ 31" "0 \<le> u_total_jobs u"
    by (auto simp: user_in_def)
  then have "w \<le> sum_list ws" if "w \<in> set ws" for w
    using that by (auto simp: list_all_iff intro: member_le_sum_list)
  with nn have small: "list_all (\<lambda>w. 0 \<le> w \<and> w < 2 ^ 31) ws" by (force simp: list_all_iff)
  have "list_all (\<lambda>i. i < length ws \<and> i < 2 ^ 31) [0..<nat (sc_window_depth c)]"
    using ws d by (auto simp: list_all_iff)
  moreover have "nat (sc_window_depth c) = length ws" using ws(2) by simp
  ultimately have
    "\<exists>n. gw_scheduler_user_past_jobs expd u (sc_window_depth c) = Some n \<and> 0 \<le> n
      \<and> n \<le> (\<Sum>i\<leftarrow>[0..<length ws]. ws ! i)"
    using past_loop_range [OF e small, of "[0..<length ws]" 0] ws(1)
    by (auto simp: gw_scheduler_user_past_jobs_def)
  moreover have "(\<Sum>i\<leftarrow>[0..<length ws]. ws ! i) = sum_list ws" by (simp add: map_nth)
  ultimately show ?thesis using nn by auto
qed

lemma c_quot_div: "0 \<le> a \<Longrightarrow> 0 < b \<Longrightarrow> c_quot a b = Some (a div b)"
  by (auto simp: c_quot_def sgn_if)

lemma c_quot_below: "0 < b \<Longrightarrow> a = - 1 \<Longrightarrow> \<exists>q. c_quot a b = Some q \<and> q \<le> 0"
  by (auto simp: c_quot_def pos_imp_zdiv_nonneg_iff)

definition shared :: "gw_sch_conf \<Rightarrow> int \<Rightarrow> gw_sch_job \<Rightarrow> gw_sch_job \<Rightarrow> bool" where
  "shared c m j j' \<longleftrightarrow> (\<exists>n. 0 \<le> n \<and> n \<le> m \<and> j' = j\<lparr>j_share := n, j_nshare := int_ratio n m,
     j_priority := fadd binary32 (j_priority j) (fmul binary32 (sc_wshare c) (int_ratio n m))\<rparr>)"

definition numbering :: "int \<Rightarrow> gw_sch_user list \<Rightarrow> gw_sch_job list \<Rightarrow> bool" where
  "numbering m us js \<longleftrightarrow> (\<forall>k < length us. 0 < u_share (us ! k) \<and> 0 \<le> u_next_ujid (us ! k)
     \<and> (0 < jobs_of k js \<longrightarrow> (u_next_ujid (us ! k) + int (jobs_of k js) - 1) div u_share (us ! k) \<le> m))"

definition same_users :: "gw_sch_user list \<Rightarrow> gw_sch_user list \<Rightarrow> bool" where
  "same_users us us' \<longleftrightarrow> list_all2 (\<lambda>u u'. u_uid u' = u_uid u \<and> u_total_jobs u' = u_total_jobs u
     \<and> u_sub_windows u' = u_sub_windows u \<and> u_hosts u' = u_hosts u \<and> u_name u' = u_name u
     \<and> u_running_jobs u' = u_running_jobs u \<and> u_dispatched u' = u_dispatched u) us us'"

lemma same_users_refl: "same_users us us"
  by (simp add: same_users_def list_all2_same)

lemma same_users_trans: "same_users a b \<Longrightarrow> same_users b c \<Longrightarrow> same_users a c"
  unfolding same_users_def by (erule (1) list_all2_trans [rotated]) auto

lemma same_users_update:
  "k < length us \<Longrightarrow> same_users us (us[k := (us ! k)\<lparr>u_next_ujid := n\<rparr>])"
  by (auto simp: same_users_def list_all2_conv_all_nth nth_list_update)

lemma same_users_ok:
  assumes ok: "sch_ok s" and same: "same_users (s_users s) us"
  shows "sch_ok (s\<lparr>s_users := us\<rparr>)"
proof -
  have len: "length us = length (s_users s)"
    using same by (auto simp: same_users_def dest: list_all2_lengthD)
  have ids: "map u_uid us = map u_uid (s_users s)" "map u_total_jobs us = map u_total_jobs (s_users s)"
    using same by (auto simp: same_users_def list_all2_conv_all_nth intro!: nth_equalityI)
  have "user_ok (s_conf s) (s_hosts s) (us ! k)" if "k < length us" for k
    using sch_ok_user [OF ok, of k] same that len
    by (simp add: same_users_def list_all2_conv_all_nth user_ok_def windows_ok_def)
  with ok len ids show ?thesis by (simp add: sch_ok_def list_all_length totals_ok_def)
qed

lemma share_loop_total:
  "\<lbrakk>numbering m us js; list_all (\<lambda>j. 0 \<le> j_ua_id j \<and> j_ua_id j < int (length us)) js\<rbrakk> \<Longrightarrow>
   \<exists>us' js'. share_loop c m us js = Some (us', js') \<and> same_users us us' \<and> list_all2 (shared c m) js js'"
proof (induction js arbitrary: us)
  case (Cons j js)
  define k where "k = nat (j_ua_id j)"
  with Cons.prems have k: "k < length us" "j_ua_id j = int k" by auto
  let ?u = "us ! k"
  have n: "0 < u_share ?u" "0 \<le> u_next_ujid ?u"
      "(u_next_ujid ?u + int (jobs_of k (j # js)) - 1) div u_share ?u \<le> m"
    using Cons.prems(1) k by (auto simp: numbering_def)
  then have "u_next_ujid ?u div u_share ?u \<le> m"
    using k zdiv_mono1 [of "u_next_ujid ?u" "u_next_ujid ?u + int (jobs_of k (j # js)) - 1" "u_share ?u"]
    by simp
  with n have q: "c_quot (u_next_ujid ?u) (u_share ?u) = Some (u_next_ujid ?u div u_share ?u)"
      "0 \<le> m - u_next_ujid ?u div u_share ?u" "m - u_next_ujid ?u div u_share ?u \<le> m"
    by (auto simp: c_quot_div pos_imp_zdiv_nonneg_iff)
  let ?us = "us[k := ?u\<lparr>u_next_ujid := u_next_ujid ?u + 1\<rparr>]"
  have job: "\<exists>j'. share_job c m us j = Some (?us, j') \<and> shared c m j j'"
    using k q unfolding shared_def
    by (auto simp: share_job_def Let_def intro!: exI [of _ "m - u_next_ujid ?u div u_share ?u"])
  have "numbering m ?us js"
    using Cons.prems(1) k unfolding numbering_def
    by (auto simp: nth_list_update algebra_simps split: if_splits)
  from Cons.IH [OF this] Cons.prems(2) obtain us' js' where
    "share_loop c m ?us js = Some (us', js')" "same_users ?us us'" "list_all2 (shared c m) js js'"
    by auto
  with job same_users_update [OF k(1)] same_users_trans show ?case by fastforce
qed (simp add: same_users_refl)

lemma share_user_total:
  assumes c: "policy_conf c" and e: "exp_ok (e_exp env)" and d: "sc_window_depth c < 2 ^ 31"
    and u: "windows_ok c u" "user_in u"
  shows "\<exists>p q. share_user env c u = Some (u\<lparr>u_share := gw_sch_get_user_share c (u_name u), u_next_ujid := p\<rparr>, q)
    \<and> 0 \<le> p \<and> q < 2 ^ 31
    \<and> (0 < u_total_jobs u \<longrightarrow> q = (p + u_total_jobs u - 1) div gw_sch_get_user_share c (u_name u))"
proof -
  let ?sh = "gw_sch_get_user_share c (u_name u)"
  have sh: "0 < ?sh" using c by (simp add: policy_conf_def)
  obtain p where p: "gw_scheduler_user_past_jobs (e_exp env) u (sc_window_depth c) = Some p" "0 \<le> p"
      "p + u_total_jobs u < 2 ^ 31"
    using past_jobs_range [OF e u d] by blast
  have t0: "0 \<le> u_total_jobs u" using u(2) by (simp add: user_in_def)
  show ?thesis
  proof (cases "0 < p + u_total_jobs u")
    case True
    let ?a = "u_total_jobs u + p - 1"
    have "?a div ?sh \<le> ?a" using True sh zdiv_mono2 [of ?a 1 ?sh] by simp
    with True p sh c_quot_div [of ?a ?sh] show ?thesis
      by (intro exI [of _ p] exI [of _ "?a div ?sh"]) (simp add: share_user_def Let_def add.commute)
  next
    case False
    with p t0 have "p = 0" "u_total_jobs u = 0" by auto
    with c_quot_below [OF sh refl] p show ?thesis by (auto simp: share_user_def Let_def)
  qed
qed

lemma shared_core: "shared c m j j' \<Longrightarrow> j_core j' = j_core j \<and> job_norms c j' = job_norms c j
    \<and> base_priority c j' = base_priority c j"
  by (auto simp: shared_def j_core_def job_norms_def base_priority_def)

text \<open>The priority with the share of the user.\<close>

definition full_priority :: "gw_sch_conf \<Rightarrow> gw_sch_job \<Rightarrow> flt" where
  "full_priority c j = fadd binary32 (base_priority c j) (fmul binary32 (sc_wshare c) (j_nshare j))"

lemma base_priority_bounded:
  assumes "policy_conf c" and "job_norms c j"
  shows "\<bar>f_val (base_priority c j)\<bar> \<le> 2 powi 102"
proof -
  have up: "(2 :: rat) powi 100 \<le> 2 powi 101" by (simp only: powi_le)
  have n: "f_norm (j_nfixed j)" "f_norm (j_nwaiting j)" "f_norm (j_ndeadline j)"
    and w: "f_weight (sc_wfixed c)" "f_weight (sc_wwaiting c)" "f_weight (sc_wdeadline c)"
    using assms by (auto simp: policy_conf_def job_norms_def f_unit_norm)
  let ?s = "fadd binary32 (fmul binary32 (sc_wfixed c) (j_nfixed j)) (fmul binary32 (sc_wwaiting c) (j_nwaiting j))"
  have "f_finite ?s \<and> \<bar>f_val ?s\<bar> \<le> 2 powi (100 + 1)"
    using fmul_weight [OF w(1) n(1)] fmul_weight [OF w(2) n(2)] by (intro fadd_bounded) auto
  moreover have "\<bar>f_val (fmul binary32 (sc_wdeadline c) (j_ndeadline j))\<bar> \<le> 2 powi 101"
    using fmul_weight [OF w(3) n(3)] up by linarith
  ultimately have "f_finite (base_priority c j) \<and> \<bar>f_val (base_priority c j)\<bar> \<le> 2 powi (101 + 1)"
    using fmul_weight [OF w(3) n(3)] unfolding base_priority_def weighted_def
    by (intro fadd_bounded) auto
  then show ?thesis by simp
qed

lemma shared_finite:
  assumes c: "policy_conf c" and j: "job_norms c j" "j_priority j = base_priority c j"
    and sh: "shared c m j j'" and m: "0 < m" "small_int m"
  shows "f_unit (j_nshare j') \<and> j_priority j' = full_priority c j' \<and> f_finite (j_priority j')"
proof -
  obtain n where n: "0 \<le> n" "n \<le> m" "j' = j\<lparr>j_share := n, j_nshare := int_ratio n m,
     j_priority := fadd binary32 (j_priority j) (fmul binary32 (sc_wshare c) (int_ratio n m))\<rparr>"
    using sh by (auto simp: shared_def)
  have u: "f_unit (int_ratio n m)" using n m by (intro int_ratio_unit) auto
  have w: "f_finite (fmul binary32 (sc_wshare c) (int_ratio n m))"
      "\<bar>f_val (fmul binary32 (sc_wshare c) (int_ratio n m))\<bar> \<le> 2 powi 100"
    using fmul_weight [of "sc_wshare c" "int_ratio n m"] c u by (auto simp: policy_conf_def f_unit_norm)
  then have "\<bar>f_val (fmul binary32 (sc_wshare c) (int_ratio n m))\<bar> \<le> 2 powi 102"
    using powi_le [of 100 102] by linarith
  with base_priority_finite [OF c j(1)] base_priority_bounded [OF c j(1)] w(1)
  have "f_finite (fadd binary32 (base_priority c j) (fmul binary32 (sc_wshare c) (int_ratio n m)))"
    using fadd_bounded [of _ _ 102] by auto
  with u j(2) n(3) shared_core [OF sh] show ?thesis by (simp add: full_priority_def)
qed

lemma job_shares_total:
  assumes ok: "sch_ok s" and c: "policy_conf (s_conf s)" and e: "exp_ok (e_exp env)"
    and d: "sc_window_depth (s_conf s) < 2 ^ 31" and us: "list_all user_in (s_users s)"
    and js: "list_all (\<lambda>j. job_norms (s_conf s) j \<and> j_priority j = base_priority (s_conf s) j) (s_jobs s)"
    and qs: "qsort_perm (e_qsort_jobs env)" "qsort_sorts (e_qsort_jobs env)"
  shows "\<exists>us' js'. gw_scheduler_job_shares env s = Some (s\<lparr>s_users := us', s_jobs := js'\<rparr>)
    \<and> same_users (s_users s) us'
    \<and> image_mset j_core (mset js') = image_mset j_core (mset (s_jobs s)) \<and> sorted_wrt job_before js'
    \<and> list_all (\<lambda>j. job_norms (s_conf s) j \<and> f_unit (j_nshare j) \<and> j_priority j = full_priority (s_conf s) j) js'"
proof -
  let ?c = "s_conf s"
  let ?P = "\<lambda>u uq. \<exists>p q. uq = (u\<lparr>u_share := gw_sch_get_user_share ?c (u_name u), u_next_ujid := p\<rparr>, q)
    \<and> 0 \<le> p \<and> q < 2 ^ 31
    \<and> (0 < u_total_jobs u \<longrightarrow> q = (p + u_total_jobs u - 1) div gw_sch_get_user_share ?c (u_name u))"
  have "\<exists>uq. map_jobs (share_user env ?c) (s_users s) = Some uq \<and> list_all2 ?P (s_users s) uq"
  proof (rule map_jobs_total)
    fix u assume u: "u \<in> set (s_users s)"
    then have "windows_ok ?c u" "user_in u"
      using sch_ok_windows [OF ok] us by (auto simp: list_all_iff)
    from share_user_total [OF c e d this]
    show "\<exists>y. share_user env ?c u = Some y \<and> ?P u y" by blast
  qed
  then obtain uq where uq: "map_jobs (share_user env ?c) (s_users s) = Some uq" "list_all2 ?P (s_users s) uq"
    by blast
  define m where "m = (if max0 (map snd uq) = 0 then 1 else max0 (map snd uq))"
  have len: "length uq = length (s_users s)" using uq(2) by (auto dest: list_all2_lengthD)
  have "\<forall>i < length uq. snd (uq ! i) \<le> 2 ^ 31 - 1"
    using uq(2) by (fastforce simp: list_all2_conv_all_nth)
  then have "max0 (map snd uq) \<le> 2 ^ 31 - 1"
    by (intro max0_le) (fastforce simp: in_set_conv_nth)+
  then have m: "0 < m" "small_int m" using max0_nonneg [of "map snd uq"] by (auto simp: m_def small_int_def)
  have t: "totals_ok (s_users s) (s_jobs s)" using ok by (simp add: sch_ok_def)
  have "numbering m (map fst uq) (s_jobs s)"
    unfolding numbering_def
  proof (intro allI impI)
    fix k assume "k < length (map fst uq)"
    then have k: "k < length uq" "k < length (s_users s)" using len by auto
    with uq(2) obtain p q where pq: "uq ! k = ((s_users s ! k)\<lparr>u_share := gw_sch_get_user_share ?c (u_name (s_users s ! k)), u_next_ujid := p\<rparr>, q)"
        "0 \<le> p" "0 < u_total_jobs (s_users s ! k) \<longrightarrow> q = (p + u_total_jobs (s_users s ! k) - 1) div gw_sch_get_user_share ?c (u_name (s_users s ! k))"
      by (auto simp: list_all2_conv_all_nth)
    have "q \<le> max0 (map snd uq)" using k pq by (intro max0_ge) (force simp: in_set_conv_nth)
    then have "q \<le> m" by (simp add: m_def)
    with pq k c totals_nth [OF t k(2)] show "0 < u_share (map fst uq ! k) \<and> 0 \<le> u_next_ujid (map fst uq ! k)
       \<and> (0 < jobs_of k (s_jobs s) \<longrightarrow> (u_next_ujid (map fst uq ! k) + int (jobs_of k (s_jobs s)) - 1)
           div u_share (map fst uq ! k) \<le> m)"
      by (auto simp: policy_conf_def)
  qed
  moreover have "list_all (\<lambda>j. 0 \<le> j_ua_id j \<and> j_ua_id j < int (length (map fst uq))) (s_jobs s)"
    using ok len by (auto simp: sch_ok_def list_all_iff job_ok_def)
  ultimately obtain us' js' where loop: "share_loop ?c m (map fst uq) (s_jobs s) = Some (us', js')"
      "same_users (map fst uq) us'" "list_all2 (shared ?c m) (s_jobs s) js'"
    using share_loop_total by blast
  have same: "same_users (s_users s) (map fst uq)"
    using uq(2) unfolding same_users_def by (auto simp: list_all2_conv_all_nth)
  have core: "map j_core js' = map j_core (s_jobs s)"
    using loop(3) by (induction rule: list_all2_induct) (auto simp: shared_core)
  have props: "list_all (\<lambda>j. job_norms ?c j \<and> f_unit (j_nshare j) \<and> j_priority j = full_priority ?c j
      \<and> f_finite (j_priority j)) js'"
    using loop(3) js
    by (induction rule: list_all2_induct) (auto simp: shared_core dest: shared_finite [OF c _ _ _ m])
  then have sorted: "mset (e_qsort_jobs env job_cmp js') = mset js' \<and> sorted_wrt job_before (e_qsort_jobs env job_cmp js')"
    by (intro sort_jobs [OF qs]) (auto simp: list_all_iff)
  have "gw_scheduler_job_shares env s = Some (s\<lparr>s_users := us', s_jobs := e_qsort_jobs env job_cmp js'\<rparr>)"
    using uq(1) loop(1) by (simp add: gw_scheduler_job_shares_def Let_def flip: m_def)
  moreover have "image_mset j_core (mset (e_qsort_jobs env job_cmp js')) = image_mset j_core (mset (s_jobs s))"
    using sorted core by (metis mset_map)
  moreover have "list_all (\<lambda>j. job_norms ?c j \<and> f_unit (j_nshare j) \<and> j_priority j = full_priority ?c j)
      (e_qsort_jobs env job_cmp js')"
    using props by (simp add: list_all_iff qsort_set [OF qs(1)])
  ultimately show ?thesis using same_users_trans [OF same loop(2)] sorted by blast
qed

section \<open>Properties\<close>

text \<open>The hypotheses on the input of the policies.\<close>

definition policies_in :: "sch_env \<Rightarrow> gw_scheduler \<Rightarrow> bool" where
  "policies_in env s \<longleftrightarrow> policy_conf (s_conf s) \<and> exp_ok (e_exp env)
     \<and> sc_window_depth (s_conf s) < 2 ^ 31
     \<and> list_all (job_in env) (s_jobs s) \<and> list_all user_in (s_users s)
     \<and> qsort_perm (e_qsort_jobs env) \<and> qsort_sorts (e_qsort_jobs env)"

lemma job_policies_total:
  assumes ok: "sch_ok s" and i: "policies_in env s"
  shows "\<exists>us js. gw_scheduler_job_policies env s = Some (s\<lparr>s_users := us, s_jobs := js\<rparr>)
    \<and> same_users (s_users s) us
    \<and> image_mset j_core (mset js) = image_mset j_core (mset (s_jobs s)) \<and> sorted_wrt job_before js
    \<and> list_all (\<lambda>j. job_norms (s_conf s) j \<and> (if f_lt (Fin 0) (sc_wshare (s_conf s))
         then f_unit (j_nshare j) \<and> j_priority j = full_priority (s_conf s) j
         else j_priority j = base_priority (s_conf s) j)) js"
proof -
  let ?c = "s_conf s"
  have c: "policy_conf ?c" and e: "exp_ok (e_exp env)" and d: "sc_window_depth ?c < 2 ^ 31"
    and j: "list_all (job_in env) (s_jobs s)" and u: "list_all user_in (s_users s)"
    and qs: "qsort_perm (e_qsort_jobs env)" "qsort_sorts (e_qsort_jobs env)"
    using i by (auto simp: policies_in_def)
  obtain ts where ts: "map_jobs (time_job env ?c) (s_jobs s) = Some ts" "list_all timed ts"
      "map j_core ts = map j_core (s_jobs s)"
    using first_order [OF c e j] by blast
  define ps where "ps = map (job_policy ?c (max0 (map j_fixed ts)) (max0 (map j_waiting ts)) (max0 (map j_deadline ts))) ts"
  have ps: "job_norms ?c p \<and> j_priority p = base_priority ?c p" if "p \<in> set ps" for p
    using that job_policy_norms [OF ts(2) _ refl] by (auto simp: ps_def)
  have "map j_core ps = map j_core ts"
    using job_policy_norms [OF ts(2) _ refl] by (simp add: ps_def)
  with ts(3) have core: "map j_core ps = map j_core (s_jobs s)" by simp
  define js where "js = e_qsort_jobs env job_cmp ps"
  have "list_all (\<lambda>j. f_finite (j_priority j)) ps"
    unfolding list_all_iff using ps base_priority_finite [OF c] by metis
  from sort_jobs [OF qs this] have js: "mset js = mset ps" "sorted_wrt job_before js"
    by (auto simp: js_def)
  have jcore: "image_mset j_core (mset js) = image_mset j_core (mset (s_jobs s))"
    using js(1) core by (metis mset_map)
  have jp: "list_all (\<lambda>j. job_norms ?c j \<and> j_priority j = base_priority ?c j) js"
    unfolding list_all_iff js_def qsort_set [OF qs(1)] using ps by blast
  show ?thesis
  proof (cases "f_lt (Fin 0) (sc_wshare ?c)")
    case False
    then show ?thesis
      using ts(1) js(2) jcore jp same_users_refl
      by (intro exI [of _ "s_users s"] exI [of _ js])
        (simp add: gw_scheduler_job_policies_def Let_def flip: ps_def js_def)
  next
    case True
    let ?s = "s\<lparr>s_jobs := js\<rparr>"
    have "sch_ok ?s" using sch_ok_jobs [OF ok jcore] .
    from job_shares_total [OF this, of env] c e d u jp qs obtain us' js' where
      "gw_scheduler_job_shares env ?s = Some (?s\<lparr>s_users := us', s_jobs := js'\<rparr>)" "same_users (s_users s) us'"
      "image_mset j_core (mset js') = image_mset j_core (mset js)" "sorted_wrt job_before js'"
      "list_all (\<lambda>j. job_norms ?c j \<and> f_unit (j_nshare j) \<and> j_priority j = full_priority ?c j) js'"
      by auto
    with True ts(1) jcore show ?thesis
      by (intro exI [of _ us'] exI [of _ js'])
        (simp add: gw_scheduler_job_policies_def Let_def flip: ps_def js_def)
  qed
qed

lemma job_policies_ok:
  assumes ok: "sch_ok s" and i: "policies_in env s"
  shows "\<exists>s'. gw_scheduler_job_policies env s = Some s' \<and> sch_ok s'"
proof -
  from job_policies_total [OF ok i] obtain us js where
    r: "gw_scheduler_job_policies env s = Some (s\<lparr>s_users := us, s_jobs := js\<rparr>)" "same_users (s_users s) us"
      "image_mset j_core (mset js) = image_mset j_core (mset (s_jobs s))"
    by blast
  have "sch_ok (s\<lparr>s_users := us\<rparr>)" using same_users_ok [OF ok r(2)] .
  from sch_ok_jobs [OF this, of js] r(3) have "sch_ok (s\<lparr>s_users := us, s_jobs := js\<rparr>)" by simp
  with r(1) show ?thesis by blast
qed

text \<open>C19 (functional).
  The policies of the jobs lose and change no job: they order the list with the urgent
  jobs (fixed priority 20) first and the others by their priority, and each normalised
  policy, the share of the user among them, lies between 0 and 1.\<close>

theorem job_policies_order:
  assumes "sch_ok s" and "policies_in env s"
  shows "\<exists>s'. gw_scheduler_job_policies env s = Some s' \<and> sch_ok s'
    \<and> image_mset j_core (mset (s_jobs s')) = image_mset j_core (mset (s_jobs s))
    \<and> sorted_wrt (\<lambda>a b. j_fixed a = 20 \<or> (j_fixed b \<noteq> 20 \<and> f_le (j_priority b) (j_priority a))) (s_jobs s')
    \<and> list_all (\<lambda>j. f_unit (j_nfixed j) \<and> f_unit (j_nwaiting j) \<and> f_unit (j_ndeadline j)
        \<and> (f_lt (Fin 0) (sc_wshare (s_conf s)) \<longrightarrow> f_unit (j_nshare j))) (s_jobs s')"
proof -
  from job_policies_total [OF assms] obtain us js where
    r: "gw_scheduler_job_policies env s = Some (s\<lparr>s_users := us, s_jobs := js\<rparr>)"
      "image_mset j_core (mset js) = image_mset j_core (mset (s_jobs s))" "sorted_wrt job_before js"
      "list_all (\<lambda>j. job_norms (s_conf s) j \<and> (if f_lt (Fin 0) (sc_wshare (s_conf s))
         then f_unit (j_nshare j) \<and> j_priority j = full_priority (s_conf s) j
         else j_priority j = base_priority (s_conf s) j)) js"
    by blast
  from job_policies_ok [OF assms] r(1) have "sch_ok (s\<lparr>s_users := us, s_jobs := js\<rparr>)" by simp
  moreover have "sorted_wrt (\<lambda>a b. j_fixed a = 20 \<or> (j_fixed b \<noteq> 20 \<and> f_le (j_priority b) (j_priority a))) js"
    using r(3) by (rule sorted_wrt_mono_rel [rotated]) (simp add: job_before_def)
  moreover have "list_all (\<lambda>j. f_unit (j_nfixed j) \<and> f_unit (j_nwaiting j) \<and> f_unit (j_ndeadline j)
        \<and> (f_lt (Fin 0) (sc_wshare (s_conf s)) \<longrightarrow> f_unit (j_nshare j))) js"
    using r(4) by (auto simp: list_all_iff job_norms_def)
  ultimately show ?thesis using r(1,2) by simp
qed

text \<open>A job of the sample user, and an environment.\<close>

definition sample_job :: "int \<Rightarrow> int \<Rightarrow> gw_migration_reason \<Rightarrow> gw_sch_job" where
  "sample_job jid fixed reason = \<lparr>j_ua_id = 0, j_jid = jid, j_aid = - 1, j_np = 1, j_reason = reason,
     j_mhosts = None, j_schedule_time = 900, j_deadline_time = 0, j_priority = Fin 0, j_fixed = fixed,
     j_nfixed = Fin 0, j_waiting = 0, j_nwaiting = Fin 0, j_deadline = 0, j_ndeadline = Fin 0,
     j_share = 0, j_nshare = Fin 0\<rparr>"

definition sample_jobs :: gw_scheduler where
  "sample_jobs = sample_sch\<lparr>s_users := [(s_users sample_sch ! 0)\<lparr>u_total_jobs := 2\<rparr>],
     s_jobs := [sample_job 1 0 GW_REASON_NONE, sample_job 2 20 GW_REASON_NONE]\<rparr>"

definition sample_env :: sch_env where
  "sample_env = \<lparr>e_now = 1000, e_exp = (\<lambda>x. Fin 0),
     e_match = (\<lambda>jid aid. Some [\<lparr>mm_host_id = 3, mm_fixed_priority = 1,
        mm_queues = [\<lparr>mq_name = ''q'', mq_match = True, mq_rank = 0, mq_slots = 5\<rparr>]\<rparr>]),
     e_history = (\<lambda>jid. None), e_status = (\<lambda>jid. None), e_acct = (\<lambda>h u. None),
     e_qsort_queues = sort_by, e_qsort_jobs = sort_by\<rparr>"

lemma sample_jobs_ok: "sch_ok sample_jobs" "policies_in sample_env sample_jobs"
  by (simp_all add: sample_jobs_def sample_sch_def sch_ok_def gw_sch_conf_init_def totals_ok_def
       user_ok_def windows_ok_def new_user_host_def set_averages_def job_ok_def mhosts_ok_def
       sample_job_def policies_in_def policy_conf_def f_weight_def small_int_def exp_ok_zero
       sample_env_def job_in_def user_in_def qsort_sort_by gw_sch_get_user_share_def)

lemma job_policies_order_witness:
  "\<exists>s'. gw_scheduler_job_policies sample_env sample_jobs = Some s'
    \<and> sorted_wrt (\<lambda>a b. j_fixed a = 20 \<or> (j_fixed b \<noteq> 20 \<and> f_le (j_priority b) (j_priority a))) (s_jobs s')"
  using job_policies_order [OF sample_jobs_ok] by blast

end
