(* ===== verification/Sch_Dispatch.thy ===== *)
theory Sch_Dispatch
  imports Sch_Jobs
begin

text \<open>
  The scheduling pass of the default scheduler, \<open>src/scheduler/gw_scheduler.c\<close>: new jobs
  first, then the jobs to be placed again, each in the order of the list, to the first
  candidate host with room.  A job that is placed leaves the list, so the loop looks at
  the same index again.  The locale \<open>job_pass\<close> is the induction over the loop.
\<close>

section \<open>The code\<close>

text \<open>The \<open>printf\<close> to the daemon: \<open>SCHEDULE_JOB %i SUCCESS %i:%s:%i\n\<close>.\<close>

definition success_line :: "int \<Rightarrow> int \<Rightarrow> string \<Rightarrow> int \<Rightarrow> string" where
  "success_line jid hid qname rank = ''SCHEDULE_JOB '' @ show_int jid @ '' SUCCESS '' @ show_int hid
     @ '':'' @ qname @ '':'' @ show_int rank @ [CHR 0x0A]"

text \<open>The inner loop: the first candidate whose host is below the limit and has a free slot.\<close>

fun pick_host :: "gw_sch_host list \<Rightarrow> int \<Rightarrow> gw_sch_queue list \<Rightarrow> gw_sch_queue option option" where
  "pick_host hs max_host [] = Some None"
| "pick_host hs max_host (q # qs) = do {
     h \<leftarrow> rd hs (q_ha_id q);
     if max_host \<noteq> 0 \<and> h_used_slots h + h_dispatched h \<ge> max_host then pick_host hs max_host qs
     else if q_slots q - h_dispatched h > 0 then Some (Some q)
     else pick_host hs max_host qs
   }"

text \<open>The job is sent to the queue: the counters, the line, and the job leaves the list.
  The user at index \<open>k\<close> is the one whose counter goes up.\<close>

definition place_job :: "gw_scheduler \<Rightarrow> int \<Rightarrow> gw_sch_job \<Rightarrow> gw_sch_queue \<Rightarrow> (gw_scheduler \<times> string) option" where
  "place_job s k job q = do {
     h \<leftarrow> rd (s_hosts s) (q_ha_id q);
     hs \<leftarrow> wr (s_hosts s) (q_ha_id q) (h\<lparr>h_dispatched := h_dispatched h + 1\<rparr>);
     u \<leftarrow> rd (s_users s) k;
     us \<leftarrow> wr (s_users s) k (u\<lparr>u_dispatched := u_dispatched u + 1\<rparr>);
     s' \<leftarrow> gw_scheduler_job_del (s\<lparr>s_hosts := hs, s_users := us\<rparr>) (j_jid job) 1;
     Some (s', success_line (j_jid job) (h_hid h) (q_qname q) (q_rank q))
   }"

text \<open>The body of the outer loop at index \<open>i\<close>: \<open>None\<close> inside when the job stays.\<close>

definition dispatch_at ::
    "int \<Rightarrow> int \<Rightarrow> bool \<Rightarrow> gw_scheduler \<Rightarrow> nat \<Rightarrow> (gw_scheduler \<times> string) option option" where
  "dispatch_at max_user max_host reschedule s i = do {
     let job = s_jobs s ! i;
     user \<leftarrow> rd (s_users s) (j_ua_id job);
     if max_user \<noteq> 0 \<and> u_running_jobs user + u_dispatched user \<ge> max_user then Some None
     else if (\<not> reschedule \<and> j_reason job \<noteq> GW_REASON_NONE)
        \<or> (reschedule \<and> j_reason job = GW_REASON_NONE) then Some None
     else do {
       r \<leftarrow> pick_host (s_hosts s) max_host (case j_mhosts job of None \<Rightarrow> [] | Some qs \<Rightarrow> qs);
       (case r of None \<Rightarrow> Some None | Some q \<Rightarrow> map_option Some (place_job s (j_ua_id job) job q))
     }
   }"

lemma find_index_present: "i < length xs \<Longrightarrow> P (xs ! i) \<Longrightarrow> \<exists>k. find_index P xs = Some k \<and> k \<le> i"
proof (induction xs arbitrary: i)
  case (Cons x xs)
  then show ?case by (cases i) fastforce+
qed simp

lemma place_job_length:
  assumes "place_job s k (s_jobs s ! i) q = Some (s', l)" and "i < length (s_jobs s)"
  shows "Suc (length (s_jobs s')) = length (s_jobs s)"
proof -
  obtain n where "find_index (\<lambda>j. j_jid j = j_jid (s_jobs s ! i)) (s_jobs s) = Some n"
    using find_index_present [OF assms(2), of "\<lambda>j. j_jid j = j_jid (s_jobs s ! i)"] by auto
  moreover from assms(1) obtain hs us where
    "gw_scheduler_job_del (s\<lparr>s_hosts := hs, s_users := us\<rparr>) (j_jid (s_jobs s ! i)) 1 = Some s'"
    by (auto simp: place_job_def bind_Some_iff)
  ultimately show ?thesis
    using job_del_length [of "j_jid (s_jobs s ! i)" "s\<lparr>s_hosts := hs, s_users := us\<rparr>" n 1 s'] by simp
qed

lemma dispatch_at_length:
  "dispatch_at mu mh r s i = Some (Some (s', l)) \<Longrightarrow> i < length (s_jobs s) \<Longrightarrow>
   length (s_jobs s') < length (s_jobs s)"
  using place_job_length [of s _ i _ s' l]
  by (fastforce simp: dispatch_at_def bind_Some_iff Let_def split: option.splits if_splits)

text \<open>The loop over the jobs; \<open>dispatched\<close> goes on from one pass to the next.\<close>

function dispatch_loop ::
    "int \<Rightarrow> int \<Rightarrow> int \<Rightarrow> bool \<Rightarrow> nat \<Rightarrow> gw_scheduler \<times> int \<times> string list \<Rightarrow>
     (gw_scheduler \<times> int \<times> string list) option" where
  "dispatch_loop max_dsp max_user max_host reschedule i (s, dispatched, out) =
     (if i < length (s_jobs s) \<and> dispatched < max_dsp then
        (case dispatch_at max_user max_host reschedule s i of
           None \<Rightarrow> None
         | Some None \<Rightarrow> dispatch_loop max_dsp max_user max_host reschedule (Suc i) (s, dispatched, out)
         | Some (Some (s', line)) \<Rightarrow>
             dispatch_loop max_dsp max_user max_host reschedule i (s', dispatched + 1, out @ [line]))
      else Some (s, dispatched, out))"
  by pat_completeness auto
termination
  by (relation "measure (\<lambda>(md, mu, mh, r, i, s, d, out). length (s_jobs s) - i)")
    (auto dest: dispatch_at_length)

declare dispatch_loop.simps [simp del]

definition max_of :: "gw_sch_conf \<Rightarrow> gw_sch_job list \<Rightarrow> int" where
  "max_of c js = (if sc_max_dispatch c = 0 then int (length js) else sc_max_dispatch c)"

definition gw_sched_dispatch ::
    "bool \<Rightarrow> gw_scheduler \<times> int \<times> string list \<Rightarrow> (gw_scheduler \<times> int \<times> string list) option" where
  "gw_sched_dispatch reschedule st = (case st of (s, dispatched, out) \<Rightarrow>
     dispatch_loop (max_of (s_conf s) (s_jobs s)) (sc_max_user (s_conf s)) (sc_max_resource (s_conf s)) reschedule 0 st)"

definition gw_sched :: "gw_scheduler \<Rightarrow> (gw_scheduler \<times> string list) option" where
  "gw_sched s = do {
     st \<leftarrow> gw_sched_dispatch False (s, 0, []);
     (s', d, out) \<leftarrow> gw_sched_dispatch True st;
     Some (s', out)
   }"

section \<open>Induction over a pass\<close>

text \<open>
  A property \<open>I\<close> of the index, the state, the counter and the lines that holds at each
  turn of the loop: \<open>skip\<close> and \<open>hit\<close> are the two ways to the next turn, \<open>safe\<close> that the
  body does not leave an array.
\<close>

locale job_pass =
  fixes max_user max_host :: int and reschedule :: bool
    and I :: "nat \<Rightarrow> gw_scheduler \<Rightarrow> int \<Rightarrow> string list \<Rightarrow> bool"
  assumes safe: "I i s d out \<Longrightarrow> i < length (s_jobs s) \<Longrightarrow>
      dispatch_at max_user max_host reschedule s i \<noteq> None"
    and skip: "I i s d out \<Longrightarrow> i < length (s_jobs s) \<Longrightarrow>
      dispatch_at max_user max_host reschedule s i = Some None \<Longrightarrow> I (Suc i) s d out"
    and hit: "I i s d out \<Longrightarrow> i < length (s_jobs s) \<Longrightarrow>
      dispatch_at max_user max_host reschedule s i = Some (Some (s', line)) \<Longrightarrow> I i s' (d + 1) (out @ [line])"
begin

lemma loop:
  "I i s d out \<Longrightarrow> \<exists>i' s' d' out'. dispatch_loop max_dsp max_user max_host reschedule i (s, d, out)
      = Some (s', d', out') \<and> I i' s' d' out' \<and> (i' < length (s_jobs s') \<longrightarrow> max_dsp \<le> d')
      \<and> (d \<le> max_dsp \<longrightarrow> d' \<le> max_dsp) \<and> d \<le> d'"
proof (induction "length (s_jobs s) - i" arbitrary: i s d out rule: less_induct)
  case less
  show ?case
  proof (cases "i < length (s_jobs s) \<and> d < max_dsp")
    case False
    with less.prems show ?thesis
      by (subst dispatch_loop.simps) (intro exI [of _ i] exI [of _ s] exI [of _ d] exI [of _ out], auto)
  next
    case True
    then obtain r where r: "dispatch_at max_user max_host reschedule s i = Some r"
      using safe [OF less.prems] by auto
    show ?thesis
    proof (cases r)
      case None
      have "I (Suc i) s d out" using skip [OF less.prems] True r None by simp
      moreover have "length (s_jobs s) - Suc i < length (s_jobs s) - i" using True by linarith
      ultimately show ?thesis
        using less.hyps [of s "Suc i" d out] True r None by (subst dispatch_loop.simps) simp
    next
      case (Some p)
      obtain s' line where p: "p = (s', line)" by fastforce
      have I: "I i s' (d + 1) (out @ [line])" using hit [OF less.prems] True r Some p by simp
      have "length (s_jobs s') < length (s_jobs s)" using dispatch_at_length r Some p True by blast
      then have "length (s_jobs s') - i < length (s_jobs s) - i" using True by linarith
      from less.hyps [OF this I] True r Some p show ?thesis
        by (subst dispatch_loop.simps) fastforce
    qed
  qed
qed

end

section \<open>What a placement does\<close>

type_synonym placement = "gw_sch_job \<times> gw_sch_queue"

definition queues_of :: "gw_sch_job \<Rightarrow> gw_sch_queue list" where
  "queues_of j = (case j_mhosts j of None \<Rightarrow> [] | Some qs \<Rightarrow> qs)"

definition on_this_host :: "nat \<Rightarrow> placement list \<Rightarrow> nat" where
  "on_this_host a ps = length (filter (\<lambda>(j, q). q_ha_id q = int a) ps)"

definition of_user :: "nat \<Rightarrow> placement list \<Rightarrow> nat" where
  "of_user k ps = length (filter (\<lambda>(j, q). j_ua_id j = int k) ps)"

definition line_of :: "gw_scheduler \<Rightarrow> placement \<Rightarrow> string" where
  "line_of s p = (case p of (j, q) \<Rightarrow>
     success_line (j_jid j) (h_hid (s_hosts s ! nat (q_ha_id q))) (q_qname q) (q_rank q))"

text \<open>The state after the placements \<open>ps\<close>, from the state \<open>s0\<close>.\<close>

definition placed :: "gw_scheduler \<Rightarrow> placement list \<Rightarrow> gw_scheduler \<Rightarrow> bool" where
  "placed s0 ps s \<longleftrightarrow> s_conf s = s_conf s0
     \<and> mset (s_jobs s0) = mset (s_jobs s) + mset (map fst ps)
     \<and> length (s_hosts s) = length (s_hosts s0) \<and> length (s_users s) = length (s_users s0)
     \<and> (\<forall>a < length (s_hosts s0). s_hosts s ! a = (s_hosts s0 ! a)
          \<lparr>h_dispatched := h_dispatched (s_hosts s0 ! a) + int (on_this_host a ps)\<rparr>)
     \<and> (\<forall>k < length (s_users s0). u_running_jobs (s_users s ! k) = u_running_jobs (s_users s0 ! k)
          \<and> u_uid (s_users s ! k) = u_uid (s_users s0 ! k)
          \<and> u_dispatched (s_users s ! k) = u_dispatched (s_users s0 ! k) + int (of_user k ps))"

text \<open>
  The placement of \<open>q\<close> for \<open>j\<close> is allowed after \<open>ps\<close>: the host and the user are below
  their limits, and the host has a slot the placements before have not taken.
\<close>

definition allowed :: "int \<Rightarrow> int \<Rightarrow> gw_scheduler \<Rightarrow> placement list \<Rightarrow> placement \<Rightarrow> bool" where
  "allowed mu mh s0 ps p \<longleftrightarrow> (case p of (j, q) \<Rightarrow>
     let a = nat (q_ha_id q); k = nat (j_ua_id j) in
     j \<in> set (s_jobs s0) \<and> q \<in> set (queues_of j)
     \<and> (mh \<noteq> 0 \<longrightarrow> h_used_slots (s_hosts s0 ! a) + h_dispatched (s_hosts s0 ! a) + int (on_this_host a ps) < mh)
     \<and> (mu \<noteq> 0 \<longrightarrow> u_running_jobs (s_users s0 ! k) + u_dispatched (s_users s0 ! k) + int (of_user k ps) < mu)
     \<and> h_dispatched (s_hosts s0 ! a) + int (on_this_host a ps) < q_slots q)"

definition admissible :: "int \<Rightarrow> int \<Rightarrow> gw_scheduler \<Rightarrow> placement list \<Rightarrow> bool" where
  "admissible mu mh s0 ps \<longleftrightarrow> (\<forall>n < length ps. allowed mu mh s0 (take n ps) (ps ! n))"

text \<open>No candidate of the job can take it.\<close>

definition full_host :: "int \<Rightarrow> gw_scheduler \<Rightarrow> gw_sch_queue \<Rightarrow> bool" where
  "full_host mh s q \<longleftrightarrow> (let h = s_hosts s ! nat (q_ha_id q) in
     (mh \<noteq> 0 \<and> h_used_slots h + h_dispatched h \<ge> mh) \<or> q_slots q \<le> h_dispatched h)"

definition stuck :: "int \<Rightarrow> int \<Rightarrow> gw_scheduler \<Rightarrow> gw_sch_job \<Rightarrow> bool" where
  "stuck mu mh s j \<longleftrightarrow>
     (let u = s_users s ! nat (j_ua_id j) in mu \<noteq> 0 \<and> u_running_jobs u + u_dispatched u \<ge> mu)
     \<or> list_all (full_host mh s) (queues_of j)"

lemma on_this_host_simps [simp]:
  "on_this_host a [] = 0" "on_this_host a (ps @ ps') = on_this_host a ps + on_this_host a ps'"
  "on_this_host a [(j, q)] = (if q_ha_id q = int a then 1 else 0)"
  by (simp_all add: on_this_host_def)

lemma of_user_simps [simp]:
  "of_user a [] = 0" "of_user a (ps @ ps') = of_user a ps + of_user a ps'"
  "of_user a [(j, q)] = (if j_ua_id j = int a then 1 else 0)"
  by (simp_all add: of_user_def)

lemma placed_refl: "placed s [] s"
  by (simp add: placed_def)

lemma admissible_snoc: "admissible mu mh s0 ps \<Longrightarrow> allowed mu mh s0 ps p \<Longrightarrow> admissible mu mh s0 (ps @ [p])"
  by (auto simp: admissible_def nth_append less_Suc_eq)

lemma pick_host_spec:
  "list_all (queue_ok (length (s_hosts s))) qs \<Longrightarrow> \<exists>r. pick_host (s_hosts s) mh qs = Some r \<and>
     (case r of None \<Rightarrow> list_all (full_host mh s) qs
      | Some q \<Rightarrow> q \<in> set qs \<and> \<not> full_host mh s q)"
proof (induction qs)
  case (Cons q qs)
  then have "rd (s_hosts s) (q_ha_id q) = Some (s_hosts s ! nat (q_ha_id q))"
    by (simp add: queue_ok_def rd_def)
  then have step: "pick_host (s_hosts s) mh (q # qs)
      = (if full_host mh s q then pick_host (s_hosts s) mh qs else Some (Some q))"
    by (auto simp: full_host_def Let_def)
  from Cons obtain r where "pick_host (s_hosts s) mh qs = Some r"
      "case r of None \<Rightarrow> list_all (full_host mh s) qs | Some q \<Rightarrow> q \<in> set qs \<and> \<not> full_host mh s q"
    by auto
  then show ?case unfolding step by (cases "full_host mh s q") (auto split: option.splits)
qed simp

lemma place_job_spec:
  assumes ok: "sch_ok s" and i: "i < length (s_jobs s)" and d: "distinct (map j_jid (s_jobs s))"
    and q: "queue_ok (length (s_hosts s)) q"
  shows "\<exists>s'. place_job s (j_ua_id (s_jobs s ! i)) (s_jobs s ! i) q = Some (s', line_of s (s_jobs s ! i, q)) \<and> sch_ok s'
    \<and> placed s [(s_jobs s ! i, q)] s' \<and> s_jobs s' = take i (s_jobs s) @ drop (Suc i) (s_jobs s)"
proof -
  let ?job = "s_jobs s ! i"
  define a where "a = nat (q_ha_id q)"
  define k where "k = nat (j_ua_id ?job)"
  have a: "a < length (s_hosts s)" "q_ha_id q = int a" using q by (auto simp: queue_ok_def a_def)
  have k: "k < length (s_users s)" "j_ua_id ?job = int k"
    using sch_ok_job [OF ok i] by (auto simp: job_ok_def k_def)
  let ?h = "(s_hosts s ! a)\<lparr>h_dispatched := h_dispatched (s_hosts s ! a) + 1\<rparr>"
  let ?u = "(s_users s ! k)\<lparr>u_dispatched := u_dispatched (s_users s ! k) + 1\<rparr>"
  let ?s = "s\<lparr>s_hosts := (s_hosts s)[a := ?h], s_users := (s_users s)[k := ?u]\<rparr>"
  have ids: "map h_hid ((s_hosts s)[a := ?h]) = map h_hid (s_hosts s)"
      "map u_uid ((s_users s)[k := ?u]) = map u_uid (s_users s)"
      "map u_total_jobs ((s_users s)[k := ?u]) = map u_total_jobs (s_users s)"
    by (rule distinct_map_update, simp)+
  have usr: "user_ok (s_conf s) ((s_hosts s)[a := ?h]) u" if "user_ok (s_conf s) (s_hosts s) u" for u
    using that ids(1) by (simp add: user_ok_def)
  have "user_ok (s_conf s) (s_hosts s) ?u"
    using sch_ok_user [OF ok k(1)] by (simp add: user_ok_def windows_ok_def)
  with ok ids usr have ok1: "sch_ok ?s"
    by (auto simp: sch_ok_def totals_ok_def list_all_iff dest!: set_update_subset_insert [THEN subsetD])
  have fi: "find_index (\<lambda>j. j_jid j = j_jid ?job) (s_jobs s) = Some i"
    using find_index_distinct [OF i d] by simp
  obtain u' where u': "job_del_user 1 ?u = Some u'"
    using job_del_user_ok [OF sch_ok_user [OF ok1, of k]] ok k by (auto simp: sch_ok_def)
  then have uf: "u_running_jobs u' = u_running_jobs (s_users s ! k)" "u_uid u' = u_uid (s_users s ! k)"
      "u_dispatched u' = u_dispatched (s_users s ! k) + 1"
    by (auto simp: job_del_user_def Let_def bind_Some_iff)
  let ?s' = "s\<lparr>s_hosts := (s_hosts s)[a := ?h], s_users := (s_users s)[k := u'],
     s_jobs := take i (s_jobs s) @ drop (Suc i) (s_jobs s)\<rparr>"
  have del: "gw_scheduler_job_del ?s (j_jid ?job) 1 = Some ?s'"
    using fi k u' by (simp add: gw_scheduler_job_del_def)
  with job_del_ok [OF ok1, of "j_jid ?job" 1] have "sch_ok ?s'" by auto
  moreover have "place_job s (j_ua_id ?job) ?job q = Some (?s', line_of s (?job, q))"
    using a k del by (simp add: place_job_def line_of_def)
  moreover have "mset (s_jobs s) = mset (take i (s_jobs s) @ drop (Suc i) (s_jobs s)) + {#?job#}"
    by (subst id_take_nth_drop [OF i]) simp
  then have "placed s [(?job, q)] ?s'"
    using a k uf by (auto simp: placed_def nth_list_update)
  ultimately show ?thesis by auto
qed

lemma placed_trans: "placed s0 ps s \<Longrightarrow> placed s [p] s' \<Longrightarrow> placed s0 (ps @ [p]) s'"
  by (cases p) (simp add: placed_def)

lemma placed_stuck:
  assumes "placed s [p] s'" and j: "job_ok (length (s_users s)) (length (s_hosts s)) j" and "stuck mu mh s j"
  shows "stuck mu mh s' j"
proof -
  have h: "full_host mh s' q" if "full_host mh s q" "queue_ok (length (s_hosts s)) q" for q
    using that assms(1) by (auto simp: full_host_def Let_def placed_def queue_ok_def)
  have "list_all (queue_ok (length (s_hosts s))) (queues_of j)"
    using j by (auto simp: job_ok_def mhosts_ok_def queues_of_def split: option.splits)
  with h assms show ?thesis
    unfolding stuck_def by (auto simp: Let_def placed_def job_ok_def list_all_iff)
qed

section \<open>The passes\<close>

definition right_pass :: "bool \<Rightarrow> gw_sch_job \<Rightarrow> bool" where
  "right_pass reschedule j \<longleftrightarrow> (reschedule \<longleftrightarrow> j_reason j \<noteq> GW_REASON_NONE)"

text \<open>
  The invariant of a pass that began after the placements \<open>ps0\<close>: the jobs before the
  index that belong to the pass are stuck, and those in \<open>K\<close> too.
\<close>

definition pass_inv ::
    "int \<Rightarrow> int \<Rightarrow> bool \<Rightarrow> gw_scheduler \<Rightarrow> placement list \<Rightarrow> (gw_sch_job \<Rightarrow> bool) \<Rightarrow>
     nat \<Rightarrow> gw_scheduler \<Rightarrow> int \<Rightarrow> string list \<Rightarrow> bool" where
  "pass_inv mu mh reschedule s0 ps0 K i s d out \<longleftrightarrow> sch_ok s \<and> distinct (map j_jid (s_jobs s))
     \<and> (\<exists>ps. placed s0 (ps0 @ ps) s \<and> admissible mu mh s0 (ps0 @ ps)
          \<and> list_all (\<lambda>(j, q). right_pass reschedule j) ps
          \<and> d = int (length (ps0 @ ps)) \<and> out = map (line_of s0) (ps0 @ ps))
     \<and> (\<forall>k < length (s_jobs s). k < i \<and> right_pass reschedule (s_jobs s ! k) \<or> K (s_jobs s ! k)
          \<longrightarrow> stuck mu mh s (s_jobs s ! k))"

lemma dispatch_at_spec:
  assumes ok: "sch_ok s" and i: "i < length (s_jobs s)" and d: "distinct (map j_jid (s_jobs s))"
  shows "\<exists>r. dispatch_at mu mh re s i = Some r \<and>
     (case r of None \<Rightarrow> right_pass re (s_jobs s ! i) \<longrightarrow> stuck mu mh s (s_jobs s ! i)
      | Some (s', line) \<Rightarrow> \<exists>q. right_pass re (s_jobs s ! i) \<and> allowed mu mh s [] (s_jobs s ! i, q)
          \<and> line = line_of s (s_jobs s ! i, q) \<and> sch_ok s' \<and> placed s [(s_jobs s ! i, q)] s'
          \<and> s_jobs s' = take i (s_jobs s) @ drop (Suc i) (s_jobs s))"
proof -
  let ?job = "s_jobs s ! i"
  have u: "rd (s_users s) (j_ua_id ?job) = Some (s_users s ! nat (j_ua_id ?job))"
    and qok: "list_all (queue_ok (length (s_hosts s))) (queues_of ?job)"
    using sch_ok_job [OF ok i]
    by (auto simp: job_ok_def mhosts_ok_def rd_def queues_of_def split: option.splits)
  from pick_host_spec [OF qok, of mh] obtain r where r: "pick_host (s_hosts s) mh (queues_of ?job) = Some r"
      "case r of None \<Rightarrow> list_all (full_host mh s) (queues_of ?job)
       | Some q \<Rightarrow> q \<in> set (queues_of ?job) \<and> \<not> full_host mh s q"
    by blast
  let ?lim = "mu \<noteq> 0 \<and> u_running_jobs (s_users s ! nat (j_ua_id ?job))
     + u_dispatched (s_users s ! nat (j_ua_id ?job)) \<ge> mu"
  have right: "((\<not> re \<and> j_reason ?job \<noteq> GW_REASON_NONE) \<or> (re \<and> j_reason ?job = GW_REASON_NONE))
      \<longleftrightarrow> \<not> right_pass re ?job"
    by (auto simp: right_pass_def)
  have at: "dispatch_at mu mh re s i = (if ?lim \<or> \<not> right_pass re ?job then Some None
      else (case r of None \<Rightarrow> Some None | Some q \<Rightarrow> map_option Some (place_job s (j_ua_id ?job) ?job q)))"
    using u r(1) right by (auto simp: dispatch_at_def Let_def queues_of_def split: option.splits)
  show ?thesis
  proof (cases "?lim \<or> \<not> right_pass re ?job")
    case True
    then show ?thesis by (auto simp: at stuck_def Let_def)
  next
    case False
    show ?thesis
    proof (cases r)
      case None
      with False r(2) show ?thesis by (simp add: at stuck_def)
    next
      case (Some q)
      with r(2) have q: "q \<in> set (queues_of ?job)" "\<not> full_host mh s q" by auto
      with qok have "queue_ok (length (s_hosts s)) q" by (auto simp: list_all_iff)
      from place_job_spec [OF ok i d this] obtain s' where
        "place_job s (j_ua_id ?job) ?job q = Some (s', line_of s (?job, q))" "sch_ok s'" "placed s [(?job, q)] s'"
        "s_jobs s' = take i (s_jobs s) @ drop (Suc i) (s_jobs s)" by blast
      moreover have "allowed mu mh s [] (?job, q)"
        using False q i by (auto simp: allowed_def Let_def full_host_def)
      ultimately show ?thesis using False Some by (auto simp: at)
    qed
  qed
qed

lemma placed_allowed:
  assumes p: "placed s0 ps s" and a: "allowed mu mh s [] (j, q)"
    and j: "j_ua_id j < int (length (s_users s))" "0 \<le> j_ua_id j"
    and q: "queue_ok (length (s_hosts s)) q"
  shows "allowed mu mh s0 ps (j, q) \<and> line_of s (j, q) = line_of s0 (j, q)"
proof -
  have "set (s_jobs s) \<subseteq> set (s_jobs s0)"
    using p by (metis placed_def set_mset_mset set_mset_union sup_ge1)
  then show ?thesis
    using p a j q by (auto simp: allowed_def Let_def placed_def line_of_def queue_ok_def)
qed

lemma pass_inv_hit:
  assumes inv: "pass_inv mu mh re s0 ps0 K i s d out" and i: "i < length (s_jobs s)"
    and hit: "dispatch_at mu mh re s i = Some (Some (s', line))"
  shows "pass_inv mu mh re s0 ps0 K i s' (d + 1) (out @ [line])"
proof -
  let ?job = "s_jobs s ! i"
  from inv have ok: "sch_ok s" and di: "distinct (map j_jid (s_jobs s))" by (auto simp: pass_inv_def)
  from inv obtain ps where ps: "placed s0 (ps0 @ ps) s" "admissible mu mh s0 (ps0 @ ps)"
      "list_all (\<lambda>(j, q). right_pass re j) ps" "d = int (length (ps0 @ ps))" "out = map (line_of s0) (ps0 @ ps)"
    by (auto simp: pass_inv_def)
  from dispatch_at_spec [OF ok i di, of mu mh re] hit obtain q where q: "right_pass re ?job"
      "allowed mu mh s [] (?job, q)" "line = line_of s (?job, q)" "sch_ok s'" "placed s [(?job, q)] s'"
      "s_jobs s' = take i (s_jobs s) @ drop (Suc i) (s_jobs s)"
    by auto
  have jok: "job_ok (length (s_users s)) (length (s_hosts s)) ?job" using sch_ok_job [OF ok i] .
  then have "queue_ok (length (s_hosts s)) q"
    using q(2) by (auto simp: allowed_def job_ok_def mhosts_ok_def queues_of_def list_all_iff split: option.splits)
  with placed_allowed [OF ps(1) q(2)] jok
  have al: "allowed mu mh s0 (ps0 @ ps) (?job, q)" "line = line_of s0 (?job, q)"
    using q(3) by (auto simp: job_ok_def)
  have nth: "s_jobs s' ! k = s_jobs s ! (if k < i then k else Suc k)" if "k < length (s_jobs s')" for k
    using that q(6) i by (auto simp: nth_append min_def)
  have len: "Suc (length (s_jobs s')) = length (s_jobs s)" using q(6) i by simp
  have "stuck mu mh s' (s_jobs s' ! k)"
    if k: "k < length (s_jobs s')" "k < i \<and> right_pass re (s_jobs s' ! k) \<or> K (s_jobs s' ! k)" for k
  proof -
    let ?k = "if k < i then k else Suc k"
    have "?k < length (s_jobs s)" using k len by auto
    moreover from this have "stuck mu mh s (s_jobs s ! ?k)"
      using inv k nth [OF k(1)] by (auto simp: pass_inv_def split: if_splits)
    ultimately show ?thesis
      using placed_stuck [OF q(5) sch_ok_job [OF ok]] nth [OF k(1)] by simp
  qed
  moreover have "distinct (map j_jid (s_jobs s'))"
    using di unfolding q(6) by (subst (asm) id_take_nth_drop [OF i]) auto
  moreover have "placed s0 (ps0 @ (ps @ [(?job, q)])) s'"
    using placed_trans [OF ps(1) q(5)] by simp
  moreover have "admissible mu mh s0 (ps0 @ (ps @ [(?job, q)]))"
    using admissible_snoc [OF ps(2) al(1)] by simp
  ultimately show ?thesis
    using q(1,4) ps(3,4,5) al(2) unfolding pass_inv_def
    by (intro conjI exI [of _ "ps @ [(?job, q)]"]) auto
qed

interpretation pass: job_pass mu mh re "pass_inv mu mh re s0 ps0 K" for mu mh re s0 ps0 K
proof
  fix i s d out assume I: "pass_inv mu mh re s0 ps0 K i s d out" and i: "i < length (s_jobs s)"
  from I have ok: "sch_ok s" "distinct (map j_jid (s_jobs s))" by (auto simp: pass_inv_def)
  from dispatch_at_spec [OF ok(1) i ok(2), of mu mh re]
  show "dispatch_at mu mh re s i \<noteq> None" by auto
  show "dispatch_at mu mh re s i = Some None \<Longrightarrow> pass_inv mu mh re s0 ps0 K (Suc i) s d out"
    using dispatch_at_spec [OF ok(1) i ok(2), of mu mh re] I
    unfolding pass_inv_def by (auto simp: less_Suc_eq)
qed (rule pass_inv_hit)

section \<open>Properties\<close>

lemma gw_sched_spec:
  assumes ok: "sch_ok s0" and d: "distinct (map j_jid (s_jobs s0))" and md: "0 \<le> sc_max_dispatch (s_conf s0)"
  shows "\<exists>s2 ps1 ps2. gw_sched s0 = Some (s2, map (line_of s0) (ps1 @ ps2)) \<and> sch_ok s2
    \<and> placed s0 (ps1 @ ps2) s2
    \<and> admissible (sc_max_user (s_conf s0)) (sc_max_resource (s_conf s0)) s0 (ps1 @ ps2)
    \<and> list_all (\<lambda>(j, q). right_pass False j) ps1 \<and> list_all (\<lambda>(j, q). right_pass True j) ps2
    \<and> (sc_max_dispatch (s_conf s0) \<noteq> 0 \<longrightarrow> int (length (ps1 @ ps2)) \<le> sc_max_dispatch (s_conf s0))
    \<and> (sc_max_dispatch (s_conf s0) \<noteq> 0 \<longrightarrow> int (length (ps1 @ ps2)) < sc_max_dispatch (s_conf s0) \<longrightarrow>
        list_all (stuck (sc_max_user (s_conf s0)) (sc_max_resource (s_conf s0)) s2) (s_jobs s2))
    \<and> (sc_max_dispatch (s_conf s0) = 0 \<longrightarrow> list_all (\<lambda>j. right_pass False j \<or> length ps1 < length (s_jobs s2) \<longrightarrow>
        stuck (sc_max_user (s_conf s0)) (sc_max_resource (s_conf s0)) s2 j) (s_jobs s2))"
proof -
  let ?mu = "sc_max_user (s_conf s0)" and ?mh = "sc_max_resource (s_conf s0)"
  let ?md = "sc_max_dispatch (s_conf s0)"
  have "pass_inv ?mu ?mh False s0 [] (\<lambda>j. False) 0 s0 0 []"
    using ok d placed_refl by (auto simp: pass_inv_def admissible_def)
  moreover have nn: "0 \<le> max_of (s_conf s0) (s_jobs s0)" using md by (simp add: max_of_def)
  ultimately obtain i1 s1 d1 out1 where
    p1: "dispatch_loop (max_of (s_conf s0) (s_jobs s0)) ?mu ?mh False 0 (s0, 0, []) = Some (s1, d1, out1)"
      "pass_inv ?mu ?mh False s0 [] (\<lambda>j. False) i1 s1 d1 out1"
      "i1 < length (s_jobs s1) \<longrightarrow> max_of (s_conf s0) (s_jobs s0) \<le> d1"
      "d1 \<le> max_of (s_conf s0) (s_jobs s0)"
    using pass.loop [of ?mu ?mh False s0 "[]" "\<lambda>j. False" 0 s0 0 "[]" "max_of (s_conf s0) (s_jobs s0)"]
    by blast
  then obtain ps1 where ps1: "placed s0 ps1 s1" "list_all (\<lambda>(j, q). right_pass False j) ps1"
      "d1 = int (length ps1)" "out1 = map (line_of s0) ps1" "admissible ?mu ?mh s0 ps1"
    by (auto simp: pass_inv_def)
  have ok1: "sch_ok s1" and di1: "distinct (map j_jid (s_jobs s1))" and c1: "s_conf s1 = s_conf s0"
    using p1(2) ps1(1) by (auto simp: pass_inv_def placed_def)
  define K where "K = (\<lambda>j. right_pass False j \<and> (?md = 0 \<or> d1 < ?md))"
  have count: "length (s_jobs s0) = length (s_jobs s1) + length ps1"
    using ps1(1) by (metis length_map placed_def size_mset size_union)
  have st1: "stuck ?mu ?mh s1 (s_jobs s1 ! k)" if "k < length (s_jobs s1)" "K (s_jobs s1 ! k)" for k
  proof -
    from that p1(3) ps1(3) count have "length (s_jobs s1) \<le> i1" by (auto simp: K_def max_of_def)
    with that p1(2) show ?thesis by (auto simp: pass_inv_def K_def)
  qed
  have "pass_inv ?mu ?mh True s0 ps1 K 0 s1 d1 out1"
    using ok1 di1 ps1 st1 unfolding pass_inv_def by (intro conjI exI [of _ "[]"]) auto
  from pass.loop [OF this, of "max_of (s_conf s1) (s_jobs s1)"] obtain i2 s2 d2 out2 where
    p2: "dispatch_loop (max_of (s_conf s1) (s_jobs s1)) ?mu ?mh True 0 (s1, d1, out1) = Some (s2, d2, out2)"
      "pass_inv ?mu ?mh True s0 ps1 K i2 s2 d2 out2"
      "i2 < length (s_jobs s2) \<longrightarrow> max_of (s_conf s1) (s_jobs s1) \<le> d2"
      "d1 \<le> max_of (s_conf s1) (s_jobs s1) \<longrightarrow> d2 \<le> max_of (s_conf s1) (s_jobs s1)" "d1 \<le> d2"
    by blast
  then obtain ps2 where ps2: "placed s0 (ps1 @ ps2) s2" "list_all (\<lambda>(j, q). right_pass True j) ps2"
      "d2 = int (length (ps1 @ ps2))" "out2 = map (line_of s0) (ps1 @ ps2)" "admissible ?mu ?mh s0 (ps1 @ ps2)"
    by (auto simp: pass_inv_def)
  have run: "gw_sched s0 = Some (s2, out2)"
    using p1(1) p2(1) c1 by (simp add: gw_sched_def gw_sched_dispatch_def)
  have bound: "d2 \<le> ?md" if "?md \<noteq> 0"
    using that p1(4) p2(4) c1 by (simp add: max_of_def)
  moreover have "list_all (stuck ?mu ?mh s2) (s_jobs s2)" if "?md \<noteq> 0" "d2 < ?md"
    unfolding list_all_length
  proof (intro allI impI)
    fix k assume k: "k < length (s_jobs s2)"
    have "i2 \<ge> length (s_jobs s2)" using p2(3) that c1 by (auto simp: max_of_def)
    with k have "k < i2" by simp
    have "right_pass True (s_jobs s2 ! k) \<or> K (s_jobs s2 ! k)"
      using that p2(5) by (auto simp: K_def right_pass_def)
    with k \<open>k < i2\<close> p2(2) show "stuck ?mu ?mh s2 (s_jobs s2 ! k)"
      unfolding pass_inv_def by blast
  qed
  moreover have "list_all (\<lambda>j. right_pass False j \<or> length ps1 < length (s_jobs s2) \<longrightarrow> stuck ?mu ?mh s2 j) (s_jobs s2)"
    if "?md = 0"
    unfolding list_all_length
  proof (intro allI impI)
    fix k assume k: "k < length (s_jobs s2)" "right_pass False (s_jobs s2 ! k) \<or> length ps1 < length (s_jobs s2)"
    show "stuck ?mu ?mh s2 (s_jobs s2 ! k)"
    proof (cases "right_pass False (s_jobs s2 ! k)")
      case True
      with that k(1) p2(2) show ?thesis unfolding pass_inv_def K_def by blast
    next
      case False
      have "length (s_jobs s0) = length (s_jobs s2) + length (ps1 @ ps2)"
        using ps2(1) by (metis length_map placed_def size_mset size_union)
      with False k(2) count ps2(3) that c1 have "d2 < max_of (s_conf s1) (s_jobs s1)" by (simp add: max_of_def)
      with p2(3) k(1) have "k < i2" by linarith
      moreover have "right_pass True (s_jobs s2 ! k)" using False by (simp add: right_pass_def)
      ultimately show ?thesis using k(1) p2(2) unfolding pass_inv_def by blast
    qed
  qed
  ultimately show ?thesis using run ps1 ps2 bound p2(2) by (auto simp: pass_inv_def)
qed

text \<open>C8 (bounds).
  A scheduling action keeps every limit of \<open>sched.conf\<close>.  Its lines to the daemon are
  those of a sequence of placements, each of a job of the list to one of its candidates;
  at each of them the host has fewer jobs than \<open>MAX_RUNNING_RESOURCE\<close> and a slot none
  of the placements before it has taken, and the user fewer than \<open>MAX_RUNNING_USER\<close>;
  there are at most \<open>DISPATCH_CHUNK\<close> of them; new jobs come before those to be placed
  again; and every job is placed at most once.\<close>

theorem gw_sched_within_limits:
  assumes "sch_ok s0" and "distinct (map j_jid (s_jobs s0))" and "0 \<le> sc_max_dispatch (s_conf s0)"
  shows "\<exists>s ps1 ps2. gw_sched s0 = Some (s, map (line_of s0) (ps1 @ ps2)) \<and> sch_ok s
    \<and> mset (s_jobs s0) = mset (s_jobs s) + mset (map fst (ps1 @ ps2))
    \<and> admissible (sc_max_user (s_conf s0)) (sc_max_resource (s_conf s0)) s0 (ps1 @ ps2)
    \<and> (sc_max_dispatch (s_conf s0) \<noteq> 0 \<longrightarrow> int (length (ps1 @ ps2)) \<le> sc_max_dispatch (s_conf s0))
    \<and> list_all (\<lambda>(j, q). j_reason j = GW_REASON_NONE) ps1
    \<and> list_all (\<lambda>(j, q). j_reason j \<noteq> GW_REASON_NONE) ps2"
  using gw_sched_spec [OF assms] by (auto simp: placed_def right_pass_def)

text \<open>C9 (liveness).
  Which jobs a scheduling action leaves waiting.  With a \<open>DISPATCH_CHUNK\<close> it leaves none that it could have
  placed, unless it placed that many: every job still in the list has a user at its limit, or only
  candidates whose host is at its limit or has no free slot left.  Without one (0, as many
  jobs as possible) the same holds of the new jobs, but of those to be placed again only if the new jobs
  that were placed are fewer than the jobs left: the second pass counts on from the first, against
  the length the list has then, and \<open>no_chunk_stops\<close> is what happens otherwise.\<close>

theorem gw_sched_leaves_no_room:
  assumes "sch_ok s0" and "distinct (map j_jid (s_jobs s0))" and "0 \<le> sc_max_dispatch (s_conf s0)"
  shows "\<exists>s ps1 ps2. gw_sched s0 = Some (s, map (line_of s0) (ps1 @ ps2))
    \<and> list_all (\<lambda>(j, q). j_reason j = GW_REASON_NONE) ps1 \<and> list_all (\<lambda>(j, q). j_reason j \<noteq> GW_REASON_NONE) ps2
    \<and> (sc_max_dispatch (s_conf s0) \<noteq> 0 \<longrightarrow> int (length (ps1 @ ps2)) < sc_max_dispatch (s_conf s0) \<longrightarrow>
         list_all (stuck (sc_max_user (s_conf s0)) (sc_max_resource (s_conf s0)) s) (s_jobs s))
    \<and> (sc_max_dispatch (s_conf s0) = 0 \<longrightarrow>
         list_all (\<lambda>j. j_reason j = GW_REASON_NONE \<or> length ps1 < length (s_jobs s) \<longrightarrow>
           stuck (sc_max_user (s_conf s0)) (sc_max_resource (s_conf s0)) s j) (s_jobs s))"
  using gw_sched_spec [OF assms] by (auto simp: right_pass_def)

text \<open>Without a chunk no job is placed again once as many new jobs have been placed as are left.\<close>

lemma no_chunk_stops:
  assumes "sc_max_dispatch (s_conf s0) = 0" and "gw_sched_dispatch False (s0, 0, []) = Some (s, d, out)"
    and "s_conf s = s_conf s0" and "int (length (s_jobs s)) \<le> d"
  shows "gw_sched s0 = Some (s, out)"
  using assms by (simp add: gw_sched_def gw_sched_dispatch_def max_of_def dispatch_loop.simps [of _ _ _ True])

text \<open>With a window depth of zero a user has no windows, and the first job that can be placed
  makes the scheduler write through \<open>NULL\<close>.\<close>

theorem place_job_without_windows:
  assumes "u_sub_windows (s_users s ! nat (j_ua_id job)) = None"
    and "job \<in> set (s_jobs s)" and "distinct (map j_jid (s_jobs s))"
  shows "place_job s (j_ua_id job) job q = None"
proof -
  obtain i where i: "i < length (s_jobs s)" "s_jobs s ! i = job"
    using assms(2) by (auto simp: in_set_conv_nth)
  then have "find_index (\<lambda>j. j_jid j = j_jid job) (s_jobs s) = Some i"
    using find_index_distinct [OF i(1) assms(3)] by simp
  then have del: "gw_scheduler_job_del (s\<lparr>s_hosts := hs, s_users := us\<rparr>) (j_jid job) 1 = None"
    if "wr (s_users s) (j_ua_id job) u = Some us" "u_sub_windows u = None" for hs us u
    using that i(2) by (simp add: gw_scheduler_job_del_def rd_wr [OF that(1)] job_del_user_def Let_def)
  show ?thesis
  proof (cases "place_job s (j_ua_id job) job q")
    case (Some r)
    then obtain u hs us s' where "rd (s_users s) (j_ua_id job) = Some u"
        "wr (s_users s) (j_ua_id job) (u\<lparr>u_dispatched := u_dispatched u + 1\<rparr>) = Some us"
        "gw_scheduler_job_del (s\<lparr>s_hosts := hs, s_users := us\<rparr>) (j_jid job) 1 = Some s'"
      by (auto simp: place_job_def bind_Some_iff)
    with del assms(1) show ?thesis by (auto simp: rd_Some)
  qed
qed

definition sample_ready :: gw_scheduler where
  "sample_ready = sample_jobs\<lparr>s_jobs := [(sample_job 1 0 GW_REASON_NONE)\<lparr>j_mhosts := Some [sample_queue 1 2]\<rparr>,
     sample_job 2 20 GW_REASON_NONE]\<rparr>"

lemma sample_ready_ok: "sch_ok sample_ready" "distinct (map j_jid (s_jobs sample_ready))"
  "sc_max_dispatch (s_conf sample_ready) = 15"
  by (simp_all add: sample_ready_def sample_jobs_def sample_sch_def sch_ok_def gw_sch_conf_init_def totals_ok_def
       user_ok_def windows_ok_def new_user_host_def set_averages_def job_ok_def mhosts_ok_def
       sample_job_def sample_queue_def queue_ok_def)

definition sample_no_chunk :: gw_scheduler where
  "sample_no_chunk = sample_ready\<lparr>s_conf := (s_conf sample_ready)\<lparr>sc_max_dispatch := 0\<rparr>\<rparr>"

lemma user_ok_no_chunk: "user_ok (c\<lparr>sc_max_dispatch := n\<rparr>) = user_ok c"
  by (intro ext) (simp add: user_ok_def windows_ok_def cong: option.case_cong)

lemma sample_no_chunk_ok: "sch_ok sample_no_chunk" "distinct (map j_jid (s_jobs sample_no_chunk))"
  "sc_max_dispatch (s_conf sample_no_chunk) = 0"
  using sample_ready_ok by (simp_all add: sample_no_chunk_def sch_ok_def totals_ok_def user_ok_no_chunk)

lemma gw_sched_within_limits_witness:
  "\<exists>s out. gw_sched sample_ready = Some (s, out) \<and> length out \<le> 15"
  using gw_sched_within_limits [OF sample_ready_ok(1,2)] by (auto simp: sample_ready_ok(3))

lemma gw_sched_leaves_no_room_witness:
  "(\<exists>s out. gw_sched sample_ready = Some (s, out)
     \<and> list_all (stuck (sc_max_user (s_conf sample_ready)) (sc_max_resource (s_conf sample_ready)) s) (s_jobs s))
   \<and> (\<exists>s out. gw_sched sample_no_chunk = Some (s, out)
     \<and> list_all (\<lambda>j. j_reason j = GW_REASON_NONE \<longrightarrow>
          stuck (sc_max_user (s_conf sample_no_chunk)) (sc_max_resource (s_conf sample_no_chunk)) s j) (s_jobs s))"
proof -
  from gw_sched_spec [OF sample_ready_ok(1,2)] obtain s ps where
    run: "gw_sched sample_ready = Some (s, map (line_of sample_ready) ps)" and pl: "placed sample_ready ps s"
    using sample_ready_ok(3) by fastforce
  have "size (mset (s_jobs sample_ready)) = size (mset (s_jobs s) + mset (map fst ps))"
    using pl by (simp add: placed_def)
  then have "length ps \<le> 2" by (simp add: sample_ready_def)
  moreover obtain s' ps1 ps2 where "gw_sched sample_ready = Some (s', map (line_of sample_ready) (ps1 @ ps2))"
    "int (length (ps1 @ ps2)) < sc_max_dispatch (s_conf sample_ready) \<longrightarrow>
         list_all (stuck (sc_max_user (s_conf sample_ready)) (sc_max_resource (s_conf sample_ready)) s') (s_jobs s')"
    using gw_sched_leaves_no_room [OF sample_ready_ok(1,2)] sample_ready_ok(3) by auto
  moreover from this(1) run have "length (ps1 @ ps2) = length ps"
    by (simp only: option.inject prod.inject) (metis length_map)
  ultimately have "\<exists>s out. gw_sched sample_ready = Some (s, out)
     \<and> list_all (stuck (sc_max_user (s_conf sample_ready)) (sc_max_resource (s_conf sample_ready)) s) (s_jobs s)"
    using sample_ready_ok(3) by auto
  moreover have "\<exists>s out. gw_sched sample_no_chunk = Some (s, out)
     \<and> list_all (\<lambda>j. j_reason j = GW_REASON_NONE \<longrightarrow>
          stuck (sc_max_user (s_conf sample_no_chunk)) (sc_max_resource (s_conf sample_no_chunk)) s j) (s_jobs s)"
    using gw_sched_leaves_no_room [OF sample_no_chunk_ok(1,2)] sample_no_chunk_ok(3)
    by (fastforce simp: list_all_iff)
  ultimately show ?thesis by blast
qed

lemma place_job_without_windows_witness:
  "place_job (sample_ready\<lparr>s_users := [(s_users sample_ready ! 0)\<lparr>u_sub_windows := None\<rparr>]\<rparr>)
     (j_ua_id (sample_job 2 20 GW_REASON_NONE)) (sample_job 2 20 GW_REASON_NONE) (sample_queue 1 2) = None"
  by (rule place_job_without_windows) (simp_all add: sample_ready_def sample_job_def)

end
