(* ===== verification/Sch_Flood.thy ===== *)
theory Sch_Flood
  imports Sch_Dispatch
begin

text \<open>
  The flood scheduler, \<open>src/scheduler/gw_flood_scheduler.c\<close>: rounds over the users, each
  user getting a chunk of jobs per round, until a round places none; then the same for
  the jobs to be placed again.  The outer loops are written with
  \<open>partial_function (option)\<close>, so that a run without end is \<open>None\<close>; they are shown to end.
\<close>

section \<open>The code\<close>

record sched_param =
  p_host_max :: int
  p_user_chunk :: int
  p_user_max :: int
  p_sched_max :: int
  p_dispached :: int

definition default_param :: sched_param where
  "default_param = \<lparr>p_host_max = 10, p_user_chunk = 5, p_user_max = 30, p_sched_max = 15, p_dispached = 0\<rparr>"

text \<open>
  \<open>user_get_dispatched\<close>: the loop has no bound, so an unknown user sends it out of the
  array; without users the pointer it returns is \<open>NULL\<close>, and its caller reads through it.
\<close>

definition user_get_dispatched :: "gw_scheduler \<Rightarrow> int \<Rightarrow> nat option" where
  "user_get_dispatched s uid = find_index (\<lambda>u. u_uid u = uid) (s_users s)"

fun flood_host :: "sched_param \<Rightarrow> gw_sch_host list \<Rightarrow> int \<Rightarrow> gw_sch_queue list \<Rightarrow> gw_sch_queue option option" where
  "flood_host p hs np [] = Some None"
| "flood_host p hs np (q # qs) = do {
     h \<leftarrow> rd hs (q_ha_id q);
     if p_host_max p \<noteq> 0 \<and> h_used_slots h + h_dispatched h \<ge> p_host_max p then flood_host p hs np qs
     else if q_slots q - h_dispatched h \<ge> np then Some (Some q)
     else flood_host p hs np qs
   }"

definition flood_at ::
    "sched_param \<Rightarrow> bool \<Rightarrow> int \<Rightarrow> nat \<Rightarrow> gw_scheduler \<Rightarrow> nat \<Rightarrow> (gw_scheduler \<times> string) option option" where
  "flood_at p reschedule uid k s i = do {
     let job = s_jobs s ! i;
     if (\<not> reschedule \<and> j_reason job \<noteq> GW_REASON_NONE) \<or> (reschedule \<and> j_reason job = GW_REASON_NONE)
        \<or> j_mhosts job = None then Some None
     else do {
       user \<leftarrow> rd (s_users s) (j_ua_id job);
       if u_uid user \<noteq> uid then Some None
       else do {
         r \<leftarrow> flood_host p (s_hosts s) (j_np job) (queues_of job);
         (case r of None \<Rightarrow> Some None | Some q \<Rightarrow> map_option Some (place_job s (int k) job q))
       }
     }
   }"

lemma flood_at_length:
  assumes "flood_at p re uid k s i = Some (Some (s', l))" and "i < length (s_jobs s)"
  shows "Suc (length (s_jobs s')) = length (s_jobs s)"
proof -
  from assms(1) obtain q where "place_job s (int k) (s_jobs s ! i) q = Some (s', l)"
    by (auto simp: flood_at_def bind_Some_iff Let_def split: option.splits if_splits)
  then show ?thesis using assms(2) by (rule place_job_length)
qed

function flood_loop ::
    "sched_param \<Rightarrow> bool \<Rightarrow> int \<Rightarrow> nat \<Rightarrow> int \<Rightarrow> nat \<Rightarrow> gw_scheduler \<times> int \<times> string list \<Rightarrow>
     (gw_scheduler \<times> int \<times> string list) option" where
  "flood_loop p reschedule uid k rchunk i (s, dsp, out) =
     (if i < length (s_jobs s) \<and> dsp < rchunk then
        (case flood_at p reschedule uid k s i of
           None \<Rightarrow> None
         | Some None \<Rightarrow> flood_loop p reschedule uid k rchunk (Suc i) (s, dsp, out)
         | Some (Some (s', line)) \<Rightarrow> flood_loop p reschedule uid k rchunk i (s', dsp + 1, out @ [line]))
      else Some (s, dsp, out))"
  by pat_completeness auto
termination
  by (relation "measure (\<lambda>(p, r, uid, k, rc, i, s, d, out). length (s_jobs s) - i)")
    (auto dest: flood_at_length)

declare flood_loop.simps [simp del]

text \<open>One user: how many jobs it may get now, and the loop.\<close>

definition round_chunk :: "sched_param \<Rightarrow> int \<Rightarrow> int \<Rightarrow> int" where
  "round_chunk p max_round remaining =
     (let rchunk = (if max_round < p_user_chunk p then max_round else p_user_chunk p) in
      if remaining < rchunk then remaining else rchunk)"

definition schedule_user ::
    "bool \<Rightarrow> int \<Rightarrow> gw_scheduler \<times> sched_param \<times> string list \<Rightarrow>
     (gw_scheduler \<times> sched_param \<times> string list \<times> int) option" where
  "schedule_user reschedule uid st = (case st of (s, p, out) \<Rightarrow> do {
     k \<leftarrow> user_get_dispatched s uid;
     let u = s_users s ! k;
     let remaining = (if p_sched_max p = 0 then int (length (s_jobs s)) else p_sched_max p - p_dispached p);
     let max_round = (if p_user_max p = 0 then int (length (s_jobs s))
                      else p_user_max p - (u_running_jobs u + u_dispatched u));
     if max_round \<le> 0 \<or> remaining \<le> 0 then Some (s, p, out, 0)
     else do {
       (s', dsp, out') \<leftarrow> flood_loop p reschedule uid k (round_chunk p max_round remaining) 0 (s, 0, out);
       Some (s', p\<lparr>p_dispached := p_dispached p + dsp\<rparr>, out', dsp)
     }
   })"

text \<open>One round: every user in turn; \<open>busy\<close> when some user got a job.\<close>

fun flood_round ::
    "bool \<Rightarrow> nat list \<Rightarrow> gw_scheduler \<times> sched_param \<times> string list \<Rightarrow> bool \<Rightarrow>
     ((gw_scheduler \<times> sched_param \<times> string list) \<times> bool) option" where
  "flood_round reschedule [] st busy = Some (st, busy)"
| "flood_round reschedule (i # is) st busy = do {
     u \<leftarrow> rd (s_users (fst st)) (int i);
     (s', p', out', scheds) \<leftarrow> schedule_user reschedule (u_uid u) st;
     flood_round reschedule is (s', p', out') (busy \<or> scheds > 0)
   }"

partial_function (option) flood_rounds ::
    "bool \<Rightarrow> gw_scheduler \<times> sched_param \<times> string list \<Rightarrow> (gw_scheduler \<times> sched_param \<times> string list) option" where
  "flood_rounds reschedule st = do {
     (st', busy) \<leftarrow> flood_round reschedule [0..<length (s_users (fst st))] st False;
     if busy then flood_rounds reschedule st' else Some st'
   }"

definition flood_scheduler :: "gw_scheduler \<Rightarrow> sched_param \<Rightarrow> (gw_scheduler \<times> sched_param \<times> string list) option" where
  "flood_scheduler s p =
     Option.bind (flood_rounds False (s, p\<lparr>p_dispached := 0\<rparr>, [])) (flood_rounds True)"

section \<open>It ends\<close>

definition flood_ok :: "gw_scheduler \<Rightarrow> bool" where
  "flood_ok s \<longleftrightarrow> sch_ok s \<and> distinct (map j_jid (s_jobs s))"

lemma flood_host_spec:
  "list_all (queue_ok (length hs)) qs \<Longrightarrow>
   \<exists>r. flood_host p hs np qs = Some r \<and> (\<forall>q. r = Some q \<longrightarrow> q \<in> set qs)"
proof (induction qs)
  case (Cons q qs)
  then have "rd hs (q_ha_id q) = Some (hs ! nat (q_ha_id q))" by (simp add: queue_ok_def rd_def)
  with Cons show ?case by auto
qed simp

lemma flood_at_spec:
  assumes f: "flood_ok s" and i: "i < length (s_jobs s)" and k: "find_index (\<lambda>u. u_uid u = uid) (s_users s) = Some k"
  shows "\<exists>r. flood_at p re uid k s i = Some r \<and>
     (\<forall>s' l. r = Some (s', l) \<longrightarrow> flood_ok s' \<and> map u_uid (s_users s') = map u_uid (s_users s))"
proof -
  let ?job = "s_jobs s ! i"
  from f have ok: "sch_ok s" and d: "distinct (map j_jid (s_jobs s))" by (auto simp: flood_ok_def)
  have ua: "0 \<le> j_ua_id ?job" "j_ua_id ?job < int (length (s_users s))"
    and qok: "list_all (queue_ok (length (s_hosts s))) (queues_of ?job)"
    using sch_ok_job [OF ok i]
    by (auto simp: job_ok_def mhosts_ok_def queues_of_def split: option.splits)
  obtain r where r: "flood_host p (s_hosts s) (j_np ?job) (queues_of ?job) = Some r"
      "\<forall>q. r = Some q \<longrightarrow> q \<in> set (queues_of ?job)"
    using flood_host_spec [OF qok] by blast
  have same: "j_ua_id ?job = int k" if "u_uid (s_users s ! nat (j_ua_id ?job)) = uid"
    using find_index_distinct [of "nat (j_ua_id ?job)" "s_users s" u_uid] ok ua that k
    by (auto simp: sch_ok_def)
  have hit: "\<exists>s' l. place_job s (int k) ?job q = Some (s', l) \<and> flood_ok s'
      \<and> map u_uid (s_users s') = map u_uid (s_users s)"
    if w: "u_uid (s_users s ! nat (j_ua_id ?job)) = uid" "r = Some q" for q
  proof -
    from r(2) w(2) qok have "queue_ok (length (s_hosts s)) q" by (auto simp: list_all_iff)
    from place_job_spec [OF ok i d this] obtain s' where
      s': "place_job s (int k) ?job q = Some (s', line_of s (?job, q))" "sch_ok s'" "placed s [(?job, q)] s'"
        "s_jobs s' = take i (s_jobs s) @ drop (Suc i) (s_jobs s)"
      unfolding same [OF w(1)] by blast
    have "distinct (map j_jid (s_jobs s'))"
      using d unfolding s'(4) by (subst (asm) id_take_nth_drop [OF i]) auto
    moreover have "map u_uid (s_users s') = map u_uid (s_users s)"
      using s'(3) by (intro nth_equalityI) (auto simp: placed_def)
    ultimately show ?thesis using s'(1,2) by (auto simp: flood_ok_def)
  qed
  have u: "rd (s_users s) (j_ua_id ?job) = Some (s_users s ! nat (j_ua_id ?job))"
    using ua by (simp add: rd_def)
  show ?thesis
  proof (cases "((\<not> re \<and> j_reason ?job \<noteq> GW_REASON_NONE) \<or> (re \<and> j_reason ?job = GW_REASON_NONE)
      \<or> j_mhosts ?job = None) \<or> u_uid (s_users s ! nat (j_ua_id ?job)) \<noteq> uid")
    case True
    then show ?thesis using u by (auto simp: flood_at_def Let_def)
  next
    case False
    then have "flood_at p re uid k s i = (case r of None \<Rightarrow> Some None
        | Some q \<Rightarrow> map_option Some (place_job s (int k) ?job q))"
      using u r(1) by (auto simp: flood_at_def Let_def)
    with hit False show ?thesis by (cases r) auto
  qed
qed

lemma flood_loop_stop:
  "\<not> (i < length (s_jobs s) \<and> d < rc) \<Longrightarrow> flood_loop p re uid k rc i (s, d, out) = Some (s, d, out)"
  by (subst flood_loop.simps) (rule if_not_P)

lemma flood_loop_skip:
  "\<lbrakk>i < length (s_jobs s) \<and> d < rc; flood_at p re uid k s i = Some None\<rbrakk> \<Longrightarrow>
   flood_loop p re uid k rc i (s, d, out) = flood_loop p re uid k rc (Suc i) (s, d, out)"
  by (subst flood_loop.simps) simp

lemma flood_loop_put:
  "\<lbrakk>i < length (s_jobs s) \<and> d < rc; flood_at p re uid k s i = Some (Some (s', l))\<rbrakk> \<Longrightarrow>
   flood_loop p re uid k rc i (s, d, out) = flood_loop p re uid k rc i (s', d + 1, out @ [l])"
  by (subst flood_loop.simps) simp

lemma flood_loop_spec:
  assumes "flood_ok s" and "find_index (\<lambda>u. u_uid u = uid) (s_users s) = Some k" and "0 \<le> d"
  shows "\<exists>s' d' out'. flood_loop p re uid k rc i (s, d, out) = Some (s', d', out') \<and> flood_ok s'
    \<and> map u_uid (s_users s') = map u_uid (s_users s)
    \<and> int (length (s_jobs s')) + d' = int (length (s_jobs s)) + d \<and> d \<le> d' \<and> (d \<le> rc \<longrightarrow> d' \<le> rc)
    \<and> int (length out') - d' = int (length out) - d"
  using assms
proof (induction "length (s_jobs s) - i" arbitrary: i s d out rule: less_induct)
  case less
  show ?case
  proof (cases "i < length (s_jobs s) \<and> d < rc")
    case False
    then have "flood_loop p re uid k rc i (s, d, out) = Some (s, d, out)"
      by (rule flood_loop_stop)
    then show ?thesis
      using less.prems by (intro exI [of _ s] exI [of _ d] exI [of _ out]) simp
  next
    case True
    obtain r where r: "flood_at p re uid k s i = Some r" "\<forall>s' l. r = Some (s', l) \<longrightarrow> flood_ok s'
        \<and> map u_uid (s_users s') = map u_uid (s_users s)"
      using flood_at_spec [OF less.prems(1) _ less.prems(2)] True by blast
    show ?thesis
    proof (cases r)
      case None
      have "length (s_jobs s) - Suc i < length (s_jobs s) - i" using True by linarith
      from less.hyps [OF this less.prems] show ?thesis
        unfolding flood_loop_skip [OF True r(1) [unfolded None]] .
    next
      case (Some pr)
      then obtain s' l where p: "r = Some (s', l)" by fastforce
      have len: "Suc (length (s_jobs s')) = length (s_jobs s)" using flood_at_length [of p re uid k s i s' l] r(1) p True by simp
      have ids: "map u_uid (s_users s') = map u_uid (s_users s)" "flood_ok s'" using r(2) p by auto
      have fi: "find_index (\<lambda>u. u_uid u = uid) (s_users s') = Some k"
        using less.prems(2) ids(1) find_index_map [of "\<lambda>x. x = uid" u_uid] by metis
      have "length (s_jobs s') - i < length (s_jobs s) - i" using len True by linarith
      moreover have "0 \<le> d + 1" using less.prems(3) by simp
      ultimately obtain s2 d2 out2 where
        "flood_loop p re uid k rc i (s', d + 1, out @ [l]) = Some (s2, d2, out2)" "flood_ok s2"
        "map u_uid (s_users s2) = map u_uid (s_users s')"
        "int (length (s_jobs s2)) + d2 = int (length (s_jobs s')) + (d + 1)" "d + 1 \<le> d2" "d + 1 \<le> rc \<longrightarrow> d2 \<le> rc"
        "int (length out2) - d2 = int (length (out @ [l])) - (d + 1)"
        using less.hyps [OF _ ids(2) fi, of i "d + 1" "out @ [l]"] by blast
      then show ?thesis
        unfolding flood_loop_put [OF True r(1) [unfolded p]]
        using ids(1) len True by (intro exI [of _ s2] exI [of _ d2] exI [of _ out2]) simp
    qed
  qed
qed

lemma schedule_user_spec:
  assumes f: "flood_ok s" and u: "i < length (s_users s)"
  shows "\<exists>s' p' out' n. schedule_user re (u_uid (s_users s ! i)) (s, p, out) = Some (s', p', out', n)
    \<and> flood_ok s' \<and> map u_uid (s_users s') = map u_uid (s_users s) \<and> 0 \<le> n
    \<and> int (length (s_jobs s')) + n = int (length (s_jobs s))
    \<and> p' = p\<lparr>p_dispached := p_dispached p + n\<rparr>
    \<and> (p_sched_max p \<noteq> 0 \<longrightarrow> p_dispached p \<le> p_sched_max p \<longrightarrow> p_dispached p' \<le> p_sched_max p)
    \<and> int (length out') = int (length out) + n"
proof -
  let ?uid = "u_uid (s_users s ! i)"
  have k: "find_index (\<lambda>u. u_uid u = ?uid) (s_users s) = Some i"
    using f u find_index_distinct [of i "s_users s" u_uid] by (simp add: flood_ok_def sch_ok_def)
  let ?rem = "if p_sched_max p = 0 then int (length (s_jobs s)) else p_sched_max p - p_dispached p"
  let ?max = "if p_user_max p = 0 then int (length (s_jobs s))
     else p_user_max p - (u_running_jobs (s_users s ! i) + u_dispatched (s_users s ! i))"
  show ?thesis
  proof (cases "?max \<le> 0 \<or> ?rem \<le> 0")
    case True
    then have "schedule_user re ?uid (s, p, out) = Some (s, p, out, 0)"
      using k by (simp add: schedule_user_def user_get_dispatched_def Let_def)
    with f show ?thesis by simp
  next
    case False
    define rc where "rc = round_chunk p ?max ?rem"
    have rem: "rc \<le> ?rem" by (simp add: rc_def round_chunk_def Let_def)
    from flood_loop_spec [OF f k, of 0 p re rc 0 out] obtain s' d' out' where
      l: "flood_loop p re ?uid i rc 0 (s, 0, out) = Some (s', d', out')" "flood_ok s'"
        "map u_uid (s_users s') = map u_uid (s_users s)" "int (length (s_jobs s')) + d' = int (length (s_jobs s))"
        "0 \<le> d'" "0 \<le> rc \<longrightarrow> d' \<le> rc" "int (length out') - d' = int (length out)"
      by auto
    have stop: "d' = 0" if "rc < 0"
      using l(1) that by (subst (asm) flood_loop.simps) auto
    have "schedule_user re ?uid (s, p, out) = Some (s', p\<lparr>p_dispached := p_dispached p + d'\<rparr>, out', d')"
      using k False l(1) by (auto simp: schedule_user_def user_get_dispatched_def Let_def rc_def)
    moreover have "p_dispached p + d' \<le> p_sched_max p" if "p_sched_max p \<noteq> 0" "p_dispached p \<le> p_sched_max p"
      using that rem l(6) stop by (cases "rc < 0") auto
    ultimately show ?thesis using l by simp
  qed
qed

lemma flood_round_spec:
  assumes "flood_ok s" and "list_all (\<lambda>i. i < length (s_users s)) is"
  shows "\<exists>s' p' out' b. flood_round re is (s, p, out) busy = Some ((s', p', out'), b) \<and> flood_ok s'
    \<and> length (s_users s') = length (s_users s) \<and> length (s_jobs s') \<le> length (s_jobs s)
    \<and> (b \<longrightarrow> busy \<or> length (s_jobs s') < length (s_jobs s))
    \<and> p_sched_max p' = p_sched_max p
    \<and> (p_sched_max p \<noteq> 0 \<longrightarrow> p_dispached p \<le> p_sched_max p \<longrightarrow> p_dispached p' \<le> p_sched_max p)
    \<and> int (length out') - p_dispached p' = int (length out) - p_dispached p"
  using assms
proof (induction "is" arbitrary: s p out busy)
  case (Cons i "is")
  from schedule_user_spec [OF Cons.prems(1), of i re p out] Cons.prems(2) obtain s1 p1 out1 n where
    1: "schedule_user re (u_uid (s_users s ! i)) (s, p, out) = Some (s1, p1, out1, n)" "flood_ok s1"
      "map u_uid (s_users s1) = map u_uid (s_users s)" "0 \<le> n" "int (length (s_jobs s1)) + n = int (length (s_jobs s))"
      "p1 = p\<lparr>p_dispached := p_dispached p + n\<rparr>"
      "p_sched_max p \<noteq> 0 \<longrightarrow> p_dispached p \<le> p_sched_max p \<longrightarrow> p_dispached p1 \<le> p_sched_max p"
      "int (length out1) = int (length out) + n"
    by auto
  from 1(3) have len: "length (s_users s1) = length (s_users s)" by (metis length_map)
  from Cons.IH [OF 1(2), of p1 out1 "busy \<or> n > 0"] Cons.prems(2) len obtain s' p' out' b where
    2: "flood_round re is (s1, p1, out1) (busy \<or> n > 0) = Some ((s', p', out'), b)" "flood_ok s'"
      "length (s_users s') = length (s_users s1)" "length (s_jobs s') \<le> length (s_jobs s1)"
      "b \<longrightarrow> (busy \<or> n > 0) \<or> length (s_jobs s') < length (s_jobs s1)"
      "p_sched_max p' = p_sched_max p1"
      "p_sched_max p1 \<noteq> 0 \<longrightarrow> p_dispached p1 \<le> p_sched_max p1 \<longrightarrow> p_dispached p' \<le> p_sched_max p1"
      "int (length out') - p_dispached p' = int (length out1) - p_dispached p1"
    by auto
  have "flood_round re (i # is) (s, p, out) busy = Some ((s', p', out'), b)"
    using 1(1) 2(1) Cons.prems(2) by simp
  with 1 2 len show ?case by auto
qed simp

lemma flood_rounds_spec:
  assumes "flood_ok s"
  shows "\<exists>s' p' out'. flood_rounds re (s, p, out) = Some (s', p', out') \<and> flood_ok s'
    \<and> length (s_jobs s') \<le> length (s_jobs s) \<and> p_sched_max p' = p_sched_max p
    \<and> (p_sched_max p \<noteq> 0 \<longrightarrow> p_dispached p \<le> p_sched_max p \<longrightarrow> p_dispached p' \<le> p_sched_max p)
    \<and> int (length out') - p_dispached p' = int (length out) - p_dispached p"
  using assms
proof (induction "length (s_jobs s)" arbitrary: s p out rule: less_induct)
  case less
  have "list_all (\<lambda>i. i < length (s_users s)) [0..<length (s_users s)]" by (simp add: list_all_iff)
  from flood_round_spec [OF less.prems this, of re p out False] obtain s1 p1 out1 b where
    1: "flood_round re [0..<length (s_users s)] (s, p, out) False = Some ((s1, p1, out1), b)" "flood_ok s1"
      "length (s_jobs s1) \<le> length (s_jobs s)" "b \<longrightarrow> length (s_jobs s1) < length (s_jobs s)"
      "p_sched_max p1 = p_sched_max p"
      "p_sched_max p \<noteq> 0 \<longrightarrow> p_dispached p \<le> p_sched_max p \<longrightarrow> p_dispached p1 \<le> p_sched_max p"
      "int (length out1) - p_dispached p1 = int (length out) - p_dispached p"
    by auto
  show ?case
  proof (cases b)
    case True
    from less.hyps [OF _ 1(2), of p1 out1] True 1 show ?thesis
      by (subst flood_rounds.simps) auto
  next
    case False
    with 1 show ?thesis by (subst flood_rounds.simps) auto
  qed
qed

section \<open>Properties\<close>

text \<open>C25 (termination).
  The rounds of the flood scheduler end whatever its parameters: a round that places a job
  makes the list shorter.  It stays within the arrays, keeps the invariant, and prints at
  most \<open>-s\<close> lines, each for a job that leaves the list.\<close>

theorem flood_scheduler_ends:
  assumes "sch_ok s" and "distinct (map j_jid (s_jobs s))" and "0 \<le> p_sched_max p"
  shows "\<exists>s' p' out. flood_scheduler s p = Some (s', p', out) \<and> sch_ok s'
    \<and> length (s_jobs s') \<le> length (s_jobs s)
    \<and> (p_sched_max p \<noteq> 0 \<longrightarrow> int (length out) \<le> p_sched_max p)"
proof -
  have "flood_ok s" using assms by (simp add: flood_ok_def)
  from flood_rounds_spec [OF this, of False "p\<lparr>p_dispached := 0\<rparr>" "[]"] assms(3) obtain s1 p1 out1 where
    1: "flood_rounds False (s, p\<lparr>p_dispached := 0\<rparr>, []) = Some (s1, p1, out1)" "flood_ok s1"
      "length (s_jobs s1) \<le> length (s_jobs s)" "p_sched_max p1 = p_sched_max p"
      "p_sched_max p \<noteq> 0 \<longrightarrow> p_dispached p1 \<le> p_sched_max p" "int (length out1) = p_dispached p1"
    by auto
  from flood_rounds_spec [OF 1(2), of True p1 out1] obtain s2 p2 out2 where
    "flood_rounds True (s1, p1, out1) = Some (s2, p2, out2)" "flood_ok s2"
      "length (s_jobs s2) \<le> length (s_jobs s1)"
      "p_sched_max p1 \<noteq> 0 \<longrightarrow> p_dispached p1 \<le> p_sched_max p1 \<longrightarrow> p_dispached p2 \<le> p_sched_max p1"
      "int (length out2) - p_dispached p2 = int (length out1) - p_dispached p1"
    by auto
  with 1 show ?thesis by (simp add: flood_scheduler_def flood_ok_def)
qed

lemma flood_scheduler_ends_witness:
  "\<exists>s' p' out. flood_scheduler sample_ready default_param = Some (s', p', out) \<and> int (length out) \<le> 15"
  using flood_scheduler_ends [OF sample_ready_ok(1,2), of default_param] by (auto simp: default_param_def)

end
