(* ===== verification/Sch_Choice.thy ===== *)
theory Sch_Choice
  imports Sch_Dispatch
begin

text \<open>
  What match-making gives a job: which hosts and queues of a reply become candidates
  (\<open>gw_scheduler_filter_select_queues\<close> and the loop after it), what the choice of a queue
  does with slots and with queues that do not match, and what the jobs of an array get
  when the request for a job in between fails.
\<close>

section \<open>Candidates of a reply\<close>

lemma candidates_iff:
  "q \<in> set (candidates env hs u job ms) \<longleftrightarrow>
   (\<exists>m \<in> set ms. \<exists>idx. choice env hs u job m = Some idx \<and> q = candidate_of hs u m idx)"
  by (simp add: candidates_def split: option.split) (metis option.exhaust)

lemma choice_Some:
  "choice env hs u job m = Some idx \<longleftrightarrow>
   (\<exists>l. find_index (\<lambda>h. h_hid h = mm_host_id m) hs = Some l \<and> usable env (u_hosts u ! l) job m
      \<and> select_queue (mm_queues m) = Some idx)"
  by (auto simp: choice_def split: option.splits)

text \<open>A candidate comes from a reply: its host, and one of the best queues of it.\<close>

definition from_reply :: "gw_msg_match \<Rightarrow> nat \<Rightarrow> gw_sch_queue \<Rightarrow> bool" where
  "from_reply m l q \<longleftrightarrow> q_ha_id q = int l \<and> q_uha_id q = int l \<and> q_fixed q = mm_fixed_priority m
     \<and> list_ex (\<lambda>mq. q_qname q = take 24 (mq_name mq) \<and> q_slots q = mq_slots mq \<and> q_rank q = mq_rank mq
         \<and> list_all (\<lambda>mq'. mq_rank mq' \<le> mq_rank mq) (mm_queues m)) (mm_queues m)"

lemma from_reply_core: "q_core q = q_core q' \<Longrightarrow> from_reply m l q = from_reply m l q'"
  by (simp add: from_reply_def q_core_def)

definition good_reply :: "sch_env \<Rightarrow> gw_sch_host list \<Rightarrow> gw_sch_user \<Rightarrow> gw_sch_job \<Rightarrow> gw_msg_match \<Rightarrow> nat \<Rightarrow> bool" where
  "good_reply env hs u job m l \<longleftrightarrow> find_index (\<lambda>h. h_hid h = mm_host_id m) hs = Some l
     \<and> usable env (u_hosts u ! l) job m"

lemma candidate_from_reply:
  assumes u: "user_ok c hs u" and l: "find_index (\<lambda>h. h_hid h = mm_host_id m) hs = Some l"
    and q: "select_queue (mm_queues m) = Some idx"
  shows "from_reply m l (candidate_of hs u m idx)"
proof -
  from l have "l < length hs" by (rule find_index_nth)
  with user_ok_ha [OF u] have ha: "uh_ha_id (u_hosts u ! l) = int l" by simp
  have "idx < length (mm_queues m)" "list_all (\<lambda>mq'. mq_rank mq' \<le> mq_rank (mm_queues m ! idx)) (mm_queues m)"
    using select_queue_best [OF q] by (auto simp: list_all_iff)
  with ha l show ?thesis
    by (auto simp: from_reply_def candidate_of_def candidate_def list_ex_length)
qed

lemma candidates_from_replies:
  assumes u: "user_ok c hs u" and r: "reply_ok ms"
  shows "q \<in> set (candidates env hs u job ms) \<Longrightarrow> \<exists>m \<in> set ms. \<exists>l. good_reply env hs u job m l \<and> from_reply m l q"
    and "m \<in> set ms \<Longrightarrow> good_reply env hs u job m l \<Longrightarrow> \<exists>q \<in> set (candidates env hs u job ms). from_reply m l q"
proof -
  assume "q \<in> set (candidates env hs u job ms)"
  then obtain m idx l where m: "m \<in> set ms" "q = candidate_of hs u m idx"
      "find_index (\<lambda>h. h_hid h = mm_host_id m) hs = Some l" "usable env (u_hosts u ! l) job m"
      "select_queue (mm_queues m) = Some idx"
    by (auto simp: candidates_iff choice_Some)
  from candidate_from_reply [OF u m(3,5)] m show "\<exists>m \<in> set ms. \<exists>l. good_reply env hs u job m l \<and> from_reply m l q"
    by (intro bexI [of _ m] exI [of _ l]) (simp_all add: good_reply_def)
next
  assume m: "m \<in> set ms" "good_reply env hs u job m l"
  with r have "mm_queues m \<noteq> []" by (auto simp: reply_ok_def list_all_iff)
  then obtain idx where i: "select_queue (mm_queues m) = Some idx" using select_queue_total by blast
  with m have "choice env hs u job m = Some idx" by (auto simp: choice_Some good_reply_def)
  with m(1) have "candidate_of hs u m idx \<in> set (candidates env hs u job ms)"
    by (auto simp: candidates_iff)
  moreover have "from_reply m l (candidate_of hs u m idx)"
    using candidate_from_reply [OF u _ i] m(2) by (simp add: good_reply_def)
  ultimately show "\<exists>q \<in> set (candidates env hs u job ms). from_reply m l q" by blast
qed

lemma core_members:
  assumes "image_mset q_core (mset qs) = image_mset q_core (mset cs)" and "q \<in> set qs"
  shows "\<exists>q' \<in> set cs. q_core q' = q_core q"
proof -
  have "q_core ` set qs = q_core ` set cs"
    using arg_cong [OF assms(1), of set_mset] by simp
  with assms(2) show ?thesis by (metis (no_types, opaque_lifting) image_iff)
qed

lemma match_request_chooses:
  assumes "sch_ok s" and "env_ok env" and "i < length (s_jobs s)" and "reply_ok ms"
    and "j_mhosts (s_jobs s ! i) = None"
  shows "\<exists>s' out. match_request env s i ms = Some (s', out)
    \<and> (\<forall>q \<in> set (queues_of (s_jobs s' ! i)). \<exists>m \<in> set ms. \<exists>l.
         good_reply env (s_hosts s) (s_users s ! nat (j_ua_id (s_jobs s ! i))) (s_jobs s ! i) m l \<and> from_reply m l q)
    \<and> (\<forall>m \<in> set ms. \<forall>l. good_reply env (s_hosts s) (s_users s ! nat (j_ua_id (s_jobs s ! i))) (s_jobs s ! i) m l
         \<longrightarrow> (\<exists>q \<in> set (queues_of (s_jobs s' ! i)). from_reply m l q))
    \<and> out = (if queues_of (s_jobs s' ! i) = [] \<and> j_reason (s_jobs s ! i) \<noteq> GW_REASON_NONE
             then [failed_line (j_jid (s_jobs s ! i))] else [])"
proof -
  let ?u = "s_users s ! nat (j_ua_id (s_jobs s ! i))" and ?job = "s_jobs s ! i"
  let ?cs = "candidates env (s_hosts s) ?u ?job ms"
  from sch_ok_job [OF assms(1,3)] have U: "user_ok (s_conf s) (s_hosts s) ?u"
    by (intro sch_ok_user [OF assms(1)]) (auto simp: job_ok_def)
  note cands = candidates_from_replies [OF U assms(4)]
  from match_request_eq [OF assms(1-4) refl refl] obtain s' out where
    m: "match_request env s i ms = Some (s', out)"
      "?cs = [] \<longrightarrow> s' = s \<and> out = (if j_reason ?job \<noteq> GW_REASON_NONE then [failed_line (j_jid ?job)] else [])"
      "?cs \<noteq> [] \<longrightarrow> out = [] \<and> (\<exists>qs. s' = set_mhosts s i (Some qs)
        \<and> image_mset q_core (mset qs) = image_mset q_core (mset ?cs))"
    by blast
  have core: "image_mset q_core (mset (queues_of (s_jobs s' ! i))) = image_mset q_core (mset ?cs)"
    using m assms(3,5) by (cases "?cs = []") (auto simp: queues_of_def set_mhosts_def)
  from arg_cong [OF this, of size] have none: "queues_of (s_jobs s' ! i) = [] \<longleftrightarrow> ?cs = []"
    by (cases "queues_of (s_jobs s' ! i)"; cases ?cs) simp_all
  have "\<exists>m \<in> set ms. \<exists>l. good_reply env (s_hosts s) ?u ?job m l \<and> from_reply m l q"
    if "q \<in> set (queues_of (s_jobs s' ! i))" for q
    using core_members [OF core that] cands(1) from_reply_core by metis
  moreover have "\<exists>q \<in> set (queues_of (s_jobs s' ! i)). from_reply m l q"
    if "m \<in> set ms" "good_reply env (s_hosts s) ?u ?job m l" for m l
    using cands(2) [OF that] core_members [OF core [symmetric]] from_reply_core by metis
  moreover have "out = (if queues_of (s_jobs s' ! i) = [] \<and> j_reason ?job \<noteq> GW_REASON_NONE
             then [failed_line (j_jid ?job)] else [])"
    using m(2,3) none by auto
  ultimately show ?thesis using m(1) by blast
qed

text \<open>
  The hosts that answer the request for a job; none when the request fails, which the loop
  treats as an answer without hosts.
\<close>

definition replies :: "sch_env \<Rightarrow> gw_sch_job \<Rightarrow> gw_msg_match list" where
  "replies env job = (case e_match env (j_jid job) (j_aid job) of None \<Rightarrow> [] | Some ms \<Rightarrow> ms)"

definition asks_daemon :: "int \<Rightarrow> gw_sch_job \<Rightarrow> bool" where
  "asks_daemon la job \<longleftrightarrow> j_aid job = - 1 \<or> la \<noteq> j_aid job \<or> j_reason job = GW_REASON_SELF_MIGRATION"

lemma set_mhosts_nth:
  "k < length (s_jobs s) \<Longrightarrow> s_jobs (set_mhosts s i q) ! k =
     (if k = i then (s_jobs s ! i)\<lparr>j_mhosts := q\<rparr> else s_jobs s ! k)"
  by (simp add: set_mhosts_def nth_list_update)

lemma set_mhosts_twice: "set_mhosts (set_mhosts s i p) i q = set_mhosts s i q"
  by (cases "i < length (s_jobs s)") (simp_all add: set_mhosts_def list_update_beyond)

lemma set_mhosts_none: "j_mhosts (s_jobs s ! i) = None \<Longrightarrow> set_mhosts s i None = s"
proof -
  assume "j_mhosts (s_jobs s ! i) = None"
  then have "(s_jobs s ! i)\<lparr>j_mhosts := None\<rparr> = s_jobs s ! i" by (cases "s_jobs s ! i") simp
  then show ?thesis by (simp add: set_mhosts_def)
qed

lemma set_mhosts_self:
  "i < length (s_jobs s) \<Longrightarrow> set_mhosts s i (j_mhosts (s_jobs (set_mhosts s i q) ! i)) = set_mhosts s i q"
  by (simp add: set_mhosts_nth)

lemma match_request_frame:
  assumes "sch_ok s" and "env_ok env" and "i < length (s_jobs s)" and "reply_ok ms"
    and "j_mhosts (s_jobs s ! i) = None" and "match_request env s i ms = Some (s', out)"
  shows "s' = set_mhosts s i (j_mhosts (s_jobs s' ! i))"
  using match_request_eq [OF assms(1-4) refl refl] assms(3,5,6) set_mhosts_self [OF assms(3)]
  by (cases "candidates env (s_hosts s) (s_users s ! nat (j_ua_id (s_jobs s ! i))) (s_jobs s ! i) ms = []")
    (auto simp: set_mhosts_none)

lemma good_reply_mhosts [simp]: "good_reply env hs u (job\<lparr>j_mhosts := q\<rparr>) m l = good_reply env hs u job m l"
  by (simp add: good_reply_def usable_def)

lemma fixed_zero_reasons:
  assumes "good_reply env hs u job m l" and "from_reply m l q" and "q_fixed q = 0"
  shows "j_reason job \<in> {GW_REASON_USER_REQUESTED, GW_REASON_SUSPENSION_TIME, GW_REASON_RESCHEDULING_TIMEOUT}"
  using assms by (auto simp: good_reply_def usable_def from_reply_def split: if_splits)

text \<open>C21 (functional).
  Match-making gives a job exactly the hosts the filter lets pass.  A job that asks the
  daemon (it has no array, its array is not that of the last request, or it migrates
  itself) gets for each host of the answer that is known to the scheduler and usable
  (not banned for the user; not in the job's history, or of a fixed priority other than 0,
  as the reason of its migration has it) a candidate, whose queue no other queue of the
  host outranks, and gets no other candidates.  The filter takes hosts of the fixed
  priority 0 only for the three reasons that look at the history.  When the answer has
  hosts and none is usable, a job that migrates is given up with one line; when the request
  fails or its answer has no hosts, no line is written and the array asked for stays that
  of the last request.  A job that does not ask gets the candidates of the job before it.
  The other jobs and the rest of the scheduler stay as they are.  Nothing here says that the
  queue of a candidate meets the job's requirements: the choice does not look at that.\<close>

theorem match_job_chooses:
  assumes ok: "sch_ok s" and e: "env_ok env" and i: "i < length (s_jobs s)" and la: "i = 0 \<longrightarrow> la = - 1"
  shows "\<exists>s' la' lines. match_job env i (s, la, out) = Some (s', la', out @ lines)
    \<and> s' = set_mhosts s i (j_mhosts (s_jobs s' ! i))
    \<and> (if asks_daemon la (s_jobs s ! i) then
         (\<forall>q \<in> set (queues_of (s_jobs s' ! i)). \<exists>m \<in> set (replies env (s_jobs s ! i)). \<exists>l.
            good_reply env (s_hosts s) (s_users s ! nat (j_ua_id (s_jobs s ! i))) (s_jobs s ! i) m l \<and> from_reply m l q)
         \<and> (\<forall>m \<in> set (replies env (s_jobs s ! i)). \<forall>l.
            good_reply env (s_hosts s) (s_users s ! nat (j_ua_id (s_jobs s ! i))) (s_jobs s ! i) m l
              \<longrightarrow> (\<exists>q \<in> set (queues_of (s_jobs s' ! i)). from_reply m l q))
         \<and> (\<forall>q \<in> set (queues_of (s_jobs s' ! i)). q_fixed q = 0 \<longrightarrow> j_reason (s_jobs s ! i) \<in>
            {GW_REASON_USER_REQUESTED, GW_REASON_SUSPENSION_TIME, GW_REASON_RESCHEDULING_TIMEOUT})
         \<and> lines = (if replies env (s_jobs s ! i) \<noteq> [] \<and> queues_of (s_jobs s' ! i) = []
              \<and> j_reason (s_jobs s ! i) \<noteq> GW_REASON_NONE then [failed_line (j_jid (s_jobs s ! i))] else [])
         \<and> la' = (if replies env (s_jobs s ! i) = [] then la
              else if j_reason (s_jobs s ! i) = GW_REASON_SELF_MIGRATION then - 1 else j_aid (s_jobs s ! i))
       else queues_of (s_jobs s' ! i) = queues_of (s_jobs s ! (i - 1)) \<and> lines = [] \<and> la' = la)"
    (is "\<exists>s' la' lines. _ \<and> _ \<and> (if _ then ?asked s' la' lines else _)")
proof -
  let ?s = "set_mhosts s i None" and ?job = "s_jobs s ! i"
  have job: "s_jobs ?s ! i = ?job\<lparr>j_mhosts := None\<rparr>" using i by (simp add: set_mhosts_nth)
  show ?thesis
  proof (cases "asks_daemon la ?job")
    case asked: True
    show ?thesis
    proof (cases "replies env ?job = []")
      case True
      then have "match_job env i (s, la, out) = Some (?s, la, out)"
        using asked by (auto simp: match_job_def Let_def job asks_daemon_def replies_def split: option.splits)
      with True asked i show ?thesis
        by (intro exI [of _ ?s] exI [of _ la] exI [of _ "[]"]) (simp add: set_mhosts_self queues_of_def set_mhosts_nth)
    next
      case False
      then obtain ms where ms: "e_match env (j_jid ?job) (j_aid ?job) = Some ms" "ms \<noteq> []" "replies env ?job = ms"
        by (auto simp: replies_def split: option.splits)
      have ok1: "sch_ok ?s" using ok by (rule set_mhosts_ok) simp
      have r: "reply_ok ms" using e ms(1) by (auto simp: env_ok_def)
      have i1: "i < length (s_jobs ?s)" and n1: "j_mhosts (s_jobs ?s ! i) = None" using i job by simp_all
      from match_request_chooses [OF ok1 e i1 r n1] obtain s' lines where
        run: "match_request env ?s i ms = Some (s', lines)"
        and sel: "\<forall>q \<in> set (queues_of (s_jobs s' ! i)). \<exists>m \<in> set ms. \<exists>l.
            good_reply env (s_hosts s) (s_users s ! nat (j_ua_id ?job)) ?job m l \<and> from_reply m l q"
          "\<forall>m \<in> set ms. \<forall>l. good_reply env (s_hosts s) (s_users s ! nat (j_ua_id ?job)) ?job m l
              \<longrightarrow> (\<exists>q \<in> set (queues_of (s_jobs s' ! i)). from_reply m l q)"
        and out: "lines = (if queues_of (s_jobs s' ! i) = [] \<and> j_reason ?job \<noteq> GW_REASON_NONE
             then [failed_line (j_jid ?job)] else [])"
        unfolding job by (auto simp: set_mhosts_def)
      have frame: "s' = set_mhosts s i (j_mhosts (s_jobs s' ! i))"
        using match_request_frame [OF ok1 e i1 r n1 run] by (simp only: set_mhosts_twice)
      have "match_job env i (s, la, out) = Some (s', if j_reason ?job = GW_REASON_SELF_MIGRATION then - 1 else j_aid ?job,
          out @ lines)"
        using asked ms run by (auto simp: match_job_def Let_def job asks_daemon_def)
      moreover have "\<forall>q \<in> set (queues_of (s_jobs s' ! i)). q_fixed q = 0 \<longrightarrow> j_reason ?job \<in>
            {GW_REASON_USER_REQUESTED, GW_REASON_SUSPENSION_TIME, GW_REASON_RESCHEDULING_TIMEOUT}"
        using sel(1) fixed_zero_reasons by blast
      ultimately show ?thesis
        using asked sel out frame ms(2,3)
        by (intro exI [of _ s'] exI [of _ "if j_reason ?job = GW_REASON_SELF_MIGRATION then - 1 else j_aid ?job"]
              exI [of _ lines] conjI) (simp_all del: good_reply_mhosts)
    qed
  next
    case False
    with la have "i \<noteq> 0" by (metis asks_daemon_def)
    with i have prev': "s_jobs ?s ! (i - Suc 0) = s_jobs s ! (i - Suc 0)"
      by (simp add: set_mhosts_nth)
    define mh where "mh = Some (queues_of (s_jobs s ! (i - 1)))"
    have "match_job env i (s, la, out) = Some (set_mhosts s i mh, la, out)"
      using False \<open>i \<noteq> 0\<close> by (simp add: match_job_def Let_def job asks_daemon_def prev' mh_def queues_of_def set_mhosts_twice)
    with False i show ?thesis
      by (intro exI [of _ "set_mhosts s i mh"] exI [of _ la] exI [of _ "[]"])
        (simp add: set_mhosts_self set_mhosts_nth queues_of_def mh_def)
  qed
qed

lemma match_job_chooses_witness:
  "\<exists>s' q. match_job sample_env 0 (sample_jobs, - 1, []) = Some (s', - 1, [])
     \<and> q \<in> set (queues_of (s_jobs s' ! 0)) \<and> q_slots q = 5"
proof -
  have e: "env_ok sample_env"
    by (auto simp: env_ok_def sample_env_def reply_ok_def qsort_perm_def)
  from match_job_chooses [OF sample_jobs_ok(1) e, of 0 "- 1" "[]"]
  show ?thesis
    by (fastforce simp: sample_jobs_def sample_sch_def sample_env_def replies_def asks_daemon_def good_reply_def usable_def
      from_reply_def sample_job_def new_user_host_def set_averages_def)
qed

section \<open>What the choice of a queue does not look at\<close>

text \<open>The choice of a queue does not look at \<open>match\<close>: when every queue of a host that
  meets the job's requirements has a negative rank, a queue that does not meet them and
  whose rank is not negative is taken (the daemon gives such a queue the rank 0).\<close>

theorem select_queue_without_match:
  assumes "list_all (\<lambda>q. mq_match q \<longrightarrow> mq_rank q < 0) qs" and "list_ex (\<lambda>q. 0 \<le> mq_rank q) qs"
  shows "\<exists>i. select_queue qs = Some i \<and> i < length qs \<and> \<not> mq_match (qs ! i)"
proof -
  obtain q where q: "q \<in> set qs" "0 \<le> mq_rank q" using assms(2) by (auto simp: list_ex_iff)
  then have "qs \<noteq> []" by auto
  then obtain i where i: "select_queue qs = Some i" using select_queue_total by blast
  from select_queue_best [OF i] q have "i < length qs" "0 \<le> mq_rank (qs ! i)" by auto
  with assms(1) i show ?thesis by (auto simp: list_all_length)
qed

lemma select_queue_without_match_witness:
  "\<exists>i. select_queue [\<lparr>mq_name = ''a'', mq_match = True, mq_rank = - 5, mq_slots = 4\<rparr>,
      \<lparr>mq_name = ''b'', mq_match = False, mq_rank = 0, mq_slots = 0\<rparr>] = Some i \<and> i < 2
    \<and> \<not> mq_match ([\<lparr>mq_name = ''a'', mq_match = True, mq_rank = - 5, mq_slots = 4\<rparr>,
      \<lparr>mq_name = ''b'', mq_match = False, mq_rank = 0, mq_slots = 0\<rparr>] ! i)"
  using select_queue_without_match [of "[\<lparr>mq_name = ''a'', mq_match = True, mq_rank = - 5, mq_slots = 4\<rparr>,
      \<lparr>mq_name = ''b'', mq_match = False, mq_rank = 0, mq_slots = 0\<rparr>]"]
  by (simp add: numeral_2_eq_2)

text \<open>
  Among queues of the best rank the one with most slots is meant.  It is the one chosen
  when the first queue has the best rank; but a queue that is better than the ones before
  it does not set the slots the next ones are compared with.
\<close>

lemma select_queue_loop_slots:
  "\<lbrakk>length pre = j; qnum < j; mq_rank (pre ! qnum) = mrank; mq_slots (pre ! qnum) = mfnc;
    \<forall>q \<in> set pre. mq_rank q = mrank \<longrightarrow> mq_slots q \<le> mfnc; \<forall>q \<in> set qs. mq_rank q \<le> mrank\<rbrakk> \<Longrightarrow>
   (let i = select_queue_loop j mrank mfnc qnum qs in i < length (pre @ qs) \<and> mq_rank ((pre @ qs) ! i) = mrank
     \<and> (\<forall>q \<in> set (pre @ qs). mq_rank q = mrank \<longrightarrow> mq_slots q \<le> mq_slots ((pre @ qs) ! i)))"
proof (induction qs arbitrary: pre j mfnc qnum)
  case (Cons q qs)
  note IH = Cons.IH [of "pre @ [q]" "Suc j"]
  show ?case
  proof (cases "mq_rank q = mrank \<and> mq_slots q > mfnc")
    case True
    with IH [of j "mq_slots q"] Cons.prems show ?thesis by (fastforce simp: Let_def)
  next
    case False
    with IH [of qnum mfnc] Cons.prems show ?thesis by (auto simp: nth_append Let_def)
  qed
qed (auto simp: Let_def)

text \<open>A host's queue is chosen by rank and then by slots when its first queue has the best
  rank: no queue of that rank has more slots than the one chosen.\<close>

theorem select_queue_most_slots:
  assumes "qs \<noteq> []" and "list_all (\<lambda>q. mq_rank q \<le> mq_rank (hd qs)) qs"
  shows "\<exists>i < length qs. select_queue qs = Some i \<and> mq_rank (qs ! i) = mq_rank (hd qs)
    \<and> (\<forall>q \<in> set qs. mq_rank q = mq_rank (hd qs) \<longrightarrow> mq_slots q \<le> mq_slots (qs ! i))"
proof -
  obtain q rest where qs: "qs = q # rest" using assms(1) by (cases qs) auto
  with select_queue_loop_slots [of "[q]" 1 0 "mq_rank q" "mq_slots q" rest] assms(2)
  show ?thesis by (auto simp: select_queue_def Let_def list_all_iff)
qed

lemma select_queue_most_slots_witness:
  "\<exists>i < 2. select_queue [\<lparr>mq_name = ''a'', mq_match = True, mq_rank = 5, mq_slots = 4\<rparr>,
      \<lparr>mq_name = ''b'', mq_match = True, mq_rank = 5, mq_slots = 9\<rparr>] = Some i"
  using select_queue_most_slots [of "[\<lparr>mq_name = ''a'', mq_match = True, mq_rank = 5, mq_slots = 4\<rparr>,
      \<lparr>mq_name = ''b'', mq_match = True, mq_rank = 5, mq_slots = 9\<rparr>]"]
  by auto

text \<open>When a better queue follows the first, the slots of the first still decide: a third
  queue of the best rank with more slots than the second is passed over unless it has
  more slots than the first, which is not of that rank.\<close>

theorem select_queue_stale_slots:
  assumes "mq_rank a < mq_rank b" and "mq_rank c = mq_rank b"
    and "mq_slots b < mq_slots c" and "mq_slots c \<le> mq_slots a"
  shows "select_queue [a, b, c] = Some 1 \<and> mq_slots ([a, b, c] ! 1) < mq_slots ([a, b, c] ! 2)"
  using assms by (simp add: select_queue_def)

lemma select_queue_stale_slots_witness:
  "select_queue [\<lparr>mq_name = ''a'', mq_match = True, mq_rank = 1, mq_slots = 50\<rparr>,
      \<lparr>mq_name = ''b'', mq_match = True, mq_rank = 2, mq_slots = 0\<rparr>,
      \<lparr>mq_name = ''c'', mq_match = True, mq_rank = 2, mq_slots = 20\<rparr>] = Some 1"
  using select_queue_stale_slots [of "\<lparr>mq_name = ''a'', mq_match = True, mq_rank = 1, mq_slots = 50\<rparr>"
      "\<lparr>mq_name = ''b'', mq_match = True, mq_rank = 2, mq_slots = 0\<rparr>"
      "\<lparr>mq_name = ''c'', mq_match = True, mq_rank = 2, mq_slots = 20\<rparr>"]
  by simp

section \<open>Jobs of an array\<close>

text \<open>A failed request does not end the match-making of its array, and the array of the last
  good one is still taken as the last: when the request of a job fails between two jobs of
  another array, the second of these gets a copy of the failed job's empty list, and has
  no candidate however many the array has.\<close>

theorem failed_match_empties_array:
  assumes "Suc i < length (s_jobs s)"
    and "e_match env (j_jid (s_jobs s ! i)) (j_aid (s_jobs s ! i)) = None"
    and "j_aid (s_jobs s ! i) \<noteq> la" and "j_aid (s_jobs s ! Suc i) = la" and "la \<noteq> - 1"
    and "j_reason (s_jobs s ! Suc i) \<noteq> GW_REASON_SELF_MIGRATION"
  shows "\<exists>s'. match_loop env [i, Suc i] (s, la, out) = Some (s', la, out)
    \<and> j_mhosts (s_jobs s' ! i) = None \<and> j_mhosts (s_jobs s' ! Suc i) = Some []"
proof -
  have "match_job env i (s, la, out) = Some (set_mhosts s i None, la, out)"
    using assms by (simp add: match_job_def Let_def set_mhosts_nth)
  with assms show ?thesis by (simp add: match_job_def Let_def set_mhosts_nth)
qed

lemma failed_match_empties_array_witness:
  "\<exists>s'. match_loop (sample_env\<lparr>e_match := (\<lambda>jid aid. None)\<rparr>) [0, 1]
      (sample_jobs\<lparr>s_jobs := [sample_job 1 0 GW_REASON_NONE, (sample_job 2 0 GW_REASON_NONE)\<lparr>j_aid := 5\<rparr>]\<rparr>, 5, [])
      = Some (s', 5, []) \<and> j_mhosts (s_jobs s' ! 1) = Some []"
  using failed_match_empties_array [of 0 "sample_jobs\<lparr>s_jobs := [sample_job 1 0 GW_REASON_NONE,
      (sample_job 2 0 GW_REASON_NONE)\<lparr>j_aid := 5\<rparr>]\<rparr>" "sample_env\<lparr>e_match := (\<lambda>jid aid. None)\<rparr>" 5 "[]"]
  by (auto simp: sample_job_def simp del: match_loop.simps)

end
