(* ===== verification/Sch_Steps.thy ===== *)
theory Sch_Steps
  imports Sch_Flood Sch_Choice
begin

text \<open>
  What the steps of a scheduling action leave as it is: the configuration, the users with
  the jobs they have been charged for, the times of their hosts' first failures, and the
  jobs but those that are placed.  \<open>sch_le\<close> is kept by match-making, by the policies and by
  the placements of both scheduler programs; the locale \<open>scheduler_function\<close> is what
  \<open>gw_scheduler_loop\<close> expects of the function it is called with, and both programs give it.
\<close>

section \<open>The relation\<close>

definition job_key :: "gw_sch_job \<Rightarrow> int \<times> int \<times> int \<times> int" where
  "job_key j = (j_jid j, j_fixed j, j_schedule_time j, j_deadline_time j)"

text \<open>The jobs of a user that count: those in the list and those of the last windows.\<close>

definition quota :: "gw_sch_user \<Rightarrow> int" where
  "quota u = u_total_jobs u + (case u_sub_windows u of None \<Rightarrow> 0 | Some ws \<Rightarrow> sum_list ws)"

definition windows_pos :: "gw_sch_user \<Rightarrow> bool" where
  "windows_pos u \<longleftrightarrow> (case u_sub_windows u of None \<Rightarrow> True | Some ws \<Rightarrow> list_all (\<lambda>w. 0 \<le> w) ws)"

definition user_le :: "gw_sch_user \<Rightarrow> gw_sch_user \<Rightarrow> bool" where
  "user_le u u' \<longleftrightarrow> u_uid u' = u_uid u
     \<and> (windows_pos u \<longrightarrow> windows_pos u' \<and> quota u' \<le> quota u)
     \<and> map uh_last_banned (u_hosts u') = map uh_last_banned (u_hosts u)"

definition sch_le :: "gw_scheduler \<Rightarrow> gw_scheduler \<Rightarrow> bool" where
  "sch_le s s' \<longleftrightarrow> s_conf s' = s_conf s \<and> list_all2 user_le (s_users s) (s_users s')
     \<and> mset (map job_key (s_jobs s')) \<subseteq># mset (map job_key (s_jobs s))"

lemma user_le_refl [simp]: "user_le u u"
  by (simp add: user_le_def)

lemma user_le_trans: "user_le a b \<Longrightarrow> user_le b c \<Longrightarrow> user_le a c"
  by (auto simp: user_le_def)

lemma users_le_refl [simp]: "list_all2 user_le us us"
  by (simp add: list_all2_same)

lemma sch_le_refl: "sch_le s s"
  by (simp add: sch_le_def)

lemma sch_le_trans: "sch_le a b \<Longrightarrow> sch_le b c \<Longrightarrow> sch_le a c"
proof -
  assume "sch_le a b" "sch_le b c"
  moreover from this have "list_all2 user_le (s_users a) (s_users c)"
    using list_all2_trans [of user_le user_le user_le "s_users a" "s_users b" "s_users c"] user_le_trans
    by (auto simp: sch_le_def)
  ultimately show ?thesis
    by (auto simp: sch_le_def intro: subset_mset.trans)
qed

lemma users_le_update:
  "k < length us \<Longrightarrow> user_le (us ! k) u \<Longrightarrow> list_all2 user_le us (us[k := u])"
  by (auto simp: list_all2_conv_all_nth nth_list_update)

lemma user_le_same:
  "\<lbrakk>u_uid u' = u_uid u; u_sub_windows u' = u_sub_windows u; u_total_jobs u' = u_total_jobs u;
    u_hosts u' = u_hosts u\<rbrakk> \<Longrightarrow> user_le u u'"
  by (simp add: user_le_def windows_pos_def quota_def)

section \<open>Jobs that leave\<close>

lemma job_del_user_le: "job_del_user d u = Some u' \<Longrightarrow> user_le u u'"
  by (cases "u_sub_windows u")
    (auto simp: job_del_user_def Let_def bind_Some_iff user_le_def windows_pos_def quota_def
      rd_def wr_def neq_Nil_conv split: if_splits)

lemma jobs_remove_le:
  "i < length js \<Longrightarrow> mset (map job_key (take i js @ drop (Suc i) js)) \<subseteq># mset (map job_key js)"
  by (subst (3) id_take_nth_drop [of i js]) (simp_all add: mset_subset_eq_add_right)

lemma rd_wr_le:
  "rd us k = Some u \<Longrightarrow> wr us k u' = Some us' \<Longrightarrow> user_le u u' \<Longrightarrow> list_all2 user_le us us'"
  by (auto simp: rd_def wr_def split: if_splits intro: users_le_update)

lemma job_del_le: "gw_scheduler_job_del s jid d = Some s' \<Longrightarrow> sch_le s s'"
  by (auto simp: gw_scheduler_job_del_def bind_Some_iff sch_le_def split: option.splits
      intro: rd_wr_le job_del_user_le sch_le_refl dest: find_index_nth
      intro!: jobs_remove_le [simplified])

lemma place_job_le:
  assumes "place_job s k job q = Some (s', l)"
  shows "sch_le s s'"
proof -
  from assms obtain u us hs where u: "rd (s_users s) k = Some u"
      "wr (s_users s) k (u\<lparr>u_dispatched := u_dispatched u + 1\<rparr>) = Some us"
    and d: "gw_scheduler_job_del (s\<lparr>s_hosts := hs, s_users := us\<rparr>) (j_jid job) 1 = Some s'"
    by (auto simp: place_job_def bind_Some_iff)
  have "sch_le s (s\<lparr>s_hosts := hs, s_users := us\<rparr>)"
    using rd_wr_le [OF u] user_le_same by (simp add: sch_le_def)
  with job_del_le [OF d] show ?thesis by (blast intro: sch_le_trans)
qed

section \<open>The two scheduler programs\<close>

lemma dispatch_at_le: "dispatch_at mu mh r s i = Some (Some (s', l)) \<Longrightarrow> sch_le s s'"
  by (auto simp: dispatch_at_def bind_Some_iff Let_def split: option.splits if_splits dest: place_job_le)

lemma dispatch_loop_le: "dispatch_loop md mu mh r i (s, d, out) = Some (s', d', out') \<Longrightarrow> sch_le s s'"
proof (induction md mu mh r i "(s, d, out)" arbitrary: s d out rule: dispatch_loop.induct)
  case (1 md mu mh r i s d out)
  then show ?case
    by (subst (asm) (3) dispatch_loop.simps)
      (auto split: if_splits option.splits prod.splits intro: sch_le_refl
        intro: sch_le_trans [OF dispatch_at_le])
qed

lemma gw_sched_le: "gw_sched s = Some (s', out) \<Longrightarrow> sch_le s s'"
  by (auto simp: gw_sched_def gw_sched_dispatch_def bind_Some_iff
      dest!: dispatch_loop_le intro: sch_le_trans)

lemma flood_at_le: "flood_at p re uid k s i = Some (Some (s', l)) \<Longrightarrow> sch_le s s'"
  by (auto simp: flood_at_def bind_Some_iff Let_def split: option.splits if_splits dest: place_job_le)

lemma flood_loop_le: "flood_loop p re uid k rc i (s, d, out) = Some (s', d', out') \<Longrightarrow> sch_le s s'"
proof (induction p re uid k rc i "(s, d, out)" arbitrary: s d out rule: flood_loop.induct)
  case (1 p re uid k rc i s d out)
  then show ?case
    by (subst (asm) (3) flood_loop.simps)
      (auto split: if_splits option.splits prod.splits intro: sch_le_refl
        intro: sch_le_trans [OF flood_at_le])
qed

lemma schedule_user_le: "schedule_user re uid (s, p, out) = Some (s', p', out', n) \<Longrightarrow> sch_le s s'"
  by (auto simp: schedule_user_def bind_Some_iff Let_def split: if_splits
      intro: sch_le_refl dest: flood_loop_le)

lemma flood_round_le:
  "flood_round re is (s, p, out) b = Some ((s', p', out'), b') \<Longrightarrow> sch_le s s'"
  by (induction "is" arbitrary: s p out b)
    (auto simp: bind_Some_iff intro: sch_le_refl dest: schedule_user_le intro: sch_le_trans)

lemma flood_rounds_le: "flood_rounds re st = Some st' \<Longrightarrow> sch_le (fst st) (fst st')"
proof (induction rule: flood_rounds.raw_induct [rotated 1, consumes 1, case_names step])
  case (step frs re st st')
  then obtain st1 busy where 1: "flood_round re [0..<length (s_users (fst st))] st False = Some (st1, busy)"
      "(if busy then frs re st1 else Some st1) = Some st'"
    by (auto simp: bind_Some_iff)
  then have le: "sch_le (fst st) (fst st1)" by (cases st; cases st1) (auto dest: flood_round_le)
  show ?case
  proof (cases busy)
    case True
    with 1 have "sch_le (fst st1) (fst st')" by (intro step.IH) simp
    with le show ?thesis by (rule sch_le_trans)
  qed (use 1 le in simp)
qed

lemma flood_scheduler_le: "flood_scheduler s p = Some (s', p', out) \<Longrightarrow> sch_le s s'"
  by (auto simp: flood_scheduler_def bind_Some_iff dest!: flood_rounds_le intro: sch_le_trans)
section \<open>Match-making, policies and windows\<close>

definition only_mhosts :: "gw_scheduler \<Rightarrow> gw_scheduler \<Rightarrow> bool" where
  "only_mhosts s s' \<longleftrightarrow> s_conf s' = s_conf s \<and> s_users s' = s_users s \<and> s_hosts s' = s_hosts s
     \<and> map job_key (s_jobs s') = map job_key (s_jobs s)"

lemma only_mhosts_refl: "only_mhosts s s"
  by (simp add: only_mhosts_def)

lemma only_mhosts_trans: "only_mhosts a b \<Longrightarrow> only_mhosts b c \<Longrightarrow> only_mhosts a c"
  by (simp add: only_mhosts_def)

lemma only_mhosts_set: "only_mhosts s (set_mhosts s i q)"
  by (simp add: only_mhosts_def set_mhosts_def distinct_map_update job_key_def)

lemma host_policies_only:
  "gw_scheduler_host_policies env s i = Some s' \<Longrightarrow> only_mhosts s s'"
proof -
  assume "gw_scheduler_host_policies env s i = Some s'"
  then obtain job where "rd (s_jobs s) (int i) = Some job"
      "s' = s \<or> (\<exists>q. s' = s\<lparr>s_jobs := (s_jobs s)[i := job\<lparr>j_mhosts := q\<rparr>]\<rparr>)"
    by (auto simp: gw_scheduler_host_policies_def bind_Some_iff split: option.splits)
  then show ?thesis
    using only_mhosts_refl only_mhosts_set [of s i]
    by (auto simp: rd_def set_mhosts_def split: if_splits)
qed

lemma match_request_only:
  assumes "match_request env s i ms = Some (s', out)"
  shows "only_mhosts s s'"
proof -
  have "s' = s \<or> (\<exists>q. s' = set_mhosts s i q
      \<or> gw_scheduler_host_policies env (set_mhosts s i q) i = Some s')"
    using assms by (auto simp: match_request_def bind_Some_iff Let_def split: if_splits)
  then show ?thesis
    using only_mhosts_refl only_mhosts_set [of s i] host_policies_only only_mhosts_trans by metis
qed

lemma match_job_only:
  assumes "match_job env i (s, la, out) = Some (s', la', out')"
  shows "only_mhosts s s'"
proof -
  have "\<exists>q. s' = set_mhosts s i q \<or> s' = set_mhosts (set_mhosts s i None) i q
      \<or> (\<exists>ms l. match_request env (set_mhosts s i None) i ms = Some (s', l))"
    using assms by (auto simp: match_job_def bind_Some_iff Let_def split: if_splits option.splits)
  then show ?thesis
    using only_mhosts_set match_request_only only_mhosts_trans by metis
qed

lemma match_loop_only: "match_loop env is (s, la, out) = Some (s', la', out') \<Longrightarrow> only_mhosts s s'"
proof (induction "is" arbitrary: s la out)
  case (Cons i "is")
  then obtain s1 la1 out1 where "match_job env i (s, la, out) = Some (s1, la1, out1)"
      "match_loop env is (s1, la1, out1) = Some (s', la', out')"
    by (auto simp: bind_Some_iff)
  with Cons.IH match_job_only show ?case by (blast intro: only_mhosts_trans)
qed (simp add: only_mhosts_refl)

lemma matching_only: "gw_scheduler_matching_arrays env s = Some (s', out) \<Longrightarrow> only_mhosts s s'"
  by (auto simp: gw_scheduler_matching_arrays_def dest: match_loop_only)

lemma only_mhosts_le: "only_mhosts s s' \<Longrightarrow> sch_le s s'"
  by (simp add: only_mhosts_def sch_le_def)

lemma same_users_le: "same_users us us' \<Longrightarrow> list_all2 user_le us us'"
  unfolding same_users_def by (erule list_all2_mono) (simp add: user_le_same)

lemma policies_le:
  assumes ok: "sch_ok s" and i: "policies_in env s"
  shows "\<exists>s'. gw_scheduler_job_policies env s = Some s' \<and> sch_ok s' \<and> sch_le s s'
    \<and> distinct (map j_jid (s_jobs s')) = distinct (map j_jid (s_jobs s))"
proof -
  from job_policies_total [OF ok i] obtain us js where
    r: "gw_scheduler_job_policies env s = Some (s\<lparr>s_users := us, s_jobs := js\<rparr>)" "same_users (s_users s) us"
      "image_mset j_core (mset js) = image_mset j_core (mset (s_jobs s))"
    by blast
  have key: "job_key = (\<lambda>(ua, jid, aid, np, re, mh, f, t, d). (jid, f, t, d)) \<circ> j_core"
    by (auto simp: job_key_def j_core_def)
  have jid: "j_jid = fst \<circ> job_key" by (auto simp: job_key_def)
  have "image_mset job_key (mset js) = image_mset job_key (mset (s_jobs s))"
    unfolding key using r(3) by (simp flip: multiset.map_comp)
  moreover from this have "image_mset j_jid (mset js) = image_mset j_jid (mset (s_jobs s))"
    unfolding jid by (simp flip: multiset.map_comp)
  then have "distinct (map j_jid js) = distinct (map j_jid (s_jobs s))"
    by (metis mset_eq_imp_distinct_iff mset_map)
  moreover obtain s' where "gw_scheduler_job_policies env s = Some s'" "sch_ok s'"
    using job_policies_ok [OF ok i] by blast
  ultimately show ?thesis using r(1) same_users_le [OF r(2)] by (auto simp: sch_le_def)
qed

lemma age_windows_le:
  assumes "windows_ok c u" and "0 < sc_window_depth c"
  shows "user_le u (age_windows u)"
proof -
  obtain ws where ws0: "u_sub_windows u = Some ws" "int (length ws) = sc_window_depth c"
    using assms by (cases "u_sub_windows u") (auto simp: windows_ok_def)
  with assms(2) have ws: "u_sub_windows u = Some ws" "ws \<noteq> []" by auto
  then have "sum_list ws = sum_list (butlast ws) + last ws"
    using arg_cong [OF append_butlast_last_id [OF ws(2)], of sum_list]
    by (simp del: append_butlast_last_id)
  moreover have "0 \<le> last ws" "list_all (\<lambda>w. 0 \<le> w) (butlast ws)" if "list_all (\<lambda>w. 0 \<le> w) ws"
    using that ws(2) by (auto simp: list_all_iff dest: in_set_butlastD)
  ultimately show ?thesis
    using ws by (auto simp: user_le_def age_windows_def windows_pos_def quota_def)
qed

lemma update_windows_le:
  assumes "sch_ok s"
  shows "\<exists>s'. gw_scheduler_user_update_windows s = Some s' \<and> sch_ok s' \<and> sch_le s s'
    \<and> s_jobs s' = s_jobs s"
proof -
  have "list_all2 user_le (s_users s) (map age_windows (s_users s))"
    using sch_ok_windows [OF assms] assms age_windows_le
    by (auto simp: list_all2_conv_all_nth list_all_length sch_ok_def)
  with update_windows_ok [OF assms] update_windows_eq [OF assms] show ?thesis
    by (auto simp: sch_le_def)
qed

lemma update_usage_le:
  assumes "sch_ok s"
  shows "\<exists>s'. gw_scheduler_update_usage_host acct s = Some s' \<and> sch_ok s' \<and> sch_le s s'
    \<and> s_jobs s' = s_jobs s"
proof -
  have avg: "uh_last_banned (set_averages r uh) = uh_last_banned uh" for r uh
    by (auto simp: set_averages_def split: option.split prod.split)
  obtain s' where s': "gw_scheduler_update_usage_host acct s = Some s'" "sch_ok s'"
    using update_usage_ok [OF assms] by blast
  have "user_le u (u\<lparr>u_hosts := map f (take n (u_hosts u)) @ drop n (u_hosts u)\<rparr>)"
    if "\<And>uh. uh_last_banned (f uh) = uh_last_banned uh" for u f n
    using that by (simp add: user_le_def windows_pos_def quota_def comp_def flip: take_map drop_map)
  with s' show ?thesis
    by (auto simp: gw_scheduler_update_usage_host_def sch_le_def list_all2_map2 list_all2_same avg
      split: if_splits)
qed

section \<open>What the loop expects of a scheduler\<close>

locale scheduler_function =
  fixes sched :: "gw_scheduler \<Rightarrow> (gw_scheduler \<times> string list) option"
  assumes sched_safe: "\<lbrakk>sch_ok s; distinct (map j_jid (s_jobs s)); 0 \<le> sc_max_dispatch (s_conf s)\<rbrakk> \<Longrightarrow>
      \<exists>s' out. sched s = Some (s', out) \<and> sch_ok s' \<and> sch_le s s'"

interpretation default_scheduler: scheduler_function gw_sched
proof
  fix s assume "sch_ok s" "distinct (map j_jid (s_jobs s))" "0 \<le> sc_max_dispatch (s_conf s)"
  from gw_sched_spec [OF this] gw_sched_le
  show "\<exists>s' out. gw_sched s = Some (s', out) \<and> sch_ok s' \<and> sch_le s s'" by blast
qed

definition flood_function :: "sched_param \<Rightarrow> gw_scheduler \<Rightarrow> (gw_scheduler \<times> string list) option" where
  "flood_function p s = map_option (\<lambda>(s', p', out). (s', out)) (flood_scheduler s p)"

lemma flood_function_safe:
  assumes "sch_ok s" and "distinct (map j_jid (s_jobs s))"
  shows "\<exists>s' out. flood_function p s = Some (s', out) \<and> sch_ok s' \<and> sch_le s s'"
proof -
  have "flood_ok s" using assms by (simp add: flood_ok_def)
  from flood_rounds_spec [OF this] obtain s1 p1 out1 where
    1: "flood_rounds False (s, p\<lparr>p_dispached := 0\<rparr>, []) = Some (s1, p1, out1)" "flood_ok s1"
    by blast
  from flood_rounds_spec [OF 1(2)] obtain s2 p2 out2 where
    2: "flood_rounds True (s1, p1, out1) = Some (s2, p2, out2)" "flood_ok s2"
    by blast
  from 1 2 have "flood_scheduler s p = Some (s2, p2, out2)" by (simp add: flood_scheduler_def)
  with 2 flood_scheduler_le show ?thesis by (auto simp: flood_function_def flood_ok_def)
qed

interpretation flood: scheduler_function "flood_function default_param"
  using flood_function_safe by unfold_locales blast

end
