(* ===== verification/Sch_Loop.thy ===== *)
theory Sch_Loop
  imports Sch_Steps
begin

text \<open>
  The message loop of the scheduler, \<open>gw_scheduler_loop\<close> of
  \<open>src/scheduler/gw_scheduler_common.c\<close>: one step for each message of the daemon, as
  \<open>sch_read\<close> of \<open>Gw_Dm_Mad\<close> reads it, with the lines the scheduler prints.  The
  messages \<open>INIT\<close> and \<open>FINALIZE\<close>, which do not touch the state, are not in \<open>sch_msg\<close>.
  The scheduler function is an argument, as in the code; the client library's answer on
  the state of a job is \<open>e_status\<close>: its fixed priority, its number of processes, and the
  sum of its start time and its deadline.
\<close>

section \<open>The code\<close>

definition job_info :: "sch_env \<Rightarrow> int \<Rightarrow> int \<times> int \<times> int" where
  "job_info env jid = (case e_status env jid of Some r \<Rightarrow> r | None \<Rightarrow> (0, 1, 0))"

definition reset_dispatched :: "gw_scheduler \<Rightarrow> gw_scheduler" where
  "reset_dispatched s = s\<lparr>s_hosts := map (\<lambda>h. h\<lparr>h_dispatched := 0\<rparr>) (s_hosts s),
     s_users := map (\<lambda>u. u\<lparr>u_dispatched := 0\<rparr>) (s_users s)\<rparr>"

definition schedule_jobs ::
    "(gw_scheduler \<Rightarrow> (gw_scheduler \<times> string list) option) \<Rightarrow> sch_env \<Rightarrow> gw_scheduler \<Rightarrow>
     (gw_scheduler \<times> string list) option" where
  "schedule_jobs sched env s =
     (if s_hosts s \<noteq> [] \<and> s_users s \<noteq> [] \<and> s_jobs s \<noteq> [] then do {
        (s, out) \<leftarrow> gw_scheduler_matching_arrays env (reset_dispatched s);
        s \<leftarrow> (if sc_disable (s_conf s) = 0 then gw_scheduler_job_policies env s else Some s);
        (s, out') \<leftarrow> sched s;
        Some (s, out @ out')
      } else Some (s, []))"

text \<open>\<open>(time_t)(window_size * 86400)\<close>, a \<open>float\<close> product.\<close>

definition window_seconds :: "gw_sch_conf \<Rightarrow> int option" where
  "window_seconds c = f_trunc 64 (fmul binary32 (sc_window_size c) (Fin 86400))"

definition user_windows :: "int \<Rightarrow> gw_scheduler \<Rightarrow> gw_scheduler option" where
  "user_windows now s =
     (if now > s_next_user_window s then do {
        d \<leftarrow> window_seconds (s_conf s);
        gw_scheduler_user_update_windows (s\<lparr>s_next_user_window := now + d\<rparr>)
      } else Some s)"

text \<open>Only when the data base is compiled in, \<open>HAVE_LIBDB\<close>.\<close>

definition host_windows :: "bool \<Rightarrow> acct \<Rightarrow> int \<Rightarrow> gw_scheduler \<Rightarrow> gw_scheduler option" where
  "host_windows libdb acct now s =
     (if libdb \<and> now > s_next_host_window s
      then gw_scheduler_update_usage_host acct (s\<lparr>s_next_host_window := now + 86400\<rparr>)
      else Some s)"

definition schedule_end :: string where
  "schedule_end = ''SCHEDULE_END - SUCCESS -'' @ [CHR 0x0A]"

text \<open>\<open>atof\<close> of a whole number, stored in a \<open>float\<close>.\<close>

definition atof_float :: "int \<Rightarrow> flt" where
  "atof_float i = f_conv binary32 (f_of_int binary64 i)"

fun sch_step ::
    "bool \<Rightarrow> (gw_scheduler \<Rightarrow> (gw_scheduler \<times> string list) option) \<Rightarrow> sch_env \<Rightarrow> gw_scheduler \<Rightarrow>
     sch_msg \<Rightarrow> (gw_scheduler \<times> string list) option" where
  "sch_step libdb sched env s (HOST_MONITOR hid uslots rjobs name) =
     map_option (\<lambda>s. (s, [])) (gw_scheduler_add_host (e_acct env) s hid uslots rjobs name)"
| "sch_step libdb sched env s (USER_ADD uid ajobs rjobs name) =
     Some (gw_scheduler_add_user (e_acct env) s uid ajobs rjobs name, [])"
| "sch_step libdb sched env s (USER_DEL uid) = map_option (\<lambda>s. (s, [])) (gw_scheduler_del_user s uid)"
| "sch_step libdb sched env s (JOB_DEL jid) = map_option (\<lambda>s. (s, [])) (gw_scheduler_job_del s jid 0)"
| "sch_step libdb sched env s (JOB_FAILED hid uid reason) =
     map_option (\<lambda>s. (s, [])) (gw_scheduler_job_failed (e_exp env) (e_now env) s hid uid reason)"
| "sch_step libdb sched env s (JOB_SUCCESS hid uid txfr tsus texe) =
     map_option (\<lambda>s. (s, []))
       (gw_scheduler_job_success s hid uid (atof_float txfr) (atof_float tsus) (atof_float texe))"
| "sch_step libdb sched env s (JOB_SCHEDULE jid aid uid reason) =
     (case job_info env jid of (fixed, np, deadline) \<Rightarrow>
       Some (gw_scheduler_job_add (e_now env) s jid aid np reason fixed uid deadline, []))"
| "sch_step libdb sched env s SCHEDULE = do {
     (s, out) \<leftarrow> schedule_jobs sched env s;
     s \<leftarrow> user_windows (e_now env) s;
     s \<leftarrow> host_windows libdb (e_acct env) (e_now env) s;
     Some (s, out @ [schedule_end])
   }"

fun sch_run ::
    "bool \<Rightarrow> (gw_scheduler \<Rightarrow> (gw_scheduler \<times> string list) option) \<Rightarrow> gw_scheduler \<Rightarrow>
     (sch_env \<times> sch_msg) list \<Rightarrow> (gw_scheduler \<times> string list) option" where
  "sch_run libdb sched s [] = Some (s, [])"
| "sch_run libdb sched s ((env, m) # es) = do {
     (s, out) \<leftarrow> sch_step libdb sched env s m;
     (s, out') \<leftarrow> sch_run libdb sched s es;
     Some (s, out @ out')
   }"

text \<open>The state the loop begins with; \<open>c\<close> is what \<open>gw_sch_loadconf\<close> left in \<open>sch_conf\<close>.\<close>

definition sch_start :: "int \<Rightarrow> gw_sch_conf \<Rightarrow> gw_scheduler \<Rightarrow> gw_scheduler option" where
  "sch_start now c s = map_option (\<lambda>d. (gw_scheduler_init s)
      \<lparr>s_conf := c, s_next_user_window := now + d, s_next_host_window := now + 86400\<rparr>) (window_seconds c)"

section \<open>The invariant of the loop\<close>

definition conf_in :: "gw_sch_conf \<Rightarrow> bool" where
  "conf_in c \<longleftrightarrow> policy_conf c \<and> ban_conf c \<and> 0 < sc_window_depth c \<and> sc_window_depth c < 2 ^ 31
     \<and> 0 \<le> sc_max_dispatch c \<and> window_seconds c \<noteq> None"

definition key_in :: "int \<Rightarrow> int \<times> int \<times> int \<times> int \<Rightarrow> bool" where
  "key_in t k \<longleftrightarrow> (case k of (jid, fixed, st, dl) \<Rightarrow>
     0 \<le> fixed \<and> small_int fixed \<and> 0 \<le> st \<and> st \<le> t \<and> 0 \<le> dl \<and> dl < 2 ^ 52)"

text \<open>\<open>t\<close> is the time of the last message, \<open>n\<close> a bound of the jobs seen so far.\<close>

definition run_ok :: "int \<Rightarrow> int \<Rightarrow> gw_scheduler \<Rightarrow> bool" where
  "run_ok t n s \<longleftrightarrow> sch_ok s \<and> times_ok s \<and> distinct (map j_jid (s_jobs s)) \<and> conf_in (s_conf s)
     \<and> list_all (\<lambda>u. windows_pos u \<and> quota u \<le> n) (s_users s)
     \<and> list_all (\<lambda>j. key_in t (job_key j)) (s_jobs s)"

definition env_in :: "sch_env \<Rightarrow> bool" where
  "env_in env \<longleftrightarrow> env_ok env \<and> exp_ok (e_exp env) \<and> qsort_sorts (e_qsort_jobs env)
     \<and> 0 \<le> e_now env \<and> e_now env < 2 ^ 31
     \<and> (\<forall>jid. case job_info env jid of (f, np, d) \<Rightarrow> 0 \<le> f \<and> small_int f \<and> 0 \<le> d \<and> d < 2 ^ 52)"

text \<open>
  A user goes when it has no jobs and no user after it has (see
  \<open>user_del_breaks_jobs\<close> for the others); a job is scheduled when it is not in the list.
\<close>

definition msg_in :: "gw_scheduler \<Rightarrow> sch_msg \<Rightarrow> bool" where
  "msg_in s m \<longleftrightarrow> (case m of
       USER_DEL uid \<Rightarrow> (case find_index (\<lambda>u. u_uid u = uid) (s_users s) of
           None \<Rightarrow> False | Some i \<Rightarrow> list_all (\<lambda>j. j_ua_id j < int i) (s_jobs s))
     | JOB_SCHEDULE jid aid uid reason \<Rightarrow> list_all (\<lambda>j. j_jid j \<noteq> jid) (s_jobs s)
     | _ \<Rightarrow> True)"

lemma run_okD:
  assumes "run_ok t n s"
  shows "sch_ok s" "times_ok s" "distinct (map j_jid (s_jobs s))" "conf_in (s_conf s)"
    "0 \<le> sc_max_dispatch (s_conf s)" "ban_conf (s_conf s)" "policy_conf (s_conf s)"
  using assms by (auto simp: run_ok_def conf_in_def)

lemma key_in_later: "key_in t k \<Longrightarrow> t \<le> t' \<Longrightarrow> key_in t' k"
  by (auto simp: key_in_def)

lemma run_ok_later: "run_ok t n s \<Longrightarrow> t \<le> t' \<Longrightarrow> n \<le> n' \<Longrightarrow> run_ok t' n' s"
  unfolding run_ok_def list_all_iff using key_in_later by fastforce

lemma times_ok_eq: "times_ok s = list_all (\<lambda>bs. list_all time_ok bs) (map (\<lambda>u. map uh_last_banned (u_hosts u)) (s_users s))"
  by (simp add: times_ok_def list_all_iff)

lemma distinct_mset_subset:
  assumes "mset xs \<subseteq># mset ys" and "distinct ys"
  shows "distinct xs"
proof -
  obtain zs where "mset ys = mset (xs @ zs)"
    using assms(1) by (metis ex_mset mset_append subset_mset.add_diff_inverse)
  with assms(2) show ?thesis by (metis distinct_append mset_eq_imp_distinct_iff)
qed

lemma run_ok_le:
  assumes r: "run_ok t n s" and le: "sch_le s s'" and ok: "sch_ok s'"
  shows "run_ok t n s'"
proof -
  from le have u: "list_all2 user_le (s_users s) (s_users s')"
    and j: "mset (map job_key (s_jobs s')) \<subseteq># mset (map job_key (s_jobs s))"
    and c: "s_conf s' = s_conf s"
    by (auto simp: sch_le_def)
  have jid: "map j_jid js = map fst (map job_key js)" for js by (auto simp: job_key_def)
  have "image_mset fst (mset (map job_key (s_jobs s'))) \<subseteq># image_mset fst (mset (map job_key (s_jobs s)))"
    using j by (rule image_mset_subseteq_mono)
  then have "mset (map j_jid (s_jobs s')) \<subseteq># mset (map j_jid (s_jobs s))"
    unfolding jid by (simp only: mset_map)
  then have "distinct (map j_jid (s_jobs s'))"
    using run_okD(3) [OF r] by (rule distinct_mset_subset)
  moreover have "list_all (\<lambda>j. key_in t (job_key j)) (s_jobs s')"
  proof -
    have "set (map job_key (s_jobs s')) \<subseteq> set (map job_key (s_jobs s))"
      using set_mset_mono [OF j] by simp
    then have "\<exists>k \<in> set (s_jobs s). job_key k = job_key x" if "x \<in> set (s_jobs s')" for x
      using that by auto (metis (no_types, opaque_lifting) image_iff subsetD)
    then show ?thesis
      using r unfolding run_ok_def list_all_iff by metis
  qed
  moreover have "map (\<lambda>u. map uh_last_banned (u_hosts u)) (s_users s')
      = map (\<lambda>u. map uh_last_banned (u_hosts u)) (s_users s)"
    using u by (auto simp: list_all2_conv_all_nth user_le_def intro!: nth_equalityI)
  then have "times_ok s'" using r by (simp add: times_ok_eq run_ok_def)
  moreover have "list_all (\<lambda>u. windows_pos u \<and> quota u \<le> n) (s_users s')"
    using r u by (fastforce simp: run_ok_def list_all_length list_all2_conv_all_nth user_le_def)
  ultimately show ?thesis using r ok c by (simp add: run_ok_def)
qed
section \<open>Every message keeps the invariant\<close>

lemma windows_conf: "conf_in c \<Longrightarrow> \<exists>d. window_seconds c = Some d"
  by (auto simp: conf_in_def)

lemma sch_ok_timers: "sch_ok (s\<lparr>s_next_user_window := a\<rparr>) = sch_ok s" "sch_ok (s\<lparr>s_next_host_window := a\<rparr>) = sch_ok s"
  by (simp_all add: sch_ok_def)

lemma sch_le_timers: "sch_le (s\<lparr>s_next_user_window := a\<rparr>) s' = sch_le s s'"
  "sch_le (s\<lparr>s_next_host_window := a\<rparr>) s' = sch_le s s'"
  by (simp_all add: sch_le_def)

lemma user_windows_le:
  assumes "sch_ok s" and "conf_in (s_conf s)"
  shows "\<exists>s'. user_windows now s = Some s' \<and> sch_ok s' \<and> sch_le s s'"
proof (cases "now > s_next_user_window s")
  case True
  obtain d where "window_seconds (s_conf s) = Some d" using windows_conf [OF assms(2)] by blast
  with True update_windows_le [of "s\<lparr>s_next_user_window := now + d\<rparr>"] assms(1) show ?thesis
    by (auto simp: user_windows_def sch_ok_timers sch_le_timers)
qed (use assms sch_le_refl in \<open>auto simp: user_windows_def\<close>)

lemma host_windows_le:
  assumes "sch_ok s"
  shows "\<exists>s'. host_windows libdb acct now s = Some s' \<and> sch_ok s' \<and> sch_le s s'"
  using update_usage_le [of "s\<lparr>s_next_host_window := now + 86400\<rparr>" acct] assms sch_le_refl
  by (auto simp: host_windows_def sch_ok_timers sch_le_timers)

lemma reset_dispatched_ok:
  assumes "sch_ok s"
  shows "sch_ok (reset_dispatched s)" and "sch_le s (reset_dispatched s)"
proof -
  have "user_ok c (map (\<lambda>h. h\<lparr>h_dispatched := 0\<rparr>) hs) (u\<lparr>u_dispatched := 0\<rparr>) = user_ok c hs u" for c hs u
    by (simp add: user_ok_def windows_ok_def comp_def)
  with assms show "sch_ok (reset_dispatched s)"
    by (simp add: sch_ok_def reset_dispatched_def list_all_iff totals_ok_def comp_def)
  show "sch_le s (reset_dispatched s)"
    by (simp add: sch_le_def reset_dispatched_def list_all2_map2 list_all2_same user_le_same)
qed

text \<open>What the invariant gives the policies.\<close>

lemma run_ok_policies:
  assumes r: "run_ok t n s" and e: "env_in env" and t: "t \<le> e_now env" and n: "n < 2 ^ 31"
  shows "policies_in env s"
proof -
  have "job_in env j" if "j \<in> set (s_jobs s)" for j
  proof -
    from r that have "key_in t (job_key j)" by (auto simp: run_ok_def list_all_iff)
    with e t show ?thesis by (auto simp: key_in_def job_key_def job_in_def env_in_def)
  qed
  moreover have "user_in u" if "u \<in> set (s_users s)" for u
  proof -
    from that obtain k where k: "k < length (s_users s)" "u = s_users s ! k" by (auto simp: in_set_conv_nth)
    have "0 \<le> u_total_jobs u"
      using totals_nth [of "s_users s" "s_jobs s" k] r k by (simp add: run_ok_def sch_ok_def)
    moreover have "windows_pos u" "quota u \<le> n" using r that by (auto simp: run_ok_def list_all_iff)
    ultimately show ?thesis
      using n by (auto simp: user_in_def windows_pos_def quota_def split: option.splits)
  qed
  ultimately show ?thesis
    using r e by (auto simp: policies_in_def run_ok_def conf_in_def env_in_def env_ok_def list_all_iff)
qed

lemma run_ok_users:
  assumes r: "run_ok t n s" and ok: "sch_ok s'" and c: "s_conf s' = s_conf s" and j: "s_jobs s' = s_jobs s"
    and u: "list_all (\<lambda>u. windows_pos u \<and> quota u \<le> n \<and> list_all (\<lambda>th. time_ok (uh_last_banned th)) (u_hosts u)) (s_users s')"
  shows "run_ok t n s'"
  using r ok c j u by (auto simp: run_ok_def times_ok_def list_all_iff)

lemma run_ok_user:
  "run_ok t n s \<Longrightarrow> u \<in> set (s_users s) \<Longrightarrow>
   windows_pos u \<and> quota u \<le> n \<and> list_all (\<lambda>th. time_ok (uh_last_banned th)) (u_hosts u)"
  by (auto simp: run_ok_def times_ok_def list_all_iff)

lemma new_user_host_time: "time_ok (uh_last_banned (new_user_host ha hid r))"
  by (auto simp: new_user_host_def set_averages_def time_ok_def split: option.split prod.split)

lemma add_host_run:
  assumes r: "run_ok t n s"
  shows "\<exists>s'. gw_scheduler_add_host acct s hid uslots rjobs name = Some s' \<and> run_ok t n s'"
proof -
  obtain s' where s': "gw_scheduler_add_host acct s hid uslots rjobs name = Some s'" "sch_ok s'"
    using add_host_ok [OF run_okD(1) [OF r]] by blast
  have same: "windows_pos (u\<lparr>u_hosts := hs\<rparr>) = windows_pos u" "quota (u\<lparr>u_hosts := hs\<rparr>) = quota u" for u hs
    by (simp_all add: windows_pos_def quota_def)
  from s'(1) have "s_conf s' = s_conf s \<and> s_jobs s' = s_jobs s \<and> list_all (\<lambda>u. windows_pos u \<and> quota u \<le> n
      \<and> list_all (\<lambda>th. time_ok (uh_last_banned th)) (u_hosts u)) (s_users s')"
    using run_ok_user [OF r]
    by (auto simp: gw_scheduler_add_host_def Let_def list_all_iff same new_user_host_time
        dest!: in_set_takeD split: option.splits if_splits)
  with s' run_ok_users [OF r] show ?thesis by blast
qed

lemma add_user_run:
  assumes r: "run_ok t n s" and n: "0 \<le> n"
  shows "run_ok t n (gw_scheduler_add_user acct s uid ajobs rjobs name)"
proof (rule run_ok_users [OF r add_user_ok [OF run_okD(1) [OF r]]])
  have same: "windows_pos (u\<lparr>u_active_jobs := a, u_running_jobs := b\<rparr>) = windows_pos u"
      "quota (u\<lparr>u_active_jobs := a, u_running_jobs := b\<rparr>) = quota u" for u a b
    by (simp_all add: windows_pos_def quota_def)
  show "list_all (\<lambda>u. windows_pos u \<and> quota u \<le> n \<and> list_all (\<lambda>th. time_ok (uh_last_banned th)) (u_hosts u))
      (s_users (gw_scheduler_add_user acct s uid ajobs rjobs name))"
  proof (cases "find_index (\<lambda>u. u_uid u = uid) (s_users s)")
    case None
    with run_ok_user [OF r] n show ?thesis
      by (auto simp: gw_scheduler_add_user_def Let_def list_all_iff windows_pos_def quota_def
          new_user_host_time sum_list_replicate)
  next
    case (Some k)
    then have "k < length (s_users s)" by (rule find_index_nth)
    then have "s_users s ! k \<in> set (s_users s)" by simp
    from run_ok_user [OF r this] run_ok_user [OF r] Some show ?thesis
      by (auto simp: gw_scheduler_add_user_def list_all_iff same dest!: set_update_subset_insert [THEN subsetD])
  qed
qed (auto simp: gw_scheduler_add_user_def Let_def split: option.split)

lemma del_user_run:
  assumes r: "run_ok t n s" and m: "msg_in s (USER_DEL uid)"
  shows "\<exists>s'. gw_scheduler_del_user s uid = Some s' \<and> run_ok t n s'"
proof -
  from m obtain i where i: "find_index (\<lambda>u. u_uid u = uid) (s_users s) = Some i"
      "list_all (\<lambda>j. j_ua_id j < int i) (s_jobs s)"
    by (auto simp: msg_in_def split: option.splits)
  obtain s' where s': "gw_scheduler_del_user s uid = Some s'" "sch_ok s'"
    using del_user_ok [OF run_okD(1) [OF r] i] by blast
  from s'(1) have "s_conf s' = s_conf s \<and> s_jobs s' = s_jobs s \<and> set (s_users s') \<subseteq> set (s_users s)"
    by (auto simp: gw_scheduler_del_user_def split: if_splits option.splits
        dest: in_set_takeD in_set_dropD in_set_butlastD)
  with s' run_ok_users [OF r s'(2)] run_ok_user [OF r] show ?thesis
    by (auto simp: list_all_iff)
qed
lemma on_user_host_frame:
  "on_user_host f s hid uid = Some s' \<Longrightarrow> s_conf s' = s_conf s \<and> s_jobs s' = s_jobs s
    \<and> map u_sub_windows (s_users s') = map u_sub_windows (s_users s)
    \<and> map u_total_jobs (s_users s') = map u_total_jobs (s_users s)"
  by (auto simp: on_user_host_def Let_def bind_Some_iff distinct_map_update
      split: option.splits if_splits)

lemma on_user_host_run:
  assumes r: "run_ok t n s" and f: "on_user_host f s hid uid = Some s'" and ok: "sch_ok s'" "times_ok s'"
  shows "run_ok t n s'"
proof -
  note fr = on_user_host_frame [OF f]
  have len: "length (s_users s') = length (s_users s)" using fr by (metis length_map)
  have "windows_pos (s_users s' ! k) \<and> quota (s_users s' ! k) \<le> n" if k: "k < length (s_users s)" for k
  proof -
    have "u_sub_windows (s_users s' ! k) = u_sub_windows (s_users s ! k)"
        "u_total_jobs (s_users s' ! k) = u_total_jobs (s_users s ! k)"
      using fr k by (auto dest: map_eq_nth)
    with run_ok_user [OF r nth_mem [OF k]] show ?thesis by (simp add: windows_pos_def quota_def)
  qed
  then have "list_all (\<lambda>u. windows_pos u \<and> quota u \<le> n) (s_users s')"
    by (simp add: list_all_length len)
  with r ok fr show ?thesis by (simp add: run_ok_def)
qed

lemma job_failed_run:
  assumes r: "run_ok t n s" and e: "exp_ok expd" and now: "time_ok now"
  shows "\<exists>s'. gw_scheduler_job_failed expd now s hid uid re = Some s' \<and> run_ok t n s'"
proof -
  obtain s' where s': "gw_scheduler_job_failed expd now s hid uid re = Some s'" "sch_ok s'" "times_ok s'"
    using job_failed_ok [OF run_okD(1,2,6) [OF r] e now] by blast
  then have "s' = s \<or> on_user_host (ban_host expd (s_conf s) now) s hid uid = Some s'"
    by (auto simp: gw_scheduler_job_failed_def split: if_splits)
  with s' r on_user_host_run [OF r] show ?thesis by blast
qed

lemma on_user_host_times:
  assumes t: "times_ok s" and f: "\<And>th th'. f th = Some th' \<Longrightarrow> time_ok (uh_last_banned th')"
    and s': "on_user_host f s hid uid = Some s'"
  shows "times_ok s'"
  using s' t f
  by (auto simp: on_user_host_def Let_def bind_Some_iff times_ok_def list_all_iff
      split: option.splits if_splits dest!: set_update_subset_insert [THEN subsetD]
        find_index_nth(1) [THEN nth_mem])

lemma job_success_run:
  assumes r: "run_ok t n s"
  shows "\<exists>s'. gw_scheduler_job_success s hid uid a b c = Some s' \<and> run_ok t n s'"
proof -
  obtain s' where s': "gw_scheduler_job_success s hid uid a b c = Some s'" "sch_ok s'"
    using job_success_ok [OF run_okD(1) [OF r]] by blast
  moreover have "times_ok s'"
    using s'(1) unfolding gw_scheduler_job_success_def
    by (rule on_user_host_times [OF run_okD(2) [OF r], rotated]) (auto simp: time_ok_def)
  ultimately show ?thesis using on_user_host_run [OF r] by (auto simp: gw_scheduler_job_success_def)
qed

lemma job_add_run:
  assumes r: "run_ok t n s" and m: "msg_in s (JOB_SCHEDULE jid aid uid re)"
    and k: "key_in now (jid, fixed, now, dl)" and t: "t \<le> now"
  shows "run_ok now (n + 1) (gw_scheduler_job_add now s jid aid np re fixed uid dl)"
proof -
  let ?s = "gw_scheduler_job_add now s jid aid np re fixed uid dl"
  have ok: "sch_ok ?s" using job_add_ok [OF run_okD(1) [OF r]] .
  have r': "run_ok now (n + 1) s" using run_ok_later [OF r t] by simp
  show ?thesis
  proof (cases "find_index (\<lambda>u. u_uid u = uid) (s_users s)")
    case None
    then have "?s = s" by (simp add: gw_scheduler_job_add_def)
    then show ?thesis using r' by simp
  next
    case (Some i)
    let ?u = "(s_users s ! i)\<lparr>u_total_jobs := u_total_jobs (s_users s ! i) + 1\<rparr>"
    from Some have i: "i < length (s_users s)" by (rule find_index_nth)
    have users: "s_users ?s = (s_users s)[i := ?u]" and conf: "s_conf ?s = s_conf s"
      and jobs: "map job_key (s_jobs ?s) = map job_key (s_jobs s) @ [(jid, fixed, now, dl)]"
        "map j_jid (s_jobs ?s) = map j_jid (s_jobs s) @ [jid]"
      using Some by (simp_all add: gw_scheduler_job_add_def job_key_def)
    note u0 = run_ok_user [OF r nth_mem [OF i]]
    then have u: "windows_pos ?u" "quota ?u \<le> n + 1"
      "list_all (\<lambda>th. time_ok (uh_last_banned th)) (u_hosts ?u)"
      by (auto simp: windows_pos_def quota_def)
    have "list_all (\<lambda>u. windows_pos u \<and> quota u \<le> n + 1) (s_users ?s)" "times_ok ?s"
      unfolding users times_ok_def using run_ok_user [OF r'] u
      by (auto simp: list_all_iff dest!: set_update_subset_insert [THEN subsetD])
    moreover have "distinct (map j_jid (s_jobs ?s))"
      unfolding jobs using m run_okD(3) [OF r] by (auto simp: msg_in_def list_all_iff)
    moreover have "list_all (key_in now) (map job_key (s_jobs ?s))"
      unfolding jobs using k r' by (simp add: run_ok_def list_all_iff)
    ultimately show ?thesis
      using ok r conf by (simp add: run_ok_def list_all_iff)
  qed
qed

lemma env_in_info:
  "env_in env \<Longrightarrow> job_info env jid = (f, np, d) \<Longrightarrow> 0 \<le> f \<and> small_int f \<and> 0 \<le> d \<and> d < 2 ^ 52"
  by (auto simp: env_in_def dest: spec [where x = jid])

section \<open>A scheduling action\<close>

context scheduler_function
begin

lemma schedule_jobs_run:
  assumes r: "run_ok t n s" and e: "env_in env" and t: "t \<le> e_now env" and n: "n < 2 ^ 31"
  shows "\<exists>s' out. schedule_jobs sched env s = Some (s', out) \<and> run_ok t n s'"
proof (cases "s_hosts s \<noteq> [] \<and> s_users s \<noteq> [] \<and> s_jobs s \<noteq> []")
  case True
  note ok = run_okD(1) [OF r]
  have env: "env_ok env" using e by (simp add: env_in_def)
  let ?s0 = "reset_dispatched s"
  have r0: "run_ok t n ?s0" using reset_dispatched_ok [OF ok] run_ok_le [OF r] by blast
  obtain s1 out1 where 1: "gw_scheduler_matching_arrays env ?s0 = Some (s1, out1)" "sch_ok s1"
    using matching_ok [OF run_okD(1) [OF r0] env] by blast
  have r1: "run_ok t n s1" using run_ok_le [OF r0 only_mhosts_le [OF matching_only [OF 1(1)]] 1(2)] .
  have "\<exists>s2. (if sc_disable (s_conf s1) = 0 then gw_scheduler_job_policies env s1 else Some s1) = Some s2
      \<and> run_ok t n s2"
  proof (cases "sc_disable (s_conf s1) = 0")
    case True
    obtain s2 where "gw_scheduler_job_policies env s1 = Some s2" "sch_ok s2" "sch_le s1 s2"
      using policies_le [OF 1(2) run_ok_policies [OF r1 e t n]] by blast
    with True run_ok_le [OF r1] show ?thesis by auto
  qed (use r1 in simp)
  then obtain s2 where 2: "(if sc_disable (s_conf s1) = 0 then gw_scheduler_job_policies env s1 else Some s1) = Some s2"
      "run_ok t n s2" by blast
  obtain s3 out3 where "sched s2 = Some (s3, out3)" "sch_ok s3" "sch_le s2 s3"
    using sched_safe run_okD(1,3,5) [OF 2(2)] by blast
  with True 1(1) 2 run_ok_le [OF 2(2)] show ?thesis by (auto simp: schedule_jobs_def)
qed (use r in \<open>auto simp: schedule_jobs_def\<close>)

lemma schedule_run:
  assumes r: "run_ok t n s" and e: "env_in env" and t: "t \<le> e_now env" and n: "n < 2 ^ 31"
  shows "\<exists>s' out. sch_step libdb sched env s SCHEDULE = Some (s', out @ [schedule_end]) \<and> run_ok t n s'"
proof -
  obtain s1 out where 1: "schedule_jobs sched env s = Some (s1, out)" "run_ok t n s1"
    using schedule_jobs_run [OF assms] by blast
  obtain s2 where 2: "user_windows (e_now env) s1 = Some s2" "sch_ok s2" "sch_le s1 s2"
    using user_windows_le [OF run_okD(1,4) [OF 1(2)]] by blast
  have r2: "run_ok t n s2" using run_ok_le [OF 1(2) 2(3,2)] .
  obtain s3 where 3: "host_windows libdb (e_acct env) (e_now env) s2 = Some s3" "sch_ok s3" "sch_le s2 s3"
    using host_windows_le [OF 2(2)] by blast
  have "run_ok t n s3" using run_ok_le [OF r2 3(3,2)] .
  with 1(1) 2(1) 3(1) show ?thesis by simp
qed

lemma step_run:
  assumes r: "run_ok t n s" and e: "env_in env" and t: "t \<le> e_now env" and n: "0 \<le> n" "n + 1 < 2 ^ 31"
    and m: "msg_in s m"
  shows "\<exists>s' out. sch_step libdb sched env s m = Some (s', out) \<and> run_ok (e_now env) (n + 1) s'"
proof -
  have now: "time_ok (e_now env)" and ex: "exp_ok (e_exp env)" using e by (auto simp: env_in_def time_ok_def)
  have up: "run_ok t n s' \<Longrightarrow> run_ok (e_now env) (n + 1) s'" for s'
    using run_ok_later t by simp
  show ?thesis
  proof (cases m)
    case SCHEDULE
    with schedule_run [OF r e t] n up show ?thesis by (metis add_strict_increasing2 less_add_one linorder_not_le order_less_trans zero_less_one)
  next
    case (HOST_MONITOR hid us rj name)
    with add_host_run [OF r] up show ?thesis by fastforce
  next
    case (USER_ADD uid a b name)
    with add_user_run [OF r n(1)] up show ?thesis by simp
  next
    case (USER_DEL uid)
    with del_user_run [OF r] m up show ?thesis by fastforce
  next
    case (JOB_DEL jid)
    obtain s' where "gw_scheduler_job_del s jid 0 = Some s'" "sch_ok s'"
      using job_del_ok [OF run_okD(1) [OF r]] by blast
    with JOB_DEL run_ok_le [OF r job_del_le] up show ?thesis by simp
  next
    case (JOB_FAILED hid uid re)
    with job_failed_run [OF r ex now] up show ?thesis by fastforce
  next
    case (JOB_SUCCESS hid uid a b c)
    with job_success_run [OF r] up show ?thesis by fastforce
  next
    case (JOB_SCHEDULE jid aid uid re)
    obtain f np d where i: "job_info env jid = (f, np, d)" by (cases "job_info env jid")
    with env_in_info [OF e i] e have "key_in (e_now env) (jid, f, e_now env, d)"
      by (simp add: key_in_def env_in_def)
    from job_add_run [OF r m [unfolded JOB_SCHEDULE] this t] JOB_SCHEDULE i show ?thesis by simp
  qed
qed

end
section \<open>Runs\<close>

text \<open>The messages of a run, each with the environment and time it is handled in.\<close>

fun events_in ::
    "bool \<Rightarrow> (gw_scheduler \<Rightarrow> (gw_scheduler \<times> string list) option) \<Rightarrow> int \<Rightarrow> gw_scheduler \<Rightarrow>
     (sch_env \<times> sch_msg) list \<Rightarrow> bool" where
  "events_in libdb sched t s [] = True"
| "events_in libdb sched t s ((env, m) # es) \<longleftrightarrow> env_in env \<and> t \<le> e_now env \<and> msg_in s m
     \<and> (case sch_step libdb sched env s m of
          None \<Rightarrow> True | Some (s', out) \<Rightarrow> events_in libdb sched (e_now env) s' es)"

lemma start_run:
  assumes "conf_in c"
  shows "\<exists>s'. sch_start now c s = Some s' \<and> run_ok now 0 s'"
proof -
  obtain d where "window_seconds c = Some d" using windows_conf [OF assms] by blast
  with assms show ?thesis
    by (auto simp: sch_start_def run_ok_def gw_scheduler_init_def sch_ok_def totals_ok_def times_ok_def conf_in_def)
qed

context scheduler_function
begin

lemma run_safe:
  assumes "run_ok t n s" and "0 \<le> n" and "n + int (length es) < 2 ^ 31"
    and "events_in libdb sched t s es"
  shows "\<exists>t' s' out. sch_run libdb sched s es = Some (s', out) \<and> run_ok t' (n + int (length es)) s'"
  using assms
proof (induction es arbitrary: t n s)
  case (Cons em es)
  obtain env m where em: "em = (env, m)" by (cases em)
  with Cons.prems obtain s1 out1 where 1: "sch_step libdb sched env s m = Some (s1, out1)"
      "run_ok (e_now env) (n + 1) s1"
    using step_run [OF Cons.prems(1), of env m libdb] by auto
  with Cons.prems em have "events_in libdb sched (e_now env) s1 es" "n + 1 + int (length es) < 2 ^ 31" "0 \<le> n + 1"
    by auto
  from Cons.IH [OF 1(2) this(3,2,1)] 1(1) show ?case
    by (auto simp: em algebra_simps)
qed auto

lemma start_safe:
  assumes "conf_in c" and "sch_start now c s = Some s0" and "int (length es) < 2 ^ 31"
    and "events_in libdb sched now s0 es"
  shows "\<exists>s' out. sch_run libdb sched s0 es = Some (s', out) \<and> sch_ok s'
    \<and> distinct (map j_jid (s_jobs s'))
    \<and> list_all (\<lambda>u. quota u \<le> int (length es)) (s_users s')"
proof -
  from start_run [OF assms(1), of now s] assms(2) have "run_ok now 0 s0" by simp
  from run_safe [OF this _ _ assms(4)] assms(3) show ?thesis
    by (auto simp: run_ok_def list_all_iff)
qed

end

section \<open>Properties\<close>

text \<open>C2 (invariant).
  The scheduler never leaves its arrays and never divides by zero, whatever messages it
  gets (fewer than 2^31, time going forward, the configuration and the environment in
  range): the tables of users, hosts and jobs stay consistent over every run from the
  start, no job is listed twice, and no user is charged for more jobs than there were
  messages.  The messages must only name a job once at a time, and delete a user when
  neither it nor a user after it has jobs.\<close>

theorem scheduler_run_safe:
  assumes "conf_in c" and "sch_start now c s = Some s0" and "int (length es) < 2 ^ 31"
    and "events_in libdb gw_sched now s0 es"
  shows "\<exists>s' out. sch_run libdb gw_sched s0 es = Some (s', out) \<and> sch_ok s'
    \<and> distinct (map j_jid (s_jobs s'))
    \<and> list_all (\<lambda>u. quota u \<le> int (length es)) (s_users s')"
  using assms by (rule default_scheduler.start_safe)

text \<open>A start, a host, a user, and a job to be scheduled on it.\<close>

definition sample_conf :: gw_sch_conf where
  "sample_conf = (gw_sch_conf_init undefined)\<lparr>sc_dl_half := 1\<rparr>"

definition sample_run_env :: sch_env where
  "sample_run_env = sample_env\<lparr>e_status := (\<lambda>jid. Some (5, 1, 0))\<rparr>"

definition sample_events :: "(sch_env \<times> sch_msg) list" where
  "sample_events = map (Pair sample_run_env)
     [HOST_MONITOR 3 0 0 ''node'', USER_ADD 7 1 0 ''ann'', JOB_SCHEDULE 12 (- 1) 7 GW_REASON_NONE]"

lemma sample_conf_in: "conf_in sample_conf"
proof -
  have "fmul binary32 (Fin 1) (Fin 86400) = fmul binary32 (Fin 86400) (Fin 1)"
    by (simp add: fmul_finite f_neg_def)
  moreover have "f_finite (fmul binary32 (Fin 86400) (Fin 1)) \<and> \<bar>f_val (fmul binary32 (Fin 86400) (Fin 1))\<bar> \<le> 2 powi 17"
    by (rule fmul_bounded) (simp_all add: f_norm_def f_val_def power_int_def)
  ultimately have "f_trunc 64 (fmul binary32 (Fin 1) (Fin 86400)) \<noteq> None"
    by (auto simp: f_trunc_def Let_def power_int_def abs_le_iff ceiling_less_iff floor_less_iff le_floor_iff)
  then show ?thesis
    by (simp add: conf_in_def sample_conf_def gw_sch_conf_init_def policy_conf_def ban_conf_def
        window_seconds_def f_weight_def small_int_def gw_sch_get_user_share_def)
qed

lemma sample_run_env_in: "env_in sample_run_env"
  by (auto simp: env_in_def env_ok_def sample_run_env_def sample_env_def reply_ok_def qsort_sort_by
      exp_ok_zero job_info_def small_int_def)
lemma sample_start: "\<exists>s0. sch_start 500 sample_conf undefined = Some s0"
  using start_run [OF sample_conf_in] by blast

lemma sample_events_in:
  assumes "sch_start 500 sample_conf undefined = Some s0"
  shows "events_in True gw_sched 500 s0 sample_events"
proof -
  from assms have "s_jobs s0 = []" by (auto simp: sch_start_def gw_scheduler_init_def)
  then have "s_jobs s1 = []" if "gw_scheduler_add_host a s0 3 0 0 n = Some s1" for a n s1
    using that by (auto simp: gw_scheduler_add_host_def Let_def split: option.splits if_splits)
  moreover have "s_jobs (gw_scheduler_add_user a s1 b c d n) = s_jobs s1" for a s1 b c d n
    by (simp add: gw_scheduler_add_user_def Let_def split: option.split)
  ultimately show ?thesis
    using sample_run_env_in
    by (auto simp: sample_events_def msg_in_def sample_run_env_def sample_env_def split: option.split)
qed

lemma scheduler_run_safe_witness:
  "\<exists>s0 s' out. sch_start 500 sample_conf undefined = Some s0
     \<and> sch_run True gw_sched s0 sample_events = Some (s', out) \<and> sch_ok s'"
proof -
  obtain s0 where s0: "sch_start 500 sample_conf undefined = Some s0" using sample_start by blast
  have "int (length sample_events) < 2 ^ 31" by (simp add: sample_events_def)
  from scheduler_run_safe [OF sample_conf_in s0 this sample_events_in [OF s0]] s0 show ?thesis
    by blast
qed

text \<open>The jobs keep the index of their user when a user is deleted: with two users or more,
  \<open>USER_DEL\<close> of any user, known or not, leaves a job of the last user with an index past
  the end of the table, and its \<open>JOB_DEL\<close> reads and writes outside of it.\<close>

theorem user_del_breaks_jobs:
  assumes "sch_ok s" and "2 \<le> length (s_users s)"
    and "find_index (\<lambda>j. j_jid j = jid) (s_jobs s) = Some n"
    and "j_ua_id (s_jobs s ! n) = int (length (s_users s)) - 1"
  shows "\<exists>s'. sch_step libdb sched env s (USER_DEL uid) = Some (s', [])
    \<and> sch_step libdb sched env s' (JOB_DEL jid) = None"
proof -
  have two: "s_users s \<noteq> []" "length (s_users s) \<noteq> 1" using assms(2) by auto
  obtain s' where s': "gw_scheduler_del_user s uid = Some s'" "s_jobs s' = s_jobs s"
      "Suc (length (s_users s')) = length (s_users s)"
  proof (cases "find_index (\<lambda>u. u_uid u = uid) (s_users s)")
    case None
    with two that [of "s\<lparr>s_users := butlast (s_users s)\<rparr>"] show ?thesis
      by (auto simp: gw_scheduler_del_user_def)
  next
    case (Some i)
    then have "i < length (s_users s)" by (rule find_index_nth)
    with Some two that [of "s\<lparr>s_users := take i (s_users s) @ drop (Suc i) (s_users s)\<rparr>"] show ?thesis
      by (auto simp: gw_scheduler_del_user_def)
  qed
  then have none: "rd (s_users s') (j_ua_id (s_jobs s ! n)) = None"
    using assms(4) unfolding rd_def by simp
  have "gw_scheduler_job_del s' jid 0 = None"
    using assms(3) by (simp add: gw_scheduler_job_del_def s'(2) none)
  with s' show ?thesis by simp
qed

definition sample_two :: gw_scheduler where
  "sample_two = sample_jobs\<lparr>s_users := [s_users sample_sch ! 0,
     (s_users sample_sch ! 0)\<lparr>u_uid := 8, u_total_jobs := 1\<rparr>],
     s_jobs := [(sample_job 4 0 GW_REASON_NONE)\<lparr>j_ua_id := 1\<rparr>]\<rparr>"

lemma user_del_breaks_jobs_witness:
  "\<exists>s'. sch_step True gw_sched sample_env sample_two (USER_DEL 99) = Some (s', [])
    \<and> sch_step True gw_sched sample_env s' (JOB_DEL 4) = None"
  by (rule user_del_breaks_jobs [of sample_two 4 0])
    (simp_all add: sample_two_def sample_jobs_def sample_sch_def sch_ok_def gw_sch_conf_init_def totals_ok_def
       user_ok_def windows_ok_def new_user_host_def set_averages_def job_ok_def mhosts_ok_def sample_job_def)

end
