(* ===== verification/Sch_Answer.thy ===== *)
theory Sch_Answer
  imports Sch_Loop Dm_Actions Gw_Mad_Line
begin

text \<open>
  The lines the scheduler prints, as the daemon reads them: \<open>gw_dm_listener\<close> of
  \<open>src/dm/gw_dm_listener.c\<close> takes a line apart with \<open>sscanf\<close>, whose widths are the sizes
  of its arrays, and does what it says (\<open>dm_listener_message\<close>).
\<close>

section \<open>The listener\<close>

definition dm_format :: "conversion list" where
  "dm_format = [WORD 20, WORD 5, WORD 10, LINE 1024]"

text \<open>
  One line.  \<open>old\<close> is what the arrays \<open>action\<close>, \<open>s_id\<close> and \<open>result\<close> hold from the line
  before; \<open>info\<close> is emptied.
\<close>

definition gw_dm_listener_line :: "string list \<Rightarrow> string \<Rightarrow> gwd \<Rightarrow> (string list \<times> gwd) option" where
  "gw_dm_listener_line old str w = do {
     fields \<leftarrow> scan_line_into dm_format (take 3 old @ [[]]) str;
     (case fields of
        [action, s_id, result, info] \<Rightarrow>
          map_option (Pair fields) (dm_listener_message action s_id result info w)
      | _ \<Rightarrow> None)
   }"

fun gw_dm_listener_lines :: "string list \<Rightarrow> string list \<Rightarrow> gwd \<Rightarrow> gwd option" where
  "gw_dm_listener_lines old [] w = Some w"
| "gw_dm_listener_lines old (l # ls) w = do {
     (old, w) \<leftarrow> gw_dm_listener_line old l w;
     gw_dm_listener_lines old ls w
   }"

section \<open>Scanning what the scheduler prints\<close>

definition info_ok :: "string \<Rightarrow> bool" where
  "info_ok s \<longleftrightarrow> s \<noteq> [] \<and> \<not> is_blank (hd s) \<and> list_all (\<lambda>c. c \<noteq> CHR 0x0A) s \<and> length s < 1024"

lemma scan_conv_info:
  assumes "info_ok s"
  shows "scan_conv (LINE 1024) (CHR '' '' # s @ [CHR 0x0A]) = STORED s [CHR 0x0A]"
proof -
  have "takeWhile (\<lambda>c. c \<noteq> CHR 0x0A) (s @ [CHR 0x0A]) = s"
    using assms by (subst takeWhile_append2) (auto simp: info_ok_def list_all_iff)
  moreover have "dropWhile is_blank (s @ [CHR 0x0A]) = s @ [CHR 0x0A]"
    using assms by (cases s) (auto simp: info_ok_def)
  ultimately show ?thesis using assms by (auto simp: info_ok_def Let_def)
qed

lemma scan_four_fields:
  assumes "word_ok a" "length a < 20" and "word_ok i" and "word_ok r" "length r < 10" and "info_ok f"
    and "length old = 3"
  shows "scan_line_into dm_format (old @ [[]]) (a @ CHR '' '' # i @ CHR '' '' # r @ CHR '' '' # f @ [CHR 0x0A])
    = (if length i < 5 then Some [a, i, r, f] else None)"
proof -
  obtain x y z where "old = [x, y, z]"
    using assms(7) by (auto simp: numeral_3_eq_3 length_Suc_conv)
  with assms scan_conv_info [OF assms(6)] show ?thesis
    by (simp add: dm_format_def scan_conv_word scan_conv_blank del: scan_conv.simps)
qed

lemma short_id: "0 \<le> jid \<Longrightarrow> length (show_int jid) < 5 \<longleftrightarrow> jid < 10000"
  using length_show_int [of jid] by linarith

definition queue_name_ok :: "string \<Rightarrow> bool" where
  "queue_name_ok q \<longleftrightarrow> q \<noteq> [] \<and> list_all (\<lambda>c. c \<noteq> CHR '':'' \<and> c \<noteq> CHR 0x0A) q \<and> length q < 256"

lemma show_int_no_colon: "list_all (\<lambda>c. c \<noteq> CHR '':'' \<and> c \<noteq> CHR 0x0A) (show_int i)"
proof -
  have "list_all (\<lambda>c. c \<noteq> CHR '':'' \<and> c \<noteq> CHR 0x0A) (show_nat n)" for n
    using show_nat_digits [of n] by (auto simp: list_all_iff is_digit_def)
  then show ?thesis by (simp add: show_int_def)
qed

lemma strtok_colon_word:
  assumes "w \<noteq> []" and "list_all (\<lambda>c. c \<noteq> CHR '':'') w"
  shows "strtok_colon (w @ CHR '':'' # s) = Some (w, s)"
proof -
  have "dropWhile (\<lambda>c. c = CHR '':'') (w @ t) = w @ t" for t
    using assms by (cases w) auto
  moreover have "takeWhile (\<lambda>c. c \<noteq> CHR '':'') (w @ CHR '':'' # s) = w"
    using assms by (subst takeWhile_append2) (auto simp: list_all_iff)
  moreover have "dropWhile (\<lambda>c. c \<noteq> CHR '':'') (w @ CHR '':'' # s) = CHR '':'' # s"
    using assms by (subst dropWhile_append2) (auto simp: list_all_iff)
  ultimately show ?thesis using assms(1) by (simp add: strtok_colon_def Let_def)
qed
lemma info_success:
  assumes "queue_name_ok q" and "int32 hid" "int32 rank"
  shows "info_ok (show_int hid @ CHR '':'' # q @ CHR '':'' # show_int rank)"
proof -
  have "\<not> is_blank (hd (show_int hid))"
    using show_int_chars [of hid] show_int_nonempty [of hid] by (cases "show_int hid") auto
  moreover have "list_all (\<lambda>c. c \<noteq> CHR 0x0A) (show_int i)" for i
    using show_int_no_colon [of i] by (auto simp: list_all_iff)
  ultimately show ?thesis
    using assms show_int_length [OF assms(2)] show_int_length [OF assms(3)]
    by (auto simp: info_ok_def queue_name_ok_def list_all_iff hd_append)
qed

lemma word_ok_letters: "word_ok ''SCHEDULE_JOB''" "word_ok ''SUCCESS''" "word_ok ''FAILED''"
  "word_ok ''SCHEDULE_END''" "word_ok ''-''"
  by (simp_all add: word_ok_def is_blank_def)

lemma scan_success:
  assumes "queue_name_ok q" and "int32 hid" "int32 rank" and "0 \<le> jid" and "length old = 3"
  shows "scan_line_into dm_format (old @ [[]]) (success_line jid hid q rank) =
    (if jid < 10000 then Some [''SCHEDULE_JOB'', show_int jid, ''SUCCESS'',
       show_int hid @ CHR '':'' # q @ CHR '':'' # show_int rank] else None)"
proof -
  have "success_line jid hid q rank = ''SCHEDULE_JOB'' @ CHR '' '' # show_int jid @ CHR '' '' # ''SUCCESS''
      @ CHR '' '' # (show_int hid @ CHR '':'' # q @ CHR '':'' # show_int rank) @ [CHR 0x0A]"
    by (simp add: success_line_def)
  with scan_four_fields [OF word_ok_letters(1) _ word_ok_show_int word_ok_letters(2) _
      info_success [OF assms(1-3)] assms(5)] short_id [OF assms(4)]
  show ?thesis by simp
qed

lemma read_success:
  assumes "queue_name_ok q" and "int32 hid" "int32 rank" and "0 \<le> jid" "jid < 10000" and "3 \<le> length old"
  shows "\<exists>fs. length fs = 4 \<and> gw_dm_listener_line old (success_line jid hid q rank) w =
    map_option (Pair fs \<circ> snd) (gw_dm_dispatch_job jid hid (Some q) rank w)"
proof -
  let ?info = "show_int hid @ CHR '':'' # q @ CHR '':'' # show_int rank"
  let ?fs = "[''SCHEDULE_JOB'', show_int jid, ''SUCCESS'', ?info]"
  have "scan_line_into dm_format (take 3 old @ [[]]) (success_line jid hid q rank) = Some ?fs"
    using scan_success [OF assms(1-4), of "take 3 old"] assms(5,6) by simp
  moreover have "strtok_colon ?info = Some (show_int hid, q @ CHR '':'' # show_int rank)"
    using show_int_no_colon [of hid] by (intro strtok_colon_word) (auto simp: list_all_iff)
  moreover have "strtok_colon (q @ CHR '':'' # show_int rank) = Some (q, show_int rank)"
    using assms(1) by (intro strtok_colon_word) (auto simp: queue_name_ok_def list_all_iff)
  ultimately have "gw_dm_listener_line old (success_line jid hid q rank) w =
      map_option (Pair ?fs \<circ> snd) (gw_dm_dispatch_job jid hid (Some q) rank w)"
    by (simp add: gw_dm_listener_line_def dm_listener_message_def option.map_comp)
  then show ?thesis by (intro exI [of _ ?fs]) simp
qed

lemma read_failed:
  assumes "0 \<le> jid" "jid < 10000" and "3 \<le> length old"
  shows "gw_dm_listener_line old (failed_line jid) w =
    map_option (Pair [''SCHEDULE_JOB'', show_int jid, ''FAILED'', ''reschedule'']) (gw_dm_uncheck_job jid w)"
proof -
  have "failed_line jid = ''SCHEDULE_JOB'' @ CHR '' '' # show_int jid @ CHR '' '' # ''FAILED''
      @ CHR '' '' # ''reschedule'' @ [CHR 0x0A]"
    by (simp add: failed_line_def)
  moreover have "info_ok ''reschedule''" by (simp add: info_ok_def is_blank_def)
  ultimately have "scan_line_into dm_format (take 3 old @ [[]]) (failed_line jid)
      = Some [''SCHEDULE_JOB'', show_int jid, ''FAILED'', ''reschedule'']"
    using scan_four_fields [OF word_ok_letters(1) _ word_ok_show_int word_ok_letters(3), of "''reschedule''" "take 3 old" jid]
      assms short_id [OF assms(1)]
    by simp
  then show ?thesis by (simp add: gw_dm_listener_line_def dm_listener_message_def)
qed

lemma read_end:
  assumes "3 \<le> length old"
  shows "gw_dm_listener_line old schedule_end w =
    Some ([''SCHEDULE_END'', ''-'', ''SUCCESS'', ''-''], w\<lparr>w_scheduling := False\<rparr>)"
proof -
  have "schedule_end = ''SCHEDULE_END'' @ CHR '' '' # ''-'' @ CHR '' '' # ''SUCCESS''
      @ CHR '' '' # ''-'' @ [CHR 0x0A]"
    by (simp add: schedule_end_def)
  moreover have "info_ok ''-''" by (simp add: info_ok_def is_blank_def)
  ultimately have "scan_line_into dm_format (take 3 old @ [[]]) schedule_end
      = Some [''SCHEDULE_END'', ''-'', ''SUCCESS'', ''-'']"
    using scan_four_fields [OF word_ok_letters(4) _ word_ok_letters(5,2), of "''-''" "take 3 old"] assms
    by simp
  then show ?thesis by (simp add: gw_dm_listener_line_def dm_listener_message_def)
qed

section \<open>From the scheduler to the daemon\<close>

text \<open>What the daemon is to do for each placement.\<close>

fun dispatch_all :: "gw_scheduler \<Rightarrow> placement list \<Rightarrow> gwd \<Rightarrow> gwd option" where
  "dispatch_all s [] w = Some w"
| "dispatch_all s ((j, q) # ps) w = do {
     (rc, w) \<leftarrow> gw_dm_dispatch_job (j_jid j) (h_hid (s_hosts s ! nat (q_ha_id q))) (Some (q_qname q)) (q_rank q) w;
     dispatch_all s ps w
   }"

definition names_in :: "gw_scheduler \<Rightarrow> bool" where
  "names_in s \<longleftrightarrow> list_all (\<lambda>j. 0 \<le> j_jid j \<and> j_jid j < 10000
       \<and> list_all (\<lambda>q. queue_name_ok (q_qname q) \<and> int32 (q_rank q)) (queues_of j)) (s_jobs s)
     \<and> list_all (\<lambda>h. int32 (h_hid h)) (s_hosts s)"

definition placement_in :: "gw_scheduler \<Rightarrow> placement \<Rightarrow> bool" where
  "placement_in s p \<longleftrightarrow> (case p of (j, q) \<Rightarrow> 0 \<le> j_jid j \<and> j_jid j < 10000 \<and> queue_name_ok (q_qname q)
     \<and> int32 (q_rank q) \<and> int32 (h_hid (s_hosts s ! nat (q_ha_id q))))"

lemma read_placements:
  assumes "list_all (placement_in s) ps" and "3 \<le> length old"
  shows "gw_dm_listener_lines old (map (line_of s) ps @ [schedule_end]) w =
    map_option (\<lambda>w. w\<lparr>w_scheduling := False\<rparr>) (dispatch_all s ps w)"
  using assms
proof (induction ps arbitrary: old w)
  case (Cons p ps)
  obtain j q where p: "p = (j, q)" by (cases p)
  let ?hid = "h_hid (s_hosts s ! nat (q_ha_id q))"
  from Cons.prems p read_success [of "q_qname q" ?hid "q_rank q" "j_jid j" old w]
  obtain fs where "length fs = 4" and "gw_dm_listener_line old (line_of s p) w =
      map_option (Pair fs \<circ> snd) (gw_dm_dispatch_job (j_jid j) ?hid (Some (q_qname q)) (q_rank q) w)"
    by (auto simp: placement_in_def line_of_def)
  with Cons.IH [of fs] Cons.prems(1) p show ?case
    by (cases "gw_dm_dispatch_job (j_jid j) ?hid (Some (q_qname q)) (q_rank q) w") auto
qed (simp add: read_end)

lemma admissible_in:
  assumes "sch_ok s" and n: "names_in s" and a: "admissible mu mh s ps"
  shows "list_all (placement_in s) ps"
proof -
  have "placement_in s (ps ! n)" if "n < length ps" for n
  proof -
    obtain j q where p: "ps ! n = (j, q)" by (cases "ps ! n")
    with a that have jq: "j \<in> set (s_jobs s)" "q \<in> set (queues_of j)"
      by (auto simp: admissible_def allowed_def Let_def)
    then have "queue_ok (length (s_hosts s)) q"
      using assms(1)
      by (cases "j_mhosts j") (auto simp: sch_ok_def list_all_iff job_ok_def mhosts_ok_def queues_of_def)
    then have "s_hosts s ! nat (q_ha_id q) \<in> set (s_hosts s)" by (auto simp: queue_ok_def)
    with n jq p show ?thesis by (auto simp: names_in_def placement_in_def list_all_iff)
  qed
  then show ?thesis by (simp add: list_all_length)
qed
section \<open>Properties\<close>

text \<open>C3 (refinement).
  What the scheduler decides is what the daemon does: the lines a scheduling action prints
  are read back, line for line, as calls of \<open>gw_dm_dispatch_job\<close> with the job, the host, the
  queue and the rank of each placement, in their order, and then the daemon may schedule
  again.  The job numbers are below 10000 and the names of the queues have no colon.\<close>

theorem decisions_reach_daemon:
  assumes "sch_ok s" and "distinct (map j_jid (s_jobs s))" and "0 \<le> sc_max_dispatch (s_conf s)"
    and "names_in s" and "3 \<le> length old"
  shows "\<exists>s' ps. gw_sched s = Some (s', map (line_of s) ps)
    \<and> mset (s_jobs s) = mset (s_jobs s') + mset (map fst ps)
    \<and> (\<forall>w. gw_dm_listener_lines old (map (line_of s) ps @ [schedule_end]) w =
         map_option (\<lambda>w. w\<lparr>w_scheduling := False\<rparr>) (dispatch_all s ps w))"
proof -
  from gw_sched_spec [OF assms(1-3)] obtain s' ps1 ps2 where
    r: "gw_sched s = Some (s', map (line_of s) (ps1 @ ps2))" "placed s (ps1 @ ps2) s'"
      "admissible (sc_max_user (s_conf s)) (sc_max_resource (s_conf s)) s (ps1 @ ps2)"
    by blast
  from read_placements [OF admissible_in [OF assms(1,4) r(3)] assms(5)] r(1,2) show ?thesis
    by (intro exI [of _ s'] exI [of _ "ps1 @ ps2"]) (simp add: placed_def)
qed

lemma decisions_reach_daemon_witness:
  "\<exists>s' ps. gw_sched sample_ready = Some (s', map (line_of sample_ready) ps)
    \<and> (\<forall>w. gw_dm_listener_lines [[], [], []] (map (line_of sample_ready) ps @ [schedule_end]) w =
         map_option (\<lambda>w. w\<lparr>w_scheduling := False\<rparr>) (dispatch_all sample_ready ps w))"
proof -
  have "names_in sample_ready"
    by (simp add: names_in_def sample_ready_def sample_jobs_def sample_sch_def sample_job_def
        sample_queue_def queues_of_def queue_name_ok_def int32_def)
  from decisions_reach_daemon [OF sample_ready_ok(1,2) _ this, of "[[], [], []]"] show ?thesis
    by (auto simp: sample_ready_ok(3))
qed

text \<open>A job the scheduler gives up is read back as the call of \<open>gw_dm_uncheck_job\<close> for it.\<close>

theorem give_up_reaches_daemon:
  assumes "0 \<le> jid" and "jid < 10000" and "3 \<le> length old"
  shows "\<exists>fs. gw_dm_listener_line old (failed_line jid) w = map_option (Pair fs) (gw_dm_uncheck_job jid w)"
  using read_failed [OF assms] by blast

lemma give_up_reaches_daemon_witness:
  "\<forall>w. \<exists>fs. gw_dm_listener_line [[], [], []] (failed_line 7) w = map_option (Pair fs) (gw_dm_uncheck_job 7 w)"
  by (intro allI, rule give_up_reaches_daemon) simp_all

text \<open>The array for the job number has no room for the final zero of a number of five digits:
  the line of a placement of a job from 10000 on overflows it.\<close>

theorem dispatch_id_overflow:
  assumes "10000 \<le> jid" and "queue_name_ok q" and "int32 hid" and "int32 rank" and "3 \<le> length old"
  shows "gw_dm_listener_line old (success_line jid hid q rank) w = None"
  using scan_success [OF assms(2-4), of jid "take 3 old"] assms(1,5)
  by (simp add: gw_dm_listener_line_def)

lemma dispatch_id_overflow_witness:
  "\<forall>w. gw_dm_listener_line [[], [], []] (success_line 10000 3 ''short'' 0) w = None"
  by (intro allI, rule dispatch_id_overflow) (simp_all add: queue_name_ok_def int32_def)

text \<open>A queue without a name is not read back: the daemon takes the rank for the name of the
  queue, and a rank of zero.\<close>

theorem unnamed_queue_misread:
  assumes "0 \<le> jid" and "jid < 10000" and "int32 hid" and "int32 rank" and "3 \<le> length old"
  shows "\<exists>fs. gw_dm_listener_line old (success_line jid hid [] rank) w =
    map_option (Pair fs \<circ> snd) (gw_dm_dispatch_job jid hid (Some (show_int rank)) 0 w)"
proof -
  let ?info = "show_int hid @ CHR '':'' # CHR '':'' # show_int rank"
  let ?fs = "[''SCHEDULE_JOB'', show_int jid, ''SUCCESS'', ?info]"
  have "info_ok ?info"
    using info_success [of "''x''" hid rank] assms(3,4) by (simp add: queue_name_ok_def info_ok_def hd_append)
  moreover have "success_line jid hid [] rank = ''SCHEDULE_JOB'' @ CHR '' '' # show_int jid @ CHR '' '' # ''SUCCESS''
      @ CHR '' '' # ?info @ [CHR 0x0A]"
    by (simp add: success_line_def)
  ultimately have "scan_line_into dm_format (take 3 old @ [[]]) (success_line jid hid [] rank) = Some ?fs"
    using scan_four_fields [OF word_ok_letters(1) _ word_ok_show_int word_ok_letters(2), of ?info "take 3 old" jid]
      short_id [OF assms(1)] assms(2,5)
    by simp
  moreover have "strtok_colon ?info = Some (show_int hid, CHR '':'' # show_int rank)"
    using show_int_no_colon [of hid] by (intro strtok_colon_word) (auto simp: list_all_iff)
  moreover have "strtok_colon (CHR '':'' # show_int rank) = Some (show_int rank, [])"
  proof -
    have d: "dropWhile (\<lambda>c. c = CHR '':'') (show_int rank) = show_int rank"
      "takeWhile (\<lambda>c. c \<noteq> CHR '':'') (show_int rank) = show_int rank"
      "dropWhile (\<lambda>c. c \<noteq> CHR '':'') (show_int rank) = []"
      using show_int_no_colon [of rank]
      by (cases "show_int rank"; simp add: list_all_iff takeWhile_eq_all_conv)+
    then show ?thesis by (simp add: strtok_colon_def d)
  qed
  moreover have "atoi [] = 0" by (simp add: atoi_def)
  ultimately have "gw_dm_listener_line old (success_line jid hid [] rank) w =
      map_option (Pair ?fs \<circ> snd) (gw_dm_dispatch_job jid hid (Some (show_int rank)) 0 w)"
    by (simp add: gw_dm_listener_line_def dm_listener_message_def option.map_comp)
  then show ?thesis by blast
qed

lemma unnamed_queue_misread_witness:
  "\<forall>w. \<exists>fs. gw_dm_listener_line [[], [], []] (success_line 5 3 [] 12) w =
    map_option (Pair fs \<circ> snd) (gw_dm_dispatch_job 5 3 (Some (show_int 12)) 0 w)"
  by (intro allI, rule unnamed_queue_misread) (simp_all add: int32_def)

end
