(* ===== verification/Gw_Host_Lex.thy ===== *)
theory Gw_Host_Lex
  imports Gw_Host_Var
begin

text \<open>
  The words of the expressions on hosts: the scanner \<open>host_attr_lex\<close> of
  \<open>src/host/gw_host_attr_parser.l\<close>, which the requirements and the rank of a job template and the
  attributes an information driver sends all go through.  The longest match wins,
  and of two the first rule; what no rule takes is skipped.
\<close>

section \<open>Tokens\<close>

datatype host_token =
    VARIABLE gw_host_var
  | GENERICVAR string
  | INTEGER int
  | STRING "string option"
  | SIGN char

definition is_letter :: "char \<Rightarrow> bool" where
  "is_letter c \<longleftrightarrow> 65 \<le> (of_char c :: nat) \<and> (of_char c :: nat) \<le> 90
     \<or> 97 \<le> (of_char c :: nat) \<and> (of_char c :: nat) \<le> 122"

definition is_name_char :: "char \<Rightarrow> bool" where
  "is_name_char c \<longleftrightarrow> is_letter c \<or> is_digit c \<or> c = CHR ''_''"

definition operator_chars :: string where
  "operator_chars = ''!&|=><();[]*+/^-''"

definition host_keywords :: "(string \<times> gw_host_var) list" where
  "host_keywords = map (\<lambda>v. (gw_host_get_varname v, v))
     [HOSTNAME, ARCH, OS_NAME, OS_VERSION, CPU_MODEL, CPU_MHZ, CPU_FREE, CPU_SMP, NODECOUNT, SIZE_MEM_MB,
      FREE_MEM_MB, SIZE_DISK_MB, FREE_DISK_MB, FORK_NAME, LRMS_NAME, LRMS_TYPE, QUEUE_NAME,
      QUEUE_NODECOUNT, QUEUE_FREENODECOUNT, QUEUE_MAXTIME, QUEUE_MAXCPUTIME, QUEUE_MAXCOUNT,
      QUEUE_MAXRUNNINGJOBS, QUEUE_MAXJOBSINQUEUE, QUEUE_STATUS, QUEUE_DISPATCHTYPE, QUEUE_PRIORITY]"

definition name_token :: "string \<Rightarrow> host_token" where
  "name_token w = (case map_of host_keywords w of Some v \<Rightarrow> VARIABLE v | None \<Rightarrow> GENERICVAR w)"

text \<open>\<open>atoi\<close> of the C library, which is \<open>(int) strtol(s, NULL, 10)\<close> with a \<open>long\<close> of 64 bits: a number is
  cut to the range of \<open>long\<close>, then to its low 32 bits.\<close>

definition in_int :: "int \<Rightarrow> bool" where
  "in_int i \<longleftrightarrow> - (2 ^ 31) \<le> i \<and> i < 2 ^ 31"

definition int_atoi :: "string \<Rightarrow> int" where
  "int_atoi s = signed_take_bit 31 (max (- (2 ^ 63)) (min (2 ^ 63 - 1) (atoi s)))"

lemma int_atoi_fits [simp]: "in_int (int_atoi s)"
  unfolding in_int_def int_atoi_def
  by (intro conjI signed_take_bit_int_greater_eq_minus_exp signed_take_bit_int_less_exp)

lemma int_atoi_eq: "in_int (atoi s) \<Longrightarrow> int_atoi s = atoi s"
  by (simp add: int_atoi_def in_int_def signed_take_bit_int_eq_self)

text \<open>An empty string in quotes is NULL, a quote that is not closed is skipped, and a minus
  that touches a digit belongs to the number.\<close>

function host_attr_lex :: "string \<Rightarrow> host_token list" where
  "host_attr_lex [] = []"
| "host_attr_lex (c # cs) =
     (if is_letter c then name_token (c # takeWhile is_name_char cs) # host_attr_lex (dropWhile is_name_char cs)
      else if is_digit c \<or> c = CHR ''-'' \<and> cs \<noteq> [] \<and> is_digit (hd cs)
      then INTEGER (int_atoi (c # takeWhile is_digit cs)) # host_attr_lex (dropWhile is_digit cs)
      else if c = CHR 0x22 \<and> CHR 0x22 \<in> set cs
      then (let s = takeWhile (\<lambda>d. d \<noteq> CHR 0x22) cs in
            STRING (if s = [] then None else Some s)
              # host_attr_lex (tl (dropWhile (\<lambda>d. d \<noteq> CHR 0x22) cs)))
      else if c \<in> set operator_chars then SIGN c # host_attr_lex cs
      else host_attr_lex cs)"
  by pat_completeness auto
termination
  by (relation "measure length")
    (auto simp: less_Suc_eq_le length_dropWhile_le intro: le_trans [OF diff_le_self length_dropWhile_le])

declare host_attr_lex.simps(2) [simp del]

section \<open>Writing tokens\<close>

fun token_text :: "host_token \<Rightarrow> string" where
  "token_text (VARIABLE v) = gw_host_get_varname v"
| "token_text (GENERICVAR w) = w"
| "token_text (INTEGER i) = show_int i"
| "token_text (STRING None) = [CHR 0x22, CHR 0x22]"
| "token_text (STRING (Some s)) = CHR 0x22 # s @ [CHR 0x22]"
| "token_text (SIGN c) = [c]"

definition unlex :: "host_token list \<Rightarrow> string" where
  "unlex toks = concat (map (\<lambda>t. token_text t @ '' '') toks)"

fun token_ok :: "host_token \<Rightarrow> bool" where
  "token_ok (VARIABLE v) \<longleftrightarrow> v \<noteq> GENERIC"
| "token_ok (GENERICVAR w) \<longleftrightarrow> w \<noteq> [] \<and> is_letter (hd w) \<and> list_all is_name_char w
     \<and> map_of host_keywords w = None"
| "token_ok (INTEGER i) \<longleftrightarrow> in_int i"
| "token_ok (STRING None) \<longleftrightarrow> True"
| "token_ok (STRING (Some s)) \<longleftrightarrow> s \<noteq> [] \<and> CHR 0x22 \<notin> set s"
| "token_ok (SIGN c) \<longleftrightarrow> c \<in> set operator_chars"

lemma lex_blank: "host_attr_lex (CHR '' '' # cs) = host_attr_lex cs"
  by (simp add: host_attr_lex.simps is_letter_def is_digit_def operator_chars_def)

lemma take_drop_word:
  assumes "list_all P w" and "\<not> P b"
  shows "takeWhile P (w @ b # s) = w" "dropWhile P (w @ b # s) = b # s"
  using assms by (simp_all add: list_all_iff takeWhile_append2 dropWhile_append2)

lemma not_name_blank [simp]: "\<not> is_name_char (CHR '' '')" "\<not> is_digit (CHR '' '')"
  by (simp_all add: is_name_char_def is_letter_def is_digit_def)

lemma lex_name:
  assumes "w \<noteq> []" and "is_letter (hd w)" and "list_all is_name_char w"
  shows "host_attr_lex (w @ CHR '' '' # s) = name_token w # host_attr_lex s"
proof -
  obtain c cs where w: "w = c # cs" using assms(1) by (cases w) auto
  with assms(3) have "list_all is_name_char cs" by simp
  note t = take_drop_word [OF this not_name_blank(1), of s]
  show ?thesis using assms(2) t host_attr_lex.simps(2) [of c "cs @ CHR '' '' # s"] by (simp add: w lex_blank)
qed

lemma lex_number:
  assumes "in_int i"
  shows "host_attr_lex (show_int i @ CHR '' '' # s) = INTEGER i # host_attr_lex s"
proof -
  have digits: "list_all is_digit (show_nat n)" for n by (rule show_nat_digits)
  obtain c cs where shown: "show_int i = c # cs" "list_all is_digit cs"
    "is_digit c \<or> c = CHR ''-'' \<and> cs \<noteq> [] \<and> is_digit (hd cs)"
  proof (cases "i < 0")
    case True
    show thesis
      by (rule that [of "CHR ''-''" "show_nat (nat (- i))"])
        (use True digits [of "nat (- i)"] show_nat_nonempty [of "nat (- i)"] in
          \<open>simp_all add: show_int_def list_all_iff\<close>)
  next
    case False
    obtain c cs where "show_nat (nat i) = c # cs" using show_nat_nonempty [of "nat i"] by (cases "show_nat (nat i)") auto
    with False digits [of "nat i"] show thesis by (intro that [of c cs]) (simp_all add: show_int_def)
  qed
  note t = take_drop_word [OF shown(2) not_name_blank(2), of s]
  have "\<not> is_letter c" using shown(3) by (auto simp: is_letter_def is_digit_def)
  moreover have "is_digit c \<or> c = CHR ''-'' \<and> cs @ CHR '' '' # s \<noteq> [] \<and> is_digit (hd (cs @ CHR '' '' # s))"
    using shown(3) by auto
  moreover have "int_atoi (c # cs) = i" using atoi_show_int [of i] shown(1) int_atoi_eq [of "c # cs"] assms by simp
  ultimately show ?thesis using t host_attr_lex.simps(2) [of c "cs @ CHR '' '' # s"] by (simp add: shown(1) lex_blank)
qed

lemma lex_string:
  assumes "CHR 0x22 \<notin> set w"
  shows "host_attr_lex (CHR 0x22 # w @ CHR 0x22 # s) =
    STRING (if w = [] then None else Some w) # host_attr_lex s"
proof -
  have "takeWhile (\<lambda>d. d \<noteq> CHR 0x22) (w @ CHR 0x22 # s) = w"
    "dropWhile (\<lambda>d. d \<noteq> CHR 0x22) (w @ CHR 0x22 # s) = CHR 0x22 # s"
    using assms by (induction w) auto
  then show ?thesis
    using host_attr_lex.simps(2) [of "CHR 0x22" "w @ CHR 0x22 # s"] by (simp add: is_letter_def is_digit_def Let_def)
qed

lemma keywords_ok: "v \<noteq> GENERIC \<Longrightarrow> name_token (gw_host_get_varname v) = VARIABLE v"
  by (cases v) (simp_all add: name_token_def host_keywords_def)

lemma keyword_word: "gw_host_get_varname v \<noteq> [] \<and> is_letter (hd (gw_host_get_varname v))
    \<and> list_all is_name_char (gw_host_get_varname v)"
  by (cases v) (simp_all add: is_name_char_def is_letter_def is_digit_def)

lemma lex_token:
  assumes "token_ok t"
  shows "host_attr_lex (token_text t @ CHR '' '' # s) = t # host_attr_lex s"
proof (cases t)
  case (VARIABLE v)
  with assms keyword_word [of v] lex_name [of "gw_host_get_varname v" s] keywords_ok [of v] show ?thesis by simp
next
  case (GENERICVAR w)
  with assms lex_name [of w s] show ?thesis by (simp add: name_token_def)
next
  case (INTEGER i)
  with assms show ?thesis using lex_number [of i s] by simp
next
  case (STRING x)
  with assms lex_string [of "[]" "CHR '' '' # s"] lex_string [of "the x" "CHR '' '' # s"] show ?thesis
    by (cases x) (simp_all add: lex_blank)
next
  case (SIGN c)
  with assms have c: "c \<in> set operator_chars" by simp
  then have "\<not> is_letter c" "\<not> is_digit c" "c \<noteq> CHR 0x22"
    by (auto simp: operator_chars_def is_letter_def is_digit_def)
  with c SIGN show ?thesis using host_attr_lex.simps(2) [of c "CHR '' '' # s"] by (simp add: lex_blank)
qed

text \<open>Tokens written with a blank after each are read back as they were, numbers if they fit an
  \<open>int\<close>; others wrap around.\<close>

theorem lex_unlex: "list_all token_ok toks \<Longrightarrow> host_attr_lex (unlex toks) = toks"
proof (induction toks)
  case (Cons t toks)
  have "unlex (t # toks) = token_text t @ CHR '' '' # unlex toks" by (simp add: unlex_def)
  with Cons show ?case by (simp add: lex_token)
qed (simp add: unlex_def)

theorem lex_unlex_witness: "host_attr_lex (unlex [VARIABLE CPU_FREE, SIGN (CHR ''-''), INTEGER 3]) =
    [VARIABLE CPU_FREE, SIGN (CHR ''-''), INTEGER 3]"
  by (rule lex_unlex) (simp add: operator_chars_def in_int_def)

lemma lex_wraps: "host_attr_lex ''3000000000'' = [INTEGER (- 1294967296)]"
  by (simp add: host_attr_lex.simps(2) is_letter_def is_digit_def int_atoi_def atoi_def is_blank_def)

end
