(* ===== verification/Gw_Host_Expr.thy ===== *)
theory Gw_Host_Expr
  imports Gw_Host_Lex
begin

text \<open>
  The requirements and the rank of a job, evaluated on a queue of a host while they are
  parsed: the grammars \<open>src/host/gw_host_reqs_syntax.y\<close> and \<open>gw_host_rank_syntax.y\<close> with their
  actions, and \<open>gw_host_check_reqs\<close> and \<open>gw_host_compute_rank\<close> of \<open>gw_host_attr_parser.l\<close>.  The
  parsers are shift-reduce parsers as bison makes them of these grammars: a stack of what is open and one
  token of look-ahead; what the precedences say decides when the top of the stack is
  reduced.  \<open>fnmatch\<close> is the parameter \<open>glob\<close>.  A value outside the range of \<open>int\<close> is
  undefined behaviour, like a division by zero or a NULL pattern.
\<close>

datatype 'a parsed = SYNTAX_ERROR | VALUE 'a

section \<open>Requirements\<close>

datatype comp = EQ | NE | GT | LT

fun comparison_op :: "host_token list \<Rightarrow> (comp \<times> host_token list) option" where
  "comparison_op (SIGN c # ts) =
     (if c = CHR ''='' then Some (EQ, ts)
      else if c = CHR ''>'' then Some (GT, ts)
      else if c = CHR ''<'' then Some (LT, ts)
      else if c = CHR ''!'' \<and> ts \<noteq> [] \<and> hd ts = SIGN (CHR ''='') then Some (NE, tl ts)
      else None)"
| "comparison_op _ = None"

fun compare_int :: "comp \<Rightarrow> int \<Rightarrow> int \<Rightarrow> bool" where
  "compare_int EQ x y \<longleftrightarrow> x = y"
| "compare_int NE x y \<longleftrightarrow> x \<noteq> y"
| "compare_int GT x y \<longleftrightarrow> x > y"
| "compare_int LT x y \<longleftrightarrow> x < y"

text \<open>A literal that is NULL makes \<open>fnmatch\<close> and \<open>strlen\<close> crash.\<close>

definition matches :: "(string \<Rightarrow> string \<Rightarrow> bool) \<Rightarrow> string option \<Rightarrow> string \<Rightarrow> bool option" where
  "matches glob lit s = map_option (\<lambda>p. glob p s) lit"

text \<open>
  The actions of the comparisons.  The outer \<open>None\<close>: the grammar has no such comparison;
  the inner \<open>None\<close>: the evaluation crashes.
\<close>

fun reqs_compare ::
    "(string \<Rightarrow> string \<Rightarrow> bool) \<Rightarrow> gw_host \<Rightarrow> int \<Rightarrow> host_token \<Rightarrow> comp \<Rightarrow> host_token \<Rightarrow> bool option option"
  where
  "reqs_compare glob h q (VARIABLE v) c (INTEGER i) =
     Some (map_option (\<lambda>x. compare_int c x i) (gw_host_get_var_int v q h))"
| "reqs_compare glob h q (GENERICVAR w) c (INTEGER i) =
     Some (Some (compare_int c (gw_host_get_genvar_int w q h) i))"
| "reqs_compare glob h q (VARIABLE v) EQ (STRING lit) = Some (do {
     x \<leftarrow> gw_host_get_var_str v q h;
     (case x of None \<Rightarrow> Some False | Some s \<Rightarrow> matches glob lit s)
   })"
| "reqs_compare glob h q (VARIABLE v) NE (STRING lit) = Some (do {
     x \<leftarrow> gw_host_get_var_str v q h;
     (case x of None \<Rightarrow> Some False | Some s \<Rightarrow> map_option Not (matches glob lit s))
   })"
| "reqs_compare glob h q (GENERICVAR w) EQ (STRING lit) = Some
     (case gw_host_get_genvar_str w q h of
        Some s \<Rightarrow> matches glob lit s
      | None \<Rightarrow> map_option (\<lambda>p. p = []) lit)"
| "reqs_compare glob h q (GENERICVAR w) NE (STRING lit) = Some
     (case gw_host_get_genvar_str w q h of
        Some s \<Rightarrow> do { m \<leftarrow> matches glob lit s; Some (\<not> m \<or> lit = Some []) }
      | None \<Rightarrow> Some False)"
| "reqs_compare _ _ _ _ _ _ = None"

datatype reqs_frame = Q_NOT | Q_AND bool | Q_OR bool | Q_PAREN

text \<open>
  \<open>%left '!' '&' '|'\<close>: the three have one precedence and associate to the left, so a value
  closes everything up to the last bracket.
\<close>

fun reqs_reduce :: "reqs_frame list \<Rightarrow> bool \<Rightarrow> reqs_frame list \<times> bool" where
  "reqs_reduce (Q_NOT # st) v = reqs_reduce st (\<not> v)"
| "reqs_reduce (Q_AND a # st) v = reqs_reduce st (a \<and> v)"
| "reqs_reduce (Q_OR a # st) v = reqs_reduce st (a \<or> v)"
| "reqs_reduce st v = (st, v)"

lemma comparison_op_length: "comparison_op ts = Some (c, ts') \<Longrightarrow> length ts' < length ts"
  by (cases ts rule: comparison_op.cases) (auto split: if_splits)

text \<open>\<open>reqs_operand\<close> stands before an operand, \<open>reqs_operator\<close> behind one with the value \<open>v\<close>.\<close>

function reqs_operand ::
    "(string \<Rightarrow> string \<Rightarrow> bool) \<Rightarrow> gw_host \<Rightarrow> int \<Rightarrow> reqs_frame list \<Rightarrow> host_token list \<Rightarrow> bool parsed option"
  and reqs_operator ::
    "(string \<Rightarrow> string \<Rightarrow> bool) \<Rightarrow> gw_host \<Rightarrow> int \<Rightarrow> reqs_frame list \<Rightarrow> bool \<Rightarrow> host_token list
       \<Rightarrow> bool parsed option"
  where
  "reqs_operand glob h q st ts = (case ts of
      [] \<Rightarrow> Some SYNTAX_ERROR
    | SIGN c # ts \<Rightarrow>
        if c = CHR ''!'' then reqs_operand glob h q (Q_NOT # st) ts
        else if c = CHR ''('' then reqs_operand glob h q (Q_PAREN # st) ts
        else Some SYNTAX_ERROR
    | x # ts \<Rightarrow> (case comparison_op ts of
          None \<Rightarrow> Some SYNTAX_ERROR
        | Some (c, ts) \<Rightarrow> (case ts of
              [] \<Rightarrow> Some SYNTAX_ERROR
            | y # ts \<Rightarrow> (case reqs_compare glob h q x c y of
                  None \<Rightarrow> Some SYNTAX_ERROR
                | Some None \<Rightarrow> None
                | Some (Some v) \<Rightarrow> reqs_operator glob h q st v ts))))"
| "reqs_operator glob h q st v ts = (case reqs_reduce st v of (st, v) \<Rightarrow> (case ts of
      [] \<Rightarrow> Some (if st = [] then VALUE v else SYNTAX_ERROR)
    | SIGN c # ts \<Rightarrow>
        if c = CHR ''&'' then reqs_operand glob h q (Q_AND v # st) ts
        else if c = CHR ''|'' then reqs_operand glob h q (Q_OR v # st) ts
        else if c = CHR '')'' \<and> st \<noteq> [] then reqs_operator glob h q (tl st) v ts
        else if c = CHR '';'' \<and> st = [] \<and> ts = [] then Some (VALUE v)
        else Some SYNTAX_ERROR
    | _ \<Rightarrow> Some SYNTAX_ERROR))"
  by pat_completeness auto
termination
  by (relation "measure (case_sum (\<lambda>(_, _, _, _, ts). length ts) (\<lambda>(_, _, _, _, _, ts). length ts))")
    (auto dest!: comparison_op_length)

declare reqs_operand.simps [simp del] reqs_operator.simps [simp del]

text \<open>The start symbol: nothing, or a semicolon alone, is true.\<close>

definition host_reqs_parse ::
    "(string \<Rightarrow> string \<Rightarrow> bool) \<Rightarrow> gw_host \<Rightarrow> int \<Rightarrow> host_token list \<Rightarrow> bool parsed option" where
  "host_reqs_parse glob h q ts =
     (if ts = [] \<or> ts = [SIGN (CHR '';'')] then Some (VALUE True) else reqs_operand glob h q [] ts)"

definition gw_host_check_reqs ::
    "(string \<Rightarrow> string \<Rightarrow> bool) \<Rightarrow> gw_host option \<Rightarrow> int \<Rightarrow> string option \<Rightarrow> bool option" where
  "gw_host_check_reqs glob host q reqs = (case host of
      None \<Rightarrow> Some False
    | Some h \<Rightarrow> (case reqs of
        None \<Rightarrow> Some True
      | Some s \<Rightarrow> do {
          r \<leftarrow> host_reqs_parse glob h q (host_attr_lex s);
          Some (case r of SYNTAX_ERROR \<Rightarrow> False | VALUE v \<Rightarrow> v)
        }))"

section \<open>Rank\<close>

definition c_int :: "int \<Rightarrow> int option" where
  "c_int x = (if - (2 ^ 31) \<le> x \<and> x < 2 ^ 31 then Some x else None)"

definition c_div :: "int \<Rightarrow> int \<Rightarrow> int option" where
  "c_div a b = (if b = 0 then None else c_int (sgn a * sgn b * (\<bar>a\<bar> div \<bar>b\<bar>)))"

datatype rank_frame = K_NEG | K_ADD int | K_SUB int | K_MUL int | K_DIV int | K_PAREN

text \<open>
  \<open>%left '+' '-'\<close>, then \<open>%left '*' '/'\<close>: a sum, a difference and a sign (whose rule has the
  precedence of the minus) stay open when a product follows (\<open>high\<close>).
\<close>

fun rank_reduce :: "bool \<Rightarrow> rank_frame list \<Rightarrow> int \<Rightarrow> (rank_frame list \<times> int) option" where
  "rank_reduce high (K_MUL a # st) v = do { x \<leftarrow> c_int (a * v); rank_reduce high st x }"
| "rank_reduce high (K_DIV a # st) v = do { x \<leftarrow> c_div a v; rank_reduce high st x }"
| "rank_reduce high (K_ADD a # st) v =
     (if high then Some (K_ADD a # st, v) else do { x \<leftarrow> c_int (a + v); rank_reduce high st x })"
| "rank_reduce high (K_SUB a # st) v =
     (if high then Some (K_SUB a # st, v) else do { x \<leftarrow> c_int (a - v); rank_reduce high st x })"
| "rank_reduce high (K_NEG # st) v =
     (if high then Some (K_NEG # st, v) else do { x \<leftarrow> c_int (- v); rank_reduce high st x })"
| "rank_reduce high st v = Some (st, v)"

definition high_next :: "host_token list \<Rightarrow> bool" where
  "high_next ts \<longleftrightarrow> ts \<noteq> [] \<and> hd ts \<in> {SIGN (CHR ''*''), SIGN (CHR ''/'')}"

function rank_operand ::
    "gw_host \<Rightarrow> int \<Rightarrow> rank_frame list \<Rightarrow> host_token list \<Rightarrow> int parsed option"
  and rank_operator ::
    "gw_host \<Rightarrow> int \<Rightarrow> rank_frame list \<Rightarrow> int \<Rightarrow> host_token list \<Rightarrow> int parsed option"
  where
  "rank_operand h q st ts = (case ts of
      SIGN c # ts \<Rightarrow>
        if c = CHR ''-'' then rank_operand h q (K_NEG # st) ts
        else if c = CHR ''('' then rank_operand h q (K_PAREN # st) ts
        else Some SYNTAX_ERROR
    | VARIABLE v # ts \<Rightarrow> do { x \<leftarrow> gw_host_get_var_int v q h; rank_operator h q st x ts }
    | GENERICVAR w # ts \<Rightarrow> rank_operator h q st (gw_host_get_genvar_int w q h) ts
    | INTEGER i # ts \<Rightarrow> rank_operator h q st i ts
    | _ \<Rightarrow> Some SYNTAX_ERROR)"
| "rank_operator h q st v ts = do {
     (st, v) \<leftarrow> rank_reduce (high_next ts) st v;
     (case ts of
        [] \<Rightarrow> Some (if st = [] then VALUE v else SYNTAX_ERROR)
      | SIGN c # ts \<Rightarrow>
          if c = CHR ''+'' then rank_operand h q (K_ADD v # st) ts
          else if c = CHR ''-'' then rank_operand h q (K_SUB v # st) ts
          else if c = CHR ''*'' then rank_operand h q (K_MUL v # st) ts
          else if c = CHR ''/'' then rank_operand h q (K_DIV v # st) ts
          else if c = CHR '')'' \<and> st \<noteq> [] then rank_operator h q (tl st) v ts
          else if c = CHR '';'' \<and> st = [] \<and> ts = [] then Some (VALUE v)
          else Some SYNTAX_ERROR
      | _ \<Rightarrow> Some SYNTAX_ERROR)
   }"
  by pat_completeness auto
termination
  by (relation "measure (case_sum (\<lambda>(_, _, _, ts). length ts) (\<lambda>(_, _, _, _, ts). length ts))") auto

declare rank_operand.simps [simp del] rank_operator.simps [simp del]

definition host_rank_parse :: "gw_host \<Rightarrow> int \<Rightarrow> host_token list \<Rightarrow> int parsed option" where
  "host_rank_parse h q ts =
     (if ts = [] \<or> ts = [SIGN (CHR '';'')] then Some (VALUE (host_fixed_priority h))
      else rank_operand h q [] ts)"

definition gw_host_compute_rank :: "gw_host option \<Rightarrow> int \<Rightarrow> string option \<Rightarrow> int option" where
  "gw_host_compute_rank host q rank = (case (host, rank) of
      (Some h, Some s) \<Rightarrow> do {
        r \<leftarrow> host_rank_parse h q (host_attr_lex s);
        Some (case r of SYNTAX_ERROR \<Rightarrow> 0 | VALUE v \<Rightarrow> v)
      }
    | _ \<Rightarrow> Some 0)"

end
