(* ===== verification/Rm_Messages.thy ===== *)
theory Rm_Messages
  imports Gw_World Gw_Host_Expr
begin

text \<open>
  The messages between the request manager and its clients (\<open>include/gw_rm_msg.h\<close>) and
  the functions that fill them from the structs of the daemon: \<open>gw_rm_history_to_msg\<close>
  of \<open>src/rm/gw_rm_job_history.c\<close>, \<open>gw_rm_host_to_msg\<close> of \<open>gw_rm_host_status.c\<close>, and
  the bodies of \<open>gw_rm_job_status\<close> and of \<open>gw_rm_job_match\<close>.

  A parallel family of arrays of a message, with its counter, is a list of records.  A
  field the code does not assign has an option type, \<open>None\<close> for the stack's garbage.
  The fixed-size strings are cut as the copies cut them.
\<close>

section \<open>Kinds of messages\<close>

datatype gw_msg_type =
    GW_MSG_SUBMIT | GW_MSG_SUBMIT_ARRAY | GW_MSG_WAIT | GW_MSG_KILL | GW_MSG_KILL_ASYNC
  | GW_MSG_KILL_HARD | GW_MSG_STOP | GW_MSG_STOP_ASYNC | GW_MSG_RESUME | GW_MSG_HOLD
  | GW_MSG_RELEASE | GW_MSG_RESCHEDULE | GW_MSG_JOB_STATUS | GW_MSG_JOB_POOL_STATUS
  | GW_MSG_JOB_HISTORY | GW_MSG_HOST_STATUS | GW_MSG_HOST_POOL_STATUS | GW_MSG_JOB_MATCH
  | GW_MSG_END_JOB | GW_MSG_END | GW_MSG_DISENGAGE | GW_MSG_USERS | GW_MSG_PRIORITY

datatype gw_msg_wait_type = GW_MSG_WAIT_JOB | GW_MSG_WAIT_ANY | GW_MSG_WAIT_ANY_FIRST

definition GW_MSG_STRING_SHORT :: nat where "GW_MSG_STRING_SHORT = 25"
definition GW_MSG_STRING_HOST :: nat where "GW_MSG_STRING_HOST = 40"
definition GW_MSG_STRING_USER_AT_HOST :: nat where "GW_MSG_STRING_USER_AT_HOST = 66"

text \<open>The macros \<open>gw_rm_copy_str_*\<close>: \<open>strncpy\<close>, with a terminator put into a full buffer.\<close>

definition copy_str :: "nat \<Rightarrow> string option \<Rightarrow> string" where
  "copy_str len src = (case src of
      None \<Rightarrow> []
    | Some s \<Rightarrow> if length s \<ge> len then take (len - 1) s else s)"

definition gw_rm_copy_str_short :: "string option \<Rightarrow> string" where
  "gw_rm_copy_str_short = copy_str GW_MSG_STRING_SHORT"

definition gw_rm_copy_str_host :: "string option \<Rightarrow> string" where
  "gw_rm_copy_str_host = copy_str GW_MSG_STRING_HOST"

definition gw_rm_copy_str_user_at_host :: "string option \<Rightarrow> string" where
  "gw_rm_copy_str_user_at_host = copy_str GW_MSG_STRING_USER_AT_HOST"

definition gw_rm_copy_str_long :: "string option \<Rightarrow> string" where
  "gw_rm_copy_str_long = copy_str GW_MSG_STRING_LONG"

lemma copy_str_fits: "0 < len \<Longrightarrow> length (copy_str len src) < len"
  by (auto simp: copy_str_def split: option.split)

lemma copy_str_short_enough: "length s < len \<Longrightarrow> copy_str len (Some s) = s"
  by (simp add: copy_str_def)

section \<open>Jobs\<close>

text \<open>
  The owner and the name are copied with \<open>strncpy\<close> alone: 25 characters without a
  terminator when the source is as long; nothing when it is NULL.
\<close>

record gw_msg_job =
  mj_owner :: "string option"
  mj_name :: "string option"
  mj_host :: string
  mj_id :: int
  mj_array_id :: int
  mj_task_id :: int
  mj_total_tasks :: int
  mj_uid :: int
  mj_fixed_priority :: int
  mj_deadline :: int
  mj_type :: gw_jobtype
  mj_np :: int
  mj_em_state :: gw_em_state
  mj_job_state :: gw_job_state
  mj_start_time :: int
  mj_exit_time :: int
  mj_xfr_time :: int
  mj_cpu_time :: int
  mj_exit_code :: int
  mj_restarted :: int
  mj_client_waiting :: int
  mj_reschedule :: bool

text \<open>The loop over the records after the first adds their times.\<close>

fun add_times :: "int \<Rightarrow> gw_history list \<Rightarrow> int \<times> int \<Rightarrow> int \<times> int" where
  "add_times now [] t = t"
| "add_times now (r # rs) (cpu, xfr) =
     add_times now rs
       (cpu + gw_job_history_get_wrapper_time now (Some r),
        xfr + (gw_job_history_get_prolog_time now (Some r) + gw_job_history_get_epilog_time now (Some r)
          + gw_job_history_get_migration_time now (Some r)))"

text \<open>\<open>name\<close> is the template's name, which \<open>gw_job_template\<close> here leaves out.\<close>

definition job_to_msg :: "int \<Rightarrow> string option \<Rightarrow> gw_job \<Rightarrow> gw_msg_job" where
  "job_to_msg now name job =
     (let first = (case job_history job of [] \<Rightarrow> None | r # _ \<Rightarrow> Some r);
          (cpu, xfr) = add_times now (tl (job_history job))
            (gw_job_history_get_wrapper_time now first,
             gw_job_history_get_prolog_time now first + gw_job_history_get_epilog_time now first
               + gw_job_history_get_migration_time now first)
      in \<lparr>mj_owner = map_option (take GW_MSG_STRING_SHORT) (job_owner job),
          mj_name = map_option (take GW_MSG_STRING_SHORT) name,
          mj_host = gw_rm_copy_str_user_at_host (map_option hist_em_rc first),
          mj_id = job_id job, mj_array_id = job_array_id job, mj_task_id = job_task_id job,
          mj_total_tasks = job_total_tasks job, mj_uid = job_user_id job,
          mj_fixed_priority = job_fixed_priority job, mj_deadline = jt_deadline (job_template job),
          mj_type = jt_type (job_template job), mj_np = jt_np (job_template job),
          mj_em_state = job_em_state job, mj_job_state = job_job_state job,
          mj_start_time = job_start_time job, mj_exit_time = job_exit_time job,
          mj_xfr_time = xfr, mj_cpu_time = cpu,
          mj_exit_code = job_exit_code job, mj_restarted = job_restarted job,
          mj_client_waiting = job_client_waiting job, mj_reschedule = job_reschedule job\<rparr>)"

section \<open>History records\<close>

record rm_msg_history =
  mr_rank :: int
  mr_host_id :: int
  mr_times :: "gw_stat \<Rightarrow> int"
  mr_rdir :: string
  mr_em_rc :: string
  mr_queue :: string
  mr_tries :: int
  mr_reason :: gw_migration_reason

text \<open>The times the message carries, one by one; it has no room for the other statistics.\<close>

definition msg_stats :: "gw_stat list" where
  "msg_stats = [START_TIME, EXIT_TIME, PROLOG_START_TIME, PROLOG_EXIT_TIME, PRE_WRAPPER_START_TIME,
     PRE_WRAPPER_EXIT_TIME, WRAPPER_START_TIME, WRAPPER_EXIT_TIME, EPILOG_START_TIME,
     EPILOG_EXIT_TIME, MIGRATION_START_TIME, MIGRATION_EXIT_TIME]"

definition gw_rm_history_to_msg :: "gw_history \<Rightarrow> rm_msg_history" where
  "gw_rm_history_to_msg r =
     \<lparr>mr_rank = hist_rank r, mr_host_id = hist_host r,
      mr_times = (\<lambda>s. if s \<in> set msg_stats then hist_stats r s else 0),
      mr_rdir = gw_rm_copy_str_short (Some (hist_rdir r)),
      mr_em_rc = gw_rm_copy_str_user_at_host (Some (hist_em_rc r)),
      mr_queue = gw_rm_copy_str_short (hist_queue r),
      mr_tries = hist_tries r, mr_reason = hist_reason r\<rparr>"

section \<open>Hosts\<close>

record msg_queue =
  mq_queue_name :: string
  mq_nodecount :: int
  mq_running_jobs :: int
  mq_active_jobs :: int
  mq_freenodecount :: int
  mq_maxtime :: int
  mq_maxcputime :: int
  mq_maxcount :: int
  mq_maxrunningjobs :: int
  mq_maxjobsinqueue :: int
  mq_status :: string
  mq_dispatchtype :: string
  mq_priority :: string

record gw_msg_host =
  mo_em_mad :: string
  mo_tm_mad :: string
  mo_im_mad :: string
  mo_used_slots :: int
  mo_running_jobs :: int
  mo_host_id :: int
  mo_fixed_priority :: int
  mo_hostname :: string
  mo_arch :: string
  mo_os_name :: string
  mo_os_version :: string
  mo_cpu_model :: string
  mo_cpu_mhz :: int
  mo_cpu_free :: int
  mo_cpu_smp :: int
  mo_nodecount :: int
  mo_size_mem_mb :: int
  mo_free_mem_mb :: int
  mo_size_disk_mb :: int
  mo_free_disk_mb :: int
  mo_fork_name :: string
  mo_lrms_name :: string
  mo_lrms_type :: string
  mo_queues :: "msg_queue list"
  mo_int_vars :: "(string \<times> int) list"
  mo_str_vars :: "(string \<times> string) list"

text \<open>The entry of queue \<open>i\<close> in the message.\<close>

definition queue_to_msg :: "gw_host \<Rightarrow> int \<Rightarrow> string \<Rightarrow> msg_queue option" where
  "queue_to_msg h i name = do {
     nodecount \<leftarrow> rd (host_queue_nodecount h) i;
     freenodecount \<leftarrow> rd (host_queue_freenodecount h) i;
     maxtime \<leftarrow> rd (host_queue_maxtime h) i;
     maxcputime \<leftarrow> rd (host_queue_maxcputime h) i;
     maxcount \<leftarrow> rd (host_queue_maxcount h) i;
     maxrunningjobs \<leftarrow> rd (host_queue_maxrunningjobs h) i;
     maxjobsinqueue \<leftarrow> rd (host_queue_maxjobsinqueue h) i;
     running_jobs \<leftarrow> rd (host_queue_running_jobs h) i;
     active_jobs \<leftarrow> rd (host_queue_active_jobs h) i;
     status \<leftarrow> rd (host_queue_status h) i;
     dispatchtype \<leftarrow> rd (host_queue_dispatchtype h) i;
     priority \<leftarrow> rd (host_queue_priority h) i;
     Some \<lparr>mq_queue_name = gw_rm_copy_str_short (Some name), mq_nodecount = nodecount,
           mq_running_jobs = running_jobs, mq_active_jobs = active_jobs,
           mq_freenodecount = freenodecount, mq_maxtime = maxtime, mq_maxcputime = maxcputime,
           mq_maxcount = maxcount, mq_maxrunningjobs = maxrunningjobs,
           mq_maxjobsinqueue = maxjobsinqueue, mq_status = gw_rm_copy_str_short status,
           mq_dispatchtype = gw_rm_copy_str_short dispatchtype,
           mq_priority = gw_rm_copy_str_short priority\<rparr>
   }"

text \<open>
  The loop \<open>for (i = 0; i < GW_HOST_MAX_QUEUES; i++) if (host->queue_name[i] != NULL)\<close>,
  which \<open>gw_rm_host_to_msg\<close> and \<open>gw_rm_job_match\<close> share: \<open>f i name\<close> is the entry made of
  queue \<open>i\<close>, \<open>n\<close> the number of queues to go.
\<close>

fun each_queue :: "(int \<Rightarrow> string \<Rightarrow> 'a option) \<Rightarrow> gw_host \<Rightarrow> int \<Rightarrow> nat \<Rightarrow> 'a list option" where
  "each_queue f h i 0 = Some []"
| "each_queue f h i (Suc n) = do {
     name \<leftarrow> rd (host_queue_name h) i;
     (case name of
        None \<Rightarrow> each_queue f h (i + 1) n
      | Some q \<Rightarrow> do {
          x \<leftarrow> f i q;
          xs \<leftarrow> each_queue f h (i + 1) n;
          Some (x # xs)
        })
   }"

fun int_vars_to_msg :: "(string option \<times> int) list \<Rightarrow> (string \<times> int) list" where
  "int_vars_to_msg [] = []"
| "int_vars_to_msg ((name, v) # vs) =
     (if name \<noteq> None then (gw_rm_copy_str_short name, v) # int_vars_to_msg vs
      else int_vars_to_msg vs)"

fun str_vars_to_msg :: "(string option \<times> string option) list \<Rightarrow> (string \<times> string) list" where
  "str_vars_to_msg [] = []"
| "str_vars_to_msg ((name, v) # vs) =
     (if name \<noteq> None then (gw_rm_copy_str_short name, gw_rm_copy_str_long v) # str_vars_to_msg vs
      else str_vars_to_msg vs)"

definition gw_rm_host_to_msg :: "gw_host \<Rightarrow> gw_msg_host option" where
  "gw_rm_host_to_msg h = do {
     queues \<leftarrow> each_queue (queue_to_msg h) h 0 GW_HOST_MAX_QUEUES;
     Some \<lparr>mo_em_mad = gw_rm_copy_str_short (Some (host_em_mad h)),
           mo_tm_mad = gw_rm_copy_str_short (Some (host_tm_mad h)),
           mo_im_mad = gw_rm_copy_str_short (Some (host_im_mad h)),
           mo_used_slots = host_used_slots h, mo_running_jobs = host_running_jobs h,
           mo_host_id = host_host_id h, mo_fixed_priority = host_fixed_priority h,
           mo_hostname = gw_rm_copy_str_host (Some (host_hostname h)),
           mo_arch = gw_rm_copy_str_short (host_arch h),
           mo_os_name = gw_rm_copy_str_short (host_os_name h),
           mo_os_version = gw_rm_copy_str_short (host_os_version h),
           mo_cpu_model = gw_rm_copy_str_short (host_cpu_model h),
           mo_cpu_mhz = host_cpu_mhz h, mo_cpu_free = host_cpu_free h,
           mo_cpu_smp = host_cpu_smp h, mo_nodecount = host_nodecount h,
           mo_size_mem_mb = host_size_mem_mb h, mo_free_mem_mb = host_free_mem_mb h,
           mo_size_disk_mb = host_size_disk_mb h, mo_free_disk_mb = host_free_disk_mb h,
           mo_fork_name = gw_rm_copy_str_short (host_fork_name h),
           mo_lrms_name = gw_rm_copy_str_short (host_lrms_name h),
           mo_lrms_type = gw_rm_copy_str_short (host_lrms_type h),
           mo_queues = queues,
           mo_int_vars = int_vars_to_msg (host_genvar_int h),
           mo_str_vars = str_vars_to_msg (host_genvar_str h)\<rparr>
   }"

section \<open>Matches\<close>

record msg_match_queue =
  mc_queue_name :: string
  mc_match :: int
  mc_rank :: int
  mc_slots :: int

record rm_msg_match =
  mc_host_id :: int
  mc_job_id :: int
  mc_fixed_priority :: int
  mc_matched :: bool
  mc_hostname :: string
  mc_running_jobs :: int
  mc_queues :: "msg_match_queue list"

text \<open>
  The requirements and the rank of a template are evaluated on every queue of the host that has a
  name (\<open>Gw_Host_Expr\<close>); an evaluation that crashes ends the daemon.
\<close>

definition match_queue_to_msg ::
    "(string \<Rightarrow> string \<Rightarrow> bool) \<Rightarrow> string option \<Rightarrow> string option \<Rightarrow> gw_host \<Rightarrow> int \<Rightarrow> string
       \<Rightarrow> msg_match_queue option" where
  "match_queue_to_msg glob reqs rank h j name = do {
     match \<leftarrow> gw_host_check_reqs glob (Some h) j reqs;
     if match then do {
       rk \<leftarrow> gw_host_compute_rank (Some h) j rank;
       maxjobsinqueue \<leftarrow> rd (host_queue_maxjobsinqueue h) j;
       running_jobs \<leftarrow> rd (host_queue_running_jobs h) j;
       maxrunningjobs \<leftarrow> rd (host_queue_maxrunningjobs h) j;
       active_jobs \<leftarrow> rd (host_queue_active_jobs h) j;
       let slots = (if maxjobsinqueue > 0 then maxjobsinqueue - running_jobs
                    else maxrunningjobs - active_jobs);
       Some \<lparr>mc_queue_name = gw_rm_copy_str_short (Some name), mc_match = 1, mc_rank = rk,
             mc_slots = if active_jobs > maxrunningjobs then 0 else slots\<rparr>
     }
     else Some \<lparr>mc_queue_name = gw_rm_copy_str_short (Some name), mc_match = 0, mc_rank = 0,
                mc_slots = 0\<rparr>
   }"

definition host_match_to_msg ::
    "(string \<Rightarrow> string \<Rightarrow> bool) \<Rightarrow> string option \<Rightarrow> string option \<Rightarrow> int \<Rightarrow> int \<Rightarrow> gw_host
       \<Rightarrow> rm_msg_match option" where
  "host_match_to_msg glob reqs rank i jid h = do {
     queues \<leftarrow> each_queue (match_queue_to_msg glob reqs rank h) h 0 GW_HOST_MAX_QUEUES;
     Some \<lparr>mc_host_id = i, mc_job_id = jid, mc_fixed_priority = host_fixed_priority h,
           mc_matched = list_ex (\<lambda>q. mc_match q = 1) queues,
           mc_hostname = gw_rm_copy_str_host (Some (host_hostname h)),
           mc_running_jobs = host_running_jobs h, mc_queues = queues\<rparr>
   }"

section \<open>The messages that are sent\<close>

text \<open>
  An answer, with the fields the handlers set; \<open>exit_code\<close> and \<open>array_id\<close> go together.
\<close>

record gw_reply =
  re_msg_type :: gw_msg_type
  re_rc :: gw_return_code
  re_job_id :: int
  re_exit :: "(int \<times> int) option"

text \<open>A message of a client.\<close>

record gw_msg =
  m_msg_type :: gw_msg_type
  m_rc :: gw_return_code
  m_client_socket :: int
  m_wait_type :: gw_msg_wait_type
  m_owner :: string
  m_group :: string
  m_proxy_path :: string
  m_init_state :: gw_job_state
  m_job_id :: int
  m_array_id :: int
  m_number_of_tasks :: int
  m_exit_code :: int
  m_pstart :: int
  m_pinc :: int
  m_fixed_priority :: int

text \<open>
  \<open>OUT_END\<close> is the last message of a sequence, or the only one of a failed request: its
  type and code (with the job it names, where the code sets it).
\<close>

datatype rm_out =
    OUT_REPLY gw_reply
  | OUT_MSG gw_msg
  | OUT_SUBMIT gw_msg_submit
  | OUT_JOB gw_msg_job
  | OUT_HISTORY rm_msg_history
  | OUT_HOST gw_msg_host
  | OUT_MATCH rm_msg_match
  | OUT_USER int gw_user
  | OUT_END gw_msg_type gw_return_code "int option"

section \<open>Lemmas\<close>

text \<open>The names of the queues of a host, in their order, with their places.\<close>

definition named_queues :: "gw_host \<Rightarrow> (int \<times> string) list" where
  "named_queues h = [(int i, q). (i, Some q) \<leftarrow> enumerate 0 (host_queue_name h)]"

lemma each_queue_map:
  assumes "\<And>i q. 0 \<le> i \<Longrightarrow> i < int (length (host_queue_name h)) \<Longrightarrow> f i q \<noteq> None"
    and "k + n = length (host_queue_name h)"
  shows "each_queue f h (int k) n =
     Some [the (f (int i) q). (i, Some q) \<leftarrow> enumerate k (drop k (host_queue_name h))]"
  using assms(2)
proof (induction n arbitrary: k)
  case (Suc n)
  then have k: "k < length (host_queue_name h)" by simp
  then have d: "drop k (host_queue_name h) = host_queue_name h ! k # drop (Suc k) (host_queue_name h)"
    by (rule Cons_nth_drop_Suc [symmetric])
  have IH: "each_queue f h (int k + 1) n =
     Some [the (f (int i) q). (i, Some q) \<leftarrow> enumerate (Suc k) (drop (Suc k) (host_queue_name h))]"
    using Suc.IH [of "Suc k"] Suc.prems by (simp add: add.commute)
  show ?case
  proof (cases "host_queue_name h ! k")
    case None
    with IH d k show ?thesis by simp
  next
    case (Some q)
    from assms(1) [of "int k" q] k obtain y where "f (int k) q = Some y" by auto
    with Some IH d k show ?thesis by simp
  qed
qed simp

text \<open>The loop over all queues fails exactly if it fails at a named one.\<close>

lemma each_queue_outcome:
  assumes "k + n = length (host_queue_name h)"
  shows "each_queue f h (int k) n =
    (let qs = [(int i, q). (i, Some q) \<leftarrow> enumerate k (drop k (host_queue_name h))] in
     if list_all (\<lambda>(i, q). f i q \<noteq> None) qs then Some (map (\<lambda>(i, q). the (f i q)) qs) else None)"
  using assms
proof (induction n arbitrary: k)
  case (Suc n)
  then have k: "k < length (host_queue_name h)" by simp
  then have d: "drop k (host_queue_name h) = host_queue_name h ! k # drop (Suc k) (host_queue_name h)"
    by (rule Cons_nth_drop_Suc [symmetric])
  have IH: "each_queue f h (int k + 1) n =
    (let qs = [(int i, q). (i, Some q) \<leftarrow> enumerate (Suc k) (drop (Suc k) (host_queue_name h))] in
     if list_all (\<lambda>(i, q). f i q \<noteq> None) qs then Some (map (\<lambda>(i, q). the (f i q)) qs) else None)"
    using Suc.IH [of "Suc k"] Suc.prems by (simp add: add.commute)
  show ?case
    using IH d k by (cases "host_queue_name h ! k") (auto simp: Let_def bind_eq_Some_conv)
qed simp

lemma each_queue_named:
  assumes "length (host_queue_name h) = GW_HOST_MAX_QUEUES"
  shows "each_queue f h 0 GW_HOST_MAX_QUEUES =
    (if list_all (\<lambda>(i, q). f i q \<noteq> None) (named_queues h)
     then Some (map (\<lambda>(i, q). the (f i q)) (named_queues h)) else None)"
  using each_queue_outcome [of 0 GW_HOST_MAX_QUEUES h f] assms by (simp add: named_queues_def Let_def)

lemma named_queues_range: "(i, q) \<in> set (named_queues h) \<Longrightarrow> 0 \<le> i \<and> i < int (length (host_queue_name h))"
  by (auto simp: named_queues_def in_set_enumerate_eq split: option.splits)

end
