(* ===== verification/Rm_Connections.thy ===== *)
theory Rm_Connections
  imports Rm_Messages
begin

text \<open>
  The list of the clients that wait for an answer of the request manager
  (\<open>src/rm/gw_rm_connection_list.c\<close>).  Every operation runs with the mutex of the list held.
  The two operations that take a connection out of the list, by job and by client,
  share a contract, the locale \<open>mailbox\<close>.
\<close>

section \<open>The list\<close>

record gw_connection =
  cn_socket_fs :: int
  cn_msg_id :: gw_msg_type
  cn_wait_type :: gw_msg_wait_type
  cn_job_id :: int

definition gw_connection_list_init :: "gw_connection list" where
  "gw_connection_list_init = []"

fun gw_connection_list_destroy :: "gw_connection list \<Rightarrow> gw_connection list" where
  "gw_connection_list_destroy [] = []"
| "gw_connection_list_destroy (c # cs) = gw_connection_list_destroy cs"

definition gw_connection_list_add ::
    "gw_connection list \<Rightarrow> int \<Rightarrow> gw_msg_type \<Rightarrow> gw_msg_wait_type \<Rightarrow> int \<Rightarrow> gw_connection list" where
  "gw_connection_list_add cs socket_fs msg_id wait_type jid =
     \<lparr>cn_socket_fs = socket_fs, cn_msg_id = msg_id, cn_wait_type = wait_type, cn_job_id = jid\<rparr> # cs"

text \<open>
  The first connection that matches is unlinked and returned.  The head is tested
  before the loop, which follows the list with a pointer to the previous node.
\<close>

fun get_after :: "(gw_connection \<Rightarrow> bool) \<Rightarrow> gw_connection \<Rightarrow> gw_connection list \<Rightarrow>
    gw_connection option \<times> gw_connection list" where
  "get_after p prev [] = (None, [prev])"
| "get_after p prev (c # cs) =
     (if p c then (Some c, prev # cs)
      else let (r, cs') = get_after p c cs in (r, prev # cs'))"

definition gw_connection_list_get ::
    "gw_connection list \<Rightarrow> gw_msg_type \<Rightarrow> int \<Rightarrow> gw_connection option \<times> gw_connection list" where
  "gw_connection_list_get cs msg_id jid =
     (case cs of
        [] \<Rightarrow> (None, [])
      | c # rest \<Rightarrow>
          if cn_msg_id c = msg_id \<and> cn_job_id c = jid then (Some c, rest)
          else get_after (\<lambda>c. cn_msg_id c = msg_id \<and> cn_job_id c = jid) c rest)"

definition gw_connection_list_get_by_client ::
    "gw_connection list \<Rightarrow> gw_msg_type \<Rightarrow> int \<Rightarrow> gw_connection option \<times> gw_connection list" where
  "gw_connection_list_get_by_client cs msg_id client_socket =
     (case cs of
        [] \<Rightarrow> (None, [])
      | c # rest \<Rightarrow>
          if cn_msg_id c = msg_id \<and> cn_socket_fs c = client_socket then (Some c, rest)
          else get_after (\<lambda>c. cn_msg_id c = msg_id \<and> cn_socket_fs c = client_socket) c rest)"

fun gw_connection_list_wait_in_list ::
    "gw_connection list \<Rightarrow> gw_msg_wait_type \<Rightarrow> int \<Rightarrow> bool" where
  "gw_connection_list_wait_in_list [] wait_type client_socket = False"
| "gw_connection_list_wait_in_list (c # cs) wait_type client_socket =
     (if cn_wait_type c = wait_type \<and> cn_socket_fs c = client_socket then True
      else gw_connection_list_wait_in_list cs wait_type client_socket)"

text \<open>\<open>gw_connection_list_delete\<close>: first the head, while it is the client's, then the rest.\<close>

fun delete_head :: "int \<Rightarrow> gw_connection list \<Rightarrow> gw_connection list" where
  "delete_head client_socket [] = []"
| "delete_head client_socket (c # cs) =
     (if cn_socket_fs c = client_socket then delete_head client_socket cs else c # cs)"

fun delete_after :: "int \<Rightarrow> gw_connection \<Rightarrow> gw_connection list \<Rightarrow> gw_connection list" where
  "delete_after client_socket prev [] = [prev]"
| "delete_after client_socket prev (c # cs) =
     (if cn_socket_fs c = client_socket then delete_after client_socket prev cs
      else prev # delete_after client_socket c cs)"

definition gw_connection_list_delete :: "gw_connection list \<Rightarrow> int \<Rightarrow> gw_connection list" where
  "gw_connection_list_delete cs client_socket =
     (case delete_head client_socket cs of
        [] \<Rightarrow> []
      | c # rest \<Rightarrow> delete_after client_socket c rest)"

section \<open>The contract of a list of requests\<close>

text \<open>
  Taking the first connection of a key: nothing happens when there is none; otherwise it
  leaves the others in their order.
\<close>

locale mailbox =
  fixes get :: "gw_connection list \<Rightarrow> gw_msg_type \<Rightarrow> int \<Rightarrow> gw_connection option \<times> gw_connection list"
    and wanted :: "gw_msg_type \<Rightarrow> int \<Rightarrow> gw_connection \<Rightarrow> bool"
  assumes get_none: "list_all (\<lambda>c. \<not> wanted t k c) cs \<Longrightarrow> get cs t k = (None, cs)"
    and get_first: "list_all (\<lambda>c. \<not> wanted t k c) pre \<Longrightarrow> wanted t k c \<Longrightarrow>
      get (pre @ c # post) t k = (Some c, pre @ post)"
begin

lemma get_split:
  assumes "get cs t k = (Some c, cs')"
  obtains pre post where "cs = pre @ c # post" and "cs' = pre @ post"
    and "list_all (\<lambda>c. \<not> wanted t k c) pre" and "wanted t k c"
proof (cases "list_all (\<lambda>c. \<not> wanted t k c) cs")
  case True
  with get_none [OF True] assms show ?thesis by simp
next
  case False
  then obtain pre d post where cs: "cs = pre @ d # post" "wanted t k d"
    "list_all (\<lambda>c. \<not> wanted t k c) pre"
    using split_list_first_prop [of cs "wanted t k"] by (auto simp: list_all_iff)
  with get_first [OF cs(3) cs(2), of post] assms that show ?thesis by simp
qed

lemma get_is_none: "get cs t k = (None, cs') \<longleftrightarrow> list_all (\<lambda>c. \<not> wanted t k c) cs \<and> cs' = cs"
proof (cases "list_all (\<lambda>c. \<not> wanted t k c) cs")
  case True
  with get_none [OF True] show ?thesis by auto
next
  case False
  then obtain pre d post where cs: "cs = pre @ d # post" "wanted t k d"
    "list_all (\<lambda>c. \<not> wanted t k c) pre"
    using split_list_first_prop [of cs "wanted t k"] by (auto simp: list_all_iff)
  with get_first [OF cs(3) cs(2), of post] False show ?thesis by simp
qed

lemma get_length: "get cs t k = (Some c, cs') \<Longrightarrow> length cs = Suc (length cs')"
  by (erule get_split) simp

lemma get_shorter:
  assumes "(x, y) = get cs t k"
  shows "length y + (if x = None then 0 else 1) = length cs"
proof -
  from assms have "get cs t k = (x, y)" by simp
  then show ?thesis by (cases x) (auto simp: get_is_none dest: get_length)
qed

lemma get_wanted: "get cs t k = (Some c, cs') \<Longrightarrow> wanted t k c \<and> c \<in> set cs"
  by (erule get_split) simp

lemma get_filter:
  "get cs t k = (Some c, cs') \<Longrightarrow> filter (wanted t k) cs = c # filter (wanted t k) cs'"
  by (erule get_split) (auto simp: filter_False list_all_iff)

lemma get_others:
  "get cs t k = (Some c, cs') \<Longrightarrow> \<not> q c \<Longrightarrow> filter q cs' = filter q cs"
  by (erule get_split) simp

lemma get_subset: "get cs t k = (Some c, cs') \<Longrightarrow> set cs' \<subseteq> set cs"
  by (erule get_split) auto

lemma get_none_filter: "get cs t k = (None, cs') \<Longrightarrow> filter (wanted t k) cs = [] \<and> cs' = cs"
  by (simp add: get_is_none filter_False list_all_iff)

end

lemma get_after_none: "list_all (\<lambda>c. \<not> p c) cs \<Longrightarrow> get_after p prev cs = (None, prev # cs)"
  by (induction cs arbitrary: prev) auto

lemma get_after_first:
  "list_all (\<lambda>c. \<not> p c) pre \<Longrightarrow> p c \<Longrightarrow>
     get_after p prev (pre @ c # post) = (Some c, prev # pre @ post)"
  by (induction pre arbitrary: prev) auto

definition asks :: "gw_msg_type \<Rightarrow> int \<Rightarrow> gw_connection \<Rightarrow> bool" where
  "asks t jid c \<longleftrightarrow> cn_msg_id c = t \<and> cn_job_id c = jid"

definition from_client :: "gw_msg_type \<Rightarrow> int \<Rightarrow> gw_connection \<Rightarrow> bool" where
  "from_client t s c \<longleftrightarrow> cn_msg_id c = t \<and> cn_socket_fs c = s"

interpretation by_job: mailbox gw_connection_list_get asks
proof
  fix t k and cs pre post :: "gw_connection list" and c
  show "list_all (\<lambda>c. \<not> asks t k c) cs \<Longrightarrow> gw_connection_list_get cs t k = (None, cs)"
    by (cases cs) (auto simp: gw_connection_list_get_def asks_def get_after_none)
  show "list_all (\<lambda>c. \<not> asks t k c) pre \<Longrightarrow> asks t k c \<Longrightarrow>
      gw_connection_list_get (pre @ c # post) t k = (Some c, pre @ post)"
    by (cases pre) (auto simp: gw_connection_list_get_def asks_def get_after_first)
qed

interpretation by_client: mailbox gw_connection_list_get_by_client from_client
proof
  fix t k and cs pre post :: "gw_connection list" and c
  show "list_all (\<lambda>c. \<not> from_client t k c) cs \<Longrightarrow>
      gw_connection_list_get_by_client cs t k = (None, cs)"
    by (cases cs) (auto simp: gw_connection_list_get_by_client_def from_client_def get_after_none)
  show "list_all (\<lambda>c. \<not> from_client t k c) pre \<Longrightarrow> from_client t k c \<Longrightarrow>
      gw_connection_list_get_by_client (pre @ c # post) t k = (Some c, pre @ post)"
    by (cases pre) (auto simp: gw_connection_list_get_by_client_def from_client_def get_after_first)
qed

section \<open>The other operations\<close>

lemma wait_in_list_iff:
  "gw_connection_list_wait_in_list cs wt s \<longleftrightarrow>
     (\<exists>c\<in>set cs. cn_wait_type c = wt \<and> cn_socket_fs c = s)"
  by (induction cs) auto

lemma delete_after_filter:
  "cn_socket_fs prev \<noteq> s \<Longrightarrow>
     delete_after s prev cs = prev # filter (\<lambda>c. cn_socket_fs c \<noteq> s) cs"
  by (induction cs arbitrary: prev) auto

lemma delete_head_split:
  "filter (\<lambda>c. cn_socket_fs c \<noteq> s) (delete_head s cs) = filter (\<lambda>c. cn_socket_fs c \<noteq> s) cs
   \<and> (\<forall>c rest. delete_head s cs = c # rest \<longrightarrow> cn_socket_fs c \<noteq> s)"
  by (induction cs) auto

text \<open>A client that leaves takes all its requests with it, and no other client's.\<close>

lemma delete_eq_filter:
  "gw_connection_list_delete cs s = filter (\<lambda>c. cn_socket_fs c \<noteq> s) cs"
  using delete_head_split [of s cs] delete_after_filter
  by (auto simp: gw_connection_list_delete_def split: list.split)

lemma destroy_Nil: "gw_connection_list_destroy cs = gw_connection_list_init"
  by (induction cs) (auto simp: gw_connection_list_init_def)

end
