(* ===== verification/Rm_Replies.thy ===== *)
theory Rm_Replies
  imports Rm_Connections Sch_Conf
begin

text \<open>
  The answers of the request manager to the requests of its clients: the actions
  \<open>GW_RM_*_SUCCESS\<close> and \<open>GW_RM_*_FAILED\<close> of \<open>src/rm/gw_rm_hold_release.c\<close>,
  \<open>gw_rm_stop_resume.c\<close>, \<open>gw_rm_reschedule.c\<close>, \<open>gw_rm_kill.c\<close>, \<open>gw_rm_wait.c\<close> and
  \<open>gw_rm_submit.c\<close>.  They are sequential actions of one thread.

  \<open>None\<close> is the end of the daemon: a NULL pointer used, or a thread that locks a
  mutex it holds, which it waits for forever.  A failed \<open>send\<close> is only logged;
  \<open>rm_sent\<close> lists the messages handed to \<open>send\<close>, with their sockets.
\<close>

section \<open>State\<close>

text \<open>
  The state of the daemon, the list of connections, what has been sent, and the
  submissions passed to the dispatch manager (\<open>w_dm\<close> holds its other actions).  The
  fields from outside: the names of the jobs' templates, the configuration of the
  priorities and the name of the administrator, \<open>fnmatch\<close>, and what the memory behind a pointer on
  the stack looks like as a message.
\<close>

record gw_rm =
  rm_world :: gwd
  rm_connections :: "gw_connection list"
  rm_sent :: "(int \<times> rm_out) list"
  rm_submits :: "(string \<times> gw_msg \<times> gw_template) list"
  rm_name :: "int \<Rightarrow> string option"
  rm_sch_conf :: gw_sch_conf
  rm_gwadmin :: string
  rm_glob :: "string \<Rightarrow> string \<Rightarrow> bool"
  rm_stack :: gw_msg

definition rm_send :: "int \<Rightarrow> rm_out \<Rightarrow> gw_rm \<Rightarrow> gw_rm" where
  "rm_send s m rm = rm\<lparr>rm_sent := rm_sent rm @ [(s, m)]\<rparr>"

definition reply :: "gw_msg_type \<Rightarrow> gw_return_code \<Rightarrow> int \<Rightarrow> gw_reply" where
  "reply t rc jid = \<lparr>re_msg_type = t, re_rc = rc, re_job_id = jid, re_exit = None\<rparr>"

section \<open>Hold, release, stop, resume, reschedule\<close>

text \<open>
  The loop every handler has: send the message to the connection in hand, free it, take
  the next one that waits for \<open>next\<close>.  \<open>answer_loop\<close> is the loop on the first
  connection taken, \<open>answer_all\<close> starts with the connection that waits for \<open>first\<close>.
\<close>

function answer_loop ::
    "gw_msg_type \<Rightarrow> int \<Rightarrow> gw_reply \<Rightarrow> gw_connection option \<Rightarrow> gw_rm \<Rightarrow> gw_rm" where
  "answer_loop next jid msg connection rm =
     (case connection of
        None \<Rightarrow> rm
      | Some c \<Rightarrow>
          let rm = rm_send (cn_socket_fs c) (OUT_REPLY msg) rm;
              (connection, cs) = gw_connection_list_get (rm_connections rm) next jid
          in answer_loop next jid msg connection (rm\<lparr>rm_connections := cs\<rparr>))"
  by auto
termination
proof (relation "measure (\<lambda>(_, _, _, c, rm). length (rm_connections rm) + (if c = None then 0 else 1))")
  fix next' jid and msg :: gw_reply and connection and rm rm' :: gw_rm and c :: gw_connection and r and y :: "gw_connection list"
    and x :: "gw_connection option"
  assume "connection = Some c" "rm' = rm_send (cn_socket_fs c) (OUT_REPLY msg) rm"
    "r = gw_connection_list_get (rm_connections rm') next' jid" "(x, y) = r"
  then show "((next', jid, msg, x, rm'\<lparr>rm_connections := y\<rparr>), next', jid, msg, connection, rm)
      \<in> measure (\<lambda>(_, _, _, c, rm). length (rm_connections rm) + (if c = None then 0 else 1))"
    using by_job.get_shorter [of x y "rm_connections rm'" next' jid]
    by (auto simp: rm_send_def split: if_splits)
qed auto

declare answer_loop.simps [simp del]

definition answer_all ::
    "gw_msg_type \<Rightarrow> gw_msg_type \<Rightarrow> int \<Rightarrow> gw_reply \<Rightarrow> gw_rm \<Rightarrow> gw_rm" where
  "answer_all first next jid msg rm =
     (let (connection, cs) = gw_connection_list_get (rm_connections rm) first jid
      in answer_loop next jid msg connection (rm\<lparr>rm_connections := cs\<rparr>))"

text \<open>The code of a failure: the job is unknown, or in the wrong state.\<close>

definition failed_rc :: "int \<Rightarrow> gw_rm \<Rightarrow> gw_return_code" where
  "failed_rc jid rm =
     (case gw_job_pool_get (rm_world rm) jid of
        None \<Rightarrow> GW_RC_FAILED_BAD_JOB_ID
      | Some _ \<Rightarrow> GW_RC_FAILED_BAD_JOB_STATE)"

definition gw_rm_hold_success :: "int \<Rightarrow> gw_rm \<Rightarrow> gw_rm" where
  "gw_rm_hold_success jid rm =
     answer_all GW_MSG_HOLD GW_MSG_HOLD jid (reply GW_MSG_HOLD GW_RC_SUCCESS jid) rm"

definition gw_rm_hold_failed :: "int \<Rightarrow> gw_rm \<Rightarrow> gw_rm" where
  "gw_rm_hold_failed jid rm =
     answer_all GW_MSG_HOLD GW_MSG_HOLD jid (reply GW_MSG_HOLD (failed_rc jid rm) jid) rm"

definition gw_rm_release_success :: "int \<Rightarrow> gw_rm \<Rightarrow> gw_rm" where
  "gw_rm_release_success jid rm =
     answer_all GW_MSG_RELEASE GW_MSG_RELEASE jid (reply GW_MSG_RELEASE GW_RC_SUCCESS jid) rm"

definition gw_rm_release_failed :: "int \<Rightarrow> gw_rm \<Rightarrow> gw_rm" where
  "gw_rm_release_failed jid rm =
     answer_all GW_MSG_RELEASE GW_MSG_RELEASE jid (reply GW_MSG_RELEASE (failed_rc jid rm) jid) rm"

definition gw_rm_stop_success :: "int \<Rightarrow> gw_rm \<Rightarrow> gw_rm" where
  "gw_rm_stop_success jid rm =
     answer_all GW_MSG_STOP GW_MSG_STOP jid (reply GW_MSG_STOP GW_RC_SUCCESS jid) rm"

definition gw_rm_stop_failed :: "int \<Rightarrow> gw_rm \<Rightarrow> gw_rm" where
  "gw_rm_stop_failed jid rm =
     answer_all GW_MSG_STOP GW_MSG_STOP jid (reply GW_MSG_STOP (failed_rc jid rm) jid) rm"

definition gw_rm_resume_success :: "int \<Rightarrow> gw_rm \<Rightarrow> gw_rm" where
  "gw_rm_resume_success jid rm =
     answer_all GW_MSG_RESUME GW_MSG_RESUME jid (reply GW_MSG_RESUME GW_RC_SUCCESS jid) rm"

text \<open>As in the code: the answer is a RELEASE, and so are the connections after the first.\<close>

definition gw_rm_resume_failed :: "int \<Rightarrow> gw_rm \<Rightarrow> gw_rm" where
  "gw_rm_resume_failed jid rm =
     answer_all GW_MSG_RESUME GW_MSG_RELEASE jid (reply GW_MSG_RELEASE (failed_rc jid rm) jid) rm"

definition gw_rm_reschedule_success :: "int \<Rightarrow> gw_rm \<Rightarrow> gw_rm" where
  "gw_rm_reschedule_success jid rm =
     answer_all GW_MSG_RESCHEDULE GW_MSG_RESCHEDULE jid
       (reply GW_MSG_RESCHEDULE GW_RC_SUCCESS jid) rm"

definition gw_rm_reschedule_failed :: "int \<Rightarrow> gw_rm \<Rightarrow> gw_rm" where
  "gw_rm_reschedule_failed jid rm =
     answer_all GW_MSG_RESCHEDULE GW_MSG_RESCHEDULE jid
       (reply GW_MSG_RESCHEDULE (failed_rc jid rm) jid) rm"

definition gw_rm_kill_failed :: "int \<Rightarrow> gw_rm \<Rightarrow> gw_rm" where
  "gw_rm_kill_failed jid rm =
     answer_all GW_MSG_KILL GW_MSG_KILL jid (reply GW_MSG_KILL (failed_rc jid rm) jid) rm"

definition gw_rm_submit :: "gw_msg_submit \<Rightarrow> int \<Rightarrow> gw_rm \<Rightarrow> gw_rm" where
  "gw_rm_submit msg client_socket rm = rm_send client_socket (OUT_SUBMIT msg) rm"

section \<open>Wait\<close>

text \<open>
  \<open>gw_rm_wait_remove_anys\<close>; \<open>held\<close> is the job whose mutex the caller holds.  The
  operation locks the job of every request it removes: if that is \<open>held\<close>, the thread
  waits for itself.
\<close>

function gw_rm_wait_remove_anys :: "int option \<Rightarrow> int \<Rightarrow> gw_rm \<Rightarrow> gw_rm option" where
  "gw_rm_wait_remove_anys held client_socket rm =
     (case gw_connection_list_get_by_client (rm_connections rm) GW_MSG_WAIT client_socket of
        (None, cs) \<Rightarrow> Some rm
      | (Some any, cs) \<Rightarrow>
          (case gw_job_pool_get (rm_world rm) (cn_job_id any) of
             None \<Rightarrow> gw_rm_wait_remove_anys held client_socket (rm\<lparr>rm_connections := cs\<rparr>)
           | Some job \<Rightarrow>
               if held = Some (cn_job_id any) then None
               else gw_rm_wait_remove_anys held client_socket
                 (rm\<lparr>rm_connections := cs,
                    rm_world := put_job (cn_job_id any)
                      (job\<lparr>job_client_waiting := job_client_waiting job - 1\<rparr>) (rm_world rm)\<rparr>)))"
  by auto
termination
  by (relation "measure (\<lambda>(_, _, rm). length (rm_connections rm))")
    (auto dest!: by_client.get_length [OF sym])

declare gw_rm_wait_remove_anys.simps [simp del]

lemma remove_anys_none:
  "filter (from_client GW_MSG_WAIT s) (rm_connections rm) = [] \<Longrightarrow>
     gw_rm_wait_remove_anys held s rm = Some rm"
  by (subst gw_rm_wait_remove_anys.simps)
    (simp add: by_client.get_none filter_empty_conv list_all_iff)

lemma remove_anys_length:
  "gw_rm_wait_remove_anys held s rm = Some rm' \<Longrightarrow>
     length (rm_connections rm') \<le> length (rm_connections rm)"
proof (induction held s rm rule: gw_rm_wait_remove_anys.induct)
  case (1 held s rm)
  obtain r cs where get: "gw_connection_list_get_by_client (rm_connections rm) GW_MSG_WAIT s = (r, cs)"
    by fastforce
  show ?case
  proof (cases r)
    case None
    with get 1(3) show ?thesis by (simp add: gw_rm_wait_remove_anys.simps [of held s rm])
  next
    case (Some c)
    with get have "length (rm_connections rm) = Suc (length cs)"
      by (simp add: by_client.get_length)
    with 1 get Some show ?thesis
      by (force simp: gw_rm_wait_remove_anys.simps [of held s rm] split: option.splits if_splits)
  qed
qed

text \<open>
  The loop that notifies the clients waiting for a job.  \<open>counts\<close> says whether it
  takes them off \<open>job->client_waiting\<close> (\<open>gw_rm_wait_success\<close> does, on a job it holds,
  \<open>gw_rm_kill_success\<close> does not).
\<close>

function notify_loop ::
    "int option \<Rightarrow> bool \<Rightarrow> int \<Rightarrow> gw_reply \<Rightarrow> gw_connection option \<Rightarrow> gw_rm \<Rightarrow> gw_rm option" where
  "notify_loop held counts jid msg connection rm =
     (case connection of
        None \<Rightarrow> Some rm
      | Some c \<Rightarrow> do {
          world \<leftarrow> (if counts
             then upd_job jid (\<lambda>j. j\<lparr>job_client_waiting := job_client_waiting j - 1\<rparr>) (rm_world rm)
             else Some (rm_world rm));
          let rm = rm_send (cn_socket_fs c) (OUT_REPLY msg) (rm\<lparr>rm_world := world\<rparr>);
          rm \<leftarrow> (if cn_wait_type c = GW_MSG_WAIT_ANY
             then gw_rm_wait_remove_anys held (cn_socket_fs c) rm else Some rm);
          let (connection, cs) = gw_connection_list_get (rm_connections rm) GW_MSG_WAIT jid;
          notify_loop held counts jid msg connection (rm\<lparr>rm_connections := cs\<rparr>)
        })"
  by auto
termination
proof (relation "measure (\<lambda>(_, _, _, _, c, rm). length (rm_connections rm) + (if c = None then 0 else 1))")
  fix held and counts :: bool and jid and msg :: gw_reply and connection and c :: gw_connection
    and rm rm1 rm2 :: gw_rm and world
    and r and y :: "gw_connection list" and x :: "gw_connection option"
  assume c: "connection = Some c"
    and rm1: "rm1 = rm_send (cn_socket_fs c) (OUT_REPLY msg) (rm\<lparr>rm_world := world\<rparr>)"
    and rm2: "(if cn_wait_type c = GW_MSG_WAIT_ANY
         then gw_rm_wait_remove_anys held (cn_socket_fs c) rm1 else Some rm1) = Some rm2"
    and r: "r = gw_connection_list_get (rm_connections rm2) GW_MSG_WAIT jid" "(x, y) = r"
  from rm2 have "length (rm_connections rm2) \<le> length (rm_connections rm)"
    by (auto simp: rm1 rm_send_def dest: remove_anys_length split: if_splits)
  with c r show "((held, counts, jid, msg, x, rm2\<lparr>rm_connections := y\<rparr>),
       held, counts, jid, msg, connection, rm)
      \<in> measure (\<lambda>(_, _, _, _, c, rm). length (rm_connections rm) + (if c = None then 0 else 1))"
    using by_job.get_shorter [of x y "rm_connections rm2" GW_MSG_WAIT jid]
    by (auto split: if_splits)
qed auto

declare notify_loop.simps [simp del]

definition notify_all :: "int option \<Rightarrow> bool \<Rightarrow> int \<Rightarrow> gw_reply \<Rightarrow> gw_rm \<Rightarrow> gw_rm option" where
  "notify_all held counts jid msg rm =
     (let (connection, cs) = gw_connection_list_get (rm_connections rm) GW_MSG_WAIT jid
      in notify_loop held counts jid msg connection (rm\<lparr>rm_connections := cs\<rparr>))"

text \<open>
  The job stays locked until the end, where its mutex is unlocked without a test:
  the message of an unknown job is prepared and sent, but the daemon does not survive.
\<close>

definition gw_rm_wait_success :: "int \<Rightarrow> gw_rm \<Rightarrow> gw_rm option" where
  "gw_rm_wait_success jid rm =
     (case gw_job_pool_get (rm_world rm) jid of
        None \<Rightarrow> do {
          rm \<leftarrow> notify_all None False jid (reply GW_MSG_WAIT GW_RC_FAILED_BAD_JOB_ID jid) rm;
          None
        }
      | Some job \<Rightarrow>
          notify_all (Some jid) True jid
            ((reply GW_MSG_WAIT
               (if job_job_state job = GW_JOB_STATE_FAILED then GW_RC_FAILED_JOB_FAIL
                else GW_RC_SUCCESS) jid)
             \<lparr>re_exit := Some (job_exit_code job, job_array_id job)\<rparr>) rm)"

definition gw_rm_wait_failed :: "int \<Rightarrow> gw_rm \<Rightarrow> gw_rm option" where
  "gw_rm_wait_failed jid rm =
     (let msg = reply GW_MSG_WAIT GW_RC_FAILED_BAD_JOB_ID jid in
      case gw_connection_list_get (rm_connections rm) GW_MSG_WAIT jid of
        (None, cs) \<Rightarrow> Some rm
      | (Some c, cs) \<Rightarrow>
          let rm = rm_send (cn_socket_fs c) (OUT_REPLY msg) (rm\<lparr>rm_connections := cs\<rparr>) in
          if cn_wait_type c = GW_MSG_WAIT_ANY
          then gw_rm_wait_remove_anys None (cn_socket_fs c) rm
          else Some rm)"

text \<open>
  First the clients that asked for the kill, then those that wait for the job, with the
  same message and another code.
\<close>

definition gw_rm_kill_success :: "int \<Rightarrow> gw_rm \<Rightarrow> gw_rm option" where
  "gw_rm_kill_success jid rm =
     notify_all None False jid (reply GW_MSG_KILL GW_RC_FAILED_JOB_KILLED jid)
       (answer_all GW_MSG_KILL GW_MSG_KILL jid (reply GW_MSG_KILL GW_RC_SUCCESS jid) rm)"

end
