(* ===== verification/Rm_Requests.thy ===== *)
theory Rm_Requests
  imports Rm_Replies Gw_User_Pool Gw_Host_Pool
begin

text \<open>
  The requests of the clients, \<open>gw_rm_connection\<close> and \<open>gw_rm_connection_submit\<close> of
  \<open>src/rm/gw_rm.c\<close>, with the checks of \<open>gw_rm.c\<close> before them and the questions they
  answer at once: \<open>gw_rm_job_status.c\<close>, \<open>gw_rm_job_history.c\<close>, \<open>gw_rm_host_status.c\<close>,
  \<open>gw_rm_user_status.c\<close>, \<open>gw_rm_host_match.c\<close>.
\<close>

section \<open>Checks\<close>

text \<open>\<open>strncmp (_, _, GW_MSG_STRING_SHORT) == 0\<close>.\<close>

definition gw_rm_is_gwadmin :: "gw_rm \<Rightarrow> string \<Rightarrow> bool" where
  "gw_rm_is_gwadmin rm owner \<longleftrightarrow>
     take GW_MSG_STRING_SHORT owner = take GW_MSG_STRING_SHORT (rm_gwadmin rm)"

definition gw_rm_permission_denied :: "gw_msg \<Rightarrow> gw_rm \<Rightarrow> gw_rm" where
  "gw_rm_permission_denied msg rm =
     rm_send (m_client_socket msg) (OUT_MSG (msg\<lparr>m_rc := GW_RC_FAILED_PERM\<rparr>)) rm"

definition GW_JOB_DEFAULT_PRIORITY :: int where "GW_JOB_DEFAULT_PRIORITY = - 2147483648"

text \<open>Whether the priority is granted, and the message, which gets the user's default.\<close>

definition gw_rm_check_priority :: "gw_rm \<Rightarrow> gw_msg \<Rightarrow> bool \<times> gw_msg" where
  "gw_rm_check_priority rm msg =
     (let priority = gw_sch_get_user_priority (rm_sch_conf rm) (m_owner msg) (m_group msg) in
      if m_fixed_priority msg = GW_JOB_DEFAULT_PRIORITY
      then (True, msg\<lparr>m_fixed_priority := priority\<rparr>)
      else if m_fixed_priority msg = GW_JOB_MAX_PRIORITY
      then (if \<not> gw_rm_is_gwadmin rm (m_owner msg) then (False, msg) else (True, msg))
      else if m_fixed_priority msg < GW_JOB_MIN_PRIORITY \<or> m_fixed_priority msg > GW_JOB_MAX_PRIORITY
      then (False, msg)
      else (True, msg))"

definition gw_rm_auth_user :: "gw_rm \<Rightarrow> int \<Rightarrow> string \<Rightarrow> string \<Rightarrow> bool" where
  "gw_rm_auth_user rm jid owner proxy_path =
     (if take GW_MSG_STRING_SHORT owner = take GW_MSG_STRING_SHORT (rm_gwadmin rm) then True
      else
        let (user_exists, user_id) = gw_user_pool_exists (w_users (rm_world rm)) owner proxy_path in
        if user_exists
        then (case gw_job_pool_get (rm_world rm) jid of
                None \<Rightarrow> False
              | Some job \<Rightarrow> if job_user_id job = user_id then True else False)
        else False)"

section \<open>Submissions\<close>

definition gw_rm_connection_submit :: "gw_msg \<Rightarrow> gw_template \<Rightarrow> gw_rm \<Rightarrow> gw_rm" where
  "gw_rm_connection_submit msg jt rm =
     (case m_msg_type msg of
        GW_MSG_SUBMIT \<Rightarrow>
          let (granted, msg) = gw_rm_check_priority rm msg in
          if \<not> granted then gw_rm_permission_denied msg rm
          else rm\<lparr>rm_submits := rm_submits rm @ [(''GW_DM_ALLOCATE_JOB'', msg, jt)]\<rparr>
      | GW_MSG_SUBMIT_ARRAY \<Rightarrow>
          let (granted, msg) = gw_rm_check_priority rm msg in
          if \<not> granted then gw_rm_permission_denied msg rm
          else rm\<lparr>rm_submits := rm_submits rm @ [(''GW_DM_ALLOCATE_ARRAY'', msg, jt)]\<rparr>
      | _ \<Rightarrow> rm)"

section \<open>Status\<close>

definition gw_rm_job_status :: "int \<Rightarrow> int \<Rightarrow> gw_rm \<Rightarrow> gw_rm" where
  "gw_rm_job_status client_socket jid rm =
     (case gw_job_pool_get (rm_world rm) jid of
        None \<Rightarrow> rm_send client_socket (OUT_END GW_MSG_JOB_STATUS GW_RC_FAILED_BAD_JOB_ID (Some jid)) rm
      | Some job \<Rightarrow>
          rm_send client_socket (OUT_JOB (job_to_msg (w_now (rm_world rm)) (rm_name rm jid) job)) rm)"

fun job_pool_status_from :: "int \<Rightarrow> int \<Rightarrow> nat \<Rightarrow> gw_rm \<Rightarrow> gw_rm" where
  "job_pool_status_from client_socket jid 0 rm = rm"
| "job_pool_status_from client_socket jid (Suc n) rm =
     job_pool_status_from client_socket (jid + 1) n
       (case gw_job_pool_get (rm_world rm) jid of
          None \<Rightarrow> rm | Some _ \<Rightarrow> gw_rm_job_status client_socket jid rm)"

definition gw_rm_job_pool_status :: "int \<Rightarrow> gw_rm \<Rightarrow> gw_rm" where
  "gw_rm_job_pool_status client_socket rm =
     rm_send client_socket (OUT_END GW_MSG_END GW_RC_SUCCESS None)
       (job_pool_status_from client_socket 0 (nat (conf_number_of_jobs (w_conf (rm_world rm)))) rm)"

fun send_history :: "int \<Rightarrow> gw_history list \<Rightarrow> gw_rm \<Rightarrow> gw_rm" where
  "send_history client_socket [] rm = rm"
| "send_history client_socket (r # rs) rm =
     send_history client_socket rs (rm_send client_socket (OUT_HISTORY (gw_rm_history_to_msg r)) rm)"

definition gw_rm_job_history :: "int \<Rightarrow> int \<Rightarrow> gw_rm \<Rightarrow> gw_rm" where
  "gw_rm_job_history client_socket jid rm =
     (case gw_job_pool_get (rm_world rm) jid of
        None \<Rightarrow> rm_send client_socket (OUT_END GW_MSG_JOB_HISTORY GW_RC_FAILED_BAD_JOB_ID None) rm
      | Some job \<Rightarrow>
          rm_send client_socket (OUT_END GW_MSG_END GW_RC_SUCCESS None)
            (send_history client_socket (job_history job) rm))"

definition gw_rm_host_status :: "int \<Rightarrow> int \<Rightarrow> gw_rm \<Rightarrow> gw_rm option" where
  "gw_rm_host_status client_socket host_id rm =
     (case gw_host_pool_get_host (w_hosts (rm_world rm)) host_id of
        None \<Rightarrow>
          Some (rm_send client_socket (OUT_END GW_MSG_HOST_STATUS GW_RC_FAILED_BAD_HOST_ID None) rm)
      | Some host \<Rightarrow> do {
          msg \<leftarrow> gw_rm_host_to_msg host;
          Some (rm_send client_socket (OUT_HOST msg) rm)
        })"

fun host_pool_status_from :: "int \<Rightarrow> int \<Rightarrow> nat \<Rightarrow> gw_rm \<Rightarrow> gw_rm option" where
  "host_pool_status_from client_socket hid 0 rm = Some rm"
| "host_pool_status_from client_socket hid (Suc n) rm = do {
     rm \<leftarrow> (case gw_host_pool_get_host (w_hosts (rm_world rm)) hid of
          None \<Rightarrow> Some rm | Some _ \<Rightarrow> gw_rm_host_status client_socket hid rm);
     host_pool_status_from client_socket (hid + 1) n rm
   }"

definition gw_rm_host_pool_status :: "int \<Rightarrow> gw_rm \<Rightarrow> gw_rm option" where
  "gw_rm_host_pool_status client_socket rm = do {
     rm \<leftarrow> host_pool_status_from client_socket 0 (nat (conf_number_of_hosts (w_conf (rm_world rm)))) rm;
     Some (rm_send client_socket (OUT_END GW_MSG_END GW_RC_SUCCESS None) rm)
   }"

fun user_pool_from :: "int \<Rightarrow> int \<Rightarrow> nat \<Rightarrow> gw_rm \<Rightarrow> gw_rm option" where
  "user_pool_from client_socket uid 0 rm = Some rm"
| "user_pool_from client_socket uid (Suc n) rm = do {
     info \<leftarrow> gw_user_pool_get_info (w_users (rm_world rm)) uid;
     user_pool_from client_socket (uid + 1) n
       (case info of None \<Rightarrow> rm | Some u \<Rightarrow> rm_send client_socket (OUT_USER uid u) rm)
   }"

definition gw_rm_user_pool :: "int \<Rightarrow> gw_rm \<Rightarrow> gw_rm option" where
  "gw_rm_user_pool client_socket rm = do {
     rm \<leftarrow> user_pool_from client_socket 0 (nat (conf_number_of_users (w_conf (rm_world rm)))) rm;
     Some (rm_send client_socket (OUT_END GW_MSG_END GW_RC_SUCCESS None) rm)
   }"

section \<open>Matching hosts\<close>

text \<open>The loop over the hosts; a host none of whose queues matches is not sent.\<close>

fun match_hosts_from :: "int \<Rightarrow> int \<Rightarrow> gw_job \<Rightarrow> int \<Rightarrow> nat \<Rightarrow> gw_rm \<Rightarrow> gw_rm option" where
  "match_hosts_from client_socket jid job i 0 rm = Some rm"
| "match_hosts_from client_socket jid job i (Suc n) rm =
     (case gw_host_pool_get_host (w_hosts (rm_world rm)) i of
        None \<Rightarrow> match_hosts_from client_socket jid job (i + 1) n rm
      | Some host \<Rightarrow> do {
          msg \<leftarrow> host_match_to_msg (rm_glob rm) (jt_requirements (job_template job))
                  (jt_rank (job_template job)) i jid host;
          match_hosts_from client_socket jid job (i + 1) n
            (if mc_matched msg then rm_send client_socket (OUT_MATCH msg) rm else rm)
        })"

definition gw_rm_job_match :: "int \<Rightarrow> int \<Rightarrow> gw_rm \<Rightarrow> gw_rm option" where
  "gw_rm_job_match client_socket jid rm =
     (case gw_job_pool_get (rm_world rm) jid of
        None \<Rightarrow> Some (rm_send client_socket (OUT_END GW_MSG_END_JOB GW_RC_FAILED_BAD_JOB_ID (Some jid)) rm)
      | Some job \<Rightarrow> do {
          rm \<leftarrow> match_hosts_from client_socket jid job 0
                 (nat (conf_number_of_hosts (w_conf (rm_world rm)))) rm;
          Some (rm_send client_socket (OUT_END GW_MSG_END_JOB GW_RC_SUCCESS None) rm)
        })"

text \<open>The first task of the array that has a job stands for all; without one nothing is sent.\<close>

fun first_task :: "int list \<Rightarrow> int \<Rightarrow> nat \<Rightarrow> int option option" where
  "first_task jids i 0 = Some None"
| "first_task jids i (Suc n) = do {
     jid \<leftarrow> rd jids i;
     if jid \<noteq> - 1 then Some (Some jid) else first_task jids (i + 1) n
   }"

definition gw_rm_array_match :: "int \<Rightarrow> int \<Rightarrow> gw_rm \<Rightarrow> gw_rm option" where
  "gw_rm_array_match client_socket array_id rm =
     (case gw_array_pool_get_array (w_arrays (rm_world rm)) array_id of
        None \<Rightarrow>
          Some (rm_send client_socket (OUT_END GW_MSG_END_JOB GW_RC_FAILED_BAD_JOB_ID (Some array_id)) rm)
      | Some array \<Rightarrow> do {
          task \<leftarrow> first_task (arr_job_ids array) 0 (nat (arr_number_of_tasks array));
          (case task of
             None \<Rightarrow> Some rm
           | Some jid \<Rightarrow> gw_rm_job_match client_socket jid rm)
        })"

section \<open>The dispatcher\<close>

text \<open>
  A request on a job: only its owner or the administrator may make it; the client is put
  into the list if it waits for the answer, then the action is posted.
\<close>

definition job_request :: "gw_msg \<Rightarrow> bool \<Rightarrow> string \<Rightarrow> gw_rm \<Rightarrow> gw_rm" where
  "job_request msg waits action rm =
     (if \<not> gw_rm_auth_user rm (m_job_id msg) (m_owner msg) (m_proxy_path msg)
      then gw_rm_permission_denied msg rm
      else
        let rm = (if waits
                  then rm\<lparr>rm_connections := gw_connection_list_add (rm_connections rm)
                         (m_client_socket msg) (m_msg_type msg) (m_wait_type msg) (m_job_id msg)\<rparr>
                  else rm)
        in rm\<lparr>rm_world := trigger_dm action (Some (m_job_id msg)) (rm_world rm)\<rparr>)"

text \<open>
  A wait: for any of a set, the first request starts the set; a later one is dropped if
  the client has been answered in the meantime.
\<close>

definition wait_request :: "gw_msg \<Rightarrow> gw_rm \<Rightarrow> gw_rm" where
  "wait_request msg rm =
     (if \<not> gw_rm_auth_user rm (m_job_id msg) (m_owner msg) (m_proxy_path msg)
      then gw_rm_permission_denied msg rm
      else if m_wait_type msg = GW_MSG_WAIT_ANY
        \<and> \<not> gw_connection_list_wait_in_list (rm_connections rm) GW_MSG_WAIT_ANY (m_client_socket msg)
      then rm
      else
        let msg = (if m_wait_type msg = GW_MSG_WAIT_ANY_FIRST
                   then msg\<lparr>m_wait_type := GW_MSG_WAIT_ANY\<rparr> else msg)
        in rm\<lparr>rm_connections := gw_connection_list_add (rm_connections rm)
                 (m_client_socket msg) (m_msg_type msg) (m_wait_type msg) (m_job_id msg),
              rm_world := trigger_dm ''GW_DM_WAIT'' (Some (m_job_id msg)) (rm_world rm)\<rparr>)"

text \<open>
  A change of priority: the check is made on \<open>&(msg)\<close>, the memory of the local variable,
  not on the message, and if that asks for the default priority a value is written
  there.  The job is used without a test.
\<close>

definition priority_request :: "gw_msg \<Rightarrow> gw_rm \<Rightarrow> gw_rm option" where
  "priority_request msg rm =
     (if m_fixed_priority (rm_stack rm) = GW_JOB_DEFAULT_PRIORITY then None
      else if fst (gw_rm_check_priority rm (rm_stack rm))
      then do {
        world \<leftarrow> upd_job (m_job_id msg) (\<lambda>j. j\<lparr>job_fixed_priority := m_fixed_priority msg\<rparr>) (rm_world rm);
        Some (rm\<lparr>rm_world := world\<rparr>)
      }
      else Some rm)"

definition gw_rm_connection :: "gw_msg \<Rightarrow> gw_rm \<Rightarrow> gw_rm option" where
  "gw_rm_connection msg rm =
     (case m_msg_type msg of
        GW_MSG_WAIT \<Rightarrow> Some (wait_request msg rm)
      | GW_MSG_KILL \<Rightarrow> Some (job_request msg True ''GW_DM_KILL'' rm)
      | GW_MSG_KILL_ASYNC \<Rightarrow> Some (job_request msg False ''GW_DM_KILL'' rm)
      | GW_MSG_KILL_HARD \<Rightarrow> Some (job_request msg False ''GW_DM_KILL_HARD'' rm)
      | GW_MSG_STOP \<Rightarrow> Some (job_request msg True ''GW_DM_STOP'' rm)
      | GW_MSG_STOP_ASYNC \<Rightarrow> Some (job_request msg False ''GW_DM_STOP'' rm)
      | GW_MSG_RESUME \<Rightarrow> Some (job_request msg True ''GW_DM_RESUME'' rm)
      | GW_MSG_HOLD \<Rightarrow> Some (job_request msg True ''GW_DM_HOLD'' rm)
      | GW_MSG_RELEASE \<Rightarrow> Some (job_request msg True ''GW_DM_RELEASE'' rm)
      | GW_MSG_RESCHEDULE \<Rightarrow> Some (job_request msg True ''GW_DM_RESCHEDULE'' rm)
      | GW_MSG_PRIORITY \<Rightarrow> priority_request msg rm
      | GW_MSG_JOB_STATUS \<Rightarrow> Some (gw_rm_job_status (m_client_socket msg) (m_job_id msg) rm)
      | GW_MSG_JOB_POOL_STATUS \<Rightarrow> Some (gw_rm_job_pool_status (m_client_socket msg) rm)
      | GW_MSG_HOST_STATUS \<Rightarrow> gw_rm_host_status (m_client_socket msg) (m_job_id msg) rm
      | GW_MSG_HOST_POOL_STATUS \<Rightarrow> gw_rm_host_pool_status (m_client_socket msg) rm
      | GW_MSG_JOB_HISTORY \<Rightarrow> Some (gw_rm_job_history (m_client_socket msg) (m_job_id msg) rm)
      | GW_MSG_JOB_MATCH \<Rightarrow>
          if m_array_id msg = - 1 then gw_rm_job_match (m_client_socket msg) (m_job_id msg) rm
          else gw_rm_array_match (m_client_socket msg) (m_array_id msg) rm
      | GW_MSG_USERS \<Rightarrow> gw_rm_user_pool (m_client_socket msg) rm
      | _ \<Rightarrow> Some rm)"

end
