(* ===== verification/Rm_Safety.thy ===== *)
theory Rm_Safety
  imports Rm_Requests Sch_Match
begin

text \<open>
  Properties of the requests: who may act on a job, which priorities are granted, and
  what the answers to the scheduler's questions are like.
\<close>

section \<open>Authorisation\<close>

text \<open>The owner of the job, by the entry of the user pool, or the administrator.\<close>

definition may_act :: "gw_rm \<Rightarrow> gw_msg \<Rightarrow> bool" where
  "may_act rm msg \<longleftrightarrow>
     gw_rm_is_gwadmin rm (m_owner msg)
     \<or> (\<exists>uid job. user_search (pool_slots (w_users (rm_world rm))) (m_owner msg) (m_proxy_path msg) 0 = Some uid
          \<and> gw_job_pool_get (rm_world rm) (m_job_id msg) = Some job \<and> job_user_id job = uid)"

lemma auth_user_iff:
  "gw_rm_auth_user rm (m_job_id msg) (m_owner msg) (m_proxy_path msg) \<longleftrightarrow> may_act rm msg"
  by (auto simp: gw_rm_auth_user_def may_act_def gw_rm_is_gwadmin_def gw_user_pool_exists_def
      split: option.splits)

lemma send_fields [simp]:
  "rm_world (rm_send s m rm) = rm_world rm" "rm_connections (rm_send s m rm) = rm_connections rm"
  "rm_submits (rm_send s m rm) = rm_submits rm" "rm_sent (rm_send s m rm) = rm_sent rm @ [(s, m)]"
  "rm_glob (rm_send s m rm) = rm_glob rm"
  "rm_name (rm_send s m rm) = rm_name rm"
  by (simp_all add: rm_send_def)

text \<open>A question only sends messages to the client that asks.\<close>

definition only_sends :: "int \<Rightarrow> gw_rm \<Rightarrow> gw_rm \<Rightarrow> bool" where
  "only_sends s rm rm' \<longleftrightarrow> (\<exists>ms. rm' = rm\<lparr>rm_sent := rm_sent rm @ map (Pair s) ms\<rparr>)"

lemma only_sends_refl [simp]: "only_sends s rm rm"
  by (auto simp: only_sends_def intro: exI [of _ "[]"])

lemma only_sends_send [simp]: "only_sends s rm (rm_send s m rm)"
  by (auto simp: only_sends_def rm_send_def intro: exI [of _ "[m]"])

lemma only_sends_trans:
  "only_sends s rm1 rm2 \<Longrightarrow> only_sends s rm2 rm3 \<Longrightarrow> only_sends s rm1 rm3"
  by (auto simp: only_sends_def simp flip: map_append)

lemma only_sends_then: "only_sends s rm1 rm2 \<Longrightarrow> only_sends s rm1 (rm_send s m rm2)"
  by (rule only_sends_trans [OF _ only_sends_send])

lemma only_sends_first: "only_sends s (rm_send s m rm1) rm2 \<Longrightarrow> only_sends s rm1 rm2"
  by (rule only_sends_trans [OF only_sends_send])

lemma only_sends_job_status [simp]: "only_sends s rm (gw_rm_job_status s jid rm)"
  by (simp add: gw_rm_job_status_def split: option.split)

lemma only_sends_job_pool_from: "only_sends s rm (job_pool_status_from s jid n rm)"
  by (induction s jid n rm rule: job_pool_status_from.induct)
    (auto split: option.split intro: only_sends_trans [OF only_sends_job_status])

lemma only_sends_history: "only_sends s rm (send_history s rs rm)"
  by (induction s rs rm rule: send_history.induct) (auto intro: only_sends_first)

lemma only_sends_host_status: "gw_rm_host_status s hid rm = Some rm' \<Longrightarrow> only_sends s rm rm'"
  by (auto simp: gw_rm_host_status_def bind_eq_Some_conv split: option.splits)

lemma only_sends_host_pool_from: "host_pool_status_from s hid n rm = Some rm' \<Longrightarrow> only_sends s rm rm'"
proof (induction n arbitrary: hid rm)
  case (Suc n)
  from Suc.prems obtain rm1 where "host_pool_status_from s (hid + 1) n rm1 = Some rm'"
    and "only_sends s rm rm1"
    by (auto simp: bind_eq_Some_conv split: option.splits dest: only_sends_host_status)
  with Suc.IH show ?case by (blast intro: only_sends_trans)
qed simp

lemma only_sends_user_pool_from: "user_pool_from s uid n rm = Some rm' \<Longrightarrow> only_sends s rm rm'"
proof (induction n arbitrary: uid rm)
  case (Suc n)
  from Suc.prems obtain rm1 where "user_pool_from s (uid + 1) n rm1 = Some rm'"
    and "only_sends s rm rm1"
    by (auto simp: bind_eq_Some_conv split: option.splits)
  with Suc.IH show ?case by (blast intro: only_sends_trans)
qed simp

lemma only_sends_match_from: "match_hosts_from s jid job i n rm = Some rm' \<Longrightarrow> only_sends s rm rm'"
proof (induction n arbitrary: i rm)
  case (Suc n)
  from Suc.prems obtain rm1 where "match_hosts_from s jid job (i + 1) n rm1 = Some rm'"
    and "only_sends s rm rm1"
    by (auto simp: bind_eq_Some_conv split: option.splits if_splits)
  with Suc.IH show ?case by (blast intro: only_sends_trans)
qed simp

lemma only_sends_match: "gw_rm_job_match s jid rm = Some rm' \<Longrightarrow> only_sends s rm rm'"
  by (auto simp: gw_rm_job_match_def bind_eq_Some_conv split: option.splits
      intro: only_sends_then dest: only_sends_match_from)

lemma only_sends_array_match: "gw_rm_array_match s aid rm = Some rm' \<Longrightarrow> only_sends s rm rm'"
  by (auto simp: gw_rm_array_match_def bind_eq_Some_conv split: option.splits dest: only_sends_match)

lemmas only_sends_questions = only_sends_job_pool_from only_sends_history only_sends_host_status
  only_sends_host_pool_from only_sends_user_pool_from only_sends_match only_sends_array_match

text \<open>The requests that act on a job.\<close>

definition acts :: "gw_msg_type \<Rightarrow> bool" where
  "acts t \<longleftrightarrow> t \<in> {GW_MSG_WAIT, GW_MSG_KILL, GW_MSG_KILL_ASYNC, GW_MSG_KILL_HARD, GW_MSG_STOP,
     GW_MSG_STOP_ASYNC, GW_MSG_RESUME, GW_MSG_HOLD, GW_MSG_RELEASE, GW_MSG_RESCHEDULE}"

text \<open>What an authorised request does: it posts an action, and may put the client into the list.\<close>

definition acted :: "gw_msg \<Rightarrow> gw_rm \<Rightarrow> gw_rm \<Rightarrow> bool" where
  "acted msg rm rm' \<longleftrightarrow>
     rm_sent rm' = rm_sent rm \<and> rm_submits rm' = rm_submits rm
   \<and> (\<exists>posts. rm_world rm' = (rm_world rm)\<lparr>w_dm := w_dm (rm_world rm) @ posts\<rparr>
        \<and> list_all (\<lambda>(a, arg). arg = Some (m_job_id msg)) posts \<and> length posts \<le> 1)
   \<and> (\<exists>new. rm_connections rm' = new @ rm_connections rm \<and> length new \<le> 1
        \<and> list_all (\<lambda>c. cn_socket_fs c = m_client_socket msg \<and> cn_job_id c = m_job_id msg) new)"

lemma acted_post:
  "acted msg rm (rm\<lparr>rm_world := trigger_dm a (Some (m_job_id msg)) (rm_world rm)\<rparr>)"
  by (auto simp: acted_def trigger_dm_def)

lemma acted_add_post:
  "acted msg rm (rm\<lparr>rm_connections := gw_connection_list_add (rm_connections rm)
       (m_client_socket msg) t wt (m_job_id msg),
     rm_world := trigger_dm a (Some (m_job_id msg)) (rm_world rm)\<rparr>)"
  by (auto simp: acted_def trigger_dm_def gw_connection_list_add_def)

lemma acted_refl: "acted msg rm rm"
  by (auto simp: acted_def intro: exI [of _ "[]"])

definition denied :: "gw_msg \<Rightarrow> gw_rm \<Rightarrow> gw_rm" where
  "denied msg rm = rm_send (m_client_socket msg) (OUT_MSG (msg\<lparr>m_rc := GW_RC_FAILED_PERM\<rparr>)) rm"

lemma job_request_spec:
  "if may_act rm msg then acted msg rm (job_request msg waits a rm)
   else job_request msg waits a rm = denied msg rm"
  by (simp add: job_request_def auth_user_iff gw_rm_permission_denied_def denied_def Let_def
      acted_post acted_add_post)

lemma wait_request_spec:
  "if may_act rm msg then acted msg rm (wait_request msg rm) else wait_request msg rm = denied msg rm"
  by (simp add: wait_request_def auth_user_iff gw_rm_permission_denied_def denied_def Let_def
      acted_refl acted_add_post)

lemma act_request_spec:
  assumes "gw_rm_connection msg rm = Some rm'" and "acts (m_msg_type msg)"
  shows "if may_act rm msg then acted msg rm rm' else rm' = denied msg rm"
proof -
  from assms have "rm' = wait_request msg rm \<or> (\<exists>waits a. rm' = job_request msg waits a rm)"
    by (cases "m_msg_type msg") (auto simp: gw_rm_connection_def acts_def)
  then show ?thesis using job_request_spec [of rm msg] wait_request_spec [of rm msg] by metis
qed

lemma question_spec:
  assumes "gw_rm_connection msg rm = Some rm'" and "\<not> acts (m_msg_type msg)"
    and "m_msg_type msg \<noteq> GW_MSG_PRIORITY"
  shows "only_sends (m_client_socket msg) rm rm'"
proof (cases "m_msg_type msg")
  case GW_MSG_JOB_POOL_STATUS
  with assms(1) show ?thesis
    by (auto simp: gw_rm_connection_def gw_rm_job_pool_status_def
        intro: only_sends_then only_sends_job_pool_from)
next
  case GW_MSG_JOB_HISTORY
  with assms(1) show ?thesis
    by (auto simp: gw_rm_connection_def gw_rm_job_history_def split: option.split
        intro!: only_sends_then [OF only_sends_history])
next
  case GW_MSG_HOST_STATUS
  with assms(1) show ?thesis by (simp add: gw_rm_connection_def only_sends_host_status)
next
  case GW_MSG_HOST_POOL_STATUS
  with assms(1) show ?thesis
    by (auto simp: gw_rm_connection_def gw_rm_host_pool_status_def bind_eq_Some_conv
        intro: only_sends_then dest: only_sends_host_pool_from)
next
  case GW_MSG_JOB_MATCH
  with assms(1) show ?thesis
    by (auto simp: gw_rm_connection_def only_sends_match only_sends_array_match split: if_splits)
next
  case GW_MSG_USERS
  with assms(1) show ?thesis
    by (auto simp: gw_rm_connection_def gw_rm_user_pool_def bind_eq_Some_conv
        intro: only_sends_then dest: only_sends_user_pool_from)
qed (use assms in \<open>auto simp: gw_rm_connection_def acts_def\<close>)

text \<open>C5 (safety).
  A client gets the dispatch manager to act on a job only if it is the administrator or
  the owner of the job: any other request on a job is answered with GW_RC_FAILED_PERM
  and nothing else happens; and the questions change nothing, they only send messages to
  the client that asks.  The exception is GW_MSG_PRIORITY.\<close>

theorem requests_authorised:
  assumes "gw_rm_connection msg rm = Some rm'" and "m_msg_type msg \<noteq> GW_MSG_PRIORITY"
  shows "if acts (m_msg_type msg)
    then (if may_act rm msg then acted msg rm rm' else rm' = denied msg rm)
    else only_sends (m_client_socket msg) rm rm'"
  using act_request_spec question_spec assms by auto

theorem requests_authorised_witness:
  "\<forall>rm m. let rm1 = rm\<lparr>rm_gwadmin := ''root'',
       rm_world := (rm_world rm)\<lparr>w_users := (w_users (rm_world rm))\<lparr>pool_slots := []\<rparr>\<rparr>\<rparr>;
     msg = m\<lparr>m_msg_type := GW_MSG_KILL, m_owner := ''eve''\<rparr>
     in gw_rm_connection msg rm1 = Some (denied msg rm1)"
proof (intro allI)
  fix rm :: gw_rm and m :: gw_msg
  let ?rm = "rm\<lparr>rm_gwadmin := ''root'',
       rm_world := (rm_world rm)\<lparr>w_users := (w_users (rm_world rm))\<lparr>pool_slots := []\<rparr>\<rparr>\<rparr>"
  let ?m = "m\<lparr>m_msg_type := GW_MSG_KILL, m_owner := ''eve''\<rparr>"
  have "\<not> may_act ?rm ?m"
    by (simp add: may_act_def gw_rm_is_gwadmin_def GW_MSG_STRING_SHORT_def)
  moreover have "acts (m_msg_type ?m)" by (simp add: acts_def)
  moreover obtain rm' where "gw_rm_connection ?m ?rm = Some rm'"
    by (simp add: gw_rm_connection_def)
  ultimately show "let rm1 = ?rm; msg = ?m in gw_rm_connection msg rm1 = Some (denied msg rm1)"
    using requests_authorised [of ?m ?rm rm'] by (simp add: Let_def)
qed

section \<open>Priorities\<close>

lemma check_priority_cases:
  "gw_rm_check_priority rm msg = (granted, msg') \<Longrightarrow> granted \<Longrightarrow>
     m_fixed_priority msg = GW_JOB_DEFAULT_PRIORITY
       \<and> m_fixed_priority msg' = gw_sch_get_user_priority (rm_sch_conf rm) (m_owner msg) (m_group msg)
     \<or> m_fixed_priority msg = GW_JOB_MAX_PRIORITY \<and> gw_rm_is_gwadmin rm (m_owner msg) \<and> msg' = msg
     \<or> 0 \<le> m_fixed_priority msg \<and> m_fixed_priority msg < 20 \<and> msg' = msg"
  by (auto simp: gw_rm_check_priority_def Let_def GW_JOB_MIN_PRIORITY_def GW_JOB_MAX_PRIORITY_def
      split: if_splits)

text \<open>C30 (bounds).
  Every submission passed on to the dispatch manager has a priority between 0 and 20; an
  urgent one (20) is the administrator's, or what the configuration gives the user by
  default; a submission that is not passed on is answered with GW_RC_FAILED_PERM.\<close>

theorem submission_priority_in_range:
  assumes "conf_ok (rm_sch_conf rm)" and "m_msg_type msg \<in> {GW_MSG_SUBMIT, GW_MSG_SUBMIT_ARRAY}"
  shows "let rm' = gw_rm_connection_submit msg jt rm in
     rm' = denied msg rm
     \<or> (\<exists>a msg'. rm' = rm\<lparr>rm_submits := rm_submits rm @ [(a, msg', jt)]\<rparr>
          \<and> 0 \<le> m_fixed_priority msg' \<and> m_fixed_priority msg' \<le> 20
          \<and> (m_fixed_priority msg' = 20 \<longrightarrow> gw_rm_is_gwadmin rm (m_owner msg)
               \<or> gw_sch_get_user_priority (rm_sch_conf rm) (m_owner msg) (m_group msg) = 20))"
proof -
  obtain granted msg' where check: "gw_rm_check_priority rm msg = (granted, msg')" by fastforce
  show ?thesis
  proof (cases granted)
    case True
    have "0 \<le> m_fixed_priority msg' \<and> m_fixed_priority msg' \<le> 20
        \<and> (m_fixed_priority msg' = 20 \<longrightarrow> gw_rm_is_gwadmin rm (m_owner msg)
             \<or> gw_sch_get_user_priority (rm_sch_conf rm) (m_owner msg) (m_group msg) = 20)"
      using check_priority_cases [OF check True]
        conf_ok_user_priority [OF assms(1), of "m_owner msg" "m_group msg"]
      by (auto simp: GW_JOB_MAX_PRIORITY_def)
    with check True assms(2) show ?thesis
      by (auto simp: gw_rm_connection_submit_def Let_def)
  next
    case False
    with check have "msg' = msg"
      by (auto simp: gw_rm_check_priority_def Let_def split: if_splits)
    with check False assms(2) show ?thesis
      by (auto simp: gw_rm_connection_submit_def gw_rm_permission_denied_def denied_def)
  qed
qed

theorem submission_priority_in_range_witness:
  "\<forall>c rm m jt. let rm1 = rm\<lparr>rm_sch_conf := gw_sch_conf_init c, rm_gwadmin := ''root''\<rparr>;
     msg = m\<lparr>m_msg_type := GW_MSG_SUBMIT, m_owner := ''eve''\<rparr>;
     rm' = gw_rm_connection_submit msg jt rm1
     in rm' = denied msg rm1
        \<or> (\<exists>a msg'. rm_submits rm' = rm_submits rm @ [(a, msg', jt)]
             \<and> 0 \<le> m_fixed_priority msg' \<and> m_fixed_priority msg' \<le> 20)"
proof (intro allI)
  fix c and rm :: gw_rm and m :: gw_msg and jt
  let ?rm = "rm\<lparr>rm_sch_conf := gw_sch_conf_init c, rm_gwadmin := ''root''\<rparr>"
  let ?m = "m\<lparr>m_msg_type := GW_MSG_SUBMIT, m_owner := ''eve''\<rparr>"
  have "conf_ok (rm_sch_conf ?rm)" by (simp add: conf_ok_init)
  moreover have "m_msg_type ?m \<in> {GW_MSG_SUBMIT, GW_MSG_SUBMIT_ARRAY}" by simp
  ultimately have "let rm' = gw_rm_connection_submit ?m jt ?rm in
     rm' = denied ?m ?rm
     \<or> (\<exists>a msg'. rm' = ?rm\<lparr>rm_submits := rm_submits ?rm @ [(a, msg', jt)]\<rparr>
          \<and> 0 \<le> m_fixed_priority msg' \<and> m_fixed_priority msg' \<le> 20
          \<and> (m_fixed_priority msg' = 20 \<longrightarrow> gw_rm_is_gwadmin ?rm (m_owner ?m)
               \<or> gw_sch_get_user_priority (rm_sch_conf ?rm) (m_owner ?m) (m_group ?m) = 20))"
    by (rule submission_priority_in_range)
  then show "let rm1 = ?rm; msg = ?m; rm' = gw_rm_connection_submit msg jt rm1
     in rm' = denied msg rm1
        \<or> (\<exists>a msg'. rm_submits rm' = rm_submits rm @ [(a, msg', jt)]
             \<and> 0 \<le> m_fixed_priority msg' \<and> m_fixed_priority msg' \<le> 20)"
    by (auto simp: Let_def)
qed

text \<open>A change of priority checks nothing about the message: whenever the memory behind the
  local variable happens to look like a priority below the maximum, any client sets any
  priority of any job, beyond the limits as well; and when it names a job that does not
  exist, the daemon dies.\<close>

theorem priority_not_checked:
  assumes "m_msg_type msg = GW_MSG_PRIORITY"
    and "0 \<le> m_fixed_priority (rm_stack rm)" and "m_fixed_priority (rm_stack rm) < 20"
  shows "gw_rm_connection msg rm =
     (case gw_job_pool_get (rm_world rm) (m_job_id msg) of
        None \<Rightarrow> None
      | Some job \<Rightarrow> Some (rm\<lparr>rm_world :=
          put_job (m_job_id msg) (job\<lparr>job_fixed_priority := m_fixed_priority msg\<rparr>) (rm_world rm)\<rparr>))"
proof -
  have "m_fixed_priority (rm_stack rm) \<noteq> GW_JOB_DEFAULT_PRIORITY"
    and "fst (gw_rm_check_priority rm (rm_stack rm))"
    using assms(2,3)
    by (auto simp: gw_rm_check_priority_def Let_def GW_JOB_DEFAULT_PRIORITY_def GW_JOB_MAX_PRIORITY_def
        GW_JOB_MIN_PRIORITY_def)
  then show ?thesis
    using assms(1)
    by (auto simp: gw_rm_connection_def priority_request_def upd_job_def split: option.split)
qed

theorem priority_not_checked_witness:
  "\<forall>rm m. let rm1 = rm\<lparr>rm_stack := (rm_stack rm)\<lparr>m_fixed_priority := 0\<rparr>\<rparr>;
     msg = m\<lparr>m_msg_type := GW_MSG_PRIORITY, m_job_id := - 1, m_fixed_priority := 1000\<rparr>
     in gw_rm_connection msg rm1 = None"
proof (intro allI)
  fix rm :: gw_rm and m :: gw_msg
  let ?rm = "rm\<lparr>rm_stack := (rm_stack rm)\<lparr>m_fixed_priority := 0\<rparr>\<rparr>"
  let ?m = "m\<lparr>m_msg_type := GW_MSG_PRIORITY, m_job_id := - 1, m_fixed_priority := 1000\<rparr>"
  have "gw_job_pool_get (rm_world ?rm) (- 1) = None"
    by (simp add: gw_job_pool_get_def pool_get_def slot_def)
  with priority_not_checked [of ?m ?rm] show "let rm1 = ?rm; msg = ?m in gw_rm_connection msg rm1 = None"
    by (simp add: Let_def)
qed

section \<open>Answers to the scheduler\<close>

text \<open>The messages of a match as the client library hands them to the scheduler.\<close>

definition as_reply :: "rm_msg_match \<Rightarrow> gw_msg_match" where
  "as_reply m = \<lparr>mm_host_id = mc_host_id m, mm_fixed_priority = mc_fixed_priority m,
     mm_queues = map (\<lambda>q. \<lparr>mq_name = mc_queue_name q, mq_match = (mc_match q = 1),
       mq_rank = mc_rank q, mq_slots = mc_slots q\<rparr>) (mc_queues m)\<rparr>"

text \<open>A message that is sent: of a host of the pool, some queue matches, names fit.\<close>

definition match_ok :: "gw_rm \<Rightarrow> int \<Rightarrow> rm_msg_match \<Rightarrow> bool" where
  "match_ok rm jid m \<longleftrightarrow>
     list_ex (\<lambda>q. mc_match q = 1) (mc_queues m) \<and> length (mc_queues m) \<le> GW_HOST_MAX_QUEUES
   \<and> mc_job_id m = jid \<and> length (mc_hostname m) < GW_MSG_STRING_HOST
   \<and> list_all (\<lambda>q. length (mc_queue_name q) < GW_MSG_STRING_SHORT
        \<and> (mc_match q = 1 \<or> mc_match q = 0 \<and> mc_rank q = 0 \<and> mc_slots q = 0)) (mc_queues m)
   \<and> (\<exists>h. gw_host_pool_get_host (w_hosts (rm_world rm)) (mc_host_id m) = Some h
        \<and> mc_fixed_priority m = host_fixed_priority h)"

lemma each_queue_length: "each_queue f h i n = Some xs \<Longrightarrow> length xs \<le> n"
proof (induction n arbitrary: i xs)
  case (Suc n)
  from Suc.prems obtain ys where "each_queue f h (i + 1) n = Some ys" "length xs \<le> Suc (length ys)"
    by (auto simp: bind_eq_Some_conv split: option.splits)
  with Suc.IH [of "i + 1" ys] show ?case by simp
qed simp

lemma each_queue_all:
  assumes "each_queue f h i n = Some xs" and "\<And>i q x. f i q = Some x \<Longrightarrow> P x"
  shows "list_all P xs"
  using assms(1)
proof (induction n arbitrary: i xs)
  case (Suc n)
  from Suc.prems obtain ys where "each_queue f h (i + 1) n = Some ys"
    "xs = ys \<or> (\<exists>q x. f i q = Some x \<and> xs = x # ys)"
    by (fastforce simp: bind_eq_Some_conv split: option.splits)
  with Suc.IH [of "i + 1" ys] assms(2) show ?case by auto
qed simp

lemma host_match_ok:
  assumes "host_match_to_msg glob reqs rank i jid h = Some m" and "mc_matched m"
    and "gw_host_pool_get_host (w_hosts (rm_world rm)) i = Some h"
  shows "match_ok rm jid m"
proof -
  from assms(1) obtain qs where qs: "each_queue (match_queue_to_msg glob reqs rank h) h 0 GW_HOST_MAX_QUEUES = Some qs"
    and m: "m = \<lparr>mc_host_id = i, mc_job_id = jid, mc_fixed_priority = host_fixed_priority h,
           mc_matched = list_ex (\<lambda>q. mc_match q = 1) qs,
           mc_hostname = gw_rm_copy_str_host (Some (host_hostname h)),
           mc_running_jobs = host_running_jobs h, mc_queues = qs\<rparr>"
    by (auto simp: host_match_to_msg_def bind_eq_Some_conv)
  have "list_all (\<lambda>q. length (mc_queue_name q) < GW_MSG_STRING_SHORT
      \<and> (mc_match q = 1 \<or> mc_match q = 0 \<and> mc_rank q = 0 \<and> mc_slots q = 0)) qs"
    by (rule each_queue_all [OF qs])
      (auto simp: match_queue_to_msg_def bind_eq_Some_conv Let_def gw_rm_copy_str_short_def
        GW_MSG_STRING_SHORT_def copy_str_fits split: if_splits)
  with each_queue_length [OF qs] assms(2,3) show ?thesis
    by (simp add: match_ok_def m gw_rm_copy_str_host_def GW_MSG_STRING_HOST_def copy_str_fits)
qed

text \<open>Whether the code finds a queue of the host that satisfies the requirements.\<close>

definition some_match :: "(string \<Rightarrow> string \<Rightarrow> bool) \<Rightarrow> string option \<Rightarrow> gw_host \<Rightarrow> bool" where
  "some_match glob reqs h \<longleftrightarrow> list_ex (\<lambda>(i, q). gw_host_check_reqs glob (Some h) i reqs = Some True) (named_queues h)"

text \<open>The requirements have a value on every named queue of the host, and the rank has one where they are true.\<close>

definition evaluates :: "(string \<Rightarrow> string \<Rightarrow> bool) \<Rightarrow> string option \<Rightarrow> string option \<Rightarrow> gw_host \<Rightarrow> bool" where
  "evaluates glob reqs rank h \<longleftrightarrow> list_all (\<lambda>(i, q). gw_host_check_reqs glob (Some h) i reqs \<noteq> None
     \<and> (gw_host_check_reqs glob (Some h) i reqs = Some True \<longrightarrow> gw_host_compute_rank (Some h) i rank \<noteq> None))
     (named_queues h)"

lemma match_queue_outcome:
  assumes "host_tables h" and "0 \<le> j" and "j < int GW_HOST_MAX_QUEUES"
  shows "match_queue_to_msg glob reqs rank h j q = None \<longleftrightarrow>
      \<not> (gw_host_check_reqs glob (Some h) j reqs \<noteq> None
       \<and> (gw_host_check_reqs glob (Some h) j reqs = Some True \<longrightarrow> gw_host_compute_rank (Some h) j rank \<noteq> None))"
    and "match_queue_to_msg glob reqs rank h j q = Some y \<Longrightarrow>
      mc_match y = 1 \<longleftrightarrow> gw_host_check_reqs glob (Some h) j reqs = Some True"
proof -
  from assms obtain a b c d where
    "rd (host_queue_maxjobsinqueue h) j = Some a" "rd (host_queue_running_jobs h) j = Some b"
    "rd (host_queue_maxrunningjobs h) j = Some c" "rd (host_queue_active_jobs h) j = Some d"
    by (auto simp: host_tables_def rd_def)
  note r = this
  show "match_queue_to_msg glob reqs rank h j q = None \<longleftrightarrow>
      \<not> (gw_host_check_reqs glob (Some h) j reqs \<noteq> None
       \<and> (gw_host_check_reqs glob (Some h) j reqs = Some True \<longrightarrow> gw_host_compute_rank (Some h) j rank \<noteq> None))"
    using r by (cases "gw_host_check_reqs glob (Some h) j reqs"; cases "gw_host_compute_rank (Some h) j rank")
      (simp_all add: match_queue_to_msg_def Let_def)
  show "match_queue_to_msg glob reqs rank h j q = Some y \<Longrightarrow>
      mc_match y = 1 \<longleftrightarrow> gw_host_check_reqs glob (Some h) j reqs = Some True"
    by (auto simp: match_queue_to_msg_def Let_def bind_eq_Some_conv split: if_splits)
qed

lemma list_all_pairs:
  "(\<And>j q. (j, q) \<in> set xs \<Longrightarrow> f j q = g j q) \<Longrightarrow> list_all (\<lambda>(j, q). f j q) xs = list_all (\<lambda>(j, q). g j q) xs"
  by (induction xs) auto

lemma list_ex_pairs:
  "(\<And>j q. (j, q) \<in> set xs \<Longrightarrow> P (f j q) = g j q) \<Longrightarrow> list_ex P (map (\<lambda>(j, q). f j q) xs) = list_ex (\<lambda>(j, q). g j q) xs"
  by (induction xs) auto

lemma host_match_outcome:
  assumes "host_tables h"
  shows "case host_match_to_msg glob reqs rank i jid h of
      None \<Rightarrow> \<not> evaluates glob reqs rank h
    | Some m \<Rightarrow> evaluates glob reqs rank h \<and> mc_host_id m = i \<and> mc_matched m = some_match glob reqs h"
proof -
  have len: "length (host_queue_name h) = GW_HOST_MAX_QUEUES"
    using assms by (simp add: host_tables_def)
  let ?f = "match_queue_to_msg glob reqs rank h"
  have range: "0 \<le> j \<and> j < int GW_HOST_MAX_QUEUES" if "(j, q) \<in> set (named_queues h)" for j q
    using named_queues_range [OF that] len by simp
  have ev: "list_all (\<lambda>(i, q). ?f i q \<noteq> None) (named_queues h) \<longleftrightarrow> evaluates glob reqs rank h"
  proof -
    have "?f j q \<noteq> None \<longleftrightarrow> gw_host_check_reqs glob (Some h) j reqs \<noteq> None
        \<and> (gw_host_check_reqs glob (Some h) j reqs = Some True \<longrightarrow> gw_host_compute_rank (Some h) j rank \<noteq> None)"
      if "(j, q) \<in> set (named_queues h)" for j q
      unfolding match_queue_outcome(1) [OF assms conjunct1 [OF range [OF that]] conjunct2 [OF range [OF that]]] not_not
      by (rule refl)
    then show ?thesis unfolding evaluates_def by (rule list_all_pairs)
  qed
  have match: "list_ex (\<lambda>q. mc_match q = 1) (map (\<lambda>(i, q). the (?f i q)) (named_queues h)) = some_match glob reqs h"
    if "evaluates glob reqs rank h"
  proof -
    have "mc_match (the (?f j q)) = 1 \<longleftrightarrow> gw_host_check_reqs glob (Some h) j reqs = Some True"
      if jq: "(j, q) \<in> set (named_queues h)" for j q
    proof -
      have "?f j q \<noteq> None" using ev \<open>evaluates glob reqs rank h\<close> jq by (auto simp: list_all_iff)
      then show ?thesis using match_queue_outcome(2) [OF assms] range [OF jq] by auto
    qed
    then show ?thesis unfolding some_match_def by (rule list_ex_pairs)
  qed
  show ?thesis
    using ev match each_queue_named [OF len, of ?f] by (simp add: host_match_to_msg_def)
qed

lemma match_ok_send [simp]: "match_ok (rm_send s m rm) = match_ok rm"
  by (simp add: match_ok_def fun_eq_iff)

definition tables_ok :: "gw_rm \<Rightarrow> bool" where
  "tables_ok rm \<longleftrightarrow>
     (\<forall>i h. gw_host_pool_get_host (w_hosts (rm_world rm)) i = Some h \<longrightarrow> host_tables h)"

text \<open>The hosts of the pool that match a job, in the order of their numbers.\<close>

definition matching_hosts :: "gw_rm \<Rightarrow> gw_job \<Rightarrow> int list \<Rightarrow> int list" where
  "matching_hosts rm job = filter (\<lambda>k.
     case gw_host_pool_get_host (w_hosts (rm_world rm)) k of
       None \<Rightarrow> False
     | Some h \<Rightarrow> some_match (rm_glob rm) (jt_requirements (job_template job)) h)"

text \<open>No evaluation for the job on these hosts crashes.\<close>

definition hosts_evaluate :: "gw_rm \<Rightarrow> gw_job \<Rightarrow> int list \<Rightarrow> bool" where
  "hosts_evaluate rm job = list_all (\<lambda>k.
     case gw_host_pool_get_host (w_hosts (rm_world rm)) k of
       None \<Rightarrow> True
     | Some h \<Rightarrow> evaluates (rm_glob rm) (jt_requirements (job_template job)) (jt_rank (job_template job)) h)"

text \<open>The message is that of the host it names.\<close>

definition made_for :: "gw_rm \<Rightarrow> int \<Rightarrow> gw_job \<Rightarrow> rm_msg_match \<Rightarrow> bool" where
  "made_for rm jid job m \<longleftrightarrow> (\<exists>h. gw_host_pool_get_host (w_hosts (rm_world rm)) (mc_host_id m) = Some h
     \<and> host_match_to_msg (rm_glob rm) (jt_requirements (job_template job)) (jt_rank (job_template job))
         (mc_host_id m) jid h = Some m)"

lemma match_send [simp]:
  "made_for (rm_send s m rm) = made_for rm"
  "matching_hosts (rm_send s m rm) = matching_hosts rm" "hosts_evaluate (rm_send s m rm) = hosts_evaluate rm"
  unfolding made_for_def matching_hosts_def hosts_evaluate_def send_fields by (rule refl)+

lemma match_hosts_spec:
  "tables_ok rm \<Longrightarrow>
    case match_hosts_from s jid job i n rm of
      None \<Rightarrow> \<not> hosts_evaluate rm job [i .. i + int n - 1]
    | Some rm' \<Rightarrow> hosts_evaluate rm job [i .. i + int n - 1] \<and> (\<exists>ms. rm_sent rm' = rm_sent rm @ map (\<lambda>m. (s, OUT_MATCH m)) ms
        \<and> list_all (match_ok rm jid) ms \<and> list_all (made_for rm jid job) ms
        \<and> map mc_host_id ms = matching_hosts rm job [i .. i + int n - 1])"
proof (induction n arbitrary: i rm)
  case 0
  then show ?case by (simp add: matching_hosts_def hosts_evaluate_def)
next
  case (Suc n)
  let ?get = "gw_host_pool_get_host (w_hosts (rm_world rm)) i"
  have upto: "[i .. i + int (Suc n) - 1] = i # [i + 1 .. (i + 1) + int n - 1]"
    by (subst upto_rec1) auto
  show ?case
  proof (cases ?get)
    case None
    then have "hosts_evaluate rm job (i # js) = hosts_evaluate rm job js"
      "matching_hosts rm job (i # js) = matching_hosts rm job js" for js
      by (simp_all add: matching_hosts_def hosts_evaluate_def)
    with None Suc.IH [OF Suc.prems, of "i + 1"] show ?thesis
      unfolding upto by (cases "match_hosts_from s jid job (i + 1) n rm") simp_all
  next
    case (Some h)
    with Suc.prems have tables: "host_tables h" by (auto simp: tables_ok_def)
    let ?msg = "host_match_to_msg (rm_glob rm) (jt_requirements (job_template job)) (jt_rank (job_template job)) i jid h"
    note out = host_match_outcome [OF tables, of "rm_glob rm" "jt_requirements (job_template job)"
        "jt_rank (job_template job)" i jid]
    show ?thesis
    proof (cases ?msg)
      case None
      with out Some show ?thesis unfolding upto by (simp add: hosts_evaluate_def)
    next
      case m: (Some m)
      with out have ev: "evaluates (rm_glob rm) (jt_requirements (job_template job)) (jt_rank (job_template job)) h"
        "mc_host_id m = i" "mc_matched m = some_match (rm_glob rm) (jt_requirements (job_template job)) h" by simp_all
      let ?rm = "if mc_matched m then rm_send s (OUT_MATCH m) rm else rm"
      have run: "match_hosts_from s jid job i (Suc n) rm = match_hosts_from s jid job (i + 1) n ?rm"
        using Some m by simp
      have split: "hosts_evaluate rm job [i .. i + int (Suc n) - 1] = hosts_evaluate rm job [i + 1 .. (i + 1) + int n - 1]"
        "matching_hosts rm job [i .. i + int (Suc n) - 1] =
           (if mc_matched m then [i] else []) @ matching_hosts rm job [i + 1 .. (i + 1) + int n - 1]"
        unfolding upto using Some ev by (simp_all add: hosts_evaluate_def matching_hosts_def)
      have "tables_ok ?rm" using Suc.prems by (simp add: tables_ok_def)
      note IH = Suc.IH [OF this, of "i + 1"]
      show ?thesis
      proof (cases "match_hosts_from s jid job (i + 1) n ?rm")
        case None
        with IH run split(1) show ?thesis by (cases "mc_matched m") simp_all
      next
        case r: (Some rm')
        with IH obtain ms where ms: "hosts_evaluate rm job [i + 1 .. (i + 1) + int n - 1]"
          "rm_sent rm' = rm_sent ?rm @ map (\<lambda>m. (s, OUT_MATCH m)) ms" "list_all (match_ok rm jid) ms"
          "list_all (made_for rm jid job) ms" "map mc_host_id ms = matching_hosts rm job [i + 1 .. (i + 1) + int n - 1]"
          by (cases "mc_matched m") auto
        have "mc_matched m \<Longrightarrow> match_ok rm jid m" by (rule host_match_ok [OF m _ Some])
        moreover have "made_for rm jid job m" using Some m ev(2) by (simp add: made_for_def)
        ultimately show ?thesis using ms r run split ev(2)
          by (cases "mc_matched m") (auto intro!: exI [of _ "(if mc_matched m then [m] else []) @ ms"])
      qed
    qed
  qed
qed

lemma match_run:
  assumes "tables_ok rm" and "gw_job_pool_get (rm_world rm) jid = Some job"
  shows "case gw_rm_job_match s jid rm of
      None \<Rightarrow> \<not> hosts_evaluate rm job [0 .. conf_number_of_hosts (w_conf (rm_world rm)) - 1]
    | Some rm' \<Rightarrow> hosts_evaluate rm job [0 .. conf_number_of_hosts (w_conf (rm_world rm)) - 1]
      \<and> (\<exists>ms. rm_sent rm' = rm_sent rm @ map (\<lambda>m. (s, OUT_MATCH m)) ms @ [(s, OUT_END GW_MSG_END_JOB GW_RC_SUCCESS None)]
        \<and> map mc_host_id ms = matching_hosts rm job [0 .. conf_number_of_hosts (w_conf (rm_world rm)) - 1]
        \<and> list_all (match_ok rm jid) ms \<and> list_all (made_for rm jid job) ms \<and> reply_ok (map as_reply ms))"
proof -
  let ?n = "conf_number_of_hosts (w_conf (rm_world rm))"
  have "[0 .. int (nat ?n) - 1] = [0 .. ?n - 1]" by (cases "0 \<le> ?n") auto
  note spec = match_hosts_spec [where s = s and jid = jid and job = job and i = 0 and n = "nat ?n", OF assms(1),
    simplified add_0_left this]
  have reply: "reply_ok (map as_reply ms)" if "list_all (match_ok rm jid) ms" for ms
    using that by (auto simp: reply_ok_def list_all_iff match_ok_def as_reply_def)
  show ?thesis
  proof (cases "match_hosts_from s jid job 0 (nat ?n) rm")
    case None
    with spec assms(2) show ?thesis by (simp add: gw_rm_job_match_def)
  next
    case (Some rm')
    with spec assms(2) reply show ?thesis by (auto simp: gw_rm_job_match_def)
  qed
qed

text \<open>C13 (refinement).
  The answer to a match request on a job of the pool, when the hosts of the pool have
  their tables.  Unless the evaluation of the requirements or the rank crashes on a queue of a
  host, which ends the daemon, it sends one message for each host one of whose queues satisfies
  the requirements, in the order of the hosts, each well formed, and ends with a success.
  Read by the client library, it is a reply as the scheduler assumes it: no host
  without queues.\<close>

theorem job_match_reply:
  assumes "tables_ok rm" and "gw_job_pool_get (rm_world rm) jid = Some job"
  shows "case gw_rm_job_match s jid rm of
      None \<Rightarrow> \<not> hosts_evaluate rm job [0 .. conf_number_of_hosts (w_conf (rm_world rm)) - 1]
    | Some rm' \<Rightarrow> hosts_evaluate rm job [0 .. conf_number_of_hosts (w_conf (rm_world rm)) - 1]
      \<and> (\<exists>ms. rm_sent rm' = rm_sent rm @ map (\<lambda>m. (s, OUT_MATCH m)) ms @ [(s, OUT_END GW_MSG_END_JOB GW_RC_SUCCESS None)]
        \<and> map mc_host_id ms = matching_hosts rm job [0 .. conf_number_of_hosts (w_conf (rm_world rm)) - 1]
        \<and> list_all (match_ok rm jid) ms \<and> reply_ok (map as_reply ms))"
  using match_run [OF assms, of s] by (auto split: option.splits)

text \<open>A host with one queue, on which a job of a small pool may run.\<close>

definition match_host :: gw_host where
  "match_host = (gw_host_init ''node'' 0 1 ''gram'' ''ftp'' ''mds'')
     \<lparr>host_queue_name := Some ''short'' # replicate 66 None\<rparr>"

lemma example_requirements: "jt_requirements (job_template example_job) = None" "jt_rank (job_template example_job) = None"
  by (simp_all add: example_job_def gw_job_template_init_def example_template_def gw_job_template_set_str_def)

theorem job_match_reply_witness:
  "\<forall>rm. \<exists>rm' ms. gw_rm_job_match 4 0
       (rm\<lparr>rm_world := (rm_world rm)\<lparr>
            w_conf := example_conf\<lparr>conf_number_of_hosts := 1\<rparr>,
            w_hosts := (w_hosts (rm_world rm))\<lparr>pool_slots := [Some match_host]\<rparr>,
            w_jobs := (w_jobs (rm_world rm))\<lparr>pool_slots := [Some example_job]\<rparr>\<rparr>\<rparr>) = Some rm'
     \<and> map mc_host_id ms = [0] \<and> reply_ok (map as_reply ms)"
proof
  fix rm :: gw_rm
  let ?rm = "rm\<lparr>rm_world := (rm_world rm)\<lparr>
            w_conf := example_conf\<lparr>conf_number_of_hosts := 1\<rparr>,
            w_hosts := (w_hosts (rm_world rm))\<lparr>pool_slots := [Some match_host]\<rparr>,
            w_jobs := (w_jobs (rm_world rm))\<lparr>pool_slots := [Some example_job]\<rparr>\<rparr>\<rparr>"
  have "host_tables match_host"
    by (simp add: match_host_def host_tables_def gw_host_init_def Let_def GW_HOST_MAX_QUEUES_def)
  then have tables: "tables_ok ?rm"
    by (auto simp: tables_ok_def gw_host_pool_get_host_def pool_get_def slot_def rd_def
        split: option.splits if_splits)
  have job: "gw_job_pool_get (rm_world ?rm) 0 = Some example_job"
    by (simp add: gw_job_pool_get_def pool_get_def slot_def rd_def)
  have "gw_host_pool_get_host (w_hosts (rm_world ?rm)) 0 = Some match_host"
    by (simp add: gw_host_pool_get_host_def pool_get_def slot_def rd_def)
  then have hosts: "matching_hosts ?rm example_job [0 .. conf_number_of_hosts (w_conf (rm_world ?rm)) - 1] = [0]"
    by (simp add: matching_hosts_def some_match_def named_queues_def match_host_def gw_host_check_reqs_def example_requirements)
  have "hosts_evaluate ?rm example_job [0 .. conf_number_of_hosts (w_conf (rm_world ?rm)) - 1]"
    using \<open>gw_host_pool_get_host (w_hosts (rm_world ?rm)) 0 = Some match_host\<close>
    by (simp add: hosts_evaluate_def evaluates_def gw_host_check_reqs_def gw_host_compute_rank_def example_requirements
        list_all_iff)
  then obtain rm' ms where "gw_rm_job_match 4 0 ?rm = Some rm'"
    "map mc_host_id ms = matching_hosts ?rm example_job [0 .. conf_number_of_hosts (w_conf (rm_world ?rm)) - 1]"
    "reply_ok (map as_reply ms)"
    using job_match_reply [OF tables job, of 4] by (auto split: option.splits)
  then have "gw_rm_job_match 4 0 ?rm = Some rm' \<and> map mc_host_id ms = [0] \<and> reply_ok (map as_reply ms)"
    unfolding hosts by (intro conjI)
  then show "\<exists>rm' ms. gw_rm_job_match 4 0 ?rm = Some rm' \<and> map mc_host_id ms = [0]
      \<and> reply_ok (map as_reply ms)"
    by (intro exI)
qed

text \<open>
  An array without a live task: nothing at all is sent, not even the end, for which the
  client waits.
\<close>

lemma array_match_silent:
  assumes "gw_array_pool_get_array (w_arrays (rm_world rm)) aid = Some array"
    and "list_all (\<lambda>j. j = - 1) (arr_job_ids array)"
    and "arr_number_of_tasks array = int (length (arr_job_ids array))"
  shows "gw_rm_array_match s aid rm = Some rm"
proof -
  have "first_task (arr_job_ids array) i n = Some None"
    if "list_all (\<lambda>j. j = - 1) (arr_job_ids array)" "0 \<le> i" "i + int n \<le> int (length (arr_job_ids array))" for i n
    using that
  proof (induction n arbitrary: i)
    case (Suc n)
    then have "rd (arr_job_ids array) i = Some (- 1)"
      by (auto simp: rd_def list_all_length)
    with Suc.IH [of "i + 1"] Suc.prems show ?case by simp
  qed simp
  from this [of 0 "length (arr_job_ids array)"] assms show ?thesis
    by (simp add: gw_rm_array_match_def)
qed

end
