(* ===== verification/Rm_Answers.thy ===== *)
theory Rm_Answers
  imports Rm_Replies
begin

text \<open>
  What the answers of the request manager amount to: which clients get a message and
  which requests stay in the list.  The loops of \<open>Rm_Replies\<close> are characterised with
  \<open>filter\<close>; the properties follow for each handler.
\<close>

section \<open>The loops\<close>

text \<open>A message for each connection of a list.\<close>

definition to_each :: "gw_reply \<Rightarrow> gw_connection list \<Rightarrow> (int \<times> rm_out) list" where
  "to_each msg cs = map (\<lambda>c. (cn_socket_fs c, OUT_REPLY msg)) cs"

text \<open>The requests of a kind for a job are answered: they leave the list.\<close>

definition answered :: "gw_msg_type \<Rightarrow> int \<Rightarrow> gw_reply \<Rightarrow> gw_rm \<Rightarrow> gw_rm" where
  "answered t jid msg rm =
     rm\<lparr>rm_connections := filter (\<lambda>c. \<not> asks t jid c) (rm_connections rm),
        rm_sent := rm_sent rm @ to_each msg (filter (asks t jid) (rm_connections rm))\<rparr>"

lemma filter_not_asks_get:
  "gw_connection_list_get cs t jid = (Some c, cs') \<Longrightarrow>
     filter (\<lambda>c. \<not> asks t jid c) cs' = filter (\<lambda>c. \<not> asks t jid c) cs"
  using by_job.get_wanted [of cs t jid c cs']
  by (intro by_job.get_others [of cs t jid c cs']) auto

lemma answer_loop_eq:
  "answer_loop t jid msg connection rm =
     (case connection of
        None \<Rightarrow> rm
      | Some c \<Rightarrow> answered t jid msg (rm_send (cn_socket_fs c) (OUT_REPLY msg) rm))"
proof (induction t jid msg connection rm rule: answer_loop.induct)
  case (1 t jid msg connection rm)
  show ?case
  proof (cases connection)
    case None
    then show ?thesis by (simp add: answer_loop.simps)
  next
    case (Some c)
    let ?rm = "rm_send (cn_socket_fs c) (OUT_REPLY msg) rm"
    obtain r cs where get: "gw_connection_list_get (rm_connections ?rm) t jid = (r, cs)"
      by fastforce
    have step: "answer_loop t jid msg connection rm = answer_loop t jid msg r (?rm\<lparr>rm_connections := cs\<rparr>)"
      using get unfolding Some by (subst answer_loop.simps) (simp add: Let_def)
    have IH: "answer_loop t jid msg r (?rm\<lparr>rm_connections := cs\<rparr>) =
        (case r of None \<Rightarrow> ?rm\<lparr>rm_connections := cs\<rparr>
         | Some d \<Rightarrow> answered t jid msg (rm_send (cn_socket_fs d) (OUT_REPLY msg) (?rm\<lparr>rm_connections := cs\<rparr>)))"
      by (rule 1 [OF Some refl refl]) (use get in simp)
    show ?thesis
    proof (cases r)
      case None
      with get have "filter (asks t jid) (rm_connections ?rm) = []" "cs = rm_connections ?rm"
        by (auto dest: by_job.get_none_filter)
      with step IH None Some show ?thesis
        by (simp add: answered_def to_each_def filter_empty_conv cong: filter_cong)
    next
      case (Some d)
      with get have "filter (asks t jid) (rm_connections ?rm) = d # filter (asks t jid) cs"
        "filter (\<lambda>c. \<not> asks t jid c) cs = filter (\<lambda>c. \<not> asks t jid c) (rm_connections ?rm)"
        by (auto dest: by_job.get_filter filter_not_asks_get)
      with step IH Some \<open>connection = Some c\<close> show ?thesis
        by (simp add: answered_def to_each_def rm_send_def)
    qed
  qed
qed

lemma answer_all_eq: "answer_all t t jid msg rm = answered t jid msg rm"
proof -
  obtain r cs where get: "gw_connection_list_get (rm_connections rm) t jid = (r, cs)" by fastforce
  show ?thesis
  proof (cases r)
    case None
    with get have "filter (asks t jid) (rm_connections rm) = []" "cs = rm_connections rm"
      by (auto dest: by_job.get_none_filter)
    with get None show ?thesis
      by (simp add: answer_all_def answer_loop_eq answered_def to_each_def filter_empty_conv cong: filter_cong)
  next
    case (Some d)
    with get have "filter (asks t jid) (rm_connections rm) = d # filter (asks t jid) cs"
      "filter (\<lambda>c. \<not> asks t jid c) cs = filter (\<lambda>c. \<not> asks t jid c) (rm_connections rm)"
      by (auto dest: by_job.get_filter filter_not_asks_get)
    with get Some show ?thesis
      by (simp add: answer_all_def answer_loop_eq answered_def to_each_def rm_send_def)
  qed
qed

lemmas plain_handlers =
  gw_rm_hold_success_def gw_rm_hold_failed_def gw_rm_release_success_def gw_rm_release_failed_def
  gw_rm_stop_success_def gw_rm_stop_failed_def gw_rm_resume_success_def
  gw_rm_reschedule_success_def gw_rm_reschedule_failed_def gw_rm_kill_failed_def

text \<open>The answer to a request that waits in the list (hold, release, stop, reschedule, kill,
  and the success of a resume): every client that asked for it on this job gets one
  message of the same kind with the same job and the code of the outcome, the oldest
  request last; these requests leave the list; all others, and the daemon's state, are
  left alone.\<close>

theorem requests_answered:
  "gw_rm_hold_success jid rm = answered GW_MSG_HOLD jid (reply GW_MSG_HOLD GW_RC_SUCCESS jid) rm
   \<and> gw_rm_hold_failed jid rm = answered GW_MSG_HOLD jid (reply GW_MSG_HOLD (failed_rc jid rm) jid) rm
   \<and> gw_rm_release_success jid rm = answered GW_MSG_RELEASE jid (reply GW_MSG_RELEASE GW_RC_SUCCESS jid) rm
   \<and> gw_rm_release_failed jid rm = answered GW_MSG_RELEASE jid (reply GW_MSG_RELEASE (failed_rc jid rm) jid) rm
   \<and> gw_rm_stop_success jid rm = answered GW_MSG_STOP jid (reply GW_MSG_STOP GW_RC_SUCCESS jid) rm
   \<and> gw_rm_stop_failed jid rm = answered GW_MSG_STOP jid (reply GW_MSG_STOP (failed_rc jid rm) jid) rm
   \<and> gw_rm_resume_success jid rm = answered GW_MSG_RESUME jid (reply GW_MSG_RESUME GW_RC_SUCCESS jid) rm
   \<and> gw_rm_reschedule_success jid rm =
        answered GW_MSG_RESCHEDULE jid (reply GW_MSG_RESCHEDULE GW_RC_SUCCESS jid) rm
   \<and> gw_rm_reschedule_failed jid rm =
        answered GW_MSG_RESCHEDULE jid (reply GW_MSG_RESCHEDULE (failed_rc jid rm) jid) rm
   \<and> gw_rm_kill_failed jid rm = answered GW_MSG_KILL jid (reply GW_MSG_KILL (failed_rc jid rm) jid) rm"
  by (simp add: plain_handlers answer_all_eq)

text \<open>A failed resume, on the other hand: only the newest request is answered, with a
  message of the kind RELEASE; the other clients that wait for the resume are not, and
  every client that waits for the release of the job is told that it failed.\<close>

theorem resume_failed_answers_releases:
  "(case filter (asks GW_MSG_RESUME jid) (rm_connections rm) of
      [] \<Rightarrow> gw_rm_resume_failed jid rm = rm
    | c # others \<Rightarrow>
        let rm' = gw_rm_resume_failed jid rm;
            msg = reply GW_MSG_RELEASE (failed_rc jid rm) jid
        in rm_sent rm' = rm_sent rm @ to_each msg (c # filter (asks GW_MSG_RELEASE jid) (rm_connections rm))
         \<and> filter (asks GW_MSG_RESUME jid) (rm_connections rm') = others
         \<and> filter (asks GW_MSG_RELEASE jid) (rm_connections rm') = [])"
proof -
  obtain r cs where get: "gw_connection_list_get (rm_connections rm) GW_MSG_RESUME jid = (r, cs)"
    by fastforce
  show ?thesis
  proof (cases r)
    case None
    with get have "filter (asks GW_MSG_RESUME jid) (rm_connections rm) = []" "cs = rm_connections rm"
      by (auto dest: by_job.get_none_filter)
    with get None show ?thesis
      by (simp add: gw_rm_resume_failed_def answer_all_def answer_loop_eq)
  next
    case (Some c)
    with get have c: "asks GW_MSG_RESUME jid c"
      and resumes: "filter (asks GW_MSG_RESUME jid) (rm_connections rm) = c # filter (asks GW_MSG_RESUME jid) cs"
      by (auto dest: by_job.get_filter by_job.get_wanted)
    then have "filter (asks GW_MSG_RELEASE jid) cs = filter (asks GW_MSG_RELEASE jid) (rm_connections rm)"
      using get Some by (intro by_job.get_others) (auto simp: asks_def)
    moreover have "filter (\<lambda>x. asks GW_MSG_RESUME jid x \<and> \<not> asks GW_MSG_RELEASE jid x) cs
        = filter (asks GW_MSG_RESUME jid) cs"
      by (rule filter_cong) (auto simp: asks_def)
    ultimately show ?thesis using get Some resumes
      by (simp add: gw_rm_resume_failed_def answer_all_def answer_loop_eq answered_def to_each_def
          rm_send_def Let_def conj_commute)
  qed
qed

end
