(* ===== verification/Rm_Waiters.thy ===== *)
theory Rm_Waiters
  imports Rm_Answers
begin

text \<open>
  The clients that wait for jobs.  \<open>job->client_waiting\<close> counts the requests to wait
  for a job that the dispatch manager has seen; the request manager takes them off when
  it answers.  The account is kept here by \<open>owed\<close>: the job with the count less the
  requests in the list.
\<close>

definition waiters :: "gw_rm \<Rightarrow> int \<Rightarrow> gw_connection list" where
  "waiters rm jid = filter (asks GW_MSG_WAIT jid) (rm_connections rm)"

definition owed :: "gw_rm \<Rightarrow> int \<Rightarrow> gw_job option" where
  "owed rm jid = map_option
     (\<lambda>j. j\<lparr>job_client_waiting := job_client_waiting j - int (length (waiters rm jid))\<rparr>)
     (gw_job_pool_get (rm_world rm) jid)"

text \<open>Some client waits for any of a set of jobs, and has asked for the same job again.\<close>

fun asked_twice :: "gw_connection list \<Rightarrow> bool" where
  "asked_twice [] = False"
| "asked_twice (c # cs) =
     (cn_wait_type c = GW_MSG_WAIT_ANY \<and> list_ex (\<lambda>d. cn_socket_fs d = cn_socket_fs c) cs
      \<or> asked_twice cs)"

section \<open>Removing the requests of a client\<close>

lemma waiters_get:
  assumes "gw_connection_list_get_by_client (rm_connections rm) GW_MSG_WAIT s = (Some c, cs)"
  shows "length (filter (asks GW_MSG_WAIT i) (rm_connections rm))
     = length (filter (asks GW_MSG_WAIT i) cs) + (if cn_job_id c = i then 1 else 0)"
proof -
  from assms obtain pre post where "rm_connections rm = pre @ c # post" "cs = pre @ post"
    "from_client GW_MSG_WAIT s c"
    by (blast elim: by_client.get_split)
  then show ?thesis by (auto simp: from_client_def asks_def)
qed

lemma owed_take_off:
  assumes "gw_connection_list_get_by_client (rm_connections rm) GW_MSG_WAIT s = (Some c, cs)"
    and "gw_job_pool_get (rm_world rm) (cn_job_id c) = Some job"
  shows "owed (rm\<lparr>rm_connections := cs, rm_world := put_job (cn_job_id c)
           (job\<lparr>job_client_waiting := job_client_waiting job - 1\<rparr>) (rm_world rm)\<rparr>) = owed rm"
  using assms(2) by (auto simp: fun_eq_iff owed_def waiters_def waiters_get [OF assms(1)])

lemma owed_unknown:
  assumes "gw_connection_list_get_by_client (rm_connections rm) GW_MSG_WAIT s = (Some c, cs)"
    and "gw_job_pool_get (rm_world rm) (cn_job_id c) = None"
  shows "owed (rm\<lparr>rm_connections := cs\<rparr>) = owed rm"
  using assms(2) by (auto simp: fun_eq_iff owed_def waiters_def waiters_get [OF assms(1)])

text \<open>What \<open>gw_rm_wait_remove_anys\<close> does, and when it blocks.\<close>

definition anys_gone :: "int \<Rightarrow> gw_rm \<Rightarrow> gw_rm \<Rightarrow> bool" where
  "anys_gone s rm rm' \<longleftrightarrow>
     rm_connections rm' = filter (\<lambda>c. \<not> from_client GW_MSG_WAIT s c) (rm_connections rm)
   \<and> rm_sent rm' = rm_sent rm \<and> owed rm' = owed rm"

definition own_lock :: "int option \<Rightarrow> int \<Rightarrow> gw_rm \<Rightarrow> bool" where
  "own_lock held s rm \<longleftrightarrow>
     list_ex (\<lambda>c. from_client GW_MSG_WAIT s c \<and> held = Some (cn_job_id c)
       \<and> gw_job_pool_get (rm_world rm) (cn_job_id c) \<noteq> None) (rm_connections rm)"

lemma remove_anys_spec:
  "case gw_rm_wait_remove_anys held s rm of
     None \<Rightarrow> own_lock held s rm
   | Some rm' \<Rightarrow> \<not> own_lock held s rm \<and> anys_gone s rm rm'"
proof (induction held s rm rule: gw_rm_wait_remove_anys.induct)
  case (1 held s rm)
  obtain r cs where get: "gw_connection_list_get_by_client (rm_connections rm) GW_MSG_WAIT s = (r, cs)"
    by fastforce
  show ?case
  proof (cases r)
    case None
    with get have "filter (from_client GW_MSG_WAIT s) (rm_connections rm) = []"
      by (auto dest: by_client.get_none_filter)
    then show ?thesis
      by (auto simp: remove_anys_none anys_gone_def own_lock_def list_ex_iff filter_empty_conv
          intro: filter_True [symmetric])
  next
    case (Some c)
    with get obtain pre post where cs: "rm_connections rm = pre @ c # post" "cs = pre @ post"
      "from_client GW_MSG_WAIT s c"
      by (blast elim: by_client.get_split)
    note get' = get [unfolded Some]
    from cs have keep: "filter (\<lambda>c. \<not> from_client GW_MSG_WAIT s c) cs
        = filter (\<lambda>c. \<not> from_client GW_MSG_WAIT s c) (rm_connections rm)" by simp
    show ?thesis
    proof (cases "gw_job_pool_get (rm_world rm) (cn_job_id c)")
      case None
      have "own_lock held s (rm\<lparr>rm_connections := cs\<rparr>) = own_lock held s rm"
        using cs None by (simp add: own_lock_def)
      moreover have "anys_gone s (rm\<lparr>rm_connections := cs\<rparr>) = anys_gone s rm"
        by (rule ext) (simp add: anys_gone_def keep owed_unknown [OF get' None])
      ultimately show ?thesis
        using 1(1) [OF get' [symmetric] refl None] get' None
        by (simp add: gw_rm_wait_remove_anys.simps [of held s rm] split: option.splits)
    next
      case job: (Some job)
      show ?thesis
      proof (cases "held = Some (cn_job_id c)")
        case True
        with get' job have "gw_rm_wait_remove_anys held s rm = None"
          by (subst gw_rm_wait_remove_anys.simps) simp
        moreover have "own_lock held s rm" using cs job True by (simp add: own_lock_def)
        ultimately show ?thesis by simp
      next
        case False
        let ?rm = "rm\<lparr>rm_connections := cs, rm_world := put_job (cn_job_id c)
           (job\<lparr>job_client_waiting := job_client_waiting job - 1\<rparr>) (rm_world rm)\<rparr>"
        have "own_lock held s ?rm = own_lock held s rm"
          using cs False job by (auto simp: own_lock_def list_ex_iff)
        moreover have "anys_gone s ?rm = anys_gone s rm"
          by (rule ext) (simp add: anys_gone_def keep owed_take_off [OF get' job])
        ultimately show ?thesis
          using 1(2) [OF get' [symmetric] refl job False] get' job False
          by (simp add: gw_rm_wait_remove_anys.simps [of held s rm] split: option.splits)
      qed
    qed
  qed
qed

lemma remove_anys_gone:
  "gw_rm_wait_remove_anys held s rm = Some rm' \<Longrightarrow> anys_gone s rm rm'"
  using remove_anys_spec [of held s rm] by simp

lemma remove_anys_blocks:
  "gw_rm_wait_remove_anys held s rm = None \<longleftrightarrow> own_lock held s rm"
  using remove_anys_spec [of held s rm] by (auto split: option.splits)

lemma gone_known:
  "anys_gone s rm rm' \<Longrightarrow>
     gw_job_pool_get (rm_world rm') i = None \<longleftrightarrow> gw_job_pool_get (rm_world rm) i = None"
  unfolding anys_gone_def owed_def by (auto simp: fun_eq_iff dest!: spec [of _ i])

section \<open>Notifying the clients\<close>

text \<open>
  The connections that get a message, out of those that wait for a job: a client that
  waits for any job gets one.
\<close>

function notified :: "gw_connection list \<Rightarrow> gw_connection list" where
  "notified [] = []"
| "notified (c # cs) =
     c # notified (if cn_wait_type c = GW_MSG_WAIT_ANY
                   then filter (\<lambda>d. cn_socket_fs d \<noteq> cn_socket_fs c) cs else cs)"
  by pat_completeness auto
termination
  by (relation "measure length") (auto simp: le_imp_less_Suc)

lemma notified_all: "\<not> asked_twice cs \<Longrightarrow> notified cs = cs"
  by (induction cs rule: notified.induct) (auto simp: list_ex_iff filter_id_conv)

definition with_con :: "gw_connection option \<Rightarrow> gw_rm \<Rightarrow> gw_rm" where
  "with_con r rm = (case r of None \<Rightarrow> rm | Some c \<Rightarrow> rm\<lparr>rm_connections := c # rm_connections rm\<rparr>)"

lemma owed_send [simp]: "owed (rm_send s m rm) = owed rm"
  by (simp add: owed_def waiters_def rm_send_def fun_eq_iff)

lemma owed_get:
  assumes "gw_connection_list_get (rm_connections rm) t jid = (r, cs)"
  shows "owed (with_con r (rm\<lparr>rm_connections := cs\<rparr>)) = owed rm"
proof (cases r)
  case None
  with assms show ?thesis by (auto simp: with_con_def dest: by_job.get_none_filter)
next
  case (Some c)
  with assms obtain pre post where "rm_connections rm = pre @ c # post" "cs = pre @ post"
    by (blast elim: by_job.get_split)
  with Some show ?thesis
    by (simp add: fun_eq_iff with_con_def owed_def waiters_def algebra_simps)
qed

lemma owed_answer:
  assumes "asks GW_MSG_WAIT jid c" and "gw_job_pool_get (rm_world rm) jid = Some job"
  shows "owed (rm\<lparr>rm_world := put_job jid
      (job\<lparr>job_client_waiting := job_client_waiting job - 1\<rparr>) (rm_world rm)\<rparr>)
    = owed (with_con (Some c) rm)"
  using assms by (auto simp: fun_eq_iff with_con_def owed_def waiters_def asks_def)

lemma waiters_get_job:
  assumes "gw_connection_list_get (rm_connections rm) GW_MSG_WAIT jid = (r, cs)"
  shows "waiters rm jid = (case r of None \<Rightarrow> [] | Some c \<Rightarrow> c # waiters (rm\<lparr>rm_connections := cs\<rparr>) jid)
    \<and> (\<forall>c. r = Some c \<longrightarrow> asks GW_MSG_WAIT jid c)
    \<and> filter (\<lambda>c. \<not> asks GW_MSG_WAIT jid c) cs = filter (\<lambda>c. \<not> asks GW_MSG_WAIT jid c) (rm_connections rm)"
  using assms
  by (cases r) (auto simp: waiters_def dest: by_job.get_none_filter by_job.get_filter by_job.get_wanted
      filter_not_asks_get)

lemma waiters_with_con:
  assumes "gw_connection_list_get (rm_connections rm) GW_MSG_WAIT jid = (r, cs)"
  shows "waiters (with_con r (rm\<lparr>rm_connections := cs\<rparr>)) jid = waiters rm jid"
proof (cases r)
  case None
  with assms have "cs = rm_connections rm" by (auto dest: by_job.get_none_filter)
  with None show ?thesis by (simp add: with_con_def)
next
  case (Some c)
  with waiters_get_job [OF assms] show ?thesis by (simp add: with_con_def waiters_def)
qed

lemma waiters_gone:
  assumes "anys_gone s rm rm'"
  shows "waiters rm' jid = filter (\<lambda>d. cn_socket_fs d \<noteq> s) (waiters rm jid)"
  using assms unfolding anys_gone_def waiters_def
  by (auto simp: from_client_def asks_def intro!: filter_cong)

text \<open>
  One round of the loop.  A round of \<open>gw_rm_wait_success\<close> holds the job, counts, and
  finds it; a round of \<open>gw_rm_kill_success\<close> does neither.
\<close>

definition round_ok :: "int option \<Rightarrow> bool \<Rightarrow> int \<Rightarrow> gw_rm \<Rightarrow> bool" where
  "round_ok held counts jid rm \<longleftrightarrow>
     (if counts then held = Some jid \<and> gw_job_pool_get (rm_world rm) jid \<noteq> None else held = None)"

lemma round_count:
  assumes "round_ok held counts jid rm" and "asks GW_MSG_WAIT jid c"
    and "world = (if counts
      then upd_job jid (\<lambda>j. j\<lparr>job_client_waiting := job_client_waiting j - 1\<rparr>) (rm_world rm)
      else Some (rm_world rm))"
  obtains w where "world = Some w"
    and "\<forall>i. gw_job_pool_get w i = None \<longleftrightarrow> gw_job_pool_get (rm_world rm) i = None"
    and "\<forall>i. counts \<or> i \<noteq> jid \<longrightarrow> owed (rm\<lparr>rm_world := w\<rparr>) i = owed (with_con (Some c) rm) i"
    and "\<not> counts \<longrightarrow> w = rm_world rm"
proof (cases counts)
  case True
  with assms(1) obtain job where job: "gw_job_pool_get (rm_world rm) jid = Some job"
    by (auto simp: round_ok_def)
  with True assms(3) owed_answer [OF assms(2) job] that [of "put_job jid
      (job\<lparr>job_client_waiting := job_client_waiting job - 1\<rparr>) (rm_world rm)"]
  show ?thesis by (simp add: upd_job_def)
next
  case False
  have "owed rm i = owed (with_con (Some c) rm) i" if "i \<noteq> jid" for i
    using assms(2) that by (auto simp: owed_def with_con_def waiters_def asks_def)
  with False assms(3) that [of "rm_world rm"] show ?thesis by simp
qed

text \<open>What the loop leaves: \<open>pend\<close> are the connections that wait for the job.\<close>

definition loop_result :: "bool \<Rightarrow> int \<Rightarrow> gw_reply \<Rightarrow> gw_connection list \<Rightarrow> gw_rm \<Rightarrow> gw_rm \<Rightarrow> bool" where
  "loop_result counts jid msg pend rm rm' \<longleftrightarrow>
     rm_sent rm' = rm_sent rm @ to_each msg (notified pend)
   \<and> rm_connections rm' = filter (\<lambda>x. \<not> asks GW_MSG_WAIT jid x
        \<and> \<not> list_ex (\<lambda>c. cn_wait_type c = GW_MSG_WAIT_ANY \<and> from_client GW_MSG_WAIT (cn_socket_fs c) x)
             (notified pend)) (rm_connections rm)
   \<and> (\<forall>i. counts \<or> i \<noteq> jid \<longrightarrow> owed rm' i = owed rm i)"

text \<open>The round composed with the rest of the loop.\<close>

definition after_round :: "gw_connection \<Rightarrow> gw_rm \<Rightarrow> gw_rm \<Rightarrow> bool" where
  "after_round c rm1 rm2 \<longleftrightarrow>
     (if cn_wait_type c = GW_MSG_WAIT_ANY then anys_gone (cn_socket_fs c) rm1 rm2 else rm2 = rm1)"

lemma after_round_owed: "after_round c rm1 rm2 \<Longrightarrow> owed rm2 = owed rm1 \<and> rm_sent rm2 = rm_sent rm1"
  by (auto simp: after_round_def anys_gone_def split: if_splits)

lemma after_round_known:
  "after_round c rm1 rm2 \<Longrightarrow>
     gw_job_pool_get (rm_world rm2) i = None \<longleftrightarrow> gw_job_pool_get (rm_world rm1) i = None"
  by (auto simp: after_round_def gone_known split: if_splits)

lemma after_round_waiters:
  "after_round c rm1 rm2 \<Longrightarrow> waiters rm2 jid =
     (if cn_wait_type c = GW_MSG_WAIT_ANY
      then filter (\<lambda>d. cn_socket_fs d \<noteq> cn_socket_fs c) (waiters rm1 jid) else waiters rm1 jid)"
  by (auto simp: after_round_def waiters_gone split: if_splits)

lemma after_round_connections:
  "after_round c rm1 rm2 \<Longrightarrow> rm_connections rm2 =
     filter (\<lambda>x. \<not> (cn_wait_type c = GW_MSG_WAIT_ANY \<and> from_client GW_MSG_WAIT (cn_socket_fs c) x))
       (rm_connections rm1)"
  by (auto simp: after_round_def anys_gone_def split: if_splits)

lemma filter_filter_eq:
  "filter p xs = filter p ys \<Longrightarrow> filter (\<lambda>x. p x \<and> q x) xs = filter (\<lambda>x. p x \<and> q x) ys"
  using filter_filter [of q p xs] filter_filter [of q p ys] by (simp add: conj_commute)

lemma loop_result_round:
  assumes rest: "loop_result counts jid msg (waiters rm2 jid) (with_con r (rm2\<lparr>rm_connections := cs\<rparr>)) rm'"
    and get: "gw_connection_list_get (rm_connections rm2) GW_MSG_WAIT jid = (r, cs)"
    and after: "after_round c (rm_send (cn_socket_fs c) (OUT_REPLY msg) (rm\<lparr>rm_world := w\<rparr>)) rm2"
    and owed_w: "\<forall>i. counts \<or> i \<noteq> jid \<longrightarrow> owed (rm\<lparr>rm_world := w\<rparr>) i = owed (with_con (Some c) rm) i"
    and c: "asks GW_MSG_WAIT jid c"
  shows "loop_result counts jid msg (c # waiters rm jid) (with_con (Some c) rm) rm'"
proof -
  let ?next = "with_con r (rm2\<lparr>rm_connections := cs\<rparr>)"
  let ?gone = "\<lambda>x. list_ex (\<lambda>c. cn_wait_type c = GW_MSG_WAIT_ANY
      \<and> from_client GW_MSG_WAIT (cn_socket_fs c) x) (notified (waiters rm2 jid))"
  have waiters2: "waiters rm2 jid =
      (if cn_wait_type c = GW_MSG_WAIT_ANY
       then filter (\<lambda>d. cn_socket_fs d \<noteq> cn_socket_fs c) (waiters rm jid) else waiters rm jid)"
    using after_round_waiters [OF after, of jid] by (simp add: waiters_def rm_send_def)
  then have notified: "notified (c # waiters rm jid) = c # notified (waiters rm2 jid)" by simp
  have sent: "rm_sent ?next = rm_sent rm @ [(cn_socket_fs c, OUT_REPLY msg)]"
    using after_round_owed [OF after] by (cases r) (auto simp: with_con_def rm_send_def)
  have "filter (\<lambda>x. \<not> asks GW_MSG_WAIT jid x) (rm_connections ?next)
      = filter (\<lambda>x. \<not> asks GW_MSG_WAIT jid x) (rm_connections rm2)"
    using waiters_get_job [OF get] by (cases r) (auto simp: with_con_def)
  then have "filter (\<lambda>x. \<not> asks GW_MSG_WAIT jid x \<and> \<not> ?gone x) (rm_connections ?next)
      = filter (\<lambda>x. \<not> asks GW_MSG_WAIT jid x \<and> \<not> ?gone x) (rm_connections rm2)"
    by (rule filter_filter_eq)
  also have "\<dots> = filter (\<lambda>x. \<not> asks GW_MSG_WAIT jid x
      \<and> \<not> (cn_wait_type c = GW_MSG_WAIT_ANY \<and> from_client GW_MSG_WAIT (cn_socket_fs c) x \<or> ?gone x))
      (rm_connections rm)"
    unfolding after_round_connections [OF after] by (auto simp: rm_send_def intro!: filter_cong)
  finally have conns: "rm_connections rm' = filter (\<lambda>x. \<not> asks GW_MSG_WAIT jid x
      \<and> \<not> (cn_wait_type c = GW_MSG_WAIT_ANY \<and> from_client GW_MSG_WAIT (cn_socket_fs c) x \<or> ?gone x))
      (rm_connections rm)"
    using rest by (simp add: loop_result_def)
  have "owed ?next = owed (rm\<lparr>rm_world := w\<rparr>)"
    using owed_get [OF get] after_round_owed [OF after] by simp
  then have "\<forall>i. counts \<or> i \<noteq> jid \<longrightarrow> owed rm' i = owed (with_con (Some c) rm) i"
    using rest owed_w by (auto simp: loop_result_def)
  moreover have "rm_sent rm' = rm_sent rm @ to_each msg (c # notified (waiters rm2 jid))"
    using rest sent by (simp add: loop_result_def to_each_def)
  ultimately show ?thesis
    using conns c unfolding loop_result_def notified by (simp add: with_con_def)
qed

lemma notify_loop_spec:
  "round_ok held counts jid rm \<Longrightarrow> (\<And>c. connection = Some c \<Longrightarrow> asks GW_MSG_WAIT jid c) \<Longrightarrow>
   (connection = None \<Longrightarrow> waiters rm jid = []) \<Longrightarrow>
   (let rm0 = with_con connection rm; pend = waiters rm0 jid in
    case notify_loop held counts jid msg connection rm of
      None \<Rightarrow> counts \<and> asked_twice pend
    | Some rm' \<Rightarrow> \<not> (counts \<and> asked_twice pend) \<and> loop_result counts jid msg pend rm0 rm')"
proof (induction held counts jid msg connection rm rule: notify_loop.induct)
  case (1 held counts jid msg connection rm)
  show ?case
  proof (cases connection)
    case None
    with 1(4) show ?thesis
      by (subst notify_loop.simps)
        (auto simp: with_con_def loop_result_def to_each_def waiters_def filter_empty_conv
          intro!: filter_True [symmetric])
  next
    case (Some c)
    note con = this
    have c: "asks GW_MSG_WAIT jid c" using 1(3) con .
    let ?world = "if counts
      then upd_job jid (\<lambda>j. j\<lparr>job_client_waiting := job_client_waiting j - 1\<rparr>) (rm_world rm)
      else Some (rm_world rm)"
    obtain w where w: "?world = Some w"
      and known: "\<forall>i. gw_job_pool_get w i = None \<longleftrightarrow> gw_job_pool_get (rm_world rm) i = None"
      and owed_w: "\<forall>i. counts \<or> i \<noteq> jid \<longrightarrow> owed (rm\<lparr>rm_world := w\<rparr>) i = owed (with_con (Some c) rm) i"
      by (rule round_count [OF 1(2) c refl])
    let ?rm1 = "rm_send (cn_socket_fs c) (OUT_REPLY msg) (rm\<lparr>rm_world := w\<rparr>)"
    let ?gone = "if cn_wait_type c = GW_MSG_WAIT_ANY
         then gw_rm_wait_remove_anys held (cn_socket_fs c) ?rm1 else Some ?rm1"
    show ?thesis
    proof (cases ?gone)
      case None
      then have any: "cn_wait_type c = GW_MSG_WAIT_ANY" and "own_lock held (cn_socket_fs c) ?rm1"
        by (auto simp: remove_anys_blocks split: if_splits)
      then have "counts \<and> list_ex (\<lambda>d. cn_socket_fs d = cn_socket_fs c) (waiters rm jid)"
        using 1(2) by (auto simp: own_lock_def round_ok_def list_ex_iff waiters_def rm_send_def
            from_client_def asks_def split: if_splits)
      moreover have "notify_loop held counts jid msg connection rm = None"
        using con w None by (subst notify_loop.simps) simp
      ultimately show ?thesis using con any c by (simp add: with_con_def waiters_def)
    next
      case (Some rm2)
      have after: "after_round c ?rm1 rm2"
        using Some by (auto simp: after_round_def dest: remove_anys_gone split: if_splits)
      obtain r cs where get: "gw_connection_list_get (rm_connections rm2) GW_MSG_WAIT jid = (r, cs)"
        by fastforce
      let ?rm3 = "rm2\<lparr>rm_connections := cs\<rparr>"
      have next_waiters: "waiters (with_con r ?rm3) jid = waiters rm2 jid"
        by (rule waiters_with_con [OF get])
      have "round_ok held counts jid ?rm3"
        using 1(2) known after_round_known [OF after, of jid] by (auto simp: round_ok_def rm_send_def)
      moreover have "\<And>d. r = Some d \<Longrightarrow> asks GW_MSG_WAIT jid d"
        using waiters_get_job [OF get] by simp
      moreover have "r = None \<Longrightarrow> waiters ?rm3 jid = []"
        using get by (auto simp: waiters_def dest: by_job.get_none_filter)
      ultimately have IH: "case notify_loop held counts jid msg r ?rm3 of
          None \<Rightarrow> counts \<and> asked_twice (waiters rm2 jid)
        | Some rm' \<Rightarrow> \<not> (counts \<and> asked_twice (waiters rm2 jid))
            \<and> loop_result counts jid msg (waiters rm2 jid) (with_con r ?rm3) rm'"
        using 1(1) [OF con w refl Some refl get [symmetric]] unfolding next_waiters Let_def by simp
      have step: "notify_loop held counts jid msg connection rm = notify_loop held counts jid msg r ?rm3"
        using con w Some get by (subst notify_loop.simps) (simp add: Let_def)
      have twice: "counts \<and> asked_twice (c # waiters rm jid) \<longleftrightarrow> counts \<and> asked_twice (waiters rm2 jid)"
      proof (cases "counts \<and> cn_wait_type c = GW_MSG_WAIT_ANY")
        case True
        with Some have "\<not> own_lock held (cn_socket_fs c) ?rm1"
          by (simp flip: remove_anys_blocks)
        with True 1(2) known have "\<not> list_ex (\<lambda>d. cn_socket_fs d = cn_socket_fs c) (waiters rm jid)"
          by (auto simp: own_lock_def round_ok_def list_ex_iff waiters_def rm_send_def
              from_client_def asks_def)
        moreover from this have "waiters rm2 jid = waiters rm jid"
          using after_round_waiters [OF after, of jid]
          by (auto simp: list_ex_iff waiters_def rm_send_def intro!: filter_cong)
        ultimately show ?thesis by simp
      next
        case False
        then show ?thesis
          using after_round_waiters [OF after, of jid] by (auto simp: waiters_def rm_send_def)
      qed
      have pend: "waiters (with_con (Some c) rm) jid = c # waiters rm jid"
        using c by (simp add: with_con_def waiters_def)
      show ?thesis
        using IH loop_result_round [OF _ get after owed_w c]
        unfolding step unfolding con Let_def pend twice by (auto split: option.splits)
    qed
  qed
qed

lemma notify_all_spec:
  assumes "round_ok held counts jid rm"
  shows "case notify_all held counts jid msg rm of
      None \<Rightarrow> counts \<and> asked_twice (waiters rm jid)
    | Some rm' \<Rightarrow> \<not> (counts \<and> asked_twice (waiters rm jid)) \<and> loop_result counts jid msg (waiters rm jid) rm rm'"
proof -
  obtain r cs where get: "gw_connection_list_get (rm_connections rm) GW_MSG_WAIT jid = (r, cs)"
    by fastforce
  let ?rm = "rm\<lparr>rm_connections := cs\<rparr>"
  have first: "round_ok held counts jid ?rm" using assms by (simp add: round_ok_def)
  have none: "r = None \<Longrightarrow> waiters ?rm jid = []"
    using get by (auto simp: waiters_def dest: by_job.get_none_filter)
  have "case notify_loop held counts jid msg r ?rm of
      None \<Rightarrow> counts \<and> asked_twice (waiters (with_con r ?rm) jid)
    | Some rm' \<Rightarrow> \<not> (counts \<and> asked_twice (waiters (with_con r ?rm) jid))
        \<and> loop_result counts jid msg (waiters (with_con r ?rm) jid) (with_con r ?rm) rm'"
    using notify_loop_spec [OF first _ none, where msg = msg] waiters_get_job [OF get]
    unfolding Let_def by blast
  moreover have "waiters (with_con r ?rm) jid = waiters rm jid"
    by (rule waiters_with_con [OF get])
  moreover have "loop_result counts jid msg pend (with_con r ?rm) = loop_result counts jid msg pend rm" for pend
  proof -
    have "filter (\<lambda>x. \<not> asks GW_MSG_WAIT jid x) (rm_connections (with_con r ?rm))
        = filter (\<lambda>x. \<not> asks GW_MSG_WAIT jid x) (rm_connections rm)"
      using waiters_get_job [OF get] by (cases r) (auto simp: with_con_def)
    then have "filter (\<lambda>x. \<not> asks GW_MSG_WAIT jid x \<and> q x) (rm_connections (with_con r ?rm))
        = filter (\<lambda>x. \<not> asks GW_MSG_WAIT jid x \<and> q x) (rm_connections rm)" for q
      by (rule filter_filter_eq)
    moreover have "rm_sent (with_con r ?rm) = rm_sent rm" by (cases r) (auto simp: with_con_def)
    ultimately show ?thesis
      by (rule_tac ext) (simp only: loop_result_def owed_get [OF get])
  qed
  ultimately show ?thesis using get by (simp add: notify_all_def split: option.splits)
qed

lemma notify_all_None:
  "round_ok held counts jid rm \<Longrightarrow>
     notify_all held counts jid msg rm = None \<longleftrightarrow> counts \<and> asked_twice (waiters rm jid)"
  using notify_all_spec [of held counts jid rm msg] by (auto split: option.splits)

lemma notify_all_Some:
  "round_ok held counts jid rm \<Longrightarrow> notify_all held counts jid msg rm = Some rm' \<Longrightarrow>
     loop_result counts jid msg (waiters rm jid) rm rm'"
  using notify_all_spec [of held counts jid rm msg] by (auto split: option.splits)

section \<open>Properties\<close>

text \<open>C40 (safety).
  The end of a job that clients wait for: the request manager blocks on its own lock,
  and the whole daemon behind it, exactly if a client that waits for any job of a set
  has named this job twice; for an unknown job it always dies.\<close>

theorem wait_success_blocks:
  "gw_rm_wait_success jid rm = None \<longleftrightarrow>
     gw_job_pool_get (rm_world rm) jid = None \<or> asked_twice (waiters rm jid)"
proof (cases "gw_job_pool_get (rm_world rm) jid")
  case None
  then show ?thesis by (simp add: gw_rm_wait_success_def)
next
  case (Some job)
  then have "round_ok (Some jid) True jid rm" by (simp add: round_ok_def)
  from notify_all_None [OF this] Some show ?thesis by (simp add: gw_rm_wait_success_def)
qed

text \<open>C12 (functional).
  When it does not, every client that waits for the job gets one message, with the exit
  code of the job and whether it failed; no request for the job is left, nor any other
  request to wait of a client that waited for any of a set; and for every job of the
  pool the difference between the count of its clients and its requests in the list is
  what it was.\<close>

theorem wait_success_tells_all:
  assumes "gw_job_pool_get (rm_world rm) jid = Some job" and "\<not> asked_twice (waiters rm jid)"
  shows "\<exists>rm'. gw_rm_wait_success jid rm = Some rm'
    \<and> rm_sent rm' = rm_sent rm @ to_each
        \<lparr>re_msg_type = GW_MSG_WAIT,
         re_rc = if job_job_state job = GW_JOB_STATE_FAILED then GW_RC_FAILED_JOB_FAIL else GW_RC_SUCCESS,
         re_job_id = jid, re_exit = Some (job_exit_code job, job_array_id job)\<rparr> (waiters rm jid)
    \<and> rm_connections rm' = filter (\<lambda>x. \<not> asks GW_MSG_WAIT jid x
         \<and> \<not> list_ex (\<lambda>c. cn_wait_type c = GW_MSG_WAIT_ANY \<and> from_client GW_MSG_WAIT (cn_socket_fs c) x)
              (waiters rm jid)) (rm_connections rm)
    \<and> (\<forall>i. owed rm' i = owed rm i)"
proof -
  from assms(1) have "round_ok (Some jid) True jid rm" by (simp add: round_ok_def)
  moreover from this assms(2) obtain rm' where "gw_rm_wait_success jid rm = Some rm'"
    using notify_all_None [where held = "Some jid" and counts = True and jid = jid and rm = rm] assms(1)
    by (fastforce simp: gw_rm_wait_success_def)
  ultimately show ?thesis
    using notify_all_Some [where held = "Some jid" and counts = True and jid = jid and rm = rm] assms
    by (fastforce simp: gw_rm_wait_success_def reply_def loop_result_def notified_all)
qed

text \<open>A job two clients wait for, one of them for any of a set with another job in it.\<close>

definition two_waiters :: "gw_connection list" where
  "two_waiters =
     [\<lparr>cn_socket_fs = 6, cn_msg_id = GW_MSG_WAIT, cn_wait_type = GW_MSG_WAIT_ANY, cn_job_id = 1\<rparr>,
      \<lparr>cn_socket_fs = 6, cn_msg_id = GW_MSG_WAIT, cn_wait_type = GW_MSG_WAIT_ANY, cn_job_id = 0\<rparr>,
      \<lparr>cn_socket_fs = 5, cn_msg_id = GW_MSG_WAIT, cn_wait_type = GW_MSG_WAIT_JOB, cn_job_id = 0\<rparr>]"

theorem wait_success_tells_all_witness:
  "\<forall>rm. \<exists>rm' msg. gw_rm_wait_success 0
       (rm\<lparr>rm_connections := two_waiters,
          rm_world := (rm_world rm)\<lparr>w_jobs := (w_jobs (rm_world rm))\<lparr>pool_slots := [Some example_job]\<rparr>\<rparr>\<rparr>)
       = Some rm'
     \<and> rm_sent rm' = rm_sent rm @ [(6, OUT_REPLY msg), (5, OUT_REPLY msg)] \<and> rm_connections rm' = []"
proof
  fix rm :: gw_rm
  let ?rm = "rm\<lparr>rm_connections := two_waiters,
      rm_world := (rm_world rm)\<lparr>w_jobs := (w_jobs (rm_world rm))\<lparr>pool_slots := [Some example_job]\<rparr>\<rparr>\<rparr>"
  have job: "gw_job_pool_get (rm_world ?rm) 0 = Some example_job"
    by (simp add: gw_job_pool_get_def pool_get_def slot_def)
  have w: "waiters ?rm 0 = tl two_waiters" by (simp add: waiters_def two_waiters_def asks_def)
  then have "\<not> asked_twice (waiters ?rm 0)" by (simp add: two_waiters_def)
  from wait_success_tells_all [OF job this] show "\<exists>rm' msg. gw_rm_wait_success 0 ?rm = Some rm'
     \<and> rm_sent rm' = rm_sent rm @ [(6, OUT_REPLY msg), (5, OUT_REPLY msg)] \<and> rm_connections rm' = []"
    unfolding w by (auto simp: two_waiters_def to_each_def asks_def from_client_def)
qed

text \<open>The end of a kill: the clients that asked for it are told of its success, those that
  wait for the job that it was killed, each client that waits for any of a set once; the
  counts of the other jobs stay in step with the requests, and it never blocks.\<close>

theorem kill_success_tells_all:
  "\<exists>rm'. gw_rm_kill_success jid rm = Some rm'
    \<and> rm_sent rm' = rm_sent rm
        @ to_each (reply GW_MSG_KILL GW_RC_SUCCESS jid) (filter (asks GW_MSG_KILL jid) (rm_connections rm))
        @ to_each (reply GW_MSG_KILL GW_RC_FAILED_JOB_KILLED jid) (notified (waiters rm jid))
    \<and> waiters rm' jid = [] \<and> filter (asks GW_MSG_KILL jid) (rm_connections rm') = []
    \<and> (\<forall>i. i \<noteq> jid \<longrightarrow> owed rm' i = owed rm i)"
proof -
  let ?rm = "answered GW_MSG_KILL jid (reply GW_MSG_KILL GW_RC_SUCCESS jid) rm"
  have w: "waiters ?rm i = waiters rm i" for i
    by (auto simp: waiters_def answered_def asks_def intro!: filter_cong)
  then have o: "owed ?rm = owed rm" by (simp add: fun_eq_iff owed_def answered_def)
  have "round_ok None False jid ?rm" by (simp add: round_ok_def)
  with notify_all_None [OF this] notify_all_Some [OF this] obtain rm' where
    "gw_rm_kill_success jid rm = Some rm'"
    "loop_result False jid (reply GW_MSG_KILL GW_RC_FAILED_JOB_KILLED jid) (waiters rm jid) ?rm rm'"
    by (fastforce simp: gw_rm_kill_success_def answer_all_eq w)
  moreover from this(2) have "\<forall>i. i \<noteq> jid \<longrightarrow> owed rm' i = owed rm i"
    by (simp add: loop_result_def o)
  ultimately show ?thesis
    by (auto simp: loop_result_def answered_def waiters_def filter_empty_conv)
qed

end
