(* ===== verification/Rm_Manager.thy ===== *)
theory Rm_Manager
  imports Rm_Safety Rm_Waiters Dm_Frame Gw_Table
begin

text \<open>
  The request manager as a whole, \<open>src/rm/gw_rm.c\<close>: its registrations (\<open>gw_rm_init\<close>) as
  an instance of \<open>registered_table\<close>, the way of a request through the request manager,
  the dispatch manager and back, and the sockets of the listener (\<open>gw_rm_listener\<close>).
\<close>

section \<open>Registrations\<close>

datatype rm_function =
    RM_FINALIZE
  | RM_REQUEST "gw_msg \<Rightarrow> gw_rm \<Rightarrow> gw_rm option"
  | RM_REQUEST_SUBMIT "gw_msg \<Rightarrow> gw_template \<Rightarrow> gw_rm \<Rightarrow> gw_rm"
  | RM_SUBMITTED "gw_msg_submit \<Rightarrow> int \<Rightarrow> gw_rm \<Rightarrow> gw_rm"
  | RM_ANSWER "int \<Rightarrow> gw_rm \<Rightarrow> gw_rm option"

definition rm_answers :: "(string \<times> (int \<Rightarrow> gw_rm \<Rightarrow> gw_rm option)) list" where
  "rm_answers =
     [(''GW_RM_HOLD_SUCCESS'', \<lambda>j rm. Some (gw_rm_hold_success j rm)),
      (''GW_RM_HOLD_FAILED'', \<lambda>j rm. Some (gw_rm_hold_failed j rm)),
      (''GW_RM_RELEASE_SUCCESS'', \<lambda>j rm. Some (gw_rm_release_success j rm)),
      (''GW_RM_RELEASE_FAILED'', \<lambda>j rm. Some (gw_rm_release_failed j rm)),
      (''GW_RM_KILL_SUCCESS'', gw_rm_kill_success),
      (''GW_RM_KILL_FAILED'', \<lambda>j rm. Some (gw_rm_kill_failed j rm)),
      (''GW_RM_RESCHEDULE_SUCCESS'', \<lambda>j rm. Some (gw_rm_reschedule_success j rm)),
      (''GW_RM_RESCHEDULE_FAILED'', \<lambda>j rm. Some (gw_rm_reschedule_failed j rm)),
      (''GW_RM_STOP_SUCCESS'', \<lambda>j rm. Some (gw_rm_stop_success j rm)),
      (''GW_RM_STOP_FAILED'', \<lambda>j rm. Some (gw_rm_stop_failed j rm)),
      (''GW_RM_RESUME_SUCCESS'', \<lambda>j rm. Some (gw_rm_resume_success j rm)),
      (''GW_RM_RESUME_FAILED'', \<lambda>j rm. Some (gw_rm_resume_failed j rm)),
      (''GW_RM_WAIT_SUCCESS'', gw_rm_wait_success),
      (''GW_RM_WAIT_FAILED'', gw_rm_wait_failed)]"

definition rm_entries :: "(string \<times> bool \<times> rm_function) list" where
  "rm_entries =
     [(GW_ACTION_FINALIZE, False, RM_FINALIZE),
      (''GW_RM_CONNECTION'', True, RM_REQUEST gw_rm_connection),
      (''GW_RM_CONNECTION_SUBMIT'', True, RM_REQUEST_SUBMIT gw_rm_connection_submit),
      (''GW_RM_SUBMIT'', True, RM_SUBMITTED gw_rm_submit)]
     @ map (\<lambda>(a, h). (a, False, RM_ANSWER h)) rm_answers"

definition gw_rm_init_am :: "(rm_function, 'a) gw_am option" where
  "gw_rm_init_am = register_all rm_entries gw_am_init"

lemma rm_entries_names: "map fst rm_entries = GW_ACTION_FINALIZE # rm_names"
  by (simp add: rm_entries_def rm_answers_def rm_names_def)

interpretation rm: registered_table rm_entries
proof unfold_locales
  show "distinct (map fst rm_entries)"
    unfolding rm_entries_names by (simp add: rm_names_def GW_ACTION_FINALIZE_def)
  show "length rm_entries \<le> GW_ACTION_NUMBER"
    by (simp add: rm_entries_def rm_answers_def GW_ACTION_NUMBER_def)
  show "\<forall>e \<in> set rm_entries. length (fst e) < GW_ACTION_ID_LENGTH"
    by (simp add: rm_entries_def rm_answers_def GW_ACTION_ID_LENGTH_def GW_ACTION_FINALIZE_def)
  show "GW_ACTION_FINALIZE \<in> set (map fst rm_entries)" by (simp add: rm_entries_def)
qed

lemma rm_answer_registered:
  "map_of rm_answers a = Some h \<Longrightarrow> map_of rm_entries a = Some (False, RM_ANSWER h)"
proof -
  assume "map_of rm_answers a = Some h"
  then have "(a, h) \<in> set rm_answers" by (rule map_of_SomeD)
  then have "(a, False, RM_ANSWER h) \<in> set rm_entries" by (force simp: rm_entries_def)
  with rm.names_distinct show ?thesis by simp
qed

section \<open>From the request to the answer\<close>

text \<open>The dispatch manager's handler of a request, and the states the job goes between.\<close>

definition dm_request ::
    "gw_msg_type \<Rightarrow> (string \<times> (int option \<Rightarrow> gwd \<Rightarrow> gwd option) \<times> gw_job_state \<times> gw_job_state) option"
  where
  "dm_request t = (case t of
      GW_MSG_HOLD \<Rightarrow> Some (''GW_DM_HOLD'', gw_dm_hold, GW_JOB_STATE_PENDING, GW_JOB_STATE_HOLD)
    | GW_MSG_RELEASE \<Rightarrow> Some (''GW_DM_RELEASE'', gw_dm_release, GW_JOB_STATE_HOLD, GW_JOB_STATE_PENDING)
    | _ \<Rightarrow> None)"

definition outcome :: "gwd \<Rightarrow> int \<Rightarrow> gw_job_state \<Rightarrow> gw_return_code" where
  "outcome w jid from_state = (case gw_job_pool_get w jid of
      None \<Rightarrow> GW_RC_FAILED_BAD_JOB_ID
    | Some job \<Rightarrow> if job_job_state job = from_state then GW_RC_SUCCESS else GW_RC_FAILED_BAD_JOB_STATE)"

definition answer_name :: "gw_msg_type \<Rightarrow> gw_return_code \<Rightarrow> string" where
  "answer_name t rc = (if t = GW_MSG_HOLD then ''GW_RM_HOLD'' else ''GW_RM_RELEASE'')
     @ (if rc = GW_RC_SUCCESS then ''_SUCCESS'' else ''_FAILED'')"

text \<open>What the dispatch manager's action tells the scheduler of a job it changes.\<close>

definition notices :: "gw_msg_type \<Rightarrow> gw_job \<Rightarrow> sch_msg list" where
  "notices t job =
     (if t = GW_MSG_HOLD then [JOB_DEL (job_id job)]
      else [JOB_SCHEDULE (job_id job) (job_array_id job) (job_user_id job) GW_REASON_NONE])"

text \<open>
  The state of the job and a message to the scheduler if the job is in the right state, and
  otherwise nothing: no field of another job or of this one, no host, user, array or
  dependency.
\<close>

definition changed_to :: "gw_job_state \<Rightarrow> gw_job_state \<Rightarrow> gw_msg_type \<Rightarrow> int \<Rightarrow> gwd \<Rightarrow> gwd \<Rightarrow> bool" where
  "changed_to from_state to_state t jid w w' \<longleftrightarrow>
     (\<forall>k. gw_job_pool_get w' k =
        (if k = jid \<and> outcome w jid from_state = GW_RC_SUCCESS
         then map_option (\<lambda>job. job\<lparr>job_job_state := to_state\<rparr>) (gw_job_pool_get w k)
         else gw_job_pool_get w k))
     \<and> w_sch w' = w_sch w @ (if outcome w jid from_state = GW_RC_SUCCESS
         then (case gw_job_pool_get w jid of None \<Rightarrow> [] | Some job \<Rightarrow> notices t job) else [])
     \<and> w_deps w' = w_deps w \<and> w_hosts w' = w_hosts w \<and> w_users w' = w_users w \<and> w_arrays w' = w_arrays w
     \<and> w_dm w' = w_dm w \<and> w_em w' = w_em w \<and> w_tm w' = w_tm w"

lemma dm_request_posts:
  assumes "dm_request t = Some (name, dm, from_state, to_state)"
  shows "\<exists>w'. dm (Some jid) w = Some w'
    \<and> w_rm w' = w_rm w @ [(answer_name t (outcome w jid from_state), Some jid)]
    \<and> changed_to from_state to_state t jid w w'"
proof (cases "gw_job_pool_get w jid")
  case None
  with assms show ?thesis
    by (auto simp: dm_request_def gw_dm_hold_def gw_dm_release_def with_job_def outcome_def changed_to_def
        answer_name_def trigger_rm_def split: gw_msg_type.splits)
next
  case (Some job)
  obtain w1 where w1: "gw_job_set_state to_state jid w = Some w1"
    using gw_job_set_state_total [OF Some] by blast
  with gw_job_set_state_form Some obtain sf seg where form:
    "w1 = (put_job jid (job\<lparr>job_job_state := to_state\<rparr>) w)\<lparr>w_state_file := sf, w_seg := seg\<rparr>"
    by fastforce
  have form': "gw_job_pool_get w1 k = (if k = jid then Some (job\<lparr>job_job_state := to_state\<rparr>) else gw_job_pool_get w k)"
    "w_rm w1 = w_rm w" "w_sch w1 = w_sch w" "w_deps w1 = w_deps w" "w_hosts w1 = w_hosts w" "w_users w1 = w_users w"
    "w_arrays w1 = w_arrays w" "w_dm w1 = w_dm w" "w_em w1 = w_em w" "w_tm w1 = w_tm w" for k
    using Some by (simp_all add: form)
  from assms Some w1 show ?thesis
    by (auto simp: dm_request_def gw_dm_hold_def gw_dm_release_def with_job_def outcome_def
        changed_to_def notices_def form'
        answer_name_def trigger_rm_def sch_del_def sch_schedule_def send_sch_def
        split: gw_msg_type.splits gw_job_state.splits)
qed

text \<open>C4 (liveness).
  A hold or a release of a client that may act on the job goes all the way: the request
  is put into the list and the dispatch manager's action is posted; that action changes
  the state of the job, and tells the scheduler of it, exactly if the job is in the right
  state, leaves every other field of it, the other jobs, the hosts, users, arrays and
  dependencies as they are, and posts one action back; and that action is registered at the request manager, finishes, and sends the client one
  message with its kind, the job, and the code of what happened.\<close>

theorem hold_release_answered:
  assumes "may_act rm msg" and "dm_request (m_msg_type msg) = Some (name, dm, from_state, to_state)"
  shows "\<exists>rm1 w2 h rm3.
      gw_rm_connection msg rm = Some rm1
    \<and> rm_world rm1 = trigger_dm name (Some (m_job_id msg)) (rm_world rm)
    \<and> w_dm (rm_world rm1) = w_dm (rm_world rm) @ [(name, Some (m_job_id msg))]
    \<and> dm (Some (m_job_id msg)) (rm_world rm1) = Some w2
    \<and> changed_to from_state to_state (m_msg_type msg) (m_job_id msg) (rm_world rm1) w2
    \<and> w_rm w2 = w_rm (rm_world rm)
        @ [(answer_name (m_msg_type msg) (outcome (rm_world rm) (m_job_id msg) from_state), Some (m_job_id msg))]
    \<and> map_of rm_entries (answer_name (m_msg_type msg) (outcome (rm_world rm) (m_job_id msg) from_state))
        = Some (False, RM_ANSWER h)
    \<and> h (m_job_id msg) (rm1\<lparr>rm_world := w2\<rparr>) = Some rm3
    \<and> rm_sent rm3 = rm_sent rm
        @ (m_client_socket msg, OUT_REPLY (reply (m_msg_type msg)
             (outcome (rm_world rm) (m_job_id msg) from_state) (m_job_id msg)))
        # to_each (reply (m_msg_type msg) (outcome (rm_world rm) (m_job_id msg) from_state) (m_job_id msg))
            (filter (asks (m_msg_type msg) (m_job_id msg)) (rm_connections rm))"
proof -
  let ?jid = "m_job_id msg" and ?t = "m_msg_type msg"
  let ?rc = "outcome (rm_world rm) ?jid from_state"
  let ?c = "\<lparr>cn_socket_fs = m_client_socket msg, cn_msg_id = ?t, cn_wait_type = m_wait_type msg,
    cn_job_id = ?jid\<rparr>"
  let ?rm1 = "rm\<lparr>rm_connections := ?c # rm_connections rm,
    rm_world := trigger_dm name (Some ?jid) (rm_world rm)\<rparr>"
  have first: "gw_rm_connection msg rm = Some ?rm1"
    using assms by (auto simp: gw_rm_connection_def job_request_def auth_user_iff dm_request_def Let_def
        gw_connection_list_add_def split: gw_msg_type.splits)
  have same: "outcome (rm_world ?rm1) ?jid from_state = ?rc" by (simp add: outcome_def)
  from dm_request_posts [OF assms(2), of ?jid "rm_world ?rm1"] obtain w2 where w2:
    "dm (Some ?jid) (rm_world ?rm1) = Some w2"
    "w_rm w2 = w_rm (rm_world rm) @ [(answer_name ?t ?rc, Some ?jid)]"
    "changed_to from_state to_state ?t ?jid (rm_world ?rm1) w2"
    unfolding same by (auto simp: trigger_dm_def)
  have jobs: "gw_job_pool_get w2 ?jid = gw_job_pool_get (rm_world rm) ?jid" if "?rc \<noteq> GW_RC_SUCCESS"
    using w2(3) that same by (simp add: changed_to_def trigger_dm_def)
  let ?rm2 = "?rm1\<lparr>rm_world := w2\<rparr>"
  have rc: "failed_rc ?jid ?rm2 = ?rc" if "?rc \<noteq> GW_RC_SUCCESS"
    using that jobs [OF that] by (auto simp: failed_rc_def outcome_def split: option.splits if_splits)
  have t: "?t = GW_MSG_HOLD \<or> ?t = GW_MSG_RELEASE"
    using assms(2) by (auto simp: dm_request_def split: gw_msg_type.splits)
  have "map_of rm_answers (answer_name ?t ?rc) = Some (\<lambda>j rm. Some
      (if ?t = GW_MSG_HOLD
       then if ?rc = GW_RC_SUCCESS then gw_rm_hold_success j rm else gw_rm_hold_failed j rm
       else if ?rc = GW_RC_SUCCESS then gw_rm_release_success j rm else gw_rm_release_failed j rm))"
    (is "_ = Some ?h") using t by (auto simp: answer_name_def rm_answers_def)
  note h = rm_answer_registered [OF this]
  have "?h ?jid ?rm2 = Some (answered ?t ?jid (reply ?t ?rc ?jid) ?rm2)"
    using t rc by (auto simp: plain_handlers answer_all_eq)
  then show ?thesis
    using first w2 h
    by (intro exI [of _ ?rm1] exI [of _ w2] exI [of _ ?h]
        exI [of _ "answered ?t ?jid (reply ?t ?rc ?jid) ?rm2"])
      (simp add: trigger_dm_def answered_def to_each_def asks_def)
qed

theorem hold_release_answered_witness:
  "\<forall>rm m w job. \<exists>rm1 w2 h rm3. gw_rm_connection
       (m\<lparr>m_msg_type := GW_MSG_HOLD, m_owner := ''root'', m_job_id := 0\<rparr>)
       (rm\<lparr>rm_gwadmin := ''root'', rm_world := w\<lparr>w_jobs :=
          \<lparr>pool_number = 1, pool_last_id = 0, pool_slots = [Some (job\<lparr>job_job_state := GW_JOB_STATE_PENDING\<rparr>)]\<rparr>\<rparr>\<rparr>) = Some rm1
     \<and> gw_dm_hold (Some 0) (rm_world rm1) = Some w2
     \<and> gw_job_pool_get w2 0 = Some (job\<lparr>job_job_state := GW_JOB_STATE_HOLD\<rparr>)
     \<and> w_rm w2 = w_rm w @ [(''GW_RM_HOLD_SUCCESS'', Some 0)]
     \<and> map_of rm_entries ''GW_RM_HOLD_SUCCESS'' = Some (False, RM_ANSWER h)
     \<and> h 0 (rm1\<lparr>rm_world := w2\<rparr>) = Some rm3
     \<and> (m_client_socket m, OUT_REPLY (reply GW_MSG_HOLD GW_RC_SUCCESS 0)) \<in> set (rm_sent rm3)"
proof (intro allI)
  fix rm :: gw_rm and m :: gw_msg and w :: gwd and job :: gw_job
  let ?w = "w\<lparr>w_jobs := \<lparr>pool_number = 1, pool_last_id = 0,
    pool_slots = [Some (job\<lparr>job_job_state := GW_JOB_STATE_PENDING\<rparr>)]\<rparr>\<rparr>"
  let ?rm = "rm\<lparr>rm_gwadmin := ''root'', rm_world := ?w\<rparr>"
  let ?m = "m\<lparr>m_msg_type := GW_MSG_HOLD, m_owner := ''root'', m_job_id := 0\<rparr>"
  have may: "may_act ?rm ?m" by (simp add: may_act_def gw_rm_is_gwadmin_def)
  have dm: "dm_request (m_msg_type ?m) =
      Some (''GW_DM_HOLD'', gw_dm_hold, GW_JOB_STATE_PENDING, GW_JOB_STATE_HOLD)"
    by (simp add: dm_request_def)
  have get: "gw_job_pool_get ?w 0 = Some (job\<lparr>job_job_state := GW_JOB_STATE_PENDING\<rparr>)"
    by (simp add: gw_job_pool_get_def pool_get_def slot_def)
  then have "outcome ?w 0 GW_JOB_STATE_PENDING = GW_RC_SUCCESS"
    "outcome (trigger_dm ''GW_DM_HOLD'' (Some 0) ?w) 0 GW_JOB_STATE_PENDING = GW_RC_SUCCESS"
    by (simp_all add: outcome_def trigger_dm_def)
  with hold_release_answered [OF may dm] get
  show "\<exists>rm1 w2 h rm3. gw_rm_connection ?m ?rm = Some rm1
     \<and> gw_dm_hold (Some 0) (rm_world rm1) = Some w2
     \<and> gw_job_pool_get w2 0 = Some (job\<lparr>job_job_state := GW_JOB_STATE_HOLD\<rparr>)
     \<and> w_rm w2 = w_rm w @ [(''GW_RM_HOLD_SUCCESS'', Some 0)]
     \<and> map_of rm_entries ''GW_RM_HOLD_SUCCESS'' = Some (False, RM_ANSWER h)
     \<and> h 0 (rm1\<lparr>rm_world := w2\<rparr>) = Some rm3
     \<and> (m_client_socket m, OUT_REPLY (reply GW_MSG_HOLD GW_RC_SUCCESS 0)) \<in> set (rm_sent rm3)"
    by (fastforce simp: answer_name_def changed_to_def trigger_dm_def)
qed

end
