(* ===== verification/Rm_Listener.thy ===== *)
theory Rm_Listener
  imports Rm_Safety
begin

text \<open>
  The sockets of the request manager, \<open>gw_rm_listener\<close> of \<open>src/rm/gw_rm.c\<close>: the table
  of active connections, whose first entry is the daemon's own socket, and the largest
  descriptor, the bound \<open>select\<close> is given.  An event is what the system calls return:
  the result of \<open>accept\<close>, or whether \<open>recv\<close> read a whole message.
\<close>

section \<open>The table\<close>

definition gw_rm_set_fd_set :: "int list \<Rightarrow> int set" where
  "gw_rm_set_fd_set active_connections = {fd \<in> set active_connections. fd \<noteq> - 1}"

text \<open>The loops from entry 1: the first free entry, the first entry of a socket.\<close>

fun put_first :: "int \<Rightarrow> int \<Rightarrow> int list \<Rightarrow> int list option" where
  "put_first old new [] = None"
| "put_first old new (x # xs) =
     (if x = old then Some (new # xs) else map_option (\<lambda>ys. x # ys) (put_first old new xs))"

text \<open>Whether the connection must be closed, the table and the largest descriptor.\<close>

definition gw_rm_add_fd_set :: "int list \<Rightarrow> int \<Rightarrow> int \<Rightarrow> bool \<times> int list \<times> int" where
  "gw_rm_add_fd_set active_connections socket max_fd =
     (case put_first (- 1) socket (tl active_connections) of
        None \<Rightarrow> (True, active_connections, max_fd)
      | Some clients \<Rightarrow>
          (False, hd active_connections # clients, if socket > max_fd then socket else max_fd))"

definition largest :: "int list \<Rightarrow> int" where
  "largest active_connections = foldl (\<lambda>m fd. if fd > m then fd else m) 0 active_connections"

definition gw_rm_del_fd_set :: "int list \<Rightarrow> int \<Rightarrow> int list \<times> int" where
  "gw_rm_del_fd_set active_connections socket =
     (let active_connections =
        (case put_first socket (- 1) (tl active_connections) of
           None \<Rightarrow> active_connections
         | Some clients \<Rightarrow> hd active_connections # clients)
      in (active_connections, largest active_connections))"

section \<open>The loop\<close>

datatype rm_action =
    CONNECTION gw_msg
  | CONNECTION_SUBMIT gw_msg gw_template

record rm_listener =
  ls_rm :: gw_rm
  ls_active :: "int list"
  ls_max_fd :: int
  ls_actions :: "rm_action list"

definition listener_init :: "int \<Rightarrow> nat \<Rightarrow> gw_rm \<Rightarrow> rm_listener" where
  "listener_init socket max_clients rm =
     \<lparr>ls_rm = rm, ls_active = socket # replicate (max_clients - 1) (- 1), ls_max_fd = socket,
      ls_actions = []\<rparr>"

datatype fd_event =
    FD_ACCEPT int
  | FD_RECV "(gw_msg \<times> gw_template) option"

text \<open>A new connection; one too many is closed at once.\<close>

definition listener_accept :: "int \<Rightarrow> rm_listener \<Rightarrow> rm_listener" where
  "listener_accept client_socket st =
     (if client_socket = - 1 then st
      else
        let (close_connection, active, max_fd) =
              gw_rm_add_fd_set (ls_active st) client_socket (ls_max_fd st)
        in st\<lparr>ls_active := active, ls_max_fd := max_fd\<rparr>)"

text \<open>
  A message, which is passed on with the socket it came from, or the end of the
  connection: an error, fewer bytes than a message, or a message that says so.
\<close>

definition listener_close :: "int \<Rightarrow> rm_listener \<Rightarrow> rm_listener" where
  "listener_close i st =
     (let (active, max_fd) = gw_rm_del_fd_set (ls_active st) i
      in st\<lparr>ls_active := active, ls_max_fd := max_fd,
            ls_rm := (ls_rm st)\<lparr>rm_connections :=
              gw_connection_list_delete (rm_connections (ls_rm st)) i\<rparr>\<rparr>)"

definition listener_receive :: "int \<Rightarrow> (gw_msg \<times> gw_template) option \<Rightarrow> rm_listener \<Rightarrow> rm_listener" where
  "listener_receive i r st =
     (case r of
        None \<Rightarrow> listener_close i st
      | Some (msg, jt) \<Rightarrow>
          if m_msg_type msg = GW_MSG_DISENGAGE then listener_close i st
          else
            let msg = msg\<lparr>m_client_socket := i\<rparr> in
            st\<lparr>ls_actions := ls_actions st @
                 [if m_msg_type msg = GW_MSG_SUBMIT \<or> m_msg_type msg = GW_MSG_SUBMIT_ARRAY
                  then CONNECTION_SUBMIT msg jt else CONNECTION msg]\<rparr>)"

definition listener_event :: "int \<times> fd_event \<Rightarrow> rm_listener \<Rightarrow> rm_listener" where
  "listener_event e st =
     (case e of
        (i, FD_ACCEPT s) \<Rightarrow> if i = hd (ls_active st) then listener_accept s st else st
      | (i, FD_RECV r) \<Rightarrow> if i = hd (ls_active st) then st else listener_receive i r st)"

text \<open>The descriptors \<open>select\<close> reports, in their order, as far as the largest one goes.\<close>

fun gw_rm_listener_round :: "(int \<times> fd_event) list \<Rightarrow> rm_listener \<Rightarrow> rm_listener" where
  "gw_rm_listener_round [] st = st"
| "gw_rm_listener_round (e # es) st =
     gw_rm_listener_round es (if fst e < ls_max_fd st + 1 then listener_event e st else st)"

section \<open>The largest descriptor\<close>

definition is_largest :: "int \<Rightarrow> int list \<Rightarrow> bool" where
  "is_largest m fds \<longleftrightarrow> m \<in> set fds \<and> list_all (\<lambda>fd. fd \<le> m) fds"

definition listener_ok :: "rm_listener \<Rightarrow> bool" where
  "listener_ok st \<longleftrightarrow>
     ls_active st \<noteq> [] \<and> 0 \<le> hd (ls_active st) \<and> list_all (\<lambda>fd. - 1 \<le> fd) (ls_active st)
   \<and> hd (ls_active st) \<notin> set (tl (ls_active st))
   \<and> distinct (filter (\<lambda>fd. fd \<noteq> - 1) (ls_active st))
   \<and> is_largest (ls_max_fd st) (ls_active st)"

lemma put_first_split:
  "put_first old new xs = (if old \<in> set xs
     then Some (takeWhile (\<lambda>x. x \<noteq> old) xs @ new # tl (dropWhile (\<lambda>x. x \<noteq> old) xs)) else None)"
  by (induction xs) auto

lemma put_first_cases:
  assumes "put_first old new xs = Some ys"
  obtains pre post where "xs = pre @ old # post" "ys = pre @ new # post"
proof -
  from assms have "old \<in> set xs" by (auto simp: put_first_split split: if_splits)
  then obtain pre post where p: "xs = pre @ old # post" "old \<notin> set pre"
    using split_list_first [of old xs] by blast
  then have "put_first old new xs = Some (pre @ new # post)"
    by (auto simp: put_first_split takeWhile_append dropWhile_append)
  with assms p that show ?thesis by simp
qed

lemma largest_is_largest:
  assumes "xs \<noteq> []" and "0 \<le> hd xs"
  shows "is_largest (largest xs) xs"
proof -
  have "let r = foldl (\<lambda>m fd. if fd > m then fd else m) a ys in
      (r = a \<or> r \<in> set ys) \<and> a \<le> r \<and> (\<forall>y \<in> set ys. y \<le> r)" for a :: int and ys
    by (induction ys arbitrary: a) (auto simp: Let_def split: if_splits; force)+
  from this [of 0 xs] have r: "largest xs = 0 \<or> largest xs \<in> set xs" "\<forall>y \<in> set xs. y \<le> largest xs"
    by (simp_all add: largest_def Let_def)
  moreover have "hd xs \<in> set xs" using assms(1) by simp
  ultimately show ?thesis using assms(2) by (force simp: is_largest_def list_all_iff)
qed

lemma listener_ok_init: "0 \<le> socket \<Longrightarrow> listener_ok (listener_init socket n rm)"
  by (auto simp: listener_ok_def listener_init_def is_largest_def list_all_iff)

lemma listener_ok_accept:
  assumes ok: "listener_ok st" and "s = - 1 \<or> 0 \<le> s \<and> s \<notin> set (ls_active st)"
  shows "listener_ok (listener_accept s st) \<and> hd (ls_active (listener_accept s st)) = hd (ls_active st)"
proof (cases "s = - 1 \<or> put_first (- 1) s (tl (ls_active st)) = None")
  case True
  with ok show ?thesis by (auto simp: listener_accept_def gw_rm_add_fd_set_def)
next
  case False
  with assms(2) have s: "0 \<le> s" "s \<notin> set (ls_active st)" by auto
  obtain a cs where a: "ls_active st = a # cs" using ok by (cases "ls_active st") (auto simp: listener_ok_def)
  from False obtain ys where ys: "put_first (- 1) s cs = Some ys" by (auto simp: a)
  then obtain pre post where p: "cs = pre @ - 1 # post" "ys = pre @ s # post"
    by (rule put_first_cases)
  have acc: "listener_accept s st = st\<lparr>ls_active := a # ys,
      ls_max_fd := if s > ls_max_fd st then s else ls_max_fd st\<rparr>"
    using False ys by (auto simp: listener_accept_def gw_rm_add_fd_set_def a)
  have "ls_max_fd st \<noteq> - 1" using ok by (auto simp: listener_ok_def is_largest_def a)
  moreover have "\<forall>fd \<in> insert a (set pre \<union> set post). fd \<le> ls_max_fd st"
    using ok by (auto simp: listener_ok_def is_largest_def a p list_all_iff)
  then have "\<forall>fd \<in> insert a (set pre \<union> set post). fd \<le> s" if "s > ls_max_fd st"
    using that by (meson less_imp_le order_trans)
  ultimately show ?thesis
    using ok s unfolding acc listener_ok_def a p by (auto simp: is_largest_def a p list_all_iff)
qed

lemma listener_ok_close:
  assumes ok: "listener_ok st" and i: "i \<noteq> - 1"
  shows "listener_ok (listener_close i st) \<and> hd (ls_active (listener_close i st)) = hd (ls_active st)"
proof -
  obtain a cs where a: "ls_active st = a # cs" using ok by (cases "ls_active st") (auto simp: listener_ok_def)
  show ?thesis
  proof (cases "put_first i (- 1) cs")
    case None
    have "is_largest (largest (a # cs)) (a # cs)"
      using ok by (intro largest_is_largest) (auto simp: listener_ok_def a)
    with None ok show ?thesis
      by (auto simp: listener_close_def gw_rm_del_fd_set_def a listener_ok_def Let_def)
  next
    case (Some ys)
    then obtain pre post where p: "cs = pre @ i # post" "ys = pre @ - 1 # post"
      by (rule put_first_cases)
    have "is_largest (largest (a # ys)) (a # ys)"
      using ok by (intro largest_is_largest) (auto simp: listener_ok_def a)
    with Some ok i show ?thesis
      by (auto simp: listener_close_def gw_rm_del_fd_set_def a listener_ok_def Let_def p)
  qed
qed

text \<open>
  What the system calls promise: \<open>accept\<close> returns -1 or a descriptor not in use, and
  \<open>select\<close> reports descriptors, which are not negative.
\<close>

definition event_ok :: "int list \<Rightarrow> int \<times> fd_event \<Rightarrow> bool" where
  "event_ok active e \<longleftrightarrow> 0 \<le> fst e \<and>
     (case snd e of FD_ACCEPT s \<Rightarrow> s = - 1 \<or> 0 \<le> s \<and> s \<notin> set active | FD_RECV _ \<Rightarrow> True)"

lemma listener_ok_event:
  assumes "listener_ok st" and "event_ok (ls_active st) e"
  shows "listener_ok (listener_event e st)"
proof (cases e)
  case (Pair i ev)
  show ?thesis
  proof (cases ev)
    case (FD_ACCEPT s)
    with assms Pair show ?thesis
      using listener_ok_accept [of st s] by (auto simp: listener_event_def event_ok_def)
  next
    case (FD_RECV r)
    have same: "listener_ok (st\<lparr>ls_actions := x\<rparr>) = listener_ok st" for x
      by (simp add: listener_ok_def)
    from FD_RECV assms Pair show ?thesis
      using listener_ok_close [of st i]
      by (auto simp: listener_event_def event_ok_def listener_receive_def Let_def same
          split: option.split prod.split)
  qed
qed

text \<open>Every event of a sequence is one the system may report when it comes.\<close>

fun events_ok :: "rm_listener \<Rightarrow> (int \<times> fd_event) list \<Rightarrow> bool" where
  "events_ok st [] = True"
| "events_ok st (e # es) =
     (event_ok (ls_active st) e \<and> events_ok (if fst e < ls_max_fd st + 1 then listener_event e st else st) es)"

lemma listener_ok_round: "listener_ok st \<Longrightarrow> events_ok st es \<Longrightarrow> listener_ok (gw_rm_listener_round es st)"
proof (induction es arbitrary: st)
  case (Cons e es)
  let ?st = "if fst e < ls_max_fd st + 1 then listener_event e st else st"
  from Cons.prems have "listener_ok ?st" "events_ok ?st es" by (auto intro: listener_ok_event)
  with Cons.IH show ?case by simp
qed simp

lemma listener_ok_watches:
  assumes "listener_ok st"
  shows "gw_rm_set_fd_set (ls_active st) \<subseteq> {0 .. ls_max_fd st}
    \<and> ls_max_fd st \<in> gw_rm_set_fd_set (ls_active st)
    \<and> distinct (filter (\<lambda>fd. fd \<noteq> - 1) (ls_active st))"
proof -
  obtain a cs where a: "ls_active st = a # cs"
    using assms by (cases "ls_active st") (auto simp: listener_ok_def)
  have low: "\<forall>fd \<in> set (a # cs). - 1 \<le> fd" and high: "\<forall>fd \<in> set (a # cs). fd \<le> ls_max_fd st"
    and m: "ls_max_fd st \<in> set (a # cs)" and "0 \<le> a"
    and d: "distinct (filter (\<lambda>fd. fd \<noteq> - 1) (ls_active st))"
    using assms by (auto simp: listener_ok_def is_largest_def list_all_iff a)
  then have "ls_max_fd st \<noteq> - 1" by auto
  moreover have "0 \<le> fd" if "fd \<in> set (a # cs)" "fd \<noteq> - 1" for fd
    using low that by force
  ultimately show ?thesis using high m d unfolding gw_rm_set_fd_set_def a by auto
qed

text \<open>C31 (invariant).
  However clients come, talk and go, the bound the listener gives to \<open>select\<close> stays the
  largest descriptor of its table, so that every connection is watched; no descriptor
  is in the table twice, and the daemon's own socket stays in the first entry.\<close>

theorem listener_watches_all:
  assumes "0 \<le> socket" and "events_ok (listener_init socket n rm) es"
  shows "let st = gw_rm_listener_round es (listener_init socket n rm) in
     gw_rm_set_fd_set (ls_active st) \<subseteq> {0 .. ls_max_fd st} \<and> ls_max_fd st \<in> gw_rm_set_fd_set (ls_active st)
   \<and> distinct (filter (\<lambda>fd. fd \<noteq> - 1) (ls_active st))"
proof -
  have "listener_ok (gw_rm_listener_round es (listener_init socket n rm))"
    using assms by (intro listener_ok_round listener_ok_init)
  then show ?thesis unfolding Let_def using listener_ok_watches by blast
qed

theorem listener_watches_all_witness:
  "\<forall>rm. let st = gw_rm_listener_round [(3, FD_ACCEPT 9), (3, FD_ACCEPT 5), (9, FD_RECV None)]
       (listener_init 3 4 rm) in ls_active st = [3, - 1, 5, - 1] \<and> gw_rm_set_fd_set (ls_active st) \<subseteq> {0 .. 5}"
proof
  fix rm :: gw_rm
  let ?es = "[(3, FD_ACCEPT 9), (3, FD_ACCEPT 5), (9, FD_RECV None)]"
  let ?st = "gw_rm_listener_round ?es (listener_init 3 4 rm)"
  have st: "ls_active ?st = [3, - 1, 5, - 1] \<and> ls_max_fd ?st = 5"
    by (simp add: listener_init_def listener_event_def listener_accept_def gw_rm_add_fd_set_def
        listener_receive_def listener_close_def gw_rm_del_fd_set_def largest_def numeral_eq_Suc)
  have "events_ok (listener_init 3 4 rm) ?es"
    by (simp add: listener_init_def listener_event_def listener_accept_def gw_rm_add_fd_set_def
        event_ok_def numeral_eq_Suc)
  with listener_watches_all [of 3 4 rm ?es] st show "let st = ?st in
      ls_active st = [3, - 1, 5, - 1] \<and> gw_rm_set_fd_set (ls_active st) \<subseteq> {0 .. 5}"
    by (simp add: Let_def)
qed

section \<open>Requests of clients that have gone\<close>

lemma close_active:
  assumes "listener_ok st" and "i \<in> set (tl (ls_active st))" and "0 \<le> i"
  shows "i \<notin> set (ls_active (listener_close i st))"
proof -
  obtain a cs where a: "ls_active st = a # cs"
    using assms(1) by (cases "ls_active st") (auto simp: listener_ok_def)
  from assms(2) a obtain ys where ys: "put_first i (- 1) cs = Some ys" by (simp add: put_first_split)
  then obtain pre post where p: "cs = pre @ i # post" "ys = pre @ - 1 # post"
    by (rule put_first_cases)
  have "i \<notin> set pre \<and> i \<notin> set post \<and> i \<noteq> a"
    using assms(1,3) by (auto simp: listener_ok_def a p split: if_splits)
  with ys assms(3) show ?thesis
    by (auto simp: listener_close_def gw_rm_del_fd_set_def a p Let_def)
qed

lemma close_forgets:
  "list_all (\<lambda>c. cn_socket_fs c \<noteq> i) (rm_connections (ls_rm (listener_close i st)))"
  by (auto simp: listener_close_def gw_rm_del_fd_set_def Let_def delete_eq_filter list_all_iff)

text \<open>A client that sends a request and leaves at once: the listener takes its descriptor
  out of the table and its requests out of the list, but the request itself is still
  with the action manager, and when it is handled the client is put into the list with
  a descriptor that is free by then: the next client that gets it gets the answer.\<close>

theorem stale_request_listed:
  assumes "listener_ok st" and "i \<in> set (tl (ls_active st))" and "0 \<le> i"
    and "dm_action \<in> {GW_MSG_HOLD, GW_MSG_RELEASE, GW_MSG_STOP, GW_MSG_RESUME, GW_MSG_RESCHEDULE, GW_MSG_KILL}"
    and "m_msg_type msg = dm_action" and "may_act (ls_rm st) (msg\<lparr>m_client_socket := i\<rparr>)"
  shows "let st' = gw_rm_listener_round [(i, FD_RECV (Some (msg, jt))), (i, FD_RECV None)] st;
             request = msg\<lparr>m_client_socket := i\<rparr>
         in i \<notin> set (ls_active st')
          \<and> list_all (\<lambda>c. cn_socket_fs c \<noteq> i) (rm_connections (ls_rm st'))
          \<and> ls_actions st' = ls_actions st @ [CONNECTION request]
          \<and> (\<exists>rm'. gw_rm_connection request (ls_rm st') = Some rm'
               \<and> list_ex (\<lambda>c. cn_socket_fs c = i \<and> asks dm_action (m_job_id msg) c) (rm_connections rm'))"
proof -
  let ?request = "msg\<lparr>m_client_socket := i\<rparr>"
  let ?st1 = "st\<lparr>ls_actions := ls_actions st @ [CONNECTION ?request]\<rparr>"
  have i: "i \<noteq> hd (ls_active st)" "i \<le> ls_max_fd st"
    using assms(1,2) by (auto simp: listener_ok_def is_largest_def list_all_iff dest: list.set_sel(2))
  have "listener_event (i, FD_RECV (Some (msg, jt))) st = ?st1"
    using assms(4,5) i by (auto simp: listener_event_def listener_receive_def)
  then have round: "gw_rm_listener_round [(i, FD_RECV (Some (msg, jt))), (i, FD_RECV None)] st
      = listener_close i ?st1"
    using i by (simp add: listener_event_def listener_receive_def)
  have "i \<notin> set (ls_active (listener_close i ?st1))"
    by (rule close_active) (use assms in \<open>auto simp: listener_ok_def\<close>)
  moreover have "list_all (\<lambda>c. cn_socket_fs c \<noteq> i) (rm_connections (ls_rm (listener_close i ?st1)))"
    by (rule close_forgets)
  moreover have "ls_actions (listener_close i ?st1) = ls_actions st @ [CONNECTION ?request]"
    by (simp add: listener_close_def split: prod.split)
  moreover have "may_act (ls_rm (listener_close i ?st1)) ?request"
    using assms(6) by (simp add: may_act_def gw_rm_is_gwadmin_def listener_close_def split: prod.split)
  then have "\<exists>rm'. gw_rm_connection ?request (ls_rm (listener_close i ?st1)) = Some rm'
      \<and> list_ex (\<lambda>c. cn_socket_fs c = i \<and> asks dm_action (m_job_id msg) c) (rm_connections rm')"
    using assms(4,5) auth_user_iff [of _ ?request]
    by (auto simp: gw_rm_connection_def job_request_def Let_def gw_connection_list_add_def asks_def)
  ultimately show ?thesis unfolding round Let_def by blast
qed

theorem stale_request_listed_witness:
  "\<forall>rm m jt. let rm1 = rm\<lparr>rm_gwadmin := ''root''\<rparr>;
       msg = m\<lparr>m_msg_type := GW_MSG_HOLD, m_owner := ''root''\<rparr>;
       st = gw_rm_listener_round [(3, FD_ACCEPT 4)] (listener_init 3 4 rm1);
       st' = gw_rm_listener_round [(4, FD_RECV (Some (msg, jt))), (4, FD_RECV None)] st
     in 4 \<notin> set (ls_active st') \<and>
        (\<exists>rm'. gw_rm_connection (msg\<lparr>m_client_socket := 4\<rparr>) (ls_rm st') = Some rm'
           \<and> list_ex (\<lambda>c. cn_socket_fs c = 4) (rm_connections rm'))"
proof (intro allI)
  fix rm :: gw_rm and m :: gw_msg and jt
  let ?rm = "rm\<lparr>rm_gwadmin := ''root''\<rparr>"
  let ?m = "m\<lparr>m_msg_type := GW_MSG_HOLD, m_owner := ''root''\<rparr>"
  let ?st = "gw_rm_listener_round [(3, FD_ACCEPT 4)] (listener_init 3 4 ?rm)"
  have st: "?st = \<lparr>ls_rm = ?rm, ls_active = [3, 4, - 1, - 1], ls_max_fd = 4, ls_actions = []\<rparr>"
    by (simp add: listener_init_def listener_event_def listener_accept_def gw_rm_add_fd_set_def
        numeral_eq_Suc)
  have "listener_ok ?st" unfolding st by (simp add: listener_ok_def is_largest_def)
  moreover have "may_act (ls_rm ?st) (?m\<lparr>m_client_socket := 4\<rparr>)"
    unfolding st by (simp add: may_act_def gw_rm_is_gwadmin_def)
  moreover have "4 \<in> set (tl (ls_active ?st))" unfolding st by simp
  ultimately show "let rm1 = ?rm; msg = ?m; st = gw_rm_listener_round [(3, FD_ACCEPT 4)] (listener_init 3 4 rm1);
       st' = gw_rm_listener_round [(4, FD_RECV (Some (msg, jt))), (4, FD_RECV None)] st
     in 4 \<notin> set (ls_active st') \<and>
        (\<exists>rm'. gw_rm_connection (msg\<lparr>m_client_socket := 4\<rparr>) (ls_rm st') = Some rm'
           \<and> list_ex (\<lambda>c. cn_socket_fs c = 4) (rm_connections rm'))"
    using stale_request_listed [of ?st 4 GW_MSG_HOLD ?m jt]
    unfolding Let_def by (fastforce simp: list_ex_iff)
qed

end
