(* ===== verification/Im_Drivers.thy ===== *)
theory Im_Drivers
  imports Gw_Host_Pool Gw_Mad_Line
begin

text \<open>
  The drivers of the information manager: \<open>src/im/gw_im_mad.c\<close>, their registration in
  \<open>src/im/gw_im.c\<close> and the loop of \<open>gwd/gwd.c\<close> that registers the configured ones.  What
  the system calls of a start give (the pipes, the process, the line the driver answers)
  is an argument; what is written to a driver and which descriptors are closed is a list.
  A list of arguments that has been freed and is still pointed at is \<open>FREED_ARG\<close>.
\<close>

section \<open>Data\<close>

definition GW_IM_MAX_STRING :: nat where
  "GW_IM_MAX_STRING = 65536"

datatype gw_im_mad_state =
    GW_IM_MAD_STATE_IDLE | GW_IM_MAD_STATE_DISCOVERING | GW_IM_MAD_STATE_LIMIT

datatype im_argument = NO_ARG | ARG string | FREED_ARG

record gw_im_mad =
  im_name :: string
  im_executable :: string
  im_argument :: im_argument
  im_em_mad_name :: string
  im_tm_mad_name :: string
  im_mad_im_pipe :: int
  im_im_mad_pipe :: int
  im_pid :: int
  im_state :: gw_im_mad_state

text \<open>One entry \<open>gw_conf.im_mads[i]\<close>.\<close>

record im_conf_mad =
  cm_name :: "string option"
  cm_path :: "string option"
  cm_args :: "string option"
  cm_tm :: "string option"
  cm_em :: "string option"

datatype im_output = WRITE int string | CLOSE int

text \<open>The result of \<open>pipe\<close>, \<open>fork\<close> and the first line of the driver, without its end; no
  line when the driver closes its pipe.\<close>

datatype im_start = NO_PIPE | NO_FORK | FORKED (st_pid: int) (st_write: int) (st_read: int) (st_line: "string option")

text \<open>The memory of the daemon is zero at the start.\<close>

definition no_im_mad :: gw_im_mad where
  "no_im_mad = \<lparr> im_name = [], im_executable = [], im_argument = NO_ARG, im_em_mad_name = [],
     im_tm_mad_name = [], im_mad_im_pipe = 0, im_im_mad_pipe = 0, im_pid = 0,
     im_state = GW_IM_MAD_STATE_IDLE \<rparr>"

section \<open>The start of a driver\<close>

text \<open>
  \<open>sscanf(str, "%s %s %s %[^\n]", ...)\<close> has no widths: a word as long as its array overruns
  it; a word that is missing leaves its array uninitialised, and to compare that is
  undefined.  The line itself is collected without a bound.
\<close>

definition start_word :: "nat \<Rightarrow> string \<Rightarrow> scanned" where
  "start_word n s =
     (let t = dropWhile is_blank s; w = takeWhile (\<lambda>c. \<not> is_blank c) t in
      if w = [] then NO_MORE else if length w \<ge> n then OVERRUN else STORED w (drop (length w) t))"

definition start_answer :: "string \<Rightarrow> int option" where
  "start_answer line =
     (if length line + 1 \<ge> GW_IM_MAX_STRING then None
      else (case start_word 20 line of
          STORED action r \<Rightarrow> (case start_word 5 r of
              OVERRUN \<Rightarrow> None
            | NO_MORE \<Rightarrow> if action = ''INIT'' then None else Some (- 1)
            | STORED host r \<Rightarrow> (case start_word 10 r of
                OVERRUN \<Rightarrow> None
              | NO_MORE \<Rightarrow> if action = ''INIT'' then None else Some (- 1)
              | STORED result r \<Rightarrow>
                  Some (if action = ''INIT'' \<and> result \<noteq> ''FAILURE'' then 0 else - 1)))
        | _ \<Rightarrow> None))"

definition gw_im_mad_start :: "im_start \<Rightarrow> gw_im_mad \<Rightarrow> (int \<times> gw_im_mad \<times> im_output list) option" where
  "gw_im_mad_start start mad = (case start of
      NO_PIPE \<Rightarrow> Some (- 1, mad, [])
    | NO_FORK \<Rightarrow> Some (- 1, mad\<lparr>im_pid := - 1\<rparr>, [])
    | FORKED pid w r line \<Rightarrow>
        if im_argument mad = FREED_ARG then None
        else do {
          rc \<leftarrow> (case line of None \<Rightarrow> Some (- 1) | Some l \<Rightarrow> start_answer l);
          Some (rc, mad\<lparr>im_pid := pid, im_im_mad_pipe := w, im_mad_im_pipe := r\<rparr>,
            [WRITE w (''INIT - - -'' @ [CHR 0x0A])])
        })"

definition stop_output :: "gw_im_mad \<Rightarrow> im_output list" where
  "stop_output mad = [WRITE (im_im_mad_pipe mad) (''FINALIZE - - -'' @ [CHR 0x0A]),
     CLOSE (im_im_mad_pipe mad), CLOSE (im_mad_im_pipe mad)]"

text \<open>The names are freed too, but every later use of the entry sets them first.\<close>

definition gw_im_mad_finalize :: "gw_im_mad \<Rightarrow> (gw_im_mad \<times> im_output list) option" where
  "gw_im_mad_finalize mad = (case im_argument mad of
      FREED_ARG \<Rightarrow> None
    | NO_ARG \<Rightarrow> Some (mad, stop_output mad)
    | ARG a \<Rightarrow> Some (mad\<lparr>im_argument := FREED_ARG\<rparr>, stop_output mad))"

definition gw_im_mad_init ::
    "im_start \<Rightarrow> gw_im_mad \<Rightarrow> string option \<Rightarrow> string option \<Rightarrow> string option \<Rightarrow> string option
       \<Rightarrow> string option \<Rightarrow> (int \<times> gw_im_mad \<times> im_output list) option" where
  "gw_im_mad_init start mad exe name args em tm = (case (exe, name, em, tm) of
      (Some x, Some n, Some e, Some t) \<Rightarrow> do {
        let mad = mad\<lparr>im_name := n, im_executable := x, im_em_mad_name := e, im_tm_mad_name := t,
          im_state := GW_IM_MAD_STATE_IDLE\<rparr>;
        let mad = (case args of None \<Rightarrow> mad | Some a \<Rightarrow> mad\<lparr>im_argument := ARG a\<rparr>);
        (rc, mad, out) \<leftarrow> gw_im_mad_start start mad;
        if rc = - 1 then do {
          (mad, out') \<leftarrow> gw_im_mad_finalize mad;
          Some (rc, mad, out @ out')
        } else Some (rc, mad, out)
      }
    | _ \<Rightarrow> Some (- 1, mad, []))"

text \<open>A driver that is loaded again keeps its state: what it was asked is not asked again.\<close>

definition gw_im_mad_reload :: "im_start \<Rightarrow> gw_im_mad \<Rightarrow> (int \<times> gw_im_mad \<times> im_output list) option" where
  "gw_im_mad_reload start mad = do {
     (rc, mad', out) \<leftarrow> gw_im_mad_start start mad;
     Some (rc, mad', stop_output mad @ out)
   }"

section \<open>Registration\<close>

text \<open>
  The part of \<open>gw_im_t\<close> the drivers are in.  With five of them registered the function
  returns with the mutex locked.
\<close>

record im_table =
  it_mutex_locked :: bool
  it_registered_mads :: nat
  it_im_mad :: "gw_im_mad list"
  it_output :: "im_output list"

definition gw_im_init :: im_table where
  "gw_im_init = \<lparr> it_mutex_locked = False, it_registered_mads = 0,
     it_im_mad = replicate GW_MAX_MADS no_im_mad, it_output = [] \<rparr>"

definition registered_im :: "im_table \<Rightarrow> gw_im_mad list" where
  "registered_im t = take (it_registered_mads t) (it_im_mad t)"

text \<open>The execution and transfer drivers are those of the configured entry with the number
  of registered drivers, not those of the entry that is registered.\<close>

definition gw_im_register_mad ::
    "im_conf_mad list \<Rightarrow> im_start \<Rightarrow> string option \<Rightarrow> string \<Rightarrow> string option \<Rightarrow> im_table
       \<Rightarrow> (int \<times> im_table) option" where
  "gw_im_register_mad mads start executable name arg t =
     (let n = it_registered_mads t in
      if n = GW_MAX_MADS then Some (- 1, t\<lparr>it_mutex_locked := True\<rparr>)
      else if name \<in> set (map im_name (registered_im t)) then Some (0, t)
      else do {
        c \<leftarrow> rd mads (int n);
        mad \<leftarrow> rd (it_im_mad t) (int n);
        (rc, mad, out) \<leftarrow> gw_im_mad_init start mad executable (Some name) arg (cm_em c) (cm_tm c);
        let t = t\<lparr>it_im_mad := (it_im_mad t)[n := mad], it_output := it_output t @ out\<rparr>;
        Some (rc, if rc = 0 then t\<lparr>it_registered_mads := n + 1\<rparr> else t)
      })"

text \<open>
  The loop of \<open>gw_register_mads\<close> over the configured entries; the starts are those of the
  entries in order.  \<open>None\<close> also when a driver does not start: the daemon exits.
\<close>

fun gw_register_im_mads ::
    "im_conf_mad list \<Rightarrow> (nat \<Rightarrow> im_start) \<Rightarrow> im_conf_mad list \<Rightarrow> nat \<Rightarrow> im_table \<Rightarrow> im_table option" where
  "gw_register_im_mads mads starts [] i t = Some t"
| "gw_register_im_mads mads starts (c # cs) i t = (case cm_name c of
      None \<Rightarrow> Some t
    | Some name \<Rightarrow> do {
        (rc, t) \<leftarrow> gw_im_register_mad mads (starts i) (cm_path c) name (cm_args c) t;
        if rc \<noteq> 0 then None else gw_register_im_mads mads starts cs (i + 1) t
      })"

section \<open>Which drivers end up registered\<close>

text \<open>The entries whose name has not been seen before.\<close>

fun first_names :: "'a list \<Rightarrow> 'b list \<Rightarrow> ('b \<Rightarrow> 'a) \<Rightarrow> 'b list" where
  "first_names seen [] f = []"
| "first_names seen (c # cs) f =
     (if f c \<in> set seen then first_names seen cs f else c # first_names (seen @ [f c]) cs f)"

lemma first_names_all:
  "distinct (seen @ map f cs) \<Longrightarrow> first_names seen cs f = cs"
proof (induction cs arbitrary: seen)
  case (Cons c cs)
  have "distinct ((seen @ [f c]) @ map f cs)" using Cons.prems by simp
  with Cons.IH [of "seen @ [f c]"] Cons.prems show ?case by simp
qed simp

lemma length_first_names: "length (first_names seen cs f) \<le> length cs"
  by (induction seen cs f rule: first_names.induct) auto

text \<open>A complete entry, and a start that goes well.\<close>

definition complete_entry :: "im_conf_mad \<Rightarrow> bool" where
  "complete_entry c \<longleftrightarrow> cm_name c \<noteq> None \<and> cm_path c \<noteq> None \<and> cm_tm c \<noteq> None \<and> cm_em c \<noteq> None"

definition good_start :: "im_start \<Rightarrow> bool" where
  "good_start s \<longleftrightarrow> (case s of FORKED pid w r (Some l) \<Rightarrow> start_answer l = Some 0 | _ \<Rightarrow> False)"

text \<open>The driver of an entry \<open>c\<close>, with the execution and transfer drivers of \<open>d\<close>.\<close>

definition shows_entry :: "gw_im_mad \<Rightarrow> im_conf_mad \<Rightarrow> im_conf_mad \<Rightarrow> bool" where
  "shows_entry m c d \<longleftrightarrow> Some (im_name m) = cm_name c \<and> Some (im_executable m) = cm_path c
     \<and> im_argument m = (case cm_args c of None \<Rightarrow> NO_ARG | Some a \<Rightarrow> ARG a)
     \<and> Some (im_em_mad_name m) = cm_em d \<and> Some (im_tm_mad_name m) = cm_tm d
     \<and> im_state m = GW_IM_MAD_STATE_IDLE"

lemma init_good:
  assumes "complete_entry c" and "complete_entry d" and "good_start s" and "im_argument m = NO_ARG"
  shows "\<exists>m' out. gw_im_mad_init s m (cm_path c) (cm_name c) (cm_args c) (cm_em d) (cm_tm d) = Some (0, m', out)
    \<and> shows_entry m' c d"
  using assms
  by (auto simp: complete_entry_def good_start_def gw_im_mad_init_def gw_im_mad_start_def shows_entry_def
      split: im_start.splits option.splits)

text \<open>The state of the table after some entries.\<close>

definition table_of :: "im_conf_mad list \<Rightarrow> im_conf_mad list \<Rightarrow> im_table \<Rightarrow> bool" where
  "table_of mads cs t \<longleftrightarrow> it_registered_mads t = length cs \<and> length (it_im_mad t) = GW_MAX_MADS
     \<and> length cs \<le> GW_MAX_MADS \<and> \<not> it_mutex_locked t
     \<and> (\<forall>k < length cs. shows_entry (it_im_mad t ! k) (cs ! k) (mads ! k))
     \<and> (\<forall>k < GW_MAX_MADS. length cs \<le> k \<longrightarrow> im_argument (it_im_mad t ! k) = NO_ARG)"

lemma table_of_names:
  assumes "table_of mads cs t"
  shows "map Some (map im_name (registered_im t)) = map cm_name cs"
  using assms by (intro nth_equalityI) (auto simp: table_of_def registered_im_def shows_entry_def)

lemma register_step:
  assumes "table_of mads cs t" and "length cs < GW_MAX_MADS" and "length cs < length mads"
    and "complete_entry c" and "list_all complete_entry mads" and "good_start s"
  shows "\<exists>t'. gw_im_register_mad mads s (cm_path c) (the (cm_name c)) (cm_args c) t = Some (0, t')
    \<and> table_of mads (if cm_name c \<in> set (map cm_name cs) then cs else cs @ [c]) t'"
proof -
  obtain name where n: "cm_name c = Some name" using assms(4) by (auto simp: complete_entry_def)
  have reg: "it_registered_mads t = length cs" using assms(1) by (simp add: table_of_def)
  have seen: "name \<in> set (map im_name (registered_im t)) \<longleftrightarrow> cm_name c \<in> set (map cm_name cs)"
    using table_of_names [OF assms(1)] n by (metis (no_types, lifting) image_iff list.set_map option.inject)
  show ?thesis
  proof (cases "cm_name c \<in> set (map cm_name cs)")
    case True
    then have "gw_im_register_mad mads s (cm_path c) name (cm_args c) t = Some (0, t)"
      using seen assms(2) reg by (simp add: gw_im_register_mad_def)
    with True assms(1) n show ?thesis by auto
  next
    case False
    let ?m = "it_im_mad t ! length cs" and ?d = "mads ! length cs"
    have arg: "im_argument ?m = NO_ARG" using assms(1,2) by (simp add: table_of_def)
    have "complete_entry ?d" using assms(3,5) by (simp add: list_all_length)
    from init_good [OF assms(4) this assms(6) arg] n obtain m' out where
      i: "gw_im_mad_init s ?m (cm_path c) (Some name) (cm_args c) (cm_em ?d) (cm_tm ?d) = Some (0, m', out)"
        "shows_entry m' c ?d" by auto
    let ?t = "t\<lparr>it_im_mad := (it_im_mad t)[length cs := m'], it_output := it_output t @ out,
      it_registered_mads := length cs + 1\<rparr>"
    have "gw_im_register_mad mads s (cm_path c) name (cm_args c) t = Some (0, ?t)"
      using seen False assms i reg by (simp add: gw_im_register_mad_def Let_def table_of_def)
    moreover have "table_of mads (cs @ [c]) ?t"
      using assms(1,2) i(2) by (auto simp: table_of_def nth_append nth_list_update less_Suc_eq)
    ultimately show ?thesis using False n by auto
  qed
qed

lemma register_all_entries:
  assumes "table_of mads done t" and "length done + length cs \<le> length mads" and "length mads \<le> GW_MAX_MADS"
    and "list_all complete_entry cs" and "list_all complete_entry mads" and "\<forall>i. good_start (starts i)"
  shows "\<exists>t'. gw_register_im_mads mads starts cs i t = Some t'
    \<and> table_of mads (done @ first_names (map cm_name done) cs cm_name) t'"
  using assms(1,2,4)
proof (induction cs arbitrary: "done" t i)
  case (Cons c cs)
  have c: "complete_entry c" "list_all complete_entry cs" using Cons.prems(3) by simp_all
  let ?done = "if cm_name c \<in> set (map cm_name done) then done else done @ [c]"
  obtain t1 where t1: "gw_im_register_mad mads (starts i) (cm_path c) (the (cm_name c)) (cm_args c) t = Some (0, t1)"
    "table_of mads ?done t1"
    using register_step [OF Cons.prems(1) _ _ c(1) assms(5), of "starts i"] Cons.prems(2) assms(3,6) by auto
  have "length ?done + length cs \<le> length mads" using Cons.prems(2) by simp
  from Cons.IH [OF t1(2) this c(2)] obtain t2 where
    "gw_register_im_mads mads starts cs (i + 1) t1 = Some t2"
    "table_of mads (?done @ first_names (map cm_name ?done) cs cm_name) t2" by blast
  then show ?case using t1(1) c(1) by (auto simp: complete_entry_def split: if_splits)
qed simp

text \<open>C34 (functional).
  The registration of complete entries whose drivers start: the entry for every name
  is registered once, in the order of the configuration, and the driver at position
  \<open>k\<close> hands its hosts to the execution and transfer drivers of the configured entry \<open>k\<close>.
  These are its own when no name occurs twice.\<close>

theorem im_mads_registered:
  assumes "list_all complete_entry mads" and "length mads \<le> GW_MAX_MADS" and "\<forall>i. good_start (starts i)"
  shows "\<exists>t. gw_register_im_mads mads starts mads 0 gw_im_init = Some t
    \<and> it_registered_mads t = length (first_names [] mads cm_name)
    \<and> (\<forall>k < it_registered_mads t.
         shows_entry (it_im_mad t ! k) (first_names [] mads cm_name ! k) (mads ! k))
    \<and> (distinct (map cm_name mads) \<longrightarrow> (\<forall>k < length mads. shows_entry (it_im_mad t ! k) (mads ! k) (mads ! k)))"
proof -
  have "table_of mads [] gw_im_init"
    by (simp add: table_of_def gw_im_init_def no_im_mad_def)
  from register_all_entries [OF this _ assms(2) assms(1) assms(1) assms(3), of 0] obtain t where
    "gw_register_im_mads mads starts mads 0 gw_im_init = Some t"
    "table_of mads (first_names [] mads cm_name) t" by auto
  moreover have "first_names [] mads cm_name = mads" if "distinct (map cm_name mads)"
    using that by (intro first_names_all) simp
  ultimately show ?thesis by (auto simp: table_of_def)
qed

definition conf_entry :: "string \<Rightarrow> string \<Rightarrow> string \<Rightarrow> im_conf_mad" where
  "conf_entry name tm em = \<lparr> cm_name = Some name, cm_path = Some ''gw_im_mad'', cm_args = None,
     cm_tm = Some tm, cm_em = Some em \<rparr>"

definition twice_named :: "im_conf_mad list" where
  "twice_named = [conf_entry ''mds'' ''ftp'' ''gram'', conf_entry ''mds'' ''ftp'' ''gram'',
     conf_entry ''ec2'' ''ssh'' ''cloud'']"

text \<open>A name that is configured twice gives the hosts of the third driver to the drivers
  of the second entry.\<close>

theorem im_mads_registered_witness:
  "\<exists>t. gw_register_im_mads twice_named (\<lambda>i. FORKED 7 8 9 (Some ''INIT - SUCCESS -'')) twice_named 0 gw_im_init = Some t
     \<and> it_registered_mads t = 2 \<and> im_name (it_im_mad t ! 1) = ''ec2''
     \<and> im_em_mad_name (it_im_mad t ! 1) = ''gram'' \<and> im_tm_mad_name (it_im_mad t ! 1) = ''ftp''"
proof -
  let ?starts = "\<lambda>i :: nat. FORKED 7 8 9 (Some ''INIT - SUCCESS -'')"
  have "list_all complete_entry twice_named" "length twice_named \<le> GW_MAX_MADS"
    by (simp_all add: twice_named_def conf_entry_def complete_entry_def GW_MAX_MADS_def)
  moreover have "\<forall>i. good_start (?starts i)"
    by (simp add: good_start_def start_answer_def start_word_def is_blank_def GW_IM_MAX_STRING_def Let_def)
  moreover have "first_names [] twice_named cm_name = [conf_entry ''mds'' ''ftp'' ''gram'', conf_entry ''ec2'' ''ssh'' ''cloud'']"
    by (simp add: twice_named_def conf_entry_def)
  ultimately obtain t where "gw_register_im_mads twice_named ?starts twice_named 0 gw_im_init = Some t"
    "it_registered_mads t = 2"
    "shows_entry (it_im_mad t ! 1) (conf_entry ''ec2'' ''ssh'' ''cloud'') (twice_named ! 1)"
    using im_mads_registered [of twice_named ?starts] by auto
  then show ?thesis by (auto simp: shows_entry_def twice_named_def conf_entry_def)
qed

end
