(* ===== verification/Gw_Host_Update.thy ===== *)
theory Gw_Host_Update
  imports Gw_Host_Lex
begin

text \<open>
  The attributes an information driver sends of a host: the grammar
  \<open>src/host/gw_host_update_syntax.y\<close> with its actions, and \<open>gw_host_update_attr\<close> of
  \<open>gw_host_attr_parser.l\<close>.  An assignment is carried out when it is parsed, so those before a
  syntax error stay.
\<close>

section \<open>The parser\<close>

text \<open>The subscript behind a name: -1 without one; \<open>None\<close> is a syntax error.\<close>

fun subscript :: "host_token list \<Rightarrow> (int \<times> host_token list) option" where
  "subscript (SIGN c # ts) =
     (if c = CHR ''['' then (case ts of
          INTEGER i # SIGN d # ts \<Rightarrow> if d = CHR '']'' then Some (i, ts) else None
        | _ \<Rightarrow> None)
      else Some (- 1, SIGN c # ts))"
| "subscript ts = Some (- 1, ts)"

datatype asig_value = SET_INT int | SET_STR "string option" | SET_NULL

fun read_value :: "host_token list \<Rightarrow> asig_value \<times> host_token list" where
  "read_value (INTEGER i # ts) = (SET_INT i, ts)"
| "read_value (STRING s # ts) = (SET_STR s, ts)"
| "read_value ts = (SET_NULL, ts)"

fun run_asig :: "host_token \<Rightarrow> int \<Rightarrow> asig_value \<Rightarrow> gw_host \<Rightarrow> gw_host option" where
  "run_asig (VARIABLE v) index (SET_INT i) h = gw_host_set_var_int v index i h"
| "run_asig (VARIABLE v) index (SET_STR s) h = gw_host_set_var_str v index s h"
| "run_asig (VARIABLE v) index SET_NULL h = gw_host_set_var_null v index h"
| "run_asig (GENERICVAR w) index (SET_INT i) h = gw_host_set_genvar_int w index i h"
| "run_asig (GENERICVAR w) index (SET_STR s) h = gw_host_set_genvar_str w index s h"
| "run_asig (GENERICVAR w) index SET_NULL h = Some (gw_host_set_genvar_null w index h)"
| "run_asig _ _ _ h = Some h"

definition is_variable :: "host_token \<Rightarrow> bool" where
  "is_variable t \<longleftrightarrow> (case t of VARIABLE _ \<Rightarrow> True | GENERICVAR _ \<Rightarrow> True | _ \<Rightarrow> False)"

text \<open>An assignment at the head of the tokens, and what is behind it.\<close>

type_synonym asig = "host_token \<times> int \<times> asig_value"

fun next_asig :: "host_token list \<Rightarrow> (asig \<times> host_token list) option" where
  "next_asig [] = None"
| "next_asig (x # ts) =
     (if \<not> is_variable x then None
      else case subscript ts of
        None \<Rightarrow> None
      | Some (index, ts) \<Rightarrow>
          if ts = [] \<or> hd ts \<noteq> SIGN (CHR ''='') then None
          else (case read_value (tl ts) of (v, ts) \<Rightarrow> Some ((x, index, v), ts)))"

lemma subscript_length: "subscript ts = Some (i, ts') \<Longrightarrow> length ts' \<le> length ts"
  by (cases ts rule: subscript.cases) (auto split: if_splits list.splits host_token.splits)

lemma read_value_length: "read_value ts = (v, ts') \<Longrightarrow> length ts' \<le> length ts"
  by (cases ts rule: read_value.cases) auto

lemma next_asig_length: "next_asig ts = Some (a, ts') \<Longrightarrow> length ts' < length ts"
  by (cases ts)
    (auto dest!: subscript_length read_value_length split: if_splits option.splits prod.splits)

text \<open>The result is 0, or 1 for a syntax error.\<close>

function host_update_parse :: "host_token list \<Rightarrow> gw_host \<Rightarrow> (int \<times> gw_host) option" where
  "host_update_parse ts h =
     (if ts = [] then Some (0, h)
      else case next_asig ts of
        None \<Rightarrow> Some (1, h)
      | Some ((x, index, v), ts) \<Rightarrow> (case run_asig x index v h of
          None \<Rightarrow> None
        | Some h \<Rightarrow> host_update_parse ts h))"
  by pat_completeness auto
termination
  by (relation "measure (\<lambda>(ts, _). length ts)") (auto dest: next_asig_length)

declare host_update_parse.simps [simp del]

definition gw_host_update_attr :: "string option \<Rightarrow> gw_host \<Rightarrow> (int \<times> gw_host) option" where
  "gw_host_update_attr attr h = (case attr of
      None \<Rightarrow> Some (- 1, h)
    | Some s \<Rightarrow> do {
        (rc, h) \<leftarrow> host_update_parse (host_attr_lex s) h;
        Some (if rc \<noteq> 0 then - 1 else 0, h)
      })"

text \<open>\<open>gw_host_update\<close> of \<open>src/host/gw_host.c\<close>: a result of the parser other than 0 is a parse error.\<close>

definition gw_host_update :: "string \<Rightarrow> gw_host \<Rightarrow> (gw_host \<times> sch_msg list) option" where
  "gw_host_update attrs h = do {
     (rc, h) \<leftarrow> gw_host_update_attr (Some attrs) h;
     Some (if rc \<noteq> 0 then (h\<lparr>host_state := GW_HOST_STATE_UNKNOWN\<rparr>, [])
           else (let h = h\<lparr>host_state := GW_HOST_STATE_MONITORED\<rparr> in (h, [gw_dm_mad_host_monitor h])))
   }"

section \<open>The assignments of a line\<close>

text \<open>Those in front of the first syntax error, one after the other.\<close>

function asigs_of :: "host_token list \<Rightarrow> asig list" where
  "asigs_of ts = (case next_asig ts of None \<Rightarrow> [] | Some (a, ts) \<Rightarrow> a # asigs_of ts)"
  by pat_completeness auto
termination
  by (relation "measure length") (auto dest: next_asig_length)

declare asigs_of.simps [simp del]

fun run_asigs :: "asig list \<Rightarrow> gw_host \<Rightarrow> gw_host option" where
  "run_asigs [] h = Some h"
| "run_asigs ((x, i, v) # as) h = do { h \<leftarrow> run_asig x i v h; run_asigs as h }"

lemma host_update_parse_asigs:
  "map_option snd (host_update_parse ts h) = run_asigs (asigs_of ts) h"
proof (induction ts h rule: host_update_parse.induct)
  case (1 ts h)
  show ?case
  proof (cases "next_asig ts")
    case None
    then show ?thesis by (simp add: host_update_parse.simps [of ts] asigs_of.simps [of ts])
  next
    case (Some r)
    then obtain x i v ts' where r: "next_asig ts = Some ((x, i, v), ts')" by (cases r) auto
    then have "ts \<noteq> []" by auto
    with r 1 [OF _ r refl refl refl] show ?thesis
      by (simp add: host_update_parse.simps [of ts] asigs_of.simps [of ts] split: option.split)
  qed
qed

section \<open>What an update leaves alone\<close>

lemma genvar_store_length: "genvar_store name v t = Some t' \<Longrightarrow> length t' = length t"
  by (auto simp: genvar_store_def Let_def dest: wr_length split: if_splits)

lemma genvar_clear_length:
  "length (fst (genvar_clear name as bs)) = length as \<and> length (snd (genvar_clear name as bs)) = length bs"
  by (induction name as bs rule: genvar_clear.induct) (auto split: prod.split)

lemma run_asig_same:
  assumes "run_asig x index v h = Some h'"
  shows "same_host h h'"
proof -
  have store: "same_host h (h\<lparr>host_genvar_int := t\<rparr>)" "same_host h (h\<lparr>host_genvar_str := u\<rparr>)"
    if "length t = length (host_genvar_int h)" "length u = length (host_genvar_str h)" for t u
    using that by (simp_all add: same_host_def host_tables_def)
  have null: "same_host h (gw_host_set_genvar_null w index h)" for w
    using genvar_clear_length [of "genvar_name w index" "host_genvar_int h" "host_genvar_str h"]
    by (auto simp: gw_host_set_genvar_null_def same_host_def host_tables_def split: prod.split)
  from assms show ?thesis
    by (cases "(x, index, v, h)" rule: run_asig.cases)
      (auto simp: gw_host_set_var_int_def gw_host_set_var_str_def gw_host_set_var_null_def
        gw_host_set_genvar_int_def gw_host_set_genvar_str_def null
        dest!: put_same genvar_store_length intro: store split: if_splits)
qed

text \<open>
  The assignments that write outside a table: to the attribute of a queue with a negative
  subscript, such as the -1 that stands for none, and of a new generic variable to a
  table that is full.
\<close>

fun outside :: "asig \<Rightarrow> gw_host \<Rightarrow> bool" where
  "outside (VARIABLE var, i, v) h \<longleftrightarrow> i < 0 \<and> var \<in> queue_vars \<and>
     (case v of SET_INT _ \<Rightarrow> gw_host_is_var_int var = 1 | SET_STR _ \<Rightarrow> gw_host_is_var_int var = 0 | SET_NULL \<Rightarrow> True)"
| "outside (GENERICVAR w, i, v) h \<longleftrightarrow> (i = - 1 \<or> i < int GW_HOST_MAX_QUEUES) \<and>
     (case v of SET_INT _ \<Rightarrow> search_genvar (genvar_name w i) (host_genvar_int h) = GW_HOST_MAX_GENVARS
        | SET_STR _ \<Rightarrow> search_genvar (genvar_name w i) (host_genvar_str h) = GW_HOST_MAX_GENVARS
        | SET_NULL \<Rightarrow> False)"
| "outside _ h \<longleftrightarrow> False"

lemma put_None:
  assumes "host_tables h" and "i < int GW_HOST_MAX_QUEUES"
  shows "host_put_int var i n h = None \<longleftrightarrow> i < 0 \<and> var \<in> queue_vars \<and> gw_host_is_var_int var = 1"
    and "host_put_str var i s h = None \<longleftrightarrow> i < 0 \<and> var \<in> queue_vars \<and> gw_host_is_var_int var = 0"
proof -
  have none: "(int GW_HOST_MAX_QUEUES \<le> i) = False" using assms(2) by simp
  show "host_put_int var i n h = None \<longleftrightarrow> i < 0 \<and> var \<in> queue_vars \<and> gw_host_is_var_int var = 1"
    using assms(1) by (cases var) (simp_all add: host_tables_def none queue_vars_def)
  show "host_put_str var i s h = None \<longleftrightarrow> i < 0 \<and> var \<in> queue_vars \<and> gw_host_is_var_int var = 0"
    using assms(1) by (cases var) (simp_all add: host_tables_def none queue_vars_def)
qed

lemma genvar_store_None:
  assumes "length t = GW_HOST_MAX_GENVARS"
  shows "genvar_store name v t = None \<longleftrightarrow> search_genvar name t = GW_HOST_MAX_GENVARS"
  using search_genvar_le [of name t] assms by (auto simp: genvar_store_def Let_def)

lemma queue_vars_kind: "var \<in> queue_vars \<Longrightarrow> gw_host_is_var_int var = 1 \<or> gw_host_is_var_int var = 0"
  by (auto simp: queue_vars_def)

lemma run_asig_outside:
  assumes "host_tables h"
  shows "run_asig x i v h = None \<longleftrightarrow> outside (x, i, v) h"
proof -
  have len: "length (host_genvar_int h) = GW_HOST_MAX_GENVARS" "length (host_genvar_str h) = GW_HOST_MAX_GENVARS"
    using assms by (simp_all add: host_tables_def)
  have pos: "0 < GW_HOST_MAX_QUEUES" by (simp add: GW_HOST_MAX_QUEUES_def)
  show ?thesis
  proof (cases "i < int GW_HOST_MAX_QUEUES")
    case True
    with put_None [OF assms True] show ?thesis
      by (cases "(x, i, v, h)" rule: run_asig.cases)
        (auto simp: gw_host_set_var_int_def gw_host_set_var_str_def gw_host_set_var_null_def
          gw_host_set_genvar_int_def gw_host_set_genvar_str_def genvar_store_None [OF len(1)]
          genvar_store_None [OF len(2)] dest: queue_vars_kind)
  next
    case False
    with pos show ?thesis
      by (cases "(x, i, v, h)" rule: run_asig.cases)
        (auto simp: gw_host_set_var_int_def gw_host_set_var_str_def gw_host_set_var_null_def
          gw_host_set_genvar_int_def gw_host_set_genvar_str_def)
  qed
qed

lemma run_asigs_outcome:
  assumes "host_tables h"
  shows "case run_asigs as h of
      None \<Rightarrow> \<exists>as1 a as2 h1. as = as1 @ a # as2 \<and> run_asigs as1 h = Some h1 \<and> outside a h1
    | Some h' \<Rightarrow> same_host h h'"
  using assms
proof (induction as arbitrary: h)
  case (Cons a as)
  obtain x i v where a: "a = (x, i, v)" by (cases a)
  show ?case
  proof (cases "run_asig x i v h")
    case None
    with run_asig_outside [OF Cons.prems] have "outside a h" by (simp add: a)
    then have "\<exists>as1 b as2 h1. a # as = as1 @ b # as2 \<and> run_asigs as1 h = Some h1 \<and> outside b h1"
      by (intro exI [of _ "[]"] exI [of _ a] exI [of _ as] exI [of _ h]) simp
    with None show ?thesis by (simp add: a)
  next
    case (Some h1)
    from run_asig_same [OF Some] have same: "same_host h h1" and "host_tables h1"
      using Cons.prems by (simp_all add: same_host_def)
    note IH = Cons.IH [OF this(2)]
    show ?thesis
    proof (cases "run_asigs as h1")
      case None
      with IH obtain as1 b as2 h2 where "as = as1 @ b # as2" "run_asigs as1 h1 = Some h2" "outside b h2"
        by auto
      with Some None a show ?thesis
        by (simp, intro exI [of _ "a # as1"] exI [of _ "fst b"] exI [of _ "fst (snd b)"] exI [of _ "snd (snd b)"] exI [of _ as2] exI [of _ h2]) simp
    next
      case h2: (Some h2)
      with IH same_host_trans [OF same] Some show ?thesis by (simp add: a)
    qed
  qed
qed simp

lemma update_attr_runs_asigs:
  "map_option snd (gw_host_update_attr (Some s) h) = run_asigs (asigs_of (host_attr_lex s)) h"
  unfolding host_update_parse_asigs [symmetric] gw_host_update_attr_def
  by (cases "host_update_parse (host_attr_lex s) h") auto

lemma same_host_tables: "same_host h h' \<Longrightarrow> host_tables h \<Longrightarrow> host_tables h'"
  by (simp add: same_host_def)

lemma run_asigs_same: "run_asigs as h = Some h' \<Longrightarrow> same_host h h'"
  by (induction as h rule: run_asigs.induct)
    (auto simp: bind_Some_iff intro: same_host_trans dest: run_asig_same)

lemma update_attr_keeps: "gw_host_update_attr (Some s) h = Some (rc, h') \<Longrightarrow> same_host h h'"
  using update_attr_runs_asigs [of s h] run_asigs_same [of "asigs_of (host_attr_lex s)" h h'] by simp

text \<open>C36 (safety).  Whatever attributes a driver sends of a host with its tables, the assignments in
  front of the first syntax error are carried out in their order, and one of two things
  happens.  Either one of them writes outside a table: to an attribute of a queue without a
  subscript or with a negative one, or of a new generic variable to a full table; this is the
  only way in which the parser leaves the arrays of the host.  Or all are carried out, and then
  the identifier, the name, the state, the drivers and the counters of the host are as they were, and its
  tables keep their sizes.\<close>

theorem update_attr_outcome:
  assumes "host_tables h"
  shows "case gw_host_update_attr (Some s) h of
      None \<Rightarrow> \<exists>as1 a as2 h1. asigs_of (host_attr_lex s) = as1 @ a # as2 \<and> run_asigs as1 h = Some h1 \<and> outside a h1
    | Some (rc, h') \<Rightarrow> run_asigs (asigs_of (host_attr_lex s)) h = Some h' \<and> same_host h h' \<and> host_tables h'"
  using run_asigs_outcome [OF assms, of "asigs_of (host_attr_lex s)"] update_attr_runs_asigs [of s h] assms
  by (cases "gw_host_update_attr (Some s) h") (auto dest: same_host_tables split: option.splits)

definition orca :: gw_host where
  "orca = gw_host_init ''orca'' 0 1 ''gram'' ''ftp'' ''mds''"

text \<open>The free nodes of a queue that is not named are written to the last entry of the array in front,
  a counter of active jobs.\<close>

theorem update_attr_outcome_witness:
  "(\<exists>as1 a as2 h1. asigs_of (host_attr_lex ''QUEUE_FREENODECOUNT=5'') = as1 @ a # as2
      \<and> run_asigs as1 orca = Some h1 \<and> outside a h1)
   \<and> (\<exists>rc h. gw_host_update_attr (Some ''CPU_MHZ=2400 ]'') orca = Some (rc, h) \<and> same_host orca h \<and> host_cpu_mhz h = 2400)"
proof -
  note lex = host_attr_lex.simps(2) is_letter_def is_digit_def is_name_char_def name_token_def host_keywords_def
    operator_chars_def int_atoi_eq in_int_def atoi_def is_blank_def
  have tables: "host_tables orca"
    by (simp add: orca_def gw_host_init_def Let_def host_tables_def)
  have "gw_host_update_attr (Some ''QUEUE_FREENODECOUNT=5'') orca = None"
    by (simp add: gw_host_update_attr_def lex host_update_parse.simps is_variable_def
        gw_host_set_var_int_def orca_def gw_host_init_def Let_def wr_def)
  moreover have "gw_host_update_attr (Some ''CPU_MHZ=2400 ]'') orca = Some (- 1, orca\<lparr>host_cpu_mhz := 2400\<rparr>)"
    by (simp add: gw_host_update_attr_def lex host_update_parse.simps is_variable_def gw_host_set_var_int_def)
  ultimately show ?thesis
    using update_attr_outcome [OF tables, of "''QUEUE_FREENODECOUNT=5''"]
      update_attr_outcome [OF tables, of "''CPU_MHZ=2400 ]''"] by simp
qed

section \<open>What an update does\<close>

text \<open>A written assignment: a name, a subscript or none, and a value.\<close>

type_synonym written = "host_token \<times> int option \<times> asig_value"

fun asig_tokens :: "written \<Rightarrow> host_token list" where
  "asig_tokens (x, i, v) =
     x # (case i of None \<Rightarrow> [] | Some i \<Rightarrow> [SIGN (CHR ''[''), INTEGER i, SIGN (CHR '']'')])
     @ SIGN (CHR ''='') # (case v of SET_INT i \<Rightarrow> [INTEGER i] | SET_STR s \<Rightarrow> [STRING s] | SET_NULL \<Rightarrow> [])"

fun asig_ok :: "written \<Rightarrow> bool" where
  "asig_ok (x, i, v) \<longleftrightarrow> is_variable x \<and> token_ok x
     \<and> (case i of None \<Rightarrow> True | Some i \<Rightarrow> token_ok (INTEGER i))
     \<and> (case v of SET_INT n \<Rightarrow> token_ok (INTEGER n) | SET_STR s \<Rightarrow> token_ok (STRING s) | SET_NULL \<Rightarrow> True)"

fun meant :: "written \<Rightarrow> asig" where
  "meant (x, i, v) = (x, (case i of None \<Rightarrow> - 1 | Some i \<Rightarrow> i), v)"

lemma read_value_null:
  "ts = [] \<or> is_variable (hd ts) \<Longrightarrow> read_value ts = (SET_NULL, ts)"
  by (cases ts rule: read_value.cases) (auto simp: is_variable_def)

lemma next_asig_written:
  assumes "asig_ok a" and "rest = [] \<or> is_variable (hd rest)"
  shows "next_asig (asig_tokens a @ rest) = Some (meant a, rest)"
proof -
  obtain x i v where a: "a = (x, i, v)" by (cases a)
  have "read_value ((case v of SET_INT i \<Rightarrow> [INTEGER i] | SET_STR s \<Rightarrow> [STRING s] | SET_NULL \<Rightarrow> []) @ rest) = (v, rest)"
    using read_value_null [OF assms(2)] by (cases v) auto
  with assms(1) show ?thesis by (cases i) (simp_all add: a)
qed

lemma update_parse_asigs:
  "list_all asig_ok as \<Longrightarrow>
     host_update_parse (concat (map asig_tokens as)) h = map_option (Pair 0) (run_asigs (map meant as) h)"
proof (induction as arbitrary: h)
  case (Cons a as)
  let ?rest = "concat (map asig_tokens as)"
  obtain x i v where m: "meant a = (x, i, v)" by (cases "meant a")
  have "?rest = [] \<or> is_variable (hd ?rest)"
    using Cons.prems by (cases as) (auto simp: neq_Nil_conv)
  with Cons.prems have n: "next_asig (asig_tokens a @ ?rest) = Some ((x, i, v), ?rest)"
    using next_asig_written [of a ?rest] by (simp add: m)
  have "asig_tokens a \<noteq> []" by (cases a) simp
  with n Cons show ?case
    by (cases "run_asig x i v h") (simp_all add: m host_update_parse.simps [of "asig_tokens a @ ?rest"])
qed (simp add: host_update_parse.simps)

text \<open>Written assignments with numbers that fit an \<open>int\<close> are carried out one after the other, and the
  daemon ends exactly where one of them does not succeed.\<close>

theorem update_attr_runs:
  assumes "list_all asig_ok as"
  shows "gw_host_update_attr (Some (unlex (concat (map asig_tokens as)))) h =
    map_option (Pair 0) (run_asigs (map meant as) h)"
proof -
  have "list_all token_ok (asig_tokens a)" if "asig_ok a" for a
    using that by (cases a) (auto simp: operator_chars_def split: option.splits asig_value.splits)
  then have "list_all token_ok (concat (map asig_tokens as))"
    using assms by (induction as) auto
  then show ?thesis
    by (cases "run_asigs (map meant as) h") (simp_all add: gw_host_update_attr_def lex_unlex update_parse_asigs [OF assms])
qed

theorem update_attr_runs_witness:
  "\<exists>h. gw_host_update_attr (Some (unlex (concat (map asig_tokens
       [(VARIABLE CPU_MHZ, None, SET_INT 2400), (VARIABLE QUEUE_NAME, Some 0, SET_STR (Some ''default''))])))) orca = Some (0, h)
     \<and> host_cpu_mhz h = 2400 \<and> host_queue_name h ! 0 = Some ''default''
   \<and> gw_host_update_attr (Some (unlex (concat (map asig_tokens [(VARIABLE QUEUE_NAME, None, SET_STR (Some ''default''))])))) orca = None"
  by (simp add: update_attr_runs is_variable_def in_int_def del: concat.simps list.map asig_tokens.simps)
    (simp add: gw_host_set_var_int_def gw_host_set_var_str_def orca_def gw_host_init_def Let_def
      GW_HOST_MAX_QUEUES_def wr_def)

end
