(* ===== verification/Im_Actions.thy ===== *)
theory Im_Actions
  imports Im_Drivers Gw_Host_Update
begin

text \<open>
  The operations of the information manager: \<open>src/im/gw_im_actions.c\<close>,
  \<open>src/im/gw_im_listener.c\<close>, the look-ups of \<open>src/im/gw_im.c\<close> and the round over the hosts,
  \<open>gw_host_pool_monitor_hosts\<close> of \<open>src/host/gw_host_pool.c\<close>, which calls them.  The
  priority of a new host is the parameter \<open>priority\<close>; a pointer to a driver is its position.
\<close>

section \<open>State\<close>

record gw_im =
  im_mads :: im_table
  im_active_queries :: int
  im_last_discovery_time :: int
  im_last_checked :: int
  im_hosts :: "gw_host gw_pool"
  im_sched :: "sch_msg list"
  im_listening :: bool

record im_conf =
  ic_gw :: gw_conf
  ic_discovery_interval :: int
  ic_mads :: "im_conf_mad list"

definition upd_mad :: "nat \<Rightarrow> (gw_im_mad \<Rightarrow> gw_im_mad) \<Rightarrow> gw_im \<Rightarrow> gw_im" where
  "upd_mad k f im = im\<lparr>im_mads := (im_mads im)\<lparr>it_im_mad := (it_im_mad (im_mads im))
     [k := f (it_im_mad (im_mads im) ! k)]\<rparr>\<rparr>"

definition im_out :: "im_output list \<Rightarrow> gw_im \<Rightarrow> gw_im" where
  "im_out out im = im\<lparr>im_mads := (im_mads im)\<lparr>it_output := it_output (im_mads im) @ out\<rparr>\<rparr>"

definition mad_of :: "gw_im \<Rightarrow> nat \<Rightarrow> gw_im_mad" where
  "mad_of im k = it_im_mad (im_mads im) ! k"

section \<open>Look-ups\<close>

fun first_mad :: "(gw_im_mad \<Rightarrow> bool) \<Rightarrow> gw_im_mad list \<Rightarrow> nat \<Rightarrow> nat option" where
  "first_mad P [] i = None"
| "first_mad P (m # ms) i = (if P m then Some i else first_mad P ms (i + 1))"

definition gw_im_get_mad_by_name :: "string \<Rightarrow> gw_im \<Rightarrow> nat option" where
  "gw_im_get_mad_by_name name im = first_mad (\<lambda>m. im_name m = name) (registered_im (im_mads im)) 0"

definition gw_im_get_mad_by_fd :: "int \<Rightarrow> gw_im \<Rightarrow> nat option" where
  "gw_im_get_mad_by_fd fd im = first_mad (\<lambda>m. im_mad_im_pipe m = fd) (registered_im (im_mads im)) 0"

text \<open>The set of descriptors for \<open>select\<close>, the number of drivers and the largest descriptor.\<close>

fun set_pipes :: "gw_im_mad list \<Rightarrow> int list \<Rightarrow> int \<Rightarrow> int list \<times> int" where
  "set_pipes [] fds most = (fds, most)"
| "set_pipes (m # ms) fds most =
     (let fd = im_mad_im_pipe m in
      if fd \<noteq> - 1 then set_pipes ms (fd # fds) (if fd > most then fd else most)
      else set_pipes ms fds most)"

definition gw_im_set_pipes :: "gw_im \<Rightarrow> int list \<times> nat \<times> int" where
  "gw_im_set_pipes im = (let (fds, most) = set_pipes (registered_im (im_mads im)) [] 0
     in (fds, it_registered_mads (im_mads im), most))"

section \<open>Requests to the drivers\<close>

definition gw_im_mad_discover :: "nat \<Rightarrow> gw_im \<Rightarrow> gw_im" where
  "gw_im_mad_discover k im =
     im_out [WRITE (im_im_mad_pipe (mad_of im k)) (''DISCOVER - - -'' @ [CHR 0x0A])] im"

definition monitor_line :: "int \<Rightarrow> string \<Rightarrow> string" where
  "monitor_line host_id host = ''MONITOR '' @ show_int host_id @ '' '' @ host @ '' -'' @ [CHR 0x0A]"

definition gw_im_mad_monitor :: "nat \<Rightarrow> int \<Rightarrow> string \<Rightarrow> gw_im \<Rightarrow> gw_im option" where
  "gw_im_mad_monitor k host_id host im =
     (if length (monitor_line host_id host) \<ge> GW_IM_MAX_STRING then None
      else Some (im_out [WRITE (im_im_mad_pipe (mad_of im k)) (monitor_line host_id host)] im))"

definition gw_im_discover :: "string option \<Rightarrow> gw_im \<Rightarrow> gw_im" where
  "gw_im_discover mad_name im = (case mad_name of
      None \<Rightarrow> im
    | Some name \<Rightarrow> (case gw_im_get_mad_by_name name im of
        None \<Rightarrow> im
      | Some k \<Rightarrow>
          if im_state (mad_of im k) \<noteq> GW_IM_MAD_STATE_IDLE then im
          else (let im = upd_mad k (\<lambda>m. m\<lparr>im_state := GW_IM_MAD_STATE_DISCOVERING\<rparr>) im;
                    im = im\<lparr>im_active_queries := im_active_queries im + 1\<rparr>
                in gw_im_mad_discover k im)))"

text \<open>The host is the one with the identifier \<open>hid\<close> in the pool.\<close>

definition put_host :: "int \<Rightarrow> gw_host \<Rightarrow> gw_im \<Rightarrow> gw_im" where
  "put_host hid h im = im\<lparr>im_hosts := pool_store (im_hosts im) hid (Some h)\<rparr>"

definition gw_im_monitor :: "int \<Rightarrow> gw_host \<Rightarrow> gw_im \<Rightarrow> gw_im option" where
  "gw_im_monitor hid h im =
     (if host_state h \<noteq> GW_HOST_STATE_DISCOVERED \<and> host_state h \<noteq> GW_HOST_STATE_MONITORED then Some im
      else (case gw_im_get_mad_by_name (host_im_mad h) im of
          None \<Rightarrow> Some im
        | Some k \<Rightarrow>
            (let im = put_host hid (h\<lparr>host_state := GW_HOST_STATE_MONITORING\<rparr>) im;
                 im = im\<lparr>im_active_queries := im_active_queries im + 1\<rparr>
             in gw_im_mad_monitor k (host_host_id h) (host_hostname h) im)))"

section \<open>The timer\<close>

definition due_host :: "gw_conf \<Rightarrow> int \<Rightarrow> gw_host \<Rightarrow> bool" where
  "due_host conf now h \<longleftrightarrow> host_last_monitoring_time h = 0
     \<or> now - host_last_monitoring_time h \<ge> conf_monitoring_interval conf"

text \<open>The loop: \<open>k\<close> hosts to go, \<open>hid\<close> the next one of \<open>n\<close>.\<close>

fun monitor_hosts_loop :: "gw_conf \<Rightarrow> int \<Rightarrow> int \<Rightarrow> nat \<Rightarrow> int \<Rightarrow> gw_im \<Rightarrow> gw_im option" where
  "monitor_hosts_loop conf now n 0 hid im = Some im"
| "monitor_hosts_loop conf now n (Suc k) hid im =
     (if im_active_queries im < conf_max_active_im_queries conf then do {
        host \<leftarrow> rd (pool_slots (im_hosts im)) hid;
        im \<leftarrow> (case host of
            None \<Rightarrow> Some im
          | Some h \<Rightarrow>
              if due_host conf now h
              then (let h = h\<lparr>host_last_monitoring_time := now\<rparr> in
                    gw_im_monitor hid h (put_host hid h (im\<lparr>im_last_checked := hid\<rparr>)))
              else Some im);
        monitor_hosts_loop conf now n k ((hid + 1) mod n) im
      } else Some im)"

definition gw_host_pool_monitor_hosts :: "gw_conf \<Rightarrow> int \<Rightarrow> gw_im \<Rightarrow> gw_im option" where
  "gw_host_pool_monitor_hosts conf now im =
     (let n = pool_number (im_hosts im) in
      if n = 0 then Some im
      else monitor_hosts_loop conf now n (nat n) ((im_last_checked im + 1) mod n) im)"

text \<open>\<open>fold\<close> over the configured names stops at the first entry without one.\<close>

fun discover_all :: "im_conf_mad list \<Rightarrow> gw_im \<Rightarrow> gw_im" where
  "discover_all [] im = im"
| "discover_all (c # cs) im =
     (if cm_name c = None then im else discover_all cs (gw_im_discover (cm_name c) im))"

definition gw_im_timer :: "im_conf \<Rightarrow> int \<Rightarrow> gw_im \<Rightarrow> gw_im option" where
  "gw_im_timer conf now im =
     (let im = (if now - im_last_discovery_time im \<ge> ic_discovery_interval conf
                then discover_all (take GW_MAX_MADS (ic_mads conf)) (im\<lparr>im_last_discovery_time := now\<rparr>)
                else im)
      in gw_host_pool_monitor_hosts (ic_gw conf) now im)"

section \<open>Messages of the drivers\<close>

text \<open>\<open>sscanf\<close> with the arrays' sizes as widths: the words stored; \<open>None\<close> is an overrun.\<close>

fun scan_stored :: "conversion list \<Rightarrow> string \<Rightarrow> string list option" where
  "scan_stored [] s = Some []"
| "scan_stored (f # fs) s = (case scan_conv f s of
      NO_MORE \<Rightarrow> Some []
    | OVERRUN \<Rightarrow> None
    | STORED w s' \<Rightarrow> do { ws \<leftarrow> scan_stored fs s'; Some (w # ws) })"

definition im_format :: "conversion list" where
  "im_format = [WORD 20, WORD 5, WORD 10, LINE 65536]"

text \<open>\<open>strtok_r(s, " ", &lasts)\<close> until there is no more.\<close>

function strtok_blanks :: "string \<Rightarrow> string list" where
  "strtok_blanks s =
     (let t = dropWhile (\<lambda>c. c = CHR '' '') s in
      if t = [] then []
      else takeWhile (\<lambda>c. c \<noteq> CHR '' '') t # strtok_blanks (dropWhile (\<lambda>c. c \<noteq> CHR '' '') t))"
  by pat_completeness auto
termination
proof (relation "measure length")
  fix s t :: string assume t: "t = dropWhile (\<lambda>c. c = CHR '' '') s" "t \<noteq> []"
  obtain c cs where c: "t = c # cs" using t(2) by (meson neq_Nil_conv)
  moreover have "c \<noteq> CHR '' ''"
    using hd_dropWhile [of "\<lambda>c. c = CHR '' ''" s] t(2) unfolding t(1) [symmetric] c by simp
  moreover have "length t \<le> length s" unfolding t(1) by (rule length_dropWhile_le)
  moreover have "length (dropWhile (\<lambda>c. c \<noteq> CHR '' '') cs) \<le> length cs" by (rule length_dropWhile_le)
  ultimately show "(dropWhile (\<lambda>c. c \<noteq> CHR '' '') t, s) \<in> measure length" by simp
qed simp

declare strtok_blanks.simps [simp del]

definition discovered ::
    "im_conf \<Rightarrow> (string \<Rightarrow> string \<Rightarrow> int) \<Rightarrow> nat \<Rightarrow> string \<Rightarrow> string \<Rightarrow> gw_im \<Rightarrow> gw_im option" where
  "discovered conf priority k result info im = do {
     let im = im\<lparr>im_active_queries := im_active_queries im - 1\<rparr>;
     let m = mad_of im k;
     im \<leftarrow> (if result = ''SUCCESS'' \<and> info \<noteq> [] then do {
              p \<leftarrow> gw_host_pool_update (ic_gw conf) priority (strtok_blanks info) (im_em_mad_name m)
                (im_tm_mad_name m) (im_name m) (im_hosts im);
              Some (im\<lparr>im_hosts := p\<rparr>)
            } else Some im);
     Some (upd_mad k (\<lambda>m. m\<lparr>im_state := GW_IM_MAD_STATE_IDLE\<rparr>) im)
   }"

definition on_pool_host :: "(gw_host \<Rightarrow> (gw_host \<times> sch_msg list) option) \<Rightarrow> int \<Rightarrow> gw_im \<Rightarrow> gw_im option" where
  "on_pool_host f hid im = (case pool_get (im_hosts im) hid of
      None \<Rightarrow> Some im
    | Some h \<Rightarrow> do {
        (h, msgs) \<leftarrow> f h;
        Some ((put_host hid h im)\<lparr>im_sched := im_sched im @ msgs\<rparr>)
      })"

definition monitored :: "int \<Rightarrow> string \<Rightarrow> string \<Rightarrow> gw_im \<Rightarrow> gw_im option" where
  "monitored host_id result info im =
     (let im = im\<lparr>im_active_queries := im_active_queries im - 1\<rparr> in
      if result = ''SUCCESS'' then on_pool_host (gw_host_update info) host_id im
      else on_pool_host (\<lambda>h. Some (gw_host_clear_dynamic_info h)) host_id im)"

text \<open>
  A line of driver \<open>k\<close>.  The message about a host that does not exist prints an integer
  with \<open>%s\<close>: the log reads a string at that address.
\<close>

definition gw_im_message ::
    "im_conf \<Rightarrow> (string \<Rightarrow> string \<Rightarrow> int) \<Rightarrow> nat \<Rightarrow> string
       \<Rightarrow> gw_im \<Rightarrow> gw_im option" where
  "gw_im_message conf priority k str im = do {
     ws \<leftarrow> scan_stored im_format str;
     if length ws < 3 then Some im
     else (let action = ws ! 0; s_host_id = ws ! 1; result = ws ! 2;
               info = (if length ws = 4 then ws ! 3 else []);
               host_id = (if hd s_host_id = CHR ''-'' then - 1 else atoi s_host_id) in
           if hd s_host_id \<noteq> CHR ''-'' \<and> pool_get (im_hosts im) host_id = None then None
           else if action = ''DISCOVER'' then discovered conf priority k result info im
           else if action = ''MONITOR'' then monitored host_id result info im
           else Some im)
   }"

section \<open>The listener\<close>

text \<open>A read that fails: the driver is loaded again; the thread ends with its last driver.\<close>

definition im_read_failed :: "nat \<Rightarrow> im_start \<Rightarrow> nat \<Rightarrow> gw_im \<Rightarrow> gw_im option" where
  "im_read_failed num_mads start k im = do {
     (rc, m, out) \<leftarrow> gw_im_mad_reload start (mad_of im k);
     let im = im_out out (upd_mad k (\<lambda>_. m) im);
     if rc = 0 then Some im
     else (let im = upd_mad k (\<lambda>m. m\<lparr>im_mad_im_pipe := - 1\<rparr>) im in
           Some (if num_mads = 1 then im\<lparr>im_listening := False\<rparr> else im))
   }"

text \<open>
  A descriptor that is ready, with what the driver has written to it until it closes it,
  and the result of a start, should one be necessary.
\<close>

type_synonym im_ready = "int \<times> string \<times> im_start"

definition listener_ready ::
    "im_conf \<Rightarrow> (string \<Rightarrow> string \<Rightarrow> int) \<Rightarrow> nat \<Rightarrow> im_ready
       \<Rightarrow> gw_im \<Rightarrow> gw_im option" where
  "listener_ready conf priority num_mads ready im = (case ready of (fd, written, start) \<Rightarrow>
     if \<not> im_listening im then Some im
     else (case gw_im_get_mad_by_fd fd im of
         None \<Rightarrow> Some im
       | Some k \<Rightarrow> (case mad_line written of
             None \<Rightarrow> im_read_failed num_mads start k im
           | Some (str, _) \<Rightarrow> gw_im_message conf priority k str im)))"

fun ready_all ::
    "im_conf \<Rightarrow> (string \<Rightarrow> string \<Rightarrow> int) \<Rightarrow> nat
       \<Rightarrow> im_ready list \<Rightarrow> gw_im \<Rightarrow> gw_im option" where
  "ready_all conf priority num_mads [] im = Some im"
| "ready_all conf priority num_mads (r # rs) im = do {
     im \<leftarrow> listener_ready conf priority num_mads r im;
     ready_all conf priority num_mads rs im
   }"

text \<open>One round: of the ready descriptors those that \<open>select\<close> was asked for, upwards.\<close>

definition gw_im_listener_round ::
    "im_conf \<Rightarrow> (string \<Rightarrow> string \<Rightarrow> int) \<Rightarrow> im_ready list
       \<Rightarrow> gw_im \<Rightarrow> gw_im option" where
  "gw_im_listener_round conf priority ready im =
     (let (fds, num_mads, most) = gw_im_set_pipes im in
      ready_all conf priority num_mads
        (filter (\<lambda>r. fst r \<in> set fds \<and> 0 \<le> fst r \<and> fst r \<le> most) (sort_key fst ready)) im)"

end
