(* ===== verification/Im_Manager.thy ===== *)
theory Im_Manager
  imports Im_Actions Gw_Table
begin

text \<open>
  The information manager, \<open>src/im\<close>: its registrations (\<open>gw_im_init\<close>) as an instance of
  \<open>registered_table\<close>, and what holds in every run of its timer and its listener with drivers
  that answer what they are asked: no run crashes, and the number of active queries is
  the number of hosts and drivers that wait for an answer.
\<close>

section \<open>Counting entries\<close>

definition numb :: "('a \<Rightarrow> bool) \<Rightarrow> 'a list \<Rightarrow> int" where
  "numb P xs = int (length (filter P xs))"

lemma numb_nonneg [simp]: "0 \<le> numb P xs"
  by (simp add: numb_def)

lemma numb_le: "numb P xs \<le> int (length xs)"
  by (simp add: numb_def)

lemma numb_update:
  "i < length xs \<Longrightarrow> numb P (xs[i := x]) = numb P xs + of_bool (P x) - of_bool (P (xs ! i))"
proof (induction xs arbitrary: i)
  case (Cons y ys)
  then show ?case by (cases i) (auto simp: numb_def)
qed simp

definition host_waits :: "gw_host option \<Rightarrow> bool" where
  "host_waits s \<longleftrightarrow> map_option host_state s = Some GW_HOST_STATE_MONITORING"

definition hosts_waiting :: "gw_im \<Rightarrow> int" where
  "hosts_waiting im = numb host_waits (pool_slots (im_hosts im))"

definition mads_waiting :: "gw_im \<Rightarrow> int" where
  "mads_waiting im = numb (\<lambda>m. im_state m = GW_IM_MAD_STATE_DISCOVERING) (registered_im (im_mads im))"

lemma numb_store:
  assumes "pool_get p i = Some h"
  shows "numb host_waits (pool_slots (pool_store p i x)) = numb host_waits (pool_slots p) + of_bool (host_waits x)
    - of_bool (host_waits (Some h))"
  using assms by (auto simp: pool_store_def pool_get_def numb_update dest!: slot_SomeD)

section \<open>The drivers\<close>

lemma first_mad_Some:
  "first_mad P ms i = Some k \<Longrightarrow> i \<le> k \<and> k < i + length ms \<and> P (ms ! (k - i))"
proof (induction ms arbitrary: i)
  case (Cons m ms)
  then show ?case
    by (auto split: if_splits simp: nth_Cons' dest!: Cons.IH)
qed simp

definition mads_ok :: "gw_im \<Rightarrow> bool" where
  "mads_ok im \<longleftrightarrow> length (it_im_mad (im_mads im)) = GW_MAX_MADS
     \<and> it_registered_mads (im_mads im) \<le> GW_MAX_MADS
     \<and> (\<forall>m \<in> set (it_im_mad (im_mads im)). im_argument m \<noteq> FREED_ARG)"

lemma registered_lookup:
  assumes "first_mad P (registered_im (im_mads im)) 0 = Some k" and "mads_ok im"
  shows "k < it_registered_mads (im_mads im)" "P (mad_of im k)"
    "mad_of im k \<in> set (it_im_mad (im_mads im))"
  using first_mad_Some [OF assms(1)] assms(2) by (auto simp: registered_im_def mads_ok_def mad_of_def)

lemma upd_mad_frame [simp]:
  "im_active_queries (upd_mad k f im) = im_active_queries im"
  "im_hosts (upd_mad k f im) = im_hosts im"
  "hosts_waiting (upd_mad k f im) = hosts_waiting im"
  "im_last_checked (upd_mad k f im) = im_last_checked im"
  by (simp_all add: upd_mad_def hosts_waiting_def)

lemma im_out_frame [simp]:
  "im_active_queries (im_out out im) = im_active_queries im"
  "im_hosts (im_out out im) = im_hosts im"
  "hosts_waiting (im_out out im) = hosts_waiting im"
  "mads_waiting (im_out out im) = mads_waiting im"
  "mads_ok (im_out out im) = mads_ok im"
  "mad_of (im_out out im) = mad_of im"
  "im_last_checked (im_out out im) = im_last_checked im"
  "first_mad P (registered_im (im_mads (im_out out im))) 0 = first_mad P (registered_im (im_mads im)) 0"
  by (simp_all add: im_out_def hosts_waiting_def mads_waiting_def registered_im_def mads_ok_def
      mad_of_def fun_eq_iff)

lemma mads_ok_upd:
  assumes "mads_ok im" and "im_argument (f (mad_of im k)) \<noteq> FREED_ARG"
  shows "mads_ok (upd_mad k f im)"
  using assms set_update_subset_insert [of "it_im_mad (im_mads im)" k "f (mad_of im k)"]
  by (auto simp: mads_ok_def upd_mad_def mad_of_def)

lemma mads_waiting_upd:
  assumes "mads_ok im" and "k < it_registered_mads (im_mads im)"
  shows "mads_waiting (upd_mad k f im) = mads_waiting im
    + of_bool (im_state (f (mad_of im k)) = GW_IM_MAD_STATE_DISCOVERING)
    - of_bool (im_state (mad_of im k) = GW_IM_MAD_STATE_DISCOVERING)"
  using assms by (simp add: mads_waiting_def registered_im_def upd_mad_def mads_ok_def take_update_swap
      numb_update mad_of_def)

lemma mads_waiting_le: "mads_ok im \<Longrightarrow> mads_waiting im \<le> int GW_MAX_MADS"
  using numb_le [of _ "registered_im (im_mads im)"]
  by (fastforce simp: mads_waiting_def registered_im_def mads_ok_def intro: order_trans)

section \<open>The pool of hosts\<close>

text \<open>
  No host is ever freed, so the hosts fill the pool from its start.  65516 characters are
  what the shortest answer to a discovery leaves for a name.
\<close>

definition host_fits :: "int \<Rightarrow> gw_host \<Rightarrow> bool" where
  "host_fits i h \<longleftrightarrow> host_host_id h = i \<and> length (host_hostname h) \<le> 65516"

definition pool_filled :: "gw_conf \<Rightarrow> gw_host gw_pool \<Rightarrow> bool" where
  "pool_filled conf p \<longleftrightarrow> pool_size p = conf_number_of_hosts conf \<and> 0 \<le> pool_number p
     \<and> pool_number p \<le> pool_size p \<and> pool_last_id p = pool_number p - 1
     \<and> (\<forall>i. pool_get p i \<noteq> None \<longleftrightarrow> 0 \<le> i \<and> i < pool_number p)
     \<and> (\<forall>i h. pool_get p i = Some h \<longrightarrow> host_fits i h)"

lemma pool_filled_store:
  assumes "pool_filled conf p" and "pool_get p i = Some h" and "host_fits i h'"
  shows "pool_filled conf (pool_store p i (Some h'))"
  using assms(1,3) pool_get_update_Some [OF assms(2)] assms(2)
  by (auto simp: pool_filled_def)

lemma allocate_filled:
  assumes "pool_filled conf p" and "0 < conf_number_of_hosts conf" and "length name \<le> 65516"
  shows "\<exists>hid p'. gw_host_pool_host_allocate conf name fp em tm im p = Some (hid, p')
    \<and> (hid = - 1 \<and> p' = p
       \<or> hid = pool_number p \<and> pool_filled conf p' \<and> pool_get p' hid \<noteq> None
         \<and> numb host_waits (pool_slots p') = numb host_waits (pool_slots p))"
proof (cases "pool_number p = pool_size p")
  case True
  then have "\<forall>i. 0 \<le> i \<and> i < pool_size p \<longrightarrow> pool_get p i \<noteq> None"
    using assms(1) by (auto simp: pool_filled_def)
  with gw_host_pool_allocate_total [of p conf name fp em tm im] assms show ?thesis
    by (auto simp: pool_filled_def)
next
  case False
  let ?n = "pool_number p" and ?N = "conf_number_of_hosts conf"
  let ?h = "gw_host_init name ?n fp em tm im"
  have n: "0 \<le> ?n" "?n < ?N" "pool_size p = ?N" "pool_last_id p = ?n - 1"
    using assms(1) False by (auto simp: pool_filled_def)
  have "pool_get p ?n = None" using assms(1) by (auto simp: pool_filled_def)
  then have free: "rd (pool_slots p) ?n = Some None" "pool_slots p ! nat ?n = None"
    using n by (auto simp: pool_get_def slot_def rd_def pool_size_def)
  obtain k where "nat ?N = Suc k" using n by (cases "nat ?N") auto
  then have "scan_free (\<lambda>i. (i + 1) mod ?N) (pool_slots p) ((pool_last_id p + 1) mod ?N) (nat ?N) = Some (Some ?n)"
    using n free by simp
  moreover define p' where "p' = (pool_store p ?n (Some ?h))\<lparr>pool_last_id := ?n, pool_number := ?n + 1\<rparr>"
  ultimately have "gw_host_pool_host_allocate conf name fp em tm im p = Some (?n, p')"
    using n by (simp add: gw_host_pool_host_allocate_def Let_def wr_def pool_size_def pool_store_def)
  moreover have get: "pool_get p' j = (if j = ?n then Some ?h else pool_get p j)" for j
    using n by (simp add: p'_def pool_get_store_eq)
  then have "pool_filled conf p'"
    using assms(1,3) n by (auto simp: pool_filled_def p'_def host_fits_def gw_host_init_def Let_def)
  moreover have "numb host_waits (pool_slots p') = numb host_waits (pool_slots p)"
    using n free by (simp add: p'_def pool_store_def numb_update pool_size_def host_waits_def gw_host_init_def Let_def)
  ultimately show ?thesis using get by auto
qed

lemma update_filled:
  assumes "pool_filled conf p" and "0 < conf_number_of_hosts conf" and "\<forall>w \<in> set names. length w \<le> 65516"
  shows "\<exists>p'. gw_host_pool_update conf priority names em tm im p = Some p' \<and> pool_filled conf p'
    \<and> numb host_waits (pool_slots p') = numb host_waits (pool_slots p)"
  using assms(1,3)
proof (induction names arbitrary: p)
  case (Cons w ws)
  have "\<exists>p1. (case gw_host_pool_search p w of
         None \<Rightarrow> do {
           (host_id, p') \<leftarrow> gw_host_pool_host_allocate conf w (priority w im) em tm im p;
           Some (case pool_get p' host_id of
               None \<Rightarrow> p'
             | Some h \<Rightarrow> pool_store p' host_id (Some (h\<lparr>host_last_monitoring_time := 0\<rparr>)))
         }
       | Some host_id \<Rightarrow> Some (case pool_get p host_id of
             None \<Rightarrow> p
           | Some h \<Rightarrow>
               if host_state h = GW_HOST_STATE_UNKNOWN
               then pool_store p host_id (Some (h\<lparr>host_state := GW_HOST_STATE_DISCOVERED\<rparr>))
               else p)) = Some p1 \<and> pool_filled conf p1
     \<and> numb host_waits (pool_slots p1) = numb host_waits (pool_slots p)"
  proof (cases "gw_host_pool_search p w")
    case None
    obtain hid p' where a: "gw_host_pool_host_allocate conf w (priority w im) em tm im p = Some (hid, p')"
      "hid = - 1 \<and> p' = p \<or> hid = pool_number p \<and> pool_filled conf p' \<and> pool_get p' hid \<noteq> None
         \<and> numb host_waits (pool_slots p') = numb host_waits (pool_slots p)"
      using allocate_filled [OF Cons.prems(1) assms(2), of w "priority w im" em tm im] Cons.prems(2) by auto
    have ok: "pool_filled conf p'" "numb host_waits (pool_slots p') = numb host_waits (pool_slots p)"
      using a(2) Cons.prems(1) by auto
    show ?thesis
    proof (cases "pool_get p' hid")
      case (Some h)
      have "host_fits hid (h\<lparr>host_last_monitoring_time := 0\<rparr>)"
        using ok(1) Some by (simp add: pool_filled_def host_fits_def)
      with ok Some a None show ?thesis
        using pool_filled_store [OF ok(1) Some] numb_store [OF Some]
        by (simp add: host_waits_def)
    qed (use a None ok in simp)
  next
    case (Some hid)
    show ?thesis
    proof (cases "pool_get p hid")
      case (Some h)
      have "host_fits hid (h\<lparr>host_state := GW_HOST_STATE_DISCOVERED\<rparr>)"
        using Cons.prems(1) Some by (simp add: pool_filled_def host_fits_def)
      with Cons.prems(1) Some \<open>gw_host_pool_search p w = Some hid\<close> show ?thesis
        using pool_filled_store [OF Cons.prems(1) Some] numb_store [OF Some]
        by (simp add: host_waits_def)
    qed (use Some Cons.prems(1) in simp)
  qed
  then obtain p1 where p1: "pool_filled conf p1" "numb host_waits (pool_slots p1) = numb host_waits (pool_slots p)"
    "gw_host_pool_update conf priority (w # ws) em tm im p = gw_host_pool_update conf priority ws em tm im p1"
    by auto
  with Cons.IH [OF p1(1)] Cons.prems(2) show ?case by auto
qed simp

section \<open>Requests\<close>

text \<open>What the runs keep.\<close>

definition im_ok :: "im_conf \<Rightarrow> gw_im \<Rightarrow> bool" where
  "im_ok conf im \<longleftrightarrow> mads_ok im \<and> pool_filled (ic_gw conf) (im_hosts im)
     \<and> im_active_queries im = hosts_waiting im + mads_waiting im
     \<and> hosts_waiting im \<le> conf_max_active_im_queries (ic_gw conf)
     \<and> 0 \<le> im_last_checked im"

text \<open>A configuration the bounds hold for.\<close>

definition conf_fits :: "im_conf \<Rightarrow> bool" where
  "conf_fits conf \<longleftrightarrow> 0 < conf_number_of_hosts (ic_gw conf) \<and> conf_number_of_hosts (ic_gw conf) \<le> 10 ^ 7"

lemma monitor_line_fits:
  assumes "host_fits i h" and "0 \<le> i" and "i < 10 ^ 7"
  shows "length (monitor_line (host_host_id h) (host_hostname h)) < GW_IM_MAX_STRING"
proof -
  have "length (show_int i) \<le> 7"
    using digits_show_nat [of 7 "nat i"] assms(2,3) by (simp add: show_int_def nat_less_iff)
  then show ?thesis
    using assms(1) by (simp add: host_fits_def monitor_line_def GW_IM_MAX_STRING_def)
qed

lemma put_host_frame [simp]:
  "im_active_queries (put_host hid h im) = im_active_queries im"
  "im_mads (put_host hid h im) = im_mads im"
  "mads_ok (put_host hid h im) = mads_ok im"
  "mads_waiting (put_host hid h im) = mads_waiting im"
  "im_last_checked (put_host hid h im) = im_last_checked im"
  "mad_of (put_host hid h im) = mad_of im"
  by (simp_all add: put_host_def mads_ok_def mads_waiting_def mad_of_def fun_eq_iff)

lemma put_host_pool:
  assumes "pool_get (im_hosts im) hid = Some h" and "pool_filled conf (im_hosts im)" and "host_fits hid h'"
  shows "pool_filled conf (im_hosts (put_host hid h' im))"
    "pool_get (im_hosts (put_host hid h' im)) j = (if j = hid then Some h' else pool_get (im_hosts im) j)"
    "hosts_waiting (put_host hid h' im) = hosts_waiting im
       + of_bool (host_state h' = GW_HOST_STATE_MONITORING) - of_bool (host_state h = GW_HOST_STATE_MONITORING)"
    "pool_number (im_hosts (put_host hid h' im)) = pool_number (im_hosts im)"
  using assms pool_filled_store [OF assms(2,1,3)] numb_store [OF assms(1)]
  by (simp_all add: put_host_def hosts_waiting_def host_waits_def)

lemma queries_frame [simp]:
  "mads_ok (im\<lparr>im_active_queries := a\<rparr>) = mads_ok im"
  "mads_waiting (im\<lparr>im_active_queries := a\<rparr>) = mads_waiting im"
  "hosts_waiting (im\<lparr>im_active_queries := a\<rparr>) = hosts_waiting im"
  "mad_of (im\<lparr>im_active_queries := a\<rparr>) = mad_of im"
  "mads_ok (im\<lparr>im_last_checked := i\<rparr>) = mads_ok im"
  "mads_waiting (im\<lparr>im_last_checked := i\<rparr>) = mads_waiting im"
  "hosts_waiting (im\<lparr>im_last_checked := i\<rparr>) = hosts_waiting im"
  "mads_ok (im\<lparr>im_last_discovery_time := t\<rparr>) = mads_ok im"
  "mads_waiting (im\<lparr>im_last_discovery_time := t\<rparr>) = mads_waiting im"
  "hosts_waiting (im\<lparr>im_last_discovery_time := t\<rparr>) = hosts_waiting im"
  by (simp_all add: mads_ok_def mads_waiting_def hosts_waiting_def mad_of_def fun_eq_iff)

lemma im_ok_discover:
  assumes "im_ok conf im"
  shows "im_ok conf (gw_im_discover name im)"
proof (cases "\<exists>n k. name = Some n \<and> gw_im_get_mad_by_name n im = Some k
    \<and> im_state (mad_of im k) = GW_IM_MAD_STATE_IDLE")
  case True
  then obtain n k where k: "name = Some n" "gw_im_get_mad_by_name n im = Some k"
    "im_state (mad_of im k) = GW_IM_MAD_STATE_IDLE" by blast
  have ok: "mads_ok im" using assms by (simp add: im_ok_def)
  note at = registered_lookup [OF k(2) [unfolded gw_im_get_mad_by_name_def] ok]
  have "im_argument (mad_of im k) \<noteq> FREED_ARG" using ok at(3) by (simp add: mads_ok_def)
  with assms k at mads_ok_upd [OF ok] mads_waiting_upd [OF ok at(1)] show ?thesis
    by (simp add: gw_im_discover_def gw_im_mad_discover_def im_ok_def Let_def)
next
  case False
  then have "gw_im_discover name im = im"
    by (auto simp: gw_im_discover_def split: option.split)
  with assms show ?thesis by simp
qed

lemma im_ok_discover_all: "im_ok conf im \<Longrightarrow> im_ok conf (discover_all cs im)"
  by (induction cs im rule: discover_all.induct) (auto intro: im_ok_discover)

lemma gw_im_monitor_ok:
  assumes "im_ok conf im" and "conf_fits conf" and "pool_get (im_hosts im) hid = Some h"
    and "im_active_queries im < conf_max_active_im_queries (ic_gw conf)"
  shows "\<exists>im'. gw_im_monitor hid h im = Some im' \<and> im_ok conf im'
    \<and> pool_number (im_hosts im') = pool_number (im_hosts im)"
proof (cases "(host_state h = GW_HOST_STATE_DISCOVERED \<or> host_state h = GW_HOST_STATE_MONITORED)
    \<and> gw_im_get_mad_by_name (host_im_mad h) im \<noteq> None")
  case True
  then obtain k where k: "gw_im_get_mad_by_name (host_im_mad h) im = Some k" by blast
  have fits: "host_fits hid h" "0 \<le> hid" "hid < 10 ^ 7"
    using assms(1,2,3) pool_get_Some_range [OF assms(3)]
    by (auto simp: im_ok_def pool_filled_def conf_fits_def)
  let ?h = "h\<lparr>host_state := GW_HOST_STATE_MONITORING\<rparr>"
  have "host_fits hid ?h" using fits(1) by (simp add: host_fits_def)
  note put = put_host_pool [OF assms(3) _ this, of "ic_gw conf"]
  have "0 \<le> mads_waiting im" by (simp add: mads_waiting_def)
  with True k assms put monitor_line_fits [OF fits] show ?thesis
    by (auto simp: gw_im_monitor_def Let_def gw_im_mad_monitor_def im_ok_def not_le)
next
  case False
  then have "gw_im_monitor hid h im = Some im"
    by (auto simp: gw_im_monitor_def)
  with assms(1) show ?thesis by simp
qed

lemma monitor_loop_ok:
  assumes "conf_fits conf" and "im_ok conf im" and "0 \<le> hid" and "hid < n"
    and "n = pool_number (im_hosts im)"
  shows "\<exists>im'. monitor_hosts_loop (ic_gw conf) now n k hid im = Some im' \<and> im_ok conf im'"
  using assms(2-5)
proof (induction k arbitrary: hid im)
  case (Suc k)
  show ?case
  proof (cases "im_active_queries im < conf_max_active_im_queries (ic_gw conf)")
    case True
    have "pool_get (im_hosts im) hid \<noteq> None" "hid < pool_size (im_hosts im)"
      using Suc.prems by (auto simp: im_ok_def pool_filled_def)
    then obtain h where h: "pool_get (im_hosts im) hid = Some h" "rd (pool_slots (im_hosts im)) hid = Some (Some h)"
      by (auto simp: pool_get_def slot_rd)
    let ?h = "h\<lparr>host_last_monitoring_time := now\<rparr>"
    let ?im = "put_host hid ?h (im\<lparr>im_last_checked := hid\<rparr>)"
    have fits: "host_fits hid ?h" "pool_filled (ic_gw conf) (im_hosts (im\<lparr>im_last_checked := hid\<rparr>))"
      using Suc.prems(1) h(1) by (auto simp: im_ok_def pool_filled_def host_fits_def)
    have h': "pool_get (im_hosts (im\<lparr>im_last_checked := hid\<rparr>)) hid = Some h" using h(1) by simp
    note put = put_host_pool [OF h' fits(2,1)]
    have "im_ok conf ?im" using Suc.prems put by (simp add: im_ok_def)
    from gw_im_monitor_ok [OF this assms(1), of hid ?h] True put obtain im1 where
      im1: "gw_im_monitor hid ?h ?im = Some im1" "im_ok conf im1" "pool_number (im_hosts im1) = n"
      using Suc.prems(4) by auto
    have next_range: "0 \<le> (hid + 1) mod n" "(hid + 1) mod n < n" using Suc.prems by simp_all
    show ?thesis
      using True h(2) im1 Suc.IH [OF im1(2) next_range] Suc.IH [OF Suc.prems(1) next_range] Suc.prems(4)
      by (simp add: Let_def)
  qed (use Suc.prems in simp)
qed simp

lemma im_ok_timer:
  assumes "conf_fits conf" and "im_ok conf im"
  shows "\<exists>im'. gw_im_timer conf now im = Some im' \<and> im_ok conf im'"
proof -
  have late: "im_ok conf (im\<lparr>im_last_discovery_time := now\<rparr>)" using assms(2) by (simp add: im_ok_def)
  have "im_ok conf (if now - im_last_discovery_time im \<ge> ic_discovery_interval conf
      then discover_all (take GW_MAX_MADS (ic_mads conf)) (im\<lparr>im_last_discovery_time := now\<rparr>) else im)"
    (is "im_ok conf ?im") using im_ok_discover_all [OF late] assms(2) by simp
  moreover have "0 \<le> pool_number (im_hosts ?im)" "0 \<le> im_last_checked ?im"
    using calculation by (auto simp: im_ok_def pool_filled_def)
  ultimately show ?thesis
    using monitor_loop_ok [OF assms(1), of ?im "(im_last_checked ?im + 1) mod pool_number (im_hosts ?im)"
        "pool_number (im_hosts ?im)"]
    by (auto simp: gw_im_timer_def gw_host_pool_monitor_hosts_def Let_def)
qed

section \<open>Answers\<close>

lemma scan_conv_stored:
  assumes "scan_conv f s = STORED w s'"
  shows "length w + length s' \<le> length s" "w \<noteq> []"
    "f = WORD n \<Longrightarrow> s' = [] \<or> is_blank (hd s')"
proof -
  show "length w + length s' \<le> length s"
    using assms length_dropWhile_le [of is_blank s]
      length_takeWhile_le [of "\<lambda>c. \<not> is_blank c" "dropWhile is_blank s"]
      length_takeWhile_le [of "\<lambda>c. c \<noteq> CHR 0x0A" "dropWhile is_blank s"]
    by (cases f) (auto simp: Let_def split: if_splits)
  show "w \<noteq> []" using assms by (cases f) (auto simp: Let_def split: if_splits)
  show "s' = [] \<or> is_blank (hd s')" if f: "f = WORD n"
  proof -
    let ?t = "dropWhile is_blank s"
    have w: "w = take n (takeWhile (\<lambda>c. \<not> is_blank c) ?t)" "length w \<noteq> n" "s' = drop (length w) ?t"
      using assms f by (auto simp: Let_def split: if_splits)
    then have "w = takeWhile (\<lambda>c. \<not> is_blank c) ?t" by auto
    then have "s' = dropWhile (\<lambda>c. \<not> is_blank c) ?t"
      using w(3) by (simp add: dropWhile_eq_drop)
    then show ?thesis using hd_dropWhile [of "\<lambda>c. \<not> is_blank c" ?t] by auto
  qed
qed

text \<open>Between a word and what is stored next there is a blank.\<close>

lemma scan_conv_after_word:
  assumes "scan_conv (WORD n) s = STORED w s'" and "scan_conv f s' = STORED v s''"
  shows "length v + length s'' < length s'"
proof -
  from scan_conv_stored(3) [OF assms(1)] consider "s' = []" | b r where "s' = b # r" "is_blank b"
    by (cases s') auto
  then show ?thesis
  proof cases
    case 1
    with assms(2) show ?thesis by (cases f) (auto simp: Let_def)
  next
    case 2
    then have "scan_conv f r = STORED v s''" using assms(2) by (simp add: scan_conv_blank)
    from scan_conv_stored(1) [OF this] 2 show ?thesis by simp
  qed
qed

lemma info_length:
  assumes "scan_stored im_format s = Some [a, h, r, info]"
  shows "length a + length h + length r + length info + 3 \<le> length s" "h \<noteq> []"
proof -
  from assms obtain s1 s2 s3 s4 where
    "scan_conv (WORD 20) s = STORED a s1" "scan_conv (WORD 5) s1 = STORED h s2"
    "scan_conv (WORD 10) s2 = STORED r s3" "scan_conv (LINE 65536) s3 = STORED info s4"
    by (auto simp: im_format_def bind_Some_iff simp del: scan_conv.simps split: scanned.splits)
  note c = this
  from scan_conv_after_word [OF c(1,2)] scan_conv_after_word [OF c(2,3)] scan_conv_after_word [OF c(3,4)]
  show "length a + length h + length r + length info + 3 \<le> length s" "h \<noteq> []"
    using scan_conv_stored(1) [OF c(1)] scan_conv_stored(2) [OF c(2)] by auto
qed

lemma scan_stored_length: "scan_stored fs s = Some ws \<Longrightarrow> length ws \<le> length fs"
  by (induction fs s arbitrary: ws rule: scan_stored.induct)
    (auto simp: bind_Some_iff simp del: scan_conv.simps split: scanned.splits)

lemma strtok_blanks_length: "w \<in> set (strtok_blanks s) \<Longrightarrow> length w \<le> length s"
proof (induction s rule: strtok_blanks.induct)
  case (1 s)
  let ?t = "dropWhile (\<lambda>c. c = CHR '' '') s"
  have t: "length ?t \<le> length s" by (rule length_dropWhile_le)
  from 1(2) have "?t \<noteq> []" by (subst (asm) strtok_blanks.simps) (auto simp: Let_def split: if_splits)
  then have "strtok_blanks s = takeWhile (\<lambda>c. c \<noteq> CHR '' '') ?t # strtok_blanks (dropWhile (\<lambda>c. c \<noteq> CHR '' '') ?t)"
    unfolding strtok_blanks.simps [of s] Let_def by (rule if_not_P)
  with 1(2) consider "w = takeWhile (\<lambda>c. c \<noteq> CHR '' '') ?t"
    | "w \<in> set (strtok_blanks (dropWhile (\<lambda>c. c \<noteq> CHR '' '') ?t))"
    by (metis set_ConsD)
  then show ?case
  proof cases
    case 1 show ?thesis unfolding 1 using t length_takeWhile_le [of "\<lambda>c. c \<noteq> CHR '' ''" ?t] by linarith
  next
    case 2
    with 1(1) [OF refl \<open>?t \<noteq> []\<close>] show ?thesis
      using t length_dropWhile_le [of "\<lambda>c. c \<noteq> CHR '' ''" ?t] by linarith
  qed
qed

text \<open>
  What a driver may say without the daemon going wrong: words that fit, hosts that exist, an
  answer only to what was asked, and attributes that the parser can store (it fails exactly at
  an assignment outside a table of the host, see \<open>update_attr_outcome\<close>).
\<close>

definition proper_answer :: "gw_im \<Rightarrow> nat \<Rightarrow> string \<Rightarrow> bool" where
  "proper_answer im k str \<longleftrightarrow> (case scan_stored im_format str of
      None \<Rightarrow> False
    | Some ws \<Rightarrow> length ws < 3
        \<or> (hd (ws ! 1) = CHR ''-'' \<or> pool_get (im_hosts im) (atoi (ws ! 1)) \<noteq> None)
          \<and> (ws ! 0 = ''DISCOVER'' \<longrightarrow> im_state (mad_of im k) = GW_IM_MAD_STATE_DISCOVERING)
          \<and> (ws ! 0 = ''MONITOR'' \<longrightarrow> hd (ws ! 1) \<noteq> CHR ''-''
               \<and> host_waits (pool_get (im_hosts im) (atoi (ws ! 1)))
               \<and> (ws ! 2 = ''SUCCESS'' \<longrightarrow> gw_host_update_attr (Some (if length ws = 4 then ws ! 3 else []))
                     (the (pool_get (im_hosts im) (atoi (ws ! 1)))) \<noteq> None)))"

lemma host_update_spec:
  assumes "gw_host_update info h = Some (h', msgs)"
  shows "host_fits i h' = host_fits i h \<and> host_state h' \<noteq> GW_HOST_STATE_MONITORING"
proof -
  obtain rc h1 where u: "gw_host_update_attr (Some info) h = Some (rc, h1)"
    "h' = h1\<lparr>host_state := if rc \<noteq> 0 then GW_HOST_STATE_UNKNOWN else GW_HOST_STATE_MONITORED\<rparr>"
    using assms by (auto simp: gw_host_update_def bind_Some_iff Let_def split: if_splits)
  from update_attr_keeps [OF u(1)] show ?thesis by (auto simp: u(2) host_fits_def same_host_def)
qed

lemma on_pool_host_ok:
  assumes "im_ok conf im" and "pool_get (im_hosts im) hid = Some h" and "host_state h = GW_HOST_STATE_MONITORING"
    and "f h = Some (h', msgs)" and "host_fits hid h'" and "host_state h' \<noteq> GW_HOST_STATE_MONITORING"
  shows "\<exists>im'. on_pool_host f hid (im\<lparr>im_active_queries := im_active_queries im - 1\<rparr>) = Some im' \<and> im_ok conf im'"
proof -
  let ?im = "im\<lparr>im_active_queries := im_active_queries im - 1\<rparr>"
  have "pool_filled (ic_gw conf) (im_hosts im)" using assms(1) by (simp add: im_ok_def)
  from put_host_pool [where im = ?im, of hid h "ic_gw conf" h'] this assms
  have "im_ok conf (put_host hid h' ?im)" by (simp add: im_ok_def)
  then have "im_ok conf ((put_host hid h' ?im)\<lparr>im_sched := im_sched im @ msgs\<rparr>)"
    by (simp add: im_ok_def mads_ok_def hosts_waiting_def mads_waiting_def)
  then show ?thesis using assms(2,4) by (simp add: on_pool_host_def)
qed

lemma monitored_ok:
  assumes "im_ok conf im" and "pool_get (im_hosts im) hid = Some h" and "host_state h = GW_HOST_STATE_MONITORING"
    and "result = ''SUCCESS'' \<longrightarrow> gw_host_update_attr (Some info) h \<noteq> None"
  shows "\<exists>im'. monitored hid result info im = Some im' \<and> im_ok conf im'"
proof (cases "result = ''SUCCESS''")
  case True
  have h: "host_fits hid h" using assms(1,2) by (simp add: im_ok_def pool_filled_def)
  obtain h' msgs where u: "gw_host_update info h = Some (h', msgs)"
    using assms(4) True by (fastforce simp: gw_host_update_def Let_def)
  with host_update_spec [OF u, of hid] h on_pool_host_ok [where f = "gw_host_update info", OF assms(1-3) u] True
  show ?thesis by (simp add: monitored_def)
next
  case False
  have h: "host_fits hid h" using assms(1,2) by (simp add: im_ok_def pool_filled_def)
  have "host_fits hid (fst (gw_host_clear_dynamic_info h))"
    "host_state (fst (gw_host_clear_dynamic_info h)) \<noteq> GW_HOST_STATE_MONITORING"
    using h by (simp_all add: gw_host_clear_dynamic_info_def host_fits_def Let_def)
  with on_pool_host_ok [where f = "\<lambda>h. Some (gw_host_clear_dynamic_info h)" and
      h' = "fst (gw_host_clear_dynamic_info h)" and msgs = "snd (gw_host_clear_dynamic_info h)", OF assms(1-3) _ this] False
  show ?thesis by (simp add: monitored_def)
qed

lemma discovered_ok:
  assumes "im_ok conf im" and "conf_fits conf" and "k < it_registered_mads (im_mads im)"
    and "im_state (mad_of im k) = GW_IM_MAD_STATE_DISCOVERING"
    and "result = ''SUCCESS'' \<Longrightarrow> length info \<le> 65516"
  shows "\<exists>im'. discovered conf priority k result info im = Some im' \<and> im_ok conf im'"
proof -
  let ?im = "im\<lparr>im_active_queries := im_active_queries im - 1\<rparr>"
  have ok: "mads_ok im" "im_argument (mad_of im k) \<noteq> FREED_ARG"
    using assms(1,3) by (auto simp: im_ok_def mads_ok_def mad_of_def)
  have idle: "im_ok conf (upd_mad k (\<lambda>m. m\<lparr>im_state := GW_IM_MAD_STATE_IDLE\<rparr>) (?im\<lparr>im_hosts := p\<rparr>))"
    if p: "pool_filled (ic_gw conf) p" "numb host_waits (pool_slots p) = hosts_waiting im" for p
  proof -
    let ?imp = "?im\<lparr>im_hosts := p\<rparr>"
    have frame: "mads_ok ?imp" "mad_of ?imp k = mad_of im k" "mads_waiting ?imp = mads_waiting im"
      "hosts_waiting ?imp = hosts_waiting im"
      using ok p(2) by (simp_all add: mads_ok_def mad_of_def mads_waiting_def hosts_waiting_def)
    have k: "k < it_registered_mads (im_mads ?imp)" using assms(3) by simp
    show ?thesis
      using mads_ok_upd [OF frame(1), of "\<lambda>m. m\<lparr>im_state := GW_IM_MAD_STATE_IDLE\<rparr>" k]
        mads_waiting_upd [OF frame(1) k, of "\<lambda>m. m\<lparr>im_state := GW_IM_MAD_STATE_IDLE\<rparr>"] frame ok(2) p(1) assms(1,4)
      by (simp add: im_ok_def)
  qed
  show ?thesis
  proof (cases "result = ''SUCCESS'' \<and> info \<noteq> []")
    case True
    have "\<forall>w \<in> set (strtok_blanks info). length w \<le> 65516"
      using assms(5) True strtok_blanks_length by (meson le_trans)
    from update_filled [OF _ _ this] assms(1,2) obtain p where "gw_host_pool_update (ic_gw conf) priority (strtok_blanks info)
        (im_em_mad_name (mad_of im k)) (im_tm_mad_name (mad_of im k)) (im_name (mad_of im k)) (im_hosts im) = Some p"
      "pool_filled (ic_gw conf) p" "numb host_waits (pool_slots p) = hosts_waiting im"
      unfolding im_ok_def conf_fits_def hosts_waiting_def by blast
    with True idle [of p] show ?thesis by (simp add: discovered_def)
  next
    case False
    have "?im\<lparr>im_hosts := im_hosts im\<rparr> = ?im" by simp
    with idle [of "im_hosts im"] assms(1)
    have "im_ok conf (upd_mad k (\<lambda>m. m\<lparr>im_state := GW_IM_MAD_STATE_IDLE\<rparr>) ?im)"
      unfolding im_ok_def [of conf im] hosts_waiting_def by metis
    then show ?thesis unfolding discovered_def Let_def if_not_P [OF False] by simp
  qed
qed

lemma message_ok:
  assumes "im_ok conf im" and "conf_fits conf"
    and "k < it_registered_mads (im_mads im)" and "proper_answer im k str" and "length str < GW_IM_MAX_STRING"
  shows "\<exists>im'. gw_im_message conf priority k str im = Some im' \<and> im_ok conf im'"
proof -
  obtain ws where ws: "scan_stored im_format str = Some ws"
    using assms(4) by (auto simp: proper_answer_def split: option.splits)
  show ?thesis
  proof (cases "length ws < 3")
    case True
    with ws assms(1) show ?thesis by (simp add: gw_im_message_def)
  next
    case False
    with assms(4) ws have p: "hd (ws ! 1) = CHR ''-'' \<or> pool_get (im_hosts im) (atoi (ws ! 1)) \<noteq> None"
      "ws ! 0 = ''DISCOVER'' \<Longrightarrow> im_state (mad_of im k) = GW_IM_MAD_STATE_DISCOVERING"
      "ws ! 0 = ''MONITOR'' \<Longrightarrow> hd (ws ! 1) \<noteq> CHR ''-'' \<and> host_waits (pool_get (im_hosts im) (atoi (ws ! 1)))
         \<and> (ws ! 2 = ''SUCCESS'' \<longrightarrow> gw_host_update_attr (Some (if length ws = 4 then ws ! 3 else []))
                (the (pool_get (im_hosts im) (atoi (ws ! 1)))) \<noteq> None)"
      by (auto simp: proper_answer_def)
    let ?info = "if length ws = 4 then ws ! 3 else []"
    have info: "length ?info \<le> 65516" if "ws ! 0 = ''DISCOVER''" "ws ! 2 = ''SUCCESS''"
    proof (cases "length ws = 4")
      case True
      then obtain a h r i where w: "ws = [a, h, r, i]" by (auto simp: eval_nat_numeral length_Suc_conv)
      with that info_length [OF ws [unfolded w]] assms(5) show ?thesis
        by (cases h) (simp_all add: GW_IM_MAX_STRING_def)
    qed simp
    show ?thesis
    proof (cases "ws ! 0 = ''DISCOVER''")
      case True
      with discovered_ok [OF assms(1,2,3) p(2) [OF True], of "ws ! 2" ?info priority] info ws False p(1)
      show ?thesis by (auto simp: gw_im_message_def Let_def)
    next
      case notd: False
      show ?thesis
      proof (cases "ws ! 0 = ''MONITOR''")
        case True
        from p(3) [OF this] obtain h where h: "pool_get (im_hosts im) (atoi (ws ! 1)) = Some h"
          "host_state h = GW_HOST_STATE_MONITORING" "hd (ws ! 1) \<noteq> CHR ''-''"
          "ws ! 2 = ''SUCCESS'' \<longrightarrow> gw_host_update_attr (Some ?info) h \<noteq> None" by (auto simp: host_waits_def)
        with monitored_ok [OF assms(1) h(1,2,4)] True ws False show ?thesis
          by (simp add: gw_im_message_def Let_def)
      next
        case False
        with notd ws \<open>\<not> length ws < 3\<close> p(1) assms(1) show ?thesis
          by (auto simp: gw_im_message_def Let_def)
      qed
    qed
  qed
qed

section \<open>Runs\<close>

datatype im_event = IM_TICK int | IM_READY nat im_ready

definition im_step ::
    "im_conf \<Rightarrow> (string \<Rightarrow> string \<Rightarrow> int) \<Rightarrow> im_event \<Rightarrow> gw_im
       \<Rightarrow> gw_im option" where
  "im_step conf priority e im = (case e of
      IM_TICK now \<Rightarrow> gw_im_timer conf now im
    | IM_READY num_mads r \<Rightarrow> listener_ready conf priority num_mads r im)"

text \<open>A driver that dies may be started again, with or without success, but its first line fits.\<close>

definition proper_start :: "im_start \<Rightarrow> bool" where
  "proper_start start \<longleftrightarrow> (case start of FORKED pid w r (Some l) \<Rightarrow> start_answer l \<noteq> None | _ \<Rightarrow> True)"

definition proper_event :: "gw_im \<Rightarrow> im_event \<Rightarrow> bool" where
  "proper_event im e \<longleftrightarrow> (case e of
      IM_TICK now \<Rightarrow> True
    | IM_READY num_mads (fd, written, start) \<Rightarrow> (case gw_im_get_mad_by_fd fd im of
        None \<Rightarrow> True
      | Some k \<Rightarrow> (case mad_line written of
          None \<Rightarrow> proper_start start
        | Some (str, _) \<Rightarrow> proper_answer im k str)))"

inductive im_reach ::
    "im_conf \<Rightarrow> (string \<Rightarrow> string \<Rightarrow> int) \<Rightarrow> gw_im \<Rightarrow> gw_im \<Rightarrow> bool"
  for conf priority im0 where
  im_start: "im_reach conf priority im0 im0"
| im_next: "im_reach conf priority im0 im \<Longrightarrow> proper_event im e \<Longrightarrow>
    im_step conf priority e im = Some im' \<Longrightarrow> im_reach conf priority im0 im'"

lemma reload_total:
  assumes "proper_start start" and "im_argument m \<noteq> FREED_ARG"
  shows "\<exists>rc m' out. gw_im_mad_reload start m = Some (rc, m', out)"
  using assms
  by (auto simp: gw_im_mad_reload_def gw_im_mad_start_def proper_start_def split: im_start.splits option.splits)

lemma reload_keeps:
  assumes "gw_im_mad_reload start m = Some (rc, m', out)"
  shows "im_argument m' = im_argument m" "im_state m' = im_state m" "im_name m' = im_name m"
  using assms
  by (auto simp: gw_im_mad_reload_def gw_im_mad_start_def bind_Some_iff split: im_start.splits if_splits)

lemma upd_mad_ok:
  assumes "im_ok conf im" and "k < it_registered_mads (im_mads im)"
    and "im_argument (f (mad_of im k)) \<noteq> FREED_ARG" and "im_state (f (mad_of im k)) = im_state (mad_of im k)"
  shows "im_ok conf (upd_mad k f im)"
  using assms mads_ok_upd [of im f k] mads_waiting_upd [of im k f] by (simp add: im_ok_def)

lemma mad_of_upd:
  assumes "mads_ok im" and "k < it_registered_mads (im_mads im)"
  shows "mad_of (upd_mad k f im) j = (if j = k then f (mad_of im k) else mad_of im j)"
    "it_registered_mads (im_mads (upd_mad k f im)) = it_registered_mads (im_mads im)"
  using assms by (simp_all add: mad_of_def upd_mad_def mads_ok_def nth_list_update)

lemma im_out_ok: "im_ok conf (im_out out im) = im_ok conf im"
  "it_registered_mads (im_mads (im_out out im)) = it_registered_mads (im_mads im)"
  by (simp_all add: im_ok_def) (simp add: im_out_def)

lemma listener_stop_ok: "im_ok conf (im\<lparr>im_listening := b\<rparr>) = im_ok conf im"
  by (simp add: im_ok_def mads_ok_def hosts_waiting_def mads_waiting_def)

lemma read_failed_ok:
  assumes "im_ok conf im" and "k < it_registered_mads (im_mads im)" and "proper_start start"
  shows "\<exists>im'. im_read_failed num_mads start k im = Some im' \<and> im_ok conf im'"
proof -
  have ok: "mads_ok im" "im_argument (mad_of im k) \<noteq> FREED_ARG"
    using assms(1,2) by (auto simp: im_ok_def mads_ok_def mad_of_def)
  obtain rc m out where r: "gw_im_mad_reload start (mad_of im k) = Some (rc, m, out)"
    using reload_total [OF assms(3) ok(2)] by blast
  let ?im = "im_out out (upd_mad k (\<lambda>_. m) im)"
  have im: "im_ok conf ?im"
    using upd_mad_ok [OF assms(1,2), of "\<lambda>_. m"] reload_keeps [OF r] ok(2) by (simp add: im_out_ok)
  have at: "k < it_registered_mads (im_mads ?im)" "mad_of ?im k = m"
    using mad_of_upd [OF ok(1) assms(2), of "\<lambda>_. m"] assms(2) by (simp_all add: im_out_ok)
  have "im_ok conf (upd_mad k (\<lambda>m. m\<lparr>im_mad_im_pipe := - 1\<rparr>) ?im)"
    using upd_mad_ok [OF im at(1), of "\<lambda>m. m\<lparr>im_mad_im_pipe := - 1\<rparr>"] reload_keeps [OF r] ok(2) at(2) by simp
  with r im show ?thesis by (auto simp: im_read_failed_def Let_def listener_stop_ok)
qed

lemma im_step_ok:
  assumes "im_ok conf im" and "conf_fits conf" and "proper_event im e"
  shows "\<exists>im'. im_step conf priority e im = Some im' \<and> im_ok conf im'"
proof (cases e)
  case (IM_TICK now)
  then show ?thesis using im_ok_timer [OF assms(2,1)] by (simp add: im_step_def)
next
  case (IM_READY num_mads r)
  obtain fd written start where r: "r = (fd, written, start)" by (cases r)
  have ok: "mads_ok im" using assms(1) by (simp add: im_ok_def)
  show ?thesis
  proof (cases "im_listening im \<and> gw_im_get_mad_by_fd fd im \<noteq> None")
    case True
    then obtain k where k: "gw_im_get_mad_by_fd fd im = Some k" by blast
    note at = registered_lookup(1) [OF k [unfolded gw_im_get_mad_by_fd_def] ok]
    show ?thesis
    proof (cases "mad_line written")
      case None
      with assms(3) IM_READY r k have "proper_start start" by (simp add: proper_event_def)
      from read_failed_ok [OF assms(1) at this] True None k IM_READY r show ?thesis
        by (simp add: im_step_def listener_ready_def)
    next
      case (Some l)
      obtain str rest where l: "l = (str, rest)" by (cases l)
      with Some have "length str < GW_IM_MAX_STRING"
        using mad_read_bound [of "GW_MAD_MAX_STRING - 1" written str rest]
        by (simp add: mad_line_def GW_MAD_MAX_STRING_def GW_IM_MAX_STRING_def)
      moreover have "proper_answer im k str"
        using assms(3) IM_READY r k Some l by (simp add: proper_event_def)
      ultimately show ?thesis
        using message_ok [OF assms(1,2) at] True Some l k IM_READY r
        by (simp add: im_step_def listener_ready_def)
    qed
  next
    case False
    with IM_READY r assms(1) show ?thesis
      by (auto simp: im_step_def listener_ready_def split: option.split)
  qed
qed

text \<open>C11 (invariant).
  In every run of the information manager with drivers that answer only what they are
  asked, about hosts that exist, in words that fit and with attributes the parser can store,
  and that may die at any moment: no step crashes; the number of
  active queries is the number of hosts that wait for an answer and of drivers that are
  discovering; and the hosts that wait are never more than the configured limit.\<close>

theorem im_queries_counted:
  assumes "im_ok conf im0" and "conf_fits conf"
    and "im_reach conf priority im0 im"
  shows "im_active_queries im = hosts_waiting im + mads_waiting im
    \<and> hosts_waiting im \<le> conf_max_active_im_queries (ic_gw conf)
    \<and> mads_waiting im \<le> int GW_MAX_MADS
    \<and> (\<forall>e. proper_event im e \<longrightarrow> im_step conf priority e im \<noteq> None)"
proof -
  have "im_ok conf im"
    using assms(3)
  proof induction
    case (im_next im e im')
    with im_step_ok [OF im_next.IH assms(2) im_next.hyps(2), of priority] show ?case by auto
  qed (rule assms(1))
  moreover from this have "im_step conf priority e im \<noteq> None" if "proper_event im e" for e
    using im_step_ok [OF _ assms(2) that, of priority] by auto
  ultimately show ?thesis using mads_waiting_le by (auto simp: im_ok_def)
qed

definition example_im_conf :: im_conf where
  "example_im_conf = \<lparr> ic_gw = example_conf, ic_discovery_interval = 300,
     ic_mads = [conf_entry ''mds'' ''ftp'' ''gram''] \<rparr>"

definition example_im :: gw_im where
  "example_im = \<lparr> im_mads = \<lparr> it_mutex_locked = False, it_registered_mads = 1,
       it_im_mad = no_im_mad\<lparr>im_name := ''mds'', im_em_mad_name := ''gram'', im_tm_mad_name := ''ftp'',
           im_mad_im_pipe := 9, im_im_mad_pipe := 8\<rparr> # replicate 4 no_im_mad,
       it_output = [] \<rparr>,
     im_active_queries = 0, im_last_discovery_time = 0, im_last_checked = 0,
     im_hosts = gw_host_pool_init example_conf, im_sched = [], im_listening = True \<rparr>"

lemma example_im_ok: "im_ok example_im_conf example_im" "conf_fits example_im_conf"
  by (auto simp: im_ok_def conf_fits_def example_im_def example_im_conf_def example_conf_def mads_ok_def
      GW_MAX_MADS_def no_im_mad_def pool_filled_def gw_host_pool_init_def hosts_waiting_def mads_waiting_def
      registered_im_def numb_def host_waits_def pool_init_def pool_size_def pool_get_def slot_def)

theorem im_queries_counted_witness:
  "\<exists>im. im_step example_im_conf (\<lambda>h m. 0) (IM_TICK 300) example_im = Some im
     \<and> im_active_queries im = hosts_waiting im + mads_waiting im"
proof -
  have proper: "proper_event example_im (IM_TICK 300)" by (simp add: proper_event_def)
  obtain im where step: "im_step example_im_conf (\<lambda>h m. 0) (IM_TICK 300) example_im = Some im"
    using im_ok_timer [OF example_im_ok(2,1), of 300] by (auto simp: im_step_def)
  have "im_reach example_im_conf (\<lambda>h m. 0) example_im im"
    using im_next [OF im_reach.im_start proper step] .
  with step show ?thesis using im_queries_counted [OF example_im_ok] by blast
qed

end
