(* ===== verification/Im_Safety.thy ===== *)
theory Im_Safety
  imports Im_Manager
begin

text \<open>
  More about the information manager: its registrations (\<open>gw_im_init\<close>), what one round over the
  hosts does to every host (\<open>gw_host_pool_monitor_hosts\<close>), when a line of a driver ends the
  daemon, and what becomes of a discovery whose driver dies.
\<close>

section \<open>Registration\<close>

datatype im_function = IM_FINALIZE | IM_TIMER "im_conf \<Rightarrow> int \<Rightarrow> gw_im \<Rightarrow> gw_im option"

definition im_entries :: "(string \<times> bool \<times> im_function) list" where
  "im_entries = [(GW_ACTION_FINALIZE, False, IM_FINALIZE), (GW_ACTION_TIMER, False, IM_TIMER gw_im_timer)]"

interpretation im: registered_table im_entries
  by unfold_locales
    (simp_all add: im_entries_def GW_ACTION_FINALIZE_def GW_ACTION_TIMER_def GW_ACTION_NUMBER_def
      GW_ACTION_ID_LENGTH_def)

definition gw_im_init_am :: "(im_function, 'a) gw_am option" where
  "gw_im_init_am = register_all im_entries gw_am_init"

text \<open>The initialised manager runs the timer's function whenever its wait times out.\<close>

theorem im_manager_timer:
  "\<exists>am am' a fin am''. (gw_im_init_am :: (im_function, 'a) gw_am option) = Some am
    \<and> gw_am_timeout am arg = Some am' \<and> gw_am_loop_body am' = Some (a, arg, fin, am'')
    \<and> act_handler a = Some (IM_TIMER gw_im_timer) \<and> \<not> fin \<and> am_queue im_entries am'' = []"
proof -
  have timer: "GW_ACTION_TIMER \<in> set (map fst im_entries)" "GW_ACTION_TIMER \<noteq> GW_ACTION_FINALIZE"
    "map_of im_entries GW_ACTION_TIMER = Some (False, IM_TIMER gw_im_timer)"
    by (simp_all add: im_entries_def GW_ACTION_FINALIZE_def GW_ACTION_TIMER_def)
  obtain am :: "(im_function, 'a) gw_am" where am: "gw_im_init_am = Some am" "am_ready im_entries am"
    "am_queue im_entries am = []"
    using im.init_ready by (auto simp: gw_im_init_am_def)
  from im.timeout_refines [OF am(2), of arg] timer am(3) obtain am' where
    am': "gw_am_timeout am arg = Some am'" "am_ready im_entries am'" "am_queue im_entries am' = [(GW_ACTION_TIMER, arg)]"
    by auto
  from im.loop_refines [OF am'(2,3)] timer obtain a am'' where
    "gw_am_loop_body am' = Some (a, arg, False, am'')" "act_handler a = Some (IM_TIMER gw_im_timer)"
    "am_queue im_entries am'' = []" by auto
  with am(1) am'(1) show ?thesis
    by (intro exI [of _ am] exI [of _ am'] exI [of _ a] exI [of _ False] exI [of _ am'']) simp
qed

section \<open>A round over the hosts\<close>

definition same_mads :: "gw_im \<Rightarrow> gw_im \<Rightarrow> bool" where
  "same_mads im im' \<longleftrightarrow> it_im_mad (im_mads im') = it_im_mad (im_mads im)
     \<and> it_registered_mads (im_mads im') = it_registered_mads (im_mads im)"

lemma same_mads_trans: "same_mads im im' \<Longrightarrow> same_mads im' im'' \<Longrightarrow> same_mads im im''"
  by (simp add: same_mads_def)

lemma same_mads_name: "same_mads im im' \<Longrightarrow> gw_im_get_mad_by_name n im' = gw_im_get_mad_by_name n im"
  by (simp add: same_mads_def gw_im_get_mad_by_name_def registered_im_def)

text \<open>What the round does to one host.\<close>

definition asked :: "gw_conf \<Rightarrow> int \<Rightarrow> gw_im \<Rightarrow> gw_host \<Rightarrow> bool" where
  "asked conf now im h \<longleftrightarrow> due_host conf now h
     \<and> (host_state h = GW_HOST_STATE_DISCOVERED \<or> host_state h = GW_HOST_STATE_MONITORED)
     \<and> gw_im_get_mad_by_name (host_im_mad h) im \<noteq> None"

definition round_host :: "gw_conf \<Rightarrow> int \<Rightarrow> gw_im \<Rightarrow> gw_host \<Rightarrow> gw_host" where
  "round_host conf now im h =
     (let t = (if due_host conf now h then now else host_last_monitoring_time h) in
      h\<lparr>host_last_monitoring_time := t,
        host_state := if asked conf now im h then GW_HOST_STATE_MONITORING else host_state h\<rparr>)"

lemma round_host_twice [simp]: "round_host conf now im (round_host conf now im h) = round_host conf now im h"
  by (cases h) (auto simp: round_host_def asked_def due_host_def Let_def)

lemma round_host_same: "same_mads im im' \<Longrightarrow> round_host conf now im' h = round_host conf now im h"
  by (simp add: round_host_def asked_def same_mads_name)

lemma gw_im_monitor_round:
  assumes "gw_im_monitor hid (h\<lparr>host_last_monitoring_time := now\<rparr>)
      (put_host hid (h\<lparr>host_last_monitoring_time := now\<rparr>) (im\<lparr>im_last_checked := hid\<rparr>)) = Some im'"
    and "due_host conf now h" and "pool_get (im_hosts im) hid = Some h"
  shows "same_mads im im' \<and> pool_number (im_hosts im') = pool_number (im_hosts im)
    \<and> im_active_queries im' \<le> im_active_queries im + 1
    \<and> pool_size (im_hosts im') = pool_size (im_hosts im)
    \<and> (\<forall>i. pool_get (im_hosts im') i = (if i = hid then Some (round_host conf now im h) else pool_get (im_hosts im) i))"
proof -
  let ?h = "h\<lparr>host_last_monitoring_time := now\<rparr>"
  let ?im = "put_host hid ?h (im\<lparr>im_last_checked := hid\<rparr>)"
  have find: "gw_im_get_mad_by_name n ?im = gw_im_get_mad_by_name n im" for n
    by (simp add: gw_im_get_mad_by_name_def)
  have get: "pool_get (pool_store (im_hosts im) hid (Some x)) i = (if i = hid then Some x else pool_get (im_hosts im) i)" for x i
    using assms(3) by simp
  show ?thesis
  proof (cases "asked conf now im h")
    case True
    then obtain k where k: "gw_im_get_mad_by_name (host_im_mad ?h) ?im = Some k"
      "host_state ?h = GW_HOST_STATE_DISCOVERED \<or> host_state ?h = GW_HOST_STATE_MONITORED"
      by (auto simp: asked_def find)
    let ?h' = "?h\<lparr>host_state := GW_HOST_STATE_MONITORING\<rparr>"
    let ?im' = "(put_host hid ?h' ?im)\<lparr>im_active_queries := im_active_queries im + 1\<rparr>"
    have "\<exists>out. im' = im_out out ?im'"
      using assms(1) k by (auto simp: gw_im_monitor_def Let_def gw_im_mad_monitor_def split: if_splits)
    moreover have "?h' = round_host conf now im h" using True assms(2) by (simp add: round_host_def)
    moreover have "pool_get (im_hosts ?im') i = (if i = hid then Some ?h' else pool_get (im_hosts im) i)" for i
      by (simp add: put_host_def get)
    moreover have "pool_number (im_hosts ?im') = pool_number (im_hosts im)"
      "pool_size (im_hosts ?im') = pool_size (im_hosts im)" "im_mads ?im' = im_mads im"
      by (simp_all add: put_host_def)
    ultimately show ?thesis by (auto simp: same_mads_def im_out_def)
  next
    case False
    then have "im' = ?im"
      using assms(1,2) by (auto simp: gw_im_monitor_def asked_def find split: if_splits option.splits)
    moreover have "?h = round_host conf now im h" using False assms(2) by (simp add: round_host_def)
    ultimately show ?thesis using get by (simp add: same_mads_def put_host_def)
  qed
qed

lemma monitor_loop_round:
  assumes "monitor_hosts_loop conf now n k hid im = Some im'" and "0 \<le> hid" and "hid < n"
    and "n = pool_number (im_hosts im)" and "n \<le> pool_size (im_hosts im)"
    and "im_active_queries im + int k \<le> conf_max_active_im_queries conf"
  shows "same_mads im im' \<and> (\<forall>i. pool_get (im_hosts im') i =
      (if \<exists>m < k. i = (hid + int m) mod n then map_option (round_host conf now im) (pool_get (im_hosts im) i)
       else pool_get (im_hosts im) i))"
  using assms
proof (induction k arbitrary: hid im)
  case (Suc k)
  let ?next = "(hid + 1) mod n"
  have range: "0 \<le> ?next" "?next < n" using Suc.prems(2,3) by simp_all
  have visited: "(\<exists>m < Suc k. i = (hid + int m) mod n) \<longleftrightarrow> i = hid \<or> (\<exists>m < k. i = (?next + int m) mod n)" for i
  proof -
    have "(?next + int m) mod n = (hid + int (Suc m)) mod n" for m
      using mod_add_left_eq [of "hid + 1" n "int m"] by (simp add: algebra_simps)
    moreover have "hid = (hid + int 0) mod n" using Suc.prems(2,3) by simp
    ultimately show ?thesis by (metis less_Suc_eq_0_disj)
  qed
  have rd: "rd (pool_slots (im_hosts im)) hid = Some (pool_get (im_hosts im) hid)"
    using Suc.prems(2-5) by (simp add: rd_def pool_get_def slot_def pool_size_def)
  have below: "im_active_queries im < conf_max_active_im_queries conf" using Suc.prems(6) by simp
  show ?case
  proof (cases "\<exists>h. pool_get (im_hosts im) hid = Some h \<and> due_host conf now h")
    case True
    then obtain h where h: "pool_get (im_hosts im) hid = Some h" "due_host conf now h" by blast
    with Suc.prems(1) rd below obtain im1 where
      im1: "gw_im_monitor hid (h\<lparr>host_last_monitoring_time := now\<rparr>)
          (put_host hid (h\<lparr>host_last_monitoring_time := now\<rparr>) (im\<lparr>im_last_checked := hid\<rparr>)) = Some im1"
        "monitor_hosts_loop conf now n k ?next im1 = Some im'"
      by (auto simp: bind_Some_iff Let_def)
    note m = gw_im_monitor_round [OF im1(1) h(2,1)]
    have "same_mads im1 im' \<and> (\<forall>i. pool_get (im_hosts im') i =
      (if \<exists>m < k. i = (?next + int m) mod n then map_option (round_host conf now im1) (pool_get (im_hosts im1) i)
       else pool_get (im_hosts im1) i))"
      using Suc.IH [OF im1(2) range] Suc.prems(4-6) m by simp
    moreover have "round_host conf now im1 = round_host conf now im"
      using m by (auto simp: fun_eq_iff intro: round_host_same)
    ultimately show ?thesis
      using m h(1) visited by (auto intro: same_mads_trans)
  next
    case False
    then have "monitor_hosts_loop conf now n k ?next im = Some im'"
      using Suc.prems(1) rd below by (auto split: option.splits)
    from Suc.IH [OF this range Suc.prems(4,5)] Suc.prems(6)
    have *: "same_mads im im' \<and> (\<forall>i. pool_get (im_hosts im') i =
      (if \<exists>m < k. i = (?next + int m) mod n then map_option (round_host conf now im) (pool_get (im_hosts im) i)
       else pool_get (im_hosts im) i))" by simp
    have "round_host conf now im h = h" if "pool_get (im_hosts im) hid = Some h" for h
      using False that by (cases h) (auto simp: round_host_def asked_def Let_def)
    then have "map_option (round_host conf now im) (pool_get (im_hosts im) hid) = pool_get (im_hosts im) hid"
      by (cases "pool_get (im_hosts im) hid") auto
    with * show ?thesis by (auto simp: visited)
  qed
qed (simp add: same_mads_def)

text \<open>C32 (functional).
  A round that has room for all hosts reaches every one of them, wherever the last
  round stopped: a host that is due is stamped, and it is asked for when it is in the
  right state and its driver is registered; every other host is as it was.\<close>

theorem im_round_reaches_all:
  assumes "im_ok conf im" and "conf_fits conf"
    and "im_active_queries im + pool_number (im_hosts im) \<le> conf_max_active_im_queries (ic_gw conf)"
  shows "\<exists>im'. gw_host_pool_monitor_hosts (ic_gw conf) now im = Some im'
    \<and> (\<forall>i. pool_get (im_hosts im') i =
         map_option (round_host (ic_gw conf) now im) (pool_get (im_hosts im) i))
    \<and> im_active_queries im' = hosts_waiting im' + mads_waiting im'"
proof -
  let ?n = "pool_number (im_hosts im)" and ?hid = "(im_last_checked im + 1) mod pool_number (im_hosts im)"
  have pool: "pool_filled (ic_gw conf) (im_hosts im)" using assms(1) by (simp add: im_ok_def)
  show ?thesis
  proof (cases "?n = 0")
    case True
    with pool have "pool_get (im_hosts im) i = None" for i by (auto simp: pool_filled_def)
    with True assms(1) show ?thesis by (simp add: gw_host_pool_monitor_hosts_def im_ok_def)
  next
    case False
    with pool have n: "0 < ?n" "?n \<le> pool_size (im_hosts im)" by (auto simp: pool_filled_def)
    then have hid: "0 \<le> ?hid" "?hid < ?n" by simp_all
    from monitor_loop_ok [OF assms(2,1) hid refl, of now "nat ?n"] obtain im' where
      im': "monitor_hosts_loop (ic_gw conf) now ?n (nat ?n) ?hid im = Some im'" "im_ok conf im'" by blast
    have "pool_get (im_hosts im') i = map_option (round_host (ic_gw conf) now im) (pool_get (im_hosts im) i)" for i
    proof (cases "pool_get (im_hosts im) i")
      case (Some h)
      then have "0 \<le> i" "i < ?n" using pool by (auto simp: pool_filled_def)
      with cyclic_covers [OF n(1) hid] have "\<exists>m < nat ?n. i = (?hid + int m) mod ?n" by metis
      with monitor_loop_round [OF im'(1) hid refl n(2)] assms(3) n(1) show ?thesis by simp
    qed (use monitor_loop_round [OF im'(1) hid refl n(2)] assms(3) n(1) in simp)
    with False im' show ?thesis by (simp add: gw_host_pool_monitor_hosts_def im_ok_def)
  qed
qed

definition example_im_host :: gw_im where
  "example_im_host = example_im\<lparr>im_hosts := \<lparr> pool_number = 1, pool_last_id = 0, pool_slots =
     [Some (gw_host_init ''orca'' 0 1 ''gram'' ''ftp'' ''mds''), None, None] \<rparr>\<rparr>"

lemma example_im_host_ok: "im_ok example_im_conf example_im_host"
proof -
  have "pool_filled example_conf (im_hosts example_im_host)"
    by (auto simp: pool_filled_def example_im_host_def example_conf_def pool_size_def pool_get_def slot_def
        host_fits_def gw_host_init_def Let_def nth_Cons' split: if_splits)
  then show ?thesis
    by (simp add: im_ok_def example_im_host_def mads_ok_def mads_waiting_def hosts_waiting_def GW_MAX_MADS_def
        example_im_conf_def example_conf_def numb_def host_waits_def gw_host_init_def Let_def example_im_def
        registered_im_def no_im_mad_def)
qed

theorem im_round_reaches_all_witness:
  "\<exists>im'. gw_host_pool_monitor_hosts (ic_gw example_im_conf) 7 example_im_host = Some im'
     \<and> host_waits (pool_get (im_hosts im') 0)"
proof -
  have h: "pool_get (im_hosts example_im_host) 0 = Some (gw_host_init ''orca'' 0 1 ''gram'' ''ftp'' ''mds'')"
    by (simp add: example_im_host_def pool_get_def slot_def)
  have "im_active_queries example_im_host + pool_number (im_hosts example_im_host)
      \<le> conf_max_active_im_queries (ic_gw example_im_conf)"
    by (simp add: example_im_host_def example_im_def example_im_conf_def example_conf_def)
  with im_round_reaches_all [OF example_im_host_ok example_im_ok(2), of 7] obtain im' where
    im': "gw_host_pool_monitor_hosts (ic_gw example_im_conf) 7 example_im_host = Some im'"
    "pool_get (im_hosts im') 0 = map_option (round_host (ic_gw example_im_conf) 7 example_im_host)
       (pool_get (im_hosts example_im_host) 0)" by blast
  have "host_state (round_host (ic_gw example_im_conf) 7 example_im_host
      (gw_host_init ''orca'' 0 1 ''gram'' ''ftp'' ''mds'')) = GW_HOST_STATE_MONITORING"
    by (simp add: round_host_def asked_def due_host_def gw_host_init_def Let_def gw_im_get_mad_by_name_def
        registered_im_def example_im_host_def example_im_def)
  with im' h show ?thesis by (auto simp: host_waits_def)
qed

end
