(* ===== verification/Im_Faults.thy ===== *)
theory Im_Faults
  imports Im_Safety
begin

text \<open>
  When a line of an information driver ends the daemon (\<open>gw_im_listener\<close>), and what
  becomes of a discovery whose driver dies (\<open>gw_im_mad_reload\<close>).
\<close>

section \<open>Lines that end the daemon\<close>

lemma monitored_None:
  "monitored hid result info im = None \<longleftrightarrow> result = ''SUCCESS''
     \<and> (\<exists>h. pool_get (im_hosts im) hid = Some h \<and> gw_host_update_attr (Some info) h = None)"
proof (cases "pool_get (im_hosts im) hid")
  case (Some h)
  then show ?thesis
    by (cases "gw_host_update_attr (Some info) h"; cases "gw_host_clear_dynamic_info h")
      (auto simp: monitored_def on_pool_host_def gw_host_update_def Let_def)
qed (simp add: monitored_def on_pool_host_def Let_def)

text \<open>C35 (error).
  Whatever a driver writes, a line ends the daemon in three cases only: a word
  is as long as the array it goes to; the line names a host that is not in the pool; or it brings
  the attributes of a host and one of them is stored outside a table of the host, such as the name
  of a queue without a subscript (\<open>update_attr_outcome\<close> says when).\<close>

theorem im_message_crashes:
  assumes "im_ok conf im" and "conf_fits conf" and "length str < GW_IM_MAX_STRING"
  shows "gw_im_message conf priority k str im = None \<longleftrightarrow>
    (case scan_stored im_format str of
       None \<Rightarrow> True
     | Some ws \<Rightarrow> 3 \<le> length ws \<and> hd (ws ! 1) \<noteq> CHR ''-''
         \<and> (case pool_get (im_hosts im) (atoi (ws ! 1)) of
              None \<Rightarrow> True
            | Some h \<Rightarrow> ws ! 0 = ''MONITOR'' \<and> ws ! 2 = ''SUCCESS''
                \<and> gw_host_update_attr (Some (if length ws = 4 then ws ! 3 else [])) h = None))"
proof (cases "scan_stored im_format str")
  case (Some ws)
  let ?info = "if length ws = 4 then ws ! 3 else []"
  have "discovered conf priority k (ws ! 2) ?info im \<noteq> None" if d: "ws ! 0 = ''DISCOVER''"
  proof (cases "ws ! 2 = ''SUCCESS'' \<and> ?info \<noteq> []")
    case True
    then have four: "length ws = 4" by (simp split: if_splits)
    then obtain a h r i where w: "ws = [a, h, r, i]" by (auto simp: eval_nat_numeral length_Suc_conv)
    have "length i \<le> 65516"
      using info_length [OF Some [unfolded w]] d True assms(3) w
      by (cases h) (simp_all add: GW_IM_MAX_STRING_def)
    then have "\<forall>w \<in> set (strtok_blanks i). length w \<le> 65516"
      using strtok_blanks_length by (meson le_trans)
    from update_filled [OF _ _ this] assms(1,2) obtain p where
      "gw_host_pool_update (ic_gw conf) priority (strtok_blanks i) (im_em_mad_name (mad_of im k))
        (im_tm_mad_name (mad_of im k)) (im_name (mad_of im k)) (im_hosts im) = Some p"
      unfolding im_ok_def conf_fits_def by blast
    then show ?thesis using True w by (simp add: discovered_def Let_def mad_of_def)
  next
    case False
    then show ?thesis unfolding discovered_def Let_def if_not_P [OF False] by simp
  qed
  moreover have "monitored hid (ws ! 2) ?info im = None \<longleftrightarrow> ws ! 2 = ''SUCCESS''
      \<and> (\<exists>h. pool_get (im_hosts im) hid = Some h \<and> gw_host_update_attr (Some ?info) h = None)" for hid
    by (rule monitored_None)
  moreover have "\<exists>im'. monitored (- 1) (ws ! 2) info im = Some im'" for info
    using monitored_None [of "- 1" "ws ! 2" info im] by (simp add: pool_get_def slot_def)
  ultimately show ?thesis using Some by (auto simp: gw_im_message_def Let_def split: option.splits)
qed (simp add: gw_im_message_def)

lemma scanned_lines:
  "scan_stored im_format (''MONITOR 7 SUCCESS CPU=1'' @ [CHR 0x0A]) = Some [''MONITOR'', ''7'', ''SUCCESS'', ''CPU=1'']"
  "scan_stored im_format (''MONITOR 0 SUCCESS QUEUE_NAME='' @ [CHR 0x0A]) =
     Some [''MONITOR'', ''0'', ''SUCCESS'', ''QUEUE_NAME='']"
  by (simp_all add: im_format_def is_blank_def Let_def)

text \<open>The only host of the pool is asked for its attributes, and the driver names a queue without a subscript.\<close>

definition example_one_host :: gw_im where
  "example_one_host = example_im\<lparr>im_hosts := \<lparr>pool_number = 1, pool_last_id = 0, pool_slots = [Some orca, None, None]\<rparr>\<rparr>"

lemma example_one_host_ok: "im_ok example_im_conf example_one_host"
  "pool_get (im_hosts example_one_host) i = (if i = 0 then Some orca else None)"
proof -
  have get: "pool_get (im_hosts example_one_host) i = (if i = 0 then Some orca else None)" for i
    by (auto simp: example_one_host_def pool_get_def slot_def nth_Cons')
  then show "pool_get (im_hosts example_one_host) i = (if i = 0 then Some orca else None)" .
  have "host_fits 0 orca" "host_state orca \<noteq> GW_HOST_STATE_MONITORING"
    by (simp_all add: host_fits_def orca_def gw_host_init_def Let_def)
  moreover have "mads_ok example_one_host" "im_active_queries example_one_host = 0" "mads_waiting example_one_host = 0"
    "im_last_checked example_one_host = 0"
    using example_im_ok(1) by (simp_all add: example_one_host_def im_ok_def mads_ok_def mads_waiting_def example_im_def
      registered_im_def numb_def no_im_mad_def)
  moreover have "hosts_waiting example_one_host = 0"
    using calculation(2) by (simp add: hosts_waiting_def example_one_host_def numb_def host_waits_def)
  moreover have "pool_filled (ic_gw example_im_conf) (im_hosts example_one_host)"
    using get calculation(1) by (auto simp: pool_filled_def example_one_host_def example_im_conf_def example_conf_def pool_size_def)
  ultimately show "im_ok example_im_conf example_one_host"
    by (simp add: im_ok_def example_im_conf_def example_conf_def)
qed

theorem im_message_crashes_witness:
  "gw_im_message example_im_conf (\<lambda>h m. 0) 0 (''MONITOR 7 SUCCESS CPU=1'' @ [CHR 0x0A]) example_one_host = None
   \<and> gw_im_message example_im_conf (\<lambda>h m. 0) 0 (''MONITOR 0 SUCCESS QUEUE_NAME='' @ [CHR 0x0A]) example_one_host = None"
proof -
  have "length (''MONITOR 7 SUCCESS CPU=1'' @ [CHR 0x0A]) < GW_IM_MAX_STRING"
    "length (''MONITOR 0 SUCCESS QUEUE_NAME='' @ [CHR 0x0A]) < GW_IM_MAX_STRING"
    by (simp_all add: GW_IM_MAX_STRING_def)
  moreover have "gw_host_update_attr (Some ''QUEUE_NAME='') orca = None"
    by (simp add: gw_host_update_attr_def host_attr_lex.simps(2) is_letter_def is_digit_def is_name_char_def
        name_token_def host_keywords_def operator_chars_def host_update_parse.simps is_variable_def
        gw_host_set_var_null_def gw_host_set_var_str_def orca_def gw_host_init_def Let_def wr_def)
  moreover have "atoi ''7'' = 7" "atoi ''0'' = 0" by (simp_all add: atoi_def is_blank_def is_digit_def)
  ultimately show ?thesis
    using im_message_crashes [OF example_one_host_ok(1) example_im_ok(2), of "''MONITOR 7 SUCCESS CPU=1'' @ [CHR 0x0A]"]
      im_message_crashes [OF example_one_host_ok(1) example_im_ok(2), of "''MONITOR 0 SUCCESS QUEUE_NAME='' @ [CHR 0x0A]"]
      scanned_lines by (simp add: example_one_host_ok(2))
qed

section \<open>A discovery that is lost\<close>

definition discovering :: "nat \<Rightarrow> gw_im \<Rightarrow> bool" where
  "discovering k im \<longleftrightarrow> k < it_registered_mads (im_mads im) \<and> k < length (it_im_mad (im_mads im))
     \<and> im_state (mad_of im k) = GW_IM_MAD_STATE_DISCOVERING"

text \<open>The event does not bring an answer of driver \<open>k\<close> to a discovery.\<close>

definition no_discovery :: "nat \<Rightarrow> im_event \<Rightarrow> gw_im \<Rightarrow> bool" where
  "no_discovery k e im \<longleftrightarrow> (case e of
      IM_TICK now \<Rightarrow> True
    | IM_READY num_mads (fd, written, start) \<Rightarrow> gw_im_get_mad_by_fd fd im = Some k \<longrightarrow>
        (case mad_line written of
           None \<Rightarrow> True
         | Some (str, _) \<Rightarrow> map_option (take 1) (scan_stored im_format str) \<noteq> Some [''DISCOVER'']))"

fun im_run ::
    "im_conf \<Rightarrow> (string \<Rightarrow> string \<Rightarrow> int) \<Rightarrow> im_event list \<Rightarrow> gw_im
       \<Rightarrow> gw_im option" where
  "im_run conf priority [] im = Some im"
| "im_run conf priority (e # es) im =
     do { im \<leftarrow> im_step conf priority e im; im_run conf priority es im }"

fun never_discovers ::
    "im_conf \<Rightarrow> (string \<Rightarrow> string \<Rightarrow> int) \<Rightarrow> nat \<Rightarrow> im_event list \<Rightarrow> gw_im
       \<Rightarrow> bool" where
  "never_discovers conf priority k [] im = True"
| "never_discovers conf priority k (e # es) im \<longleftrightarrow> no_discovery k e im
     \<and> (case im_step conf priority e im of
         None \<Rightarrow> True | Some im \<Rightarrow> never_discovers conf priority k es im)"

lemma discovering_same: "same_mads im im' \<Longrightarrow> discovering k im' = discovering k im"
  by (simp add: discovering_def same_mads_def mad_of_def)

lemma discovering_upd:
  assumes "discovering k im" and "j = k \<Longrightarrow> im_state (f (mad_of im k)) = GW_IM_MAD_STATE_DISCOVERING"
  shows "discovering k (upd_mad j f im)"
  using assms by (cases "j = k") (simp_all add: discovering_def upd_mad_def mad_of_def)

lemma same_mads_simps [simp]:
  "same_mads im im" "same_mads im (im\<lparr>im_active_queries := a\<rparr>)" "same_mads im (im\<lparr>im_hosts := p\<rparr>)"
  "same_mads im (im_out out im)" "same_mads im (im\<lparr>im_last_discovery_time := t\<rparr>)"
  "same_mads im (im\<lparr>im_listening := b\<rparr>)" "same_mads im (put_host hid h im)"
  by (simp_all add: same_mads_def im_out_def put_host_def)

lemma monitored_mads: "monitored hid result info im = Some im' \<Longrightarrow> same_mads im im'"
  by (cases "gw_host_clear_dynamic_info (the (pool_get (im_hosts im) hid))")
    (auto simp: monitored_def on_pool_host_def same_mads_def put_host_def Let_def bind_Some_iff split: option.splits if_splits)

lemma discovering_discover:
  assumes "discovering k im"
  shows "discovering k (gw_im_discover name im)"
proof (cases "\<exists>n j. name = Some n \<and> gw_im_get_mad_by_name n im = Some j \<and> im_state (mad_of im j) = GW_IM_MAD_STATE_IDLE")
  case True
  then obtain n j where j: "name = Some n" "gw_im_get_mad_by_name n im = Some j"
    "im_state (mad_of im j) = GW_IM_MAD_STATE_IDLE" by blast
  let ?im = "upd_mad j (\<lambda>m. m\<lparr>im_state := GW_IM_MAD_STATE_DISCOVERING\<rparr>) im"
  have "discovering k ?im" by (rule discovering_upd [OF assms]) simp
  moreover have "same_mads ?im (gw_im_discover name im)"
    using j by (simp add: gw_im_discover_def Let_def gw_im_mad_discover_def same_mads_def im_out_def)
  ultimately show ?thesis by (simp add: discovering_same)
next
  case False
  then have "gw_im_discover name im = im" by (auto simp: gw_im_discover_def split: option.split)
  with assms show ?thesis by simp
qed

lemma discovering_discover_all: "discovering k im \<Longrightarrow> discovering k (discover_all cs im)"
  by (induction cs im rule: discover_all.induct) (auto intro: discovering_discover)

lemma gw_im_monitor_mads: "gw_im_monitor hid h im = Some im' \<Longrightarrow> same_mads im im'"
  by (auto simp: gw_im_monitor_def Let_def gw_im_mad_monitor_def same_mads_def im_out_def put_host_def
      split: if_splits option.splits)

lemma monitor_loop_mads: "monitor_hosts_loop conf now n k hid im = Some im' \<Longrightarrow> same_mads im im'"
proof (induction k arbitrary: hid im)
  case (Suc k)
  show ?case
  proof (cases "im_active_queries im < conf_max_active_im_queries conf")
    case True
    with Suc.prems obtain host im1 where im1:
      "(case host of None \<Rightarrow> Some im | Some h \<Rightarrow> if due_host conf now h
          then (let h = h\<lparr>host_last_monitoring_time := now\<rparr> in
                gw_im_monitor hid h (put_host hid h (im\<lparr>im_last_checked := hid\<rparr>)))
          else Some im) = Some im1" "monitor_hosts_loop conf now n k ((hid + 1) mod n) im1 = Some im'"
      by (auto simp: bind_Some_iff)
    have "same_mads im (put_host hid h (im\<lparr>im_last_checked := hid\<rparr>))" for h
      by (simp add: same_mads_def put_host_def)
    then have "same_mads im im1"
      using im1(1) by (auto simp: Let_def split: option.splits if_splits
          dest!: gw_im_monitor_mads intro: same_mads_trans)
    with Suc.IH [OF im1(2)] show ?thesis by (rule same_mads_trans [rotated])
  qed (use Suc.prems in simp)
qed simp

lemma discovering_timer:
  assumes "discovering k im" and "gw_im_timer conf now im = Some im'"
  shows "discovering k im'"
proof -
  let ?im = "if now - im_last_discovery_time im \<ge> ic_discovery_interval conf
    then discover_all (take GW_MAX_MADS (ic_mads conf)) (im\<lparr>im_last_discovery_time := now\<rparr>) else im"
  have "discovering k (im\<lparr>im_last_discovery_time := now\<rparr>)"
    using assms(1) discovering_same [OF same_mads_simps(5)] by blast
  then have "discovering k ?im" using assms(1) by (simp add: discovering_discover_all)
  moreover have "same_mads ?im im'"
    using assms(2) unfolding gw_im_timer_def gw_host_pool_monitor_hosts_def Let_def
    by (simp only: split: if_splits) (auto intro: monitor_loop_mads)
  ultimately show ?thesis using discovering_same by blast
qed

lemma discovering_read_failed:
  assumes "discovering k im" and "im_read_failed n start j im = Some im'"
  shows "discovering k im'"
proof -
  obtain rc m out where r: "gw_im_mad_reload start (mad_of im j) = Some (rc, m, out)"
    using assms(2) by (auto simp: im_read_failed_def bind_Some_iff)
  let ?im = "im_out out (upd_mad j (\<lambda>_. m) im)"
  have "discovering k (upd_mad j (\<lambda>_. m) im)"
    using assms(1) reload_keeps(2) [OF r] by (intro discovering_upd) (auto simp: discovering_def)
  then have im: "discovering k ?im" using discovering_same [OF same_mads_simps(4)] by blast
  then have "discovering k (upd_mad j (\<lambda>m. m\<lparr>im_mad_im_pipe := - 1\<rparr>) ?im)"
    by (rule discovering_upd) (use im in \<open>simp add: discovering_def\<close>)
  with im assms(2) r discovering_same [OF same_mads_simps(6)] show ?thesis
    by (auto simp: im_read_failed_def Let_def split: if_splits)
qed

lemma discovering_message:
  assumes "discovering k im" and "gw_im_message conf priority j str im = Some im'"
    and "j = k \<Longrightarrow> map_option (take 1) (scan_stored im_format str) \<noteq> Some [''DISCOVER'']"
  shows "discovering k im'"
proof -
  obtain ws where ws: "scan_stored im_format str = Some ws"
    using assms(2) by (auto simp: gw_im_message_def bind_Some_iff)
  have first: "j \<noteq> k" if "3 \<le> length ws" "ws ! 0 = ''DISCOVER''"
    using assms(3) ws that by (cases ws) auto
  have disc: "discovering k im'" if d: "discovered conf priority j result info im = Some im'" "j \<noteq> k" for result info
  proof -
    obtain im1 where "im' = upd_mad j (\<lambda>m. m\<lparr>im_state := GW_IM_MAD_STATE_IDLE\<rparr>) im1" "same_mads im im1"
      using d(1) by (auto simp: discovered_def Let_def bind_Some_iff same_mads_def split: if_splits)
    with assms(1) d(2) discovering_same show ?thesis by (auto intro: discovering_upd)
  qed
  have mon: "discovering k im'" if "monitored hid result info im = Some im'" for hid result info
    using assms(1) discovering_same [OF monitored_mads [OF that]] by blast
  let ?info = "if length ws = 4 then ws ! 3 else []"
  let ?hid = "if hd (ws ! 1) = CHR ''-'' then - 1 else atoi (ws ! 1)"
  have "im' = im \<or> 3 \<le> length ws \<and> ws ! 0 = ''DISCOVER'' \<and> discovered conf priority j (ws ! 2) ?info im = Some im'
      \<or> monitored ?hid (ws ! 2) ?info im = Some im'"
    using assms(2) unfolding gw_im_message_def Let_def ws Option.bind.simps
    by (cases "length ws < 3") (simp_all only: if_True if_False not_less option.inject option.distinct split: if_split_asm, blast+)
  then show ?thesis using assms(1) first disc mon by blast
qed

text \<open>C33 (liveness).
  A driver that was asked to discover and whose process dies before it answers is
  never asked again: through every run of ticks, of lines of other drivers and of
  restarts of its own, until some process of it answers a question it was not asked, it
  stays in the discovering state, and to discover with it does nothing.\<close>

theorem im_discovery_lost:
  assumes "discovering k im" and "never_discovers conf priority k es im"
    and "im_run conf priority es im = Some im'" and "gw_im_get_mad_by_name name im' = Some k"
  shows "discovering k im' \<and> gw_im_discover (Some name) im' = im'"
proof -
  have "discovering k im'"
    using assms(1-3)
  proof (induction es arbitrary: im)
    case (Cons e es)
    obtain im1 where im1: "im_step conf priority e im = Some im1"
      "im_run conf priority es im1 = Some im'"
      using Cons.prems(3) by (auto simp: bind_Some_iff)
    have quiet: "no_discovery k e im" "never_discovers conf priority k es im1"
      using Cons.prems(2) im1(1) by simp_all
    have "discovering k im1"
    proof (cases e)
      case (IM_TICK now)
      with im1(1) Cons.prems(1) discovering_timer show ?thesis by (simp add: im_step_def)
    next
      case (IM_READY n r)
      obtain fd written start where r: "r = (fd, written, start)" by (cases r)
      show ?thesis
      proof (cases "gw_im_get_mad_by_fd fd im")
        case (Some j)
        with IM_READY r im1(1) quiet(1) Cons.prems(1) show ?thesis
          by (auto simp: im_step_def listener_ready_def no_discovery_def split: if_splits option.splits
              intro: discovering_read_failed discovering_message)
      qed (use IM_READY r im1(1) Cons.prems(1) in \<open>simp add: im_step_def listener_ready_def split: if_splits\<close>)
    qed
    with Cons.IH im1(2) quiet(2) show ?case by blast
  qed simp
  with assms(4) show ?thesis by (simp add: discovering_def gw_im_discover_def)
qed

lemma mad_line_closed: "mad_line [] = None"
proof -
  have "mad_read n [] = None" if "0 < n" for n using that by (cases n) simp_all
  then show ?thesis by (simp add: mad_line_def GW_MAD_MAX_STRING_def)
qed

text \<open>The driver is asked, dies, and is started again with success.\<close>

definition example_discovering :: gw_im where
  "example_discovering = gw_im_discover (Some ''mds'') example_im"

theorem im_discovery_lost_witness:
  "\<exists>im'. im_run example_im_conf (\<lambda>h m. 0)
       [IM_READY 1 (9, '''', FORKED 77 12 13 (Some ''INIT - SUCCESS -''))] example_discovering = Some im'
     \<and> gw_im_discover (Some ''mds'') im' = im'"
proof -
  let ?es = "[IM_READY 1 (9, '''', FORKED 77 12 13 (Some ''INIT - SUCCESS -''))]"
  have line: "mad_line '''' = None" by (rule mad_line_closed)
  have answer: "start_answer ''INIT - SUCCESS -'' = Some 0"
    by (simp add: start_answer_def start_word_def is_blank_def GW_IM_MAX_STRING_def Let_def)
  note e = example_discovering_def example_im_def gw_im_discover_def gw_im_get_mad_by_name_def registered_im_def
    mad_of_def upd_mad_def gw_im_mad_discover_def im_out_def no_im_mad_def Let_def
  have d: "discovering 0 example_discovering" by (simp add: discovering_def e)
  obtain im' where im': "im_run example_im_conf (\<lambda>h m. 0) ?es example_discovering = Some im'"
    "gw_im_get_mad_by_name ''mds'' im' = Some 0"
    by (simp add: im_step_def listener_ready_def gw_im_get_mad_by_fd_def line im_read_failed_def
        gw_im_mad_reload_def gw_im_mad_start_def answer e)
  have "never_discovers example_im_conf (\<lambda>h m. 0) 0 ?es example_discovering"
    by (simp add: no_discovery_def line split: option.split)
  from im_discovery_lost [OF d this im'] im'(1) show ?thesis by blast
qed

end
