(* ===== verification/Um_Manager.thy ===== *)
theory Um_Manager
  imports Gw_User_Pool Gw_Table
begin

text \<open>
  The user manager, \<open>src/um/gw_um.c\<close>: two registrations, as an instance of
  \<open>registered_table\<close>, and a timer that runs every 180 seconds over the pool of users.
  The mark it writes to the log is left out.
\<close>

definition gw_um_timer :: "gw_user gw_pool \<Rightarrow> gw_user gw_pool \<times> sch_msg list" where
  "gw_um_timer p = gw_user_pool_check_users p 180"

datatype um_function = UM_FINALIZE | UM_TIMER "gw_user gw_pool \<Rightarrow> gw_user gw_pool \<times> sch_msg list"

definition um_entries :: "(string \<times> bool \<times> um_function) list" where
  "um_entries = [(GW_ACTION_FINALIZE, False, UM_FINALIZE), (GW_ACTION_TIMER, False, UM_TIMER gw_um_timer)]"

definition gw_um_init_am :: "(um_function, 'a) gw_am option" where
  "gw_um_init_am = register_all um_entries gw_am_init"

interpretation um: registered_table um_entries
  by unfold_locales
    (simp_all add: um_entries_def GW_ACTION_FINALIZE_def GW_ACTION_TIMER_def GW_ACTION_NUMBER_def
      GW_ACTION_ID_LENGTH_def)

text \<open>The timer with nothing else in between.\<close>

fun um_ticks :: "nat \<Rightarrow> gw_user gw_pool \<Rightarrow> gw_user gw_pool" where
  "um_ticks 0 p = p"
| "um_ticks (Suc n) p = um_ticks n (fst (gw_um_timer p))"

lemma gw_um_timer_get: "pool_get (fst (gw_um_timer p)) i = Option.bind (pool_get p i) (idle_step 180)"
  using gw_user_pool_check_users_removes [of p 180 "fst (gw_um_timer p)" "snd (gw_um_timer p)"]
  by (simp add: gw_um_timer_def)

text \<open>What \<open>n\<close> runs of the timer do to a user who does nothing: with jobs it stays as it
  is; without jobs its idle time grows by 180 seconds a run, and it is gone with the
  run that brings it to six minutes, the second one at the latest.\<close>

theorem um_idle_user_removed:
  assumes "pool_get p i = Some u"
  shows "pool_get (um_ticks n p) i =
    (if user_active_jobs u \<noteq> 0 \<or> n = 0 then Some u
     else if user_idle u + 180 * int n \<ge> GW_MAX_IDLE_TIME then None
     else Some (u\<lparr>user_idle := user_idle u + 180 * int n\<rparr>))"
  using assms
proof (induction n arbitrary: p u)
  case (Suc n)
  have gone: "pool_get q i = None \<Longrightarrow> pool_get (um_ticks m q) i = None" for m q
    by (induction m arbitrary: q) (simp_all add: gw_um_timer_get)
  show ?case
  proof (cases "idle_step 180 u")
    case None
    with Suc.prems have "pool_get (um_ticks (Suc n) p) i = None"
      by (simp add: gone gw_um_timer_get)
    with None show ?thesis by (auto simp: idle_step_def split: if_splits)
  next
    case (Some v)
    with Suc.prems have "pool_get (fst (gw_um_timer p)) i = Some v" by (simp add: gw_um_timer_get)
    from Suc.IH [OF this] Some show ?thesis
      by (auto simp: idle_step_def algebra_simps split: if_splits)
  qed
qed simp

theorem um_idle_user_removed_witness:
  "pool_get (um_ticks 2 example_users) 0 = None \<and> pool_get (um_ticks 2 example_users) 1 = pool_get example_users 1"
proof -
  obtain u v where "pool_get example_users 0 = Some u" "user_active_jobs u = 0" "user_idle u = 340"
    "pool_get example_users 1 = Some v" "user_active_jobs v = 2"
    by (simp add: pool_get_def slot_def example_users_def)
  then show ?thesis
    using um_idle_user_removed [of example_users 0 u 2] um_idle_user_removed [of example_users 1 v 2]
    by (simp add: GW_MAX_IDLE_TIME_def)
qed

end
