(* ===== verification/Gw_Host_Eval.thy ===== *)
theory Gw_Host_Eval
  imports Gw_Host_Expr
begin

text \<open>
  What the expressions on hosts mean: syntax trees with their values, written with as few
  brackets as the precedences allow, are evaluated by the parsers of \<open>Gw_Host_Expr\<close> to
  these values; and what a job template can do to the daemon with them.
\<close>

section \<open>Rank\<close>

datatype rank_exp =
    RVar gw_host_var
  | RGen string
  | RNum int
  | RAdd rank_exp rank_exp
  | RSub rank_exp rank_exp
  | RMul rank_exp rank_exp
  | RDiv rank_exp rank_exp
  | RNeg rank_exp

fun rank_eval :: "gw_host \<Rightarrow> int \<Rightarrow> rank_exp \<Rightarrow> int option" where
  "rank_eval h q (RVar v) = gw_host_get_var_int v q h"
| "rank_eval h q (RGen w) = Some (gw_host_get_genvar_int w q h)"
| "rank_eval h q (RNum i) = Some i"
| "rank_eval h q (RAdd a b) = do { x \<leftarrow> rank_eval h q a; y \<leftarrow> rank_eval h q b; c_int (x + y) }"
| "rank_eval h q (RSub a b) = do { x \<leftarrow> rank_eval h q a; y \<leftarrow> rank_eval h q b; c_int (x - y) }"
| "rank_eval h q (RMul a b) = do { x \<leftarrow> rank_eval h q a; y \<leftarrow> rank_eval h q b; c_int (x * y) }"
| "rank_eval h q (RDiv a b) = do { x \<leftarrow> rank_eval h q a; y \<leftarrow> rank_eval h q b; c_div x y }"
| "rank_eval h q (RNeg a) = do { x \<leftarrow> rank_eval h q a; c_int (- x) }"

fun rank_level :: "rank_exp \<Rightarrow> nat" where
  "rank_level (RAdd _ _) = 0"
| "rank_level (RSub _ _) = 0"
| "rank_level (RNeg _) = 0"
| "rank_level (RMul _ _) = 1"
| "rank_level (RDiv _ _) = 1"
| "rank_level _ = 2"

definition bracket :: "bool \<Rightarrow> host_token list \<Rightarrow> host_token list" where
  "bracket b ts = (if b then SIGN (CHR ''('') # ts @ [SIGN (CHR '')'')] else ts)"

text \<open>A left operand of the operator's own level needs no brackets, a right one does.\<close>

fun rank_tokens :: "rank_exp \<Rightarrow> host_token list" where
  "rank_tokens (RVar v) = [VARIABLE v]"
| "rank_tokens (RGen w) = [GENERICVAR w]"
| "rank_tokens (RNum i) = [INTEGER i]"
| "rank_tokens (RAdd a b) = rank_tokens a @ SIGN (CHR ''+'') # bracket (rank_level b < 1) (rank_tokens b)"
| "rank_tokens (RSub a b) = rank_tokens a @ SIGN (CHR ''-'') # bracket (rank_level b < 1) (rank_tokens b)"
| "rank_tokens (RMul a b) = bracket (rank_level a < 1) (rank_tokens a) @ SIGN (CHR ''*'')
     # bracket (rank_level b < 2) (rank_tokens b)"
| "rank_tokens (RDiv a b) = bracket (rank_level a < 1) (rank_tokens a) @ SIGN (CHR ''/'')
     # bracket (rank_level b < 2) (rank_tokens b)"
| "rank_tokens (RNeg a) = SIGN (CHR ''-'') # bracket (rank_level a < 1) (rank_tokens a)"

text \<open>The stacks on which an expression of a level is read as one.\<close>

fun rank_fits :: "nat \<Rightarrow> rank_frame list \<Rightarrow> bool" where
  "rank_fits l [] = True"
| "rank_fits l (K_PAREN # st) = True"
| "rank_fits l (K_MUL _ # st) = (2 \<le> l)"
| "rank_fits l (K_DIV _ # st) = (2 \<le> l)"
| "rank_fits l (_ # st) = (1 \<le> l)"

lemma rank_fits_stays:
  "rank_fits 0 st \<Longrightarrow> rank_reduce high st v = Some (st, v)"
  "rank_fits 1 st \<Longrightarrow> rank_reduce True st v = Some (st, v)"
  by (cases "(0 :: nat, st)" rule: rank_fits.cases; simp)+

lemma rank_close:
  "rank_operator h q (K_MUL a # st) v ts = do { x \<leftarrow> c_int (a * v); rank_operator h q st x ts }"
  "rank_operator h q (K_DIV a # st) v ts = do { x \<leftarrow> c_div a v; rank_operator h q st x ts }"
  "\<not> high_next ts \<Longrightarrow>
     rank_operator h q (K_ADD a # st) v ts = do { x \<leftarrow> c_int (a + v); rank_operator h q st x ts }"
  "\<not> high_next ts \<Longrightarrow>
     rank_operator h q (K_SUB a # st) v ts = do { x \<leftarrow> c_int (a - v); rank_operator h q st x ts }"
  "\<not> high_next ts \<Longrightarrow>
     rank_operator h q (K_NEG # st) v ts = do { x \<leftarrow> c_int (- v); rank_operator h q st x ts }"
  by (subst rank_operator.simps, simp add: rank_operator.simps)+

lemma rank_open:
  "rank_fits 0 st \<Longrightarrow> rank_operator h q st v (SIGN (CHR ''+'') # ts) = rank_operand h q (K_ADD v # st) ts"
  "rank_fits 0 st \<Longrightarrow> rank_operator h q st v (SIGN (CHR ''-'') # ts) = rank_operand h q (K_SUB v # st) ts"
  "rank_fits 1 st \<Longrightarrow> rank_operator h q st v (SIGN (CHR ''*'') # ts) = rank_operand h q (K_MUL v # st) ts"
  "rank_fits 1 st \<Longrightarrow> rank_operator h q st v (SIGN (CHR ''/'') # ts) = rank_operand h q (K_DIV v # st) ts"
  "rank_operator h q (K_PAREN # st) v (SIGN (CHR '')'') # ts) = rank_operator h q st v ts"
  by (subst rank_operator.simps, simp add: rank_fits_stays high_next_def)+

lemma rank_first:
  "rank_operand h q st (SIGN (CHR ''-'') # ts) = rank_operand h q (K_NEG # st) ts"
  "rank_operand h q st (SIGN (CHR ''('') # ts) = rank_operand h q (K_PAREN # st) ts"
  "rank_operand h q st (VARIABLE v # ts) = do { x \<leftarrow> gw_host_get_var_int v q h; rank_operator h q st x ts }"
  "rank_operand h q st (GENERICVAR w # ts) = rank_operator h q st (gw_host_get_genvar_int w q h) ts"
  "rank_operand h q st (INTEGER i # ts) = rank_operator h q st i ts"
  by (simp_all add: rank_operand.simps)

lemma high_next_sign [simp]:
  "\<not> high_next []" "\<not> high_next (SIGN (CHR ''+'') # ts)" "\<not> high_next (SIGN (CHR ''-'') # ts)"
  "\<not> high_next (SIGN (CHR '')'') # ts)"
  by (simp_all add: high_next_def)

definition rank_reads :: "gw_host \<Rightarrow> int \<Rightarrow> rank_exp \<Rightarrow> bool" where
  "rank_reads h q e \<longleftrightarrow> (\<forall>st ts. rank_fits (rank_level e) st \<longrightarrow> (rank_level e = 0 \<longrightarrow> \<not> high_next ts) \<longrightarrow>
     rank_operand h q st (rank_tokens e @ ts) = do { v \<leftarrow> rank_eval h q e; rank_operator h q st v ts })"

lemma rank_readsD:
  "rank_reads h q e \<Longrightarrow> rank_fits (rank_level e) st \<Longrightarrow> rank_level e = 0 \<Longrightarrow> \<not> high_next ts \<Longrightarrow>
     rank_operand h q st (rank_tokens e @ ts) = do { v \<leftarrow> rank_eval h q e; rank_operator h q st v ts }"
  "rank_reads h q e \<Longrightarrow> rank_fits (rank_level e) st \<Longrightarrow> rank_level e \<noteq> 0 \<Longrightarrow>
     rank_operand h q st (rank_tokens e @ ts) = do { v \<leftarrow> rank_eval h q e; rank_operator h q st v ts }"
  by (simp_all add: rank_reads_def)

lemma rank_fits_mono: "rank_fits l st \<Longrightarrow> l \<le> m \<Longrightarrow> rank_fits m st"
  by (cases "(l, st)" rule: rank_fits.cases) auto

text \<open>In brackets an expression is read on any stack.\<close>

lemma rank_reads_bracket:
  assumes "rank_reads h q e" and "rank_fits l st" and "1 \<le> l"
  shows "rank_operand h q st (bracket (rank_level e < l) (rank_tokens e) @ ts) =
    do { v \<leftarrow> rank_eval h q e; rank_operator h q st v ts }"
proof (cases "rank_level e < l")
  case True
  have "rank_fits (rank_level e) (K_PAREN # st)" by simp
  from rank_readsD [OF assms(1) this] have
    "rank_operand h q (K_PAREN # st) (rank_tokens e @ SIGN (CHR '')'') # ts) =
      do { v \<leftarrow> rank_eval h q e; rank_operator h q (K_PAREN # st) v (SIGN (CHR '')'') # ts) }"
    by (cases "rank_level e = 0") auto
  with True show ?thesis by (simp add: bracket_def rank_first rank_open)
next
  case False
  then have "rank_fits (rank_level e) st" "rank_level e \<noteq> 0"
    using rank_fits_mono [OF assms(2)] assms(3) by auto
  from rank_readsD(2) [OF assms(1) this] False show ?thesis by (simp add: bracket_def)
qed

text \<open>A sum's left operand stands on a stack that leaves it alone.\<close>

lemma rank_reads_left:
  assumes "rank_reads h q e" and "rank_fits 0 st" and "\<not> high_next ts"
  shows "rank_operand h q st (rank_tokens e @ ts) = do { v \<leftarrow> rank_eval h q e; rank_operator h q st v ts }"
  using assms rank_fits_mono [OF assms(2), of "rank_level e"] by (simp add: rank_reads_def)

lemma rank_reads_all: "rank_reads h q e"
proof (induction e)
  case (RAdd a b)
  show ?case
    unfolding rank_reads_def
    by (cases "rank_eval h q a"; cases "rank_eval h q b") (auto simp: rank_reads_left [OF RAdd.IH(1)] rank_open rank_close
        rank_reads_bracket [OF RAdd.IH(2), where l = 1, simplified])
next
  case (RSub a b)
  show ?case
    unfolding rank_reads_def
    by (cases "rank_eval h q a"; cases "rank_eval h q b") (auto simp: rank_reads_left [OF RSub.IH(1)] rank_open rank_close
        rank_reads_bracket [OF RSub.IH(2), where l = 1, simplified])
next
  case (RMul a b)
  show ?case
    unfolding rank_reads_def
    by (cases "rank_eval h q a"; cases "rank_eval h q b") (auto simp: rank_reads_bracket [OF RMul.IH(1), where l = 1, simplified] rank_open rank_close
        rank_reads_bracket [OF RMul.IH(2), of 2])
next
  case (RDiv a b)
  show ?case
    unfolding rank_reads_def
    by (cases "rank_eval h q a"; cases "rank_eval h q b") (auto simp: rank_reads_bracket [OF RDiv.IH(1), where l = 1, simplified] rank_open rank_close
        rank_reads_bracket [OF RDiv.IH(2), of 2])
next
  case (RNeg a)
  show ?case
    unfolding rank_reads_def
    by (auto simp: rank_first rank_close rank_reads_bracket [OF RNeg.IH, where l = 1, simplified])
qed (auto simp: rank_reads_def rank_first)

fun rank_names :: "rank_exp \<Rightarrow> bool" where
  "rank_names (RVar v) = token_ok (VARIABLE v)"
| "rank_names (RGen w) = token_ok (GENERICVAR w)"
| "rank_names (RNum i) = token_ok (INTEGER i)"
| "rank_names (RAdd a b) = (rank_names a \<and> rank_names b)"
| "rank_names (RSub a b) = (rank_names a \<and> rank_names b)"
| "rank_names (RMul a b) = (rank_names a \<and> rank_names b)"
| "rank_names (RDiv a b) = (rank_names a \<and> rank_names b)"
| "rank_names (RNeg a) = rank_names a"

lemma bracket_ok: "list_all token_ok (bracket b ts) = list_all token_ok ts"
  by (simp add: bracket_def operator_chars_def)

lemma rank_tokens_ok: "rank_names e \<Longrightarrow> list_all token_ok (rank_tokens e)"
  by (induction e) (auto simp: bracket_ok operator_chars_def)

lemma rank_tokens_first: "rank_tokens e \<noteq> [] \<and> hd (rank_tokens e) \<noteq> SIGN (CHR '';'')"
  by (induction e) (auto simp: bracket_def hd_append)

lemma compute_rank_tree:
  assumes "rank_names e"
  shows "gw_host_compute_rank (Some h) q (Some (unlex (rank_tokens e))) = rank_eval h q e"
proof -
  have "rank_fits (rank_level e) []" by simp
  then have "rank_operand h q [] (rank_tokens e @ []) =
      do { v \<leftarrow> rank_eval h q e; rank_operator h q [] v [] }"
    using rank_reads_all [of h q e] by (simp only: rank_reads_def high_next_sign simp_thms)
  moreover have "rank_operator h q [] v [] = Some (VALUE v)" for v
    by (simp add: rank_operator.simps)
  moreover have "rank_tokens e \<noteq> [SIGN (CHR '';'')]" "rank_tokens e \<noteq> []"
    using rank_tokens_first [of e] by auto
  moreover have "host_attr_lex (unlex (rank_tokens e)) = rank_tokens e"
    by (rule lex_unlex [OF rank_tokens_ok [OF assms]])
  ultimately show ?thesis
    by (cases "rank_eval h q e") (simp_all add: gw_host_compute_rank_def host_rank_parse_def)
qed

text \<open>C23 (refinement).  A written rank whose numbers fit an \<open>int\<close> is evaluated to the value of its tree: products bind
  tighter than sums, operators of one level associate to the left, a sign takes a whole product.  The
  evaluation ends the daemon exactly where the tree has no value: a division by zero, a
  result outside the range of \<open>int\<close>, or a variable read outside its table.\<close>

theorem rank_evaluated:
  assumes "rank_names e"
  shows "gw_host_compute_rank (Some h) q (Some (unlex (rank_tokens e))) = rank_eval h q e"
  using assms by (rule compute_rank_tree)

theorem rank_evaluated_witness:
  "gw_host_compute_rank (Some (gw_host_init ''orca'' 0 1 ''gram'' ''ftp'' ''mds'')) 0
     (Some (unlex [INTEGER 7, SIGN (CHR ''-''), INTEGER 2, SIGN (CHR ''-''), INTEGER 3])) = Some 2
   \<and> gw_host_compute_rank (Some (gw_host_init ''orca'' 0 1 ''gram'' ''ftp'' ''mds'')) 0
     (Some (unlex [INTEGER 100, SIGN (CHR ''/''), VARIABLE CPU_MHZ])) = None"
  using rank_evaluated [of "RSub (RSub (RNum 7) (RNum 2)) (RNum 3)"]
    rank_evaluated [of "RDiv (RNum 100) (RVar CPU_MHZ)"]
  by (simp add: bracket_def c_int_def c_div_def in_int_def gw_host_get_var_int_def gw_host_init_def Let_def
      GW_HOST_MAX_QUEUES_def)

text \<open>A minus that touches the digits after it is taken into the number, and what is left is no
  expression: the rank is zero.\<close>

lemma minus_sticks: "gw_host_compute_rank (Some h) q (Some ''CPU_FREE-3'') = Some 0"
  by (simp add: gw_host_compute_rank_def host_rank_parse_def host_attr_lex.simps is_letter_def is_digit_def
      is_name_char_def name_token_def host_keywords_def rank_operand.simps rank_operator.simps
      gw_host_get_var_int_def)

text \<open>A number outside the range wraps around when it is read.\<close>

lemma rank_wraps: "gw_host_compute_rank (Some h) q (Some ''3000000000'') = Some (- 1294967296)"
  by (simp add: gw_host_compute_rank_def host_rank_parse_def lex_wraps rank_operand.simps rank_operator.simps
      high_next_def)

section \<open>Requirements\<close>

datatype reqs_exp =
    QCmp host_token comp host_token
  | QNot reqs_exp
  | QAnd reqs_exp reqs_exp
  | QOr reqs_exp reqs_exp

fun comp_tokens :: "comp \<Rightarrow> host_token list" where
  "comp_tokens EQ = [SIGN (CHR ''='')]"
| "comp_tokens NE = [SIGN (CHR ''!''), SIGN (CHR ''='')]"
| "comp_tokens GT = [SIGN (CHR ''>'')]"
| "comp_tokens LT = [SIGN (CHR ''<'')]"

fun reqs_eval :: "(string \<Rightarrow> string \<Rightarrow> bool) \<Rightarrow> gw_host \<Rightarrow> int \<Rightarrow> reqs_exp \<Rightarrow> bool option" where
  "reqs_eval glob h q (QCmp x c y) = Option.bind (reqs_compare glob h q x c y) id"
| "reqs_eval glob h q (QNot a) = map_option Not (reqs_eval glob h q a)"
| "reqs_eval glob h q (QAnd a b) = do { x \<leftarrow> reqs_eval glob h q a; y \<leftarrow> reqs_eval glob h q b; Some (x \<and> y) }"
| "reqs_eval glob h q (QOr a b) = do { x \<leftarrow> reqs_eval glob h q a; y \<leftarrow> reqs_eval glob h q b; Some (x \<or> y) }"

definition is_binary :: "reqs_exp \<Rightarrow> bool" where
  "is_binary e \<longleftrightarrow> (case e of QAnd _ _ \<Rightarrow> True | QOr _ _ \<Rightarrow> True | _ \<Rightarrow> False)"

text \<open>No brackets around a left operand, whichever of the two operators it has.\<close>

fun reqs_tokens :: "reqs_exp \<Rightarrow> host_token list" where
  "reqs_tokens (QCmp x c y) = x # comp_tokens c @ [y]"
| "reqs_tokens (QNot a) = SIGN (CHR ''!'') # bracket (is_binary a) (reqs_tokens a)"
| "reqs_tokens (QAnd a b) = reqs_tokens a @ SIGN (CHR ''&'') # bracket (is_binary b) (reqs_tokens b)"
| "reqs_tokens (QOr a b) = reqs_tokens a @ SIGN (CHR ''|'') # bracket (is_binary b) (reqs_tokens b)"

fun reqs_ok :: "reqs_exp \<Rightarrow> bool" where
  "reqs_ok (QCmp x c y) \<longleftrightarrow> token_ok x \<and> token_ok y \<and> (case x of VARIABLE _ \<Rightarrow> True | GENERICVAR _ \<Rightarrow> True | _ \<Rightarrow> False)
     \<and> (case y of INTEGER _ \<Rightarrow> True | STRING _ \<Rightarrow> c = EQ \<or> c = NE | _ \<Rightarrow> False)"
| "reqs_ok (QNot a) = reqs_ok a"
| "reqs_ok (QAnd a b) = (reqs_ok a \<and> reqs_ok b)"
| "reqs_ok (QOr a b) = (reqs_ok a \<and> reqs_ok b)"

definition top_bracket :: "reqs_frame list \<Rightarrow> bool" where
  "top_bracket st \<longleftrightarrow> st = [] \<or> hd st = Q_PAREN"

lemma reqs_reduce_stays: "top_bracket st \<Longrightarrow> reqs_reduce st v = (st, v)"
  by (cases "(st, v)" rule: reqs_reduce.cases) (auto simp: top_bracket_def)

lemma reqs_first:
  "reqs_operand glob h q st (SIGN (CHR ''!'') # ts) = reqs_operand glob h q (Q_NOT # st) ts"
  "reqs_operand glob h q st (SIGN (CHR ''('') # ts) = reqs_operand glob h q (Q_PAREN # st) ts"
  by (simp_all add: reqs_operand.simps)

lemma reqs_open:
  "top_bracket st \<Longrightarrow> reqs_operator glob h q st v (SIGN (CHR ''&'') # ts) = reqs_operand glob h q (Q_AND v # st) ts"
  "top_bracket st \<Longrightarrow> reqs_operator glob h q st v (SIGN (CHR ''|'') # ts) = reqs_operand glob h q (Q_OR v # st) ts"
  "reqs_operator glob h q (Q_PAREN # st) v (SIGN (CHR '')'') # ts) = reqs_operator glob h q st v ts"
  by (subst reqs_operator.simps, simp add: reqs_reduce_stays)+

lemma reqs_close:
  "reqs_operator glob h q (Q_NOT # st) v ts = reqs_operator glob h q st (\<not> v) ts"
  "reqs_operator glob h q (Q_AND a # st) v ts = reqs_operator glob h q st (a \<and> v) ts"
  "reqs_operator glob h q (Q_OR a # st) v ts = reqs_operator glob h q st (a \<or> v) ts"
  by (simp_all add: reqs_operator.simps)

lemma comparison_op_tokens: "comparison_op (comp_tokens c @ ts) = Some (c, ts)"
  by (cases c) simp_all

lemma reqs_compare_ok: "reqs_ok (QCmp x c y) \<Longrightarrow> reqs_compare glob h q x c y \<noteq> None"
  by (cases x; cases y; cases c) auto

definition reqs_reads :: "(string \<Rightarrow> string \<Rightarrow> bool) \<Rightarrow> gw_host \<Rightarrow> int \<Rightarrow> reqs_exp \<Rightarrow> bool" where
  "reqs_reads glob h q e \<longleftrightarrow> (\<forall>st ts. (is_binary e \<longrightarrow> top_bracket st) \<longrightarrow>
     reqs_operand glob h q st (reqs_tokens e @ ts) =
       do { v \<leftarrow> reqs_eval glob h q e; reqs_operator glob h q st v ts })"

lemma reqs_reads_bracket:
  assumes "reqs_reads glob h q e"
  shows "reqs_operand glob h q st (bracket (is_binary e) (reqs_tokens e) @ ts) =
    do { v \<leftarrow> reqs_eval glob h q e; reqs_operator glob h q st v ts }"
proof -
  have "top_bracket (Q_PAREN # st)" by (simp add: top_bracket_def)
  with assms show ?thesis
    by (cases "is_binary e") (simp_all add: reqs_reads_def bracket_def reqs_first reqs_open)
qed

lemma reqs_reads_left:
  assumes "reqs_reads glob h q e" and "top_bracket st"
  shows "reqs_operand glob h q st (reqs_tokens e @ ts) =
    do { v \<leftarrow> reqs_eval glob h q e; reqs_operator glob h q st v ts }"
  using assms by (simp add: reqs_reads_def)

lemma reqs_reads_cmp:
  assumes "reqs_ok (QCmp x c y)"
  shows "reqs_reads glob h q (QCmp x c y)"
  unfolding reqs_reads_def
proof (intro allI impI)
  fix st ts
  obtain r where r: "reqs_compare glob h q x c y = Some r" using reqs_compare_ok [OF assms] by blast
  have "reqs_operand glob h q st (x # comp_tokens c @ y # ts) =
      (case r of None \<Rightarrow> None | Some v \<Rightarrow> reqs_operator glob h q st v ts)"
    using assms r by (subst reqs_operand.simps) (auto simp: comparison_op_tokens split: host_token.splits)
  then show "reqs_operand glob h q st (reqs_tokens (QCmp x c y) @ ts) =
      do { v \<leftarrow> reqs_eval glob h q (QCmp x c y); reqs_operator glob h q st v ts }"
    using r by (cases r) simp_all
qed

lemma reqs_reads_all: "reqs_ok e \<Longrightarrow> reqs_reads glob h q e"
proof (induction e)
  case (QNot a)
  then show ?case
    unfolding reqs_reads_def [of glob h q "QNot a"]
    by (cases "reqs_eval glob h q a") (auto simp: reqs_first reqs_close reqs_reads_bracket)
next
  case (QAnd a b)
  then show ?case
    unfolding reqs_reads_def [of glob h q "QAnd a b"]
    by (cases "reqs_eval glob h q a"; cases "reqs_eval glob h q b")
      (auto simp: is_binary_def reqs_open reqs_close reqs_reads_left reqs_reads_bracket [unfolded is_binary_def])
next
  case (QOr a b)
  then show ?case
    unfolding reqs_reads_def [of glob h q "QOr a b"]
    by (cases "reqs_eval glob h q a"; cases "reqs_eval glob h q b")
      (auto simp: is_binary_def reqs_open reqs_close reqs_reads_left reqs_reads_bracket [unfolded is_binary_def])
qed (rule reqs_reads_cmp)

lemma reqs_tokens_ok: "reqs_ok e \<Longrightarrow> list_all token_ok (reqs_tokens e)"
proof (induction e)
  case (QCmp x c y) then show ?case by (cases c) (simp_all add: operator_chars_def)
qed (auto simp: bracket_ok operator_chars_def)

lemma reqs_tokens_first: "reqs_ok e \<Longrightarrow> reqs_tokens e \<noteq> [] \<and> reqs_tokens e \<noteq> [SIGN (CHR '';'')]"
  by (induction e) (auto simp: append_eq_Cons_conv)

lemma check_reqs_tree:
  assumes "reqs_ok e"
  shows "gw_host_check_reqs glob (Some h) q (Some (unlex (reqs_tokens e))) = reqs_eval glob h q e"
proof -
  have "top_bracket []" by (simp add: top_bracket_def)
  then have "reqs_operand glob h q [] (reqs_tokens e @ []) =
      do { v \<leftarrow> reqs_eval glob h q e; reqs_operator glob h q [] v [] }"
    using reqs_reads_all [OF assms, of glob h q] by (simp only: reqs_reads_def simp_thms)
  moreover have "reqs_operator glob h q [] v [] = Some (VALUE v)" for v
    by (simp add: reqs_operator.simps)
  moreover have "host_attr_lex (unlex (reqs_tokens e)) = reqs_tokens e"
    by (rule lex_unlex [OF reqs_tokens_ok [OF assms]])
  ultimately show ?thesis
    using reqs_tokens_first [OF assms]
    by (cases "reqs_eval glob h q e") (simp_all add: gw_host_check_reqs_def host_reqs_parse_def)
qed

text \<open>C24 (refinement).  Written requirements whose numbers fit an \<open>int\<close> are evaluated to the value of their tree, where the two operators
  have one precedence and associate to the left, and a negation takes one operand.  The
  evaluation ends the daemon exactly where the tree has no value: where a comparison
  with the empty string is evaluated, or a variable is read outside its table.\<close>

theorem reqs_evaluated:
  assumes "reqs_ok e"
  shows "gw_host_check_reqs glob (Some h) q (Some (unlex (reqs_tokens e))) = reqs_eval glob h q e"
  using assms by (rule check_reqs_tree)

definition example_arch_host :: gw_host where
  "example_arch_host = (gw_host_init ''orca'' 0 1 ''gram'' ''ftp'' ''mds'')\<lparr>host_arch := Some ''i686''\<rparr>"

text \<open>\<open>ARCH = "i686" | CPU_SMP = 1 & NODECOUNT = 1\<close> is false on this host, since the
  disjunction is taken first; a comparison of a known attribute with \<open>""\<close> ends the daemon.\<close>

theorem reqs_evaluated_witness:
  "gw_host_check_reqs (=) (Some example_arch_host) 0 (Some (unlex
       [VARIABLE ARCH, SIGN (CHR ''=''), STRING (Some ''i686''), SIGN (CHR ''|''),
        VARIABLE CPU_SMP, SIGN (CHR ''=''), INTEGER 1, SIGN (CHR ''&''),
        VARIABLE NODECOUNT, SIGN (CHR ''=''), INTEGER 1])) = Some False
   \<and> gw_host_check_reqs (=) (Some example_arch_host) 0
       (Some (unlex [VARIABLE ARCH, SIGN (CHR ''=''), STRING None])) = None"
  using reqs_evaluated [of "QAnd (QOr (QCmp (VARIABLE ARCH) EQ (STRING (Some ''i686'')))
      (QCmp (VARIABLE CPU_SMP) EQ (INTEGER 1))) (QCmp (VARIABLE NODECOUNT) EQ (INTEGER 1))" "(=)" example_arch_host 0]
    reqs_evaluated [of "QCmp (VARIABLE ARCH) EQ (STRING None)" "(=)" example_arch_host 0]
  by (simp add: bracket_def is_binary_def gw_host_get_var_int_def gw_host_get_var_str_def example_arch_host_def
      gw_host_init_def Let_def GW_HOST_MAX_QUEUES_def matches_def in_int_def)

end
