(* ===== verification/Gw_Host_Uses.thy ===== *)
theory Gw_Host_Uses
  imports Gw_Host_Eval Rm_Safety
begin

text \<open>
  The answer of the request manager to a match request, in terms of the trees of \<open>Gw_Host_Eval\<close>
  that the requirements and the rank of the job are written from.
\<close>

text \<open>The hosts one of whose named queues makes the requirements true.\<close>

definition hosts_where :: "(string \<Rightarrow> string \<Rightarrow> bool) \<Rightarrow> reqs_exp \<Rightarrow> gw_rm \<Rightarrow> int list \<Rightarrow> int list" where
  "hosts_where glob e rm = filter (\<lambda>k.
     case gw_host_pool_get_host (w_hosts (rm_world rm)) k of
       None \<Rightarrow> False
     | Some h \<Rightarrow> list_ex (\<lambda>(i, q). reqs_eval glob h i e = Some True) (named_queues h))"

text \<open>The requirements have a value on each named queue of these hosts, and the rank where they are true.\<close>

definition have_values ::
    "(string \<Rightarrow> string \<Rightarrow> bool) \<Rightarrow> reqs_exp \<Rightarrow> rank_exp \<Rightarrow> gw_rm \<Rightarrow> int list \<Rightarrow> bool" where
  "have_values glob e r rm = list_all (\<lambda>k.
     case gw_host_pool_get_host (w_hosts (rm_world rm)) k of
       None \<Rightarrow> True
     | Some h \<Rightarrow> list_all (\<lambda>(i, q). reqs_eval glob h i e \<noteq> None
         \<and> (reqs_eval glob h i e = Some True \<longrightarrow> rank_eval h i r \<noteq> None)) (named_queues h))"

text \<open>What a message says of the queues of its host: whether each matches, and with which rank.\<close>

definition queues_told ::
    "(string \<Rightarrow> string \<Rightarrow> bool) \<Rightarrow> reqs_exp \<Rightarrow> rank_exp \<Rightarrow> gw_rm \<Rightarrow> rm_msg_match \<Rightarrow> bool" where
  "queues_told glob e r rm m \<longleftrightarrow> (\<exists>h. gw_host_pool_get_host (w_hosts (rm_world rm)) (mc_host_id m) = Some h
     \<and> map (\<lambda>q. (mc_match q, mc_rank q)) (mc_queues m) = map (\<lambda>(i, q).
          if reqs_eval glob h i e = Some True then (1, the (rank_eval h i r)) else (0, 0)) (named_queues h))"

lemma match_queue_told:
  assumes "match_queue_to_msg glob reqs rank h i q = Some y"
  shows "(mc_match y, mc_rank y) = (if gw_host_check_reqs glob (Some h) i reqs = Some True
    then (1, the (gw_host_compute_rank (Some h) i rank)) else (0, 0))"
  using assms by (auto simp: match_queue_to_msg_def Let_def bind_eq_Some_conv split: if_splits)

lemma made_for_told:
  assumes "made_for rm jid job m" and "tables_ok rm" and "reqs_ok e" and "rank_names r"
    and "jt_requirements (job_template job) = Some (unlex (reqs_tokens e))"
    and "jt_rank (job_template job) = Some (unlex (rank_tokens r))"
  shows "queues_told (rm_glob rm) e r rm m"
proof -
  let ?f = "match_queue_to_msg (rm_glob rm) (jt_requirements (job_template job)) (jt_rank (job_template job))"
  obtain h where h: "gw_host_pool_get_host (w_hosts (rm_world rm)) (mc_host_id m) = Some h"
    "each_queue (?f h) h 0 GW_HOST_MAX_QUEUES = Some (mc_queues m)"
    using assms(1) by (cases m) (auto simp: made_for_def host_match_to_msg_def bind_eq_Some_conv)
  with assms(2) have "length (host_queue_name h) = GW_HOST_MAX_QUEUES"
    by (auto simp: tables_ok_def host_tables_def)
  from each_queue_named [OF this, of "?f h"] h(2) have all: "list_all (\<lambda>(i, q). ?f h i q \<noteq> None) (named_queues h)"
    "mc_queues m = map (\<lambda>(i, q). the (?f h i q)) (named_queues h)" by (simp_all split: if_splits)
  have "(mc_match (the (?f h i q)), mc_rank (the (?f h i q))) =
      (if reqs_eval (rm_glob rm) h i e = Some True then (1, the (rank_eval h i r)) else (0, 0))"
    if "(i, q) \<in> set (named_queues h)" for i q
  proof -
    from all(1) that obtain y where "?f h i q = Some y" by (auto simp: list_all_iff)
    from match_queue_told [OF this] this show ?thesis
      using assms(5,6) check_reqs_tree [OF assms(3)] compute_rank_tree [OF assms(4)] by simp
  qed
  then show ?thesis using h(1) all(2) by (auto simp: queues_told_def)
qed

text \<open>C22 (functional).  A client asks on which hosts a job with written requirements and a written rank may
  run.  If these have values on the queues of the hosts, the client is told of exactly the hosts with a
  queue on which the tree of the requirements is true, in the order of their numbers, and of each
  queue whether it is and then the value of the rank; otherwise, at a comparison with the empty
  string or a division by zero for instance, the daemon ends.\<close>

theorem requirements_choose_hosts:
  assumes "tables_ok rm" and "gw_job_pool_get (rm_world rm) jid = Some job"
    and "reqs_ok e" and "rank_names r"
    and "jt_requirements (job_template job) = Some (unlex (reqs_tokens e))"
    and "jt_rank (job_template job) = Some (unlex (rank_tokens r))"
  shows "case gw_rm_job_match s jid rm of
      None \<Rightarrow> \<not> have_values (rm_glob rm) e r rm [0 .. conf_number_of_hosts (w_conf (rm_world rm)) - 1]
    | Some rm' \<Rightarrow> have_values (rm_glob rm) e r rm [0 .. conf_number_of_hosts (w_conf (rm_world rm)) - 1]
      \<and> (\<exists>ms. rm_sent rm' = rm_sent rm @ map (\<lambda>m. (s, OUT_MATCH m)) ms @ [(s, OUT_END GW_MSG_END_JOB GW_RC_SUCCESS None)]
        \<and> map mc_host_id ms = hosts_where (rm_glob rm) e rm [0 .. conf_number_of_hosts (w_conf (rm_world rm)) - 1]
        \<and> list_all (queues_told (rm_glob rm) e r rm) ms)"
proof -
  have "matching_hosts rm job = hosts_where (rm_glob rm) e rm"
    unfolding matching_hosts_def hosts_where_def some_match_def assms(5) check_reqs_tree [OF assms(3)] ..
  moreover have "hosts_evaluate rm job = have_values (rm_glob rm) e r rm"
    unfolding hosts_evaluate_def have_values_def evaluates_def assms(5,6) check_reqs_tree [OF assms(3)]
      compute_rank_tree [OF assms(4)] ..
  moreover have "list_all (queues_told (rm_glob rm) e r rm) ms" if "list_all (made_for rm jid job) ms" for ms
    using that made_for_told [OF _ assms(1,3-6)] by (auto simp: list_all_iff)
  ultimately show ?thesis using match_run [OF assms(1,2), of s] by (auto split: option.splits)
qed

text \<open>Of two hosts with a queue, the one with the architecture the job asks for; and a rank that
  divides by a number no host has yet.\<close>

definition arch_reqs :: reqs_exp where
  "arch_reqs = QCmp (VARIABLE ARCH) EQ (STRING (Some ''i686''))"

definition job_with_rank :: "rank_exp \<Rightarrow> gw_job" where
  "job_with_rank r = example_job\<lparr>job_template := (job_template example_job)
     \<lparr>jt_requirements := Some (unlex (reqs_tokens arch_reqs)), jt_rank := Some (unlex (rank_tokens r))\<rparr>\<rparr>"

definition two_hosts :: "rank_exp \<Rightarrow> gw_rm \<Rightarrow> gw_rm" where
  "two_hosts r rm = rm\<lparr>rm_world := (rm_world rm)\<lparr>
      w_conf := example_conf\<lparr>conf_number_of_hosts := 2\<rparr>,
      w_hosts := (w_hosts (rm_world rm))\<lparr>pool_slots := [Some match_host, Some (match_host\<lparr>host_arch := Some ''i686''\<rparr>)]\<rparr>,
      w_jobs := (w_jobs (rm_world rm))\<lparr>pool_slots := [Some (job_with_rank r)]\<rparr>\<rparr>,
    rm_glob := (=)\<rparr>"

lemma two_hosts_get:
  "gw_host_pool_get_host (w_hosts (rm_world (two_hosts r rm))) k =
     (if k = 0 then Some match_host else if k = 1 then Some (match_host\<lparr>host_arch := Some ''i686''\<rparr>) else None)"
  by (auto simp: two_hosts_def gw_host_pool_get_host_def pool_get_def slot_def rd_def nth_Cons')

lemma two_hosts_tables: "tables_ok (two_hosts r rm)"
  by (auto simp: tables_ok_def two_hosts_get match_host_def host_tables_def gw_host_init_def Let_def
      GW_HOST_MAX_QUEUES_def split: if_splits)

lemma two_hosts_fields:
  "gw_job_pool_get (rm_world (two_hosts r rm)) 0 = Some (job_with_rank r)"
  "rm_glob (two_hosts r rm) = (=)" "rm_sent (two_hosts r rm) = rm_sent rm"
  "conf_number_of_hosts (w_conf (rm_world (two_hosts r rm))) = 2" "reqs_ok arch_reqs"
  "jt_requirements (job_template (job_with_rank r)) = Some (unlex (reqs_tokens arch_reqs))"
  "jt_rank (job_template (job_with_rank r)) = Some (unlex (rank_tokens r))"
  by (simp_all add: two_hosts_def gw_job_pool_get_def pool_get_def slot_def rd_def job_with_rank_def arch_reqs_def)

lemma two_hosts_queues:
  "named_queues match_host = [(0, ''short'')]" "named_queues (match_host\<lparr>host_arch := Some ''i686''\<rparr>) = [(0, ''short'')]"
  by (simp_all add: named_queues_def match_host_def eval_nat_numeral)

lemma two_hosts_reqs:
  "reqs_eval (=) match_host 0 arch_reqs = Some False"
  "reqs_eval (=) (match_host\<lparr>host_arch := Some ''i686''\<rparr>) 0 arch_reqs = Some True"
  by (simp_all add: arch_reqs_def gw_host_get_var_str_def matches_def match_host_def gw_host_init_def Let_def
      GW_HOST_MAX_QUEUES_def)

lemma two_hosts_where: "hosts_where (=) arch_reqs (two_hosts r rm) [0 .. 1] = [1]"
  "have_values (=) arch_reqs r (two_hosts r rm) [0 .. 1] \<longleftrightarrow> rank_eval (match_host\<lparr>host_arch := Some ''i686''\<rparr>) 0 r \<noteq> None"
proof -
  have "[0 .. 1] = [0, 1 :: int]" by (simp add: upto.simps)
  then show "hosts_where (=) arch_reqs (two_hosts r rm) [0 .. 1] = [1]"
    "have_values (=) arch_reqs r (two_hosts r rm) [0 .. 1] \<longleftrightarrow> rank_eval (match_host\<lparr>host_arch := Some ''i686''\<rparr>) 0 r \<noteq> None"
    by (simp_all add: hosts_where_def have_values_def two_hosts_get two_hosts_queues two_hosts_reqs
        del: not_None_eq)
qed

theorem requirements_choose_hosts_witness:
  "\<forall>rm. (\<exists>rm' ms. gw_rm_job_match 4 0 (two_hosts (RVar CPU_MHZ) rm) = Some rm' \<and> map mc_host_id ms = [1]
     \<and> rm_sent rm' = rm_sent rm @ map (\<lambda>m. (4, OUT_MATCH m)) ms @ [(4, OUT_END GW_MSG_END_JOB GW_RC_SUCCESS None)])
   \<and> gw_rm_job_match 4 0 (two_hosts (RDiv (RNum 100) (RVar CPU_MHZ)) rm) = None"
proof
  fix rm
  let ?good = "RVar CPU_MHZ" and ?bad = "RDiv (RNum 100) (RVar CPU_MHZ)"
  have names: "rank_names ?good" "rank_names ?bad" by (simp_all add: in_int_def)
  have mhz: "gw_host_get_var_int CPU_MHZ 0 (match_host\<lparr>host_arch := Some ''i686''\<rparr>) = Some 0"
    by (simp add: gw_host_get_var_int_def match_host_def gw_host_init_def Let_def GW_HOST_MAX_QUEUES_def)
  have "have_values (=) arch_reqs ?good (two_hosts ?good rm) [0 .. 1]"
    "\<not> have_values (=) arch_reqs ?bad (two_hosts ?bad rm) [0 .. 1]"
    by (simp_all add: two_hosts_where mhz c_div_def)
  note vals = this
  note run = requirements_choose_hosts [OF two_hosts_tables two_hosts_fields(1,5) names(1) two_hosts_fields(6,7), of rm 4]
    requirements_choose_hosts [OF two_hosts_tables two_hosts_fields(1,5) names(2) two_hosts_fields(6,7), of rm 4]
  have "gw_rm_job_match 4 0 (two_hosts ?bad rm) = None"
    using run(2) vals(2) by (simp add: two_hosts_fields split: option.splits)
  moreover obtain rm' where "gw_rm_job_match 4 0 (two_hosts ?good rm) = Some rm'"
    using run(1) vals(1) by (auto simp: two_hosts_fields split: option.splits)
  moreover have "(2 :: int) - 1 = 1" by simp
  ultimately show "(\<exists>rm' ms. gw_rm_job_match 4 0 (two_hosts ?good rm) = Some rm' \<and> map mc_host_id ms = [1]
     \<and> rm_sent rm' = rm_sent rm @ map (\<lambda>m. (4, OUT_MATCH m)) ms @ [(4, OUT_END GW_MSG_END_JOB GW_RC_SUCCESS None)])
   \<and> gw_rm_job_match 4 0 (two_hosts ?bad rm) = None"
    using run(1) by (simp only: option.case two_hosts_fields two_hosts_where(1)) metis
qed

end
