(* ===== verification/Tm_Prolog.thy ===== *)
theory Tm_Prolog
  imports Tm_Transfer
begin

text \<open>
  A prolog from its first line to its last answer, \<open>src/tm/gw_tm_prolog.c\<close> and
  \<open>src/tm/gw_tm_listener.c\<close>: the transfers of any job, those without a source, those that
  need no copy (an absolute path, as the default \<open>STDIN_FILE = /dev/null\<close> is) and those
  whose URLs cannot be built among them.
\<close>

section \<open>What becomes of a transfer\<close>

definition urls_of ::
    "(string \<Rightarrow> gw_job \<Rightarrow> string option) \<Rightarrow> gw_job \<Rightarrow> gw_xfr \<Rightarrow> built option" where
  "urls_of subst job e = (case xfr_src_url e of
      None \<Rightarrow> None
    | Some src \<Rightarrow> gw_tm_prolog_build_urls subst job src (xfr_dst_url e))"

definition is_copied :: "(string \<Rightarrow> gw_job \<Rightarrow> string option) \<Rightarrow> gw_job \<Rightarrow> gw_xfr \<Rightarrow> bool" where
  "is_copied subst job e \<longleftrightarrow> (case urls_of subst job e of Some (URLS s d) \<Rightarrow> True | _ \<Rightarrow> False)"

definition is_lost :: "(string \<Rightarrow> gw_job \<Rightarrow> string option) \<Rightarrow> gw_job \<Rightarrow> gw_xfr \<Rightarrow> bool" where
  "is_lost subst job e \<longleftrightarrow> (case urls_of subst job e of Some (NO_URLS rc) \<Rightarrow> rc \<noteq> 1 | _ \<Rightarrow> False)"

text \<open>The transfer at the end, when the driver makes every copy it is told to make.\<close>

definition fate :: "(string \<Rightarrow> gw_job \<Rightarrow> string option) \<Rightarrow> gw_job \<Rightarrow> gw_xfr \<Rightarrow> gw_xfr" where
  "fate subst job e = (case urls_of subst job e of
      None \<Rightarrow> e
    | Some (URLS s d) \<Rightarrow> xfr_settle True e
    | Some (NO_URLS rc) \<Rightarrow> xfr_finish (rc = 1) e)"

text \<open>The transfer after the loop that starts the copies.\<close>

definition begun :: "(string \<Rightarrow> gw_job \<Rightarrow> string option) \<Rightarrow> gw_job \<Rightarrow> gw_xfr \<Rightarrow> gw_xfr" where
  "begun subst job e = (if is_copied subst job e then e else fate subst job e)"

definition with_transfers :: "gw_job \<Rightarrow> gw_xfr list \<Rightarrow> gw_job" where
  "with_transfers job ys = job\<lparr>job_xfrs := (job_xfrs job)\<lparr>xfrs_xfrs := Some ys\<rparr>\<rparr>"

text \<open>The transfers while those with the numbers \<open>js\<close> are being copied.\<close>

definition while_copying ::
    "(string \<Rightarrow> gw_job \<Rightarrow> string option) \<Rightarrow> gw_job \<Rightarrow> gw_xfr list \<Rightarrow> nat list \<Rightarrow> gw_xfr list" where
  "while_copying subst job xs js =
     map (\<lambda>j. if j \<in> set js then xs ! j else fate subst job (xs ! j)) [0..<length xs]"

definition copy_numbers :: "(string \<Rightarrow> gw_job \<Rightarrow> string option) \<Rightarrow> gw_job \<Rightarrow> gw_xfr list \<Rightarrow> nat list" where
  "copy_numbers subst job xs = filter (\<lambda>j. is_copied subst job (xs ! j)) [0..<length xs]"

lemma with_transfers_sel [simp]:
  "job_history (with_transfers job ys) = job_history job" "job_tm_state (with_transfers job ys) = job_tm_state job"
  "job_job_state (with_transfers job ys) = job_job_state job" "job_id (with_transfers job ys) = job_id job"
  "job_template (with_transfers job ys) = job_template job"
  "xfrs_xfrs (job_xfrs (with_transfers job ys)) = Some ys"
  "xfrs_number (job_xfrs (with_transfers job ys)) = xfrs_number (job_xfrs job)"
  "xfrs_failure_limit (job_xfrs (with_transfers job ys)) = xfrs_failure_limit (job_xfrs job)"
  "with_transfers (with_transfers job ys) zs = with_transfers job zs"
  by (simp_all add: with_transfers_def)

lemma with_transfers_same: "xfrs_xfrs (job_xfrs job) = Some xs \<Longrightarrow> with_transfers job xs = job"
  by (cases "job_xfrs job") (simp add: with_transfers_def)

lemma fate_src [simp]: "xfr_src_url (fate subst job e) = xfr_src_url e"
  by (simp add: fate_def xfr_settle_def xfr_finish_def split: option.split built.split)

lemma copied_src: "is_copied subst job e \<Longrightarrow> xfr_src_url e \<noteq> None"
  by (auto simp: is_copied_def urls_of_def split: option.splits)

lemma fate_copied: "is_copied subst job e \<Longrightarrow> fate subst job e = xfr_settle True e"
  by (auto simp: is_copied_def fate_def split: option.splits built.splits)

lemma fate_done:
  "urls_of subst job e \<noteq> None \<Longrightarrow> xfr_done (fate subst job e)"
  by (auto simp: fate_def xfr_settle_def xfr_finish_def split: option.splits built.splits)

lemma fate_failed:
  assumes "xfr_src_url e \<noteq> None \<longrightarrow> urls_of subst job e \<noteq> None"
  shows "xfr_src_url e \<noteq> None \<and> \<not> xfr_success (fate subst job e) \<longleftrightarrow> is_lost subst job e"
  using assms
  by (auto simp: fate_def is_lost_def urls_of_def xfr_settle_def xfr_finish_def split: option.splits built.splits)

lemma build_urls_xfrs:
  assumes "\<forall>s ys. subst s (with_transfers job ys) = subst s job"
  shows "gw_tm_prolog_build_urls subst (with_transfers job ys) = gw_tm_prolog_build_urls subst job"
proof -
  have hist: "hist_at 0 (with_transfers job ys) = hist_at 0 job" by (simp add: hist_at_def)
  from assms have subst: "subst s (with_transfers job ys) = subst s job" for s by blast
  show ?thesis
    by (intro ext) (unfold gw_tm_prolog_build_urls_def with_transfers_sel hist subst, rule refl)
qed

section \<open>The start of the copies\<close>

lemma some_failed_iff:
  assumes "xfrs_xfrs x = Some ys" and "i + k \<le> length ys"
  shows "some_failed x (int i) k =
    Some (list_ex (\<lambda>e. xfr_src_url e \<noteq> None \<and> \<not> xfr_success e) (take k (drop i ys)))"
  using assms
proof (induction k arbitrary: i)
  case (Suc k)
  then have e: "xfr_at x (int i) = Some (ys ! i)" and d: "drop i ys = ys ! i # drop (Suc i) ys"
    by (simp_all add: xfr_at_def Cons_nth_drop_Suc)
  with Suc.IH [of "Suc i"] Suc.prems show ?case by (auto simp: add.commute)
qed simp

lemma prolog_copies_begun:
  assumes "\<forall>s ys. subst s (with_transfers job ys) = subst s job" and "job_history job \<noteq> []"
    and "\<forall>e \<in> set xs. xfr_src_url e \<noteq> None \<longrightarrow> urls_of subst job e \<noteq> None"
    and "i + k = length xs"
  shows "\<exists>ls. prolog_copies subst (int i) k pend (with_transfers job (map (begun subst job) (take i xs) @ drop i xs)) =
      Some ((tm_skip (with_transfers job (map (begun subst job) xs)))\<lparr>tm_lines := ls\<rparr>, pend + int (length ls))
    \<and> map (\<lambda>l. answer_of (snd l)) ls =
        map (\<lambda>j. (''CP'', int j)) (filter (\<lambda>j. is_copied subst job (xs ! j)) [i..<length xs])"
  using assms(4)
proof (induction k arbitrary: i pend)
  case (Suc k)
  let ?ys = "\<lambda>i. map (begun subst job) (take i xs) @ drop i xs"
  let ?job = "with_transfers job (?ys i)"
  from Suc.prems have i: "i < length xs" by simp
  then have nth: "?ys i ! i = xs ! i" and step: "(?ys i)[i := begun subst job (xs ! i)] = ?ys (Suc i)"
    by (simp_all add: nth_append list_update_append take_Suc_conv_app_nth flip: Cons_nth_drop_Suc)
  have at: "xfr_at (job_xfrs ?job) (int i) = Some (xs ! i)" using i nth by (simp add: xfr_at_def)
  have up: "[i..<length xs] = i # [Suc i..<length xs]" using i by (simp add: upt_conv_Cons)
  have same: "?ys (Suc i) = ?ys i" if "begun subst job (xs ! i) = xs ! i"
    using step that nth by (metis list_update_id)
  note build = build_urls_xfrs [OF assms(1), of "?ys i"]
  show ?case
  proof (cases "urls_of subst job (xs ! i)")
    case None
    with assms(3) i have src: "xfr_src_url (xs ! i) = None" by (meson nth_mem)
    with None have b: "begun subst job (xs ! i) = xs ! i" "\<not> is_copied subst job (xs ! i)"
      by (auto simp: begun_def fate_def is_copied_def)
    with Suc.IH [of "Suc i" pend] Suc.prems at src show ?thesis
      by (simp add: up same [OF b(1)] add.commute)
  next
    case (Some u)
    then obtain src where src: "xfr_src_url (xs ! i) = Some src"
      "gw_tm_prolog_build_urls subst job src (xfr_dst_url (xs ! i)) = Some u"
      by (auto simp: urls_of_def split: option.splits)
    show ?thesis
    proof (cases u)
      case (NO_URLS rc)
      with Some have b: "begun subst job (xs ! i) = xfr_finish (rc = 1) (xs ! i)" "\<not> is_copied subst job (xs ! i)"
        by (auto simp: begun_def fate_def is_copied_def)
      have "upd_xfr (int i) (xfr_finish (rc = 1)) ?job = Some (with_transfers job (?ys (Suc i)))"
        using upd_xfr_at [of ?job "?ys i" i "xfr_finish (rc = 1)"] i nth step b(1)
        by (simp add: with_transfers_def)
      with Suc.IH [of "Suc i" pend] Suc.prems at src NO_URLS b(2) build show ?thesis
        by (simp add: up add.commute)
    next
      case (URLS s d)
      with Some have b: "begun subst job (xs ! i) = xs ! i" "is_copied subst job (xs ! i)"
        by (auto simp: begun_def is_copied_def)
      let ?l = "(hist_tm_mad (hd (job_history job)), TM_CP (job_id job) (int i) (xfr_mode (xs ! i)) s (cstr d))"
      from Suc.IH [of "Suc i" "pend + 1"] Suc.prems obtain ls where
        ls: "prolog_copies subst (int (Suc i)) k (pend + 1) ?job =
            Some ((tm_skip (with_transfers job (map (begun subst job) xs)))\<lparr>tm_lines := ls\<rparr>, pend + 1 + int (length ls))"
          "map (\<lambda>l. answer_of (snd l)) ls =
            map (\<lambda>j. (''CP'', int j)) (filter (\<lambda>j. is_copied subst job (xs ! j)) [Suc i..<length xs])"
        unfolding same [OF b(1)] by auto
      have "prolog_copies subst (int i) (Suc k) pend ?job =
          Some ((tm_skip (with_transfers job (map (begun subst job) xs)))\<lparr>tm_lines := ?l # ls\<rparr>,
            pend + int (length (?l # ls)))"
        using at src URLS build ls(1) assms(2) by (simp add: send_cp_def tm_send_some tm_skip_def add.commute)
      moreover have "map (\<lambda>l. answer_of (snd l)) (?l # ls) =
          map (\<lambda>j. (''CP'', int j)) (filter (\<lambda>j. is_copied subst job (xs ! j)) [i..<length xs])"
        using ls(2) b(2) by (simp add: up)
      ultimately show ?thesis by blast
    qed
  qed
qed (simp add: tm_skip_def)

lemma begun_while_copying:
  "map (begun subst job) xs = while_copying subst job xs (copy_numbers subst job xs)"
  by (rule nth_equalityI) (simp_all add: while_copying_def copy_numbers_def begun_def)

section \<open>The answers to the copies\<close>

lemma while_copying_step:
  assumes "distinct (j # js)" and "j < length xs" and "is_copied subst job (xs ! j)"
  shows "(while_copying subst job xs (j # js))[j := xfr_settle True (while_copying subst job xs (j # js) ! j)]
    = while_copying subst job xs js"
  using assms by (intro nth_equalityI) (auto simp: while_copying_def nth_list_update fate_copied)

lemma pending_while_copying:
  assumes "xfrs_number (job_xfrs job) = int (length xs)" and "\<forall>e \<in> set xs. \<not> xfr_done e"
    and "\<forall>e \<in> set xs. xfr_src_url e \<noteq> None \<longrightarrow> urls_of subst job e \<noteq> None"
    and "distinct js" and "\<forall>j \<in> set js. j < length xs \<and> is_copied subst job (xs ! j)"
  shows "gw_xfr_pending (job_xfrs (with_transfers job (while_copying subst job xs js))) = Some (int (length js))"
proof -
  let ?f = "\<lambda>j. if j \<in> set js then xs ! j else fate subst job (xs ! j)"
  let ?P = "\<lambda>f. xfr_src_url f \<noteq> None \<and> \<not> xfr_done f"
  have "?P (?f j) \<longleftrightarrow> j \<in> set js" if "j < length xs" for j
    using assms(2,3,5) that copied_src fate_done by (auto simp: list_all_iff)
  then have "filter (?P \<circ> ?f) [0..<length xs] = filter (\<lambda>j. j \<in> set js) [0..<length xs]"
    by (intro filter_cong) auto
  moreover have "set (filter (\<lambda>j. j \<in> set js) [0..<length xs]) = set js" using assms(5) by auto
  then have "length (filter (\<lambda>j. j \<in> set js) [0..<length xs]) = length js"
    using assms(4) by (metis distinct_card distinct_filter distinct_upt)
  ultimately have "length (filter ?P (map ?f [0..<length xs])) = length js"
    by (simp add: filter_map)
  with assms(1) show ?thesis by (simp add: gw_xfr_pending_def while_copying_def)
qed

lemma driver_run_more:
  "driver_run n junk subst ls job = Some r \<Longrightarrow> n \<le> m \<Longrightarrow> driver_run m junk subst ls job = Some r"
proof (induction n junk subst ls job arbitrary: m r rule: driver_run.induct)
  case (3 fuel junk subst mad msg ls job)
  then obtain m' where m: "m = Suc m'" "fuel \<le> m'" by (cases m) auto
  from "3.prems"(1) obtain a where a: "tm_answer junk subst mad (fst (answer_of msg)) (snd (answer_of msg)) False job = Some a"
    by (auto simp: bind_eq_Some_conv)
  with "3.prems"(1) obtain j p where "driver_run fuel junk subst (ls @ tm_lines a) (tm_job a) = Some (j, p)"
    by (auto simp: bind_eq_Some_conv)
  with "3.IH" [OF a this m(2)] "3.prems"(1) a m(1) show ?case by simp
qed simp_all

text \<open>
  The copies are answered in the order of their lines; \<open>r\<close> is what the last answer leaves.
\<close>

lemma driver_run_copying:
  assumes "map (\<lambda>l. answer_of (snd l)) ls = map (\<lambda>j. (''CP'', int j)) js" and "js \<noteq> []" and "distinct js"
    and js: "\<forall>j \<in> set js. j < length xs \<and> is_copied subst job (xs ! j)"
    and state: "job_tm_state job = GW_TM_STATE_PROLOG" "job_history job \<noteq> []"
    and number: "xfrs_number (job_xfrs job) = int (length xs)" and fresh: "\<forall>e \<in> set xs. \<not> xfr_done e"
    and urls: "\<forall>e \<in> set xs. xfr_src_url e \<noteq> None \<longrightarrow> urls_of subst job e \<noteq> None"
    and last: "prolog_complete (with_transfers job (while_copying subst job xs [])) = Some r" "tm_posts r = []"
    and fin: "driver_run m junk subst (tm_lines r) (tm_job r) = Some (job', posts)"
  shows "driver_run (length ls + m) junk subst ls (with_transfers job (while_copying subst job xs js)) = Some (job', posts)"
  using assms(1-3) js
proof (induction js arbitrary: ls)
  case (Cons j js)
  then obtain mad msg ls' where ls: "ls = (mad, msg) # ls'" "answer_of msg = (''CP'', int j)"
    "map (\<lambda>l. answer_of (snd l)) ls' = map (\<lambda>j. (''CP'', int j)) js"
    by (cases ls) auto
  let ?job = "with_transfers job (while_copying subst job xs (j # js))" and ?next = "with_transfers job (while_copying subst job xs js)"
  have j: "j < length xs" "is_copied subst job (xs ! j)" using Cons.prems(4) by auto
  have "length (while_copying subst job xs (j # js)) = length xs" by (simp add: while_copying_def)
  then have "upd_xfr (int j) (xfr_settle True) ?job = Some ?next"
    using upd_xfr_at [of ?job _ j "xfr_settle True"] j while_copying_step [OF Cons.prems(3) j]
    by (simp add: with_transfers_def)
  moreover have "gw_xfr_pending (job_xfrs ?next) = Some (int (length js))"
    using Cons.prems(3,4) by (intro pending_while_copying [OF number fresh urls]) auto
  ultimately have answer: "tm_answer junk subst mad ''CP'' (int j) False ?job =
      (if js = [] then Some r else Some (tm_skip ?next))"
    using state last(1)
    by (auto simp: tm_answer_def gw_tm_cp_action_cb_def gw_tm_prolog_cp_cb_def tm_then_skip)
  show ?case
  proof (cases "js = []")
    case True
    with ls answer fin last(2) show ?thesis by simp
  next
    case False
    have "driver_run (length ls' + m) junk subst ls' ?next = Some (job', posts)"
      using Cons.prems(3,4) False by (intro Cons.IH [OF ls(3)]) auto
    with False answer ls show ?thesis by (simp add: tm_skip_def)
  qed
qed simp

section \<open>A prolog to its end\<close>

lemma prolog_last_lines:
  assumes "xfrs_xfrs (job_xfrs job) = Some ys" and "xfrs_failure_limit (job_xfrs job) \<le> int (length ys)"
    and "job_history job \<noteq> []" and "job_tm_state job = GW_TM_STATE_PROLOG"
    and failed: "failed = list_ex (\<lambda>e. xfr_src_url e \<noteq> None \<and> \<not> xfr_success e)
      (take (nat (xfrs_failure_limit (job_xfrs job))) ys)"
  shows "\<exists>r. prolog_complete job = Some r \<and> tm_posts r = []
    \<and> driver_run (if failed then 2 else 1) junk subst (tm_lines r) (tm_job r) = Some
        (job\<lparr>job_tm_state := GW_TM_STATE_INIT\<rparr>, [if failed then ''GW_DM_PROLOG_FAILED'' else ''GW_DM_PROLOG_DONE''])"
proof -
  obtain h hs where h: "job_history job = h # hs" using assms(3) by (cases "job_history job") auto
  have "some_failed (job_xfrs job) 0 (nat (xfrs_failure_limit (job_xfrs job))) = Some failed"
    using some_failed_iff [OF assms(1), of 0] assms(2) failed by simp
  with h assms(4) show ?thesis
    by (auto simp: prolog_complete_def send_rmdir_def send_end_def tm_send_def hist_at_def tm_then_def
        tm_state_to_def tm_skip_def tm_answer_def gw_tm_rmdir_action_cb_def gw_tm_end_action_cb_def
        tm_post_def eval_nat_numeral)
qed

lemma lost_not_copied: "is_lost subst job e \<Longrightarrow> \<not> is_copied subst job e"
  by (cases "urls_of subst job e") (auto simp: is_lost_def is_copied_def split: built.splits)

text \<open>The copies a prolog starts are fewer than its transfers when one is lost.\<close>

lemma copy_numbers_fewer:
  assumes "list_ex (is_lost subst job) (take k xs)"
  shows "length (copy_numbers subst job xs) < length xs"
proof -
  obtain e where "e \<in> set xs" "\<not> is_copied subst job e"
    using assms lost_not_copied by (fastforce simp: list_ex_iff dest: in_set_takeD)
  then obtain j where "j < length xs" "\<not> is_copied subst job (xs ! j)" by (auto simp: in_set_conv_nth)
  then have "j \<in> set [0..<length xs]" "\<not> is_copied subst job (xs ! j)" by auto
  from length_filter_less [of j "[0..<length xs]" "\<lambda>j. is_copied subst job (xs ! j)"] this
  show ?thesis by (simp add: copy_numbers_def)
qed

text \<open>C14 (liveness).
  A prolog whose driver answers every line with success ends, whatever its transfers are:
  without a source (skipped), with an absolute path as source (done without a copy), with
  URLs that can be built (copied) or with URLs that cannot.  After at most \<open>n + 4\<close> lines (the
  start, the old directory removed, the new one made, a copy for each transfer that needs
  one, the end) the dispatch manager is told once that the prolog is done, or that it
  failed if the URLs of a transfer below the failure limit cannot be built; each transfer
  is then what its URLs make of it, and nothing else of the job has changed but the state
  of the transfer manager.  It is assumed that no transfer is done yet, that no URL ends
  the daemon, and that what a substitution gives does not depend on the state of the
  transfers.\<close>

theorem prolog_ends:
  assumes xs: "xfrs_xfrs (job_xfrs job) = Some xs" "xfrs_number (job_xfrs job) = int (length xs)"
    and limit: "xfrs_failure_limit (job_xfrs job) \<le> int (length xs)"
    and fresh: "\<forall>e \<in> set xs. \<not> xfr_done e"
    and state: "job_tm_state job = GW_TM_STATE_PROLOG" "job_history job \<noteq> []"
    and urls: "\<forall>e \<in> set xs. xfr_src_url e \<noteq> None \<longrightarrow> urls_of subst job e \<noteq> None"
    and subst: "\<forall>s ys. subst s (with_transfers job ys) = subst s job"
  shows "driver_run (length xs + 4) junk subst [(mad, TM_START (job_id job))] job = Some
    ((with_transfers job (map (fate subst job) xs))\<lparr>job_tm_state := GW_TM_STATE_INIT\<rparr>,
     [if list_ex (is_lost subst job) (take (nat (xfrs_failure_limit (job_xfrs job))) xs)
      then ''GW_DM_PROLOG_FAILED'' else ''GW_DM_PROLOG_DONE''])"
proof -
  let ?limit = "nat (xfrs_failure_limit (job_xfrs job))"
  let ?failed = "list_ex (is_lost subst job) (take ?limit xs)" and ?ys = "map (fate subst job) xs"
  let ?js = "copy_numbers subst job xs" and ?done = "with_transfers job (map (fate subst job) xs)"
  let ?final = "(?done\<lparr>job_tm_state := GW_TM_STATE_INIT\<rparr>,
     [if ?failed then ''GW_DM_PROLOG_FAILED'' else ''GW_DM_PROLOG_DONE''])"
  have js: "distinct ?js" "\<forall>j \<in> set ?js. j < length xs \<and> is_copied subst job (xs ! j)"
    by (auto simp: copy_numbers_def)
  have all: "while_copying subst job xs [] = ?ys" by (intro nth_equalityI) (simp_all add: while_copying_def)
  have "(xfr_src_url e \<noteq> None \<and> \<not> xfr_success (fate subst job e)) = is_lost subst job e"
    if "e \<in> set (take ?limit xs)" for e
    using fate_failed [of e subst job] urls in_set_takeD [OF that] by blast
  then have failed: "?failed = list_ex (\<lambda>e. xfr_src_url e \<noteq> None \<and> \<not> xfr_success e) (take ?limit ?ys)"
    by (auto simp: take_map list_ex_iff)
  then obtain r where r: "prolog_complete ?done = Some r" "tm_posts r = []"
    "driver_run (if ?failed then 2 else 1) junk subst (tm_lines r) (tm_job r) = Some ?final"
    using prolog_last_lines [of ?done ?ys ?failed junk subst] limit state failed
    by (simp only: with_transfers_sel length_map) blast
  obtain ls where ls: "prolog_copies subst 0 (length xs) 0 job =
      Some ((tm_skip (with_transfers job (while_copying subst job xs ?js)))\<lparr>tm_lines := ls\<rparr>, int (length ls))"
    "map (\<lambda>l. answer_of (snd l)) ls = map (\<lambda>j. (''CP'', int j)) ?js"
    using prolog_copies_begun [OF subst state(2) urls, of 0 "length xs" 0] with_transfers_same [OF xs(1)]
    by (auto simp: begun_while_copying copy_numbers_def)
  have n: "length ls = length ?js" using ls(2) by (metis length_map)
  have copied: "driver_run (length xs + 1) junk subst (tm_lines q) (tm_job q) = Some ?final \<and> tm_posts q = []"
    if q: "gw_tm_prolog_stage_in subst job = Some q" for q
  proof (cases "?js = []")
    case True
    with ls n r xs(2) state(2) q all have "q = r"
      by (cases r) (simp add: gw_tm_prolog_stage_in_def tm_then_def tm_skip_def)
    moreover have "(if ?failed then 2 else 1) \<le> length xs + 1"
      by (cases xs) auto
    ultimately show ?thesis using r(2) driver_run_more [OF r(3)] by simp
  next
    case False
    with ls n xs(2) state(2) q have q': "q = (tm_skip (with_transfers job (while_copying subst job xs ?js)))\<lparr>tm_lines := ls\<rparr>"
      by (simp add: gw_tm_prolog_stage_in_def)
    have run: "driver_run (length ls + (if ?failed then 2 else 1)) junk subst ls
        (with_transfers job (while_copying subst job xs ?js)) = Some ?final"
      by (rule driver_run_copying [OF ls(2) False js state xs(2) fresh urls _ r(2,3)]) (simp add: all r(1))
    have "length ?js \<le> length xs" using length_filter_le [of _ "[0..<length xs]"] by (simp add: copy_numbers_def)
    then have "length ls + (if ?failed then 2 else 1) \<le> length xs + 1"
      using copy_numbers_fewer [of subst job ?limit xs] n by auto
    then show ?thesis using driver_run_more [OF run] by (simp add: q' tm_skip_def)
  qed
  have "\<exists>q. gw_tm_prolog_stage_in subst job = Some q"
    using ls n r(1) xs(2) state(2) all by (auto simp: gw_tm_prolog_stage_in_def tm_then_def tm_skip_def)
  then obtain q where q: "gw_tm_prolog_stage_in subst job = Some q" by blast
  obtain h hs where "job_history job = h # hs" using state(2) by (cases "job_history job") auto
  with q copied [OF q] state(1) show ?thesis
    by (simp add: eval_nat_numeral tm_answer_def gw_tm_start_action_cb_def gw_tm_rmdir_action_cb_def
        gw_tm_mkdir_action_cb_def tm_reply_def tm_skip_def hist_at_def)
qed

text \<open>
  A file of the job's directory, the default standard input and an unused entry; and the
  same when no substitution succeeds.
\<close>

definition default_transfers :: "gw_xfr list" where
  "default_transfers = [example_xfr, example_xfr\<lparr>xfr_src_url := Some ''/dev/null''\<rparr>,
     example_xfr\<lparr>xfr_src_url := None\<rparr>]"

theorem prolog_ends_witness:
  "(\<exists>job' ys. driver_run 7 (CHR ''?'') no_subst
      [(''ftp'', TM_START (job_id (example_transfers GW_TM_STATE_PROLOG 3 default_transfers)))]
      (example_transfers GW_TM_STATE_PROLOG 3 default_transfers) = Some (job', [''GW_DM_PROLOG_DONE''])
    \<and> xfrs_xfrs (job_xfrs job') = Some ys \<and> map xfr_success ys = [True, True, False])
   \<and> (\<exists>job'. driver_run 7 (CHR ''?'') (\<lambda>s job. None)
      [(''ftp'', TM_START (job_id (example_transfers GW_TM_STATE_PROLOG 3 default_transfers)))]
      (example_transfers GW_TM_STATE_PROLOG 3 default_transfers) = Some (job', [''GW_DM_PROLOG_FAILED'']))"
proof -
  let ?job = "example_transfers GW_TM_STATE_PROLOG 3 default_transfers"
  have urls: "\<forall>e \<in> set default_transfers. xfr_src_url e \<noteq> None \<longrightarrow> urls_of no_subst ?job e \<noteq> None"
    "\<forall>e \<in> set default_transfers. xfr_src_url e \<noteq> None \<longrightarrow> urls_of (\<lambda>s job. None) ?job e \<noteq> None"
    by (simp_all add: default_transfers_def example_xfr_def urls_of_def gw_tm_prolog_build_urls_def no_subst_def
        hist_at_def Let_def)
  have job: "xfrs_xfrs (job_xfrs ?job) = Some default_transfers"
    "xfrs_number (job_xfrs ?job) = int (length default_transfers)"
    "xfrs_failure_limit (job_xfrs ?job) \<le> int (length default_transfers)"
    "\<forall>e \<in> set default_transfers. \<not> xfr_done e" "job_tm_state ?job = GW_TM_STATE_PROLOG" "job_history ?job \<noteq> []"
    by (simp_all add: default_transfers_def example_xfr_def)
  have "length default_transfers + 4 = 7" by (simp add: default_transfers_def)
  moreover have "\<not> list_ex (is_lost no_subst ?job) default_transfers"
    "list_ex (is_lost (\<lambda>s job. None) ?job) default_transfers"
    "map xfr_success (map (fate no_subst ?job) default_transfers) = [True, True, False]"
    by (simp_all add: default_transfers_def example_xfr_def is_lost_def fate_def xfr_settle_def xfr_finish_def
        urls_of_def gw_tm_prolog_build_urls_def no_subst_def hist_at_def Let_def)
  moreover have "take 3 default_transfers = default_transfers" by (simp add: default_transfers_def)
  ultimately show ?thesis
    using prolog_ends [of ?job default_transfers no_subst "CHR ''?''" "''ftp''", OF job urls(1)]
      prolog_ends [of ?job default_transfers "\<lambda>s job. None" "CHR ''?''" "''ftp''", OF job urls(2)]
    by (simp add: no_subst_def)
qed

end
