(* ===== verification/Spec2Isabelle.thy ===== *)
theory Spec2Isabelle
  imports Gw_Daemon Sch_Answer Rm_Manager Rm_Listener Im_Faults Um_Manager Gw_Host_Uses Tm_Prolog
begin

text \<open>
  The GridWay daemon of DRM4G, \<open>src/gridway-5.8\<close>: the metascheduler that takes jobs
  from clients, asks a scheduler for hosts, stages their files in and out through
  transfer drivers and runs them through execution drivers.

  \<^bold>\<open>The program.\<close>  \<open>gwd\<close> is a process of several managers.  A manager is a thread with an
  action manager (\<open>common/gw_action.c\<close>): a table of named functions and a chain of
  pending actions, to which the other managers post a name with a job's identifier.
  The dispatch manager (\<open>dm\<close>) owns the state machine of jobs; it asks the transfer
  manager (\<open>tm\<close>) for the prolog and the epilog of a job and the execution manager
  (\<open>em\<close>) for its execution, and they answer with actions.  \<open>em\<close> and \<open>tm\<close> write lines
  to driver processes and read their answers.  The scheduler is a process of its own,
  told of hosts, users and jobs by lines and answering with dispatches.  Jobs, hosts,
  users and arrays live in pools: fixed arrays of pointers, shared by the managers
  under a lock per job and per pool.

  \<^bold>\<open>Conventions.\<close>  An operation is a function on the state \<open>gwd\<close> of \<open>Gw_World\<close>, or on
  the part of it that it touches.  \<open>None\<close> as the result of an operation is a crash:
  a NULL pointer dereferenced, an index outside its array, a buffer that is overrun, a
  format that does not fit its argument; return codes are values.  A handler runs with
  its job locked, so one handler is one step and the interleavings of the managers are
  sequences of steps.  Strings are lists of characters without the final zero, C
  integers are \<open>int\<close>; the bounds of 32 bits are written out where input reaches them, in the
  scanner, the ranks and the lines of the scheduler, lists that C keeps in arrays have the length of the array.

  \<^bold>\<open>The theories.\<close>
  \<^item> \<open>Gw_Prelude\<close>: array accesses \<open>rd\<close> and \<open>wr\<close>, the predicate \<open>keeps\<close> on results.
  \<^item> \<open>Gw_Types\<close>, \<open>Gw_Structs\<close>: the enumerations and the structs of \<open>include\<close>.
  \<^item> \<open>Gw_Pools\<close>: the pools, with the locale \<open>slot_pool\<close> of their laws.
  \<^item> \<open>Gw_Action\<close>, \<open>Gw_Table\<close>: \<open>common/gw_action.c\<close>; the locale \<open>registered_table\<close> says
    that a manager whose actions are registered is a queue of names, and every manager
    interprets it on its own registrations.
  \<^item> \<open>Gw_Host\<close>, \<open>Gw_Host_Var\<close>, \<open>Gw_Host_Pool\<close>: \<open>host\<close>.  \<open>Gw_User_Pool\<close>: \<open>um\<close>.
    \<open>Gw_Array\<close>: \<open>array\<close>.  \<open>Gw_Job\<close>, \<open>Gw_History\<close>, \<open>Gw_Job_Pool\<close>: \<open>job\<close>.
  \<^item> \<open>Gw_Dm_Mad\<close>: the lines to the scheduler (\<open>dm/gw_dm_mad.c\<close>) and their reader
    (\<open>scheduler/gw_scheduler_common.c\<close>).  \<open>Gw_Mad_Line\<close>: the lines of the drivers.
  \<^item> \<open>Gw_Xfr\<close>: the lists of files a prolog and the epilogs transfer.
  \<^item> \<open>Gw_World\<close>: the state of the daemon and the primitives of its handlers.
  \<^item> \<open>Dm_States\<close>, \<open>Dm_Actions\<close>: every handler of \<open>dm\<close>.  \<open>Dm_Frame\<close>, \<open>Dm_Machine\<close>: the
    contract \<open>job_step\<close> of an operation on one job and \<open>wide_step\<close> of one that may free
    it or release others, shown for every handler.  \<open>Dm_System\<close>: runs.  \<open>Dm_Manager\<close>: the
    registrations of \<open>dm\<close> and \<open>rm\<close>.
  \<^item> \<open>Gw_Sweep\<close>: the loops over all jobs (locale \<open>job_sweep\<close>).
  \<^item> \<open>Tm_Transfer\<close>, \<open>Tm_Manager\<close>: \<open>tm\<close>.  \<open>Tm_Prolog\<close>: a prolog to its end.  \<open>Em_Actions\<close>, \<open>Em_Manager\<close>: \<open>em\<close>.
  \<^item> \<open>Gw_Daemon\<close>: the managers together.
  \<^item> The scheduler, \<open>src/scheduler\<close>.  \<open>Gw_Float\<close>: \<open>float\<close> and \<open>double\<close> as IEEE numbers
    over the rationals.  \<open>Sch_Conf\<close>: its configuration, \<open>gwd/gw_sch_conf.c\<close> (locale
    \<open>conf_table\<close> for the seven tables).  \<open>Sch_State\<close>: its tables and the operations on them;
    \<open>Sch_Invariant\<close>: the invariant \<open>sch_ok\<close>; \<open>Sch_Ban\<close>: bans and windows.  \<open>Sch_Match\<close>,
    \<open>Sch_Choice\<close>: match-making.  \<open>Sch_Rank\<close>, \<open>Sch_Jobs\<close>: the policies of hosts and of jobs.
    \<open>Sch_Dispatch\<close>, \<open>Sch_Flood\<close>: the two scheduler programs (locale \<open>job_pass\<close>).
    \<open>Sch_Steps\<close>: what a scheduling action leaves alone; the locale \<open>scheduler_function\<close> is
    what the loop expects of a program.  \<open>Sch_Loop\<close>: the message loop.  \<open>Sch_Answer\<close>: its
    lines as the daemon's \<open>dm/gw_dm_listener.c\<close> reads them.
  \<^item> The request manager, \<open>rm\<close>, whose state \<open>gw_rm\<close> is the daemon's with the list of
    waiting clients and the messages sent.  \<open>Rm_Messages\<close>: the messages and the functions
    that fill them.  \<open>Rm_Connections\<close>: the list (locale \<open>mailbox\<close>, with an instance for
    each of its two ways to take a request out).  \<open>Rm_Replies\<close>: the answers; \<open>Rm_Answers\<close>,
    \<open>Rm_Waiters\<close>: what they amount to.  \<open>Rm_Requests\<close>: the requests with their checks;
    \<open>Rm_Safety\<close>: their properties.  \<open>Rm_Manager\<close>: the registrations, and a request on its
    way through \<open>rm\<close>, \<open>dm\<close> and back.  \<open>Rm_Listener\<close>: the sockets of the listener.
  \<^item> The information manager, \<open>im\<close>, whose state \<open>gw_im\<close> holds its drivers, the number of active
    queries and the pool of hosts.  \<open>Im_Drivers\<close>: the start, the restart and the registration of
    drivers.  \<open>Im_Actions\<close>: the timer, the requests, the lines of the drivers and the listener.
    \<open>Im_Manager\<close>: the invariant \<open>im_ok\<close> and the runs \<open>im_reach\<close>.  \<open>Im_Safety\<close>: the registrations
    and the round over the hosts.  \<open>Im_Faults\<close>: the crashes and what is lost.
    \<open>Um_Manager\<close>: the user manager.
  \<^item> The expressions on hosts.  \<open>Gw_Host_Lex\<close>: the scanner of \<open>host/gw_host_attr_parser.l\<close>.
    \<open>Gw_Host_Expr\<close>: the parsers of requirements and ranks, which evaluate while they parse.
    \<open>Gw_Host_Eval\<close>: syntax trees and their values.  \<open>Gw_Host_Update\<close>: the attributes of the
    information drivers.  \<open>Gw_Host_Uses\<close>: the answer of \<open>rm\<close> to a
    match request in terms of the trees.
  \<^bold>\<open>What is shown.\<close>
  \<^item> The state machine of jobs: which edges every action takes (\<open>dm_transition_graph\<close>),
    and that only the dispatch manager takes them (\<open>daemon_refines\<close>); what holds in every
    run of the daemon (\<open>daemon_run_invariant\<close>, \<open>dm_run_dep_check\<close>).
  \<^item> The managers' queues refine to lists of names (\<open>dm_manager_trigger\<close>,
    \<open>dm_manager_loop\<close>).
  \<^item> Progress: a prolog and an epilog end when the driver does its part
    (\<open>prolog_ends\<close>, \<open>epilog_succeeds\<close>), a failed execution is retried after the right
    number of ticks (\<open>em_failed_is_retried\<close>), cancelling ends without the driver's help
    (\<open>em_cancel_gives_up\<close>).
  \<^item> The scheduler: no run of its loop leaves an array (\<open>scheduler_run_safe\<close>), what a
    scheduling action places and what it leaves (\<open>gw_sched_within_limits\<close>,
    \<open>gw_sched_leaves_no_room\<close>), that the flood scheduler ends (\<open>flood_scheduler_ends\<close>), the
    order the policies give (\<open>job_policies_order\<close>, \<open>host_policies_order\<close>), which hosts a job
    gets (\<open>match_job_chooses\<close>), and that the daemon does what the scheduler decided
    (\<open>decisions_reach_daemon\<close>).
  \<^item> The request manager: who may act on a job (\<open>requests_authorised\<close>), that a hold or a
    release is answered with what happened (\<open>hold_release_answered\<close>), whom the end of a job
    is told to (\<open>wait_success_tells_all\<close>), that the answers to the scheduler are as the
    scheduler's theorems assume (\<open>job_match_reply\<close>), and that the listener watches every
    connection (\<open>listener_watches_all\<close>).
  \<^item> The information manager: what the number of active queries counts, and that no run with
    drivers that answer what they are asked, about hosts that exist and with attributes that fit
    the tables of the host, crashes (\<open>im_queries_counted\<close>), that a round reaches
    every host (\<open>im_round_reaches_all\<close>), and from which entry of the configuration a driver
    takes its execution and transfer drivers (\<open>im_mads_registered\<close>).
  \<^item> The expressions on hosts: requirements and ranks have the values of their trees
    (\<open>reqs_evaluated\<close>, \<open>rank_evaluated\<close>), they choose the hosts a client is told of
    (\<open>requirements_choose_hosts\<close>), and an attribute line either stores outside a table of its
    host, in the cases that \<open>update_attr_outcome\<close> names, or leaves the identity, the state and
    the counters of the host alone.
  \<^item> The functional behaviour of the operations, what they leave alone, round trips of
    what is written and read, and exact bounds of the transfer arrays.
  \<^item> Faults of the code, stated as theorems about it: overruns of arrays and buffers
    (\<open>..._overrun\<close>, \<open>..._overflow\<close>, \<open>copy_answer_outside\<close>, \<open>tm_answer_scanned\<close>), crashes
    (\<open>em_job_gone\<close>, \<open>gw_job_pool_dep_check_orphan\<close>), jobs that hang
    (\<open>prolog_without_retries_hangs\<close>, \<open>em_failed_is_retried\<close> for no tries), a daemon that
    blocks on its own lock (\<open>wait_success_blocks\<close>) and answers that go to the wrong client
    (\<open>resume_failed_answers_releases\<close>, \<open>stale_request_listed\<close>), lines of an information driver
    that end the daemon (\<open>im_message_crashes\<close>) and discoveries that are lost
    (\<open>im_discovery_lost\<close>).
  \<^bold>\<open>Bounds and fuel.\<close>  Loops over a pool or an array have the length of the array as a
  structural argument.  \<open>driver_run\<close>, the only definition with fuel, answers at most that
  many lines; \<open>n + 4\<close> lines are enough for a prolog of \<open>n\<close> transfers and \<open>n + 3\<close> for an
  epilog, which the two liveness theorems state as a result.

  \<open>flood_rounds\<close> is a partial function and is shown to end.

  \<^bold>\<open>Parameters.\<close>  For the scheduler: \<open>qsort\<close> (a permutation; for the theorems on order
  also sorted by the comparison), \<open>exp\<close> (between 0 and 1 up to 0), the replies of the
  client library and the accounting data base.  The generated parser behind \<open>gw_job_substitute\<close>, the
  file system, the clock, \<open>rand\<close>, the contents of memory from \<open>malloc\<close>, the text of a job
  description and whether a driver starts are fields of the state or arguments.

  The requests of clients, what \<open>accept\<close> and \<open>recv\<close> return, and \<open>fnmatch\<close> (the field
  \<open>rm_glob\<close>) are parameters of the request manager; it evaluates the requirements and the ranks of
  templates with the modelled evaluators, and a crash of theirs is one of its own.

  What \<open>pipe\<close>, \<open>fork\<close>, \<open>select\<close> and \<open>read\<close> give is part of the events of the information manager;
  it stores the attributes of hosts with the modelled parser.

  \<^bold>\<open>Not modelled.\<close>  Threads, signals, system calls and processes; the formats of job
  descriptions (\<open>em/gw_em_rsl.c\<close> and its relatives); configuration
  files and their parsers, the tables of the generated parsers; accounting; the client library, the commands and the DRMAA binding; the
  drivers and the Python programs of \<open>src/drm4g\<close>.
\<close>

end
